(* ===== verification/Prelude.thy ===== *)
theory Prelude
  imports Main "HOL-Library.Word" "HOL-Library.AList" "HOL-Library.Monad_Syntax"
    "HOL-Library.Code_Target_Numeral"
begin

text \<open>
  Shared vocabulary of the development: the names of the machine types, the \<^verbatim>\<open>Result\<close> type
  of the program as a sum, the fragments of the Rust standard library that the program uses
  (strings as UTF-8 byte sequences, slices, ordered maps, saturating arithmetic), the lemma
  collections, and the generic contract of a component whose operations keep an invariant.
\<close>

unbundle bit_operations_syntax

named_theorems result_simps \<open>evaluation of early returns\<close>
named_theorems string_simps \<open>splitting, joining and stripping of strings\<close>
named_theorems inv_intros \<open>preservation of component invariants\<close>

section \<open>Machine types\<close>

type_synonym u8 = "8 word"
type_synonym u16 = "16 word"
type_synonym u32 = "32 word"
type_synonym bytes = "u8 list"

text \<open>
  \<^verbatim>\<open>u64\<close> and \<^verbatim>\<open>usize\<close> quantities are natural numbers below \<open>2 ^ 64\<close>. Plain \<^verbatim>\<open>+\<close> and \<^verbatim>\<open>-\<close>
  of the release build wrap, \<^verbatim>\<open>checked_add\<close> fails, \<^verbatim>\<open>saturating_\<dots>\<close> clamps.
\<close>

definition U64_MAX :: nat where
  "U64_MAX = 2 ^ 64 - 1"

definition wrapping_add :: "nat \<Rightarrow> nat \<Rightarrow> nat" where
  "wrapping_add a b = (a + b) mod 2 ^ 64"

definition wrapping_sub :: "nat \<Rightarrow> nat \<Rightarrow> nat" where
  "wrapping_sub a b = (if b \<le> a then a - b else 2 ^ 64 + a - b)"

definition checked_add :: "nat \<Rightarrow> nat \<Rightarrow> nat option" where
  "checked_add a b = (if a + b \<le> U64_MAX then Some (a + b) else None)"

definition saturating_add :: "nat \<Rightarrow> nat \<Rightarrow> nat" where
  "saturating_add a b = min (a + b) U64_MAX"

text \<open>\<^verbatim>\<open>saturating_sub\<close> is subtraction on \<^typ>\<open>nat\<close>.\<close>

lemma wrapping_add_no_overflow [simp]: "a + b < 2 ^ 64 \<Longrightarrow> wrapping_add a b = a + b"
  by (simp add: wrapping_add_def)

lemma wrapping_sub_le [simp]: "b \<le> a \<Longrightarrow> wrapping_sub a b = a - b"
  by (simp add: wrapping_sub_def)

lemma checked_add_Some [simp]: "checked_add a b = Some c \<longleftrightarrow> c = a + b \<and> a + b \<le> U64_MAX"
  by (auto simp: checked_add_def)

lemma saturating_add_le: "saturating_add a b \<le> a + b"
  by (simp add: saturating_add_def)

text \<open>
  A \<^verbatim>\<open>Duration\<close> (and an \<^verbatim>\<open>Instant\<close>, relative to the start of the process) is a number of
  nanoseconds; the largest duration has \<open>2 ^ 64 - 1\<close> seconds and 999\,999\,999 nanoseconds.
\<close>

type_synonym duration = nat

definition NANOS_PER_SEC :: nat where "NANOS_PER_SEC = 1000000000"

definition DURATION_MAX :: duration where
  "DURATION_MAX = 2 ^ 64 * NANOS_PER_SEC - 1"

definition duration_saturating_add :: "duration \<Rightarrow> duration \<Rightarrow> duration" where
  "duration_saturating_add a b = min (a + b) DURATION_MAX"

definition from_secs :: "nat \<Rightarrow> duration" where "from_secs s = s * NANOS_PER_SEC"
definition from_millis :: "nat \<Rightarrow> duration" where "from_millis m = m * 1000000"
definition as_secs :: "duration \<Rightarrow> nat" where "as_secs d = d div NANOS_PER_SEC"
definition as_millis :: "duration \<Rightarrow> nat" where "as_millis d = d div 1000000"
definition as_micros :: "duration \<Rightarrow> nat" where "as_micros d = d div 1000"

lemma duration_saturating_add_le: "duration_saturating_add a b \<le> a + b"
  by (simp add: duration_saturating_add_def)

section \<open>Results\<close>

type_synonym ('a, 'e) result = "'e + 'a"

abbreviation Ok :: "'a \<Rightarrow> ('a, 'e) result" where "Ok \<equiv> Inr"
abbreviation Err :: "'e \<Rightarrow> ('a, 'e) result" where "Err \<equiv> Inl"

text \<open>The \<^verbatim>\<open>?\<close> operator.\<close>

definition and_then :: "('a, 'e) result \<Rightarrow> ('a \<Rightarrow> ('b, 'e) result) \<Rightarrow> ('b, 'e) result" where
  "and_then r f = (case r of Inl e \<Rightarrow> Inl e | Inr x \<Rightarrow> f x)"

definition is_ok :: "('a, 'e) result \<Rightarrow> bool" where
  "is_ok r = (case r of Inl _ \<Rightarrow> False | Inr _ \<Rightarrow> True)"

definition ok_or :: "'a option \<Rightarrow> 'e \<Rightarrow> ('a, 'e) result" where
  "ok_or x e = (case x of None \<Rightarrow> Inl e | Some v \<Rightarrow> Inr v)"

definition map_err :: "('e \<Rightarrow> 'f) \<Rightarrow> ('a, 'e) result \<Rightarrow> ('a, 'f) result" where
  "map_err f r = (case r of Inl e \<Rightarrow> Inl (f e) | Inr x \<Rightarrow> Inr x)"

lemma map_err_simps [simp]: "map_err f (Inr x) = Inr x" "map_err f (Inl e) = Inl (f e)"
  by (simp_all add: map_err_def)

lemma map_err_Inr_iff [result_simps]: "map_err f r = Inr x \<longleftrightarrow> r = Inr x"
  by (cases r) (simp_all add: map_err_def)

lemma and_then_simps [simp, result_simps]:
  "and_then (Inl e) f = Inl e" "and_then (Inr x) f = f x"
  by (simp_all add: and_then_def)

lemma and_then_cong [fundef_cong]:
  "r = r' \<Longrightarrow> (\<And>x. r' = Inr x \<Longrightarrow> f x = g x) \<Longrightarrow> and_then r f = and_then r' g"
  by (cases r') simp_all

lemma and_then_Inr_iff [result_simps]:
  "and_then r f = Inr y \<longleftrightarrow> (\<exists>x. r = Inr x \<and> f x = Inr y)"
  by (cases r) auto

lemma and_then_Inl_iff [result_simps]:
  "and_then r f = Inl e \<longleftrightarrow> r = Inl e \<or> (\<exists>x. r = Inr x \<and> f x = Inl e)"
  by (cases r) auto

lemma is_ok_simps [simp, result_simps]: "is_ok (Inr x)" "\<not> is_ok (Inl e)"
  by (simp_all add: is_ok_def)

lemma is_ok_iff [result_simps]: "is_ok r \<longleftrightarrow> (\<exists>x. r = Inr x)"
  by (cases r) auto

lemma ok_or_simps [simp, result_simps]: "ok_or None e = Inl e" "ok_or (Some v) e = Inr v"
  by (simp_all add: ok_or_def)

lemma ok_or_Inr_iff [result_simps]: "ok_or x e = Inr v \<longleftrightarrow> x = Some v"
  by (cases x) auto

text \<open>Collecting an iterator of results stops at the first error.\<close>

fun collect_results :: "('a \<Rightarrow> ('b, 'e) result) \<Rightarrow> 'a list \<Rightarrow> ('b list, 'e) result" where
  "collect_results f [] = Inr []"
| "collect_results f (x # xs) =
     and_then (f x) (\<lambda>y. and_then (collect_results f xs) (\<lambda>ys. Inr (y # ys)))"

lemma collect_results_Inr:
  "collect_results f xs = Inr ys \<longleftrightarrow> list_all2 (\<lambda>x y. f x = Inr y) xs ys"
  by (induction xs arbitrary: ys) (auto simp: and_then_Inr_iff list_all2_Cons1)

lemma collect_results_total:
  "(\<And>x. x \<in> set xs \<Longrightarrow> is_ok (f x)) \<Longrightarrow> \<exists>ys. collect_results f xs = Inr ys \<and> length ys = length xs"
  by (induction xs) (fastforce simp: is_ok_iff)+

section \<open>Slices\<close>

text \<open>\<^verbatim>\<open>slice.get(a..b)\<close>, \<^verbatim>\<open>slice.get(i)\<close> and the big-endian readers.\<close>

definition get_range :: "'a list \<Rightarrow> nat \<Rightarrow> nat \<Rightarrow> 'a list option" where
  "get_range xs a b = (if a \<le> b \<and> b \<le> length xs then Some (take (b - a) (drop a xs)) else None)"

definition get_at :: "'a list \<Rightarrow> nat \<Rightarrow> 'a option" where
  "get_at xs i = (if i < length xs then Some (xs ! i) else None)"

definition subslice :: "'a list \<Rightarrow> nat \<Rightarrow> nat \<Rightarrow> 'a list" where
  "subslice xs a b = take (b - a) (drop a xs)"

lemma get_range_Some:
  "get_range xs a b = Some ys \<longleftrightarrow> a \<le> b \<and> b \<le> length xs \<and> ys = subslice xs a b"
  by (auto simp: get_range_def subslice_def)

lemma get_at_Some: "get_at xs i = Some x \<longleftrightarrow> i < length xs \<and> x = xs ! i"
  by (auto simp: get_at_def)

lemma length_subslice [simp]: "b \<le> length xs \<Longrightarrow> length (subslice xs a b) = b - a"
  by (simp add: subslice_def)

lemma subslice_full [simp]: "subslice xs 0 (length xs) = xs"
  by (simp add: subslice_def)

lemma subslice_append: "a \<le> b \<Longrightarrow> b \<le> c \<Longrightarrow> subslice xs a b @ subslice xs b c = subslice xs a c"
proof -
  assume "a \<le> b" "b \<le> c"
  then have "drop b xs = drop (b - a) (drop a xs)" and "c - a = (b - a) + (c - b)"
    by simp_all
  then show ?thesis by (simp add: subslice_def take_add)
qed

definition be16 :: "u8 \<Rightarrow> u8 \<Rightarrow> u16" where
  "be16 a b = of_nat (unat a * 256 + unat b)"

definition be32 :: "u8 \<Rightarrow> u8 \<Rightarrow> u8 \<Rightarrow> u8 \<Rightarrow> u32" where
  "be32 a b c d = of_nat (((unat a * 256 + unat b) * 256 + unat c) * 256 + unat d)"

lemma unat_u8_less: "unat (b :: u8) < 256"
  using unsigned_less [of b, where ?'a = nat] by simp

lemma unat_be16: "unat (be16 a b) = unat a * 256 + unat b"
proof -
  have "unat a * 256 + unat b < 2 ^ 16"
    using unat_u8_less [of a] unat_u8_less [of b] by simp
  then show ?thesis unfolding be16_def unat_of_nat by simp
qed

lemma unat_be32:
  "unat (be32 a b c d) = ((unat a * 256 + unat b) * 256 + unat c) * 256 + unat d"
proof -
  have "((unat a * 256 + unat b) * 256 + unat c) * 256 + unat d < 2 ^ 32"
    using unat_u8_less [of a] unat_u8_less [of b] unat_u8_less [of c] unat_u8_less [of d] by simp
  then show ?thesis unfolding be32_def unat_of_nat by simp
qed

section \<open>Strings\<close>

text \<open>
  A Rust string is its UTF-8 byte sequence: a \<^typ>\<open>string\<close> whose characters are bytes, so
  \<^verbatim>\<open>len()\<close> is \<^const>\<open>length\<close>. Every operation below works on ASCII delimiters, which never occur
  inside a multi-byte sequence.
\<close>

definition ascii_digit :: "nat \<Rightarrow> bool" where
  "ascii_digit n \<longleftrightarrow> 48 \<le> n \<and> n \<le> 57"

definition ascii_lower :: "nat \<Rightarrow> bool" where
  "ascii_lower n \<longleftrightarrow> 97 \<le> n \<and> n \<le> 122"

definition ascii_upper :: "nat \<Rightarrow> bool" where
  "ascii_upper n \<longleftrightarrow> 65 \<le> n \<and> n \<le> 90"

definition ascii_alphanumeric :: "nat \<Rightarrow> bool" where
  "ascii_alphanumeric n \<longleftrightarrow> ascii_digit n \<or> ascii_lower n \<or> ascii_upper n"

definition ascii_hexdigit :: "nat \<Rightarrow> bool" where
  "ascii_hexdigit n \<longleftrightarrow> ascii_digit n \<or> (97 \<le> n \<and> n \<le> 102) \<or> (65 \<le> n \<and> n \<le> 70)"

definition lower_code :: "nat \<Rightarrow> nat" where
  "lower_code n = (if ascii_upper n then n + 32 else n)"

definition lower_char :: "char \<Rightarrow> char" where
  "lower_char c = char_of (lower_code (of_char c))"

abbreviation to_ascii_lowercase :: "string \<Rightarrow> string" where
  "to_ascii_lowercase \<equiv> map lower_char"

definition eq_ignore_ascii_case :: "string \<Rightarrow> string \<Rightarrow> bool" where
  "eq_ignore_ascii_case a b \<longleftrightarrow> to_ascii_lowercase a = to_ascii_lowercase b"

abbreviation code :: "char \<Rightarrow> nat" where "code \<equiv> of_char"

definition str_of_bytes :: "bytes \<Rightarrow> string" where
  "str_of_bytes bs = map (\<lambda>b. char_of (unat b)) bs"

definition bytes_of_str :: "string \<Rightarrow> bytes" where
  "bytes_of_str s = map (\<lambda>c. of_nat (code c)) s"

lemmas ascii_defs = ascii_digit_def ascii_lower_def ascii_upper_def ascii_alphanumeric_def
  ascii_hexdigit_def

lemma length_str_of_bytes [simp]: "length (str_of_bytes bs) = length bs"
  by (simp add: str_of_bytes_def)

lemma length_bytes_of_str [simp]: "length (bytes_of_str s) = length s"
  by (simp add: bytes_of_str_def)

lemma unat_of_code [simp]: "unat (of_nat (code c) :: u8) = code c"
proof -
  have "code c < 256" by simp
  then show ?thesis unfolding unat_of_nat by simp
qed

lemma str_of_bytes_of_str [simp]: "str_of_bytes (bytes_of_str s) = s"
  by (simp add: str_of_bytes_def bytes_of_str_def o_def)

lemma lower_code_less: "n < 256 \<Longrightarrow> lower_code n < 256"
  by (simp add: lower_code_def ascii_defs)

lemma code_lower_char [simp]: "code (lower_char c) = lower_code (code c)"
proof -
  have "lower_code (code c) < 256" by (rule lower_code_less) simp
  then show ?thesis by (simp add: lower_char_def)
qed

lemma lower_code_idem [simp]: "lower_code (lower_code n) = lower_code n"
  by (simp add: lower_code_def ascii_defs)

lemma lower_char_idem [simp]: "lower_char (lower_char c) = lower_char c"
  by (simp add: lower_char_def [of "lower_char c"]) (simp add: lower_char_def)

lemma to_ascii_lowercase_idem [simp]:
  "to_ascii_lowercase (to_ascii_lowercase s) = to_ascii_lowercase s"
  by simp

lemma alphanumeric_lower_code [simp]:
  "ascii_alphanumeric (lower_code n) \<longleftrightarrow> ascii_alphanumeric n"
  by (auto simp: lower_code_def ascii_defs)

lemma lower_char_eq_iff:
  assumes "\<not> ascii_lower (code d)" and "\<not> ascii_upper (code d)"
  shows "lower_char c = d \<longleftrightarrow> c = d"
proof
  assume "lower_char c = d"
  then have "lower_code (code c) = code d" by (metis code_lower_char)
  with assms have "code c = code d"
    by (auto simp: lower_code_def ascii_defs split: if_splits)
  then show "c = d" by simp
next
  assume "c = d"
  then show "lower_char c = d"
    using assms by (simp add: lower_char_def lower_code_def)
qed

lemma eq_ignore_ascii_case_refl [simp]: "eq_ignore_ascii_case s s"
  by (simp add: eq_ignore_ascii_case_def)

fun split_on :: "char \<Rightarrow> string \<Rightarrow> string list" where
  "split_on c [] = [[]]"
| "split_on c (x # xs) =
     (if x = c then [] # split_on c xs
      else (case split_on c xs of [] \<Rightarrow> [[x]] | y # ys \<Rightarrow> (x # y) # ys))"

fun join_with :: "string \<Rightarrow> string list \<Rightarrow> string" where
  "join_with sep [] = []"
| "join_with sep [x] = x"
| "join_with sep (x # y # ys) = x @ sep @ join_with sep (y # ys)"

fun strip_prefix :: "string \<Rightarrow> string \<Rightarrow> string option" where
  "strip_prefix [] s = Some s"
| "strip_prefix (p # ps) [] = None"
| "strip_prefix (p # ps) (x # xs) = (if p = x then strip_prefix ps xs else None)"

definition starts_with :: "string \<Rightarrow> string \<Rightarrow> bool" where
  "starts_with p s \<longleftrightarrow> strip_prefix p s \<noteq> None"

definition strip_suffix :: "string \<Rightarrow> string \<Rightarrow> string option" where
  "strip_suffix p s = map_option rev (strip_prefix (rev p) (rev s))"

definition ends_with :: "string \<Rightarrow> string \<Rightarrow> bool" where
  "ends_with p s \<longleftrightarrow> strip_suffix p s \<noteq> None"

fun split_once :: "char \<Rightarrow> string \<Rightarrow> (string \<times> string) option" where
  "split_once c [] = None"
| "split_once c (x # xs) =
     (if x = c then Some ([], xs)
      else map_option (\<lambda>(a, b). (x # a, b)) (split_once c xs))"

definition rsplit_once :: "char \<Rightarrow> string \<Rightarrow> (string \<times> string) option" where
  "rsplit_once c s = map_option (\<lambda>(a, b). (rev b, rev a)) (split_once c (rev s))"

fun contains_str :: "string \<Rightarrow> string \<Rightarrow> bool" where
  "contains_str p [] \<longleftrightarrow> p = []"
| "contains_str p (x # xs) \<longleftrightarrow> starts_with p (x # xs) \<or> contains_str p xs"

lemma strip_prefix_Some [string_simps]: "strip_prefix p s = Some t \<longleftrightarrow> s = p @ t"
  by (induction p s rule: strip_prefix.induct) auto

lemma starts_with_iff [string_simps]: "starts_with p s \<longleftrightarrow> (\<exists>t. s = p @ t)"
  by (auto simp: starts_with_def string_simps)

lemma strip_suffix_Some [string_simps]: "strip_suffix p s = Some t \<longleftrightarrow> s = t @ p"
  by (auto simp: strip_suffix_def string_simps rev_swap)

lemma ends_with_iff [string_simps]: "ends_with p s \<longleftrightarrow> (\<exists>t. s = t @ p)"
  by (auto simp: ends_with_def string_simps)

lemma contains_str_iff: "contains_str p s \<longleftrightarrow> (\<exists>a b. s = a @ p @ b)"
proof (induction s)
  case Nil
  show ?case by auto
next
  case (Cons x xs)
  have "(\<exists>a b. x # xs = a @ p @ b) \<longleftrightarrow> (\<exists>b. x # xs = p @ b) \<or> (\<exists>a b. xs = a @ p @ b)"
    by (metis append_Cons append_Nil list.exhaust list.sel(3))
  with Cons show ?case by (simp add: starts_with_iff)
qed

lemma split_once_Some [string_simps]:
  "split_once c s = Some (a, b) \<longleftrightarrow> s = a @ c # b \<and> c \<notin> set a"
  by (induction s arbitrary: a b) (auto simp: Cons_eq_append_conv)

lemma split_once_None [string_simps]: "split_once c s = None \<longleftrightarrow> c \<notin> set s"
  by (induction s) auto

lemma rsplit_once_Some [string_simps]:
  "rsplit_once c s = Some (a, b) \<longleftrightarrow> s = a @ c # b \<and> c \<notin> set b"
proof -
  have "rsplit_once c s = Some (a, b) \<longleftrightarrow> split_once c (rev s) = Some (rev b, rev a)"
    by (auto simp: rsplit_once_def)
  also have "\<dots> \<longleftrightarrow> s = a @ c # b \<and> c \<notin> set b"
    by (auto simp: split_once_Some rev_swap)
  finally show ?thesis .
qed

lemma rsplit_once_None [string_simps]: "rsplit_once c s = None \<longleftrightarrow> c \<notin> set s"
  by (simp add: rsplit_once_def split_once_None)

lemma split_on_ne [simp]: "split_on c s \<noteq> []"
  by (induction s) (auto split: list.splits)

lemma split_on_no_sep: "x \<in> set (split_on c s) \<Longrightarrow> c \<notin> set x"
  by (induction s arbitrary: x) (force split: if_splits list.splits)+

lemma join_split_on [string_simps]: "join_with [c] (split_on c s) = s"
proof (induction s)
  case Nil
  show ?case by simp
next
  case (Cons x xs)
  obtain y ys where eq: "split_on c xs = y # ys" by (cases "split_on c xs") auto
  with Cons show ?case by (cases ys) auto
qed

lemma split_on_app: "split_on c (a @ c # b) = split_on c a @ split_on c b"
  by (induction a) (auto split: list.splits)

lemma join_with_app:
  "xs \<noteq> [] \<Longrightarrow> ys \<noteq> [] \<Longrightarrow> join_with [c] (xs @ ys) = join_with [c] xs @ c # join_with [c] ys"
proof (induction "[c]" xs rule: join_with.induct)
  case (2 x)
  then show ?case by (cases ys) simp_all
qed simp_all

lemma split_on_suffix:
  "(\<exists>pre. pre \<noteq> [] \<and> split_on c s = pre @ split_on c t) \<longleftrightarrow> (\<exists>a. s = a @ c # t)"
proof
  assume "\<exists>pre. pre \<noteq> [] \<and> split_on c s = pre @ split_on c t"
  then obtain pre where pre: "pre \<noteq> []" "split_on c s = pre @ split_on c t" by blast
  then have "s = join_with [c] pre @ c # t"
    using join_split_on [of c s] by (simp add: join_with_app join_split_on)
  then show "\<exists>a. s = a @ c # t" by blast
qed (use split_on_app split_on_ne in blast)

lemma split_on_id: "c \<notin> set s \<Longrightarrow> split_on c s = [s]"
  by (induction s) auto

lemma split_on_append: "c \<notin> set x \<Longrightarrow> split_on c (x @ c # s) = x # split_on c s"
  by (induction x) auto

lemma split_join [string_simps]:
  assumes "xs \<noteq> []" and "\<And>x. x \<in> set xs \<Longrightarrow> c \<notin> set x"
  shows "split_on c (join_with [c] xs) = xs"
  using assms
  by (induction "[c]" xs rule: join_with.induct) (auto simp: split_on_id split_on_append)

lemma set_join_with: "set (join_with [c] xs) \<subseteq> insert c (\<Union> (set ` set xs))"
  by (induction "[c]" xs rule: join_with.induct) auto

lemma map_split_on:
  assumes "\<And>x. f x = c \<longleftrightarrow> x = c"
  shows "split_on c (map f s) = map (map f) (split_on c s)"
  using assms by (induction s) (auto split: list.splits)

lemma length_join_with:
  "xs \<noteq> [] \<Longrightarrow> length (join_with [c] xs) = sum_list (map length xs) + (length xs - 1)"
  by (induction "[c]" xs rule: join_with.induct) auto

section \<open>Ordered maps\<close>

text \<open>
  \<^verbatim>\<open>BTreeMap\<close> and \<^verbatim>\<open>HashMap\<close> are association lists with distinct keys; the program never
  depends on the iteration order of the maps modelled here.
\<close>

type_synonym ('k, 'v) assoc = "('k \<times> 'v) list"

abbreviation keys_distinct :: "('k, 'v) assoc \<Rightarrow> bool" where
  "keys_distinct m \<equiv> distinct (map fst m)"

abbreviation map_insert :: "'k \<Rightarrow> 'v \<Rightarrow> ('k, 'v) assoc \<Rightarrow> ('k, 'v) assoc" where
  "map_insert \<equiv> AList.update"

abbreviation map_remove :: "'k \<Rightarrow> ('k, 'v) assoc \<Rightarrow> ('k, 'v) assoc" where
  "map_remove \<equiv> AList.delete"

definition retain :: "('v \<Rightarrow> bool) \<Rightarrow> ('k, 'v) assoc \<Rightarrow> ('k, 'v) assoc" where
  "retain P m = filter (\<lambda>(k, v). P v) m"

lemma keys_distinct_retain [simp]: "keys_distinct m \<Longrightarrow> keys_distinct (retain P m)"
  by (simp add: retain_def distinct_map_filter)

lemma set_retain: "set (retain P m) = {(k, v) \<in> set m. P v}"
  by (auto simp: retain_def)

lemma length_retain_le: "length (retain P m) \<le> length m"
  by (simp add: retain_def)

lemma map_of_retain:
  assumes "keys_distinct m"
  shows "map_of (retain P m) k = (case map_of m k of Some v \<Rightarrow> if P v then Some v else None | None \<Rightarrow> None)"
  using assms
  by (induction m) (auto simp: retain_def map_of_eq_None_iff image_iff split: option.splits)

lemma length_map_insert:
  "length (map_insert k v m) = (if map_of m k = None then Suc (length m) else length m)"
  by (induction m) auto

lemma length_map_remove:
  "keys_distinct m \<Longrightarrow> length (map_remove k m) = (if map_of m k = None then length m else length m - 1)"
proof (induction m)
  case Nil
  show ?case by simp
next
  case (Cons p m)
  have "fst p \<noteq> k \<or> map_remove k m = m"
    using Cons.prems by (auto intro: AList.delete_idem)
  moreover have "map_of m k \<noteq> None \<Longrightarrow> 0 < length m" by (cases m) auto
  ultimately show ?case using Cons by (cases p) (auto simp: AList.delete_eq)
qed

lemma set_map_insert_subset: "set (map_insert k v m) \<subseteq> insert (k, v) (set m)"
  by (induction m) auto

lemma set_map_remove_subset: "set (map_remove k m) \<subseteq> set m"
  by (auto simp: AList.delete_eq)

section \<open>Components that keep an invariant\<close>

text \<open>
  The contract shared by the stateful components: every operation keeps the invariant, so every
  state reached by a sequence of operations satisfies it.
\<close>

locale invariant_machine =
  fixes step :: "'s \<Rightarrow> 'o \<Rightarrow> 's"
    and inv :: "'s \<Rightarrow> bool"
  assumes step_inv: "inv s \<Longrightarrow> inv (step s e)"
begin

lemma run_inv: "inv s \<Longrightarrow> inv (foldl step s es)"
  by (induction es arbitrary: s) (auto intro: step_inv)

end

end
