(* ===== verification/Lifecycle.thy ===== *)
theory Lifecycle
  imports Prelude
begin

text \<open>
  The session lifecycle of \<^verbatim>\<open>moraebox-core/src/state.rs\<close>: the states, events and termination
  reasons, \<^verbatim>\<open>Lifecycle::apply\<close> with every accepted and refused pair, the reachable lifecycles
  as an inductive predicate, and the facts the supervisor relies on: termination reasons agree
  with states, progress is strictly monotone, cleanup is the only way to \<open>Dead\<close>.
\<close>

section \<open>States, events and the transition\<close>

datatype SessionState =
  New | Preparing | Starting | Ready | Running | Stopping | Failed | TimedOut | Dead

datatype LifecycleEvent =
  Prepare | Start | AgentReady | CommandStarted | CommandExited | StopRequested | Timeout | Fail
| CleanupComplete

datatype TerminationReason =
  Reason_Exited | Reason_Cancelled | Reason_TimedOut | Reason_Failed

datatype LifecycleError = InvalidTransition SessionState LifecycleEvent

record Lifecycle =
  lc_state :: SessionState
  lc_termination_reason :: "TerminationReason option"

definition lifecycle_default :: Lifecycle where
  "lifecycle_default = \<lparr>lc_state = New, lc_termination_reason = None\<rparr>"

text \<open>
  The match of \<^verbatim>\<open>apply\<close>, grouped by event: the next state and the reason the arm stores, if any.
\<close>

definition lifecycle_arm ::
  "SessionState \<Rightarrow> LifecycleEvent \<Rightarrow> (SessionState \<times> TerminationReason option) option" where
  "lifecycle_arm s event =
     (case event of
        Prepare \<Rightarrow> if s = New then Some (Preparing, None) else None
      | Start \<Rightarrow> if s = Preparing then Some (Starting, None) else None
      | AgentReady \<Rightarrow> if s = Starting then Some (Ready, None) else None
      | CommandStarted \<Rightarrow> if s = Ready then Some (Running, None) else None
      | CommandExited \<Rightarrow> if s = Running then Some (Stopping, Some Reason_Exited) else None
      | StopRequested \<Rightarrow>
          if s \<in> {Ready, Running} then Some (Stopping, Some Reason_Cancelled) else None
      | Timeout \<Rightarrow>
          if s \<in> {Preparing, Starting, Ready, Running}
          then Some (TimedOut, Some Reason_TimedOut) else None
      | Fail \<Rightarrow>
          if s \<in> {New, Preparing, Starting, Ready, Running, Stopping, TimedOut}
          then Some (Failed, Some Reason_Failed) else None
      | CleanupComplete \<Rightarrow>
          if s \<in> {Stopping, Failed, TimedOut} then Some (Dead, None) else None)"

definition lifecycle_apply ::
  "Lifecycle \<Rightarrow> LifecycleEvent \<Rightarrow> Lifecycle \<times> (SessionState, LifecycleError) result" where
  "lifecycle_apply lc event =
     (case lifecycle_arm (lc_state lc) event of
        None \<Rightarrow> (lc, Err (InvalidTransition (lc_state lc) event))
      | Some (next_state, reason) \<Rightarrow>
          (lc\<lparr>lc_state := next_state,
              lc_termination_reason :=
                (case reason of None \<Rightarrow> lc_termination_reason lc | Some r \<Rightarrow> Some r)\<rparr>,
           Ok next_state))"

section \<open>Consistency of states and reasons\<close>

fun reason_fits :: "SessionState \<Rightarrow> TerminationReason option \<Rightarrow> bool" where
  "reason_fits Stopping r \<longleftrightarrow> r = Some Reason_Exited \<or> r = Some Reason_Cancelled"
| "reason_fits TimedOut r \<longleftrightarrow> r = Some Reason_TimedOut"
| "reason_fits Failed r \<longleftrightarrow> r = Some Reason_Failed"
| "reason_fits Dead r \<longleftrightarrow> r \<noteq> None"
| "reason_fits _ r \<longleftrightarrow> r = None"

definition lifecycle_inv :: "Lifecycle \<Rightarrow> bool" where
  "lifecycle_inv lc \<longleftrightarrow> reason_fits (lc_state lc) (lc_termination_reason lc)"

fun state_rank :: "SessionState \<Rightarrow> nat" where
  "state_rank New = 0"
| "state_rank Preparing = 1"
| "state_rank Starting = 2"
| "state_rank Ready = 3"
| "state_rank Running = 4"
| "state_rank Stopping = 5"
| "state_rank TimedOut = 5"
| "state_rank Failed = 6"
| "state_rank Dead = 7"

inductive lifecycle_reachable :: "Lifecycle \<Rightarrow> bool" where
  lr_start: "lifecycle_reachable lifecycle_default"
| lr_step: "lifecycle_reachable lc \<Longrightarrow> lifecycle_reachable (fst (lifecycle_apply lc event))"

text \<open>The events of a sequence that are accepted, in order.\<close>

fun accepted_events :: "Lifecycle \<Rightarrow> LifecycleEvent list \<Rightarrow> LifecycleEvent list" where
  "accepted_events lc [] = []"
| "accepted_events lc (e # es) =
     (let (lc', r) = lifecycle_apply lc e
      in if is_ok r then e # accepted_events lc' es else accepted_events lc' es)"

lemma lifecycle_arm_fits:
  "lifecycle_arm s e = Some (t, r) \<Longrightarrow> reason_fits s old \<Longrightarrow>
   reason_fits t (case r of None \<Rightarrow> old | Some x \<Rightarrow> Some x)"
  by (cases e) (auto simp: lifecycle_arm_def split: if_splits)

lemma lifecycle_arm_rank: "lifecycle_arm s e = Some (t, r) \<Longrightarrow> state_rank s < state_rank t"
  by (cases e) (auto simp: lifecycle_arm_def split: if_splits)

lemma lifecycle_arm_dead:
  "(\<exists>r. lifecycle_arm s e = Some (Dead, r)) \<longleftrightarrow> e = CleanupComplete \<and> s \<in> {Stopping, Failed, TimedOut}"
  by (cases e) (auto simp: lifecycle_arm_def)

lemma lifecycle_apply_dead:
  "snd (lifecycle_apply lc e) = Ok Dead \<longleftrightarrow> (\<exists>r. lifecycle_arm (lc_state lc) e = Some (Dead, r))"
  by (auto simp: lifecycle_apply_def split: option.splits)

lemma lifecycle_arm_command_started:
  "lifecycle_arm s CommandStarted = Some (t, r) \<longleftrightarrow> s = Ready \<and> t = Running \<and> r = None"
  by (auto simp: lifecycle_arm_def)

lemma lifecycle_apply_inv [inv_intros]:
  "lifecycle_inv lc \<Longrightarrow> lifecycle_inv (fst (lifecycle_apply lc event))"
  by (auto simp: lifecycle_inv_def lifecycle_apply_def dest: lifecycle_arm_fits split: option.splits)

interpretation lifecycle: invariant_machine "\<lambda>lc e. fst (lifecycle_apply lc e)" lifecycle_inv
  by unfold_locales (rule lifecycle_apply_inv)

lemma lifecycle_inv_default: "lifecycle_inv lifecycle_default"
  by (simp add: lifecycle_inv_def lifecycle_default_def)

lemma reachable_lifecycle_inv: "lifecycle_reachable lc \<Longrightarrow> lifecycle_inv lc"
  by (induction rule: lifecycle_reachable.induct)
     (auto intro: inv_intros lifecycle_inv_default)

lemma lifecycle_apply_ok_iff:
  "is_ok (snd (lifecycle_apply lc e)) \<longleftrightarrow> lifecycle_arm (lc_state lc) e \<noteq> None"
  by (auto simp: lifecycle_apply_def split: option.splits)

lemma lifecycle_apply_rank:
  "is_ok (snd (lifecycle_apply lc e)) \<Longrightarrow>
   state_rank (lc_state lc) < state_rank (lc_state (fst (lifecycle_apply lc e)))"
  by (auto simp: lifecycle_apply_def dest: lifecycle_arm_rank split: option.splits)

lemma state_rank_le: "state_rank s \<le> 7"
  by (cases s) auto

lemma accepted_events_bounded:
  "length (accepted_events lc es) + state_rank (lc_state lc) \<le> 7"
proof (induction es arbitrary: lc)
  case Nil
  show ?case by (simp add: state_rank_le)
next
  case (Cons e es)
  obtain lc' r where eq: "lifecycle_apply lc e = (lc', r)" by (cases "lifecycle_apply lc e")
  have "is_ok r \<Longrightarrow> state_rank (lc_state lc) < state_rank (lc_state lc')"
    using lifecycle_apply_rank [of lc e] eq by simp
  moreover have "\<not> is_ok r \<Longrightarrow> lc' = lc"
    using eq by (auto simp: lifecycle_apply_def split: option.splits)
  ultimately show ?case using Cons.IH [of lc'] eq by auto
qed

lemma accepted_started_once:
  "count_list (accepted_events lc es) CommandStarted \<le> (if state_rank (lc_state lc) \<le> 3 then 1 else 0)"
proof (induction es arbitrary: lc)
  case Nil
  show ?case by simp
next
  case (Cons e es)
  obtain lc' r where eq: "lifecycle_apply lc e = (lc', r)" by (cases "lifecycle_apply lc e")
  show ?case
  proof (cases "is_ok r")
    case False
    then have "lc' = lc" using eq by (auto simp: lifecycle_apply_def split: option.splits)
    with False eq Cons.IH [of lc] show ?thesis by simp
  next
    case True
    have rank: "state_rank (lc_state lc) < state_rank (lc_state lc')"
      using lifecycle_apply_rank [of lc e] eq True by simp
    have "e = CommandStarted \<Longrightarrow> lc_state lc = Ready \<and> lc_state lc' = Running"
      using eq True
      by (auto simp: lifecycle_apply_def lifecycle_arm_command_started split: option.splits)
    with rank True eq Cons.IH [of lc'] show ?thesis by (auto split: if_splits)
  qed
qed

section \<open>Properties\<close>

text \<open>
  In every lifecycle reached from the initial one by any events, accepted or refused, the
  termination reason agrees with the state: none before the session stops, \<open>Exited\<close> or
  \<open>Cancelled\<close> while stopping, \<open>TimedOut\<close> and \<open>Failed\<close> in the states of that name, and some
  reason once dead.
\<close>

theorem lifecycle_reason_consistent:
  assumes "lifecycle_reachable lc"
  shows "reason_fits (lc_state lc) (lc_termination_reason lc)"
  using reachable_lifecycle_inv [OF assms] by (simp add: lifecycle_inv_def)

theorem lifecycle_reason_consistent_witness:
  "\<exists>lc. lifecycle_reachable lc \<and> lc_state lc = Failed \<and> lc_termination_reason lc = Some Reason_Failed"
proof -
  let ?s = "\<lambda>lc e. fst (lifecycle_apply lc e)"
  let ?lc = "?s (?s (?s lifecycle_default Prepare) Timeout) Fail"
  have r: "lifecycle_reachable ?lc" by (intro lifecycle_reachable.intros)
  have st: "lc_state ?lc = Failed" by (simp add: lifecycle_apply_def lifecycle_arm_def lifecycle_default_def)
  from lifecycle_reason_consistent [OF r] r st show ?thesis by auto
qed

text \<open>
  A lifecycle is used once: from the initial state at most seven events of any sequence are
  accepted, and at most one of them starts a command.
\<close>

theorem lifecycle_one_shot:
  "length (accepted_events lifecycle_default es) \<le> 7 \<and>
   count_list (accepted_events lifecycle_default es) CommandStarted \<le> 1"
  using accepted_events_bounded [of lifecycle_default es]
    accepted_started_once [of lifecycle_default es]
  by (simp add: lifecycle_default_def)

text \<open>
  C36: \<open>Dead\<close> is entered only by completing cleanup from a stopping, failed or timed-out session;
  it refuses every event without changing the lifecycle; and from every lifecycle at most two
  events lead to it.
\<close>

theorem lifecycle_cleanup:
  "(snd (lifecycle_apply lc e) = Ok Dead \<longleftrightarrow>
      e = CleanupComplete \<and> lc_state lc \<in> {Stopping, Failed, TimedOut}) \<and>
   (lc_state lc = Dead \<longrightarrow> lifecycle_apply lc e = (lc, Err (InvalidTransition Dead e))) \<and>
   (\<exists>es. length es \<le> 2 \<and> lc_state (foldl (\<lambda>l x. fst (lifecycle_apply l x)) lc es) = Dead)"
proof (intro conjI)
  show "snd (lifecycle_apply lc e) = Ok Dead \<longleftrightarrow>
      e = CleanupComplete \<and> lc_state lc \<in> {Stopping, Failed, TimedOut}"
    by (simp only: lifecycle_apply_dead lifecycle_arm_dead)
  show "lc_state lc = Dead \<longrightarrow> lifecycle_apply lc e = (lc, Err (InvalidTransition Dead e))"
    by (cases e) (auto simp: lifecycle_apply_def lifecycle_arm_def)
  let ?run = "foldl (\<lambda>l x. fst (lifecycle_apply l x)) lc"
  have "lc_state (?run []) = Dead \<or> lc_state (?run [CleanupComplete]) = Dead \<or>
      lc_state (?run [Fail, CleanupComplete]) = Dead"
    by (cases "lc_state lc") (auto simp: lifecycle_apply_def lifecycle_arm_def)
  then show "\<exists>es. length es \<le> 2 \<and> lc_state (?run es) = Dead"
    by (auto intro: exI [of _ "[]"] exI [of _ "[CleanupComplete]"] exI [of _ "[Fail, CleanupComplete]"])
qed

theorem lifecycle_cleanup_witness:
  "lifecycle_apply \<lparr>lc_state = Dead, lc_termination_reason = Some Reason_Exited\<rparr> Prepare =
    (\<lparr>lc_state = Dead, lc_termination_reason = Some Reason_Exited\<rparr>, Err (InvalidTransition Dead Prepare))"
  using lifecycle_cleanup [of "\<lparr>lc_state = Dead, lc_termination_reason = Some Reason_Exited\<rparr>" Prepare]
  by simp

end
