(* ===== verification/Output_Buffer.thy ===== *)
theory Output_Buffer
  imports Prelude
begin

text \<open>
  The bounded output buffer of \<^verbatim>\<open>moraebox-core/src/output.rs\<close>. Chunks share their bytes and
  carry a start offset; \<^verbatim>\<open>trim\<close> drops or shortens chunks from the front until the retained
  bytes fit the capacity. The abstract specification is the log of every byte ever pushed, with
  its channel: the buffer holds a suffix of it, and a read at a retained cursor returns exactly
  the bytes of the log from that cursor on.
\<close>

section \<open>Model\<close>

datatype OutputChannel = Stdout | Stderr | Tty

record OutputChunk =
  oc_cursor :: nat
  oc_channel :: OutputChannel
  oc_data :: bytes

record OutputRead =
  or_chunks :: "OutputChunk list"
  or_next_cursor :: nat
  or_truncated :: bool

record SharedOutputChunk =
  sh_cursor :: nat
  sh_channel :: OutputChannel
  sh_data :: bytes
  sh_range :: "nat \<times> nat"

record OutputReadSnapshot =
  os_chunks :: "SharedOutputChunk list"
  os_next_cursor :: nat
  os_truncated :: bool

record StoredOutputChunk =
  so_cursor :: nat
  so_channel :: OutputChannel
  so_data :: bytes
  so_start :: nat

record OutputBuffer =
  ob_capacity :: nat
  ob_retained_bytes :: nat
  ob_earliest_cursor :: nat
  ob_next_cursor :: nat
  ob_truncated :: bool
  ob_chunks :: "StoredOutputChunk list"

datatype OutputReadError = CursorExpired nat nat | CursorAhead nat nat

definition materialize :: "OutputReadSnapshot \<Rightarrow> OutputRead" where
  "materialize s =
     \<lparr>or_chunks =
        map (\<lambda>c. \<lparr>oc_cursor = sh_cursor c, oc_channel = sh_channel c,
                  oc_data = subslice (sh_data c) (fst (sh_range c)) (snd (sh_range c))\<rparr>)
            (os_chunks s),
      or_next_cursor = os_next_cursor s,
      or_truncated = os_truncated s\<rparr>"

definition so_len :: "StoredOutputChunk \<Rightarrow> nat" where
  "so_len c = wrapping_sub (length (so_data c)) (so_start c)"

definition end_cursor :: "StoredOutputChunk \<Rightarrow> nat" where
  "end_cursor c = wrapping_add (so_cursor c) (so_len c)"

text \<open>\<^verbatim>\<open>OutputBuffer::new\<close> panics on a zero capacity: \<^const>\<open>None\<close>.\<close>

definition output_buffer_new :: "nat \<Rightarrow> OutputBuffer option" where
  "output_buffer_new capacity =
     (if capacity = 0 then None
      else Some \<lparr>ob_capacity = capacity, ob_retained_bytes = 0, ob_earliest_cursor = 0,
                 ob_next_cursor = 0, ob_truncated = False, ob_chunks = []\<rparr>)"

text \<open>One iteration of the loop of \<^verbatim>\<open>trim\<close> on a front chunk.\<close>

definition trim_front :: "OutputBuffer \<Rightarrow> StoredOutputChunk \<Rightarrow> StoredOutputChunk list \<Rightarrow> OutputBuffer" where
  "trim_front b front rest =
     (let excess = ob_retained_bytes b - ob_capacity b in
      if so_len front \<le> excess then
        b\<lparr>ob_chunks := rest,
          ob_retained_bytes := wrapping_sub (ob_retained_bytes b) (so_len front),
          ob_earliest_cursor := end_cursor front,
          ob_truncated := True\<rparr>
      else
        b\<lparr>ob_chunks := front\<lparr>so_start := wrapping_add (so_start front) excess,
                             so_cursor := wrapping_add (so_cursor front) excess\<rparr> # rest,
          ob_retained_bytes := ob_retained_bytes b - excess,
          ob_earliest_cursor := wrapping_add (so_cursor front) excess,
          ob_truncated := True\<rparr>)"

function trim :: "OutputBuffer \<Rightarrow> OutputBuffer" where
  "trim b =
     (if ob_retained_bytes b > ob_capacity b then
        (case ob_chunks b of
           [] \<Rightarrow> b
         | front # rest \<Rightarrow> trim (trim_front b front rest))
      else b)"
  by pat_completeness auto
termination
  by (relation "measure (\<lambda>b. 2 * length (ob_chunks b) +
        (if ob_retained_bytes b > ob_capacity b then 1 else 0))")
     (auto simp: trim_front_def Let_def)

declare trim.simps [simp del]

definition push :: "OutputBuffer \<Rightarrow> OutputChannel \<Rightarrow> bytes \<Rightarrow> OutputBuffer \<times> nat" where
  "push b channel data =
     (let cursor = ob_next_cursor b;
          b1 = b\<lparr>ob_next_cursor := wrapping_add (ob_next_cursor b) (length data)\<rparr> in
      if data = [] then (b1, cursor)
      else
        (trim (b1\<lparr>ob_retained_bytes := wrapping_add (ob_retained_bytes b1) (length data),
                  ob_chunks := ob_chunks b1 @
                    [\<lparr>so_cursor = cursor, so_channel = channel, so_data = data, so_start = 0\<rparr>]\<rparr>),
         cursor))"

text \<open>The loop of \<^verbatim>\<open>snapshot\<close>: remaining budget and next cursor are threaded through.\<close>

primrec snapshot_loop ::
  "nat \<Rightarrow> StoredOutputChunk list \<Rightarrow> nat \<Rightarrow> nat \<Rightarrow> SharedOutputChunk list \<times> nat" where
  "snapshot_loop cursor [] remaining next = ([], next)"
| "snapshot_loop cursor (c # cs) remaining next =
     (if remaining = 0 then ([], next)
      else if end_cursor c \<le> cursor then snapshot_loop cursor cs remaining next
      else
        let offset = cursor - so_cursor c;
            start = wrapping_add (so_start c) offset;
            n = min remaining (wrapping_sub (length (so_data c)) start);
            (out, next') = snapshot_loop cursor cs (remaining - n)
                             (wrapping_add (so_cursor c) (wrapping_add offset n))
        in (\<lparr>sh_cursor = wrapping_add (so_cursor c) offset, sh_channel = so_channel c,
             sh_data = so_data c, sh_range = (start, wrapping_add start n)\<rparr> # out, next'))"

definition snapshot ::
  "OutputBuffer \<Rightarrow> nat \<Rightarrow> nat \<Rightarrow> (OutputReadSnapshot, OutputReadError) result" where
  "snapshot b cursor max_bytes =
     (if cursor < ob_earliest_cursor b then Err (CursorExpired cursor (ob_earliest_cursor b))
      else if cursor > ob_next_cursor b then Err (CursorAhead cursor (ob_next_cursor b))
      else let (chunks, next) = snapshot_loop cursor (ob_chunks b) max_bytes cursor
           in Ok \<lparr>os_chunks = chunks, os_next_cursor = next, os_truncated = ob_truncated b\<rparr>)"

definition output_read :: "OutputBuffer \<Rightarrow> nat \<Rightarrow> nat \<Rightarrow> (OutputRead, OutputReadError) result" where
  "output_read b cursor max_bytes =
     and_then (snapshot b cursor max_bytes) (\<lambda>s. Ok (materialize s))"

section \<open>Abstraction\<close>

type_synonym log = "(OutputChannel \<times> u8) list"

definition chunk_bytes :: "StoredOutputChunk \<Rightarrow> log" where
  "chunk_bytes c = map (Pair (so_channel c)) (drop (so_start c) (so_data c))"

definition retained_log :: "OutputBuffer \<Rightarrow> log" where
  "retained_log b = concat (map chunk_bytes (ob_chunks b))"

definition read_log :: "OutputRead \<Rightarrow> log" where
  "read_log r = concat (map (\<lambda>c. map (Pair (oc_channel c)) (oc_data c)) (or_chunks r))"

definition chunk_len :: "StoredOutputChunk \<Rightarrow> nat" where
  "chunk_len c = length (so_data c) - so_start c"

text \<open>Chunks are non-empty and their cursors are consecutive.\<close>

fun contiguous :: "nat \<Rightarrow> StoredOutputChunk list \<Rightarrow> nat \<Rightarrow> bool" where
  "contiguous from [] to \<longleftrightarrow> from = to"
| "contiguous from (c # cs) to \<longleftrightarrow>
     so_cursor c = from \<and> so_start c < length (so_data c) \<and> length (so_data c) < 2 ^ 64 \<and>
     contiguous (from + chunk_len c) cs to"

text \<open>The buffer represents the log of all bytes pushed so far.\<close>

definition represents :: "OutputBuffer \<Rightarrow> log \<Rightarrow> bool" where
  "represents b h \<longleftrightarrow>
     0 < ob_capacity b \<and> length h < 2 ^ 64 \<and>
     ob_next_cursor b = length h \<and>
     ob_earliest_cursor b = length h - ob_capacity b \<and>
     ob_retained_bytes b = length h - ob_earliest_cursor b \<and>
     contiguous (ob_earliest_cursor b) (ob_chunks b) (length h) \<and>
     retained_log b = drop (ob_earliest_cursor b) h \<and>
     (ob_truncated b \<longleftrightarrow> ob_capacity b < length h)"

section \<open>Trimming\<close>

lemma contiguous_le: "contiguous a cs t \<Longrightarrow> a \<le> t"
  by (induction cs arbitrary: a) (auto dest: add_leD1)

lemma contiguous_append:
  "contiguous a (xs @ ys) t \<longleftrightarrow> (\<exists>m. contiguous a xs m \<and> contiguous m ys t)"
  by (induction xs arbitrary: a) auto

lemma so_len_eq: "so_start c \<le> length (so_data c) \<Longrightarrow> so_len c = chunk_len c"
  by (simp add: so_len_def chunk_len_def)

lemma end_cursor_eq:
  "contiguous a (c # cs) t \<Longrightarrow> t < 2 ^ 64 \<Longrightarrow> end_cursor c = a + chunk_len c"
  using contiguous_le [of "a + chunk_len c" cs t]
  by (simp add: end_cursor_def so_len_eq)

lemma length_chunk_bytes [simp]: "length (chunk_bytes c) = chunk_len c"
  by (simp add: chunk_bytes_def chunk_len_def)

lemma contiguous_length:
  "contiguous a cs t \<Longrightarrow> length (concat (map chunk_bytes cs)) = t - a"
proof (induction cs arbitrary: a)
  case Nil
  then show ?case by simp
next
  case (Cons c cs)
  then have rest: "contiguous (a + chunk_len c) cs t" by simp
  from contiguous_le [OF rest] Cons.IH [OF rest] show ?case by simp
qed

text \<open>The state of the buffer while \<^verbatim>\<open>trim\<close> runs: as \<^const>\<open>represents\<close>, but possibly too full.\<close>

definition holds_suffix :: "OutputBuffer \<Rightarrow> log \<Rightarrow> bool" where
  "holds_suffix b h \<longleftrightarrow>
     length h < 2 ^ 64 \<and> ob_next_cursor b = length h \<and>
     ob_retained_bytes b = length h - ob_earliest_cursor b \<and>
     contiguous (ob_earliest_cursor b) (ob_chunks b) (length h) \<and>
     retained_log b = drop (ob_earliest_cursor b) h"

lemma holds_suffix_trim_front:
  assumes "holds_suffix b h" and "ob_chunks b = front # rest"
    and "ob_capacity b < ob_retained_bytes b"
  shows "holds_suffix (trim_front b front rest) h"
    and "ob_earliest_cursor (trim_front b front rest) \<le> length h - ob_capacity b"
    and "ob_truncated (trim_front b front rest)"
    and "ob_capacity (trim_front b front rest) = ob_capacity b"
proof -
  let ?e = "ob_earliest_cursor b" and ?n = "chunk_len front"
  let ?x = "ob_retained_bytes b - ob_capacity b"
  from assms have cont: "contiguous ?e (front # rest) (length h)" and len: "length h < 2 ^ 64"
    and log: "chunk_bytes front @ concat (map chunk_bytes rest) = drop ?e h"
    and ret: "ob_retained_bytes b = length h - ?e"
    by (auto simp: holds_suffix_def retained_log_def)
  from cont have cur: "so_cursor front = ?e" and st: "so_start front < length (so_data front)"
    and dl: "length (so_data front) < 2 ^ 64" and rest: "contiguous (?e + ?n) rest (length h)"
    by auto
  from contiguous_le [OF rest] have le: "?e + ?n \<le> length h" .
  have sl: "so_len front = ?n" using st by (simp add: so_len_eq)
  have ec: "end_cursor front = ?e + ?n" using end_cursor_eq [OF cont len] .
  have x: "?x = length h - ?e - ob_capacity b" using ret by simp
  have drop1: "concat (map chunk_bytes rest) = drop (?e + ?n) h"
    using arg_cong [OF log, of "drop ?n"] by (simp add: add.commute)
  have drop2: "drop k (chunk_bytes front) @ concat (map chunk_bytes rest) = drop (?e + k) h" 
    if "k \<le> ?n" for k
    using arg_cong [OF log, of "drop k"] that by (simp add: add.commute)
  show "holds_suffix (trim_front b front rest) h"
  proof (cases "?n \<le> ?x")
    case True
    then show ?thesis
      using assms(1) len rest ret le drop1
      by (simp add: holds_suffix_def trim_front_def Let_def sl ec retained_log_def)
  next
    case False
    let ?f = "front\<lparr>so_start := so_start front + ?x, so_cursor := ?e + ?x\<rparr>"
    have small: "so_start front + ?x < 2 ^ 64" "?e + ?x < 2 ^ 64" and xn: "?x \<le> ?n"
      using False le len dl by (auto simp: chunk_len_def)
    have eq: "trim_front b front rest = b\<lparr>ob_chunks := ?f # rest,
        ob_retained_bytes := ob_capacity b, ob_earliest_cursor := ?e + ?x, ob_truncated := True\<rparr>"
      using False small assms(3) by (simp add: trim_front_def Let_def sl cur)
    have "chunk_bytes ?f = drop ?x (chunk_bytes front)"
      unfolding chunk_bytes_def by (simp add: drop_map add.commute)
    with drop2 [OF xn] have log': "concat (map chunk_bytes (?f # rest)) = drop (?e + ?x) h"
      by simp
    have sum: "?e + ?x + chunk_len ?f = ?e + ?n" and "so_start front + ?x < length (so_data front)"
      using xn False st by (auto simp: chunk_len_def)
    then have cont': "contiguous (?e + ?x) (?f # rest) (length h)"
      unfolding contiguous.simps sum using rest dl by simp
    have "ob_capacity b = length h - (?e + ?x)" using ret assms(3) by simp
    with log' cont' len assms(1) show ?thesis
      unfolding eq holds_suffix_def retained_log_def by simp
  qed
  show "ob_earliest_cursor (trim_front b front rest) \<le> length h - ob_capacity b"
    using len ret le assms(3) x cur by (auto simp: trim_front_def Let_def sl ec)
  show "ob_truncated (trim_front b front rest)" "ob_capacity (trim_front b front rest) = ob_capacity b"
    by (auto simp: trim_front_def Let_def)
qed

lemma trim_spec:
  assumes "holds_suffix b h"
  shows "holds_suffix (trim b) h \<and> ob_capacity (trim b) = ob_capacity b \<and>
    ob_earliest_cursor (trim b) = max (ob_earliest_cursor b) (length h - ob_capacity b) \<and>
    (ob_truncated (trim b) \<longleftrightarrow> ob_truncated b \<or> ob_capacity b < ob_retained_bytes b)"
  using assms
proof (induction b rule: trim.induct)
  case (1 b)
  show ?case
  proof (cases "ob_capacity b < ob_retained_bytes b")
    case False
    with "1.prems" show ?thesis by (auto simp: trim.simps [of b] holds_suffix_def)
  next
    case True
    with "1.prems" obtain front rest where ch: "ob_chunks b = front # rest"
      by (cases "ob_chunks b") (auto simp: holds_suffix_def)
    note step = holds_suffix_trim_front [OF "1.prems" ch True]
    have eq: "trim b = trim (trim_front b front rest)"
      using True ch by (simp add: trim.simps [of b])
    have "ob_earliest_cursor b \<le> length h - ob_capacity b"
      using True "1.prems" by (auto simp: holds_suffix_def)
    with "1.IH" [OF True ch step(1)] step True show ?thesis
      by (auto simp: eq max_def)
  qed
qed

section \<open>Pushing and reading\<close>

lemma representsD:
  assumes "represents b h"
  shows "0 < ob_capacity b" "length h < 2 ^ 64" "ob_next_cursor b = length h"
    "ob_earliest_cursor b = length h - ob_capacity b"
    "ob_retained_bytes b = length h - ob_earliest_cursor b"
    "contiguous (ob_earliest_cursor b) (ob_chunks b) (length h)"
    "retained_log b = drop (ob_earliest_cursor b) h"
    "ob_truncated b \<longleftrightarrow> ob_capacity b < length h"
  using assms unfolding represents_def by blast+

lemma push_represents:
  assumes "represents b h" and "length h + length data < 2 ^ 64"
  shows "represents (fst (push b channel data)) (h @ map (Pair channel) data)"
    and "snd (push b channel data) = length h"
proof -
  show "snd (push b channel data) = length h"
    using assms by (simp add: push_def represents_def Let_def)
  show "represents (fst (push b channel data)) (h @ map (Pair channel) data)"
  proof (cases "data = []")
    case True
    with assms show ?thesis by (auto simp: push_def represents_def Let_def retained_log_def)
  next
    case False
    let ?h = "h @ map (Pair channel) data"
    let ?c = "\<lparr>so_cursor = length h, so_channel = channel, so_data = data, so_start = 0\<rparr>"
    let ?b = "b\<lparr>ob_next_cursor := length h + length data,
        ob_retained_bytes := ob_retained_bytes b + length data, ob_chunks := ob_chunks b @ [?c]\<rparr>"
    from assms have rep: "ob_next_cursor b = length h"
      "ob_retained_bytes b + length data < 2 ^ 64"
      by (auto simp: represents_def)
    then have eq: "fst (push b channel data) = trim ?b"
      using assms(2) False by (simp add: push_def Let_def)
    have "chunk_bytes ?c = map (Pair channel) data" and "chunk_len ?c = length data"
      by (simp_all add: chunk_bytes_def chunk_len_def)
    moreover have "contiguous (ob_earliest_cursor b) (ob_chunks b) (length h)"
      using representsD(6) [OF assms(1)] .
    moreover have "ob_earliest_cursor b \<le> length h"
      by (simp add: representsD(4) [OF assms(1)])
    ultimately have "contiguous (ob_earliest_cursor b) (ob_chunks b @ [?c]) (length ?h)"
      and "retained_log ?b = drop (ob_earliest_cursor b) ?h"
      using False assms(2) representsD(7) [OF assms(1)]
      by (auto simp: contiguous_append retained_log_def)
    moreover have "ob_retained_bytes ?b = length ?h - ob_earliest_cursor b"
      by (simp add: representsD(4,5) [OF assms(1)])
    ultimately have "holds_suffix ?b ?h"
      using assms(2) by (simp add: holds_suffix_def)
    then have t: "holds_suffix (trim ?b) ?h" "ob_capacity (trim ?b) = ob_capacity b"
      "ob_earliest_cursor (trim ?b) = max (ob_earliest_cursor b) (length ?h - ob_capacity b)"
      "ob_truncated (trim ?b) \<longleftrightarrow> ob_truncated b \<or> ob_capacity b < ob_retained_bytes b + length data"
      using trim_spec [of ?b ?h] by simp_all
    have e: "ob_earliest_cursor (trim ?b) = length ?h - ob_capacity b"
      unfolding t(3) representsD(4) [OF assms(1)] by simp
    moreover have "ob_truncated (trim ?b) \<longleftrightarrow> ob_capacity b < length ?h"
    proof -
      have "ob_truncated b \<or> ob_capacity b < ob_retained_bytes b + length data \<longleftrightarrow>
          ob_capacity b < length h + length data"
        unfolding representsD(4,5,8) [OF assms(1)] by arith
      with t(4) show ?thesis by simp
    qed
    ultimately show ?thesis
      using t(1,2) representsD(1) [OF assms(1)] unfolding eq represents_def holds_suffix_def by simp
  qed
qed

definition shared_log :: "SharedOutputChunk \<Rightarrow> log" where
  "shared_log c = map (Pair (sh_channel c)) (subslice (sh_data c) (fst (sh_range c)) (snd (sh_range c)))"

lemma read_log_materialize: "read_log (materialize s) = concat (map shared_log (os_chunks s))"
  by (simp add: read_log_def materialize_def shared_log_def [abs_def] comp_def)

lemma min_diff_split:
  fixes s e t r :: nat
  assumes "s \<le> e" and "e \<le> t"
  shows "min r (t - s) = min r (e - s) + min (r - min r (e - s)) (t - e)"
  using assms by linarith

lemma snapshot_loop_spec:
  assumes "contiguous a cs t" and "t < 2 ^ 64" and "k \<le> t" and "rem = 0 \<or> next = max k a"
    and "snapshot_loop k cs rem next = (out, nx)"
  shows "concat (map shared_log out) = take rem (drop (k - a) (concat (map chunk_bytes cs))) \<and>
    nx = next + min rem (t - max k a)"
  using assms
proof (induction cs arbitrary: a rem "next" out nx)
  case Nil
  then show ?case by (auto simp: max_def)
next
  case (Cons c cs)
  let ?n = "chunk_len c" and ?L = "concat (map chunk_bytes cs)"
  from Cons.prems(1) have cur: "so_cursor c = a" and st: "so_start c < length (so_data c)"
    and dl: "length (so_data c) < 2 ^ 64" and rest: "contiguous (a + ?n) cs t"
    by auto
  have le: "a + ?n \<le> t" using contiguous_le [OF rest] .
  have ec: "end_cursor c = a + ?n" using end_cursor_eq [OF Cons.prems(1,2)] .
  have n: "length (so_data c) = so_start c + ?n" using st by (simp add: chunk_len_def)
  consider (none) "rem = 0" | (skip) "rem \<noteq> 0" "a + ?n \<le> k" | (hit) "rem \<noteq> 0" "k < a + ?n"
    by linarith
  then show ?case
  proof cases
    case none
    with Cons.prems show ?thesis by simp
  next
    case skip
    with Cons.prems ec have "snapshot_loop k cs rem next = (out, nx)" by simp
    moreover have "rem = 0 \<or> next = max k (a + ?n)" using skip Cons.prems(4) by (simp add: max_def)
    ultimately have "concat (map shared_log out) = take rem (drop (k - (a + ?n)) ?L) \<and>
        nx = next + min rem (t - max k (a + ?n))"
      by (rule Cons.IH [OF rest Cons.prems(2,3), rotated])
    then show ?thesis using skip le by (auto simp: max_def)
  next
    case hit
    let ?o = "k - a"
    let ?m = "min rem (?n - ?o)"
    have "0 < ?n" using st by (simp add: chunk_len_def)
    with hit have o: "?o < ?n" "a + ?o = max k a" by auto
    have small: "a + ?n < 2 ^ 64" "so_start c + ?n < 2 ^ 64" using le Cons.prems(2) dl n by auto
    obtain out' nx' where rec: "snapshot_loop k cs (rem - ?m) (a + ?o + ?m) = (out', nx')"
      by (cases "snapshot_loop k cs (rem - ?m) (a + ?o + ?m)")
    have w: "wrapping_add a ?o = a + ?o" "wrapping_add (so_start c) ?o = so_start c + ?o"
        "wrapping_sub (length (so_data c)) (so_start c + ?o) = ?n - ?o"
        "wrapping_add ?o ?m = ?o + ?m" "wrapping_add a (?o + ?m) = a + ?o + ?m"
        "wrapping_add (so_start c + ?o) ?m = so_start c + ?o + ?m"
      using small o(1) n by simp_all
    have unfold: "out = \<lparr>sh_cursor = a + ?o, sh_channel = so_channel c, sh_data = so_data c,
          sh_range = (so_start c + ?o, so_start c + ?o + ?m)\<rparr> # out'" "nx = nx'"
      using Cons.prems(5) hit rec by (simp_all add: ec cur w Let_def)
    have "rem - ?m = 0 \<or> a + ?o + ?m = max k (a + ?n)" using hit o by auto
    note ih0 = Cons.IH [OF rest Cons.prems(2,3) this rec]
    have mx: "max k (a + ?n) = a + ?n" "k - (a + ?n) = 0" using hit by simp_all
    from ih0 have ih: "concat (map shared_log out') = take (rem - ?m) ?L"
      "nx' = a + ?o + ?m + min (rem - ?m) (t - (a + ?n))"
      unfolding mx drop_0 by blast+
    have no: "?n - ?o = a + ?n - max k a" using o by linarith
    have "min rem (t - max k a) = ?m + min (rem - ?m) (t - (a + ?n))"
      unfolding no by (rule min_diff_split) (use le o hit in simp_all)
    moreover have "next = a + ?o" using hit o Cons.prems(4) by simp
    ultimately have "nx = next + min rem (t - max k a)" by (simp only: ih(2) unfold(2) add.assoc)
    moreover have "shared_log (hd out) =
        map (Pair (so_channel c)) (take ?m (drop (so_start c + ?o) (so_data c)))"
      unfolding unfold(1) shared_log_def subslice_def by simp
    then have "shared_log (hd out) = take ?m (drop ?o (chunk_bytes c))"
      unfolding chunk_bytes_def by (simp only: drop_map take_map drop_drop add.commute [of ?o])
    then have "shared_log (hd out) = take rem (drop ?o (chunk_bytes c))"
      by (cases "rem \<le> ?n - ?o") simp_all
    then have "concat (map shared_log out) = take rem (drop ?o (chunk_bytes c @ ?L))"
      using unfold ih(1) o by (simp add: min_def)
    ultimately show ?thesis by simp
  qed
qed

lemma output_read_represents:
  assumes "represents b h" and "ob_earliest_cursor b \<le> k" and "k \<le> length h"
  obtains r where "output_read b k n = Ok r" and "read_log r = take n (drop k h)"
    and "or_next_cursor r = k + min n (length h - k)" and "or_truncated r = ob_truncated b"
proof -
  obtain out nx where loop: "snapshot_loop k (ob_chunks b) n k = (out, nx)"
    by (cases "snapshot_loop k (ob_chunks b) n k")
  from assms have c: "contiguous (ob_earliest_cursor b) (ob_chunks b) (length h)" "length h < 2 ^ 64"
    and log: "concat (map chunk_bytes (ob_chunks b)) = drop (ob_earliest_cursor b) h"
    by (auto simp: represents_def retained_log_def)
  have spec: "concat (map shared_log out) = take n (drop (k - ob_earliest_cursor b) (drop (ob_earliest_cursor b) h))"
    "nx = k + min n (length h - k)"
    using snapshot_loop_spec [OF c assms(3) _ loop] assms(2) log by (auto simp: max_def)
  have "output_read b k n = Ok (materialize \<lparr>os_chunks = out, os_next_cursor = nx, os_truncated = ob_truncated b\<rparr>)"
    using assms loop by (simp add: output_read_def snapshot_def represents_def)
  then show thesis
    by (rule that)
       (use spec assms(2) in \<open>simp_all add: read_log_materialize, simp_all add: materialize_def\<close>)
qed


section \<open>The log interface\<close>

text \<open>
  What the readers of the buffer (session polling, the final report, interactive attach) rely
  on: a log with cursors, of which a suffix can be read in pages.
\<close>

locale cursor_log =
  fixes append :: "'b \<Rightarrow> 'c \<Rightarrow> 'x list \<Rightarrow> 'b"
    and earliest :: "'b \<Rightarrow> nat"
    and read_page :: "'b \<Rightarrow> nat \<Rightarrow> nat \<Rightarrow> (('c \<times> 'x) list \<times> nat) option"
    and models :: "'b \<Rightarrow> ('c \<times> 'x) list \<Rightarrow> bool"
    and bound :: nat
  assumes models_append: "models b h \<Longrightarrow> length h + length d < bound \<Longrightarrow>
      models (append b c d) (h @ map (Pair c) d)"
    and earliest_le: "models b h \<Longrightarrow> earliest b \<le> length h"
    and read_page_eq: "models b h \<Longrightarrow> earliest b \<le> k \<Longrightarrow> k \<le> length h \<Longrightarrow>
      read_page b k n = Some (take n (drop k h), k + min n (length h - k))"
begin

text \<open>Following the next cursor from page to page loses and repeats nothing.\<close>

lemma consecutive_pages:
  assumes "models b h" and "earliest b \<le> k" and "k \<le> length h"
    and "read_page b k n = Some (x, k')" and "read_page b k' m = Some (y, k'')"
  shows "read_page b k (n + m) = Some (x @ y, k'')"
proof -
  have x: "x = take n (drop k h)" "k' = k + min n (length h - k)"
    using assms(4) read_page_eq [OF assms(1-3), of n] by auto
  then have "earliest b \<le> k'" "k' \<le> length h" using assms(2,3) by auto
  then have y: "y = take m (drop k' h)" "k'' = k' + min m (length h - k')"
    using assms(5) read_page_eq [OF assms(1), of k' m] by auto
  have "take (n + m) (drop k h) = x @ take m (drop (k + n) h)"
    unfolding x(1) by (simp only: take_add drop_drop add.commute [of n k])
  also have "take m (drop (k + n) h) = y"
    unfolding y(1) x(2) by (cases "n \<le> length h - k") simp_all
  finally have "take (n + m) (drop k h) = x @ y" .
  moreover have "k + min (n + m) (length h - k) = k''"
    unfolding y(2) x(2) using assms(3) by linarith
  ultimately show ?thesis using read_page_eq [OF assms(1-3), of "n + m"] by simp
qed

lemma appends_model:
  assumes "models b h" and "length h + sum_list (map (length \<circ> snd) ds) < bound"
  shows "models (foldl (\<lambda>b (c, d). append b c d) b ds) (h @ concat (map (\<lambda>(c, d). map (Pair c) d) ds))"
  using assms
proof (induction ds arbitrary: b h)
  case Nil
  then show ?case by simp
next
  case (Cons p ds)
  obtain c d where p: "p = (c, d)" by (cases p)
  from Cons.prems have "models (append b c d) (h @ map (Pair c) d)"
    by (intro models_append) (auto simp: p)
  from Cons.IH [OF this] Cons.prems show ?case by (simp add: p)
qed

end

definition read_page :: "OutputBuffer \<Rightarrow> nat \<Rightarrow> nat \<Rightarrow> (log \<times> nat) option" where
  "read_page b k n =
     (case output_read b k n of Inl _ \<Rightarrow> None | Inr r \<Rightarrow> Some (read_log r, or_next_cursor r))"

interpretation output_log:
  cursor_log "\<lambda>b c d. fst (push b c d)" ob_earliest_cursor read_page represents "2 ^ 64"
proof
  fix b h k n
  assume "represents b h" "ob_earliest_cursor b \<le> k" "k \<le> length h"
  then show "read_page b k n = Some (take n (drop k h), k + min n (length h - k))"
    by (auto simp: read_page_def elim!: output_read_represents [where n = n])
next
  fix b h assume "represents b h"
  then show "ob_earliest_cursor b \<le> length h" by (simp add: represents_def)
qed (rule push_represents(1))

lemma new_represents: "output_buffer_new c = Some b \<Longrightarrow> represents b []"
  by (auto simp: output_buffer_new_def represents_def retained_log_def split: if_splits)

section \<open>Properties\<close>

lemma trim_capacity: "ob_capacity (trim b) = ob_capacity b"
  by (induction b rule: trim.induct)
     (auto simp: trim_front_def Let_def trim.simps split: list.split)

lemma pushes_capacity:
  "ob_capacity (foldl (\<lambda>b (c, d). fst (push b c d)) b ds) = ob_capacity b"
  by (induction ds arbitrary: b) (auto simp: push_def Let_def trim_capacity)

text \<open>
  C28: After any sequence of pushes into a new buffer of non-zero capacity (at most
  \<open>2 ^ 64 - 1\<close> bytes in total), the buffer represents the log of everything pushed: it retains
  exactly the last \<open>min capacity total\<close> bytes with their channels, its cursors are the positions
  in that log, and it is marked truncated exactly when bytes were dropped.
\<close>

theorem output_pushes_refine_log:
  assumes "output_buffer_new capacity = Some b"
    and "sum_list (map (length \<circ> snd) ds) < 2 ^ 64"
    and "b' = foldl (\<lambda>b (c, d). fst (push b c d)) b ds"
    and "h = concat (map (\<lambda>(c, d). map (Pair c) d) ds)"
  shows "retained_log b' = drop (length h - capacity) h \<and>
     ob_retained_bytes b' = min capacity (length h) \<and>
     ob_earliest_cursor b' = length h - capacity \<and>
     ob_next_cursor b' = length h \<and>
     (ob_truncated b' \<longleftrightarrow> capacity < length h)"
proof -
  have rep: "represents b' h"
    using output_log.appends_model [OF new_represents [OF assms(1)], of ds] assms(2-4) by simp
  have "ob_capacity b' = capacity"
    using assms(1) unfolding assms(3) pushes_capacity
    by (auto simp: output_buffer_new_def split: if_splits)
  with representsD [OF rep] show ?thesis by auto
qed

theorem output_pushes_refine_log_witness:
  "\<exists>b. output_buffer_new 4 = Some b \<and>
     retained_log (fst (push (fst (push b Stdout [97, 98, 99])) Stderr [100, 101, 102])) =
       [(Stdout, 99), (Stderr, 100), (Stderr, 101), (Stderr, 102)]"
proof -
  obtain b where b: "output_buffer_new 4 = Some b" by (simp add: output_buffer_new_def)
  show ?thesis
    using b output_pushes_refine_log [OF b, of "[(Stdout, [97, 98, 99]), (Stderr, [100, 101, 102])]",
        OF _ refl refl]
    by (simp add: b)
qed

text \<open>
  C29: Reading a buffer that represents a log, on every branch: a cursor before the earliest
  retained byte fails as expired, a cursor past the end fails as ahead, and any other cursor
  returns exactly the next at most \<open>n\<close> bytes of the log with their channels, in order, and the
  cursor just after them.
\<close>

theorem output_read_functional:
  assumes "represents b h"
  shows "(k < ob_earliest_cursor b \<longrightarrow> output_read b k n = Err (CursorExpired k (ob_earliest_cursor b))) \<and>
    (length h < k \<longrightarrow> output_read b k n = Err (CursorAhead k (length h))) \<and>
    (ob_earliest_cursor b \<le> k \<and> k \<le> length h \<longrightarrow>
       (\<exists>r. output_read b k n = Ok r \<and> read_log r = take n (drop k h) \<and>
            or_next_cursor r = k + min n (length h - k) \<and>
            (or_truncated r \<longleftrightarrow> ob_capacity b < length h)))"
proof -
  have "ob_earliest_cursor b \<le> k \<and> k \<le> length h \<longrightarrow>
       (\<exists>r. output_read b k n = Ok r \<and> read_log r = take n (drop k h) \<and>
            or_next_cursor r = k + min n (length h - k) \<and>
            (or_truncated r \<longleftrightarrow> ob_capacity b < length h))"
    using output_read_represents [OF assms, of k n] representsD(8) [OF assms] by metis
  moreover have "ob_earliest_cursor b \<le> length h"
    by (simp add: representsD(4) [OF assms])
  ultimately show ?thesis
    by (auto simp: output_read_def snapshot_def representsD(3) [OF assms])
qed

theorem output_read_functional_witness:
  "\<exists>b r. represents b [(Stdout, 97), (Stdout, 98), (Stdout, 99)] \<and>
     output_read b 0 2 = Err (CursorExpired 0 1) \<and> output_read b 4 1 = Err (CursorAhead 4 3) \<and>
     output_read b 1 9 = Ok r \<and> read_log r = [(Stdout, 98), (Stdout, 99)]"
proof -
  obtain b0 where b0: "output_buffer_new 2 = Some b0" by (simp add: output_buffer_new_def)
  let ?b = "fst (push b0 Stdout [97, 98, 99])"
  have rep: "represents ?b [(Stdout, 97), (Stdout, 98), (Stdout, 99)]"
    using push_represents(1) [OF new_represents [OF b0], of "[97, 98, 99]" Stdout] by simp
  have "ob_capacity ?b = 2"
    using pushes_capacity [of b0 "[(Stdout, [97, 98, 99])]"] b0
    by (auto simp: output_buffer_new_def split: if_splits)
  then have "ob_earliest_cursor ?b = 1" using representsD(4) [OF rep] by simp
  then show ?thesis
    using rep output_read_functional [OF rep, of 0 2] output_read_functional [OF rep, of 4 1]
      output_read_functional [OF rep, of 1 9]
    by auto
qed

text \<open>
  Polling with the returned cursor neither loses nor repeats output: two consecutive reads
  are together the single read of their combined size.
\<close>

theorem output_paging:
  assumes "represents b h" and "ob_earliest_cursor b \<le> k" and "k \<le> length h"
    and "output_read b k n = Ok r" and "output_read b (or_next_cursor r) m = Ok r'"
  shows "\<exists>q. output_read b k (n + m) = Ok q \<and> read_log q = read_log r @ read_log r' \<and>
    or_next_cursor q = or_next_cursor r'"
proof -
  have "read_page b k n = Some (read_log r, or_next_cursor r)"
    and "read_page b (or_next_cursor r) m = Some (read_log r', or_next_cursor r')"
    using assms(4,5) by (simp_all add: read_page_def)
  from output_log.consecutive_pages [OF assms(1-3) this] show ?thesis
    by (auto simp: read_page_def split: sum.splits)
qed

theorem output_paging_witness:
  "\<exists>b r r' q. output_read b 0 2 = Ok r \<and> output_read b (or_next_cursor r) 5 = Ok r' \<and>
     output_read b 0 7 = Ok q \<and> read_log q = read_log r @ read_log r' \<and>
     read_log q = [(Tty, 7), (Tty, 8), (Tty, 9)]"
proof -
  obtain b0 where b0: "output_buffer_new 8 = Some b0" by (simp add: output_buffer_new_def)
  let ?b = "fst (push b0 Tty [7, 8, 9])" and ?h = "[(Tty, 7), (Tty, 8), (Tty, 9)] :: log"
  have rep: "represents ?b ?h"
    using push_represents(1) [OF new_represents [OF b0], of "[7, 8, 9]" Tty] by simp
  have "ob_capacity ?b = 8"
    using pushes_capacity [of b0 "[(Tty, [7, 8, 9])]"] b0
    by (auto simp: output_buffer_new_def split: if_splits)
  then have e: "ob_earliest_cursor ?b = 0" using representsD(4) [OF rep] by simp
  obtain r where r: "output_read ?b 0 2 = Ok r" "or_next_cursor r = 2"
    by (rule output_read_represents [OF rep, of 0 2]) (auto simp: e)
  obtain r' where r': "output_read ?b 2 5 = Ok r'"
    by (rule output_read_represents [OF rep, of 2 5]) (auto simp: e)
  obtain q where q: "output_read ?b 0 7 = Ok q" "read_log q = ?h"
    by (rule output_read_represents [OF rep, of 0 7]) (auto simp: e)
  have "read_log q = read_log r @ read_log r'"
    using output_paging [OF rep, of 0 2 r 5 r'] r r' q by (simp add: e)
  with r r' q show ?thesis by metis
qed

end
