(* ===== verification/Host_Path.thy ===== *)
theory Host_Path
  imports Prelude
begin

text \<open>
  The Unix side of \<^verbatim>\<open>std::path\<close> as far as the program uses it: the component view of a path,
  absoluteness, parents, joining, file names and the names that are UTF-8. A path is its byte string.
\<close>

datatype path_component = RootDir | CurDir | ParentDir | Normal string

definition is_absolute :: "string \<Rightarrow> bool" where
  "is_absolute p \<longleftrightarrow> starts_with ''/'' p"

text \<open>Empty pieces and interior \<open>.\<close> pieces disappear.\<close>

definition body_component :: "string \<Rightarrow> path_component option" where
  "body_component s =
     (if s = [] \<or> s = ''.'' then None else if s = ''..'' then Some ParentDir else Some (Normal s))"

fun body_components :: "string list \<Rightarrow> path_component list" where
  "body_components [] = []"
| "body_components (s # ss) =
     (case body_component s of None \<Rightarrow> body_components ss | Some c \<Rightarrow> c # body_components ss)"

definition components :: "string \<Rightarrow> path_component list" where
  "components p =
     (let pieces = split_on CHR ''/'' p in
      if is_absolute p then RootDir # body_components pieces
      else if hd pieces = ''.'' then CurDir # body_components (tl pieces)
      else body_components pieces)"

text \<open>
  Relative paths made of normal components only, which is what the program builds with
  \<^verbatim>\<open>PathBuf::push\<close>, are lists of names: \<^verbatim>\<open>parent\<close> is \<^const>\<open>butlast\<close>, \<^verbatim>\<open>file_name\<close> is \<^const>\<open>last\<close>.
\<close>

type_synonym rel_path = "string list"

definition rel_parent :: "rel_path \<Rightarrow> rel_path" where
  "rel_parent p = butlast p"

definition rel_file_name :: "rel_path \<Rightarrow> string option" where
  "rel_file_name p = (if p = [] then None else Some (last p))"

definition normal_name :: "string \<Rightarrow> bool" where
  "normal_name s \<longleftrightarrow> s \<noteq> [] \<and> s \<noteq> ''.'' \<and> s \<noteq> ''..'' \<and> CHR ''/'' \<notin> set s"

lemma body_component_normal: "normal_name s \<Longrightarrow> body_component s = Some (Normal s)"
  by (simp add: normal_name_def body_component_def)

lemma body_component_Normal_iff:
  "body_component s = Some (Normal t) \<longleftrightarrow> t = s \<and> s \<noteq> [] \<and> s \<noteq> ''.'' \<and> s \<noteq> ''..''"
  by (auto simp: body_component_def)

lemma body_components_normal:
  "(\<And>s. s \<in> set ss \<Longrightarrow> normal_name s) \<Longrightarrow> body_components ss = map Normal ss"
  by (induction ss) (auto simp: body_component_normal)

lemma body_components_mem:
  "Normal t \<in> set (body_components ss) \<Longrightarrow> t \<in> set ss \<and> t \<noteq> [] \<and> t \<noteq> ''.'' \<and> t \<noteq> ''..''"
  by (induction ss) (auto simp: body_component_def split: option.splits if_splits)

lemma components_Normal:
  assumes "Normal t \<in> set (components p)"
  shows "normal_name t"
proof -
  let ?ps = "split_on CHR ''/'' p"
  have "Normal t \<in> set (body_components ?ps) \<or> Normal t \<in> set (body_components (tl ?ps))"
    using assms by (auto simp: components_def Let_def split: if_splits)
  then have "t \<in> set ?ps \<and> t \<noteq> [] \<and> t \<noteq> ''.'' \<and> t \<noteq> ''..''"
    by (auto dest!: body_components_mem dest: list.set_sel(2) [OF split_on_ne])
  then show ?thesis using split_on_no_sep [of t "CHR ''/''" p] by (simp add: normal_name_def)
qed

text \<open>An absolute path written with proper names only is its own normal form.\<close>

definition abs_path :: "string list \<Rightarrow> string" where
  "abs_path cs = concat (map (\<lambda>c. CHR ''/'' # c) cs)"

lemma split_abs_path:
  assumes "\<And>c. c \<in> set cs \<Longrightarrow> CHR ''/'' \<notin> set c"
  shows "split_on CHR ''/'' (abs_path cs) = [] # cs"
proof -
  have "split_on CHR ''/'' (x @ abs_path cs) = x # cs" if "CHR ''/'' \<notin> set x" for x
    using assms that
  proof (induction cs arbitrary: x)
    case Nil
    then show ?case by (simp add: abs_path_def split_on_id)
  next
    case (Cons c cs)
    then have "split_on CHR ''/'' (c @ abs_path cs) = c # cs" by simp
    with Cons.prems(2) show ?case by (simp add: abs_path_def split_on_append)
  qed
  from this [of "[]"] show ?thesis by simp
qed

lemma components_abs_path:
  assumes "cs \<noteq> []" and "\<And>c. c \<in> set cs \<Longrightarrow> normal_name c"
  shows "components (abs_path cs) = RootDir # map Normal cs"
proof -
  have "is_absolute (abs_path cs)"
    using assms(1) by (cases cs) (auto simp: is_absolute_def string_simps abs_path_def)
  moreover have "split_on CHR ''/'' (abs_path cs) = [] # cs"
    using assms(2) by (intro split_abs_path) (auto simp: normal_name_def)
  ultimately show ?thesis
    using assms(2) by (simp add: components_def body_components_normal body_component_def)
qed

section \<open>Names that are UTF-8\<close>

text \<open>
  \<^verbatim>\<open>OsStr::to_str\<close> and \<^verbatim>\<open>OsString::into_string\<close> succeed exactly on well-formed UTF-8: for the first byte
  of a multi-byte sequence the table gives the range of the second and the number of further
  continuation bytes.
\<close>

definition utf8_lead :: "nat \<Rightarrow> (nat \<times> nat \<times> nat) option" where
  "utf8_lead a =
     (if 0xC2 \<le> a \<and> a \<le> 0xDF then Some (0x80, 0xBF, 0)
      else if a = 0xE0 then Some (0xA0, 0xBF, 1)
      else if a = 0xED then Some (0x80, 0x9F, 1)
      else if 0xE1 \<le> a \<and> a \<le> 0xEF then Some (0x80, 0xBF, 1)
      else if a = 0xF0 then Some (0x90, 0xBF, 2)
      else if 0xF1 \<le> a \<and> a \<le> 0xF3 then Some (0x80, 0xBF, 2)
      else if a = 0xF4 then Some (0x80, 0x8F, 2)
      else None)"

function utf8_ok :: "nat list \<Rightarrow> bool" where
  "utf8_ok [] \<longleftrightarrow> True"
| "utf8_ok (a # bs) \<longleftrightarrow>
     (if a < 0x80 then utf8_ok bs
      else
        (case utf8_lead a of
           None \<Rightarrow> False
         | Some (lo, hi, n) \<Rightarrow>
             bs \<noteq> [] \<and> lo \<le> hd bs \<and> hd bs \<le> hi \<and> n < length bs \<and>
             list_all (\<lambda>b. 0x80 \<le> b \<and> b \<le> 0xBF) (take n (tl bs)) \<and> utf8_ok (drop n (tl bs))))"
  by pat_completeness auto
termination by (relation "measure length") auto

definition to_str :: "string \<Rightarrow> string option" where
  "to_str s = (if utf8_ok (map of_char s) then Some s else None)"

lemma to_str_Some: "to_str s = Some t \<Longrightarrow> t = s"
  by (simp add: to_str_def split: if_splits)

end
