(* ===== verification/Net_Types.thy ===== *)
theory Net_Types
  imports Prelude
begin

text \<open>
  \<^verbatim>\<open>std::net\<close> addresses and the text parsers the program calls: \<^verbatim>\<open>str::parse::<IpAddr>\<close> (dotted
  IPv4 without leading zeros, IPv6 with \<open>::\<close> and an embedded IPv4 tail) and
  \<^verbatim>\<open>str::parse::<u8>\<close> (an optional plus sign and decimal digits).
\<close>

type_synonym ipv4 = "32 word"
type_synonym ipv6 = "128 word"

datatype IpAddr = V4 ipv4 | V6 ipv6

definition is_ipv4 :: "IpAddr \<Rightarrow> bool" where
  "is_ipv4 a = (case a of V4 _ \<Rightarrow> True | V6 _ \<Rightarrow> False)"

definition ipv4_new :: "u8 \<Rightarrow> u8 \<Rightarrow> u8 \<Rightarrow> u8 \<Rightarrow> ipv4" where
  "ipv4_new a b c d = be32 a b c d"

definition ipv6_from :: "bytes \<Rightarrow> ipv6" where
  "ipv6_from bs = foldl (\<lambda>acc b. acc * 256 + ucast b) 0 bs"

definition ipv6_from_groups :: "nat list \<Rightarrow> ipv6" where
  "ipv6_from_groups gs = foldl (\<lambda>acc g. acc * 65536 + of_nat g) 0 gs"

definition octet :: "ipv4 \<Rightarrow> nat \<Rightarrow> nat" where
  "octet a i = unat a div 256 ^ (3 - i) mod 256"

definition ipv4_is_loopback :: "ipv4 \<Rightarrow> bool" where
  "ipv4_is_loopback a \<longleftrightarrow> octet a 0 = 127"

definition is_loopback :: "IpAddr \<Rightarrow> bool" where
  "is_loopback a = (case a of V4 x \<Rightarrow> ipv4_is_loopback x | V6 x \<Rightarrow> x = 1)"

definition ipv4_is_unspecified :: "ipv4 \<Rightarrow> bool" where
  "ipv4_is_unspecified a \<longleftrightarrow> a = 0"

definition ipv4_is_broadcast :: "ipv4 \<Rightarrow> bool" where
  "ipv4_is_broadcast a \<longleftrightarrow> a = 0xFFFFFFFF"

definition ipv4_is_private :: "ipv4 \<Rightarrow> bool" where
  "ipv4_is_private a \<longleftrightarrow>
     octet a 0 = 10 \<or>
     (octet a 0 = 172 \<and> 16 \<le> octet a 1 \<and> octet a 1 \<le> 31) \<or>
     (octet a 0 = 192 \<and> octet a 1 = 168)"

section \<open>Parsers\<close>

definition to_digit :: "nat \<Rightarrow> char \<Rightarrow> nat option" where
  "to_digit radix c =
     (let n = code c;
          d = (if ascii_digit n then Some (n - 48)
               else if ascii_lower n then Some (n - 87)
               else if ascii_upper n then Some (n - 55)
               else None)
      in case d of None \<Rightarrow> None | Some v \<Rightarrow> if v < radix then Some v else None)"

definition digits_value :: "nat \<Rightarrow> string \<Rightarrow> nat" where
  "digits_value radix s =
     foldl (\<lambda>acc c. acc * radix + (case to_digit radix c of None \<Rightarrow> 0 | Some v \<Rightarrow> v)) 0 s"

text \<open>A parser consumes a prefix or fails without moving.\<close>

type_synonym 'a parser = "string \<Rightarrow> ('a \<times> string) option"

definition read_given_char :: "char \<Rightarrow> unit parser" where
  "read_given_char c s = (case s of x # xs \<Rightarrow> if x = c then Some ((), xs) else None | [] \<Rightarrow> None)"

definition read_separator :: "char \<Rightarrow> nat \<Rightarrow> 'a parser \<Rightarrow> 'a parser" where
  "read_separator sep index inner s =
     (if index > 0 then
        (case read_given_char sep s of None \<Rightarrow> None | Some (_, s') \<Rightarrow> inner s')
      else inner s)"

definition read_number :: "nat \<Rightarrow> nat \<Rightarrow> bool \<Rightarrow> nat \<Rightarrow> nat parser" where
  "read_number radix max_digits allow_zero_prefix limit s =
     (let ds = takeWhile (\<lambda>c. to_digit radix c \<noteq> None) s in
      if length ds > max_digits then None
      else if ds = [] then None
      else if \<not> allow_zero_prefix \<and> hd ds = CHR ''0'' \<and> length ds > 1 then None
      else if digits_value radix ds > limit then None
      else Some (digits_value radix ds, drop (length ds) s))"

fun read_octets :: "nat \<Rightarrow> nat \<Rightarrow> nat list parser" where
  "read_octets 0 i s = Some ([], s)"
| "read_octets (Suc n) i s =
     (case read_separator CHR ''.'' i (read_number 10 3 False 255) s of
        None \<Rightarrow> None
      | Some (d, s') \<Rightarrow>
          (case read_octets n (Suc i) s' of None \<Rightarrow> None | Some (ds, s'') \<Rightarrow> Some (d # ds, s'')))"

definition read_ipv4_octets :: "nat list parser" where
  "read_ipv4_octets = read_octets 4 0"

definition ipv4_of_octets :: "nat list \<Rightarrow> ipv4" where
  "ipv4_of_octets ds = foldl (\<lambda>acc d. acc * 256 + of_nat d) 0 ds"

text \<open>\<^verbatim>\<open>read_groups\<close>: the groups read, whether an IPv4 tail ended them, and the rest.\<close>

fun read_groups :: "nat \<Rightarrow> nat \<Rightarrow> string \<Rightarrow> nat list \<times> bool \<times> string" where
  "read_groups 0 i s = ([], False, s)"
| "read_groups (Suc left) i s =
     (case (if left > 0 then read_separator CHR '':'' i read_ipv4_octets s else None) of
        Some (ds, s') \<Rightarrow> ([ds ! 0 * 256 + ds ! 1, ds ! 2 * 256 + ds ! 3], True, s')
      | None \<Rightarrow>
          (case read_separator CHR '':'' i (read_number 16 4 True 65535) s of
             None \<Rightarrow> ([], False, s)
           | Some (g, s') \<Rightarrow>
               (case read_groups left (Suc i) s' of (gs, v4, s'') \<Rightarrow> (g # gs, v4, s''))))"

definition read_ipv6_addr :: "ipv6 parser" where
  "read_ipv6_addr s =
     (case read_groups 8 0 s of (head, head_ipv4, s1) \<Rightarrow>
        if length head = 8 then Some (ipv6_from_groups head, s1)
        else if head_ipv4 then None
        else
          (case read_given_char CHR '':'' s1 of None \<Rightarrow> None | Some (_, s2) \<Rightarrow>
          (case read_given_char CHR '':'' s2 of None \<Rightarrow> None | Some (_, s3) \<Rightarrow>
          (case read_groups (8 - (length head + 1)) 0 s3 of (tail, _, s4) \<Rightarrow>
             Some (ipv6_from_groups
                     (head @ replicate (8 - (length head + length tail)) 0 @ tail), s4)))))"

definition read_ip_addr :: "IpAddr parser" where
  "read_ip_addr s =
     (case read_ipv4_octets s of
        Some (ds, s') \<Rightarrow> Some (V4 (ipv4_of_octets ds), s')
      | None \<Rightarrow> (case read_ipv6_addr s of None \<Rightarrow> None | Some (a, s') \<Rightarrow> Some (V6 a, s')))"

definition parse_ip_addr :: "string \<Rightarrow> IpAddr option" where
  "parse_ip_addr s =
     (case read_ip_addr s of None \<Rightarrow> None | Some (a, rest) \<Rightarrow> if rest = [] then Some a else None)"

definition parse_u8 :: "string \<Rightarrow> nat option" where
  "parse_u8 s =
     (let ds = (case s of CHR ''+'' # t \<Rightarrow> if t = [] then s else t | _ \<Rightarrow> s) in
      if ds = [] \<or> \<not> list_all (\<lambda>c. ascii_digit (code c)) ds then None
      else if digits_value 10 ds > 255 then None
      else Some (digits_value 10 ds))"

text \<open>\<^verbatim>\<open>str::parse::<u64>\<close>: an optional plus sign, then digits that fit.\<close>

definition parse_u64 :: "string \<Rightarrow> nat option" where
  "parse_u64 text =
     (let ds = (case text of c # rest \<Rightarrow> if c = CHR ''+'' \<and> rest \<noteq> [] then rest else text | [] \<Rightarrow> text) in
      if ds = [] \<or> list_ex (\<lambda>c. to_digit 10 c = None) ds \<or> digits_value 10 ds > U64_MAX then None
      else Some (digits_value 10 ds))"

definition parse_u32_ok :: "string \<Rightarrow> bool" where
  "parse_u32_ok v = (case parse_u64 v of Some n \<Rightarrow> n < 2 ^ 32 | None \<Rightarrow> False)"

end
