(* ===== verification/Run_Spec.thy ===== *)
theory Run_Spec
  imports Host_Path Net_Types
begin

text \<open>
  The run specification of \<^verbatim>\<open>moraebox-core/src/spec.rs\<close>: its enumerations and defaults,
  \<^verbatim>\<open>RunSpec::validate\<close> with every refusal in the order of the code, the resolution of the network
  mode, and the syntactic checks of CIDRs, domain patterns and guest paths. Session and Box
  identifiers are the text of the UUIDs a third-party package generates.
\<close>

section \<open>Constants\<close>

definition DEFAULT_TIMEOUT :: duration where "DEFAULT_TIMEOUT = from_secs (60 * 60)"
definition DEFAULT_KILL_GRACE :: duration where "DEFAULT_KILL_GRACE = from_secs 5"
definition DEFAULT_OUTPUT_LIMIT :: nat where "DEFAULT_OUTPUT_LIMIT = 64 * 1024 * 1024"
definition MAX_KILL_GRACE :: duration where "MAX_KILL_GRACE = from_secs 60"
definition MAX_OUTPUT_LIMIT :: nat where "MAX_OUTPUT_LIMIT = 1024 * 1024 * 1024"
definition DEFAULT_TTY_ROWS :: u16 where "DEFAULT_TTY_ROWS = 24"
definition DEFAULT_TTY_COLUMNS :: u16 where "DEFAULT_TTY_COLUMNS = 80"
definition DEFAULT_COPY_LIMIT :: nat where "DEFAULT_COPY_LIMIT = 64 * 1024 * 1024"
definition MAX_COPY_LIMIT :: nat where "MAX_COPY_LIMIT = 1024 * 1024 * 1024"
definition MAX_NETWORK_CIDRS :: nat where "MAX_NETWORK_CIDRS = 128"
definition MAX_NETWORK_DOMAINS :: nat where "MAX_NETWORK_DOMAINS = 128"
definition MAX_PUBLISH_REQUESTS :: nat where "MAX_PUBLISH_REQUESTS = 32"

lemmas run_spec_constants = DEFAULT_TIMEOUT_def DEFAULT_KILL_GRACE_def DEFAULT_OUTPUT_LIMIT_def
  MAX_KILL_GRACE_def MAX_OUTPUT_LIMIT_def DEFAULT_TTY_ROWS_def DEFAULT_TTY_COLUMNS_def
  DEFAULT_COPY_LIMIT_def MAX_COPY_LIMIT_def MAX_NETWORK_CIDRS_def MAX_NETWORK_DOMAINS_def
  MAX_PUBLISH_REQUESTS_def from_secs_def NANOS_PER_SEC_def

section \<open>Data\<close>

type_synonym uuid = string

datatype TimeoutPolicy = Limited nat | Unlimited

datatype ImagePullPolicy = Missing | Always | Never

datatype Signal = Interrupt | Terminate | Kill | Hangup

datatype WorkspaceMode = ReadOnly | Overlay

datatype NetworkMode = Disabled | Unrestricted | Allowlist

datatype PublishProtocol = Tcp | Udp

record CopyInSpec =
  ci_source :: string
  ci_destination :: string

record CopyOutSpec =
  co_source :: string
  co_destination :: string

record NetworkPolicy =
  np_mode :: NetworkMode
  np_allow_cidrs :: "string list"
  np_allow_domains :: "string list"

record PublishRequest =
  pr_protocol :: PublishProtocol
  pr_host_address :: IpAddr
  pr_host_port :: u16
  pr_guest_port :: u16

record RunSpec =
  rs_session_id :: uuid
  rs_box_id :: "uuid option"
  rs_argv :: "string list"
  rs_cwd :: "string option"
  rs_env :: "(string, string) assoc"
  rs_inherit_env :: bool
  rs_network :: bool
  rs_network_policy :: "NetworkPolicy option"
  rs_publish :: "PublishRequest list"
  rs_image_pull_policy :: ImagePullPolicy
  rs_stdin :: bytes
  rs_timeout :: TimeoutPolicy
  rs_kill_grace :: duration
  rs_output_limit :: nat
  rs_tty :: bool
  rs_tty_rows :: u16
  rs_tty_columns :: u16
  rs_copy_in :: "CopyInSpec list"
  rs_copy_out :: "CopyOutSpec list"
  rs_copy_limit_bytes :: nat
  rs_workspace_mode :: WorkspaceMode

definition pull_policy_display :: "ImagePullPolicy \<Rightarrow> string" where
  "pull_policy_display p =
     (case p of Missing \<Rightarrow> ''missing'' | Always \<Rightarrow> ''always'' | Never \<Rightarrow> ''never'')"

definition pull_policy_from_str :: "string \<Rightarrow> (ImagePullPolicy, string) result" where
  "pull_policy_from_str s =
     (if s = ''missing'' then Ok Missing
      else if s = ''always'' then Ok Always
      else if s = ''never'' then Ok Never
      else Err ''pull policy must be one of: missing, always, never'')"

definition timeout_duration :: "TimeoutPolicy \<Rightarrow> duration option" where
  "timeout_duration p = (case p of Limited ms \<Rightarrow> Some (from_millis ms) | Unlimited \<Rightarrow> None)"

definition timeout_default :: TimeoutPolicy where
  "timeout_default = Limited 3600000"

definition run_spec_command :: "uuid \<Rightarrow> string list \<Rightarrow> RunSpec" where
  "run_spec_command session_id argv =
     \<lparr>rs_session_id = session_id, rs_box_id = None, rs_argv = argv, rs_cwd = None, rs_env = [],
      rs_inherit_env = False, rs_network = False, rs_network_policy = None, rs_publish = [],
      rs_image_pull_policy = Missing, rs_stdin = [], rs_timeout = timeout_default,
      rs_kill_grace = DEFAULT_KILL_GRACE, rs_output_limit = DEFAULT_OUTPUT_LIMIT, rs_tty = False,
      rs_tty_rows = DEFAULT_TTY_ROWS, rs_tty_columns = DEFAULT_TTY_COLUMNS, rs_copy_in = [],
      rs_copy_out = [], rs_copy_limit_bytes = DEFAULT_COPY_LIMIT, rs_workspace_mode = ReadOnly\<rparr>"

section \<open>Syntactic checks\<close>

definition valid_cidr :: "string \<Rightarrow> bool" where
  "valid_cidr cidr =
     (case split_once CHR ''/'' cidr of
        None \<Rightarrow> False
      | Some (address, prefix) \<Rightarrow>
          if address = [] \<or> prefix = [] \<or> CHR ''/'' \<in> set prefix then False
          else
            (case parse_ip_addr address of
               None \<Rightarrow> False
             | Some a \<Rightarrow>
                 (case parse_u8 prefix of
                    None \<Rightarrow> False
                  | Some p \<Rightarrow> p \<le> (if is_ipv4 a then 32 else 128))))"

text \<open>The label rule shared by the domain checks of the specification and of the policy.\<close>

definition valid_label :: "string \<Rightarrow> bool" where
  "valid_label label \<longleftrightarrow>
     label \<noteq> [] \<and> length label \<le> 63 \<and> \<not> starts_with ''-'' label \<and> \<not> ends_with ''-'' label \<and>
     list_all (\<lambda>c. ascii_alphanumeric (code c) \<or> c = CHR ''-'') label"

definition valid_domain_pattern :: "string \<Rightarrow> bool" where
  "valid_domain_pattern pattern =
     (let domain = (case strip_prefix ''*.'' pattern of Some d \<Rightarrow> d | None \<Rightarrow> pattern) in
      if domain = [] \<or> length domain > 253 \<or> ends_with ''.'' domain \<or>
         (starts_with ''*'' pattern \<and> \<not> starts_with ''*.'' pattern)
      then False
      else list_all valid_label (split_on CHR ''.'' domain))"

definition valid_guest_transfer_path :: "string \<Rightarrow> bool" where
  "valid_guest_transfer_path path \<longleftrightarrow>
     length path \<ge> 2 \<and> length path \<le> 4096 \<and> starts_with ''/'' path \<and> path \<noteq> ''/'' \<and>
     CHR 0x00 \<notin> set path \<and>
     list_all (\<lambda>c. c \<noteq> [] \<and> c \<noteq> ''.'' \<and> c \<noteq> ''..'') (drop 1 (split_on CHR ''/'' path))"

section \<open>Validation\<close>

definition validate_publish_requests :: "PublishRequest list \<Rightarrow> (unit, string) result" where
  "validate_publish_requests requests =
     (if length requests > MAX_PUBLISH_REQUESTS then
        Err ''a run must not contain more than 32 publish requests''
      else if list_ex (\<lambda>r. pr_guest_port r = 0) requests then
        Err ''published guest ports must be non-zero''
      else if list_ex (\<lambda>r. pr_protocol r \<noteq> Tcp) requests then
        Err ''preview port publishing supports TCP only''
      else if list_ex (\<lambda>r. \<not> is_loopback (pr_host_address r)) requests then
        Err ''preview port publishing supports loopback listeners only''
      else if \<not> distinct (map (\<lambda>r. (pr_protocol r, pr_host_address r, pr_host_port r))
                            (filter (\<lambda>r. pr_host_port r \<noteq> 0) requests)) then
        Err ''published host listeners must be unique''
      else Ok ())"

definition effective_network_mode :: "RunSpec \<Rightarrow> NetworkMode" where
  "effective_network_mode spec =
     (case rs_network_policy spec of
        None \<Rightarrow> if rs_network spec then Unrestricted else Disabled
      | Some policy \<Rightarrow> np_mode policy)"

definition network_enabled :: "RunSpec \<Rightarrow> bool" where
  "network_enabled spec \<longleftrightarrow> effective_network_mode spec \<noteq> Disabled"

definition validate_network :: "RunSpec \<Rightarrow> (unit, string) result" where
  "validate_network spec =
     (case rs_network_policy spec of
        None \<Rightarrow>
          if rs_publish spec \<noteq> [] \<and> \<not> rs_network spec then
            Err ''publish requests require networking to be enabled''
          else validate_publish_requests (rs_publish spec)
      | Some policy \<Rightarrow>
          if length (np_allow_cidrs policy) > MAX_NETWORK_CIDRS then
            Err ''network policy must not contain more than 128 CIDRs''
          else if length (np_allow_domains policy) > MAX_NETWORK_DOMAINS then
            Err ''network policy must not contain more than 128 domain patterns''
          else if list_ex (\<lambda>c. \<not> valid_cidr c) (np_allow_cidrs policy) then
            Err ''network policy contains an invalid CIDR''
          else if list_ex (\<lambda>d. \<not> valid_domain_pattern d) (np_allow_domains policy) then
            Err ''network policy contains an invalid domain pattern''
          else if np_mode policy \<noteq> Allowlist \<and>
                  (np_allow_cidrs policy \<noteq> [] \<or> np_allow_domains policy \<noteq> []) then
            Err ''CIDR and domain rules require allowlist network mode''
          else if np_mode policy = Allowlist \<and> np_allow_cidrs policy = [] \<and>
                  np_allow_domains policy = [] \<and> rs_publish spec = [] then
            Err ''allowlist network mode requires a rule or published preview port''
          else if rs_publish spec \<noteq> [] \<and> np_mode policy = Disabled then
            Err ''publish requests require networking to be enabled''
          else validate_publish_requests (rs_publish spec))"

text \<open>Host destinations are compared as paths, that is by their components.\<close>

definition run_spec_validate :: "RunSpec \<Rightarrow> (unit, string) result" where
  "run_spec_validate spec =
     (if rs_argv spec = [] \<or> hd (rs_argv spec) = [] then
        Err ''argv must contain a non-empty executable''
      else if rs_output_limit spec = 0 then Err ''output_limit must be greater than zero''
      else if rs_output_limit spec > MAX_OUTPUT_LIMIT then Err ''output_limit must not exceed 1 GiB''
      else if rs_kill_grace spec = 0 then Err ''kill_grace must be greater than zero''
      else if rs_kill_grace spec > MAX_KILL_GRACE then Err ''kill_grace must not exceed 60 seconds''
      else if rs_tty spec \<and> (rs_tty_rows spec = 0 \<or> rs_tty_columns spec = 0) then
        Err ''PTY rows and columns must be greater than zero''
      else if rs_copy_limit_bytes spec = 0 \<or> rs_copy_limit_bytes spec > MAX_COPY_LIMIT then
        Err ''copy_limit_bytes must be between 1 byte and 1 GiB''
      else and_then (validate_network spec) (\<lambda>_.
        if list_ex (\<lambda>c. ci_source c = [] \<or> \<not> valid_guest_transfer_path (ci_destination c))
             (rs_copy_in spec) then
          Err ''copy-in requires a host source and normalized absolute guest destination''
        else if list_ex (\<lambda>c. \<not> valid_guest_transfer_path (co_source c) \<or>
                             \<not> is_absolute (co_destination c)) (rs_copy_out spec) then
          Err ''copy-out requires a normalized absolute guest source and host destination''
        else if \<not> distinct (map ci_destination (rs_copy_in spec)) then
          Err ''copy-in guest destinations must be unique''
        else if \<not> distinct (map (components \<circ> co_destination) (rs_copy_out spec)) then
          Err ''copy-out host destinations must be unique''
        else Ok ()))"

text \<open>\<^verbatim>\<open>duration_millis\<close>: how the kill grace crosses the serializer.\<close>

definition duration_millis_serialize :: "duration \<Rightarrow> (nat, string) result" where
  "duration_millis_serialize d =
     (if as_millis d \<le> U64_MAX then Ok (as_millis d) else Err ''duration exceeds u64 milliseconds'')"

definition duration_millis_deserialize :: "nat \<Rightarrow> duration" where
  "duration_millis_deserialize ms = from_millis ms"

section \<open>Guest paths\<close>

lemma join_with_Cons: "join_with [c] (x # xs) = x @ concat (map (\<lambda>y. c # y) xs)"
proof (induction xs arbitrary: x)
  case Nil
  show ?case by simp
next
  case (Cons y ys)
  then show ?case by simp
qed

lemma join_with_mem: "x \<in> set xs \<Longrightarrow> set x \<subseteq> set (join_with [c] xs)"
  by (cases xs) (auto simp: join_with_Cons)

abbreviation nul :: char where "nul \<equiv> CHR 0x00"

definition guest_name :: "string \<Rightarrow> bool" where
  "guest_name c \<longleftrightarrow> normal_name c \<and> nul \<notin> set c"

lemma guest_path_canonical:
  "valid_guest_transfer_path path \<longleftrightarrow>
     (\<exists>cs. cs \<noteq> [] \<and> (\<forall>c \<in> set cs. guest_name c) \<and> path = abs_path cs \<and> length path \<le> 4096)"
proof
  assume valid: "valid_guest_transfer_path path"
  then obtain t where path: "path = CHR ''/'' # t" and t: "t \<noteq> []"
    by (auto simp: valid_guest_transfer_path_def string_simps)
  let ?cs = "split_on CHR ''/'' t"
  have "path = abs_path ?cs"
    using join_with_Cons [of "CHR ''/''" "[]" ?cs] join_split_on [of "CHR ''/''" path]
    by (simp add: path abs_path_def)
  moreover have "guest_name c" if "c \<in> set ?cs" for c
  proof -
    have "set c \<subseteq> set t"
      using join_with_mem [OF that, of "CHR ''/''"] by (simp add: join_split_on)
    with that valid show ?thesis
      using split_on_no_sep [OF that]
      by (auto simp: valid_guest_transfer_path_def path guest_name_def normal_name_def list_all_iff)
  qed
  ultimately show "\<exists>cs. cs \<noteq> [] \<and> (\<forall>c \<in> set cs. guest_name c) \<and> path = abs_path cs \<and> length path \<le> 4096"
    using valid by (intro exI [of _ ?cs]) (auto simp: valid_guest_transfer_path_def)
next
  assume "\<exists>cs. cs \<noteq> [] \<and> (\<forall>c \<in> set cs. guest_name c) \<and> path = abs_path cs \<and> length path \<le> 4096"
  then obtain cs where cs: "cs \<noteq> []" "\<forall>c \<in> set cs. guest_name c" "path = abs_path cs" "length path \<le> 4096"
    by blast
  then have "split_on CHR ''/'' path = [] # cs"
    using split_abs_path [of cs] by (auto simp: guest_name_def normal_name_def)
  moreover obtain c rest where "cs = c # rest" "c \<noteq> []"
    using cs by (cases cs) (auto simp: guest_name_def normal_name_def)
  moreover have "nul \<notin> set path"
    using cs(2) by (auto simp: cs(3) abs_path_def guest_name_def)
  moreover have "list_all (\<lambda>c. c \<noteq> [] \<and> c \<noteq> ''.'' \<and> c \<noteq> ''..'') cs"
    using cs(2) by (auto simp: list_all_iff guest_name_def normal_name_def)
  moreover have "2 \<le> length path" "starts_with ''/'' path" "path \<noteq> ''/''"
    using \<open>cs = c # rest\<close> \<open>c \<noteq> []\<close> by (auto simp: cs(3) abs_path_def string_simps Suc_le_eq)
  ultimately show "valid_guest_transfer_path path"
    using cs(4) unfolding valid_guest_transfer_path_def by simp
qed

section \<open>What validation guarantees\<close>

lemma validate_publish_requests_ok:
  "validate_publish_requests rs = Ok () \<longleftrightarrow>
     length rs \<le> 32 \<and>
     (\<forall>r \<in> set rs. pr_guest_port r \<noteq> 0 \<and> pr_protocol r = Tcp \<and> is_loopback (pr_host_address r)) \<and>
     distinct (map (\<lambda>r. (pr_protocol r, pr_host_address r, pr_host_port r))
       (filter (\<lambda>r. pr_host_port r \<noteq> 0) rs))"
  by (auto simp: validate_publish_requests_def list_ex_iff MAX_PUBLISH_REQUESTS_def)

lemma validate_network_publish:
  assumes "validate_network spec = Ok ()"
  shows "validate_publish_requests (rs_publish spec) = Ok ()"
    and "rs_publish spec \<noteq> [] \<Longrightarrow> network_enabled spec"
  using assms
  by (auto simp: validate_network_def network_enabled_def effective_network_mode_def
      split: option.splits if_splits)

lemma validate_network_rules:
  assumes "validate_network spec = Ok ()" and "rs_network_policy spec = Some policy"
  shows "length (np_allow_cidrs policy) \<le> 128" and "length (np_allow_domains policy) \<le> 128"
    and "\<forall>c \<in> set (np_allow_cidrs policy). valid_cidr c"
    and "\<forall>d \<in> set (np_allow_domains policy). valid_domain_pattern d"
    and "np_mode policy \<noteq> Allowlist \<Longrightarrow> np_allow_cidrs policy = [] \<and> np_allow_domains policy = []"
  using assms
  by (auto simp: validate_network_def list_ex_iff MAX_NETWORK_CIDRS_def MAX_NETWORK_DOMAINS_def
      split: if_splits)

lemma run_spec_validate_ok:
  assumes "run_spec_validate spec = Ok ()"
  shows "rs_argv spec \<noteq> []" "hd (rs_argv spec) \<noteq> []"
    "0 < rs_output_limit spec" "rs_output_limit spec \<le> MAX_OUTPUT_LIMIT"
    "0 < rs_kill_grace spec" "rs_kill_grace spec \<le> MAX_KILL_GRACE"
    "0 < rs_copy_limit_bytes spec" "rs_copy_limit_bytes spec \<le> MAX_COPY_LIMIT"
    "validate_network spec = Ok ()"
    "\<forall>c \<in> set (rs_copy_in spec). ci_source c \<noteq> [] \<and> valid_guest_transfer_path (ci_destination c)"
    "\<forall>c \<in> set (rs_copy_out spec). valid_guest_transfer_path (co_source c) \<and> is_absolute (co_destination c)"
    "distinct (map ci_destination (rs_copy_in spec))"
    "distinct (map (components \<circ> co_destination) (rs_copy_out spec))"
  using assms unfolding run_spec_validate_def
  by (simp_all add: list_ex_iff and_then_Inr_iff split: if_splits)

section \<open>Properties\<close>

text \<open>
  C39: A specification that passes validation is safe to hand to a backend: resource controls are
  within their documented bounds; every published port is a TCP listener on host loopback with a
  non-zero guest port, explicit listeners are pairwise different, and publishing implies that
  networking is on; egress rules exist only in allowlist mode; and every guest side of a copy is
  an absolute path of proper names (no empty, \<open>.\<close> or \<open>..\<close> component and no NUL byte).
\<close>

theorem run_spec_validate_sound:
  assumes "run_spec_validate spec = Ok ()"
  shows "rs_argv spec \<noteq> [] \<and> hd (rs_argv spec) \<noteq> [] \<and>
    0 < rs_output_limit spec \<and> rs_output_limit spec \<le> 2 ^ 30 \<and>
    0 < rs_kill_grace spec \<and> rs_kill_grace spec \<le> from_secs 60 \<and>
    0 < rs_copy_limit_bytes spec \<and> rs_copy_limit_bytes spec \<le> 2 ^ 30 \<and>
    (\<forall>r \<in> set (rs_publish spec).
       pr_protocol r = Tcp \<and> is_loopback (pr_host_address r) \<and> pr_guest_port r \<noteq> 0) \<and>
    (\<forall>r \<in> set (rs_publish spec). network_enabled spec) \<and>
    distinct (map (\<lambda>r. (pr_protocol r, pr_host_address r, pr_host_port r))
       (filter (\<lambda>r. pr_host_port r \<noteq> 0) (rs_publish spec))) \<and>
    (\<forall>policy. rs_network_policy spec = Some policy \<and> effective_network_mode spec \<noteq> Allowlist \<longrightarrow>
       np_allow_cidrs policy = [] \<and> np_allow_domains policy = []) \<and>
    (\<forall>p \<in> ci_destination ` set (rs_copy_in spec) \<union> co_source ` set (rs_copy_out spec).
       \<exists>cs. cs \<noteq> [] \<and> p = abs_path cs \<and> (\<forall>c \<in> set cs. guest_name c))"
proof -
  note ok = run_spec_validate_ok [OF assms]
  note pub = validate_network_publish [OF ok(9)]
  note rules = validate_network_rules [OF ok(9)]
  have "\<exists>cs. cs \<noteq> [] \<and> p = abs_path cs \<and> (\<forall>c \<in> set cs. guest_name c)"
    if "p \<in> ci_destination ` set (rs_copy_in spec) \<union> co_source ` set (rs_copy_out spec)" for p
  proof -
    from that ok(10,11) have "valid_guest_transfer_path p" by auto
    then show ?thesis unfolding guest_path_canonical by blast
  qed
  moreover have "np_allow_cidrs policy = [] \<and> np_allow_domains policy = []"
    if "rs_network_policy spec = Some policy" "effective_network_mode spec \<noteq> Allowlist" for policy
    using rules(5) [OF that(1)] that by (simp add: effective_network_mode_def)
  moreover have "\<forall>r \<in> set (rs_publish spec). network_enabled spec"
    using pub(2) by (cases "rs_publish spec") auto
  ultimately show ?thesis
    using ok(1-8) pub(1) unfolding validate_publish_requests_ok
    by (simp add: run_spec_constants)
qed

theorem run_spec_validate_sound_witness:
  "\<exists>spec. run_spec_validate spec = Ok () \<and> rs_publish spec \<noteq> [] \<and> rs_copy_in spec \<noteq> [] \<and>
     (\<forall>r \<in> set (rs_publish spec). network_enabled spec \<and> is_loopback (pr_host_address r))"
proof -
  let ?spec = "(run_spec_command ''id'' [''true''])
    \<lparr>rs_network := True,
     rs_publish := [\<lparr>pr_protocol = Tcp, pr_host_address = V4 0x7F000001, pr_host_port = 8080, pr_guest_port = 80\<rparr>],
     rs_copy_in := [\<lparr>ci_source = ''in'', ci_destination = ''/workspace/in''\<rparr>]\<rparr>"
  have ok: "run_spec_validate ?spec = Ok ()" by code_simp
  from run_spec_validate_sound [OF ok] ok show ?thesis
    by (intro exI [of _ ?spec]) auto
qed

text \<open>
  The defaults are conservative: the specification built from an argument vector has
  networking off and no environment, and it is valid exactly when the vector names an
  executable.
\<close>

theorem run_spec_command_default:
  "(run_spec_validate (run_spec_command session argv) = Ok () \<longleftrightarrow> argv \<noteq> [] \<and> hd argv \<noteq> []) \<and>
   \<not> network_enabled (run_spec_command session argv) \<and>
   rs_env (run_spec_command session argv) = [] \<and>
   \<not> rs_inherit_env (run_spec_command session argv) \<and>
   timeout_duration (rs_timeout (run_spec_command session argv)) = Some DEFAULT_TIMEOUT"
  by (auto simp: run_spec_validate_def run_spec_command_def validate_network_def
      validate_publish_requests_def network_enabled_def effective_network_mode_def
      run_spec_constants timeout_duration_def timeout_default_def from_millis_def)

lemma pull_policy_roundtrip: "pull_policy_from_str (pull_policy_display p) = Ok p"
  by (cases p) (simp_all add: pull_policy_from_str_def pull_policy_display_def)

lemma duration_millis_roundtrip:
  "ms \<le> U64_MAX \<Longrightarrow> duration_millis_serialize (duration_millis_deserialize ms) = Ok ms"
  by (simp add: duration_millis_serialize_def duration_millis_deserialize_def as_millis_def from_millis_def)

end
