(* ===== verification/Protocol.thy ===== *)
theory Protocol
  imports Run_Spec
begin

text \<open>
  The host/guest protocol of \<^verbatim>\<open>moraebox-protocol/src/lib.rs\<close>: frames and payloads, payload
  validation, the length-prefixed framing, the inbound validator (session, stream, sequence,
  peer state machine, transfer bracketing) and the outbound sequence. The protobuf codec is a
  third-party package: the encoder, its length and the decoder are parameters. A byte stream is
  the list of bytes it delivers before end of file.
\<close>

section \<open>Frames\<close>

definition PROTOCOL_VERSION :: nat where "PROTOCOL_VERSION = 1"
definition MAX_FRAME_SIZE :: nat where "MAX_FRAME_SIZE = 8 * 1024 * 1024"
definition MAX_TRANSFER_SIZE :: nat where "MAX_TRANSFER_SIZE = 1024 * 1024 * 1024"
definition EXEC_STREAM_ID :: nat where "EXEC_STREAM_ID = 1"

record ExecRequest =
  ex_argv :: "string list"
  ex_cwd :: string
  ex_env :: "string list"
  ex_tty :: bool
  ex_rows :: nat
  ex_cols :: nat

record CopyInStart =
  cis_transfer_id :: nat
  cis_destination :: string
  cis_archive_size :: nat
  cis_sha256 :: string

record CopyOutRequest =
  cor_transfer_id :: nat
  cor_source :: string
  cor_max_bytes :: nat

record CopyOutEnd =
  coe_transfer_id :: nat
  coe_total_bytes :: nat
  coe_sha256 :: string

text \<open>
  Messages of one or two fields carry them directly: \<open>Hello\<close> its version and capabilities,
  \<open>Resize\<close> rows and columns, \<open>Output\<close> channel and data, \<open>Exit\<close> code and signal, chunks their
  transfer id and data.
\<close>

datatype Payload =
  Hello string "string list"
| Exec ExecRequest
| Stdin bytes
| StdinEof
| Resize nat nat
| SignalPayload int
| Output int bytes
| Exit int "int option"
| Shutdown string
| CopyInStart CopyInStart
| CopyInChunk nat bytes
| CopyInEnd nat
| CopyOutRequest CopyOutRequest
| CopyOutStart nat
| CopyOutChunk nat bytes
| CopyOutEnd CopyOutEnd

record Frame =
  fr_protocol_version :: nat
  fr_session_id :: string
  fr_stream_id :: nat
  fr_sequence :: nat
  fr_payload :: "Payload option"

definition frame_new :: "string \<Rightarrow> nat \<Rightarrow> Payload \<Rightarrow> Frame" where
  "frame_new session_id stream_id payload =
     \<lparr>fr_protocol_version = PROTOCOL_VERSION, fr_session_id = session_id, fr_stream_id = stream_id,
      fr_sequence = 0, fr_payload = Some payload\<rparr>"

datatype PeerRole = Host | Guest

datatype PeerState = Initial | PeerRunning | InputClosed | Finished

datatype ProtocolError =
  TruncatedHeader
| LengthMismatch nat nat
| FrameTooLarge nat nat
| UnsupportedVersion nat
| MissingSessionId
| MissingPayload
| SessionMismatch
| StreamMismatch nat nat
| SequenceMismatch nat nat
| UnexpectedPayload PeerRole PeerState string
| SequenceExhausted
| InvalidTransferId
| InvalidTransferSize nat nat
| InvalidTransferDigest
| InvalidTransferPath string
| EmptyTransferChunk
| TransferAlreadyOpen nat
| TransferNotOpen
| TransferMismatch nat nat
| TransferStillOpen
| ReadHeader
| ReadBody nat
| WriteFailed
| DecodeFailed

section \<open>Payload validation\<close>

definition validate_transfer_id :: "nat \<Rightarrow> (unit, ProtocolError) result" where
  "validate_transfer_id transfer_id = (if transfer_id = 0 then Err InvalidTransferId else Ok ())"

definition validate_transfer_size :: "nat \<Rightarrow> (unit, ProtocolError) result" where
  "validate_transfer_size n_bytes =
     (if n_bytes = 0 \<or> n_bytes > MAX_TRANSFER_SIZE then Err (InvalidTransferSize n_bytes MAX_TRANSFER_SIZE)
      else Ok ())"

definition validate_sha256 :: "string \<Rightarrow> (unit, ProtocolError) result" where
  "validate_sha256 digest =
     (let hex = (case strip_prefix ''sha256:'' digest of None \<Rightarrow> [] | Some h \<Rightarrow> h) in
      if length hex = 64 \<and> list_all (\<lambda>c. ascii_hexdigit (code c)) hex then Ok ()
      else Err InvalidTransferDigest)"

definition validate_guest_path :: "string \<Rightarrow> (unit, ProtocolError) result" where
  "validate_guest_path path =
     (if length path > 4096 \<or> \<not> starts_with ''/'' path \<or> CHR 0x00 \<in> set path then
        Err (InvalidTransferPath path)
      else if path = ''/'' then Err (InvalidTransferPath path)
      else if list_ex (\<lambda>c. c = [] \<or> c = ''.'' \<or> c = ''..'') (drop 1 (split_on CHR ''/'' path)) then
        Err (InvalidTransferPath path)
      else Ok ())"

definition validate_chunk :: "nat \<Rightarrow> bytes \<Rightarrow> (unit, ProtocolError) result" where
  "validate_chunk transfer_id data =
     and_then (validate_transfer_id transfer_id)
       (\<lambda>_. if data = [] then Err EmptyTransferChunk else Ok ())"

definition validate_payload :: "Payload \<Rightarrow> (unit, ProtocolError) result" where
  "validate_payload payload =
     (case payload of
        CopyInStart s \<Rightarrow>
          and_then (validate_transfer_id (cis_transfer_id s)) (\<lambda>_.
          and_then (validate_guest_path (cis_destination s)) (\<lambda>_.
          and_then (validate_transfer_size (cis_archive_size s)) (\<lambda>_.
          validate_sha256 (cis_sha256 s))))
      | CopyInChunk i d \<Rightarrow> validate_chunk i d
      | CopyOutChunk i d \<Rightarrow> validate_chunk i d
      | CopyInEnd i \<Rightarrow> validate_transfer_id i
      | CopyOutRequest r \<Rightarrow>
          and_then (validate_transfer_id (cor_transfer_id r)) (\<lambda>_.
          and_then (validate_transfer_size (cor_max_bytes r)) (\<lambda>_.
          validate_guest_path (cor_source r)))
      | CopyOutStart i \<Rightarrow> validate_transfer_id i
      | CopyOutEnd e \<Rightarrow>
          and_then (validate_transfer_id (coe_transfer_id e)) (\<lambda>_.
          and_then (validate_transfer_size (coe_total_bytes e)) (\<lambda>_.
          validate_sha256 (coe_sha256 e)))
      | _ \<Rightarrow> Ok ())"

definition validate_frame :: "Frame \<Rightarrow> (unit, ProtocolError) result" where
  "validate_frame f =
     (if fr_protocol_version f \<noteq> PROTOCOL_VERSION then
        Err (UnsupportedVersion (fr_protocol_version f))
      else if fr_session_id f = [] then Err MissingSessionId
      else (case fr_payload f of None \<Rightarrow> Err MissingPayload | Some p \<Rightarrow> validate_payload p))"

definition payload_name :: "Payload \<Rightarrow> string" where
  "payload_name payload =
     (case payload of
        Hello _ _ \<Rightarrow> ''hello'' | Exec _ \<Rightarrow> ''exec'' | Stdin _ \<Rightarrow> ''stdin'' | StdinEof \<Rightarrow> ''stdin_eof''
      | Resize _ _ \<Rightarrow> ''resize'' | SignalPayload _ \<Rightarrow> ''signal'' | Output _ _ \<Rightarrow> ''output''
      | Exit _ _ \<Rightarrow> ''exit'' | Shutdown _ \<Rightarrow> ''shutdown'' | CopyInStart _ \<Rightarrow> ''copy_in_start''
      | CopyInChunk _ _ \<Rightarrow> ''copy_in_chunk'' | CopyInEnd _ \<Rightarrow> ''copy_in_end''
      | CopyOutRequest _ \<Rightarrow> ''copy_out_request'' | CopyOutStart _ \<Rightarrow> ''copy_out_start''
      | CopyOutChunk _ _ \<Rightarrow> ''copy_out_chunk'' | CopyOutEnd _ \<Rightarrow> ''copy_out_end'')"

section \<open>Framing\<close>

definition validate_frame_size :: "nat \<Rightarrow> (unit, ProtocolError) result" where
  "validate_frame_size n_bytes =
     (if n_bytes > MAX_FRAME_SIZE then Err (FrameTooLarge n_bytes MAX_FRAME_SIZE) else Ok ())"

definition u32_to_be_bytes :: "nat \<Rightarrow> bytes" where
  "u32_to_be_bytes n =
     [of_nat (n div 2 ^ 24), of_nat (n div 2 ^ 16), of_nat (n div 2 ^ 8), of_nat n]"

definition u32_from_be_bytes :: "bytes \<Rightarrow> nat" where
  "u32_from_be_bytes bs = unat (be32 (bs ! 0) (bs ! 1) (bs ! 2) (bs ! 3))"

definition encode_frame ::
  "(Frame \<Rightarrow> nat) \<Rightarrow> (Frame \<Rightarrow> bytes) \<Rightarrow> Frame \<Rightarrow> (bytes, ProtocolError) result" where
  "encode_frame encoded_len encode frame =
     and_then (validate_frame frame) (\<lambda>_.
       let n = encoded_len frame in
       if n > MAX_FRAME_SIZE then Err (FrameTooLarge n MAX_FRAME_SIZE)
       else if n \<ge> 2 ^ 32 then Err (FrameTooLarge n MAX_FRAME_SIZE)
       else Ok (u32_to_be_bytes n @ encode frame))"

definition decode_frame ::
  "(bytes \<Rightarrow> Frame option) \<Rightarrow> bytes \<Rightarrow> (Frame, ProtocolError) result" where
  "decode_frame decode bs =
     (if length bs < 4 then Err TruncatedHeader
      else
        let declared = u32_from_be_bytes (take 4 bs) in
        and_then (validate_frame_size declared) (\<lambda>_.
          if length bs - 4 \<noteq> declared then Err (LengthMismatch declared (length bs - 4))
          else
            and_then (ok_or (decode (drop 4 bs)) DecodeFailed) (\<lambda>frame.
            and_then (validate_frame frame) (\<lambda>_. Ok frame))))"

text \<open>\<^verbatim>\<open>read_exact\<close> on a stream: enough bytes, or end of file.\<close>

definition read_exact :: "nat \<Rightarrow> bytes \<Rightarrow> (bytes \<times> bytes) option" where
  "read_exact n stream = (if n \<le> length stream then Some (take n stream, drop n stream) else None)"

definition read_frame ::
  "(bytes \<Rightarrow> Frame option) \<Rightarrow> bytes \<Rightarrow> (Frame \<times> bytes, ProtocolError) result" where
  "read_frame decode stream =
     and_then (ok_or (read_exact 4 stream) ReadHeader) (\<lambda>(header, rest).
       let declared = u32_from_be_bytes header in
       and_then (validate_frame_size declared) (\<lambda>_.
       and_then (ok_or (read_exact declared rest) (ReadBody declared)) (\<lambda>(body, rest').
       and_then (ok_or (decode body) DecodeFailed) (\<lambda>frame.
       and_then (validate_frame frame) (\<lambda>_. Ok (frame, rest'))))))"

text \<open>
  \<^verbatim>\<open>write_frame\<close>: \<open>write_all written bs\<close> is the writer after it took and flushed \<open>bs\<close>, or
  \<^const>\<open>None\<close> when it failed.
\<close>

definition write_frame ::
  "(Frame \<Rightarrow> nat) \<Rightarrow> (Frame \<Rightarrow> bytes) \<Rightarrow> ('w \<Rightarrow> bytes \<Rightarrow> 'w option) \<Rightarrow> 'w \<Rightarrow> Frame
     \<Rightarrow> ('w, ProtocolError) result" where
  "write_frame encoded_len encode write_all writer frame =
     and_then (encode_frame encoded_len encode frame) (\<lambda>bs. ok_or (write_all writer bs) WriteFailed)"

section \<open>The inbound validator and the outbound sequence\<close>

record InboundValidator =
  iv_session_id :: string
  iv_stream_id :: nat
  iv_peer :: PeerRole
  iv_next_sequence :: nat
  iv_state :: PeerState
  iv_transfer_id :: "nat option"

definition validator_new :: "string \<Rightarrow> nat \<Rightarrow> PeerRole \<Rightarrow> InboundValidator" where
  "validator_new session_id stream_id peer =
     \<lparr>iv_session_id = session_id, iv_stream_id = stream_id, iv_peer = peer, iv_next_sequence = 0,
      iv_state = Initial, iv_transfer_id = None\<rparr>"

definition transition :: "PeerRole \<Rightarrow> PeerState \<Rightarrow> Payload \<Rightarrow> PeerState option" where
  "transition peer s payload =
     (case peer of
        Guest \<Rightarrow>
          (case s of
             Initial \<Rightarrow> (case payload of Hello _ _ \<Rightarrow> Some PeerRunning | _ \<Rightarrow> None)
           | PeerRunning \<Rightarrow>
               (case payload of
                  Output _ _ \<Rightarrow> Some PeerRunning
                | CopyOutStart _ \<Rightarrow> Some PeerRunning
                | CopyOutChunk _ _ \<Rightarrow> Some PeerRunning
                | CopyOutEnd _ \<Rightarrow> Some PeerRunning
                | Exit _ _ \<Rightarrow> Some Finished
                | Shutdown _ \<Rightarrow> Some Finished
                | _ \<Rightarrow> None)
           | _ \<Rightarrow> None)
      | Host \<Rightarrow>
          (case s of
             Initial \<Rightarrow>
               (case payload of
                  Exec _ \<Rightarrow> Some PeerRunning
                | CopyInStart _ \<Rightarrow> Some Initial
                | CopyInChunk _ _ \<Rightarrow> Some Initial
                | CopyInEnd _ \<Rightarrow> Some Initial
                | CopyOutRequest _ \<Rightarrow> Some Initial
                | _ \<Rightarrow> None)
           | PeerRunning \<Rightarrow>
               (case payload of
                  Stdin _ \<Rightarrow> Some PeerRunning
                | Resize _ _ \<Rightarrow> Some PeerRunning
                | SignalPayload _ \<Rightarrow> Some PeerRunning
                | StdinEof \<Rightarrow> Some InputClosed
                | Shutdown _ \<Rightarrow> Some Finished
                | _ \<Rightarrow> None)
           | InputClosed \<Rightarrow>
               (case payload of
                  Resize _ _ \<Rightarrow> Some InputClosed
                | SignalPayload _ \<Rightarrow> Some InputClosed
                | Shutdown _ \<Rightarrow> Some Finished
                | _ \<Rightarrow> None)
           | Finished \<Rightarrow> None))"

definition open_transfer ::
  "InboundValidator \<Rightarrow> nat \<Rightarrow> InboundValidator \<times> (unit, ProtocolError) result" where
  "open_transfer v transfer_id =
     (case iv_transfer_id v of
        Some active \<Rightarrow> (v, Err (TransferAlreadyOpen active))
      | None \<Rightarrow> (v\<lparr>iv_transfer_id := Some transfer_id\<rparr>, Ok ()))"

definition require_transfer :: "InboundValidator \<Rightarrow> nat \<Rightarrow> (unit, ProtocolError) result" where
  "require_transfer v transfer_id =
     (case iv_transfer_id v of
        Some active \<Rightarrow>
          if active = transfer_id then Ok () else Err (TransferMismatch active transfer_id)
      | None \<Rightarrow> Err TransferNotOpen)"

definition close_transfer ::
  "InboundValidator \<Rightarrow> nat \<Rightarrow> InboundValidator \<times> (unit, ProtocolError) result" where
  "close_transfer v transfer_id =
     (case require_transfer v transfer_id of
        Inl e \<Rightarrow> (v, Err e)
      | Inr _ \<Rightarrow> (v\<lparr>iv_transfer_id := None\<rparr>, Ok ()))"

definition accept_transfer ::
  "InboundValidator \<Rightarrow> Payload \<Rightarrow> InboundValidator \<times> (unit, ProtocolError) result" where
  "accept_transfer v payload =
     (case payload of
        CopyInStart s \<Rightarrow> open_transfer v (cis_transfer_id s)
      | CopyOutStart i \<Rightarrow> open_transfer v i
      | CopyInChunk i _ \<Rightarrow> (v, require_transfer v i)
      | CopyOutChunk i _ \<Rightarrow> (v, require_transfer v i)
      | CopyInEnd i \<Rightarrow> close_transfer v i
      | CopyOutEnd e \<Rightarrow> close_transfer v (coe_transfer_id e)
      | Exec _ \<Rightarrow> (v, if iv_transfer_id v \<noteq> None then Err TransferStillOpen else Ok ())
      | Exit _ _ \<Rightarrow> (v, if iv_transfer_id v \<noteq> None then Err TransferStillOpen else Ok ())
      | _ \<Rightarrow> (v, Ok ()))"

text \<open>\<^verbatim>\<open>accept\<close>: the checks before the transfer step leave the validator as it is.\<close>

definition accept_checks :: "InboundValidator \<Rightarrow> Frame \<Rightarrow> (Payload \<times> PeerState, ProtocolError) result" where
  "accept_checks v frame =
     and_then (validate_frame frame) (\<lambda>_.
       if fr_session_id frame \<noteq> iv_session_id v then Err SessionMismatch
       else if fr_stream_id frame \<noteq> iv_stream_id v then
         Err (StreamMismatch (iv_stream_id v) (fr_stream_id frame))
       else if fr_sequence frame \<noteq> iv_next_sequence v then
         Err (SequenceMismatch (iv_next_sequence v) (fr_sequence frame))
       else
         and_then (ok_or (fr_payload frame) MissingPayload) (\<lambda>payload.
           case transition (iv_peer v) (iv_state v) payload of
             None \<Rightarrow> Err (UnexpectedPayload (iv_peer v) (iv_state v) (payload_name payload))
           | Some next_state \<Rightarrow> Ok (payload, next_state)))"

definition accept :: "InboundValidator \<Rightarrow> Frame \<Rightarrow> InboundValidator \<times> (unit, ProtocolError) result" where
  "accept v frame =
     (case accept_checks v frame of
        Inl e \<Rightarrow> (v, Err e)
      | Inr (payload, next_state) \<Rightarrow>
          (case accept_transfer v payload of
             (v1, Inl e) \<Rightarrow> (v1, Err e)
           | (v1, Inr _) \<Rightarrow>
               (case checked_add (iv_next_sequence v1) 1 of
                  None \<Rightarrow> (v1, Err SequenceExhausted)
                | Some n \<Rightarrow> (v1\<lparr>iv_next_sequence := n, iv_state := next_state\<rparr>, Ok ()))))"

record FrameSequence =
  fs_session_id :: string
  fs_stream_id :: nat
  fs_next_sequence :: nat

definition frame_sequence_new :: "string \<Rightarrow> nat \<Rightarrow> FrameSequence" where
  "frame_sequence_new session_id stream_id =
     \<lparr>fs_session_id = session_id, fs_stream_id = stream_id, fs_next_sequence = 0\<rparr>"

definition frame_sequence_next ::
  "FrameSequence \<Rightarrow> Payload \<Rightarrow> FrameSequence \<times> (Frame, ProtocolError) result" where
  "frame_sequence_next s payload =
     (case checked_add (fs_next_sequence s) 1 of
        None \<Rightarrow> (s, Err SequenceExhausted)
      | Some n \<Rightarrow>
          (s\<lparr>fs_next_sequence := n\<rparr>,
           Ok ((frame_new (fs_session_id s) (fs_stream_id s) payload)
                 \<lparr>fr_sequence := fs_next_sequence s\<rparr>)))"

section \<open>Framing: what is written is read back\<close>

primrec write_frames ::
  "(Frame \<Rightarrow> nat) \<Rightarrow> (Frame \<Rightarrow> bytes) \<Rightarrow> bytes \<Rightarrow> Frame list \<Rightarrow> (bytes, ProtocolError) result" where
  "write_frames encoded_len encode written [] = Ok written"
| "write_frames encoded_len encode written (f # fs) =
     and_then (write_frame encoded_len encode (\<lambda>w bs. Some (w @ bs)) written f)
       (\<lambda>w. write_frames encoded_len encode w fs)"

primrec read_frames ::
  "(bytes \<Rightarrow> Frame option) \<Rightarrow> nat \<Rightarrow> bytes \<Rightarrow> (Frame list \<times> bytes, ProtocolError) result" where
  "read_frames decode 0 stream = Ok ([], stream)"
| "read_frames decode (Suc n) stream =
     and_then (read_frame decode stream) (\<lambda>(f, rest).
     and_then (read_frames decode n rest) (\<lambda>(fs, rest'). Ok (f # fs, rest')))"

definition codec_ok ::
  "(Frame \<Rightarrow> nat) \<Rightarrow> (Frame \<Rightarrow> bytes) \<Rightarrow> (bytes \<Rightarrow> Frame option) \<Rightarrow> Frame \<Rightarrow> bool" where
  "codec_ok encoded_len encode decode f \<longleftrightarrow>
     encoded_len f = length (encode f) \<and> decode (encode f) = Some f"

lemma be_bytes_roundtrip:
  assumes "n < 2 ^ 32"
  shows "u32_from_be_bytes (u32_to_be_bytes n) = n"
proof -
  have byte: "unat (of_nat m :: u8) = m mod 256" for m
    by (simp add: unat_of_nat)
  have "n div 2 ^ 24 < 256" using assms by simp
  moreover have "n = ((n div 2 ^ 24 * 256 + n div 2 ^ 16 mod 256) * 256 + n div 2 ^ 8 mod 256) * 256 + n mod 256"
  proof -
    have "n div 2 ^ 16 = n div 2 ^ 24 * 256 + n div 2 ^ 16 mod 256"
      using div_mult_mod_eq [of "n div 2 ^ 16" 256] by (simp add: div_mult2_eq [symmetric])
    moreover have "n div 2 ^ 8 = n div 2 ^ 16 * 256 + n div 2 ^ 8 mod 256"
      using div_mult_mod_eq [of "n div 2 ^ 8" 256] by (simp add: div_mult2_eq [symmetric])
    moreover have "n = n div 2 ^ 8 * 256 + n mod 256"
      using div_mult_mod_eq [of n 256] by simp
    ultimately show ?thesis by presburger
  qed
  ultimately show ?thesis
    unfolding u32_from_be_bytes_def u32_to_be_bytes_def unat_be32 by (simp add: byte)
qed

lemma be_bytes_roundtrip2:
  assumes "length bs = 4"
  shows "u32_to_be_bytes (u32_from_be_bytes bs) = bs"
proof -
  obtain a b c d where bs: "bs = [a, b, c, d]"
    using assms by (auto simp: length_Suc_conv numeral_eq_Suc)
  have byte: "of_nat (k * 256 + unat x) = (x :: u8)" for k x
  proof -
    have "(of_nat 256 :: u8) = 0" by simp
    then have "(of_nat (k * 256) :: u8) = 0" by (simp only: of_nat_mult mult_zero_right)
    then show ?thesis by (simp only: of_nat_add) simp
  qed
  have hi: "(k * 256 + unat x) div 256 = k" for k and x :: u8
    using unat_u8_less [of x] by simp
  let ?n = "((unat a * 256 + unat b) * 256 + unat c) * 256 + unat d"
  have "?n div 2 ^ 8 = (unat a * 256 + unat b) * 256 + unat c"
    using hi [of "(unat a * 256 + unat b) * 256 + unat c" d] by simp
  moreover have "?n div 2 ^ 16 = ?n div 256 div 256" "?n div 2 ^ 24 = ?n div 256 div 256 div 256"
    by (simp_all only: div_mult2_eq [symmetric]) simp_all
  ultimately have "u32_to_be_bytes ?n = [of_nat (unat a), of_nat (unat a * 256 + unat b),
      of_nat ((unat a * 256 + unat b) * 256 + unat c), of_nat ?n]"
    unfolding u32_to_be_bytes_def by (simp only: hi)
  then show ?thesis
    unfolding bs u32_from_be_bytes_def unat_be32 by (simp only: byte nth_Cons_0 nth_Cons_numeral) (simp add: unat_be32 byte)
qed

lemma length_u32_to_be_bytes [simp]: "length (u32_to_be_bytes n) = 4"
  by (simp add: u32_to_be_bytes_def)

lemma encode_frame_Inr [result_simps]:
  "encode_frame encoded_len encode f = Inr bs \<longleftrightarrow>
     validate_frame f = Inr () \<and> encoded_len f \<le> MAX_FRAME_SIZE \<and>
     bs = u32_to_be_bytes (encoded_len f) @ encode f"
  by (auto simp: encode_frame_def and_then_Inr_iff Let_def MAX_FRAME_SIZE_def)

lemma read_frame_encoded:
  assumes "encode_frame encoded_len encode f = Inr bs" and "codec_ok encoded_len encode decode f"
  shows "read_frame decode (bs @ rest) = Inr (f, rest)"
proof -
  have bs: "bs = u32_to_be_bytes (length (encode f)) @ encode f"
    and n: "length (encode f) \<le> MAX_FRAME_SIZE" and ok: "validate_frame f = Inr ()"
    and dec: "decode (encode f) = Some f"
    using assms by (auto simp: codec_ok_def result_simps)
  have "length (encode f) < 2 ^ 32" using n by (simp add: MAX_FRAME_SIZE_def)
  with n show ?thesis
    by (simp add: read_frame_def bs read_exact_def be_bytes_roundtrip validate_frame_size_def ok dec)
qed

lemma decode_frame_encoded:
  assumes "encode_frame encoded_len encode f = Inr bs" and "codec_ok encoded_len encode decode f"
  shows "decode_frame decode bs = Inr f"
proof -
  have bs: "bs = u32_to_be_bytes (length (encode f)) @ encode f"
    and n: "length (encode f) \<le> MAX_FRAME_SIZE" and ok: "validate_frame f = Inr ()"
    and dec: "decode (encode f) = Some f"
    using assms by (auto simp: codec_ok_def result_simps)
  have "length (encode f) < 2 ^ 32" using n by (simp add: MAX_FRAME_SIZE_def)
  with n show ?thesis
    by (simp add: decode_frame_def bs be_bytes_roundtrip validate_frame_size_def ok dec)
qed

lemma decode_frame_Inr [result_simps]:
  "decode_frame decode bs = Inr f \<longleftrightarrow>
     4 \<le> length bs \<and> u32_from_be_bytes (take 4 bs) = length bs - 4 \<and>
     length bs - 4 \<le> MAX_FRAME_SIZE \<and> decode (drop 4 bs) = Some f \<and> validate_frame f = Inr ()"
  by (auto simp: decode_frame_def Let_def and_then_Inr_iff validate_frame_size_def result_simps
      split: if_splits)

text \<open>
  C38: Every list of frames that encodes is written and read back whole and in order, and
  the bytes that follow it on the stream are left untouched.
\<close>

theorem frame_stream_roundtrip:
  assumes "\<forall>f\<in>set fs. codec_ok encoded_len encode decode f"
    and "\<forall>f\<in>set fs. is_ok (validate_frame f) \<and> encoded_len f \<le> MAX_FRAME_SIZE"
  shows "\<exists>bs. write_frames encoded_len encode written fs = Ok (written @ bs) \<and>
              read_frames decode (length fs) (bs @ rest) = Ok (fs, rest)"
  using assms
proof (induction fs arbitrary: written)
  case (Cons f fs)
  obtain b where b: "encode_frame encoded_len encode f = Inr b"
    using Cons.prems by (auto simp: is_ok_iff encode_frame_Inr)
  obtain bs where bs: "write_frames encoded_len encode (written @ b) fs = Inr ((written @ b) @ bs)"
    "read_frames decode (length fs) (bs @ rest) = Inr (fs, rest)"
    using Cons by (metis list.set_intros(2))
  have "read_frame decode (b @ bs @ rest) = Inr (f, bs @ rest)"
    by (rule read_frame_encoded [OF b]) (use Cons.prems in simp)
  with b bs show ?case by (intro exI [of _ "b @ bs"]) (simp add: write_frame_def)
qed simp


theorem frame_stream_roundtrip_witness:
  "\<exists>bs. write_frames (\<lambda>f. length (fr_session_id f)) (\<lambda>f. map (\<lambda>c. of_nat (code c)) (fr_session_id f)) []
           [frame_new ''s'' 1 StdinEof, frame_new ''s'' 1 StdinEof] = Ok ([] @ bs) \<and>
         read_frames (\<lambda>b. Some (frame_new (map (\<lambda>x. char_of (unat x)) b) 1 StdinEof)) 2 (bs @ [7]) =
           Ok ([frame_new ''s'' 1 StdinEof, frame_new ''s'' 1 StdinEof], [7])"
proof -
  let ?f = "frame_new ''s'' 1 StdinEof"
  let ?n = "\<lambda>f :: Frame. length (fr_session_id f)"
  let ?e = "\<lambda>f :: Frame. map (\<lambda>c. of_nat (code c) :: u8) (fr_session_id f)"
  let ?d = "\<lambda>b :: bytes. Some (frame_new (map (\<lambda>x. char_of (unat x)) b) 1 StdinEof)"
  have codec: "codec_ok ?n ?e ?d ?f" and ok: "is_ok (validate_frame ?f) \<and> ?n ?f \<le> MAX_FRAME_SIZE"
    by code_simp+
  show ?thesis
    using frame_stream_roundtrip [of "[?f, ?f]" ?n ?e ?d "[]" "[7]"] codec ok
    by (simp only: list.set ball_simps list.size numeral_2_eq_2 simp_thms One_nat_def add_Suc_right add_0_right)
qed

section \<open>The validator implements the stream contract\<close>

text \<open>
  What a direction of the stream may carry, without frames and counters: the peer state and the
  open transfer, stepped by payloads.
\<close>

definition peer_step :: "PeerRole \<Rightarrow> PeerState \<times> nat option \<Rightarrow> Payload \<Rightarrow> (PeerState \<times> nat option) option" where
  "peer_step peer st payload =
     (case transition peer (fst st) payload of
        None \<Rightarrow> None
      | Some s \<Rightarrow>
          (case payload of
             CopyInStart c \<Rightarrow> if snd st = None then Some (s, Some (cis_transfer_id c)) else None
           | CopyOutStart i \<Rightarrow> if snd st = None then Some (s, Some i) else None
           | CopyInChunk i _ \<Rightarrow> if snd st = Some i then Some (s, Some i) else None
           | CopyOutChunk i _ \<Rightarrow> if snd st = Some i then Some (s, Some i) else None
           | CopyInEnd i \<Rightarrow> if snd st = Some i then Some (s, None) else None
           | CopyOutEnd e \<Rightarrow> if snd st = Some (coe_transfer_id e) then Some (s, None) else None
           | Exec _ \<Rightarrow> if snd st = None then Some (s, None) else None
           | Exit _ _ \<Rightarrow> if snd st = None then Some (s, None) else None
           | _ \<Rightarrow> Some (s, snd st)))"

primrec peer_run :: "PeerRole \<Rightarrow> PeerState \<times> nat option \<Rightarrow> Payload list \<Rightarrow> (PeerState \<times> nat option) option" where
  "peer_run peer st [] = Some st"
| "peer_run peer st (p # ps) = Option.bind (peer_step peer st p) (\<lambda>st'. peer_run peer st' ps)"

abbreviation abs_peer :: "InboundValidator \<Rightarrow> PeerState \<times> nat option" where
  "abs_peer v \<equiv> (iv_state v, iv_transfer_id v)"

lemmas transfer_defs = accept_transfer_def open_transfer_def close_transfer_def require_transfer_def

lemma accept_transfer_Inr:
  assumes "transition (iv_peer v) (iv_state v) p = Some s"
  shows "accept_transfer v p = (v', Inr ()) \<longleftrightarrow>
     (\<exists>t. peer_step (iv_peer v) (abs_peer v) p = Some (s, t) \<and> v' = v\<lparr>iv_transfer_id := t\<rparr>)"
  using assms by (cases v; cases p) (auto simp: transfer_defs peer_step_def split: option.splits)

lemma accept_checks_Inr:
  "accept_checks v f = Inr (p, s) \<longleftrightarrow>
     validate_frame f = Inr () \<and> fr_session_id f = iv_session_id v \<and>
     fr_stream_id f = iv_stream_id v \<and> fr_sequence f = iv_next_sequence v \<and>
     fr_payload f = Some p \<and> transition (iv_peer v) (iv_state v) p = Some s"
  by (auto simp: accept_checks_def and_then_Inr_iff result_simps split: if_splits option.splits)

lemma peer_step_transition:
  "peer_step peer st p = Some (s, t) \<Longrightarrow> transition peer (fst st) p = Some s"
  by (auto simp: peer_step_def split: option.splits Payload.splits if_splits)

lemma accept_Inr:
  "accept v f = (v', Inr ()) \<longleftrightarrow>
     (\<exists>p s t. validate_frame f = Inr () \<and> fr_session_id f = iv_session_id v \<and>
        fr_stream_id f = iv_stream_id v \<and> fr_sequence f = iv_next_sequence v \<and>
        fr_payload f = Some p \<and> peer_step (iv_peer v) (abs_peer v) p = Some (s, t) \<and>
        iv_next_sequence v < U64_MAX \<and>
        v' = v\<lparr>iv_next_sequence := iv_next_sequence v + 1, iv_state := s, iv_transfer_id := t\<rparr>)"
  (is "?lhs \<longleftrightarrow> ?rhs")
proof
  assume ?lhs
  then obtain p s v1 where checks: "accept_checks v f = Inr (p, s)"
    and tr: "accept_transfer v p = (v1, Inr ())"
    and "iv_next_sequence v1 + 1 \<le> U64_MAX"
    and "v' = v1\<lparr>iv_next_sequence := iv_next_sequence v1 + 1, iv_state := s\<rparr>"
    by (auto simp: accept_def checked_add_def split: sum.splits prod.splits option.splits if_splits)
  moreover from checks tr obtain t where "peer_step (iv_peer v) (abs_peer v) p = Some (s, t)"
    "v1 = v\<lparr>iv_transfer_id := t\<rparr>"
    by (auto simp: accept_checks_Inr accept_transfer_Inr)
  ultimately show ?rhs by (auto simp: accept_checks_Inr)
next
  assume ?rhs
  then obtain p s t where h: "validate_frame f = Inr ()" "fr_session_id f = iv_session_id v"
    "fr_stream_id f = iv_stream_id v" "fr_sequence f = iv_next_sequence v" "fr_payload f = Some p"
    and step: "peer_step (iv_peer v) (abs_peer v) p = Some (s, t)" and n: "iv_next_sequence v < U64_MAX"
    and v': "v' = v\<lparr>iv_next_sequence := iv_next_sequence v + 1, iv_state := s, iv_transfer_id := t\<rparr>"
    by blast
  have tr: "transition (iv_peer v) (iv_state v) p = Some s"
    using peer_step_transition [OF step] by simp
  have "accept_transfer v p = (v\<lparr>iv_transfer_id := t\<rparr>, Inr ())"
    using accept_transfer_Inr [OF tr] step by blast
  moreover have "accept_checks v f = Inr (p, s)" using h tr by (simp add: accept_checks_Inr)
  ultimately show ?lhs using n by (simp add: accept_def checked_add_def v')
qed

text \<open>The receive loop: frames are accepted one after the other up to the first error.\<close>

primrec accept_all :: "InboundValidator \<Rightarrow> Frame list \<Rightarrow> (InboundValidator, ProtocolError) result" where
  "accept_all v [] = Ok v"
| "accept_all v (f # fs) =
     (case accept v f of (v', Inl e) \<Rightarrow> Err e | (v', Inr _) \<Rightarrow> accept_all v' fs)"

lemma accept_all_Cons:
  "accept_all v (f # fs) = Inr v' \<longleftrightarrow> (\<exists>v1. accept v f = (v1, Inr ()) \<and> accept_all v1 fs = Inr v')"
  by (auto split: prod.splits sum.splits)


lemma peer_step_split: "peer_run peer st (p # ps) = Some st' \<longleftrightarrow>
  (\<exists>s t. peer_step peer st p = Some (s, t) \<and> peer_run peer (s, t) ps = Some st')"
  by (cases "peer_step peer st p") auto

definition frames_in_order :: "string \<Rightarrow> nat \<Rightarrow> nat \<Rightarrow> Frame list \<Rightarrow> Payload list \<Rightarrow> bool" where
  "frames_in_order session_id stream_id n fs ps \<longleftrightarrow>
     map fr_payload fs = map Some ps \<and>
     map fr_sequence fs = [n ..< n + length fs] \<and>
     (\<forall>f\<in>set fs. validate_frame f = Ok () \<and> fr_session_id f = session_id \<and>
        fr_stream_id f = stream_id)"

lemma frames_in_order_Nil: "frames_in_order sid st n [] ps \<longleftrightarrow> ps = []"
  by (auto simp: frames_in_order_def)

lemma frames_in_order_Cons:
  "frames_in_order sid st n (f # fs) qs \<longleftrightarrow>
     (\<exists>p ps. qs = p # ps \<and> fr_payload f = Some p \<and> fr_sequence f = n \<and>
        validate_frame f = Inr () \<and> fr_session_id f = sid \<and> fr_stream_id f = st \<and>
        frames_in_order sid st (Suc n) fs ps)"
  by (cases qs) (auto simp: frames_in_order_def upt_conv_Cons simp del: upt_Suc)

abbreviation validator_at :: "InboundValidator \<Rightarrow> nat \<Rightarrow> PeerState \<times> nat option \<Rightarrow> InboundValidator" where
  "validator_at v n st \<equiv> v\<lparr>iv_next_sequence := n, iv_state := fst st, iv_transfer_id := snd st\<rparr>"

lemma accept_all_refines:
  assumes "iv_next_sequence v \<le> U64_MAX"
  shows "accept_all v fs = Inr v' \<longleftrightarrow>
     (\<exists>ps st. frames_in_order (iv_session_id v) (iv_stream_id v) (iv_next_sequence v) fs ps \<and>
        iv_next_sequence v + length fs \<le> U64_MAX \<and>
        peer_run (iv_peer v) (abs_peer v) ps = Some st \<and>
        v' = validator_at v (iv_next_sequence v + length fs) st)"
  using assms
proof (induction fs arbitrary: v)
  case Nil
  then show ?case by (cases v) (auto simp: frames_in_order_Nil)
next
  case (Cons f fs)
  let ?n = "iv_next_sequence v"
  let ?ok = "\<lambda>p st. validate_frame f = Inr () \<and> fr_session_id f = iv_session_id v \<and>
        fr_stream_id f = iv_stream_id v \<and> fr_sequence f = ?n \<and> fr_payload f = Some p \<and>
        peer_step (iv_peer v) (abs_peer v) p = Some st \<and> ?n < U64_MAX"
  have "accept_all v (f # fs) = Inr v' \<longleftrightarrow>
     (\<exists>p st. ?ok p st \<and> accept_all (validator_at v (Suc ?n) st) fs = Inr v')"
    by (simp only: accept_all_Cons accept_Inr) force
  also have "\<dots> \<longleftrightarrow> (\<exists>p st. ?ok p st \<and>
       (\<exists>ps st'. frames_in_order (iv_session_id v) (iv_stream_id v) (Suc ?n) fs ps \<and>
           ?n + length (f # fs) \<le> U64_MAX \<and> peer_run (iv_peer v) st ps = Some st' \<and>
           v' = validator_at v (?n + length (f # fs)) st'))"
    by (intro ex_cong1 conj_cong refl) (simp add: Cons.IH)
  also have "\<dots> \<longleftrightarrow> (\<exists>ps st. frames_in_order (iv_session_id v) (iv_stream_id v) ?n (f # fs) ps \<and>
        ?n + length (f # fs) \<le> U64_MAX \<and> peer_run (iv_peer v) (abs_peer v) ps = Some st \<and>
        v' = validator_at v (?n + length (f # fs)) st)"
    (is "?l \<longleftrightarrow> ?r")
  proof
    assume ?l
    then obtain p st ps st' where "?ok p st"
      "frames_in_order (iv_session_id v) (iv_stream_id v) (Suc ?n) fs ps"
      "?n + length (f # fs) \<le> U64_MAX" "peer_run (iv_peer v) st ps = Some st'"
      "v' = validator_at v (?n + length (f # fs)) st'" by blast
    then show ?r
      by (intro exI [of _ "p # ps"] exI [of _ st']) (simp add: frames_in_order_Cons)
  next
    assume ?r
    then obtain ps st where "frames_in_order (iv_session_id v) (iv_stream_id v) ?n (f # fs) ps"
      and h: "?n + length (f # fs) \<le> U64_MAX" "peer_run (iv_peer v) (abs_peer v) ps = Some st"
        "v' = validator_at v (?n + length (f # fs)) st" by blast
    then obtain p qs where ps: "ps = p # qs" and f: "fr_payload f = Some p" "fr_sequence f = ?n"
      "validate_frame f = Inr ()" "fr_session_id f = iv_session_id v" "fr_stream_id f = iv_stream_id v"
      and fs: "frames_in_order (iv_session_id v) (iv_stream_id v) (Suc ?n) fs qs"
      by (auto simp: frames_in_order_Cons)
    from h ps obtain st1 where "peer_step (iv_peer v) (abs_peer v) p = Some st1"
      "peer_run (iv_peer v) st1 qs = Some st" by (auto simp: bind_eq_Some_conv)
    moreover have "?n < U64_MAX" using h by simp
    ultimately show ?l using f fs h by blast
  qed
  finally show ?case .
qed

text \<open>
  C4: The validator of a direction accepts a list of frames exactly when the frames are
  valid, carry its session and stream and the sequence numbers 0, 1, 2, \<dots> without gap or replay,
  and their payloads run through the stream contract; it then holds the contract's state.
\<close>

theorem validator_refines_contract:
  "accept_all (validator_new session_id stream_id peer) fs = Ok v \<longleftrightarrow>
     (\<exists>ps st. frames_in_order session_id stream_id 0 fs ps \<and> length fs \<le> U64_MAX \<and>
        peer_run peer (Initial, None) ps = Some st \<and>
        v = validator_at (validator_new session_id stream_id peer) (length fs) st)"
  by (subst accept_all_refines) (simp_all add: validator_new_def)

text \<open>The sender: payloads are framed one after the other.\<close>

primrec send_all :: "FrameSequence \<Rightarrow> Payload list \<Rightarrow> (Frame list, ProtocolError) result" where
  "send_all s [] = Ok []"
| "send_all s (p # ps) =
     (case frame_sequence_next s p of
        (s', Inl e) \<Rightarrow> Err e
      | (s', Inr f) \<Rightarrow> and_then (send_all s' ps) (\<lambda>fs. Ok (f # fs)))"

lemma validate_frame_new:
  "validate_frame ((frame_new sid st p)\<lparr>fr_sequence := n\<rparr>) =
     (if sid = [] then Err MissingSessionId else validate_payload p)"
  by (simp add: validate_frame_def frame_new_def)

lemma send_all_total:
  assumes "fs_next_sequence s + length ps \<le> U64_MAX" and "fs_session_id s \<noteq> []"
    and "\<And>p. p \<in> set ps \<Longrightarrow> validate_payload p = Inr ()"
  shows "\<exists>fs. send_all s ps = Inr fs \<and> length fs = length ps \<and>
     frames_in_order (fs_session_id s) (fs_stream_id s) (fs_next_sequence s) fs ps"
  using assms
proof (induction ps arbitrary: s)
  case (Cons p ps)
  let ?s = "s\<lparr>fs_next_sequence := fs_next_sequence s + 1\<rparr>"
  obtain fs where "send_all ?s ps = Inr fs" "length fs = length ps"
    "frames_in_order (fs_session_id s) (fs_stream_id s) (Suc (fs_next_sequence s)) fs ps"
    using Cons.IH [of ?s] Cons.prems by auto
  with Cons.prems show ?case
    by (auto simp: frame_sequence_next_def checked_add_def frames_in_order_Cons validate_frame_new)
      (simp_all add: frame_new_def)
qed (simp add: frames_in_order_Nil)

text \<open>
  C37: Whatever valid payloads a sender frames, as long as they run through the stream
  contract of its role, the validator at the other end accepts every frame and ends in the
  contract's state.
\<close>

theorem sender_validator_agree:
  assumes "session_id \<noteq> []" and "length ps \<le> U64_MAX"
    and "\<forall>p\<in>set ps. validate_payload p = Ok ()"
    and "peer_run peer (Initial, None) ps = Some st"
  shows "\<exists>fs. send_all (frame_sequence_new session_id stream_id) ps = Ok fs \<and>
     accept_all (validator_new session_id stream_id peer) fs =
       Ok (validator_at (validator_new session_id stream_id peer) (length ps) st)"
proof -
  obtain fs where fs: "send_all (frame_sequence_new session_id stream_id) ps = Inr fs"
    "length fs = length ps" "frames_in_order session_id stream_id 0 fs ps"
    using send_all_total [of "frame_sequence_new session_id stream_id" ps] assms
    by (auto simp: frame_sequence_new_def)
  moreover have "accept_all (validator_new session_id stream_id peer) fs =
       Inr (validator_at (validator_new session_id stream_id peer) (length ps) st)"
    using fs assms
    by (subst accept_all_refines) (auto simp: validator_new_def)
  ultimately show ?thesis by blast
qed

definition copy_in_example :: "Payload list" where
  "copy_in_example =
     [CopyInStart \<lparr>cis_transfer_id = 7, cis_destination = ''/tmp/x'', cis_archive_size = 3,
        cis_sha256 = ''sha256:'' @ replicate 64 CHR ''a''\<rparr>,
      CopyInChunk 7 [1, 2, 3], CopyInEnd 7,
      Exec \<lparr>ex_argv = [''sh''], ex_cwd = ''/'', ex_env = [], ex_tty = False, ex_rows = 0, ex_cols = 0\<rparr>,
      Stdin [65], StdinEof]"

theorem sender_validator_agree_witness:
  "\<exists>fs. send_all (frame_sequence_new ''s'' 1) copy_in_example = Ok fs \<and>
     accept_all (validator_new ''s'' 1 Host) fs =
       Ok (validator_at (validator_new ''s'' 1 Host) (length copy_in_example) (InputClosed, None))"
proof (rule sender_validator_agree)
  show "''s'' \<noteq> []" by simp
  show "length copy_in_example \<le> U64_MAX" by code_simp
  show "\<forall>p\<in>set copy_in_example. validate_payload p = Ok ()" by code_simp
  show "peer_run Host (Initial, None) copy_in_example = Some (InputClosed, None)" by code_simp
qed

section \<open>Transfers are bracketed\<close>

definition starts_transfer :: "nat \<Rightarrow> Payload \<Rightarrow> bool" where
  "starts_transfer i p \<longleftrightarrow>
     (case p of CopyInStart c \<Rightarrow> cis_transfer_id c = i | CopyOutStart j \<Rightarrow> j = i | _ \<Rightarrow> False)"

definition inside_transfer :: "nat \<Rightarrow> Payload \<Rightarrow> bool" where
  "inside_transfer i p \<longleftrightarrow>
     (case p of
        CopyInStart _ \<Rightarrow> False | CopyOutStart _ \<Rightarrow> False | CopyInEnd _ \<Rightarrow> False | CopyOutEnd _ \<Rightarrow> False
      | Exec _ \<Rightarrow> False | Exit _ _ \<Rightarrow> False
      | CopyInChunk j _ \<Rightarrow> j = i | CopyOutChunk j _ \<Rightarrow> j = i | _ \<Rightarrow> True)"

lemma peer_run_append:
  "peer_run peer st (ps @ qs) = Option.bind (peer_run peer st ps) (\<lambda>st'. peer_run peer st' qs)"
  by (induction ps arbitrary: st) (auto split: bind_splits)

lemma peer_step_open:
  assumes "peer_step peer st p = Some (s, Some i)"
  shows "starts_transfer i p \<or> snd st = Some i \<and> inside_transfer i p"
  using assms
  by (cases p) (auto simp: peer_step_def starts_transfer_def inside_transfer_def
      split: option.splits if_splits)

lemma peer_run_open:
  assumes "peer_run peer (Initial, None) ps = Some (s, Some i)"
  shows "\<exists>a p b. ps = a @ p # b \<and> starts_transfer i p \<and> list_all (inside_transfer i) b"
  using assms
proof (induction ps arbitrary: s rule: rev_induct)
  case (snoc p ps)
  then obtain s1 t1 where run: "peer_run peer (Initial, None) ps = Some (s1, t1)"
    and step: "peer_step peer (s1, t1) p = Some (s, Some i)"
    by (auto simp: peer_run_append bind_eq_Some_conv)
  from peer_step_open [OF step] show ?case
  proof
    assume "starts_transfer i p"
    then show ?thesis by (intro exI [of _ ps] exI [of _ p] exI [of _ "[]"]) simp
  next
    assume "snd (s1, t1) = Some i \<and> inside_transfer i p"
    with run snoc.IH obtain a q b where "ps = a @ q # b" "starts_transfer i q"
      "list_all (inside_transfer i) b" "inside_transfer i p" by auto
    then show ?thesis by (intro exI [of _ a] exI [of _ q] exI [of _ "b @ [p]"]) simp
  qed
qed simp

definition transfer_is_open :: "nat \<Rightarrow> Frame list \<Rightarrow> bool" where
  "transfer_is_open i fs \<longleftrightarrow>
     (\<exists>a p b. map fr_payload fs = a @ Some p # map Some b \<and> starts_transfer i p \<and>
              list_all (inside_transfer i) b)"

lemma accept_all_open:
  assumes "accept_all (validator_new sid st peer) fs = Inr v" and "iv_transfer_id v = Some i"
  shows "transfer_is_open i fs"
proof -
  obtain ps s where "frames_in_order sid st 0 fs ps" "peer_run peer (Initial, None) ps = Some (s, Some i)"
    using assms by (subst (asm) accept_all_refines) (auto simp: validator_new_def)
  then show ?thesis
    using peer_run_open [of peer ps s i] by (fastforce simp: frames_in_order_def transfer_is_open_def)
qed

text \<open>
  Whenever a chunk or an end of a transfer is accepted after some history, that
  history has the start of the same transfer, and nothing since it but chunks of that transfer and
  payloads that do not touch transfers; and a command starts or exits only while no transfer is
  open.
\<close>

theorem transfers_bracketed:
  assumes "accept_all (validator_new session_id stream_id peer) history = Ok v"
    and "accept v f = (v', Ok ())" and "fr_payload f = Some p"
  shows "case p of
      CopyInChunk i _ \<Rightarrow> transfer_is_open i history
    | CopyOutChunk i _ \<Rightarrow> transfer_is_open i history
    | CopyInEnd i \<Rightarrow> transfer_is_open i history \<and> iv_transfer_id v' = None
    | CopyOutEnd e \<Rightarrow> transfer_is_open (coe_transfer_id e) history \<and> iv_transfer_id v' = None
    | Exec _ \<Rightarrow> iv_transfer_id v = None
    | Exit _ _ \<Rightarrow> iv_transfer_id v = None
    | _ \<Rightarrow> True"
proof -
  obtain s t where step: "peer_step (iv_peer v) (abs_peer v) p = Some (s, t)"
    and v': "iv_transfer_id v' = t" using assms(2,3) by (auto simp: accept_Inr)
  have open_i: "transfer_is_open i history" if "iv_transfer_id v = Some i" for i
    using accept_all_open assms(1) that by blast
  show ?thesis
    using step open_i v'
    by (cases p) (simp_all add: peer_step_def split: option.splits if_splits)
qed

text \<open>One chunk inside the transfer of \<^const>\<open>copy_in_example\<close>, at the third frame.\<close>

theorem transfers_bracketed_witness:
  "transfer_is_open 7 [(frame_new ''s'' 1 (copy_in_example ! 0))] "
proof -
  let ?f = "(frame_new ''s'' 1 (CopyInChunk 7 [1, 2, 3]))\<lparr>fr_sequence := 1\<rparr>"
  let ?v = "validator_at (validator_new ''s'' 1 Host) 1 (Initial, Some 7)"
  have "accept_all (validator_new ''s'' 1 Host) [frame_new ''s'' 1 (copy_in_example ! 0)] = Ok ?v"
    by code_simp
  moreover have "accept ?v ?f = (validator_at ?v 2 (Initial, Some 7), Ok ())" by code_simp
  moreover have "fr_payload ?f = Some (CopyInChunk 7 [1, 2, 3])" by code_simp
  ultimately show ?thesis using transfers_bracketed by fastforce
qed

section \<open>Invariant and errors of the validator\<close>

definition validator_inv :: "InboundValidator \<Rightarrow> bool" where
  "validator_inv v \<longleftrightarrow>
     iv_next_sequence v \<le> U64_MAX \<and>
     (case iv_peer v of
        Host \<Rightarrow> iv_state v \<noteq> Initial \<longrightarrow> iv_transfer_id v = None
      | Guest \<Rightarrow> iv_state v \<noteq> InputClosed \<and> (iv_state v = Initial \<longrightarrow> iv_transfer_id v = None))"

lemma accept_transfer_Inl: "accept_transfer v p = (v', Inl e) \<Longrightarrow> v' = v"
  by (auto simp: transfer_defs split: Payload.splits option.splits if_splits)

lemma accept_error_keeps:
  assumes "accept v f = (v', Inl e)"
  shows "v' = v \<or> e = SequenceExhausted \<and> U64_MAX \<le> iv_next_sequence v \<and>
     (\<exists>p s t. fr_payload f = Some p \<and> peer_step (iv_peer v) (abs_peer v) p = Some (s, t) \<and>
        v' = v\<lparr>iv_transfer_id := t\<rparr>)"
proof (cases "accept_checks v f")
  case (Inl e')
  with assms show ?thesis by (simp add: accept_def)
next
  case (Inr ps)
  then obtain p s where ps: "accept_checks v f = Inr (p, s)" by (cases ps) auto
  then have tr: "transition (iv_peer v) (iv_state v) p = Some s" and p: "fr_payload f = Some p"
    by (auto simp: accept_checks_Inr)
  obtain v1 r where r: "accept_transfer v p = (v1, r)" by (cases "accept_transfer v p")
  show ?thesis
  proof (cases r)
    case (Inl e')
    with r ps assms show ?thesis by (simp add: accept_def accept_transfer_Inl)
  next
    case (Inr u)
    with r accept_transfer_Inr [OF tr] obtain t where
      "peer_step (iv_peer v) (abs_peer v) p = Some (s, t)" "v1 = v\<lparr>iv_transfer_id := t\<rparr>" by auto
    with r Inr ps assms p show ?thesis
      by (auto simp: accept_def checked_add_def split: if_splits)
  qed
qed

lemma peer_step_inv:
  assumes "peer_step (iv_peer v) (abs_peer v) p = Some (s, t)" and "validator_inv v"
    and "n \<le> U64_MAX"
  shows "validator_inv (v\<lparr>iv_next_sequence := n, iv_state := s, iv_transfer_id := t\<rparr>)"
  using assms
  by (cases "iv_peer v"; cases "iv_state v"; cases p)
    (simp_all add: validator_inv_def peer_step_def transition_def split: if_splits)

lemma peer_step_inv_transfer:
  assumes "peer_step (iv_peer v) (abs_peer v) p = Some (s, t)" and "validator_inv v"
  shows "validator_inv (v\<lparr>iv_transfer_id := t\<rparr>)"
  using assms
  by (cases "iv_peer v"; cases "iv_state v"; cases p)
    (simp_all add: validator_inv_def peer_step_def transition_def split: if_splits)

lemma accept_inv:
  assumes "validator_inv v"
  shows "validator_inv (fst (accept v f))"
proof -
  obtain v' r where r: "accept v f = (v', r)" by (cases "accept v f")
  show ?thesis
  proof (cases r)
    case (Inl e)
    with r accept_error_keeps [of v f v' e] assms show ?thesis
      by (auto intro: peer_step_inv_transfer)
  next
    case (Inr u)
    with r have "accept v f = (v', Inr ())" by simp
    with assms have "validator_inv v'" by (auto simp: accept_Inr intro!: peer_step_inv)
    with r show ?thesis by simp
  qed
qed

interpretation validator: invariant_machine "\<lambda>v f. fst (accept v f)" validator_inv
  by unfold_locales (rule accept_inv)

text \<open>
  However many frames a validator sees, well-formed or hostile, its counter stays a
  64-bit number; a host has no open transfer once its command started, a guest has none before its
  hello and never reaches the host-only state; and a rejected frame leaves the validator exactly
  as it was unless the sequence numbers are exhausted.
\<close>

theorem validator_robust:
  "validator_inv (foldl (\<lambda>v f. fst (accept v f)) (validator_new session_id stream_id peer) fs) \<and>
   (snd (accept v f) = Err e \<and> e \<noteq> SequenceExhausted \<longrightarrow> fst (accept v f) = v)"
proof
  show "validator_inv (foldl (\<lambda>v f. fst (accept v f)) (validator_new session_id stream_id peer) fs)"
    by (rule validator.run_inv) (simp add: validator_inv_def validator_new_def split: PeerRole.split)
  show "snd (accept v f) = Err e \<and> e \<noteq> SequenceExhausted \<longrightarrow> fst (accept v f) = v"
    using accept_error_keeps [of v f "fst (accept v f)" e] by (metis prod.collapse)
qed

theorem validator_robust_witness:
  "fst (accept (validator_new ''s'' 1 Guest) (frame_new ''s'' 1 StdinEof)) = validator_new ''s'' 1 Guest"
proof -
  have "snd (accept (validator_new ''s'' 1 Guest) (frame_new ''s'' 1 StdinEof)) =
      Err (UnexpectedPayload Guest Initial ''stdin_eof'')" by code_simp
  then show ?thesis
    using validator_robust [of "''s''" 1 Guest "[]" "validator_new ''s'' 1 Guest" "frame_new ''s'' 1 StdinEof"]
    by blast
qed

section \<open>Decoding and guest paths\<close>

text \<open>
  \<^const>\<open>decode_frame\<close> accepts a buffer exactly when it is a four-byte big-endian length,
  at most the frame bound, followed by exactly that many bytes that the codec decodes to a valid
  frame; every other buffer is an error value.
\<close>

theorem decode_frame_exact:
  "decode_frame decode bs = Ok f \<longleftrightarrow>
     (\<exists>body. bs = u32_to_be_bytes (length body) @ body \<and> length body \<le> MAX_FRAME_SIZE \<and>
        decode body = Some f \<and> validate_frame f = Ok ())"
  (is "?l \<longleftrightarrow> ?r")
proof
  assume ?l
  then have h: "4 \<le> length bs" "u32_from_be_bytes (take 4 bs) = length bs - 4"
    "length bs - 4 \<le> MAX_FRAME_SIZE" "decode (drop 4 bs) = Some f" "validate_frame f = Inr ()"
    by (simp_all add: decode_frame_Inr)
  have "u32_to_be_bytes (u32_from_be_bytes (take 4 bs)) = take 4 bs"
    by (rule be_bytes_roundtrip2) (use h in simp)
  then have "bs = u32_to_be_bytes (length (drop 4 bs)) @ drop 4 bs"
    using h by (metis append_take_drop_id length_drop)
  with h show ?r by (intro exI [of _ "drop 4 bs"]) simp
next
  assume ?r
  then obtain body where body: "bs = u32_to_be_bytes (length body) @ body"
    "length body \<le> MAX_FRAME_SIZE" "decode body = Some f" "validate_frame f = Inr ()" by blast
  then have "length body < 2 ^ 32" by (simp add: MAX_FRAME_SIZE_def)
  with body show ?l by (simp add: decode_frame_Inr be_bytes_roundtrip)
qed

text \<open>
  The guest agent's path check and the run specification's path check, written twice
  in the code base, accept the same paths, so no copy that was validated at the front end is
  refused on the wire.
\<close>

theorem guest_path_checks_agree:
  "is_ok (validate_guest_path path) \<longleftrightarrow> valid_guest_transfer_path path"
proof -
  have "2 \<le> length path" if slash: "starts_with ''/'' path" and "path \<noteq> ''/''"
  proof -
    obtain t where "path = CHR ''/'' # t" using slash by (auto simp: starts_with_iff)
    with that show ?thesis by (cases t) auto
  qed
  moreover have "is_ok (validate_guest_path path) \<longleftrightarrow>
      length path \<le> 4096 \<and> starts_with ''/'' path \<and> CHR 0x00 \<notin> set path \<and> path \<noteq> ''/'' \<and>
      \<not> list_ex (\<lambda>c. c = [] \<or> c = ''.'' \<or> c = ''..'') (drop 1 (split_on CHR ''/'' path))"
    unfolding validate_guest_path_def not_less [symmetric] by (simp only: is_ok_simps split: if_split) blast
  moreover have "\<not> list_ex (\<lambda>c. c = [] \<or> c = ''.'' \<or> c = ''..'') cs \<longleftrightarrow>
      list_all (\<lambda>c. c \<noteq> [] \<and> c \<noteq> ''.'' \<and> c \<noteq> ''..'') cs" for cs :: "string list"
    by (induction cs) auto
  ultimately show ?thesis
    unfolding valid_guest_transfer_path_def by blast
qed

end
