(* ===== verification/Policy_Config.thy ===== *)
theory Policy_Config
  imports Run_Spec
begin

text \<open>
  The configuration of the egress policy, the first part of
  \<^verbatim>\<open>moraebox-runtime/src/libkrun/policy.rs\<close>: decisions, limits, CIDR and domain rules and the
  configuration builders, and \<^verbatim>\<open>policy_config_for_spec\<close> of \<^verbatim>\<open>libkrun/network.rs\<close>, which builds the
  configuration of a run. A \<^verbatim>\<open>BTreeSet\<close> is a finite set.
\<close>

unbundle bit_operations_syntax

section \<open>Constants and decisions\<close>

definition ETHERNET_HEADER_LEN :: nat where "ETHERNET_HEADER_LEN = 14"
definition ETHERTYPE_ARP :: u16 where "ETHERTYPE_ARP = 0x0806"
definition ETHERTYPE_IPV4 :: u16 where "ETHERTYPE_IPV4 = 0x0800"
definition ETHERTYPE_IPV6 :: u16 where "ETHERTYPE_IPV6 = 0x86dd"
definition IPPROTO_TCP :: u8 where "IPPROTO_TCP = 6"
definition IPPROTO_UDP :: u8 where "IPPROTO_UDP = 17"
definition DNS_PORT :: u16 where "DNS_PORT = 53"
definition DHCP_SERVER_PORT :: u16 where "DHCP_SERVER_PORT = 67"
definition DHCP_CLIENT_PORT :: u16 where "DHCP_CLIENT_PORT = 68"
definition HTTPS_PORT :: u16 where "HTTPS_PORT = 443"
definition MAX_CIDRS :: nat where "MAX_CIDRS = 128"
definition MAX_DOMAINS :: nat where "MAX_DOMAINS = 128"
definition MAX_PUBLISHED_PORTS :: nat where "MAX_PUBLISHED_PORTS = 32"
definition MAX_INFRASTRUCTURE_ADDRESSES :: nat where "MAX_INFRASTRUCTURE_ADDRESSES = 16"
definition MAX_CONTROL_ADDRESSES :: nat where "MAX_CONTROL_ADDRESSES = 16"
definition MAX_FLOWS_HARD :: nat where "MAX_FLOWS_HARD = 16384"
definition MAX_DNS_STATE_HARD :: nat where "MAX_DNS_STATE_HARD = 16384"
definition MAX_TLS_BUFFER_HARD :: nat where "MAX_TLS_BUFFER_HARD = 64 * 1024"
definition MAX_TOTAL_TLS_BYTES_HARD :: nat where "MAX_TOTAL_TLS_BYTES_HARD = 16 * 1024 * 1024"
definition MAX_DNS_MESSAGE :: nat where "MAX_DNS_MESSAGE = 4096"
definition MAX_DNS_NAME_POINTERS :: nat where "MAX_DNS_NAME_POINTERS = 32"
definition MAX_DNS_RECORDS :: nat where "MAX_DNS_RECORDS = 256"
definition MAX_TLS_RECORD :: nat where "MAX_TLS_RECORD = 18 * 1024"
definition MAX_DOMAIN_LEN :: nat where "MAX_DOMAIN_LEN = 253"
definition ZERO_TTL_DNS_BINDING_GRACE_SECS :: nat where "ZERO_TTL_DNS_BINDING_GRACE_SECS = 5"

lemmas port_defs = DNS_PORT_def DHCP_SERVER_PORT_def DHCP_CLIENT_PORT_def HTTPS_PORT_def

datatype PolicyMode = PolicyDisabled | PolicyUnrestricted | PolicyAllowlist

datatype FrameDirection = GuestToNetwork | NetworkToGuest

datatype AllowReason =
  ArpInfrastructure | DhcpInfrastructure | DnsInfrastructure | AllowUnrestricted | AllowCidr
| DomainHandshake | DomainSni | Preview | ReverseFlow

datatype DenyReason =
  DenyDisabled | Malformed | UnsupportedEtherType | Fragment | UnsupportedProtocol
| Infrastructure | ControlEndpoint | NotAllowlisted | DomainRequiresTcpTls | TlsInvalid
| TlsNoSni | TlsEch | TlsSniMismatch | OutOfOrder | StateLimit | NoReverseFlow

datatype HoldReason = TlsClientHello

datatype PolicyDecision = Allow AllowReason | Hold HoldReason | Deny DenyReason

definition is_allowed :: "PolicyDecision \<Rightarrow> bool" where
  "is_allowed d = (case d of Allow _ \<Rightarrow> True | _ \<Rightarrow> False)"

definition is_held :: "PolicyDecision \<Rightarrow> bool" where
  "is_held d = (case d of Hold _ \<Rightarrow> True | _ \<Rightarrow> False)"

section \<open>Limits\<close>

record PolicyLimits =
  max_flows :: nat
  max_pending_dns :: nat
  max_dns_bindings :: nat
  max_tls_buffer_per_flow :: nat
  max_total_tls_bytes :: nat
  flow_ttl :: duration
  pending_tls_ttl :: duration
  dns_query_ttl :: duration
  max_dns_ttl :: duration

type_synonym PolicyConfigError = string

definition limits_default :: PolicyLimits where
  "limits_default =
     \<lparr>max_flows = 1024, max_pending_dns = 256, max_dns_bindings = 1024,
      max_tls_buffer_per_flow = 16 * 1024, max_total_tls_bytes = 1024 * 1024,
      flow_ttl = from_secs (5 * 60), pending_tls_ttl = from_secs 30,
      dns_query_ttl = from_secs 10, max_dns_ttl = from_secs (60 * 60)\<rparr>"

definition limits_validate :: "PolicyLimits \<Rightarrow> (unit, PolicyConfigError) result" where
  "limits_validate l =
     (if max_flows l = 0 \<or> max_flows l > MAX_FLOWS_HARD then
        Err ''max_flows is outside the safe bound''
      else if max_pending_dns l = 0 \<or> max_pending_dns l > MAX_DNS_STATE_HARD \<or>
              max_dns_bindings l = 0 \<or> max_dns_bindings l > MAX_DNS_STATE_HARD then
        Err ''DNS state limit is outside the safe bound''
      else if max_tls_buffer_per_flow l < 512 \<or> max_tls_buffer_per_flow l > MAX_TLS_BUFFER_HARD \<or>
              max_total_tls_bytes l < max_tls_buffer_per_flow l \<or>
              max_total_tls_bytes l > MAX_TOTAL_TLS_BYTES_HARD then
        Err ''TLS state limit is outside the safe bound''
      else if flow_ttl l = 0 \<or> pending_tls_ttl l = 0 \<or> dns_query_ttl l = 0 \<or> max_dns_ttl l = 0 then
        Err ''policy state TTLs must be non-zero''
      else Ok ())"

section \<open>CIDR rules\<close>

record Cidr =
  ci_address :: IpAddr
  ci_prefix :: nat

definition cidr_contains :: "Cidr \<Rightarrow> IpAddr \<Rightarrow> bool" where
  "cidr_contains c candidate =
     (case (ci_address c, candidate) of
        (V4 network, V4 cand) \<Rightarrow>
          (let mask = (if ci_prefix c = 0 then 0 else push_bit (32 - ci_prefix c) (- 1)) in
           network AND mask = cand AND mask)
      | (V6 network, V6 cand) \<Rightarrow>
          (let mask = (if ci_prefix c = 0 then 0 else push_bit (128 - ci_prefix c) (- 1)) in
           network AND mask = cand AND mask)
      | _ \<Rightarrow> False)"

definition cidr_from_str :: "string \<Rightarrow> (Cidr, PolicyConfigError) result" where
  "cidr_from_str s =
     (case split_once CHR ''/'' s of
        None \<Rightarrow> Err ''CIDR is missing a prefix''
      | Some (address, prefix) \<Rightarrow>
          if address = [] \<or> prefix = [] \<or> CHR ''/'' \<in> set prefix then Err ''CIDR has invalid syntax''
          else
            and_then (ok_or (parse_ip_addr address) ''CIDR has an invalid address'') (\<lambda>a.
            and_then (ok_or (parse_u8 prefix) ''CIDR has an invalid prefix'') (\<lambda>p.
            if p > (if is_ipv4 a then 32 else 128) then Err ''CIDR prefix exceeds address width''
            else Ok \<lparr>ci_address = a, ci_prefix = p\<rparr>)))"

section \<open>Domain rules\<close>

definition normalize_domain :: "string \<Rightarrow> string option" where
  "normalize_domain s =
     (if s = [] \<or> length s > MAX_DOMAIN_LEN \<or> ends_with ''.'' s then None
      else if \<not> list_all valid_label (split_on CHR ''.'' s) then None
      else Some (to_ascii_lowercase s))"

record DomainPattern =
  dp_suffix :: string
  dp_wildcard :: bool

definition trim_end_dots :: "string \<Rightarrow> string" where
  "trim_end_dots s = rev (dropWhile (\<lambda>c. c = CHR ''.'') (rev s))"

definition domain_matches :: "DomainPattern \<Rightarrow> string \<Rightarrow> bool" where
  "domain_matches p raw =
     (case normalize_domain (trim_end_dots raw) of
        None \<Rightarrow> False
      | Some name \<Rightarrow>
          (let n = length name; k = length (dp_suffix p) in
           if name \<noteq> dp_suffix p \<and>
              \<not> (dp_wildcard p \<and> n > k \<and> name ! (n - k - 1) = CHR ''.'' \<and> drop (n - k) name = dp_suffix p)
           then False
           else \<not> dp_wildcard p \<or> n > k))"

definition domain_pattern_from_str :: "string \<Rightarrow> (DomainPattern, PolicyConfigError) result" where
  "domain_pattern_from_str s =
     (let wildcard = starts_with ''*.'' s in
      if starts_with ''*'' s \<and> \<not> wildcard then Err ''wildcard must be the complete first label''
      else
        let v = (case strip_prefix ''*.'' s of Some t \<Rightarrow> t | None \<Rightarrow> s) in
        and_then (ok_or (normalize_domain v) ''invalid domain pattern'') (\<lambda>suffix.
          Ok \<lparr>dp_suffix = suffix, dp_wildcard = wildcard\<rparr>))"

section \<open>The configuration\<close>

record PolicyConfig =
  pc_mode :: PolicyMode
  pc_cidrs :: "Cidr list"
  pc_domains :: "DomainPattern list"
  pc_dns_servers :: "IpAddr set"
  pc_arp_targets :: "ipv4 set"
  pc_guest_ipv4_addresses :: "ipv4 set"
  pc_control_addresses :: "IpAddr set"
  pc_published_tcp_ports :: "u16 set"
  pc_limits :: PolicyLimits

definition policy_config_new ::
  "PolicyMode \<Rightarrow> Cidr list \<Rightarrow> DomainPattern list \<Rightarrow> IpAddr list \<Rightarrow> ipv4 list \<Rightarrow> IpAddr list
     \<Rightarrow> PolicyLimits \<Rightarrow> (PolicyConfig, PolicyConfigError) result" where
  "policy_config_new mode cidrs domains dns_servers arp_targets control_addresses limits =
     and_then (limits_validate limits) (\<lambda>_.
       if length cidrs > MAX_CIDRS \<or> length domains > MAX_DOMAINS then
         Err ''allowlist exceeds the rule bound''
       else if card (set dns_servers) > MAX_INFRASTRUCTURE_ADDRESSES \<or>
               card (set arp_targets) > MAX_INFRASTRUCTURE_ADDRESSES \<or>
               card (set control_addresses) > MAX_CONTROL_ADDRESSES then
         Err ''infrastructure address list exceeds its bound''
       else if mode \<noteq> PolicyAllowlist \<and> (cidrs \<noteq> [] \<or> domains \<noteq> []) then
         Err ''CIDR and domain rules require allowlist mode''
       else
         Ok \<lparr>pc_mode = mode, pc_cidrs = cidrs, pc_domains = domains,
             pc_dns_servers = set dns_servers, pc_arp_targets = set arp_targets,
             pc_guest_ipv4_addresses = {}, pc_control_addresses = set control_addresses,
             pc_published_tcp_ports = {}, pc_limits = limits\<rparr>)"

definition with_published_tcp_ports ::
  "PolicyConfig \<Rightarrow> u16 list \<Rightarrow> (PolicyConfig, PolicyConfigError) result" where
  "with_published_tcp_ports c ports =
     (if card (set ports) > MAX_PUBLISHED_PORTS \<or> 0 \<in> set ports then
        Err ''published TCP ports exceed the safe bound or contain zero''
      else Ok (c\<lparr>pc_published_tcp_ports := set ports\<rparr>))"

definition with_guest_ipv4_addresses ::
  "PolicyConfig \<Rightarrow> ipv4 list \<Rightarrow> (PolicyConfig, PolicyConfigError) result" where
  "with_guest_ipv4_addresses c addresses =
     (if card (set addresses) > MAX_INFRASTRUCTURE_ADDRESSES \<or> 0 \<in> set addresses \<or>
         0xFFFFFFFF \<in> set addresses then
        Err ''guest IPv4 address list exceeds its bound or contains an invalid address''
      else Ok (c\<lparr>pc_guest_ipv4_addresses := set addresses\<rparr>))"

definition GVPROXY_GATEWAY :: ipv4 where "GVPROXY_GATEWAY = ipv4_new 192 168 127 1"
definition GVPROXY_GUEST :: ipv4 where "GVPROXY_GUEST = ipv4_new 192 168 127 2"

definition cidr_error :: "string \<Rightarrow> string \<Rightarrow> string" where
  "cidr_error cidr e = ''invalid network CIDR '' @ cidr @ '': '' @ e"

definition domain_error :: "string \<Rightarrow> string \<Rightarrow> string" where
  "domain_error domain e = ''invalid network domain pattern '' @ domain @ '': '' @ e"

text \<open>
  \<^verbatim>\<open>policy_config_for_spec\<close>: the configuration of an allowlisted run, \<^const>\<open>None\<close> for the other
  modes. An error is the message of the \<^verbatim>\<open>BackendError::Control\<close> the code returns.
\<close>

definition policy_config_for_spec :: "RunSpec \<Rightarrow> (PolicyConfig option, string) result" where
  "policy_config_for_spec spec =
     (case effective_network_mode spec of
        Disabled \<Rightarrow> Ok None
      | Unrestricted \<Rightarrow> Ok None
      | Allowlist \<Rightarrow>
          and_then (ok_or (rs_network_policy spec) ''allowlist mode requires a typed network policy'') (\<lambda>policy.
          and_then (collect_results (\<lambda>cidr. map_err (cidr_error cidr) (cidr_from_str cidr)) (np_allow_cidrs policy)) (\<lambda>cidrs.
          and_then (collect_results (\<lambda>domain. map_err (domain_error domain) (domain_pattern_from_str domain)) (np_allow_domains policy)) (\<lambda>domains.
          and_then (map_err (\<lambda>e. ''invalid network policy: '' @ e)
            (and_then (policy_config_new PolicyAllowlist cidrs domains [V4 GVPROXY_GATEWAY]
                         [GVPROXY_GATEWAY] [V4 GVPROXY_GATEWAY] limits_default) (\<lambda>config.
             and_then (with_guest_ipv4_addresses config [GVPROXY_GUEST]) (\<lambda>config.
             with_published_tcp_ports config (map pr_guest_port (rs_publish spec)))))
            ) (\<lambda>config. Ok (Some config))))))"

section \<open>CIDR and domain rules mean what they say\<close>

lemma mask_eq_iff:
  fixes a b :: "'a :: len word"
  shows "a AND push_bit n (- 1) = b AND push_bit n (- 1) \<longleftrightarrow> drop_bit n a = drop_bit n b"
proof -
  have "a AND push_bit n (- 1) = push_bit n (drop_bit n a)" for a :: "'a word"
    by (rule bit_word_eqI) (auto simp: bit_simps)
  moreover have "drop_bit n (push_bit n (drop_bit n a)) = drop_bit n a" for a :: "'a word"
    by (rule bit_word_eqI) (auto simp: bit_simps dest: bit_imp_le_length)
  ultimately show ?thesis by metis
qed

lemma drop_bit_all: "drop_bit (LENGTH('a)) (a :: 'a :: len word) = 0"
  by (rule bit_word_eqI) (auto simp: bit_simps dest: bit_imp_le_length)

text \<open>
  A parsed CIDR rule contains exactly the addresses of its family whose leading
  prefix-length bits are those of the network address.
\<close>

theorem cidr_contains_leading_bits:
  assumes "cidr_from_str s = Ok c"
  shows "cidr_contains c a \<longleftrightarrow>
    (case (ci_address c, a) of
       (V4 net, V4 x) \<Rightarrow> ci_prefix c \<le> 32 \<and> drop_bit (32 - ci_prefix c) x = drop_bit (32 - ci_prefix c) net
     | (V6 net, V6 x) \<Rightarrow> ci_prefix c \<le> 128 \<and> drop_bit (128 - ci_prefix c) x = drop_bit (128 - ci_prefix c) net
     | _ \<Rightarrow> False)"
proof -
  have "ci_prefix c \<le> (if is_ipv4 (ci_address c) then 32 else 128)"
    using assms by (auto simp: cidr_from_str_def and_then_Inr_iff result_simps split: option.splits if_splits)
  then show ?thesis
    using drop_bit_all [where ?'a = 32] drop_bit_all [where ?'a = 128]
    by (auto simp: cidr_contains_def Let_def mask_eq_iff is_ipv4_def
        simp del: push_bit_minus_one_eq_not_mask split: IpAddr.splits)
qed

theorem cidr_contains_leading_bits_witness:
  "cidr_contains \<lparr>ci_address = V4 (ipv4_new 10 0 0 0), ci_prefix = 8\<rparr> (V4 (ipv4_new 10 7 7 7)) \<and>
   \<not> cidr_contains \<lparr>ci_address = V4 (ipv4_new 10 0 0 0), ci_prefix = 8\<rparr> (V4 (ipv4_new 11 0 0 1))"
proof -
  have "cidr_from_str ''10.0.0.0/8'' = Ok \<lparr>ci_address = V4 (ipv4_new 10 0 0 0), ci_prefix = 8\<rparr>"
    by code_simp
  note c = cidr_contains_leading_bits [OF this]
  have "drop_bit 24 (ipv4_new 10 7 7 7) = drop_bit 24 (ipv4_new 10 0 0 0)"
    "drop_bit 24 (ipv4_new 11 0 0 1) \<noteq> drop_bit 24 (ipv4_new 10 0 0 0)" by code_simp+
  then show ?thesis unfolding c by simp
qed


lemma normalize_domain_Some:
  "normalize_domain s = Some n \<longleftrightarrow>
     s \<noteq> [] \<and> length s \<le> MAX_DOMAIN_LEN \<and> list_all valid_label (split_on CHR ''.'' s) \<and>
     n = to_ascii_lowercase s"
proof -
  have "\<not> ends_with ''.'' s" if "list_all valid_label (split_on CHR ''.'' s)"
  proof
    assume "ends_with ''.'' s"
    then obtain t where "s = t @ ''.''" by (auto simp: ends_with_iff)
    then have "[] \<in> set (split_on CHR ''.'' s)" using split_on_app [of "CHR ''.''" t "[]"] by simp
    with that show False by (auto simp: list_all_iff valid_label_def)
  qed
  then show ?thesis by (auto simp: normalize_domain_def not_less)
qed

lemma lower_dot: "lower_char c = CHR ''.'' \<longleftrightarrow> c = CHR ''.''"
  by (rule lower_char_eq_iff) code_simp+

lemma lower_dash: "lower_char c = CHR ''-'' \<longleftrightarrow> c = CHR ''-''"
  by (rule lower_char_eq_iff) code_simp+

lemma starts_with_char: "starts_with [c] l \<longleftrightarrow> l \<noteq> [] \<and> hd l = c"
  by (cases l) (auto simp: starts_with_iff)

lemma ends_with_char: "ends_with [c] l \<longleftrightarrow> l \<noteq> [] \<and> last l = c"
  by (cases l rule: rev_cases) (auto simp: ends_with_iff)

lemma valid_label_lower: "valid_label (to_ascii_lowercase l) \<longleftrightarrow> valid_label l"
  unfolding valid_label_def starts_with_char ends_with_char
  by (cases "l = []") (simp_all add: list_all_iff hd_map last_map lower_dash)

lemma normalize_domain_idem:
  assumes "normalize_domain s = Some n"
  shows "normalize_domain n = Some n" and "trim_end_dots n = n"
proof -
  have n: "n = to_ascii_lowercase s" and s: "s \<noteq> []" "length s \<le> MAX_DOMAIN_LEN"
    and labels: "list_all valid_label (split_on CHR ''.'' s)"
    using assms by (auto simp: normalize_domain_Some)
  have "split_on CHR ''.'' n = map to_ascii_lowercase (split_on CHR ''.'' s)"
    unfolding n by (rule map_split_on) (rule lower_dot)
  then have l: "list_all valid_label (split_on CHR ''.'' n)"
    using labels by (simp add: list_all_iff valid_label_lower)
  then show "normalize_domain n = Some n"
    using s by (simp add: normalize_domain_Some n)
  then have "\<not> ends_with ''.'' n" by (auto simp: normalize_domain_def split: if_splits)
  then show "trim_end_dots n = n"
    using s by (cases n rule: rev_cases) (auto simp: trim_end_dots_def ends_with_iff)
qed

text \<open>
  A domain rule matches by whole labels, ignoring case and trailing dots: an exact
  rule matches its name only, a wildcard rule every name with at least one more label in front of
  its suffix, and never the suffix itself.
\<close>

theorem domain_matches_labels:
  assumes "domain_pattern_from_str s = Ok p"
  shows "domain_matches p raw \<longleftrightarrow>
    (\<exists>name. normalize_domain (trim_end_dots raw) = Some name \<and>
       (if dp_wildcard p
        then \<exists>pre. pre \<noteq> [] \<and> split_on CHR ''.'' name = pre @ split_on CHR ''.'' (dp_suffix p)
        else split_on CHR ''.'' name = split_on CHR ''.'' (dp_suffix p)))"
proof (cases "normalize_domain (trim_end_dots raw)")
  case None
  then show ?thesis by (simp add: domain_matches_def)
next
  case (Some name)
  let ?k = "length (dp_suffix p)"
  have same: "split_on CHR ''.'' name = split_on CHR ''.'' (dp_suffix p) \<longleftrightarrow> name = dp_suffix p"
    by (metis join_split_on)
  have "length name > ?k \<and> name ! (length name - ?k - 1) = CHR ''.'' \<and> drop (length name - ?k) name = dp_suffix p
    \<longleftrightarrow> (\<exists>t. name = t @ CHR ''.'' # dp_suffix p)" (is "?a \<longleftrightarrow> ?b")
  proof
    assume a: ?a
    then have "?k < length name" by blast
    then have "Suc (length name - ?k - 1) = length name - ?k" "length name - ?k - 1 < length name" by simp_all
    then have "name = take (length name - ?k - 1) name @ name ! (length name - ?k - 1) # drop (length name - ?k) name"
      using id_take_nth_drop [of "length name - ?k - 1" name] by simp
    with a show ?b by metis
  next
    assume ?b
    then show ?a by (auto simp: nth_append)
  qed
  then have "domain_matches p raw \<longleftrightarrow>
      (if dp_wildcard p then \<exists>t. name = t @ CHR ''.'' # dp_suffix p else name = dp_suffix p)"
    using Some by (auto simp: domain_matches_def Let_def)
  with Some show ?thesis by (simp add: same split_on_suffix)
qed

theorem domain_matches_labels_witness:
  "domain_matches \<lparr>dp_suffix = ''example.com'', dp_wildcard = True\<rparr> ''API.Example.com.'' \<and>
   \<not> domain_matches \<lparr>dp_suffix = ''example.com'', dp_wildcard = True\<rparr> ''notexample.com''"
proof -
  have "domain_pattern_from_str ''*.Example.COM'' = Ok \<lparr>dp_suffix = ''example.com'', dp_wildcard = True\<rparr>"
    by code_simp
  note m = domain_matches_labels [OF this]
  have "normalize_domain (trim_end_dots ''API.Example.com.'') = Some ''api.example.com''"
    "normalize_domain (trim_end_dots ''notexample.com'') = Some ''notexample.com''" by code_simp+
  then show ?thesis unfolding m by simp
qed

section \<open>A validated specification configures a policy\<close>

lemma valid_cidr_iff: "valid_cidr s \<longleftrightarrow> is_ok (cidr_from_str s)"
  by (auto simp: valid_cidr_def cidr_from_str_def ok_or_def not_le split: option.splits prod.splits)

lemma valid_domain_pattern_iff: "valid_domain_pattern s \<longleftrightarrow> is_ok (domain_pattern_from_str s)"
  by (auto simp: valid_domain_pattern_def domain_pattern_from_str_def Let_def normalize_domain_def
      MAX_DOMAIN_LEN_def ok_or_def starts_with_def split: option.splits)

lemma limits_default_ok: "limits_validate limits_default = Ok ()"
  by code_simp

lemma collect_map_err_total:
  assumes "\<forall>x\<in>set xs. is_ok (f x)"
  shows "\<exists>ys. collect_results (\<lambda>x. map_err (g x) (f x)) xs = Inr ys \<and> list_all2 (\<lambda>x y. f x = Inr y) xs ys"
proof -
  obtain ys where ys: "collect_results (\<lambda>x. map_err (g x) (f x)) xs = Inr ys"
    using collect_results_total [of xs "\<lambda>x. map_err (g x) (f x)"] assms
    by (auto simp: is_ok_iff map_err_Inr_iff)
  then have "list_all2 (\<lambda>x y. f x = Inr y) xs ys" by (simp add: collect_results_Inr map_err_Inr_iff)
  with ys show ?thesis by blast
qed

lemma config_for_validated_spec:
  assumes "run_spec_validate spec = Ok ()"
  shows "\<exists>c. policy_config_for_spec spec = Ok c \<and>
    (case c of
       None \<Rightarrow> effective_network_mode spec \<noteq> Allowlist
     | Some config \<Rightarrow>
         \<exists>policy. rs_network_policy spec = Some policy \<and> np_mode policy = Allowlist \<and>
           pc_mode config = PolicyAllowlist \<and>
           list_all2 (\<lambda>s r. cidr_from_str s = Ok r) (np_allow_cidrs policy) (pc_cidrs config) \<and>
           list_all2 (\<lambda>s r. domain_pattern_from_str s = Ok r) (np_allow_domains policy) (pc_domains config) \<and>
           pc_published_tcp_ports config = pr_guest_port ` set (rs_publish spec) \<and>
           pc_dns_servers config = {V4 GVPROXY_GATEWAY} \<and> pc_control_addresses config = {V4 GVPROXY_GATEWAY} \<and>
           limits_validate (pc_limits config) = Ok ())"
proof (cases "effective_network_mode spec = Allowlist")
  case False
  then show ?thesis by (cases "effective_network_mode spec") (auto simp: policy_config_for_spec_def)
next
  case True
  note net = run_spec_validate_ok(9) [OF assms]
  obtain policy where policy: "rs_network_policy spec = Some policy" "np_mode policy = Allowlist"
    using True by (auto simp: effective_network_mode_def split: option.splits if_splits)
  note rules = validate_network_rules [OF net policy(1)]
  have pub: "length (rs_publish spec) \<le> 32" "\<forall>r\<in>set (rs_publish spec). pr_guest_port r \<noteq> 0"
    using validate_network_publish(1) [OF net] by (auto simp: validate_publish_requests_ok)
  obtain cidrs where cidrs: "collect_results (\<lambda>cidr. map_err (cidr_error cidr) (cidr_from_str cidr)) (np_allow_cidrs policy) = Inr cidrs"
      "list_all2 (\<lambda>s r. cidr_from_str s = Inr r) (np_allow_cidrs policy) cidrs"
    using collect_map_err_total [OF rules(3) [unfolded valid_cidr_iff], of cidr_error] by blast
  obtain domains where domains: "collect_results (\<lambda>domain. map_err (domain_error domain) (domain_pattern_from_str domain)) (np_allow_domains policy) = Inr domains"
      "list_all2 (\<lambda>s r. domain_pattern_from_str s = Inr r) (np_allow_domains policy) domains"
    using collect_map_err_total [OF rules(4) [unfolded valid_domain_pattern_iff], of domain_error] by blast
  have lens: "\<not> length cidrs > MAX_CIDRS" "\<not> length domains > MAX_DOMAINS"
    using rules(1,2) cidrs(2) domains(2) by (auto simp: MAX_CIDRS_def MAX_DOMAINS_def dest: list_all2_lengthD)
  have "card (set (map pr_guest_port (rs_publish spec))) \<le> 32"
    using card_length [of "map pr_guest_port (rs_publish spec)"] pub(1) by simp
  then have ports: "with_published_tcp_ports c (map pr_guest_port (rs_publish spec)) =
      Inr (c\<lparr>pc_published_tcp_ports := pr_guest_port ` set (rs_publish spec)\<rparr>)" for c
    using pub(2) by (auto simp: with_published_tcp_ports_def MAX_PUBLISHED_PORTS_def)
  have guest: "with_guest_ipv4_addresses c [GVPROXY_GUEST] =
      Inr (c\<lparr>pc_guest_ipv4_addresses := {GVPROXY_GUEST}\<rparr>)" for c
  proof -
    have "GVPROXY_GUEST \<noteq> 0" "GVPROXY_GUEST \<noteq> 0xFFFFFFFF" by code_simp+
    then show ?thesis by (auto simp: with_guest_ipv4_addresses_def MAX_INFRASTRUCTURE_ADDRESSES_def)
  qed
  let ?new = "policy_config_new PolicyAllowlist cidrs domains [V4 GVPROXY_GATEWAY]
    [GVPROXY_GATEWAY] [V4 GVPROXY_GATEWAY] limits_default"
  obtain config where new: "?new = Inr config" "pc_mode config = PolicyAllowlist"
    "pc_cidrs config = cidrs" "pc_domains config = domains" "pc_limits config = limits_default"
    "pc_dns_servers config = {V4 GVPROXY_GATEWAY}" "pc_control_addresses config = {V4 GVPROXY_GATEWAY}"
    using lens by (simp add: policy_config_new_def limits_default_ok
        MAX_INFRASTRUCTURE_ADDRESSES_def MAX_CONTROL_ADDRESSES_def)
  have "policy_config_for_spec spec = Inr (Some (config
      \<lparr>pc_guest_ipv4_addresses := {GVPROXY_GUEST},
       pc_published_tcp_ports := pr_guest_port ` set (rs_publish spec)\<rparr>))"
    unfolding policy_config_for_spec_def True policy(1) NetworkMode.case ok_or_def option.case
      and_then_simps cidrs(1) domains(1) new(1) guest ports map_err_simps ..
  then show ?thesis
    using policy cidrs(2) domains(2) new(2-) limits_default_ok by simp
qed

text \<open>
  Validation and policy construction agree: for every validated specification the
  backend's configuration step succeeds; it yields a policy exactly in allowlist mode, whose rules
  are the parsed rules of the specification in order, whose published ports are the specification's
  guest ports, and whose only infrastructure and control address is the gateway.
\<close>

theorem validated_spec_configures:
  assumes "run_spec_validate spec = Ok ()"
  shows "\<exists>c. policy_config_for_spec spec = Ok c \<and>
    (case c of
       None \<Rightarrow> effective_network_mode spec \<noteq> Allowlist
     | Some config \<Rightarrow>
         \<exists>policy. rs_network_policy spec = Some policy \<and> np_mode policy = Allowlist \<and>
           pc_mode config = PolicyAllowlist \<and>
           list_all2 (\<lambda>s r. cidr_from_str s = Ok r) (np_allow_cidrs policy) (pc_cidrs config) \<and>
           list_all2 (\<lambda>s r. domain_pattern_from_str s = Ok r) (np_allow_domains policy) (pc_domains config) \<and>
           pc_published_tcp_ports config = pr_guest_port ` set (rs_publish spec) \<and>
           pc_dns_servers config = {V4 GVPROXY_GATEWAY} \<and> pc_control_addresses config = {V4 GVPROXY_GATEWAY} \<and>
           limits_validate (pc_limits config) = Ok ())"
  using assms by (rule config_for_validated_spec)

theorem validated_spec_configures_witness:
  "\<exists>config. policy_config_for_spec ((run_spec_command ''id'' [''true''])
     \<lparr>rs_network_policy := Some \<lparr>np_mode = Allowlist, np_allow_cidrs = [''10.0.0.0/8''],
        np_allow_domains = [''*.example.com'']\<rparr>\<rparr>) = Ok (Some config) \<and> length (pc_domains config) = 1"
proof -
  let ?spec = "(run_spec_command ''id'' [''true''])
     \<lparr>rs_network_policy := Some \<lparr>np_mode = Allowlist, np_allow_cidrs = [''10.0.0.0/8''],
        np_allow_domains = [''*.example.com'']\<rparr>\<rparr>"
  have ok: "run_spec_validate ?spec = Ok ()" by code_simp
  have "effective_network_mode ?spec = Allowlist" by code_simp
  then show ?thesis
    using validated_spec_configures [OF ok] by (auto split: option.splits dest!: list_all2_lengthD)
qed

end
