(* ===== verification/Policy_Packet.thy ===== *)
theory Policy_Packet
  imports Policy_Config
begin

text \<open>
  Packet parsing of \<^verbatim>\<open>libkrun/policy.rs\<close>: IPv4 and IPv6 headers with the Internet checksum, UDP
  and TCP headers. Slices of a packet are copied byte lists; an index of the source that the
  preceding length checks keep in range is \<open>!\<close>.
\<close>

record IpPacket =
  ip_source :: IpAddr
  ip_destination :: IpAddr
  ip_protocol :: u8
  ip_payload :: bytes

record UdpPacket =
  udp_source_port :: u16
  udp_destination_port :: u16
  udp_payload :: bytes

record TcpPacket =
  tcp_source_port :: u16
  tcp_destination_port :: u16
  tcp_sequence :: u32
  tcp_syn :: bool
  tcp_ack :: bool
  tcp_rst :: bool
  tcp_payload :: bytes

section \<open>Checksum\<close>

text \<open>\<^verbatim>\<open>chunks(2)\<close> as big-endian words, the last odd byte in the high half.\<close>

fun chunk_words :: "bytes \<Rightarrow> u16 list" where
  "chunk_words [] = []"
| "chunk_words [a] = [push_bit 8 (ucast a)]"
| "chunk_words (a # b # rest) = be16 a b # chunk_words rest"

definition checksum_sum :: "bytes \<Rightarrow> u32" where
  "checksum_sum bs = foldl (\<lambda>acc w. acc + ucast w) 0 (chunk_words bs)"

text \<open>The folding loop: every round makes the sum smaller while its high half is not zero.\<close>

lemma unat_drop_bit_div: "unat (drop_bit n (w :: 'a :: len word)) = unat w div 2 ^ n"
  unfolding unat_drop_bit_eq by (simp only: drop_bit_eq_div)

lemma fold_smaller:
  assumes "drop_bit 16 (acc :: u32) \<noteq> 0"
  shows "unat ((acc AND 0xffff) + drop_bit 16 acc) < unat acc"
    and "unat ((acc AND 0xffff) + drop_bit 16 acc) = unat acc mod 2 ^ 16 + unat acc div 2 ^ 16"
proof -
  let ?s = "unat acc"
  have s: "?s < 2 ^ 32" using unsigned_less [of acc, where ?'a = nat] by simp
  have hi: "unat (drop_bit 16 acc) = ?s div 2 ^ 16"
    by (rule unat_drop_bit_div)
  have "acc AND 0xffff = take_bit 16 acc"
    using take_bit_eq_mask [of 16 acc] by (simp add: mask_eq_exp_minus_1)
  then have lo: "unat (acc AND 0xffff) = ?s mod 2 ^ 16"
    by (simp only: unsigned_take_bit_eq) (simp only: take_bit_eq_mod)
  have "?s div 2 ^ 16 \<noteq> 0" using assms hi by (metis unat_eq_zero)
  moreover have "?s = ?s div 2 ^ 16 * 2 ^ 16 + ?s mod 2 ^ 16" by (simp only: div_mult_mod_eq)
  moreover have "?s mod 2 ^ 16 + ?s div 2 ^ 16 < 2 ^ 32"
  proof -
    have "?s mod 2 ^ 16 < 2 ^ 16" "?s div 2 ^ 16 < 2 ^ 16" using s by (simp_all add: less_mult_imp_div_less)
    then show ?thesis by simp
  qed
  ultimately show total: "unat ((acc AND 0xffff) + drop_bit 16 acc) = ?s mod 2 ^ 16 + ?s div 2 ^ 16"
    by (simp add: unat_word_ariths hi lo)
  with \<open>?s div 2 ^ 16 \<noteq> 0\<close> \<open>?s = ?s div 2 ^ 16 * 2 ^ 16 + ?s mod 2 ^ 16\<close>
  show "unat ((acc AND 0xffff) + drop_bit 16 acc) < ?s"
  proof -
    assume "?s div 2 ^ 16 \<noteq> 0" and s: "?s = ?s div 2 ^ 16 * 2 ^ 16 + ?s mod 2 ^ 16"
    then have "?s div 2 ^ 16 < ?s div 2 ^ 16 * 2 ^ 16" by simp
    with s total show ?thesis by linarith
  qed
qed

function checksum_fold :: "u32 \<Rightarrow> u32" where
  "checksum_fold acc =
     (if drop_bit 16 acc \<noteq> 0 then checksum_fold ((acc AND 0xffff) + drop_bit 16 acc) else acc)"
  by auto
termination
  by (relation "measure unat") (auto simp del: unat_0_iff intro: fold_smaller)

declare checksum_fold.simps [simp del]

definition checksum :: "bytes \<Rightarrow> u16" where
  "checksum bs = NOT (ucast (checksum_fold (checksum_sum bs)))"

section \<open>Headers\<close>

definition parse_ipv4 :: "bytes \<Rightarrow> (IpPacket, DenyReason) result" where
  "parse_ipv4 payload =
     (if length payload < 20 \<or> drop_bit 4 (payload ! 0) \<noteq> 4 then Err Malformed
      else
        let header_len = unat (payload ! 0 AND 0x0f) * 4;
            total_len = unat (be16 (payload ! 2) (payload ! 3)) in
        if header_len < 20 \<or> total_len < header_len \<or> total_len > length payload then Err Malformed
        else if be16 (payload ! 6) (payload ! 7) AND 0xbfff \<noteq> 0 then Err Fragment
        else if checksum (take header_len payload) \<noteq> 0 then Err Malformed
        else
          Ok \<lparr>ip_source = V4 (ipv4_new (payload ! 12) (payload ! 13) (payload ! 14) (payload ! 15)),
              ip_destination = V4 (ipv4_new (payload ! 16) (payload ! 17) (payload ! 18) (payload ! 19)),
              ip_protocol = payload ! 9,
              ip_payload = subslice payload header_len total_len\<rparr>)"

definition parse_ipv6 :: "bytes \<Rightarrow> (IpPacket, DenyReason) result" where
  "parse_ipv6 payload =
     (if length payload < 40 \<or> drop_bit 4 (payload ! 0) \<noteq> 6 then Err Malformed
      else
        let body_len = unat (be16 (payload ! 4) (payload ! 5)) in
        and_then (ok_or (checked_add 40 body_len) Malformed) (\<lambda>total_len.
          if total_len > length payload then Err Malformed
          else
            let next_header = payload ! 6 in
            if next_header = 44 then Err Fragment
            else if next_header \<noteq> IPPROTO_TCP \<and> next_header \<noteq> IPPROTO_UDP then Err UnsupportedProtocol
            else
              Ok \<lparr>ip_source = V6 (ipv6_from (subslice payload 8 24)),
                  ip_destination = V6 (ipv6_from (subslice payload 24 40)),
                  ip_protocol = next_header,
                  ip_payload = subslice payload 40 total_len\<rparr>))"

definition parse_udp :: "bytes \<Rightarrow> (UdpPacket, DenyReason) result" where
  "parse_udp payload =
     (if length payload < 8 then Err Malformed
      else
        let len = unat (be16 (payload ! 4) (payload ! 5)) in
        if len < 8 \<or> len > length payload then Err Malformed
        else
          Ok \<lparr>udp_source_port = be16 (payload ! 0) (payload ! 1),
              udp_destination_port = be16 (payload ! 2) (payload ! 3),
              udp_payload = subslice payload 8 len\<rparr>)"

definition parse_tcp :: "bytes \<Rightarrow> (TcpPacket, DenyReason) result" where
  "parse_tcp payload =
     (if length payload < 20 then Err Malformed
      else
        let header_len = unat (drop_bit 4 (payload ! 12)) * 4 in
        if header_len < 20 \<or> header_len > length payload \<or> payload ! 12 AND 0x0f \<noteq> 0 then Err Malformed
        else
          Ok \<lparr>tcp_source_port = be16 (payload ! 0) (payload ! 1),
              tcp_destination_port = be16 (payload ! 2) (payload ! 3),
              tcp_sequence = be32 (payload ! 4) (payload ! 5) (payload ! 6) (payload ! 7),
              tcp_syn = (payload ! 13 AND 0x02 \<noteq> 0),
              tcp_ack = (payload ! 13 AND 0x10 \<noteq> 0),
              tcp_rst = (payload ! 13 AND 0x04 \<noteq> 0),
              tcp_payload = drop header_len payload\<rparr>)"

section \<open>The checksum is the one's complement sum\<close>

text \<open>
  The reference: the words added as numbers, end-around carries folded by counting modulo
  \<open>2 ^ 16 - 1\<close>. Both sums keep their residue, and a folded sum is zero only for all-zero input.
\<close>

lemma checksum_fold_residue:
  "unat (checksum_fold acc) < 2 ^ 16 \<and>
   unat (checksum_fold acc) mod 65535 = unat acc mod 65535 \<and>
   (unat (checksum_fold acc) = 0 \<longleftrightarrow> unat acc = 0)"
proof (induction acc rule: checksum_fold.induct)
  case (1 acc)
  show ?case
  proof (cases "drop_bit 16 acc = 0")
    case True
    then have "unat acc div 2 ^ 16 = 0" using unat_drop_bit_div [of 16 acc] by simp
    then have "unat acc < 2 ^ 16" by (simp add: div_eq_0_iff)
    with True show ?thesis by (simp add: checksum_fold.simps [of acc])
  next
    case False
    let ?next = "(acc AND 0xffff) + drop_bit 16 acc"
    have n: "unat ?next = unat acc mod 2 ^ 16 + unat acc div 2 ^ 16" by (rule fold_smaller(2) [OF False])
    have s: "unat acc = unat acc div 2 ^ 16 * 65535 + unat ?next" unfolding n
      using div_mult_mod_eq [of "unat acc" "2 ^ 16"] by simp
    have "unat ?next mod 65535 = unat acc mod 65535"
      by (subst s) simp
    moreover have "unat ?next = 0 \<longleftrightarrow> unat acc = 0"
      using s n by (metis add_eq_0_iff_both_eq_0 div_0 mult_is_0 mod_0)
    ultimately show ?thesis using 1 False by (simp add: checksum_fold.simps [of acc])
  qed
qed


fun words_total :: "bytes \<Rightarrow> nat" where
  "words_total [] = 0"
| "words_total [a] = unat a * 256"
| "words_total (a # b # rest) = unat a * 256 + unat b + words_total rest"

lemma words_total_bound: "words_total bs \<le> 65535 * ((length bs + 1) div 2)"
proof (induction bs rule: words_total.induct)
  case (3 a b rest)
  then show ?case using unat_u8_less [of a] unat_u8_less [of b] by simp
next
  case (2 a)
  then show ?case using unat_u8_less [of a] by simp
qed simp

lemma foldl_words:
  "foldl (\<lambda>acc w. acc + ucast w) (acc :: u32) (chunk_words bs) = acc + of_nat (words_total bs)"
proof (induction bs arbitrary: acc rule: words_total.induct)
  case (2 a)
  have "unat (push_bit 8 (ucast a) :: u16) = unat a * 256"
    unfolding unsigned_push_bit_eq unsigned_ucast_eq using unat_u8_less [of a]
    by (simp add: take_bit_eq_mod push_bit_eq_mult)
  then have "ucast (push_bit 8 (ucast a) :: u16) = (of_nat (unat a * 256) :: u32)"
    by (metis of_nat_unat)
  then show ?case by simp
next
  case (3 a b rest)
  have "ucast (be16 a b) = (of_nat (unat a * 256 + unat b) :: u32)"
    by (metis unat_be16 of_nat_unat)
  with 3 show ?case by (simp add: add.assoc)
qed simp

lemma unat_checksum_sum:
  assumes "length bs \<le> 2 ^ 16"
  shows "unat (checksum_sum bs) = words_total bs"
proof -
  have "words_total bs \<le> 65535 * ((length bs + 1) div 2)" by (rule words_total_bound)
  also have "\<dots> < 2 ^ 32" using assms by simp
  finally show ?thesis unfolding checksum_sum_def foldl_words by (simp add: unat_of_nat)
qed

text \<open>
  On every IPv4 header (indeed on every buffer of at most 64 KiB) the checksum
  routine accepts exactly when the one's complement sum of the 16-bit words is all ones, that is
  when the plain sum of the words is a positive multiple of 65535.
\<close>

theorem checksum_zero_iff:
  assumes "length bs \<le> 2 ^ 16"
  shows "checksum bs = 0 \<longleftrightarrow> 0 < words_total bs \<and> words_total bs mod 65535 = 0"
proof -
  let ?f = "checksum_fold (checksum_sum bs)"
  have n: "unat (checksum_sum bs) = words_total bs" by (rule unat_checksum_sum) (rule assms)
  note r = checksum_fold_residue [of "checksum_sum bs", unfolded n]
  have u: "unat (ucast ?f :: u16) = unat ?f"
    using r by (simp add: unsigned_ucast_eq take_bit_nat_eq_self)
  have "checksum bs = 0 \<longleftrightarrow> (ucast ?f :: u16) = - 1"
    unfolding checksum_def by (metis bit.compl_zero bit.double_compl)
  also have "\<dots> \<longleftrightarrow> unat ?f = 65535"
    unfolding u [symmetric] word_unat_eq_iff by (simp add: unsigned_minus_1_eq_mask mask_eq_exp_minus_1)
  also have "\<dots> \<longleftrightarrow> 0 < words_total bs \<and> words_total bs mod 65535 = 0"
  proof
    assume "unat ?f = 65535"
    then show "0 < words_total bs \<and> words_total bs mod 65535 = 0" using r by auto
  next
    assume "0 < words_total bs \<and> words_total bs mod 65535 = 0"
    with r have "unat ?f \<noteq> 0" "unat ?f mod 65535 = 0" "unat ?f \<le> 65535" by auto
    then show "unat ?f = 65535" by (cases "unat ?f < 65535") auto
  qed
  finally show ?thesis .
qed

theorem checksum_zero_iff_witness:
  "checksum [69, 0, 0, 40, 0, 0, 64, 0, 64, 6, 187, 123, 192, 168, 127, 2, 192, 168, 127, 1] = 0 \<and>
   checksum [69, 0, 0, 40, 0, 0, 64, 0, 64, 6, 187, 123, 192, 168, 127, 2, 192, 168, 127, 9] \<noteq> 0"
proof -
  have "0 < words_total [69, 0, 0, 40, 0, 0, 64, 0, 64, 6, 187, 123, 192, 168, 127, 2, 192, 168, 127, 1] \<and>
      words_total [69, 0, 0, 40, 0, 0, 64, 0, 64, 6, 187, 123, 192, 168, 127, 2, 192, 168, 127, 1] mod 65535 = 0"
    "\<not> words_total [69, 0, 0, 40, 0, 0, 64, 0, 64, 6, 187, 123, 192, 168, 127, 2, 192, 168, 127, 9] mod 65535 = 0"
    by code_simp+
  then show ?thesis by (subst (1 2) checksum_zero_iff) simp_all
qed

end
