(* ===== verification/Policy_Dns.thy ===== *)
theory Policy_Dns
  imports Policy_Config
begin

text \<open>
  The DNS message parser of \<^verbatim>\<open>libkrun/policy.rs\<close>. A parse error carries no information
  (\<^verbatim>\<open>Err(())\<close>); a cursor that the code moves through \<^verbatim>\<open>&mut\<close> is returned with the result. Names
  are read label by label through at most \<^const>\<open>MAX_DNS_NAME_POINTERS\<close> compression pointers; the
  loop ends because every round follows a pointer or lengthens the name, and both are bounded.
\<close>

definition effective_dns_ttl :: "u32 \<Rightarrow> nat" where
  "effective_dns_ttl ttl = (if ttl = 0 then ZERO_TTL_DNS_BINDING_GRACE_SECS else unat ttl)"

record DnsQuery =
  dq_id :: u16
  dq_name :: string

datatype DnsRecord =
  Cname string string u32
| Address string IpAddr u32

record DnsResponse =
  dr_id :: u16
  dr_question :: string
  dr_answers :: "DnsRecord list"

record DnsHeader =
  dh_id :: u16
  dh_flags :: u16
  dh_question_count :: u16
  dh_answer_count :: u16
  dh_authority_count :: u16
  dh_additional_count :: u16

definition parse_dns_header :: "bytes \<Rightarrow> (DnsHeader, unit) result" where
  "parse_dns_header m =
     (if length m < 12 \<or> length m > MAX_DNS_MESSAGE then Err ()
      else
        Ok \<lparr>dh_id = be16 (m ! 0) (m ! 1), dh_flags = be16 (m ! 2) (m ! 3),
            dh_question_count = be16 (m ! 4) (m ! 5), dh_answer_count = be16 (m ! 6) (m ! 7),
            dh_authority_count = be16 (m ! 8) (m ! 9), dh_additional_count = be16 (m ! 10) (m ! 11)\<rparr>)"

definition read_dns_question_tail :: "bytes \<Rightarrow> nat \<Rightarrow> ((u16 \<times> u16) \<times> nat, unit) result" where
  "read_dns_question_tail m cursor =
     and_then (ok_or (checked_add cursor 4) ()) (\<lambda>end_pos.
     and_then (ok_or (get_range m cursor end_pos) ()) (\<lambda>t.
     Ok ((be16 (t ! 0) (t ! 1), be16 (t ! 2) (t ! 3)), end_pos)))"

section \<open>Names\<close>

text \<open>The check of one label: neither end is a hyphen, letters, digits and hyphens only.\<close>

definition dns_label_ok :: "bytes \<Rightarrow> bool" where
  "dns_label_ok label \<longleftrightarrow>
     \<not> (label = [] \<or> label ! 0 = 45 \<or> label ! (length label - 1) = 45 \<or>
        \<not> list_all (\<lambda>b. ascii_alphanumeric (unat b) \<or> b = 45) label)"

function read_name_loop ::
  "bytes \<Rightarrow> nat \<Rightarrow> nat option \<Rightarrow> nat \<Rightarrow> string list \<Rightarrow> nat \<Rightarrow> (string list \<times> nat, unit) result" where
  "read_name_loop m position consumed pointer_count labels encoded_len =
     and_then (ok_or (get_at m position) ()) (\<lambda>len.
       if len AND 0xc0 = 0xc0 then
         and_then (ok_or (checked_add position 1) ()) (\<lambda>p1.
         and_then (ok_or (get_at m p1) ()) (\<lambda>next_byte.
         and_then (ok_or (checked_add position 2) ()) (\<lambda>p2.
           if pointer_count + 1 > MAX_DNS_NAME_POINTERS then Err ()
           else
             read_name_loop m (unat (len AND 0x3f) * 256 + unat next_byte)
               (Some (case consumed of None \<Rightarrow> p2 | Some c \<Rightarrow> c)) (pointer_count + 1) labels encoded_len)))
       else if len AND 0xc0 \<noteq> 0 then Err ()
       else
         and_then (ok_or (checked_add position 1) ()) (\<lambda>p1.
           if len = 0 then Ok (labels, case consumed of None \<Rightarrow> p1 | Some c \<Rightarrow> c)
           else if unat len > 63 then Err ()
           else
             and_then (ok_or (checked_add p1 (unat len)) ()) (\<lambda>end_pos.
             and_then (ok_or (get_range m p1 end_pos) ()) (\<lambda>label.
               if \<not> dns_label_ok label then Err ()
               else
                 and_then (ok_or (checked_add encoded_len (unat len + (if labels \<noteq> [] then 1 else 0))) ())
                   (\<lambda>encoded_len'.
                   if encoded_len' > MAX_DOMAIN_LEN then Err ()
                   else
                     read_name_loop m end_pos consumed pointer_count
                       (labels @ [to_ascii_lowercase (str_of_bytes label)]) encoded_len')))))"
  by auto
termination
proof (relation "measure (\<lambda>(m, pos, c, pointer_count, labels, encoded_len).
    (MAX_DNS_NAME_POINTERS - pointer_count) + (MAX_DOMAIN_LEN - encoded_len))", goal_cases)
  case 1
  show ?case by simp
next
  case 2
  then show ?case by simp
next
  case (3 m position consumed pointer_count labels encoded_len len p1 end_pos label encoded_len')
  then have "0 < unat len" by (simp add: unat_gt_0)
  with 3 show ?case by (auto simp: ok_or_Inr_iff)
qed

declare read_name_loop.simps [simp del]

definition read_dns_name :: "bytes \<Rightarrow> nat \<Rightarrow> (string \<times> nat, unit) result" where
  "read_dns_name m cursor =
     and_then (read_name_loop m cursor None 0 [] 0) (\<lambda>(labels, cursor'). Ok (join_with ''.'' labels, cursor'))"

section \<open>Messages\<close>

definition parse_dns_opt :: "bytes \<Rightarrow> nat \<Rightarrow> (nat, unit) result" where
  "parse_dns_opt m cursor =
     and_then (read_dns_name m cursor) (\<lambda>(owner, cursor).
       if owner \<noteq> [] then Err ()
       else
         and_then (ok_or (checked_add cursor 10) ()) (\<lambda>fixed_end.
         and_then (ok_or (get_range m cursor fixed_end) ()) (\<lambda>fixed.
           if be16 (fixed ! 0) (fixed ! 1) \<noteq> 41 then Err ()
           else
             and_then (ok_or (checked_add fixed_end (unat (be16 (fixed ! 8) (fixed ! 9)))) ()) (\<lambda>end_pos.
               if end_pos \<le> length m then Ok end_pos else Err ()))))"

definition parse_dns_query :: "bytes \<Rightarrow> (DnsQuery, unit) result" where
  "parse_dns_query m =
     and_then (parse_dns_header m) (\<lambda>h.
       if dh_flags h AND 0x8000 \<noteq> 0 \<or> dh_flags h AND 0x7800 \<noteq> 0 \<or> dh_question_count h \<noteq> 1 \<or>
          dh_answer_count h \<noteq> 0 \<or> dh_authority_count h \<noteq> 0 \<or> dh_additional_count h > 1 then Err ()
       else
         and_then (read_dns_name m 12) (\<lambda>(name, cursor).
           if name = [] then Err ()
           else
             and_then (read_dns_question_tail m cursor) (\<lambda>((query_type, query_class), cursor).
               if query_type \<noteq> 1 \<and> query_type \<noteq> 28 \<or> query_class \<noteq> 1 then Err ()
               else
                 and_then (if dh_additional_count h = 1 then parse_dns_opt m cursor else Ok cursor) (\<lambda>cursor.
                   if cursor \<noteq> length m then Err ()
                   else Ok \<lparr>dq_id = dh_id h, dq_name = name\<rparr>))))"

text \<open>One record: the cursor after it and the answer it contributes, if any.\<close>

definition read_dns_record ::
  "bytes \<Rightarrow> bool \<Rightarrow> nat \<Rightarrow> (DnsRecord list \<times> nat, unit) result" where
  "read_dns_record m in_answers cursor =
     and_then (read_dns_name m cursor) (\<lambda>(owner, cursor).
     and_then (ok_or (checked_add cursor 10) ()) (\<lambda>fixed_end.
     and_then (ok_or (get_range m cursor fixed_end) ()) (\<lambda>fixed.
       let record_type = be16 (fixed ! 0) (fixed ! 1);
           cls = be16 (fixed ! 2) (fixed ! 3);
           ttl = be32 (fixed ! 4) (fixed ! 5) (fixed ! 6) (fixed ! 7);
           data_len = unat (be16 (fixed ! 8) (fixed ! 9));
           data_start = fixed_end in
       and_then (ok_or (checked_add data_start data_len) ()) (\<lambda>data_end.
       and_then (ok_or (get_range m data_start data_end) ()) (\<lambda>data.
         if \<not> in_answers \<or> cls \<noteq> 1 then Ok ([], data_end)
         else if record_type = 1 \<and> length data = 4 then
           Ok ([Address owner (V4 (ipv4_new (data ! 0) (data ! 1) (data ! 2) (data ! 3))) ttl], data_end)
         else if record_type = 28 \<and> length data = 16 then
           Ok ([Address owner (V6 (ipv6_from data)) ttl], data_end)
         else if record_type = 5 then
           and_then (read_dns_name m data_start) (\<lambda>(target, name_cursor).
             if target = [] \<or> name_cursor \<noteq> data_end then Err ()
             else Ok ([Cname owner target ttl], data_end))
         else Ok ([], data_end))))))"

primrec read_dns_records ::
  "nat \<Rightarrow> bytes \<Rightarrow> nat \<Rightarrow> nat \<Rightarrow> nat \<Rightarrow> DnsRecord list \<Rightarrow> (DnsRecord list \<times> nat, unit) result" where
  "read_dns_records 0 m answer_count index cursor answers = Ok (answers, cursor)"
| "read_dns_records (Suc left) m answer_count index cursor answers =
     and_then (read_dns_record m (index < answer_count) cursor) (\<lambda>(new_answers, cursor).
       read_dns_records left m answer_count (index + 1) cursor (answers @ new_answers))"

definition parse_dns_response :: "bytes \<Rightarrow> (DnsResponse, unit) result" where
  "parse_dns_response m =
     and_then (parse_dns_header m) (\<lambda>h.
       if dh_flags h AND 0x8000 = 0 \<or> dh_flags h AND 0x7800 \<noteq> 0 \<or> dh_flags h AND 0x000f \<noteq> 0 \<or>
          dh_question_count h \<noteq> 1 then Err ()
       else
         let total_records = unat (dh_answer_count h) + unat (dh_authority_count h)
                             + unat (dh_additional_count h) in
         if total_records > MAX_DNS_RECORDS then Err ()
         else
           and_then (read_dns_name m 12) (\<lambda>(question, cursor).
             if question = [] then Err ()
             else
               and_then (read_dns_question_tail m cursor) (\<lambda>((query_type, query_class), cursor).
                 if query_type \<noteq> 1 \<and> query_type \<noteq> 28 \<or> query_class \<noteq> 1 then Err ()
                 else
                   and_then (read_dns_records total_records m (unat (dh_answer_count h)) 0 cursor []) (\<lambda>(answers, cursor).
                     if cursor \<noteq> length m then Err ()
                     else Ok \<lparr>dr_id = dh_id h, dr_question = question, dr_answers = answers\<rparr>))))"

section \<open>Names are normal and bounded\<close>

lemma char_dash: "char_of (45 :: nat) = CHR ''-''"
  by code_simp

lemma byte_dash: "char_of (unat (b :: u8)) = CHR ''-'' \<longleftrightarrow> b = 45"
proof
  assume "char_of (unat b) = CHR ''-''"
  then have "code (char_of (unat b)) = code (CHR ''-'')" by simp
  then have "unat b = 45" using unat_u8_less [of b] by simp
  then show "b = 45" by (simp add: word_unat_eq_iff)
qed (simp add: char_dash)

lemma str_of_bytes_Nil [simp]: "str_of_bytes bs = [] \<longleftrightarrow> bs = []"
  by (simp add: str_of_bytes_def)

lemma dns_label_ok_valid:
  assumes "dns_label_ok label" and "length label \<le> 63"
  shows "valid_label (to_ascii_lowercase (str_of_bytes label))"
proof -
  have "label \<noteq> []" "hd (str_of_bytes label) \<noteq> CHR ''-''" "last (str_of_bytes label) \<noteq> CHR ''-''"
    using assms(1) byte_dash by (auto simp: dns_label_ok_def str_of_bytes_def hd_map last_map hd_conv_nth last_conv_nth)
  moreover have "list_all (\<lambda>c. ascii_alphanumeric (code c) \<or> c = CHR ''-'') (str_of_bytes label)"
    using assms(1) byte_dash unat_u8_less by (fastforce simp: dns_label_ok_def str_of_bytes_def list_all_iff)
  ultimately have "valid_label (str_of_bytes label)"
    using assms(2) by (simp add: valid_label_def starts_with_char ends_with_char)
  then show ?thesis by (simp only: valid_label_lower)
qed

lemma get_range_middle: "get_range (a @ b @ c) (length a) (length a + length b) = Some b"
  by (simp add: get_range_def)

lemma get_at_lt: "get_at xs i = Some x \<Longrightarrow> i < length xs"
  by (simp add: get_at_Some)

definition name_inv :: "nat \<Rightarrow> bytes \<Rightarrow> nat \<Rightarrow> nat option \<Rightarrow> string list \<Rightarrow> nat \<Rightarrow> bool" where
  "name_inv cursor m position consumed labels encoded_len \<longleftrightarrow>
     list_all valid_label labels \<and> encoded_len = length (join_with ''.'' labels) \<and>
     encoded_len \<le> MAX_DOMAIN_LEN \<and> list_all (\<lambda>l. to_ascii_lowercase l = l) labels \<and>
     (case consumed of None \<Rightarrow> cursor \<le> position | Some c \<Rightarrow> cursor < c \<and> c \<le> length m)"

lemma length_join_snoc:
  "length (join_with [c] (ls @ [l])) = length (join_with [c] ls) + (length l + (if ls \<noteq> [] then 1 else 0))"
  by (cases "ls = []") (simp_all add: join_with_app)

lemma read_name_loop_inv:
  assumes "read_name_loop m position consumed pointer_count labels encoded_len = Inr (labels', cursor')"
    and "name_inv cursor m position consumed labels encoded_len"
  shows "list_all valid_label labels' \<and> length (join_with ''.'' labels') \<le> MAX_DOMAIN_LEN \<and>
    list_all (\<lambda>l. to_ascii_lowercase l = l) labels' \<and> cursor < cursor' \<and> cursor' \<le> length m"
  using assms
proof (induction m position consumed pointer_count labels encoded_len rule: read_name_loop.induct)
  case (1 m position consumed pointer_count labels encoded_len)
  obtain len where len: "get_at m position = Some len"
    using 1 by (auto simp: read_name_loop.simps [of m position] and_then_Inr_iff ok_or_Inr_iff)
  show ?case
  proof (cases "len AND 0xc0 = 0xc0")
    case True
    with len "1.prems" obtain nb where nb: "get_at m (position + 1) = Some nb"
      "position + 2 \<le> U64_MAX" "pointer_count + 1 \<le> MAX_DNS_NAME_POINTERS"
      and rec: "read_name_loop m (unat (len AND 0x3f) * 256 + unat nb)
         (Some (case consumed of None \<Rightarrow> position + 2 | Some c \<Rightarrow> c)) (pointer_count + 1) labels encoded_len
         = Inr (labels', cursor')"
      by (auto simp: read_name_loop.simps [of m position] and_then_Inr_iff ok_or_Inr_iff
          simp del: add_2_eq_Suc' split: if_splits)
    have "name_inv cursor m (unat (len AND 0x3f) * 256 + unat nb)
        (Some (case consumed of None \<Rightarrow> position + 2 | Some c \<Rightarrow> c)) labels encoded_len"
      using "1.prems"(2) get_at_lt [OF nb(1)] by (auto simp: name_inv_def split: option.splits)
    then show ?thesis
      using "1.IH"(1) [OF _ True _ _ _ _ rec] len nb by (simp add: ok_or_def checked_add_def)
  next
    case False
    note head = "1.prems"(1) [unfolded read_name_loop.simps [of m position]]
    have c0: "len AND 0xc0 = 0" and pos: "position + 1 \<le> U64_MAX"
      using head len False by (auto simp: and_then_Inr_iff ok_or_Inr_iff split: if_splits)
    show ?thesis
    proof (cases "len = 0")
      case True
      then show ?thesis
        using head len False c0 "1.prems"(2) get_at_lt [OF len]
        by (auto simp: and_then_Inr_iff ok_or_Inr_iff name_inv_def split: option.splits)
    next
      case nonzero: False
      let ?e = "position + 1 + unat len" and ?n = "encoded_len + (unat len + (if labels \<noteq> [] then 1 else 0))"
      obtain label where label: "get_range m (position + 1) ?e = Some label" "?e \<le> U64_MAX"
        "dns_label_ok label" "?n \<le> MAX_DOMAIN_LEN" "unat len \<le> 63"
        and rec: "read_name_loop m ?e consumed pointer_count
            (labels @ [to_ascii_lowercase (str_of_bytes label)]) ?n = Inr (labels', cursor')"
        using head len False c0 nonzero
        by (auto simp: and_then_Inr_iff ok_or_Inr_iff split: if_splits)
      have l: "length label = unat len" using label(1) by (auto simp: get_range_Some)
      have "name_inv cursor m ?e consumed (labels @ [to_ascii_lowercase (str_of_bytes label)]) ?n"
        using "1.prems"(2) label l dns_label_ok_valid [OF label(3)]
        by (auto simp: name_inv_def length_join_snoc o_def split: option.splits)
      then show ?thesis
        using "1.IH"(2) [OF _ False _ _ nonzero _ _ _ _ _ _ rec] len c0 label pos
        by (simp add: ok_or_def checked_add_def MAX_DOMAIN_LEN_def U64_MAX_def)
    qed
  qed
qed


lemma valid_label_no_dot:
  assumes "valid_label l"
  shows "CHR ''.'' \<notin> set l"
proof
  assume "CHR ''.'' \<in> set l"
  then have "ascii_alphanumeric (code (CHR ''.'')) \<or> CHR ''.'' = CHR ''-''"
    using assms unfolding valid_label_def list_all_iff by metis
  moreover have "\<not> (ascii_alphanumeric (code (CHR ''.'')) \<or> CHR ''.'' = CHR ''-'')" by code_simp
  ultimately show False by simp
qed

lemma normalize_join:
  assumes "list_all valid_label ls" "list_all (\<lambda>l. to_ascii_lowercase l = l) ls"
    and "length (join_with ''.'' ls) \<le> MAX_DOMAIN_LEN" and "ls \<noteq> []"
  shows "normalize_domain (join_with ''.'' ls) = Some (join_with ''.'' ls)"
proof -
  have no_dot: "CHR ''.'' \<notin> set l" if "l \<in> set ls" for l
    using assms(1) that by (simp add: list_all_iff valid_label_no_dot)
  then have split: "split_on CHR ''.'' (join_with ''.'' ls) = ls"
    using assms(4) by (intro split_join) auto
  have "split_on CHR ''.'' (to_ascii_lowercase (join_with ''.'' ls)) =
      map to_ascii_lowercase (split_on CHR ''.'' (join_with ''.'' ls))"
    by (rule map_split_on) (rule lower_dot)
  also have "\<dots> = split_on CHR ''.'' (join_with ''.'' ls)"
    unfolding split using assms(2) by (simp add: list_all_iff map_idI)
  finally have lower: "to_ascii_lowercase (join_with ''.'' ls) = join_with ''.'' ls"
    by (metis join_split_on)
  have "hd ls \<noteq> []" using assms(1,4) by (cases ls) (auto simp: valid_label_def)
  then have "join_with ''.'' ls \<noteq> []" using assms(4) by (cases ls rule: list.exhaust; cases "tl ls") auto
  then show ?thesis using assms split by (simp add: normalize_domain_Some lower)
qed

text \<open>
  C40: Whatever bytes a message holds, compressed or hostile, a name that is read from it
  is the root or a normalized domain of at most 253 bytes, and the cursor moves forward and stays
  inside the message.
\<close>

theorem read_dns_name_normal:
  assumes "read_dns_name m cursor = Ok (name, cursor')"
  shows "(name = [] \<or> normalize_domain name = Some name) \<and> length name \<le> 253 \<and>
         cursor < cursor' \<and> cursor' \<le> length m"
proof -
  obtain ls where loop: "read_name_loop m cursor None 0 [] 0 = Inr (ls, cursor')"
    and name: "name = join_with ''.'' ls"
  proof (cases "read_name_loop m cursor None 0 [] 0")
    case (Inr r)
    with assms that show ?thesis by (cases r) (simp add: read_dns_name_def)
  qed (use assms in \<open>simp add: read_dns_name_def\<close>)
  have "name_inv cursor m cursor None [] 0" by (simp add: name_inv_def)
  note inv = read_name_loop_inv [OF loop this]
  then have "ls \<noteq> [] \<Longrightarrow> normalize_domain name = Some name"
    unfolding name by (intro normalize_join) simp_all
  moreover have "ls = [] \<Longrightarrow> name = []" by (simp add: name)
  ultimately show ?thesis using inv unfolding name MAX_DOMAIN_LEN_def by blast
qed

theorem read_dns_name_normal_witness:
  "\<exists>name cursor'. read_dns_name [1, 97, 0xC0, 5, 0, 3, 66, 45, 99, 0] 0 = Ok (name, cursor') \<and>
     normalize_domain name = Some name \<and> name = ''a.b-c'' \<and> cursor' = 4"
proof -
  have r: "read_dns_name [1, 97, 0xC0, 5, 0, 3, 66, 45, 99, 0] 0 = Ok (''a.b-c'', 4)" by code_simp
  with read_dns_name_normal [OF r] show ?thesis by simp
qed

section \<open>Queries round trip\<close>

definition encode_label :: "string \<Rightarrow> bytes" where
  "encode_label l = of_nat (length l) # bytes_of_str l"

definition encode_dns_name :: "string \<Rightarrow> bytes" where
  "encode_dns_name name = concat (map encode_label (split_on CHR ''.'' name)) @ [0]"

definition dns_query_message :: "u8 \<Rightarrow> u8 \<Rightarrow> string \<Rightarrow> u8 \<Rightarrow> bytes" where
  "dns_query_message id_hi id_lo name query_type =
     [id_hi, id_lo, 1, 0, 0, 1, 0, 0, 0, 0, 0, 0] @ encode_dns_name name @ [0, query_type, 0, 1]"

lemma length_encode_label: "length (encode_label l) = Suc (length l)"
  by (simp add: encode_label_def)

lemma length_encode_labels:
  "length (concat (map encode_label ls)) = sum_list (map length ls) + length ls"
  by (induction ls) (simp_all add: length_encode_label)

lemma length_byte:
  assumes "n \<le> 63"
  shows "(of_nat n :: u8) AND 0xc0 = 0" and "unat (of_nat n :: u8) = n"
proof -
  have "list_all (\<lambda>n. (of_nat n :: u8) AND 0xc0 = 0 \<and> unat (of_nat n :: u8) = n) [0..<64]" by code_simp
  moreover have "n \<in> set [0..<64]" using assms by simp
  ultimately have "(of_nat n :: u8) AND 0xc0 = 0 \<and> unat (of_nat n :: u8) = n"
    by (simp only: list_all_iff)
  then show "(of_nat n :: u8) AND 0xc0 = 0" and "unat (of_nat n :: u8) = n" by simp_all
qed

lemma valid_label_dns_ok:
  assumes "valid_label l"
  shows "dns_label_ok (bytes_of_str l)"
proof -
  have dash: "(of_nat (code c) :: u8) = 45 \<longleftrightarrow> c = CHR ''-''" for c
  proof
    assume "(of_nat (code c) :: u8) = 45"
    then have "unat (of_nat (code c) :: u8) = unat (45 :: u8)" by (rule arg_cong)
    then have "code c = 45" by simp
    then show "c = CHR ''-''" by (metis char_dash char_of_char)
  qed simp
  have "l \<noteq> []" "hd l \<noteq> CHR ''-''" "last l \<noteq> CHR ''-''"
    "\<forall>c\<in>set l. ascii_alphanumeric (code c) \<or> c = CHR ''-''"
    using assms by (auto simp: valid_label_def starts_with_char ends_with_char list_all_iff)
  moreover from this have "l ! 0 = hd l" "l ! (length l - 1) = last l"
    by (simp_all add: hd_conv_nth last_conv_nth)
  ultimately show ?thesis
    by (simp add: dns_label_ok_def bytes_of_str_def dash list_all_iff)
qed

lemma read_encoded_labels:
  assumes "list_all valid_label ls" "list_all (\<lambda>l. to_ascii_lowercase l = l) ls"
    and "length (join_with ''.'' (acc @ ls)) \<le> MAX_DOMAIN_LEN"
    and "length (pre @ concat (map encode_label ls) @ 0 # post) \<le> U64_MAX"
  shows "read_name_loop (pre @ concat (map encode_label ls) @ 0 # post) (length pre) None 0 acc
      (length (join_with ''.'' acc)) = Ok (acc @ ls, length pre + length (concat (map encode_label ls)) + 1)"
  using assms
proof (induction ls arbitrary: pre acc)
  case Nil
  then show ?case by (simp add: read_name_loop.simps get_at_def checked_add_def)
next
  case (Cons l ls)
  define m where "m = pre @ concat (map encode_label (l # ls)) @ 0 # post"
  have l: "valid_label l" "to_ascii_lowercase l = l" "length l \<le> 63" "l \<noteq> []"
    using Cons.prems by (auto simp: valid_label_def)
  note b = length_byte [OF l(3)]
  have m: "m = (pre @ encode_label l) @ concat (map encode_label ls) @ 0 # post" by (simp add: m_def)
  have at: "get_at m (length pre) = Some (of_nat (length l))"
    by (simp add: get_at_def encode_label_def m_def)
  have range: "get_range m (length pre + 1) (length pre + 1 + length l) = Some (bytes_of_str l)"
    by (simp add: get_range_def encode_label_def m_def)
  have len: "length (join_with ''.'' (acc @ [l])) \<le> MAX_DOMAIN_LEN"
  proof (cases "ls = []")
    case True
    with Cons.prems(3) show ?thesis by simp
  next
    case False
    have "length (join_with ''.'' ((acc @ [l]) @ ls)) \<le> MAX_DOMAIN_LEN" using Cons.prems(3) by simp
    then show ?thesis using False by (subst (asm) join_with_app) simp_all
  qed
  have IH: "read_name_loop m (length pre + 1 + length l) None 0 (acc @ [l])
      (length (join_with ''.'' (acc @ [l]))) =
      Inr ((acc @ [l]) @ ls, length pre + 1 + length l + length (concat (map encode_label ls)) + 1)"
    using Cons.IH [of "acc @ [l]" "pre @ encode_label l"] Cons.prems unfolding m
    by (simp add: length_encode_label)
  have nz: "(of_nat (length l) :: u8) \<noteq> 0" using b(2) l(4) by (metis length_0_conv unsigned_0)
  have bounds: "MAX_DOMAIN_LEN \<le> U64_MAX" "length pre + 1 + length l \<le> U64_MAX"
    using Cons.prems(4) by (simp_all add: MAX_DOMAIN_LEN_def U64_MAX_def length_encode_label)
  have "read_name_loop m (length pre) None 0 acc (length (join_with ''.'' acc)) =
      read_name_loop m (length pre + 1 + length l) None 0 (acc @ [l]) (length (join_with ''.'' (acc @ [l])))"
    using at range len l nz b bounds
    by (simp add: read_name_loop.simps [of m "length pre"] checked_add_def valid_label_dns_ok length_join_snoc)
  then show ?case unfolding IH unfolding m_def by (simp add: length_encode_label)
qed

text \<open>
  The query parser is the inverse of the wire format: the standard query of a
  normalized domain for its A or AAAA records parses back to its identifier and name.
\<close>

theorem dns_query_roundtrip:
  assumes "normalize_domain name = Some name" and "query_type = 1 \<or> query_type = 28"
  shows "parse_dns_query (dns_query_message id_hi id_lo name query_type) =
    Ok \<lparr>dq_id = be16 id_hi id_lo, dq_name = name\<rparr>"
proof -
  let ?ls = "split_on CHR ''.'' name"
  let ?pre = "[id_hi, id_lo, 1, 0, 0, 1, 0, 0, 0, 0, 0, 0]" and ?post = "[0, query_type, 0, 1]"
  define body where "body = concat (map encode_label ?ls)"
  define m where "m = ?pre @ body @ 0 # ?post"
  have valid: "list_all valid_label ?ls" and low: "to_ascii_lowercase name = name" and ne: "name \<noteq> []"
    and len: "length name \<le> MAX_DOMAIN_LEN"
    using assms(1) by (auto simp: normalize_domain_Some)
  have "map to_ascii_lowercase ?ls = ?ls"
    using map_split_on [of lower_char "CHR ''.''" name] low lower_dot by simp
  then have lows: "list_all (\<lambda>l. to_ascii_lowercase l = l) ?ls"
    by (simp add: list_all_iff map_eq_conv [of _ _ id, simplified])
  have body: "length body = length name + 1"
    using length_join_with [of ?ls "CHR ''.''"] split_on_ne [of "CHR ''.''" name]
    by (simp add: body_def length_encode_labels join_split_on)
  have mlen: "length m = length body + 17" "length m \<le> MAX_DNS_MESSAGE" "length m \<le> U64_MAX"
    using len by (simp_all add: m_def body MAX_DOMAIN_LEN_def MAX_DNS_MESSAGE_def U64_MAX_def)
  have "read_name_loop m (length ?pre) None 0 [] (length (join_with ''.'' [])) =
      Inr ([] @ ?ls, length ?pre + length body + 1)"
    unfolding m_def body_def
    by (rule read_encoded_labels [OF valid lows])
      (use len mlen(3) in \<open>simp_all add: join_split_on m_def body_def\<close>)
  moreover have "length ?pre = 12" by simp
  ultimately have "read_name_loop m 12 None 0 [] 0 = Inr (?ls, 12 + length body + 1)"
    by (simp only: join_with.simps list.size(3) append_Nil)
  then have name: "read_dns_name m 12 = Inr (name, 13 + length body)"
    by (simp add: read_dns_name_def join_split_on)
  have "get_range m (13 + length body) (17 + length body) = Some ?post"
  proof -
    have "m = (?pre @ body @ [0]) @ ?post @ []" "length (?pre @ body @ [0]) = 13 + length body"
      "13 + length body + length ?post = 17 + length body"
      by (simp_all add: m_def)
    then show ?thesis using get_range_middle [of "?pre @ body @ [0]" ?post "[]"] by metis
  qed
  then have tail: "read_dns_question_tail m (13 + length body) = Inr ((be16 0 query_type, be16 0 1), 17 + length body)"
    using mlen by (simp add: read_dns_question_tail_def checked_add_def)
  have header: "parse_dns_header m = Inr \<lparr>dh_id = be16 id_hi id_lo, dh_flags = be16 1 0,
      dh_question_count = be16 0 1, dh_answer_count = be16 0 0, dh_authority_count = be16 0 0,
      dh_additional_count = be16 0 0\<rparr>"
    using mlen by (simp add: parse_dns_header_def m_def)
  have wire: "be16 0 1 = 1" "be16 0 0 = 0" "be16 0 28 = 28" "be16 1 0 AND 0x8000 = 0" "be16 1 0 AND 0x7800 = 0"
    by code_simp+
  have "parse_dns_query m = Inr \<lparr>dq_id = be16 id_hi id_lo, dq_name = name\<rparr>"
    using assms(2) ne mlen(1) by (auto simp: parse_dns_query_def header name tail wire)
  then show ?thesis
    by (simp add: m_def body_def dns_query_message_def encode_dns_name_def)
qed

theorem dns_query_roundtrip_witness:
  "parse_dns_query (dns_query_message 0x12 0x34 ''api.example.com'' 28) =
    Ok \<lparr>dq_id = be16 0x12 0x34, dq_name = ''api.example.com''\<rparr>"
proof (rule dns_query_roundtrip)
  show "normalize_domain ''api.example.com'' = Some ''api.example.com''" by code_simp
qed simp

end
