(* ===== verification/Policy_Tls.thy ===== *)
theory Policy_Tls
  imports Policy_Packet
begin

text \<open>
  The TLS part of \<^verbatim>\<open>libkrun/policy.rs\<close>: reassembly of the first bytes of a stream and the
  \<^verbatim>\<open>ClientHello\<close> parser. \<^verbatim>\<open>str::from_utf8\<close> on a server name is not modelled on its own: a name
  that is not UTF-8 has a byte above 127, which \<^const>\<open>normalize_domain\<close> refuses with the same result.
\<close>

record TlsFlow =
  tf_initial_sequence :: u32
  tf_bytes :: bytes
  tf_expires :: duration

datatype TlsParse =
  NeedMore
| ClientHello "string option" bool

section \<open>The parser\<close>

definition read_tls_u16 :: "bytes \<Rightarrow> nat \<Rightarrow> (nat \<times> nat, DenyReason) result" where
  "read_tls_u16 bs cursor =
     and_then (ok_or (checked_add cursor 2) TlsInvalid) (\<lambda>end_pos.
     and_then (ok_or (get_range bs cursor end_pos) TlsInvalid) (\<lambda>v.
     Ok (unat (be16 (v ! 0) (v ! 1)), end_pos)))"

text \<open>\<^verbatim>\<open>checked_add(\<dots>).filter(end <= limit)\<close>.\<close>

definition advance :: "nat \<Rightarrow> nat \<Rightarrow> nat \<Rightarrow> (nat, DenyReason) result" where
  "advance cursor n limit =
     and_then (ok_or (checked_add cursor n) TlsInvalid) (\<lambda>end_pos.
       if end_pos \<le> limit then Ok end_pos else Err TlsInvalid)"

lemma read_tls_u16_Inr:
  "read_tls_u16 bs cursor = Inr (v, c) \<Longrightarrow> c = cursor + 2 \<and> c \<le> length bs"
  by (auto simp: read_tls_u16_def and_then_Inr_iff ok_or_Inr_iff get_range_Some)

lemma advance_Inr: "advance cursor n limit = Inr e \<longleftrightarrow> e = cursor + n \<and> e \<le> limit \<and> e \<le> U64_MAX"
  by (auto simp: advance_def and_then_Inr_iff ok_or_Inr_iff split: if_splits)

function sni_loop :: "bytes \<Rightarrow> nat \<Rightarrow> string option \<Rightarrow> (string option, DenyReason) result" where
  "sni_loop ext cursor host =
     (if cursor < length ext then
        and_then (ok_or (get_at ext cursor) TlsInvalid) (\<lambda>name_type.
        and_then (read_tls_u16 ext (cursor + 1)) (\<lambda>(name_len, cursor2).
        and_then (advance cursor2 name_len (length ext)) (\<lambda>end_pos.
          if name_type = 0 then
            if host \<noteq> None then Err TlsInvalid
            else
              and_then (ok_or (normalize_domain (str_of_bytes (subslice ext cursor2 end_pos))) TlsInvalid)
                (\<lambda>name. sni_loop ext end_pos (Some name))
          else sni_loop ext end_pos host)))
      else Ok host)"
  by auto
termination
  by (relation "measure (\<lambda>(ext, cursor, host). length ext - cursor)")
    (auto simp: advance_Inr dest!: read_tls_u16_Inr)

declare sni_loop.simps [simp del]

definition parse_sni_extension :: "bytes \<Rightarrow> (string option, DenyReason) result" where
  "parse_sni_extension ext =
     (if length ext < 2 then Err TlsInvalid
      else if unat (be16 (ext ! 0) (ext ! 1)) \<noteq> length ext - 2 then Err TlsInvalid
      else sni_loop ext 2 None)"

function extension_loop ::
  "bytes \<Rightarrow> nat \<Rightarrow> nat \<Rightarrow> string option option \<Rightarrow> bool \<Rightarrow> (TlsParse, DenyReason) result" where
  "extension_loop body extensions_end cursor sni ech =
     (if cursor < extensions_end then
        and_then (read_tls_u16 body cursor) (\<lambda>(extension_type, cursor1).
        and_then (read_tls_u16 body cursor1) (\<lambda>(item_len, cursor2).
        and_then (advance cursor2 item_len extensions_end) (\<lambda>end_pos.
          if extension_type = 0 then
            if sni \<noteq> None then Err TlsInvalid
            else
              and_then (parse_sni_extension (subslice body cursor2 end_pos)) (\<lambda>host.
                extension_loop body extensions_end end_pos (Some host) ech)
          else if extension_type = 0xfe0d \<or> extension_type = 0xffce then
            extension_loop body extensions_end end_pos sni True
          else extension_loop body extensions_end end_pos sni ech)))
      else Ok (ClientHello (Option.bind sni id) ech))"
  by auto
termination
  by (relation "measure (\<lambda>(body, extensions_end, cursor, sni, ech). extensions_end - cursor)")
    (auto simp: advance_Inr dest!: read_tls_u16_Inr)

declare extension_loop.simps [simp del]

definition parse_client_hello_body :: "bytes \<Rightarrow> (TlsParse, DenyReason) result" where
  "parse_client_hello_body body =
     (if length body < 34 \<or> body ! 0 \<noteq> 3 then Err TlsInvalid
      else
        and_then (ok_or (get_at body 34) TlsInvalid) (\<lambda>session_len.
        and_then (ok_or (checked_add 34 (1 + unat session_len)) TlsInvalid) (\<lambda>cursor.
        and_then (read_tls_u16 body cursor) (\<lambda>(cipher_len, cursor).
          if cipher_len < 2 \<or> cipher_len mod 2 \<noteq> 0 then Err TlsInvalid
          else
            and_then (advance cursor cipher_len (length body)) (\<lambda>cursor.
            and_then (ok_or (get_at body cursor) TlsInvalid) (\<lambda>compression_len.
            and_then (advance cursor (1 + unat compression_len) (length body)) (\<lambda>cursor.
            and_then (read_tls_u16 body cursor) (\<lambda>(all_extensions_len, cursor).
            and_then (ok_or (checked_add cursor all_extensions_len) TlsInvalid) (\<lambda>extensions_end.
              if extensions_end \<noteq> length body then Err TlsInvalid
              else extension_loop body extensions_end cursor None False)))))))))"

definition hello_length :: "bytes \<Rightarrow> nat" where
  "hello_length hs = unat (hs ! 1) * 65536 + unat (hs ! 2) * 256 + unat (hs ! 3)"

text \<open>What the handshake bytes collected so far decide: \<^const>\<open>None\<close> when more records are needed.\<close>

definition handshake_verdict :: "bytes \<Rightarrow> (TlsParse, DenyReason) result option" where
  "handshake_verdict hs =
     (if length hs \<ge> 4 then
        if hs ! 0 \<noteq> 1 then Some (Err TlsInvalid)
        else if hello_length hs > MAX_TLS_BUFFER_HARD - 4 then Some (Err TlsInvalid)
        else if length hs \<ge> 4 + hello_length hs then
          Some (parse_client_hello_body (subslice hs 4 (4 + hello_length hs)))
        else None
      else None)"

function tls_record_loop :: "bytes \<Rightarrow> nat \<Rightarrow> bytes \<Rightarrow> (TlsParse, DenyReason) result" where
  "tls_record_loop stream offset handshake =
     and_then (ok_or (checked_add offset 5) TlsInvalid) (\<lambda>header_end.
       if length stream < header_end then Ok NeedMore
       else if stream ! offset \<noteq> 22 \<or> stream ! (offset + 1) \<noteq> 3 then Err TlsInvalid
       else
         let record_len = unat (be16 (stream ! (offset + 3)) (stream ! (offset + 4))) in
         if record_len = 0 \<or> record_len > MAX_TLS_RECORD then Err TlsInvalid
         else
           and_then (ok_or (checked_add header_end record_len) TlsInvalid) (\<lambda>record_end.
             if length stream < record_end then Ok NeedMore
             else
               let handshake' = handshake @ subslice stream header_end record_end in
               (case handshake_verdict handshake' of
                  Some verdict \<Rightarrow> verdict
                | None \<Rightarrow>
                    if record_end = length stream then Ok NeedMore
                    else tls_record_loop stream record_end handshake')))"
  by auto
termination
  by (relation "measure (\<lambda>(stream, offset, handshake). length stream - offset)")
    (auto simp: ok_or_Inr_iff)

declare tls_record_loop.simps [simp del]

definition parse_tls_client_hello :: "bytes \<Rightarrow> (TlsParse, DenyReason) result" where
  "parse_tls_client_hello stream = tls_record_loop stream 0 []"

section \<open>Reassembly\<close>

text \<open>
  \<^verbatim>\<open>append_tls_segment\<close>: the segment is placed at its distance from the first payload byte; bytes
  that overlap what is held must agree with it. On an error the flow is left as it was.
\<close>

definition append_tls_segment ::
  "TlsFlow \<Rightarrow> TcpPacket \<Rightarrow> nat \<Rightarrow> nat \<Rightarrow> TlsFlow \<times> (TlsParse, DenyReason) result" where
  "append_tls_segment flow tcp per_flow_limit total_remaining =
     (if tcp_payload tcp = [] then (flow, Ok NeedMore)
      else
        let payload_sequence = tcp_sequence tcp + (if tcp_syn tcp then 1 else 0);
            offset = unat (payload_sequence - tf_initial_sequence flow);
            held = length (tf_bytes flow) in
        if offset > held then (flow, Err OutOfOrder)
        else
          let checked = min (held - offset) (length (tcp_payload tcp)) in
          if subslice (tf_bytes flow) offset (offset + checked) \<noteq> take checked (tcp_payload tcp) then
            (flow, Err OutOfOrder)
          else
            let new_bytes = drop checked (tcp_payload tcp) in
            (case checked_add held (length new_bytes) of
               None \<Rightarrow> (flow, Err StateLimit)
             | Some new_len \<Rightarrow>
                 if new_len > per_flow_limit \<or> length new_bytes > total_remaining then (flow, Err StateLimit)
                 else
                   let flow' = flow\<lparr>tf_bytes := tf_bytes flow @ new_bytes\<rparr> in
                   (flow', parse_tls_client_hello (tf_bytes flow'))))"

section \<open>Properties of the parser\<close>

lemma sni_loop_normal:
  assumes "sni_loop ext cursor host = Inr (Some name)"
    and "\<And>h. host = Some h \<Longrightarrow> normalize_domain h = Some h"
  shows "normalize_domain name = Some name"
  using assms
proof (induction ext cursor host rule: sni_loop.induct)
  case (1 ext cursor host)
  show ?case
  proof (cases "cursor < length ext")
    case False
    with 1 show ?thesis by (simp add: sni_loop.simps [of ext cursor])
  next
    case True
    then obtain nt n c2 e where steps: "ok_or (get_at ext cursor) TlsInvalid = Inr nt"
      "read_tls_u16 ext (cursor + 1) = Inr (n, c2)" "advance c2 n (length ext) = Inr e"
      and r: "(if nt = 0 then if host \<noteq> None then Err TlsInvalid
          else and_then (ok_or (normalize_domain (str_of_bytes (subslice ext c2 e))) TlsInvalid)
            (\<lambda>name. sni_loop ext e (Some name)) else sni_loop ext e host) = Inr (Some name)"
      using "1.prems"(1) unfolding sni_loop.simps [of ext cursor]
      by (auto simp: and_then_Inr_iff split: prod.splits)
    show ?thesis
    proof (cases "nt = 0")
      case nt: True
      with r obtain h where h: "normalize_domain (str_of_bytes (subslice ext c2 e)) = Some h"
        "sni_loop ext e (Some h) = Inr (Some name)" and none: "host = None"
        by (auto simp: and_then_Inr_iff ok_or_Inr_iff split: if_splits)
      have "ok_or (normalize_domain (str_of_bytes (subslice ext c2 e))) TlsInvalid = Inr h"
        using h(1) by (simp add: ok_or_def)
      from "1.IH"(1) [OF True steps(1,2) refl steps(3) nt _ this h(2)] none normalize_domain_idem(1) [OF h(1)]
      show ?thesis by auto
    next
      case nt: False
      with r have "sni_loop ext e host = Inr (Some name)" by simp
      from "1.IH"(2) [OF True steps(1,2) refl steps(3) nt this] "1.prems"(2) show ?thesis by blast
    qed
  qed
qed

lemma parse_sni_normal:
  "parse_sni_extension ext = Inr (Some name) \<Longrightarrow> normalize_domain name = Some name"
  by (rule sni_loop_normal [of ext 2 None]) (auto simp: parse_sni_extension_def split: if_splits)

lemma extension_loop_normal:
  assumes "extension_loop body extensions_end cursor sni ech = Inr (ClientHello (Some name) e)"
    and "\<And>h. sni = Some (Some h) \<Longrightarrow> normalize_domain h = Some h"
  shows "normalize_domain name = Some name"
  using assms
proof (induction body extensions_end cursor sni ech rule: extension_loop.induct)
  case (1 body extensions_end cursor sni ech)
  show ?case
  proof (cases "cursor < extensions_end")
    case False
    with 1 show ?thesis
      by (cases sni) (auto simp: extension_loop.simps [of body extensions_end cursor])
  next
    case True
    then obtain t c1 n c2 p where steps: "read_tls_u16 body cursor = Inr (t, c1)"
      "read_tls_u16 body c1 = Inr (n, c2)" "advance c2 n extensions_end = Inr p"
      and r: "(if t = 0 then if sni \<noteq> None then Err TlsInvalid
          else and_then (parse_sni_extension (subslice body c2 p))
            (\<lambda>host. extension_loop body extensions_end p (Some host) ech)
        else if t = 0xfe0d \<or> t = 0xffce then extension_loop body extensions_end p sni True
        else extension_loop body extensions_end p sni ech) = Inr (ClientHello (Some name) e)"
      using "1.prems"(1) unfolding extension_loop.simps [of body extensions_end cursor]
      by (auto simp: and_then_Inr_iff split: prod.splits)
    note IH = "1.IH"(1) [OF True steps(1) refl steps(2) refl steps(3)]
      "1.IH"(2,3) [OF True steps(1) refl steps(2) refl steps(3)]
    show ?thesis
    proof (cases "t = 0")
      case t: True
      with r obtain h where h: "parse_sni_extension (subslice body c2 p) = Inr h"
        "extension_loop body extensions_end p (Some h) ech = Inr (ClientHello (Some name) e)"
        and none: "sni = None"
        by (auto simp: and_then_Inr_iff split: if_splits)
      from IH(1) [OF t _ h(1,2)] none h(1) show ?thesis by (auto dest: parse_sni_normal)
    next
      case t: False
      show ?thesis
      proof (cases "t = 0xfe0d \<or> t = 0xffce")
        case u: True
        with r t have "extension_loop body extensions_end p sni True = Inr (ClientHello (Some name) e)" by simp
        from IH(2) [OF t u this] "1.prems"(2) show ?thesis by blast
      next
        case u: False
        with r t have "extension_loop body extensions_end p sni ech = Inr (ClientHello (Some name) e)" by simp
        from IH(3) [OF t u this] "1.prems"(2) show ?thesis by blast
      qed
    qed
  qed
qed

lemma body_normal:
  assumes "parse_client_hello_body body = Inr (ClientHello (Some name) e)"
  shows "normalize_domain name = Some name"
proof -
  obtain c where "extension_loop body (length body) c None False = Inr (ClientHello (Some name) e)"
    using assms unfolding parse_client_hello_body_def
    by (auto simp: and_then_Inr_iff split: if_splits prod.splits)
  then show ?thesis by (rule extension_loop_normal) simp
qed

lemma body_not_need_more: "parse_client_hello_body body \<noteq> Inr NeedMore"
proof -
  have "extension_loop b x c s e \<noteq> Inr NeedMore" for b x c s e
  proof (induction b x c s e rule: extension_loop.induct)
    case (1 body extensions_end cursor sni ech)
    then show ?case
      unfolding extension_loop.simps [of body extensions_end cursor]
      by (auto simp: and_then_Inr_iff split: prod.splits if_splits)
  qed
  then show ?thesis
    unfolding parse_client_hello_body_def by (auto simp: and_then_Inr_iff split: if_splits prod.splits)
qed

lemma verdict_cases:
  assumes "handshake_verdict hs = Some v"
  shows "v \<noteq> Inr NeedMore" and "v = Inr (ClientHello (Some name) e) \<Longrightarrow> normalize_domain name = Some name"
  using assms body_not_need_more body_normal
  by (auto simp: handshake_verdict_def split: if_splits)

text \<open>One round of the record loop: the ways it stops, and how it goes on.\<close>

abbreviation record_len_at :: "bytes \<Rightarrow> nat \<Rightarrow> nat" where
  "record_len_at stream offset \<equiv> unat (be16 (stream ! (offset + 3)) (stream ! (offset + 4)))"

abbreviation record_end_at :: "bytes \<Rightarrow> nat \<Rightarrow> nat" where
  "record_end_at stream offset \<equiv> offset + 5 + record_len_at stream offset"

lemma record_loop_need_more:
  assumes "offset + 5 \<le> U64_MAX" and "length stream < offset + 5"
  shows "tls_record_loop stream offset hs = Inr NeedMore"
  using assms by (simp add: tls_record_loop.simps [of stream offset] checked_add_def)

lemma record_loop_overflow:
  assumes "\<not> offset + 5 \<le> U64_MAX"
  shows "tls_record_loop stream offset hs = Inl TlsInvalid"
  using assms by (simp add: tls_record_loop.simps [of stream offset] checked_add_def)

lemma record_loop_bad:
  assumes "offset + 5 \<le> U64_MAX" and "offset + 5 \<le> length stream"
    and "stream ! offset \<noteq> 22 \<or> stream ! (offset + 1) \<noteq> 3 \<or> record_len_at stream offset = 0 \<or>
      MAX_TLS_RECORD < record_len_at stream offset \<or> \<not> record_end_at stream offset \<le> U64_MAX"
  shows "tls_record_loop stream offset hs = Inl TlsInvalid"
  using assms(3) unfolding tls_record_loop.simps [of stream offset] Let_def
  by (elim disjE) (use assms(1,2) in \<open>simp_all add: checked_add_def\<close>)

lemma record_loop_good:
  assumes "offset + 5 \<le> U64_MAX" and "offset + 5 \<le> length stream"
    and "stream ! offset = 22" "stream ! (offset + 1) = 3" "record_len_at stream offset \<noteq> 0"
      "record_len_at stream offset \<le> MAX_TLS_RECORD" "record_end_at stream offset \<le> U64_MAX"
  shows "tls_record_loop stream offset hs =
    (if length stream < record_end_at stream offset then Ok NeedMore
     else
       case handshake_verdict (hs @ subslice stream (offset + 5) (record_end_at stream offset)) of
         Some v \<Rightarrow> v
       | None \<Rightarrow>
           if record_end_at stream offset = length stream then Ok NeedMore
           else tls_record_loop stream (record_end_at stream offset)
                  (hs @ subslice stream (offset + 5) (record_end_at stream offset)))"
  unfolding tls_record_loop.simps [of stream offset] Let_def
  using assms by (simp add: checked_add_def)

lemma record_loop_stable:
  assumes "tls_record_loop stream offset hs \<noteq> Inr NeedMore"
  shows "tls_record_loop (stream @ later) offset hs = tls_record_loop stream offset hs"
  using assms
proof (induction stream offset hs rule: tls_record_loop.induct)
  case (1 stream offset hs)
  let ?e = "record_end_at stream offset"
  let ?hs = "hs @ subslice stream (offset + 5) ?e"
  show ?case
  proof (cases "offset + 5 \<le> U64_MAX")
    case False
    then show ?thesis by (simp add: record_loop_overflow)
  next
    case fits: True
    with "1.prems" have hdr: "offset + 5 \<le> length stream"
      using record_loop_need_more [of offset stream hs] by linarith
    then have same: "(stream @ later) ! offset = stream ! offset"
      "(stream @ later) ! (offset + 1) = stream ! (offset + 1)"
      "record_len_at (stream @ later) offset = record_len_at stream offset"
      by (simp_all add: nth_append)
    show ?thesis
    proof (cases "stream ! offset \<noteq> 22 \<or> stream ! (offset + 1) \<noteq> 3 \<or> record_len_at stream offset = 0 \<or>
      MAX_TLS_RECORD < record_len_at stream offset \<or> \<not> ?e \<le> U64_MAX")
      case True
      then have "tls_record_loop (stream @ later) offset hs = Inl TlsInvalid"
        using hdr by (intro record_loop_bad) (simp_all only: same fits, simp)
      then show ?thesis using record_loop_bad [OF fits hdr True] by simp
    next
      case False
      note good = record_loop_good [OF fits hdr]
      have good1: "tls_record_loop stream offset hs =
        (if length stream < ?e then Ok NeedMore
         else case handshake_verdict ?hs of Some v \<Rightarrow> v
           | None \<Rightarrow> if ?e = length stream then Ok NeedMore else tls_record_loop stream ?e ?hs)"
        using good False by simp
      with "1.prems" have len: "?e \<le> length stream" by (simp add: not_less split: if_splits)
      have sub: "subslice (stream @ later) (offset + 5) ?e = subslice stream (offset + 5) ?e"
        using len by (simp add: subslice_def)
      have good2: "tls_record_loop (stream @ later) offset hs =
        (case handshake_verdict ?hs of Some v \<Rightarrow> v
           | None \<Rightarrow> if ?e = length (stream @ later) then Ok NeedMore
                     else tls_record_loop (stream @ later) ?e ?hs)"
        using record_loop_good [of offset "stream @ later" hs] fits hdr False len
        unfolding same sub by simp
      show ?thesis
      proof (cases "handshake_verdict ?hs")
        case (Some v)
        with len show ?thesis unfolding good1 good2 by simp
      next
        case None
        with good1 "1.prems" len have nend: "?e \<noteq> length stream"
          and rec: "tls_record_loop stream ?e ?hs \<noteq> Inr NeedMore" by (auto split: if_splits)
        have "tls_record_loop (stream @ later) ?e ?hs = tls_record_loop stream ?e ?hs"
          by (rule "1.IH" [OF _ _ _ refl _ _ _ refl None]) (use fits hdr False len nend rec in \<open>auto simp: checked_add_def\<close>)
        with None len nend show ?thesis unfolding good1 good2 by simp
      qed
    qed
  qed
qed


text \<open>
  A verdict is final: once the bytes at the start of a stream are recognized as a
  complete ClientHello or refused, no later bytes of the stream change it.
\<close>

theorem client_hello_verdict_final:
  assumes "parse_tls_client_hello stream \<noteq> Ok NeedMore"
  shows "parse_tls_client_hello (stream @ later) = parse_tls_client_hello stream"
  using assms unfolding parse_tls_client_hello_def by (rule record_loop_stable)

lemma record_loop_normal:
  assumes "tls_record_loop stream offset hs = Inr (ClientHello (Some name) e)"
  shows "normalize_domain name = Some name"
  using assms
proof (induction stream offset hs rule: tls_record_loop.induct)
  case (1 stream offset hs)
  then show ?case
    unfolding tls_record_loop.simps [of stream offset] Let_def
    by (auto simp: and_then_Inr_iff dest: verdict_cases(2) split: if_splits option.splits)
qed

lemma client_hello_sni_normal:
  "parse_tls_client_hello stream = Inr (ClientHello (Some name) e) \<Longrightarrow> normalize_domain name = Some name"
  unfolding parse_tls_client_hello_def by (rule record_loop_normal)

text \<open>A ClientHello of TLS 1.3 shape for the server name \<open>a.io\<close>, in one record.\<close>

definition hello_example :: bytes where
  "hello_example =
     [22, 3, 1, 0, 60, 1, 0, 0, 56, 3, 3] @ replicate 32 7 @ [0, 0, 2, 0x13, 1, 1, 0, 0, 13,
      0, 0, 0, 9, 0, 7, 0, 0, 4, 97, 46, 105, 111]"

theorem client_hello_verdict_final_witness:
  "parse_tls_client_hello (hello_example @ [23, 3, 3]) = Ok (ClientHello (Some ''a.io'') False)"
proof -
  have v: "parse_tls_client_hello hello_example = Ok (ClientHello (Some ''a.io'') False)" by code_simp
  then show ?thesis using client_hello_verdict_final [of hello_example "[23, 3, 3]"] by simp
qed

section \<open>Reassembly is an overlay of consistent bytes\<close>

definition segment_offset :: "TlsFlow \<Rightarrow> TcpPacket \<Rightarrow> nat" where
  "segment_offset flow tcp =
     unat (tcp_sequence tcp + (if tcp_syn tcp then 1 else 0) - tf_initial_sequence flow)"

definition consistent_at :: "bytes \<Rightarrow> nat \<Rightarrow> bytes \<Rightarrow> bool" where
  "consistent_at held offset payload \<longleftrightarrow>
     offset \<le> length held \<and>
     (\<forall>i < length payload. offset + i < length held \<longrightarrow> held ! (offset + i) = payload ! i)"

definition overlay :: "bytes \<Rightarrow> nat \<Rightarrow> bytes \<Rightarrow> bytes" where
  "overlay held offset payload = take offset held @ payload @ drop (offset + length payload) held"

lemma overlap_agrees:
  assumes "offset \<le> length held"
  shows "subslice held offset (offset + min (length held - offset) (length payload)) =
      take (min (length held - offset) (length payload)) payload \<longleftrightarrow> consistent_at held offset payload"
    (is "?l \<longleftrightarrow> ?r")
proof
  assume l: ?l
  have "held ! (offset + i) = payload ! i" if "i < length payload" "offset + i < length held" for i
  proof -
    have i: "i < min (length held - offset) (length payload)" using that by simp
    have "subslice held offset (offset + min (length held - offset) (length payload)) ! i = held ! (offset + i)"
      using i assms by (simp add: subslice_def)
    with l i show ?thesis by simp
  qed
  with assms show ?r by (simp add: consistent_at_def)
next
  assume r: ?r
  show ?l
    by (rule nth_equalityI) (use r in \<open>auto simp: subslice_def consistent_at_def\<close>)
qed

lemma overlay_append:
  assumes "consistent_at held offset payload"
  shows "held @ drop (min (length held - offset) (length payload)) payload = overlay held offset payload"
proof (rule nth_equalityI)
  have off: "offset \<le> length held" using assms by (simp add: consistent_at_def)
  show len: "length (held @ drop (min (length held - offset) (length payload)) payload) =
      length (overlay held offset payload)"
    using off by (simp add: overlay_def)
  fix i assume i: "i < length (held @ drop (min (length held - offset) (length payload)) payload)"
  consider "i < offset" | "offset \<le> i" "i < offset + length payload" "i < length held"
    | "offset \<le> i" "i < offset + length payload" "length held \<le> i"
    | "offset + length payload \<le> i" by linarith
  then show "(held @ drop (min (length held - offset) (length payload)) payload) ! i = overlay held offset payload ! i"
  proof cases
    case 1
    then show ?thesis using off by (simp add: overlay_def nth_append)
  next
    case 2
    then have "held ! (offset + (i - offset)) = payload ! (i - offset)"
      using assms unfolding consistent_at_def by (metis add_diff_inverse_nat not_le nat_add_left_cancel_less)
    moreover have "i - offset < length payload" using 2 by simp
    ultimately show ?thesis using 2 off by (simp add: overlay_def nth_append)
  next
    case 3
    then have "min (length held - offset) (length payload) = length held - offset" by simp
    with 3 i off show ?thesis by (simp add: overlay_def nth_append)
  next
    case 4
    then have "i < length held" using i off by auto
    moreover have "\<not> i - offset < length payload" using 4 by simp
    ultimately show ?thesis using 4 off by (simp add: overlay_def nth_append)
  qed
qed

text \<open>
  A segment is accepted exactly when it leaves no gap and agrees with every byte it
  overlaps, within both budgets; the flow then holds the old bytes overlaid with the segment, and
  the verdict is that of the whole. Otherwise the flow is unchanged.
\<close>

theorem append_tls_segment_overlay:
  assumes "tcp_payload tcp \<noteq> []" and "length (tf_bytes flow) + length (tcp_payload tcp) \<le> U64_MAX"
  shows "append_tls_segment flow tcp per_flow_limit total_remaining =
    (let held = tf_bytes flow; offset = segment_offset flow tcp; payload = tcp_payload tcp;
         whole = overlay held offset payload in
     if \<not> consistent_at held offset payload then (flow, Err OutOfOrder)
     else if length whole > per_flow_limit \<or> length whole - length held > total_remaining then
       (flow, Err StateLimit)
     else (flow\<lparr>tf_bytes := whole\<rparr>, parse_tls_client_hello whole))"
proof -
  let ?held = "tf_bytes flow" and ?off = "segment_offset flow tcp" and ?p = "tcp_payload tcp"
  define checked where "checked = min (length ?held - ?off) (length ?p)"
  define d where "d = drop checked ?p"
  have fits: "checked_add (length ?held) (length d) = Some (length ?held + length d)"
    using assms(2) by (simp add: checked_add_def d_def)
  have unf: "append_tls_segment flow tcp per_flow_limit total_remaining =
     (if ?off > length ?held then (flow, Err OutOfOrder)
      else if subslice ?held ?off (?off + checked) \<noteq> take checked ?p then (flow, Err OutOfOrder)
      else if length ?held + length d > per_flow_limit \<or> length d > total_remaining
      then (flow, Err StateLimit)
      else (flow\<lparr>tf_bytes := ?held @ d\<rparr>, parse_tls_client_hello (?held @ d)))"
    using assms(1) unfolding append_tls_segment_def segment_offset_def [symmetric] Let_def
      checked_def [symmetric] d_def [symmetric] by (simp add: fits)
  show ?thesis
  proof (cases "consistent_at ?held ?off ?p")
    case True
    then have off: "?off \<le> length ?held" by (simp add: consistent_at_def)
    have eq: "?held @ d = overlay ?held ?off ?p"
      unfolding d_def checked_def by (rule overlay_append [OF True])
    have sub: "subslice ?held ?off (?off + checked) = take checked ?p"
      using True overlap_agrees [OF off, of ?p] by (simp add: checked_def)
    have len: "length (overlay ?held ?off ?p) = length ?held + length d"
      unfolding eq [symmetric] by (rule length_append)
    show ?thesis
      unfolding unf eq Let_def len using True off sub by simp
  next
    case False
    then have "\<not> ?off \<le> length ?held \<or> subslice ?held ?off (?off + checked) \<noteq> take checked ?p"
      using overlap_agrees [of ?off ?held ?p] by (auto simp: checked_def)
    then show ?thesis unfolding unf Let_def using False by auto
  qed
qed

theorem append_tls_segment_overlay_witness:
  "append_tls_segment \<lparr>tf_initial_sequence = 0xFFFFFFFF, tf_bytes = [22, 3], tf_expires = 0\<rparr>
     \<lparr>tcp_source_port = 1, tcp_destination_port = 443, tcp_sequence = 0, tcp_syn = False, tcp_ack = True,
      tcp_rst = False, tcp_payload = [3, 1]\<rparr> 512 512 =
   (\<lparr>tf_initial_sequence = 0xFFFFFFFF, tf_bytes = [22, 3, 1], tf_expires = 0\<rparr>, Ok NeedMore)"
proof -
  let ?f = "\<lparr>tf_initial_sequence = 0xFFFFFFFF, tf_bytes = [22, 3], tf_expires = 0\<rparr> :: TlsFlow"
  let ?t = "\<lparr>tcp_source_port = 1, tcp_destination_port = 443, tcp_sequence = 0, tcp_syn = False,
    tcp_ack = True, tcp_rst = False, tcp_payload = [3, 1]\<rparr> :: TcpPacket"
  have "length (tf_bytes ?f) + length (tcp_payload ?t) \<le> U64_MAX" by code_simp
  then have *: "append_tls_segment ?f ?t 512 512 =
    (let held = tf_bytes ?f; offset = segment_offset ?f ?t; payload = tcp_payload ?t;
         whole = overlay held offset payload in
     if \<not> consistent_at held offset payload then (?f, Err OutOfOrder)
     else if length whole > 512 \<or> length whole - length held > 512 then (?f, Err StateLimit)
     else (?f\<lparr>tf_bytes := whole\<rparr>, parse_tls_client_hello whole))"
    by (intro append_tls_segment_overlay) simp_all
  have "segment_offset ?f ?t = 1" "overlay [22, 3] 1 [3, 1] = [22, 3, 1 :: u8]"
    "parse_tls_client_hello [22, 3, 1] = Ok NeedMore" by code_simp+
  moreover have "consistent_at [22, 3] 1 [3, 1]" by (auto simp: consistent_at_def less_Suc_eq)
  ultimately show ?thesis unfolding * by simp
qed

end
