(* ===== verification/Policy_Engine.thy ===== *)
theory Policy_Engine
  imports Policy_Packet Policy_Dns Policy_Tls
begin

text \<open>
  The engine of \<^verbatim>\<open>libkrun/policy.rs\<close>: flow, DNS and TLS state and the decision for every
  Ethernet frame. A method that takes \<^verbatim>\<open>&mut self\<close> returns the engine with its decision. The
  three maps of the engine are association lists. \<^verbatim>\<open>max_total_tls_bytes - total_tls_bytes\<close> wraps,
  as in the release build.
\<close>

section \<open>State\<close>

datatype Transport = TransportTcp | TransportUdp

record FlowKey =
  fk_guest_ip :: IpAddr
  fk_guest_port :: u16
  fk_remote_ip :: IpAddr
  fk_remote_port :: u16
  fk_transport :: Transport

datatype FlowState = FlowAllowed duration | PendingTls TlsFlow

definition flow_expires :: "FlowState \<Rightarrow> duration" where
  "flow_expires s = (case s of FlowAllowed e \<Rightarrow> e | PendingTls f \<Rightarrow> tf_expires f)"

record DnsQueryKey =
  qk_server :: IpAddr
  qk_guest :: IpAddr
  qk_guest_port :: u16
  qk_id :: u16

record PendingDns =
  pd_name :: string
  pd_expires :: duration

record DnsBinding =
  db_name :: string
  db_expires :: duration

record PolicyEngine =
  pe_config :: PolicyConfig
  pe_flows :: "(FlowKey, FlowState) assoc"
  pe_pending_dns :: "(DnsQueryKey, PendingDns) assoc"
  pe_dns_bindings :: "(IpAddr, DnsBinding list) assoc"
  pe_total_tls_bytes :: nat

abbreviation limits_of :: "PolicyEngine \<Rightarrow> PolicyLimits" where
  "limits_of e \<equiv> pc_limits (pe_config e)"

definition policy_engine_new :: "PolicyConfig \<Rightarrow> PolicyEngine" where
  "policy_engine_new config =
     \<lparr>pe_config = config, pe_flows = [], pe_pending_dns = [], pe_dns_bindings = [],
      pe_total_tls_bytes = 0\<rparr>"

definition flow_count :: "PolicyEngine \<Rightarrow> nat" where
  "flow_count e = length (pe_flows e)"

definition dns_binding_count :: "PolicyEngine \<Rightarrow> nat" where
  "dns_binding_count e = sum_list (map (length \<circ> snd) (pe_dns_bindings e))"

definition pending_len :: "FlowState \<Rightarrow> nat" where
  "pending_len s = (case s of PendingTls f \<Rightarrow> length (tf_bytes f) | FlowAllowed _ \<Rightarrow> 0)"

definition tls_bytes_held :: "(FlowKey, FlowState) assoc \<Rightarrow> nat" where
  "tls_bytes_held flows = sum_list (map (pending_len \<circ> snd) flows)"

definition expire_bindings :: "duration \<Rightarrow> (IpAddr, DnsBinding list) assoc \<Rightarrow> (IpAddr, DnsBinding list) assoc" where
  "expire_bindings now m =
     filter (\<lambda>(a, bs). bs \<noteq> []) (map (\<lambda>(a, bs). (a, filter (\<lambda>b. db_expires b > now) bs)) m)"

definition expire :: "PolicyEngine \<Rightarrow> duration \<Rightarrow> PolicyEngine" where
  "expire e now =
     (let flows = retain (\<lambda>s. flow_expires s > now) (pe_flows e) in
      e\<lparr>pe_pending_dns := retain (\<lambda>q. pd_expires q > now) (pe_pending_dns e),
        pe_dns_bindings := expire_bindings now (pe_dns_bindings e),
        pe_flows := flows,
        pe_total_tls_bytes := tls_bytes_held flows\<rparr>)"

section \<open>Queries on the state\<close>

definition flow_key ::
  "FrameDirection \<Rightarrow> IpAddr \<Rightarrow> IpAddr \<Rightarrow> u16 \<Rightarrow> u16 \<Rightarrow> Transport \<Rightarrow> FlowKey" where
  "flow_key direction source destination source_port destination_port transport =
     (case direction of
        GuestToNetwork \<Rightarrow>
          \<lparr>fk_guest_ip = source, fk_guest_port = source_port, fk_remote_ip = destination,
           fk_remote_port = destination_port, fk_transport = transport\<rparr>
      | NetworkToGuest \<Rightarrow>
          \<lparr>fk_guest_ip = destination, fk_guest_port = destination_port, fk_remote_ip = source,
           fk_remote_port = source_port, fk_transport = transport\<rparr>)"

definition cidr_matches :: "PolicyEngine \<Rightarrow> IpAddr \<Rightarrow> bool" where
  "cidr_matches e address = list_ex (\<lambda>c. cidr_contains c address) (pc_cidrs (pe_config e))"

definition engine_domain_matches :: "PolicyEngine \<Rightarrow> string \<Rightarrow> bool" where
  "engine_domain_matches e name = list_ex (\<lambda>d. domain_matches d name) (pc_domains (pe_config e))"

definition has_domain_binding :: "PolicyEngine \<Rightarrow> IpAddr \<Rightarrow> bool" where
  "has_domain_binding e address =
     (case map_of (pe_dns_bindings e) address of
        None \<Rightarrow> False
      | Some bindings \<Rightarrow> list_ex (\<lambda>b. engine_domain_matches e (db_name b)) bindings)"

definition binding_matches :: "PolicyEngine \<Rightarrow> IpAddr \<Rightarrow> string \<Rightarrow> bool" where
  "binding_matches e address name =
     (case map_of (pe_dns_bindings e) address of
        None \<Rightarrow> False
      | Some bindings \<Rightarrow> list_ex (\<lambda>b. eq_ignore_ascii_case (db_name b) name) bindings)"

definition is_dhcp :: "PolicyEngine \<Rightarrow> FrameDirection \<Rightarrow> IpAddr \<Rightarrow> IpAddr \<Rightarrow> UdpPacket \<Rightarrow> bool" where
  "is_dhcp e direction source destination udp =
     (case (direction, source, destination) of
        (GuestToNetwork, V4 s, V4 d) \<Rightarrow>
          udp_source_port udp = DHCP_CLIENT_PORT \<and> udp_destination_port udp = DHCP_SERVER_PORT \<and>
          (ipv4_is_unspecified s \<or> ipv4_is_private s) \<and>
          (ipv4_is_broadcast d \<or> d \<in> pc_arp_targets (pe_config e))
      | (NetworkToGuest, V4 s, V4 d) \<Rightarrow>
          udp_source_port udp = DHCP_SERVER_PORT \<and> udp_destination_port udp = DHCP_CLIENT_PORT \<and>
          s \<in> pc_arp_targets (pe_config e) \<and>
          (ipv4_is_broadcast d \<or> ipv4_is_private d)
      | _ \<Rightarrow> False)"

section \<open>Flows\<close>

definition insert_allowed_flow :: "PolicyEngine \<Rightarrow> FlowKey \<Rightarrow> duration \<Rightarrow> PolicyEngine \<times> bool" where
  "insert_allowed_flow e key now =
     (if map_of (pe_flows e) key = None \<and> length (pe_flows e) \<ge> max_flows (limits_of e) then (e, False)
      else
        (e\<lparr>pe_flows := map_insert key
             (FlowAllowed (duration_saturating_add now (flow_ttl (limits_of e)))) (pe_flows e)\<rparr>, True))"

definition allow_reverse :: "PolicyEngine \<Rightarrow> FlowKey \<Rightarrow> duration \<Rightarrow> PolicyEngine \<times> PolicyDecision" where
  "allow_reverse e key now =
     (case map_of (pe_flows e) key of
        None \<Rightarrow> (e, Deny NoReverseFlow)
      | Some (FlowAllowed _) \<Rightarrow>
          (e\<lparr>pe_flows := map_insert key
               (FlowAllowed (duration_saturating_add now (flow_ttl (limits_of e)))) (pe_flows e)\<rparr>,
           Allow ReverseFlow)
      | Some (PendingTls _) \<Rightarrow> (e, Allow DomainHandshake))"

definition admit_flow ::
  "PolicyEngine \<Rightarrow> FlowKey \<Rightarrow> duration \<Rightarrow> AllowReason \<Rightarrow> PolicyEngine \<times> PolicyDecision" where
  "admit_flow e key now reason =
     (case insert_allowed_flow e key now of
        (e', ok) \<Rightarrow> if \<not> ok then (e', Deny StateLimit) else (e', Allow reason))"

definition finish_tls_progress ::
  "PolicyEngine \<Rightarrow> FlowKey \<Rightarrow> TlsFlow \<Rightarrow> (TlsParse, DenyReason) result \<Rightarrow> bool \<Rightarrow> bool \<Rightarrow> duration
     \<Rightarrow> PolicyEngine \<times> PolicyDecision" where
  "finish_tls_progress e key flow progress rst has_outbound_payload now =
     (if rst then (e, Allow DomainHandshake)
      else
        (case progress of
           Inr NeedMore \<Rightarrow>
             (let flow' = flow\<lparr>tf_expires := duration_saturating_add now (pending_tls_ttl (limits_of e))\<rparr> in
              (e\<lparr>pe_flows := map_insert key (PendingTls flow') (pe_flows e),
                 pe_total_tls_bytes := saturating_add (pe_total_tls_bytes e) (length (tf_bytes flow'))\<rparr>,
               if has_outbound_payload then Hold TlsClientHello else Allow DomainHandshake))
         | Inr (ClientHello sni ech) \<Rightarrow>
             (if ech then (e, Deny TlsEch)
              else
                (case sni of
                   None \<Rightarrow> (e, Deny TlsNoSni)
                 | Some name \<Rightarrow>
                     if \<not> engine_domain_matches e name \<or> \<not> binding_matches e (fk_remote_ip key) name then
                       (e, Deny TlsSniMismatch)
                     else
                       (e\<lparr>pe_flows := map_insert key
                            (FlowAllowed (duration_saturating_add now (flow_ttl (limits_of e)))) (pe_flows e)\<rparr>,
                        Allow DomainSni)))
         | Inl reason \<Rightarrow> (e, Deny reason)))"

text \<open>The flow has already been removed from the map when this runs.\<close>

definition evaluate_existing_tcp ::
  "PolicyEngine \<Rightarrow> FlowKey \<Rightarrow> FlowState \<Rightarrow> TcpPacket \<Rightarrow> duration \<Rightarrow> PolicyEngine \<times> PolicyDecision" where
  "evaluate_existing_tcp e key state tcp now =
     (case state of
        FlowAllowed _ \<Rightarrow>
          (if \<not> tcp_rst tcp then
             e\<lparr>pe_flows := map_insert key
                 (FlowAllowed (duration_saturating_add now (flow_ttl (limits_of e)))) (pe_flows e)\<rparr>
           else e, Allow ReverseFlow)
      | PendingTls flow \<Rightarrow>
          (let e1 = e\<lparr>pe_total_tls_bytes := pe_total_tls_bytes e - length (tf_bytes flow)\<rparr> in
           case append_tls_segment flow tcp (max_tls_buffer_per_flow (limits_of e1))
                  (wrapping_sub (max_total_tls_bytes (limits_of e1)) (pe_total_tls_bytes e1)) of
             (flow', progress) \<Rightarrow>
               finish_tls_progress e1 key flow' progress (tcp_rst tcp) (tcp_payload tcp \<noteq> []) now))"

text \<open>The branch of \<^verbatim>\<open>evaluate_tcp\<close> that opens a flow to an address bound to an allowed domain.\<close>

definition start_tls_flow ::
  "PolicyEngine \<Rightarrow> FlowKey \<Rightarrow> TcpPacket \<Rightarrow> duration \<Rightarrow> PolicyEngine \<times> PolicyDecision" where
  "start_tls_flow e key tcp now =
     (if length (pe_flows e) \<ge> max_flows (limits_of e) then (e, Deny StateLimit)
      else
        let flow = \<lparr>tf_initial_sequence = tcp_sequence tcp + (if tcp_syn tcp then 1 else 0),
                    tf_bytes = [],
                    tf_expires = duration_saturating_add now (pending_tls_ttl (limits_of e))\<rparr> in
        case append_tls_segment flow tcp (max_tls_buffer_per_flow (limits_of e))
               (wrapping_sub (max_total_tls_bytes (limits_of e)) (pe_total_tls_bytes e)) of
          (flow', progress) \<Rightarrow>
            finish_tls_progress e key flow' progress (tcp_rst tcp) (tcp_payload tcp \<noteq> []) now)"

definition evaluate_tcp ::
  "PolicyEngine \<Rightarrow> FrameDirection \<Rightarrow> IpAddr \<Rightarrow> IpAddr \<Rightarrow> TcpPacket \<Rightarrow> duration \<Rightarrow> PolicyEngine \<times> PolicyDecision" where
  "evaluate_tcp e direction source destination tcp now =
     (let key = flow_key direction source destination (tcp_source_port tcp) (tcp_destination_port tcp)
                  TransportTcp in
      if direction = NetworkToGuest then
        (case allow_reverse e key now of
           (e', decision) \<Rightarrow>
             if decision \<noteq> Deny NoReverseFlow then (e', decision)
             else if tcp_syn tcp \<and> \<not> tcp_ack tcp \<and>
                     tcp_destination_port tcp \<in> pc_published_tcp_ports (pe_config e') then
               admit_flow e' key now Preview
             else (e', decision))
      else
        (case map_of (pe_flows e) key of
           Some state \<Rightarrow>
             evaluate_existing_tcp (e\<lparr>pe_flows := map_remove key (pe_flows e)\<rparr>) key state tcp now
         | None \<Rightarrow>
             if destination \<in> pc_control_addresses (pe_config e) then (e, Deny ControlEndpoint)
             else if \<not> tcp_syn tcp then (e, Deny NoReverseFlow)
             else
               (case pc_mode (pe_config e) of
                  PolicyUnrestricted \<Rightarrow> admit_flow e key now AllowUnrestricted
                | PolicyAllowlist \<Rightarrow>
                    if cidr_matches e destination then admit_flow e key now AllowCidr
                    else if tcp_destination_port tcp = HTTPS_PORT \<and> has_domain_binding e destination then
                      start_tls_flow e key tcp now
                    else (e, Deny NotAllowlisted)
                | PolicyDisabled \<Rightarrow> (e, Deny DenyDisabled))))"

section \<open>DNS\<close>

definition start_dns_query ::
  "PolicyEngine \<Rightarrow> IpAddr \<Rightarrow> IpAddr \<Rightarrow> UdpPacket \<Rightarrow> duration \<Rightarrow> PolicyEngine \<times> PolicyDecision" where
  "start_dns_query e guest server udp now =
     (case parse_dns_query (udp_payload udp) of
        Inl _ \<Rightarrow> (e, Deny Malformed)
      | Inr query \<Rightarrow>
          if pc_mode (pe_config e) = PolicyAllowlist \<and> \<not> engine_domain_matches e (dq_name query) then
            (e, Deny NotAllowlisted)
          else
            let key = \<lparr>qk_server = server, qk_guest = guest, qk_guest_port = udp_source_port udp,
                       qk_id = dq_id query\<rparr> in
            if map_of (pe_pending_dns e) key = None \<and>
               length (pe_pending_dns e) \<ge> max_pending_dns (limits_of e) then (e, Deny StateLimit)
            else
              (e\<lparr>pe_pending_dns := map_insert key
                   \<lparr>pd_name = dq_name query,
                    pd_expires = duration_saturating_add now (dns_query_ttl (limits_of e))\<rparr>
                   (pe_pending_dns e)\<rparr>,
               Allow DnsInfrastructure))"

primrec refresh_binding :: "string \<Rightarrow> duration \<Rightarrow> DnsBinding list \<Rightarrow> DnsBinding list" where
  "refresh_binding name expires [] = []"
| "refresh_binding name expires (b # bs) =
     (if eq_ignore_ascii_case (db_name b) name then b\<lparr>db_expires := expires\<rparr> # bs
      else b # refresh_binding name expires bs)"

definition insert_dns_binding :: "PolicyEngine \<Rightarrow> IpAddr \<Rightarrow> string \<Rightarrow> duration \<Rightarrow> PolicyEngine" where
  "insert_dns_binding e address name expires =
     (let bindings = (case map_of (pe_dns_bindings e) address of None \<Rightarrow> [] | Some bs \<Rightarrow> bs) in
      if list_ex (\<lambda>b. eq_ignore_ascii_case (db_name b) name) bindings then
        e\<lparr>pe_dns_bindings := map_insert address (refresh_binding name expires bindings) (pe_dns_bindings e)\<rparr>
      else if dns_binding_count e \<ge> max_dns_bindings (limits_of e) then e
      else
        e\<lparr>pe_dns_bindings := map_insert address (bindings @ [\<lparr>db_name = name, db_expires = expires\<rparr>])
            (pe_dns_bindings e)\<rparr>)"

text \<open>One CNAME record of one pass; the flag says whether the pass changed the reachable names.\<close>

definition cname_step ::
  "nat \<Rightarrow> (string, nat) assoc \<times> bool \<Rightarrow> DnsRecord \<Rightarrow> (string, nat) assoc \<times> bool" where
  "cname_step max_ttl_secs st answer =
     (case answer of
        Address _ _ _ \<Rightarrow> st
      | Cname owner target record_ttl \<Rightarrow>
          (case map_of (fst st) owner of
             None \<Rightarrow> st
           | Some parent_ttl \<Rightarrow>
               let ttl = min (min parent_ttl (effective_dns_ttl record_ttl)) max_ttl_secs in
               if ttl = 0 then st
               else
                 (case map_of (fst st) target of
                    Some existing \<Rightarrow>
                      if existing \<le> ttl then st else (map_insert target ttl (fst st), True)
                  | None \<Rightarrow> (map_insert target ttl (fst st), True))))"

primrec cname_walk ::
  "nat \<Rightarrow> nat \<Rightarrow> DnsRecord list \<Rightarrow> (string, nat) assoc \<Rightarrow> (string, nat) assoc" where
  "cname_walk max_ttl_secs 0 answers reachable = reachable"
| "cname_walk max_ttl_secs (Suc rounds) answers reachable =
     (case foldl (cname_step max_ttl_secs) (reachable, False) answers of
        (reachable', changed) \<Rightarrow>
          if \<not> changed then reachable' else cname_walk max_ttl_secs rounds answers reachable')"

definition bind_answer ::
  "nat \<Rightarrow> string \<Rightarrow> (string, nat) assoc \<Rightarrow> duration \<Rightarrow> PolicyEngine \<Rightarrow> DnsRecord \<Rightarrow> PolicyEngine" where
  "bind_answer max_ttl_secs question reachable now e answer =
     (case answer of
        Cname _ _ _ \<Rightarrow> e
      | Address owner address record_ttl \<Rightarrow>
          (case map_of reachable owner of
             None \<Rightarrow> e
           | Some path_ttl \<Rightarrow>
               let ttl = min (min path_ttl (effective_dns_ttl record_ttl)) max_ttl_secs in
               if ttl = 0 then e
               else insert_dns_binding e address question (duration_saturating_add now (from_secs ttl))))"

definition observe_dns_answers ::
  "PolicyEngine \<Rightarrow> string \<Rightarrow> DnsRecord list \<Rightarrow> duration \<Rightarrow> PolicyEngine" where
  "observe_dns_answers e question answers now =
     (let max_ttl_secs = min (as_secs (max_dns_ttl (limits_of e))) (2 ^ 32 - 1);
          reachable = cname_walk max_ttl_secs (length answers) answers [(question, max_ttl_secs)] in
      foldl (bind_answer max_ttl_secs question reachable now) e answers)"

definition finish_dns_response ::
  "PolicyEngine \<Rightarrow> IpAddr \<Rightarrow> IpAddr \<Rightarrow> UdpPacket \<Rightarrow> duration \<Rightarrow> PolicyEngine \<times> PolicyDecision" where
  "finish_dns_response e server guest udp now =
     (case get_range (udp_payload udp) 0 2 of
        None \<Rightarrow> (e, Deny Malformed)
      | Some b \<Rightarrow>
          let id = be16 (b ! 0) (b ! 1);
              key = \<lparr>qk_server = server, qk_guest = guest, qk_guest_port = udp_destination_port udp,
                     qk_id = id\<rparr> in
          (case map_of (pe_pending_dns e) key of
             None \<Rightarrow> (e, Deny NoReverseFlow)
           | Some pending \<Rightarrow>
               let e1 = e\<lparr>pe_pending_dns := map_remove key (pe_pending_dns e)\<rparr> in
               (case parse_dns_response (udp_payload udp) of
                  Inl _ \<Rightarrow> (e1, Deny Malformed)
                | Inr response \<Rightarrow>
                    if dr_id response \<noteq> id \<or> \<not> eq_ignore_ascii_case (dr_question response) (pd_name pending)
                    then (e1, Deny Infrastructure)
                    else
                      (if pc_mode (pe_config e1) = PolicyAllowlist
                       then observe_dns_answers e1 (pd_name pending) (dr_answers response) now
                       else e1, Allow DnsInfrastructure))))"

section \<open>Frames\<close>

definition evaluate_udp ::
  "PolicyEngine \<Rightarrow> FrameDirection \<Rightarrow> IpAddr \<Rightarrow> IpAddr \<Rightarrow> UdpPacket \<Rightarrow> duration \<Rightarrow> PolicyEngine \<times> PolicyDecision" where
  "evaluate_udp e direction source destination udp now =
     (if is_dhcp e direction source destination udp then (e, Allow DhcpInfrastructure)
      else if direction = GuestToNetwork \<and> udp_destination_port udp = DNS_PORT \<and>
              destination \<in> pc_dns_servers (pe_config e) then
        start_dns_query e source destination udp now
      else if direction = NetworkToGuest \<and> udp_source_port udp = DNS_PORT \<and>
              source \<in> pc_dns_servers (pe_config e) then
        finish_dns_response e source destination udp now
      else if direction = GuestToNetwork \<and> destination \<in> pc_control_addresses (pe_config e) then
        (e, Deny ControlEndpoint)
      else
        let key = flow_key direction source destination (udp_source_port udp) (udp_destination_port udp)
                    TransportUdp in
        if direction = NetworkToGuest then allow_reverse e key now
        else
          (case map_of (pe_flows e) key of
             Some (FlowAllowed _) \<Rightarrow>
               (e\<lparr>pe_flows := map_insert key
                    (FlowAllowed (duration_saturating_add now (flow_ttl (limits_of e)))) (pe_flows e)\<rparr>,
                Allow ReverseFlow)
           | _ \<Rightarrow>
               (case pc_mode (pe_config e) of
                  PolicyUnrestricted \<Rightarrow> admit_flow e key now AllowUnrestricted
                | PolicyAllowlist \<Rightarrow>
                    if cidr_matches e destination then admit_flow e key now AllowCidr
                    else if has_domain_binding e destination then (e, Deny DomainRequiresTcpTls)
                    else (e, Deny NotAllowlisted)
                | PolicyDisabled \<Rightarrow> (e, Deny DenyDisabled))))"

definition evaluate_arp :: "PolicyEngine \<Rightarrow> FrameDirection \<Rightarrow> bytes \<Rightarrow> PolicyDecision" where
  "evaluate_arp e direction p =
     (if length p < 28 \<or> subslice p 0 2 \<noteq> [0, 1] \<or> subslice p 2 4 \<noteq> [8, 0] \<or> p ! 4 \<noteq> 6 \<or> p ! 5 \<noteq> 4
      then Deny Malformed
      else
        let operation = be16 (p ! 6) (p ! 7);
            sender = ipv4_new (p ! 14) (p ! 15) (p ! 16) (p ! 17);
            target = ipv4_new (p ! 24) (p ! 25) (p ! 26) (p ! 27);
            targets = pc_arp_targets (pe_config e);
            guests = pc_guest_ipv4_addresses (pe_config e);
            allowed =
              (case direction of
                 GuestToNetwork \<Rightarrow>
                   (operation = 1 \<and> target \<in> targets) \<or>
                   (operation = 2 \<and> sender \<in> guests \<and> target \<in> targets)
               | NetworkToGuest \<Rightarrow>
                   (operation = 2 \<and> sender \<in> targets) \<or>
                   (operation = 1 \<and> sender \<in> targets \<and> target \<in> guests))
        in if allowed then Allow ArpInfrastructure else Deny Infrastructure)"

definition evaluate_ip ::
  "PolicyEngine \<Rightarrow> FrameDirection \<Rightarrow> IpPacket \<Rightarrow> duration \<Rightarrow> PolicyEngine \<times> PolicyDecision" where
  "evaluate_ip e direction packet now =
     (if ip_protocol packet = IPPROTO_UDP then
        (case parse_udp (ip_payload packet) of
           Inr udp \<Rightarrow> evaluate_udp e direction (ip_source packet) (ip_destination packet) udp now
         | Inl reason \<Rightarrow> (e, Deny reason))
      else if ip_protocol packet = IPPROTO_TCP then
        (case parse_tcp (ip_payload packet) of
           Inr tcp \<Rightarrow> evaluate_tcp e direction (ip_source packet) (ip_destination packet) tcp now
         | Inl reason \<Rightarrow> (e, Deny reason))
      else (e, Deny UnsupportedProtocol))"

definition evaluate_ethernet ::
  "PolicyEngine \<Rightarrow> FrameDirection \<Rightarrow> bytes \<Rightarrow> duration \<Rightarrow> PolicyEngine \<times> PolicyDecision" where
  "evaluate_ethernet e0 direction frame now =
     (let e = expire e0 now in
      if pc_mode (pe_config e) = PolicyDisabled then (e, Deny DenyDisabled)
      else
        (case get_range frame 12 14 of
           None \<Rightarrow> (e, Deny Malformed)
         | Some b \<Rightarrow>
             let ether_type = be16 (b ! 0) (b ! 1);
                 payload = drop ETHERNET_HEADER_LEN frame in
             if ether_type = ETHERTYPE_ARP then (e, evaluate_arp e direction payload)
             else if ether_type = ETHERTYPE_IPV4 \<or> ether_type = ETHERTYPE_IPV6 then
               (case (if ether_type = ETHERTYPE_IPV4 then parse_ipv4 payload else parse_ipv6 payload) of
                  Inr packet \<Rightarrow> evaluate_ip e direction packet now
                | Inl reason \<Rightarrow> (e, Deny reason))
             else (e, Deny UnsupportedEtherType)))"

end
