(* ===== verification/Policy_Safety.thy ===== *)
theory Policy_Safety
  imports Policy_Engine
begin

text \<open>
  What the egress policy guarantees. The invariant says why every flow is in the table and that
  all state is within its limits; it is kept by every operation, so it holds after every run of
  frames, whatever the guest and the network send. The properties at the end read it off.
\<close>

section \<open>The invariant\<close>

text \<open>
  Why a flow is in the table. \<open>verified\<close> is the set of flows whose ClientHello was verified
  earlier. In allowlist mode an allowed flow goes to an address of a CIDR rule, or answers a
  connection to a published port, or was verified; a flow that waits for its ClientHello goes to
  port 443. No flow to a control address is opened by the guest.
\<close>

definition flow_ok :: "PolicyConfig \<Rightarrow> FlowKey set \<Rightarrow> FlowKey \<Rightarrow> FlowState \<Rightarrow> bool" where
  "flow_ok c verified k s \<longleftrightarrow>
     (case s of
        FlowAllowed _ \<Rightarrow>
          fk_transport k = TransportTcp \<and> fk_guest_port k \<in> pc_published_tcp_ports c \<or>
          fk_remote_ip k \<notin> pc_control_addresses c \<and>
          (pc_mode c = PolicyAllowlist \<longrightarrow>
             list_ex (\<lambda>r. cidr_contains r (fk_remote_ip k)) (pc_cidrs c) \<or>
             fk_transport k = TransportTcp \<and> fk_remote_port k = HTTPS_PORT \<and> k \<in> verified)
      | PendingTls f \<Rightarrow>
          fk_transport k = TransportTcp \<and> fk_remote_port k = HTTPS_PORT \<and>
          fk_remote_ip k \<notin> pc_control_addresses c \<and> pc_mode c = PolicyAllowlist \<and>
          length (tf_bytes f) \<le> max_tls_buffer_per_flow (pc_limits c))"

definition names_ok :: "PolicyEngine \<Rightarrow> bool" where
  "names_ok e \<longleftrightarrow>
     (pc_mode (pe_config e) = PolicyAllowlist \<longrightarrow>
        (\<forall>q \<in> snd ` set (pe_pending_dns e). engine_domain_matches e (pd_name q)) \<and>
        (\<forall>bs \<in> snd ` set (pe_dns_bindings e). \<forall>b \<in> set bs. engine_domain_matches e (db_name b)))"

definition flows_inv :: "PolicyConfig \<Rightarrow> FlowKey set \<Rightarrow> (FlowKey, FlowState) assoc \<Rightarrow> nat \<Rightarrow> bool" where
  "flows_inv c verified flows total_bytes \<longleftrightarrow>
     keys_distinct flows \<and> length flows \<le> max_flows (pc_limits c) \<and>
     (\<forall>(k, s) \<in> set flows. flow_ok c verified k s) \<and> total_bytes = tls_bytes_held flows"

definition dns_inv :: "PolicyEngine \<Rightarrow> bool" where
  "dns_inv e \<longleftrightarrow>
     keys_distinct (pe_pending_dns e) \<and> length (pe_pending_dns e) \<le> max_pending_dns (limits_of e) \<and>
     keys_distinct (pe_dns_bindings e) \<and> dns_binding_count e \<le> max_dns_bindings (limits_of e) \<and>
     names_ok e"

definition engine_inv :: "FlowKey set \<Rightarrow> PolicyEngine \<Rightarrow> bool" where
  "engine_inv verified e \<longleftrightarrow>
     flows_inv (pe_config e) verified (pe_flows e) (pe_total_tls_bytes e) \<and> dns_inv e \<and>
     limits_validate (limits_of e) = Ok ()"

subsection \<open>The flow table\<close>

lemma tls_bytes_held_remove:
  "keys_distinct m \<Longrightarrow>
   tls_bytes_held m = tls_bytes_held (map_remove k m) + (case map_of m k of None \<Rightarrow> 0 | Some s \<Rightarrow> pending_len s)"
proof (induction m)
  case Nil
  show ?case by (simp add: tls_bytes_held_def)
next
  case (Cons p m)
  have del: "map_remove k m = m" if "fst p = k"
  proof -
    have "k \<notin> fst ` set m" using that Cons.prems by auto
    then show ?thesis by simp
  qed
  show ?case
    using Cons del by (cases p) (auto simp: tls_bytes_held_def AList.delete_eq)
qed

lemma tls_bytes_held_insert:
  "keys_distinct m \<Longrightarrow>
   tls_bytes_held (map_insert k s m) + (case map_of m k of None \<Rightarrow> 0 | Some t \<Rightarrow> pending_len t) =
   tls_bytes_held m + pending_len s"
proof (induction m)
  case Nil
  show ?case by (simp add: tls_bytes_held_def)
next
  case (Cons p m)
  have "map_of m k = None" if "fst p = k" using that Cons.prems by (auto simp: map_of_eq_None_iff)
  then show ?case using Cons by (cases p) (auto simp: tls_bytes_held_def)
qed

lemma flows_inv_insert:
  assumes "flows_inv c verified flows total_bytes" and "flow_ok c verified k s"
    and "map_of flows k = None \<Longrightarrow> length flows < max_flows (pc_limits c)"
    and "total_bytes' + (case map_of flows k of None \<Rightarrow> 0 | Some t \<Rightarrow> pending_len t) = total_bytes + pending_len s"
  shows "flows_inv c verified (map_insert k s flows) total_bytes'"
proof -
  have "keys_distinct flows" using assms(1) by (simp add: flows_inv_def)
  note held = tls_bytes_held_insert [OF this, of k s]
  show ?thesis
    using assms held set_map_insert_subset [of k s flows]
    by (auto simp: flows_inv_def length_map_insert AList.distinct_update Suc_le_eq)
qed

lemma flows_inv_remove:
  assumes "flows_inv c verified flows total_bytes"
  shows "flows_inv c verified (map_remove k flows)
    (total_bytes - (case map_of flows k of None \<Rightarrow> 0 | Some t \<Rightarrow> pending_len t))"
proof -
  have "keys_distinct flows" using assms by (simp add: flows_inv_def)
  note held = tls_bytes_held_remove [OF this, of k]
  show ?thesis
    using assms held set_map_remove_subset [of k flows] AList.length_delete_le [of k flows]
    by (auto simp: flows_inv_def AList.distinct_delete dest: le_trans)
qed

lemma flows_inv_mono:
  assumes "flows_inv c verified flows total_bytes" and "verified \<subseteq> verified'"
  shows "flows_inv c verified' flows total_bytes"
  using assms by (fastforce simp: flows_inv_def flow_ok_def split: FlowState.splits)

lemma flows_inv_lookup:
  assumes "flows_inv c verified flows total_bytes" and "map_of flows k = Some s"
  shows "flow_ok c verified k s"
  using assms by (auto simp: flows_inv_def dest: map_of_SomeD)

lemma pending_len_bound: "flow_ok c verified k s \<Longrightarrow> pending_len s \<le> max_tls_buffer_per_flow (pc_limits c)"
  by (auto simp: flow_ok_def pending_len_def split: FlowState.splits)

lemma tls_bytes_held_bound:
  "(\<forall>(k, s) \<in> set flows. pending_len s \<le> n) \<Longrightarrow> tls_bytes_held flows \<le> length flows * n"
  by (induction flows) (auto simp: tls_bytes_held_def)

lemma limits_bounds:
  assumes "limits_validate l = Ok ()"
  shows "max_flows l \<le> 16384" "max_tls_buffer_per_flow l \<le> 65536" "0 < max_flows l"
  using assms by (auto simp: limits_validate_def MAX_FLOWS_HARD_def MAX_TLS_BUFFER_HARD_def split: if_splits)

lemma total_bytes_bound:
  assumes "flows_inv c verified flows total_bytes" "limits_validate (pc_limits c) = Ok ()"
  shows "total_bytes \<le> max_flows (pc_limits c) * max_tls_buffer_per_flow (pc_limits c)"
    and "total_bytes + 65536 \<le> U64_MAX"
proof -
  have "tls_bytes_held flows \<le> length flows * max_tls_buffer_per_flow (pc_limits c)"
    by (rule tls_bytes_held_bound) (use assms(1) in \<open>auto simp: flows_inv_def dest: pending_len_bound\<close>)
  also have "\<dots> \<le> max_flows (pc_limits c) * max_tls_buffer_per_flow (pc_limits c)"
    using assms(1) by (simp add: flows_inv_def)
  finally show bound: "total_bytes \<le> max_flows (pc_limits c) * max_tls_buffer_per_flow (pc_limits c)"
    using assms(1) by (simp add: flows_inv_def)
  also have "\<dots> \<le> 16384 * 65536" by (rule mult_le_mono) (use limits_bounds [OF assms(2)] in simp_all)
  finally show "total_bytes + 65536 \<le> U64_MAX" by (simp add: U64_MAX_def)
qed


subsection \<open>Flow operations\<close>

lemma engine_inv_flows:
  assumes "engine_inv verified e"
    and "flows_inv (pe_config e) verified' flows total_bytes"
  shows "engine_inv verified' (e\<lparr>pe_flows := flows, pe_total_tls_bytes := total_bytes\<rparr>)"
  using assms by (simp add: engine_inv_def dns_inv_def names_ok_def dns_binding_count_def engine_domain_matches_def)

lemma engine_inv_parts:
  assumes "engine_inv verified e"
  shows "flows_inv (pe_config e) verified (pe_flows e) (pe_total_tls_bytes e)"
    and "limits_validate (limits_of e) = Ok ()" and "dns_inv e"
  using assms by (auto simp: engine_inv_def)

text \<open>Replacing or adding an entry that is not waiting for TLS data.\<close>

lemma engine_inv_allow:
  assumes inv: "engine_inv verified e" and ok: "flow_ok (pe_config e) verified k (FlowAllowed t)"
    and room: "map_of (pe_flows e) k = None \<Longrightarrow> length (pe_flows e) < max_flows (limits_of e)"
    and old: "\<And>f. map_of (pe_flows e) k \<noteq> Some (PendingTls f)"
  shows "engine_inv verified (e\<lparr>pe_flows := map_insert k (FlowAllowed t) (pe_flows e)\<rparr>)"
proof -
  have "flows_inv (pe_config e) verified (map_insert k (FlowAllowed t) (pe_flows e)) (pe_total_tls_bytes e)"
    by (rule flows_inv_insert [OF engine_inv_parts(1) [OF inv] ok room])
      (use old in \<open>auto simp: pending_len_def split: option.splits FlowState.splits\<close>)
  from engine_inv_flows [OF inv this] show ?thesis by simp
qed

lemma admit_flow_inv:
  assumes "engine_inv verified e" and "\<And>t. flow_ok (pe_config e) verified k (FlowAllowed t)"
    and "\<And>f. map_of (pe_flows e) k \<noteq> Some (PendingTls f)"
  shows "engine_inv verified (fst (admit_flow e k now reason))"
  using assms engine_inv_allow [OF assms(1,2) _ assms(3)]
  by (auto simp: admit_flow_def insert_allowed_flow_def not_le)

lemma flow_ok_time: "flow_ok c verified k (FlowAllowed t) \<Longrightarrow> flow_ok c verified k (FlowAllowed u)"
  by (simp add: flow_ok_def)

lemma allow_reverse_inv:
  assumes "engine_inv verified e"
  shows "engine_inv verified (fst (allow_reverse e k now))"
proof (cases "map_of (pe_flows e) k")
  case (Some s)
  have ok: "flow_ok (pe_config e) verified k s"
    by (rule flows_inv_lookup [OF engine_inv_parts(1) [OF assms] Some])
  show ?thesis
  proof (cases s)
    case (FlowAllowed t)
    with Some ok assms show ?thesis
      by (auto simp: allow_reverse_def intro!: engine_inv_allow dest: flow_ok_time)
  qed (use assms Some in \<open>simp add: allow_reverse_def\<close>)
qed (use assms in \<open>simp add: allow_reverse_def\<close>)

lemma append_bound:
  assumes "append_tls_segment flow tcp lim remaining = (flow', progress)" and "length (tf_bytes flow) \<le> lim"
  shows "length (tf_bytes flow') \<le> lim"
  using assms by (auto simp: append_tls_segment_def Let_def split: if_splits option.splits)

text \<open>
  The step of a flow that waits for its ClientHello, from an engine whose table does not hold it
  (it was removed or is new): the table keeps its invariant, where a verified flow is recorded.
\<close>

lemma finish_tls_inv:
  assumes inv: "engine_inv verified e" and none: "map_of (pe_flows e) k = None"
    and room: "length (pe_flows e) < max_flows (limits_of e)"
    and ok: "flow_ok (pe_config e) verified k (PendingTls flow)"
  shows "engine_inv (if snd (finish_tls_progress e k flow progress rst has_payload now) = Allow DomainSni
      then insert k verified else verified) (fst (finish_tls_progress e k flow progress rst has_payload now))"
proof -
  note fl = engine_inv_parts(1) [OF inv]
  have len: "length (tf_bytes flow) \<le> 65536"
    using ok limits_bounds(2) [OF engine_inv_parts(2) [OF inv]] by (simp add: flow_ok_def)
  then have sat: "saturating_add (pe_total_tls_bytes e) (length (tf_bytes flow)) =
      pe_total_tls_bytes e + length (tf_bytes flow)"
    using total_bytes_bound(2) [OF fl engine_inv_parts(2) [OF inv]] by (simp add: saturating_add_def)
  have pend: "engine_inv verified (e\<lparr>pe_flows := map_insert k (PendingTls (flow\<lparr>tf_expires := t\<rparr>)) (pe_flows e),
      pe_total_tls_bytes := pe_total_tls_bytes e + length (tf_bytes flow)\<rparr>)" for t
    by (rule engine_inv_flows [OF inv flows_inv_insert [OF fl]])
      (use none room ok in \<open>auto simp: pending_len_def flow_ok_def\<close>)
  have ins: "engine_inv (insert k verified) (e\<lparr>pe_flows := map_insert k (FlowAllowed t) (pe_flows e)\<rparr>)" for t
  proof (rule engine_inv_allow)
    show "engine_inv (insert k verified) e"
      using inv flows_inv_mono [OF fl, of "insert k verified"] by (auto simp: engine_inv_def)
    show "flow_ok (pe_config e) (insert k verified) k (FlowAllowed t)"
      using ok by (simp add: flow_ok_def)
  qed (use none room in auto)
  show ?thesis
    using inv pend ins
    by (auto simp: finish_tls_progress_def sat Let_def split: sum.splits TlsParse.splits option.splits)
qed


lemma existing_tcp_inv:
  fixes e k
  defines "e0 \<equiv> e\<lparr>pe_flows := map_remove k (pe_flows e)\<rparr>"
  assumes inv: "engine_inv verified e" and some: "map_of (pe_flows e) k = Some s"
  shows "engine_inv (if snd (evaluate_existing_tcp e0 k s tcp now) = Allow DomainSni
      then insert k verified else verified) (fst (evaluate_existing_tcp e0 k s tcp now))"
proof -
  note fl = engine_inv_parts(1) [OF inv]
  have dist: "keys_distinct (pe_flows e)" using fl by (simp add: flows_inv_def)
  have none: "map_of (map_remove k (pe_flows e)) k = None" by (simp add: AList.delete_conv)
  have room: "length (map_remove k (pe_flows e)) < max_flows (limits_of e)"
    using fl some length_map_remove [OF dist, of k] by (cases "pe_flows e") (auto simp: flows_inv_def)
  have ok: "flow_ok (pe_config e) verified k s" by (rule flows_inv_lookup [OF fl some])
  have rem: "engine_inv verified (e\<lparr>pe_flows := map_remove k (pe_flows e),
      pe_total_tls_bytes := pe_total_tls_bytes e - pending_len s\<rparr>)"
    using engine_inv_flows [OF inv flows_inv_remove [OF fl, of k]] some by simp
  show ?thesis
  proof (cases s)
    case (FlowAllowed t)
    then have rem0: "engine_inv verified e0" using rem by (simp add: pending_len_def e0_def)
    then show ?thesis
      using FlowAllowed ok none room engine_inv_allow [OF rem0, of k]
      by (auto simp: evaluate_existing_tcp_def e0_def dest: flow_ok_time)
  next
    case (PendingTls f)
    let ?e1 = "e\<lparr>pe_flows := map_remove k (pe_flows e),
      pe_total_tls_bytes := pe_total_tls_bytes e - length (tf_bytes f)\<rparr>"
    obtain flow' progress where app: "append_tls_segment f tcp (max_tls_buffer_per_flow (limits_of ?e1))
        (wrapping_sub (max_total_tls_bytes (limits_of ?e1)) (pe_total_tls_bytes ?e1)) = (flow', progress)"
      by (cases "append_tls_segment f tcp (max_tls_buffer_per_flow (limits_of ?e1))
        (wrapping_sub (max_total_tls_bytes (limits_of ?e1)) (pe_total_tls_bytes ?e1))")
    have ok': "flow_ok (pe_config ?e1) verified k (PendingTls flow')"
      using ok PendingTls append_bound [OF app] by (simp add: flow_ok_def)
    have "engine_inv verified ?e1" using rem PendingTls by (simp add: pending_len_def)
    from finish_tls_inv [OF this _ _ ok', of progress "tcp_rst tcp" "tcp_payload tcp \<noteq> []" now] none room
    show ?thesis using app PendingTls by (simp add: evaluate_existing_tcp_def e0_def)
  qed
qed

lemma start_tls_inv:
  assumes inv: "engine_inv verified e" and none: "map_of (pe_flows e) k = None"
    and key: "fk_transport k = TransportTcp" "fk_remote_port k = HTTPS_PORT"
      "fk_remote_ip k \<notin> pc_control_addresses (pe_config e)" "pc_mode (pe_config e) = PolicyAllowlist"
  shows "engine_inv (if snd (start_tls_flow e k tcp now) = Allow DomainSni
      then insert k verified else verified) (fst (start_tls_flow e k tcp now))"
proof (cases "length (pe_flows e) < max_flows (limits_of e)")
  case False
  with inv show ?thesis by (simp add: start_tls_flow_def)
next
  case True
  let ?f = "\<lparr>tf_initial_sequence = tcp_sequence tcp + (if tcp_syn tcp then 1 else 0), tf_bytes = [],
      tf_expires = duration_saturating_add now (pending_tls_ttl (limits_of e))\<rparr>"
  obtain flow' progress where app: "append_tls_segment ?f tcp (max_tls_buffer_per_flow (limits_of e))
      (wrapping_sub (max_total_tls_bytes (limits_of e)) (pe_total_tls_bytes e)) = (flow', progress)"
    by (metis surj_pair)
  have "flow_ok (pe_config e) verified k (PendingTls flow')"
    using key append_bound [OF app] by (simp add: flow_ok_def)
  from finish_tls_inv [OF inv none True this, of progress "tcp_rst tcp" "tcp_payload tcp \<noteq> []" now]
  show ?thesis using app True by (simp add: start_tls_flow_def Let_def)
qed

lemma finish_tls_config [simp]: "pe_config (fst (finish_tls_progress e k f p r h now)) = pe_config e"
  by (auto simp: finish_tls_progress_def Let_def split: sum.splits TlsParse.splits option.splits)

lemma admit_not_sni: "reason \<noteq> DomainSni \<Longrightarrow> snd (admit_flow e k now reason) \<noteq> Allow DomainSni"
  by (auto simp: admit_flow_def split: prod.splits)

lemma reverse_not_sni: "snd (allow_reverse e k now) \<noteq> Allow DomainSni"
  by (auto simp: allow_reverse_def split: option.splits FlowState.splits)

lemma allow_reverse_none:
  "snd (allow_reverse e k now) = Deny NoReverseFlow \<longleftrightarrow> map_of (pe_flows e) k = None"
  "map_of (pe_flows e) k = None \<Longrightarrow> fst (allow_reverse e k now) = e"
  by (auto simp: allow_reverse_def split: option.splits FlowState.splits)

abbreviation tcp_key :: "FrameDirection \<Rightarrow> IpAddr \<Rightarrow> IpAddr \<Rightarrow> TcpPacket \<Rightarrow> FlowKey" where
  "tcp_key direction source destination tcp \<equiv>
     flow_key direction source destination (tcp_source_port tcp) (tcp_destination_port tcp) TransportTcp"

lemma evaluate_tcp_inv:
  assumes inv: "engine_inv verified e"
  shows "engine_inv (if snd (evaluate_tcp e direction source destination tcp now) = Allow DomainSni
      then insert (tcp_key direction source destination tcp) verified else verified)
    (fst (evaluate_tcp e direction source destination tcp now))"
proof (cases direction)
  case NetworkToGuest
  let ?k = "tcp_key NetworkToGuest source destination tcp"
  have rev: "engine_inv verified (fst (allow_reverse e ?k now))" by (rule allow_reverse_inv [OF inv])
  show ?thesis
  proof (cases "map_of (pe_flows e) ?k = None \<and> tcp_syn tcp \<and> \<not> tcp_ack tcp \<and>
      tcp_destination_port tcp \<in> pc_published_tcp_ports (pe_config e)")
    case True
    then have "evaluate_tcp e direction source destination tcp now = admit_flow e ?k now Preview"
      by (simp add: evaluate_tcp_def NetworkToGuest allow_reverse_def)
    moreover have "engine_inv verified (fst (admit_flow e ?k now Preview))"
      using True by (intro admit_flow_inv [OF inv]) (auto simp: flow_ok_def flow_key_def)
    ultimately show ?thesis using admit_not_sni [of Preview e ?k now] by simp
  next
    case False
    then have "evaluate_tcp e direction source destination tcp now = allow_reverse e ?k now"
      by (auto simp: evaluate_tcp_def NetworkToGuest allow_reverse_def split: option.splits FlowState.splits)
    with rev show ?thesis using reverse_not_sni by simp
  qed
next
  case GuestToNetwork
  define k where "k = tcp_key GuestToNetwork source destination tcp"
  have k: "fk_transport k = TransportTcp" "fk_remote_ip k = destination"
    "fk_remote_port k = tcp_destination_port tcp" by (simp_all add: flow_key_def k_def)
  note unf = evaluate_tcp_def [of e GuestToNetwork source destination tcp now, unfolded Let_def,
      folded k_def]
  show ?thesis
  proof (cases "map_of (pe_flows e) k")
    case (Some s)
    then have "evaluate_tcp e GuestToNetwork source destination tcp now =
        evaluate_existing_tcp (e\<lparr>pe_flows := map_remove k (pe_flows e)\<rparr>) k s tcp now"
      by (simp add: unf)
    then show ?thesis
      using existing_tcp_inv [OF inv Some, of tcp now] GuestToNetwork by (simp only: k_def)
  next
    case None
    have admit: "engine_inv verified (fst (admit_flow e k now r))"
      if "destination \<notin> pc_control_addresses (pe_config e)"
        "pc_mode (pe_config e) = PolicyAllowlist \<longrightarrow> cidr_matches e destination" for r
      using that None by (intro admit_flow_inv [OF inv]) (simp_all add: flow_ok_def k cidr_matches_def)
    show ?thesis
      unfolding GuestToNetwork k_def [symmetric]
      using inv None admit start_tls_inv [OF inv None k(1), of tcp now] admit_not_sni k
      by (auto simp: unf split: PolicyMode.splits if_splits)
  qed
qed

subsection \<open>DNS operations\<close>

lemma engine_inv_dns:
  assumes "engine_inv verified e" and "dns_inv (e\<lparr>pe_pending_dns := p, pe_dns_bindings := b\<rparr>)"
  shows "engine_inv verified (e\<lparr>pe_pending_dns := p, pe_dns_bindings := b\<rparr>)"
  using assms by (simp add: engine_inv_def)

lemma dns_inv_pending:
  assumes "dns_inv e" and "keys_distinct p" and "length p \<le> max_pending_dns (limits_of e)"
    and "set p \<subseteq> insert (k, v) (set (pe_pending_dns e))"
    and "pc_mode (pe_config e) = PolicyAllowlist \<longrightarrow> engine_domain_matches e (pd_name v)"
  shows "dns_inv (e\<lparr>pe_pending_dns := p\<rparr>)"
proof -
  have "names_ok (e\<lparr>pe_pending_dns := p\<rparr>)"
    unfolding names_ok_def
  proof (intro impI conjI ballI)
    fix q assume mode: "pc_mode (pe_config (e\<lparr>pe_pending_dns := p\<rparr>)) = PolicyAllowlist"
      and "q \<in> snd ` set (pe_pending_dns (e\<lparr>pe_pending_dns := p\<rparr>))"
    then have "q = v \<or> q \<in> snd ` set (pe_pending_dns e)" using assms(4) by auto
    then show "engine_domain_matches (e\<lparr>pe_pending_dns := p\<rparr>) (pd_name q)"
      using assms(1,5) mode by (auto simp: dns_inv_def names_ok_def engine_domain_matches_def)
  next
    fix bs b assume "pc_mode (pe_config (e\<lparr>pe_pending_dns := p\<rparr>)) = PolicyAllowlist"
      "bs \<in> snd ` set (pe_dns_bindings (e\<lparr>pe_pending_dns := p\<rparr>))" "b \<in> set bs"
    then show "engine_domain_matches (e\<lparr>pe_pending_dns := p\<rparr>) (db_name b)"
      using assms(1) by (force simp: dns_inv_def names_ok_def engine_domain_matches_def)
  qed
  with assms show ?thesis by (simp add: dns_inv_def dns_binding_count_def)
qed

lemma start_dns_query_inv:
  assumes inv: "engine_inv verified e"
  shows "engine_inv verified (fst (start_dns_query e guest server udp now))"
proof (cases "parse_dns_query (udp_payload udp)")
  case (Inr q)
  let ?k = "\<lparr>qk_server = server, qk_guest = guest, qk_guest_port = udp_source_port udp, qk_id = dq_id q\<rparr>"
  let ?v = "\<lparr>pd_name = dq_name q, pd_expires = duration_saturating_add now (dns_query_ttl (limits_of e))\<rparr>"
  show ?thesis
  proof (cases "(pc_mode (pe_config e) = PolicyAllowlist \<and> \<not> engine_domain_matches e (dq_name q)) \<or>
      map_of (pe_pending_dns e) ?k = None \<and> length (pe_pending_dns e) \<ge> max_pending_dns (limits_of e)")
    case True
    with Inr inv show ?thesis by (auto simp: start_dns_query_def Let_def)
  next
    case False
    have old: "dns_inv e" using inv by (simp add: engine_inv_def)
    have room: "map_of (pe_pending_dns e) ?k = None \<Longrightarrow> length (pe_pending_dns e) < max_pending_dns (limits_of e)"
      using False by (meson not_le)
    have "dns_inv (e\<lparr>pe_pending_dns := map_insert ?k ?v (pe_pending_dns e)\<rparr>)"
    proof (rule dns_inv_pending [OF old])
      show "keys_distinct (map_insert ?k ?v (pe_pending_dns e))"
        using old by (simp add: dns_inv_def AList.distinct_update)
      show "length (map_insert ?k ?v (pe_pending_dns e)) \<le> max_pending_dns (limits_of e)"
        using old room by (simp add: dns_inv_def length_map_insert Suc_le_eq)
      show "set (map_insert ?k ?v (pe_pending_dns e)) \<subseteq> insert (?k, ?v) (set (pe_pending_dns e))"
        by (rule set_map_insert_subset)
    qed (use False in auto)
    with False Inr inv show ?thesis
      by (auto simp: start_dns_query_def Let_def engine_inv_def)
  qed
qed (use inv in \<open>simp add: start_dns_query_def\<close>)

lemma length_refresh [simp]: "length (refresh_binding name t bs) = length bs"
  by (induction bs) auto

lemma refresh_names: "db_name ` set (refresh_binding name t bs) = db_name ` set bs"
  by (induction bs) auto

lemma binding_count_insert:
  "keys_distinct m \<Longrightarrow>
   sum_list (map (length \<circ> snd) (map_insert a bs m)) + length (case map_of m a of None \<Rightarrow> [] | Some x \<Rightarrow> x) =
   sum_list (map (length \<circ> snd) m) + length (bs :: 'x list)"
proof (induction m)
  case (Cons p m)
  have "map_of m a = None" if "fst p = a" using that Cons.prems by (auto simp: map_of_eq_None_iff)
  then show ?case using Cons by (cases p) (auto split: option.splits)
qed simp

lemma dns_inv_bindings:
  assumes old: "dns_inv e"
    and names: "\<forall>b \<in> set bs. pc_mode (pe_config e) = PolicyAllowlist \<longrightarrow> engine_domain_matches e (db_name b)"
    and count: "dns_binding_count e + length bs \<le> max_dns_bindings (limits_of e)
      + length (case map_of (pe_dns_bindings e) a of None \<Rightarrow> [] | Some x \<Rightarrow> x)"
  shows "dns_inv (e\<lparr>pe_dns_bindings := map_insert a bs (pe_dns_bindings e)\<rparr>)"
proof -
  have dist: "keys_distinct (pe_dns_bindings e)" using old by (simp add: dns_inv_def)
  have "dns_binding_count (e\<lparr>pe_dns_bindings := map_insert a bs (pe_dns_bindings e)\<rparr>)
      \<le> max_dns_bindings (limits_of e)"
    using binding_count_insert [OF dist, of a bs] count by (simp add: dns_binding_count_def)
  moreover have "names_ok (e\<lparr>pe_dns_bindings := map_insert a bs (pe_dns_bindings e)\<rparr>)"
    using old names set_map_insert_subset [of a bs "pe_dns_bindings e"]
    by (fastforce simp: dns_inv_def names_ok_def engine_domain_matches_def)
  ultimately show ?thesis
    using old by (simp add: dns_inv_def AList.distinct_update)
qed

lemma insert_dns_binding_inv:
  assumes inv: "engine_inv verified e"
    and name: "pc_mode (pe_config e) = PolicyAllowlist \<longrightarrow> engine_domain_matches e name"
  shows "engine_inv verified (insert_dns_binding e a name t)"
    and "pe_config (insert_dns_binding e a name t) = pe_config e"
proof -
  define bs where "bs = (case map_of (pe_dns_bindings e) a of None \<Rightarrow> [] | Some x \<Rightarrow> x)"
  have old: "dns_inv e" using inv by (simp add: engine_inv_def)
  then have names: "\<forall>b \<in> set bs. pc_mode (pe_config e) = PolicyAllowlist \<longrightarrow> engine_domain_matches e (db_name b)"
    by (auto simp: bs_def dns_inv_def names_ok_def dest!: map_of_SomeD split: option.splits)
  have keep: "engine_inv verified (e\<lparr>pe_dns_bindings := m\<rparr>)" if "dns_inv (e\<lparr>pe_dns_bindings := m\<rparr>)" for m
    using that inv by (simp add: engine_inv_def)
  have refresh: "dns_inv (e\<lparr>pe_dns_bindings := map_insert a (refresh_binding name t bs) (pe_dns_bindings e)\<rparr>)"
  proof (rule dns_inv_bindings [OF old])
    show "\<forall>b \<in> set (refresh_binding name t bs). pc_mode (pe_config e) = PolicyAllowlist \<longrightarrow>
        engine_domain_matches e (db_name b)"
    proof
      fix b assume "b \<in> set (refresh_binding name t bs)"
      then obtain b' where "b' \<in> set bs" "db_name b' = db_name b"
        using refresh_names [of name t bs] by (metis imageE imageI)
      with names show "pc_mode (pe_config e) = PolicyAllowlist \<longrightarrow> engine_domain_matches e (db_name b)"
        by metis
    qed
    show "dns_binding_count e + length (refresh_binding name t bs) \<le> max_dns_bindings (limits_of e)
      + length (case map_of (pe_dns_bindings e) a of None \<Rightarrow> [] | Some x \<Rightarrow> x)"
      using old unfolding bs_def [symmetric] by (simp add: dns_inv_def)
  qed
  have append: "dns_inv (e\<lparr>pe_dns_bindings := map_insert a (bs @ [\<lparr>db_name = name, db_expires = t\<rparr>]) (pe_dns_bindings e)\<rparr>)"
    if "dns_binding_count e < max_dns_bindings (limits_of e)"
  proof (rule dns_inv_bindings [OF old])
    show "\<forall>b \<in> set (bs @ [\<lparr>db_name = name, db_expires = t\<rparr>]). pc_mode (pe_config e) = PolicyAllowlist \<longrightarrow>
        engine_domain_matches e (db_name b)"
      using names name by simp
    show "dns_binding_count e + length (bs @ [\<lparr>db_name = name, db_expires = t\<rparr>]) \<le> max_dns_bindings (limits_of e)
      + length (case map_of (pe_dns_bindings e) a of None \<Rightarrow> [] | Some x \<Rightarrow> x)"
      using that unfolding bs_def [symmetric] by simp
  qed
  note unf = insert_dns_binding_def [of e a name t, folded bs_def, unfolded Let_def]
  show "engine_inv verified (insert_dns_binding e a name t)"
    unfolding unf using inv keep [OF refresh] keep [OF append] by (simp add: not_le)
  show "pe_config (insert_dns_binding e a name t) = pe_config e"
    by (simp add: unf)
qed

lemma bind_answers_inv:
  assumes "engine_inv verified e" and "pc_mode (pe_config e) = PolicyAllowlist \<longrightarrow> engine_domain_matches e question"
  shows "engine_inv verified (foldl (bind_answer n question reachable now) e answers) \<and>
    pe_config (foldl (bind_answer n question reachable now) e answers) = pe_config e"
  using assms
proof (induction answers arbitrary: e)
  case (Cons r answers)
  have step: "engine_inv verified (bind_answer n question reachable now e r) \<and>
      pe_config (bind_answer n question reachable now e r) = pe_config e"
    using Cons.prems insert_dns_binding_inv
    by (auto simp: bind_answer_def Let_def split: DnsRecord.splits option.splits)
  moreover from step Cons.prems(2) have "pc_mode (pe_config (bind_answer n question reachable now e r)) = PolicyAllowlist \<longrightarrow>
      engine_domain_matches (bind_answer n question reachable now e r) question"
    by (simp add: engine_domain_matches_def)
  ultimately show ?case using Cons.IH [of "bind_answer n question reachable now e r"] by simp
qed simp

lemma finish_dns_inv:
  assumes inv: "engine_inv verified e"
  shows "engine_inv verified (fst (finish_dns_response e server guest udp now))"
proof (cases "get_range (udp_payload udp) 0 2")
  case (Some b)
  let ?k = "\<lparr>qk_server = server, qk_guest = guest, qk_guest_port = udp_destination_port udp, qk_id = be16 (b ! 0) (b ! 1)\<rparr>"
  let ?e1 = "e\<lparr>pe_pending_dns := map_remove ?k (pe_pending_dns e)\<rparr>"
  have old: "dns_inv e" using inv by (simp add: engine_inv_def)
  have "dns_inv ?e1"
    using old set_map_remove_subset [of ?k "pe_pending_dns e"] AList.length_delete_le [of ?k "pe_pending_dns e"]
    by (auto simp: dns_inv_def names_ok_def engine_domain_matches_def dns_binding_count_def
        AList.distinct_delete intro: le_trans)
  then have e1: "engine_inv verified ?e1" using inv by (simp add: engine_inv_def)
  show ?thesis
  proof (cases "map_of (pe_pending_dns e) ?k")
    case None
    with Some inv show ?thesis by (simp add: finish_dns_response_def Let_def)
  next
    case pending: (Some q)
    then have "pc_mode (pe_config ?e1) = PolicyAllowlist \<longrightarrow> engine_domain_matches ?e1 (pd_name q)"
      using old by (auto simp: dns_inv_def names_ok_def engine_domain_matches_def dest!: map_of_SomeD)
    then have "engine_inv verified (observe_dns_answers ?e1 (pd_name q) answers now)" for answers
      using bind_answers_inv [OF e1] by (simp add: observe_dns_answers_def Let_def)
    with e1 Some pending show ?thesis
      by (simp add: finish_dns_response_def Let_def split: sum.splits)
  qed
qed (use inv in \<open>simp add: finish_dns_response_def\<close>)


subsection \<open>Frames\<close>

lemma evaluate_udp_inv:
  assumes inv: "engine_inv verified e"
  shows "engine_inv verified (fst (evaluate_udp e direction source destination udp now))"
proof -
  define k where "k = flow_key direction source destination (udp_source_port udp) (udp_destination_port udp) TransportUdp"
  note unf = evaluate_udp_def [of e direction source destination udp now, unfolded Let_def, folded k_def]
  have k: "fk_transport k = TransportUdp" "direction = GuestToNetwork \<Longrightarrow> fk_remote_ip k = destination"
    by (cases direction; simp add: k_def flow_key_def)+
  have no_tls: "map_of (pe_flows e) k \<noteq> Some (PendingTls f)" for f
    using flows_inv_lookup [OF engine_inv_parts(1) [OF inv], of k] k(1) by (auto simp: flow_ok_def)
  have refresh: "engine_inv verified (e\<lparr>pe_flows := map_insert k (FlowAllowed u) (pe_flows e)\<rparr>)"
    if "map_of (pe_flows e) k = Some (FlowAllowed t)" for t u
    using that flows_inv_lookup [OF engine_inv_parts(1) [OF inv] that]
    by (intro engine_inv_allow [OF inv]) (auto dest: flow_ok_time)
  have admit: "engine_inv verified (fst (admit_flow e k now r))"
    if "direction = GuestToNetwork" "destination \<notin> pc_control_addresses (pe_config e)"
      "pc_mode (pe_config e) = PolicyAllowlist \<longrightarrow> cidr_matches e destination" for r
    using that no_tls by (intro admit_flow_inv [OF inv]) (simp_all add: flow_ok_def k cidr_matches_def)
  have dir: "direction = GuestToNetwork" if "direction \<noteq> NetworkToGuest" using that by (cases direction) auto
  show ?thesis
    unfolding unf
    using inv start_dns_query_inv [OF inv] finish_dns_inv [OF inv] allow_reverse_inv [OF inv] refresh admit no_tls dir
    by (simp split: option.split FlowState.split PolicyMode.split)
qed

lemma start_dns_not_sni: "snd (start_dns_query e guest server udp now) \<noteq> Allow DomainSni"
  by (simp add: start_dns_query_def Let_def split: sum.split)

lemma finish_dns_not_sni: "snd (finish_dns_response e server guest udp now) \<noteq> Allow DomainSni"
  by (simp add: finish_dns_response_def Let_def split: sum.split option.split)

lemma udp_not_sni: "snd (evaluate_udp e direction source destination udp now) \<noteq> Allow DomainSni"
  using reverse_not_sni admit_not_sni start_dns_not_sni finish_dns_not_sni
  by (simp add: evaluate_udp_def Let_def split: option.split FlowState.split PolicyMode.split)

lemma names_ok_expire: "names_ok e \<Longrightarrow> names_ok (expire e now)"
  by (fastforce simp: names_ok_def expire_def Let_def engine_domain_matches_def set_retain expire_bindings_def)

lemma expire_bindings_count:
  "sum_list (map (length \<circ> snd) (expire_bindings now m)) \<le> sum_list (map (length \<circ> snd) m)"
proof (induction m)
  case (Cons p m)
  have "length (filter (\<lambda>b. db_expires b > now) (snd p)) \<le> length (snd p)" by simp
  with Cons show ?case by (cases p) (auto simp: expire_bindings_def intro!: add_le_mono)
qed (simp add: expire_bindings_def)

lemma keys_distinct_expire_bindings:
  "keys_distinct m \<Longrightarrow> keys_distinct (expire_bindings now m)"
proof -
  assume "keys_distinct m"
  moreover have "map fst (map (\<lambda>(a, bs). (a, filter (\<lambda>b. db_expires b > now) bs)) m) = map fst m"
    by (induction m) auto
  ultimately show ?thesis unfolding expire_bindings_def by (metis distinct_map_filter)
qed

lemma expire_inv:
  assumes inv: "engine_inv verified e"
  shows "engine_inv verified (expire e now)"
proof -
  note fl = engine_inv_parts(1) [OF inv]
  have "flows_inv (pe_config e) verified (pe_flows (expire e now)) (pe_total_tls_bytes (expire e now))"
    using fl length_retain_le [of "\<lambda>s. flow_expires s > now" "pe_flows e"]
    by (auto simp: flows_inv_def expire_def Let_def set_retain intro: le_trans)
  moreover have "dns_inv (expire e now)"
  proof -
    have "length (pe_pending_dns (expire e now)) \<le> length (pe_pending_dns e)"
      by (simp add: expire_def Let_def length_retain_le)
    moreover have "dns_binding_count (expire e now) \<le> dns_binding_count e"
      by (simp add: expire_def Let_def dns_binding_count_def expire_bindings_count)
    moreover have "keys_distinct (pe_dns_bindings (expire e now))" "keys_distinct (pe_pending_dns (expire e now))"
      using inv by (simp_all add: expire_def Let_def engine_inv_def dns_inv_def keys_distinct_expire_bindings)
    moreover have "limits_of (expire e now) = limits_of e" by (simp add: expire_def Let_def)
    ultimately show ?thesis
      using inv names_ok_expire [of e now] unfolding engine_inv_def dns_inv_def by simp
  qed
  moreover have "pe_config (expire e now) = pe_config e" by (simp add: expire_def Let_def)
  ultimately show ?thesis using inv by (simp add: engine_inv_def)
qed

text \<open>The packet and the TCP segment a frame carries, as \<^const>\<open>evaluate_ethernet\<close> reads them.\<close>

definition frame_type :: "bytes \<Rightarrow> u16" where
  "frame_type frame = be16 (frame ! 12) (frame ! 13)"

definition frame_packet :: "bytes \<Rightarrow> (IpPacket, DenyReason) result" where
  "frame_packet frame =
     (if frame_type frame = ETHERTYPE_IPV4 then parse_ipv4 (drop ETHERNET_HEADER_LEN frame)
      else if frame_type frame = ETHERTYPE_IPV6 then parse_ipv6 (drop ETHERNET_HEADER_LEN frame)
      else Err UnsupportedEtherType)"

definition frame_tcp :: "bytes \<Rightarrow> (IpAddr \<times> IpAddr \<times> TcpPacket) option" where
  "frame_tcp frame =
     (if length frame < 14 then None
      else
        (case frame_packet frame of
           Inl _ \<Rightarrow> None
         | Inr p \<Rightarrow>
             if ip_protocol p = IPPROTO_TCP then
               (case parse_tcp (ip_payload p) of
                  Inl _ \<Rightarrow> None
                | Inr tcp \<Rightarrow> Some (ip_source p, ip_destination p, tcp))
             else None))"

definition frame_key :: "FrameDirection \<Rightarrow> bytes \<Rightarrow> FlowKey option" where
  "frame_key direction frame = map_option (\<lambda>(s, d, tcp). tcp_key direction s d tcp) (frame_tcp frame)"

lemma ether_types: "ETHERTYPE_IPV4 \<noteq> ETHERTYPE_ARP" "ETHERTYPE_IPV6 \<noteq> ETHERTYPE_ARP" "IPPROTO_TCP \<noteq> IPPROTO_UDP"
  by code_simp+

lemma evaluate_ethernet_cases:
  "evaluate_ethernet e direction frame now =
     (if pc_mode (pe_config (expire e now)) = PolicyDisabled then (expire e now, Deny DenyDisabled)
      else if length frame < 14 then (expire e now, Deny Malformed)
      else if frame_type frame = ETHERTYPE_ARP then
        (expire e now, evaluate_arp (expire e now) direction (drop ETHERNET_HEADER_LEN frame))
      else
        (case frame_packet frame of
           Inr p \<Rightarrow> evaluate_ip (expire e now) direction p now
         | Inl r \<Rightarrow> (expire e now, Deny r)))"
proof (cases "length frame < 14")
  case True
  then have "get_range frame 12 14 = None" by (simp add: get_range_def)
  then show ?thesis unfolding evaluate_ethernet_def Let_def using True by simp
next
  case False
  then have "get_range frame 12 14 = Some [frame ! 12, frame ! 13]"
    using id_take_nth_drop [of 12 frame] id_take_nth_drop [of 13 frame]
    by (simp add: get_range_def take_Suc_conv_app_nth numeral_2_eq_2 flip: Cons_nth_drop_Suc)
  then show ?thesis
    using False unfolding evaluate_ethernet_def Let_def frame_packet_def
    by (simp only: option.case nth_Cons_0 nth_Cons_Suc One_nat_def if_False frame_type_def [symmetric] split: if_split) auto
qed

lemma evaluate_ethernet_tcp:
  assumes "frame_tcp frame = Some (s, d, tcp)" and "pc_mode (pe_config e) \<noteq> PolicyDisabled"
  shows "evaluate_ethernet e direction frame now = evaluate_tcp (expire e now) direction s d tcp now"
proof -
  have mode: "pc_mode (pe_config (expire e now)) \<noteq> PolicyDisabled" using assms(2) by (simp add: expire_def Let_def)
  have len: "\<not> length frame < 14" using assms(1) by (auto simp: frame_tcp_def)
  obtain p where p: "frame_packet frame = Inr p" "ip_protocol p = IPPROTO_TCP" "parse_tcp (ip_payload p) = Inr tcp"
    "s = ip_source p" "d = ip_destination p"
    using assms(1) by (auto simp: frame_tcp_def split: sum.splits if_splits)
  moreover have "frame_type frame \<noteq> ETHERTYPE_ARP"
    using p(1) ether_types(1,2) by (metis Inl_Inr_False frame_packet_def)
  ultimately show ?thesis
    unfolding evaluate_ethernet_cases using mode len ether_types(3) by (simp add: evaluate_ip_def)
qed

lemma evaluate_arp_not_sni: "evaluate_arp e direction p \<noteq> Allow DomainSni"
proof -
  have "(if a then Deny Malformed else if b then Allow ArpInfrastructure else Deny Infrastructure) \<noteq> Allow DomainSni" for a b
    by simp
  then show ?thesis unfolding evaluate_arp_def Let_def .
qed

lemma evaluate_ethernet_other:
  assumes "frame_tcp frame = None" and "engine_inv verified e"
  shows "engine_inv verified (fst (evaluate_ethernet e direction frame now)) \<and>
    snd (evaluate_ethernet e direction frame now) \<noteq> Allow DomainSni"
proof -
  have ex: "engine_inv verified (expire e now)" by (rule expire_inv [OF assms(2)])
  have ip: "engine_inv verified (fst (evaluate_ip (expire e now) direction p now)) \<and>
      snd (evaluate_ip (expire e now) direction p now) \<noteq> Allow DomainSni"
    if "frame_packet frame = Inr p" "\<not> length frame < 14" for p
  proof -
    have "ip_protocol p = IPPROTO_TCP \<Longrightarrow> \<exists>r. parse_tcp (ip_payload p) = Inl r"
      using assms(1) that by (simp add: frame_tcp_def split: sum.splits)
    then show ?thesis
      using ex evaluate_udp_inv [OF ex] udp_not_sni by (auto simp: evaluate_ip_def split: sum.splits)
  qed
  show ?thesis
    unfolding evaluate_ethernet_cases using ex ip evaluate_arp_not_sni by (simp split: sum.split)
qed

lemma evaluate_ethernet_inv:
  assumes inv: "engine_inv verified e"
  shows "engine_inv (if snd (evaluate_ethernet e direction frame now) = Allow DomainSni
      then insert (the (frame_key direction frame)) verified else verified)
    (fst (evaluate_ethernet e direction frame now))"
proof (cases "pc_mode (pe_config e) = PolicyDisabled")
  case True
  then show ?thesis using expire_inv [OF inv] by (simp add: evaluate_ethernet_def Let_def expire_def)
next
  case False
  show ?thesis
  proof (cases "frame_tcp frame")
    case None
    then show ?thesis using evaluate_ethernet_other [OF None inv] by simp
  next
    case (Some sdt)
    obtain s d tcp where t: "frame_tcp frame = Some (s, d, tcp)" using Some by (cases sdt) auto
    show ?thesis
      using evaluate_tcp_inv [OF expire_inv [OF inv], of now direction s d tcp now]
      unfolding evaluate_ethernet_tcp [OF t False] frame_key_def t by (auto split: if_splits)
  qed
qed


section \<open>Runs\<close>

text \<open>A run of the engine over a list of frames, with the decision for each of them.\<close>

type_synonym frame_event = "FrameDirection \<times> bytes \<times> duration"

primrec run_engine :: "PolicyEngine \<Rightarrow> frame_event list \<Rightarrow> PolicyEngine \<times> PolicyDecision list" where
  "run_engine e [] = (e, [])"
| "run_engine e (ev # evs) =
     (case evaluate_ethernet e (fst ev) (fst (snd ev)) (snd (snd ev)) of
        (e', d) \<Rightarrow> (case run_engine e' evs of (e'', ds) \<Rightarrow> (e'', d # ds)))"

definition verified_keys :: "frame_event list \<Rightarrow> PolicyDecision list \<Rightarrow> FlowKey set" where
  "verified_keys evs ds =
     {k. \<exists>j < length evs. ds ! j = Allow DomainSni \<and>
           frame_key (fst (evs ! j)) (fst (snd (evs ! j))) = Some k}"

lemma run_engine_length: "length (snd (run_engine e evs)) = length evs"
  by (induction evs arbitrary: e) (auto split: prod.splits dest: arg_cong [of _ _ "\<lambda>p. length (snd p)"])

lemma sni_has_key:
  "snd (evaluate_ethernet e direction frame now) = Allow DomainSni \<Longrightarrow> engine_inv verified e \<Longrightarrow>
   frame_key direction frame = Some (the (frame_key direction frame))"
  using evaluate_ethernet_other [of frame verified e direction now]
  by (cases "frame_tcp frame") (auto simp: frame_key_def)

lemma run_engine_inv:
  assumes "engine_inv verified e"
  shows "engine_inv (verified \<union> verified_keys evs (snd (run_engine e evs))) (fst (run_engine e evs))"
  using assms
proof (induction evs arbitrary: e verified)
  case Nil
  then show ?case by (simp add: verified_keys_def)
next
  case (Cons ev evs)
  obtain dir frame now where ev: "ev = (dir, frame, now)" by (cases ev)
  obtain e' d where step: "evaluate_ethernet e dir frame now = (e', d)" by (metis surj_pair)
  obtain e'' ds where rest: "run_engine e' evs = (e'', ds)" by (metis surj_pair)
  let ?v = "if d = Allow DomainSni then insert (the (frame_key dir frame)) verified else verified"
  have "engine_inv (?v \<union> verified_keys evs ds) e''"
    using Cons.IH [of ?v e'] evaluate_ethernet_inv [OF Cons.prems, of dir frame now] step rest by simp
  moreover have "verified_keys (ev # evs) (d # ds) =
      (if d = Allow DomainSni \<and> frame_key dir frame \<noteq> None then {the (frame_key dir frame)} else {}) \<union> verified_keys evs ds"
    by (auto simp: verified_keys_def ev less_Suc_eq_0_disj)
  moreover have "d = Allow DomainSni \<Longrightarrow> frame_key dir frame \<noteq> None"
    using sni_has_key [OF _ Cons.prems] step by (metis option.distinct(1) snd_conv)
  ultimately have "verified \<union> verified_keys (ev # evs) (d # ds) = ?v \<union> verified_keys evs ds" by auto
  moreover have "run_engine e (ev # evs) = (e'', d # ds)" by (simp add: ev step rest)
  ultimately show ?case using \<open>engine_inv (?v \<union> verified_keys evs ds) e''\<close> by simp
qed

lemma new_engine_inv:
  "limits_validate (pc_limits c) = Ok () \<Longrightarrow> engine_inv {} (policy_engine_new c)"
  by (simp add: engine_inv_def policy_engine_new_def flows_inv_def dns_inv_def names_ok_def
      dns_binding_count_def tls_bytes_held_def)

lemma insert_binding_config [simp]: "pe_config (insert_dns_binding e a name t) = pe_config e"
  by (simp add: insert_dns_binding_def Let_def)

lemma observe_config [simp]: "pe_config (observe_dns_answers e question answers now) = pe_config e"
proof -
  have "pe_config (foldl (bind_answer n question r now) e answers) = pe_config e" for n r
    by (induction answers arbitrary: e) (simp_all add: bind_answer_def Let_def split: DnsRecord.split option.split)
  then show ?thesis by (simp add: observe_dns_answers_def Let_def)
qed

lemma flow_config [simp]:
  "pe_config (fst (admit_flow e k now r)) = pe_config e"
  "pe_config (fst (allow_reverse e k now)) = pe_config e"
  "pe_config (fst (start_dns_query e guest server udp now)) = pe_config e"
  "pe_config (fst (finish_dns_response e server guest udp now)) = pe_config e"
  "pe_config (expire e now) = pe_config e"
  by (simp_all add: admit_flow_def insert_allowed_flow_def allow_reverse_def start_dns_query_def
      finish_dns_response_def expire_def Let_def split: option.split FlowState.split sum.split)

lemma tls_config [simp]:
  "pe_config (fst (start_tls_flow e k tcp now)) = pe_config e"
  "pe_config (fst (evaluate_existing_tcp e k s tcp now)) = pe_config e"
  by (simp_all add: start_tls_flow_def evaluate_existing_tcp_def Let_def split: prod.split FlowState.split)

lemma evaluate_tcp_config [simp]:
  "pe_config (fst (evaluate_tcp e direction source destination tcp now)) = pe_config e"
proof (cases direction)
  case NetworkToGuest
  then show ?thesis by (simp add: evaluate_tcp_def Let_def case_prod_beta)
next
  case GuestToNetwork
  then show ?thesis
    by (cases "map_of (pe_flows e) (tcp_key GuestToNetwork source destination tcp)"; cases "pc_mode (pe_config e)")
      (simp_all add: evaluate_tcp_def Let_def)
qed

lemma evaluate_udp_config [simp]:
  "pe_config (fst (evaluate_udp e direction source destination udp now)) = pe_config e"
proof -
  have "pe_config (fst (case s of Some (FlowAllowed t) \<Rightarrow> (e\<lparr>pe_flows := m\<rparr>, d) | _ \<Rightarrow> p)) = pe_config e"
    if "pe_config (fst p) = pe_config e" for s m d and p :: "PolicyEngine \<times> PolicyDecision"
    using that by (simp split: option.split FlowState.split)
  moreover have "pe_config (fst (case mode of
        PolicyUnrestricted \<Rightarrow> admit_flow e k now r1
      | PolicyAllowlist \<Rightarrow> if c1 then admit_flow e k now r2 else if c2 then (e, d1) else (e, d2)
      | PolicyDisabled \<Rightarrow> (e, d3))) = pe_config e" for mode k r1 r2 c1 c2 d1 d2 d3
    by (simp split: PolicyMode.split)
  ultimately show ?thesis by (simp add: evaluate_udp_def Let_def)
qed

lemma evaluate_ethernet_config [simp]: "pe_config (fst (evaluate_ethernet e direction frame now)) = pe_config e"
  by (simp add: evaluate_ethernet_cases evaluate_ip_def split: sum.split)

lemma run_engine_config [simp]: "pe_config (fst (run_engine e evs)) = pe_config e"
proof (induction evs arbitrary: e)
  case (Cons ev evs)
  show ?case
    using Cons [of "fst (evaluate_ethernet e (fst ev) (fst (snd ev)) (snd (snd ev)))"]
    by (simp split: prod.splits)
      (metis evaluate_ethernet_config fst_conv)
qed simp

end
