(* ===== verification/Policy_Properties.thy ===== *)
theory Policy_Properties
  imports Policy_Safety
begin

text \<open>
  The properties of the egress policy: bounded state, what an allowlisted run lets through, where
  DNS bindings come from, and two gaps of the implementation.
\<close>

section \<open>Properties\<close>

text \<open>
  C21: Whatever frames arrive, the engine's state stays within the configured limits: the
  flow, pending-query and DNS-binding tables, the bytes of every flow that waits for its
  ClientHello, and their total, which the byte counter always equals.
\<close>

theorem engine_state_bounded:
  assumes "limits_validate (pc_limits config) = Ok ()"
  shows "let e = fst (run_engine (policy_engine_new config) evs) in
     flow_count e \<le> max_flows (pc_limits config) \<and>
     length (pe_pending_dns e) \<le> max_pending_dns (pc_limits config) \<and>
     dns_binding_count e \<le> max_dns_bindings (pc_limits config) \<and>
     (\<forall>k f. map_of (pe_flows e) k = Some (PendingTls f) \<longrightarrow>
        length (tf_bytes f) \<le> max_tls_buffer_per_flow (pc_limits config)) \<and>
     pe_total_tls_bytes e = tls_bytes_held (pe_flows e) \<and>
     pe_total_tls_bytes e \<le> max_flows (pc_limits config) * max_tls_buffer_per_flow (pc_limits config)"
proof -
  define e where "e = fst (run_engine (policy_engine_new config) evs)"
  obtain v where inv: "engine_inv v e"
    unfolding e_def by (metis run_engine_inv new_engine_inv assms(1))
  have c: "pe_config e = config" by (simp add: e_def policy_engine_new_def)
  note fl = engine_inv_parts(1) [OF inv]
  have "length (tf_bytes f) \<le> max_tls_buffer_per_flow (pc_limits config)"
    if "map_of (pe_flows e) k = Some (PendingTls f)" for k f
    using flows_inv_lookup [OF fl that] by (simp add: flow_ok_def c)
  with inv total_bytes_bound(1) [OF fl engine_inv_parts(2) [OF inv]] show ?thesis
    unfolding e_def [symmetric] Let_def by (simp add: engine_inv_def flows_inv_def dns_inv_def flow_count_def c)
qed

theorem engine_state_bounded_witness:
  "flow_count (fst (run_engine (policy_engine_new
     \<lparr>pc_mode = PolicyUnrestricted, pc_cidrs = [], pc_domains = [], pc_dns_servers = {}, pc_arp_targets = {},
      pc_guest_ipv4_addresses = {}, pc_control_addresses = {}, pc_published_tcp_ports = {},
      pc_limits = limits_default\<rparr>) [(GuestToNetwork, [], 5)])) \<le> 1024"
proof -
  let ?c = "\<lparr>pc_mode = PolicyUnrestricted, pc_cidrs = [], pc_domains = [], pc_dns_servers = {}, pc_arp_targets = {},
      pc_guest_ipv4_addresses = {}, pc_control_addresses = {}, pc_published_tcp_ports = {},
      pc_limits = limits_default\<rparr> :: PolicyConfig"
  have "limits_validate (pc_limits ?c) = Ok ()" by (simp add: limits_default_ok)
  from engine_state_bounded [OF this, of "[(GuestToNetwork, [], 5)]"] show ?thesis
    by (simp add: limits_default_def Let_def)
qed

text \<open>
  A disabled policy passes nothing: every frame of every run in either direction is
  denied.
\<close>

theorem disabled_denies_all:
  assumes "pc_mode (pe_config e) = PolicyDisabled"
  shows "list_all (\<lambda>d. d = Deny DenyDisabled) (snd (run_engine e evs))"
  using assms
proof (induction evs arbitrary: e)
  case (Cons ev evs)
  let ?r = "evaluate_ethernet e (fst ev) (fst (snd ev)) (snd (snd ev))"
  have "snd ?r = Deny DenyDisabled" using Cons.prems by (simp add: evaluate_ethernet_cases)
  moreover have "list_all (\<lambda>d. d = Deny DenyDisabled) (snd (run_engine (fst ?r) evs))"
    using Cons by simp
  ultimately show ?case by (simp add: case_prod_beta)
qed simp

theorem disabled_denies_all_witness:
  "list_all (\<lambda>d. d = Deny DenyDisabled) (snd (run_engine (policy_engine_new
     \<lparr>pc_mode = PolicyDisabled, pc_cidrs = [], pc_domains = [], pc_dns_servers = {}, pc_arp_targets = {},
      pc_guest_ipv4_addresses = {}, pc_control_addresses = {}, pc_published_tcp_ports = {},
      pc_limits = limits_default\<rparr>) [(GuestToNetwork, replicate 60 8, 5), (NetworkToGuest, [], 6)]))"
  by (rule disabled_denies_all) (simp add: policy_engine_new_def)

subsection \<open>Verified server names\<close>

lemma finish_tls_allow:
  assumes "snd (finish_tls_progress e k flow progress rst has_payload now) = Allow r"
  shows "(r = DomainHandshake \<and> (rst \<or> \<not> has_payload)) \<or>
    (r = DomainSni \<and> \<not> rst \<and>
      (\<exists>name. progress = Inr (ClientHello (Some name) False) \<and> engine_domain_matches e name \<and>
         binding_matches e (fk_remote_ip k) name))"
  using assms
  by (auto simp: finish_tls_progress_def Let_def split: if_splits sum.splits TlsParse.splits option.splits)

lemma append_hello:
  assumes "append_tls_segment flow tcp lim remaining = (flow', Inr (ClientHello sni ech))"
  shows "parse_tls_client_hello (tf_bytes flow') = Inr (ClientHello sni ech)" and "tcp_payload tcp \<noteq> []"
    and "\<exists>new. tf_bytes flow' = tf_bytes flow @ new \<and> (\<exists>seen. tcp_payload tcp = seen @ new)"
proof -
  have p: "tcp_payload tcp \<noteq> []" using assms by (auto simp: append_tls_segment_def)
  then show "tcp_payload tcp \<noteq> []" .
  let ?off = "segment_offset flow tcp"
  let ?c = "min (length (tf_bytes flow) - ?off) (length (tcp_payload tcp))"
  have b: "tf_bytes flow' = tf_bytes flow @ drop ?c (tcp_payload tcp) \<and>
      parse_tls_client_hello (tf_bytes flow') = Inr (ClientHello sni ech)"
    using assms p unfolding append_tls_segment_def Let_def segment_offset_def [symmetric]
    by (auto split: if_splits option.splits)
  then show "parse_tls_client_hello (tf_bytes flow') = Inr (ClientHello sni ech)" by blast
  show "\<exists>new. tf_bytes flow' = tf_bytes flow @ new \<and> (\<exists>seen. tcp_payload tcp = seen @ new)"
    using b by (metis append_take_drop_id)
qed

definition held_bytes :: "PolicyEngine \<Rightarrow> FlowKey \<Rightarrow> bytes" where
  "held_bytes e k = (case map_of (pe_flows e) k of Some (PendingTls f) \<Rightarrow> tf_bytes f | _ \<Rightarrow> [])"

text \<open>
  The bytes held for a flow, completed by the end of a segment, are a ClientHello without ECH
  whose server name matches a domain rule and a DNS binding of the destination.
\<close>

definition hello_verified :: "PolicyEngine \<Rightarrow> bytes \<Rightarrow> IpAddr \<Rightarrow> bytes \<Rightarrow> bool" where
  "hello_verified e held destination payload \<longleftrightarrow>
     (\<exists>name seen new. payload = seen @ new \<and>
        parse_tls_client_hello (held @ new) = Ok (ClientHello (Some name) False) \<and>
        engine_domain_matches e name \<and> binding_matches e destination name)"

lemma hello_verified_cong:
  "pe_config e = pe_config e' \<Longrightarrow> pe_dns_bindings e = pe_dns_bindings e' \<Longrightarrow>
   hello_verified e held d p \<longleftrightarrow> hello_verified e' held d p"
  by (simp add: hello_verified_def engine_domain_matches_def binding_matches_def)

text \<open>When a segment of a flow that waits for its ClientHello passes.\<close>

definition tls_pass :: "PolicyEngine \<Rightarrow> bytes \<Rightarrow> IpAddr \<Rightarrow> TcpPacket \<Rightarrow> AllowReason \<Rightarrow> bool" where
  "tls_pass e held destination tcp r \<longleftrightarrow>
     r = DomainHandshake \<and> (tcp_rst tcp \<or> tcp_payload tcp = []) \<or>
     r = DomainSni \<and> hello_verified e held destination (tcp_payload tcp)"

lemma tls_step_allow:
  assumes app: "append_tls_segment flow tcp lim rem = (flow', progress)"
    and fin: "snd (finish_tls_progress e k flow' progress (tcp_rst tcp) (tcp_payload tcp \<noteq> []) now) = Allow r"
  shows "tls_pass e (tf_bytes flow) (fk_remote_ip k) tcp r"
  using finish_tls_allow [OF fin]
proof
  assume "r = DomainHandshake \<and> (tcp_rst tcp \<or> \<not> tcp_payload tcp \<noteq> [])"
  then show ?thesis by (simp add: tls_pass_def)
next
  assume "r = DomainSni \<and> \<not> tcp_rst tcp \<and>
      (\<exists>name. progress = Inr (ClientHello (Some name) False) \<and> engine_domain_matches e name \<and>
         binding_matches e (fk_remote_ip k) name)"
  then obtain name where r: "r = DomainSni" and name: "progress = Inr (ClientHello (Some name) False)"
    "engine_domain_matches e name" "binding_matches e (fk_remote_ip k) name" by blast
  with append_hello [of flow tcp lim rem flow' "Some name" False] app obtain new seen where
    "tf_bytes flow' = tf_bytes flow @ new" "tcp_payload tcp = seen @ new"
    "parse_tls_client_hello (tf_bytes flow') = Inr (ClientHello (Some name) False)" by auto
  with r name show ?thesis unfolding tls_pass_def hello_verified_def by metis
qed

lemma start_tls_allow:
  assumes "snd (start_tls_flow e k tcp now) = Allow r"
  shows "tls_pass e [] (fk_remote_ip k) tcp r"
proof -
  let ?f = "\<lparr>tf_initial_sequence = tcp_sequence tcp + (if tcp_syn tcp then 1 else 0), tf_bytes = [],
      tf_expires = duration_saturating_add now (pending_tls_ttl (limits_of e))\<rparr>"
  obtain flow' progress where app: "append_tls_segment ?f tcp (max_tls_buffer_per_flow (limits_of e))
      (wrapping_sub (max_total_tls_bytes (limits_of e)) (pe_total_tls_bytes e)) = (flow', progress)"
    by (metis surj_pair)
  have "snd (finish_tls_progress e k flow' progress (tcp_rst tcp) (tcp_payload tcp \<noteq> []) now) = Allow r"
    using assms app by (simp add: start_tls_flow_def Let_def split: if_splits)
  from tls_step_allow [OF app this] show ?thesis by simp
qed

lemma existing_allow:
  assumes "snd (evaluate_existing_tcp e k s tcp now) = Allow r"
  shows "case s of FlowAllowed _ \<Rightarrow> r = ReverseFlow | PendingTls f \<Rightarrow> tls_pass e (tf_bytes f) (fk_remote_ip k) tcp r"
proof (cases s)
  case (FlowAllowed t)
  with assms show ?thesis by (simp add: evaluate_existing_tcp_def)
next
  case (PendingTls f)
  let ?e1 = "e\<lparr>pe_total_tls_bytes := pe_total_tls_bytes e - length (tf_bytes f)\<rparr>"
  obtain flow' progress where app: "append_tls_segment f tcp (max_tls_buffer_per_flow (limits_of ?e1))
        (wrapping_sub (max_total_tls_bytes (limits_of ?e1)) (pe_total_tls_bytes ?e1)) = (flow', progress)"
    by (metis surj_pair)
  have "snd (finish_tls_progress ?e1 k flow' progress (tcp_rst tcp) (tcp_payload tcp \<noteq> []) now) = Allow r"
    using assms app PendingTls by (simp add: evaluate_existing_tcp_def Let_def)
  from tls_step_allow [OF app this] show ?thesis
    using PendingTls hello_verified_cong [of ?e1 e] by (simp add: tls_pass_def)
qed

text \<open>Every reason for which a TCP segment of the guest passes.\<close>

lemma admit_allow: "snd (admit_flow e k now reason) = Allow r \<Longrightarrow> r = reason"
  by (auto simp: admit_flow_def split: prod.splits if_splits)

lemma guest_tcp_allow:
  assumes k: "k = tcp_key GuestToNetwork source destination tcp"
    and allow: "snd (evaluate_tcp e GuestToNetwork source destination tcp now) = Allow r"
  shows "case map_of (pe_flows e) k of
      Some (FlowAllowed _) \<Rightarrow> r = ReverseFlow
    | Some (PendingTls f) \<Rightarrow> tls_pass e (tf_bytes f) destination tcp r
    | None \<Rightarrow>
        destination \<notin> pc_control_addresses (pe_config e) \<and> tcp_syn tcp \<and>
        (pc_mode (pe_config e) = PolicyUnrestricted \<and> r = AllowUnrestricted \<or>
         pc_mode (pe_config e) = PolicyAllowlist \<and> cidr_matches e destination \<and> r = AllowCidr \<or>
         pc_mode (pe_config e) = PolicyAllowlist \<and> tcp_destination_port tcp = HTTPS_PORT \<and>
         tls_pass e [] destination tcp r)"
proof -
  have remote: "fk_remote_ip k = destination" by (simp add: k flow_key_def)
  note unf = evaluate_tcp_def [of e GuestToNetwork source destination tcp now, unfolded Let_def, folded k]
  show ?thesis
  proof (cases "map_of (pe_flows e) k")
    case (Some s)
    let ?e = "e\<lparr>pe_flows := map_remove k (pe_flows e)\<rparr>"
    have "snd (evaluate_existing_tcp ?e k s tcp now) = Allow r" using allow Some by (simp add: unf)
    from existing_allow [OF this] show ?thesis
      using Some hello_verified_cong [of ?e e] by (simp add: remote tls_pass_def split: FlowState.splits)
  next
    case None
    with allow show ?thesis
      using start_tls_allow [of e k tcp now r] admit_allow [of e k now _ r] unfolding unf remote
      by (auto split: if_splits PolicyMode.splits)
  qed
qed

text \<open>
  C3: The one way a TCP flow of the guest is released for a domain: the bytes held for the
  flow, completed by this segment, are a ClientHello without ECH whose server name matches a domain
  rule and was bound to exactly this destination by an observed DNS answer.
\<close>

theorem domain_release_verified:
  assumes "evaluate_tcp e GuestToNetwork source destination tcp now = (e', Allow DomainSni)"
  shows "hello_verified e (held_bytes e (tcp_key GuestToNetwork source destination tcp)) destination (tcp_payload tcp)"
proof -
  define k where "k = tcp_key GuestToNetwork source destination tcp"
  have "snd (evaluate_tcp e GuestToNetwork source destination tcp now) = Allow DomainSni" using assms by simp
  from guest_tcp_allow [OF k_def this] show ?thesis
    unfolding k_def [symmetric]
    by (auto simp: held_bytes_def tls_pass_def split: option.splits FlowState.splits)
qed

text \<open>An allowlisted engine that has seen the DNS answer \<open>a.io = 1.2.3.4\<close>.\<close>

definition example_config :: PolicyConfig where
  "example_config =
     \<lparr>pc_mode = PolicyAllowlist, pc_cidrs = [], pc_domains = [\<lparr>dp_suffix = ''a.io'', dp_wildcard = False\<rparr>],
      pc_dns_servers = {}, pc_arp_targets = {}, pc_guest_ipv4_addresses = {}, pc_control_addresses = {},
      pc_published_tcp_ports = {},
      pc_limits = limits_default\<lparr>max_tls_buffer_per_flow := 512, max_total_tls_bytes := 512\<rparr>\<rparr>"

definition example_engine :: PolicyEngine where
  "example_engine = (policy_engine_new example_config)
     \<lparr>pe_dns_bindings := [(V4 0x01020304, [\<lparr>db_name = ''a.io'', db_expires = 10 ^ 12\<rparr>])]\<rparr>"

definition example_segment :: "u16 \<Rightarrow> u32 \<Rightarrow> bool \<Rightarrow> bool \<Rightarrow> bytes \<Rightarrow> TcpPacket" where
  "example_segment port sq syn rst payload =
     \<lparr>tcp_source_port = port, tcp_destination_port = HTTPS_PORT, tcp_sequence = sq, tcp_syn = syn,
      tcp_ack = \<not> syn, tcp_rst = rst, tcp_payload = payload\<rparr>"

theorem domain_release_verified_witness:
  "hello_verified example_engine [] (V4 0x01020304) hello_example"
proof -
  let ?t = "example_segment 4000 7 True False hello_example"
  have step: "snd (evaluate_tcp example_engine GuestToNetwork (V4 9) (V4 0x01020304) ?t 5) = Allow DomainSni"
    by code_simp
  then obtain e' where "evaluate_tcp example_engine GuestToNetwork (V4 9) (V4 0x01020304) ?t 5 = (e', Allow DomainSni)"
    by (metis prod.collapse)
  from domain_release_verified [OF this] show ?thesis
    by (simp add: example_segment_def held_bytes_def example_engine_def policy_engine_new_def)
qed

subsection \<open>Egress of an allowlisted run\<close>

lemma run_engine_append:
  "run_engine e (evs @ [(dir, frame, now)]) =
     (let (e', ds) = run_engine e evs; (e'', d) = evaluate_ethernet e' dir frame now in (e'', ds @ [d]))"
  by (induction evs arbitrary: e) (simp_all add: case_prod_beta Let_def)

lemma tcp_egress_allowed:
  assumes "pc_mode config = PolicyAllowlist" and "limits_validate (pc_limits config) = Ok ()"
    and "snd (run_engine (policy_engine_new config) (evs @ [(GuestToNetwork, frame, now)])) = ds @ [Allow r]"
    and "frame_tcp frame = Some (source, destination, tcp)"
  shows "list_ex (\<lambda>c. cidr_contains c destination) (pc_cidrs config) \<and> destination \<notin> pc_control_addresses config \<or>
     tcp_source_port tcp \<in> pc_published_tcp_ports config \<or>
     tcp_destination_port tcp = HTTPS_PORT \<and> destination \<notin> pc_control_addresses config \<and>
     (tcp_payload tcp = [] \<or> tcp_rst tcp \<or>
      (\<exists>j \<le> length evs. (ds @ [Allow r]) ! j = Allow DomainSni \<and>
         frame_key (fst ((evs @ [(GuestToNetwork, frame, now)]) ! j))
           (fst (snd ((evs @ [(GuestToNetwork, frame, now)]) ! j))) =
         Some (tcp_key GuestToNetwork source destination tcp)))"
proof -
  define e0 where "e0 = policy_engine_new config"
  define k where "k = tcp_key GuestToNetwork source destination tcp"
  obtain e ds' where run: "run_engine e0 evs = (e, ds')" by (metis surj_pair)
  have cfg: "pe_config e = config" using run run_engine_config [of e0 evs] by (simp add: e0_def policy_engine_new_def)
  have step: "snd (evaluate_ethernet e GuestToNetwork frame now) = Allow r" and ds: "ds' = ds"
    using assms(3) run unfolding e0_def [symmetric] run_engine_append
    by (auto simp: Let_def case_prod_beta)
  have len: "length ds = length evs" using run_engine_length [of e0 evs] run ds by simp
  have "engine_inv (verified_keys evs ds) e"
    using run_engine_inv [OF new_engine_inv [OF assms(2)], of evs] run ds by (simp add: e0_def)
  then have inv: "engine_inv (verified_keys evs ds) (expire e now)" by (rule expire_inv)
  have cfg': "pe_config (expire e now) = config" by (simp add: cfg)
  have allow: "snd (evaluate_tcp (expire e now) GuestToNetwork source destination tcp now) = Allow r"
    using step evaluate_ethernet_tcp [OF assms(4)] assms(1) cfg by simp
  have kf: "fk_remote_ip k = destination" "fk_guest_port k = tcp_source_port tcp" "fk_remote_port k = tcp_destination_port tcp"
    by (simp_all add: k_def flow_key_def)
  have verified: "\<exists>j \<le> length evs. (ds @ [Allow r]) ! j = Allow DomainSni \<and>
         frame_key (fst ((evs @ [(GuestToNetwork, frame, now)]) ! j))
           (fst (snd ((evs @ [(GuestToNetwork, frame, now)]) ! j))) = Some k"
    if "k \<in> verified_keys evs ds"
  proof -
    from that obtain j where j: "j < length evs" "ds ! j = Allow DomainSni"
      "frame_key (fst (evs ! j)) (fst (snd (evs ! j))) = Some k" by (auto simp: verified_keys_def)
    then show ?thesis using len by (intro exI [of _ j]) (simp add: nth_append)
  qed
  have now: "\<exists>j \<le> length evs. (ds @ [Allow r]) ! j = Allow DomainSni \<and>
         frame_key (fst ((evs @ [(GuestToNetwork, frame, now)]) ! j))
           (fst (snd ((evs @ [(GuestToNetwork, frame, now)]) ! j))) = Some k"
    if "r = DomainSni"
    using that len assms(4) by (intro exI [of _ "length evs"]) (simp add: nth_append frame_key_def k_def)
  show ?thesis
  proof (cases "map_of (pe_flows (expire e now)) k")
    case (Some s)
    note ok = flows_inv_lookup [OF engine_inv_parts(1) [OF inv] Some, unfolded cfg']
    show ?thesis
    proof (cases s)
      case (FlowAllowed t)
      with ok assms(1) verified show ?thesis unfolding k_def [symmetric] by (auto simp: flow_ok_def kf)
    next
      case (PendingTls f)
      with guest_tcp_allow [OF k_def allow] Some ok now show ?thesis
        unfolding k_def [symmetric] by (auto simp: flow_ok_def kf tls_pass_def)
    qed
  next
    case None
    with guest_tcp_allow [OF k_def allow] now assms(1) show ?thesis
      unfolding k_def [symmetric] by (auto simp: cfg cidr_matches_def tls_pass_def)
  qed
qed

text \<open>
  C2: In allowlist mode, whatever happened before, a TCP segment of the guest passes only
  if its destination is in a CIDR rule and no control address; or it answers on a published port;
  or it goes to port 443 of an address that is no control address and either carries no data, or
  resets the connection, or the server name of exactly this flow was verified, by this or an
  earlier segment.
\<close>

theorem allowlist_tcp_egress:
  assumes "pc_mode config = PolicyAllowlist" and "limits_validate (pc_limits config) = Ok ()"
    and "snd (run_engine (policy_engine_new config) (evs @ [(GuestToNetwork, frame, now)])) = ds @ [Allow r]"
    and "frame_tcp frame = Some (source, destination, tcp)"
  shows "list_ex (\<lambda>c. cidr_contains c destination) (pc_cidrs config) \<and> destination \<notin> pc_control_addresses config \<or>
     tcp_source_port tcp \<in> pc_published_tcp_ports config \<or>
     tcp_destination_port tcp = HTTPS_PORT \<and> destination \<notin> pc_control_addresses config \<and>
     (tcp_payload tcp = [] \<or> tcp_rst tcp \<or>
      (\<exists>j \<le> length evs. (ds @ [Allow r]) ! j = Allow DomainSni \<and>
         frame_key (fst ((evs @ [(GuestToNetwork, frame, now)]) ! j))
           (fst (snd ((evs @ [(GuestToNetwork, frame, now)]) ! j))) =
         Some (tcp_key GuestToNetwork source destination tcp)))"
  using assms by (rule tcp_egress_allowed)

text \<open>A SYN of the guest 192.168.127.2 to port 80 of 10.1.2.3.\<close>

definition example_syn_frame :: bytes where
  "example_syn_frame = [2, 2, 2, 2, 2, 2, 4, 4, 4, 4, 4, 4, 8, 0, 69, 0, 0, 40, 0, 0, 64, 0, 64, 6, 239, 33, 192, 168, 127, 2, 10, 1, 2, 3, 15, 160, 0, 80, 0, 0, 0, 7, 0, 0, 0, 0, 80, 2, 0, 0, 0, 0, 0, 0]"

theorem allowlist_tcp_egress_witness:
  "list_ex (\<lambda>c. cidr_contains c (V4 (ipv4_new 10 1 2 3)))
     [\<lparr>ci_address = V4 (ipv4_new 10 0 0 0), ci_prefix = 8\<rparr>]"
proof -
  let ?c = "example_config\<lparr>pc_cidrs := [\<lparr>ci_address = V4 (ipv4_new 10 0 0 0), ci_prefix = 8\<rparr>]\<rparr>"
  let ?t = "\<lparr>tcp_source_port = 4000, tcp_destination_port = 80, tcp_sequence = 7, tcp_syn = True,
      tcp_ack = False, tcp_rst = False, tcp_payload = []\<rparr>"
  have mode: "pc_mode ?c = PolicyAllowlist" "limits_validate (pc_limits ?c) = Ok ()" by code_simp+
  have run: "snd (run_engine (policy_engine_new ?c) ([] @ [(GuestToNetwork, example_syn_frame, 5)])) = [] @ [Allow AllowCidr]"
    by code_simp
  have tcp: "frame_tcp example_syn_frame = Some (V4 (ipv4_new 192 168 127 2), V4 (ipv4_new 10 1 2 3), ?t)"
    by code_simp
  have no: "tcp_source_port ?t \<notin> pc_published_tcp_ports ?c" "tcp_destination_port ?t \<noteq> HTTPS_PORT"
    by code_simp+
  from allowlist_tcp_egress [OF mode run tcp] no show ?thesis by auto
qed

text \<open>
  C23: In allowlist mode a UDP datagram of the guest passes only as DHCP to the broadcast
  address or a gateway, as a well-formed DNS query for a name of a domain rule to a configured
  server, or to an address of a CIDR rule that is no control address.
\<close>

theorem allowlist_udp_egress:
  assumes "pc_mode config = PolicyAllowlist" and "limits_validate (pc_limits config) = Ok ()"
    and "e = expire (fst (run_engine (policy_engine_new config) evs)) now"
    and "snd (evaluate_udp e GuestToNetwork source destination udp now) = Allow r"
  shows "is_dhcp e GuestToNetwork source destination udp \<or>
     (udp_destination_port udp = DNS_PORT \<and> destination \<in> pc_dns_servers config \<and>
      (\<exists>q. parse_dns_query (udp_payload udp) = Ok q \<and>
         list_ex (\<lambda>d. domain_matches d (dq_name q)) (pc_domains config))) \<or>
     (list_ex (\<lambda>c. cidr_contains c destination) (pc_cidrs config) \<and> destination \<notin> pc_control_addresses config)"
proof -
  define k where "k = flow_key GuestToNetwork source destination (udp_source_port udp) (udp_destination_port udp) TransportUdp"
  have k: "fk_transport k = TransportUdp" "fk_remote_ip k = destination" by (simp_all add: k_def flow_key_def)
  obtain v where inv: "engine_inv v e"
    unfolding assms(3) by (metis expire_inv run_engine_inv new_engine_inv assms(2))
  have cfg: "pe_config e = config" by (simp add: assms(3) policy_engine_new_def)
  note unf = evaluate_udp_def [of e GuestToNetwork source destination udp now, unfolded Let_def, folded k_def]
  have flow: "list_ex (\<lambda>c. cidr_contains c destination) (pc_cidrs config) \<and> destination \<notin> pc_control_addresses config"
    if "map_of (pe_flows e) k = Some s" for s
    using flows_inv_lookup [OF engine_inv_parts(1) [OF inv] that] assms(1) k
    by (auto simp: flow_ok_def cfg split: FlowState.splits)
  have dns: "\<exists>q. parse_dns_query (udp_payload udp) = Ok q \<and>
         list_ex (\<lambda>d. domain_matches d (dq_name q)) (pc_domains config)"
    if "snd (start_dns_query e source destination udp now) = Allow r"
    using that assms(1) by (auto simp: start_dns_query_def Let_def cfg engine_domain_matches_def split: sum.splits if_splits)
  show ?thesis
  proof (cases "is_dhcp e GuestToNetwork source destination udp \<or>
      (udp_destination_port udp = DNS_PORT \<and> destination \<in> pc_dns_servers config)")
    case True
    then show ?thesis using assms(4) dns unfolding unf cfg by (auto split: if_splits)
  next
    case False
    then have rest: "destination \<notin> pc_control_addresses config"
      "map_of (pe_flows e) k = None \<Longrightarrow> list_ex (\<lambda>c. cidr_contains c destination) (pc_cidrs config)"
      using assms(1,4) unfolding unf cfg by (auto simp: cidr_matches_def cfg split: if_splits)
    then show ?thesis using flow by (cases "map_of (pe_flows e) k") auto
  qed
qed

theorem allowlist_udp_egress_witness:
  "\<exists>q. parse_dns_query (dns_query_message 1 2 ''a.io'' 1) = Ok q \<and>
     list_ex (\<lambda>d. domain_matches d (dq_name q)) (pc_domains example_config)"
proof -
  let ?c = "example_config\<lparr>pc_dns_servers := {V4 7}\<rparr>"
  let ?e = "expire (fst (run_engine (policy_engine_new ?c) [])) 5"
  let ?u = "\<lparr>udp_source_port = 4000, udp_destination_port = DNS_PORT, udp_payload = dns_query_message 1 2 ''a.io'' 1\<rparr>"
  have c: "pc_mode ?c = PolicyAllowlist" "limits_validate (pc_limits ?c) = Ok ()" by code_simp+
  have a: "snd (evaluate_udp ?e GuestToNetwork (V4 9) (V4 7) ?u 5) = Allow DnsInfrastructure" by code_simp
  have no: "\<not> is_dhcp ?e GuestToNetwork (V4 9) (V4 7) ?u" "pc_cidrs ?c = []" by code_simp+
  from allowlist_udp_egress [OF c refl a] no show ?thesis by (auto simp: example_config_def)
qed

subsection \<open>Where DNS bindings come from\<close>

text \<open>The names an answer section reaches from a question through CNAME records.\<close>

inductive cname_reach :: "DnsRecord list \<Rightarrow> string \<Rightarrow> string \<Rightarrow> bool" for answers question where
  cname_start: "cname_reach answers question question"
| cname_next: "cname_reach answers question owner \<Longrightarrow> Cname owner target ttl \<in> set answers \<Longrightarrow>
    cname_reach answers question target"

definition reach_inv :: "DnsRecord list \<Rightarrow> string \<Rightarrow> nat \<Rightarrow> (string, nat) assoc \<Rightarrow> bool" where
  "reach_inv answers question n m \<longleftrightarrow>
     (\<forall>name t. map_of m name = Some t \<longrightarrow> cname_reach answers question name \<and> t \<le> n)"

lemma cname_step_reach:
  assumes "reach_inv answers question n (fst st)" and "r \<in> set answers"
  shows "reach_inv answers question n (fst (cname_step n st r))"
proof (cases r)
  case (Cname owner target ttl)
  show ?thesis
  proof (cases "map_of (fst st) owner")
    case None
    with assms Cname show ?thesis by (simp add: cname_step_def)
  next
    case (Some t)
    with assms have "cname_reach answers question owner" by (auto simp: reach_inv_def)
    with assms(2) Cname have "cname_reach answers question target" by (auto intro: cname_next)
    with assms(1) have "reach_inv answers question n (map_insert target u (fst st))" if "u \<le> n" for u
      using that by (simp add: reach_inv_def AList.update_conv)
    with assms(1) Cname Some show ?thesis
      by (simp add: cname_step_def Let_def split: option.split)
  qed
qed (use assms in \<open>simp add: cname_step_def\<close>)

lemma cname_pass_reach:
  "set rs \<subseteq> set answers \<Longrightarrow> reach_inv answers question n (fst st) \<Longrightarrow>
   reach_inv answers question n (fst (foldl (cname_step n) st rs))"
  by (induction rs arbitrary: st) (simp_all add: cname_step_reach)

lemma cname_walk_reach:
  "reach_inv answers question n m \<Longrightarrow> reach_inv answers question n (cname_walk n rounds answers m)"
proof (induction rounds arbitrary: m)
  case (Suc rounds)
  have "reach_inv answers question n (fst (foldl (cname_step n) (m, False) answers))"
    by (rule cname_pass_reach) (use Suc.prems in simp_all)
  with Suc.IH show ?case by (simp add: case_prod_beta)
qed simp

definition binding_in :: "PolicyEngine \<Rightarrow> IpAddr \<Rightarrow> DnsBinding \<Rightarrow> bool" where
  "binding_in e a b \<longleftrightarrow> (\<exists>bs. map_of (pe_dns_bindings e) a = Some bs \<and> b \<in> set bs)"

lemma refresh_mem: "b \<in> set (refresh_binding name t bs) \<Longrightarrow>
  b \<in> set bs \<or> eq_ignore_ascii_case (db_name b) name \<and> db_expires b = t"
  by (induction bs) (auto split: if_splits)

lemma insert_binding_in:
  assumes "binding_in (insert_dns_binding e a' name t) a b"
  shows "binding_in e a b \<or> a = a' \<and> eq_ignore_ascii_case (db_name b) name \<and> db_expires b = t"
proof -
  define bs where "bs = (case map_of (pe_dns_bindings e) a' of None \<Rightarrow> [] | Some x \<Rightarrow> x)"
  note unf = insert_dns_binding_def [of e a' name t, folded bs_def, unfolded Let_def]
  have old: "binding_in e a' x" if "x \<in> set bs" for x
    using that by (cases "map_of (pe_dns_bindings e) a'") (auto simp: bs_def binding_in_def)
  show ?thesis
    using assms old unfolding unf
    by (auto simp: binding_in_def AList.update_conv dest!: refresh_mem split: if_splits)
qed

lemma bind_answers_in:
  assumes "binding_in (foldl (bind_answer n question reachable now) e rs) a b"
  shows "binding_in e a b \<or>
    (\<exists>owner ttl p. Address owner a ttl \<in> set rs \<and> map_of reachable owner = Some p \<and>
       eq_ignore_ascii_case (db_name b) question \<and>
       db_expires b \<le> now + from_secs (min n (effective_dns_ttl ttl)))"
  using assms
proof (induction rs arbitrary: e)
  case (Cons r rs)
  show ?case
  proof (cases "binding_in (bind_answer n question reachable now e r) a b")
    case True
    show ?thesis
    proof (cases r)
      case (Address owner addr ttl)
      have le: "duration_saturating_add now (from_secs (min (min p (effective_dns_ttl ttl)) n)) \<le>
          now + from_secs (min n (effective_dns_ttl ttl))" for p
        by (rule le_trans [OF duration_saturating_add_le])
          (simp only: from_secs_def add_le_cancel_left, rule mult_le_mono1, simp only: min.boundedI min.cobounded1 min.cobounded2 min.coboundedI1 min.coboundedI2)
      have "binding_in e a b \<or> (a = addr \<and> map_of reachable owner \<noteq> None \<and> eq_ignore_ascii_case (db_name b) question \<and>
          db_expires b \<le> now + from_secs (min n (effective_dns_ttl ttl)))"
        using True Address le
        by (auto simp: bind_answer_def Let_def dest!: insert_binding_in split: option.splits if_splits)
      with Address show ?thesis by auto
    next
      case (Cname owner target ttl)
      with True show ?thesis by (simp add: bind_answer_def)
    qed
  next
    case False
    with Cons.IH [of "bind_answer n question reachable now e r"] Cons.prems show ?thesis by auto
  qed
qed simp



subsection \<open>Two gaps\<close>

text \<open>
  A reset of a flow whose server name is not verified yet passes with whatever data it
  carries: the flag is looked at before the data.
\<close>

theorem reset_passes_unverified_data:
  assumes "map_of (pe_flows e) (tcp_key GuestToNetwork source destination tcp) = Some (PendingTls f)"
    and "tcp_rst tcp"
  shows "snd (evaluate_tcp e GuestToNetwork source destination tcp now) = Allow DomainHandshake"
  using assms
  by (simp add: evaluate_tcp_def Let_def evaluate_existing_tcp_def finish_tls_progress_def case_prod_beta)

theorem reset_passes_unverified_data_witness:
  "snd (evaluate_tcp (fst (evaluate_tcp example_engine GuestToNetwork (V4 9) (V4 0x01020304)
       (example_segment 4000 7 True False []) 5)) GuestToNetwork (V4 9) (V4 0x01020304)
     (example_segment 4000 8 False True [115, 101, 99, 114, 101, 116]) 6) = Allow DomainHandshake"
proof (rule reset_passes_unverified_data)
  show "map_of (pe_flows (fst (evaluate_tcp example_engine GuestToNetwork (V4 9) (V4 0x01020304)
       (example_segment 4000 7 True False []) 5))) (tcp_key GuestToNetwork (V4 9) (V4 0x01020304)
     (example_segment 4000 8 False True [115, 101, 99, 114, 101, 116])) =
     Some (PendingTls \<lparr>tf_initial_sequence = 8, tf_bytes = [], tf_expires = 30000000005\<rparr>)"
    by code_simp
  show "tcp_rst (example_segment 4000 8 False True [115, 101, 99, 114, 101, 116])" by code_simp
qed

definition budget_segments :: "TcpPacket list" where
  "budget_segments =
     [example_segment 1 0 True False [], example_segment 1 1 False False ([22, 3, 1, 64, 0] @ replicate 295 0),
      example_segment 2 0 True False [], example_segment 2 1 False False ([22, 3, 1, 64, 0] @ replicate 195 0),
      example_segment 1 301 False False (replicate 212 0)]"

text \<open>
  The total budget for held ClientHello bytes is not a bound: for a flow that already
  holds bytes, only the new ones are compared with what is left after those bytes were given back.
  Five segments of two flows take an engine with a budget of 512 bytes to 712 held bytes.
\<close>

theorem tls_budget_exceeded:
  "let e = foldl (\<lambda>e tcp. fst (evaluate_tcp e GuestToNetwork (V4 9) (V4 0x01020304) tcp 5)) example_engine budget_segments in
   max_total_tls_bytes (limits_of e) = 512 \<and> pe_total_tls_bytes e = 712 \<and> tls_bytes_held (pe_flows e) = 712"
  by code_simp

end
