(* ===== verification/Relay.thy ===== *)
theory Relay
  imports Policy_Properties "HOL-Library.Sublist"
begin

text \<open>
  The relay between the guest's and the network proxy's datagram sockets, the publication of
  ports and the retained tail of the proxy's diagnostics (\<^verbatim>\<open>libkrun/network.rs\<close>). What the sockets, the
  operating system and the proxy answer is an input of the definitions.
\<close>

section \<open>Relay\<close>

definition MAX_ETHERNET_FRAME :: nat where "MAX_ETHERNET_FRAME = 65535"
definition AUTO_PORT_ATTEMPTS :: nat where "AUTO_PORT_ATTEMPTS = 8"

text \<open>
  What ends one turn of \<^verbatim>\<open>select!\<close>: the shutdown signal, or a datagram (or an error) received from
  one side, at an elapsed time, with the result its forwarding would have.
\<close>

datatype 'io relay_event =
    Shutdown
  | Received FrameDirection "(bytes, 'io) result" duration "(unit, 'io) result"

text \<open>
  The result \<^const>\<open>None\<close> is a relay that still runs. A datagram longer than the buffer is cut by the
  socket.
\<close>

primrec run_policy_relay ::
  "PolicyEngine \<Rightarrow> 'io relay_event list \<Rightarrow> (unit, 'io) result option \<times> (FrameDirection \<times> bytes) list" where
  "run_policy_relay policy [] = (None, [])"
| "run_policy_relay policy (ev # evs) =
     (case ev of
        Shutdown \<Rightarrow> (Some (Ok ()), [])
      | Received direction received elapsed sending \<Rightarrow>
          (case received of
             Inl io \<Rightarrow> (Some (Err io), [])
           | Inr datagram \<Rightarrow>
               let frame = take MAX_ETHERNET_FRAME datagram in
               (case evaluate_ethernet policy direction frame elapsed of
                  (policy', Allow _) \<Rightarrow>
                    (case sending of
                       Inl io \<Rightarrow> (Some (Err io), [])
                     | Inr _ \<Rightarrow>
                         (case run_policy_relay policy' evs of
                            (r, sent) \<Rightarrow> (r, (direction, frame) # sent)))
                | (policy', _) \<Rightarrow> run_policy_relay policy' evs)))"

text \<open>The frames a relay gets to see, and the ones an engine allows among them.\<close>

primrec received_frames :: "'io relay_event list \<Rightarrow> frame_event list" where
  "received_frames [] = []"
| "received_frames (ev # evs) =
     (case ev of
        Shutdown \<Rightarrow> []
      | Received direction (Inl _) elapsed sending \<Rightarrow> []
      | Received direction (Inr datagram) elapsed sending \<Rightarrow>
          (direction, take MAX_ETHERNET_FRAME datagram, elapsed) # received_frames evs)"

fun allowed_frames :: "frame_event list \<Rightarrow> PolicyDecision list \<Rightarrow> (FrameDirection \<times> bytes) list" where
  "allowed_frames ((direction, frame, _) # fs) (d # ds) =
     (if is_allowed d then (direction, frame) # allowed_frames fs ds else allowed_frames fs ds)"
| "allowed_frames _ _ = []"

definition sends_succeed :: "'io relay_event list \<Rightarrow> bool" where
  "sends_succeed evs \<longleftrightarrow>
     list_all (\<lambda>ev. case ev of Shutdown \<Rightarrow> True | Received _ _ _ sending \<Rightarrow> is_ok sending) evs"

lemma relay_sends_allowed:
  "prefix (snd (run_policy_relay e evs))
     (allowed_frames (received_frames evs) (snd (run_engine e (received_frames evs)))) \<and>
   (sends_succeed evs \<longrightarrow> snd (run_policy_relay e evs) =
      allowed_frames (received_frames evs) (snd (run_engine e (received_frames evs))))"
proof (induction evs arbitrary: e)
  case Nil
  then show ?case by simp
next
  case (Cons ev evs)
  show ?case
  proof (cases ev)
    case Shutdown
    then show ?thesis by simp
  next
    case (Received direction received elapsed sending)
    show ?thesis
    proof (cases received)
      case (Inl io)
      with Received show ?thesis by simp
    next
      case (Inr datagram)
      define frame where "frame = take MAX_ETHERNET_FRAME datagram"
      obtain e' d where step: "evaluate_ethernet e direction frame elapsed = (e', d)" by fastforce
      show ?thesis
        using Cons.IH [of e'] Received Inr step
        by (cases d; cases sending)
          (auto simp: frame_def [symmetric] Let_def is_allowed_def sends_succeed_def split: prod.splits)
    qed
  qed
qed

lemma allowed_frames_nth:
  "(direction, frame) \<in> set (allowed_frames fs ds) \<Longrightarrow>
   \<exists>i now r. i < length fs \<and> i < length ds \<and> fs ! i = (direction, frame, now) \<and> ds ! i = Allow r"
proof (induction fs ds rule: allowed_frames.induct)
  case (1 direction' frame' now' fs d ds)
  show ?case
  proof (cases "is_allowed d \<and> (direction, frame) = (direction', frame')")
    case True
    then show ?thesis
      by - (rule exI [of _ 0], auto simp: is_allowed_def split: PolicyDecision.splits)
  next
    case False
    with 1 obtain i now r where "i < length fs" "i < length ds" "fs ! i = (direction, frame, now)" "ds ! i = Allow r"
      by (auto split: if_splits)
    then show ?thesis by - (rule exI [of _ "Suc i"], auto)
  qed
qed simp_all

lemma run_engine_take:
  "snd (run_engine e (take n evs)) = take n (snd (run_engine e evs))"
proof (induction evs arbitrary: e n)
  case (Cons ev evs)
  then show ?case by (cases n) (simp_all add: case_prod_beta)
qed simp

lemma relayed_frame:
  assumes "(direction, frame) \<in> set (snd (run_policy_relay e evs))"
  obtains i now r where "i < length (received_frames evs)"
    and "received_frames evs ! i = (direction, frame, now)"
    and "snd (run_engine e (take i (received_frames evs) @ [(direction, frame, now)])) =
      take i (snd (run_engine e (received_frames evs))) @ [Allow r]"
    and "snd (run_engine e (received_frames evs)) ! i = Allow r"
proof -
  let ?fs = "received_frames evs"
  have "(direction, frame) \<in> set (allowed_frames ?fs (snd (run_engine e ?fs)))"
    using assms relay_sends_allowed [of e evs] set_mono_prefix by blast
  then obtain i now r where i: "i < length ?fs" "?fs ! i = (direction, frame, now)"
      "i < length (snd (run_engine e ?fs))" "snd (run_engine e ?fs) ! i = Allow r"
    using allowed_frames_nth by blast
  have "snd (run_engine e (take (Suc i) ?fs)) = take (Suc i) (snd (run_engine e ?fs))"
    by (rule run_engine_take)
  with i show ?thesis
    by (intro that [of i now r]) (simp_all add: take_Suc_conv_app_nth)
qed

section \<open>Published ports\<close>

text \<open>
  \<open>allocate\<close> and \<open>expose\<close> are the outcomes of the \<open>n\<close>-th attempt to allocate a loopback port and to
  have the proxy expose it; an allocation error is returned at once, an exposure error when it is
  the last of the attempts for its request.
\<close>

primrec expose_attempts ::
  "(nat \<Rightarrow> IpAddr \<Rightarrow> (u16, 'io) result) \<Rightarrow> (nat \<Rightarrow> PublishRequest \<Rightarrow> (unit, 'io) result) \<Rightarrow> PublishRequest
     \<Rightarrow> nat \<Rightarrow> nat \<Rightarrow> 'io option \<Rightarrow> (PublishRequest option, 'io) result \<times> nat" where
  "expose_attempts allocate expose request 0 n last_error =
     (case last_error of Some io \<Rightarrow> (Err io, n) | None \<Rightarrow> (Ok None, n))"
| "expose_attempts allocate expose request (Suc attempts) n last_error =
     (case (if pr_host_port request = 0 then allocate n (pr_host_address request)
            else Ok (pr_host_port request)) of
        Inl io \<Rightarrow> (Err io, n + 1)
      | Inr host_port \<Rightarrow>
          let exposed = \<lparr>pr_protocol = pr_protocol request, pr_host_address = pr_host_address request,
                         pr_host_port = host_port, pr_guest_port = pr_guest_port request\<rparr>
          in case expose n exposed of
               Inr _ \<Rightarrow> (Ok (Some exposed), n + 1)
             | Inl io \<Rightarrow> expose_attempts allocate expose request attempts (n + 1) (Some io))"

primrec expose_ports_loop ::
  "(nat \<Rightarrow> IpAddr \<Rightarrow> (u16, 'io) result) \<Rightarrow> (nat \<Rightarrow> PublishRequest \<Rightarrow> (unit, 'io) result)
     \<Rightarrow> PublishRequest list \<Rightarrow> nat \<Rightarrow> PublishRequest list \<Rightarrow> (PublishRequest list, 'io) result" where
  "expose_ports_loop allocate expose [] n published = Ok published"
| "expose_ports_loop allocate expose (request # requests) n published =
     (case expose_attempts allocate expose request
             (if pr_host_port request = 0 then AUTO_PORT_ATTEMPTS else 1) n None of
        (Inl io, _) \<Rightarrow> Err io
      | (Inr None, n') \<Rightarrow> expose_ports_loop allocate expose requests n' published
      | (Inr (Some exposed), n') \<Rightarrow>
          expose_ports_loop allocate expose requests n' (published @ [exposed]))"

definition expose_ports ::
  "(nat \<Rightarrow> IpAddr \<Rightarrow> (u16, 'io) result) \<Rightarrow> (nat \<Rightarrow> PublishRequest \<Rightarrow> (unit, 'io) result)
     \<Rightarrow> PublishRequest list \<Rightarrow> (PublishRequest list, 'io) result" where
  "expose_ports allocate expose requests = expose_ports_loop allocate expose requests 0 []"

definition published_for ::
  "(nat \<Rightarrow> PublishRequest \<Rightarrow> (unit, 'io) result) \<Rightarrow> PublishRequest \<Rightarrow> PublishRequest \<Rightarrow> bool" where
  "published_for expose request exposed \<longleftrightarrow>
     pr_protocol exposed = pr_protocol request \<and> pr_host_address exposed = pr_host_address request \<and>
     pr_guest_port exposed = pr_guest_port request \<and>
     (pr_host_port request \<noteq> 0 \<longrightarrow> pr_host_port exposed = pr_host_port request) \<and>
     (\<exists>n. expose n exposed = Ok ())"

lemma expose_attempts_Inr:
  "fst (expose_attempts allocate expose request attempts n last_error) = Inr x \<Longrightarrow>
   attempts \<noteq> 0 \<or> last_error \<noteq> None \<Longrightarrow> \<exists>exposed. x = Some exposed \<and> published_for expose request exposed"
proof (induction attempts arbitrary: n last_error)
  case 0
  then show ?case by auto
next
  case (Suc attempts)
  show ?case
  proof (cases "if pr_host_port request = 0 then allocate n (pr_host_address request) else Inr (pr_host_port request)")
    case (Inl io)
    with Suc.prems(1) show ?thesis by simp
  next
    case (Inr host_port)
    define exposed where "exposed = \<lparr>pr_protocol = pr_protocol request, pr_host_address = pr_host_address request,
                         pr_host_port = host_port, pr_guest_port = pr_guest_port request\<rparr>"
    show ?thesis
    proof (cases "expose n exposed")
      case (Inl io)
      with Suc.prems(1) Inr Suc.IH [of "n + 1" "Some io"] show ?thesis by (simp add: exposed_def Let_def)
    next
      case r: (Inr u)
      have "x = Some exposed" using Suc.prems(1) Inr r by (simp add: exposed_def Let_def)
      moreover have "published_for expose request exposed"
        using r Inr by (auto simp: published_for_def exposed_def split: if_splits)
      ultimately show ?thesis by blast
    qed
  qed
qed

lemma expose_ports_loop_Inr:
  "expose_ports_loop allocate expose requests n published = Inr ys \<Longrightarrow>
   \<exists>zs. ys = published @ zs \<and> list_all2 (published_for expose) requests zs"
proof (induction requests arbitrary: n published)
  case (Cons request requests)
  let ?k = "if pr_host_port request = 0 then AUTO_PORT_ATTEMPTS else 1"
  obtain r n' where r: "expose_attempts allocate expose request ?k n None = (r, n')" by fastforce
  with Cons.prems obtain x where x: "r = Inr x" by (cases r) auto
  have "?k \<noteq> 0" by (simp add: AUTO_PORT_ATTEMPTS_def)
  then obtain exposed where e: "x = Some exposed" "published_for expose request exposed"
    using expose_attempts_Inr [of allocate expose request ?k n None x] r x by auto
  with Cons.prems r x have "expose_ports_loop allocate expose requests n' (published @ [exposed]) = Inr ys"
    by simp
  from Cons.IH [OF this] e(2) show ?case by auto
qed simp

section \<open>Bounded diagnostics\<close>

definition append_bounded_tail :: "bytes \<Rightarrow> bytes \<Rightarrow> nat \<Rightarrow> bytes" where
  "append_bounded_tail retained bs limit =
     (if limit = 0 then []
      else if limit \<le> length bs then drop (length bs - limit) bs
      else
        let overflow = saturating_add (length retained) (length bs) - limit
        in drop overflow retained @ bs)"

text \<open>The reads of \<^verbatim>\<open>read_bounded_tail\<close>: an empty one is the end of the stream.\<close>

primrec read_bounded_tail_loop ::
  "bytes \<Rightarrow> (bytes, 'io) result list \<Rightarrow> nat \<Rightarrow> (bytes, 'io) result option" where
  "read_bounded_tail_loop retained [] limit = None"
| "read_bounded_tail_loop retained (r # rs) limit =
     (case r of
        Inl io \<Rightarrow> Some (Err io)
      | Inr chunk \<Rightarrow>
          if chunk = [] then Some (Ok retained)
          else read_bounded_tail_loop (append_bounded_tail retained chunk limit) rs limit)"

definition read_bounded_tail :: "(bytes, 'io) result list \<Rightarrow> nat \<Rightarrow> (bytes, 'io) result option" where
  "read_bounded_tail reads limit = read_bounded_tail_loop [] reads limit"

definition tail_of :: "nat \<Rightarrow> bytes \<Rightarrow> bytes" where
  "tail_of n xs = drop (length xs - n) xs"

lemma append_bounded_tail_tail:
  assumes "length all + length bs \<le> U64_MAX"
  shows "append_bounded_tail (tail_of limit all) bs limit = tail_of limit (all @ bs)"
proof (cases "limit \<le> length bs")
  case True
  then show ?thesis by (auto simp: append_bounded_tail_def tail_of_def)
next
  case False
  have "length (tail_of limit all) \<le> length all" by (simp add: tail_of_def)
  then have "saturating_add (length (tail_of limit all)) (length bs) = length (tail_of limit all) + length bs"
    using assms by (simp add: saturating_add_def)
  with False show ?thesis
    by (cases "length all \<le> limit") (auto simp: append_bounded_tail_def tail_of_def Let_def add.commute)
qed

lemma read_bounded_tail_loop:
  "[] \<notin> set chunks \<Longrightarrow> length all + length (concat chunks) \<le> U64_MAX \<Longrightarrow>
   read_bounded_tail_loop (tail_of limit all) (map Inr chunks @ Inr [] # rest) limit =
     Some (Inr (tail_of limit (all @ concat chunks)))"
proof (induction chunks arbitrary: all)
  case (Cons c cs)
  have "append_bounded_tail (tail_of limit all) c limit = tail_of limit (all @ c)"
    using Cons.prems(2) by (intro append_bounded_tail_tail) simp
  with Cons.IH [of "all @ c"] Cons.prems show ?case by auto
qed simp

section \<open>Properties\<close>

text \<open>
  C22: The relay forwards exactly what the policy allows: the frames it sends are, in order and with
  their direction, the frames it received (cut to the buffer's size) that the engine, run over all
  received frames, allows; only an error of a socket or the shutdown signal can cut that sequence
  short.
\<close>

theorem relay_forwards_allowed:
  "prefix (snd (run_policy_relay e evs))
     (allowed_frames (received_frames evs) (snd (run_engine e (received_frames evs)))) \<and>
   (sends_succeed evs \<longrightarrow> snd (run_policy_relay e evs) =
      allowed_frames (received_frames evs) (snd (run_engine e (received_frames evs))))"
  by (rule relay_sends_allowed)

theorem relay_forwards_allowed_witness:
  "snd (run_policy_relay (policy_engine_new (example_config\<lparr>pc_cidrs :=
      [\<lparr>ci_address = V4 (ipv4_new 10 0 0 0), ci_prefix = 8\<rparr>]\<rparr>))
     [Received GuestToNetwork (Ok example_syn_frame) 5 (Ok ()),
      Received GuestToNetwork (Ok [1, 2, 3]) 6 (Ok () :: (unit, nat) result), Shutdown]) =
   [(GuestToNetwork, example_syn_frame)]"
proof -
  let ?e = "policy_engine_new (example_config\<lparr>pc_cidrs :=
      [\<lparr>ci_address = V4 (ipv4_new 10 0 0 0), ci_prefix = 8\<rparr>]\<rparr>)"
  let ?evs = "[Received GuestToNetwork (Ok example_syn_frame) 5 (Ok ()),
      Received GuestToNetwork (Ok [1, 2, 3]) 6 (Ok () :: (unit, nat) result), Shutdown]"
  have "sends_succeed ?evs" by code_simp
  moreover have "allowed_frames (received_frames ?evs) (snd (run_engine ?e (received_frames ?evs))) =
      [(GuestToNetwork, example_syn_frame)]"
    by code_simp
  ultimately show ?thesis using relay_forwards_allowed [of ?e ?evs] by metis
qed

text \<open>
  C1: From the validated specification of a run to the wire: with the policy built for an
  allowlisted run, every TCP segment of the guest that the relay sends to the network goes to an
  address of one of the specification's CIDR rules, or answers on a published guest port, or goes to
  port 443 with no data or a reset, or belongs to a flow whose server name was verified by
  a frame received no later. Nothing but an answer on a published port goes to the gateway.
\<close>

theorem relayed_tcp_egress:
  assumes "run_spec_validate spec = Ok ()" and "policy_config_for_spec spec = Ok (Some config)"
    and "(GuestToNetwork, frame) \<in> set (snd (run_policy_relay (policy_engine_new config) evs))"
    and "frame_tcp frame = Some (source, destination, tcp)"
  shows "tcp_source_port tcp \<in> pr_guest_port ` set (rs_publish spec) \<or>
    destination \<noteq> V4 GVPROXY_GATEWAY \<and>
    ((\<exists>policy rule cidr. rs_network_policy spec = Some policy \<and> rule \<in> set (np_allow_cidrs policy) \<and>
        cidr_from_str rule = Ok cidr \<and> cidr_contains cidr destination) \<or>
     tcp_destination_port tcp = HTTPS_PORT \<and>
     (tcp_payload tcp = [] \<or> tcp_rst tcp \<or>
      (\<exists>j < length (received_frames evs).
         snd (run_engine (policy_engine_new config) (received_frames evs)) ! j = Allow DomainSni \<and>
         frame_key (fst (received_frames evs ! j)) (fst (snd (received_frames evs ! j))) =
           Some (tcp_key GuestToNetwork source destination tcp))))"
proof -
  obtain policy where cfg: "rs_network_policy spec = Some policy" "pc_mode config = PolicyAllowlist"
      "list_all2 (\<lambda>s r. cidr_from_str s = Ok r) (np_allow_cidrs policy) (pc_cidrs config)"
      "pc_published_tcp_ports config = pr_guest_port ` set (rs_publish spec)"
      "pc_control_addresses config = {V4 GVPROXY_GATEWAY}" "limits_validate (pc_limits config) = Ok ()"
    using config_for_validated_spec [OF assms(1)] assms(2) by auto
  have rule: "\<exists>policy rule cidr. rs_network_policy spec = Some policy \<and> rule \<in> set (np_allow_cidrs policy) \<and>
        cidr_from_str rule = Ok cidr \<and> cidr_contains cidr destination"
    if hit: "list_ex (\<lambda>c. cidr_contains c destination) (pc_cidrs config)"
  proof -
    obtain i where "i < length (pc_cidrs config)" "cidr_contains (pc_cidrs config ! i) destination"
      using hit by (auto simp: list_ex_iff in_set_conv_nth)
    moreover from this cfg(3) have "np_allow_cidrs policy ! i \<in> set (np_allow_cidrs policy)"
        "cidr_from_str (np_allow_cidrs policy ! i) = Ok (pc_cidrs config ! i)"
      by (auto simp: list_all2_conv_all_nth)
    ultimately show ?thesis using cfg(1) by blast
  qed
  let ?fs = "received_frames evs"
  let ?ds = "snd (run_engine (policy_engine_new config) ?fs)"
  obtain i now r where i: "i < length ?fs" "?fs ! i = (GuestToNetwork, frame, now)" "?ds ! i = Allow r"
    and run: "snd (run_engine (policy_engine_new config) (take i ?fs @ [(GuestToNetwork, frame, now)])) =
      take i ?ds @ [Allow r]"
    using relayed_frame [OF assms(3)] by metis
  have len: "length ?ds = length ?fs" by (rule run_engine_length)
  have at: "(take i ?fs @ [(GuestToNetwork, frame, now)]) ! j = ?fs ! j" "(take i ?ds @ [Allow r]) ! j = ?ds ! j"
    if "j \<le> length (take i ?fs)" for j
    using that i len by (auto simp: nth_append min_def)
  from tcp_egress_allowed [OF cfg(2,6) run assms(4)] show ?thesis
    unfolding cfg(4,5)
  proof (elim disjE conjE)
    assume "list_ex (\<lambda>c. cidr_contains c destination) (pc_cidrs config)" "destination \<notin> {V4 GVPROXY_GATEWAY}"
    with rule show ?thesis by simp
  next
    assume d: "tcp_destination_port tcp = HTTPS_PORT" "destination \<notin> {V4 GVPROXY_GATEWAY}"
    assume "\<exists>j \<le> length (take i ?fs). (take i ?ds @ [Allow r]) ! j = Allow DomainSni \<and>
         frame_key (fst ((take i ?fs @ [(GuestToNetwork, frame, now)]) ! j))
           (fst (snd ((take i ?fs @ [(GuestToNetwork, frame, now)]) ! j))) =
         Some (tcp_key GuestToNetwork source destination tcp)"
    then obtain j where "j \<le> i" "?ds ! j = Allow DomainSni"
        "frame_key (fst (?fs ! j)) (fst (snd (?fs ! j))) = Some (tcp_key GuestToNetwork source destination tcp)"
      using at i(1) by auto
    with d i(1) show ?thesis by (meson le_less_trans singletonI)
  qed simp_all
qed

theorem relayed_tcp_egress_witness:
  "\<exists>policy rule cidr. rs_network_policy ((run_spec_command ''id'' [''true''])
     \<lparr>rs_network_policy := Some \<lparr>np_mode = Allowlist, np_allow_cidrs = [''10.0.0.0/8''], np_allow_domains = []\<rparr>\<rparr>) = Some policy \<and>
     rule \<in> set (np_allow_cidrs policy) \<and> cidr_from_str rule = Ok cidr \<and> cidr_contains cidr (V4 (ipv4_new 10 1 2 3))"
proof -
  let ?spec = "(run_spec_command ''id'' [''true''])
     \<lparr>rs_network_policy := Some \<lparr>np_mode = Allowlist, np_allow_cidrs = [''10.0.0.0/8''], np_allow_domains = []\<rparr>\<rparr>"
  let ?t = "\<lparr>tcp_source_port = 4000, tcp_destination_port = 80, tcp_sequence = 7, tcp_syn = True,
      tcp_ack = False, tcp_rst = False, tcp_payload = []\<rparr>"
  let ?evs = "[Received GuestToNetwork (Ok example_syn_frame) 5 (Ok () :: (unit, nat) result)]"
  have ok: "run_spec_validate ?spec = Ok ()" by code_simp
  define config where "config = the (projr (policy_config_for_spec ?spec))"
  have config: "policy_config_for_spec ?spec = Ok (Some config)"
    unfolding config_def by code_simp
  have sent: "(GuestToNetwork, example_syn_frame) \<in> set (snd (run_policy_relay (policy_engine_new config) ?evs))"
    unfolding config_def by code_simp
  have tcp: "frame_tcp example_syn_frame = Some (V4 (ipv4_new 192 168 127 2), V4 (ipv4_new 10 1 2 3), ?t)"
    by code_simp
  have no: "tcp_source_port ?t \<notin> pr_guest_port ` set (rs_publish ?spec)" "tcp_destination_port ?t \<noteq> HTTPS_PORT"
    by code_simp+
  from relayed_tcp_egress [OF ok config sent tcp] no show ?thesis by blast
qed

text \<open>
  When the publication of ports succeeds, every request, in order, has been published: with its
  protocol, host address and guest port, with its own host port unless it asked for an automatic
  one, and only after the proxy confirmed that very publication.
\<close>

theorem expose_ports_matches:
  assumes "expose_ports allocate expose requests = Ok published"
  shows "list_all2 (published_for expose) requests published"
  using expose_ports_loop_Inr [of allocate expose requests 0 "[]" published] assms
  by (simp add: expose_ports_def)

theorem expose_ports_matches_witness:
  "let q = \<lparr>pr_protocol = Tcp, pr_host_address = V4 1, pr_host_port = 0, pr_guest_port = 80\<rparr> in
   list_all2 (published_for (\<lambda>n _. if n < 3 then Err 7 else Ok () :: (unit, nat) result)) [q] [q\<lparr>pr_host_port := 1003\<rparr>]"
proof -
  let ?q = "\<lparr>pr_protocol = Tcp, pr_host_address = V4 1, pr_host_port = 0, pr_guest_port = 80\<rparr>"
  have "expose_ports (\<lambda>n _. Ok (1000 + of_nat n)) (\<lambda>n _. if n < 3 then Err 7 else Ok () :: (unit, nat) result) [?q] =
      Ok [?q\<lparr>pr_host_port := 1003\<rparr>]"
    by code_simp
  from expose_ports_matches [OF this] show ?thesis by (simp add: Let_def)
qed

text \<open>
  The diagnostics kept of a process are the last \<open>limit\<close> bytes of everything it wrote, however
  its output was split into reads.
\<close>

theorem bounded_tail_is_suffix:
  assumes "[] \<notin> set chunks" and "length (concat chunks) \<le> U64_MAX"
  shows "read_bounded_tail (map Ok chunks @ Ok [] # rest) limit =
    Some (Ok (drop (length (concat chunks) - limit) (concat chunks)))"
  using read_bounded_tail_loop [of chunks "[]" limit rest] assms
  by (simp add: read_bounded_tail_def tail_of_def)

theorem bounded_tail_is_suffix_witness:
  "read_bounded_tail ([Ok [1, 2, 3], Ok [4, 5], Ok [6]] @ [Ok [] :: (bytes, nat) result]) 4 = Some (Ok [3, 4, 5, 6])"
  using bounded_tail_is_suffix [of "[[1, 2, 3], [4, 5], [6]]" "[]" 4]
  by (simp add: U64_MAX_def)

end
