(* ===== verification/Pool.thy ===== *)
theory Pool
  imports Prelude "HOL-Library.Sublist"
begin

text \<open>
  The pool of prepared units (\<^verbatim>\<open>moraebox-runtime/src/pool.rs\<close>): per key a queue of values with
  an expiry instant, bounded by a configured size. Every operation takes the pool's mutex, so it is
  one step; the readings of the clock are parameters, and \<open>replenish\<close>, which releases the mutex
  while the factory runs, takes what other tasks do to the pool in that time as a parameter too.
\<close>

section \<open>Data\<close>

record PreparedKey =
  image_digest :: string
  workspace_digest :: "string option"
  policy_digest :: string

record PoolConfig =
  max_size :: nat
  idle_ttl :: duration

definition pool_config_default :: PoolConfig where
  "pool_config_default = \<lparr>max_size = 4, idle_ttl = from_secs (5 * 60)\<rparr>"

record 'v PreparedUnit =
  unit_value :: 'v
  expires_at :: nat

text \<open>The \<^verbatim>\<open>HashMap\<close> of queues is an association list with distinct keys.\<close>

record ('k, 'v) PoolState =
  units :: "('k \<times> 'v PreparedUnit list) list"
  pool_len :: nat

definition pool_state_default :: "('k, 'v) PoolState" where
  "pool_state_default = \<lparr>units = [], pool_len = 0\<rparr>"

datatype PoolError = ZeroCapacity | ZeroTtl | PoolFull nat

record PoolStats =
  ready :: nat
  keys :: nat
  capacity :: nat

section \<open>Operations\<close>

definition pool_new :: "PoolConfig \<Rightarrow> (PoolConfig \<times> ('k, 'v) PoolState, PoolError) result" where
  "pool_new cfg =
     (if max_size cfg = 0 then Err ZeroCapacity
      else if idle_ttl cfg = 0 then Err ZeroTtl
      else Ok (cfg, pool_state_default))"

text \<open>
  The closure of \<^verbatim>\<open>retain\<close>: the expired units of every queue are dropped, \<^verbatim>\<open>len\<close> decreases by
  their number (a wrapping \<^verbatim>\<open>-=\<close>), and a queue left empty loses its key.
\<close>

primrec prune_units ::
  "nat \<Rightarrow> ('k \<times> 'v PreparedUnit list) list \<Rightarrow> nat \<Rightarrow> ('k \<times> 'v PreparedUnit list) list \<times> nat" where
  "prune_units now [] n = ([], n)"
| "prune_units now (e # es) n =
     (let before = length (snd e);
          queue = filter (\<lambda>u. now < expires_at u) (snd e);
          rest = prune_units now es (wrapping_sub n (before - length queue))
      in if queue = [] then rest else ((fst e, queue) # fst rest, snd rest))"

definition prune :: "nat \<Rightarrow> ('k, 'v) PoolState \<Rightarrow> ('k, 'v) PoolState" where
  "prune now st =
     (let r = prune_units now (units st) (pool_len st) in \<lparr>units = fst r, pool_len = snd r\<rparr>)"

definition unit_queue :: "('k, 'v) PoolState \<Rightarrow> 'k \<Rightarrow> 'v PreparedUnit list" where
  "unit_queue st k = (case map_of (units st) k of None \<Rightarrow> [] | Some q \<Rightarrow> q)"

definition put ::
  "PoolConfig \<Rightarrow> nat \<Rightarrow> nat \<Rightarrow> 'k \<Rightarrow> 'v \<Rightarrow> ('k, 'v) PoolState
     \<Rightarrow> (unit, PoolError) result \<times> ('k, 'v) PoolState" where
  "put cfg now now' k v st0 =
     (let st = prune now st0 in
      if max_size cfg \<le> pool_len st then (Err (PoolFull (max_size cfg)), st)
      else (Ok (),
        \<lparr>units = AList.update k
           (unit_queue st k @ [\<lparr>unit_value = v, expires_at = now' + idle_ttl cfg\<rparr>]) (units st),
         pool_len = wrapping_add (pool_len st) 1\<rparr>))"

text \<open>\<^verbatim>\<open>lease\<close> without the wrapping of the value it takes.\<close>

definition lease_unit ::
  "nat \<Rightarrow> 'k \<Rightarrow> ('k, 'v) PoolState \<Rightarrow> 'v PreparedUnit option \<times> ('k, 'v) PoolState" where
  "lease_unit now k st0 =
     (let st = prune now st0 in
      case map_of (units st) k of
        None \<Rightarrow> (None, st)
      | Some [] \<Rightarrow> (None, st)
      | Some (u # rest) \<Rightarrow>
          (Some u,
           \<lparr>units = (if rest = [] then AList.delete k (units st)
                     else AList.update k rest (units st)),
            pool_len = wrapping_sub (pool_len st) 1\<rparr>))"

record 'v PreparedLease =
  lease_value :: "'v option"

definition lease ::
  "nat \<Rightarrow> 'k \<Rightarrow> ('k, 'v) PoolState \<Rightarrow> 'v PreparedLease option \<times> ('k, 'v) PoolState" where
  "lease now k st =
     (case lease_unit now k st of
        (None, st') \<Rightarrow> (None, st')
      | (Some u, st') \<Rightarrow> (Some \<lparr>lease_value = Some (unit_value u)\<rparr>, st'))"

text \<open>\<^verbatim>\<open>get\<close> and \<^verbatim>\<open>into_inner\<close> panic (\<^const>\<open>None\<close>) on a lease without a value.\<close>

definition lease_get :: "'v PreparedLease \<Rightarrow> 'v option" where
  "lease_get l = lease_value l"

definition lease_into_inner :: "'v PreparedLease \<Rightarrow> 'v option" where
  "lease_into_inner l = lease_value l"

definition pool_stats ::
  "PoolConfig \<Rightarrow> nat \<Rightarrow> ('k, 'v) PoolState \<Rightarrow> PoolStats \<times> ('k, 'v) PoolState" where
  "pool_stats cfg now st0 =
     (let st = prune now st0
      in (\<lparr>ready = pool_len st, keys = length (units st), capacity = max_size cfg\<rparr>, st))"

text \<open>
  The loop of \<^verbatim>\<open>replenish\<close>: \<open>made\<close> is the result of the factory call and \<open>others\<close> the effect
  of the tasks that run while it is awaited; the two clock readings are those of \<^verbatim>\<open>put\<close>.
\<close>

primrec replenish_loop ::
  "PoolConfig \<Rightarrow> 'k
     \<Rightarrow> (('v, 'e) result \<times> (('k, 'v) PoolState \<Rightarrow> ('k, 'v) PoolState) \<times> nat \<times> nat) list
     \<Rightarrow> nat \<Rightarrow> ('k, 'v) PoolState \<Rightarrow> (nat, 'e) result \<times> ('k, 'v) PoolState" where
  "replenish_loop cfg k [] added st = (Ok added, st)"
| "replenish_loop cfg k (c # cs) added st =
     (case c of (made, others, now, now') \<Rightarrow>
        let st1 = others st in
        case made of
          Inl e \<Rightarrow> (Err e, st1)
        | Inr v \<Rightarrow>
            (case put cfg now now' k v st1 of
               (Inl _, st2) \<Rightarrow> (Ok added, st2)
             | (Inr _, st2) \<Rightarrow> replenish_loop cfg k cs (added + 1) st2))"

text \<open>
  \<open>calls i\<close> describes the \<open>i\<close>-th iteration of \<^verbatim>\<open>for _ in current..target\<close>, an empty range when
  the queue is long enough.
\<close>

definition replenish ::
  "PoolConfig \<Rightarrow> nat \<Rightarrow> 'k \<Rightarrow> nat
     \<Rightarrow> (nat \<Rightarrow> ('v, 'e) result \<times> (('k, 'v) PoolState \<Rightarrow> ('k, 'v) PoolState) \<times> nat \<times> nat)
     \<Rightarrow> ('k, 'v) PoolState \<Rightarrow> (nat, 'e) result \<times> ('k, 'v) PoolState" where
  "replenish cfg now k target calls st0 =
     (let st = prune now st0;
          current = length (unit_queue st k);
          goal = min target (max_size cfg)
      in replenish_loop cfg k (map calls [0..<goal - current]) 0 st)"

section \<open>Invariant\<close>

definition stored :: "('k, 'v) PoolState \<Rightarrow> nat" where
  "stored st = sum_list (map (\<lambda>e. length (snd e)) (units st))"

definition pool_inv :: "PoolConfig \<Rightarrow> ('k, 'v) PoolState \<Rightarrow> bool" where
  "pool_inv cfg st \<longleftrightarrow>
     distinct (map fst (units st)) \<and> (\<forall>e \<in> set (units st). snd e \<noteq> []) \<and>
     pool_len st = stored st \<and> stored st \<le> max_size cfg"

lemma prune_units_fst:
  "fst (prune_units now es n) =
     filter (\<lambda>e. snd e \<noteq> []) (map (\<lambda>e. (fst e, filter (\<lambda>u. now < expires_at u) (snd e))) es)"
  by (induction es arbitrary: n) (simp_all add: Let_def)

lemma prune_units_snd:
  assumes "sum_list (map (\<lambda>e. length (snd e)) es) \<le> n"
  shows "snd (prune_units now es n) + sum_list (map (\<lambda>e. length (snd e)) es) =
         n + sum_list (map (\<lambda>e. length (snd e)) (fst (prune_units now es n)))"
  using assms
proof (induction es arbitrary: n)
  case Nil
  then show ?case by simp
next
  case (Cons e es)
  define q where "q = filter (\<lambda>u. now < expires_at u) (snd e)"
  have q: "length q \<le> length (snd e)" by (simp add: q_def)
  define m where "m = wrapping_sub n (length (snd e) - length q)"
  have m: "m = n - (length (snd e) - length q)"
    unfolding m_def by (rule wrapping_sub_le) (use Cons.prems in simp)
  have "sum_list (map (\<lambda>e. length (snd e)) es) \<le> m" using Cons.prems by (simp add: m)
  note IH = Cons.IH [OF this]
  have "prune_units now (e # es) n =
      (if q = [] then prune_units now es m
       else ((fst e, q) # fst (prune_units now es m), snd (prune_units now es m)))"
    unfolding prune_units.simps Let_def q_def [symmetric] m_def [symmetric] ..
  with IH q Cons.prems show ?case by (cases "q = []") (auto simp: m)
qed

lemma map_fst_prune_units:
  "distinct (map fst es) \<Longrightarrow> distinct (map fst (fst (prune_units now es n)))"
  unfolding prune_units_fst by (induction es) force+

lemma map_of_filter_map:
  "distinct (map fst es) \<Longrightarrow>
   map_of (filter (\<lambda>e. snd e \<noteq> []) (map (\<lambda>e. (fst e, f (snd e))) es)) k =
   (case map_of es k of None \<Rightarrow> None | Some q \<Rightarrow> if f q = [] then None else Some (f q))"
proof (induction es)
  case Nil
  then show ?case by simp
next
  case (Cons e es)
  have "fst e = k \<Longrightarrow> map_of es k = None" using Cons.prems by (auto simp: map_of_eq_None_iff)
  with Cons show ?case by auto
qed

lemma unit_queue_prune:
  assumes "distinct (map fst (units st))"
  shows "unit_queue (prune now st) k = filter (\<lambda>u. now < expires_at u) (unit_queue st k)"
  using map_of_filter_map [OF assms, of "filter (\<lambda>u. now < expires_at u)" k]
  by (auto simp: unit_queue_def prune_def Let_def prune_units_fst split: option.splits)

lemma stored_prune_le: "stored (prune now st) \<le> stored st"
proof -
  have "sum_list (map (\<lambda>e. length (snd e)) (fst (prune_units now es n)))
      \<le> sum_list (map (\<lambda>e. length (snd e)) es)" for es :: "('a \<times> 'b PreparedUnit list) list" and n
    unfolding prune_units_fst by (induction es) (auto intro: add_mono trans_le_add2)
  then show ?thesis by (simp add: stored_def prune_def Let_def)
qed

lemma prune_inv [inv_intros]:
  assumes "pool_inv cfg st"
  shows "pool_inv cfg (prune now st)"
proof -
  have len: "pool_len st = stored st" and le: "stored st \<le> max_size cfg"
    and d: "distinct (map fst (units st))"
    using assms by (auto simp: pool_inv_def)
  have "pool_len (prune now st) = stored (prune now st)"
    using prune_units_snd [of "units st" "pool_len st" now] len
    by (simp add: stored_def prune_def Let_def)
  moreover have "\<forall>e \<in> set (units (prune now st)). snd e \<noteq> []"
    by (simp add: prune_def Let_def prune_units_fst)
  moreover have "distinct (map fst (units (prune now st)))"
    using d by (simp add: prune_def Let_def map_fst_prune_units)
  ultimately show ?thesis
    using le stored_prune_le [of now st] by (simp add: pool_inv_def)
qed

lemma sum_list_update:
  "distinct (map fst es) \<Longrightarrow>
   sum_list (map (\<lambda>e. length (snd e)) (AList.update k q es)) + length (case_option [] id (map_of es k)) =
   sum_list (map (\<lambda>e. length (snd e)) es) + length q"
proof (induction es)
  case Nil
  then show ?case by simp
next
  case (Cons e es)
  have "fst e = k \<Longrightarrow> map_of es k = None" using Cons.prems by (auto simp: map_of_eq_None_iff)
  with Cons show ?case by (cases e) auto
qed

lemma delete_no_key: "k \<notin> fst ` set es \<Longrightarrow> AList.delete k es = es"
  by (induction es) auto

lemma sum_list_delete:
  "distinct (map fst es) \<Longrightarrow>
   sum_list (map (\<lambda>e. length (snd e)) (AList.delete k es)) + length (case_option [] id (map_of es k)) =
   sum_list (map (\<lambda>e. length (snd e)) es)"
proof (induction es)
  case Nil
  then show ?case by simp
next
  case (Cons e es)
  have "fst e = k \<Longrightarrow> AList.delete k es = es" using Cons.prems by (auto intro: delete_no_key)
  with Cons show ?case by (cases e) auto
qed

lemma set_update_snd: "e \<in> set (AList.update k q es) \<Longrightarrow> e = (k, q) \<or> e \<in> set es"
  by (induction es) (auto split: if_splits)

lemma put_full:
  "max_size cfg \<le> pool_len (prune now st) \<Longrightarrow>
   put cfg now now' k v st = (Err (PoolFull (max_size cfg)), prune now st)"
  by (simp add: put_def Let_def)

lemma put_inv [inv_intros]:
  assumes inv: "pool_inv cfg st" and max: "max_size cfg < 2 ^ 64"
  shows "pool_inv cfg (snd (put cfg now now' k v st))"
proof -
  define s where "s = prune now st"
  define q where "q = unit_queue s k @ [\<lparr>unit_value = v, expires_at = now' + idle_ttl cfg\<rparr>]"
  have s: "pool_inv cfg s" unfolding s_def using inv by (rule prune_inv)
  show ?thesis
  proof (cases "max_size cfg \<le> pool_len s")
    case True
    with s show ?thesis by (simp add: put_full flip: s_def)
  next
    case False
    have put: "snd (put cfg now now' k v st) =
        \<lparr>units = AList.update k q (units s), pool_len = wrapping_add (pool_len s) 1\<rparr>"
      using False by (simp add: put_def Let_def q_def flip: s_def)
    have d: "distinct (map fst (units s))" and len: "pool_len s = stored s"
      and ne: "\<forall>e \<in> set (units s). snd e \<noteq> []"
      using s by (auto simp: pool_inv_def)
    have "length q = length (case_option [] id (map_of (units s) k)) + 1"
      by (simp add: q_def unit_queue_def split: option.splits)
    then have "sum_list (map (\<lambda>e. length (snd e)) (AList.update k q (units s))) = stored s + 1"
      using sum_list_update [OF d, of k q] by (simp add: stored_def)
    moreover have "wrapping_add (pool_len s) 1 = stored s + 1"
      using False max len by simp
    moreover have "\<forall>e \<in> set (AList.update k q (units s)). snd e \<noteq> []"
      using ne by (auto dest!: set_update_snd simp: q_def)
    ultimately show ?thesis
      using False d len by (simp add: put pool_inv_def stored_def distinct_update)
  qed
qed

lemma lease_cases:
  fixes st :: "('k, 'v) PoolState" and now :: nat
  defines "s \<equiv> prune now st"
  obtains (empty) "unit_queue s k = []" "lease_unit now k st = (None, s)"
  | (unit) u rest where "unit_queue s k = u # rest" "map_of (units s) k = Some (u # rest)"
      "lease_unit now k st = (Some u,
         \<lparr>units = (if rest = [] then AList.delete k (units s) else AList.update k rest (units s)),
          pool_len = wrapping_sub (pool_len s) 1\<rparr>)"
proof (cases "unit_queue s k")
  case Nil
  then have "lease_unit now k st = (None, s)"
    by (auto simp: lease_unit_def Let_def unit_queue_def s_def split: option.splits list.splits)
  with Nil show ?thesis by (rule that(1))
next
  case (Cons u rest)
  then have m: "map_of (units s) k = Some (u # rest)"
    by (auto simp: unit_queue_def split: option.splits)
  then show ?thesis
    by (intro that(2) [OF Cons m]) (simp add: lease_unit_def Let_def s_def)
qed

lemma lease_inv [inv_intros]:
  assumes inv: "pool_inv cfg st"
  shows "pool_inv cfg (snd (lease_unit now k st))"
proof -
  define s where "s = prune now st"
  have s: "pool_inv cfg s" unfolding s_def using inv by (rule prune_inv)
  then have d: "distinct (map fst (units s))" and len: "pool_len s = stored s"
    and ne: "\<forall>e \<in> set (units s). snd e \<noteq> []" and le: "stored s \<le> max_size cfg"
    by (auto simp: pool_inv_def)
  show ?thesis
  proof (cases rule: lease_cases [where st = st and now = now and k = k])
    case empty
    with s show ?thesis by (simp flip: s_def)
  next
    case (unit u rest)
    define es where "es = (if rest = [] then AList.delete k (units s) else AList.update k rest (units s))"
    have m: "map_of (units s) k = Some (u # rest)" using unit(2) by (simp add: s_def)
    have "sum_list (map (\<lambda>e. length (snd e)) es) + 1 = stored s"
      using sum_list_update [OF d, of k rest] sum_list_delete [OF d, of k] m
      by (auto simp: es_def stored_def)
    moreover have "distinct (map fst es)"
      using d by (auto simp: es_def distinct_update distinct_delete)
    moreover have "\<forall>e \<in> set es. snd e \<noteq> []"
      using ne unit(1) by (auto simp: es_def AList.delete_eq dest!: set_update_snd)
    moreover have "snd (lease_unit now k st) = \<lparr>units = es, pool_len = wrapping_sub (pool_len s) 1\<rparr>"
      using unit(3) by (simp add: es_def s_def)
    ultimately show ?thesis
      using len le by (auto simp: pool_inv_def stored_def)
  qed
qed

section \<open>Queues\<close>

lemma unit_queue_update:
  "unit_queue \<lparr>units = AList.update k q (units s), pool_len = n\<rparr> k' = (if k' = k then q else unit_queue s k')"
  by (auto simp: unit_queue_def update_conv' split: option.splits)

lemma unit_queue_delete:
  "unit_queue \<lparr>units = AList.delete k (units s), pool_len = n\<rparr> k' = (if k' = k then [] else unit_queue s k')"
  by (auto simp: unit_queue_def delete_conv' split: option.splits)

lemma put_queue:
  assumes "\<not> max_size cfg \<le> pool_len (prune now st)"
  shows "fst (put cfg now now' k v st) = Ok ()"
    and "unit_queue (snd (put cfg now now' k v st)) k' =
      (if k' = k
       then unit_queue (prune now st) k @ [\<lparr>unit_value = v, expires_at = now' + idle_ttl cfg\<rparr>]
       else unit_queue (prune now st) k')"
  using assms by (simp_all add: put_def Let_def unit_queue_update)

lemma lease_queue:
  "(case fst (lease_unit now k st) of None \<Rightarrow> [] | Some u \<Rightarrow> [u]) @ unit_queue (snd (lease_unit now k st)) k =
   unit_queue (prune now st) k"
  "fst (lease_unit now k st) = None \<longleftrightarrow> unit_queue (prune now st) k = []"
  "k' \<noteq> k \<Longrightarrow> unit_queue (snd (lease_unit now k st)) k' = unit_queue (prune now st) k'"
  by (cases rule: lease_cases [where st = st and now = now and k = k];
      simp add: unit_queue_update unit_queue_delete)+

text \<open>
  A pool in operation: requests, each with its readings of the clock, and what they put into and
  take out of the queue of a key.
\<close>

datatype ('k, 'v) pool_op = OpPut nat nat 'k 'v | OpLease nat 'k | OpStats nat

primrec pool_step :: "PoolConfig \<Rightarrow> ('k, 'v) PoolState \<Rightarrow> ('k, 'v) pool_op \<Rightarrow> ('k, 'v) PoolState" where
  "pool_step cfg st (OpPut now now' k v) = snd (put cfg now now' k v st)"
| "pool_step cfg st (OpLease now k) = snd (lease now k st)"
| "pool_step cfg st (OpStats now) = snd (pool_stats cfg now st)"

primrec op_accepted ::
  "PoolConfig \<Rightarrow> ('k, 'v) PoolState \<Rightarrow> ('k, 'v) pool_op \<Rightarrow> 'k \<Rightarrow> 'v PreparedUnit list" where
  "op_accepted cfg st (OpPut now now' k v) k' =
     (if k' = k \<and> is_ok (fst (put cfg now now' k v st))
      then [\<lparr>unit_value = v, expires_at = now' + idle_ttl cfg\<rparr>] else [])"
| "op_accepted cfg st (OpLease now k) k' = []"
| "op_accepted cfg st (OpStats now) k' = []"

primrec op_leased ::
  "PoolConfig \<Rightarrow> ('k, 'v) PoolState \<Rightarrow> ('k, 'v) pool_op \<Rightarrow> 'k \<Rightarrow> 'v PreparedUnit list" where
  "op_leased cfg st (OpPut now now' k v) k' = []"
| "op_leased cfg st (OpLease now k) k' =
     (if k' = k then (case fst (lease_unit now k st) of None \<Rightarrow> [] | Some u \<Rightarrow> [u]) else [])"
| "op_leased cfg st (OpStats now) k' = []"

primrec pool_run :: "PoolConfig \<Rightarrow> ('k, 'v) PoolState \<Rightarrow> ('k, 'v) pool_op list \<Rightarrow> ('k, 'v) PoolState" where
  "pool_run cfg st [] = st"
| "pool_run cfg st (x # xs) = pool_run cfg (pool_step cfg st x) xs"

primrec run_accepted ::
  "PoolConfig \<Rightarrow> ('k, 'v) PoolState \<Rightarrow> ('k, 'v) pool_op list \<Rightarrow> 'k \<Rightarrow> 'v PreparedUnit list" where
  "run_accepted cfg st [] k = []"
| "run_accepted cfg st (x # xs) k = op_accepted cfg st x k @ run_accepted cfg (pool_step cfg st x) xs k"

primrec run_leased ::
  "PoolConfig \<Rightarrow> ('k, 'v) PoolState \<Rightarrow> ('k, 'v) pool_op list \<Rightarrow> 'k \<Rightarrow> 'v PreparedUnit list" where
  "run_leased cfg st [] k = []"
| "run_leased cfg st (x # xs) k = op_leased cfg st x k @ run_leased cfg (pool_step cfg st x) xs k"

lemma lease_snd [simp]: "snd (lease now k st) = snd (lease_unit now k st)"
  by (auto simp: lease_def split: prod.splits option.splits)

lemma lease_present:
  "fst (lease now k st) = map_option (\<lambda>u. \<lparr>lease_value = Some (unit_value u)\<rparr>) (fst (lease_unit now k st))"
  by (auto simp: lease_def split: prod.splits option.splits)

lemma pool_stats_snd [simp]: "snd (pool_stats cfg now st) = prune now st"
  by (simp add: pool_stats_def Let_def)

lemma pool_step_inv [inv_intros]:
  "pool_inv cfg st \<Longrightarrow> max_size cfg < 2 ^ 64 \<Longrightarrow> pool_inv cfg (pool_step cfg st x)"
  by (cases x) (simp_all add: inv_intros)

lemma pool_run_inv [inv_intros]:
  "pool_inv cfg st \<Longrightarrow> max_size cfg < 2 ^ 64 \<Longrightarrow> pool_inv cfg (pool_run cfg st xs)"
  by (induction xs arbitrary: st) (simp_all add: inv_intros)

text \<open>
  The contract of a lossy queue: what a step hands out followed by what it leaves is a
  subsequence of what was there followed by what it took in. Over a whole run nothing is handed
  out twice, nothing is invented and nothing overtakes.
\<close>

locale lossy_queue =
  fixes step :: "'s \<Rightarrow> 'x \<Rightarrow> 's" and good :: "'s \<Rightarrow> bool" and content :: "'s \<Rightarrow> 'u list"
    and taken_in :: "'s \<Rightarrow> 'x \<Rightarrow> 'u list" and handed_out :: "'s \<Rightarrow> 'x \<Rightarrow> 'u list"
  assumes good_step: "good s \<Longrightarrow> good (step s x)"
    and law: "good s \<Longrightarrow> subseq (handed_out s x @ content (step s x)) (content s @ taken_in s x)"
begin

primrec inputs :: "'s \<Rightarrow> 'x list \<Rightarrow> 'u list" where
  "inputs s [] = []"
| "inputs s (x # xs) = taken_in s x @ inputs (step s x) xs"

primrec outputs :: "'s \<Rightarrow> 'x list \<Rightarrow> 'u list" where
  "outputs s [] = []"
| "outputs s (x # xs) = handed_out s x @ outputs (step s x) xs"

lemma run_subseq:
  "good s \<Longrightarrow> subseq (outputs s xs @ content (foldl step s xs)) (content s @ inputs s xs)"
proof (induction xs arbitrary: s)
  case Nil
  then show ?case by simp
next
  case (Cons x xs)
  have "subseq (handed_out s x @ outputs (step s x) xs @ content (foldl step (step s x) xs))
      (handed_out s x @ content (step s x) @ inputs (step s x) xs)"
    using Cons.IH [OF good_step [OF Cons.prems, of x]] by (simp only: subseq_append')
  also have "subseq (handed_out s x @ content (step s x) @ inputs (step s x) xs)
      (content s @ taken_in s x @ inputs (step s x) xs)"
    using list_emb_append_mono [OF law [OF Cons.prems, of x] subseq_order.refl] by simp
  finally show ?case by simp
qed

lemma outputs_subseq:
  assumes "good s" and "content s = []"
  shows "subseq (outputs s xs) (inputs s xs)"
proof -
  have "subseq (outputs s xs) (outputs s xs @ content (foldl step s xs))"
    by (rule prefix_imp_subseq) simp
  also have "subseq (outputs s xs @ content (foldl step s xs)) (inputs s xs)"
    using run_subseq [OF assms(1), of xs] assms(2) by simp
  finally show ?thesis .
qed

end

lemma pool_step_queue:
  assumes "pool_inv cfg st"
  shows "subseq (op_leased cfg st x k @ unit_queue (pool_step cfg st x) k)
    (unit_queue st k @ op_accepted cfg st x k)"
proof -
  have pr: "subseq (unit_queue (prune now st) k') (unit_queue st k')" for now k'
    using assms by (simp add: unit_queue_prune pool_inv_def)
  show ?thesis
  proof (cases x)
    case (OpPut now now' k' v)
    show ?thesis
    proof (cases "max_size cfg \<le> pool_len (prune now st)")
      case True
      then show ?thesis using pr [of now k] by (simp add: OpPut put_full)
    next
      case False
      with pr [of now k] show ?thesis
        by (auto simp: OpPut put_queue)
    qed
  next
    case (OpLease now k')
    then show ?thesis
      using pr [of now k] lease_queue(1) [of now k st] lease_queue(3) [of k k' now st] by (cases "k = k'") auto
  next
    case (OpStats now)
    then show ?thesis using pr [of now k] by simp
  qed
qed

interpretation prepared: lossy_queue "pool_step cfg"
  "\<lambda>st. max_size cfg < 2 ^ 64 \<and> pool_inv cfg st" "\<lambda>st. unit_queue st k"
  "\<lambda>st x. op_accepted cfg st x k" "\<lambda>st x. op_leased cfg st x k" for cfg k
  by unfold_locales (auto intro: pool_step_inv pool_step_queue)

lemma run_accepted_inputs: "run_accepted cfg st xs k = prepared.inputs cfg k st xs"
  by (induction xs arbitrary: st) simp_all

lemma run_leased_outputs: "run_leased cfg st xs k = prepared.outputs cfg k st xs"
  by (induction xs arbitrary: st) simp_all

lemma pool_default_inv [inv_intros]: "pool_inv cfg pool_state_default"
  by (simp add: pool_inv_def pool_state_default_def stored_def)

lemma unit_queue_default [simp]: "unit_queue pool_state_default k = []"
  by (simp add: unit_queue_def pool_state_default_def)

lemma pool_new_Inr: "pool_new cfg = Inr (c, st) \<longleftrightarrow>
    c = cfg \<and> st = pool_state_default \<and> 0 < max_size cfg \<and> 0 < idle_ttl cfg"
  by (auto simp: pool_new_def)

section \<open>Abstract pool\<close>

text \<open>
  The specification: a function from keys to queues. An expired unit disappears at the next
  operation, a put appends while fewer than \<^verbatim>\<open>max_size\<close> live units are stored, a lease takes the
  head.
\<close>

definition live_queues :: "nat \<Rightarrow> ('k \<Rightarrow> 'v PreparedUnit list) \<Rightarrow> 'k \<Rightarrow> 'v PreparedUnit list" where
  "live_queues now Q k = filter (\<lambda>u. now < expires_at u) (Q k)"

definition spec_count :: "('k \<Rightarrow> 'v PreparedUnit list) \<Rightarrow> nat" where
  "spec_count Q = (\<Sum>k | Q k \<noteq> []. length (Q k))"

definition spec_put ::
  "PoolConfig \<Rightarrow> nat \<Rightarrow> nat \<Rightarrow> 'k \<Rightarrow> 'v \<Rightarrow> ('k \<Rightarrow> 'v PreparedUnit list)
     \<Rightarrow> (unit, PoolError) result \<times> ('k \<Rightarrow> 'v PreparedUnit list)" where
  "spec_put cfg now now' k v Q =
     (let L = live_queues now Q in
      if spec_count L < max_size cfg
      then (Ok (), L(k := L k @ [\<lparr>unit_value = v, expires_at = now' + idle_ttl cfg\<rparr>]))
      else (Err (PoolFull (max_size cfg)), L))"

definition spec_lease ::
  "nat \<Rightarrow> 'k \<Rightarrow> ('k \<Rightarrow> 'v PreparedUnit list) \<Rightarrow> 'v PreparedUnit option \<times> ('k \<Rightarrow> 'v PreparedUnit list)" where
  "spec_lease now k Q =
     (let L = live_queues now Q in
      case L k of [] \<Rightarrow> (None, L) | u # rest \<Rightarrow> (Some u, L(k := rest)))"

lemma spec_count_assoc:
  assumes "distinct (map fst es)" and "\<forall>e \<in> set es. snd e \<noteq> []"
  shows "(\<Sum>e\<leftarrow>es. length (snd e)) = spec_count (\<lambda>k. case_option [] id (map_of es k))"
proof -
  let ?Q = "\<lambda>k. case_option [] id (map_of es k)"
  have sup: "{k. ?Q k \<noteq> []} = fst ` set es"
    using assms by (force split: option.splits dest: map_of_SomeD simp: map_of_eq_None_iff)
  have "(\<Sum>e\<leftarrow>es. length (snd e)) = (\<Sum>e \<in> set es. length (snd e))"
    using assms(1) by (simp add: distinct_map sum_list_distinct_conv_sum_set)
  also have "\<dots> = (\<Sum>e \<in> set es. length (?Q (fst e)))"
    using assms(1) by (intro sum.cong) auto
  also have "\<dots> = (\<Sum>k \<in> fst ` set es. length (?Q k))"
    using assms(1) by (simp add: distinct_map sum.reindex)
  finally show ?thesis by (simp add: spec_count_def sup)
qed

lemma stored_spec_count:
  assumes "pool_inv cfg st"
  shows "stored st = spec_count (unit_queue st)"
proof -
  have "unit_queue st = (\<lambda>k. case_option [] id (map_of (units st) k))"
    by (auto simp: unit_queue_def fun_eq_iff split: option.splits)
  then show ?thesis
    using assms spec_count_assoc [of "units st"] by (simp add: pool_inv_def stored_def)
qed

lemma unit_queue_live:
  "pool_inv cfg st \<Longrightarrow> unit_queue (prune now st) = live_queues now (unit_queue st)"
  by (simp add: fun_eq_iff live_queues_def unit_queue_prune pool_inv_def)

lemma put_refines:
  assumes "pool_inv cfg st"
  shows "(fst (put cfg now now' k v st), unit_queue (snd (put cfg now now' k v st))) =
    spec_put cfg now now' k v (unit_queue st)"
proof -
  have n: "pool_len (prune now st) = spec_count (live_queues now (unit_queue st))"
    using prune_inv [OF assms, of now] stored_spec_count unit_queue_live [OF assms]
    by (metis pool_inv_def)
  show ?thesis
  proof (cases "max_size cfg \<le> pool_len (prune now st)")
    case True
    then show ?thesis
      using unit_queue_live [OF assms, of now] n by (simp add: put_full spec_put_def Let_def)
  next
    case False
    then show ?thesis
      using unit_queue_live [OF assms, of now] n put_queue [OF False]
      by (auto simp: spec_put_def Let_def fun_eq_iff)
  qed
qed

lemma lease_refines:
  assumes "pool_inv cfg st"
  shows "(fst (lease_unit now k st), unit_queue (snd (lease_unit now k st))) = spec_lease now k (unit_queue st)"
proof (cases rule: lease_cases [where st = st and now = now and k = k])
  case empty
  then show ?thesis
    using unit_queue_live [OF assms, of now] by (simp add: spec_lease_def Let_def)
next
  case (unit u rest)
  then show ?thesis
    using unit_queue_live [OF assms, of now]
    by (auto simp: spec_lease_def Let_def fun_eq_iff unit_queue_update unit_queue_delete)
qed

section \<open>Replenishing\<close>

lemma replenish_loop_inv:
  assumes "pool_inv cfg st" and "max_size cfg < 2 ^ 64"
    and "\<forall>c \<in> set cs. \<forall>s. pool_inv cfg s \<longrightarrow> pool_inv cfg (fst (snd c) s)"
  shows "pool_inv cfg (snd (replenish_loop cfg k cs n st))"
  using assms
proof (induction cs arbitrary: st n)
  case Nil
  then show ?case by simp
next
  case (Cons c cs)
  obtain made others now now' where c: "c = (made, others, now, now')" by (cases c) auto
  have s1: "pool_inv cfg (others st)" using Cons.prems(1,3) by (simp add: c)
  show ?case
  proof (cases made)
    case (Inl e)
    with s1 show ?thesis by (simp add: c)
  next
    case (Inr v)
    have s2: "pool_inv cfg (snd (put cfg now now' k v (others st)))"
      using s1 Cons.prems(2) by (rule put_inv)
    obtain r st2 where put: "put cfg now now' k v (others st) = (r, st2)" by fastforce
    show ?thesis
      using Cons.IH [of st2 "n + 1"] Cons.prems(2,3) s2 by (cases r) (auto simp: c Inr put)
  qed
qed

lemma replenish_loop_added:
  "fst (replenish_loop cfg k cs n st) = Inr m \<Longrightarrow> n \<le> m \<and> m \<le> n + length cs"
proof (induction cs arbitrary: st n)
  case (Cons c cs)
  then show ?case
    by (cases c) (fastforce split: sum.splits prod.splits simp: Let_def)
qed simp

section \<open>Properties\<close>

text \<open>
  A pool created with a valid configuration keeps its bookkeeping exact under every sequence of
  operations at every clock reading: the counter is the number of stored units (so the wrapping
  decrements never wrap), it never exceeds the configured capacity, no key has an empty queue and
  \<^verbatim>\<open>stats\<close> reports just that.
\<close>

theorem pool_bookkeeping:
  assumes "pool_new cfg = Ok (cfg, st0)" and "max_size cfg < 2 ^ 64"
  shows "let st = pool_run cfg st0 xs in
    pool_len st = spec_count (unit_queue st) \<and> pool_len st \<le> max_size cfg \<and>
    distinct (map fst (units st)) \<and> (\<forall>e \<in> set (units st). snd e \<noteq> []) \<and>
    ready (fst (pool_stats cfg now st)) = spec_count (live_queues now (unit_queue st))"
proof -
  define st where "st = pool_run cfg st0 xs"
  have inv: "pool_inv cfg st"
    unfolding st_def using assms by (auto simp: pool_new_Inr intro!: inv_intros)
  then have "pool_len (prune now st) = spec_count (live_queues now (unit_queue st))"
    using prune_inv [OF inv, of now] stored_spec_count unit_queue_live [OF inv]
    by (metis pool_inv_def)
  moreover have "pool_len st = spec_count (unit_queue st)"
    using inv stored_spec_count [OF inv] by (simp add: pool_inv_def)
  ultimately show ?thesis
    using inv stored_spec_count [OF inv] unfolding Let_def st_def [symmetric]
    by (simp add: pool_stats_def Let_def pool_inv_def)
qed

theorem pool_bookkeeping_witness:
  "let st = pool_run pool_config_default pool_state_default
       [OpPut 0 1 ''a'' (1::nat), OpPut 2 3 ''a'' 2, OpLease 5 ''a'', OpPut 6 7 ''b'' 3] in
    pool_len st = spec_count (unit_queue st) \<and> pool_len st \<le> 4 \<and>
    distinct (map fst (units st)) \<and> (\<forall>e \<in> set (units st). snd e \<noteq> []) \<and>
    ready (fst (pool_stats pool_config_default 9 st)) = spec_count (live_queues 9 (unit_queue st))"
  using pool_bookkeeping [of pool_config_default pool_state_default
      "[OpPut 0 1 ''a'' (1::nat), OpPut 2 3 ''a'' 2, OpLease 5 ''a'', OpPut 6 7 ''b'' 3]" 9]
  by (simp add: pool_new_def pool_config_default_def from_secs_def NANOS_PER_SEC_def)

text \<open>
  Under every sequence of operations on a new pool, the units leased for a key are, in order, a
  subsequence of the units that were successfully put for that key: no unit is leased twice or
  under another key, and none overtakes an older one.
\<close>

theorem pool_leases_in_order:
  assumes "pool_new cfg = Ok (cfg, st0)" and "max_size cfg < 2 ^ 64"
  shows "subseq (run_leased cfg st0 xs k) (run_accepted cfg st0 xs k)"
  unfolding run_leased_outputs run_accepted_inputs
  using assms by (intro prepared.outputs_subseq) (auto simp: pool_new_Inr pool_default_inv)

theorem pool_leases_in_order_witness:
  "subseq [\<lparr>unit_value = 1, expires_at = 300000000001\<rparr>]
     [\<lparr>unit_value = (1::nat), expires_at = 300000000001\<rparr>, \<lparr>unit_value = 2, expires_at = 300000000003\<rparr>]"
proof -
  let ?xs = "[OpPut 0 1 ''a'' (1::nat), OpPut 2 3 ''a'' 2, OpLease 5 ''a'', OpPut 6 7 ''b'' 3]"
  have "subseq (run_leased pool_config_default pool_state_default ?xs ''a'')
      (run_accepted pool_config_default pool_state_default ?xs ''a'')"
    by (rule pool_leases_in_order)
      (simp_all add: pool_new_def pool_config_default_def from_secs_def NANOS_PER_SEC_def)
  moreover have "run_leased pool_config_default pool_state_default ?xs ''a'' =
      [\<lparr>unit_value = 1, expires_at = 300000000001\<rparr>]"
    by code_simp
  moreover have "run_accepted pool_config_default pool_state_default ?xs ''a'' =
      [\<lparr>unit_value = 1, expires_at = 300000000001\<rparr>, \<lparr>unit_value = 2, expires_at = 300000000003\<rparr>]"
    by code_simp
  ultimately show ?thesis by simp
qed

text \<open>
  C30: Read as a function from keys to queues of live units, the pool implements the abstract
  bounded queue: \<^verbatim>\<open>put\<close> appends to the queue of its key exactly when fewer than \<^verbatim>\<open>max_size\<close> live
  units are stored and is refused with \<^verbatim>\<open>Full\<close> otherwise, \<^verbatim>\<open>lease\<close> takes the oldest live unit of
  its key, hands out its value, and returns nothing exactly when there is none; every other queue only loses its
  expired units.
\<close>

theorem pool_refines_queues:
  assumes "pool_inv cfg st"
  shows "(fst (put cfg now now' k v st), unit_queue (snd (put cfg now now' k v st))) =
      spec_put cfg now now' k v (unit_queue st) \<and>
    (fst (lease_unit now k st), unit_queue (snd (lease_unit now k st))) = spec_lease now k (unit_queue st) \<and>
    map_option lease_into_inner (fst (lease now k st)) =
      map_option (\<lambda>u. Some (unit_value u)) (fst (spec_lease now k (unit_queue st)))"
  using assms lease_refines [OF assms, of now k]
  by (auto simp: put_refines lease_present lease_into_inner_def option.map_comp o_def dest: arg_cong [where f = fst])

theorem pool_refines_queues_witness:
  "(fst (put pool_config_default 0 0 ''a'' True pool_state_default),
    unit_queue (snd (put pool_config_default 0 0 ''a'' True pool_state_default))) =
      spec_put pool_config_default 0 0 ''a'' True (\<lambda>_. []) \<and>
   fst (lease 0 ''a'' (pool_state_default :: (string, bool) PoolState)) = None"
  using pool_refines_queues [OF pool_default_inv, of pool_config_default 0 0 "''a''" True]
  by (simp add: spec_lease_def live_queues_def unit_queue_default [abs_def])

text \<open>
  Replenishing keeps the pool within its bounds whatever the other tasks do between the
  factory calls, as long as they keep them too; it adds at most the number of units missing to the
  target, clamped to the capacity, and nothing when the queue is long enough.
\<close>

theorem replenish_bounded:
  assumes "pool_inv cfg st" and "max_size cfg < 2 ^ 64"
    and "\<And>i s. pool_inv cfg s \<Longrightarrow> pool_inv cfg (fst (snd (calls i)) s)"
  shows "pool_inv cfg (snd (replenish cfg now k target calls st)) \<and>
    (\<forall>n. fst (replenish cfg now k target calls st) = Ok n \<longrightarrow>
       n \<le> min target (max_size cfg) - length (live_queues now (unit_queue st) k))"
proof -
  define cs where "cs = map calls [0..<min target (max_size cfg) - length (unit_queue (prune now st) k)]"
  have r: "replenish cfg now k target calls st = replenish_loop cfg k cs 0 (prune now st)"
    by (simp add: replenish_def Let_def cs_def)
  have "pool_inv cfg (snd (replenish_loop cfg k cs 0 (prune now st)))"
    using assms by (intro replenish_loop_inv) (auto simp: prune_inv cs_def)
  then show ?thesis
    using replenish_loop_added [of cfg k cs 0 "prune now st"] unit_queue_live [OF assms(1), of now]
    by (auto simp: r cs_def)
qed

theorem replenish_bounded_witness:
  "pool_inv pool_config_default (snd (replenish pool_config_default 0 ''a'' 9
      (\<lambda>i. (Ok i :: (nat, unit) result, (\<lambda>s. s), i, i)) pool_state_default)) \<and>
   fst (replenish pool_config_default 0 ''a'' 9
      (\<lambda>i. (Ok i :: (nat, unit) result, (\<lambda>s. s), i, i)) pool_state_default) = Ok 4"
proof -
  have "pool_inv pool_config_default (snd (replenish pool_config_default 0 ''a'' 9
      (\<lambda>i. (Ok i :: (nat, unit) result, (\<lambda>s. s), i, i)) pool_state_default))"
    by (rule replenish_bounded [THEN conjunct1])
      (simp_all add: pool_default_inv pool_config_default_def)
  moreover have "fst (replenish pool_config_default 0 ''a'' 9
      (\<lambda>i. (Ok i :: (nat, unit) result, (\<lambda>s. s), i, i)) pool_state_default) = Ok 4"
    by code_simp
  ultimately show ?thesis ..
qed

end
