(* ===== verification/Budget.thy ===== *)
theory Budget
  imports Run_Spec
begin

text \<open>
  The run budget (\<^verbatim>\<open>moraebox-runtime/src/budget.rs\<close>): one deadline for a whole run, and the record
  of the stages it went through. Readings of the clock, the outcome of the awaited work and
  what that work itself does to the shared budget are parameters of the operations; the result
  \<^const>\<open>None\<close> is a panic.
\<close>

section \<open>Data\<close>

datatype RunStage = ImagePull | WorkspacePrepare | ProcessSpawn | NetworkSetup | RootPrepare
  | BoxLock | BoxRepair | CacheLookup | BaseDiskPrepare | EphemeralDiskClone | HelperSpawn
  | CommandRun

primrec run_stage_display :: "RunStage \<Rightarrow> string" where
  "run_stage_display ImagePull = ''image_pull''"
| "run_stage_display WorkspacePrepare = ''workspace_prepare''"
| "run_stage_display ProcessSpawn = ''process_spawn''"
| "run_stage_display NetworkSetup = ''network_setup''"
| "run_stage_display RootPrepare = ''root_prepare''"
| "run_stage_display BoxLock = ''box_lock''"
| "run_stage_display BoxRepair = ''box_repair''"
| "run_stage_display CacheLookup = ''cache_lookup''"
| "run_stage_display BaseDiskPrepare = ''base_disk_prepare''"
| "run_stage_display EphemeralDiskClone = ''ephemeral_disk_clone''"
| "run_stage_display HelperSpawn = ''helper_spawn''"
| "run_stage_display CommandRun = ''command_run''"

record StageTiming =
  timing_stage :: RunStage
  timing_micros :: nat

datatype StageEventKind = Started | Completed | StageFailed

record StageEvent =
  event_kind :: StageEventKind
  event_stage :: RunStage
  event_micros :: nat

record BudgetState =
  timings :: "StageTiming list"
  events :: "StageEvent list"
  failure_stage :: "RunStage option"

text \<open>\<open>reported\<close> collects the stages passed to the progress callback, when there is one.\<close>

record RunBudget =
  started :: nat
  deadline :: "nat option"
  limit :: "duration option"
  budget_state :: BudgetState
  progress :: bool
  reported :: "RunStage list"

record RunBudgetTimeout =
  timeout_stage :: RunStage
  timeout_limit :: duration

datatype 'e StageError = Timeout RunBudgetTimeout | StageErrFailed RunStage 'e

definition stage_error_display :: "(RunBudgetTimeout \<Rightarrow> string) \<Rightarrow> ('e \<Rightarrow> string) \<Rightarrow> 'e StageError \<Rightarrow> string" where
  "stage_error_display timeout_fmt source_fmt e =
     (case e of
        Timeout t \<Rightarrow> timeout_fmt t
      | StageErrFailed stage src \<Rightarrow> run_stage_display stage @ '' failed: '' @ source_fmt src)"

section \<open>Recording\<close>

definition duration_micros :: "duration \<Rightarrow> nat" where
  "duration_micros d = (if as_micros d \<le> U64_MAX then as_micros d else U64_MAX)"

definition budget_state_default :: BudgetState where
  "budget_state_default = \<lparr>timings = [], events = [], failure_stage = None\<rparr>"

definition budget_new :: "nat \<Rightarrow> TimeoutPolicy \<Rightarrow> RunBudget" where
  "budget_new now policy =
     \<lparr>started = now,
      deadline = map_option (\<lambda>d. now + d) (timeout_duration policy),
      limit = timeout_duration policy,
      budget_state = budget_state_default,
      progress = False,
      reported = []\<rparr>"

definition with_progress :: "RunBudget \<Rightarrow> RunBudget" where
  "with_progress b = b\<lparr>progress := True\<rparr>"

definition record_timing :: "nat \<Rightarrow> RunStage \<Rightarrow> nat \<Rightarrow> RunBudget \<Rightarrow> RunBudget" where
  "record_timing now stage start b =
     b\<lparr>budget_state := (budget_state b)\<lparr>timings := timings (budget_state b) @
         [\<lparr>timing_stage = stage, timing_micros = duration_micros (now - start)\<rparr>]\<rparr>\<rparr>"

definition record_failure :: "RunStage \<Rightarrow> RunBudget \<Rightarrow> RunBudget" where
  "record_failure stage b =
     b\<lparr>budget_state := (budget_state b)\<lparr>failure_stage :=
         (case failure_stage (budget_state b) of None \<Rightarrow> Some stage | Some f \<Rightarrow> Some f)\<rparr>\<rparr>"

definition record_event :: "nat \<Rightarrow> StageEventKind \<Rightarrow> RunStage \<Rightarrow> RunBudget \<Rightarrow> RunBudget" where
  "record_event now kind stage b =
     b\<lparr>reported := (if kind = Started \<and> progress b then reported b @ [stage] else reported b),
       budget_state := (budget_state b)\<lparr>events := events (budget_state b) @
         [\<lparr>event_kind = kind, event_stage = stage,
           event_micros = duration_micros (now - started b)\<rparr>]\<rparr>\<rparr>"

definition record_stage_failure :: "nat \<Rightarrow> nat \<Rightarrow> RunStage \<Rightarrow> nat \<Rightarrow> RunBudget \<Rightarrow> RunBudget" where
  "record_stage_failure now now' stage start b =
     record_event now' StageFailed stage (record_failure stage (record_timing now stage start b))"

definition begin_stage :: "nat \<Rightarrow> nat \<Rightarrow> RunStage \<Rightarrow> RunBudget \<Rightarrow> nat \<times> RunBudget" where
  "begin_stage now now' stage b = (now', record_event now Started stage b)"

definition complete_stage :: "nat \<Rightarrow> nat \<Rightarrow> RunStage \<Rightarrow> nat \<Rightarrow> RunBudget \<Rightarrow> RunBudget" where
  "complete_stage now now' stage start b =
     record_event now' Completed stage (record_timing now stage start b)"

definition fail_stage :: "nat \<Rightarrow> nat \<Rightarrow> RunStage \<Rightarrow> nat \<Rightarrow> RunBudget \<Rightarrow> RunBudget" where
  "fail_stage now now' stage start b = record_stage_failure now now' stage start b"

definition finish_result ::
  "nat \<Rightarrow> nat \<Rightarrow> RunStage \<Rightarrow> nat \<Rightarrow> ('t, 'e StageError) result \<Rightarrow> RunBudget
     \<Rightarrow> ('t, 'e StageError) result \<times> RunBudget" where
  "finish_result now now' stage start r b =
     (case r of
        Inr v \<Rightarrow> (Ok v, record_event now' Completed stage (record_timing now stage start b))
      | Inl e \<Rightarrow> (Err e, record_stage_failure now now' stage start b))"

definition timeout_error :: "RunBudget \<Rightarrow> RunStage \<Rightarrow> RunBudgetTimeout option" where
  "timeout_error b stage =
     map_option (\<lambda>l. \<lparr>timeout_stage = stage, timeout_limit = l\<rparr>) (limit b)"

section \<open>Running stages\<close>

definition remaining ::
  "nat \<Rightarrow> RunStage \<Rightarrow> RunBudget \<Rightarrow> (duration option, RunBudgetTimeout) result option \<times> RunBudget" where
  "remaining now stage b =
     (case deadline b of
        None \<Rightarrow> (Some (Ok None), b)
      | Some d \<Rightarrow>
          if d \<le> now
          then (map_option Err (timeout_error b stage), record_failure stage b)
          else (Some (Ok (Some (d - now))), b))"

text \<open>
  The clock readings of one stage, in the order they are taken: the check of \<^verbatim>\<open>remaining\<close>, the
  start of the stage, its first event, the check after the work (of \<^verbatim>\<open>observe\<close> and \<^verbatim>\<open>run_sync\<close>),
  the timing and the last event.
\<close>

record stage_clock =
  at_check :: nat
  at_start :: nat
  at_event :: nat
  at_recheck :: nat
  at_timing :: nat
  at_end :: nat

definition stage_failed :: "RunStage \<Rightarrow> ('t, 'e) result \<Rightarrow> ('t, 'e StageError) result" where
  "stage_failed stage = map_err (StageErrFailed stage)"

text \<open>The tail shared by the branches that end in a timeout.\<close>

definition stage_timeout ::
  "stage_clock \<Rightarrow> RunStage \<Rightarrow> RunBudget \<Rightarrow> ('t, 'e StageError) result option \<times> RunBudget" where
  "stage_timeout c stage b =
     (map_option (\<lambda>t. Err (Timeout t)) (timeout_error b stage),
      record_stage_failure (at_timing c) (at_end c) stage (at_start c) b)"

text \<open>
  \<open>timed d\<close> is \<^verbatim>\<open>tokio::time::timeout(d, future).await\<close> (\<^const>\<open>None\<close> when the time elapses first),
  \<open>awaited\<close> is \<^verbatim>\<open>future.await\<close>, and \<open>during\<close> what the future does to the budget it shares.
\<close>

definition budget_run ::
  "stage_clock \<Rightarrow> RunStage \<Rightarrow> (duration \<Rightarrow> ('t, 'e) result option) \<Rightarrow> ('t, 'e) result
     \<Rightarrow> (RunBudget \<Rightarrow> RunBudget) \<Rightarrow> RunBudget \<Rightarrow> ('t, 'e StageError) result option \<times> RunBudget" where
  "budget_run c stage timed awaited during b =
     (case remaining (at_check c) stage b of
        (None, b1) \<Rightarrow> (None, b1)
      | (Some (Inl t), b1) \<Rightarrow> (Some (Err (Timeout t)), b1)
      | (Some (Inr rem), b1) \<Rightarrow>
          let b2 = during (record_event (at_event c) Started stage b1);
              finish = (\<lambda>r. case finish_result (at_timing c) (at_end c) stage (at_start c) r b2 of
                              (r', b3) \<Rightarrow> (Some r', b3))
          in case rem of
               Some d \<Rightarrow>
                 (case timed d of
                    Some r \<Rightarrow> finish (stage_failed stage r)
                  | None \<Rightarrow> stage_timeout c stage b2)
             | None \<Rightarrow> finish (stage_failed stage awaited))"

definition observe ::
  "stage_clock \<Rightarrow> RunStage \<Rightarrow> ('t, 'e) result \<Rightarrow> (RunBudget \<Rightarrow> RunBudget) \<Rightarrow> RunBudget
     \<Rightarrow> ('t, 'e StageError) result option \<times> RunBudget" where
  "observe c stage awaited during b =
     (case remaining (at_check c) stage b of
        (None, b1) \<Rightarrow> (None, b1)
      | (Some (Inl t), b1) \<Rightarrow> (Some (Err (Timeout t)), b1)
      | (Some (Inr _), b1) \<Rightarrow>
          let b2 = during (record_event (at_event c) Started stage b1);
              r = stage_failed stage awaited
          in if (case deadline b of None \<Rightarrow> False | Some d \<Rightarrow> d \<le> at_recheck c)
             then stage_timeout c stage b2
             else (case finish_result (at_timing c) (at_end c) stage (at_start c) r b2 of
                     (r', b3) \<Rightarrow> (Some r', b3)))"

text \<open>\<^verbatim>\<open>run_sync\<close> has the same body with a call in place of the await.\<close>

definition run_sync ::
  "stage_clock \<Rightarrow> RunStage \<Rightarrow> ('t, 'e) result \<Rightarrow> (RunBudget \<Rightarrow> RunBudget) \<Rightarrow> RunBudget
     \<Rightarrow> ('t, 'e StageError) result option \<times> RunBudget" where
  "run_sync c stage operation during b =
     (case remaining (at_check c) stage b of
        (None, b1) \<Rightarrow> (None, b1)
      | (Some (Inl t), b1) \<Rightarrow> (Some (Err (Timeout t)), b1)
      | (Some (Inr _), b1) \<Rightarrow>
          let b2 = during (record_event (at_event c) Started stage b1);
              r = stage_failed stage operation
          in if (case deadline b of None \<Rightarrow> False | Some d \<Rightarrow> d \<le> at_recheck c)
             then stage_timeout c stage b2
             else (case finish_result (at_timing c) (at_end c) stage (at_start c) r b2 of
                     (r', b3) \<Rightarrow> (Some r', b3)))"

lemma run_sync_observe: "run_sync c stage r during b = observe c stage r during b"
  by (simp add: run_sync_def observe_def)

section \<open>What a stage records\<close>

text \<open>
  The events of nested stages: every start is closed by one completion or failure of the same
  stage, like brackets.
\<close>

inductive bracketed :: "(StageEventKind \<times> RunStage) list \<Rightarrow> bool" where
  bracketed_Nil: "bracketed []"
| bracketed_stage: "bracketed xs \<Longrightarrow> k \<noteq> Started \<Longrightarrow> bracketed ys \<Longrightarrow>
    bracketed ((Started, s) # xs @ (k, s) # ys)"

lemma bracketed_append: "bracketed xs \<Longrightarrow> bracketed ys \<Longrightarrow> bracketed (xs @ ys)"
proof (induction rule: bracketed.induct)
  case (bracketed_stage xs k zs s)
  then show ?case using bracketed.bracketed_stage [of xs k "zs @ ys" s] by simp
qed simp

definition event_log :: "RunBudget \<Rightarrow> (StageEventKind \<times> RunStage) list" where
  "event_log b = map (\<lambda>e. (event_kind e, event_stage e)) (events (budget_state b))"

definition ended_stages :: "(StageEventKind \<times> RunStage) list \<Rightarrow> RunStage list" where
  "ended_stages l = map snd (filter (\<lambda>e. fst e \<noteq> Started) l)"

definition timing_log :: "RunBudget \<Rightarrow> RunStage list" where
  "timing_log b = map timing_stage (timings (budget_state b))"

text \<open>
  \<open>extends b b'\<close>: \<open>b'\<close> is the same budget with a bracketed piece of log added, one timing per ended
  stage, and the first failure kept.
\<close>

definition extends :: "RunBudget \<Rightarrow> RunBudget \<Rightarrow> bool" where
  "extends b b' \<longleftrightarrow>
     started b' = started b \<and> deadline b' = deadline b \<and> limit b' = limit b \<and> progress b' = progress b \<and>
     (failure_stage (budget_state b) \<noteq> None \<longrightarrow>
        failure_stage (budget_state b') = failure_stage (budget_state b)) \<and>
     (\<exists>l. event_log b' = event_log b @ l \<and> bracketed l \<and> timing_log b' = timing_log b @ ended_stages l \<and>
          (\<forall>s. (StageFailed, s) \<in> set l \<longrightarrow> failure_stage (budget_state b') \<noteq> None))"

lemma extends_refl [simp]: "extends b b"
  unfolding extends_def by (auto intro!: exI [of _ "[]"] bracketed_Nil simp: ended_stages_def)

lemma extends_trans: "extends a b \<Longrightarrow> extends b c \<Longrightarrow> extends a c"
  unfolding extends_def
  apply (elim conjE exE)
  subgoal for l l'
    by (intro conjI exI [of _ "l @ l'"]) (auto simp: ended_stages_def intro: bracketed_append)
  done

lemma event_log_simps [simp]:
  "event_log (record_event now k s b) = event_log b @ [(k, s)]"
  "event_log (record_failure s b) = event_log b"
  "event_log (record_timing now s t b) = event_log b"
  "timing_log (record_event now k s b) = timing_log b"
  "timing_log (record_failure s b) = timing_log b"
  "timing_log (record_timing now s t b) = timing_log b @ [s]"
  by (simp_all add: event_log_def timing_log_def record_event_def record_failure_def record_timing_def)

lemma failure_stage_simps [simp]:
  "failure_stage (budget_state (record_event now k s b)) = failure_stage (budget_state b)"
  "failure_stage (budget_state (record_timing now s t b)) = failure_stage (budget_state b)"
  "failure_stage (budget_state (record_failure s b)) =
     (case failure_stage (budget_state b) of None \<Rightarrow> Some s | Some f \<Rightarrow> Some f)"
  by (simp_all add: record_event_def record_failure_def record_timing_def split: option.splits)

lemma frame_simps [simp]:
  "started (record_event now k s b) = started b" "started (record_timing now s t b) = started b"
  "started (record_failure s b) = started b"
  "deadline (record_event now k s b) = deadline b" "deadline (record_timing now s t b) = deadline b"
  "deadline (record_failure s b) = deadline b"
  "limit (record_event now k s b) = limit b" "limit (record_timing now s t b) = limit b"
  "limit (record_failure s b) = limit b"
  "progress (record_event now k s b) = progress b" "progress (record_timing now s t b) = progress b"
  "progress (record_failure s b) = progress b"
  by (simp_all add: record_event_def record_failure_def record_timing_def)

lemma extends_record_failure [simp]: "extends b (record_failure s b)"
  unfolding extends_def
  by (auto intro!: exI [of _ "[]"] bracketed_Nil simp: ended_stages_def split: option.splits)

lemma extends_stage:
  assumes "extends (record_event now Started s b) b2"
    and "b3 = record_event n2 Completed s (record_timing n1 s t b2) \<or> b3 = record_stage_failure n1 n2 s t b2"
  shows "extends b b3"
proof -
  from assms(1) obtain l where l: "event_log b2 = event_log b @ (Started, s) # l" "bracketed l"
      "timing_log b2 = timing_log b @ ended_stages l"
      "\<forall>s. (StageFailed, s) \<in> set l \<longrightarrow> failure_stage (budget_state b2) \<noteq> None"
    and f: "started b2 = started b" "deadline b2 = deadline b" "limit b2 = limit b" "progress b2 = progress b"
      "failure_stage (budget_state b) \<noteq> None \<longrightarrow> failure_stage (budget_state b2) = failure_stage (budget_state b)"
    by (auto simp: extends_def)
  from assms(2) show ?thesis
  proof
    assume b3: "b3 = record_event n2 Completed s (record_timing n1 s t b2)"
    have "bracketed ((Started, s) # l @ [(Completed, s)])"
      using l(2) by (auto intro: bracketed_stage bracketed_Nil)
    then show ?thesis
      using l f unfolding extends_def b3
      by (intro conjI exI [of _ "(Started, s) # l @ [(Completed, s)]"]) (auto simp: ended_stages_def)
  next
    assume b3: "b3 = record_stage_failure n1 n2 s t b2"
    have "bracketed ((Started, s) # l @ [(StageFailed, s)])"
      using l(2) by (auto intro: bracketed_stage bracketed_Nil)
    then show ?thesis
      using l f unfolding extends_def b3 record_stage_failure_def
      by (intro conjI exI [of _ "(Started, s) # l @ [(StageFailed, s)]"])
        (auto simp: ended_stages_def split: option.splits)
  qed
qed

lemmas extends_completed = extends_stage [OF _ disjI1 [OF refl]]
lemmas extends_failed = extends_stage [OF _ disjI2 [OF refl]]

section \<open>The contract of a stage runner\<close>

definition budget_wf :: "RunBudget \<Rightarrow> bool" where
  "budget_wf b \<longleftrightarrow> deadline b = map_option (\<lambda>l. started b + l) (limit b)"

definition deadline_passed :: "RunBudget \<Rightarrow> nat \<Rightarrow> bool" where
  "deadline_passed b now \<longleftrightarrow> (case deadline b of None \<Rightarrow> False | Some d \<Rightarrow> d \<le> now)"

lemma extends_wf: "extends b b' \<Longrightarrow> budget_wf b \<Longrightarrow> budget_wf b'"
  by (simp add: extends_def budget_wf_def)

lemma remaining_cases:
  "remaining now stage b =
     (if deadline_passed b now then (map_option Err (timeout_error b stage), record_failure stage b)
      else (Some (Ok (map_option (\<lambda>d. d - now) (deadline b))), b))"
  by (simp add: remaining_def deadline_passed_def split: option.splits)

text \<open>
  What the callers of \<^verbatim>\<open>run\<close>, \<^verbatim>\<open>observe\<close> and \<^verbatim>\<open>run_sync\<close> rely on: a stage is refused when the deadline has
  passed, and otherwise runs to a completion, a failure of its own or a timeout, recorded as such.
\<close>

locale stage_runner =
  fixes exec :: "stage_clock \<Rightarrow> RunStage \<Rightarrow> (RunBudget \<Rightarrow> RunBudget) \<Rightarrow> RunBudget
     \<Rightarrow> ('t, 'e StageError) result option \<times> RunBudget"
  assumes refused: "deadline_passed b (at_check c) \<Longrightarrow>
      exec c stage during b =
        (map_option (\<lambda>t. Err (Timeout t)) (timeout_error b stage), record_failure stage b)"
    and ran: "\<not> deadline_passed b (at_check c) \<Longrightarrow>
      b2 = during (record_event (at_event c) Started stage b) \<Longrightarrow>
      (\<exists>v. exec c stage during b = (Some (Ok v),
          record_event (at_end c) Completed stage (record_timing (at_timing c) stage (at_start c) b2))) \<or>
      (\<exists>r. exec c stage during b = (r,
          record_stage_failure (at_timing c) (at_end c) stage (at_start c) b2) \<and>
         ((\<exists>e. r = Some (Err (StageErrFailed stage e))) \<or>
          deadline b \<noteq> None \<and> r = map_option (\<lambda>t. Err (Timeout t)) (timeout_error b2 stage)))"
begin

lemma exec_extends:
  assumes "extends (record_event (at_event c) Started stage b) (during (record_event (at_event c) Started stage b))"
  shows "extends b (snd (exec c stage during b))"
proof (cases "deadline_passed b (at_check c)")
  case True
  then show ?thesis by (simp add: refused)
next
  case False
  from ran [where during = during and stage = stage, OF this refl] show ?thesis
    by (elim disjE exE conjE) (simp_all add: extends_completed [OF assms] extends_failed [OF assms])
qed

lemma exec_returns:
  assumes "budget_wf b"
    and "extends (record_event (at_event c) Started stage b) (during (record_event (at_event c) Started stage b))"
  shows "\<exists>r. fst (exec c stage during b) = Some r"
proof (cases "deadline_passed b (at_check c)")
  case True
  with assms(1) show ?thesis
    by (auto simp: refused timeout_error_def deadline_passed_def budget_wf_def split: option.splits)
next
  case False
  have "limit (during (record_event (at_event c) Started stage b)) = limit b"
    using assms(2) by (simp add: extends_def)
  moreover have "deadline b \<noteq> None \<longrightarrow> limit b \<noteq> None" using assms(1) by (auto simp: budget_wf_def)
  ultimately show ?thesis
    using ran [where during = during and stage = stage, OF False refl] by (auto simp: timeout_error_def)
qed

lemma exec_failure_stage:
  assumes "\<And>b. failure_stage (budget_state (during b)) = failure_stage (budget_state b)"
    and "fst (exec c stage during b) = Some r"
  shows "failure_stage (budget_state (snd (exec c stage during b))) =
    (case failure_stage (budget_state b) of
       Some f \<Rightarrow> Some f | None \<Rightarrow> if is_ok r then None else Some stage)"
proof (cases "deadline_passed b (at_check c)")
  case True
  with assms(2) show ?thesis by (auto simp: refused split: option.splits)
next
  case False
  from ran [where during = during and stage = stage, OF this refl] show ?thesis
    using assms by (elim disjE exE conjE) (auto simp: record_stage_failure_def split: option.splits)
qed

end

interpretation run: stage_runner "\<lambda>c stage. budget_run c stage timed awaited" for timed awaited
  by unfold_locales
    (auto simp: budget_run_def remaining_cases Let_def finish_result_def stage_failed_def
      stage_timeout_def map_err_def split: option.splits sum.splits)

interpretation observe: stage_runner "\<lambda>c stage. observe c stage awaited" for awaited
  by unfold_locales
    (auto simp: observe_def remaining_cases Let_def finish_result_def stage_failed_def
      stage_timeout_def map_err_def split: option.splits sum.splits)

interpretation sync: stage_runner "\<lambda>c stage. run_sync c stage operation" for operation
  unfolding run_sync_observe by (rule observe.stage_runner_axioms)

section \<open>Programs of stages\<close>

text \<open>
  A run: stages in sequence, the work of a stage using the same budget for stages of its own. The
  manual form is \<^verbatim>\<open>begin_stage\<close> followed by \<^verbatim>\<open>complete_stage\<close> or \<^verbatim>\<open>fail_stage\<close>.
\<close>

datatype ('t, 'e) stage_prog =
    PRun stage_clock RunStage "duration \<Rightarrow> ('t, 'e) result option" "('t, 'e) result" "('t, 'e) stage_prog list"
  | PObserve stage_clock RunStage "('t, 'e) result" "('t, 'e) stage_prog list"
  | PSync stage_clock RunStage "('t, 'e) result" "('t, 'e) stage_prog list"
  | PManual stage_clock RunStage bool "('t, 'e) stage_prog list"
  | PRemaining nat RunStage

fun exec_prog :: "('t, 'e) stage_prog \<Rightarrow> RunBudget \<Rightarrow> RunBudget" where
  "exec_prog (PRun c stage timed awaited ps) b =
     snd (budget_run c stage timed awaited (\<lambda>b. foldl (\<lambda>b p. exec_prog p b) b ps) b)"
| "exec_prog (PObserve c stage r ps) b = snd (observe c stage r (\<lambda>b. foldl (\<lambda>b p. exec_prog p b) b ps) b)"
| "exec_prog (PSync c stage r ps) b = snd (run_sync c stage r (\<lambda>b. foldl (\<lambda>b p. exec_prog p b) b ps) b)"
| "exec_prog (PManual c stage ok ps) b =
     (let r = begin_stage (at_event c) (at_start c) stage b;
          b2 = foldl (\<lambda>b p. exec_prog p b) (snd r) ps
      in if ok then complete_stage (at_timing c) (at_end c) stage (fst r) b2
         else fail_stage (at_timing c) (at_end c) stage (fst r) b2)"
| "exec_prog (PRemaining now stage) b = snd (remaining now stage b)"

definition exec_progs :: "('t, 'e) stage_prog list \<Rightarrow> RunBudget \<Rightarrow> RunBudget" where
  "exec_progs ps b = foldl (\<lambda>b p. exec_prog p b) b ps"

lemma foldl_extends:
  "(\<And>p b. p \<in> set ps \<Longrightarrow> extends b (f b p)) \<Longrightarrow> extends b (foldl f b ps)"
  by (induction ps arbitrary: b) (auto intro: extends_trans)

lemma exec_prog_extends: "extends b (exec_prog p b)"
proof (induction p arbitrary: b)
  case (PRun c stage timed awaited ps)
  then show ?case by (auto intro!: run.exec_extends foldl_extends)
next
  case (PObserve c stage r ps)
  then show ?case by (auto intro!: observe.exec_extends foldl_extends)
next
  case (PSync c stage r ps)
  then show ?case by (auto intro!: sync.exec_extends foldl_extends)
next
  case (PManual c stage ok ps)
  then have "extends (record_event (at_event c) Started stage b)
      (foldl (\<lambda>b p. exec_prog p b) (record_event (at_event c) Started stage b) ps)"
    by (intro foldl_extends)
  from extends_completed [OF this] extends_failed [OF this] show ?case
    by (simp add: Let_def begin_stage_def complete_stage_def fail_stage_def)
next
  case (PRemaining now stage)
  then show ?case by (simp add: remaining_cases)
qed

lemma exec_progs_extends: "extends b (exec_progs ps b)"
  unfolding exec_progs_def by (rule foldl_extends) (rule exec_prog_extends)

lemma budget_new_wf [simp]: "budget_wf (budget_new now policy)"
  by (simp add: budget_wf_def budget_new_def option.map_comp o_def)

lemma budget_new_logs [simp]:
  "event_log (budget_new now policy) = []" "timing_log (budget_new now policy) = []"
  by (simp_all add: event_log_def timing_log_def budget_new_def budget_state_default_def)

section \<open>Properties\<close>

text \<open>
  Whatever stages a run goes through, nested and in sequence, with whatever outcomes and clock
  readings: the recorded events are properly bracketed (every start is closed by exactly one
  completion or failure of the same stage, innermost first), the timings are one per ended stage,
  in the order in which they ended, and a failed stage is never recorded without a failure stage
  being set for the run.
\<close>

theorem stage_log_bracketed:
  "let b = exec_progs ps (budget_new now policy) in
     bracketed (event_log b) \<and> timing_log b = ended_stages (event_log b) \<and>
     ((\<exists>s. (StageFailed, s) \<in> set (event_log b)) \<longrightarrow> failure_stage (budget_state b) \<noteq> None)"
proof -
  have "extends (budget_new now policy) (exec_progs ps (budget_new now policy))"
    by (rule exec_progs_extends)
  then show ?thesis by (auto simp: extends_def Let_def)
qed

definition sample_clock :: stage_clock where
  "sample_clock = \<lparr>at_check = 0, at_start = 0, at_event = 0, at_recheck = 5, at_timing = 5, at_end = 6\<rparr>"

theorem stage_log_bracketed_witness:
  "failure_stage (budget_state (exec_progs
     [PObserve sample_clock NetworkSetup (Ok () :: (unit, nat) result)
        [PManual sample_clock RootPrepare False []]] (budget_new 0 (Limited 1)))) \<noteq> None"
proof -
  have "event_log (exec_progs [PObserve sample_clock NetworkSetup (Ok () :: (unit, nat) result)
        [PManual sample_clock RootPrepare False []]] (budget_new 0 (Limited 1))) =
      [(Started, NetworkSetup), (Started, RootPrepare), (StageFailed, RootPrepare), (Completed, NetworkSetup)]"
    by (simp add: exec_progs_def observe_def remaining_cases Let_def begin_stage_def fail_stage_def
        record_stage_failure_def finish_result_def stage_failed_def sample_clock_def
        deadline_passed_def budget_new_def timeout_duration_def from_millis_def)
      (simp add: event_log_def budget_state_default_def)
  then have "(StageFailed, RootPrepare) \<in> set (event_log (exec_progs
      [PObserve sample_clock NetworkSetup (Ok () :: (unit, nat) result)
        [PManual sample_clock RootPrepare False []]] (budget_new 0 (Limited 1))))"
    by simp
  with stage_log_bracketed [of "[PObserve sample_clock NetworkSetup (Ok () :: (unit, nat) result)
      [PManual sample_clock RootPrepare False []]]" 0 "Limited 1"]
  show ?thesis unfolding Let_def by blast
qed

text \<open>
  The failure stage of a run is that of its first failure: a stage run at any point of a run
  leaves an earlier failure stage as it is, and otherwise sets its own exactly when it returns an
  error. No stage operation of a budget made by \<^verbatim>\<open>new\<close> panics.
\<close>

theorem failure_stage_is_first:
  assumes "b = exec_progs ps (budget_new now policy)"
    and "e \<in> {budget_run c stage timed awaited (\<lambda>b. b) b, observe c stage awaited (\<lambda>b. b) b,
              run_sync c stage awaited (\<lambda>b. b) b}"
  shows "\<exists>r. fst e = Some r \<and> failure_stage (budget_state (snd e)) =
    (case failure_stage (budget_state b) of
       Some f \<Rightarrow> Some f | None \<Rightarrow> if is_ok r then None else Some stage)"
proof -
  have wf: "budget_wf b"
    unfolding assms(1) by (rule extends_wf [OF exec_progs_extends budget_new_wf])
  from assms(2) show ?thesis
  proof (elim insertE emptyE)
    assume e: "e = budget_run c stage timed awaited (\<lambda>b. b) b"
    obtain r where "fst e = Some r" using run.exec_returns [OF wf] unfolding e by (metis extends_refl)
    then show ?thesis using run.exec_failure_stage [of "\<lambda>b. b", OF refl] unfolding e by blast
  next
    assume e: "e = observe c stage awaited (\<lambda>b. b) b"
    obtain r where "fst e = Some r" using observe.exec_returns [OF wf] unfolding e by (metis extends_refl)
    then show ?thesis using observe.exec_failure_stage [of "\<lambda>b. b", OF refl] unfolding e by blast
  next
    assume e: "e = run_sync c stage awaited (\<lambda>b. b) b"
    obtain r where "fst e = Some r" using sync.exec_returns [OF wf] unfolding e by (metis extends_refl)
    then show ?thesis using sync.exec_failure_stage [of "\<lambda>b. b", OF refl] unfolding e by blast
  qed
qed

theorem failure_stage_is_first_witness:
  "failure_stage (budget_state (snd (run_sync sample_clock BoxLock (Err 7 :: (unit, nat) result) (\<lambda>b. b)
     (exec_progs [PRemaining 2000000 ImagePull :: (unit, nat) stage_prog] (budget_new 0 (Limited 1)))))) =
   Some ImagePull"
proof -
  define b where
    "b = exec_progs [PRemaining 2000000 ImagePull :: (unit, nat) stage_prog] (budget_new 0 (Limited 1))"
  have "failure_stage (budget_state b) = Some ImagePull"
    unfolding b_def by code_simp
  moreover have "run_sync sample_clock BoxLock (Err 7) (\<lambda>b. b) b \<in>
      {budget_run sample_clock BoxLock (\<lambda>_. None) (Err 7 :: (unit, nat) result) (\<lambda>b. b) b,
       observe sample_clock BoxLock (Err 7) (\<lambda>b. b) b, run_sync sample_clock BoxLock (Err 7) (\<lambda>b. b) b}"
    by simp
  ultimately show ?thesis
    using failure_stage_is_first [OF b_def] unfolding b_def [symmetric] by fastforce
qed



end
