(* ===== verification/Environment.thy ===== *)
theory Environment
  imports Run_Spec Host_Path
begin

text \<open>
  The environment of the sandboxed process (\<^verbatim>\<open>moraebox-runtime/src/environment.rs\<close>): the host's
  variables when the specification asks for them, overridden by the explicit ones, and a default
  terminal type. The host's variables (\<^verbatim>\<open>std::env::vars_os\<close>) are a parameter.
\<close>

definition DEFAULT_TTY_TERM :: string where "DEFAULT_TTY_TERM = ''xterm''"

datatype EnvironmentComponent = EnvName | EnvValue

datatype environment_error = NonUnicodeEnvironment string EnvironmentComponent

primrec insert_host_variables ::
  "(string \<times> string) list \<Rightarrow> (string, string) assoc \<Rightarrow> ((string, string) assoc, environment_error) result" where
  "insert_host_variables [] resolved = Ok resolved"
| "insert_host_variables (v # vs) resolved =
     and_then (ok_or (to_str (fst v)) (NonUnicodeEnvironment ''<non-Unicode name>'' EnvName)) (\<lambda>name.
     and_then (ok_or (to_str (snd v)) (NonUnicodeEnvironment name EnvValue)) (\<lambda>value.
     insert_host_variables vs (map_insert name value resolved)))"

definition resolve_environment_from ::
  "(string \<times> string) list \<Rightarrow> (string, string) assoc \<Rightarrow> ((string, string) assoc, environment_error) result" where
  "resolve_environment_from host explicit =
     and_then (insert_host_variables host []) (\<lambda>resolved.
       Ok (foldl (\<lambda>m e. map_insert (fst e) (snd e) m) resolved explicit))"

definition resolve_environment ::
  "(string \<times> string) list \<Rightarrow> RunSpec \<Rightarrow> ((string, string) assoc, environment_error) result" where
  "resolve_environment host spec =
     and_then (if rs_inherit_env spec then resolve_environment_from host (rs_env spec) else Ok (rs_env spec))
       (\<lambda>resolved.
          Ok (if rs_tty spec \<and> map_of resolved ''TERM'' = None
              then map_insert ''TERM'' DEFAULT_TTY_TERM resolved else resolved))"

lemma insert_host_variables_Inr:
  "insert_host_variables vs m = Inr r \<Longrightarrow> map_of r = map_of m ++ map_of (rev vs)"
proof (induction vs arbitrary: m)
  case (Cons v vs)
  obtain name v2 where n: "to_str (fst v) = Some name" "to_str (snd v) = Some v2"
    and rest: "insert_host_variables vs (map_insert name v2 m) = Inr r"
    using Cons.prems by (auto simp: and_then_Inr_iff ok_or_Inr_iff)
  have "name = fst v" "v2 = snd v" using n to_str_Some by metis+
  with Cons.IH [OF rest] show ?case by (cases v) (simp add: update_conv' map_add_def fun_eq_iff split: option.split)
qed simp

lemma insert_host_variables_total:
  "(\<exists>r. insert_host_variables vs m = Inr r) \<longleftrightarrow> list_all (\<lambda>v. to_str (fst v) \<noteq> None \<and> to_str (snd v) \<noteq> None) vs"
  by (induction vs arbitrary: m) (auto simp: and_then_Inr_iff ok_or_Inr_iff)

lemma foldl_insert: "map_of (foldl (\<lambda>m e. map_insert (fst e) (snd e) m) m es) = map_of m ++ map_of (rev es)"
  by (induction es arbitrary: m)
    (auto simp: update_conv' map_add_def fun_eq_iff split: option.split)

lemma map_of_rev_distinct:
  assumes "keys_distinct es"
  shows "map_of (rev es) = map_of es"
proof (rule map_of_inject_set [THEN iffD2])
  show "set (rev es) = set es" by simp
qed (use assms in \<open>simp_all add: rev_map [symmetric]\<close>)

lemma resolve_environment_from_lookup:
  assumes "keys_distinct explicit" and "resolve_environment_from host explicit = Inr env"
  shows "map_of env = map_of (rev host) ++ map_of explicit"
  using assms insert_host_variables_Inr [of host "[]"]
  by (auto simp: resolve_environment_from_def and_then_Inr_iff foldl_insert map_of_rev_distinct)

lemma resolve_environment_from_ok:
  "is_ok (resolve_environment_from host explicit) \<longleftrightarrow>
     list_all (\<lambda>v. to_str (fst v) \<noteq> None \<and> to_str (snd v) \<noteq> None) host"
  using insert_host_variables_total [of host "[]"]
  by (auto simp: resolve_environment_from_def is_ok_iff and_then_Inr_iff)

section \<open>Properties\<close>

text \<open>
  The environment of a run binds a variable to its explicit value if there is one, otherwise to
  the host's last value for it if the specification inherits the environment, otherwise, for
  \<^verbatim>\<open>TERM\<close> of a run with a terminal, to the default; and to nothing else. Resolving fails exactly
  when the environment is inherited and a name or value of the host is not UTF-8.
\<close>

theorem environment_precedence:
  assumes "keys_distinct (rs_env spec)"
  shows "(is_ok (resolve_environment host spec) \<longleftrightarrow>
       \<not> rs_inherit_env spec \<or> list_all (\<lambda>v. to_str (fst v) \<noteq> None \<and> to_str (snd v) \<noteq> None) host) \<and>
    (\<forall>env. resolve_environment host spec = Ok env \<longrightarrow>
       (\<forall>name. map_of env name =
          (case map_of (rs_env spec) name of
             Some v \<Rightarrow> Some v
           | None \<Rightarrow>
               (case (if rs_inherit_env spec then map_of (rev host) name else None) of
                  Some v \<Rightarrow> Some v
                | None \<Rightarrow> if rs_tty spec \<and> name = ''TERM'' then Some DEFAULT_TTY_TERM else None))))"
proof -
  define base where
    "base = (if rs_inherit_env spec then resolve_environment_from host (rs_env spec) else Ok (rs_env spec))"
  have res: "resolve_environment host spec = and_then base (\<lambda>resolved.
      Ok (if rs_tty spec \<and> map_of resolved ''TERM'' = None
          then map_insert ''TERM'' DEFAULT_TTY_TERM resolved else resolved))"
    by (simp add: resolve_environment_def base_def)
  have ok: "is_ok (resolve_environment host spec) \<longleftrightarrow> is_ok base"
    by (cases base) (simp_all add: res)
  have look: "map_of m name = (case map_of (rs_env spec) name of
      Some v \<Rightarrow> Some v | None \<Rightarrow> (if rs_inherit_env spec then map_of (rev host) name else None))"
    if "base = Inr m" for m name
    using that resolve_environment_from_lookup [OF assms, of host m]
    by (cases "rs_inherit_env spec") (auto simp: base_def map_add_def split: option.splits)
  have at_name: "map_of env name =
      (case map_of m name of
         Some v \<Rightarrow> Some v
       | None \<Rightarrow> if rs_tty spec \<and> name = ''TERM'' then Some DEFAULT_TTY_TERM else None)"
    if "base = Inr m" "resolve_environment host spec = Inr env" for m env name
    using that by (auto simp: res update_conv' split: option.splits if_splits)
  have "map_of env name =
          (case map_of (rs_env spec) name of
             Some v \<Rightarrow> Some v
           | None \<Rightarrow>
               (case (if rs_inherit_env spec then map_of (rev host) name else None) of
                  Some v \<Rightarrow> Some v
                | None \<Rightarrow> if rs_tty spec \<and> name = ''TERM'' then Some DEFAULT_TTY_TERM else None))"
    if r: "resolve_environment host spec = Inr env" for env name
  proof -
    obtain m where m: "base = Inr m" using r by (auto simp: res and_then_Inr_iff)
    show ?thesis
      using at_name [OF m r, of name] look [OF m, of name] by (simp split: option.split)
  qed
  moreover have "is_ok base \<longleftrightarrow> \<not> rs_inherit_env spec \<or> list_all (\<lambda>v. to_str (fst v) \<noteq> None \<and> to_str (snd v) \<noteq> None) host"
    by (simp add: base_def resolve_environment_from_ok)
  ultimately show ?thesis using ok by blast
qed

theorem environment_precedence_witness:
  "\<exists>env. resolve_environment [(''A'', ''1''), (''TERM'', ''vt100'')]
      ((run_spec_command ''id'' [''sh''])\<lparr>rs_env := [(''A'', ''2'')], rs_inherit_env := True, rs_tty := True\<rparr>) = Ok env \<and>
    map_of env ''A'' = Some ''2'' \<and> map_of env ''TERM'' = Some ''vt100''"
proof -
  let ?spec = "(run_spec_command ''id'' [''sh''])\<lparr>rs_env := [(''A'', ''2'')], rs_inherit_env := True, rs_tty := True\<rparr>"
  have "keys_distinct (rs_env ?spec)" by simp
  note th = environment_precedence [OF this, of "[(''A'', ''1''), (''TERM'', ''vt100'')]"]
  have "list_all (\<lambda>v. to_str (fst v) \<noteq> None \<and> to_str (snd v) \<noteq> None) [(''A'', ''1''), (''TERM'', ''vt100'')]" by code_simp
  then obtain env where env: "resolve_environment [(''A'', ''1''), (''TERM'', ''vt100'')] ?spec = Ok env"
    using th by (auto simp: is_ok_iff)
  then show ?thesis using th by simp
qed

end
