(* ===== verification/Backend.thy ===== *)
theory Backend
  imports Budget Environment
begin

text \<open>
  What a backend answers (\<^verbatim>\<open>moraebox-runtime/src/backend.rs\<close>) and the process backend
  (\<^verbatim>\<open>process.rs\<close>): its errors, the metrics of a start, and the command it spawns. The operating
  system (the host's variables, the outcome of \<^verbatim>\<open>spawn\<close> and \<^verbatim>\<open>kill\<close>) is a parameter.
\<close>

section \<open>Capabilities, metrics and errors\<close>

datatype IsolationLevel = HostProcess | MicroVm

datatype CapabilitySupport = CapUnsupported | CapSupported

definition is_supported :: "CapabilitySupport \<Rightarrow> bool" where
  "is_supported c \<longleftrightarrow> c = CapSupported"

record BackendCapabilities =
  bc_isolation :: IsolationLevel
  bc_tty :: CapabilitySupport
  bc_network :: CapabilitySupport
  bc_box_persistence :: CapabilitySupport
  bc_workspace :: CapabilitySupport
  bc_file_transfer :: CapabilitySupport

datatype RootMode = RootDirectory | RootStaticDisk | RootEphemeral | RootPersistent

record StartupMetrics =
  su_resolved_image_digest :: "string option"
  su_root_mode :: "RootMode option"
  su_prepared_pool_hit :: "bool option"
  su_prepared_lease_micros :: "nat option"
  su_network_setup_micros :: "nat option"
  su_published_ports :: "PublishRequest list"
  su_root_prepare_micros :: "nat option"
  su_cache_lookup_micros :: "nat option"
  su_box_lock_micros :: "nat option"
  su_base_prepare_micros :: "nat option"
  su_disk_clone_micros :: "nat option"
  su_repair_micros :: "nat option"
  su_helper_spawn_micros :: "nat option"

definition startup_default :: StartupMetrics where
  "startup_default =
     \<lparr>su_resolved_image_digest = None, su_root_mode = None, su_prepared_pool_hit = None,
      su_prepared_lease_micros = None, su_network_setup_micros = None, su_published_ports = [],
      su_root_prepare_micros = None, su_cache_lookup_micros = None, su_box_lock_micros = None,
      su_base_prepare_micros = None, su_disk_clone_micros = None, su_repair_micros = None,
      su_helper_spawn_micros = None\<rparr>"

datatype BackendError =
    BeInvalidSpec string
  | BeUnsupported string
  | BeMissingProcessId
  | BeIo string
  | BeControl string
  | BeImagePreparation string
  | BeTimeout RunStage duration
  | BeNonUnicodeEnvironment string EnvironmentComponent

primrec environment_component_display :: "EnvironmentComponent \<Rightarrow> string" where
  "environment_component_display EnvName = ''name''"
| "environment_component_display EnvValue = ''value''"

text \<open>\<open>fmt\<close> prints a duration (\<^verbatim>\<open>{:?}\<close>).\<close>

primrec backend_error_display :: "(duration \<Rightarrow> string) \<Rightarrow> BackendError \<Rightarrow> string" where
  "backend_error_display fmt (BeInvalidSpec m) = ''invalid run specification: '' @ m"
| "backend_error_display fmt (BeUnsupported m) = ''backend does not support '' @ m"
| "backend_error_display fmt BeMissingProcessId = ''backend process has no process id''"
| "backend_error_display fmt (BeIo m) = ''backend I/O failed: '' @ m"
| "backend_error_display fmt (BeControl m) = ''backend control failed: '' @ m"
| "backend_error_display fmt (BeImagePreparation m) = ''image preparation failed: '' @ m"
| "backend_error_display fmt (BeTimeout stage lim) =
     ''run timed out after '' @ fmt lim @ '' during '' @ run_stage_display stage"
| "backend_error_display fmt (BeNonUnicodeEnvironment variable c) =
     ''host environment '' @ environment_component_display c @ '' for '' @ variable @ '' is not valid Unicode''"

definition backend_error_of_stage :: "('e \<Rightarrow> string) \<Rightarrow> 'e StageError \<Rightarrow> BackendError" where
  "backend_error_of_stage source_fmt e =
     (case e of
        Timeout t \<Rightarrow> BeTimeout (timeout_stage t) (timeout_limit t)
      | StageErrFailed stage src \<Rightarrow> BeControl (run_stage_display stage @ '' failed: '' @ source_fmt src))"

primrec backend_error_of_environment :: "environment_error \<Rightarrow> BackendError" where
  "backend_error_of_environment (NonUnicodeEnvironment variable c) = BeNonUnicodeEnvironment variable c"

section \<open>The process backend\<close>

definition process_capabilities :: BackendCapabilities where
  "process_capabilities =
     \<lparr>bc_isolation = HostProcess, bc_tty = CapUnsupported, bc_network = CapUnsupported,
      bc_box_persistence = CapUnsupported, bc_workspace = CapUnsupported, bc_file_transfer = CapUnsupported\<rparr>"

text \<open>
  The command that is built: its streams are piped, its environment is cleared before \<open>pc_env\<close> is
  set, it is killed when dropped and leads its own process group.
\<close>

record process_command =
  pc_program :: string
  pc_args :: "string list"
  pc_env :: "(string, string) assoc"
  pc_cwd :: "string option"

definition process_command_of :: "(string, string) assoc \<Rightarrow> RunSpec \<Rightarrow> process_command" where
  "process_command_of env spec =
     \<lparr>pc_program = hd (rs_argv spec), pc_args = tl (rs_argv spec), pc_env = env, pc_cwd = rs_cwd spec\<rparr>"

definition process_supports :: "RunSpec \<Rightarrow> (unit, BackendError) result" where
  "process_supports spec =
     (if rs_box_id spec \<noteq> None then
        Err (BeUnsupported ''Box persistence on the process backend; it does not provide VM isolation'')
      else if rs_tty spec then
        Err (BeUnsupported ''PTY on the deterministic process backend'')
      else if network_enabled spec then
        Err (BeUnsupported ''network opt-in on the process backend; it already uses the host network without VM isolation'')
      else if rs_copy_in spec \<noteq> [] \<or> rs_copy_out spec \<noteq> [] then
        Err (BeUnsupported ''copy-in/out on the process backend; it does not provide a guest boundary'')
      else Ok ())"

text \<open>
  The child: its process id, when it has one, and whether its standard output was piped. \<open>os_spawn\<close> is
  the operating system's answer to a command, an error by its text. The result \<^const>\<open>None\<close> is a panic
  of the budget.
\<close>

record child =
  ch_pid :: "u32 option"
  ch_stdout :: bool

definition process_spawn ::
  "(string \<times> string) list \<Rightarrow> (process_command \<Rightarrow> (child, string) result) \<Rightarrow> stage_clock \<Rightarrow> RunSpec \<Rightarrow> RunBudget
     \<Rightarrow> (process_command \<times> u32 \<times> StartupMetrics, BackendError) result option \<times> RunBudget" where
  "process_spawn host os_spawn c spec b =
     (case and_then (map_err BeInvalidSpec (run_spec_validate spec)) (\<lambda>_.
           and_then (process_supports spec) (\<lambda>_.
           map_err backend_error_of_environment (resolve_environment host spec))) of
        Inl e \<Rightarrow> (Some (Err e), b)
      | Inr env \<Rightarrow>
          (let command = process_command_of env spec in
           case run_sync c ProcessSpawn (os_spawn command) id b of
             (None, b') \<Rightarrow> (None, b')
           | (Some (Inl e), b') \<Rightarrow> (Some (Err (backend_error_of_stage id e)), b')
           | (Some (Inr ch), b') \<Rightarrow>
               (Some
                  (and_then (ok_or (ch_pid ch) BeMissingProcessId) (\<lambda>pid.
                     if ch_stdout ch then Ok (command, pid, startup_default)
                     else Err (BeControl ''stdout pipe was not created''))), b')))"

datatype nix_signal = SIGINT | SIGTERM | SIGKILL | SIGHUP

primrec nix_signal_of :: "Signal \<Rightarrow> nix_signal" where
  "nix_signal_of Interrupt = SIGINT"
| "nix_signal_of Terminate = SIGTERM"
| "nix_signal_of Kill = SIGKILL"
| "nix_signal_of Hangup = SIGHUP"

datatype errno = ESRCH | OtherErrno string

text \<open>
  A signal goes to the process group, the negated process id; \<open>os_kill\<close> is the system call. A process
  that is already gone is no error.
\<close>

definition process_signal ::
  "(int \<Rightarrow> nix_signal \<Rightarrow> (unit, errno) result) \<Rightarrow> u32 \<Rightarrow> Signal \<Rightarrow> (unit, BackendError) result" where
  "process_signal os_kill pid signal =
     (if uint pid > 2 ^ 31 - 1 then Err (BeControl ''out of range integral type conversion attempted'')
      else
        (case os_kill (- uint pid) (nix_signal_of signal) of
           Inr _ \<Rightarrow> Ok ()
         | Inl ESRCH \<Rightarrow> Ok ()
         | Inl (OtherErrno m) \<Rightarrow> Err (BeControl m)))"

text \<open>\<^verbatim>\<open>force_stop\<close> is not overridden: it sends \<open>Kill\<close>.\<close>

definition process_force_stop ::
  "(int \<Rightarrow> nix_signal \<Rightarrow> (unit, errno) result) \<Rightarrow> u32 \<Rightarrow> (unit, BackendError) result" where
  "process_force_stop os_kill pid = process_signal os_kill pid Kill"

section \<open>What a started process is\<close>

text \<open>
  A process is started only for a validated specification that asks for nothing the host process
  cannot give, with the arguments of the specification and the resolved environment, inside one
  recorded stage; every refusal before the stage leaves the budget as it was.
\<close>

lemma run_spec_validate_argv: "run_spec_validate spec = Inr () \<Longrightarrow> rs_argv spec \<noteq> []"
  by (auto simp: run_spec_validate_def)

lemma run_sync_completed:
  assumes "run_sync c stage r id b = (Some (Inr x), b')"
  shows "event_log b' = event_log b @ [(Started, stage), (Completed, stage)]"
  using assms
  by (auto simp: run_sync_def remaining_def finish_result_def stage_timeout_def complete_stage_def Let_def
      split: option.splits sum.splits if_splits prod.splits)

theorem process_spawn_sound:
  assumes "process_spawn host os_spawn c spec b = (Some (Ok (command, pid, metrics)), b')"
  shows "run_spec_validate spec = Ok () \<and> rs_box_id spec = None \<and> \<not> rs_tty spec \<and> \<not> network_enabled spec \<and> rs_copy_in spec = [] \<and> rs_copy_out spec = [] \<and>
    pc_program command # pc_args command = rs_argv spec \<and>
    resolve_environment host spec = Ok (pc_env command) \<and>
    event_log b' = event_log b @ [(Started, ProcessSpawn), (Completed, ProcessSpawn)]"
proof -
  obtain env ch where pre: "run_spec_validate spec = Inr ()" "process_supports spec = Inr ()"
      "resolve_environment host spec = Inr env"
    and run: "run_sync c ProcessSpawn (os_spawn (process_command_of env spec)) id b = (Some (Inr ch), b')"
    and cmd: "command = process_command_of env spec"
    using assms
    by (auto simp: process_spawn_def Let_def and_then_Inr_iff map_err_Inr_iff ok_or_Inr_iff
        split: sum.splits option.splits prod.splits if_splits)
  have "rs_box_id spec = None \<and> \<not> rs_tty spec \<and> \<not> network_enabled spec \<and> rs_copy_in spec = [] \<and> rs_copy_out spec = []"
    using pre(2) by (simp add: process_supports_def split: if_splits)
  moreover have "pc_program command # pc_args command = rs_argv spec"
    using run_spec_validate_argv [OF pre(1)] by (simp add: cmd process_command_of_def)
  moreover have "event_log b' = event_log b @ [(Started, ProcessSpawn), (Completed, ProcessSpawn)]"
    using run_sync_completed [OF run] by simp
  ultimately show ?thesis using pre cmd by (simp add: process_command_of_def)
qed

end
