(* ===== verification/Session.thy ===== *)
theory Session
  imports Backend Lifecycle Output_Buffer "HOL-Library.Sublist"
begin

text \<open>
  A running session (\<^verbatim>\<open>moraebox-runtime/src/session.rs\<close>, \<^verbatim>\<open>trace.rs\<close>): the \<^verbatim>\<open>select!\<close> loop of
  \<^verbatim>\<open>drive_session\<close> with its escalation from TERM to a forced stop, the end of a session, its trace and the
  pumps of its standard streams. One branch of the loop is one step; what the backend, the timers and
  the tasks answer is part of the event. Every reading of the clock takes the next value of \<open>clock\<close>.
  Panics are values.
\<close>

section \<open>Trace\<close>

datatype TraceKind = TrPrepareStarted | TrBackendSpawnStarted | TrBackendSpawned | TrCommandStarted
  | TrFirstOutput | TrTimeout | TrGracefulStop | TrForcedStop | TrProcessExited | TrCleanupComplete
  | TrStageStarted | TrStageCompleted | TrStageFailed

record TraceEvent =
  tv_sequence :: nat
  tv_elapsed :: nat
  tv_kind :: TraceKind
  tv_stage :: "RunStage option"

definition trace_push :: "nat \<Rightarrow> TraceKind \<Rightarrow> TraceEvent list \<Rightarrow> TraceEvent list" where
  "trace_push elapsed kind evs =
     evs @ [\<lparr>tv_sequence = length evs, tv_elapsed = elapsed, tv_kind = kind, tv_stage = None\<rparr>]"

primrec stage_trace_kind :: "StageEventKind \<Rightarrow> TraceKind" where
  "stage_trace_kind Started = TrStageStarted"
| "stage_trace_kind Completed = TrStageCompleted"
| "stage_trace_kind StageFailed = TrStageFailed"

text \<open>\<^verbatim>\<open>SessionHandle::trace\<close>: both logs, stably sorted by time and numbered anew.\<close>

definition session_trace :: "TraceEvent list \<Rightarrow> StageEvent list \<Rightarrow> TraceEvent list" where
  "session_trace recorded stages =
     (let merged = sort_key tv_elapsed (recorded @ map (\<lambda>e.
            \<lparr>tv_sequence = 0, tv_elapsed = event_micros e, tv_kind = stage_trace_kind (event_kind e),
             tv_stage = Some (event_stage e)\<rparr>) stages)
      in map (\<lambda>(i, e). e\<lparr>tv_sequence := i\<rparr>) (List.enumerate 0 merged))"

section \<open>Status and failures\<close>

record SessionStatus =
  ss_session_id :: uuid
  ss_backend :: string
  ss_resolved_image_digest :: "string option"
  ss_published_ports :: "PublishRequest list"
  ss_state :: SessionState
  ss_termination_reason :: "TerminationReason option"
  ss_exit_code :: "int option"
  ss_signal :: "int option"
  ss_timed_out :: bool
  ss_elapsed_micros :: nat

datatype SessionIoStream = IoStdin | IoStdout | IoStderr

primrec io_stream_display :: "SessionIoStream \<Rightarrow> string" where
  "io_stream_display IoStdin = ''stdin''"
| "io_stream_display IoStdout = ''stdout''"
| "io_stream_display IoStderr = ''stderr''"

datatype SessionIoFailureKind = IoOperation | IoTask | IoCleanupTimeout

primrec io_failure_kind_display :: "SessionIoFailureKind \<Rightarrow> string" where
  "io_failure_kind_display IoOperation = ''I/O failed''"
| "io_failure_kind_display IoTask = ''task failed''"
| "io_failure_kind_display IoCleanupTimeout = ''cleanup timed out''"

record SessionIoFailure =
  if_stream :: SessionIoStream
  if_kind :: SessionIoFailureKind
  if_io_kind :: "string option"
  if_message :: string

definition io_failure_display :: "SessionIoFailure \<Rightarrow> string" where
  "io_failure_display f =
     io_stream_display (if_stream f) @ '' pump '' @ io_failure_kind_display (if_kind f) @ '': '' @ if_message f"

text \<open>How a task ended: its own result, an I/O error (kind and text), or a panic or abort.\<close>

datatype task_end = TaskDone | TaskIoError string string | TaskJoinError string

definition flatten_session_io_task :: "SessionIoStream \<Rightarrow> task_end \<Rightarrow> (unit, SessionIoFailure) result" where
  "flatten_session_io_task stream r =
     (case r of
        TaskDone \<Rightarrow> Ok ()
      | TaskIoError kind message \<Rightarrow>
          Err \<lparr>if_stream = stream, if_kind = IoOperation, if_io_kind = Some kind, if_message = message\<rparr>
      | TaskJoinError message \<Rightarrow>
          Err \<lparr>if_stream = stream, if_kind = IoTask, if_io_kind = None, if_message = message\<rparr>)"

text \<open>
  \<open>fmt\<close> prints a duration (\<^verbatim>\<open>{:?}\<close>); the outcome is that of \<^verbatim>\<open>timeout\<close>, \<^const>\<open>None\<close> when the time elapsed first.
\<close>

definition finish_session_io_task ::
  "(duration \<Rightarrow> string) \<Rightarrow> SessionIoStream \<Rightarrow> duration \<Rightarrow> task_end option \<Rightarrow> (unit, SessionIoFailure) result" where
  "finish_session_io_task fmt stream grace r =
     (case r of
        Some e \<Rightarrow> flatten_session_io_task stream e
      | None \<Rightarrow>
          Err \<lparr>if_stream = stream, if_kind = IoCleanupTimeout, if_io_kind = None,
               if_message = ''did not stop within the '' @ fmt grace @ '' cleanup deadline''\<rparr>)"

definition finish_session_output_tasks ::
  "(duration \<Rightarrow> string) \<Rightarrow> duration \<Rightarrow> task_end option \<Rightarrow> task_end option option \<Rightarrow> SessionIoFailure list" where
  "finish_session_output_tasks fmt grace out err =
     concat (map (\<lambda>r. case r of Inl f \<Rightarrow> [f] | Inr _ \<Rightarrow> [])
       [finish_session_io_task fmt IoStdout grace out,
        (case err of Some r \<Rightarrow> finish_session_io_task fmt IoStderr grace r | None \<Rightarrow> Ok ())])"

definition flatten_stdin_task :: "task_end \<Rightarrow> (unit, string) result" where
  "flatten_stdin_task r =
     (case r of
        TaskDone \<Rightarrow> Ok ()
      | TaskIoError kind message \<Rightarrow> Err message
      | TaskJoinError message \<Rightarrow> Err (''stdin task failed: '' @ message))"

datatype ExitStatus = ExitedWith int | KilledBy int

definition decode_exit_status :: "ExitStatus \<Rightarrow> int option \<times> int option" where
  "decode_exit_status s = (case s of ExitedWith c \<Rightarrow> (Some c, None) | KilledBy n \<Rightarrow> (None, Some n))"

section \<open>The driver\<close>

text \<open>
  The variables of \<^verbatim>\<open>drive_session\<close>: \<open>dr_controller\<close> is whether the controller is still held, the
  three timers hold the time they were armed with, \<open>dr_statuses\<close> are the values sent to the status
  channel, newest first, \<open>dr_replies\<close> the replies to \<^verbatim>\<open>Stop\<close>, \<^verbatim>\<open>Signal\<close> and \<^verbatim>\<open>Resize\<close>, and \<open>dr_reads\<close>
  counts the readings of the clock.
\<close>

record drive =
  dr_lifecycle :: Lifecycle
  dr_controller :: bool
  dr_deadline :: "duration option"
  dr_kill :: "duration option"
  dr_cleanup :: "duration option"
  dr_timed_out :: bool
  dr_errors :: "string list"
  dr_commands_open :: bool
  dr_shutdown :: bool
  dr_stdin_open :: bool
  dr_stdin_shutdown :: bool
  dr_statuses :: "SessionStatus list"
  dr_trace :: "TraceEvent list"
  dr_replies :: "(unit, string) result list"
  dr_reads :: nat

datatype drive_panic = InvalidLifecycle | ControllerMissing

text \<open>The answer of the backend to a control request, under the time limit of the session.\<close>

type_synonym control = "(unit, string) result option"

datatype drive_event =
    DExit "(ExitStatus, string) result"
  | DStdin task_end control control
  | DCommandsClosed control control
  | DSignal "(unit, string) result"
  | DResize "(unit, string) result"
  | DStop control control
  | DDeadline control control
  | DKill control
  | DCleanup

datatype drive_result = DContinue drive | DBreak drive "ExitStatus option"

definition record_trace :: "(nat \<Rightarrow> nat) \<Rightarrow> TraceKind \<Rightarrow> drive \<Rightarrow> drive" where
  "record_trace clock kind d =
     d\<lparr>dr_trace := trace_push (duration_micros (clock (dr_reads d))) kind (dr_trace d), dr_reads := dr_reads d + 1\<rparr>"

definition apply_lifecycle :: "LifecycleEvent \<Rightarrow> drive \<Rightarrow> (drive, drive_panic) result" where
  "apply_lifecycle ev d =
     (case lifecycle_apply (dr_lifecycle d) ev of
        (lc, Inr _) \<Rightarrow> Ok (d\<lparr>dr_lifecycle := lc\<rparr>)
      | (_, Inl _) \<Rightarrow> Err InvalidLifecycle)"

definition publish_status ::
  "(nat \<Rightarrow> nat) \<Rightarrow> RunSpec \<Rightarrow> bool \<Rightarrow> int option \<Rightarrow> int option \<Rightarrow> drive \<Rightarrow> drive" where
  "publish_status clock spec timed_out exit_code sig d =
     (let current = hd (dr_statuses d) in
      d\<lparr>dr_statuses :=
          \<lparr>ss_session_id = rs_session_id spec, ss_backend = ss_backend current,
           ss_resolved_image_digest = ss_resolved_image_digest current,
           ss_published_ports = ss_published_ports current, ss_state = lc_state (dr_lifecycle d),
           ss_termination_reason = lc_termination_reason (dr_lifecycle d), ss_exit_code = exit_code,
           ss_signal = sig, ss_timed_out = timed_out,
           ss_elapsed_micros = duration_micros (clock (dr_reads d))\<rparr> # dr_statuses d,
        dr_reads := dr_reads d + 1\<rparr>)"

definition apply_and_publish ::
  "(nat \<Rightarrow> nat) \<Rightarrow> RunSpec \<Rightarrow> LifecycleEvent \<Rightarrow> bool \<Rightarrow> drive \<Rightarrow> (drive, drive_panic) result" where
  "apply_and_publish clock spec ev timed_out d =
     and_then (apply_lifecycle ev d) (\<lambda>d. Ok (publish_status clock spec timed_out None None d))"

definition mark_failed ::
  "(nat \<Rightarrow> nat) \<Rightarrow> RunSpec \<Rightarrow> bool \<Rightarrow> drive \<Rightarrow> (drive, drive_panic) result" where
  "mark_failed clock spec timed_out d =
     and_then (if lc_state (dr_lifecycle d) \<noteq> Failed then apply_lifecycle Fail d else Ok d)
       (\<lambda>d. Ok (publish_status clock spec timed_out None None d))"

definition push_error :: "string \<Rightarrow> drive \<Rightarrow> drive" where
  "push_error e d = d\<lparr>dr_errors := dr_errors d @ [e]\<rparr>"

definition send_reply :: "(unit, string) result \<Rightarrow> drive \<Rightarrow> drive" where
  "send_reply r d = d\<lparr>dr_replies := dr_replies d @ [r]\<rparr>"

definition bounded_session_control ::
  "(duration \<Rightarrow> string) \<Rightarrow> string \<Rightarrow> duration \<Rightarrow> control \<Rightarrow> (unit, string) result" where
  "bounded_session_control fmt operation grace outcome =
     (case outcome of
        Some (Inr _) \<Rightarrow> Ok ()
      | Some (Inl e) \<Rightarrow> Err (''backend '' @ operation @ '' failed: '' @ e)
      | None \<Rightarrow> Err (''backend '' @ operation @ '' did not complete within '' @ fmt grace))"

definition force_and_release ::
  "(duration \<Rightarrow> string) \<Rightarrow> duration \<Rightarrow> control \<Rightarrow> drive \<Rightarrow> (unit, string) result \<times> drive" where
  "force_and_release fmt grace outcome d =
     ((if dr_controller d then bounded_session_control fmt ''force-stop'' grace outcome
       else Err ''backend controller was already released''),
      d\<lparr>dr_controller := False\<rparr>)"

text \<open>
  The part that every branch repeats after a failed TERM: the forced stop, its trace or error, and the
  hard cleanup timer.
\<close>

definition force_now ::
  "(nat \<Rightarrow> nat) \<Rightarrow> (duration \<Rightarrow> string) \<Rightarrow> RunSpec \<Rightarrow> control \<Rightarrow> drive \<Rightarrow> drive" where
  "force_now clock fmt spec force d =
     (case force_and_release fmt (rs_kill_grace spec) force d of
        (r, d1) \<Rightarrow>
          (case r of Inr _ \<Rightarrow> record_trace clock TrForcedStop d1 | Inl e \<Rightarrow> push_error e d1)
            \<lparr>dr_cleanup := Some (rs_kill_grace spec)\<rparr>)"

text \<open>TERM succeeded: the grace period starts.\<close>

definition graceful :: "(nat \<Rightarrow> nat) \<Rightarrow> RunSpec \<Rightarrow> drive \<Rightarrow> drive" where
  "graceful clock spec d = (record_trace clock TrGracefulStop d)\<lparr>dr_kill := Some (rs_kill_grace spec)\<rparr>"

definition term_result :: "(duration \<Rightarrow> string) \<Rightarrow> RunSpec \<Rightarrow> control \<Rightarrow> (unit, string) result" where
  "term_result fmt spec term = bounded_session_control fmt ''TERM'' (rs_kill_grace spec) term"

definition drive_exit ::
  "(nat \<Rightarrow> nat) \<Rightarrow> RunSpec \<Rightarrow> (ExitStatus, string) result \<Rightarrow> drive \<Rightarrow> (drive_result, drive_panic) result" where
  "drive_exit clock spec r d =
     (case r of
        Inr status \<Rightarrow>
          and_then (if lc_state (dr_lifecycle d) = Running
                    then apply_and_publish clock spec CommandExited (dr_timed_out d) d else Ok d)
            (\<lambda>d. Ok (DBreak (record_trace clock TrProcessExited d) (Some status)))
      | Inl e \<Rightarrow>
          and_then (mark_failed clock spec (dr_timed_out d) (push_error (''backend exit wait failed: '' @ e) d))
            (\<lambda>d. Ok (DBreak d None)))"

definition drive_stdin ::
  "(nat \<Rightarrow> nat) \<Rightarrow> (duration \<Rightarrow> string) \<Rightarrow> RunSpec \<Rightarrow> task_end \<Rightarrow> control \<Rightarrow> control \<Rightarrow> drive
     \<Rightarrow> (drive_result, drive_panic) result" where
  "drive_stdin clock fmt spec r term force d0 =
     (let d = d0\<lparr>dr_stdin_open := False\<rparr> in
      case flatten_stdin_task r of
        Inr _ \<Rightarrow> Ok (DContinue d)
      | Inl e \<Rightarrow>
          and_then (mark_failed clock spec False
              ((push_error (''stdin pump failed: '' @ e) d)\<lparr>dr_shutdown := True\<rparr>))
            (\<lambda>d1.
               let d2 = d1\<lparr>dr_deadline := None, dr_stdin_shutdown := True\<rparr> in
               if \<not> dr_controller d2 then Err ControllerMissing
               else
                 (case term_result fmt spec term of
                    Inr _ \<Rightarrow> Ok (DContinue (graceful clock spec d2))
                  | Inl e \<Rightarrow> Ok (DContinue (force_now clock fmt spec force (push_error e d2))))))"

definition drive_commands_closed ::
  "(nat \<Rightarrow> nat) \<Rightarrow> (duration \<Rightarrow> string) \<Rightarrow> RunSpec \<Rightarrow> control \<Rightarrow> control \<Rightarrow> drive
     \<Rightarrow> (drive_result, drive_panic) result" where
  "drive_commands_closed clock fmt spec term force d0 =
     (let d = d0\<lparr>dr_commands_open := False\<rparr> in
      if \<not> dr_shutdown d then
        and_then (apply_and_publish clock spec StopRequested False (d\<lparr>dr_shutdown := True\<rparr>)) (\<lambda>d1.
          let d2 = d1\<lparr>dr_stdin_shutdown := True\<rparr> in
          if \<not> dr_controller d2 then Err ControllerMissing
          else
            (case term_result fmt spec term of
               Inr _ \<Rightarrow> Ok (DContinue ((graceful clock spec d2)\<lparr>dr_deadline := None\<rparr>))
             | Inl e \<Rightarrow>
                 and_then (mark_failed clock spec False (push_error e d2)) (\<lambda>d3.
                   Ok (DContinue ((force_now clock fmt spec force d3)\<lparr>dr_deadline := None\<rparr>)))))
      else if dr_kill d = None \<and> dr_cleanup d = None \<and> dr_controller d then
        (case force_and_release fmt (rs_kill_grace spec) force d of
           (Inr _, d1) \<Rightarrow>
             Ok (DContinue ((record_trace clock TrForcedStop d1)\<lparr>dr_cleanup := Some (rs_kill_grace spec)\<rparr>))
         | (Inl e, d1) \<Rightarrow>
             and_then (mark_failed clock spec (dr_timed_out d1) (push_error e d1)) (\<lambda>d2.
               Ok (DContinue (d2\<lparr>dr_cleanup := Some (rs_kill_grace spec)\<rparr>))))
      else Ok (DContinue d))"

text \<open>\<^verbatim>\<open>Signal\<close> and \<^verbatim>\<open>Resize\<close>: passed on while the controller is held.\<close>

definition drive_control :: "(unit, string) result \<Rightarrow> drive \<Rightarrow> (drive_result, drive_panic) result" where
  "drive_control r d =
     Ok (DContinue (send_reply (if dr_controller d then r else Err ''session teardown is already forced'') d))"

definition drive_stop ::
  "(nat \<Rightarrow> nat) \<Rightarrow> (duration \<Rightarrow> string) \<Rightarrow> RunSpec \<Rightarrow> control \<Rightarrow> control \<Rightarrow> drive
     \<Rightarrow> (drive_result, drive_panic) result" where
  "drive_stop clock fmt spec term force d =
     (if dr_shutdown d then Ok (DContinue (send_reply (Ok ()) d))
      else
        and_then (apply_and_publish clock spec StopRequested False (d\<lparr>dr_shutdown := True\<rparr>)) (\<lambda>d1.
          let d2 = d1\<lparr>dr_stdin_shutdown := True\<rparr>;
              r = (if dr_controller d2 then term_result fmt spec term
                   else Err ''session teardown is already forced'')
          in case r of
               Inr _ \<Rightarrow> Ok (DContinue (send_reply r ((graceful clock spec d2)\<lparr>dr_deadline := None\<rparr>)))
             | Inl e \<Rightarrow>
                 if dr_controller d2 then
                   and_then (mark_failed clock spec False (push_error e d2)) (\<lambda>d3.
                     Ok (DContinue (send_reply r ((force_now clock fmt spec force d3)\<lparr>dr_deadline := None\<rparr>))))
                 else Ok (DContinue (send_reply r d2))))"

definition drive_deadline ::
  "(nat \<Rightarrow> nat) \<Rightarrow> (duration \<Rightarrow> string) \<Rightarrow> RunSpec \<Rightarrow> control \<Rightarrow> control \<Rightarrow> drive
     \<Rightarrow> (drive_result, drive_panic) result" where
  "drive_deadline clock fmt spec term force d =
     and_then (apply_and_publish clock spec LifecycleEvent.Timeout True (d\<lparr>dr_shutdown := True, dr_timed_out := True\<rparr>)) (\<lambda>d1.
       let d2 = (record_trace clock TrTimeout d1)\<lparr>dr_stdin_shutdown := True\<rparr> in
       if \<not> dr_controller d2 then Err ControllerMissing
       else
         (case term_result fmt spec term of
            Inr _ \<Rightarrow> Ok (DContinue ((graceful clock spec d2)\<lparr>dr_deadline := None\<rparr>))
          | Inl e \<Rightarrow>
              and_then (mark_failed clock spec True (push_error e d2)) (\<lambda>d3.
                Ok (DContinue ((force_now clock fmt spec force d3)\<lparr>dr_deadline := None\<rparr>)))))"

definition drive_kill ::
  "(nat \<Rightarrow> nat) \<Rightarrow> (duration \<Rightarrow> string) \<Rightarrow> RunSpec \<Rightarrow> control \<Rightarrow> drive \<Rightarrow> (drive_result, drive_panic) result" where
  "drive_kill clock fmt spec force d =
     (case force_and_release fmt (rs_kill_grace spec) force d of
        (r, d1) \<Rightarrow>
          and_then (case r of
                      Inr _ \<Rightarrow> Ok (record_trace clock TrForcedStop d1)
                    | Inl e \<Rightarrow> mark_failed clock spec (dr_timed_out d1) (push_error e d1))
            (\<lambda>d2. Ok (DContinue (d2\<lparr>dr_kill := None, dr_cleanup := Some (rs_kill_grace spec)\<rparr>))))"

definition drive_cleanup ::
  "(nat \<Rightarrow> nat) \<Rightarrow> (duration \<Rightarrow> string) \<Rightarrow> RunSpec \<Rightarrow> drive \<Rightarrow> (drive_result, drive_panic) result" where
  "drive_cleanup clock fmt spec d =
     and_then (mark_failed clock spec (dr_timed_out d)
         (push_error (''backend exit did not complete within the '' @ fmt (rs_kill_grace spec) @
                      '' hard cleanup deadline'') d))
       (\<lambda>d. Ok (DBreak d None))"

text \<open>Which branches of \<^verbatim>\<open>select!\<close> are enabled, and one turn of the loop.\<close>

definition drive_enabled :: "drive \<Rightarrow> drive_event \<Rightarrow> bool" where
  "drive_enabled d ev =
     (case ev of
        DExit _ \<Rightarrow> True
      | DStdin _ _ _ \<Rightarrow> dr_stdin_open d
      | DCommandsClosed _ _ \<Rightarrow> dr_commands_open d
      | DSignal _ \<Rightarrow> dr_commands_open d
      | DResize _ \<Rightarrow> dr_commands_open d
      | DStop _ _ \<Rightarrow> dr_commands_open d
      | DDeadline _ _ \<Rightarrow> dr_deadline d \<noteq> None
      | DKill _ \<Rightarrow> dr_kill d \<noteq> None
      | DCleanup \<Rightarrow> dr_cleanup d \<noteq> None)"

definition drive_step ::
  "(nat \<Rightarrow> nat) \<Rightarrow> (duration \<Rightarrow> string) \<Rightarrow> RunSpec \<Rightarrow> drive \<Rightarrow> drive_event \<Rightarrow> (drive_result, drive_panic) result" where
  "drive_step clock fmt spec d ev =
     (case ev of
        DExit r \<Rightarrow> drive_exit clock spec r d
      | DStdin r term force \<Rightarrow> drive_stdin clock fmt spec r term force d
      | DCommandsClosed term force \<Rightarrow> drive_commands_closed clock fmt spec term force d
      | DSignal r \<Rightarrow> drive_control r d
      | DResize r \<Rightarrow> drive_control r d
      | DStop term force \<Rightarrow> drive_stop clock fmt spec term force d
      | DDeadline term force \<Rightarrow> drive_deadline clock fmt spec term force d
      | DKill force \<Rightarrow> drive_kill clock fmt spec force d
      | DCleanup \<Rightarrow> drive_cleanup clock fmt spec d)"

record TerminalDiagnostics =
  td_messages :: "string list"
  td_io_failures :: "SessionIoFailure list"

text \<open>
  The end of \<^verbatim>\<open>drive_session\<close>. The time at which the command stage started and the two readings the
  budget takes are parameters.
\<close>

definition drive_finish ::
  "(nat \<Rightarrow> nat) \<Rightarrow> (duration \<Rightarrow> string) \<Rightarrow> RunSpec \<Rightarrow> task_end option \<Rightarrow> task_end option \<Rightarrow> task_end option option
     \<Rightarrow> nat \<Rightarrow> nat \<Rightarrow> nat \<Rightarrow> drive \<Rightarrow> ExitStatus option \<Rightarrow> RunBudget
     \<Rightarrow> (drive \<times> RunBudget \<times> TerminalDiagnostics, drive_panic) result" where
  "drive_finish clock fmt spec stdin_end stdout_end stderr_end stage_start now now' d0 exit_status budget =
     (let grace = rs_kill_grace spec;
          stdin_failures =
            (if dr_stdin_open d0
             then (case finish_session_io_task fmt IoStdin grace stdin_end of Inl f \<Rightarrow> [f] | Inr _ \<Rightarrow> [])
             else []);
          io_failures = stdin_failures @ finish_session_output_tasks fmt grace stdout_end stderr_end;
          d = d0\<lparr>dr_stdin_shutdown := True, dr_controller := False,
                 dr_errors := dr_errors d0 @ map io_failure_display io_failures\<rparr>
      in and_then (if dr_errors d \<noteq> [] then mark_failed clock spec (dr_timed_out d) d else Ok d) (\<lambda>d1.
         let budget' = (if dr_timed_out d1 \<or> dr_errors d1 \<noteq> []
                        then fail_stage now now' CommandRun stage_start budget
                        else complete_stage now now' CommandRun stage_start budget);
             diagnostics = \<lparr>td_messages = dr_errors d1, td_io_failures = io_failures\<rparr>
         in case exit_status of
              None \<Rightarrow> Ok (d1, budget', diagnostics)
            | Some status \<Rightarrow>
                and_then (apply_lifecycle CleanupComplete d1) (\<lambda>d2.
                  case decode_exit_status status of
                    (exit_code, sig) \<Rightarrow>
                      Ok (publish_status clock spec (dr_timed_out d2) exit_code sig
                            (record_trace clock TrCleanupComplete d2), budget', diagnostics))))"

section \<open>Starting a session\<close>

datatype SessionError =
    SessionBackend BackendError
  | SessionIo SessionIoFailure
  | SessionOutput OutputReadError
  | SessionLifecycle LifecycleError
  | SessionClosed
  | SessionControl string
  | StdinWriteTooLarge nat nat
  | OutputReadTooLarge nat nat

definition lifecycle_try :: "LifecycleEvent \<Rightarrow> Lifecycle \<Rightarrow> (Lifecycle, SessionError) result" where
  "lifecycle_try ev lc =
     (case lifecycle_apply lc ev of (lc', Inr _) \<Rightarrow> Ok lc' | (_, Inl e) \<Rightarrow> Err (SessionLifecycle e))"

definition initial_status :: "string \<Rightarrow> RunSpec \<Rightarrow> StartupMetrics \<Rightarrow> Lifecycle \<Rightarrow> SessionStatus" where
  "initial_status backend spec startup lc =
     \<lparr>ss_session_id = rs_session_id spec, ss_backend = backend,
      ss_resolved_image_digest = su_resolved_image_digest startup,
      ss_published_ports = su_published_ports startup, ss_state = lc_state lc,
      ss_termination_reason = lc_termination_reason lc, ss_exit_code = None, ss_signal = None,
      ss_timed_out = False, ss_elapsed_micros = 0\<rparr>"

text \<open>A budget that has run out gives the command no time at all; \<^const>\<open>None\<close> is a panic of \<^const>\<open>remaining\<close>.\<close>

definition begin_command_stage ::
  "nat \<Rightarrow> nat \<Rightarrow> nat \<Rightarrow> RunBudget \<Rightarrow> ((nat \<times> duration option) \<times> RunBudget) option" where
  "begin_command_stage now now1 now2 b =
     (case remaining now CommandRun b of
        (None, _) \<Rightarrow> None
      | (Some r, b1) \<Rightarrow>
          let command_timeout = (case r of Inr t \<Rightarrow> t | Inl _ \<Rightarrow> Some 0)
          in case begin_stage now1 now2 CommandRun b1 of (start, b2) \<Rightarrow> Some ((start, command_timeout), b2))"

definition push_trace_at :: "nat \<Rightarrow> TraceKind \<Rightarrow> TraceEvent list \<Rightarrow> TraceEvent list" where
  "push_trace_at elapsed kind evs = trace_push elapsed kind evs"

text \<open>
  \<^verbatim>\<open>start_session\<close>: the lifecycle up to the running command, where \<open>spawned\<close> is the answer of the
  backend; then the state the driver starts in, the start of the command stage and the budget. The
  backend has had its way with the budget before; \<^const>\<open>None\<close> is the panic of \<^const>\<open>remaining\<close>.
\<close>

definition spawn_session ::
  "RunSpec \<Rightarrow> (StartupMetrics, BackendError) result \<Rightarrow> (StartupMetrics \<times> Lifecycle, SessionError) result" where
  "spawn_session spec spawned =
     and_then (map_err (SessionBackend \<circ> BeInvalidSpec) (run_spec_validate spec)) (\<lambda>_.
     and_then (lifecycle_try Prepare lifecycle_default) (\<lambda>lc1.
     and_then (lifecycle_try Start lc1) (\<lambda>lc2.
       case spawned of
         Inl e \<Rightarrow>
           and_then (lifecycle_try Fail lc2) (\<lambda>lc3.
           and_then (lifecycle_try CleanupComplete lc3) (\<lambda>_. Err (SessionBackend e)))
       | Inr startup \<Rightarrow>
           and_then (lifecycle_try AgentReady lc2) (\<lambda>lc3.
           and_then (lifecycle_try CommandStarted lc3) (\<lambda>lc4. Ok (startup, lc4))))))"

definition start_session ::
  "(nat \<Rightarrow> nat) \<Rightarrow> string \<Rightarrow> RunSpec \<Rightarrow> (StartupMetrics, BackendError) result \<Rightarrow> nat \<Rightarrow> nat \<Rightarrow> nat \<Rightarrow> RunBudget
     \<Rightarrow> (drive \<times> nat \<times> RunBudget, SessionError) result option" where
  "start_session clock backend spec spawned now now1 now2 budget =
     (case spawn_session spec spawned of
        Inl e \<Rightarrow> Some (Err e)
      | Inr (startup, lc) \<Rightarrow>
          (case begin_command_stage now now1 now2 budget of
             None \<Rightarrow> None
           | Some ((stage_start, command_timeout), budget') \<Rightarrow>
               Some (Ok
                 (\<lparr>dr_lifecycle = lc, dr_controller = True, dr_deadline = command_timeout, dr_kill = None,
                   dr_cleanup = None, dr_timed_out = False, dr_errors = [], dr_commands_open = True,
                   dr_shutdown = False, dr_stdin_open = True, dr_stdin_shutdown = False,
                   dr_statuses = [initial_status backend spec startup lc],
                   dr_trace =
                     trace_push (duration_micros (clock 2)) TrCommandStarted
                       (trace_push (duration_micros (clock 1)) TrBackendSpawned
                         (trace_push (duration_micros (clock 0)) TrBackendSpawnStarted
                           (push_trace_at 0 TrPrepareStarted []))),
                   dr_replies = [], dr_reads = 3\<rparr>, stage_start, budget'))))"

section \<open>Client side and pumps\<close>

definition MAX_SESSION_OUTPUT_READ_BYTES :: nat where "MAX_SESSION_OUTPUT_READ_BYTES = 8 * 1024 * 1024"
definition STDIN_QUEUE_BYTES :: nat where "STDIN_QUEUE_BYTES = 1024 * 1024"

definition session_read_output :: "nat \<Rightarrow> nat \<Rightarrow> OutputBuffer \<Rightarrow> (OutputRead, SessionError) result" where
  "session_read_output cursor max_bytes b =
     (if max_bytes > MAX_SESSION_OUTPUT_READ_BYTES
      then Err (OutputReadTooLarge max_bytes MAX_SESSION_OUTPUT_READ_BYTES)
      else map_err SessionOutput (output_read b cursor max_bytes))"

text \<open>The checks of \<^verbatim>\<open>write\<close>: the number of permits it asks for.\<close>

definition session_write_permits :: "bytes \<Rightarrow> (nat, SessionError) result" where
  "session_write_permits bs =
     (if length bs > STDIN_QUEUE_BYTES then Err (StdinWriteTooLarge (length bs) STDIN_QUEUE_BYTES)
      else if length bs < 2 ^ 32 then Ok (length bs)
      else Err (StdinWriteTooLarge (length bs) STDIN_QUEUE_BYTES))"

text \<open>Whether \<^verbatim>\<open>stop\<close> has to send a request.\<close>

definition stop_needs_request :: "SessionStatus \<Rightarrow> bool" where
  "stop_needs_request st \<longleftrightarrow> ss_state st \<notin> {Stopping, Failed, TimedOut, Dead}"

text \<open>
  \<^verbatim>\<open>completion\<close> over the values the status channel takes, \<^const>\<open>None\<close> for its closing; the result
  \<^const>\<open>None\<close> is a future that still waits.
\<close>

primrec completion ::
  "SessionIoFailure list \<Rightarrow> SessionStatus option list \<Rightarrow> (SessionStatus, SessionError) result option" where
  "completion failures [] = None"
| "completion failures (s # ss) =
     (case s of
        None \<Rightarrow> Some (Err SessionClosed)
      | Some st \<Rightarrow>
          if ss_state st = Dead
          then (case failures of f # _ \<Rightarrow> Some (Err (SessionIo f)) | [] \<Rightarrow> Some (Ok st))
          else completion failures ss)"

text \<open>
  \<^verbatim>\<open>wait_for_output\<close> over the values of the cursor channel, \<^const>\<open>None\<close> for its closing, after which the
  result \<open>finish\<close> of \<^const>\<open>completion\<close> is awaited.
\<close>

primrec wait_for_output ::
  "nat \<Rightarrow> (SessionStatus, SessionError) result option \<Rightarrow> nat option list \<Rightarrow> (nat, SessionError) result option" where
  "wait_for_output cursor finish [] = None"
| "wait_for_output cursor finish (c # cs) =
     (case c of
        Some next_cursor \<Rightarrow> if next_cursor > cursor then Some (Ok next_cursor) else wait_for_output cursor finish cs
      | None \<Rightarrow> map_option (\<lambda>r. and_then r (\<lambda>_. Ok cursor)) finish)"

text \<open>The replies to \<^verbatim>\<open>signal\<close>, \<^verbatim>\<open>resize\<close>, \<^verbatim>\<open>stop\<close>, \<^verbatim>\<open>write\<close> and \<^verbatim>\<open>close_stdin\<close>; \<^const>\<open>None\<close> is a dropped sender.\<close>

definition receive_reply :: "(unit, string) result option \<Rightarrow> (unit, SessionError) result" where
  "receive_reply r = (case r of None \<Rightarrow> Err SessionClosed | Some r \<Rightarrow> map_err SessionControl r)"

definition terminal_error :: "TerminalDiagnostics \<Rightarrow> string option" where
  "terminal_error t =
     (if td_messages t = [] then None
      else Some (concat (hd (td_messages t) # map (\<lambda>m. ''; '' @ m) (tl (td_messages t)))))"

text \<open>\<^verbatim>\<open>retained_output\<close>: all that is retained, with the cursors around it; \<^const>\<open>None\<close> is a panic.\<close>

definition retained_output :: "OutputBuffer \<Rightarrow> (OutputRead \<times> nat \<times> nat) option" where
  "retained_output b =
     (case snapshot b (ob_earliest_cursor b) (2 ^ 64 - 1) of
        Inr s \<Rightarrow> Some (materialize s, ob_earliest_cursor b, ob_next_cursor b)
      | Inl _ \<Rightarrow> None)"

text \<open>
  \<^verbatim>\<open>pump_output\<close> over the results of its reads (of at most 16 KiB, an empty one at the end): the buffer,
  the published cursor and the trace; the result \<^const>\<open>None\<close> is a pump that still reads.
\<close>

primrec pump_output ::
  "(nat \<Rightarrow> nat) \<Rightarrow> OutputChannel \<Rightarrow> (bytes, 'io) result list \<Rightarrow> OutputBuffer \<times> nat \<times> TraceEvent list \<times> nat
     \<Rightarrow> (unit, 'io) result option \<times> OutputBuffer \<times> nat \<times> TraceEvent list \<times> nat" where
  "pump_output clock channel [] st = (None, st)"
| "pump_output clock channel (r # rs) st =
     (case r of
        Inl io \<Rightarrow> (Some (Err io), st)
      | Inr chunk \<Rightarrow>
          if chunk = [] then (Some (Ok ()), st)
          else
            (case st of (b, cursor, trace, reads) \<Rightarrow>
               let first_output = (ob_next_cursor b = 0);
                   b' = fst (push b channel chunk);
                   trace' = (if first_output then trace_push (duration_micros (clock reads)) TrFirstOutput trace else trace);
                   reads' = (if first_output then reads + 1 else reads)
               in pump_output clock channel rs (b', ob_next_cursor b', trace', reads')))"

text \<open>
  The writes of the standard input pump: a write succeeds, fails after some bytes, or is cut off by the
  shutdown after some bytes.
\<close>

datatype write_outcome = WriteDone | WriteFailed nat string | WriteCut nat

datatype stdin_event =
    SeShutdown
  | SeRequestsClosed
  | SeWrite bytes write_outcome
  | SeClose "(unit, string) result"

record stdin_pump =
  sp_writer :: bool
  sp_written :: bytes
  sp_replies :: "(unit, string) result list"

definition written_part :: "bytes \<Rightarrow> write_outcome \<Rightarrow> bytes" where
  "written_part bs w = (case w of WriteDone \<Rightarrow> bs | WriteFailed n _ \<Rightarrow> take n bs | WriteCut n \<Rightarrow> take n bs)"

definition write_reply :: "write_outcome \<Rightarrow> (unit, string) result" where
  "write_reply w =
     (case w of WriteDone \<Rightarrow> Ok () | WriteFailed _ e \<Rightarrow> Err e | WriteCut _ \<Rightarrow> Err ''stdin is closed'')"

primrec pump_stdin_loop :: "stdin_event list \<Rightarrow> stdin_pump \<Rightarrow> (unit, string) result option \<times> stdin_pump" where
  "pump_stdin_loop [] p = (None, p)"
| "pump_stdin_loop (ev # evs) p =
     (case ev of
        SeShutdown \<Rightarrow> (Some (Ok ()), p)
      | SeRequestsClosed \<Rightarrow> (Some (Ok ()), p)
      | SeWrite bs w \<Rightarrow>
          let r = (if sp_writer p then write_reply w else Err ''stdin is closed'');
              p' = p\<lparr>sp_written := sp_written p @ (if sp_writer p then written_part bs w else []),
                     sp_replies := sp_replies p @ [r]\<rparr>
          in if is_ok r then pump_stdin_loop evs p' else (Some (Ok ()), p')
      | SeClose r \<Rightarrow>
          pump_stdin_loop evs (p\<lparr>sp_writer := False,
            sp_replies := sp_replies p @ [if sp_writer p then r else Ok ()]\<rparr>))"

definition pump_stdin_inner ::
  "bytes \<Rightarrow> write_outcome \<Rightarrow> stdin_event list \<Rightarrow> stdin_pump \<Rightarrow> (unit, string) result option \<times> stdin_pump" where
  "pump_stdin_inner initial w evs p =
     (if \<not> sp_writer p \<and> initial \<noteq> [] then (Some (Err ''backend stdin is unavailable''), p)
      else if initial = [] then pump_stdin_loop evs p
      else
        let p' = p\<lparr>sp_written := sp_written p @ written_part initial w\<rparr>
        in case w of
             WriteDone \<Rightarrow> pump_stdin_loop evs p'
           | WriteFailed _ e \<Rightarrow> (Some (Err e), p')
           | WriteCut _ \<Rightarrow> (Some (Ok ()), p'))"

text \<open>What \<^verbatim>\<open>pump_stdin\<close> adds: the \<open>queued\<close> requests that are left are refused.\<close>

definition pump_stdin ::
  "bytes \<Rightarrow> write_outcome \<Rightarrow> stdin_event list \<Rightarrow> nat \<Rightarrow> stdin_pump \<Rightarrow> (unit, string) result option \<times> stdin_pump" where
  "pump_stdin initial w evs queued p =
     (case pump_stdin_inner initial w evs p of
        (None, p') \<Rightarrow> (None, p')
      | (Some r, p') \<Rightarrow> (Some r, p'\<lparr>sp_replies := sp_replies p' @ replicate queued (Err ''stdin is closed'')\<rparr>))"

section \<open>Invariant of the driver\<close>

definition drive_inv :: "drive \<Rightarrow> bool" where
  "drive_inv d \<longleftrightarrow>
     (case dr_lifecycle d of lc \<Rightarrow>
        lc_state lc \<in> {Running, Stopping, TimedOut, Failed} \<and>
        lc_termination_reason lc =
          (if lc_state lc = Running then None
           else if lc_state lc = Stopping then Some Reason_Cancelled
           else if lc_state lc = TimedOut then Some Reason_TimedOut else Some Reason_Failed) \<and>
        (lc_state lc = Running \<longleftrightarrow> \<not> dr_shutdown d) \<and>
        (lc_state lc = Failed \<longleftrightarrow> dr_errors d \<noteq> []) \<and>
        (lc_state lc = TimedOut \<longrightarrow> dr_timed_out d) \<and>
        (lc_state lc = Stopping \<longrightarrow> \<not> dr_timed_out d)) \<and>
     (if dr_shutdown d
      then dr_deadline d = None \<and>
           (if dr_controller d then dr_kill d \<noteq> None \<and> dr_cleanup d = None else dr_cleanup d \<noteq> None)
      else dr_controller d \<and> dr_kill d = None \<and> dr_cleanup d = None \<and> \<not> dr_timed_out d) \<and>
     dr_statuses d \<noteq> []"

definition failed :: "drive \<Rightarrow> drive" where
  "failed d = d\<lparr>dr_lifecycle := \<lparr>lc_state = Failed, lc_termination_reason = Some Reason_Failed\<rparr>\<rparr>"

lemma mark_failed_eq:
  assumes "lc_state (dr_lifecycle d) \<in> {Running, Stopping, TimedOut, Failed}"
    and "lc_state (dr_lifecycle d) = Failed \<longrightarrow> lc_termination_reason (dr_lifecycle d) = Some Reason_Failed"
  shows "mark_failed clock spec t d = Inr (publish_status clock spec t None None (failed d))"
proof (cases "lc_state (dr_lifecycle d) = Failed")
  case True
  then have "dr_lifecycle d = \<lparr>lc_state = Failed, lc_termination_reason = Some Reason_Failed\<rparr>"
    using assms(2) by (cases "dr_lifecycle d") simp
  then have "failed d = d" by (simp add: failed_def)
  with True show ?thesis by (simp add: mark_failed_def)
next
  case False
  then have "apply_lifecycle Fail d = Inr (failed d)"
    using assms(1) by (cases "dr_lifecycle d")
      (auto simp: apply_lifecycle_def lifecycle_apply_def lifecycle_arm_def failed_def)
  with False show ?thesis by (simp add: mark_failed_def)
qed

lemma apply_running:
  assumes "lc_state (dr_lifecycle d) = Running"
  shows "apply_and_publish clock spec CommandExited t d = Inr (publish_status clock spec t None None
      (d\<lparr>dr_lifecycle := \<lparr>lc_state = Stopping, lc_termination_reason = Some Reason_Exited\<rparr>\<rparr>))"
    "apply_and_publish clock spec StopRequested t d = Inr (publish_status clock spec t None None
      (d\<lparr>dr_lifecycle := \<lparr>lc_state = Stopping, lc_termination_reason = Some Reason_Cancelled\<rparr>\<rparr>))"
    "apply_and_publish clock spec LifecycleEvent.Timeout t d = Inr (publish_status clock spec t None None
      (d\<lparr>dr_lifecycle := \<lparr>lc_state = TimedOut, lc_termination_reason = Some Reason_TimedOut\<rparr>\<rparr>))"
  using assms by (cases "dr_lifecycle d";
      simp add: apply_and_publish_def apply_lifecycle_def lifecycle_apply_def lifecycle_arm_def)+

lemma record_trace_fields [simp]:
  "dr_lifecycle (record_trace clock k d) = dr_lifecycle d" "dr_controller (record_trace clock k d) = dr_controller d"
  "dr_deadline (record_trace clock k d) = dr_deadline d" "dr_kill (record_trace clock k d) = dr_kill d"
  "dr_cleanup (record_trace clock k d) = dr_cleanup d" "dr_timed_out (record_trace clock k d) = dr_timed_out d"
  "dr_errors (record_trace clock k d) = dr_errors d" "dr_shutdown (record_trace clock k d) = dr_shutdown d"
  "dr_statuses (record_trace clock k d) = dr_statuses d" "dr_stdin_open (record_trace clock k d) = dr_stdin_open d"
  "dr_commands_open (record_trace clock k d) = dr_commands_open d"
  by (simp_all add: record_trace_def)

lemma publish_fields [simp]:
  "dr_lifecycle (publish_status clock spec t c s d) = dr_lifecycle d"
  "dr_controller (publish_status clock spec t c s d) = dr_controller d"
  "dr_deadline (publish_status clock spec t c s d) = dr_deadline d" "dr_kill (publish_status clock spec t c s d) = dr_kill d"
  "dr_cleanup (publish_status clock spec t c s d) = dr_cleanup d" "dr_timed_out (publish_status clock spec t c s d) = dr_timed_out d"
  "dr_errors (publish_status clock spec t c s d) = dr_errors d" "dr_shutdown (publish_status clock spec t c s d) = dr_shutdown d"
  "dr_statuses (publish_status clock spec t c s d) \<noteq> []" "dr_stdin_open (publish_status clock spec t c s d) = dr_stdin_open d"
  "dr_commands_open (publish_status clock spec t c s d) = dr_commands_open d"
  by (simp_all add: publish_status_def Let_def)

lemma failed_fields [simp]:
  "dr_lifecycle (failed d) = \<lparr>lc_state = Failed, lc_termination_reason = Some Reason_Failed\<rparr>"
  "dr_controller (failed d) = dr_controller d" "dr_deadline (failed d) = dr_deadline d" "dr_kill (failed d) = dr_kill d"
  "dr_cleanup (failed d) = dr_cleanup d" "dr_timed_out (failed d) = dr_timed_out d" "dr_errors (failed d) = dr_errors d"
  "dr_shutdown (failed d) = dr_shutdown d" "dr_statuses (failed d) = dr_statuses d"
  "dr_stdin_open (failed d) = dr_stdin_open d" "dr_commands_open (failed d) = dr_commands_open d"
  by (simp_all add: failed_def)

lemma push_error_fields [simp]:
  "dr_lifecycle (push_error e d) = dr_lifecycle d" "dr_controller (push_error e d) = dr_controller d"
  "dr_deadline (push_error e d) = dr_deadline d" "dr_kill (push_error e d) = dr_kill d"
  "dr_cleanup (push_error e d) = dr_cleanup d" "dr_timed_out (push_error e d) = dr_timed_out d"
  "dr_errors (push_error e d) = dr_errors d @ [e]" "dr_shutdown (push_error e d) = dr_shutdown d"
  "dr_statuses (push_error e d) = dr_statuses d" "dr_stdin_open (push_error e d) = dr_stdin_open d"
  "dr_commands_open (push_error e d) = dr_commands_open d"
  by (simp_all add: push_error_def)

lemma send_reply_fields [simp]:
  "dr_lifecycle (send_reply r d) = dr_lifecycle d" "dr_controller (send_reply r d) = dr_controller d"
  "dr_deadline (send_reply r d) = dr_deadline d" "dr_kill (send_reply r d) = dr_kill d"
  "dr_cleanup (send_reply r d) = dr_cleanup d" "dr_timed_out (send_reply r d) = dr_timed_out d"
  "dr_errors (send_reply r d) = dr_errors d" "dr_shutdown (send_reply r d) = dr_shutdown d"
  "dr_statuses (send_reply r d) = dr_statuses d" "dr_stdin_open (send_reply r d) = dr_stdin_open d"
  "dr_commands_open (send_reply r d) = dr_commands_open d"
  by (simp_all add: send_reply_def)

lemma graceful_fields [simp]:
  "dr_lifecycle (graceful clock spec d) = dr_lifecycle d" "dr_controller (graceful clock spec d) = dr_controller d"
  "dr_deadline (graceful clock spec d) = dr_deadline d" "dr_kill (graceful clock spec d) = Some (rs_kill_grace spec)"
  "dr_cleanup (graceful clock spec d) = dr_cleanup d" "dr_timed_out (graceful clock spec d) = dr_timed_out d"
  "dr_errors (graceful clock spec d) = dr_errors d" "dr_shutdown (graceful clock spec d) = dr_shutdown d"
  "dr_statuses (graceful clock spec d) = dr_statuses d" "dr_stdin_open (graceful clock spec d) = dr_stdin_open d"
  "dr_commands_open (graceful clock spec d) = dr_commands_open d"
  by (simp_all add: graceful_def)

lemma force_now_fields [simp]:
  "dr_lifecycle (force_now clock fmt spec f d) = dr_lifecycle d" "\<not> dr_controller (force_now clock fmt spec f d)"
  "dr_deadline (force_now clock fmt spec f d) = dr_deadline d" "dr_kill (force_now clock fmt spec f d) = dr_kill d"
  "dr_cleanup (force_now clock fmt spec f d) = Some (rs_kill_grace spec)"
  "dr_timed_out (force_now clock fmt spec f d) = dr_timed_out d" "dr_shutdown (force_now clock fmt spec f d) = dr_shutdown d"
  "dr_statuses (force_now clock fmt spec f d) = dr_statuses d" "dr_stdin_open (force_now clock fmt spec f d) = dr_stdin_open d"
  "dr_commands_open (force_now clock fmt spec f d) = dr_commands_open d"
  by (auto simp: force_now_def force_and_release_def split: sum.split)

lemma force_now_errors: "dr_errors d \<noteq> [] \<Longrightarrow> dr_errors (force_now clock fmt spec f d) \<noteq> []"
  by (auto simp: force_now_def force_and_release_def split: sum.split)

text \<open>One turn of the loop, from a state that satisfies the invariant, either panics, goes on or ends.\<close>

definition good_turn :: "drive \<Rightarrow> (drive_result, drive_panic) result \<Rightarrow> bool" where
  "good_turn d r \<longleftrightarrow>
     (case r of
        Inl p \<Rightarrow> False
      | Inr (DContinue d') \<Rightarrow> drive_inv d'
      | Inr (DBreak d' status) \<Rightarrow>
          dr_statuses d' \<noteq> [] \<and> dr_timed_out d' = dr_timed_out d \<and> dr_shutdown d' = dr_shutdown d \<and>
          (if status = None then lc_state (dr_lifecycle d') = Failed \<and> dr_errors d' \<noteq> []
           else lc_state (dr_lifecycle d') \<in> {Stopping, TimedOut, Failed} \<and>
                (lc_state (dr_lifecycle d') = Failed \<longleftrightarrow> dr_errors d' \<noteq> [])) \<and>
          lc_termination_reason (dr_lifecycle d') = Some
            (if dr_errors d' \<noteq> [] then Reason_Failed
             else if dr_timed_out d' then Reason_TimedOut
             else if dr_shutdown d' then Reason_Cancelled else Reason_Exited))"

lemma drive_inv_state:
  assumes "drive_inv d"
  shows "lc_state (dr_lifecycle d) \<in> {Running, Stopping, TimedOut, Failed}"
    and "lc_state (dr_lifecycle d) = Failed \<longrightarrow> lc_termination_reason (dr_lifecycle d) = Some Reason_Failed"
  using assms by (auto simp: drive_inv_def)

lemma mark_failed_inv:
  assumes "drive_inv d"
  shows "mark_failed clock spec t (push_error e d) = Inr (publish_status clock spec t None None (failed (push_error e d)))"
  using drive_inv_state [OF assms] by (intro mark_failed_eq) auto

lemma drive_exit_good: "drive_inv d \<Longrightarrow> good_turn d (drive_exit clock spec r d)"
  by (cases r; cases "lc_state (dr_lifecycle d) = Running")
    (auto simp: drive_exit_def mark_failed_inv apply_running good_turn_def drive_inv_def split: if_splits)

lemma drive_cleanup_good: "drive_inv d \<Longrightarrow> dr_cleanup d \<noteq> None \<Longrightarrow> good_turn d (drive_cleanup clock fmt spec d)"
  by (auto simp: drive_cleanup_def mark_failed_inv good_turn_def drive_inv_def split: if_splits)

lemma drive_control_good: "drive_inv d \<Longrightarrow> good_turn d (drive_control r d)"
  by (auto simp: drive_control_def good_turn_def drive_inv_def)

lemma drive_kill_good:
  assumes "drive_inv d" and "dr_kill d \<noteq> None"
  shows "good_turn d (drive_kill clock fmt spec f d)"
proof -
  have sh: "dr_shutdown d" using assms by (auto simp: drive_inv_def)
  obtain r where r: "force_and_release fmt (rs_kill_grace spec) f d = (r, d\<lparr>dr_controller := False\<rparr>)"
    by (simp add: force_and_release_def)
  have m: "mark_failed clock spec (dr_timed_out d) (push_error e (d\<lparr>dr_controller := False\<rparr>)) =
      Inr (publish_status clock spec (dr_timed_out d) None None (failed (push_error e (d\<lparr>dr_controller := False\<rparr>))))" for e
    using drive_inv_state [OF assms(1)] by (intro mark_failed_eq) auto
  show ?thesis
    using assms(1) sh by (cases r) (auto simp: drive_kill_def r m good_turn_def drive_inv_def)
qed

lemma drive_deadline_good:
  assumes "drive_inv d" and "dr_deadline d \<noteq> None"
  shows "good_turn d (drive_deadline clock fmt spec t f d)"
proof -
  have run: "lc_state (dr_lifecycle d) = Running" "dr_controller d" "\<not> dr_shutdown d" "dr_errors d = []"
    "dr_kill d = None" "dr_cleanup d = None"
    using assms by (auto simp: drive_inv_def split: if_splits)
  show ?thesis
    using run by (cases "term_result fmt spec t")
      (auto simp: drive_deadline_def apply_running mark_failed_eq Let_def good_turn_def drive_inv_def force_now_errors)
qed

lemma drive_stop_good:
  assumes "drive_inv d"
  shows "good_turn d (drive_stop clock fmt spec t f d)"
proof (cases "dr_shutdown d")
  case True
  with assms show ?thesis by (auto simp: drive_stop_def good_turn_def drive_inv_def)
next
  case False
  then have run: "lc_state (dr_lifecycle d) = Running" "dr_controller d" "dr_errors d = []" "\<not> dr_timed_out d"
    "dr_kill d = None" "dr_cleanup d = None"
    using assms by (auto simp: drive_inv_def split: if_splits)
  show ?thesis
    using run False by (cases "term_result fmt spec t")
      (auto simp: drive_stop_def apply_running mark_failed_eq Let_def good_turn_def drive_inv_def force_now_errors)
qed

lemma drive_commands_closed_good:
  assumes "drive_inv d"
  shows "good_turn d (drive_commands_closed clock fmt spec t f d)"
proof (cases "dr_shutdown d")
  case True
  with assms have "\<not> (dr_kill d = None \<and> dr_cleanup d = None \<and> dr_controller d)"
    by (auto simp: drive_inv_def)
  with assms True show ?thesis by (auto simp: drive_commands_closed_def Let_def good_turn_def drive_inv_def)
next
  case False
  then have run: "lc_state (dr_lifecycle d) = Running" "dr_controller d" "dr_errors d = []" "\<not> dr_timed_out d"
    "dr_kill d = None" "dr_cleanup d = None"
    using assms by (auto simp: drive_inv_def split: if_splits)
  show ?thesis
    using run False by (cases "term_result fmt spec t")
      (auto simp: drive_commands_closed_def apply_running mark_failed_eq Let_def good_turn_def drive_inv_def force_now_errors)
qed

text \<open>A failed input pump needs the controller; without it the step panics.\<close>

lemma drive_stdin_good:
  assumes "drive_inv d" and "flatten_stdin_task r = Ok () \<or> dr_controller d"
  shows "good_turn d (drive_stdin clock fmt spec r t f d)"
proof (cases "flatten_stdin_task r")
  case (Inr u)
  with assms show ?thesis by (auto simp: drive_stdin_def good_turn_def drive_inv_def Let_def)
next
  case (Inl e)
  have ctl: "dr_controller d" using assms(2) Inl by simp
  have m: "mark_failed clock spec False ((push_error x (d\<lparr>dr_stdin_open := False\<rparr>))\<lparr>dr_shutdown := True\<rparr>) =
      Inr (publish_status clock spec False None None (failed ((push_error x (d\<lparr>dr_stdin_open := False\<rparr>))\<lparr>dr_shutdown := True\<rparr>)))" for x
    using drive_inv_state [OF assms(1)] by (intro mark_failed_eq) auto
  have c: "dr_cleanup d = None" using assms(1) ctl by (auto simp: drive_inv_def split: if_splits)
  show ?thesis
    using ctl c by (cases "term_result fmt spec t")
      (auto simp: drive_stdin_def Inl Let_def m good_turn_def drive_inv_def force_now_errors)
qed

lemma drive_stdin_panics:
  assumes "drive_inv d" and "flatten_stdin_task r = Err e" and "\<not> dr_controller d"
  shows "drive_stdin clock fmt spec r t f d = Err ControllerMissing"
proof -
  have m: "mark_failed clock spec False ((push_error x (d\<lparr>dr_stdin_open := False\<rparr>))\<lparr>dr_shutdown := True\<rparr>) =
      Inr (publish_status clock spec False None None (failed ((push_error x (d\<lparr>dr_stdin_open := False\<rparr>))\<lparr>dr_shutdown := True\<rparr>)))" for x
    using drive_inv_state [OF assms(1)] by (intro mark_failed_eq) auto
  show ?thesis using assms(2,3) by (simp add: drive_stdin_def Let_def m)
qed

definition stdin_failure_after_release :: "drive \<Rightarrow> drive_event \<Rightarrow> bool" where
  "stdin_failure_after_release d ev \<longleftrightarrow>
     (case ev of DStdin r _ _ \<Rightarrow> flatten_stdin_task r \<noteq> Ok () \<and> \<not> dr_controller d | _ \<Rightarrow> False)"

lemma drive_step_good:
  assumes "drive_inv d" and "drive_enabled d ev" and "\<not> stdin_failure_after_release d ev"
  shows "good_turn d (drive_step clock fmt spec d ev)"
  using assms
  by (cases ev) (auto simp: drive_step_def drive_enabled_def stdin_failure_after_release_def
      intro: drive_exit_good drive_stdin_good drive_commands_closed_good drive_control_good drive_stop_good
        drive_deadline_good drive_kill_good drive_cleanup_good)

text \<open>The states of the driver of a session.\<close>

inductive drives :: "(nat \<Rightarrow> nat) \<Rightarrow> (duration \<Rightarrow> string) \<Rightarrow> RunSpec \<Rightarrow> drive \<Rightarrow> bool"
  for clock fmt spec where
  drives_start: "start_session clock backend spec spawned now now1 now2 budget = Some (Ok (d, stage_start, budget')) \<Longrightarrow>
    drives clock fmt spec d"
| drives_step: "drives clock fmt spec d \<Longrightarrow> drive_enabled d ev \<Longrightarrow>
    drive_step clock fmt spec d ev = Ok (DContinue d') \<Longrightarrow> drives clock fmt spec d'"

lemma start_session_inv:
  assumes "start_session clock backend spec spawned now now1 now2 budget = Some (Inr (d, stage_start, budget'))"
  shows "drive_inv d"
  using assms
  by (auto simp: start_session_def spawn_session_def and_then_Inr_iff map_err_Inr_iff lifecycle_try_def
      lifecycle_apply_def lifecycle_arm_def lifecycle_default_def drive_inv_def
      split: sum.splits option.splits)

lemma drives_inv: "drives clock fmt spec d \<Longrightarrow> drive_inv d"
proof (induction rule: drives.induct)
  case drives_start
  then show ?case by (rule start_session_inv)
next
  case (drives_step d ev d')
  have "\<not> stdin_failure_after_release d ev"
  proof
    assume "stdin_failure_after_release d ev"
    then obtain r t f e where "ev = DStdin r t f" "flatten_stdin_task r = Inl e" "\<not> dr_controller d"
      by (auto simp: stdin_failure_after_release_def split: drive_event.splits) (metis old.unit.exhaust sum.exhaust)
    then have "drive_step clock fmt spec d ev = Inl ControllerMissing"
      using drive_stdin_panics [OF drives_step.IH] by (simp add: drive_step_def)
    with drives_step.hyps(3) show False by simp
  qed
  from drive_step_good [OF drives_step.IH drives_step.hyps(2) this, of clock fmt spec] drives_step.hyps(3)
  show ?case by (simp add: good_turn_def)
qed

lemma late_stdin_failure_panics:
  assumes "drive_inv d" and "stdin_failure_after_release d ev"
  shows "drive_step clock fmt spec d ev = Err ControllerMissing"
proof -
  obtain r t f where ev: "ev = DStdin r t f" "flatten_stdin_task r \<noteq> Ok ()" "\<not> dr_controller d"
    using assms(2) by (auto simp: stdin_failure_after_release_def split: drive_event.splits)
  then obtain e where "flatten_stdin_task r = Inl e" by (cases "flatten_stdin_task r") auto
  with drive_stdin_panics [OF assms(1)] ev show ?thesis by (simp add: drive_step_def)
qed

lemma drive_finish_exited:
  assumes "lc_state (dr_lifecycle d) \<in> {Stopping, TimedOut, Failed}"
    and "lc_state (dr_lifecycle d) = Failed \<longleftrightarrow> dr_errors d \<noteq> []"
    and "lc_termination_reason (dr_lifecycle d) = Some
            (if dr_errors d \<noteq> [] then Reason_Failed
             else if dr_timed_out d then Reason_TimedOut
             else if dr_shutdown d then Reason_Cancelled else Reason_Exited)"
  shows "\<exists>out b diag. drive_finish clock fmt spec sin sout serr stage_start now now' d (Some status) budget = Inr (out, b, diag) \<and>
    ss_state (hd (dr_statuses out)) = Dead \<and>
    (ss_exit_code (hd (dr_statuses out)), ss_signal (hd (dr_statuses out))) = decode_exit_status status \<and>
    ss_timed_out (hd (dr_statuses out)) = dr_timed_out d \<and>
    ss_termination_reason (hd (dr_statuses out)) = Some
      (if td_messages diag \<noteq> [] then Reason_Failed
       else if dr_timed_out d then Reason_TimedOut
       else if dr_shutdown d then Reason_Cancelled else Reason_Exited) \<and>
    td_messages diag = dr_errors d @ map io_failure_display (td_io_failures diag) \<and>
    event_log b = event_log budget @
      [(if dr_timed_out d \<or> td_messages diag \<noteq> [] then StageFailed else Completed, CommandRun)]"
proof -
  define io where "io = (if dr_stdin_open d
             then (case finish_session_io_task fmt IoStdin (rs_kill_grace spec) sin of Inl f \<Rightarrow> [f] | Inr _ \<Rightarrow> [])
             else []) @ finish_session_output_tasks fmt (rs_kill_grace spec) sout serr"
  define e where "e = d\<lparr>dr_stdin_shutdown := True, dr_controller := False,
                 dr_errors := dr_errors d @ map io_failure_display io\<rparr>"
  define e1 where "e1 = (if dr_errors e \<noteq> [] then publish_status clock spec (dr_timed_out d) None None (failed e) else e)"
  have f: "lc_state (dr_lifecycle e) = lc_state (dr_lifecycle d)" "dr_timed_out e = dr_timed_out d"
    "lc_termination_reason (dr_lifecycle e) = lc_termination_reason (dr_lifecycle d)"
    by (simp_all add: e_def)
  have fin: "drive_finish clock fmt spec sin sout serr stage_start now now' d (Some status) budget =
      and_then (if dr_errors e \<noteq> [] then mark_failed clock spec (dr_timed_out e) e else Inr e) (\<lambda>d1.
         let budget' = (if dr_timed_out d1 \<or> dr_errors d1 \<noteq> []
                        then fail_stage now now' CommandRun stage_start budget
                        else complete_stage now now' CommandRun stage_start budget);
             diagnostics = \<lparr>td_messages = dr_errors d1, td_io_failures = io\<rparr>
         in and_then (apply_lifecycle CleanupComplete d1) (\<lambda>d2.
                  case decode_exit_status status of
                    (exit_code, sig) \<Rightarrow>
                      Inr (publish_status clock spec (dr_timed_out d2) exit_code sig
                            (record_trace clock TrCleanupComplete d2), budget', diagnostics)))"
    unfolding drive_finish_def Let_def io_def [symmetric] e_def [symmetric] option.case ..
  have "(if dr_errors e \<noteq> [] then mark_failed clock spec (dr_timed_out e) e else Inr e) = Inr e1"
    using mark_failed_eq [of e clock spec "dr_timed_out e"] assms f by (auto simp: e1_def)
  moreover have st: "lc_state (dr_lifecycle e1) \<in> {Stopping, TimedOut, Failed}" "dr_timed_out e1 = dr_timed_out d"
      "dr_errors e1 = dr_errors d @ map io_failure_display io"
      "lc_termination_reason (dr_lifecycle e1) = Some
        (if dr_errors e \<noteq> [] then Reason_Failed
         else if dr_timed_out d then Reason_TimedOut
         else if dr_shutdown d then Reason_Cancelled else Reason_Exited)"
    using assms f by (auto simp: e1_def e_def)
  moreover have "apply_lifecycle CleanupComplete e1 = Inr (e1\<lparr>dr_lifecycle := (dr_lifecycle e1)\<lparr>lc_state := Dead\<rparr>\<rparr>)"
    using st(1) by (cases "dr_lifecycle e1")
      (auto simp: apply_lifecycle_def lifecycle_apply_def lifecycle_arm_def)
  moreover obtain c g where "decode_exit_status status = (c, g)" by fastforce
  moreover have "dr_errors e = dr_errors d @ map io_failure_display io" by (simp add: e_def)
  ultimately show ?thesis
    unfolding fin
    by (simp add: Let_def publish_status_def fail_stage_def complete_stage_def record_stage_failure_def record_trace_def)
qed

lemma pump_stdin_loop_prefix:
  "\<exists>x. sp_written (snd (pump_stdin_loop evs p)) = sp_written p @ x \<and>
       prefix x (concat (map (\<lambda>ev. case ev of SeWrite bs _ \<Rightarrow> bs | _ \<Rightarrow> []) evs))"
proof (induction evs arbitrary: p)
  case Nil
  then show ?case by simp
next
  case (Cons ev evs)
  show ?case
  proof (cases ev)
    case (SeWrite bs w)
    show ?thesis
    proof (cases "sp_writer p \<and> w = WriteDone")
      case True
      with Cons.IH [of "p\<lparr>sp_written := sp_written p @ bs, sp_replies := sp_replies p @ [Ok ()]\<rparr>"]
      show ?thesis by (auto simp: SeWrite write_reply_def written_part_def)
    next
      case False
      then show ?thesis
        by (cases w) (auto simp: SeWrite write_reply_def written_part_def take_is_prefix intro: prefix_prefix)
    qed
  next
    case (SeClose r)
    with Cons.IH [of "p\<lparr>sp_writer := False, sp_replies := sp_replies p @ [if sp_writer p then r else Ok ()]\<rparr>"]
    show ?thesis by simp
  qed simp_all
qed

lemma pump_stdin_loop_all:
  "sp_writer p \<Longrightarrow> pump_stdin_loop (map (\<lambda>bs. SeWrite bs WriteDone) bss) p =
     (None, p\<lparr>sp_written := sp_written p @ concat bss, sp_replies := sp_replies p @ replicate (length bss) (Ok ())\<rparr>)"
  by (induction bss arbitrary: p) (simp_all add: write_reply_def written_part_def Let_def)

section \<open>Properties\<close>

text \<open>
  C34: In every state a session's driver can reach, a turn of its loop panics in exactly one case: the
  input pump reports a failure after the controller has been released by a forced stop. Every
  lifecycle event the driver emits is a valid transition, and no other branch misses the controller.
\<close>

theorem driver_panics_iff:
  assumes "drives clock fmt spec d" and "drive_enabled d ev"
  shows "drive_step clock fmt spec d ev = Err p \<longleftrightarrow> stdin_failure_after_release d ev \<and> p = ControllerMissing"
proof (cases "stdin_failure_after_release d ev")
  case True
  then show ?thesis using late_stdin_failure_panics [OF drives_inv [OF assms(1)] True, of clock fmt spec] by auto
next
  case False
  then show ?thesis
    using drive_step_good [OF drives_inv [OF assms(1)] assms(2) False, of clock fmt spec] by (auto simp: good_turn_def)
qed

definition sample_spec :: RunSpec where
  "sample_spec = run_spec_command ''id'' [''sh'']"

definition sample_started :: "drive \<times> nat \<times> RunBudget" where
  "sample_started = projr (the (start_session (\<lambda>n. n) ''test'' sample_spec
     (Ok startup_default) 1 2 3 (budget_new 0 (rs_timeout sample_spec))))"

definition sample_start :: drive where
  "sample_start = fst sample_started"

lemma sample_start_drives: "drives (\<lambda>n. n) (\<lambda>_. []) sample_spec sample_start"
proof (rule drives_start)
  show "start_session (\<lambda>n. n) ''test'' sample_spec
     (Ok startup_default) 1 2 3 (budget_new 0 (rs_timeout sample_spec)) =
     Some (Ok (sample_start, fst (snd sample_started), snd (snd sample_started)))"
    unfolding sample_start_def sample_started_def by code_simp
qed

theorem driver_panics_iff_witness:
  "\<exists>d. drives (\<lambda>n. n) (\<lambda>_. []) sample_spec d \<and>
     drive_enabled d (DStdin (TaskIoError ''BrokenPipe'' ''Broken pipe'') None None) \<and>
     drive_step (\<lambda>n. n) (\<lambda>_. []) sample_spec d (DStdin (TaskIoError ''BrokenPipe'' ''Broken pipe'') None None) =
       Err ControllerMissing"
proof -
  let ?stop = "DStop (Some (Err ''no such process'')) (Some (Ok ()))"
  let ?ev = "DStdin (TaskIoError ''BrokenPipe'' ''Broken pipe'') None None"
  define d where "d = (case drive_step (\<lambda>n. n) (\<lambda>_. []) sample_spec sample_start ?stop of Inr (DContinue d) \<Rightarrow> d)"
  have "drive_step (\<lambda>n. n) (\<lambda>_. []) sample_spec sample_start ?stop = Ok (DContinue d)"
    unfolding d_def sample_start_def by code_simp
  moreover have "drive_enabled sample_start ?stop" unfolding sample_start_def by code_simp
  ultimately have d: "drives (\<lambda>n. n) (\<lambda>_. []) sample_spec d" by (rule drives_step [OF sample_start_drives, rotated])
  have e: "drive_enabled d ?ev" "stdin_failure_after_release d ?ev"
    unfolding d_def sample_start_def by code_simp+
  show ?thesis using driver_panics_iff [OF d e(1), of ControllerMissing] d e by blast
qed



text \<open>
  When the process of a session exits, the session ends in the state \<open>Dead\<close> with its exit code or
  signal, and the reported reason is that of the whole run: failed if anything went wrong on
  the way, including the pumps, otherwise timed out if the deadline had fired, otherwise cancelled if a
  stop had been requested, otherwise exited. The command stage is recorded as failed exactly for
  the first two.
\<close>

theorem session_outcome:
  assumes "drives clock fmt spec d"
  shows "\<exists>d' out b diag.
    drive_step clock fmt spec d (DExit (Ok status)) = Ok (DBreak d' (Some status)) \<and>
    drive_finish clock fmt spec sin sout serr stage_start now now' d' (Some status) budget = Ok (out, b, diag) \<and>
    ss_state (hd (dr_statuses out)) = Dead \<and>
    (ss_exit_code (hd (dr_statuses out)), ss_signal (hd (dr_statuses out))) = decode_exit_status status \<and>
    ss_timed_out (hd (dr_statuses out)) = dr_timed_out d \<and>
    ss_termination_reason (hd (dr_statuses out)) = Some
      (if td_messages diag \<noteq> [] then Reason_Failed
       else if dr_timed_out d then Reason_TimedOut
       else if dr_shutdown d then Reason_Cancelled else Reason_Exited) \<and>
    td_messages diag = dr_errors d @ map io_failure_display (td_io_failures diag) \<and>
    event_log b = event_log budget @
      [(if dr_timed_out d \<or> td_messages diag \<noteq> [] then StageFailed else Completed, CommandRun)]"
proof -
  note inv = drives_inv [OF assms]
  note good = drive_exit_good [OF inv, of clock spec "Inr status"]
  obtain d' where step: "drive_exit clock spec (Inr status) d = Inr (DBreak d' (Some status))"
    and same: "dr_errors d' = dr_errors d"
    by (cases "lc_state (dr_lifecycle d) = Running") (auto simp: drive_exit_def apply_running)
  have g: "dr_timed_out d' = dr_timed_out d" "dr_shutdown d' = dr_shutdown d"
      "lc_state (dr_lifecycle d') \<in> {Stopping, TimedOut, Failed}"
      "lc_state (dr_lifecycle d') = Failed \<longleftrightarrow> dr_errors d' \<noteq> []"
      "lc_termination_reason (dr_lifecycle d') = Some
            (if dr_errors d' \<noteq> [] then Reason_Failed
             else if dr_timed_out d' then Reason_TimedOut
             else if dr_shutdown d' then Reason_Cancelled else Reason_Exited)"
    using good unfolding step good_turn_def by (simp_all only: sum.case drive_result.case option.distinct if_False)
  have "drive_step clock fmt spec d (DExit (Ok status)) = Ok (DBreak d' (Some status))"
    using step by (simp add: drive_step_def)
  with drive_finish_exited [OF g(3,4,5), of clock fmt spec sin sout serr stage_start now now' status budget]
  show ?thesis unfolding g(1,2) same by blast
qed

theorem session_outcome_witness:
  "\<exists>d' out b diag.
    drive_step (\<lambda>n. n) (\<lambda>_. []) sample_spec sample_start (DExit (Ok (ExitedWith 3))) = Ok (DBreak d' (Some (ExitedWith 3))) \<and>
    drive_finish (\<lambda>n. n) (\<lambda>_. []) sample_spec (Some TaskDone) (Some TaskDone) None 0 1 2 d' (Some (ExitedWith 3))
      (budget_new 0 Unlimited) = Ok (out, b, diag) \<and>
    ss_state (hd (dr_statuses out)) = Dead \<and> ss_exit_code (hd (dr_statuses out)) = Some 3"
  using session_outcome [OF sample_start_drives, of "ExitedWith 3" "Some TaskDone" "Some TaskDone" None 0 1 2
      "budget_new 0 Unlimited"]
  by (auto simp: decode_exit_status_def)

text \<open>
  C35: What a session's process reads on its standard input is, whatever fails or closes and when, a
  prefix of the initial input followed by the writes in the order they were submitted: nothing is
  reordered, repeated or skipped. When every write succeeds it is all of it, and every write is
  acknowledged.
\<close>

theorem stdin_delivery:
  assumes "pump_stdin initial w evs queued \<lparr>sp_writer = True, sp_written = [], sp_replies = []\<rparr> = (r, p)"
  shows "prefix (sp_written p) (initial @ concat (map (\<lambda>ev. case ev of SeWrite bs _ \<Rightarrow> bs | _ \<Rightarrow> []) evs)) \<and>
    (\<forall>bss. w = WriteDone \<and> evs = map (\<lambda>bs. SeWrite bs WriteDone) bss \<longrightarrow>
       r = None \<and> sp_written p = initial @ concat bss \<and> sp_replies p = replicate (length bss) (Ok ()))"
proof -
  let ?p = "\<lparr>sp_writer = True, sp_written = [], sp_replies = []\<rparr>"
  let ?all = "concat (map (\<lambda>ev. case ev of SeWrite bs _ \<Rightarrow> bs | _ \<Rightarrow> []) evs)"
  have w: "sp_written (snd (pump_stdin initial w evs queued ?p)) = sp_written (snd (pump_stdin_inner initial w evs ?p))"
    by (simp add: pump_stdin_def split: prod.splits option.splits)
  have "prefix (sp_written (snd (pump_stdin_inner initial w evs ?p))) (initial @ ?all)"
    using pump_stdin_loop_prefix [of evs ?p] pump_stdin_loop_prefix [of evs "?p\<lparr>sp_written := initial\<rparr>"]
    by (cases w) (auto simp: pump_stdin_inner_def written_part_def Let_def take_is_prefix intro: prefix_prefix)
  with w assms have "prefix (sp_written p) (initial @ ?all)" by simp
  moreover have "r = None \<and> sp_written p = initial @ concat bss \<and> sp_replies p = replicate (length bss) (Ok ())"
    if "w = WriteDone" "evs = map (\<lambda>bs. SeWrite bs WriteDone) bss" for bss
    using assms by (cases "initial = []")
      (auto simp: that pump_stdin_def pump_stdin_inner_def written_part_def Let_def pump_stdin_loop_all)
  ultimately show ?thesis by blast
qed

theorem stdin_delivery_witness:
  "let p = snd (pump_stdin [1, 2] WriteDone [SeWrite [3] WriteDone, SeWrite [4, 5, 6] (WriteFailed 2 ''Broken pipe'')] 0
     \<lparr>sp_writer = True, sp_written = [], sp_replies = []\<rparr>)
   in sp_written p = [1, 2, 3, 4, 5] \<and> prefix (sp_written p) [1, 2, 3, 4, 5, 6]"
proof -
  let ?evs = "[SeWrite [3] WriteDone, SeWrite [4, 5, 6] (WriteFailed 2 ''Broken pipe'')]"
  define q where "q = pump_stdin [1, 2] WriteDone ?evs 0 \<lparr>sp_writer = True, sp_written = [], sp_replies = []\<rparr>"
  have "sp_written (snd q) = [1, 2, 3, 4, 5]" unfolding q_def by code_simp
  with stdin_delivery [of "[1, 2]" WriteDone ?evs 0 "fst q" "snd q"] show ?thesis
    unfolding Let_def q_def [symmetric] by (simp add: q_def [symmetric])
qed

text \<open>
  The trace a session reports has the recorded events and the stage events, each once, ordered by time
  and numbered from 0.
\<close>

theorem session_trace_ordered:
  "sorted (map tv_elapsed (session_trace recorded stages)) \<and>
   map tv_sequence (session_trace recorded stages) = [0..<length recorded + length stages] \<and>
   length (session_trace recorded stages) = length recorded + length stages"
proof -
  define merged where "merged = sort_key tv_elapsed (recorded @ map (\<lambda>e.
            \<lparr>tv_sequence = 0, tv_elapsed = event_micros e, tv_kind = stage_trace_kind (event_kind e),
             tv_stage = Some (event_stage e)\<rparr>) stages)"
  have t: "session_trace recorded stages = map (\<lambda>(i, e). e\<lparr>tv_sequence := i\<rparr>) (List.enumerate 0 merged)"
    by (simp add: session_trace_def merged_def)
  have el: "map tv_elapsed (session_trace recorded stages) = map tv_elapsed merged"
    by (rule nth_equalityI) (simp_all add: t nth_enumerate_eq)
  have sq: "map tv_sequence (session_trace recorded stages) = [0..<length merged]"
    unfolding t map_map using map_fst_enumerate [of 0 merged] by (simp add: o_def case_prod_beta)
  have "length merged = length recorded + length stages" by (simp add: merged_def)
  with el sq show ?thesis by (auto simp: merged_def t)
qed

end
