(* ===== verification/Supervisor.thy ===== *)
theory Supervisor
  imports Session
begin

text \<open>
  The one-shot supervisor (\<^verbatim>\<open>moraebox-runtime/src/supervisor.rs\<close>): starting a session, waiting for its
  end and the report of the run. What the session answers is modelled in \<^verbatim>\<open>Session\<close>; its
  handle is here a record of the values the supervisor reads.
\<close>

section \<open>Data\<close>

record RunReport =
  rr_session_id :: uuid
  rr_backend :: string
  rr_state :: SessionState
  rr_termination_reason :: "TerminationReason option"
  rr_exit_code :: "int option"
  rr_signal :: "int option"
  rr_timed_out :: bool
  rr_output :: "OutputChunk list"
  rr_output_earliest_cursor :: nat
  rr_output_next_cursor :: nat
  rr_output_truncated :: bool
  rr_elapsed_micros :: nat
  rr_startup :: StartupMetrics
  rr_trace :: "TraceEvent list"
  rr_stages :: "StageTiming list"
  rr_failure_stage :: "RunStage option"

datatype SupervisorError =
    SvBackend BackendError
  | SvLifecycle LifecycleError
  | SvIo string
  | SvSessionIo SessionIoFailure
  | SvSession SessionError
  | SvCleanup string

record session_handle =
  sh_terminal_errors :: TerminalDiagnostics
  sh_output :: OutputBuffer
  sh_startup :: StartupMetrics
  sh_trace :: "TraceEvent list"
  sh_budget :: RunBudget

section \<open>Operations\<close>

definition map_session_start :: "SessionError \<Rightarrow> SupervisorError" where
  "map_session_start e =
     (case e of
        SessionBackend e \<Rightarrow> SvBackend e
      | SessionLifecycle e \<Rightarrow> SvLifecycle e
      | _ \<Rightarrow> SvSession e)"

definition map_session_wait ::
  "session_handle \<Rightarrow> (SessionStatus, SessionError) result \<Rightarrow> (SessionStatus, SupervisorError) result" where
  "map_session_wait h r =
     (case r of
        Inr status \<Rightarrow> Ok status
      | Inl (SessionIo f) \<Rightarrow> Err (SvSessionIo f)
      | Inl e \<Rightarrow>
          (case terminal_error (sh_terminal_errors h) of
             Some details \<Rightarrow> Err (SvCleanup details)
           | None \<Rightarrow> Err (SvSession e)))"

text \<open>\<^const>\<open>None\<close> is the panic of \<^const>\<open>retained_output\<close>.\<close>

definition collect_report ::
  "session_handle \<Rightarrow> SessionStatus \<Rightarrow> (RunReport, SupervisorError) result option" where
  "collect_report h status =
     (case terminal_error (sh_terminal_errors h) of
        Some details \<Rightarrow> Some (Err (SvCleanup details))
      | None \<Rightarrow>
          (case retained_output (sh_output h) of
             None \<Rightarrow> None
           | Some (all_output, earliest, nxt) \<Rightarrow>
               Some (Ok
                 \<lparr>rr_session_id = ss_session_id status, rr_backend = ss_backend status, rr_state = ss_state status,
                  rr_termination_reason = ss_termination_reason status, rr_exit_code = ss_exit_code status,
                  rr_signal = ss_signal status, rr_timed_out = ss_timed_out status,
                  rr_output = or_chunks all_output, rr_output_earliest_cursor = earliest,
                  rr_output_next_cursor = nxt, rr_output_truncated = or_truncated all_output,
                  rr_elapsed_micros = ss_elapsed_micros status, rr_startup = sh_startup h,
                  rr_trace = session_trace (sh_trace h) (events (budget_state (sh_budget h))),
                  rr_stages = timings (budget_state (sh_budget h)),
                  rr_failure_stage = failure_stage (budget_state (sh_budget h))\<rparr>)))"

text \<open>The request to stop is an event of the session, and its reply is ignored.\<close>

definition stop_and_wait ::
  "session_handle \<Rightarrow> (SessionStatus, SessionError) result \<Rightarrow> (SessionStatus, SupervisorError) result" where
  "stop_and_wait h waited =
     and_then (map_session_wait h waited) (\<lambda>status.
       case terminal_error (sh_terminal_errors h) of
         Some details \<Rightarrow> Err (SvCleanup details)
       | None \<Rightarrow> Ok status)"

definition finish_run ::
  "session_handle \<Rightarrow> (SessionStatus, SupervisorError) result \<Rightarrow> (RunReport, SupervisorError) result option" where
  "finish_run h r = (case r of Inl e \<Rightarrow> Some (Err e) | Inr status \<Rightarrow> collect_report h status)"

definition run_with_budget ::
  "(session_handle, SessionError) result \<Rightarrow> (SessionStatus, SessionError) result
     \<Rightarrow> (RunReport, SupervisorError) result option" where
  "run_with_budget begun waited =
     (case map_err map_session_start begun of
        Inl e \<Rightarrow> Some (Err e)
      | Inr h \<Rightarrow> finish_run h (map_session_wait h waited))"

text \<open>
  What the \<^verbatim>\<open>select!\<close> of \<^verbatim>\<open>run_with_budget_and_signal\<close> sees: the end of the session, or the outcome of the
  signal future, with the answer to the signal, the state of the session then, the end of
  the session when it comes within the grace period, and its end after a stop.
\<close>

datatype signal_event =
    EndedFirst "(SessionStatus, SessionError) result"
  | SignalFirst "(Signal, string) result" "(unit, SessionError) result" SessionState
      "(SessionStatus, SessionError) result option" "(SessionStatus, SessionError) result"

definition run_with_budget_and_signal ::
  "(session_handle, SessionError) result \<Rightarrow> signal_event \<Rightarrow> (RunReport, SupervisorError) result option" where
  "run_with_budget_and_signal begun ev =
     (case map_err map_session_start begun of
        Inl e \<Rightarrow> Some (Err e)
      | Inr h \<Rightarrow>
          (case ev of
             EndedFirst waited \<Rightarrow> finish_run h (map_session_wait h waited)
           | SignalFirst sig reply state graced stopped \<Rightarrow>
               (case sig of
                  Inl io \<Rightarrow> Some (and_then (stop_and_wait h stopped) (\<lambda>_. Err (SvIo io)))
                | Inr _ \<Rightarrow>
                    (case (reply, state \<noteq> Dead) of
                       (Inl e, True) \<Rightarrow> Some (and_then (stop_and_wait h stopped) (\<lambda>_. Err (SvSession e)))
                     | _ \<Rightarrow>
                         finish_run h
                           (case graced of
                              Some waited \<Rightarrow> map_session_wait h waited
                            | None \<Rightarrow> stop_and_wait h stopped)))))"

section \<open>No status but the last is \<open>Dead\<close>\<close>

definition alive :: "drive \<Rightarrow> bool" where
  "alive d \<longleftrightarrow> lc_state (dr_lifecycle d) \<noteq> Dead \<and> (\<forall>s \<in> set (dr_statuses d). ss_state s \<noteq> Dead)"

lemma alive_fields [simp]:
  "alive (record_trace clock k d) = alive d" "alive (push_error e d) = alive d" "alive (send_reply r d) = alive d"
  "alive (d\<lparr>dr_controller := b\<rparr>) = alive d" "alive (d\<lparr>dr_deadline := t\<rparr>) = alive d" "alive (d\<lparr>dr_kill := t\<rparr>) = alive d"
  "alive (d\<lparr>dr_cleanup := t\<rparr>) = alive d" "alive (d\<lparr>dr_timed_out := b\<rparr>) = alive d"
  "alive (d\<lparr>dr_commands_open := b\<rparr>) = alive d" "alive (d\<lparr>dr_shutdown := b\<rparr>) = alive d"
  "alive (d\<lparr>dr_stdin_open := b\<rparr>) = alive d" "alive (d\<lparr>dr_stdin_shutdown := b\<rparr>) = alive d"
  "alive (d\<lparr>dr_errors := es\<rparr>) = alive d" "alive (graceful clock spec d) = alive d"
  by (simp_all add: alive_def graceful_def)

lemma alive_publish [simp]: "alive (publish_status clock spec t c s d) = alive d"
  by (auto simp: alive_def publish_status_def Let_def)

lemma alive_apply: "apply_lifecycle ev d = Inr d' \<Longrightarrow> ev \<noteq> CleanupComplete \<Longrightarrow> alive d \<Longrightarrow> alive d'"
  by (cases "dr_lifecycle d"; cases ev; cases "lc_state (dr_lifecycle d)")
    (auto simp: apply_lifecycle_def lifecycle_apply_def lifecycle_arm_def alive_def split: prod.splits sum.splits)

lemma alive_apply_and_publish:
  "apply_and_publish clock spec ev t d = Inr d' \<Longrightarrow> ev \<noteq> CleanupComplete \<Longrightarrow> alive d \<Longrightarrow> alive d'"
  by (auto simp: apply_and_publish_def and_then_Inr_iff dest: alive_apply)

lemma alive_mark_failed: "mark_failed clock spec t d = Inr d' \<Longrightarrow> alive d \<Longrightarrow> alive d'"
  by (auto simp: mark_failed_def and_then_Inr_iff split: if_splits dest: alive_apply)

lemma alive_force_now [simp]: "alive (force_now clock fmt spec force d) = alive d"
  by (simp add: force_now_def force_and_release_def split: sum.splits prod.splits)

lemmas drive_ops = drive_exit_def drive_stdin_def drive_commands_closed_def drive_control_def drive_stop_def
  drive_deadline_def drive_kill_def drive_cleanup_def

lemma alive_step:
  assumes "drive_step clock fmt spec d ev = Inr r" and "alive d"
  shows "case r of DContinue d' \<Rightarrow> alive d' | DBreak d' _ \<Rightarrow> alive d'"
proof -
  have *: "case r of DContinue d' \<Rightarrow> alive d' | DBreak d' _ \<Rightarrow> alive d'" if "ev = e" and "term_result fmt spec t = a"
      and "e = DStdin x t f \<or> e = DCommandsClosed t f \<or> e = DStop t f \<or> e = DDeadline t f" for e t a x f
    using assms that
    by (cases a) (auto simp: drive_step_def drive_ops Let_def and_then_Inr_iff force_and_release_def
      split: sum.splits if_splits dest!: alive_mark_failed alive_apply_and_publish)
  show ?thesis
    using assms *
    by (cases ev)
      (auto simp: drive_step_def drive_exit_def drive_control_def drive_kill_def drive_cleanup_def and_then_Inr_iff
          force_and_release_def split: sum.splits if_splits dest!: alive_mark_failed alive_apply_and_publish)
qed

lemma alive_drives: "drives clock fmt spec d \<Longrightarrow> alive d"
proof (induction rule: drives.induct)
  case drives_start
  then show ?case
    by (auto simp: start_session_def spawn_session_def and_then_Inr_iff map_err_Inr_iff lifecycle_try_def
      lifecycle_apply_def lifecycle_arm_def lifecycle_default_def alive_def initial_status_def
      split: sum.splits option.splits)
next
  case (drives_step d ev d')
  then show ?case using alive_step by fastforce
qed

lemma completion_skips:
  "\<forall>s \<in> set ss. ss_state s \<noteq> Dead \<Longrightarrow> completion fs (map Some ss @ rest) = completion fs rest"
  by (induction ss) simp_all

lemma mark_failed_errors: "mark_failed clock spec t d = Inr d' \<Longrightarrow> dr_errors d' = dr_errors d"
  by (auto simp: mark_failed_def and_then_Inr_iff apply_lifecycle_def split: if_splits prod.splits sum.splits)

lemma drive_finish_closed:
  assumes "drive_finish clock fmt spec sin sout serr stage_start now now' d None budget = Inr (out, b, diag)"
    and "alive d"
  shows "completion fs (map Some (rev (dr_statuses out)) @ [None]) = Some (Err SessionClosed)"
    and "\<exists>es. td_messages diag = dr_errors d @ es"
proof -
  have "alive out \<and> (\<exists>es. td_messages diag = dr_errors d @ es)"
    using assms by (auto simp: drive_finish_def Let_def and_then_Inr_iff
        split: if_splits dest: alive_mark_failed mark_failed_errors)
  then show "completion fs (map Some (rev (dr_statuses out)) @ [None]) = Some (Err SessionClosed)"
    and "\<exists>es. td_messages diag = dr_errors d @ es"
    by (simp_all add: completion_skips alive_def)
qed

lemma drive_finish_dead:
  assumes "drive_finish clock fmt spec sin sout serr stage_start now now' d (Some status) budget = Inr (out, b, diag)"
    and "alive d"
  shows "\<exists>s ss. dr_statuses out = s # ss \<and> (\<forall>s' \<in> set ss. ss_state s' \<noteq> Dead)"
  using assms
  by (auto simp: drive_finish_def Let_def and_then_Inr_iff publish_status_def record_trace_def alive_def apply_lifecycle_def
      split: if_splits prod.splits sum.splits dest!: alive_mark_failed)

lemma retained_output_represents:
  assumes "represents b h"
  obtains r where "retained_output b = Some (r, length h - ob_capacity b, length h)"
    and "read_log r = drop (length h - ob_capacity b) h" and "or_truncated r \<longleftrightarrow> ob_capacity b < length h"
proof -
  have e: "ob_earliest_cursor b = length h - ob_capacity b" "ob_next_cursor b = length h" "length h < 2 ^ 64"
      "ob_truncated b \<longleftrightarrow> ob_capacity b < length h"
    using assms by (auto simp: represents_def)
  obtain r where r: "output_read b (ob_earliest_cursor b) (2 ^ 64 - 1) = Ok r"
      "read_log r = take (2 ^ 64 - 1) (drop (ob_earliest_cursor b) h)" "or_truncated r = ob_truncated b"
    using output_read_represents [OF assms, of "ob_earliest_cursor b" "2 ^ 64 - 1"] e by auto
  from r(1) have "retained_output b = Some (r, length h - ob_capacity b, length h)"
    using e by (auto simp: retained_output_def output_read_def split: sum.splits)
  moreover have "read_log r = drop (length h - ob_capacity b) h" using r(2) e by simp
  ultimately show thesis using that r(3) e(4) by blast
qed

text \<open>However a run was interrupted, a report is only returned when nothing failed.\<close>

lemma signalled_run_hides_nothing:
  assumes "run_with_budget_and_signal (Ok h) ev = Some (Ok report)"
  shows "td_messages (sh_terminal_errors h) = []"
  using assms
  by (auto simp: run_with_budget_and_signal_def map_err_def finish_run_def collect_report_def and_then_Inr_iff terminal_error_def
      split: signal_event.splits sum.splits option.splits if_splits bool.splits)

section \<open>Properties\<close>

text \<open>
  C32: A one-shot run reports exactly what happened. Whatever ended the session's loop, the run succeeds
  only if the process exited and nothing failed on the way; then the report has the exit code or
  signal, whether the deadline fired, why the session ended, and precisely the retained suffix of the output
  with its truncation flag. If a pump failed, that failure is the error; if the process never
  exited or anything else failed, the error has all the messages.
\<close>

theorem one_shot_report:
  assumes "drives clock fmt spec d" and "drive_enabled d ev"
    and "drive_step clock fmt spec d ev = Ok (DBreak d' exit_status)"
    and "drive_finish clock fmt spec sin sout serr stage_start now now' d' exit_status budget = Ok (out, b, diag)"
    and "completion (td_io_failures diag) (map Some (rev (dr_statuses out)) @ [None]) = Some waited"
    and "sh_terminal_errors h = diag" and "sh_output h = buf" and "represents buf log"
  shows "case (exit_status, td_io_failures diag, td_messages diag) of
      (Some status, [], []) \<Rightarrow>
        (\<exists>report. run_with_budget (Ok h) waited = Some (Ok report) \<and>
           rr_state report = Dead \<and> (rr_exit_code report, rr_signal report) = decode_exit_status status \<and>
           rr_timed_out report = dr_timed_out d \<and>
           rr_termination_reason report = Some
             (if dr_timed_out d then Reason_TimedOut else if dr_shutdown d then Reason_Cancelled else Reason_Exited) \<and>
           read_log \<lparr>or_chunks = rr_output report, or_next_cursor = rr_output_next_cursor report,
              or_truncated = rr_output_truncated report\<rparr> = drop (length log - ob_capacity buf) log \<and>
           (rr_output_truncated report \<longleftrightarrow> ob_capacity buf < length log))
    | (Some status, f # _, _) \<Rightarrow> run_with_budget (Ok h) waited = Some (Err (SvSessionIo f))
    | (_, _, messages) \<Rightarrow>
        messages \<noteq> [] \<and> run_with_budget (Ok h) waited = Some (Err (SvCleanup (the (terminal_error diag))))"
proof -
  have np: "\<not> stdin_failure_after_release d ev"
    using late_stdin_failure_panics [OF drives_inv [OF assms(1)], of ev clock fmt spec] assms(3) by auto
  have good: "good_turn d (Inr (DBreak d' exit_status))"
    using drive_step_good [OF drives_inv [OF assms(1)] assms(2) np, of clock fmt spec] unfolding assms(3) .
  have live: "alive d'" using alive_step [OF assms(3) alive_drives [OF assms(1)]] by simp
  have err: "terminal_error diag = None \<longleftrightarrow> td_messages diag = []"
    by (simp add: terminal_error_def)
  show ?thesis
  proof (cases exit_status)
    case None
    from good have "dr_errors d' \<noteq> []" by (simp add: good_turn_def None)
    with drive_finish_closed [OF assms(4) [unfolded None] live] assms(5)
    have "waited = Err SessionClosed" "td_messages diag \<noteq> []" by auto
    moreover from this obtain m where "terminal_error diag = Some m" using err by (metis not_None_eq)
    ultimately show ?thesis
      by (simp add: None run_with_budget_def map_err_def finish_run_def map_session_wait_def assms(6))
  next
    case (Some status)
    obtain s ss where st: "dr_statuses out = s # ss" "\<forall>s' \<in> set ss. ss_state s' \<noteq> Dead"
      using drive_finish_dead [OF assms(4) [unfolded Some] live] by blast
    have g: "dr_timed_out d' = dr_timed_out d" "dr_shutdown d' = dr_shutdown d"
        "lc_state (dr_lifecycle d') \<in> {Stopping, TimedOut, Failed}"
        "lc_state (dr_lifecycle d') = Failed \<longleftrightarrow> dr_errors d' \<noteq> []"
        "lc_termination_reason (dr_lifecycle d') = Some
              (if dr_errors d' \<noteq> [] then Reason_Failed
               else if dr_timed_out d' then Reason_TimedOut
               else if dr_shutdown d' then Reason_Cancelled else Reason_Exited)"
      using good unfolding Some good_turn_def
      by (simp_all only: sum.case drive_result.case option.distinct if_False)
    have fin: "ss_state s = Dead \<and> (ss_exit_code s, ss_signal s) = decode_exit_status status \<and>
        ss_timed_out s = dr_timed_out d \<and> (td_messages diag = [] \<longrightarrow> ss_termination_reason s = Some
             (if dr_timed_out d then Reason_TimedOut else if dr_shutdown d then Reason_Cancelled else Reason_Exited)) \<and>
        (td_io_failures diag \<noteq> [] \<longrightarrow> td_messages diag \<noteq> [])"
      using drive_finish_exited [OF g(3,4,5), of clock fmt spec sin sout serr stage_start now now' status budget]
        assms(4) g(1,2) st(1) unfolding Some by auto
    have w: "waited = (case td_io_failures diag of f # _ \<Rightarrow> Err (SessionIo f) | [] \<Rightarrow> Ok s)"
      using assms(5) fin st completion_skips [of "rev ss" "td_io_failures diag" "[Some s, None]"]
      by (simp split: list.splits)
    obtain r where r: "retained_output buf = Some (r, length log - ob_capacity buf, length log)"
      "read_log r = drop (length log - ob_capacity buf) log" "or_truncated r \<longleftrightarrow> ob_capacity buf < length log"
      using retained_output_represents [OF assms(8)] .
    show ?thesis
      using err fin w r by (cases "td_io_failures diag"; cases "td_messages diag"; cases "terminal_error diag")
        (simp_all add: Some run_with_budget_def map_err_def finish_run_def map_session_wait_def collect_report_def
          assms(6,7) read_log_def)
  qed
qed

text \<open>A run whose process exits with code 3 after the output \<open>hi\<close>.\<close>

theorem one_shot_report_witness:
  "\<exists>report. (let buf = fst (push (the (output_buffer_new 8)) Stdout [104, 105]);
       d' = (case drive_step (\<lambda>n. n) (\<lambda>_. []) sample_spec sample_start (DExit (Ok (ExitedWith 3))) of Inr (DBreak d _) \<Rightarrow> d);
       (out, b, diag) = projr (drive_finish (\<lambda>n. n) (\<lambda>_. []) sample_spec (Some TaskDone) (Some TaskDone) None 0 1 2 d'
         (Some (ExitedWith 3)) (budget_new 0 Unlimited));
       h = \<lparr>sh_terminal_errors = diag, sh_output = buf, sh_startup = startup_default, sh_trace = dr_trace out, sh_budget = b\<rparr>
     in run_with_budget (Ok h) (the (completion (td_io_failures diag) (map Some (rev (dr_statuses out)) @ [None])))) =
       Some (Ok report) \<and> rr_exit_code report = Some 3 \<and> rr_termination_reason report = Some Reason_Exited"
proof -
  define buf where "buf = fst (push (the (output_buffer_new 8)) Stdout [104, 105])"
  define d' where "d' = (case drive_step (\<lambda>n. n) (\<lambda>_. []) sample_spec sample_start (DExit (Ok (ExitedWith 3))) of
    Inr (DBreak d _) \<Rightarrow> d)"
  define fin where "fin = projr (drive_finish (\<lambda>n. n) (\<lambda>_. []) sample_spec (Some TaskDone) (Some TaskDone) None 0 1 2 d'
         (Some (ExitedWith 3)) (budget_new 0 Unlimited))"
  obtain out b diag where f: "fin = (out, b, diag)" by (cases fin) auto
  define h where "h = \<lparr>sh_terminal_errors = diag, sh_output = buf, sh_startup = startup_default,
    sh_trace = dr_trace out, sh_budget = b\<rparr>"
  define waited where "waited = the (completion (td_io_failures diag) (map Some (rev (dr_statuses out)) @ [None]))"
  have en: "drive_enabled sample_start (DExit (Ok (ExitedWith 3)))" by (simp add: drive_enabled_def)
  have step: "drive_step (\<lambda>n. n) (\<lambda>_. []) sample_spec sample_start (DExit (Ok (ExitedWith 3))) =
      Ok (DBreak d' (Some (ExitedWith 3)))"
    unfolding d'_def sample_start_def by code_simp
  have finish: "drive_finish (\<lambda>n. n) (\<lambda>_. []) sample_spec (Some TaskDone) (Some TaskDone) None 0 1 2 d'
         (Some (ExitedWith 3)) (budget_new 0 Unlimited) = Ok (out, b, diag)"
    unfolding f [symmetric] fin_def d'_def sample_start_def by code_simp
  have q: "td_io_failures (snd (snd fin)) = []" "td_messages (snd (snd fin)) = []"
    "dr_timed_out sample_start = False" "dr_shutdown sample_start = False"
    "completion (td_io_failures (snd (snd fin))) (map Some (rev (dr_statuses (fst fin))) @ [None]) \<noteq> None"
    unfolding fin_def d'_def sample_start_def by code_simp+
  have w: "completion (td_io_failures diag) (map Some (rev (dr_statuses out)) @ [None]) = Some waited"
    using q(5) by (simp add: waited_def f)
  have rep: "represents buf [(Stdout, 104), (Stdout, 105)]"
    unfolding buf_def represents_def by code_simp
  have "\<exists>report. run_with_budget (Ok h) waited = Some (Ok report) \<and>
      rr_exit_code report = Some 3 \<and> rr_termination_reason report = Some Reason_Exited"
    using one_shot_report [OF sample_start_drives en step finish w _ _ rep, of h] q
    by (auto simp: f h_def decode_exit_status_def)
  then show ?thesis
    unfolding Let_def buf_def [symmetric] d'_def [symmetric] fin_def [symmetric] f by (simp add: h_def waited_def)
qed

end
