(* ===== verification/Image_Reference.thy ===== *)
theory Image_Reference
  imports Prelude
begin

text \<open>
  Image references (\<^verbatim>\<open>moraebox-image/src/reference.rs\<close>): parsing, validation and printing. A path is
  its byte string; \<^verbatim>\<open>Path::display\<close> prints a path that came from a string unchanged.
\<close>

section \<open>Standard library\<close>

text \<open>The characters with the Unicode property \<^verbatim>\<open>White_Space\<close>, in UTF-8.\<close>

definition utf8 :: "nat list \<Rightarrow> string" where
  "utf8 ns = map char_of ns"

definition whitespace_chars :: "string list" where
  "whitespace_chars =
     map (\<lambda>n. utf8 [n]) [9, 10, 11, 12, 13, 32] @ [utf8 [0xC2, 0x85], utf8 [0xC2, 0xA0], utf8 [0xE1, 0x9A, 0x80]] @
     map (\<lambda>n. utf8 [0xE2, 0x80, n])
       [0x80, 0x81, 0x82, 0x83, 0x84, 0x85, 0x86, 0x87, 0x88, 0x89, 0x8A, 0xA8, 0xA9, 0xAF] @
     [utf8 [0xE2, 0x81, 0x9F], utf8 [0xE3, 0x80, 0x80]]"

definition contains_whitespace :: "string \<Rightarrow> bool" where
  "contains_whitespace s \<longleftrightarrow> list_ex (\<lambda>w. contains_str w s) whitespace_chars"

text \<open>A leading (or, reversed, trailing) character that is white space.\<close>

definition strip_any :: "string list \<Rightarrow> string \<Rightarrow> string option" where
  "strip_any ws s = (case List.find (\<lambda>w. starts_with w s) ws of None \<Rightarrow> None | Some w \<Rightarrow> strip_prefix w s)"

primrec trim_fuel :: "string list \<Rightarrow> nat \<Rightarrow> string \<Rightarrow> string" where
  "trim_fuel ws 0 s = s"
| "trim_fuel ws (Suc n) s = (case strip_any ws s of None \<Rightarrow> s | Some t \<Rightarrow> trim_fuel ws n t)"

definition trim_start :: "string \<Rightarrow> string" where
  "trim_start s = trim_fuel whitespace_chars (length s) s"

definition trim_end :: "string \<Rightarrow> string" where
  "trim_end s = rev (trim_fuel (map rev whitespace_chars) (length s) (rev s))"

definition trim_ws :: "string \<Rightarrow> string" where
  "trim_ws s = trim_end (trim_start s)"

definition rfind :: "char \<Rightarrow> string \<Rightarrow> nat option" where
  "rfind c s = map_option (\<lambda>(a, b). length a) (rsplit_once c s)"

section \<open>References\<close>

datatype ReferenceError = InvalidReference string | InvalidComponent string string

datatype Selector = Tag string | Digest string

record RegistryReference =
  registry :: string
  repository :: string
  selector :: Selector

datatype ImageReference =
    Registry RegistryReference
  | OciLayout string
  | DockerArchive string string

definition endpoint_registry :: "RegistryReference \<Rightarrow> string" where
  "endpoint_registry r = (if registry r = ''docker.io'' then ''registry-1.docker.io'' else registry r)"

definition selector_text :: "RegistryReference \<Rightarrow> string" where
  "selector_text r = (case selector r of Tag t \<Rightarrow> t | Digest t \<Rightarrow> t)"

definition reference_scope :: "RegistryReference \<Rightarrow> string" where
  "reference_scope r = ''repository:'' @ repository r @ '':pull''"

definition punct_byte :: "char \<Rightarrow> bool" where
  "punct_byte c \<longleftrightarrow> c \<in> set ''._-''"

definition repository_byte :: "char \<Rightarrow> bool" where
  "repository_byte c \<longleftrightarrow> ascii_lower (code c) \<or> ascii_digit (code c) \<or> punct_byte c"

definition tag_byte :: "char \<Rightarrow> bool" where
  "tag_byte c \<longleftrightarrow> ascii_alphanumeric (code c) \<or> punct_byte c"

definition validate_repository :: "string \<Rightarrow> (unit, ReferenceError) result" where
  "validate_repository r =
     (if r \<noteq> [] \<and> list_all (\<lambda>p. p \<noteq> [] \<and> list_all repository_byte p) (split_on CHR ''/'' r)
      then Ok () else Err (InvalidReference r))"

definition validate_component :: "string \<Rightarrow> string \<Rightarrow> (string, ReferenceError) result" where
  "validate_component v kind =
     (if v = [] \<or> length v > 128 \<or> \<not> list_all tag_byte v then Err (InvalidComponent kind v) else Ok v)"

definition validate_digest :: "string \<Rightarrow> (string, ReferenceError) result" where
  "validate_digest v =
     (let hex = (case strip_prefix ''sha256:'' v of None \<Rightarrow> [] | Some h \<Rightarrow> h) in
      if length hex \<noteq> 64 \<or> \<not> list_all (\<lambda>c. ascii_hexdigit (code c)) hex
      then Err (InvalidComponent ''digest'' v)
      else Ok (''sha256:'' @ to_ascii_lowercase hex))"

definition non_empty_path :: "string \<Rightarrow> string \<Rightarrow> (string, ReferenceError) result" where
  "non_empty_path v kind = (if v = [] then Err (InvalidComponent kind v) else Ok v)"

definition validate_docker_selector :: "string \<Rightarrow> (unit, ReferenceError) result" where
  "validate_docker_selector v =
     (let last_slash = rfind CHR ''/'' v;
          valid_tag =
            (case rfind CHR '':'' v of
               None \<Rightarrow> False
             | Some colon \<Rightarrow>
                 colon > 0 \<and> colon + 1 < length v \<and>
                 (case last_slash of None \<Rightarrow> True | Some slash \<Rightarrow> colon > slash))
      in if \<not> valid_tag \<or> contains_whitespace v \<or> CHR ''#'' \<in> set v \<or> CHR ''@'' \<in> set v \<or> CHR 0x00 \<in> set v
         then Err (InvalidComponent ''Docker archive selector'' v) else Ok ())"

text \<open>The split of a trimmed reference into name and selector.\<close>

definition reference_selector :: "string \<Rightarrow> (string \<times> Selector, ReferenceError) result" where
  "reference_selector v =
     (case rsplit_once CHR ''@'' v of
        Some (name, suffix) \<Rightarrow>
          if starts_with ''sha256:'' suffix
          then and_then (validate_digest suffix) (\<lambda>d. Ok (name, Digest d))
          else and_then (validate_component suffix ''tag'') (\<lambda>t. Ok (name, Tag t))
      | None \<Rightarrow>
          (let last_slash = rfind CHR ''/'' v in
           case rfind CHR '':'' v of
             Some colon \<Rightarrow>
               if (case last_slash of None \<Rightarrow> True | Some slash \<Rightarrow> colon > slash)
               then and_then (validate_component (drop (colon + 1) v) ''tag'') (\<lambda>t. Ok (take colon v, Tag t))
               else Ok (v, Tag ''latest'')
           | None \<Rightarrow> Ok (v, Tag ''latest'')))"

text \<open>The rest of the parser, from the name and its selector.\<close>

definition reference_of_name :: "string \<Rightarrow> string \<Rightarrow> Selector \<Rightarrow> (RegistryReference, ReferenceError) result" where
  "reference_of_name v name sel =
     (if name = [] then Err (InvalidReference v)
      else
        let parts = split_on CHR ''/'' name in
        if list_ex (\<lambda>p. p = []) parts then Err (InvalidReference v)
        else
          let first_is_registry =
                length parts > 1 \<and>
                (CHR ''.'' \<in> set (hd parts) \<or> CHR '':'' \<in> set (hd parts) \<or> hd parts = ''localhost'');
              registry = (if first_is_registry then to_ascii_lowercase (hd parts) else ''docker.io'');
              repository_parts = (if first_is_registry then tl parts else parts);
              joined = to_ascii_lowercase (join_with ''/'' repository_parts);
              repository =
                (if registry = ''docker.io'' \<and> CHR ''/'' \<notin> set joined
                 then ''library/'' @ joined else joined)
          in and_then (validate_repository repository) (\<lambda>_.
               Ok \<lparr>registry = registry, repository = repository, selector = sel\<rparr>))"

definition registry_reference_from_str :: "string \<Rightarrow> (RegistryReference, ReferenceError) result" where
  "registry_reference_from_str v0 =
     (let v = trim_ws v0 in
      if v = [] \<or> contains_whitespace v \<or> contains_str ''//'' v then Err (InvalidReference v)
      else and_then (reference_selector v) (\<lambda>(name, sel). reference_of_name v name sel))"

definition registry_reference_display :: "RegistryReference \<Rightarrow> string" where
  "registry_reference_display r =
     registry r @ ''/'' @ repository r @
     (case selector r of Tag t \<Rightarrow> '':'' @ t | Digest d \<Rightarrow> ''@'' @ d)"

definition image_reference_from_str :: "string \<Rightarrow> (ImageReference, ReferenceError) result" where
  "image_reference_from_str v =
     (case strip_prefix ''oci-layout:'' v of
        Some path \<Rightarrow> and_then (non_empty_path path ''OCI layout'') (\<lambda>p. Ok (OciLayout p))
      | None \<Rightarrow>
          (case strip_prefix ''docker-archive:'' v of
             Some rest \<Rightarrow>
               and_then (ok_or (rsplit_once CHR ''#'' rest) (InvalidComponent ''Docker archive selector'' rest))
                 (\<lambda>(path, selector).
                    and_then (non_empty_path path ''Docker archive'') (\<lambda>path.
                    and_then (validate_docker_selector selector) (\<lambda>_. Ok (DockerArchive path selector))))
           | None \<Rightarrow> and_then (registry_reference_from_str v) (\<lambda>r. Ok (Registry r))))"

primrec image_reference_display :: "ImageReference \<Rightarrow> string" where
  "image_reference_display (Registry r) = registry_reference_display r"
| "image_reference_display (OciLayout path) = ''oci-layout:'' @ path"
| "image_reference_display (DockerArchive path sel) = ''docker-archive:'' @ path @ ''#'' @ sel"

section \<open>Well-formed references\<close>

definition tag_ok :: "string \<Rightarrow> bool" where
  "tag_ok t \<longleftrightarrow> t \<noteq> [] \<and> length t \<le> 128 \<and> list_all tag_byte t"

definition digest_ok :: "string \<Rightarrow> bool" where
  "digest_ok d \<longleftrightarrow>
     (\<exists>h. d = ''sha256:'' @ h \<and> length h = 64 \<and>
          list_all (\<lambda>c. ascii_hexdigit (code c) \<and> \<not> ascii_upper (code c)) h)"

definition repository_ok :: "string \<Rightarrow> bool" where
  "repository_ok r \<longleftrightarrow> list_all (\<lambda>p. p \<noteq> [] \<and> list_all repository_byte p) (split_on CHR ''/'' r)"

definition registry_ok :: "string \<Rightarrow> bool" where
  "registry_ok h \<longleftrightarrow>
     h \<noteq> [] \<and> CHR ''/'' \<notin> set h \<and> to_ascii_lowercase h = h \<and> \<not> contains_whitespace h \<and>
     (CHR ''.'' \<in> set h \<or> CHR '':'' \<in> set h \<or> h = ''localhost'')"

definition reference_ok :: "RegistryReference \<Rightarrow> bool" where
  "reference_ok r \<longleftrightarrow>
     registry_ok (registry r) \<and> repository_ok (repository r) \<and>
     (registry r = ''docker.io'' \<longrightarrow> CHR ''/'' \<in> set (repository r)) \<and>
     (case selector r of Tag t \<Rightarrow> tag_ok t | Digest d \<Rightarrow> digest_ok d)"

lemma validate_component_Inr: "validate_component v k = Inr w \<longleftrightarrow> w = v \<and> tag_ok v"
  by (auto simp: validate_component_def tag_ok_def)

lemma validate_repository_Inr: "validate_repository r = Inr () \<longleftrightarrow> repository_ok r"
  by (auto simp: validate_repository_def repository_ok_def)

lemma hex_lower:
  "ascii_hexdigit n \<Longrightarrow> ascii_hexdigit (lower_code n) \<and> \<not> ascii_upper (lower_code n)"
  by (auto simp: lower_code_def ascii_defs)

lemma guarded_Inr: "(if A then Inl e else Inr x) = Inr d \<longleftrightarrow> \<not> A \<and> d = x"
  by auto

lemma validate_digest_Inr:
  assumes "validate_digest v = Inr d"
  shows "digest_ok d"
proof -
  define hex where "hex = (case strip_prefix ''sha256:'' v of None \<Rightarrow> [] | Some h \<Rightarrow> h)"
  have hex: "\<not> (length hex \<noteq> 64 \<or> \<not> list_all (\<lambda>c. ascii_hexdigit (code c)) hex)"
      and d: "d = ''sha256:'' @ to_ascii_lowercase hex"
    using assms unfolding validate_digest_def hex_def [symmetric] Let_def guarded_Inr by blast+
  have "list_all (\<lambda>c. ascii_hexdigit (code c) \<and> \<not> ascii_upper (code c)) (to_ascii_lowercase hex)"
    using hex hex_lower unfolding list_all_iff by auto
  then show ?thesis
    unfolding digest_ok_def using hex by (intro exI [of _ "to_ascii_lowercase hex"] conjI d) simp_all
qed

lemma lower_not_upper: "\<not> ascii_upper (code c) \<Longrightarrow> lower_char c = c"
  by (simp add: lower_char_def lower_code_def)

lemma validate_digest_ok:
  assumes "digest_ok d"
  shows "validate_digest d = Inr d" and "starts_with ''sha256:'' d"
proof -
  obtain h where h: "d = ''sha256:'' @ h" "length h = 64" "list_all (\<lambda>c. ascii_hexdigit (code c) \<and> \<not> ascii_upper (code c)) h"
    using assms by (auto simp: digest_ok_def)
  have "to_ascii_lowercase h = h" using h(3) by (intro map_idI) (auto simp: list_all_iff lower_not_upper)
  moreover have "strip_prefix ''sha256:'' d = Some h" unfolding strip_prefix_Some by (rule h(1))
  moreover have "list_all (\<lambda>c. ascii_hexdigit (code c)) h" using h(3) by (simp add: list_all_iff)
  ultimately show "validate_digest d = Inr d"
    unfolding validate_digest_def Let_def using h(1,2) by simp
  show "starts_with ''sha256:'' d" unfolding starts_with_iff using h(1) by blast
qed

section \<open>White space\<close>

definition plain :: "char \<Rightarrow> bool" where
  "plain c \<longleftrightarrow> 33 \<le> code c \<and> code c \<le> 126"

lemma whitespace_not_plain: "w \<in> set whitespace_chars \<Longrightarrow> c \<in> set w \<Longrightarrow> code c \<le> 32 \<or> 128 \<le> code c"
proof -
  have "list_all (\<lambda>w. list_all (\<lambda>c. code c \<le> (32 :: nat) \<or> 128 \<le> (code c :: nat)) w) whitespace_chars"
    by code_simp
  then show "w \<in> set whitespace_chars \<Longrightarrow> c \<in> set w \<Longrightarrow> code c \<le> 32 \<or> 128 \<le> code c"
    by (auto simp: list_all_iff)
qed

lemma whitespace_ne: "w \<in> set whitespace_chars \<Longrightarrow> w \<noteq> []"
proof -
  have "list_all (\<lambda>w. w \<noteq> []) whitespace_chars" by code_simp
  then show "w \<in> set whitespace_chars \<Longrightarrow> w \<noteq> []" by (auto simp: list_all_iff)
qed

lemma contains_whitespace_iff:
  "contains_whitespace s \<longleftrightarrow> (\<exists>w \<in> set whitespace_chars. \<exists>a b. s = a @ w @ b)"
  by (simp add: contains_whitespace_def list_ex_iff contains_str_iff)

lemma contains_whitespace_prefix: "contains_whitespace a \<Longrightarrow> contains_whitespace (a @ b)"
  unfolding contains_whitespace_iff by (metis append.assoc)

lemma contains_whitespace_plain:
  assumes "contains_whitespace (a @ b)" and "list_all plain b"
  shows "contains_whitespace a"
proof -
  obtain w x y where w: "w \<in> set whitespace_chars" and eq: "a @ b = x @ w @ y"
    using assms(1) by (auto simp: contains_whitespace_iff)
  have "length (x @ w) \<le> length a"
  proof (rule ccontr)
    assume "\<not> ?thesis"
    moreover obtain w1 where w1: "w = w1 @ [last w]" using whitespace_ne [OF w] by (metis append_butlast_last_id)
    ultimately have "length a \<le> length (x @ w1)" by (metis length_append_singleton append.assoc leI less_Suc_eq_le)
    moreover have "(a @ b) ! length (x @ w1) = last w" "length (x @ w1) < length (a @ b)"
    proof -
      have "a @ b = (x @ w1) @ last w # y" using eq w1 by (metis append.assoc append_Cons append_Nil)
      then show "(a @ b) ! length (x @ w1) = last w" "length (x @ w1) < length (a @ b)"
        by (simp_all only: nth_append_length length_append list.size) simp_all
    qed
    ultimately have "last w \<in> set b" 
      by (auto simp: nth_append in_set_conv_nth intro!: exI [of _ "length (x @ w1) - length a"])
    then have "plain (last w)" using assms(2) by (simp add: list_all_iff)
    then show False
      using whitespace_not_plain [OF w last_in_set [OF whitespace_ne [OF w]]] by (auto simp: plain_def)
  qed
  then have "a = (x @ w) @ take (length a - length (x @ w)) y"
    using arg_cong [OF eq, of "take (length a)"] by simp
  with w show ?thesis unfolding contains_whitespace_iff by (metis append.assoc)
qed

lemma map_lower_inj:
  "to_ascii_lowercase t = u \<Longrightarrow> (\<And>c. c \<in> set u \<Longrightarrow> \<not> ascii_lower (code c) \<and> \<not> ascii_upper (code c)) \<Longrightarrow> t = u"
proof (induction t arbitrary: u)
  case (Cons c t)
  have "\<not> ascii_lower (code (lower_char c)) \<and> \<not> ascii_upper (code (lower_char c))"
    using Cons.prems by (metis list.set_intros(1) list.simps(9))
  then have "lower_char c = c" using lower_char_eq_iff by metis
  with Cons show ?case by auto
qed simp

lemma contains_whitespace_lower:
  assumes "contains_whitespace (to_ascii_lowercase s)"
  shows "contains_whitespace s"
proof -
  obtain w a b where w: "w \<in> set whitespace_chars" and eq: "to_ascii_lowercase s = a @ w @ b"
    using assms by (auto simp: contains_whitespace_iff)
  obtain a' r where s1: "s = a' @ r" "to_ascii_lowercase r = w @ b"
    using eq [unfolded map_eq_append_conv] by metis
  obtain w' b' where "r = w' @ b'" "to_ascii_lowercase w' = w"
    using s1(2) [unfolded map_eq_append_conv] by metis
  with s1 have s: "s = a' @ w' @ b'" "to_ascii_lowercase w' = w" by simp_all
  have "w' = w"
  proof (rule map_lower_inj [OF s(2)])
    fix c assume "c \<in> set w"
    then show "\<not> ascii_lower (code c) \<and> \<not> ascii_upper (code c)"
      using whitespace_not_plain [OF w, of c] by (auto simp: ascii_defs)
  qed
  with w s show ?thesis unfolding contains_whitespace_iff by blast
qed

lemma trim_fuel_none: "strip_any ws s = None \<Longrightarrow> trim_fuel ws n s = s"
  by (cases n) simp_all

lemma strip_any_None: "(\<And>w. w \<in> set ws \<Longrightarrow> \<not> starts_with w s) \<Longrightarrow> strip_any ws s = None"
  by (simp add: strip_any_def find_None_iff [THEN iffD2])

lemma trim_id:
  assumes "\<not> contains_whitespace s"
  shows "trim_ws s = s"
proof -
  have "strip_any whitespace_chars s = None"
    by (rule strip_any_None)
      (use assms in \<open>unfold starts_with_iff contains_whitespace_iff, metis append_Nil\<close>)
  moreover have "strip_any (map rev whitespace_chars) (rev s) = None"
  proof (rule strip_any_None, rule notI)
    fix w assume "w \<in> set (map rev whitespace_chars)" and "starts_with w (rev s)"
    then obtain v t where v: "v \<in> set whitespace_chars" "rev s = rev v @ t"
      by (auto simp: starts_with_iff)
    then have "s = rev t @ v @ []" by (metis append_Nil2 rev_append rev_rev_ident)
    with v(1) assms show False unfolding contains_whitespace_iff by blast
  qed
  ultimately show ?thesis by (simp add: trim_ws_def trim_start_def trim_end_def trim_fuel_none)
qed

section \<open>Parsed references are well formed\<close>

lemma rsplit_once_length: "rsplit_once c s = Some (a, b) \<Longrightarrow> s = a @ c # b"
  by (simp add: rsplit_once_Some)

lemma rfind_Some: "rfind c s = Some n \<Longrightarrow> s = take n s @ c # drop (Suc n) s \<and> c \<notin> set (drop (Suc n) s)"
  by (auto simp: rfind_def rsplit_once_Some)

lemma rfind_app [simp]: "c \<notin> set b \<Longrightarrow> rfind c (a @ c # b) = Some (length a)"
proof -
  assume "c \<notin> set b"
  then have "rsplit_once c (a @ c # b) = Some (a, b)" by (simp add: rsplit_once_Some)
  then show ?thesis by (simp add: rfind_def)
qed

lemma reference_selector_Inr:
  assumes "reference_selector v = Inr (name, sel)"
  shows "\<exists>t. v = name @ t" and "case sel of Tag t \<Rightarrow> tag_ok t | Digest d \<Rightarrow> digest_ok d"
proof -
  have latest: "tag_ok ''latest''" by code_simp
  have "(\<exists>t. v = name @ t) \<and> (case sel of Tag t \<Rightarrow> tag_ok t | Digest d \<Rightarrow> digest_ok d)"
  proof (cases "rsplit_once CHR ''@'' v")
    case (Some p)
    obtain a b where p: "p = (a, b)" by (cases p)
    have v: "v = a @ CHR ''@'' # b" using Some p by (simp add: rsplit_once_Some)
    show ?thesis
    proof (cases "starts_with ''sha256:'' b")
      case True
      with assms Some p obtain d where "validate_digest b = Inr d" "name = a" "sel = Digest d"
        by (auto simp: reference_selector_def and_then_Inr_iff)
      with v validate_digest_Inr show ?thesis by auto
    next
      case False
      with assms Some p have "tag_ok b" "name = a" "sel = Tag b"
        by (auto simp: reference_selector_def and_then_Inr_iff validate_component_Inr)
      with v show ?thesis by auto
    qed
  next
    case None
    with assms latest show ?thesis
      by (auto simp: reference_selector_def and_then_Inr_iff validate_component_Inr Let_def
          split: option.splits if_splits intro: append_take_drop_id [symmetric])
  qed
  then show "\<exists>t. v = name @ t" and "case sel of Tag t \<Rightarrow> tag_ok t | Digest d \<Rightarrow> digest_ok d" by auto
qed

lemma lower_mem_iff [simp]:
  "CHR ''.'' \<in> set (to_ascii_lowercase s) \<longleftrightarrow> CHR ''.'' \<in> set s"
  "CHR '':'' \<in> set (to_ascii_lowercase s) \<longleftrightarrow> CHR '':'' \<in> set s"
  "CHR ''/'' \<in> set (to_ascii_lowercase s) \<longleftrightarrow> CHR ''/'' \<in> set s"
proof -
  have mem: "d \<in> set (to_ascii_lowercase s) \<longleftrightarrow> d \<in> set s" if "\<not> ascii_lower (code d)" "\<not> ascii_upper (code d)" for d
    unfolding set_map image_iff using lower_char_eq_iff [OF that] by metis
  have letters: "\<not> ascii_lower (code CHR ''.'')" "\<not> ascii_upper (code CHR ''.'')"
      "\<not> ascii_lower (code CHR '':'')" "\<not> ascii_upper (code CHR '':'')"
      "\<not> ascii_lower (code CHR ''/'')" "\<not> ascii_upper (code CHR ''/'')"
    by code_simp+
  show "CHR ''.'' \<in> set (to_ascii_lowercase s) \<longleftrightarrow> CHR ''.'' \<in> set s"
    "CHR '':'' \<in> set (to_ascii_lowercase s) \<longleftrightarrow> CHR '':'' \<in> set s"
    "CHR ''/'' \<in> set (to_ascii_lowercase s) \<longleftrightarrow> CHR ''/'' \<in> set s"
    using mem letters by blast+
qed

lemma registry_ok_docker: "registry_ok ''docker.io''"
  unfolding registry_ok_def by code_simp

lemma registry_ok_lower:
  assumes "h \<noteq> []" and "CHR ''/'' \<notin> set h" and "\<not> contains_whitespace h"
    and "CHR ''.'' \<in> set h \<or> CHR '':'' \<in> set h \<or> h = ''localhost''"
  shows "registry_ok (to_ascii_lowercase h)"
proof -
  have "to_ascii_lowercase ''localhost'' = ''localhost''" by code_simp
  then have "CHR ''.'' \<in> set (to_ascii_lowercase h) \<or> CHR '':'' \<in> set (to_ascii_lowercase h) \<or>
      to_ascii_lowercase h = ''localhost''"
    using assms(4) unfolding lower_mem_iff by metis
  moreover have "\<not> contains_whitespace (to_ascii_lowercase h)"
    using assms(3) contains_whitespace_lower by blast
  ultimately show ?thesis
    unfolding registry_ok_def lower_mem_iff to_ascii_lowercase_idem using assms(1,2) by simp
qed

lemma library_slash: "CHR ''/'' \<in> set (''library/'' @ r)"
proof -
  have "CHR ''/'' \<in> set ''library/''" by code_simp
  then show ?thesis unfolding set_append by (rule UnI1)
qed

lemma reference_of_name_Inr:
  assumes "reference_of_name v name sel = Inr r"
  defines "ps \<equiv> split_on CHR ''/'' name"
  shows "[] \<notin> set ps" and "repository_ok (repository r)" and "selector r = sel"
    and "registry r = ''docker.io'' \<longrightarrow> CHR ''/'' \<in> set (repository r)"
    and "registry r = ''docker.io'' \<or> registry r = to_ascii_lowercase (hd ps) \<and>
      (CHR ''.'' \<in> set (hd ps) \<or> CHR '':'' \<in> set (hd ps) \<or> hd ps = ''localhost'')"
proof -
  define f where "f \<longleftrightarrow> length ps > 1 \<and> (CHR ''.'' \<in> set (hd ps) \<or> CHR '':'' \<in> set (hd ps) \<or> hd ps = ''localhost'')"
  define reg where "reg = (if f then to_ascii_lowercase (hd ps) else ''docker.io'')"
  define joined where "joined = to_ascii_lowercase (join_with ''/'' (if f then tl ps else ps))"
  define rep where "rep = (if reg = ''docker.io'' \<and> CHR ''/'' \<notin> set joined then ''library/'' @ joined else joined)"
  have all: "(if name = [] then Inl (InvalidReference v)
      else if list_ex (\<lambda>p. p = []) ps then Inl (InvalidReference v)
      else and_then (validate_repository rep) (\<lambda>_. Inr \<lparr>registry = reg, repository = rep, selector = sel\<rparr>)) = Inr r"
    using assms(1) unfolding reference_of_name_def Let_def ps_def [symmetric] f_def [symmetric]
      reg_def [symmetric] joined_def [symmetric] rep_def [symmetric] .
  then show "[] \<notin> set ps" by (auto simp: list_ex_iff split: if_splits)
  from all have v: "validate_repository rep = Inr ()" and r: "r = \<lparr>registry = reg, repository = rep, selector = sel\<rparr>"
    by (auto simp: and_then_Inr_iff split: if_splits)
  show "repository_ok (repository r)" "selector r = sel" using v by (simp_all add: r validate_repository_Inr)
  show "registry r = ''docker.io'' \<longrightarrow> CHR ''/'' \<in> set (repository r)"
    unfolding r using library_slash [of joined] by (simp add: rep_def del: set_append)
  show "registry r = ''docker.io'' \<or> registry r = to_ascii_lowercase (hd ps) \<and>
      (CHR ''.'' \<in> set (hd ps) \<or> CHR '':'' \<in> set (hd ps) \<or> hd ps = ''localhost'')"
    unfolding r by (cases f) (simp_all add: reg_def, simp add: f_def)
qed

lemma from_str_Inr:
  "registry_reference_from_str v0 = Inr r \<longleftrightarrow>
     \<not> (trim_ws v0 = [] \<or> contains_whitespace (trim_ws v0) \<or> contains_str ''//'' (trim_ws v0)) \<and>
     (\<exists>name sel. reference_selector (trim_ws v0) = Inr (name, sel) \<and> reference_of_name (trim_ws v0) name sel = Inr r)"
  by (auto simp: registry_reference_from_str_def Let_def and_then_Inr_iff)

lemma registry_reference_ok:
  assumes "registry_reference_from_str v0 = Inr r"
  shows "reference_ok r"
proof -
  obtain name sel where nw: "\<not> contains_whitespace (trim_ws v0)"
    and sel: "reference_selector (trim_ws v0) = Inr (name, sel)" and of: "reference_of_name (trim_ws v0) name sel = Inr r"
    using assms unfolding from_str_Inr by blast
  define ps where "ps = split_on CHR ''/'' name"
  note of' = reference_of_name_Inr [OF of, folded ps_def]
  obtain t where t: "trim_ws v0 = name @ t" using reference_selector_Inr(1) [OF sel] ..
  obtain u where u: "name = hd ps @ u"
  proof -
    have "name = join_with ''/'' ps" by (simp add: ps_def join_split_on)
    moreover obtain p qs where "ps = p # qs" by (cases ps) (auto simp: ps_def)
    ultimately show thesis using that by (cases qs) auto
  qed
  have "\<not> contains_whitespace (hd ps)" using nw t u contains_whitespace_prefix by (metis append.assoc)
  moreover have "hd ps \<in> set ps" by (simp add: ps_def)
  then have "hd ps \<noteq> []" "CHR ''/'' \<notin> set (hd ps)"
    using of'(1) split_on_no_sep [of "hd ps" "CHR ''/''" name] unfolding ps_def by metis+
  ultimately have "registry_ok (registry r)"
    using of'(5) registry_ok_docker registry_ok_lower [of "hd ps"] by metis
  with of'(2,3,4) reference_selector_Inr(2) [OF sel] show ?thesis by (simp add: reference_ok_def)
qed

section \<open>Round trip\<close>

lemma repository_byte_plain: "repository_byte c \<Longrightarrow> plain c \<and> lower_char c = c \<and> c \<notin> {CHR ''@'', CHR '':'', CHR ''/''}"
proof -
  have p: "list_all (\<lambda>c. plain c \<and> \<not> ascii_upper (code c) \<and> c \<notin> {CHR ''@'', CHR '':'', CHR ''/''}) ''._-''"
    by code_simp
  have n: "code CHR ''@'' = (64 :: nat)" "code CHR '':'' = (58 :: nat)" "code CHR ''/'' = (47 :: nat)" by code_simp+
  assume "repository_byte c"
  then consider "ascii_lower (code c) \<or> ascii_digit (code c)" | "c \<in> set ''._-''"
    by (auto simp: repository_byte_def punct_byte_def)
  then show "plain c \<and> lower_char c = c \<and> c \<notin> {CHR ''@'', CHR '':'', CHR ''/''}"
  proof cases
    case 1
    have "c \<notin> {CHR ''@'', CHR '':'', CHR ''/''}"
      using 1 n by (auto simp: ascii_defs)
    with 1 show ?thesis by (auto simp: plain_def ascii_defs intro!: lower_not_upper)
  next
    case 2
    with p show ?thesis unfolding list_all_iff by (metis lower_not_upper)
  qed
qed

lemma tag_byte_plain: "tag_byte c \<Longrightarrow> plain c \<and> c \<notin> {CHR ''@'', CHR '':'', CHR ''/''}"
proof -
  have p: "list_all (\<lambda>c. plain c \<and> c \<notin> {CHR ''@'', CHR '':'', CHR ''/''}) ''._-''"
    by code_simp
  have n: "code CHR ''@'' = (64 :: nat)" "code CHR '':'' = (58 :: nat)" "code CHR ''/'' = (47 :: nat)" by code_simp+
  assume "tag_byte c"
  then consider "ascii_alphanumeric (code c)" | "c \<in> set ''._-''"
    by (auto simp: tag_byte_def punct_byte_def)
  then show "plain c \<and> c \<notin> {CHR ''@'', CHR '':'', CHR ''/''}"
  proof cases
    case 1
    have "c \<notin> {CHR ''@'', CHR '':'', CHR ''/''}"
      using 1 n by (auto simp: ascii_defs)
    with 1 show ?thesis by (auto simp: plain_def ascii_defs)
  next
    case 2
    with p show ?thesis unfolding list_all_iff by metis
  qed
qed

lemma digest_ok_plain:
  assumes "digest_ok d"
  shows "list_all plain d" and "CHR ''@'' \<notin> set d" and "CHR ''/'' \<notin> set d"
proof -
  have p: "list_all (\<lambda>c. plain c \<and> c \<notin> {CHR ''@'', CHR ''/''}) ''sha256:''" by code_simp
  have n: "code CHR ''@'' = (64 :: nat)" "code CHR ''/'' = (47 :: nat)" by code_simp+
  obtain h where d: "d = ''sha256:'' @ h" and h: "list_all (\<lambda>c. ascii_hexdigit (code c) \<and> \<not> ascii_upper (code c)) h"
    using assms unfolding digest_ok_def by blast
  have "list_all (\<lambda>c. plain c \<and> c \<notin> {CHR ''@'', CHR ''/''}) h"
    unfolding list_all_iff
  proof
    fix c assume "c \<in> set h"
    then have "ascii_hexdigit (code c)" using h by (simp add: list_all_iff)
    then show "plain c \<and> c \<notin> {CHR ''@'', CHR ''/''}"
      using n by (auto simp: plain_def ascii_defs)
  qed
  with p have "list_all (\<lambda>c. plain c \<and> c \<notin> {CHR ''@'', CHR ''/''}) d" unfolding d list_all_append by (rule conjI)
  then show "list_all plain d" and "CHR ''@'' \<notin> set d" and "CHR ''/'' \<notin> set d"
    unfolding list_all_iff by blast+
qed

lemma set_split_on: "c \<in> set s \<Longrightarrow> c = d \<or> (\<exists>p \<in> set (split_on d s). c \<in> set p)"
  by (induction s) (auto split: list.splits)

lemma repository_ok_chars:
  assumes "repository_ok r"
  shows "list_all plain r" and "to_ascii_lowercase r = r" and "CHR ''@'' \<notin> set r" and "CHR '':'' \<notin> set r"
    and "r \<noteq> []"
proof -
  have sl: "plain CHR ''/''" "lower_char CHR ''/'' = CHR ''/''" "CHR ''/'' \<noteq> CHR ''@''" "CHR ''/'' \<noteq> CHR '':''"
    by code_simp+
  have "c = CHR ''/'' \<or> repository_byte c" if "c \<in> set r" for c
    using set_split_on [OF that, of "CHR ''/''"] assms unfolding repository_ok_def list_all_iff by blast
  then have all: "plain c \<and> lower_char c = c \<and> c \<noteq> CHR ''@'' \<and> c \<noteq> CHR '':''" if "c \<in> set r" for c
    using that repository_byte_plain [of c] sl by blast
  then show "list_all plain r" "to_ascii_lowercase r = r" "CHR ''@'' \<notin> set r" "CHR '':'' \<notin> set r"
    unfolding list_all_iff by (auto intro: map_idI)
  show "r \<noteq> []" using assms by (auto simp: repository_ok_def)
qed

lemma no_double_slash: "[] \<notin> set (split_on CHR ''/'' s) \<Longrightarrow> \<not> contains_str ''//'' s"
  unfolding contains_str_iff by (auto simp: split_on_app)

lemma split_on_last: "d \<notin> set t \<Longrightarrow> split_on d (s @ t) = butlast (split_on d s) @ [last (split_on d s) @ t]"
proof (induction s)
  case Nil
  then have "split_on d t = [t]" by (induction t) auto
  then show ?case by simp
next
  case (Cons x s)
  then show ?case by (auto split: list.splits)
qed

lemma split_on_single: "d \<notin> set t \<Longrightarrow> split_on d t = [t]"
  using split_on_last [of d t "[]"] by simp

lemma reference_of_name_display:
  assumes "registry_ok h" and "repository_ok rep" and "h = ''docker.io'' \<longrightarrow> CHR ''/'' \<in> set rep"
  shows "reference_of_name v (h @ CHR ''/'' # rep) sel = Inr \<lparr>registry = h, repository = rep, selector = sel\<rparr>"
proof -
  have h: "h \<noteq> []" "CHR ''/'' \<notin> set h" "to_ascii_lowercase h = h"
      "CHR ''.'' \<in> set h \<or> CHR '':'' \<in> set h \<or> h = ''localhost''"
    using assms(1) unfolding registry_ok_def by blast+
  have sp: "split_on CHR ''/'' (h @ CHR ''/'' # rep) = h # split_on CHR ''/'' rep"
    using h(2) by (simp add: split_on_app split_on_single)
  have ne: "\<not> list_ex (\<lambda>p. p = []) (h # split_on CHR ''/'' rep)"
    using h(1) assms(2) by (auto simp: list_ex_iff repository_ok_def list_all_iff)
  have first: "length (h # split_on CHR ''/'' rep) > 1" by (simp add: Suc_le_eq)
  have join: "join_with ''/'' (split_on CHR ''/'' rep) = rep" by (rule join_split_on)
  have lib: "\<not> (h = ''docker.io'' \<and> CHR ''/'' \<notin> set rep)" using assms(3) by blast
  have val: "validate_repository rep = Inr ()" using assms(2) by (simp add: validate_repository_Inr)
  show ?thesis
    unfolding reference_of_name_def Let_def sp if_not_P [OF ne] list.sel
    using first h(3,4) repository_ok_chars(2) [OF assms(2)] lib val by (simp add: join del: length_Cons) blast
qed

lemma rfind_less:
  assumes "rfind c (a @ b) = Some n" and "c \<notin> set b"
  shows "n < length a"
proof (rule ccontr)
  assume "\<not> n < length a"
  moreover obtain x y where "a @ b = x @ c # y" "n = length x"
    using assms(1) by (auto simp: rfind_def rsplit_once_Some)
  then have "n < length (a @ b) \<and> (a @ b) ! n = c"
    by (metis nth_append_length length_append_singleton length_append add_less_cancel_left length_Cons less_add_same_cancel1 zero_less_Suc)
  ultimately have "c = b ! (n - length a)" "n - length a < length b" by (auto simp: nth_append)
  with assms(2) show False by simp
qed

definition selector_suffix :: "Selector \<Rightarrow> string" where
  "selector_suffix sel = (case sel of Tag t \<Rightarrow> CHR '':'' # t | Digest d \<Rightarrow> CHR ''@'' # d)"

lemma display_suffix:
  "registry_reference_display r = (registry r @ CHR ''/'' # repository r) @ selector_suffix (selector r)"
  by (simp add: registry_reference_display_def selector_suffix_def split: Selector.split)

lemma reference_selector_display:
  assumes "case sel of Tag t \<Rightarrow> tag_ok t \<and> CHR ''@'' \<notin> set name | Digest d \<Rightarrow> digest_ok d"
  shows "reference_selector (name @ selector_suffix sel) = Inr (name, sel)"
proof (cases sel)
  case (Tag t)
  have t: "tag_ok t" "CHR ''@'' \<notin> set name" using assms Tag by simp_all
  then have cs: "CHR ''@'' \<notin> set t" "CHR '':'' \<notin> set t" "CHR ''/'' \<notin> set t"
    using tag_byte_plain unfolding tag_ok_def list_all_iff by blast+
  have "rsplit_once CHR ''@'' (name @ CHR '':'' # t) = None"
    using t(2) cs(1) by (simp add: rsplit_once_None)
  moreover have "rfind CHR '':'' (name @ CHR '':'' # t) = Some (length name)" using cs(2) by simp
  moreover have "case rfind CHR ''/'' (name @ CHR '':'' # t) of None \<Rightarrow> True | Some slash \<Rightarrow> length name > slash"
    using rfind_less [of "CHR ''/''" name "CHR '':'' # t"] cs(3) by (auto split: option.splits)
  moreover have "validate_component t ''tag'' = Inr t" using t(1) by (simp add: validate_component_Inr)
  ultimately show ?thesis
    by (simp add: Tag selector_suffix_def reference_selector_def Let_def)
next
  case (Digest d)
  have d: "digest_ok d" using assms Digest by simp
  have "rsplit_once CHR ''@'' (name @ CHR ''@'' # d) = Some (name, d)"
    using digest_ok_plain(2) [OF d] by (simp add: rsplit_once_Some)
  with validate_digest_ok [OF d] show ?thesis
    by (simp add: Digest selector_suffix_def reference_selector_def)
qed

lemma selector_suffix_chars:
  assumes "case sel of Tag t \<Rightarrow> tag_ok t | Digest d \<Rightarrow> digest_ok d"
  shows "list_all plain (selector_suffix sel)" and "CHR ''/'' \<notin> set (selector_suffix sel)"
proof -
  have p: "plain CHR '':''" "plain CHR ''@''" "CHR ''/'' \<noteq> CHR '':''" "CHR ''/'' \<noteq> CHR ''@''" by code_simp+
  have "list_all plain (selector_suffix sel) \<and> CHR ''/'' \<notin> set (selector_suffix sel)"
  proof (cases sel)
    case (Tag t)
    then have "tag_byte c" if "c \<in> set t" for c using assms that by (simp add: tag_ok_def list_all_iff)
    then have "list_all plain t" "CHR ''/'' \<notin> set t" using tag_byte_plain unfolding list_all_iff by blast+
    with p Tag show ?thesis by (simp add: selector_suffix_def)
  next
    case (Digest d)
    with assms digest_ok_plain [of d] p show ?thesis by (simp add: selector_suffix_def)
  qed
  then show "list_all plain (selector_suffix sel)" "CHR ''/'' \<notin> set (selector_suffix sel)" by simp_all
qed

lemma registry_reference_roundtrip_ok:
  assumes "reference_ok r" and "CHR ''@'' \<notin> set (registry r) \<or> (\<exists>d. selector r = Digest d)"
  shows "registry_reference_from_str (registry_reference_display r) = Inr r"
proof -
  define h rep sel where "h = registry r" and "rep = repository r" and "sel = selector r"
  define name where "name = h @ CHR ''/'' # rep"
  have ok: "registry_ok h" "repository_ok rep" "h = ''docker.io'' \<longrightarrow> CHR ''/'' \<in> set rep"
      "case sel of Tag t \<Rightarrow> tag_ok t | Digest d \<Rightarrow> digest_ok d"
    using assms(1) by (simp_all add: reference_ok_def h_def rep_def sel_def)
  have disp: "registry_reference_display r = name @ selector_suffix sel"
    by (simp add: display_suffix name_def h_def rep_def sel_def)
  have slash: "plain CHR ''/''" "CHR ''/'' \<noteq> CHR ''@''" by code_simp+
  have "list_all plain (CHR ''/'' # rep @ selector_suffix sel)"
    using slash(1) repository_ok_chars(1) [OF ok(2)] selector_suffix_chars(1) [OF ok(4)] by simp
  then have nw: "\<not> contains_whitespace (name @ selector_suffix sel)"
    using contains_whitespace_plain [of h "CHR ''/'' # rep @ selector_suffix sel"] ok(1)
    by (auto simp: registry_ok_def name_def)
  have h: "h \<noteq> []" "CHR ''/'' \<notin> set h" using ok(1) by (auto simp: registry_ok_def)
  have "split_on CHR ''/'' (name @ selector_suffix sel) =
      h # butlast (split_on CHR ''/'' rep) @ [last (split_on CHR ''/'' rep) @ selector_suffix sel]"
    using h(2) selector_suffix_chars(2) [OF ok(4)]
    by (simp add: name_def split_on_app split_on_single split_on_last)
  then have ds: "\<not> contains_str ''//'' (name @ selector_suffix sel)"
    using h(1) ok(2) by (intro no_double_slash)
      (auto simp: repository_ok_def list_all_iff dest: in_set_butlastD)
  have "case sel of Tag t \<Rightarrow> tag_ok t \<and> CHR ''@'' \<notin> set name | Digest d \<Rightarrow> digest_ok d"
    using ok(4) assms(2) repository_ok_chars(3) [OF ok(2)] slash(2)
    by (auto simp: name_def h_def sel_def split: Selector.splits)
  then have "reference_selector (name @ selector_suffix sel) = Inr (name, sel)"
    by (rule reference_selector_display)
  moreover have "reference_of_name (name @ selector_suffix sel) name sel = Inr \<lparr>registry = h, repository = rep, selector = sel\<rparr>"
    unfolding name_def using ok(1-3) by (rule reference_of_name_display)
  moreover have "\<lparr>registry = h, repository = rep, selector = sel\<rparr> = r" by (simp add: h_def rep_def sel_def)
  moreover have "name @ selector_suffix sel \<noteq> []" using h(1) by (simp add: name_def)
  ultimately show ?thesis
    unfolding disp from_str_Inr trim_id [OF nw] using nw ds by auto
qed

lemma strip_prefix_display:
  assumes "CHR ''/'' \<notin> set p" and "strip_prefix p (registry_reference_display r) = Some t"
  shows "starts_with p (registry r)"
proof -
  have "registry r @ CHR ''/'' # repository r @ selector_suffix (selector r) = p @ t"
    using assms(2) by (simp add: strip_prefix_Some display_suffix)
  then obtain u where "registry r = p @ u \<or> p = registry r @ u \<and> CHR ''/'' # repository r @ selector_suffix (selector r) = u @ t"
    by (auto simp: append_eq_append_conv2)
  with assms(1) show ?thesis by (cases u) (auto simp: starts_with_iff)
qed

section \<open>Properties\<close>

text \<open>
  Whatever the text, a registry reference that parses is in normal form: a lower-case registry
  host that looks like one, a repository of non-empty lower-case components (with the
  \<^verbatim>\<open>library/\<close> namespace on the default registry), and a valid tag of at most 128 bytes or a
  lower-case SHA-256 digest. Reading back what such a reference prints gives the same reference,
  unless its registry contains an at sign and it is selected by tag.
\<close>

theorem registry_reference_normal_form:
  assumes "registry_reference_from_str v = Ok r"
  shows "reference_ok r \<and>
    (CHR ''@'' \<notin> set (registry r) \<or> (\<exists>d. selector r = Digest d) \<longrightarrow>
       registry_reference_from_str (registry_reference_display r) = Ok r)"
  using registry_reference_ok [OF assms] registry_reference_roundtrip_ok by blast

theorem registry_reference_normal_form_witness:
  "registry_reference_from_str ''Alpine@3.20'' =
     Ok \<lparr>registry = ''docker.io'', repository = ''library/alpine'', selector = Tag ''3.20''\<rparr> \<and>
   registry_reference_from_str (registry_reference_display
     \<lparr>registry = ''docker.io'', repository = ''library/alpine'', selector = Tag ''3.20''\<rparr>) =
     Ok \<lparr>registry = ''docker.io'', repository = ''library/alpine'', selector = Tag ''3.20''\<rparr>"
proof -
  have p: "registry_reference_from_str ''Alpine@3.20'' =
      Ok \<lparr>registry = ''docker.io'', repository = ''library/alpine'', selector = Tag ''3.20''\<rparr>" by code_simp
  have "CHR ''@'' \<notin> set ''docker.io''" by code_simp
  with p registry_reference_normal_form [OF p] show ?thesis by simp
qed

text \<open>
  Reading back a printed image reference of any kind gives the same reference: always for an
  OCI layout or a Docker archive that was parsed, and for a registry reference whose registry
  contains no at sign and does not start like one of the two path schemes.
\<close>

theorem image_reference_roundtrip:
  assumes "image_reference_from_str v = Ok i"
    and "\<And>r. i = Registry r \<Longrightarrow> CHR ''@'' \<notin> set (registry r) \<and>
      \<not> starts_with ''oci-layout:'' (registry r) \<and> \<not> starts_with ''docker-archive:'' (registry r)"
  shows "image_reference_from_str (image_reference_display i) = Ok i"
proof -
  have oci: "strip_prefix ''oci-layout:'' (''oci-layout:'' @ p) = Some p" for p by (simp only: strip_prefix_Some)
  have docker: "strip_prefix ''docker-archive:'' (''docker-archive:'' @ p) = Some p"
    "strip_prefix ''oci-layout:'' (''docker-archive:'' @ p) = None" for p
    by (simp_all only: strip_prefix_Some) simp
  show ?thesis
  proof (cases i)
    case (Registry r)
    then have r: "registry_reference_from_str v = Inr r"
      using assms(1) by (auto simp: image_reference_from_str_def and_then_Inr_iff split: option.splits)
    have "registry_reference_from_str (registry_reference_display r) = Inr r"
      using registry_reference_roundtrip_ok [OF registry_reference_ok [OF r]] assms(2) [OF Registry] by blast
    moreover have "strip_prefix ''oci-layout:'' (registry_reference_display r) = None"
      "strip_prefix ''docker-archive:'' (registry_reference_display r) = None"
    proof -
      have "CHR ''/'' \<notin> set ''oci-layout:''" "CHR ''/'' \<notin> set ''docker-archive:''" by code_simp+
      then show "strip_prefix ''oci-layout:'' (registry_reference_display r) = None"
        "strip_prefix ''docker-archive:'' (registry_reference_display r) = None"
        using strip_prefix_display [of _ r] assms(2) [OF Registry] by (meson not_None_eq)+
    qed
    ultimately show ?thesis by (simp add: Registry image_reference_from_str_def)
  next
    case (OciLayout p)
    then have "p \<noteq> []"
      using assms(1) by (auto simp: image_reference_from_str_def and_then_Inr_iff non_empty_path_def split: option.splits if_splits)
    then show ?thesis
      unfolding OciLayout image_reference_display.simps image_reference_from_str_def oci
      by (simp add: non_empty_path_def)
  next
    case (DockerArchive p sel)
    then have p: "p \<noteq> []" "validate_docker_selector sel = Inr ()"
      using assms(1) by (auto simp: image_reference_from_str_def and_then_Inr_iff non_empty_path_def split: option.splits if_splits)
    then have "CHR ''#'' \<notin> set sel" by (auto simp: validate_docker_selector_def Let_def split: if_splits)
    then have "rsplit_once CHR ''#'' (p @ ''#'' @ sel) = Some (p, sel)" by (simp add: rsplit_once_Some)
    with p show ?thesis
      unfolding DockerArchive image_reference_display.simps image_reference_from_str_def docker
      by (simp add: non_empty_path_def)
  qed
qed

theorem image_reference_roundtrip_witness:
  "image_reference_from_str (image_reference_display (DockerArchive ''/a#b.tar'' ''x/y:1'')) =
     Ok (DockerArchive ''/a#b.tar'' ''x/y:1'')"
proof (rule image_reference_roundtrip)
  show "image_reference_from_str ''docker-archive:/a#b.tar#x/y:1'' = Ok (DockerArchive ''/a#b.tar'' ''x/y:1'')"
    by code_simp
qed simp

text \<open>
  The registry host is not checked, so printing a parsed reference can change what it names: a
  host with an at sign prints to a text that is refused, and a host that becomes
  \<^verbatim>\<open>oci-layout:\<close> when it is lower-cased prints to a reference to a local directory.
\<close>

theorem reference_display_ambiguous:
  "image_reference_from_str ''u@h.io/x@latest'' =
     Ok (Registry \<lparr>registry = ''u@h.io'', repository = ''x'', selector = Tag ''latest''\<rparr>) \<and>
   \<not> is_ok (image_reference_from_str (image_reference_display
      (Registry \<lparr>registry = ''u@h.io'', repository = ''x'', selector = Tag ''latest''\<rparr>))) \<and>
   image_reference_from_str ''OCI-Layout:5000/x'' =
     Ok (Registry \<lparr>registry = ''oci-layout:5000'', repository = ''x'', selector = Tag ''latest''\<rparr>) \<and>
   image_reference_from_str (image_reference_display
      (Registry \<lparr>registry = ''oci-layout:5000'', repository = ''x'', selector = Tag ''latest''\<rparr>)) =
     Ok (OciLayout ''5000/x:latest'')"
  by code_simp

end
