(* ===== verification/Cas.thy ===== *)
theory Cas
  imports Net_Types Host_Path
begin

unbundle bit_operations_syntax

text \<open>
  The content-addressed store of image blobs (\<^verbatim>\<open>moraebox-image/src/cas.rs\<close>): digests and their text,
  staging, and publication by rename. The store is a map from digests to the contents of the files
  under \<^verbatim>\<open>blobs/sha256\<close> together with the staging files. The hash (crate \<^verbatim>\<open>sha2\<close>, whose \<^verbatim>\<open>update\<close> calls
  hash the concatenation of their arguments) is the parameter \<open>sha\<close>; which input/output calls fail
  is the parameter \<open>env\<close>. An operation holds the lock of its digest from before its check of
  the destination, so that no other writer of the same digest runs in between.
\<close>

section \<open>Digests\<close>

type_synonym Digest = bytes

datatype cas_io_error = IoFault string | IoMissing

datatype CasError =
    UnsupportedDigest string
  | InvalidDigest string
  | DigestMismatch Digest Digest
  | CasIo cas_io_error
  | CasTask string

definition HEX_DIGITS :: string where "HEX_DIGITS = ''0123456789abcdef''"

definition hex_byte :: "u8 \<Rightarrow> string" where
  "hex_byte b = [HEX_DIGITS ! unat (drop_bit 4 b), HEX_DIGITS ! unat (b AND 0x0F)]"

definition hex :: "bytes \<Rightarrow> string" where
  "hex bs = concat (map hex_byte bs)"

definition digest_display :: "Digest \<Rightarrow> string" where
  "digest_display d = ''sha256:'' @ hex d"

text \<open>\<^verbatim>\<open>u8::from_str_radix(text, 16)\<close>: an optional plus sign, then digits only.\<close>

definition u8_from_hex :: "string \<Rightarrow> u8 option" where
  "u8_from_hex text =
     (let ds = (case text of c # rest \<Rightarrow> if c = CHR ''+'' \<and> rest \<noteq> [] then rest else text | [] \<Rightarrow> text) in
      if ds = [] \<or> list_ex (\<lambda>c. to_digit 16 c = None) ds \<or> digits_value 16 ds > 255 then None
      else Some (of_nat (digits_value 16 ds)))"

text \<open>The loop over \<^verbatim>\<open>chunks_exact(2)\<close>, with a pair that is not UTF-8 refused like one that is not a number.\<close>

fun hex_pairs :: "string \<Rightarrow> bytes option" where
  "hex_pairs (a # b # rest) =
     (case to_str [a, b] of
        None \<Rightarrow> None
      | Some text \<Rightarrow>
          (case u8_from_hex text of
             None \<Rightarrow> None
           | Some v \<Rightarrow> map_option (\<lambda>vs. v # vs) (hex_pairs rest)))"
| "hex_pairs _ = Some []"

definition digest_from_str :: "string \<Rightarrow> (Digest, CasError) result" where
  "digest_from_str s =
     and_then (ok_or (strip_prefix ''sha256:'' s) (UnsupportedDigest s)) (\<lambda>encoded.
       if length encoded \<noteq> 64 then Err (InvalidDigest s)
       else ok_or (hex_pairs encoded) (InvalidDigest s))"

section \<open>The store\<close>

text \<open>Staging files stand beside the blobs or under \<^verbatim>\<open>tmp\<close>; their names have a process-wide sequence number.\<close>

datatype staging_dir = InBlobs | InTmp

type_synonym staged_key = "staging_dir \<times> nat"

record cas =
  cs_blobs :: "(Digest, bytes) assoc"
  cs_staged :: "(staged_key, bytes) assoc"
  cs_sequence :: nat

datatype cas_step = AtLock | AtStagingDir | AtCreate | AtWrite nat | AtSync | AtExists | AtTask | AtRead
  | AtParent | AtRename | AtExistsAgain | AtSyncDirectory

text \<open>
  \<open>ce_fault\<close> says which calls fail and with what message; \<open>ce_appeared\<close> is what someone who ignores the
  locks has put at the destination by the time a rename failed.
\<close>

record cas_env =
  ce_fault :: "cas_step \<Rightarrow> string option"
  ce_appeared :: "bytes option"

datatype 'e PutStreamError =
    PsSource 'e
  | PsCas CasError
  | PsSizeExceeded nat
  | PsSizeMismatch nat nat

definition cas_try :: "cas_env \<Rightarrow> cas_step \<Rightarrow> (unit, CasError) result" where
  "cas_try env step = (case ce_fault env step of Some e \<Rightarrow> Err (CasIo (IoFault e)) | None \<Rightarrow> Ok ())"

definition verify_digest :: "Digest \<Rightarrow> Digest \<Rightarrow> (unit, CasError) result" where
  "verify_digest expected actual = (if actual = expected then Ok () else Err (DigestMismatch expected actual))"

definition VERIFY_BUFFER_SIZE :: nat where "VERIFY_BUFFER_SIZE = 64 * 1024"

text \<open>The read loop of \<^verbatim>\<open>verify_file\<close> over a file of which \<open>rest\<close> is still unread.\<close>

function verify_loop :: "bytes \<Rightarrow> nat \<Rightarrow> bytes \<Rightarrow> nat \<times> bytes" where
  "verify_loop rest len hashed =
     (if rest = [] then (len, hashed)
      else
        (let chunk = take VERIFY_BUFFER_SIZE rest in
         verify_loop (drop VERIFY_BUFFER_SIZE rest) (saturating_add len (length chunk)) (hashed @ chunk)))"
  by pat_completeness auto
termination
  by (relation "measure (\<lambda>(rest, _, _). length rest)") (auto simp: VERIFY_BUFFER_SIZE_def)

declare verify_loop.simps [simp del]

definition verify_file :: "(bytes \<Rightarrow> Digest) \<Rightarrow> cas_env \<Rightarrow> bytes option \<Rightarrow> Digest \<Rightarrow> (nat, CasError) result" where
  "verify_file sha env file expected =
     and_then (cas_try env AtRead) (\<lambda>_.
     and_then (ok_or file (CasIo IoMissing)) (\<lambda>content.
       case verify_loop content 0 [] of
         (len, hashed) \<Rightarrow> and_then (verify_digest expected (sha hashed)) (\<lambda>_. Ok len)))"

definition read_verified_file ::
  "(bytes \<Rightarrow> Digest) \<Rightarrow> cas_env \<Rightarrow> bytes option \<Rightarrow> Digest \<Rightarrow> (bytes, CasError) result" where
  "read_verified_file sha env file expected =
     and_then (cas_try env AtRead) (\<lambda>_.
     and_then (ok_or file (CasIo IoMissing)) (\<lambda>content.
     and_then (verify_digest expected (sha content)) (\<lambda>_. Ok content)))"

definition blocking :: "cas_env \<Rightarrow> ('a, CasError) result \<Rightarrow> ('a, CasError) result" where
  "blocking env r = (case ce_fault env AtTask of Some e \<Rightarrow> Err (CasTask e) | None \<Rightarrow> r)"

definition cas_verify :: "(bytes \<Rightarrow> Digest) \<Rightarrow> cas_env \<Rightarrow> Digest \<Rightarrow> cas \<Rightarrow> (nat, CasError) result" where
  "cas_verify sha env d s = blocking env (verify_file sha env (map_of (cs_blobs s) d) d)"

definition cas_read :: "(bytes \<Rightarrow> Digest) \<Rightarrow> cas_env \<Rightarrow> Digest \<Rightarrow> cas \<Rightarrow> (bytes, CasError) result" where
  "cas_read sha env d s = blocking env (read_verified_file sha env (map_of (cs_blobs s) d) d)"

text \<open>\<^verbatim>\<open>create_staged_blob\<close>: numbers of existing files are skipped.\<close>

function staged_number :: "staging_dir \<Rightarrow> (staged_key, bytes) assoc \<Rightarrow> nat \<Rightarrow> nat" where
  "staged_number dir staged n =
     (if map_of staged (dir, n) \<noteq> None then staged_number dir staged (n + 1) else n)"
  by pat_completeness auto
termination
proof (relation "measure (\<lambda>(dir, staged, n). card {k \<in> fst ` set staged. n \<le> snd k})")
  fix dir :: staging_dir and staged :: "(staged_key, bytes) assoc" and n
  assume "map_of staged (dir, n) \<noteq> None"
  then have "(dir, n) \<in> fst ` set staged" by (auto simp: map_of_eq_None_iff)
  then have "(dir, n) \<in> {k \<in> fst ` set staged. n \<le> snd k} - {k \<in> fst ` set staged. n + 1 \<le> snd k}" by simp
  moreover have "{k \<in> fst ` set staged. n + 1 \<le> snd k} \<subseteq> {k \<in> fst ` set staged. n \<le> snd k}" by auto
  ultimately have "{k \<in> fst ` set staged. n + 1 \<le> snd k} \<subset> {k \<in> fst ` set staged. n \<le> snd k}" by blast
  then show "((dir, staged, n + 1), (dir, staged, n)) \<in> measure (\<lambda>(dir, staged, n). card {k \<in> fst ` set staged. n \<le> snd k})"
    by (simp add: psubset_card_mono)
qed simp

declare staged_number.simps [simp del]

definition create_staged_blob :: "cas_env \<Rightarrow> staging_dir \<Rightarrow> cas \<Rightarrow> (staged_key, CasError) result \<times> cas" where
  "create_staged_blob env dir s =
     (let n = staged_number dir (cs_staged s) (cs_sequence s);
          s' = s\<lparr>cs_sequence := n + 1\<rparr>
      in case cas_try env AtCreate of
           Inl e \<Rightarrow> (Err e, s')
         | Inr _ \<Rightarrow> (Ok (dir, n), s'\<lparr>cs_staged := map_insert (dir, n) [] (cs_staged s)\<rparr>))"

definition write_staged :: "staged_key \<Rightarrow> bytes \<Rightarrow> cas \<Rightarrow> cas" where
  "write_staged k bs s =
     s\<lparr>cs_staged := map_insert k (the (map_of (cs_staged s) k) @ bs) (cs_staged s)\<rparr>"

text \<open>The rename of a staging file to its destination, and the drop of a \<^verbatim>\<open>StagedBlob\<close>.\<close>

definition publish_staged :: "staged_key \<Rightarrow> Digest \<Rightarrow> cas \<Rightarrow> cas" where
  "publish_staged k d s =
     s\<lparr>cs_blobs := map_insert d (the (map_of (cs_staged s) k)) (cs_blobs s),
       cs_staged := map_remove k (cs_staged s)\<rparr>"

definition drop_staged :: "staged_key \<Rightarrow> bool \<Rightarrow> cas \<Rightarrow> cas" where
  "drop_staged k published s = (if published then s else s\<lparr>cs_staged := map_remove k (cs_staged s)\<rparr>)"

section \<open>Publishing a blob in memory\<close>

text \<open>The part of \<^verbatim>\<open>put_verified\<close> that holds the staging file: the result, whether it was published, and the store.\<close>

definition put_verified_staged ::
  "(bytes \<Rightarrow> Digest) \<Rightarrow> cas_env \<Rightarrow> Digest \<Rightarrow> bytes \<Rightarrow> staged_key \<Rightarrow> cas
     \<Rightarrow> (Digest, CasError) result \<times> bool \<times> cas" where
  "put_verified_staged sha env expected bs k s =
     (case cas_try env (AtWrite 0) of
        Inl e \<Rightarrow> (Err e, False, s)
      | Inr _ \<Rightarrow>
          (let s1 = write_staged k bs s in
           case cas_try env AtSync of
             Inl e \<Rightarrow> (Err e, False, s1)
           | Inr _ \<Rightarrow>
               (case cas_try env AtRename of
                  Inr _ \<Rightarrow>
                    (and_then (cas_try env AtSyncDirectory) (\<lambda>_. Ok expected), True, publish_staged k expected s1)
                | Inl e \<Rightarrow>
                    (let s2 = (case ce_appeared env of
                                 Some c \<Rightarrow> s1\<lparr>cs_blobs := map_insert expected c (cs_blobs s1)\<rparr>
                               | None \<Rightarrow> s1)
                     in (and_then (cas_try env AtExistsAgain) (\<lambda>_.
                           if map_of (cs_blobs s2) expected \<noteq> None
                           then and_then (cas_read sha env expected s2) (\<lambda>_. Ok expected)
                           else Err e), False, s2)))))"

definition put_verified ::
  "(bytes \<Rightarrow> Digest) \<Rightarrow> cas_env \<Rightarrow> Digest \<Rightarrow> bytes \<Rightarrow> cas \<Rightarrow> (Digest, CasError) result \<times> cas" where
  "put_verified sha env expected bs s =
     (if sha bs \<noteq> expected then (Err (DigestMismatch expected (sha bs)), s)
      else
        (case and_then (cas_try env AtLock) (\<lambda>_. cas_try env AtExists) of
           Inl e \<Rightarrow> (Err e, s)
         | Inr _ \<Rightarrow>
             if map_of (cs_blobs s) expected \<noteq> None
             then (and_then (cas_verify sha env expected s) (\<lambda>_. Ok expected), s)
             else
               (case cas_try env AtParent of
                  Inl e \<Rightarrow> (Err e, s)
                | Inr _ \<Rightarrow>
                    (case create_staged_blob env InBlobs s of
                       (Inl e, s1) \<Rightarrow> (Err e, s1)
                     | (Inr k, s1) \<Rightarrow>
                         (case put_verified_staged sha env expected bs k s1 of
                            (r, published, s2) \<Rightarrow> (r, drop_staged k published s2))))))"

section \<open>Publishing a stream\<close>

definition verify_stream_size :: "nat \<Rightarrow> nat option \<Rightarrow> nat \<Rightarrow> (unit, 'e PutStreamError) result" where
  "verify_stream_size actual expected maximum =
     (if actual > maximum then Err (PsSizeExceeded actual)
      else
        (case expected of
           Some e \<Rightarrow> if actual \<noteq> e then Err (PsSizeMismatch e actual) else Ok ()
         | None \<Rightarrow> Ok ()))"

text \<open>The loop over the stream: the size so far and what the hasher has seen.\<close>

fun put_stream_loop ::
  "cas_env \<Rightarrow> nat option \<Rightarrow> nat \<Rightarrow> staged_key \<Rightarrow> nat \<Rightarrow> (bytes, 'e) result list \<Rightarrow> nat \<Rightarrow> bytes \<Rightarrow> cas
     \<Rightarrow> (nat \<times> bytes, 'e PutStreamError) result \<times> cas" where
  "put_stream_loop env expected_size maximum k i [] len hashed s = (Ok (len, hashed), s)"
| "put_stream_loop env expected_size maximum k i (Inl e # chunks) len hashed s = (Err (PsSource e), s)"
| "put_stream_loop env expected_size maximum k i (Inr bs # chunks) len hashed s =
     (let len' = saturating_add len (length bs);
          over = (case expected_size of Some e \<Rightarrow> if len' > e then Some e else None | None \<Rightarrow> None)
      in case verify_stream_size len' over maximum of
           Inl e \<Rightarrow> (Err e, s)
         | Inr _ \<Rightarrow>
             (case cas_try env (AtWrite i) of
                Inl e \<Rightarrow> (Err (PsCas e), s)
              | Inr _ \<Rightarrow>
                  put_stream_loop env expected_size maximum k (i + 1) chunks len' (hashed @ bs) (write_staged k bs s)))"

text \<open>What happens to the staged file once the stream has ended.\<close>

definition put_stream_staged ::
  "(bytes \<Rightarrow> Digest) \<Rightarrow> cas_env \<Rightarrow> Digest option \<Rightarrow> nat option \<Rightarrow> nat \<Rightarrow> staged_key \<Rightarrow> nat \<Rightarrow> bytes \<Rightarrow> cas
     \<Rightarrow> (Digest, 'e PutStreamError) result \<times> bool \<times> cas" where
  "put_stream_staged sha env expected_digest expected_size maximum k len hashed s =
     (let actual = sha hashed in
      case and_then (verify_stream_size len expected_size maximum) (\<lambda>_.
           and_then (map_err PsCas (cas_try env AtSync)) (\<lambda>_.
           and_then (case expected_digest of
                       Some e \<Rightarrow> if e \<noteq> actual then Err (PsCas (DigestMismatch e actual)) else Ok ()
                     | None \<Rightarrow> map_err PsCas (cas_try env AtLock)) (\<lambda>_.
           map_err PsCas (cas_try env AtExists)))) of
        Inl e \<Rightarrow> (Err e, False, s)
      | Inr _ \<Rightarrow>
          if map_of (cs_blobs s) actual \<noteq> None then
            (and_then (map_err PsCas (cas_verify sha env actual s)) (\<lambda>existing_size.
             and_then (verify_stream_size existing_size expected_size maximum) (\<lambda>_. Ok actual)), False, s)
          else
            (case and_then (cas_try env AtParent) (\<lambda>_. cas_try env AtRename) of
               Inl e \<Rightarrow> (Err (PsCas e), False, s)
             | Inr _ \<Rightarrow>
                 (and_then (map_err PsCas (cas_try env AtSyncDirectory)) (\<lambda>_. Ok actual), True,
                  publish_staged k actual s)))"

definition put_stream ::
  "(bytes \<Rightarrow> Digest) \<Rightarrow> cas_env \<Rightarrow> Digest option \<Rightarrow> nat option \<Rightarrow> nat \<Rightarrow> (bytes, 'e) result list \<Rightarrow> cas
     \<Rightarrow> (Digest, 'e PutStreamError) result \<times> cas" where
  "put_stream sha env expected_digest expected_size maximum stream s =
     (case and_then (if expected_digest \<noteq> None then cas_try env AtLock else Ok ()) (\<lambda>_. cas_try env AtStagingDir) of
        Inl e \<Rightarrow> (Err (PsCas e), s)
      | Inr _ \<Rightarrow>
          (case create_staged_blob env InTmp s of
             (Inl e, s1) \<Rightarrow> (Err (PsCas e), s1)
           | (Inr k, s1) \<Rightarrow>
               (case put_stream_loop env expected_size maximum k 0 stream 0 [] s1 of
                  (Inl e, s2) \<Rightarrow> (Err e, drop_staged k False s2)
                | (Inr (len, hashed), s2) \<Rightarrow>
                    (case put_stream_staged sha env expected_digest expected_size maximum k len hashed s2 of
                       (r, published, s3) \<Rightarrow> (r, drop_staged k published s3)))))"

section \<open>Text of a digest\<close>

lemma hex_digit_facts:
  assumes "n < 16"
  shows "to_digit 16 (HEX_DIGITS ! n) = Some n" and "of_char (HEX_DIGITS ! n) < (128 :: nat)"
    and "HEX_DIGITS ! n \<noteq> CHR ''+''"
proof -
  have "\<forall>n < 16. to_digit 16 (HEX_DIGITS ! n) = Some n \<and> of_char (HEX_DIGITS ! n) < (128 :: nat) \<and> HEX_DIGITS ! n \<noteq> CHR ''+''"
    by code_simp
  with assms show "to_digit 16 (HEX_DIGITS ! n) = Some n" and "of_char (HEX_DIGITS ! n) < (128 :: nat)"
    and "HEX_DIGITS ! n \<noteq> CHR ''+''"
    by blast+
qed

lemma nibbles:
  fixes b :: u8
  shows "unat (drop_bit 4 b) < 16" and "unat (b AND 0x0F) < 16"
    and "16 * unat (drop_bit 4 b) + unat (b AND 0x0F) = unat b"
proof -
  have b: "unat b < 256" using unsigned_less [of b] by simp
  have d: "unat (drop_bit 4 b) = unat b div 16" by (simp only: unat_drop_bit_eq) (simp add: drop_bit_eq_div)
  have "b AND 0x0F = take_bit 4 b" by (simp add: take_bit_eq_mask mask_eq_exp_minus_1)
  then have m: "unat (b AND 0x0F) = unat b mod 16" by (simp only: unsigned_take_bit_eq) (simp add: take_bit_eq_mod)
  show "unat (drop_bit 4 b) < 16" "unat (b AND 0x0F) < 16"
    "16 * unat (drop_bit 4 b) + unat (b AND 0x0F) = unat b"
    unfolding d m using b by (simp_all add: less_mult_imp_div_less)
qed

lemma u8_from_hex_digits:
  assumes "m < 16" and "n < 16"
  shows "u8_from_hex [HEX_DIGITS ! m, HEX_DIGITS ! n] = Some (of_nat (16 * m + n))"
  using hex_digit_facts [OF assms(1)] hex_digit_facts [OF assms(2)] assms
  by (simp add: u8_from_hex_def digits_value_def mult.commute)

lemma to_str_ascii2:
  "of_char a < (128 :: nat) \<Longrightarrow> of_char b < (128 :: nat) \<Longrightarrow> to_str [a, b] = Some [a, b]"
  by (simp add: to_str_def utf8_ok.simps)

lemma hex_byte_roundtrip: "hex_pairs (hex_byte b @ rest) = map_option (\<lambda>vs. b # vs) (hex_pairs rest)"
  using u8_from_hex_digits [OF nibbles(1,2) [of b]] to_str_ascii2 [OF hex_digit_facts(2) [OF nibbles(1)] hex_digit_facts(2) [OF nibbles(2)], of b b]
  by (simp add: hex_byte_def nibbles(3))

lemma hex_pairs_hex: "hex_pairs (hex bs) = Some bs"
  by (induction bs) (simp_all add: hex_def hex_byte_roundtrip)

lemma length_hex: "length (hex bs) = 2 * length bs"
  by (induction bs) (simp_all add: hex_def hex_byte_def)

section \<open>Staging files\<close>

lemma verify_loop_eq:
  "len \<le> U64_MAX \<Longrightarrow> verify_loop rest len hashed = (min (len + length rest) U64_MAX, hashed @ rest)"
proof (induction rest len hashed rule: verify_loop.induct)
  case (1 rest len hashed)
  show ?case
  proof (cases "rest = []")
    case True
    with 1 show ?thesis by (simp add: verify_loop.simps)
  next
    case False
    have "saturating_add len (length (take VERIFY_BUFFER_SIZE rest)) \<le> U64_MAX" by (simp add: saturating_add_def)
    from 1(1) [OF False refl this] False show ?thesis
      by (subst verify_loop.simps) (auto simp: Let_def saturating_add_def min_def)
  qed
qed

lemma verify_file_Inr:
  "verify_file sha env file d = Inr n \<longleftrightarrow>
     ce_fault env AtRead = None \<and> (\<exists>b. file = Some b \<and> sha b = d \<and> n = min (length b) U64_MAX)"
  by (auto simp: verify_file_def cas_try_def and_then_Inr_iff ok_or_Inr_iff verify_loop_eq verify_digest_def
      split: option.splits)

lemma cas_verify_Inr:
  "cas_verify sha env d s = Inr n \<longleftrightarrow> ce_fault env AtTask = None \<and> ce_fault env AtRead = None \<and>
     (\<exists>b. map_of (cs_blobs s) d = Some b \<and> sha b = d \<and> n = min (length b) U64_MAX)"
  by (auto simp: cas_verify_def blocking_def verify_file_Inr split: option.splits)

lemma cas_read_Inr:
  "cas_read sha env d s = Inr b \<longleftrightarrow> ce_fault env AtTask = None \<and> ce_fault env AtRead = None \<and>
     map_of (cs_blobs s) d = Some b \<and> sha b = d"
  by (auto simp: cas_read_def blocking_def read_verified_file_def cas_try_def and_then_Inr_iff ok_or_Inr_iff
      verify_digest_def split: option.splits)

lemma staged_number_fresh: "map_of staged (dir, staged_number dir staged n) = None"
  by (induction dir staged n rule: staged_number.induct) (subst staged_number.simps, simp)

text \<open>What an operation may do between the creation and the drop of its staging file.\<close>

definition only_staged :: "staged_key \<Rightarrow> cas \<Rightarrow> cas \<Rightarrow> bool" where
  "only_staged k s s' \<longleftrightarrow>
     cs_blobs s' = cs_blobs s \<and> map_remove k (cs_staged s') = map_remove k (cs_staged s)"

lemma map_remove_insert [simp]: "map_remove k (map_insert k v m) = map_remove k m"
  by (induction m) (auto simp: AList.delete_eq)

lemma write_staged_only: "only_staged k s (write_staged k bs s)"
  by (simp add: only_staged_def write_staged_def)

lemma create_staged_blob_cases:
  assumes "create_staged_blob env dir s = (r, s')"
  shows "cs_blobs s' = cs_blobs s"
    and "r = Inl e \<Longrightarrow> cs_staged s' = cs_staged s"
    and "r = Inr k \<Longrightarrow> map_remove k (cs_staged s') = cs_staged s \<and> map_of (cs_staged s') k = Some []"
  using assms staged_number_fresh [of "cs_staged s" dir "cs_sequence s"]
  by (auto simp: create_staged_blob_def Let_def map_of_eq_None_iff update_conv'
      split: sum.splits intro: delete_idem)

lemma put_stream_loop_staged:
  fixes stream :: "(bytes, 'e) result list"
  assumes "put_stream_loop env es mx k i stream len hashed s = (r, s')" and "map_of (cs_staged s) k = Some c"
    and "len \<le> U64_MAX"
  shows "only_staged k s s' \<and>
    (\<forall>len' hashed'. r = Inr (len', hashed') \<longrightarrow>
       (\<exists>bss. stream = map Inr bss \<and> hashed' = hashed @ concat bss \<and> len' = min (len + length (concat bss)) U64_MAX \<and>
          map_of (cs_staged s') k = Some (c @ concat bss)))"
  using assms
proof (induction env es mx k i stream len hashed s arbitrary: c rule: put_stream_loop.induct)
  case (3 env es mx k i bs chunks len hashed s)
  define len1 where "len1 = saturating_add len (length bs)"
  define over where "over = (case es of Some e \<Rightarrow> if len1 > e then Some e else None | None \<Rightarrow> None)"
  have unfold: "put_stream_loop env es mx k i (Inr bs # chunks) len hashed s =
      (case verify_stream_size len1 over mx of
         Inl e \<Rightarrow> (Err e, s)
       | Inr _ \<Rightarrow>
           (case cas_try env (AtWrite i) of
              Inl e \<Rightarrow> (Err (PsCas e), s)
            | Inr _ \<Rightarrow> put_stream_loop env es mx k (i + 1) chunks len1 (hashed @ bs) (write_staged k bs s)))"
    unfolding put_stream_loop.simps Let_def len1_def over_def ..
  show ?case
  proof (cases "(verify_stream_size len1 over mx :: (unit, 'e PutStreamError) result) = Inr () \<and> cas_try env (AtWrite i) = Inr ()")
    case True
    have rest: "put_stream_loop env es mx k (i + 1) chunks len1 (hashed @ bs) (write_staged k bs s) = (r, s')"
      using 3(2) True unfolding unfold by simp
    have w: "map_of (cs_staged (write_staged k bs s)) k = Some (c @ bs)"
      using 3(3) by (simp add: write_staged_def update_conv')
    have len1: "len1 \<le> U64_MAX" by (simp add: len1_def saturating_add_def)
    note ih = 3(1) [OF len1_def over_def _ _ rest w len1]
    have "only_staged k s s'" using ih True write_staged_only [of k s bs] by (auto simp: only_staged_def)
    moreover have "\<exists>bss. Inr bs # chunks = map Inr bss \<and> hashed' = hashed @ concat bss \<and>
        len' = min (len + length (concat bss)) U64_MAX \<and> map_of (cs_staged s') k = Some (c @ concat bss)"
      if "r = Inr (len', hashed')" for len' hashed'
    proof -
      note res = that
      obtain bss where "chunks = map Inr bss" "hashed' = (hashed @ bs) @ concat bss"
          "len' = min (len1 + length (concat bss)) U64_MAX" "map_of (cs_staged s') k = Some ((c @ bs) @ concat bss)"
        using ih res True by blast
      then show ?thesis
        by (intro exI [of _ "bs # bss"]) (auto simp: len1_def saturating_add_def min_def)
    qed
    ultimately show ?thesis by blast
  next
    case False
    then show ?thesis
      using 3(2) unfolding unfold by (auto simp: only_staged_def split: sum.splits)
  qed
qed (auto simp: only_staged_def min_def)

section \<open>What the operations leave behind\<close>

text \<open>
  Every outcome: no staging file is left, no blob is changed, and a blob that is new has the digest
  under which it stands, unless someone else put it there.
\<close>

definition publishes_verified :: "(bytes \<Rightarrow> Digest) \<Rightarrow> bytes option \<Rightarrow> cas \<Rightarrow> cas \<Rightarrow> bool" where
  "publishes_verified sha appeared s s' \<longleftrightarrow>
     cs_staged s' = cs_staged s \<and>
     (\<forall>d. map_of (cs_blobs s') d = map_of (cs_blobs s) d \<or>
          map_of (cs_blobs s) d = None \<and>
          (\<exists>b. map_of (cs_blobs s') d = Some b \<and> (sha b = d \<or> appeared = Some b)))"

lemma publishes_verified_same: "cs_blobs s' = cs_blobs s \<Longrightarrow> cs_staged s' = cs_staged s \<Longrightarrow> publishes_verified sha a s s'"
  by (simp add: publishes_verified_def)

lemma drop_unpublished:
  assumes "map_remove k (cs_staged s1) = cs_staged s" and "cs_blobs s1 = cs_blobs s" and "only_staged k s1 s2"
  shows "publishes_verified sha a s (drop_staged k False s2)"
  using assms by (intro publishes_verified_same) (simp_all add: drop_staged_def only_staged_def)

lemma published_verified:
  assumes "map_remove k (cs_staged s1) = cs_staged s" and "cs_blobs s1 = cs_blobs s" and "only_staged k s1 s2"
    and "map_of (cs_staged s2) k = Some c" and "sha c = d" and "map_of (cs_blobs s2) d = None"
  shows "publishes_verified sha a s (drop_staged k True (publish_staged k d s2))"
  using assms by (auto simp: publishes_verified_def drop_staged_def publish_staged_def only_staged_def update_conv')

lemma put_stream_staged_cases:
  assumes "put_stream_staged sha env ed es mx k len hashed s = (r, published, s')"
  shows "\<not> published \<and> s' = s \<or> published \<and> s' = publish_staged k (sha hashed) s \<and> map_of (cs_blobs s) (sha hashed) = None"
  using assms by (auto simp: put_stream_staged_def Let_def split: sum.splits if_splits)

lemma put_stream_publishes:
  assumes "put_stream sha env ed es mx stream s = (r, s')"
  shows "publishes_verified sha None s s'"
proof -
  obtain c s1 where c: "create_staged_blob env InTmp s = (c, s1)" by fastforce
  note cr = create_staged_blob_cases [OF c]
  show ?thesis
  proof (cases c)
    case (Inl e)
    then show ?thesis
      using assms c cr(1,2) by (intro publishes_verified_same) (auto simp: put_stream_def split: sum.splits)
  next
    case (Inr k)
    obtain rl s2 where l: "put_stream_loop env es mx k 0 stream 0 [] s1 = (rl, s2)" by fastforce
    note k = cr(3) [OF Inr]
    note loop = put_stream_loop_staged [OF l conjunct2 [OF k]]
    consider "s' = s" | "s' = drop_staged k False s2"
      | len hashed published s3 where "rl = Inr (len, hashed)"
        "put_stream_staged sha env ed es mx k len hashed s2 = (r, published, s3)" "s' = drop_staged k published s3"
      using assms c Inr l by (auto simp: put_stream_def split: sum.splits prod.splits)
    then show ?thesis
    proof cases
      case 1
      then show ?thesis by (simp add: publishes_verified_same)
    next
      case 2
      then show ?thesis using drop_unpublished [OF conjunct1 [OF k] cr(1)] loop by simp
    next
      case 3
      then have "map_of (cs_staged s2) k = Some hashed" "only_staged k s1 s2" using loop by auto
      then show ?thesis
        using put_stream_staged_cases [OF 3(2)] 3(3) drop_unpublished [OF conjunct1 [OF k] cr(1)]
          published_verified [OF conjunct1 [OF k] cr(1)] by auto
    qed
  qed
qed

lemma put_verified_publishes:
  assumes "put_verified sha env d bs s = (r, s')"
  shows "publishes_verified sha (ce_appeared env) s s'"
proof -
  obtain c s1 where c: "create_staged_blob env InBlobs s = (c, s1)" by fastforce
  note cr = create_staged_blob_cases [OF c]
  show ?thesis
  proof (cases c)
    case (Inl e)
    then show ?thesis
      using assms c cr(1,2) by (intro publishes_verified_same) (auto simp: put_verified_def split: sum.splits if_splits)
  next
    case (Inr k)
    note k = cr(3) [OF Inr]
    obtain rp p s3 where l: "put_verified_staged sha env d bs k s1 = (rp, p, s3)" by (metis prod_cases3)
    have w: "map_of (cs_staged (write_staged k bs s1)) k = Some bs" using k by (simp add: write_staged_def update_conv')
    consider "s' = s" | "s' = drop_staged k p s3" "sha bs = d" "map_of (cs_blobs s) d = None"
      using assms c Inr l by (auto simp: put_verified_def split: sum.splits if_splits)
    then show ?thesis
    proof cases
      case 1
      then show ?thesis by (simp add: publishes_verified_same)
    next
      case 2
      from l consider "\<not> p" "only_staged k s1 s3"
        | "p" "s3 = publish_staged k d (write_staged k bs s1)"
        | b where "\<not> p" "ce_appeared env = Some b"
            "s3 = (write_staged k bs s1)\<lparr>cs_blobs := map_insert d b (cs_blobs s1)\<rparr>"
        using write_staged_only [of k s1 bs]
        by (auto simp: put_verified_staged_def Let_def only_staged_def write_staged_def
            split: sum.splits option.splits prod.splits)
      then show ?thesis
      proof cases
        case 1
        then show ?thesis using drop_unpublished [OF conjunct1 [OF k] cr(1)] \<open>s' = _\<close> by simp
      next
        case c2: 2
        have "map_of (cs_blobs (write_staged k bs s1)) d = None" using 2 cr(1) by (simp add: write_staged_def)
        from published_verified [where sha = sha and d = d, OF conjunct1 [OF k] cr(1) write_staged_only w \<open>sha bs = d\<close> this] 2 c2
        show ?thesis by simp
      next
        case 3
        then show ?thesis
          using 2 k cr(1)
          by (auto simp: publishes_verified_def drop_staged_def write_staged_def update_conv')
      qed
    qed
  qed
qed

lemma put_stream_loop_accepts:
  assumes "\<forall>step. ce_fault env step = None" and "len + length (concat bss) \<le> mx" and "mx \<le> U64_MAX"
    and "case es of Some e \<Rightarrow> len + length (concat bss) \<le> e | None \<Rightarrow> True"
  shows "\<exists>x s'. put_stream_loop env es mx k i (map Inr bss :: (bytes, 'e) result list) len hashed s = (Inr x, s')"
  using assms(2,4)
proof (induction bss arbitrary: i len hashed s)
  case (Cons bs bss)
  have sat: "saturating_add len (length bs) = len + length bs"
    using Cons.prems(1) assms(3) by (simp add: saturating_add_def)
  have "(verify_stream_size (len + length bs)
      (case es of Some e \<Rightarrow> if e < len + length bs then Some e else None | None \<Rightarrow> None) mx :: (unit, 'e PutStreamError) result) = Inr ()"
    using Cons.prems by (auto simp: verify_stream_size_def split: option.splits)
  moreover have "cas_try env (AtWrite i) = Inr ()" using assms(1) by (simp add: cas_try_def)
  moreover have "\<exists>x s'. put_stream_loop env es mx k (Suc i) (map Inr bss :: (bytes, 'e) result list) (len + length bs) (hashed @ bs) (write_staged k bs s) = (Inr x, s')"
    using Cons.prems by (intro Cons.IH) (auto split: option.splits)
  ultimately show ?case by (simp add: Let_def sat)
qed simp

section \<open>Any sequence of operations\<close>

datatype cas_op =
    OpPut "cas_step \<Rightarrow> string option" Digest bytes
  | OpStream "cas_step \<Rightarrow> string option" "Digest option" "nat option" nat "(bytes, string) result list"

primrec cas_apply :: "(bytes \<Rightarrow> Digest) \<Rightarrow> cas \<Rightarrow> cas_op \<Rightarrow> cas" where
  "cas_apply sha s (OpPut fault d bs) = snd (put_verified sha \<lparr>ce_fault = fault, ce_appeared = None\<rparr> d bs s)"
| "cas_apply sha s (OpStream fault ed es mx stream) =
     snd (put_stream sha \<lparr>ce_fault = fault, ce_appeared = None\<rparr> ed es mx stream s)"

definition extends_verified :: "(bytes \<Rightarrow> Digest) \<Rightarrow> cas \<Rightarrow> cas \<Rightarrow> bool" where
  "extends_verified sha s0 s \<longleftrightarrow>
     cs_staged s = cs_staged s0 \<and>
     (\<forall>d b. map_of (cs_blobs s0) d = Some b \<longrightarrow> map_of (cs_blobs s) d = Some b) \<and>
     (\<forall>d b. map_of (cs_blobs s0) d = None \<and> map_of (cs_blobs s) d = Some b \<longrightarrow> sha b = d)"

lemma cas_apply_publishes: "publishes_verified sha None s (cas_apply sha s op)"
  by (cases op) (auto intro: put_stream_publishes put_verified_publishes [of sha "\<lparr>ce_fault = _, ce_appeared = None\<rparr>", simplified]
      simp: prod_eq_iff)

interpretation cas_store: invariant_machine "cas_apply sha" "extends_verified sha s0" for sha s0
proof
  fix s op
  assume "extends_verified sha s0 s"
  with cas_apply_publishes [of sha s op] show "extends_verified sha s0 (cas_apply sha s op)"
    unfolding extends_verified_def publishes_verified_def by (metis not_None_eq option.inject)
qed

section \<open>Properties\<close>



text \<open>
  Without failures, a stream is published exactly when it is within the maximum and has the expected
  size and digest; reading its digest then returns its bytes. Otherwise nothing is published.
\<close>

theorem put_stream_roundtrip:
  fixes sha :: "bytes \<Rightarrow> Digest" and bss :: "bytes list"
  defines "content \<equiv> concat bss"
  assumes "\<forall>step. ce_fault env step = None" and "maximum < U64_MAX"
    and "\<forall>b. map_of (cs_blobs s) (sha content) = Some b \<longrightarrow> b = content"
  shows "if length content \<le> maximum \<and> expected_size \<in> {None, Some (length content)} \<and> expected_digest \<in> {None, Some (sha content)}
    then \<exists>s'. put_stream sha env expected_digest expected_size maximum (map Ok bss :: (bytes, 'e) result list) s = (Ok (sha content), s') \<and>
           cas_read sha env (sha content) s' = Ok content
    else \<exists>e s'. put_stream sha env expected_digest expected_size maximum (map Ok bss :: (bytes, 'e) result list) s = (Err e, s') \<and>
           cs_blobs s' = cs_blobs s"
proof -
  have ok: "cas_try env step = Inr ()" for step using assms(2) by (simp add: cas_try_def)
  have size_ok: "(verify_stream_size n expected_size maximum :: (unit, 'e PutStreamError) result) = Inr () \<longleftrightarrow>
      n \<le> maximum \<and> expected_size \<in> {None, Some n}" for n
    by (auto simp: verify_stream_size_def split: option.splits)
  obtain k s1 where c: "create_staged_blob env InTmp s = (Inr k, s1)"
    by (simp add: create_staged_blob_def Let_def ok)
  note cr = create_staged_blob_cases [OF c]
  have k: "map_of (cs_staged s1) k = Some []" using cr(3) by simp
  obtain rl s2 where l: "put_stream_loop env expected_size maximum k 0 (map Ok bss :: (bytes, 'e) result list) 0 [] s1 = (rl, s2)"
    by fastforce
  note loop = put_stream_loop_staged [OF l k]
  have blobs: "cs_blobs s2 = cs_blobs s" using loop cr(1) by (simp add: only_staged_def)
  show ?thesis
  proof (cases rl)
    case (Inl e)
    then have run: "put_stream sha env expected_digest expected_size maximum (map Ok bss) s = (Inl e, drop_staged k False s2)"
      by (simp add: put_stream_def ok c l)
    have False if "length content \<le> maximum \<and> expected_size \<in> {None, Some (length content)}"
    proof -
      have "\<exists>x s'. put_stream_loop env expected_size maximum k 0 (map Ok bss :: (bytes, 'e) result list) 0 [] s1 = (Inr x, s')"
        by (rule put_stream_loop_accepts [OF assms(2)]) (use that assms(3) in \<open>auto simp: content_def\<close>)
      then show False using l Inl by simp
    qed
    then have "\<not> (length content \<le> maximum \<and> expected_size \<in> {None, Some (length content)})" by blast
    then show ?thesis using run blobs by (auto simp: drop_staged_def)
  next
    case (Inr x)
    obtain len hashed where x: "x = (len, hashed)" by fastforce
    have h: "hashed = content" "len = min (length content) U64_MAX" "map_of (cs_staged s2) k = Some content"
      using loop Inr x by (auto simp: content_def map_eq_conv inj_map_eq_map [of Inr])
    define staged where "staged = (put_stream_staged sha env expected_digest expected_size maximum k len hashed s2
      :: (Digest, 'e PutStreamError) result \<times> bool \<times> cas)"
    have run: "put_stream sha env expected_digest expected_size maximum (map Ok bss) s =
        (fst staged, drop_staged k (fst (snd staged)) (snd (snd staged)))"
      by (simp add: put_stream_def ok c l Inr x staged_def split: prod.splits)
    have len: "len \<le> maximum \<longleftrightarrow> length content \<le> maximum" using h(2) assms(3) by (auto simp: min_def)
    show ?thesis
    proof (cases "length content \<le> maximum \<and> expected_size \<in> {None, Some (length content)} \<and> expected_digest \<in> {None, Some (sha content)}")
      case True
      then have n: "len = length content" using h(2) assms(3) by simp
      have v: "cas_verify sha env (sha content) s2 = Inr (length content)" if "map_of (cs_blobs s) (sha content) \<noteq> None"
        using that assms(2,3,4) True blobs by (auto simp: cas_verify_Inr)
      have z: "(verify_stream_size (length content) expected_size maximum :: (unit, 'e PutStreamError) result) = Inr ()"
        using True size_ok by blast
      have "staged = (if map_of (cs_blobs s) (sha content) \<noteq> None then (Inr (sha content), False, s2)
          else (Inr (sha content), True, publish_staged k (sha content) s2))"
        using True by (cases "map_of (cs_blobs s) (sha content) = None"; cases expected_digest)
          (simp_all add: staged_def put_stream_staged_def h(1) n z v ok blobs map_err_def Let_def)
      then show ?thesis
        using True run assms(2,4) h(3) blobs
        by (auto simp: cas_read_Inr drop_staged_def publish_staged_def update_conv')
    next
      case False
      have z: "(verify_stream_size len expected_size maximum :: (unit, 'e PutStreamError) result) = Inr () \<longleftrightarrow>
          length content \<le> maximum \<and> expected_size \<in> {None, Some (length content)}"
        using size_ok [of len] len h(2) assms(3) by (auto simp: min_def)
      have "\<exists>e. staged = (Inl e, False, s2)"
      proof (cases "verify_stream_size len expected_size maximum :: (unit, 'e PutStreamError) result")
        case (Inl e)
        then show ?thesis by (simp add: staged_def put_stream_staged_def Let_def)
      next
        case (Inr u)
        with False z obtain d where "expected_digest = Some d" "d \<noteq> sha content" by auto
        with Inr show ?thesis by (simp add: staged_def put_stream_staged_def h(1) ok map_err_def Let_def)
      qed
      then show ?thesis using False run blobs by (auto simp: drop_staged_def)
    qed
  qed
qed

theorem put_stream_roundtrip_witness:
  "\<exists>s'. put_stream (\<lambda>bs. bs) \<lparr>ce_fault = \<lambda>_. None, ce_appeared = None\<rparr> (Some [1, 2, 3]) (Some 3) 10
      (map Ok [[1, 2], [3]] :: (bytes, string) result list) \<lparr>cs_blobs = [], cs_staged = [], cs_sequence = 7\<rparr> = (Ok [1, 2, 3], s') \<and>
    cas_read (\<lambda>bs. bs) \<lparr>ce_fault = \<lambda>_. None, ce_appeared = None\<rparr> [1, 2, 3] s' = Ok [1, 2, 3]"
  using put_stream_roundtrip [of "\<lparr>ce_fault = \<lambda>_. None, ce_appeared = None\<rparr>" 10
      "\<lparr>cs_blobs = [], cs_staged = [], cs_sequence = 7\<rparr>" "\<lambda>bs. bs" "[[1, 2], [3]]" "Some 3" "Some [1, 2, 3]"]
  by (simp add: U64_MAX_def)

text \<open>
  The text of a digest parses back to it. A text that parses has 64 characters after its scheme, in pairs that
  are hexadecimal numbers; a pair may also be a plus sign and one digit, which no printed digest has.
\<close>

theorem digest_text_roundtrip:
  "(length d = 32 \<longrightarrow> digest_from_str (digest_display d) = Ok d) \<and>
   (digest_from_str t = Ok d \<longrightarrow> length d = 32) \<and>
   digest_from_str (''sha256:'' @ concat (replicate 32 ''+f'')) = Ok (replicate 32 15)"
proof (intro conjI impI)
  show "digest_from_str (digest_display d) = Ok d" if "length d = 32"
    unfolding digest_from_str_def digest_display_def using that
    by (simp add: strip_prefix_Some [THEN iffD2] length_hex hex_pairs_hex)
  have "length d = length e div 2" if "hex_pairs e = Some d" for e d
    using that by (induction e arbitrary: d rule: hex_pairs.induct) (auto split: option.splits)
  then show "length d = 32" if "digest_from_str t = Ok d"
    using that by (auto simp: digest_from_str_def and_then_Inr_iff ok_or_Inr_iff split: if_splits)
  show "digest_from_str (''sha256:'' @ concat (replicate 32 ''+f'')) = Ok (replicate 32 15)" by code_simp
qed

end
