(* ===== verification/File_Tree.thy ===== *)
theory File_Tree
  imports Host_Path "HOL-Library.Sublist"
begin

text \<open>
  The host's file system as far as the image code uses it (\<^verbatim>\<open>std::fs\<close>): a finite map from absolute
  paths to directories, files and symbolic links, path resolution, and the operations on it.
  Permissions, times and failures of the device are not part of it.
\<close>

type_synonym path = "string list"

datatype node = NDir | NFile nat | NLink string

type_synonym file_tree = "(path, node) assoc"

text \<open>
  \<open>Traversed\<close> marks an operation whose path goes through a symbolic link: where it ends is decided by
  the link's target, and the model goes no further.
\<close>

datatype io_error = NotFound | NotADirectory | AlreadyExists | InvalidInput | NotEmpty
  | PermissionDenied | InvalidData | Traversed

text \<open>The directory that the leading components of a path lead to.\<close>

primrec walk :: "file_tree \<Rightarrow> path \<Rightarrow> string list \<Rightarrow> (path, io_error) result" where
  "walk fs cur [] = Ok cur"
| "walk fs cur (c # cs) =
     (if c = [] \<or> c = ''.'' then walk fs cur cs
      else if c = ''..'' then walk fs (butlast cur) cs
      else
        (case map_of fs (cur @ [c]) of
           None \<Rightarrow> Err NotFound
         | Some NDir \<Rightarrow> walk fs (cur @ [c]) cs
         | Some (NFile _) \<Rightarrow> Err NotADirectory
         | Some (NLink _) \<Rightarrow> Err Traversed))"

text \<open>The place a path names, its last component not followed.\<close>

definition locate :: "file_tree \<Rightarrow> path \<Rightarrow> (path, io_error) result" where
  "locate fs p =
     and_then (walk fs [] (butlast p)) (\<lambda>d.
       Ok (if p = [] \<or> last p = ''.'' then d else if last p = ''..'' then butlast d else d @ [last p]))"

definition symlink_metadata :: "file_tree \<Rightarrow> path \<Rightarrow> (node, io_error) result" where
  "symlink_metadata fs p =
     and_then (locate fs p) (\<lambda>q.
       if q = [] \<or> last p = ''.'' \<or> last p = ''..'' then Ok NDir else ok_or (map_of fs q) NotFound)"

definition create_dir :: "path \<Rightarrow> file_tree \<Rightarrow> (unit, io_error) result \<times> file_tree" where
  "create_dir p fs =
     (case locate fs p of
        Inl e \<Rightarrow> (Err e, fs)
      | Inr q \<Rightarrow>
          if q = [] \<or> last p = ''.'' \<or> last p = ''..'' \<or> map_of fs q \<noteq> None then (Err AlreadyExists, fs)
          else (Ok (), map_insert q NDir fs))"

definition remove_file :: "path \<Rightarrow> file_tree \<Rightarrow> (unit, io_error) result \<times> file_tree" where
  "remove_file p fs =
     (case locate fs p of
        Inl e \<Rightarrow> (Err e, fs)
      | Inr q \<Rightarrow>
          (case map_of fs q of
             None \<Rightarrow> (Err NotFound, fs)
           | Some NDir \<Rightarrow> (Err PermissionDenied, fs)
           | Some _ \<Rightarrow> (Ok (), map_remove q fs)))"

definition remove_below :: "path \<Rightarrow> file_tree \<Rightarrow> file_tree" where
  "remove_below q fs = filter (\<lambda>e. \<not> strict_prefix q (fst e)) fs"

text \<open>
  \<^verbatim>\<open>remove_dir_all\<close> empties the directory first and removes it last; the last step is refused for a
  path that ends in \<open>.\<close> or \<open>..\<close>.
\<close>

definition remove_dir_all :: "path \<Rightarrow> file_tree \<Rightarrow> (unit, io_error) result \<times> file_tree" where
  "remove_dir_all p fs =
     (case locate fs p of
        Inl e \<Rightarrow> (Err e, fs)
      | Inr q \<Rightarrow>
          if last p = ''.'' then (Err InvalidInput, remove_below q fs)
          else if last p = ''..'' then (Err NotEmpty, remove_below q fs)
          else (case map_of fs q of
                  Some NDir \<Rightarrow> (Ok (), map_remove q (remove_below q fs))
                | Some (NFile _) \<Rightarrow> (Err NotADirectory, fs)
                | Some (NLink _) \<Rightarrow> (Ok (), map_remove q fs)
                | None \<Rightarrow> (Err NotFound, fs)))"

definition read_dir :: "path \<Rightarrow> file_tree \<Rightarrow> (path list, io_error) result" where
  "read_dir p fs =
     and_then (walk fs [] p) (\<lambda>q.
       Ok (map (\<lambda>e. p @ [last (fst e)]) (filter (\<lambda>e. fst e \<noteq> [] \<and> butlast (fst e) = q) fs)))"

definition hard_link :: "path \<Rightarrow> path \<Rightarrow> file_tree \<Rightarrow> (unit, io_error) result \<times> file_tree" where
  "hard_link source destination fs =
     (case and_then (symlink_metadata fs source) (\<lambda>n. and_then (locate fs destination) (\<lambda>q. Ok (n, q))) of
        Inl e \<Rightarrow> (Err e, fs)
      | Inr (n, q) \<Rightarrow>
          if n = NDir then (Err PermissionDenied, fs)
          else if q = [] \<or> map_of fs q \<noteq> None then (Err AlreadyExists, fs)
          else (Ok (), map_insert q n fs))"

text \<open>\<^verbatim>\<open>create_dir_all\<close>: the missing directories of the path, outermost first.\<close>

primrec create_dirs :: "path \<Rightarrow> string list \<Rightarrow> file_tree \<Rightarrow> (unit, io_error) result \<times> file_tree" where
  "create_dirs cur [] fs = (Ok (), fs)"
| "create_dirs cur (c # cs) fs =
     (case symlink_metadata fs (cur @ [c]) of
        Inr NDir \<Rightarrow> create_dirs (cur @ [c]) cs fs
      | Inr (NFile _) \<Rightarrow> (Err AlreadyExists, fs)
      | Inr (NLink _) \<Rightarrow> (Err Traversed, fs)
      | Inl NotFound \<Rightarrow>
          (case create_dir (cur @ [c]) fs of
             (Inl e, fs') \<Rightarrow> (Err e, fs')
           | (Inr _, fs') \<Rightarrow> create_dirs (cur @ [c]) cs fs')
      | Inl e \<Rightarrow> (Err e, fs))"

definition create_dir_all :: "path \<Rightarrow> file_tree \<Rightarrow> (unit, io_error) result \<times> file_tree" where
  "create_dir_all p fs = create_dirs [] p fs"

end
