(* ===== verification/Layer.thy ===== *)
theory Layer
  imports File_Tree
begin

text \<open>
  Applying OCI image layers (\<^verbatim>\<open>moraebox-image/src/layer.rs\<close>) to a file tree: media types, the budget
  of an image, path and link checks, whiteouts and the application of a whole archive. The host's file
  tree is a finite map from absolute paths to directories, files and symbolic links; permissions and
  times are not part of it. The \<^verbatim>\<open>tar\<close> crate's reading of an archive and its
  \<^verbatim>\<open>Entry::unpack\<close>, and the decompressors, are parameters.
\<close>

section \<open>Layers\<close>

datatype LayerCompression = CompressionNone | Gzip | Zstd

record LayerLimits =
  max_expanded_bytes :: nat
  max_file_bytes :: nat
  max_entries :: nat

definition layer_limits_default :: LayerLimits where
  "layer_limits_default =
     \<lparr>max_expanded_bytes = 8 * 1024 * 1024 * 1024, max_file_bytes = 2 * 1024 * 1024 * 1024,
      max_entries = 1000000\<rparr>"

record LayerBudget =
  lb_limits :: LayerLimits
  expanded_bytes :: nat
  lb_entries :: nat

definition layer_budget_new :: "LayerLimits \<Rightarrow> LayerBudget" where
  "layer_budget_new limits = \<lparr>lb_limits = limits, expanded_bytes = 0, lb_entries = 0\<rparr>"

datatype LayerError =
    UnsupportedMediaType string
  | UnsafePath string
  | SymlinkParent path
  | UnsafeLink rel_path string
  | MissingLinkTarget rel_path
  | UnsupportedEntryType u8
  | EntryLimitExceeded nat
  | FileSizeLimitExceeded rel_path nat nat
  | ExpandedSizeLimitExceeded nat nat
  | LayerIo io_error

text \<open>What the \<^verbatim>\<open>tar\<close> crate reports of an entry; its accessors can fail on a malformed header.\<close>

datatype EntryType = Regular | Directory | Symlink | Link | OtherType u8

record tar_entry =
  te_path :: "(string, io_error) result"
  te_type :: EntryType
  te_size :: "(nat, io_error) result"
  te_link :: "(string option, io_error) result"

definition layer_from_media_type :: "string \<Rightarrow> (LayerCompression, LayerError) result" where
  "layer_from_media_type media_type =
     (if strip_suffix ''+gzip'' media_type \<noteq> None \<or> strip_suffix ''.gzip'' media_type \<noteq> None then Ok Gzip
      else if ends_with ''+zstd'' media_type then Ok Zstd
      else if strip_suffix ''.tar'' media_type \<noteq> None \<or> contains_str ''layer.v1.tar'' media_type
      then Ok CompressionNone
      else Err (UnsupportedMediaType media_type))"

definition charge :: "tar_entry \<Rightarrow> rel_path \<Rightarrow> LayerBudget \<Rightarrow> (unit, LayerError) result \<times> LayerBudget" where
  "charge entry path b =
     (case checked_add (lb_entries b) 1 of
        None \<Rightarrow> (Err (EntryLimitExceeded (max_entries (lb_limits b))), b)
      | Some n \<Rightarrow>
          let b1 = b\<lparr>lb_entries := n\<rparr> in
          if n > max_entries (lb_limits b) then (Err (EntryLimitExceeded (max_entries (lb_limits b))), b1)
          else if te_type entry \<noteq> Regular then (Ok (), b1)
          else
            (case te_size entry of
               Inl e \<Rightarrow> (Err (LayerIo e), b1)
             | Inr bytes \<Rightarrow>
                 if bytes > max_file_bytes (lb_limits b)
                 then (Err (FileSizeLimitExceeded path bytes (max_file_bytes (lb_limits b))), b1)
                 else
                   let attempted = saturating_add (expanded_bytes b1) bytes in
                   if attempted > max_expanded_bytes (lb_limits b)
                   then (Err (ExpandedSizeLimitExceeded attempted (max_expanded_bytes (lb_limits b))), b1)
                   else (Ok (), b1\<lparr>expanded_bytes := attempted\<rparr>)))"

primrec validated_components :: "string \<Rightarrow> path_component list \<Rightarrow> rel_path \<Rightarrow> (rel_path, LayerError) result" where
  "validated_components p [] safe = Ok safe"
| "validated_components p (c # cs) safe =
     (case c of
        Normal s \<Rightarrow> validated_components p cs (safe @ [s])
      | CurDir \<Rightarrow> validated_components p cs safe
      | ParentDir \<Rightarrow> Err (UnsafePath p)
      | RootDir \<Rightarrow> Err (UnsafePath p))"

definition validated_path :: "string \<Rightarrow> (rel_path, LayerError) result" where
  "validated_path p = validated_components p (components p) []"

primrec entry_type_byte :: "EntryType \<Rightarrow> u8" where
  "entry_type_byte Regular = 48"
| "entry_type_byte Link = 49"
| "entry_type_byte Symlink = 50"
| "entry_type_byte Directory = 53"
| "entry_type_byte (OtherType b) = b"

definition validate_entry_type :: "tar_entry \<Rightarrow> (unit, LayerError) result" where
  "validate_entry_type entry =
     (if te_type entry \<in> {Regular, Directory, Symlink, Link} then Ok ()
      else Err (UnsupportedEntryType (entry_type_byte (te_type entry))))"

primrec link_depth :: "bool \<Rightarrow> path_component list \<Rightarrow> nat \<Rightarrow> bool" where
  "link_depth symlink [] depth \<longleftrightarrow> True"
| "link_depth symlink (c # cs) depth \<longleftrightarrow>
     (case c of
        Normal _ \<Rightarrow> link_depth symlink cs (depth + 1)
      | CurDir \<Rightarrow> link_depth symlink cs depth
      | ParentDir \<Rightarrow> depth > 0 \<and> link_depth symlink cs (depth - 1)
      | RootDir \<Rightarrow> symlink \<and> link_depth symlink cs depth)"

definition validate_link :: "tar_entry \<Rightarrow> rel_path \<Rightarrow> (unit, LayerError) result" where
  "validate_link entry relative =
     (if te_type entry \<noteq> Symlink \<and> te_type entry \<noteq> Link then Ok ()
      else
        and_then (map_err LayerIo (te_link entry)) (\<lambda>link.
        and_then (ok_or link (MissingLinkTarget relative)) (\<lambda>target.
          if te_type entry = Link \<and> is_absolute target then Err (UnsafeLink relative target)
          else
            let base = (if is_absolute target \<or> te_type entry = Link then [] else rel_parent relative)
            in if link_depth (te_type entry = Symlink) (components target) (length base) then Ok ()
               else Err (UnsafeLink relative target))))"

definition remove_existing :: "path \<Rightarrow> file_tree \<Rightarrow> (unit, LayerError) result \<times> file_tree" where
  "remove_existing p fs =
     (case symlink_metadata fs p of
        Inr NDir \<Rightarrow> (case remove_dir_all p fs of (r, fs') \<Rightarrow> (map_err LayerIo r, fs'))
      | Inr _ \<Rightarrow> (case remove_file p fs of (r, fs') \<Rightarrow> (map_err LayerIo r, fs'))
      | Inl NotFound \<Rightarrow> (Ok (), fs)
      | Inl e \<Rightarrow> (Err (LayerIo e), fs))"

text \<open>
  \<open>relative\<close> is a list of names because the code only passes paths built from normal components, so the
  branch for other components never applies.
\<close>

primrec safe_parents :: "path \<Rightarrow> rel_path \<Rightarrow> file_tree \<Rightarrow> (unit, LayerError) result \<times> file_tree" where
  "safe_parents cur [] fs = (Ok (), fs)"
| "safe_parents cur (c # cs) fs =
     (let p = cur @ [c] in
      case symlink_metadata fs p of
        Inr (NLink _) \<Rightarrow> (Err (SymlinkParent p), fs)
      | Inr (NFile _) \<Rightarrow>
          (case remove_existing p fs of
             (Inl e, fs1) \<Rightarrow> (Err e, fs1)
           | (Inr _, fs1) \<Rightarrow>
               (case create_dir p fs1 of
                  (Inl e, fs2) \<Rightarrow> (Err (LayerIo e), fs2)
                | (Inr _, fs2) \<Rightarrow> safe_parents p cs fs2))
      | Inr NDir \<Rightarrow> safe_parents p cs fs
      | Inl NotFound \<Rightarrow>
          (case create_dir p fs of
             (Inl e, fs1) \<Rightarrow> (Err (LayerIo e), fs1)
           | (Inr _, fs1) \<Rightarrow> safe_parents p cs fs1)
      | Inl e \<Rightarrow> (Err (LayerIo e), fs))"

definition ensure_safe_parents :: "path \<Rightarrow> rel_path \<Rightarrow> file_tree \<Rightarrow> (unit, LayerError) result \<times> file_tree" where
  "ensure_safe_parents root relative fs = safe_parents root relative fs"

primrec remove_each :: "path list \<Rightarrow> file_tree \<Rightarrow> (unit, LayerError) result \<times> file_tree" where
  "remove_each [] fs = (Ok (), fs)"
| "remove_each (p # ps) fs =
     (case remove_existing p fs of
        (Inl e, fs1) \<Rightarrow> (Err e, fs1)
      | (Inr _, fs1) \<Rightarrow> remove_each ps fs1)"

text \<open>A name that is no UTF-8 is no whiteout.\<close>

definition apply_whiteout ::
  "path \<Rightarrow> rel_path \<Rightarrow> file_tree \<Rightarrow> (bool, LayerError) result \<times> file_tree" where
  "apply_whiteout root relative fs =
     (case Option.bind (rel_file_name relative) to_str of
        None \<Rightarrow> (Ok False, fs)
      | Some name \<Rightarrow>
          (case strip_prefix ''.wh.'' name of
             None \<Rightarrow> (Ok False, fs)
           | Some whiteout \<Rightarrow>
               (case ensure_safe_parents root (rel_parent relative) fs of
                  (Inl e, fs1) \<Rightarrow> (Err e, fs1)
                | (Inr _, fs1) \<Rightarrow>
                    if whiteout = ''.wh..opq'' \<or> name = ''.wh..wh..opq''
                    then
                      (case read_dir (root @ rel_parent relative) fs1 of
                         Inl e \<Rightarrow> (Err (LayerIo e), fs1)
                       | Inr children \<Rightarrow>
                           (case remove_each children fs1 of (r, fs2) \<Rightarrow> (and_then r (\<lambda>_. Ok True), fs2)))
                    else if whiteout \<noteq> []
                    then
                      (case remove_existing (root @ rel_parent relative @ [whiteout]) fs1 of
                         (r, fs2) \<Rightarrow> (and_then r (\<lambda>_. Ok True), fs2))
                    else (Err (UnsafePath (join_with ''/'' relative)), fs1))))"

type_synonym unpacker = "tar_entry \<Rightarrow> path \<Rightarrow> file_tree \<Rightarrow> (unit, io_error) result \<times> file_tree"

text \<open>The hard-link branch of \<^verbatim>\<open>apply_tar\<close>.\<close>

definition apply_hard_link ::
  "path \<Rightarrow> tar_entry \<Rightarrow> rel_path \<Rightarrow> file_tree \<Rightarrow> (unit, LayerError) result \<times> file_tree" where
  "apply_hard_link root entry relative fs =
     (case and_then (map_err LayerIo (te_link entry)) (\<lambda>link.
            and_then (ok_or link (MissingLinkTarget relative)) validated_path) of
        Inl e \<Rightarrow> (Err e, fs)
      | Inr target \<Rightarrow>
          (case ensure_safe_parents root (rel_parent target) fs of
             (Inl e, fs1) \<Rightarrow> (Err e, fs1)
           | (Inr _, fs1) \<Rightarrow>
               (case remove_existing (root @ relative) fs1 of
                  (Inl e, fs2) \<Rightarrow> (Err e, fs2)
                | (Inr _, fs2) \<Rightarrow>
                    (case hard_link (root @ target) (root @ relative) fs2 of
                       (r, fs3) \<Rightarrow> (map_err LayerIo r, fs3)))))"

text \<open>One entry, from the whiteout check on.\<close>

definition apply_entry ::
  "unpacker \<Rightarrow> path \<Rightarrow> tar_entry \<Rightarrow> rel_path \<Rightarrow> file_tree \<Rightarrow> (unit, LayerError) result \<times> file_tree" where
  "apply_entry unpack root entry relative fs =
     (case apply_whiteout root relative fs of
        (Inl e, fs1) \<Rightarrow> (Err e, fs1)
      | (Inr True, fs1) \<Rightarrow> (Ok (), fs1)
      | (Inr False, fs1) \<Rightarrow>
          (case validate_entry_type entry of
             Inl e \<Rightarrow> (Err e, fs1)
           | Inr _ \<Rightarrow>
               (case ensure_safe_parents root (rel_parent relative) fs1 of
                  (Inl e, fs2) \<Rightarrow> (Err e, fs2)
                | (Inr _, fs2) \<Rightarrow>
                    (case validate_link entry relative of
                       Inl e \<Rightarrow> (Err e, fs2)
                     | Inr _ \<Rightarrow>
                         if te_type entry = Link then apply_hard_link root entry relative fs2
                         else
                           (case (if te_type entry = Directory then (Ok (), fs2)
                                  else remove_existing (root @ relative) fs2) of
                              (Inl e, fs3) \<Rightarrow> (Err e, fs3)
                            | (Inr _, fs3) \<Rightarrow>
                                (case unpack entry (root @ relative) fs3 of
                                   (r, fs4) \<Rightarrow> (map_err LayerIo r, fs4)))))))"

primrec apply_tar ::
  "unpacker \<Rightarrow> path \<Rightarrow> (tar_entry, io_error) result list \<Rightarrow> LayerBudget \<Rightarrow> file_tree
     \<Rightarrow> (unit, LayerError) result \<times> LayerBudget \<times> file_tree" where
  "apply_tar unpack root [] b fs = (Ok (), b, fs)"
| "apply_tar unpack root (r # rs) b fs =
     (case and_then (map_err LayerIo r) (\<lambda>entry.
            and_then (map_err LayerIo (te_path entry)) (\<lambda>p.
            and_then (validated_path p) (\<lambda>relative. Ok (entry, relative)))) of
        Inl e \<Rightarrow> (Err e, b, fs)
      | Inr (entry, relative) \<Rightarrow>
          (case charge entry relative b of
             (Inl e, b1) \<Rightarrow> (Err e, b1, fs)
           | (Inr _, b1) \<Rightarrow>
               if relative = [] then apply_tar unpack root rs b1 fs
               else
                 (case apply_entry unpack root entry relative fs of
                    (Inl e, fs1) \<Rightarrow> (Err e, b1, fs1)
                  | (Inr _, fs1) \<Rightarrow> apply_tar unpack root rs b1 fs1)))"

text \<open>\<open>decode\<close> opens the archive with the decompressor and yields its entries.\<close>

definition apply_layer_with_budget ::
  "(LayerCompression \<Rightarrow> 'r \<Rightarrow> ((tar_entry, io_error) result list, io_error) result) \<Rightarrow> unpacker
     \<Rightarrow> 'r \<Rightarrow> LayerCompression \<Rightarrow> path \<Rightarrow> LayerBudget \<Rightarrow> file_tree
     \<Rightarrow> (unit, LayerError) result \<times> LayerBudget \<times> file_tree" where
  "apply_layer_with_budget decode unpack reader compression root b fs =
     (case create_dir_all root fs of
        (Inl e, fs1) \<Rightarrow> (Err (LayerIo e), b, fs1)
      | (Inr _, fs1) \<Rightarrow>
          (case decode compression reader of
             Inl e \<Rightarrow> (Err (LayerIo e), b, fs1)
           | Inr entries \<Rightarrow> apply_tar unpack root entries b fs1))"

definition apply_layer ::
  "(LayerCompression \<Rightarrow> 'r \<Rightarrow> ((tar_entry, io_error) result list, io_error) result) \<Rightarrow> unpacker
     \<Rightarrow> 'r \<Rightarrow> LayerCompression \<Rightarrow> path \<Rightarrow> file_tree
     \<Rightarrow> (unit, LayerError) result \<times> LayerBudget \<times> file_tree" where
  "apply_layer decode unpack reader compression root fs =
     apply_layer_with_budget decode unpack reader compression root (layer_budget_new layer_limits_default) fs"

section \<open>Where the operations write\<close>

definition changes :: "(path \<Rightarrow> bool) \<Rightarrow> file_tree \<Rightarrow> file_tree \<Rightarrow> bool" where
  "changes P fs fs' \<longleftrightarrow>
     (\<forall>q. \<not> P q \<longrightarrow> map_of fs' q = map_of fs q) \<and>
     (\<forall>q. map_of fs' q \<noteq> None \<longrightarrow> map_of fs q \<noteq> None \<or> list_all normal_name q)"

primrec dir_chain :: "file_tree \<Rightarrow> path \<Rightarrow> string list \<Rightarrow> bool" where
  "dir_chain fs cur [] \<longleftrightarrow> True"
| "dir_chain fs cur (c # cs) \<longleftrightarrow> map_of fs (cur @ [c]) = Some NDir \<and> dir_chain fs (cur @ [c]) cs"

definition names_normal :: "file_tree \<Rightarrow> bool" where
  "names_normal fs \<longleftrightarrow> (\<forall>q. map_of fs q \<noteq> None \<longrightarrow> list_all normal_name q)"

text \<open>A tree in which \<open>root\<close> is a directory that is reached without a symbolic link.\<close>

definition root_ready :: "path \<Rightarrow> file_tree \<Rightarrow> bool" where
  "root_ready root fs \<longleftrightarrow> dir_chain fs [] root \<and> list_all normal_name root \<and> names_normal fs"

lemma changes_refl [simp]: "changes P fs fs"
  by (simp add: changes_def)

lemma changes_trans: "changes P a b \<Longrightarrow> changes P b c \<Longrightarrow> changes P a c"
  unfolding changes_def by metis

lemma changes_mono: "changes P a b \<Longrightarrow> (\<And>q. P q \<Longrightarrow> Q q) \<Longrightarrow> changes Q a b"
  unfolding changes_def by blast

lemma changes_insert: "list_all normal_name p \<Longrightarrow> P p \<Longrightarrow> changes P fs (map_insert p n fs)"
  by (auto simp: changes_def update_conv')

lemma changes_remove: "P p \<Longrightarrow> changes P fs (map_remove p fs)"
  by (auto simp: changes_def delete_conv')

lemma map_of_filter_key: "map_of (filter (\<lambda>e. R (fst e)) fs) q = (if R q then map_of fs q else None)"
  by (induction fs) auto

lemma map_of_remove_below:
  "map_of (remove_below p fs) q = (if strict_prefix p q then None else map_of fs q)"
  using map_of_filter_key [of "\<lambda>k. \<not> strict_prefix p k" fs q] by (simp add: remove_below_def)

lemma changes_remove_below: "changes (strict_prefix p) fs (remove_below p fs)"
  by (auto simp: changes_def map_of_remove_below)

lemma dir_chain_append: "dir_chain fs cur (a @ b) \<longleftrightarrow> dir_chain fs cur a \<and> dir_chain fs (cur @ a) b"
  by (induction a arbitrary: cur) auto

lemma dir_chain_mono:
  "dir_chain fs cur cs \<Longrightarrow> (\<And>q. prefix q (cur @ cs) \<Longrightarrow> map_of fs q = Some NDir \<Longrightarrow> map_of fs' q = Some NDir) \<Longrightarrow>
   dir_chain fs' cur cs"
proof (induction cs arbitrary: cur)
  case (Cons c cs)
  have "prefix (cur @ [c]) (cur @ c # cs)" by simp
  with Cons.IH [of "cur @ [c]"] Cons.prems show ?case by simp
qed simp

lemma walk_chain: "dir_chain fs cur cs \<Longrightarrow> list_all normal_name cs \<Longrightarrow> walk fs cur cs = Inr (cur @ cs)"
  by (induction cs arbitrary: cur) (simp_all add: normal_name_def)

lemma locate_chain:
  assumes "dir_chain fs [] d" and "list_all normal_name d" and "normal_name c"
  shows "locate fs (d @ [c]) = Inr (d @ [c])"
  using walk_chain [OF assms(1,2)] assms(3) by (simp add: locate_def normal_name_def)

lemma metadata_chain:
  assumes "dir_chain fs [] d" and "list_all normal_name d" and "normal_name c"
  shows "symlink_metadata fs (d @ [c]) = ok_or (map_of fs (d @ [c])) NotFound"
  using locate_chain [OF assms] assms(3) by (simp add: symlink_metadata_def normal_name_def)

lemma create_dir_chain:
  assumes "dir_chain fs [] d" and "list_all normal_name d" and "normal_name c"
  shows "create_dir (d @ [c]) fs =
    (if map_of fs (d @ [c]) \<noteq> None then (Inl AlreadyExists, fs) else (Inr (), map_insert (d @ [c]) NDir fs))"
  using locate_chain [OF assms] assms(3) by (simp add: create_dir_def normal_name_def)

lemma remove_existing_chain:
  assumes "dir_chain fs [] d" and "list_all normal_name d" and "normal_name c"
  shows "remove_existing (d @ [c]) fs =
    (case map_of fs (d @ [c]) of
       None \<Rightarrow> (Inr (), fs)
     | Some NDir \<Rightarrow> (Inr (), map_remove (d @ [c]) (remove_below (d @ [c]) fs))
     | Some _ \<Rightarrow> (Inr (), map_remove (d @ [c]) fs))"
  using metadata_chain [OF assms] locate_chain [OF assms] assms(3)
  by (auto simp: remove_existing_def remove_dir_all_def remove_file_def normal_name_def
      split: option.split node.split)

lemma remove_existing_changes:
  assumes "dir_chain fs [] d" and "list_all normal_name d" and "normal_name c"
  shows "changes (prefix (d @ [c])) fs (snd (remove_existing (d @ [c]) fs))"
proof -
  have "changes (prefix (d @ [c])) fs (map_remove (d @ [c]) (remove_below (d @ [c]) fs))"
    by (rule changes_trans [OF changes_mono [OF changes_remove_below] changes_remove])
      (auto simp: strict_prefix_def)
  then show ?thesis
    unfolding remove_existing_chain [OF assms]
    by (auto simp: changes_remove split: option.split node.split)
qed

text \<open>A change at or below \<open>d / c\<close> leaves the directories on the way to it.\<close>

lemma chain_changes:
  assumes "dir_chain fs [] d" and "changes (prefix (d @ [c])) fs fs'"
  shows "dir_chain fs' [] d"
proof (rule dir_chain_mono [OF assms(1)])
  fix q assume "prefix q ([] @ d)" and "map_of fs q = Some NDir"
  moreover from this have "\<not> prefix (d @ [c]) q"
    by (metis append_Nil not_Cons_self2 prefix_order.trans same_prefix_nil append_self_conv prefix_order.antisym prefixI)
  ultimately show "map_of fs' q = Some NDir" using assms(2) by (simp add: changes_def)
qed

lemma safe_parents_spec:
  assumes "dir_chain fs [] cur" and "list_all normal_name (cur @ cs)"
  shows "changes (strict_prefix cur) fs (snd (safe_parents cur cs fs)) \<and>
    (is_ok (fst (safe_parents cur cs fs)) \<longrightarrow> dir_chain (snd (safe_parents cur cs fs)) [] (cur @ cs)) \<and>
    (\<forall>q. map_of fs q = Some NDir \<longrightarrow> map_of (snd (safe_parents cur cs fs)) q = Some NDir)"
  using assms
proof (induction cs arbitrary: cur fs)
  case Nil
  then show ?case by simp
next
  case (Cons c cs)
  define p where "p = cur @ [c]"
  have nn: "list_all normal_name cur" "normal_name c" "list_all normal_name (p @ cs)" "list_all normal_name p"
    using Cons.prems(2) by (simp_all add: p_def)
  note chain = Cons.prems(1)
  have step: ?case if fs1: "changes (prefix p) fs fs1" "map_of fs1 p = Some NDir"
      "\<And>q. map_of fs q = Some NDir \<Longrightarrow> map_of fs1 q = Some NDir"
      and eq: "safe_parents cur (c # cs) fs = safe_parents p cs fs1" for fs1
  proof -
    have "dir_chain fs1 [] p"
      using chain_changes [OF chain, of c fs1] fs1(1,2) by (simp add: p_def dir_chain_append)
    note IH = Cons.IH [OF this nn(3)]
    have sub: "prefix p q \<Longrightarrow> strict_prefix cur q" "strict_prefix p q \<Longrightarrow> strict_prefix cur q" for q
      by (auto simp: p_def strict_prefix_def prefix_def)
    have "changes (strict_prefix cur) fs (snd (safe_parents p cs fs1))"
      by (rule changes_trans [OF changes_mono [OF fs1(1)] changes_mono [OF IH [THEN conjunct1]]]) (use sub in auto)
    with IH fs1(3) show ?thesis unfolding eq p_def by simp
  qed
  have cr: "changes (prefix p) fs0 (map_insert p NDir fs0)" for fs0 using nn(4) by (simp add: changes_insert)
  have meta: "symlink_metadata fs p = ok_or (map_of fs p) NotFound"
    unfolding p_def by (rule metadata_chain [OF chain nn(1,2)])
  show ?case
  proof (cases "map_of fs p")
    case None
    have "create_dir p fs = (Inr (), map_insert p NDir fs)"
      using create_dir_chain [OF chain nn(1,2)] None by (simp add: p_def)
    then have "safe_parents cur (c # cs) fs = safe_parents p cs (map_insert p NDir fs)"
      using meta None by (simp add: Let_def flip: p_def)
    from step [OF cr _ _ this] show ?thesis by (simp add: update_conv')
  next
    case (Some n)
    show ?thesis
    proof (cases n)
      case NDir
      then have "safe_parents cur (c # cs) fs = safe_parents p cs fs"
        using meta Some by (simp add: Let_def flip: p_def)
      from step [OF changes_refl _ _ this] show ?thesis using Some NDir by simp
    next
      case (NFile f)
      define fs0 where "fs0 = map_remove p fs"
      have r: "remove_existing p fs = (Inr (), fs0)"
        using remove_existing_chain [OF chain nn(1,2)] Some NFile by (simp add: p_def fs0_def)
      have c0: "changes (prefix p) fs fs0" unfolding fs0_def by (simp add: changes_remove)
      have "dir_chain fs0 [] cur" using chain_changes [OF chain] c0 by (simp add: p_def)
      then have "create_dir p fs0 = (Inr (), map_insert p NDir fs0)"
        using create_dir_chain [OF _ nn(1,2), of fs0] by (simp add: p_def fs0_def delete_conv')
      then have "safe_parents cur (c # cs) fs = safe_parents p cs (map_insert p NDir fs0)"
        using meta Some NFile r by (simp add: Let_def flip: p_def)
      from step [OF changes_trans [OF c0 cr] _ _ this] show ?thesis
        using Some NFile by (auto simp: update_conv' fs0_def delete_conv')
    next
      case (NLink t)
      then show ?thesis using meta Some by (simp add: Let_def flip: p_def)
    qed
  qed
qed

section \<open>A layer stays in its root\<close>

definition stays_in :: "path \<Rightarrow> file_tree \<Rightarrow> file_tree \<Rightarrow> bool" where
  "stays_in root fs fs' \<longleftrightarrow> changes (strict_prefix root) fs fs' \<and> root_ready root fs'"

lemma root_ready_changes:
  assumes "root_ready root fs" and "changes (strict_prefix root) fs fs'"
  shows "root_ready root fs'"
proof -
  have "dir_chain fs' [] root"
  proof (rule dir_chain_mono)
    show "dir_chain fs [] root" using assms(1) by (simp add: root_ready_def)
    fix q assume "prefix q ([] @ root)" and "map_of fs q = Some NDir"
    then show "map_of fs' q = Some NDir"
      using assms(2) by (auto simp: changes_def strict_prefix_def dest: prefix_order.antisym)
  qed
  with assms show ?thesis by (auto simp: root_ready_def names_normal_def changes_def)
qed

lemma stays_inI: "root_ready root fs \<Longrightarrow> changes (strict_prefix root) fs fs' \<Longrightarrow> stays_in root fs fs'"
  by (simp add: stays_in_def root_ready_changes)

lemma stays_in_refl: "root_ready root fs \<Longrightarrow> stays_in root fs fs"
  by (simp add: stays_in_def)

lemma stays_in_trans: "stays_in root a b \<Longrightarrow> stays_in root b c \<Longrightarrow> stays_in root a c"
  unfolding stays_in_def by (blast intro: changes_trans)

lemma stays_in_at:
  assumes "root_ready root fs" and "changes (prefix (root @ rel)) fs fs'" and "rel \<noteq> []"
  shows "stays_in root fs fs'"
  using assms(1) by (rule stays_inI)
    (rule changes_mono [OF assms(2)], use assms(3) in \<open>auto simp: strict_prefix_def prefix_def\<close>)

lemma ensure_safe_parents_stays_in:
  assumes "root_ready root fs" and "list_all normal_name rel"
  shows "stays_in root fs (snd (ensure_safe_parents root rel fs))"
    and "is_ok (fst (ensure_safe_parents root rel fs)) \<Longrightarrow> dir_chain (snd (ensure_safe_parents root rel fs)) [] (root @ rel)"
    and "map_of fs q = Some NDir \<Longrightarrow> map_of (snd (ensure_safe_parents root rel fs)) q = Some NDir"
  using safe_parents_spec [of fs root rel] assms stays_inI [OF assms(1)]
  by (simp_all add: root_ready_def ensure_safe_parents_def)

lemma remove_existing_stays_in:
  assumes "root_ready root fs" and "dir_chain fs [] (root @ rel)" and "list_all normal_name rel" and "normal_name c"
  shows "stays_in root fs (snd (remove_existing (root @ rel @ [c]) fs))"
    and "dir_chain (snd (remove_existing (root @ rel @ [c]) fs)) [] (root @ rel)"
proof -
  have nn: "list_all normal_name (root @ rel)" using assms(1,3) by (simp add: root_ready_def)
  note ch = remove_existing_changes [OF assms(2) nn assms(4)]
  then show "stays_in root fs (snd (remove_existing (root @ rel @ [c]) fs))"
    using stays_in_at [OF assms(1), of "rel @ [c]"] by simp
  show "dir_chain (snd (remove_existing (root @ rel @ [c]) fs)) [] (root @ rel)"
    using chain_changes [OF assms(2) ch] by simp
qed

lemma remove_each_stays_in:
  assumes "root_ready root fs" and "dir_chain fs [] (root @ rel)" and "list_all normal_name rel"
    and "list_all normal_name cs"
  shows "stays_in root fs (snd (remove_each (map (\<lambda>c. root @ rel @ [c]) cs) fs))"
  using assms
proof (induction cs arbitrary: fs)
  case Nil
  then show ?case by (simp add: stays_in_refl)
next
  case (Cons c cs)
  obtain r fs1 where r: "remove_existing (root @ rel @ [c]) fs = (r, fs1)" by fastforce
  have c: "stays_in root fs fs1" "dir_chain fs1 [] (root @ rel)"
    using remove_existing_stays_in [OF Cons.prems(1-3), of c] Cons.prems(4) r by simp_all
  then have "stays_in root fs1 (snd (remove_each (map (\<lambda>c. root @ rel @ [c]) cs) fs1))"
    using Cons.IH [of fs1] Cons.prems(3,4) by (simp add: stays_in_def)
  with c(1) r show ?case by (cases r) (auto intro: stays_in_trans)
qed

lemma read_dir_children:
  assumes "root_ready root fs" and "dir_chain fs [] (root @ rel)" and "list_all normal_name rel"
  obtains cs where "read_dir (root @ rel) fs = Inr (map (\<lambda>c. root @ rel @ [c]) cs)" and "list_all normal_name cs"
proof -
  define es where "es = filter (\<lambda>e. fst e \<noteq> [] \<and> butlast (fst e) = root @ rel) fs"
  have "walk fs [] (root @ rel) = Inr (root @ rel)"
    using walk_chain [OF assms(2)] assms(1,3) by (simp add: root_ready_def)
  then have "read_dir (root @ rel) fs = Inr (map (\<lambda>c. root @ rel @ [c]) (map (\<lambda>e. last (fst e)) es))"
    by (simp add: read_dir_def es_def o_def)
  moreover have "normal_name (last (fst e))" if "e \<in> set es" for e
  proof -
    have "fst e \<noteq> []" and "map_of fs (fst e) \<noteq> None"
      using that by (auto simp: es_def map_of_eq_None_iff)
    then show ?thesis
      using assms(1) by (auto simp: root_ready_def names_normal_def list_all_iff)
  qed
  ultimately show thesis
    by (intro that [of "map (\<lambda>e. last (fst e)) es"]) (auto simp: list_all_iff)
qed

lemma list_all_rel: "list_all normal_name rel \<Longrightarrow> rel \<noteq> [] \<Longrightarrow> list_all normal_name (rel_parent rel) \<and> normal_name (last rel)"
  by (cases rel rule: rev_cases) (simp_all add: rel_parent_def)

lemma strip_wh_normal:
  assumes "normal_name name" and "strip_prefix ''.wh.'' name = Some w" and "w \<noteq> []" and "w \<noteq> ''.''" and "w \<noteq> ''..''"
  shows "normal_name w"
proof -
  have "name = ''.wh.'' @ w" using assms(2) unfolding strip_prefix_Some .
  then have "CHR ''/'' \<notin> set w" using assms(1) unfolding normal_name_def by simp
  with assms(3-5) show ?thesis by (simp add: normal_name_def)
qed

text \<open>
  The names \<open>.\<close> and \<open>..\<close> of a whiteout empty the directory itself and its parent; only at the top of the
  layer is the parent outside the root.
\<close>

lemma remove_existing_dots:
  assumes "dir_chain fs [] d" and "list_all normal_name d"
  shows "snd (remove_existing (d @ [''.'']) fs) = remove_below d fs"
    and "snd (remove_existing (d @ [''..'']) fs) = remove_below (butlast d) fs"
  using walk_chain [OF assms]
  by (simp_all add: remove_existing_def symlink_metadata_def locate_def remove_dir_all_def)

lemma remove_whiteout_stays_in:
  assumes "root_ready root fs" and "dir_chain fs [] (root @ rel)" and "list_all normal_name rel"
    and "normal_name w \<or> w = ''.'' \<or> w = ''..'' \<and> rel \<noteq> []"
  shows "stays_in root fs (snd (remove_existing (root @ rel @ [w]) fs))"
proof -
  have nn: "list_all normal_name (root @ rel)" using assms(1,3) by (simp add: root_ready_def)
  have below: "stays_in root fs (remove_below (root @ q) fs)" for q
    using assms(1) by (rule stays_inI) (rule changes_mono [OF changes_remove_below], auto simp: strict_prefix_def prefix_def)
  from assms(4) consider "normal_name w" | "w = ''.''" | "w = ''..''" "rel \<noteq> []" by blast
  then show ?thesis
  proof cases
    case 1
    then show ?thesis using remove_existing_stays_in(1) [OF assms(1-3)] by simp
  next
    case 2
    then show ?thesis using remove_existing_dots(1) [OF assms(2) nn] below [of rel] by simp
  next
    case 3
    then show ?thesis using remove_existing_dots(2) [OF assms(2) nn] below [of "butlast rel"] by (simp add: butlast_append)
  qed
qed

lemma apply_whiteout_stays_in:
  assumes "root_ready root fs" and "list_all normal_name rel" and "rel \<noteq> []"
    and "rel \<noteq> [''.wh...'']"
  shows "stays_in root fs (snd (apply_whiteout root rel fs))"
proof (cases "Option.bind (rel_file_name rel) to_str")
  case None
  then show ?thesis by (simp add: apply_whiteout_def stays_in_refl assms(1))
next
  case (Some name)
  have name: "name = last rel" using Some assms(3) to_str_Some by (auto simp: rel_file_name_def)
  define parent where "parent = rel_parent rel"
  have nn: "list_all normal_name parent" "normal_name name"
    using list_all_rel [OF assms(2,3)] by (simp_all add: parent_def name)
  show ?thesis
  proof (cases "strip_prefix ''.wh.'' name")
    case None
    with Some show ?thesis by (simp add: apply_whiteout_def stays_in_refl assms(1))
  next
    case w: (Some w)
    have nw: "name = ''.wh.'' @ w" using w unfolding strip_prefix_Some .
    obtain r fs1 where r: "ensure_safe_parents root parent fs = (r, fs1)" by fastforce
    have c1: "stays_in root fs fs1" using ensure_safe_parents_stays_in(1) [OF assms(1) nn(1)] r by simp
    show ?thesis
    proof (cases r)
      case (Inl e)
      with Some w r c1 show ?thesis by (simp add: apply_whiteout_def parent_def)
    next
      case (Inr u)
      have ch: "dir_chain fs1 [] (root @ parent)"
        using ensure_safe_parents_stays_in(2) [OF assms(1) nn(1)] r Inr by simp
      have rr: "root_ready root fs1" using c1 by (simp add: stays_in_def)
      have un: "apply_whiteout root rel fs =
          (if w = ''.wh..opq'' \<or> name = ''.wh..wh..opq''
           then (case read_dir (root @ parent) fs1 of
                   Inl e \<Rightarrow> (Inl (LayerIo e), fs1)
                 | Inr children \<Rightarrow> (case remove_each children fs1 of (r, fs2) \<Rightarrow> (and_then r (\<lambda>_. Inr True), fs2)))
           else if w \<noteq> [] then (case remove_existing (root @ parent @ [w]) fs1 of (r, fs2) \<Rightarrow> (and_then r (\<lambda>_. Inr True), fs2))
           else (Inl (UnsafePath (join_with ''/'' rel)), fs1))"
        unfolding apply_whiteout_def Some option.case w parent_def [symmetric] r Inr prod.case sum.case ..
      have each: "stays_in root fs1 (snd (case read_dir (root @ parent) fs1 of
                   Inl e \<Rightarrow> (Inl (LayerIo e), fs1)
                 | Inr children \<Rightarrow> (case remove_each children fs1 of (r, fs2) \<Rightarrow> (and_then r (\<lambda>_. Inr True), fs2))))"
        by (rule read_dir_children [OF rr ch nn(1)])
          (use remove_each_stays_in [OF rr ch nn(1)] in \<open>auto simp: case_prod_beta\<close>)
      have one: "stays_in root fs1 (snd (case remove_existing (root @ parent @ [w]) fs1 of (r, fs2) \<Rightarrow> (and_then r (\<lambda>_. Inr True), fs2)))"
        if "w \<noteq> []"
      proof -
        have "parent \<noteq> []" if "w = ''..''"
        proof
          assume "parent = []"
          then have "rel = [name]" using assms(3) name by (simp add: parent_def rel_parent_def) (metis append_butlast_last_id append_Nil)
          with that nw assms(4) show False by simp
        qed
        then have "normal_name w \<or> w = ''.'' \<or> w = ''..'' \<and> parent \<noteq> []"
          using strip_wh_normal [OF nn(2) w that] by blast
        from remove_whiteout_stays_in [OF rr ch nn(1) this] show ?thesis by (simp add: case_prod_beta)
      qed
      have "stays_in root fs1 (snd (apply_whiteout root rel fs))"
      proof (cases "w = ''.wh..opq'' \<or> name = ''.wh..wh..opq''")
        case True
        show ?thesis unfolding un if_P [OF True] by (rule each)
      next
        case False
        show ?thesis unfolding un if_not_P [OF False] using one stays_in_refl [OF rr] by (cases "w = []") simp_all
      qed
      with c1 show ?thesis by (rule stays_in_trans)
    qed
  qed
qed

text \<open>What the \<^verbatim>\<open>tar\<close> crate documents of \<^verbatim>\<open>Entry::unpack\<close>: it writes the entry at the given path.\<close>

definition unpacks_at :: "unpacker \<Rightarrow> bool" where
  "unpacks_at unpack \<longleftrightarrow> (\<forall>entry p fs q. q \<noteq> p \<longrightarrow> map_of (snd (unpack entry p fs)) q = map_of fs q)"

lemma unpack_changes:
  assumes "unpacks_at unpack" and "list_all normal_name p"
  shows "changes (prefix p) fs (snd (unpack entry p fs))"
  unfolding changes_def
proof (intro conjI allI impI)
  fix q assume "\<not> prefix p q"
  then show "map_of (snd (unpack entry p fs)) q = map_of fs q"
    using assms(1) unfolding unpacks_at_def by (metis prefix_order.refl)
next
  fix q assume "map_of (snd (unpack entry p fs)) q \<noteq> None"
  then show "map_of fs q \<noteq> None \<or> list_all normal_name q"
    using assms unfolding unpacks_at_def by metis
qed

lemma validated_components_normal:
  "validated_components p cs safe = Inr rel \<Longrightarrow> rel = safe @ [s. Normal s \<leftarrow> cs]"
  by (induction cs arbitrary: safe) (force split: path_component.splits)+

lemma validated_path_normal:
  assumes "validated_path p = Inr rel"
  shows "list_all normal_name rel"
proof -
  have "rel = [s. Normal s \<leftarrow> components p]"
    using validated_components_normal [of p "components p" "[]" rel] assms by (simp add: validated_path_def)
  then have "Normal s \<in> set (components p)" if "s \<in> set rel" for s
    using that by (auto split: path_component.splits)
  then show ?thesis using components_Normal by (auto simp: list_all_iff)
qed

lemma chain_parent:
  assumes "dir_chain fs [] (root @ rel_parent rel)" and "\<And>q. map_of fs q = Some NDir \<Longrightarrow> map_of fs' q = Some NDir"
  shows "dir_chain fs' [] (root @ rel_parent rel)"
  using assms by (auto intro: dir_chain_mono)

lemma rel_split: "rel \<noteq> [] \<Longrightarrow> root @ rel = root @ rel_parent rel @ [last rel]"
  by (simp add: rel_parent_def)

lemma remove_existing_rel:
  assumes "root_ready root fs" and "dir_chain fs [] (root @ rel_parent rel)" and "list_all normal_name rel" and "rel \<noteq> []"
  shows "stays_in root fs (snd (remove_existing (root @ rel) fs))"
    and "dir_chain (snd (remove_existing (root @ rel) fs)) [] (root @ rel_parent rel)"
  using remove_existing_stays_in [OF assms(1,2), of "last rel"] list_all_rel [OF assms(3,4)]
  unfolding rel_split [OF assms(4), of root, symmetric] by blast+

lemma hard_link_stays_in:
  assumes "root_ready root fs" and "dir_chain fs [] (root @ rel_parent rel)" and "list_all normal_name rel" and "rel \<noteq> []"
  shows "stays_in root fs (snd (hard_link source (root @ rel) fs))"
proof -
  have nn: "list_all normal_name (root @ rel_parent rel)" "normal_name (last rel)"
    using assms(1) list_all_rel [OF assms(3,4)] by (simp_all add: root_ready_def)
  have "locate fs (root @ rel) = Inr (root @ rel)"
    using locate_chain [OF assms(2) nn] rel_split [OF assms(4), of root] by simp
  moreover have "stays_in root fs (map_insert (root @ rel) n fs)" for n
    using assms(1,3,4) by (intro stays_in_at [OF assms(1)] changes_insert) (simp_all add: root_ready_def)
  ultimately show ?thesis
    by (auto simp: hard_link_def stays_in_refl assms(1) and_then_def split: sum.splits prod.splits)
qed

lemma apply_hard_link_stays_in:
  assumes "root_ready root fs" and "dir_chain fs [] (root @ rel_parent rel)" and "list_all normal_name rel" and "rel \<noteq> []"
  shows "stays_in root fs (snd (apply_hard_link root entry rel fs))"
proof (cases "and_then (map_err LayerIo (te_link entry)) (\<lambda>link. and_then (ok_or link (MissingLinkTarget rel)) validated_path)")
  case (Inl e)
  then show ?thesis by (simp add: apply_hard_link_def stays_in_refl assms(1))
next
  case (Inr target)
  then have "list_all normal_name target"
    by (auto simp: and_then_Inr_iff dest: validated_path_normal)
  then have t: "list_all normal_name (rel_parent target)"
    by (cases target rule: rev_cases) (simp_all add: rel_parent_def)
  obtain r1 fs1 where 1: "ensure_safe_parents root (rel_parent target) fs = (r1, fs1)" by fastforce
  have c1: "stays_in root fs fs1" and ch1: "dir_chain fs1 [] (root @ rel_parent rel)"
    using ensure_safe_parents_stays_in(1,3) [OF assms(1) t] chain_parent [OF assms(2)] 1 by auto
  have rr1: "root_ready root fs1" using c1 by (simp add: stays_in_def)
  obtain r2 fs2 where 2: "remove_existing (root @ rel) fs1 = (r2, fs2)" by fastforce
  have c2: "stays_in root fs1 fs2" and ch2: "dir_chain fs2 [] (root @ rel_parent rel)"
    using remove_existing_rel [OF rr1 ch1 assms(3,4)] 2 by auto
  have "stays_in root fs2 (snd (hard_link (root @ target) (root @ rel) fs2))"
    using hard_link_stays_in [OF _ ch2 assms(3,4)] c2 by (simp add: stays_in_def)
  with c1 c2 show ?thesis
    by (cases r1; cases r2)
      (auto simp: apply_hard_link_def Inr 1 2 case_prod_beta intro: stays_in_trans)
qed

lemma apply_entry_stays_in:
  assumes "unpacks_at unpack" and "root_ready root fs" and nn: "list_all normal_name rel" and ne: "rel \<noteq> []"
    and "rel \<noteq> [''.wh...'']"
  shows "stays_in root fs (snd (apply_entry unpack root entry rel fs))"
proof -
  obtain r1 fs1 where 1: "apply_whiteout root rel fs = (r1, fs1)" by fastforce
  have c1: "stays_in root fs fs1" using apply_whiteout_stays_in [OF assms(2-5)] 1 by simp
  have p: "list_all normal_name (rel_parent rel)" "normal_name (last rel)" using list_all_rel [OF nn ne] by auto
  obtain r2 fs2 where 2: "ensure_safe_parents root (rel_parent rel) fs1 = (r2, fs2)" by fastforce
  have rr1: "root_ready root fs1" using c1 by (simp add: stays_in_def)
  have c2: "stays_in root fs1 fs2" and ch2: "is_ok r2 \<Longrightarrow> dir_chain fs2 [] (root @ rel_parent rel)"
    using ensure_safe_parents_stays_in(1,2) [OF rr1 p(1)] 2 by auto
  have rr2: "root_ready root fs2" using c2 by (simp add: stays_in_def)
  note c12 = stays_in_trans [OF c1 c2]
  have unpack: "stays_in root fs3 (snd (unpack entry (root @ rel) fs3))" if "root_ready root fs3" for fs3
    using unpack_changes [OF assms(1), of "root @ rel" fs3 entry] that nn ne
    by (intro stays_in_at [OF that]) (simp_all add: root_ready_def)
  have rest: "stays_in root fs2 (snd (if te_type entry = Link then apply_hard_link root entry rel fs2
      else (case (if te_type entry = Directory then (Inr (), fs2) else remove_existing (root @ rel) fs2) of
              (Inl e, fs3) \<Rightarrow> (Inl e, fs3)
            | (Inr _, fs3) \<Rightarrow> (case unpack entry (root @ rel) fs3 of (r, fs4) \<Rightarrow> (map_err LayerIo r, fs4)))))"
    if "is_ok r2"
  proof (cases "te_type entry = Link")
    case True
    with apply_hard_link_stays_in [OF rr2 ch2 [OF that] nn ne] show ?thesis by simp
  next
    case False
    obtain r3 fs3 where 3: "(if te_type entry = Directory then (Inr (), fs2) else remove_existing (root @ rel) fs2) = (r3, fs3)"
      by fastforce
    have c3: "stays_in root fs2 fs3"
      using 3 remove_existing_rel(1) [OF rr2 ch2 [OF that] nn ne] stays_in_refl [OF rr2]
      by (auto split: if_splits)
    then have "stays_in root fs3 (snd (unpack entry (root @ rel) fs3))" by (intro unpack) (simp add: stays_in_def)
    with c3 show ?thesis unfolding if_not_P [OF False] 3
      by (cases r3) (auto simp: case_prod_beta intro: stays_in_trans)
  qed
  show ?thesis
    using c1 c12 stays_in_trans [OF c12 rest]
    by (auto simp: apply_entry_def 1 2 split: sum.splits bool.splits)
qed

text \<open>
  The entry that the containment excludes: a whiteout of \<open>..\<close> at the top of the layer, which the code
  does not refuse.
\<close>

definition dot_whiteout :: "tar_entry \<Rightarrow> bool" where
  "dot_whiteout entry \<longleftrightarrow>
     and_then (map_err LayerIo (te_path entry)) validated_path = Inr [''.wh...'']"

definition no_dot_whiteouts :: "(tar_entry, io_error) result list \<Rightarrow> bool" where
  "no_dot_whiteouts rs \<longleftrightarrow> list_all (\<lambda>r. case r of Inl _ \<Rightarrow> True | Inr entry \<Rightarrow> \<not> dot_whiteout entry) rs"

lemma apply_tar_stays_in:
  assumes "unpacks_at unpack" and "root_ready root fs" and "no_dot_whiteouts rs"
  shows "stays_in root fs (snd (snd (apply_tar unpack root rs b fs)))"
  using assms(2,3)
proof (induction rs arbitrary: b fs)
  case Nil
  then show ?case by (simp add: stays_in_refl)
next
  case (Cons r rs)
  let ?parse = "and_then (map_err LayerIo r) (\<lambda>entry. and_then (map_err LayerIo (te_path entry)) (\<lambda>p.
            and_then (validated_path p) (\<lambda>relative. Inr (entry, relative))))"
  show ?case
  proof (cases ?parse)
    case (Inl e)
    then show ?thesis using Cons.prems(1) by (simp add: stays_in_refl)
  next
    case (Inr er)
    obtain entry rel where er: "er = (entry, rel)" by (cases er)
    obtain p where r: "r = Inr entry" "te_path entry = Inr p" "validated_path p = Inr rel"
      using Inr er by (auto simp: and_then_Inr_iff map_err_Inr_iff)
    have nn: "list_all normal_name rel" using validated_path_normal [OF r(3)] .
    have dot: "rel \<noteq> [''.wh...'']"
      using Cons.prems(2) unfolding no_dot_whiteouts_def dot_whiteout_def by (simp add: r)
    obtain rc b1 where ch: "charge entry rel b = (rc, b1)" by fastforce
    obtain re fs1 where e: "apply_entry unpack root entry rel fs = (re, fs1)" by fastforce
    have rest: "no_dot_whiteouts rs" using Cons.prems(2) by (simp add: no_dot_whiteouts_def)
    have c1: "rel \<noteq> [] \<Longrightarrow> stays_in root fs fs1"
      using apply_entry_stays_in [OF assms(1) Cons.prems(1) nn, of entry] dot e by simp
    then have "rel \<noteq> [] \<Longrightarrow> stays_in root fs (snd (snd (apply_tar unpack root rs b1 fs1)))"
      using Cons.IH [OF _ rest, of fs1 b1] stays_in_trans by (simp add: stays_in_def)
    with c1 Cons.IH [OF Cons.prems(1) rest, of b1] show ?thesis
      unfolding apply_tar.simps Inr er sum.case prod.case ch e
      by (cases rc; cases "rel = []"; cases re) (simp_all add: stays_in_refl Cons.prems(1))
  qed
qed

section \<open>Budget and links\<close>

definition file_bytes :: "(tar_entry, io_error) result \<Rightarrow> nat" where
  "file_bytes r =
     (case r of
        Inr entry \<Rightarrow> if te_type entry = Regular then (case te_size entry of Inr n \<Rightarrow> n | Inl _ \<Rightarrow> 0) else 0
      | Inl _ \<Rightarrow> 0)"

lemma charge_limits [simp]: "lb_limits (snd (charge entry p b)) = lb_limits b"
  by (simp add: charge_def Let_def split: option.splits sum.splits)

lemma charge_Inr:
  assumes "fst (charge entry p b) = Inr u" and "max_expanded_bytes (lb_limits b) < U64_MAX"
    and "expanded_bytes b \<le> max_expanded_bytes (lb_limits b)"
  shows "lb_entries (snd (charge entry p b)) = lb_entries b + 1"
    and "lb_entries b + 1 \<le> max_entries (lb_limits b)"
    and "expanded_bytes (snd (charge entry p b)) = expanded_bytes b + file_bytes (Inr entry)"
    and "expanded_bytes b + file_bytes (Inr entry) \<le> max_expanded_bytes (lb_limits b)"
    and "file_bytes (Inr entry) \<le> max_file_bytes (lb_limits b)"
  using assms
  by (auto simp: charge_def Let_def file_bytes_def saturating_add_def checked_add_def
      split: option.splits sum.splits if_splits)

lemma apply_tar_budget:
  assumes "apply_tar unpack root rs b fs = (Inr (), b', fs')"
    and "max_expanded_bytes (lb_limits b) < U64_MAX"
    and "expanded_bytes b \<le> max_expanded_bytes (lb_limits b)" and "lb_entries b \<le> max_entries (lb_limits b)"
  shows "lb_entries b' = lb_entries b + length rs \<and> lb_entries b' \<le> max_entries (lb_limits b) \<and>
    expanded_bytes b' = expanded_bytes b + sum_list (map file_bytes rs) \<and>
    expanded_bytes b' \<le> max_expanded_bytes (lb_limits b) \<and>
    list_all (\<lambda>r. file_bytes r \<le> max_file_bytes (lb_limits b)) rs"
  using assms
proof (induction rs arbitrary: b fs)
  case Nil
  then show ?case by simp
next
  case (Cons r rs)
  let ?parse = "and_then (map_err LayerIo r) (\<lambda>entry. and_then (map_err LayerIo (te_path entry)) (\<lambda>p.
            and_then (validated_path p) (\<lambda>relative. Inr (entry, relative))))"
  obtain er where parse: "?parse = Inr er" using Cons.prems(1) by (cases ?parse) auto
  obtain entry rel where er: "er = (entry, rel)" by (cases er)
  have r: "r = Inr entry" using parse er by (auto simp: and_then_Inr_iff map_err_Inr_iff)
  obtain rc b1 where ch: "charge entry rel b = (rc, b1)" by fastforce
  obtain re fs1 where e: "apply_entry unpack root entry rel fs = (re, fs1)" by fastforce
  note run = Cons.prems(1) [unfolded apply_tar.simps parse er sum.case prod.case ch e]
  obtain u where u: "rc = Inr u" using run by (cases rc) auto
  obtain fs2 where rest: "apply_tar unpack root rs b1 fs2 = (Inr (), b', fs')"
    using run u by (cases "rel = []"; cases re) auto
  have l: "lb_limits b1 = lb_limits b" using charge_limits [of entry rel b] ch by simp
  note c = charge_Inr [of entry rel b, unfolded ch fst_conv snd_conv, OF u Cons.prems(2,3)]
  from Cons.IH [OF rest] c Cons.prems(2) show ?case by (simp add: l r)
qed

primrec lexical :: "path \<Rightarrow> path_component list \<Rightarrow> path option" where
  "lexical cur [] = Some cur"
| "lexical cur (c # cs) =
     (case c of
        Normal s \<Rightarrow> lexical (cur @ [s]) cs
      | CurDir \<Rightarrow> lexical cur cs
      | ParentDir \<Rightarrow> if cur = [] then None else lexical (butlast cur) cs
      | RootDir \<Rightarrow> lexical [] cs)"

lemma link_depth_lexical:
  "RootDir \<notin> set cs \<Longrightarrow> link_depth s cs (length cur) \<longleftrightarrow> lexical cur cs \<noteq> None"
proof (induction cs arbitrary: cur)
  case Nil
  then show ?case by simp
next
  case (Cons c cs)
  have "link_depth s cs (length (cur @ [x])) \<longleftrightarrow> lexical (cur @ [x]) cs \<noteq> None"
    "link_depth s cs (length (butlast cur)) \<longleftrightarrow> lexical (butlast cur) cs \<noteq> None"
    "link_depth s cs (length cur) \<longleftrightarrow> lexical cur cs \<noteq> None" for x
    using Cons.prems by - (rule Cons.IH, simp)+
  with Cons.prems show ?case by (cases c) simp_all
qed

lemma body_components_no_root: "RootDir \<notin> set (body_components ss)"
  by (induction ss) (auto simp: body_component_def split: option.splits if_splits)

lemma components_root:
  "is_absolute p \<Longrightarrow> \<exists>cs. components p = RootDir # cs \<and> RootDir \<notin> set cs"
  "\<not> is_absolute p \<Longrightarrow> RootDir \<notin> set (components p)"
  by (auto simp: components_def Let_def body_components_no_root)

lemma validate_link_lexical:
  assumes "te_type entry \<in> {Symlink, Link}" and "te_link entry = Inr (Some target)"
  shows "validate_link entry rel = Inr () \<longleftrightarrow>
    \<not> (te_type entry = Link \<and> is_absolute target) \<and>
    lexical (if te_type entry = Link then [] else rel_parent rel) (components target) \<noteq> None"
proof (cases "is_absolute target")
  case True
  then obtain cs where cs: "components target = RootDir # cs" "RootDir \<notin> set cs" using components_root(1) by blast
  show ?thesis
    using assms True link_depth_lexical [OF cs(2), of True "[]"]
    by (auto simp: validate_link_def Let_def cs(1))
next
  case False
  note no = components_root(2) [OF False]
  show ?thesis
    using assms False link_depth_lexical [OF no, of True "rel_parent rel"] link_depth_lexical [OF no, of False "[]"]
    by (auto simp: validate_link_def Let_def)
qed

section \<open>Properties\<close>


definition sample_unpack :: unpacker where
  "sample_unpack entry p fs =
     (Ok (), map_insert p (case te_type entry of Directory \<Rightarrow> NDir
        | Symlink \<Rightarrow> NLink (case te_link entry of Inr (Some t) \<Rightarrow> t | _ \<Rightarrow> []) | _ \<Rightarrow> NFile 0) fs)"

definition sample_entry :: "string \<Rightarrow> EntryType \<Rightarrow> string option \<Rightarrow> (tar_entry, io_error) result" where
  "sample_entry p t l = Ok \<lparr>te_path = Ok p, te_type = t, te_size = Ok 5, te_link = Ok l\<rparr>"

definition sample_tree :: file_tree where
  "sample_tree = [([''img''], NDir), ([''img'', ''root''], NDir), ([''img'', ''other''], NFile 7)]"

lemma sample_unpack_at: "unpacks_at sample_unpack"
  by (simp add: unpacks_at_def sample_unpack_def update_conv')

lemma sample_tree_ready: "root_ready [''img'', ''root''] sample_tree"
  unfolding root_ready_def names_normal_def
proof (intro conjI allI impI)
  show "dir_chain sample_tree [] [''img'', ''root'']" "list_all normal_name [''img'', ''root'']" by code_simp+
  fix q assume "map_of sample_tree q \<noteq> None"
  then have "q \<in> fst ` set sample_tree" by (simp add: map_of_eq_None_iff)
  moreover have "list_all (\<lambda>e. list_all normal_name (fst e)) sample_tree" by code_simp
  ultimately show "list_all normal_name q" unfolding list_all_iff by blast
qed


text \<open>
  A whiteout is not checked for the names \<open>.\<close> and \<open>..\<close>: the entry \<^verbatim>\<open>.wh...\<close> at the top of a
  layer makes the code empty the directory that contains the root, the root's siblings included, before
  it reports an error.
\<close>

theorem dotdot_whiteout_escapes:
  "let r = apply_tar sample_unpack [''img'', ''root''] [sample_entry ''.wh...'' Regular None]
             (layer_budget_new layer_limits_default) sample_tree
   in \<not> is_ok (fst r) \<and> map_of (snd (snd r)) [''img'', ''other''] = None \<and>
      map_of (snd (snd r)) [''img'', ''root''] = None"
  by code_simp

text \<open>
  The limits hold for every archive that is applied completely: the number of entries and
  the total size of its regular files are counted exactly and stay within the image's budget, and
  every file within the limit of a file.
\<close>

theorem layer_budget_exact:
  assumes "apply_tar unpack root entries b fs = (Ok (), b', fs')"
    and "max_expanded_bytes (lb_limits b) < U64_MAX"
    and "expanded_bytes b \<le> max_expanded_bytes (lb_limits b)" and "lb_entries b \<le> max_entries (lb_limits b)"
  shows "lb_entries b' = lb_entries b + length entries \<and> lb_entries b' \<le> max_entries (lb_limits b) \<and>
    expanded_bytes b' = expanded_bytes b + sum_list (map file_bytes entries) \<and>
    expanded_bytes b' \<le> max_expanded_bytes (lb_limits b) \<and>
    list_all (\<lambda>r. file_bytes r \<le> max_file_bytes (lb_limits b)) entries"
  using apply_tar_budget [OF assms] .

theorem layer_budget_exact_witness:
  "let r = apply_tar sample_unpack [''img'', ''root''] [sample_entry ''a'' Regular None, sample_entry ''b/c'' Regular None]
             (layer_budget_new layer_limits_default) sample_tree
   in fst r = Ok () \<and> expanded_bytes (fst (snd r)) = 10"
proof -
  let ?es = "[sample_entry ''a'' Regular None, sample_entry ''b/c'' Regular None]"
  define r where "r = apply_tar sample_unpack [''img'', ''root''] ?es (layer_budget_new layer_limits_default) sample_tree"
  have ok: "fst r = Ok ()" unfolding r_def by code_simp
  then have run: "apply_tar sample_unpack [''img'', ''root''] ?es (layer_budget_new layer_limits_default) sample_tree =
      (Ok (), fst (snd r), snd (snd r))"
    by (simp add: r_def prod_eq_iff)
  have "max_expanded_bytes (lb_limits (layer_budget_new layer_limits_default)) < U64_MAX"
    "expanded_bytes (layer_budget_new layer_limits_default) \<le> max_expanded_bytes (lb_limits (layer_budget_new layer_limits_default))"
    "lb_entries (layer_budget_new layer_limits_default) \<le> max_entries (lb_limits (layer_budget_new layer_limits_default))"
    by code_simp+
  from layer_budget_exact [OF run this] have "expanded_bytes (fst (snd r)) = 0 + sum_list (map file_bytes ?es)"
    by (simp add: layer_budget_new_def)
  moreover have "sum_list (map file_bytes ?es) = 10" by code_simp
  ultimately show ?thesis using ok unfolding Let_def r_def by simp
qed

text \<open>
  A link entry is accepted exactly when its target, resolved name by name from the link's
  directory (from the image root for a hard link or an absolute target), never steps above the image
  root, and a hard link is not absolute.
\<close>

theorem link_accepted_iff_inside:
  assumes "te_type entry \<in> {Symlink, Link}" and "te_link entry = Ok (Some target)"
  shows "validate_link entry rel = Ok () \<longleftrightarrow>
    \<not> (te_type entry = Link \<and> is_absolute target) \<and>
    lexical (if te_type entry = Link then [] else rel_parent rel) (components target) \<noteq> None"
  using assms by (rule validate_link_lexical)

theorem link_accepted_iff_inside_witness:
  "lexical [''a'', ''b''] (components ''../../c/..'') \<noteq> None \<and>
   validate_link \<lparr>te_path = Ok ''a/b/l'', te_type = Symlink, te_size = Ok 0, te_link = Ok (Some ''../../c/..'')\<rparr>
     [''a'', ''b'', ''l''] = Ok ()"
proof -
  let ?e = "\<lparr>te_path = Ok ''a/b/l'', te_type = Symlink, te_size = Ok 0, te_link = Ok (Some ''../../c/..'')\<rparr>"
  have "lexical [''a'', ''b''] (components ''../../c/..'') \<noteq> None" by code_simp
  then show ?thesis
    using link_accepted_iff_inside [of ?e "''../../c/..''" "[''a'', ''b'', ''l'']"] by (simp add: rel_parent_def)
qed

end
