(* ===== verification/Registry_Auth.thy ===== *)
theory Registry_Auth
  imports Cas Layer Image_Reference
begin

text \<open>
  Talking to a registry, first part (\<^verbatim>\<open>moraebox-image/src/registry.rs\<close>): errors, limits, retries, the
  bearer challenge and the rule that decides which token server may receive the credentials. The URL
  parser (crate \<^verbatim>\<open>url\<close>) and the parser of HTTP dates (crate \<^verbatim>\<open>httpdate\<close>) are parameters.
\<close>

section \<open>Data\<close>

record Credentials =
  cr_username :: string
  cr_password :: string

record Platform =
  pf_os :: string
  pf_architecture :: string
  pf_variant :: "string option"

record Descriptor =
  ds_media_type :: string
  ds_digest :: string
  ds_size :: nat
  ds_platform :: "Platform option"

record ImageManifest =
  im_schema_version :: nat
  im_media_type :: "string option"
  im_config :: Descriptor
  im_layers :: "Descriptor list"

record ImagePullLimits =
  pl_max_manifest_bytes :: nat
  pl_max_config_bytes :: nat
  pl_max_layer_bytes :: nat
  pl_max_compressed_bytes :: nat
  pl_max_layers :: nat
  pl_extraction :: LayerLimits

definition pull_limits_default :: ImagePullLimits where
  "pull_limits_default =
     \<lparr>pl_max_manifest_bytes = 8 * 1024 * 1024, pl_max_config_bytes = 16 * 1024 * 1024,
      pl_max_layer_bytes = 1024 * 1024 * 1024, pl_max_compressed_bytes = 4 * 1024 * 1024 * 1024,
      pl_max_layers = 128, pl_extraction = layer_limits_default\<rparr>"

record RealmOrigin =
  ro_host :: string
  ro_port :: u16

text \<open>What the code reads of a URL; \<open>u_port\<close> is \<^verbatim>\<open>port_or_known_default\<close>.\<close>

record Url =
  u_text :: string
  u_scheme :: string
  u_host :: "string option"
  u_port :: "u16 option"
  u_username :: string
  u_password :: "string option"
  u_fragment :: "string option"

text \<open>A failed request of the HTTP client, with the classes the retry rule asks for.\<close>

record http_error =
  he_connect :: bool
  he_timeout :: bool
  he_body :: bool
  he_request :: bool
  he_text :: string

text \<open>\<open>RgUnreachable\<close> is the panic of \<^verbatim>\<open>unreachable!\<close> at the end of the retry loops.\<close>

datatype RegistryError =
    RgHttp http_error
  | RgHttpStatus nat string
  | RgTokenStatus nat
  | RgTokenRedirectDisallowed nat
  | RgMissingChallenge
  | RgUnsupportedChallenge string
  | RgInvalidChallenge
  | RgInvalidTokenRealm
  | RgInsecureTokenRealm
  | RgInvalidRegistryEndpoint
  | RgUntrustedCredentialRealm string u16
  | RgMissingToken
  | RgPlatformNotFound Platform
  | RgManifestDigestMismatch Digest Digest
  | RgDescriptorSizeMismatch string nat nat
  | RgDownloadLimitExceeded string nat nat
  | RgLayerCountLimitExceeded nat nat
  | RgCompressedSizeLimitExceeded nat nat
  | RgUnsupportedSchema nat
  | RgJson string
  | RgCas CasError
  | RgIo string
  | RgUnreachable

section \<open>Limits\<close>

definition verify_download_limit :: "string \<Rightarrow> nat \<Rightarrow> nat \<Rightarrow> (unit, RegistryError) result" where
  "verify_download_limit resource actual maximum =
     (if actual > maximum then Err (RgDownloadLimitExceeded resource actual maximum) else Ok ())"

definition checked_download_length :: "string \<Rightarrow> nat \<Rightarrow> nat \<Rightarrow> nat \<Rightarrow> (nat, RegistryError) result" where
  "checked_download_length resource current chunk maximum =
     (let actual = saturating_add current chunk in
      and_then (verify_download_limit resource actual maximum) (\<lambda>_. Ok actual))"

definition verify_descriptor_size_u64 :: "Descriptor \<Rightarrow> nat \<Rightarrow> (unit, RegistryError) result" where
  "verify_descriptor_size_u64 descriptor actual =
     (if ds_size descriptor \<noteq> actual
      then Err (RgDescriptorSizeMismatch (ds_digest descriptor) (ds_size descriptor) actual) else Ok ())"

text \<open>The loop over the layers carries the compressed size so far.\<close>

primrec compressed_size :: "ImagePullLimits \<Rightarrow> Descriptor list \<Rightarrow> nat \<Rightarrow> (nat, RegistryError) result" where
  "compressed_size limits [] compressed = Ok compressed"
| "compressed_size limits (layer # layers) compressed =
     and_then (verify_download_limit ''layer blob'' (ds_size layer) (pl_max_layer_bytes limits)) (\<lambda>_.
       let compressed' = saturating_add compressed (ds_size layer) in
       if compressed' > pl_max_compressed_bytes limits
       then Err (RgCompressedSizeLimitExceeded compressed' (pl_max_compressed_bytes limits))
       else compressed_size limits layers compressed')"

definition validate_manifest_limits :: "ImageManifest \<Rightarrow> ImagePullLimits \<Rightarrow> (unit, RegistryError) result" where
  "validate_manifest_limits manifest limits =
     (if length (im_layers manifest) > pl_max_layers limits
      then Err (RgLayerCountLimitExceeded (length (im_layers manifest)) (pl_max_layers limits))
      else
        and_then (verify_download_limit ''configuration blob'' (ds_size (im_config manifest)) (pl_max_config_bytes limits)) (\<lambda>_.
        and_then (compressed_size limits (im_layers manifest) (ds_size (im_config manifest))) (\<lambda>compressed.
          if compressed > pl_max_compressed_bytes limits
          then Err (RgCompressedSizeLimitExceeded compressed (pl_max_compressed_bytes limits))
          else Ok ())))"

definition platform_matches :: "Platform option \<Rightarrow> Platform \<Rightarrow> bool" where
  "platform_matches actual expected \<longleftrightarrow>
     (case actual of
        None \<Rightarrow> False
      | Some a \<Rightarrow>
          pf_os a = pf_os expected \<and> pf_architecture a = pf_architecture expected \<and>
          (case pf_variant expected of None \<Rightarrow> True | Some v \<Rightarrow> pf_variant a = Some v))"

section \<open>Retries\<close>

definition MAX_REQUEST_ATTEMPTS :: nat where "MAX_REQUEST_ATTEMPTS = 3"
definition MAX_TOKEN_RESPONSE_BYTES :: nat where "MAX_TOKEN_RESPONSE_BYTES = 1024 * 1024"
definition BASE_RETRY_DELAY :: duration where "BASE_RETRY_DELAY = from_millis 100"
definition MAX_RETRY_DELAY :: duration where "MAX_RETRY_DELAY = from_secs 5"

definition retryable_transport_error :: "http_error \<Rightarrow> bool" where
  "retryable_transport_error e \<longleftrightarrow> he_connect e \<or> he_timeout e \<or> he_body e \<or> he_request e"

definition retryable_status :: "nat \<Rightarrow> bool" where
  "retryable_status status \<longleftrightarrow> status = 408 \<or> status = 429 \<or> (500 \<le> status \<and> status < 600)"

definition default_retry_delay :: "nat \<Rightarrow> duration" where
  "default_retry_delay attempt =
     min (if attempt < 32 then min (BASE_RETRY_DELAY * 2 ^ attempt) DURATION_MAX else MAX_RETRY_DELAY) MAX_RETRY_DELAY"

text \<open>\<open>http_date\<close> gives the instant a date names; one that has passed counts as now.\<close>

definition parse_retry_after :: "(string \<Rightarrow> nat option) \<Rightarrow> string \<Rightarrow> nat \<Rightarrow> duration option" where
  "parse_retry_after http_date v now =
     (case parse_u64 (trim_ws v) of
        Some secs \<Rightarrow> Some (from_secs secs)
      | None \<Rightarrow> map_option (\<lambda>retry_at. retry_at - now) (http_date v))"

definition retry_delay :: "(string \<Rightarrow> nat option) \<Rightarrow> string option \<Rightarrow> nat \<Rightarrow> nat \<Rightarrow> duration" where
  "retry_delay http_date header attempt now =
     min (case header of
            None \<Rightarrow> default_retry_delay attempt
          | Some v \<Rightarrow>
              (case parse_retry_after http_date v now of
                 None \<Rightarrow> default_retry_delay attempt
               | Some d \<Rightarrow> d))
         MAX_RETRY_DELAY"

section \<open>The bearer challenge\<close>

record BearerChallenge =
  bc_realm :: string
  bc_service :: "string option"
  bc_scope :: "string option"

definition is_auth_token_byte :: "char \<Rightarrow> bool" where
  "is_auth_token_byte c \<longleftrightarrow>
     ascii_alphanumeric (code c) \<or> c \<in> set ''!#$%&*+-.^_`|~'' \<or> c = CHR 0x27"

definition ascii_whitespace :: "char \<Rightarrow> bool" where
  "ascii_whitespace c \<longleftrightarrow> code c \<in> {9, 10, 12, 13, 32}"

text \<open>The inside of a quoted value: what it decodes to and what follows the closing quote.\<close>

fun quoted_value :: "string \<Rightarrow> string \<Rightarrow> (string \<times> string) option" where
  "quoted_value [] decoded = None"
| "quoted_value (c # rest) decoded =
     (if c = CHR 0x5C then
        (case rest of [] \<Rightarrow> None | escaped # rest' \<Rightarrow> quoted_value rest' (decoded @ [escaped]))
      else if c = CHR 0x22 then Some (decoded, rest)
      else if c = CHR 0x0D \<or> c = CHR 0x0A then None
      else quoted_value rest (decoded @ [c]))"

lemma quoted_value_length: "quoted_value s d = Some (e, rest) \<Longrightarrow> length rest < length s"
  by (induction s d rule: quoted_value.induct) (auto split: if_splits list.splits)

text \<open>The value of a parameter: decoded, and the rest of the header at a comma or its end.\<close>

definition auth_value :: "string \<Rightarrow> (string \<times> string) option" where
  "auth_value v =
     (case v of
        c # rest \<Rightarrow>
          if c = CHR 0x22 then
            (case quoted_value rest [] of
               None \<Rightarrow> None
             | Some (decoded, rest') \<Rightarrow>
                 (let rest'' = dropWhile ascii_whitespace rest' in
                  if rest'' \<noteq> [] \<and> hd rest'' \<noteq> CHR '','' then None
                  else map_option (\<lambda>parsed. (parsed, rest'')) (to_str decoded)))
          else
            (let parsed = trim_ws (takeWhile (\<lambda>c. c \<noteq> CHR '','') v) in
             if parsed = [] then None else Some (parsed, dropWhile (\<lambda>c. c \<noteq> CHR '','') v))
      | [] \<Rightarrow> None)"

lemma auth_value_length: "auth_value v = Some (p, rest) \<Longrightarrow> length rest \<le> length v"
proof (cases v)
  case (Cons c cs)
  assume v: "auth_value v = Some (p, rest)"
  show ?thesis
  proof (cases "c = CHR 0x22")
    case True
    with v Cons obtain d rest' where q: "quoted_value cs [] = Some (d, rest')" "rest = dropWhile ascii_whitespace rest'"
      by (auto simp: auth_value_def Let_def split: option.splits if_splits)
    then show ?thesis
      using quoted_value_length [OF q(1)] length_dropWhile_le [of ascii_whitespace rest'] Cons by simp
  next
    case False
    with v Cons have "rest = dropWhile (\<lambda>c. c \<noteq> CHR '','') v"
      by (auto simp: auth_value_def Let_def split: if_splits)
    then show ?thesis by (simp add: length_dropWhile_le)
  qed
qed (simp add: auth_value_def)

function auth_parameters :: "string \<Rightarrow> (string \<times> string) list \<Rightarrow> ((string \<times> string) list, RegistryError) result" where
  "auth_parameters v parameters =
     (let v0 = dropWhile (\<lambda>c. ascii_whitespace c \<or> c = CHR '','') v;
          key = takeWhile is_auth_token_byte v0;
          v1 = dropWhile ascii_whitespace (dropWhile is_auth_token_byte v0)
      in if v0 = [] then Ok parameters
         else if key = [] \<or> v1 = [] \<or> hd v1 \<noteq> CHR ''='' then Err RgInvalidChallenge
         else
           (case auth_value (dropWhile ascii_whitespace (tl v1)) of
              None \<Rightarrow> Err RgInvalidChallenge
            | Some (parsed, rest) \<Rightarrow> auth_parameters (drop 1 rest) (parameters @ [(to_ascii_lowercase key, parsed)])))"
  by pat_completeness auto
termination
proof (relation "measure (\<lambda>(v, _). length v)")
  fix v v0 key v1 parsed rest :: string and parameters :: "(string \<times> string) list" and x
  assume v0: "v0 = dropWhile (\<lambda>c. ascii_whitespace c \<or> c = CHR '','') v"
    and v1: "v1 = dropWhile ascii_whitespace (dropWhile is_auth_token_byte v0)"
    and ne: "v0 \<noteq> []" and nk: "\<not> (key = [] \<or> v1 = [] \<or> hd v1 \<noteq> CHR ''='')"
    and some: "auth_value (dropWhile ascii_whitespace (tl v1)) = Some x" "(parsed, rest) = x"
  have "length rest \<le> length (dropWhile ascii_whitespace (tl v1))" using some by (auto dest!: auth_value_length)
  also have "\<dots> \<le> length (tl v1)" by (rule length_dropWhile_le)
  also have "\<dots> < length v1" using nk by (cases v1) auto
  also have "\<dots> \<le> length v0" unfolding v1
    by (meson le_trans length_dropWhile_le)
  also have "\<dots> \<le> length v" unfolding v0 by (rule length_dropWhile_le)
  finally show "((drop 1 rest, parameters @ [(to_ascii_lowercase key, parsed)]), v, parameters) \<in> measure (\<lambda>(v, _). length v)"
    by simp
qed simp

declare auth_parameters.simps [simp del]

definition parse_auth_parameters :: "string \<Rightarrow> ((string \<times> string) list, RegistryError) result" where
  "parse_auth_parameters v = auth_parameters v []"

definition unique_parameter :: "(string \<times> string) list \<Rightarrow> string \<Rightarrow> (string option, RegistryError) result" where
  "unique_parameter parameters key =
     (case map snd (filter (\<lambda>p. fst p = key) parameters) of
        [] \<Rightarrow> Ok None
      | [v] \<Rightarrow> Ok (Some v)
      | _ \<Rightarrow> Err RgInvalidChallenge)"

text \<open>\<^verbatim>\<open>value.find(char::is_whitespace)\<close>: the text before the first white space and the text from it on.\<close>

fun split_at_whitespace :: "string \<Rightarrow> (string \<times> string) option" where
  "split_at_whitespace [] = None"
| "split_at_whitespace (c # rest) =
     (if strip_any whitespace_chars (c # rest) \<noteq> None then Some ([], c # rest)
      else map_option (\<lambda>(a, b). (c # a, b)) (split_at_whitespace rest))"

definition parse_bearer_challenge :: "string \<Rightarrow> (BearerChallenge, RegistryError) result" where
  "parse_bearer_challenge v0 =
     (let v = trim_ws v0 in
      case split_at_whitespace v of
        None \<Rightarrow> Err (RgUnsupportedChallenge v)
      | Some (scheme, rest) \<Rightarrow>
          if \<not> eq_ignore_ascii_case scheme ''bearer'' then Err (RgUnsupportedChallenge v)
          else
            and_then (parse_auth_parameters (trim_ws rest)) (\<lambda>parameters.
            and_then (unique_parameter parameters ''realm'') (\<lambda>realm.
            and_then (ok_or realm RgMissingChallenge) (\<lambda>realm.
            and_then (unique_parameter parameters ''service'') (\<lambda>service.
            and_then (unique_parameter parameters ''scope'') (\<lambda>scope.
              Ok \<lparr>bc_realm = realm, bc_service = service, bc_scope = scope\<rparr>))))))"

section \<open>Token servers\<close>

definition origin_from_url :: "Url \<Rightarrow> (RealmOrigin, RegistryError) result" where
  "origin_from_url url =
     and_then (ok_or (u_host url) RgInvalidTokenRealm) (\<lambda>host.
     and_then (ok_or (u_port url) RgInvalidTokenRealm) (\<lambda>port.
       Ok \<lparr>ro_host = to_ascii_lowercase (rev (dropWhile (\<lambda>c. c = CHR ''.'') (rev host))), ro_port = port\<rparr>))"

definition origin_from_registry :: "(string \<Rightarrow> Url option) \<Rightarrow> RegistryReference \<Rightarrow> (RealmOrigin, RegistryError) result" where
  "origin_from_registry url_parse reference =
     and_then (ok_or (url_parse (''https://'' @ endpoint_registry reference @ ''/'')) RgInvalidRegistryEndpoint) (\<lambda>endpoint.
       map_err (\<lambda>_. RgInvalidRegistryEndpoint) (origin_from_url endpoint))"

definition validate_token_realm :: "(string \<Rightarrow> Url option) \<Rightarrow> string \<Rightarrow> (Url, RegistryError) result" where
  "validate_token_realm url_parse v =
     and_then (ok_or (url_parse v) RgInvalidTokenRealm) (\<lambda>url.
       if u_scheme url \<noteq> ''https'' then Err RgInsecureTokenRealm
       else if u_host url = None \<or> u_username url \<noteq> [] \<or> u_password url \<noteq> None \<or> u_fragment url \<noteq> None
       then Err RgInvalidTokenRealm
       else Ok url)"

definition credential_realm_is_trusted ::
  "(string \<Rightarrow> Url option) \<Rightarrow> RegistryReference \<Rightarrow> Url \<Rightarrow> RealmOrigin list \<Rightarrow> (bool, RegistryError) result" where
  "credential_realm_is_trusted url_parse reference realm_url explicitly_allowed =
     and_then (origin_from_registry url_parse reference) (\<lambda>registry.
     and_then (origin_from_url realm_url) (\<lambda>realm.
       let same_or_child =
             ro_port registry = ro_port realm \<and>
             (ro_host registry = ro_host realm \<or>
              (case strip_suffix (ro_host registry) (ro_host realm) of
                 None \<Rightarrow> False
               | Some front \<Rightarrow> ends_with ''.'' front \<and> length front > 1));
           docker_hub =
             ro_host registry = ''registry-1.docker.io'' \<and> ro_port registry = 443 \<and>
             ro_host realm = ''auth.docker.io'' \<and> ro_port realm = 443
       in Ok (same_or_child \<or> docker_hub \<or> realm \<in> set explicitly_allowed)))"

text \<open>
  A request for a token: where it goes, its query, and the credentials it carries (\<^verbatim>\<open>basic_auth\<close>).
\<close>

record outgoing_token_request =
  tr_url :: Url
  tr_query :: "(string \<times> string) list"
  tr_credentials :: "Credentials option"

definition token_request ::
  "(string \<Rightarrow> Url option) \<Rightarrow> Credentials option \<Rightarrow> RealmOrigin list \<Rightarrow> string \<Rightarrow> RegistryReference
     \<Rightarrow> (outgoing_token_request, RegistryError) result" where
  "token_request url_parse credentials allowed challenge reference =
     and_then (parse_bearer_challenge challenge) (\<lambda>challenge.
     and_then (validate_token_realm url_parse (bc_realm challenge)) (\<lambda>realm.
       let scope = (case bc_scope challenge of Some s \<Rightarrow> s | None \<Rightarrow> reference_scope reference);
           query = (''scope'', scope) # (case bc_service challenge of Some s \<Rightarrow> [(''service'', s)] | None \<Rightarrow> [])
       in case credentials of
            None \<Rightarrow> Ok \<lparr>tr_url = realm, tr_query = query, tr_credentials = None\<rparr>
          | Some c \<Rightarrow>
              and_then (credential_realm_is_trusted url_parse reference realm allowed) (\<lambda>trusted.
                if \<not> trusted then
                  and_then (origin_from_url realm) (\<lambda>origin.
                    Err (RgUntrustedCredentialRealm (ro_host origin) (ro_port origin)))
                else Ok \<lparr>tr_url = realm, tr_query = query, tr_credentials = Some c\<rparr>)))"

section \<open>Where credentials go\<close>

text \<open>A host is the registry or lies below it, by whole labels.\<close>

definition same_or_below :: "string \<Rightarrow> string \<Rightarrow> bool" where
  "same_or_below base host \<longleftrightarrow> (\<exists>labels. split_on CHR ''.'' host = labels @ split_on CHR ''.'' base)"

lemma child_host:
  assumes "strip_suffix base host = Some front" and "ends_with ''.'' front"
  shows "same_or_below base host"
proof -
  obtain a where "front = a @ ''.''" using assms(2) by (auto simp: ends_with_def strip_suffix_Some)
  with assms(1) have "host = a @ CHR ''.'' # base" by (simp add: strip_suffix_Some)
  then show ?thesis by (auto simp: same_or_below_def split_on_app)
qed

lemma trusted_realm:
  assumes "credential_realm_is_trusted url_parse reference realm allowed = Inr True"
  obtains reg org where "origin_from_registry url_parse reference = Inr reg" "origin_from_url realm = Inr org"
    "same_or_below (ro_host reg) (ro_host org) \<and> ro_port org = ro_port reg \<or>
     ro_host reg = ''registry-1.docker.io'' \<and> ro_port reg = 443 \<and> ro_host org = ''auth.docker.io'' \<and> ro_port org = 443 \<or>
     org \<in> set allowed"
proof -
  obtain reg org where o: "origin_from_registry url_parse reference = Inr reg" "origin_from_url realm = Inr org"
    using assms by (auto simp: credential_realm_is_trusted_def and_then_Inr_iff)
  have "same_or_below (ro_host reg) (ro_host reg)" by (auto simp: same_or_below_def intro: exI [of _ "[]"])
  with o assms show thesis
    by (intro that [OF o]) (auto simp: credential_realm_is_trusted_def Let_def split: option.splits dest: child_host)
qed

end
