(* ===== verification/Effects.thy ===== *)
theory Effects
  imports Prelude
begin

text \<open>
  Operations that change a state and may fail: a function from the state to a result and the state after
  it. The state a failing operation leaves behind is part of the model. A relation between states that is
  reflexive and transitive passes from the parts of an operation to the whole (locale \<open>eff_relation\<close>).
\<close>

type_synonym ('s, 'e, 'a) eff = "'s \<Rightarrow> ('a, 'e) result \<times> 's"

text \<open>\<^verbatim>\<open>?\<close> after an operation, a plain result as an operation, reading the state, and a loop with an early return.\<close>

definition bind_eff :: "('s, 'e, 'a) eff \<Rightarrow> ('a \<Rightarrow> ('s, 'e, 'b) eff) \<Rightarrow> ('s, 'e, 'b) eff" where
  "bind_eff m f s = (case m s of (Inl e, s') \<Rightarrow> (Inl e, s') | (Inr x, s') \<Rightarrow> f x s')"

definition lift_eff :: "('a, 'e) result \<Rightarrow> ('s, 'e, 'a) eff" where
  "lift_eff r s = (r, s)"

definition get_eff :: "('s \<Rightarrow> 'a) \<Rightarrow> ('s, 'e, 'a) eff" where
  "get_eff f s = (Ok (f s), s)"

primrec for_each :: "('a \<Rightarrow> ('s, 'e, unit) eff) \<Rightarrow> 'a list \<Rightarrow> ('s, 'e, unit) eff" where
  "for_each f [] = lift_eff (Ok ())"
| "for_each f (x # xs) = bind_eff (f x) (\<lambda>_. for_each f xs)"

lemma bind_eff_simps [simp]:
  "m s = (Inl e, s') \<Longrightarrow> bind_eff m f s = (Inl e, s')" "m s = (Inr x, s') \<Longrightarrow> bind_eff m f s = f x s'"
  by (simp_all add: bind_eff_def)

lemma bind_eff_cong [fundef_cong]:
  "m s = m' s \<Longrightarrow> (\<And>x s'. m' s = (Inr x, s') \<Longrightarrow> f x s' = g x s') \<Longrightarrow> bind_eff m f s = bind_eff m' g s"
  by (auto simp: bind_eff_def split: prod.splits sum.splits)

lemma bind_eff_Inr:
  "bind_eff m f s = (Inr y, s') \<longleftrightarrow> (\<exists>x t. m s = (Inr x, t) \<and> f x t = (Inr y, s'))"
  by (auto simp: bind_eff_def split: prod.splits sum.splits)

lemma bind_eff_Inl:
  "bind_eff m f s = (Inl e, s') \<longleftrightarrow> m s = (Inl e, s') \<or> (\<exists>x t. m s = (Inr x, t) \<and> f x t = (Inl e, s'))"
  by (auto simp: bind_eff_def split: prod.splits sum.splits)

lemma lift_eff_iff [simp]: "lift_eff r s = (r', s') \<longleftrightarrow> r = r' \<and> s' = s"
  by (auto simp: lift_eff_def)

lemma get_eff_iff [simp]: "get_eff f s = (r, s') \<longleftrightarrow> r = Ok (f s) \<and> s' = s"
  by (auto simp: get_eff_def)

lemma bind_lift [simp]: "bind_eff (lift_eff (Inr x)) f s = f x s" "bind_eff (lift_eff (Inl e)) f s = (Inl e, s)"
  by (simp_all add: bind_eff_def lift_eff_def)

lemma bind_get [simp]: "bind_eff (get_eff h) f s = f (h s) s"
  by (simp add: bind_eff_def get_eff_def)

lemma snd_bind_lift: "snd (bind_eff (lift_eff r) f s) = (case r of Inl _ \<Rightarrow> s | Inr x \<Rightarrow> snd (f x s))"
  by (cases r) auto

lemma snd_bind_result: "snd (bind_eff m (\<lambda>x. lift_eff (r x)) s) = snd (m s)"
  by (simp add: bind_eff_def lift_eff_def split: prod.splits sum.splits)

locale eff_relation =
  fixes R :: "'s \<Rightarrow> 's \<Rightarrow> bool"
  assumes same: "R s s"
    and trans: "R s t \<Longrightarrow> R t u \<Longrightarrow> R s u"
begin

lemma bind: "R s (snd (m s)) \<Longrightarrow> (\<And>x t. m s = (Inr x, t) \<Longrightarrow> R t (snd (f x t))) \<Longrightarrow> R s (snd (bind_eff m f s))"
  by (cases "m s") (auto simp: bind_eff_def split: sum.splits intro: trans)

lemma lifted [simp]: "R s (snd (lift_eff r s))"
  by (simp add: lift_eff_def same)

lemma got [simp]: "R s (snd (get_eff f s))"
  by (simp add: get_eff_def same)

lemma each: "(\<And>x t. x \<in> set xs \<Longrightarrow> R t (snd (f x t))) \<Longrightarrow> R s (snd (for_each f xs s))"
  by (induction xs arbitrary: s) (auto intro: bind)

end

end
