(* ===== verification/Registry_Pull.thy ===== *)
theory Registry_Pull
  imports Registry_Auth Effects
begin

text \<open>
  Talking to a registry, second part (\<^verbatim>\<open>moraebox-image/src/registry.rs\<close>): authenticated requests with
  retries, manifests, blobs and \<^verbatim>\<open>pull\<close>. What the outside answers is the record \<open>world\<close>: the \<open>n\<close>-th
  request gets the \<open>n\<close>-th answer, whatever was asked, so a statement about all worlds is one about all
  servers. JSON (crate \<^verbatim>\<open>serde_json\<close>), URLs, dates and the hash are functions of it. The layers, which
  the code fetches up to four at a time and collects in order, are fetched one after the other. A request
  has no body, so that \<^verbatim>\<open>try_clone\<close> never fails.
\<close>

section \<open>State and effects\<close>

record http_response =
  hr_status :: nat
  hr_content_length :: "nat option"
  hr_digest_header :: "string option"
  hr_challenge :: "string option"
  hr_retry_after :: "string option"
  hr_body :: "(bytes, http_error) result list"

record ImageIndex =
  ix_schema_version :: nat
  ix_manifests :: "Descriptor list"

datatype ManifestEnvelope = EnvIndex ImageIndex | EnvManifest ImageManifest

record TokenResponse =
  to_token :: "string option"
  to_access_token :: "string option"

record world =
  w_net :: "nat \<Rightarrow> (http_response, http_error) result"
  w_cas :: "nat \<Rightarrow> cas_env"
  w_now :: "nat \<Rightarrow> nat"
  w_sha :: "bytes \<Rightarrow> Digest"
  w_url :: "string \<Rightarrow> Url option"
  w_http_date :: "string \<Rightarrow> nat option"
  w_envelope :: "bytes \<Rightarrow> (ManifestEnvelope, string) result"
  w_manifest :: "bytes \<Rightarrow> (ImageManifest, string) result"
  w_token :: "bytes \<Rightarrow> (TokenResponse, string) result"

record registry_client =
  rc_credentials :: "Credentials option"
  rc_allowed_realms :: "RealmOrigin list"
  rc_limits :: ImagePullLimits

datatype request =
    RqGet string "string option" "string option"
  | RqToken outgoing_token_request

record pull_state =
  ps_requests :: "request list"
  ps_token :: "string option"
  ps_cas :: cas
  ps_cas_calls :: nat
  ps_slept :: "duration list"

type_synonym 'a pull = "(pull_state, RegistryError, 'a) eff"

definition sleep_pull :: "duration \<Rightarrow> unit pull" where
  "sleep_pull d s = (Ok (), s\<lparr>ps_slept := ps_slept s @ [d]\<rparr>)"

section \<open>Requests\<close>

definition send :: "world \<Rightarrow> request \<Rightarrow> pull_state \<Rightarrow> (http_response, http_error) result \<times> pull_state" where
  "send w rq s = (w_net w (length (ps_requests s)), s\<lparr>ps_requests := ps_requests s @ [rq]\<rparr>)"

text \<open>The loops over \<^verbatim>\<open>0..MAX_REQUEST_ATTEMPTS\<close> count the attempts that are left; \<open>n\<close> is the number of the attempt.\<close>

primrec send_retrying_from :: "world \<Rightarrow> request \<Rightarrow> nat \<Rightarrow> nat \<Rightarrow> http_response pull" where
  "send_retrying_from w rq 0 n = lift_eff (Err RgUnreachable)"
| "send_retrying_from w rq (Suc left) n =
     (\<lambda>s. case send w rq s of
        (Inr response, s1) \<Rightarrow>
          if retryable_status (hr_status response) \<and> n + 1 < MAX_REQUEST_ATTEMPTS
          then bind_eff (sleep_pull (retry_delay (w_http_date w) (hr_retry_after response) n (w_now w (length (ps_requests s1)))))
                 (\<lambda>_. send_retrying_from w rq left (n + 1)) s1
          else (Ok response, s1)
      | (Inl e, s1) \<Rightarrow>
          if retryable_transport_error e \<and> n + 1 < MAX_REQUEST_ATTEMPTS
          then bind_eff (sleep_pull (default_retry_delay n)) (\<lambda>_. send_retrying_from w rq left (n + 1)) s1
          else (Err (RgHttp e), s1))"

definition send_retrying :: "world \<Rightarrow> request \<Rightarrow> http_response pull" where
  "send_retrying w rq = send_retrying_from w rq MAX_REQUEST_ATTEMPTS 0"

primrec read_bounded_body ::
  "string \<Rightarrow> nat \<Rightarrow> (bytes, http_error) result list \<Rightarrow> nat \<Rightarrow> bytes \<Rightarrow> (bytes, RegistryError) result" where
  "read_bounded_body resource maximum [] len bs = Ok bs"
| "read_bounded_body resource maximum (chunk # chunks) len bs =
     and_then (map_err RgHttp chunk) (\<lambda>chunk.
     and_then (checked_download_length resource len (length chunk) maximum) (\<lambda>len.
       read_bounded_body resource maximum chunks len (bs @ chunk)))"

definition read_bounded_response :: "http_response \<Rightarrow> string \<Rightarrow> nat \<Rightarrow> (bytes, RegistryError) result" where
  "read_bounded_response response resource maximum =
     and_then (case hr_content_length response of
                 Some declared \<Rightarrow> verify_download_limit resource declared maximum
               | None \<Rightarrow> Ok ())
       (\<lambda>_. read_bounded_body resource maximum (hr_body response) 0 [])"

definition token_of_response :: "TokenResponse \<Rightarrow> (string, RegistryError) result" where
  "token_of_response t =
     (case (case to_token t of Some x \<Rightarrow> Some x | None \<Rightarrow> to_access_token t) of
        Some x \<Rightarrow> if x = [] then Err RgMissingToken else Ok x
      | None \<Rightarrow> Err RgMissingToken)"

primrec exchange_token_from ::
  "world \<Rightarrow> registry_client \<Rightarrow> string \<Rightarrow> RegistryReference \<Rightarrow> nat \<Rightarrow> nat \<Rightarrow> string pull" where
  "exchange_token_from w client challenge reference 0 n = lift_eff (Err RgUnreachable)"
| "exchange_token_from w client challenge reference (Suc left) n =
     bind_eff (lift_eff (token_request (w_url w) (rc_credentials client) (rc_allowed_realms client) challenge reference)) (\<lambda>rq.
     bind_eff (send_retrying w (RqToken rq)) (\<lambda>response.
       if 300 \<le> hr_status response \<and> hr_status response < 400
       then lift_eff (Err (RgTokenRedirectDisallowed (hr_status response)))
       else if \<not> (200 \<le> hr_status response \<and> hr_status response < 300)
       then lift_eff (Err (RgTokenStatus (hr_status response)))
       else
         (case read_bounded_response response ''registry token response'' MAX_TOKEN_RESPONSE_BYTES of
            Inr bs \<Rightarrow> lift_eff (and_then (map_err RgJson (w_token w bs)) token_of_response)
          | Inl (RgHttp e) \<Rightarrow>
              if retryable_transport_error e \<and> n + 1 < MAX_REQUEST_ATTEMPTS
              then bind_eff (sleep_pull (default_retry_delay n))
                     (\<lambda>_. exchange_token_from w client challenge reference left (n + 1))
              else lift_eff (Err (RgHttp e))
          | Inl e \<Rightarrow> lift_eff (Err e))))"

definition exchange_token :: "world \<Rightarrow> registry_client \<Rightarrow> string \<Rightarrow> RegistryReference \<Rightarrow> string pull" where
  "exchange_token w client challenge reference =
     exchange_token_from w client challenge reference MAX_REQUEST_ATTEMPTS 0"

definition set_token :: "string option \<Rightarrow> unit pull" where
  "set_token t s = (Ok (), s\<lparr>ps_token := t\<rparr>)"

definition get_authenticated ::
  "world \<Rightarrow> registry_client \<Rightarrow> string \<Rightarrow> RegistryReference \<Rightarrow> string option \<Rightarrow> http_response pull" where
  "get_authenticated w client url reference accept =
     bind_eff (get_eff ps_token) (\<lambda>current.
     bind_eff (send_retrying w (RqGet url accept current)) (\<lambda>response.
     bind_eff
       (if hr_status response = 401 then
          bind_eff (lift_eff (ok_or (hr_challenge response) RgMissingChallenge)) (\<lambda>challenge.
          bind_eff (get_eff ps_token) (\<lambda>token.
          bind_eff (if token = current
                     then bind_eff (exchange_token w client challenge reference) (\<lambda>t. set_token (Some t))
                     else lift_eff (Ok ())) (\<lambda>_.
          bind_eff (get_eff ps_token) (\<lambda>token.
          bind_eff (lift_eff (ok_or token RgMissingToken)) (\<lambda>refreshed.
            send_retrying w (RqGet url accept (Some refreshed)))))))
        else lift_eff (Ok response)) (\<lambda>response.
       lift_eff (if 200 \<le> hr_status response \<and> hr_status response < 300 then Ok response
                  else Err (RgHttpStatus (hr_status response) url)))))"

definition registry_url :: "RegistryReference \<Rightarrow> string \<Rightarrow> string" where
  "registry_url reference resource =
     ''https://'' @ endpoint_registry reference @ ''/v2/'' @ repository reference @ ''/'' @ resource"

section \<open>The store during a pull\<close>

definition cas_put_stream ::
  "world \<Rightarrow> Digest option \<Rightarrow> nat option \<Rightarrow> nat \<Rightarrow> (bytes, http_error) result list \<Rightarrow> pull_state
     \<Rightarrow> (Digest, http_error PutStreamError) result \<times> pull_state" where
  "cas_put_stream w expected_digest expected_size maximum stream s =
     (case put_stream (w_sha w) (w_cas w (ps_cas_calls s)) expected_digest expected_size maximum stream (ps_cas s) of
        (r, c) \<Rightarrow> (r, s\<lparr>ps_cas := c, ps_cas_calls := ps_cas_calls s + 1\<rparr>))"

definition cas_read_blob :: "world \<Rightarrow> Digest \<Rightarrow> bytes pull" where
  "cas_read_blob w d s =
     (map_err RgCas (cas_read (w_sha w) (w_cas w (ps_cas_calls s)) d (ps_cas s)),
      s\<lparr>ps_cas_calls := ps_cas_calls s + 1\<rparr>)"

definition cas_verify_blob :: "world \<Rightarrow> Digest \<Rightarrow> nat pull" where
  "cas_verify_blob w d s =
     (map_err RgCas (cas_verify (w_sha w) (w_cas w (ps_cas_calls s)) d (ps_cas s)),
      s\<lparr>ps_cas_calls := ps_cas_calls s + 1\<rparr>)"

definition map_manifest_stream_error ::
  "http_error PutStreamError \<Rightarrow> string \<Rightarrow> nat option \<Rightarrow> nat \<Rightarrow> RegistryError" where
  "map_manifest_stream_error e sel expected_size maximum =
     (case e of
        PsSource e \<Rightarrow> RgHttp e
      | PsCas (DigestMismatch expected actual) \<Rightarrow> RgManifestDigestMismatch expected actual
      | PsCas e \<Rightarrow> RgCas e
      | PsSizeExceeded actual \<Rightarrow>
          (case expected_size of
             Some expected \<Rightarrow> RgDescriptorSizeMismatch sel expected actual
           | None \<Rightarrow> RgDownloadLimitExceeded ''manifest'' actual maximum)
      | PsSizeMismatch expected actual \<Rightarrow>
          (case expected_size of
             Some expected \<Rightarrow> RgDescriptorSizeMismatch sel expected actual
           | None \<Rightarrow> RgDescriptorSizeMismatch sel expected actual))"

definition map_descriptor_stream_error :: "http_error PutStreamError \<Rightarrow> Descriptor \<Rightarrow> RegistryError" where
  "map_descriptor_stream_error e descriptor =
     (case e of
        PsSource e \<Rightarrow> RgHttp e
      | PsCas e \<Rightarrow> RgCas e
      | PsSizeExceeded actual \<Rightarrow> RgDescriptorSizeMismatch (ds_digest descriptor) (ds_size descriptor) actual
      | PsSizeMismatch _ actual \<Rightarrow> RgDescriptorSizeMismatch (ds_digest descriptor) (ds_size descriptor) actual)"

definition ACCEPT_MANIFESTS :: string where
  "ACCEPT_MANIFESTS =
     ''application/vnd.oci.image.index.v1+json,'' @ ''application/vnd.oci.image.manifest.v1+json,'' @
     ''application/vnd.docker.distribution.manifest.list.v2+json,'' @ ''application/vnd.docker.distribution.manifest.v2+json''"

section \<open>Manifests and blobs\<close>

text \<open>The checks of one manifest response before its body is read: the digest it has to have.\<close>

definition check_manifest_response ::
  "ImagePullLimits \<Rightarrow> string \<Rightarrow> nat option \<Rightarrow> Digest option \<Rightarrow> http_response \<Rightarrow> (Digest option, RegistryError) result" where
  "check_manifest_response limits sel expected_size selector_digest response =
     and_then (case hr_content_length response of
                 None \<Rightarrow> Ok ()
               | Some declared \<Rightarrow>
                   and_then (verify_download_limit ''manifest'' declared (pl_max_manifest_bytes limits)) (\<lambda>_.
                     case expected_size of
                       Some expected \<Rightarrow>
                         if declared \<noteq> expected then Err (RgDescriptorSizeMismatch sel expected declared) else Ok ()
                     | None \<Rightarrow> Ok ())) (\<lambda>_.
     and_then (case hr_digest_header response of
                 None \<Rightarrow> Ok None
               | Some h \<Rightarrow> map_err RgCas (and_then (digest_from_str h) (\<lambda>d. Ok (Some d)))) (\<lambda>header_digest.
       case (selector_digest, header_digest) of
         (Some expected, Some found) \<Rightarrow>
           if expected \<noteq> found then Err (RgManifestDigestMismatch expected found) else Ok (Some expected)
       | (Some expected, None) \<Rightarrow> Ok (Some expected)
       | (None, h) \<Rightarrow> Ok h))"

primrec get_manifest_from ::
  "world \<Rightarrow> registry_client \<Rightarrow> RegistryReference \<Rightarrow> string \<Rightarrow> nat option \<Rightarrow> Digest option \<Rightarrow> nat \<Rightarrow> nat
     \<Rightarrow> (bytes \<times> Digest) pull" where
  "get_manifest_from w client reference sel expected_size selector_digest 0 n = lift_eff (Err RgUnreachable)"
| "get_manifest_from w client reference sel expected_size selector_digest (Suc left) n =
     bind_eff (get_authenticated w client (registry_url reference (''manifests/'' @ sel)) reference (Some ACCEPT_MANIFESTS)) (\<lambda>response.
     bind_eff (lift_eff (check_manifest_response (rc_limits client) sel expected_size selector_digest response)) (\<lambda>expected_digest s.
       case cas_put_stream w expected_digest expected_size (pl_max_manifest_bytes (rc_limits client)) (hr_body response) s of
         (Inr d, s1) \<Rightarrow> bind_eff (cas_read_blob w d) (\<lambda>bs. lift_eff (Ok (bs, d))) s1
       | (Inl e, s1) \<Rightarrow>
           (case e of
              PsSource h \<Rightarrow>
                if retryable_transport_error h \<and> n + 1 < MAX_REQUEST_ATTEMPTS
                then bind_eff (sleep_pull (default_retry_delay n))
                       (\<lambda>_. get_manifest_from w client reference sel expected_size selector_digest left (n + 1)) s1
                else (Err (RgHttp h), s1)
            | _ \<Rightarrow> (Err (map_manifest_stream_error e sel expected_size (pl_max_manifest_bytes (rc_limits client))), s1))))"

definition get_manifest ::
  "world \<Rightarrow> registry_client \<Rightarrow> RegistryReference \<Rightarrow> string \<Rightarrow> nat option \<Rightarrow> (bytes \<times> Digest) pull" where
  "get_manifest w client reference sel expected_size =
     bind_eff (lift_eff (if starts_with ''sha256:'' sel
                           then map_err RgCas (and_then (digest_from_str sel) (\<lambda>d. Ok (Some d))) else Ok None)) (\<lambda>selector_digest.
       get_manifest_from w client reference sel expected_size selector_digest MAX_REQUEST_ATTEMPTS 0)"

primrec fetch_blob_from ::
  "world \<Rightarrow> registry_client \<Rightarrow> RegistryReference \<Rightarrow> Descriptor \<Rightarrow> Digest \<Rightarrow> nat \<Rightarrow> nat \<Rightarrow> Digest pull" where
  "fetch_blob_from w client reference descriptor digest 0 n = lift_eff (Err RgUnreachable)"
| "fetch_blob_from w client reference descriptor digest (Suc left) n =
     bind_eff (get_authenticated w client (registry_url reference (''blobs/'' @ digest_display digest)) reference None) (\<lambda>response.
     bind_eff (lift_eff
       (case hr_content_length response of
          Some declared \<Rightarrow>
            if declared \<noteq> ds_size descriptor
            then Err (RgDescriptorSizeMismatch (ds_digest descriptor) (ds_size descriptor) declared) else Ok ()
        | None \<Rightarrow> Ok ())) (\<lambda>_ s.
       case cas_put_stream w (Some digest) (Some (ds_size descriptor)) (ds_size descriptor) (hr_body response) s of
         (Inr d, s1) \<Rightarrow> (Ok d, s1)
       | (Inl e, s1) \<Rightarrow>
           (case e of
              PsSource h \<Rightarrow>
                if retryable_transport_error h \<and> n + 1 < MAX_REQUEST_ATTEMPTS
                then bind_eff (sleep_pull (default_retry_delay n))
                       (\<lambda>_. fetch_blob_from w client reference descriptor digest left (n + 1)) s1
                else (Err (RgHttp h), s1)
            | _ \<Rightarrow> (Err (map_descriptor_stream_error e descriptor), s1))))"

text \<open>\<^verbatim>\<open>try_exists\<close> and \<^verbatim>\<open>metadata\<close> of the blob file: its length, when it is there.\<close>

definition blob_length :: "world \<Rightarrow> Digest \<Rightarrow> nat option pull" where
  "blob_length w d s =
     ((case ce_fault (w_cas w (ps_cas_calls s)) AtExists of
         Some e \<Rightarrow> Err (RgIo e)
       | None \<Rightarrow> Ok (map_option length (map_of (cs_blobs (ps_cas s)) d))),
      s\<lparr>ps_cas_calls := ps_cas_calls s + 1\<rparr>)"

definition fetch_blob :: "world \<Rightarrow> registry_client \<Rightarrow> RegistryReference \<Rightarrow> Descriptor \<Rightarrow> Digest pull" where
  "fetch_blob w client reference descriptor =
     bind_eff (lift_eff (map_err RgCas (digest_from_str (ds_digest descriptor)))) (\<lambda>digest.
     bind_eff (blob_length w digest) (\<lambda>len.
       case len of
         Some n \<Rightarrow>
           bind_eff (lift_eff (verify_descriptor_size_u64 descriptor n)) (\<lambda>_.
           bind_eff (cas_verify_blob w digest) (\<lambda>_. lift_eff (Ok digest)))
       | None \<Rightarrow> fetch_blob_from w client reference descriptor digest MAX_REQUEST_ATTEMPTS 0))"

primrec fetch_layers :: "world \<Rightarrow> registry_client \<Rightarrow> RegistryReference \<Rightarrow> Descriptor list \<Rightarrow> Digest list pull" where
  "fetch_layers w client reference [] = lift_eff (Ok [])"
| "fetch_layers w client reference (layer # layers) =
     bind_eff (fetch_blob w client reference layer) (\<lambda>d.
     bind_eff (fetch_layers w client reference layers) (\<lambda>ds. lift_eff (Ok (d # ds))))"

section \<open>Pulling an image\<close>

record PulledImage =
  pi_reference :: string
  pi_source_manifest_digest :: Digest
  pi_manifest_digest :: Digest
  pi_manifest :: ImageManifest
  pi_config_digest :: Digest
  pi_layer_digests :: "Digest list"
  pi_limits :: ImagePullLimits

definition verify_reference_digest :: "RegistryReference \<Rightarrow> Digest \<Rightarrow> (unit, RegistryError) result" where
  "verify_reference_digest reference actual =
     (case selector reference of
        Image_Reference.Digest text \<Rightarrow>
          and_then (map_err RgCas (digest_from_str text)) (\<lambda>expected.
            if expected \<noteq> actual then Err (RgManifestDigestMismatch expected actual) else Ok ())
      | Tag _ \<Rightarrow> Ok ())"

definition verify_manifest_descriptor :: "Descriptor \<Rightarrow> Digest \<Rightarrow> Digest \<Rightarrow> nat \<Rightarrow> (unit, RegistryError) result" where
  "verify_manifest_descriptor descriptor expected actual actual_size =
     (if expected \<noteq> actual then Err (RgManifestDigestMismatch expected actual)
      else verify_descriptor_size_u64 descriptor actual_size)"

definition select_manifest ::
  "world \<Rightarrow> registry_client \<Rightarrow> RegistryReference \<Rightarrow> Platform \<Rightarrow> Digest \<Rightarrow> ManifestEnvelope \<Rightarrow> (Digest \<times> ImageManifest) pull" where
  "select_manifest w client reference platform source_digest envelope =
     (case envelope of
        EnvManifest manifest \<Rightarrow> lift_eff (Ok (source_digest, manifest))
      | EnvIndex index \<Rightarrow>
          if ix_schema_version index \<noteq> 2 then lift_eff (Err (RgUnsupportedSchema (ix_schema_version index)))
          else
            bind_eff (lift_eff (ok_or (List.find (\<lambda>d. platform_matches (ds_platform d) platform) (ix_manifests index))
                                        (RgPlatformNotFound platform))) (\<lambda>descriptor.
            bind_eff (lift_eff (verify_download_limit ''selected manifest'' (ds_size descriptor)
                                    (pl_max_manifest_bytes (rc_limits client)))) (\<lambda>_.
            bind_eff (lift_eff (map_err RgCas (digest_from_str (ds_digest descriptor)))) (\<lambda>expected.
            bind_eff (get_manifest w client reference (ds_digest descriptor) (Some (ds_size descriptor))) (\<lambda>(selected, actual).
            bind_eff (lift_eff (verify_manifest_descriptor descriptor expected actual (length selected))) (\<lambda>_.
            bind_eff (lift_eff (map_err RgJson (w_manifest w selected))) (\<lambda>manifest.
              lift_eff (Ok (actual, manifest)))))))))"

definition pull :: "world \<Rightarrow> registry_client \<Rightarrow> RegistryReference \<Rightarrow> Platform \<Rightarrow> PulledImage pull" where
  "pull w client reference platform =
     bind_eff (set_token None) (\<lambda>_.
     bind_eff (get_manifest w client reference (selector_text reference) None) (\<lambda>(source_bytes, source_digest).
     bind_eff (lift_eff (verify_reference_digest reference source_digest)) (\<lambda>_.
     bind_eff (lift_eff (map_err RgJson (w_envelope w source_bytes))) (\<lambda>envelope.
     bind_eff (select_manifest w client reference platform source_digest envelope) (\<lambda>(manifest_digest, manifest).
     bind_eff (lift_eff (if im_schema_version manifest \<noteq> 2 then Err (RgUnsupportedSchema (im_schema_version manifest)) else Ok ())) (\<lambda>_.
     bind_eff (lift_eff (validate_manifest_limits manifest (rc_limits client))) (\<lambda>_.
     bind_eff (fetch_blob w client reference (im_config manifest)) (\<lambda>config_digest.
     bind_eff (fetch_layers w client reference (im_layers manifest)) (\<lambda>layer_digests.
       lift_eff (Ok
         \<lparr>pi_reference = registry_reference_display reference, pi_source_manifest_digest = source_digest,
          pi_manifest_digest = manifest_digest, pi_manifest = manifest, pi_config_digest = config_digest,
          pi_layer_digests = layer_digests, pi_limits = rc_limits client\<rparr>))))))))))"

end
