(* ===== verification/Registry_Properties.thy ===== *)
theory Registry_Properties
  imports Registry_Pull
begin

text \<open>
  What a pull guarantees. The locale \<open>pull_relation\<close> carries a relation between states from the primitive
  effects to every operation of a pull; it is interpreted three times: the store grows by verified
  blobs only, requests stay at the registry and credentials at trusted token servers, and pauses are bounded. Then
  what a returned image has verified, and that no retry loop reaches its end.
\<close>

section \<open>What every step of a pull keeps\<close>

text \<open>
  A reflexive and transitive relation between states that holds for every primitive effect holds for
  everything a pull does. \<open>good\<close> says which requests the relation admits.
\<close>

locale pull_relation = eff_relation R for R :: "pull_state \<Rightarrow> pull_state \<Rightarrow> bool" +
  fixes good :: "request \<Rightarrow> bool"
    and w :: world and client :: registry_client and reference :: RegistryReference
  assumes sent: "good rq \<Longrightarrow> R s (snd (send w rq s))"
    and good_get: "good (RqGet (registry_url reference resource) accept token)"
    and good_token: "token_request (w_url w) (rc_credentials client) (rc_allowed_realms client) challenge reference = Inr tr \<Longrightarrow>
      good (RqToken tr)"
    and slept: "d \<le> MAX_RETRY_DELAY \<Longrightarrow> R s (snd (sleep_pull d s))"
    and token_set: "R s (snd (set_token tok s))"
    and stored: "R s (snd (cas_put_stream w ed es mx stream s))"
    and counted: "R s (s\<lparr>ps_cas_calls := ps_cas_calls s + 1\<rparr>)"
begin

lemma retry_slept: "R s (snd (sleep_pull (default_retry_delay n) s))"
  by (rule slept) (simp add: default_retry_delay_def)

lemma send_retrying_keeps: "good rq \<Longrightarrow> R s (snd (send_retrying w rq s))"
proof -
  assume good: "good rq"
  have "R s (snd (send_retrying_from w rq left n s))" for left n s
  proof (induction left arbitrary: n s)
    case (Suc left)
    obtain r s1 where s1: "send w rq s = (r, s1)" by fastforce
    with sent [OF good, of s] have "R s s1" by simp
    moreover have "R s1 (snd (bind_eff (sleep_pull d) (\<lambda>_. send_retrying_from w rq left (n + 1)) s1))"
      if "d \<le> MAX_RETRY_DELAY" for d
      by (rule bind) (use Suc.IH slept [OF that] in auto)
    ultimately show ?case
      using trans same by (auto simp: s1 retry_delay_def default_retry_delay_def split: sum.splits)
  qed simp
  then show ?thesis by (simp add: send_retrying_def)
qed

lemma exchange_token_keeps: "R s (snd (exchange_token w client challenge reference s))"
proof -
  have "R s (snd (exchange_token_from w client challenge reference left n s))" for left n s
  proof (induction left arbitrary: n s)
    case (Suc left)
    show ?case
      unfolding exchange_token_from.simps
      by (intro bind send_retrying_keeps)
        (auto split: sum.splits RegistryError.splits intro!: bind retry_slept Suc.IH good_token)
  qed simp
  then show ?thesis by (simp add: exchange_token_def)
qed

lemma get_authenticated_keeps: "R s (snd (get_authenticated w client (registry_url reference resource) reference accept s))"
  unfolding get_authenticated_def
  by (intro bind send_retrying_keeps good_get)
    (auto intro!: bind exchange_token_keeps send_retrying_keeps good_get token_set)

lemma cas_read_keeps: "R s (snd (cas_read_blob w d s))" "R s (snd (cas_verify_blob w d s))" "R s (snd (blob_length w d s))"
  by (simp_all add: cas_read_blob_def cas_verify_blob_def blob_length_def counted [simplified])

lemma get_manifest_keeps: "R s (snd (get_manifest w client reference sel es s))"
proof -
  have "R s (snd (get_manifest_from w client reference sel es sd left n s))" for left n s sd
  proof (induction left arbitrary: n s)
    case (Suc left)
    have put: "R t (snd (case cas_put_stream w ed es mx stream t of
         (Inr d, s1) \<Rightarrow> bind_eff (cas_read_blob w d) (\<lambda>bs. lift_eff (Ok (bs, d))) s1
       | (Inl e, s1) \<Rightarrow>
           (case e of
              PsSource h \<Rightarrow>
                if retryable_transport_error h \<and> n + 1 < MAX_REQUEST_ATTEMPTS
                then bind_eff (sleep_pull (default_retry_delay n))
                       (\<lambda>_. get_manifest_from w client reference sel es sd left (n + 1)) s1
                else (Err (RgHttp h), s1)
            | _ \<Rightarrow> (Err (map_manifest_stream_error e sel es mx), s1))))" for t ed mx stream
    proof -
      obtain r s1 where s1: "cas_put_stream w ed es mx stream t = (r, s1)" by fastforce
      with stored [of t ed es mx stream] have t: "R t s1" by simp
      have retry: "R s1 (snd (bind_eff (sleep_pull (default_retry_delay n))
                       (\<lambda>_. get_manifest_from w client reference sel es sd left (n + 1)) s1))"
        by (rule bind) (use Suc.IH retry_slept in auto)
      have got: "R s1 (snd (bind_eff (cas_read_blob w d) (\<lambda>bs. lift_eff (Ok (bs, d))) s1))" for d
        by (rule bind) (auto intro: cas_read_keeps)
      show ?thesis
        by (cases r) (auto simp: s1 t split: PutStreamError.splits intro!: trans [OF t got] trans [OF t retry [simplified]])
    qed
    show ?case
      unfolding get_manifest_from.simps by (intro bind get_authenticated_keeps lifted put)
  qed simp
  then show ?thesis unfolding get_manifest_def by (intro bind lifted)
qed

lemma fetch_blob_keeps: "R s (snd (fetch_blob w client reference ds s))"
proof -
  have "R s (snd (fetch_blob_from w client reference ds d left n s))" for left n s d
  proof (induction left arbitrary: n s)
    case (Suc left)
    have put: "R t (snd (case cas_put_stream w ed es mx stream t of
         (Inr d, s1) \<Rightarrow> (Ok d, s1)
       | (Inl e, s1) \<Rightarrow>
           (case e of
              PsSource h \<Rightarrow>
                if retryable_transport_error h \<and> n + 1 < MAX_REQUEST_ATTEMPTS
                then bind_eff (sleep_pull (default_retry_delay n))
                       (\<lambda>_. fetch_blob_from w client reference ds d left (n + 1)) s1
                else (Err (RgHttp h), s1)
            | _ \<Rightarrow> (Err (map_descriptor_stream_error e ds), s1))))" for t ed es mx stream
    proof -
      obtain r s1 where s1: "cas_put_stream w ed es mx stream t = (r, s1)" by fastforce
      with stored [of t ed es mx stream] have t: "R t s1" by simp
      have retry: "R s1 (snd (bind_eff (sleep_pull (default_retry_delay n))
                       (\<lambda>_. fetch_blob_from w client reference ds d left (n + 1)) s1))"
        by (rule bind) (use Suc.IH retry_slept in auto)
      show ?thesis
        by (cases r) (auto simp: s1 t split: PutStreamError.splits intro!: trans [OF t retry [simplified]])
    qed
    show ?case
      unfolding fetch_blob_from.simps by (intro bind get_authenticated_keeps lifted put)
  qed simp
  then show ?thesis
    unfolding fetch_blob_def
    by (intro bind lifted cas_read_keeps) (auto split: option.splits intro!: bind cas_read_keeps)
qed

lemma fetch_layers_keeps: "R s (snd (fetch_layers w client reference layers s))"
  by (induction layers arbitrary: s) (auto intro!: bind fetch_blob_keeps)

lemma select_manifest_keeps: "R s (snd (select_manifest w client reference platform d envelope s))"
  unfolding select_manifest_def
  by (auto split: ManifestEnvelope.splits intro!: bind get_manifest_keeps)

lemma pull_keeps: "R s (snd (pull w client reference platform s))"
  unfolding pull_def
  by (auto intro!: bind token_set get_manifest_keeps select_manifest_keeps fetch_blob_keeps fetch_layers_keeps)

end

text \<open>The store grows by verified blobs only.\<close>

lemma extends_verified_refl: "extends_verified sha s s"
  by (auto simp: extends_verified_def)

lemma extends_verified_trans: "extends_verified sha s t \<Longrightarrow> extends_verified sha t u \<Longrightarrow> extends_verified sha s u"
  unfolding extends_verified_def by (metis option.exhaust)

lemma put_stream_extends: "put_stream sha env ed es mx stream s = (r, s') \<Longrightarrow> extends_verified sha s s'"
  by (drule put_stream_publishes) (unfold publishes_verified_def extends_verified_def, metis option.distinct(1) option.inject)

interpretation growth: pull_relation "\<lambda>s s'. extends_verified (w_sha w) (ps_cas s) (ps_cas s')" "\<lambda>_. True" w client reference
  for w client reference
proof unfold_locales
  show "extends_verified (w_sha w) (ps_cas s) (ps_cas (snd (cas_put_stream w ed es mx stream s)))" for ed es mx stream s
    by (auto simp: cas_put_stream_def split: prod.splits dest: put_stream_extends)
qed (auto simp: extends_verified_refl send_def sleep_pull_def set_token_def intro: extends_verified_trans)

text \<open>Where requests go, and what the ones for a token carry.\<close>

definition trusted_origin :: "world \<Rightarrow> registry_client \<Rightarrow> RegistryReference \<Rightarrow> Url \<Rightarrow> bool" where
  "trusted_origin w client reference url \<longleftrightarrow>
     (\<exists>reg org. origin_from_registry (w_url w) reference = Ok reg \<and> origin_from_url url = Ok org \<and>
        (same_or_below (ro_host reg) (ro_host org) \<and> ro_port org = ro_port reg \<or>
         ro_host reg = ''registry-1.docker.io'' \<and> ro_port reg = 443 \<and> ro_host org = ''auth.docker.io'' \<and> ro_port org = 443 \<or>
         org \<in> set (rc_allowed_realms client)))"

definition confined :: "world \<Rightarrow> registry_client \<Rightarrow> RegistryReference \<Rightarrow> request \<Rightarrow> bool" where
  "confined w client reference rq \<longleftrightarrow>
     (case rq of
        RqGet url _ _ \<Rightarrow> \<exists>resource. url = registry_url reference resource
      | RqToken t \<Rightarrow>
          u_scheme (tr_url t) = ''https'' \<and> u_username (tr_url t) = [] \<and> u_password (tr_url t) = None \<and>
          (tr_credentials t \<noteq> None \<longrightarrow>
             tr_credentials t = rc_credentials client \<and> trusted_origin w client reference (tr_url t)))"

lemma token_request_confined:
  assumes "token_request (w_url w) (rc_credentials client) (rc_allowed_realms client) challenge reference = Inr t"
  shows "confined w client reference (RqToken t)"
proof -
  obtain c :: BearerChallenge and realm where realm: "validate_token_realm (w_url w) (bc_realm c) = Inr realm" "tr_url t = realm"
    using assms by (auto simp: token_request_def and_then_Inr_iff Let_def split: option.splits if_splits)
  have url: "u_scheme realm = ''https''" "u_username realm = []" "u_password realm = None"
    using realm(1) by (auto simp: validate_token_realm_def and_then_Inr_iff split: if_splits)
  have "tr_credentials t = rc_credentials client \<and> trusted_origin w client reference realm" if "tr_credentials t \<noteq> None"
  proof -
    have t: "credential_realm_is_trusted (w_url w) reference realm (rc_allowed_realms client) = Inr True"
        "tr_credentials t = rc_credentials client"
      using assms that realm(2)
      by (auto simp: token_request_def and_then_Inr_iff Let_def split: option.splits if_splits)
    from trusted_realm [OF t(1)] show ?thesis unfolding trusted_origin_def using t(2) by metis
  qed
  with url realm(2) show ?thesis by (simp add: confined_def)
qed

interpretation requests: pull_relation
  "\<lambda>s s'. \<exists>l. ps_requests s' = ps_requests s @ l \<and> list_all (confined w client reference) l"
  "confined w client reference" w client reference
  for w client reference
proof unfold_locales
  show "\<exists>l. ps_requests (snd (send w rq s)) = ps_requests s @ l \<and> list_all (confined w client reference) l"
    if "confined w client reference rq" for rq s
    using that by (simp add: send_def)
  show "confined w client reference (RqGet (registry_url reference resource) accept token)" for resource accept token
    by (auto simp: confined_def)
qed (auto simp: sleep_pull_def set_token_def cas_put_stream_def token_request_confined split: prod.splits)

interpretation pauses: pull_relation
  "\<lambda>s s'. \<exists>l. ps_slept s' = ps_slept s @ l \<and> list_all (\<lambda>d. d \<le> MAX_RETRY_DELAY) l" "\<lambda>_. True" w client reference
  for w client reference
  by unfold_locales (auto simp: sleep_pull_def set_token_def cas_put_stream_def send_def split: prod.splits)

section \<open>What a pull has verified\<close>

lemma verify_stream_size_Inr:
  "verify_stream_size n es mx = Inr u \<longleftrightarrow> n \<le> mx \<and> (\<forall>e. es = Some e \<longrightarrow> n = e)"
  by (auto simp: verify_stream_size_def split: option.splits)

lemma put_stream_staged_Ok:
  assumes "put_stream_staged sha env ed es mx k len hashed s = ((Inr d :: (Digest, 'e PutStreamError) result), published, s')"
  shows "d = sha hashed" "\<forall>e. ed = Some e \<longrightarrow> d = e" "len \<le> mx" "\<forall>e. es = Some e \<longrightarrow> len = e"
    and "map_of (cs_blobs s) d = None \<Longrightarrow> published \<and> s' = publish_staged k d s"
    and "map_of (cs_blobs s) d \<noteq> None \<Longrightarrow>
      \<not> published \<and> s' = s \<and> (\<exists>n \<le> mx. cas_verify sha env d s = Inr n \<and> (\<forall>e. es = Some e \<longrightarrow> n = e))"
proof -
  obtain u where u: "and_then (verify_stream_size len es mx :: (unit, 'e PutStreamError) result) (\<lambda>_.
           and_then (map_err PsCas (cas_try env AtSync)) (\<lambda>_.
           and_then (case ed of
                       Some e \<Rightarrow> if e \<noteq> sha hashed then Err (PsCas (DigestMismatch e (sha hashed))) else Ok ()
                     | None \<Rightarrow> map_err PsCas (cas_try env AtLock)) (\<lambda>_.
           map_err PsCas (cas_try env AtExists)))) = Inr u"
    (is "?checks = _") using assms by (cases ?checks) (simp_all add: put_stream_staged_def Let_def)
  then show "len \<le> mx" "\<forall>e. es = Some e \<longrightarrow> len = e" by (auto simp: and_then_Inr_iff verify_stream_size_Inr)
  show d: "d = sha hashed"
    using assms by (auto simp: put_stream_staged_def Let_def u and_then_Inr_iff split: sum.splits if_splits)
  show "\<forall>e. ed = Some e \<longrightarrow> d = e" using u d by (auto simp: and_then_Inr_iff split: option.splits if_splits)
  show "published \<and> s' = publish_staged k d s" if "map_of (cs_blobs s) d = None"
    using assms that unfolding d by (auto simp: put_stream_staged_def Let_def u split: sum.splits)
  show "\<not> published \<and> s' = s \<and> (\<exists>n \<le> mx. cas_verify sha env d s = Inr n \<and> (\<forall>e. es = Some e \<longrightarrow> n = e))"
    if "map_of (cs_blobs s) d \<noteq> None"
    using assms that unfolding d
    by (auto simp: put_stream_staged_def Let_def u and_then_Inr_iff map_err_Inr_iff verify_stream_size_Inr)
qed

lemma put_stream_Ok:
  fixes stream :: "(bytes, 'e) result list"
  assumes "put_stream sha env ed es mx stream s = (Inr d, s')"
  shows "\<exists>b. map_of (cs_blobs s') d = Some b \<and> sha b = d \<and> min (length b) U64_MAX \<le> mx \<and>
    (\<forall>e. es = Some e \<longrightarrow> min (length b) U64_MAX = e) \<and> (\<forall>e. ed = Some e \<longrightarrow> d = e)"
proof -
  obtain c s1 where c: "create_staged_blob env InTmp s = (c, s1)" by fastforce
  with assms obtain k where k: "c = Inr k" by (cases c) (auto simp: put_stream_def split: sum.splits)
  obtain rl s2 where l: "put_stream_loop env es mx k 0 stream 0 [] s1 = (rl, s2)" by fastforce
  with assms c k obtain len hashed where rl: "rl = Inr (len, hashed)"
    by (cases rl) (auto simp: put_stream_def split: sum.splits)
  obtain r published s3 where p: "put_stream_staged sha env ed es mx k len hashed s2 =
      ((r :: (Digest, 'e PutStreamError) result), published, s3)" by (metis prod_cases3)
  have r: "r = Inr d" "s' = drop_staged k published s3"
    using assms c k l rl p by (auto simp: put_stream_def split: sum.splits)
  note ok = put_stream_staged_Ok [OF p [unfolded r(1)]]
  have h: "len = min (length hashed) U64_MAX" "map_of (cs_staged s2) k = Some hashed"
    using put_stream_loop_staged [OF l] create_staged_blob_cases(3) [OF c k] rl by auto
  show ?thesis
  proof (cases "map_of (cs_blobs s2) d = None")
    case True
    then show ?thesis
      using ok(1-4) ok(5) [OF True] r(2) h by (auto simp: drop_staged_def publish_staged_def update_conv')
  next
    case False
    with ok(6) obtain n where "\<not> published" "s3 = s2" "n \<le> mx" "cas_verify sha env d s2 = Inr n" "\<forall>e. es = Some e \<longrightarrow> n = e"
      by blast
    then show ?thesis using r(2) ok(2) by (auto simp: cas_verify_Inr drop_staged_def)
  qed
qed

text \<open>The blob of a descriptor is in the store, under the descriptor's digest and with its size.\<close>

definition blob_stored :: "world \<Rightarrow> cas \<Rightarrow> Descriptor \<Rightarrow> Digest \<Rightarrow> bool" where
  "blob_stored w c ds d \<longleftrightarrow>
     digest_from_str (ds_digest ds) = Ok d \<and>
     (\<exists>b. map_of (cs_blobs c) d = Some b \<and> w_sha w b = d \<and> min (length b) U64_MAX = min (ds_size ds) U64_MAX)"

lemma blob_stored_grows: "blob_stored w c ds d \<Longrightarrow> extends_verified (w_sha w) c c' \<Longrightarrow> blob_stored w c' ds d"
  by (auto simp: blob_stored_def extends_verified_def)

lemma cas_put_stream_Ok:
  assumes "cas_put_stream w ed es mx stream s = (Inr d, s')"
  shows "\<exists>b. map_of (cs_blobs (ps_cas s')) d = Some b \<and> w_sha w b = d \<and>
    (\<forall>e. es = Some e \<longrightarrow> min (length b) U64_MAX = e) \<and> (\<forall>e. ed = Some e \<longrightarrow> d = e)"
  using assms put_stream_Ok by (fastforce simp: cas_put_stream_def split: prod.splits)

lemma fetch_blob_Ok:
  assumes "fetch_blob w client reference ds s = (Inr d, s')"
  shows "blob_stored w (ps_cas s') ds d"
proof -
  have retry: "d = e \<and> (\<exists>b. map_of (cs_blobs (ps_cas s')) e = Some b \<and> w_sha w b = e \<and> min (length b) U64_MAX = ds_size ds)"
    if "fetch_blob_from w client reference ds e left n t = (Inr d, s')" for e left n t
    using that
  proof (induction left arbitrary: n t)
    case (Suc left)
    then obtain response :: http_response and u where "(case cas_put_stream w (Some e) (Some (ds_size ds)) (ds_size ds) (hr_body response) u of
         (Inr d, s1) \<Rightarrow> (Ok d, s1)
       | (Inl e', s1) \<Rightarrow>
           (case e' of
              PsSource h \<Rightarrow>
                if retryable_transport_error h \<and> n + 1 < MAX_REQUEST_ATTEMPTS
                then bind_eff (sleep_pull (default_retry_delay n))
                       (\<lambda>_. fetch_blob_from w client reference ds e left (n + 1)) s1
                else (Err (RgHttp h), s1)
            | _ \<Rightarrow> (Err (map_descriptor_stream_error e' ds), s1))) = (Inr d, s')"
      by (auto simp: bind_eff_Inr)
    then show ?case
      using Suc.IH by (auto simp: bind_eff_Inr split: prod.splits sum.splits PutStreamError.splits if_splits
          dest!: cas_put_stream_Ok)
  qed simp
  have digest: "\<exists>u. digest_from_str (ds_digest ds) = Inr u" using assms by (auto simp: fetch_blob_def bind_eff_Inr map_err_Inr_iff)
  then obtain e where e: "digest_from_str (ds_digest ds) = Inr e" by blast
  from assms e consider n t where "map_of (cs_blobs (ps_cas s)) e \<noteq> None" "blob_length w e s = (Inr (Some n), t)"
      "verify_descriptor_size_u64 ds n = Inr ()" "bind_eff (cas_verify_blob w e) (\<lambda>_. lift_eff (Ok e)) t = (Inr d, s')"
    | t where "fetch_blob_from w client reference ds e MAX_REQUEST_ATTEMPTS 0 t = (Inr d, s')"
    by (auto simp: fetch_blob_def bind_eff_Inr map_err_def blob_length_def split: option.splits)
  then show ?thesis
  proof cases
    case 1
    then show ?thesis
      using e by (auto simp: blob_stored_def blob_length_def bind_eff_Inr cas_verify_blob_def map_err_Inr_iff cas_verify_Inr
          verify_descriptor_size_u64_def split: option.splits if_splits)
  next
    case 2
    then show ?thesis using retry [OF 2] e by (auto simp: blob_stored_def)
  qed
qed

text \<open>The bytes of a manifest are in the store, under their digest.\<close>

definition manifest_stored :: "world \<Rightarrow> cas \<Rightarrow> bytes \<Rightarrow> Digest \<Rightarrow> bool" where
  "manifest_stored w c bs d \<longleftrightarrow> map_of (cs_blobs c) d = Some bs \<and> w_sha w bs = d"

lemma manifest_stored_grows: "manifest_stored w c bs d \<Longrightarrow> extends_verified (w_sha w) c c' \<Longrightarrow> manifest_stored w c' bs d"
  by (auto simp: manifest_stored_def extends_verified_def)

lemma cas_read_blob_Ok: "cas_read_blob w d s = (Inr bs, s') \<Longrightarrow> manifest_stored w (ps_cas s') bs d"
  by (auto simp: cas_read_blob_def map_err_Inr_iff cas_read_Inr manifest_stored_def)

lemma check_manifest_response_Ok:
  assumes "check_manifest_response limits sel es (Some e) response = Inr ed"
  shows "ed = Some e"
proof -
  obtain header_digest where "(case header_digest of
      Some found \<Rightarrow> if e \<noteq> found then Err (RgManifestDigestMismatch e found) else Ok (Some e)
    | None \<Rightarrow> Ok (Some e)) = Inr ed"
    using assms unfolding check_manifest_response_def and_then_Inr_iff prod.case option.case by blast
  then show ?thesis by (auto split: option.splits if_splits)
qed

lemma get_manifest_from_Ok:
  assumes "get_manifest_from w client reference sel es sd left n s = (Inr (bs, d), s')"
  shows "manifest_stored w (ps_cas s') bs d \<and> (\<forall>e. sd = Some e \<longrightarrow> d = e)"
  using assms
proof (induction left arbitrary: n s)
  case (Suc left)
  from Suc.prems obtain response :: http_response and ed t where
    ed: "check_manifest_response (rc_limits client) sel es sd response = Inr ed"
    and put: "(case cas_put_stream w ed es (pl_max_manifest_bytes (rc_limits client)) (hr_body response) t of
         (Inr d, s1) \<Rightarrow> bind_eff (cas_read_blob w d) (\<lambda>bs. lift_eff (Ok (bs, d))) s1
       | (Inl e, s1) \<Rightarrow>
           (case e of
              PsSource h \<Rightarrow>
                if retryable_transport_error h \<and> n + 1 < MAX_REQUEST_ATTEMPTS
                then bind_eff (sleep_pull (default_retry_delay n))
                       (\<lambda>_. get_manifest_from w client reference sel es sd left (n + 1)) s1
                else (Err (RgHttp h), s1)
            | _ \<Rightarrow> (Err (map_manifest_stream_error e sel es (pl_max_manifest_bytes (rc_limits client))), s1))) = (Inr (bs, d), s')"
    unfolding get_manifest_from.simps bind_eff_Inr lift_eff_iff by blast
  obtain r s1 where s1: "cas_put_stream w ed es (pl_max_manifest_bytes (rc_limits client)) (hr_body response) t = (r, s1)"
    by fastforce
  show ?case
  proof (cases r)
    case (Inl e)
    then show ?thesis using put s1 Suc.IH by (auto simp: bind_eff_Inr split: PutStreamError.splits if_splits)
  next
    case (Inr d')
    then have "d = d'" "cas_read_blob w d s1 = (Inr bs, s')" using put s1 by (auto simp: bind_eff_Inr)
    moreover have "\<forall>e. sd = Some e \<longrightarrow> d' = e"
      using cas_put_stream_Ok [OF s1 [unfolded Inr]] ed check_manifest_response_Ok by blast
    ultimately show ?thesis using cas_read_blob_Ok by auto
  qed
qed simp

lemma get_manifest_Ok:
  assumes "get_manifest w client reference sel es s = (Inr (bs, d), s')"
  shows "manifest_stored w (ps_cas s') bs d"
    and "starts_with ''sha256:'' sel \<Longrightarrow> digest_from_str sel = Inr d"
proof -
  obtain sd where sd: "(if starts_with ''sha256:'' sel
        then map_err RgCas (and_then (digest_from_str sel) (\<lambda>d. Ok (Some d))) else Ok None) = Inr sd"
    and g: "get_manifest_from w client reference sel es sd MAX_REQUEST_ATTEMPTS 0 s = (Inr (bs, d), s')"
    using assms by (auto simp: get_manifest_def bind_eff_Inr)
  show "manifest_stored w (ps_cas s') bs d" using get_manifest_from_Ok [OF g] by simp
  show "digest_from_str sel = Inr d" if "starts_with ''sha256:'' sel"
    using sd get_manifest_from_Ok [OF g] that by (auto simp: map_err_Inr_iff and_then_Inr_iff)
qed

text \<open>Everything that was stored is still there later in the pull.\<close>

lemma kept_in_store:
  assumes "fetch_blob w client reference ds s = (r, s')" shows "extends_verified (w_sha w) (ps_cas s) (ps_cas s')"
  using growth.fetch_blob_keeps [of w s client reference ds] assms by simp

lemma layers_kept_in_store:
  assumes "fetch_layers w client reference layers s = (r, s')" shows "extends_verified (w_sha w) (ps_cas s) (ps_cas s')"
  using growth.fetch_layers_keeps [of w s client reference layers] assms by simp

lemma fetch_layers_Ok:
  assumes "fetch_layers w client reference layers s = (Inr ds, s')"
  shows "list_all2 (blob_stored w (ps_cas s')) layers ds"
  using assms
proof (induction layers arbitrary: s ds)
  case (Cons layer layers)
  then obtain d t ds' where "fetch_blob w client reference layer s = (Inr d, t)" "ds = d # ds'"
    and l: "fetch_layers w client reference layers t = (Inr ds', s')"
    by (auto simp: bind_eff_Inr)
  then show ?case
    using Cons.IH fetch_blob_Ok blob_stored_grows layers_kept_in_store [OF l] by (metis list_all2_Cons)
qed simp

lemma compressed_size_Ok:
  assumes "compressed_size limits layers n = Inr m" "pl_max_compressed_bytes limits < U64_MAX"
  shows "m = n + sum_list (map ds_size layers) \<and> list_all (\<lambda>l. ds_size l \<le> pl_max_layer_bytes limits) layers"
  using assms
proof (induction layers arbitrary: n)
  case (Cons layer layers)
  then have "compressed_size limits layers (n + ds_size layer) = Inr m" "ds_size layer \<le> pl_max_layer_bytes limits"
    by (auto simp: and_then_Inr_iff verify_download_limit_def saturating_add_def Let_def split: if_splits)
  then show ?case using Cons.IH [of "n + ds_size layer"] Cons.prems(2) by simp
qed simp

lemma validate_manifest_limits_Ok:
  assumes "validate_manifest_limits manifest limits = Inr u" "pl_max_compressed_bytes limits < U64_MAX"
  shows "length (im_layers manifest) \<le> pl_max_layers limits"
    "ds_size (im_config manifest) \<le> pl_max_config_bytes limits"
    "ds_size (im_config manifest) + sum_list (map ds_size (im_layers manifest)) \<le> pl_max_compressed_bytes limits"
    "list_all (\<lambda>l. ds_size l \<le> pl_max_layer_bytes limits) (im_layers manifest)"
  using assms by (auto simp: validate_manifest_limits_def and_then_Inr_iff verify_download_limit_def
      split: if_splits dest: compressed_size_Ok)

text \<open>How the manifest of the image follows from what the reference named.\<close>

definition chosen_manifest ::
  "world \<Rightarrow> cas \<Rightarrow> Platform \<Rightarrow> ManifestEnvelope \<Rightarrow> Digest \<Rightarrow> Digest \<Rightarrow> ImageManifest \<Rightarrow> bool" where
  "chosen_manifest w c platform envelope source_digest d manifest \<longleftrightarrow>
     (case envelope of
        EnvManifest m \<Rightarrow> d = source_digest \<and> manifest = m
      | EnvIndex index \<Rightarrow>
          ix_schema_version index = 2 \<and>
          (\<exists>ds \<in> set (ix_manifests index). platform_matches (ds_platform ds) platform \<and>
             digest_from_str (ds_digest ds) = Ok d \<and>
             (\<exists>bs. manifest_stored w c bs d \<and> length bs = ds_size ds \<and> w_manifest w bs = Ok manifest)))"

lemma chosen_manifest_grows:
  "chosen_manifest w c platform envelope sd d m \<Longrightarrow> extends_verified (w_sha w) c c' \<Longrightarrow>
     chosen_manifest w c' platform envelope sd d m"
  unfolding chosen_manifest_def by (auto split: ManifestEnvelope.splits dest: manifest_stored_grows)

lemma select_manifest_Ok:
  assumes "select_manifest w client reference platform sd envelope s = (Inr (d, m), s')"
  shows "chosen_manifest w (ps_cas s') platform envelope sd d m"
proof (cases envelope)
  case (EnvIndex index)
  with assms have schema: "ix_schema_version index = 2" by (auto simp: select_manifest_def split: if_splits)
  from assms EnvIndex schema obtain ds t bs expected where
    ds: "List.find (\<lambda>d. platform_matches (ds_platform d) platform) (ix_manifests index) = Some ds"
    and expected: "map_err RgCas (digest_from_str (ds_digest ds)) = Inr expected"
    and get: "get_manifest w client reference (ds_digest ds) (Some (ds_size ds)) t = (Inr (bs, d), s')"
    and verify: "verify_manifest_descriptor ds expected d (length bs) = Inr ()"
    and m: "map_err RgJson (w_manifest w bs) = Inr m"
    by (auto simp: select_manifest_def bind_eff_Inr ok_or_Inr_iff)
  from verify have "expected = d" "ds_size ds = length bs"
    by (auto simp: verify_manifest_descriptor_def verify_descriptor_size_u64_def split: if_splits)
  moreover have "platform_matches (ds_platform ds) platform" "ds \<in> set (ix_manifests index)"
    using ds by (auto simp: find_Some_iff)
  ultimately show ?thesis
    using get_manifest_Ok(1) [OF get] schema EnvIndex expected m
    by (auto simp: chosen_manifest_def map_err_Inr_iff intro!: bexI [of _ ds])
qed (use assms in \<open>auto simp: select_manifest_def chosen_manifest_def\<close>)

text \<open>
  C7: when \<^verbatim>\<open>pull\<close> returns an image, everything it names is in the content store under its SHA-256 digest: the
  manifest the reference named, whose digest is the one in the reference when it has one; the manifest
  of the platform, which is that one or the one its index lists for the platform, with the digest and size the index
  gives; the configuration and each layer, in order, with the digest and size of their descriptors. The layers and
  sizes stay within the limits of the client, whatever the servers answered and however the store failed in between.
\<close>

theorem pull_verified:
  assumes "pull w client reference platform s = (Ok img, s')"
    and "pl_max_compressed_bytes (rc_limits client) < U64_MAX"
  shows "(\<exists>bs envelope. manifest_stored w (ps_cas s') bs (pi_source_manifest_digest img) \<and> w_envelope w bs = Ok envelope \<and>
        chosen_manifest w (ps_cas s') platform envelope (pi_source_manifest_digest img) (pi_manifest_digest img) (pi_manifest img)) \<and>
    (\<forall>t. selector reference = Image_Reference.Digest t \<longrightarrow> digest_from_str t = Ok (pi_source_manifest_digest img)) \<and>
    blob_stored w (ps_cas s') (im_config (pi_manifest img)) (pi_config_digest img) \<and>
    list_all2 (blob_stored w (ps_cas s')) (im_layers (pi_manifest img)) (pi_layer_digests img) \<and>
    length (im_layers (pi_manifest img)) \<le> pl_max_layers (rc_limits client) \<and>
    ds_size (im_config (pi_manifest img)) \<le> pl_max_config_bytes (rc_limits client) \<and>
    list_all (\<lambda>l. ds_size l \<le> pl_max_layer_bytes (rc_limits client)) (im_layers (pi_manifest img)) \<and>
    ds_size (im_config (pi_manifest img)) + sum_list (map ds_size (im_layers (pi_manifest img)))
      \<le> pl_max_compressed_bytes (rc_limits client)"
proof -
  obtain source t1 sd envelope t2 md m t3 cd t4 ds u where
    g: "get_manifest w client reference (selector_text reference) None (s\<lparr>ps_token := None\<rparr>) = (Inr (source, sd), t1)"
    and v: "verify_reference_digest reference sd = Inr u"
    and e: "map_err RgJson (w_envelope w source) = Inr envelope"
    and sel: "select_manifest w client reference platform sd envelope t1 = (Inr (md, m), t2)"
    and lim: "validate_manifest_limits m (rc_limits client) = Inr ()"
    and cfg: "fetch_blob w client reference (im_config m) t2 = (Inr cd, t3)"
    and lay: "fetch_layers w client reference (im_layers m) t3 = (Inr ds, s')"
    and img: "pi_source_manifest_digest img = sd" "pi_manifest_digest img = md" "pi_manifest img = m"
      "pi_config_digest img = cd" "pi_layer_digests img = ds"
    using assms(1) by (auto simp: pull_def bind_eff_Inr set_token_def)
  have grow: "extends_verified (w_sha w) (ps_cas t1) (ps_cas t2)" "extends_verified (w_sha w) (ps_cas t2) (ps_cas s')"
      "extends_verified (w_sha w) (ps_cas t3) (ps_cas s')"
    using growth.select_manifest_keeps [of w t1 client reference platform sd envelope] sel kept_in_store [OF cfg]
      layers_kept_in_store [OF lay] extends_verified_trans by auto
  have "\<forall>t. selector reference = Image_Reference.Digest t \<longrightarrow> digest_from_str t = Inr sd"
    using v by (auto simp: verify_reference_digest_def and_then_Inr_iff map_err_Inr_iff split: if_splits)
  then show ?thesis
    using get_manifest_Ok(1) [OF g] select_manifest_Ok [OF sel] fetch_blob_Ok [OF cfg] fetch_layers_Ok [OF lay] e
      validate_manifest_limits_Ok [OF lim assms(2)] grow unfolding img map_err_Inr_iff
    by (meson manifest_stored_grows chosen_manifest_grows blob_stored_grows extends_verified_trans)
qed

text \<open>
  A pull against a server that asks for a token, then answers the manifest, is unavailable once, and sends the
  configuration and a layer; the hash of the example keeps the bytes and fills them up to 32.
\<close>

definition example_sha :: "bytes \<Rightarrow> Digest" where
  "example_sha bs = take 32 (bs @ replicate 32 0)"

definition example_descriptor :: "bytes \<Rightarrow> Descriptor" where
  "example_descriptor bs =
     \<lparr>ds_media_type = ''application/octet-stream'', ds_digest = digest_display (example_sha bs), ds_size = length bs, ds_platform = None\<rparr>"

definition example_answer :: "nat \<Rightarrow> bytes \<Rightarrow> http_response" where
  "example_answer status body =
     \<lparr>hr_status = status, hr_content_length = None, hr_digest_header = None,
      hr_challenge = Some ''Bearer realm=\"https://auth.r.io/token\"'', hr_retry_after = None, hr_body = [Ok body]\<rparr>"

definition example_url :: "string \<Rightarrow> Url option" where
  "example_url t =
     (let host = (if t = ''https://r.io/'' then ''r.io'' else ''auth.r.io'') in
      Some \<lparr>u_text = t, u_scheme = ''https'', u_host = Some host, u_port = Some 443, u_username = [], u_password = None, u_fragment = None\<rparr>)"

definition example_manifest :: ImageManifest where
  "example_manifest =
     \<lparr>im_schema_version = 2, im_media_type = None, im_config = example_descriptor [2, 2], im_layers = [example_descriptor [3]]\<rparr>"

definition example_world :: world where
  "example_world =
     \<lparr>w_net = (\<lambda>n. Ok ([example_answer 401 [], example_answer 200 [9], example_answer 200 [1], example_answer 503 [],
                     example_answer 200 [2, 2], example_answer 200 [3]] ! n)),
      w_cas = (\<lambda>_. \<lparr>ce_fault = \<lambda>_. None, ce_appeared = None\<rparr>), w_now = (\<lambda>_. 0), w_sha = example_sha, w_url = example_url,
      w_http_date = (\<lambda>_. None), w_envelope = (\<lambda>_. Ok (EnvManifest example_manifest)), w_manifest = (\<lambda>_. Ok example_manifest),
      w_token = (\<lambda>_. Ok \<lparr>to_token = Some ''t'', to_access_token = None\<rparr>)\<rparr>"

definition example_client :: registry_client where
  "example_client =
     \<lparr>rc_credentials = Some \<lparr>cr_username = ''u'', cr_password = ''p''\<rparr>, rc_allowed_realms = [], rc_limits = pull_limits_default\<rparr>"

definition example_reference :: RegistryReference where
  "example_reference = \<lparr>registry = ''r.io'', repository = ''app'', selector = Tag ''v1''\<rparr>"

definition example_pull :: "(PulledImage, RegistryError) result \<times> pull_state" where
  "example_pull =
     pull example_world example_client example_reference \<lparr>pf_os = ''linux'', pf_architecture = ''arm64'', pf_variant = None\<rparr>
       \<lparr>ps_requests = [], ps_token = None, ps_cas = \<lparr>cs_blobs = [], cs_staged = [], cs_sequence = 0\<rparr>, ps_cas_calls = 0, ps_slept = []\<rparr>"

lemma example_pull_Ok:
  "(case example_pull of (Inr i, t) \<Rightarrow> im_layers (pi_manifest i) = [example_descriptor [3]] \<and> pi_layer_digests i = [example_sha [3]] \<and> length (ps_requests t) = 6 | _ \<Rightarrow> False)"
  by code_simp

theorem pull_verified_witness:
  "\<exists>img s'. example_pull = (Ok img, s') \<and> list_all2 (blob_stored example_world (ps_cas s')) [example_descriptor [3]] [example_sha [3]]"
proof -
  obtain img s' where p: "example_pull = (Ok img, s')" "im_layers (pi_manifest img) = [example_descriptor [3]]"
    "pi_layer_digests img = [example_sha [3]]"
    using example_pull_Ok by (auto split: prod.splits sum.splits)
  have "pl_max_compressed_bytes (rc_limits example_client) < U64_MAX" by code_simp
  with pull_verified [OF p(1) [unfolded example_pull_def]] p show ?thesis by (intro exI [of _ img] exI [of _ s']) simp
qed


text \<open>
  a pull waits at most five seconds before each repeated request, whatever the server's
  \<^verbatim>\<open>Retry-After\<close> asks for.
\<close>

theorem pull_pauses_bounded:
  "\<exists>l. ps_slept (snd (pull w client reference platform s)) = ps_slept s @ l \<and> list_all (\<lambda>d. d \<le> from_secs 5) l"
  using pauses.pull_keeps [where s = s and w = w and client = client and reference = reference and platform = platform] by (simp add: MAX_RETRY_DELAY_def)

section \<open>The end of a retry loop is not reached\<close>

definition no_panic :: "('a, RegistryError) result \<Rightarrow> bool" where
  "no_panic r \<longleftrightarrow> r \<noteq> Inl RgUnreachable"

definition never_panics :: "'a pull \<Rightarrow> bool" where
  "never_panics m \<longleftrightarrow> (\<forall>s. no_panic (fst (m s)))"

lemma no_panic_simps [simp]: "no_panic (Inr x)" "no_panic (Inl e) \<longleftrightarrow> e \<noteq> RgUnreachable"
  "no_panic (ok_or v e) \<longleftrightarrow> v \<noteq> None \<or> e \<noteq> RgUnreachable"
  by (auto simp: no_panic_def ok_or_def split: option.splits)

lemma no_panic_map_err: "(\<And>e. f e \<noteq> RgUnreachable) \<Longrightarrow> no_panic (map_err f r)"
  by (cases r) (auto simp: map_err_def no_panic_def)

lemma no_panic_and_then: "no_panic r \<Longrightarrow> (\<And>x. r = Inr x \<Longrightarrow> no_panic (f x)) \<Longrightarrow> no_panic (and_then r f)"
  by (cases r) (auto simp: and_then_def no_panic_def)

lemma never_panics_bind: "never_panics m \<Longrightarrow> (\<And>x. never_panics (f x)) \<Longrightarrow> never_panics (bind_eff m f)"
  by (auto simp: never_panics_def bind_eff_def no_panic_def split: prod.splits sum.splits) (metis fst_conv)+

lemma never_panics_lift [simp]: "never_panics (lift_eff r) \<longleftrightarrow> no_panic r"
  by (simp add: never_panics_def lift_eff_def)

lemma never_panics_effects [simp]:
  "never_panics (sleep_pull d)" "never_panics (get_eff f)" "never_panics (set_token t)"
  "never_panics (cas_read_blob w b)" "never_panics (cas_verify_blob w b)" "never_panics (blob_length w b)"
  by (auto simp: never_panics_def sleep_pull_def get_eff_def set_token_def cas_read_blob_def cas_verify_blob_def
      blob_length_def intro: no_panic_map_err split: option.splits)

lemma no_panic_checks [simp]:
  "no_panic (verify_download_limit resource a m)" "no_panic (checked_download_length resource a n m)"
  "no_panic (verify_descriptor_size_u64 ds n)" "no_panic (compressed_size limits layers n)"
  by (simp_all add: verify_download_limit_def checked_download_length_def verify_descriptor_size_u64_def Let_def no_panic_and_then)
    (induction layers arbitrary: n, auto intro!: no_panic_and_then simp: verify_download_limit_def Let_def)

lemma no_panic_validate [simp]: "no_panic (validate_manifest_limits m limits)"
  unfolding validate_manifest_limits_def by (auto intro!: no_panic_and_then)

lemma no_panic_parameters [simp]: "no_panic (auth_parameters v ps)"
  by (induction v ps rule: auth_parameters.induct)
    (subst auth_parameters.simps, auto simp: Let_def split: option.splits)

lemma no_panic_challenge [simp]: "no_panic (parse_bearer_challenge v)"
proof -
  have unique: "no_panic (unique_parameter ps key)" for ps key
    by (auto simp: unique_parameter_def split: list.splits)
  show ?thesis
    unfolding parse_bearer_challenge_def Let_def parse_auth_parameters_def
    by (auto split: option.splits intro!: no_panic_and_then unique)
qed

lemma no_panic_token_request [simp]: "no_panic (token_request url_parse credentials allowed challenge reference)"
proof -
  have origin: "no_panic (origin_from_url url)" for url
    by (auto simp: origin_from_url_def intro!: no_panic_and_then)
  have "no_panic (validate_token_realm url_parse v)" for v
    by (auto simp: validate_token_realm_def intro!: no_panic_and_then)
  moreover have "no_panic (credential_realm_is_trusted url_parse reference realm allowed)" for realm
    by (auto simp: credential_realm_is_trusted_def origin_from_registry_def Let_def
        intro!: no_panic_and_then no_panic_map_err origin)
  ultimately show ?thesis
    unfolding token_request_def Let_def by (auto split: option.splits intro!: no_panic_and_then origin)
qed

lemma send_retrying_never_panics [simp]: "never_panics (send_retrying w rq)"
proof -
  have "left + n = MAX_REQUEST_ATTEMPTS \<Longrightarrow> 0 < left \<Longrightarrow> never_panics (send_retrying_from w rq left n)" for left n
  proof (induction left arbitrary: n)
    case (Suc left)
    then have retry: "never_panics (bind_eff (sleep_pull d) (\<lambda>_. send_retrying_from w rq left (n + 1)))"
      if "n + 1 < MAX_REQUEST_ATTEMPTS" for d
      using that by (auto intro!: never_panics_bind)
    then show ?case by (auto simp: never_panics_def split: prod.splits sum.splits)
  qed simp
  then show ?thesis by (simp add: send_retrying_def MAX_REQUEST_ATTEMPTS_def)
qed

lemma no_panic_read_bounded: "no_panic (read_bounded_response response resource mx)"
proof -
  have "no_panic (read_bounded_body resource mx chunks n bs)" for chunks n bs
    by (induction chunks arbitrary: n bs) (auto intro!: no_panic_and_then no_panic_map_err)
  then show ?thesis
    unfolding read_bounded_response_def by (auto intro!: no_panic_and_then split: option.splits)
qed

lemma exchange_token_never_panics [simp]: "never_panics (exchange_token w client challenge reference)"
proof -
  have token: "no_panic (and_then (map_err RgJson r) token_of_response)" for r
    by (auto simp: token_of_response_def split: option.splits intro!: no_panic_and_then no_panic_map_err)
  have "left + n = MAX_REQUEST_ATTEMPTS \<Longrightarrow> 0 < left \<Longrightarrow> never_panics (exchange_token_from w client challenge reference left n)" for left n
  proof (induction left arbitrary: n)
    case (Suc left)
    then have retry: "never_panics (bind_eff (sleep_pull d) (\<lambda>_. exchange_token_from w client challenge reference left (n + 1)))"
      if "n + 1 < MAX_REQUEST_ATTEMPTS" for d
      using that by (auto intro!: never_panics_bind)
    have "never_panics (case read_bounded_response response resource mx of
            Inr bs \<Rightarrow> lift_eff (and_then (map_err RgJson (w_token w bs)) token_of_response)
          | Inl (RgHttp e) \<Rightarrow>
              if retryable_transport_error e \<and> n + 1 < MAX_REQUEST_ATTEMPTS
              then bind_eff (sleep_pull (default_retry_delay n)) (\<lambda>_. exchange_token_from w client challenge reference left (n + 1))
              else lift_eff (Err (RgHttp e))
          | Inl e \<Rightarrow> lift_eff (Err e))" for response resource mx
      using no_panic_read_bounded [of response resource mx] token retry
      by (cases "read_bounded_response response resource mx") (auto split: RegistryError.splits)
    then show ?case unfolding exchange_token_from.simps by (auto intro!: never_panics_bind)
  qed simp
  then show ?thesis by (simp add: exchange_token_def MAX_REQUEST_ATTEMPTS_def)
qed

lemma get_authenticated_never_panics [simp]: "never_panics (get_authenticated w client url reference accept)"
  unfolding get_authenticated_def by (auto intro!: never_panics_bind)

lemma stream_error_no_panic:
  "map_manifest_stream_error e sel es mx \<noteq> RgUnreachable" "map_descriptor_stream_error e ds \<noteq> RgUnreachable"
  by (auto simp: map_manifest_stream_error_def map_descriptor_stream_error_def
      split: PutStreamError.splits CasError.splits option.splits)

lemma check_manifest_response_no_panic: "no_panic (check_manifest_response limits sel es sd response)"
  unfolding check_manifest_response_def
  by (intro no_panic_and_then) (auto intro!: no_panic_and_then no_panic_map_err split: option.splits)

lemma get_manifest_never_panics: "never_panics (get_manifest w client reference sel es)"
proof -
  have "left + n = MAX_REQUEST_ATTEMPTS \<Longrightarrow> 0 < left \<Longrightarrow> never_panics (get_manifest_from w client reference sel es sd left n)"
    for left n sd
  proof (induction left arbitrary: n)
    case (Suc left)
    then have retry: "never_panics (bind_eff (sleep_pull d) (\<lambda>_. get_manifest_from w client reference sel es sd left (n + 1)))"
      if "n + 1 < MAX_REQUEST_ATTEMPTS" for d
      using that by (auto intro!: never_panics_bind)
    have "never_panics (bind_eff (cas_read_blob w d) (\<lambda>bs. lift_eff (Ok (bs, d))))" for d
      by (auto intro!: never_panics_bind)
    with retry have "never_panics (\<lambda>s. case cas_put_stream w ed es mx stream s of
         (Inr d, s1) \<Rightarrow> bind_eff (cas_read_blob w d) (\<lambda>bs. lift_eff (Ok (bs, d))) s1
       | (Inl e, s1) \<Rightarrow>
           (case e of
              PsSource h \<Rightarrow>
                if retryable_transport_error h \<and> n + 1 < MAX_REQUEST_ATTEMPTS
                then bind_eff (sleep_pull (default_retry_delay n))
                       (\<lambda>_. get_manifest_from w client reference sel es sd left (n + 1)) s1
                else (Err (RgHttp h), s1)
            | _ \<Rightarrow> (Err (map_manifest_stream_error e sel es mx), s1)))" for ed mx stream
      by (auto simp: never_panics_def stream_error_no_panic split: prod.splits sum.splits PutStreamError.splits)
    then show ?case
      unfolding get_manifest_from.simps by (auto intro!: never_panics_bind check_manifest_response_no_panic)
  qed simp
  then have "never_panics (get_manifest_from w client reference sel es sd MAX_REQUEST_ATTEMPTS 0)" for sd
    by (simp add: MAX_REQUEST_ATTEMPTS_def)
  then show ?thesis unfolding get_manifest_def by (auto intro!: never_panics_bind no_panic_map_err)
qed

lemma fetch_blob_never_panics: "never_panics (fetch_blob w client reference ds)"
proof -
  have "left + n = MAX_REQUEST_ATTEMPTS \<Longrightarrow> 0 < left \<Longrightarrow> never_panics (fetch_blob_from w client reference ds b left n)"
    for left n b
  proof (induction left arbitrary: n)
    case (Suc left)
    then have retry: "never_panics (bind_eff (sleep_pull d) (\<lambda>_. fetch_blob_from w client reference ds b left (n + 1)))"
      if "n + 1 < MAX_REQUEST_ATTEMPTS" for d
      using that by (auto intro!: never_panics_bind)
    then have "never_panics (\<lambda>s. case cas_put_stream w ed es mx stream s of
         (Inr d, s1) \<Rightarrow> (Ok d, s1)
       | (Inl e, s1) \<Rightarrow>
           (case e of
              PsSource h \<Rightarrow>
                if retryable_transport_error h \<and> n + 1 < MAX_REQUEST_ATTEMPTS
                then bind_eff (sleep_pull (default_retry_delay n)) (\<lambda>_. fetch_blob_from w client reference ds b left (n + 1)) s1
                else (Err (RgHttp h), s1)
            | _ \<Rightarrow> (Err (map_descriptor_stream_error e ds), s1)))" for ed es mx stream
      by (auto simp: never_panics_def stream_error_no_panic split: prod.splits sum.splits PutStreamError.splits)
    then show ?case
      unfolding fetch_blob_from.simps by (auto intro!: never_panics_bind split: option.splits)
  qed simp
  then have "never_panics (fetch_blob_from w client reference ds b MAX_REQUEST_ATTEMPTS 0)" for b
    by (simp add: MAX_REQUEST_ATTEMPTS_def)
  then show ?thesis
    unfolding fetch_blob_def by (auto intro!: never_panics_bind no_panic_map_err split: option.splits)
qed

text \<open>
  the \<^verbatim>\<open>unreachable!\<close> behind each of the four retry loops (requests, token, manifest, blob) is unreachable: a
  pull returns an image or one of the other errors, for every behaviour of the servers and the store.
\<close>

theorem pull_never_panics: "fst (pull w client reference platform s) \<noteq> Err RgUnreachable"
proof -
  have "never_panics (fetch_layers w client reference layers)" for layers
    by (induction layers) (auto intro!: never_panics_bind fetch_blob_never_panics)
  moreover have "never_panics (select_manifest w client reference platform d envelope)" for d envelope
    unfolding select_manifest_def verify_manifest_descriptor_def
    by (auto split: ManifestEnvelope.splits intro!: never_panics_bind get_manifest_never_panics no_panic_map_err)
  ultimately have "never_panics (pull w client reference platform)"
    unfolding pull_def verify_reference_digest_def
    by (auto intro!: never_panics_bind get_manifest_never_panics fetch_blob_never_panics no_panic_map_err no_panic_and_then
        split: Selector.splits)
  then show ?thesis by (simp add: never_panics_def no_panic_def)
qed

end
