(* ===== verification/Disk.thy ===== *)
theory Disk
  imports Effects Host_Path "HOL-Library.List_Lexorder" "HOL-Library.Char_ord" "HOL-Library.Sublist"
begin

text \<open>
  A directory tree with the contents and the metadata of its files, as the code that manages whole
  directories uses it through \<^verbatim>\<open>std::fs\<close>. A path is the list of its names below the root of the tree. Which calls
  fail, and what an interrupted call leaves behind, is the parameter \<open>env\<close>. A path that goes through a
  symbolic link is refused; the tree does not follow it.
\<close>

record file_info =
  fi_dev :: nat
  fi_ino :: nat
  fi_blocks :: nat
  fi_uid :: nat
  fi_mode :: nat

datatype entry =
    EDir file_info "(string \<times> entry) list"
  | EFile file_info bytes
  | ELink file_info string
  | EOther file_info

text \<open>The kinds of error that the code tells apart.\<close>

datatype disk_error = DeNotFound | DeAlreadyExists | DeWouldBlock | DeOther string

datatype disk_call = CallMetadata | CallFileType | CallRead | CallReadDir | CallMkdir | CallCreate | CallWrite
  | CallSync | CallRename | CallRemove | CallRemoveAll | CallEntry | CallOpen | CallPermissions | CallLock | CallTryLock
  | CallClone | CallUpdate

type_synonym disk_path = "string list"

record disk_env =
  de_fault :: "disk_call \<Rightarrow> disk_path \<Rightarrow> disk_error option"
  de_partial :: "disk_path \<Rightarrow> entry \<Rightarrow> entry"
  de_garbage :: "disk_path \<Rightarrow> bytes"
  de_info :: "disk_path \<Rightarrow> file_info"
  de_process :: string

record disk =
  dk_root :: entry
  dk_sequence :: nat

definition disk_try :: "'z disk_env_scheme \<Rightarrow> disk_call \<Rightarrow> disk_path \<Rightarrow> (unit, disk_error) result" where
  "disk_try env call p = (case de_fault env call p of None \<Rightarrow> Ok () | Some e \<Rightarrow> Err e)"

lemma disk_try_Inr [simp]: "disk_try env call p = Inr u \<longleftrightarrow> de_fault env call p = None"
  by (simp add: disk_try_def split: option.splits)

section \<open>The tree\<close>

primrec node_at :: "disk_path \<Rightarrow> entry \<Rightarrow> (entry, disk_error) result" where
  "node_at [] n = Ok n"
| "node_at (c # cs) n =
     (case n of
        EDir _ es \<Rightarrow> (case map_of es c of None \<Rightarrow> Err DeNotFound | Some m \<Rightarrow> node_at cs m)
      | ELink _ _ \<Rightarrow> Err (DeOther ''symbolic link'')
      | _ \<Rightarrow> Err (DeOther ''not a directory''))"

text \<open>Putting an entry at a path whose parent is a directory, or taking it away.\<close>

primrec change_at :: "disk_path \<Rightarrow> entry option \<Rightarrow> entry \<Rightarrow> entry" where
  "change_at [] v n = (case v of Some m \<Rightarrow> m | None \<Rightarrow> n)"
| "change_at (c # cs) v n =
     (case n of
        EDir i es \<Rightarrow>
          EDir i (if cs = [] then (case v of None \<Rightarrow> map_remove c es | Some m \<Rightarrow> map_insert c m es)
                  else (case map_of es c of None \<Rightarrow> es | Some m \<Rightarrow> map_insert c (change_at cs v m) es))
      | _ \<Rightarrow> n)"

definition is_dir :: "entry \<Rightarrow> bool" where
  "is_dir n = (case n of EDir _ _ \<Rightarrow> True | _ \<Rightarrow> False)"

definition is_file :: "entry \<Rightarrow> bool" where
  "is_file n = (case n of EFile _ _ \<Rightarrow> True | _ \<Rightarrow> False)"

primrec entry_info :: "entry \<Rightarrow> file_info" where
  "entry_info (EDir i _) = i"
| "entry_info (EFile i _) = i"
| "entry_info (ELink i _) = i"
| "entry_info (EOther i) = i"

text \<open>\<^verbatim>\<open>metadata.len()\<close> of a file or a link.\<close>

primrec entry_len :: "entry \<Rightarrow> nat" where
  "entry_len (EDir i _) = 0"
| "entry_len (EFile i bs) = length bs"
| "entry_len (ELink i t) = length t"
| "entry_len (EOther i) = 0"

text \<open>No directory has two entries of the same name.\<close>

fun well_named :: "entry \<Rightarrow> bool" where
  "well_named (EDir i es) \<longleftrightarrow> distinct (map fst es) \<and> (\<forall>e \<in> set es. well_named (snd e))"
| "well_named (EFile i bs) \<longleftrightarrow> True"
| "well_named (ELink i t) \<longleftrightarrow> True"
| "well_named (EOther i) \<longleftrightarrow> True"

section \<open>Calls\<close>

definition fs_metadata :: "'z disk_env_scheme \<Rightarrow> disk_path \<Rightarrow> entry \<Rightarrow> (entry, disk_error) result" where
  "fs_metadata env p root = and_then (disk_try env CallMetadata p) (\<lambda>_. node_at p root)"

definition fs_read :: "'z disk_env_scheme \<Rightarrow> disk_path \<Rightarrow> entry \<Rightarrow> (bytes, disk_error) result" where
  "fs_read env p root =
     and_then (disk_try env CallRead p) (\<lambda>_.
     and_then (node_at p root) (\<lambda>n.
       case n of
         EFile _ bs \<Rightarrow> Ok bs
       | EDir _ _ \<Rightarrow> Err (DeOther ''is a directory'')
       | ELink _ _ \<Rightarrow> Err (DeOther ''symbolic link'')
       | EOther _ \<Rightarrow> Err (DeOther ''not a file'')))"

definition fs_read_dir :: "'z disk_env_scheme \<Rightarrow> disk_path \<Rightarrow> entry \<Rightarrow> ((string \<times> entry) list, disk_error) result" where
  "fs_read_dir env p root =
     and_then (disk_try env CallReadDir p) (\<lambda>_.
     and_then (node_at p root) (\<lambda>n.
       case n of
         EDir _ es \<Rightarrow> Ok es
       | ELink _ _ \<Rightarrow> Err (DeOther ''symbolic link'')
       | _ \<Rightarrow> Err (DeOther ''not a directory'')))"

definition set_node :: "disk_path \<Rightarrow> entry option \<Rightarrow> disk \<Rightarrow> disk" where
  "set_node p v s = s\<lparr>dk_root := change_at p v (dk_root s)\<rparr>"

definition fs_remove_file :: "'z disk_env_scheme \<Rightarrow> disk_path \<Rightarrow> (disk, disk_error, unit) eff" where
  "fs_remove_file env p s =
     (case and_then (disk_try env CallRemove p) (\<lambda>_. node_at p (dk_root s)) of
        Inl e \<Rightarrow> (Err e, s)
      | Inr n \<Rightarrow> if is_dir n then (Err (DeOther ''is a directory''), s) else (Ok (), set_node p None s))"

text \<open>An interrupted \<^verbatim>\<open>remove_dir_all\<close> has removed a part.\<close>

definition fs_remove_dir_all :: "'z disk_env_scheme \<Rightarrow> disk_path \<Rightarrow> (disk, disk_error, unit) eff" where
  "fs_remove_dir_all env p s =
     (case node_at p (dk_root s) of
        Inl e \<Rightarrow> (Err e, s)
      | Inr n \<Rightarrow>
          if \<not> is_dir n then (Err (DeOther ''not a directory''), s)
          else
            (case de_fault env CallRemoveAll p of
               Some e \<Rightarrow> (Err e, set_node p (Some (de_partial env p n)) s)
             | None \<Rightarrow> (Ok (), set_node p None s)))"

text \<open>\<^verbatim>\<open>create_dir_all\<close> makes the directories of a path that are missing, from the top.\<close>

primrec mkdirs :: "'z disk_env_scheme \<Rightarrow> disk_path \<Rightarrow> string list \<Rightarrow> (disk, disk_error, unit) eff" where
  "mkdirs env p [] s = (Ok (), s)"
| "mkdirs env p (c # cs) s =
     (case node_at (p @ [c]) (dk_root s) of
        Inr n \<Rightarrow> if is_dir n then mkdirs env (p @ [c]) cs s else (Err DeAlreadyExists, s)
      | Inl DeNotFound \<Rightarrow>
          (case de_fault env CallMkdir (p @ [c]) of
             Some e \<Rightarrow> (Err e, s)
           | None \<Rightarrow> mkdirs env (p @ [c]) cs (set_node (p @ [c]) (Some (EDir (de_info env (p @ [c])) [])) s))
      | Inl e \<Rightarrow> (Err e, s))"

definition fs_create_dir_all :: "'z disk_env_scheme \<Rightarrow> disk_path \<Rightarrow> (disk, disk_error, unit) eff" where
  "fs_create_dir_all env p = mkdirs env [] p"

text \<open>\<^verbatim>\<open>create_new\<close>: an empty file at a path that has nothing.\<close>

definition fs_create_new :: "'z disk_env_scheme \<Rightarrow> disk_path \<Rightarrow> (disk, disk_error, unit) eff" where
  "fs_create_new env p s =
     (case and_then (disk_try env CallCreate p) (\<lambda>_. node_at (butlast p) (dk_root s)) of
        Inl e \<Rightarrow> (Err e, s)
      | Inr parent \<Rightarrow>
          if \<not> is_dir parent then (Err (DeOther ''not a directory''), s)
          else
            (case node_at p (dk_root s) of
               Inr _ \<Rightarrow> (Err DeAlreadyExists, s)
             | Inl _ \<Rightarrow> (Ok (), set_node p (Some (EFile (de_info env p) [])) s)))"

text \<open>Writing the whole contents of the new file; an interrupted write leaves other bytes.\<close>

definition fs_write :: "'z disk_env_scheme \<Rightarrow> disk_path \<Rightarrow> bytes \<Rightarrow> (disk, disk_error, unit) eff" where
  "fs_write env p bs s =
     (case de_fault env CallWrite p of
        Some e \<Rightarrow> (Err e, set_node p (Some (EFile (de_info env p) (de_garbage env p))) s)
      | None \<Rightarrow> (Ok (), set_node p (Some (EFile (de_info env p) bs)) s))"

text \<open>
  \<^verbatim>\<open>rename\<close>: the entry moves. Over an existing file or link it replaces it, over a directory it fails, with the
  exception of an empty directory that is replaced by a directory.
\<close>

definition fs_rename :: "'z disk_env_scheme \<Rightarrow> disk_path \<Rightarrow> disk_path \<Rightarrow> (disk, disk_error, unit) eff" where
  "fs_rename env from to s =
     (case and_then (disk_try env CallRename to) (\<lambda>_. node_at from (dk_root s)) of
        Inl e \<Rightarrow> (Err e, s)
      | Inr n \<Rightarrow>
          (case node_at (butlast to) (dk_root s) of
             Inl e \<Rightarrow> (Err e, s)
           | Inr parent \<Rightarrow>
               if \<not> is_dir parent then (Err (DeOther ''not a directory''), s)
               else
                 (case node_at to (dk_root s) of
                    Inr (EDir _ es) \<Rightarrow>
                      if is_dir n \<and> es = [] then (Ok (), set_node to (Some n) (set_node from None s))
                      else (Err (DeOther ''is a directory''), s)
                  | Inr _ \<Rightarrow>
                      if is_dir n then (Err (DeOther ''not a directory''), s)
                      else (Ok (), set_node to (Some n) (set_node from None s))
                  | Inl _ \<Rightarrow> (Ok (), set_node to (Some n) (set_node from None s)))))"

definition sync_directory :: "'z disk_env_scheme \<Rightarrow> disk_path \<Rightarrow> entry \<Rightarrow> (unit, disk_error) result" where
  "sync_directory env p root = and_then (disk_try env CallSync p) (\<lambda>_. and_then (node_at p root) (\<lambda>_. Ok ()))"

text \<open>A number in decimal digits, as it appears in the names of files.\<close>

fun decimal :: "nat \<Rightarrow> string" where
  "decimal n = (if n < 10 then [] else decimal (n div 10)) @ [char_of (48 + n mod 10)]"

declare decimal.simps [simp del]

section \<open>Lemmas\<close>

lemma node_at_append:
  "node_at (p @ q) n = and_then (node_at p n) (node_at q)"
  by (induction p arbitrary: n) (auto split: entry.splits option.splits)

lemma node_at_parent: "node_at (p @ [c]) n = Inr m \<Longrightarrow> \<exists>i es. node_at p n = Inr (EDir i es) \<and> map_of es c = Some m"
proof -
  assume "node_at (p @ [c]) n = Inr m"
  then obtain x where "node_at p n = Inr x" "node_at [c] x = Inr m" by (auto simp: node_at_append and_then_Inr_iff)
  then show ?thesis by (cases x) (auto split: option.splits)
qed

lemma change_at_other:
  "\<not> prefix p q \<Longrightarrow> \<not> prefix q p \<Longrightarrow> node_at q (change_at p v n) = node_at q n"
proof (induction p arbitrary: q n)
  case (Cons c cs)
  then obtain d ds where q: "q = d # ds" by (cases q) auto
  show ?case
  proof (cases n)
    case (EDir i es)
    show ?thesis
      using Cons.prems Cons.IH [of ds] unfolding q EDir
      by (cases "d = c") (auto simp: update_conv' delete_conv' split: option.splits)
  qed (auto simp: q)
qed simp

lemma change_at_same:
  "node_at p n = Inr (EDir i es) \<Longrightarrow>
     node_at p (change_at (p @ [c]) v n) = Inr (EDir i (case v of None \<Rightarrow> map_remove c es | Some m \<Rightarrow> map_insert c m es))"
proof (induction p arbitrary: n)
  case (Cons d ds)
  then show ?case by (auto simp: update_conv' split: entry.splits option.splits)
qed auto

lemma node_at_change_at:
  assumes "node_at p n = Inr (EDir i es)"
  shows "node_at (p @ [c]) (change_at (p @ [c]) v n) = (case v of None \<Rightarrow> Err DeNotFound | Some m \<Rightarrow> Ok m)"
  using change_at_same [OF assms, of c v] unfolding node_at_append
  by (auto simp: update_conv' delete_conv' split: option.splits)

text \<open>What happens to a path next to or below another: nothing, or it goes with it.\<close>

lemma change_at_sibling:
  "c \<noteq> d \<Longrightarrow> node_at (p @ d # q) (change_at (p @ [c]) v n) = node_at (p @ d # q) n"
  by (intro change_at_other) auto

lemma well_named_at: "well_named n \<Longrightarrow> node_at p n = Inr m \<Longrightarrow> well_named m"
proof (induction p arbitrary: n)
  case (Cons c cs)
  then obtain i es k where "n = EDir i es" "map_of es c = Some k" "node_at cs k = Inr m"
    by (auto split: entry.splits option.splits)
  with Cons show ?case by (auto dest: map_of_SomeD)
qed simp

lemma listed_node:
  assumes "well_named n" "node_at p n = Inr (EDir i es)" "(c, m) \<in> set es"
  shows "node_at (p @ [c]) n = Inr m"
  using well_named_at [OF assms(1,2)] assms(2,3) by (simp add: node_at_append)

end
