(* ===== verification/Cache.thy ===== *)
theory Cache
  imports Disk Registry_Auth Run_Spec "HOL-Library.Option_ord" "HOL-Library.Product_Lexorder"
begin

text \<open>
  The image cache (\<^verbatim>\<open>moraebox-image/src/cache.rs\<close>, \<^verbatim>\<open>cache/metadata.rs\<close>, \<^verbatim>\<open>cache/storage.rs\<close>): records of images, root file
  systems with their size metadata, the default image, and what removes and repairs them. The
  state is the directory tree below the cache's root. JSON (crate \<^verbatim>\<open>serde_json\<close>) and the hash are parameters; the advisory
  locks appear as what taking them answers, and their files are not part of the tree.
\<close>

section \<open>Data\<close>

text \<open>\<open>IcePanic\<close> is the panic of an \<^verbatim>\<open>expect\<close>.\<close>

datatype ImageCacheError =
    IceBusy disk_path
  | IceTargetNotFound string
  | IceCacheOnlyMiss string
  | IceInvalidTarget ReferenceError
  | IceLocal string
  | IceInvalidDigest string
  | IceInvalidRecord disk_path
  | IceUnsupportedSchema disk_path nat
  | IceMissingManifest string disk_path disk_error
  | IceInvalidManifest string
  | IceInvalidManagedPath disk_path
  | IceStorageRoot string
  | IceMissingRootfsMetadata disk_path
  | IceJson string
  | IceIo disk_error
  | IceTask string
  | IceRegistry RegistryError
  | IceRootfsExists disk_path
  | IcePanic

record ImageRecord =
  ir_schema_version :: nat
  ir_reference :: string
  ir_source_manifest_digest :: "string option"
  ir_manifest_digest :: string
  ir_platform :: Platform

record DefaultImage =
  di_schema_version :: nat
  di_reference :: string

record StoredRecord =
  sr_path :: disk_path
  sr_value :: ImageRecord

record StorageUsage =
  su_logical_bytes :: nat
  su_allocated_bytes :: nat
  su_entries :: nat

definition usage_default :: StorageUsage where
  "usage_default = \<lparr>su_logical_bytes = 0, su_allocated_bytes = 0, su_entries = 0\<rparr>"

definition usage_add :: "StorageUsage \<Rightarrow> StorageUsage \<Rightarrow> StorageUsage" where
  "usage_add a b =
     \<lparr>su_logical_bytes = saturating_add (su_logical_bytes a) (su_logical_bytes b),
      su_allocated_bytes = saturating_add (su_allocated_bytes a) (su_allocated_bytes b),
      su_entries = saturating_add (su_entries a) (su_entries b)\<rparr>"

record RootfsMetadata =
  rm_schema_version :: nat
  rm_manifest_digest :: string
  rm_logical_bytes :: nat
  rm_allocated_bytes :: nat
  rm_entries :: nat

definition SCHEMA_VERSION :: nat where "SCHEMA_VERSION = 1"
definition ROOTFS_METADATA_SCHEMA_VERSION :: nat where "ROOTFS_METADATA_SCHEMA_VERSION = 1"
definition CURRENT_COMPLETE_MARKER :: string where "CURRENT_COMPLETE_MARKER = ''.moraebox-rootfs-complete''"
definition LEGACY_COMPLETE_MARKER :: string where "LEGACY_COMPLETE_MARKER = ''.fastmvm-rootfs-complete''"
definition BUILTIN_DEFAULT_IMAGE :: string where "BUILTIN_DEFAULT_IMAGE = ''docker.io/library/python:3.12''"

definition rootfs_metadata_new :: "Digest \<Rightarrow> StorageUsage \<Rightarrow> RootfsMetadata" where
  "rootfs_metadata_new digest u =
     \<lparr>rm_schema_version = ROOTFS_METADATA_SCHEMA_VERSION, rm_manifest_digest = digest_display digest,
      rm_logical_bytes = su_logical_bytes u, rm_allocated_bytes = su_allocated_bytes u, rm_entries = su_entries u\<rparr>"

definition rootfs_metadata_usage :: "RootfsMetadata \<Rightarrow> StorageUsage" where
  "rootfs_metadata_usage m =
     \<lparr>su_logical_bytes = rm_logical_bytes m, su_allocated_bytes = rm_allocated_bytes m, su_entries = rm_entries m\<rparr>"

datatype RootfsMetadataState = MetadataMissing | MetadataInvalid | MetadataValid RootfsMetadata

definition metadata_state_usage :: "RootfsMetadataState \<Rightarrow> StorageUsage option" where
  "metadata_state_usage m = (case m of MetadataValid v \<Rightarrow> Some (rootfs_metadata_usage v) | _ \<Rightarrow> None)"

record RootfsEntry =
  re_digest :: Digest
  re_path :: disk_path
  re_ready :: bool
  re_valid_digest_name :: bool
  re_metadata :: RootfsMetadataState

record CachedImage =
  ci_reference :: "string option"
  ci_manifest_digest :: string
  ci_platform :: "Platform option"
  ci_rootfs :: disk_path
  ci_ready :: bool
  ci_default :: bool
  ci_size_bytes :: nat
  ci_allocated_bytes :: nat
  ci_size_indexed :: bool

record PreparedImage =
  pr_reference :: string
  pr_manifest_digest :: string
  pr_rootfs :: disk_path

text \<open>What is outside of the cache: the calls that fail, the locks, the hash, the JSON codecs, and the text of the cache's root.\<close>

record cache_env = disk_env +
  ce_lock :: "disk_path \<Rightarrow> bool \<Rightarrow> ImageCacheError option"
  ce_sha :: "bytes \<Rightarrow> Digest"
  ce_root_text :: string
  ce_record_json :: "ImageRecord \<Rightarrow> bytes"
  ce_parse_record :: "bytes \<Rightarrow> (ImageRecord, string) result"
  ce_default_json :: "DefaultImage \<Rightarrow> bytes"
  ce_parse_default :: "bytes \<Rightarrow> (DefaultImage, string) result"
  ce_metadata_json :: "RootfsMetadata \<Rightarrow> bytes"
  ce_parse_metadata :: "bytes \<Rightarrow> (RootfsMetadata, string) result"
  ce_parse_manifest :: "bytes \<Rightarrow> (ImageManifest, string) result"

type_synonym 'a cache_op = "(disk, ImageCacheError, 'a) eff"

section \<open>Files and directories\<close>

definition cache_io :: "(disk, disk_error, 'a) eff \<Rightarrow> 'a cache_op" where
  "cache_io m s = (case m s of (r, s') \<Rightarrow> (map_err IceIo r, s'))"

definition read_entries :: "cache_env \<Rightarrow> disk_path \<Rightarrow> entry \<Rightarrow> ((string \<times> entry) list, ImageCacheError) result" where
  "read_entries env p root =
     (case fs_read_dir env p root of
        Inr es \<Rightarrow> Ok es
      | Inl DeNotFound \<Rightarrow> Ok []
      | Inl e \<Rightarrow> Err (IceIo e))"

fun path_size_entry :: "cache_env \<Rightarrow> disk_path \<Rightarrow> entry \<Rightarrow> (nat, ImageCacheError) result"
  and path_sizes :: "cache_env \<Rightarrow> disk_path \<Rightarrow> (string \<times> entry) list \<Rightarrow> nat \<Rightarrow> (nat, ImageCacheError) result" where
  "path_size_entry env p n =
     and_then (map_err IceIo (disk_try env CallMetadata p)) (\<lambda>_.
       case n of
         EDir _ es \<Rightarrow> and_then (map_err IceIo (disk_try env CallReadDir p)) (\<lambda>_. path_sizes env p es 0)
       | EOther _ \<Rightarrow> Ok 0
       | _ \<Rightarrow> Ok (entry_len n))"
| "path_sizes env p [] acc = Ok acc"
| "path_sizes env p ((c, n) # es) acc =
     and_then (path_size_entry env (p @ [c]) n) (\<lambda>k. path_sizes env p es (saturating_add acc k))"

definition path_size :: "cache_env \<Rightarrow> disk_path \<Rightarrow> entry \<Rightarrow> (nat, ImageCacheError) result" where
  "path_size env p root =
     and_then (map_err IceIo (node_at p root)) (\<lambda>n. path_size_entry env p n)"

definition allocated_bytes :: "entry \<Rightarrow> nat" where
  "allocated_bytes n = min (fi_blocks (entry_info n) * 512) U64_MAX"

text \<open>The files that were counted, by device and inode.\<close>

type_synonym seen_files = "(nat \<times> nat) list"

definition file_id :: "entry \<Rightarrow> nat \<times> nat" where
  "file_id n = (fi_dev (entry_info n), fi_ino (entry_info n))"

fun tree_storage_usage_inner ::
    "cache_env \<Rightarrow> disk_path \<Rightarrow> entry \<Rightarrow> seen_files \<Rightarrow> (StorageUsage \<times> seen_files, ImageCacheError) result"
  and tree_storage_usages ::
    "cache_env \<Rightarrow> disk_path \<Rightarrow> (string \<times> entry) list \<Rightarrow> StorageUsage \<Rightarrow> seen_files
       \<Rightarrow> (StorageUsage \<times> seen_files, ImageCacheError) result" where
  "tree_storage_usage_inner env p n seen =
     and_then (map_err IceIo (disk_try env CallMetadata p)) (\<lambda>_.
       let u = \<lparr>su_logical_bytes = entry_len n, su_allocated_bytes = allocated_bytes n, su_entries = 1\<rparr> in
       case n of
         EDir _ es \<Rightarrow> and_then (map_err IceIo (disk_try env CallReadDir p)) (\<lambda>_. tree_storage_usages env p es u seen)
       | _ \<Rightarrow> Ok (if file_id n \<in> set seen then (usage_default, seen) else (u, file_id n # seen)))"
| "tree_storage_usages env p [] acc seen = Ok (acc, seen)"
| "tree_storage_usages env p ((c, n) # es) acc seen =
     and_then (tree_storage_usage_inner env (p @ [c]) n seen) (\<lambda>(u, seen). tree_storage_usages env p es (usage_add acc u) seen)"

definition tree_storage_usage :: "cache_env \<Rightarrow> disk_path \<Rightarrow> entry \<Rightarrow> (StorageUsage, ImageCacheError) result" where
  "tree_storage_usage env p root =
     and_then (map_err IceIo (node_at p root)) (\<lambda>n.
     and_then (tree_storage_usage_inner env p n []) (\<lambda>(u, _). Ok u))"

definition remove_file_if_exists :: "cache_env \<Rightarrow> disk_path \<Rightarrow> bool cache_op" where
  "remove_file_if_exists env p s =
     (case fs_remove_file env p s of
        (Inr _, s') \<Rightarrow> (Ok True, s')
      | (Inl DeNotFound, s') \<Rightarrow> (Ok False, s')
      | (Inl e, s') \<Rightarrow> (Err (IceIo e), s'))"

definition remove_managed_directory :: "cache_env \<Rightarrow> disk_path \<Rightarrow> unit cache_op" where
  "remove_managed_directory env p =
     bind_eff (get_eff dk_root) (\<lambda>root.
     bind_eff (lift_eff (map_err IceIo (fs_metadata env p root))) (\<lambda>n.
       if \<not> is_dir n then lift_eff (Err (IceInvalidManagedPath p)) else cache_io (fs_remove_dir_all env p)))"

definition remove_managed_path :: "cache_env \<Rightarrow> disk_path \<Rightarrow> unit cache_op" where
  "remove_managed_path env p =
     bind_eff (get_eff dk_root) (\<lambda>root.
     bind_eff (lift_eff (map_err IceIo (fs_metadata env p root))) (\<lambda>n.
       case n of
         EDir _ _ \<Rightarrow> cache_io (fs_remove_dir_all env p)
       | EOther _ \<Rightarrow> lift_eff (Err (IceInvalidManagedPath p))
       | _ \<Rightarrow> cache_io (fs_remove_file env p)))"

definition remove_managed_path_if_exists :: "cache_env \<Rightarrow> disk_path \<Rightarrow> bool cache_op" where
  "remove_managed_path_if_exists env p =
     bind_eff (get_eff dk_root) (\<lambda>root.
       case fs_metadata env p root of
         Inr _ \<Rightarrow> bind_eff (remove_managed_path env p) (\<lambda>_. lift_eff (Ok True))
       | Inl DeNotFound \<Rightarrow> lift_eff (Ok False)
       | Inl e \<Rightarrow> lift_eff (Err (IceIo e)))"

definition next_sequence :: "nat cache_op" where
  "next_sequence s = (Ok (dk_sequence s), s\<lparr>dk_sequence := wrapping_add (dk_sequence s) 1\<rparr>)"

text \<open>\<^verbatim>\<open>serde_json::to_writer_pretty\<close> reports a failed write as an error of its own.\<close>

definition to_writer :: "cache_env \<Rightarrow> disk_path \<Rightarrow> bytes \<Rightarrow> unit cache_op" where
  "to_writer env p content s =
     (case fs_write env p content s of
        (Inl _, s') \<Rightarrow> (Err (IceJson ''write''), s')
      | (Inr _, s') \<Rightarrow> (Ok (), s'))"

text \<open>The last step of \<^verbatim>\<open>write_json_atomic\<close> before the parent is synced: the rename, and what is done when it fails.\<close>

definition replace_by_rename :: "cache_env \<Rightarrow> disk_path \<Rightarrow> disk_path \<Rightarrow> unit cache_op" where
  "replace_by_rename env temporary p s =
     (case fs_rename env temporary p s of
        (Inr _, s1) \<Rightarrow> (Ok (), s1)
      | (Inl _, s1) \<Rightarrow>
          (case fs_metadata env p (dk_root s1) of
             Inr n \<Rightarrow>
               if is_file n then
                 bind_eff (cache_io (fs_remove_file env p)) (\<lambda>_. cache_io (fs_rename env temporary p)) s1
               else (Err (IceInvalidManagedPath p), snd (fs_remove_file env temporary s1))
           | Inl e \<Rightarrow> (Err (IceIo e), snd (fs_remove_file env temporary s1))))"

definition write_json_atomic :: "cache_env \<Rightarrow> disk_path \<Rightarrow> bytes \<Rightarrow> unit cache_op" where
  "write_json_atomic env p content =
     (let parent = butlast p in
      if p = [] then lift_eff (Err (IceInvalidManagedPath p))
      else
        bind_eff (cache_io (fs_create_dir_all env parent)) (\<lambda>_.
        bind_eff (lift_eff (ok_or (to_str (last p)) (IceInvalidManagedPath p))) (\<lambda>name.
        bind_eff next_sequence (\<lambda>sequence.
          let temporary = parent @ [''.'' @ name @ ''.'' @ de_process env @ ''.'' @ decimal sequence @ ''.tmp''] in
          bind_eff (cache_io (fs_create_new env temporary)) (\<lambda>_.
          bind_eff (to_writer env temporary content) (\<lambda>_.
          bind_eff (lift_eff (map_err IceIo (disk_try env CallSync temporary))) (\<lambda>_.
          bind_eff (replace_by_rename env temporary p) (\<lambda>_.
          bind_eff (get_eff dk_root) (\<lambda>root.
            lift_eff (map_err IceIo (sync_directory env parent root)))))))))))"

section \<open>Names and digests\<close>

definition canonical_reference :: "string \<Rightarrow> (string, ImageCacheError) result" where
  "canonical_reference v =
     and_then (map_err IceInvalidTarget (image_reference_from_str v)) (\<lambda>r. Ok (image_reference_display r))"

definition parse_digest :: "string \<Rightarrow> (Digest, ImageCacheError) result" where
  "parse_digest v =
     (let normalized = (if starts_with ''sha256:'' v then v else ''sha256:'' @ v) in
      map_err (\<lambda>_. IceInvalidDigest v) (digest_from_str normalized))"

definition parse_digest_hex :: "string \<Rightarrow> (Digest, ImageCacheError) result" where
  "parse_digest_hex v = parse_digest v"

definition pinned_source_digest :: "string \<Rightarrow> (Digest option, ImageCacheError) result" where
  "pinned_source_digest v =
     and_then (map_err IceInvalidTarget (image_reference_from_str v)) (\<lambda>r.
       case r of
         Registry reference \<Rightarrow>
           (case selector reference of
              Image_Reference.Digest d \<Rightarrow> and_then (parse_digest d) (\<lambda>d. Ok (Some d))
            | Tag _ \<Rightarrow> Ok None)
       | _ \<Rightarrow> Ok None)"

datatype ImageTarget = TargetDigest Digest | TargetReference string

definition parse_target :: "string \<Rightarrow> (ImageTarget, ImageCacheError) result" where
  "parse_target v =
     (if starts_with ''sha256:'' v \<or> (length v = 64 \<and> list_all (\<lambda>c. ascii_hexdigit (code c)) v)
      then and_then (parse_digest v) (\<lambda>d. Ok (TargetDigest d))
      else and_then (canonical_reference v) (\<lambda>r. Ok (TargetReference r)))"

definition is_rootfs_staging_name :: "string \<Rightarrow> bool" where
  "is_rootfs_staging_name v =
     (case split_on CHR ''.'' v of
        [digest, process_id, sequence] \<Rightarrow>
          length digest = 64 \<and> list_all (\<lambda>c. ascii_digit (code c) \<or> (97 \<le> code c \<and> code c \<le> 102)) digest \<and>
          parse_u32_ok process_id \<and> parse_u64 sequence \<noteq> None
      | _ \<Rightarrow> False)"

definition record_directory :: disk_path where "record_directory = [''images'', ''sha256'']"
definition rootfs_directory :: disk_path where "rootfs_directory = [''rootfs'', ''sha256'']"
definition rootfs_metadata_directory :: disk_path where "rootfs_metadata_directory = [''rootfs-metadata'', ''sha256'']"
definition blob_directory :: disk_path where "blob_directory = [''oci'', ''blobs'', ''sha256'']"
definition staging_directory :: disk_path where "staging_directory = [''tmp'', ''rootfs'']"
definition default_path :: disk_path where "default_path = [''default-image.json'']"
definition metadata_lock_path :: disk_path where "metadata_lock_path = [''.moraebox-cache.lock'']"
definition activity_lock_path :: disk_path where "activity_lock_path = [''.moraebox-cache.activity.lock'']"

definition rootfs_path :: "Digest \<Rightarrow> disk_path" where "rootfs_path d = rootfs_directory @ [hex d]"
definition blob_path :: "Digest \<Rightarrow> disk_path" where "blob_path d = blob_directory @ [hex d]"
definition rootfs_metadata_path :: "Digest \<Rightarrow> disk_path" where
  "rootfs_metadata_path d = rootfs_metadata_directory @ [hex d @ ''.json'']"

definition platform_key :: "string \<Rightarrow> Platform \<Rightarrow> string" where
  "platform_key reference platform =
     reference @ [CHR 0x00] @ pf_os platform @ [CHR 0x00] @ pf_architecture platform @ [CHR 0x00] @
     (case pf_variant platform of Some v \<Rightarrow> v | None \<Rightarrow> [])"

definition record_path_for :: "cache_env \<Rightarrow> string \<Rightarrow> Platform \<Rightarrow> disk_path" where
  "record_path_for env reference platform =
     record_directory @ [hex (ce_sha env (bytes_of_str (platform_key reference platform))) @ ''.json'']"

definition reference_lock_path :: "cache_env \<Rightarrow> string \<Rightarrow> Platform \<Rightarrow> disk_path" where
  "reference_lock_path env reference platform =
     [''locks'', ''references'', hex (ce_sha env (bytes_of_str (platform_key reference platform))) @ ''.lock'']"

definition rootfs_lock_path :: "Digest \<Rightarrow> disk_path" where
  "rootfs_lock_path d = [''locks'', ''rootfs'', hex d @ ''.lock'']"

definition lock_path :: "cache_env \<Rightarrow> disk_path \<Rightarrow> bool \<Rightarrow> (unit, ImageCacheError) result" where
  "lock_path env p exclusive = (case ce_lock env p exclusive of None \<Rightarrow> Ok () | Some e \<Rightarrow> Err e)"

section \<open>Reading the cache\<close>

definition is_complete_rootfs :: "cache_env \<Rightarrow> disk_path \<Rightarrow> Digest \<Rightarrow> entry \<Rightarrow> bool" where
  "is_complete_rootfs env p digest root =
     list_ex (\<lambda>marker.
       case fs_metadata env (p @ [marker]) root of
         Inr n \<Rightarrow> is_file n \<and> fs_read env (p @ [marker]) root = Ok (bytes_of_str (digest_display digest))
       | Inl _ \<Rightarrow> False) [CURRENT_COMPLETE_MARKER, LEGACY_COMPLETE_MARKER]"

definition read_rootfs_metadata :: "cache_env \<Rightarrow> Digest \<Rightarrow> entry \<Rightarrow> (RootfsMetadataState, ImageCacheError) result" where
  "read_rootfs_metadata env digest root =
     (let p = rootfs_metadata_path digest in
      case fs_metadata env p root of
        Inl DeNotFound \<Rightarrow> Ok MetadataMissing
      | Inl e \<Rightarrow> Err (IceIo e)
      | Inr n \<Rightarrow>
          if \<not> is_file n then Ok MetadataInvalid
          else
            (case fs_read env p root of
               Inl _ \<Rightarrow> Ok MetadataInvalid
             | Inr bs \<Rightarrow>
                 (case ce_parse_metadata env bs of
                    Inl _ \<Rightarrow> Ok MetadataInvalid
                  | Inr v \<Rightarrow>
                      if rm_schema_version v \<noteq> ROOTFS_METADATA_SCHEMA_VERSION \<or> rm_manifest_digest v \<noteq> digest_display digest
                      then Ok MetadataInvalid else Ok (MetadataValid v))))"

definition validate_record :: "ImageRecord \<Rightarrow> disk_path \<Rightarrow> (unit, ImageCacheError) result" where
  "validate_record rcd p =
     (if ir_schema_version rcd \<noteq> SCHEMA_VERSION then Err (IceUnsupportedSchema p (ir_schema_version rcd))
      else
        and_then (canonical_reference (ir_reference rcd)) (\<lambda>canonical.
          if canonical \<noteq> ir_reference rcd then Err (IceInvalidRecord p)
          else
            and_then (parse_digest (ir_manifest_digest rcd)) (\<lambda>_.
            and_then (case ir_source_manifest_digest rcd of
                        Some d \<Rightarrow> and_then (parse_digest d) (\<lambda>_. Ok ()) | None \<Rightarrow> Ok ()) (\<lambda>_.
              if pf_os (ir_platform rcd) = [] \<or> pf_architecture (ir_platform rcd) = []
              then Err (IceInvalidRecord p) else Ok ()))))"

text \<open>\<^verbatim>\<open>Path::extension\<close> of a file name: what follows the last dot, unless the name starts with its only dot.\<close>

definition extension :: "string \<Rightarrow> string option" where
  "extension name =
     (if name = ''..'' then None
      else (case rsplit_once CHR ''.'' name of
              None \<Rightarrow> None
            | Some (before, after) \<Rightarrow> if before = [] then None else Some after))"

definition file_stem :: "string \<Rightarrow> string" where
  "file_stem name =
     (if name = ''..'' then name
      else (case rsplit_once CHR ''.'' name of
              None \<Rightarrow> name
            | Some (before, after) \<Rightarrow> if before = [] then name else before))"

text \<open>One file of the record directory, \<open>None\<close> when it is skipped.\<close>

definition read_record :: "cache_env \<Rightarrow> entry \<Rightarrow> string \<times> entry \<Rightarrow> (StoredRecord option, ImageCacheError) result" where
  "read_record env root = (\<lambda>(name, n).
     let p = record_directory @ [name] in
     and_then (map_err IceIo (disk_try env CallFileType p)) (\<lambda>_.
       if \<not> is_file n \<or> extension name \<noteq> Some ''json'' then Ok None
       else
         and_then (map_err IceIo (fs_read env p root)) (\<lambda>bs.
         and_then (map_err IceJson (ce_parse_record env bs)) (\<lambda>rcd.
         and_then (validate_record rcd p) (\<lambda>_.
           Ok (Some \<lparr>sr_path = p, sr_value = rcd\<rparr>))))))"

definition read_records :: "cache_env \<Rightarrow> entry \<Rightarrow> (StoredRecord list, ImageCacheError) result" where
  "read_records env root =
     and_then (read_entries env record_directory root) (\<lambda>es.
     and_then (collect_results (read_record env root) es) (\<lambda>rs.
       Ok (sort_key sr_path (List.map_filter id rs))))"

definition read_rootfs_entry :: "cache_env \<Rightarrow> entry \<Rightarrow> string \<times> entry \<Rightarrow> (RootfsEntry option, ImageCacheError) result" where
  "read_rootfs_entry env root = (\<lambda>(name, n).
     let p = rootfs_directory @ [name] in
     and_then (map_err IceIo (disk_try env CallFileType p)) (\<lambda>_.
       if \<not> is_dir n \<or> to_str name = None then Ok None
       else
         (case parse_digest_hex name of
            Inl _ \<Rightarrow>
              Ok (Some \<lparr>re_digest = ce_sha env (bytes_of_str (ce_root_text env @ ''/rootfs/sha256/'' @ name)), re_path = p,
                        re_ready = False, re_valid_digest_name = False, re_metadata = MetadataMissing\<rparr>)
          | Inr digest \<Rightarrow>
              and_then (read_rootfs_metadata env digest root) (\<lambda>metadata.
                Ok (Some \<lparr>re_digest = digest, re_path = p, re_ready = is_complete_rootfs env p digest root,
                          re_valid_digest_name = True, re_metadata = metadata\<rparr>)))))"

definition read_rootfs_entries :: "cache_env \<Rightarrow> entry \<Rightarrow> (RootfsEntry list, ImageCacheError) result" where
  "read_rootfs_entries env root =
     and_then (read_entries env rootfs_directory root) (\<lambda>es.
     and_then (collect_results (read_rootfs_entry env root) es) (\<lambda>rs.
       Ok (sort_key re_path (List.map_filter id rs))))"

definition read_default :: "cache_env \<Rightarrow> entry \<Rightarrow> (DefaultImage option, ImageCacheError) result" where
  "read_default env root =
     (case fs_metadata env default_path root of
        Inl DeNotFound \<Rightarrow> Ok None
      | Inl e \<Rightarrow> Err (IceIo e)
      | Inr n \<Rightarrow>
          if \<not> is_file n then Err (IceInvalidManagedPath default_path)
          else
            and_then (map_err IceIo (fs_read env default_path root)) (\<lambda>bs.
            and_then (map_err IceJson (ce_parse_default env bs)) (\<lambda>v.
              if di_schema_version v \<noteq> SCHEMA_VERSION then Err (IceUnsupportedSchema default_path (di_schema_version v))
              else and_then (canonical_reference (di_reference v)) (\<lambda>r. Ok (Some (v\<lparr>di_reference := r\<rparr>))))))"

definition default_reference_unlocked :: "cache_env \<Rightarrow> entry \<Rightarrow> (string, ImageCacheError) result" where
  "default_reference_unlocked env root =
     and_then (read_default env root) (\<lambda>d. Ok (case d of Some v \<Rightarrow> di_reference v | None \<Rightarrow> BUILTIN_DEFAULT_IMAGE))"

definition reachable_of :: "cache_env \<Rightarrow> entry \<Rightarrow> Digest \<Rightarrow> (Digest list, ImageCacheError) result" where
  "reachable_of env root digest =
     (let p = blob_path digest in
      and_then (map_err (IceMissingManifest (digest_display digest) p) (fs_metadata env p root)) (\<lambda>n.
        if \<not> is_file n then Err (IceInvalidManifest (digest_display digest))
        else
          and_then (map_err IceIo (fs_read env p root)) (\<lambda>bs.
            if ce_sha env bs \<noteq> digest then Err (IceInvalidManifest (digest_display digest))
            else
              and_then (map_err IceJson (ce_parse_manifest env bs)) (\<lambda>manifest.
              and_then (parse_digest (ds_digest (im_config manifest))) (\<lambda>config.
              and_then (collect_results (\<lambda>l. parse_digest (ds_digest l)) (im_layers manifest)) (\<lambda>layers.
                Ok (digest # config # layers)))))))"

definition reachable_blobs :: "cache_env \<Rightarrow> entry \<Rightarrow> Digest list \<Rightarrow> (Digest list, ImageCacheError) result" where
  "reachable_blobs env root manifests =
     and_then (collect_results (reachable_of env root) manifests) (\<lambda>ds. Ok (concat ds))"

section \<open>Looking up and listing images\<close>

definition resolve_reference_unlocked ::
  "cache_env \<Rightarrow> string \<Rightarrow> Platform \<Rightarrow> entry \<Rightarrow> (CachedImage option, ImageCacheError) result" where
  "resolve_reference_unlocked env canonical platform root =
     (let p = record_path_for env canonical platform in
      case fs_read env p root of
        Inl DeNotFound \<Rightarrow> Ok None
      | Inl e \<Rightarrow> Err (IceIo e)
      | Inr bs \<Rightarrow>
          and_then (map_err IceJson (ce_parse_record env bs)) (\<lambda>rcd.
          and_then (validate_record rcd p) (\<lambda>_.
            if ir_reference rcd \<noteq> canonical \<or> ir_platform rcd \<noteq> platform then Err (IceInvalidRecord p)
            else
              and_then (pinned_source_digest canonical) (\<lambda>pinned.
              and_then (case pinned of
                          None \<Rightarrow> Ok True
                        | Some expected \<Rightarrow>
                            (case ir_source_manifest_digest rcd of
                               None \<Rightarrow> Ok False
                             | Some d \<Rightarrow> and_then (parse_digest d) (\<lambda>actual. Ok (actual = expected)))) (\<lambda>pin_ok.
                if \<not> pin_ok then Ok None
                else
                  and_then (parse_digest (ir_manifest_digest rcd)) (\<lambda>digest.
                    let rootfs = rootfs_path digest in
                    if \<not> is_complete_rootfs env rootfs digest root then Ok None
                    else
                      and_then (default_reference_unlocked env root) (\<lambda>dflt.
                        Ok (Some
                          \<lparr>ci_reference = Some (ir_reference rcd), ci_manifest_digest = ir_manifest_digest rcd,
                           ci_platform = Some (ir_platform rcd), ci_rootfs = rootfs, ci_ready = True,
                           ci_default = (ir_reference rcd = dflt), ci_size_bytes = 0, ci_allocated_bytes = 0,
                           ci_size_indexed = False\<rparr>))))))))"

definition resolve_reference :: "cache_env \<Rightarrow> string \<Rightarrow> Platform \<Rightarrow> entry \<Rightarrow> (CachedImage option, ImageCacheError) result" where
  "resolve_reference env reference platform root =
     and_then (lock_path env metadata_lock_path False) (\<lambda>_.
     and_then (canonical_reference reference) (\<lambda>canonical.
       resolve_reference_unlocked env canonical platform root))"

definition default_reference :: "cache_env \<Rightarrow> entry \<Rightarrow> (string, ImageCacheError) result" where
  "default_reference env root =
     and_then (lock_path env metadata_lock_path False) (\<lambda>_. default_reference_unlocked env root)"

definition default_rootfs :: "cache_env \<Rightarrow> Platform \<Rightarrow> entry \<Rightarrow> (disk_path option, ImageCacheError) result" where
  "default_rootfs env platform root =
     and_then (default_reference env root) (\<lambda>reference.
     and_then (resolve_reference env reference platform root) (\<lambda>image. Ok (map_option ci_rootfs image)))"

definition cached_of_record :: "string \<Rightarrow> RootfsEntry list \<Rightarrow> StoredRecord \<Rightarrow> (CachedImage, ImageCacheError) result" where
  "cached_of_record dflt roots rcd =
     and_then (parse_digest (ir_manifest_digest (sr_value rcd))) (\<lambda>digest.
       let root = map_of (rev (map (\<lambda>e. (re_digest e, e)) roots)) digest;
           used = Option.bind root (\<lambda>e. metadata_state_usage (re_metadata e))
       in Ok
         \<lparr>ci_reference = Some (ir_reference (sr_value rcd)), ci_manifest_digest = digest_display digest,
          ci_platform = Some (ir_platform (sr_value rcd)), ci_rootfs = rootfs_path digest,
          ci_ready = (case root of Some e \<Rightarrow> re_ready e | None \<Rightarrow> False),
          ci_default = (ir_reference (sr_value rcd) = dflt),
          ci_size_bytes = (case used of Some u \<Rightarrow> su_logical_bytes u | None \<Rightarrow> 0),
          ci_allocated_bytes = (case used of Some u \<Rightarrow> su_allocated_bytes u | None \<Rightarrow> 0),
          ci_size_indexed = (used \<noteq> None)\<rparr>)"

definition cached_of_root :: "RootfsEntry \<Rightarrow> CachedImage" where
  "cached_of_root e =
     (let used = metadata_state_usage (re_metadata e) in
      \<lparr>ci_reference = None, ci_manifest_digest = digest_display (re_digest e), ci_platform = None, ci_rootfs = re_path e,
       ci_ready = re_ready e, ci_default = False,
       ci_size_bytes = (case used of Some u \<Rightarrow> su_logical_bytes u | None \<Rightarrow> 0),
       ci_allocated_bytes = (case used of Some u \<Rightarrow> su_allocated_bytes u | None \<Rightarrow> 0),
       ci_size_indexed = (used \<noteq> None)\<rparr>)"

definition list_unlocked :: "cache_env \<Rightarrow> entry \<Rightarrow> (CachedImage list, ImageCacheError) result" where
  "list_unlocked env root =
     and_then (read_records env root) (\<lambda>records.
     and_then (read_rootfs_entries env root) (\<lambda>roots.
     and_then (default_reference_unlocked env root) (\<lambda>dflt.
     and_then (collect_results (cached_of_record dflt roots) records) (\<lambda>images.
     and_then (collect_results (\<lambda>r. parse_digest (ir_manifest_digest (sr_value r))) records) (\<lambda>indexed.
       Ok (sort_key (\<lambda>i. (ci_reference i, ci_manifest_digest i))
             (images @ map cached_of_root (filter (\<lambda>e. re_digest e \<notin> set indexed) roots))))))))"

definition cache_list :: "cache_env \<Rightarrow> entry \<Rightarrow> (CachedImage list, ImageCacheError) result" where
  "cache_list env root = and_then (lock_path env metadata_lock_path False) (\<lambda>_. list_unlocked env root)"

section \<open>Usage\<close>

record CacheUsage =
  cu_references :: nat
  cu_images :: nat
  cu_rootfs :: StorageUsage
  cu_rootfs_without_size_metadata :: nat
  cu_base_disks :: nat
  cu_base_disk :: StorageUsage
  cu_oci_blobs :: nat
  cu_oci :: StorageUsage
  cu_workspaces :: nat
  cu_workspace :: StorageUsage
  cu_total_bytes :: nat
  cu_total_allocated_bytes :: nat

definition file_usage :: "entry \<Rightarrow> StorageUsage" where
  "file_usage n = \<lparr>su_logical_bytes = entry_len n, su_allocated_bytes = allocated_bytes n, su_entries = 1\<rparr>"

primrec count_files ::
  "cache_env \<Rightarrow> disk_path \<Rightarrow> (string \<times> entry) list \<Rightarrow> nat \<times> StorageUsage \<Rightarrow> (nat \<times> StorageUsage, ImageCacheError) result" where
  "count_files env p [] acc = Ok acc"
| "count_files env p (e # es) acc =
     and_then (map_err IceIo (disk_try env CallFileType (p @ [fst e]))) (\<lambda>_.
       if is_file (snd e) then
         and_then (map_err IceIo (disk_try env CallMetadata (p @ [fst e]))) (\<lambda>_.
           count_files env p es (fst acc + 1, usage_add (snd acc) (file_usage (snd e))))
       else count_files env p es acc)"

definition count_regular_files :: "cache_env \<Rightarrow> disk_path \<Rightarrow> entry \<Rightarrow> (nat \<times> StorageUsage, ImageCacheError) result" where
  "count_regular_files env p root =
     and_then (read_entries env p root) (\<lambda>es. count_files env p es (0, usage_default))"

fun count_base_entry :: "cache_env \<Rightarrow> disk_path \<Rightarrow> entry \<Rightarrow> (nat \<times> StorageUsage, ImageCacheError) result"
  and count_base_entries ::
    "cache_env \<Rightarrow> disk_path \<Rightarrow> (string \<times> entry) list \<Rightarrow> nat \<times> StorageUsage \<Rightarrow> (nat \<times> StorageUsage, ImageCacheError) result" where
  "count_base_entry env p n =
     (case n of
        EDir _ es \<Rightarrow>
          (case disk_try env CallReadDir p of
             Inl DeNotFound \<Rightarrow> Ok (0, usage_default)
           | Inl e \<Rightarrow> Err (IceIo e)
           | Inr _ \<Rightarrow> count_base_entries env p es (0, usage_default))
      | ELink _ _ \<Rightarrow> Ok (0, usage_default)
      | EOther _ \<Rightarrow> Ok (0, usage_default)
      | EFile _ _ \<Rightarrow> if last p = ''root.ext4'' then Ok (1, file_usage n) else Ok (0, usage_default))"
| "count_base_entries env p [] acc = Ok acc"
| "count_base_entries env p ((c, n) # es) acc =
     and_then (map_err IceIo (disk_try env CallMetadata (p @ [c]))) (\<lambda>_.
     and_then (count_base_entry env (p @ [c]) n) (\<lambda>k.
       count_base_entries env p es (fst acc + fst k, usage_add (snd acc) (snd k))))"

definition count_base_disks :: "cache_env \<Rightarrow> disk_path \<Rightarrow> entry \<Rightarrow> (nat \<times> StorageUsage, ImageCacheError) result" where
  "count_base_disks env p root =
     and_then (read_entries env p root) (\<lambda>es. count_base_entries env p es (0, usage_default))"

definition usage_unlocked :: "cache_env \<Rightarrow> entry \<Rightarrow> (CacheUsage, ImageCacheError) result" where
  "usage_unlocked env root =
     and_then (read_records env root) (\<lambda>records.
     and_then (read_rootfs_entries env root) (\<lambda>roots.
       let usages = List.map_filter (\<lambda>e. metadata_state_usage (re_metadata e)) roots;
           rootfs = foldl usage_add usage_default usages
       in
       and_then (count_base_disks env [''box-bases''] root) (\<lambda>(base_disks, base).
       and_then (count_regular_files env blob_directory root) (\<lambda>(oci_blobs, oci).
       and_then (count_regular_files env [''workspaces'', ''sha256''] root) (\<lambda>(workspaces, workspace).
         Ok \<lparr>cu_references = length records, cu_images = length (filter re_ready roots), cu_rootfs = rootfs,
             cu_rootfs_without_size_metadata = length (filter (\<lambda>e. metadata_state_usage (re_metadata e) = None) roots),
             cu_base_disks = base_disks, cu_base_disk = base, cu_oci_blobs = oci_blobs, cu_oci = oci,
             cu_workspaces = workspaces, cu_workspace = workspace,
             cu_total_bytes = saturating_add (saturating_add (saturating_add (su_logical_bytes rootfs)
               (su_logical_bytes base)) (su_logical_bytes oci)) (su_logical_bytes workspace),
             cu_total_allocated_bytes = saturating_add (saturating_add (saturating_add (su_allocated_bytes rootfs)
               (su_allocated_bytes base)) (su_allocated_bytes oci)) (su_allocated_bytes workspace)\<rparr>)))))"

definition cache_usage :: "cache_env \<Rightarrow> entry \<Rightarrow> (CacheUsage, ImageCacheError) result" where
  "cache_usage env root = and_then (lock_path env metadata_lock_path False) (\<lambda>_. usage_unlocked env root)"

section \<open>Recording images\<close>

definition write_image_record ::
  "cache_env \<Rightarrow> string \<Rightarrow> Digest option \<Rightarrow> Digest \<Rightarrow> Platform \<Rightarrow> unit cache_op" where
  "write_image_record env reference source_digest digest platform =
     bind_eff (lift_eff (canonical_reference reference)) (\<lambda>canonical.
       write_json_atomic env (record_path_for env canonical platform)
         (ce_record_json env
           \<lparr>ir_schema_version = SCHEMA_VERSION, ir_reference = canonical,
            ir_source_manifest_digest = map_option digest_display source_digest,
            ir_manifest_digest = digest_display digest, ir_platform = platform\<rparr>))"

definition record_image :: "cache_env \<Rightarrow> string \<Rightarrow> Digest \<Rightarrow> Platform \<Rightarrow> unit cache_op" where
  "record_image env reference digest platform = write_image_record env reference None digest platform"

definition record_pulled_image :: "cache_env \<Rightarrow> string \<Rightarrow> Digest \<Rightarrow> Digest \<Rightarrow> Platform \<Rightarrow> unit cache_op" where
  "record_pulled_image env reference source_digest digest platform =
     write_image_record env reference (Some source_digest) digest platform"

definition write_rootfs_metadata :: "cache_env \<Rightarrow> Digest \<Rightarrow> RootfsMetadata \<Rightarrow> bool \<Rightarrow> unit cache_op" where
  "write_rootfs_metadata env digest metadata replace_unmanaged_type =
     (let p = rootfs_metadata_path digest in
      bind_eff (get_eff dk_root) (\<lambda>root.
      bind_eff (case fs_metadata env p root of
                  Inl _ \<Rightarrow> lift_eff (Ok ())
                | Inr n \<Rightarrow>
                    if is_file n then lift_eff (Ok ())
                    else if \<not> replace_unmanaged_type then lift_eff (Err (IceInvalidManagedPath p))
                    else remove_managed_path env p) (\<lambda>_.
        write_json_atomic env p (ce_metadata_json env metadata))))"

definition set_default :: "cache_env \<Rightarrow> string \<Rightarrow> string cache_op" where
  "set_default env reference =
     bind_eff (lift_eff (lock_path env metadata_lock_path True)) (\<lambda>_.
     bind_eff (lift_eff (canonical_reference reference)) (\<lambda>canonical.
     bind_eff (write_json_atomic env default_path
                 (ce_default_json env \<lparr>di_schema_version = SCHEMA_VERSION, di_reference = canonical\<rparr>)) (\<lambda>_.
       lift_eff (Ok canonical))))"

definition clear_default :: "cache_env \<Rightarrow> bool cache_op" where
  "clear_default env =
     bind_eff (lift_eff (lock_path env metadata_lock_path True)) (\<lambda>_. remove_file_if_exists env default_path)"

text \<open>A root file system that was extracted beside the cache; its directory goes away with the value, whatever happened.\<close>

record StagedRootfs =
  st_directory :: disk_path
  st_metadata :: "RootfsMetadata option"

definition st_rootfs :: "StagedRootfs \<Rightarrow> disk_path" where
  "st_rootfs staging = st_directory staging @ [''rootfs'']"

definition staged_publish :: "cache_env \<Rightarrow> StagedRootfs \<Rightarrow> disk_path \<Rightarrow> unit cache_op" where
  "staged_publish env staging destination =
     bind_eff (cache_io (fs_rename env (st_rootfs staging) destination)) (\<lambda>_.
     bind_eff (get_eff dk_root) (\<lambda>root.
       lift_eff (map_err IceIo (sync_directory env (butlast destination) root))))"

definition publish_rootfs ::
  "cache_env \<Rightarrow> StagedRootfs \<Rightarrow> string \<Rightarrow> Digest \<Rightarrow> Digest \<Rightarrow> Platform \<Rightarrow> PreparedImage cache_op" where
  "publish_rootfs env staging reference source_digest digest platform =
     (let rootfs = rootfs_path digest in
      bind_eff (lift_eff (ok_or (st_metadata staging) (IceMissingRootfsMetadata (st_rootfs staging)))) (\<lambda>staged_metadata.
      bind_eff (lift_eff (lock_path env (rootfs_lock_path digest) True)) (\<lambda>_.
      bind_eff (get_eff dk_root) (\<lambda>root.
      bind_eff
        (if is_complete_rootfs env rootfs digest root then
           lift_eff (and_then (read_rootfs_metadata env digest root) (\<lambda>m.
             case m of
               MetadataValid v \<Rightarrow> Ok v
             | _ \<Rightarrow> and_then (tree_storage_usage env rootfs root) (\<lambda>u. Ok (rootfs_metadata_new digest u))))
         else if is_ok (fs_metadata env rootfs root) then lift_eff (Err (IceRootfsExists rootfs))
         else
           bind_eff (cache_io (fs_create_dir_all env rootfs_directory)) (\<lambda>_.
           bind_eff (staged_publish env staging rootfs) (\<lambda>_. lift_eff (Ok staged_metadata)))) (\<lambda>metadata.
      bind_eff (lift_eff (lock_path env metadata_lock_path True)) (\<lambda>_.
      bind_eff (write_rootfs_metadata env digest metadata False) (\<lambda>_.
      bind_eff (record_pulled_image env reference source_digest digest platform) (\<lambda>_.
        lift_eff (Ok \<lparr>pr_reference = reference, pr_manifest_digest = digest_display digest, pr_rootfs = rootfs\<rparr>)))))))))"

definition publish_staged_rootfs ::
  "cache_env \<Rightarrow> StagedRootfs \<Rightarrow> string \<Rightarrow> Digest \<Rightarrow> Digest \<Rightarrow> Platform \<Rightarrow> PreparedImage cache_op" where
  "publish_staged_rootfs env staging reference source_digest digest platform s =
     (case publish_rootfs env staging reference source_digest digest platform s of
        (r, s1) \<Rightarrow> (r, snd (fs_remove_dir_all env (st_directory staging) s1)))"

section \<open>Removing an image\<close>

record RemoveReport =
  rr_target :: string
  rr_references_removed :: "string list"
  rr_rootfs_removed :: "disk_path list"
  rr_reclaimed_bytes :: nat
  rr_applied :: bool

definition rootfs_entry_logical_size :: "cache_env \<Rightarrow> entry \<Rightarrow> RootfsEntry \<Rightarrow> (nat, ImageCacheError) result" where
  "rootfs_entry_logical_size env root e =
     (case metadata_state_usage (re_metadata e) of
        Some u \<Rightarrow> Ok (su_logical_bytes u)
      | None \<Rightarrow> path_size env (re_path e) root)"

text \<open>\<^verbatim>\<open>try_fold\<close> with a saturating sum.\<close>

primrec sum_sizes :: "('a \<Rightarrow> (nat, ImageCacheError) result) \<Rightarrow> 'a list \<Rightarrow> nat \<Rightarrow> (nat, ImageCacheError) result" where
  "sum_sizes f [] acc = Ok acc"
| "sum_sizes f (x # xs) acc = and_then (f x) (\<lambda>n. sum_sizes f xs (saturating_add acc n))"

definition record_has_digest :: "Digest \<Rightarrow> StoredRecord \<Rightarrow> bool" where
  "record_has_digest digest rcd \<longleftrightarrow> parse_digest (ir_manifest_digest (sr_value rcd)) = Ok digest"

text \<open>The records a target names and the images it affects, in the order of their digests.\<close>

definition remove_selection ::
  "string \<Rightarrow> ImageTarget \<Rightarrow> StoredRecord list \<Rightarrow> RootfsEntry list \<Rightarrow> (StoredRecord list \<times> Digest list, ImageCacheError) result" where
  "remove_selection text kind records roots =
     (case kind of
        TargetDigest digest \<Rightarrow>
          if list_ex (\<lambda>e. re_digest e = digest) roots \<or> list_ex (record_has_digest digest) records
          then Ok (filter (record_has_digest digest) records, [digest])
          else Err (IceTargetNotFound text)
      | TargetReference reference \<Rightarrow>
          (let selected = filter (\<lambda>r. ir_reference (sr_value r) = reference) records in
           if selected = [] then Err (IceTargetNotFound text)
           else
             and_then (collect_results (\<lambda>r. parse_digest (ir_manifest_digest (sr_value r))) selected) (\<lambda>ds.
               Ok (selected, sort (remdups ds)))))"

definition roots_to_remove :: "ImageTarget \<Rightarrow> StoredRecord list \<Rightarrow> RootfsEntry list \<Rightarrow> StoredRecord list \<Rightarrow> Digest list \<Rightarrow> RootfsEntry list" where
  "roots_to_remove kind records roots selected affected =
     List.map_filter (\<lambda>digest.
       let has_remaining_reference =
             list_ex (\<lambda>r. sr_path r \<notin> set (map sr_path selected) \<and> record_has_digest digest r) records
       in if (case kind of TargetDigest _ \<Rightarrow> True | TargetReference _ \<Rightarrow> False) \<or> \<not> has_remaining_reference
          then List.find (\<lambda>e. re_digest e = digest) roots else None) affected"

definition remove_files :: "cache_env \<Rightarrow> disk_path list \<Rightarrow> unit cache_op" where
  "remove_files env = for_each (\<lambda>p. bind_eff (remove_file_if_exists env p) (\<lambda>_. lift_eff (Ok ())))"

definition remove_roots :: "cache_env \<Rightarrow> RootfsEntry list \<Rightarrow> unit cache_op" where
  "remove_roots env =
     for_each (\<lambda>e.
       bind_eff (remove_managed_directory env (re_path e)) (\<lambda>_. remove_files env [rootfs_metadata_path (re_digest e)]))"

definition cache_remove :: "cache_env \<Rightarrow> string \<Rightarrow> bool \<Rightarrow> RemoveReport cache_op" where
  "cache_remove env target apply =
     bind_eff (lift_eff (if apply then lock_path env activity_lock_path True else Ok ())) (\<lambda>_.
     bind_eff (lift_eff (lock_path env metadata_lock_path True)) (\<lambda>_.
     bind_eff (get_eff dk_root) (\<lambda>root.
     bind_eff (lift_eff (parse_target target)) (\<lambda>kind.
     bind_eff (lift_eff (read_records env root)) (\<lambda>records.
     bind_eff (lift_eff (read_rootfs_entries env root)) (\<lambda>roots.
     bind_eff (lift_eff (remove_selection target kind records roots)) (\<lambda>(selected, affected).
       let doomed = roots_to_remove kind records roots selected affected in
       bind_eff (lift_eff (sum_sizes (rootfs_entry_logical_size env root) doomed 0)) (\<lambda>reclaimed.
       bind_eff
         (if apply then bind_eff (remove_files env (map sr_path selected)) (\<lambda>_. remove_roots env doomed)
          else lift_eff (Ok ())) (\<lambda>_.
         lift_eff (Ok
           \<lparr>rr_target = target, rr_references_removed = remdups (sort (map (\<lambda>r. ir_reference (sr_value r)) selected)),
            rr_rootfs_removed = map re_path doomed, rr_reclaimed_bytes = reclaimed, rr_applied = apply\<rparr>))))))))))"

section \<open>Reconciling size metadata\<close>

datatype RootfsMetadataIssueKind = IssueMissing | IssueInvalid | IssueStale | IssueOrphan | IssueIncompleteRootfs | IssueInvalidRootfsName

record RootfsMetadataIssue =
  mi_kind :: RootfsMetadataIssueKind
  mi_manifest_digest :: "string option"
  mi_path :: disk_path
  mi_logical_bytes :: "nat option"
  mi_allocated_bytes :: "nat option"

record CacheReconcileReport =
  cr_rootfs_checked :: nat
  cr_repairs_required :: nat
  cr_removals_required :: nat
  cr_metadata_written :: nat
  cr_metadata_removed :: nat
  cr_issues :: "RootfsMetadataIssue list"
  cr_applied :: bool

definition rootfs_metadata_issue ::
  "RootfsMetadataIssueKind \<Rightarrow> Digest option \<Rightarrow> disk_path \<Rightarrow> StorageUsage option \<Rightarrow> RootfsMetadataIssue" where
  "rootfs_metadata_issue kind digest p u =
     \<lparr>mi_kind = kind, mi_manifest_digest = map_option digest_display digest, mi_path = p,
      mi_logical_bytes = map_option su_logical_bytes u, mi_allocated_bytes = map_option su_allocated_bytes u\<rparr>"

definition add_issue :: "RootfsMetadataIssue \<Rightarrow> CacheReconcileReport \<Rightarrow> CacheReconcileReport" where
  "add_issue issue report = report\<lparr>cr_issues := cr_issues report @ [issue]\<rparr>"

definition metadata_issue_kind :: "RootfsMetadataState \<Rightarrow> RootfsMetadata \<Rightarrow> RootfsMetadataIssueKind option" where
  "metadata_issue_kind m actual =
     (case m of
        MetadataMissing \<Rightarrow> Some IssueMissing
      | MetadataInvalid \<Rightarrow> Some IssueInvalid
      | MetadataValid indexed \<Rightarrow> if indexed \<noteq> actual then Some IssueStale else None)"

definition reconcile_root :: "cache_env \<Rightarrow> bool \<Rightarrow> RootfsEntry \<Rightarrow> CacheReconcileReport \<Rightarrow> CacheReconcileReport cache_op" where
  "reconcile_root env apply e report =
     (if \<not> re_valid_digest_name e then
        lift_eff (Ok (add_issue (rootfs_metadata_issue IssueInvalidRootfsName None (re_path e) None) report))
      else if \<not> re_ready e then
        (let report = add_issue (rootfs_metadata_issue IssueIncompleteRootfs (Some (re_digest e)) (re_path e) None) report in
         if re_metadata e = MetadataMissing then lift_eff (Ok report)
         else
           (let report = report\<lparr>cr_removals_required := cr_removals_required report + 1\<rparr> in
            if \<not> apply then lift_eff (Ok report)
            else
              bind_eff (remove_managed_path_if_exists env (rootfs_metadata_path (re_digest e))) (\<lambda>removed.
                lift_eff (Ok (if removed then report\<lparr>cr_metadata_removed := cr_metadata_removed report + 1\<rparr> else report)))))
      else
        (let report = report\<lparr>cr_rootfs_checked := cr_rootfs_checked report + 1\<rparr> in
         bind_eff (get_eff dk_root) (\<lambda>root.
         bind_eff (lift_eff (tree_storage_usage env (re_path e) root)) (\<lambda>actual_usage.
           let actual = rootfs_metadata_new (re_digest e) actual_usage in
           case metadata_issue_kind (re_metadata e) actual of
             None \<Rightarrow> lift_eff (Ok report)
           | Some kind \<Rightarrow>
               (let report = add_issue (rootfs_metadata_issue kind (Some (re_digest e)) (rootfs_metadata_path (re_digest e)) (Some actual_usage))
                      (report\<lparr>cr_repairs_required := cr_repairs_required report + 1\<rparr>) in
                if \<not> apply then lift_eff (Ok report)
                else
                  bind_eff (write_rootfs_metadata env (re_digest e) actual True) (\<lambda>_.
                    lift_eff (Ok (report\<lparr>cr_metadata_written := cr_metadata_written report + 1\<rparr>))))))))"

primrec reconcile_roots :: "cache_env \<Rightarrow> bool \<Rightarrow> RootfsEntry list \<Rightarrow> CacheReconcileReport \<Rightarrow> CacheReconcileReport cache_op" where
  "reconcile_roots env apply [] report = lift_eff (Ok report)"
| "reconcile_roots env apply (e # es) report =
     bind_eff (reconcile_root env apply e report) (reconcile_roots env apply es)"

definition metadata_name_digest :: "string \<Rightarrow> Digest option" where
  "metadata_name_digest name =
     Option.bind (to_str (file_stem name)) (\<lambda>stem. case parse_digest_hex stem of Inr d \<Rightarrow> Some d | Inl _ \<Rightarrow> None)"

primrec reconcile_orphans ::
  "cache_env \<Rightarrow> bool \<Rightarrow> Digest list \<Rightarrow> string list \<Rightarrow> CacheReconcileReport \<Rightarrow> CacheReconcileReport cache_op" where
  "reconcile_orphans env apply known [] report = lift_eff (Ok report)"
| "reconcile_orphans env apply known (name # names) report =
     (let p = rootfs_metadata_directory @ [name]; digest = metadata_name_digest name in
      if (case digest of Some d \<Rightarrow> d \<in> set known | None \<Rightarrow> False) then reconcile_orphans env apply known names report
      else
        (let report = add_issue (rootfs_metadata_issue IssueOrphan digest p None)
               (report\<lparr>cr_removals_required := cr_removals_required report + 1\<rparr>) in
         if \<not> apply then reconcile_orphans env apply known names report
         else
           bind_eff (remove_managed_path_if_exists env p) (\<lambda>removed.
             reconcile_orphans env apply known names
               (if removed then report\<lparr>cr_metadata_removed := cr_metadata_removed report + 1\<rparr> else report))))"

definition cache_reconcile :: "cache_env \<Rightarrow> bool \<Rightarrow> CacheReconcileReport cache_op" where
  "cache_reconcile env apply =
     bind_eff (lift_eff (lock_path env activity_lock_path True)) (\<lambda>_.
     bind_eff (lift_eff (lock_path env metadata_lock_path apply)) (\<lambda>_.
     bind_eff (get_eff dk_root) (\<lambda>root.
     bind_eff (lift_eff (read_rootfs_entries env root)) (\<lambda>roots.
       let report = \<lparr>cr_rootfs_checked = 0, cr_repairs_required = 0, cr_removals_required = 0, cr_metadata_written = 0,
                     cr_metadata_removed = 0, cr_issues = [], cr_applied = apply\<rparr> in
       bind_eff (reconcile_roots env apply roots report) (\<lambda>report.
       bind_eff (get_eff dk_root) (\<lambda>root.
       bind_eff (lift_eff (read_entries env rootfs_metadata_directory root)) (\<lambda>es.
       bind_eff (reconcile_orphans env apply (map re_digest (filter re_valid_digest_name roots)) (sort (map fst es)) report) (\<lambda>report.
         lift_eff (Ok (report\<lparr>cr_issues := sort_key mi_path (cr_issues report)\<rparr>))))))))))"

section \<open>Pruning and cleaning\<close>

record PruneReport =
  pt_oci_blobs_removed :: nat
  pt_incomplete_rootfs_removed :: nat
  pt_stale_records_removed :: nat
  pt_reclaimed_bytes :: nat
  pt_applied :: bool

record CleanReport =
  cl_entries_removed :: nat
  cl_reclaimed_bytes :: nat
  cl_applied :: bool

text \<open>What a prune is going to remove.\<close>

record prune_plan =
  pp_blobs :: "(disk_path \<times> nat) list"
  pp_roots :: "RootfsEntry list"
  pp_records :: "StoredRecord list"
  pp_staging :: "disk_path list"
  pp_reclaimed :: nat

definition blob_to_remove :: "cache_env \<Rightarrow> Digest list \<Rightarrow> string \<times> entry \<Rightarrow> ((disk_path \<times> nat) option, ImageCacheError) result" where
  "blob_to_remove env reachable = (\<lambda>(name, n).
     let p = blob_directory @ [name] in
     and_then (map_err IceIo (disk_try env CallFileType p)) (\<lambda>_.
       if \<not> is_file n then Ok None
       else if to_str name \<noteq> None \<and> (case parse_digest_hex name of Inr d \<Rightarrow> d \<in> set reachable | Inl _ \<Rightarrow> False) then Ok None
       else and_then (map_err IceIo (disk_try env CallMetadata p)) (\<lambda>_. Ok (Some (p, entry_len n)))))"

definition staging_to_remove :: "cache_env \<Rightarrow> string \<times> entry \<Rightarrow> (disk_path option, ImageCacheError) result" where
  "staging_to_remove env = (\<lambda>(name, n).
     let p = staging_directory @ [name] in
     and_then (map_err IceIo (disk_try env CallFileType p)) (\<lambda>_.
       Ok (if is_dir n \<and> to_str name \<noteq> None \<and> is_rootfs_staging_name name then Some p else None)))"

definition record_file_size :: "cache_env \<Rightarrow> entry \<Rightarrow> disk_path \<Rightarrow> nat" where
  "record_file_size env root p = (case fs_metadata env p root of Inr n \<Rightarrow> entry_len n | Inl _ \<Rightarrow> 0)"

definition plan_prune :: "cache_env \<Rightarrow> entry \<Rightarrow> (prune_plan, ImageCacheError) result" where
  "plan_prune env root =
     and_then (read_rootfs_entries env root) (\<lambda>roots.
       let complete = sort (remdups (map re_digest (filter re_ready roots))) in
       and_then (reachable_blobs env root complete) (\<lambda>reachable.
       and_then (read_entries env blob_directory root) (\<lambda>blob_entries.
       and_then (collect_results (blob_to_remove env reachable) blob_entries) (\<lambda>blobs.
         let blobs = List.map_filter id blobs; incomplete = filter (\<lambda>e. \<not> re_ready e) roots in
         and_then (read_records env root) (\<lambda>records.
           let stale = filter (\<lambda>r. case parse_digest (ir_manifest_digest (sr_value r)) of
                                     Inr d \<Rightarrow> d \<notin> set complete | Inl _ \<Rightarrow> True) records in
           and_then (read_entries env staging_directory root) (\<lambda>staging_entries.
           and_then (collect_results (staging_to_remove env) staging_entries) (\<lambda>staging.
             let staging = List.map_filter id staging in
             and_then (sum_sizes (rootfs_entry_logical_size env root) incomplete 0) (\<lambda>incomplete_bytes.
             and_then (sum_sizes (\<lambda>p. path_size env p root) staging 0) (\<lambda>staging_bytes.
               Ok \<lparr>pp_blobs = blobs, pp_roots = incomplete, pp_records = stale, pp_staging = staging,
                   pp_reclaimed = saturating_add (saturating_add (saturating_add
                     (foldl wrapping_add 0 (map snd blobs)) incomplete_bytes)
                     (foldl wrapping_add 0 (map (\<lambda>r. record_file_size env root (sr_path r)) stale))) staging_bytes\<rparr>)))))))))"

definition prune_roots :: "cache_env \<Rightarrow> RootfsEntry list \<Rightarrow> unit cache_op" where
  "prune_roots env =
     for_each (\<lambda>e.
       bind_eff (remove_managed_directory env (re_path e)) (\<lambda>_.
         remove_files env (if re_valid_digest_name e then [rootfs_metadata_path (re_digest e)] else [])))"

definition apply_prune :: "cache_env \<Rightarrow> prune_plan \<Rightarrow> unit cache_op" where
  "apply_prune env plan =
     bind_eff (remove_files env (map fst (pp_blobs plan))) (\<lambda>_.
     bind_eff (prune_roots env (pp_roots plan)) (\<lambda>_.
     bind_eff (remove_files env (map sr_path (pp_records plan))) (\<lambda>_.
       for_each (remove_managed_directory env) (pp_staging plan))))"

definition cache_prune :: "cache_env \<Rightarrow> bool \<Rightarrow> PruneReport cache_op" where
  "cache_prune env apply =
     bind_eff (lift_eff (if apply then lock_path env activity_lock_path True else Ok ())) (\<lambda>_.
     bind_eff (lift_eff (lock_path env metadata_lock_path True)) (\<lambda>_.
     bind_eff (get_eff dk_root) (\<lambda>root.
     bind_eff (lift_eff (plan_prune env root)) (\<lambda>plan.
     bind_eff (if apply then apply_prune env plan else lift_eff (Ok ())) (\<lambda>_.
       lift_eff (Ok
         \<lparr>pt_oci_blobs_removed = length (pp_blobs plan),
          pt_incomplete_rootfs_removed = length (pp_roots plan) + length (pp_staging plan),
          pt_stale_records_removed = length (pp_records plan), pt_reclaimed_bytes = pp_reclaimed plan, pt_applied = apply\<rparr>))))))"

definition clean_paths :: "disk_path list" where
  "clean_paths =
     [[''images''], [''oci''], [''rootfs''], [''rootfs-metadata''], [''box-bases''], [''workspaces''], [''tmp''], default_path]"

definition cache_clean :: "cache_env \<Rightarrow> bool \<Rightarrow> CleanReport cache_op" where
  "cache_clean env apply =
     bind_eff (lift_eff (if apply then lock_path env activity_lock_path True else Ok ())) (\<lambda>_.
     bind_eff (lift_eff (lock_path env metadata_lock_path True)) (\<lambda>_.
     bind_eff (get_eff dk_root) (\<lambda>root.
       let existing = filter (\<lambda>p. is_ok (fs_metadata env p root)) clean_paths;
           reclaimed = foldl wrapping_add 0 (map (\<lambda>p. case path_size env p root of Inr n \<Rightarrow> n | Inl _ \<Rightarrow> 0) existing)
       in
       bind_eff (if apply then for_each (remove_managed_path env) existing else lift_eff (Ok ())) (\<lambda>_.
         lift_eff (Ok \<lparr>cl_entries_removed = length existing, cl_reclaimed_bytes = reclaimed, cl_applied = apply\<rparr>)))))"

section \<open>Preparing an image\<close>

definition prepared_image :: "CachedImage \<Rightarrow> (PreparedImage, ImageCacheError) result" where
  "prepared_image i =
     and_then (ok_or (ci_reference i) IcePanic) (\<lambda>r.
       Ok \<lparr>pr_reference = r, pr_manifest_digest = ci_manifest_digest i, pr_rootfs = ci_rootfs i\<rparr>)"

text \<open>
  \<open>pull\<close> stands for \<^verbatim>\<open>pull_unlocked\<close>, the download and extraction of an image; \<open>others\<close> for what other processes do
  to the cache while the call waits for the lock of its reference.
\<close>

definition pull_with_progress ::
  "cache_env \<Rightarrow> (string \<Rightarrow> Platform \<Rightarrow> PreparedImage cache_op) \<Rightarrow> (disk \<Rightarrow> disk) \<Rightarrow> string \<Rightarrow> Platform \<Rightarrow> PreparedImage cache_op" where
  "pull_with_progress env pull others reference platform =
     bind_eff (lift_eff (canonical_reference reference)) (\<lambda>canonical.
     bind_eff (lift_eff (lock_path env activity_lock_path False)) (\<lambda>_.
     bind_eff (\<lambda>s. (lock_path env (reference_lock_path env canonical platform) True, others s)) (\<lambda>_.
       pull canonical platform)))"

definition prepare_with_progress ::
  "cache_env \<Rightarrow> (string \<Rightarrow> Platform \<Rightarrow> PreparedImage cache_op) \<Rightarrow> (disk \<Rightarrow> disk) \<Rightarrow> string \<Rightarrow> Platform \<Rightarrow> ImagePullPolicy \<Rightarrow> PreparedImage cache_op" where
  "prepare_with_progress env pull others reference platform policy =
     bind_eff (lift_eff (canonical_reference reference)) (\<lambda>canonical.
       if policy = Always then pull_with_progress env pull others canonical platform
       else
         bind_eff (get_eff dk_root) (\<lambda>root.
         bind_eff (lift_eff (resolve_reference env canonical platform root)) (\<lambda>image.
           case image of
             Some i \<Rightarrow> lift_eff (prepared_image i)
           | None \<Rightarrow>
               if policy = Never then lift_eff (Err (IceCacheOnlyMiss canonical))
               else
                 bind_eff (lift_eff (lock_path env activity_lock_path False)) (\<lambda>_.
                 bind_eff (\<lambda>s. (lock_path env (reference_lock_path env canonical platform) True, others s)) (\<lambda>_.
                 bind_eff (get_eff dk_root) (\<lambda>root.
                 bind_eff (lift_eff (resolve_reference env canonical platform root)) (\<lambda>image.
                   case image of
                     Some i \<Rightarrow> lift_eff (prepared_image i)
                   | None \<Rightarrow> pull canonical platform)))))))"

end
