(* ===== verification/Disk_Frame.thy ===== *)
theory Disk_Frame
  imports Disk
begin

text \<open>
  What the calls on the directory tree leave as it is, and what they leave behind. Two relations between trees, both
  interpretations of \<open>eff_relation\<close>, carry the proofs of the components that manage directories: paths that an
  operation does not touch, and paths that stay absent.
\<close>

section \<open>Removal of one path\<close>

definition apart :: "disk_path \<Rightarrow> disk_path \<Rightarrow> bool" where
  "apart p q \<longleftrightarrow> \<not> prefix p q \<and> \<not> prefix q p"

definition untouched :: "disk_path set \<Rightarrow> disk \<Rightarrow> disk \<Rightarrow> bool" where
  "untouched P s s' \<longleftrightarrow> (\<forall>p \<in> P. node_at p (dk_root s') = node_at p (dk_root s))"

definition still_gone :: "disk_path set \<Rightarrow> disk \<Rightarrow> disk \<Rightarrow> bool" where
  "still_gone P s s' \<longleftrightarrow>
     (\<forall>p \<in> P. node_at p (dk_root s) = Err DeNotFound \<longrightarrow> node_at p (dk_root s') = Err DeNotFound)"

text \<open>The operation changed nothing or what is at one path.\<close>

definition touches :: "disk_path \<Rightarrow> disk \<Rightarrow> disk \<Rightarrow> bool" where
  "touches q s s' \<longleftrightarrow> s' = s \<or> is_ok (node_at q (dk_root s)) \<and> (\<exists>v. s' = set_node q v s)"

interpretation keep: eff_relation "untouched P" for P
  by unfold_locales (auto simp: untouched_def)

interpretation absent: eff_relation "still_gone P" for P
  by unfold_locales (auto simp: still_gone_def)

lemma set_node_apart: "apart q p \<Longrightarrow> node_at p (dk_root (set_node q v s)) = node_at p (dk_root s)"
  unfolding set_node_def apart_def by (simp add: change_at_other)

lemma touches_keeps:
  assumes "touches q s s'" and "\<And>p. p \<in> P \<Longrightarrow> apart q p"
  shows "untouched P s s'"
  unfolding untouched_def using assms by (auto simp: touches_def set_node_apart)

lemma touches_gone:
  assumes "touches q s s'" and "\<And>p. p \<in> P \<Longrightarrow> p = q \<or> apart q p"
  shows "still_gone P s s'"
  unfolding still_gone_def
proof (intro ballI impI)
  fix p assume p: "p \<in> P" "node_at p (dk_root s) = Err DeNotFound"
  show "node_at p (dk_root s') = Err DeNotFound"
    using assms(1) assms(2) [OF p(1)] p(2) by (auto simp: touches_def set_node_apart)
qed

lemma remove_file_touches: "touches p s (snd (fs_remove_file env p s))"
  by (auto simp: fs_remove_file_def touches_def and_then_Inr_iff is_ok_iff split: sum.splits)

lemma remove_dir_all_touches: "touches p s (snd (fs_remove_dir_all env p s))"
  by (auto simp: fs_remove_dir_all_def touches_def is_ok_iff split: sum.splits option.splits)

lemma touches_refl [simp]: "touches p s s"
  by (simp add: touches_def)

text \<open>After a successful removal the path is absent.\<close>

lemma removed_gone:
  assumes "node_at p (dk_root s) = Inr n" "p \<noteq> []"
  shows "node_at p (dk_root (set_node p None s)) = Err DeNotFound"
proof -
  obtain q c where p: "p = q @ [c]" using assms(2) by (metis rev_exhaust)
  with assms(1) obtain i es where "node_at q (dk_root s) = Inr (EDir i es)" using node_at_parent by blast
  from node_at_change_at [OF this, of c None] show ?thesis by (simp add: p set_node_def)
qed

text \<open>A call that fails does not claim that an existing file is missing.\<close>

definition honest :: "'z disk_env_scheme \<Rightarrow> bool" where
  "honest env \<longleftrightarrow> (\<forall>call p. de_fault env call p \<noteq> Some DeNotFound)"

lemma apart_names: "c \<noteq> d \<Longrightarrow> apart (p @ [c]) (p @ d # q)"
  by (auto simp: apart_def)

lemma apart_dirs: "p \<noteq> [] \<Longrightarrow> q \<noteq> [] \<Longrightarrow> hd p \<noteq> hd q \<Longrightarrow> apart (p @ a) (q @ b)"
  by (cases p; cases q) (auto simp: apart_def)

lemma apart_prefix: "apart p q \<Longrightarrow> prefix q r \<Longrightarrow> apart p r"
  unfolding apart_def by (meson prefix_order.trans prefix_same_cases)

lemma fs_read_node: "fs_read env p root = Inr bs \<Longrightarrow> \<exists>i. node_at p root = Inr (EFile i bs) \<and> de_fault env CallRead p = None"
proof -
  assume "fs_read env p root = Inr bs"
  then obtain x where "node_at p root = Inr x" "de_fault env CallRead p = None"
    "(case x of EFile _ bs \<Rightarrow> Ok bs | EDir _ _ \<Rightarrow> Err (DeOther ''is a directory'')
      | ELink _ _ \<Rightarrow> Err (DeOther ''symbolic link'') | EOther _ \<Rightarrow> Err (DeOther ''not a file'')) = Inr bs"
    unfolding fs_read_def and_then_Inr_iff by auto
  then show ?thesis by (cases x) auto
qed

lemma mkdirs_present: "node_at (p @ cs) (dk_root s) = Inr (EDir i es) \<Longrightarrow> mkdirs env p cs s = (Ok (), s)"
proof (induction cs arbitrary: p)
  case (Cons c cs)
  then have "node_at ((p @ [c]) @ cs) (dk_root s) = Inr (EDir i es)" by simp
  moreover from this obtain n where "node_at (p @ [c]) (dk_root s) = Inr n" "node_at cs n = Inr (EDir i es)"
    unfolding node_at_append [of "p @ [c]"] by (auto simp: and_then_Inr_iff)
  moreover from this(2) have "is_dir n" by (cases cs; cases n) (auto simp: is_dir_def)
  ultimately show ?case using Cons.IH [of "p @ [c]"] by simp
qed simp

lemma fs_create_new_at:
  assumes "node_at q (dk_root s) = Inr (EDir i es)"
  shows "fs_create_new env (q @ [t]) s = (Inl e, s') \<Longrightarrow> s' = s"
    and "fs_create_new env (q @ [t]) s = (Inr u, s') \<Longrightarrow> s' = set_node (q @ [t]) (Some (EFile (de_info env (q @ [t])) [])) s"
  using assms by (auto simp: fs_create_new_def and_then_def disk_try_def is_dir_def split: sum.splits option.splits if_splits)

lemma set_node_sibling:
  assumes "node_at q (dk_root s) = Inr (EDir i es)" "c \<noteq> t"
  shows "\<exists>es'. node_at q (dk_root (set_node (q @ [t]) v s)) = Inr (EDir i es')"
    and "node_at (q @ [c]) (dk_root (set_node (q @ [t]) v s)) = node_at (q @ [c]) (dk_root s)"
    and "node_at (q @ [t]) (dk_root (set_node (q @ [t]) v s)) = (case v of None \<Rightarrow> Err DeNotFound | Some m \<Rightarrow> Ok m)"
  using change_at_same [OF assms(1), of t v] change_at_sibling [of t c q "[]" v "dk_root s"] node_at_change_at [OF assms(1), of t v] assms(2)
  by (auto simp: set_node_def)

lemma set_node_parent: "node_at d (dk_root s) = Inr (EDir i es) \<Longrightarrow> \<exists>es'. node_at d (dk_root (set_node (d @ [c]) v s)) = Inr (EDir i es')"
  by (simp add: set_node_def change_at_same)

lemma mkdirs_Ok:
  assumes "mkdirs env p cs s = (Inr u, s')" "node_at p (dk_root s) = Inr (EDir i es)"
  shows "\<exists>i es. node_at (p @ cs) (dk_root s') = Inr (EDir i es)"
  using assms
proof (induction cs arbitrary: p s i es)
  case (Cons c cs)
  show ?case
  proof (cases "node_at (p @ [c]) (dk_root s)")
    case (Inr n)
    with Cons.prems have "is_dir n" "mkdirs env (p @ [c]) cs s = (Inr u, s')" by (auto split: if_splits)
    moreover from this(1) obtain j fs where "n = EDir j fs" by (cases n) (auto simp: is_dir_def)
    ultimately show ?thesis using Cons.IH [of "p @ [c]" s j fs] Inr by auto
  next
    case (Inl e)
    with Cons.prems have run: "mkdirs env (p @ [c]) cs (set_node (p @ [c]) (Some (EDir (de_info env (p @ [c])) [])) s) = (Inr u, s')"
      by (auto split: disk_error.splits option.splits)
    have "node_at (p @ [c]) (dk_root (set_node (p @ [c]) (Some (EDir (de_info env (p @ [c])) [])) s)) = Inr (EDir (de_info env (p @ [c])) [])"
      using node_at_change_at [OF Cons.prems(2), of c "Some (EDir (de_info env (p @ [c])) [])"] by (simp add: set_node_def)
    from Cons.IH [OF run this] show ?thesis by simp
  qed
qed auto

lemma fs_rename_Ok:
  assumes "fs_rename env (q @ [t]) (q @ [c]) s = (Inr u, s')" "node_at (q @ [t]) (dk_root s) = Inr n" "c \<noteq> t"
  shows "node_at (q @ [c]) (dk_root s') = Inr n"
proof -
  obtain i es where dir: "node_at q (dk_root s) = Inr (EDir i es)" using node_at_parent assms(2) by blast
  have s': "s' = set_node (q @ [c]) (Some n) (set_node (q @ [t]) None s)"
    using assms(1,2) dir by (auto simp: fs_rename_def is_dir_def and_then_def split: sum.splits if_splits entry.splits)
  obtain es' where "node_at q (dk_root (set_node (q @ [t]) None s)) = Inr (EDir i es')"
    using set_node_sibling(1) [OF dir assms(3)] by blast
  from set_node_sibling(3) [OF this assms(3) [symmetric], of "Some n"] show ?thesis by (simp add: s')
qed

lemma fs_rename_Err: "fs_rename env from to s = (Inl e, s') \<Longrightarrow> s' = s"
  by (auto simp: fs_rename_def split: sum.splits if_splits entry.splits)

section \<open>What the calls keep\<close>

lemma untouchedI: "(\<And>p. p \<in> P \<Longrightarrow> node_at p (dk_root s') = node_at p (dk_root s)) \<Longrightarrow> untouched P s s'"
  by (simp add: untouched_def)

lemma untouched_mono: "untouched P s s' \<Longrightarrow> Q \<subseteq> P \<Longrightarrow> untouched Q s s'"
  by (auto simp: untouched_def)

lemma apart_sym: "apart p q \<longleftrightarrow> apart q p"
  by (auto simp: apart_def)

lemma apart_below: "apart d p \<Longrightarrow> apart (d @ r) p"
  using apart_prefix [of p d "d @ r"] by (simp add: apart_sym)

lemma set_node_keeps: "(\<And>p. p \<in> P \<Longrightarrow> apart q p) \<Longrightarrow> untouched P s (set_node q v s)"
  by (rule untouchedI) (simp add: set_node_apart)

text \<open>A new entry whose inside is as absent as it was.\<close>

lemma change_at_inside:
  assumes "\<not> prefix p q" "\<And>c r. node_at (c # r) m = and_then (node_at q n) (node_at (c # r))"
    "q = [] \<or> (\<exists>i es. node_at (butlast q) n = Inr (EDir i es))"
  shows "node_at p (change_at q (Some m) n) = node_at p n"
proof (cases "prefix q p")
  case True
  with assms(1) obtain c r where p: "p = q @ c # r" by (metis append.right_neutral neq_Nil_conv prefix_def)
  have "node_at q (change_at q (Some m) n) = Inr m"
  proof (cases q rule: rev_cases)
    case (snoc q' d)
    then obtain i es where "node_at q' n = Inr (EDir i es)" using assms(3) by auto
    from node_at_change_at [OF this, of d "Some m"] show ?thesis by (simp add: snoc)
  qed simp
  then show ?thesis using assms(2) [of c r] by (simp add: p node_at_append)
qed (use assms(1) in \<open>simp add: change_at_other\<close>)

lemma mkdirs_keeps:
  "\<exists>i es. node_at q (dk_root s) = Inr (EDir i es) \<Longrightarrow> (\<And>p. p \<in> P \<Longrightarrow> \<not> prefix p (q @ cs)) \<Longrightarrow>
     untouched P s (snd (mkdirs env q cs s))"
proof (induction cs arbitrary: q s)
  case (Cons c cs)
  show ?case
  proof (cases "node_at (q @ [c]) (dk_root s)")
    case (Inr n)
    then show ?thesis using Cons.IH [of "q @ [c]" s] Cons.prems by (cases n) (auto simp: is_dir_def keep.same)
  next
    case (Inl e)
    let ?m = "EDir (de_info env (q @ [c])) []"
    let ?t = "set_node (q @ [c]) (Some ?m) s"
    obtain i es where dir: "node_at q (dk_root s) = Inr (EDir i es)" using Cons.prems(1) by auto
    have "untouched P s ?t" if e: "e = DeNotFound"
    proof (rule untouchedI)
      fix p assume "p \<in> P"
      then have "\<not> prefix p (q @ c # cs)" by (rule Cons.prems(2))
      then have np: "\<not> prefix p (q @ [c])" by (metis append.assoc append_Cons append_Nil prefix_prefix)
      show "node_at p (dk_root ?t) = node_at p (dk_root s)"
        unfolding set_node_def
        using change_at_inside [OF np, of ?m "dk_root s"] Inl e dir by simp
    qed
    moreover have "\<exists>i es. node_at (q @ [c]) (dk_root ?t) = Inr (EDir i es)"
      using node_at_change_at [OF dir, of c "Some ?m"] by (simp add: set_node_def)
    ultimately show ?thesis
      using Cons.IH [of "q @ [c]" ?t] Cons.prems(2) Inl
      by (auto simp: keep.same intro: keep.trans split: disk_error.splits option.splits)
  qed
qed (simp add: keep.same)

lemma create_dir_all_keeps:
  assumes "\<And>p. p \<in> P \<Longrightarrow> \<not> prefix p q"
  shows "untouched P s (snd (fs_create_dir_all env q s))"
proof (cases "dk_root s")
  case (EDir i es)
  then show ?thesis unfolding fs_create_dir_all_def using mkdirs_keeps [of "[]" s P q env] assms by auto
qed (cases q; simp add: fs_create_dir_all_def keep.same)+

lemma parent_is_dir: "node_at q n = Inr m \<Longrightarrow> q = [] \<or> (\<exists>i es. node_at (butlast q) n = Inr (EDir i es))"
  using node_at_parent [of "butlast q" "last q" n m] by (cases q rule: rev_cases) auto

lemma apart_not_prefix: "apart q p \<Longrightarrow> \<not> prefix p q"
  by (simp add: apart_def)

lemma create_new_keeps: "(\<And>p. p \<in> P \<Longrightarrow> apart q p) \<Longrightarrow> untouched P s (snd (fs_create_new env q s))"
  by (auto simp: fs_create_new_def keep.same set_node_keeps split: sum.splits)

lemma write_keeps: "(\<And>p. p \<in> P \<Longrightarrow> apart q p) \<Longrightarrow> untouched P s (snd (fs_write env q bs s))"
  by (auto simp: fs_write_def set_node_keeps split: option.splits)

lemma remove_file_keeps: "(\<And>p. p \<in> P \<Longrightarrow> apart q p) \<Longrightarrow> untouched P s (snd (fs_remove_file env q s))"
  by (rule touches_keeps [OF remove_file_touches])

lemma remove_dir_all_keeps: "(\<And>p. p \<in> P \<Longrightarrow> apart q p) \<Longrightarrow> untouched P s (snd (fs_remove_dir_all env q s))"
  by (rule touches_keeps [OF remove_dir_all_touches])

lemma set_node_twice_keeps:
  "(\<And>p. p \<in> P \<Longrightarrow> apart a p \<and> apart b p) \<Longrightarrow> untouched P s (set_node b v (set_node a u s))"
  by (intro keep.trans [OF set_node_keeps set_node_keeps]) auto

lemma rename_keeps:
  "(\<And>p. p \<in> P \<Longrightarrow> apart a p \<and> apart b p) \<Longrightarrow> untouched P s (snd (fs_rename env a b s))"
  by (auto simp: fs_rename_def keep.same set_node_twice_keeps split: sum.splits entry.splits)

text \<open>A step that keeps something fails, or it succeeds and the rest goes on.\<close>

lemma bind_outcome:
  assumes "bind_eff m f s = (r, s')" "untouched P s (snd (m s))"
  shows "(\<exists>e. r = Inl e) \<and> untouched P s s' \<or> (\<exists>x t. m s = (Inr x, t) \<and> untouched P s t \<and> f x t = (r, s'))"
  using assms by (cases "m s") (auto simp: bind_eff_def split: sum.splits)

end
