(* ===== verification/Cache_Properties.thy ===== *)
theory Cache_Properties
  imports Cache Disk_Frame
begin

text \<open>
  What the operations of the image cache keep and what they remove. The relations of \<open>Disk_Frame\<close> carry the proofs:
  paths that an operation leaves as they are, and paths that stay absent.
\<close>

section \<open>Removal of one path\<close>

lemma remove_file_if_exists_touches: "touches p s (snd (remove_file_if_exists env p s))"
  using remove_file_touches [of p s env]
  by (auto simp: remove_file_if_exists_def split: prod.splits sum.splits disk_error.splits)

lemma cache_io_snd [simp]: "snd (cache_io m s) = snd (m s)"
  by (simp add: cache_io_def split: prod.splits)

lemma remove_managed_directory_touches: "touches p s (snd (remove_managed_directory env p s))"
  by (cases "fs_metadata env p (dk_root s)")
    (auto simp: remove_managed_directory_def remove_dir_all_touches lift_eff_def)

lemma remove_managed_path_touches: "touches p s (snd (remove_managed_path env p s))"
  by (cases "fs_metadata env p (dk_root s)")
    (auto simp: remove_managed_path_def remove_dir_all_touches remove_file_touches lift_eff_def split: entry.splits)

lemma remove_file_if_exists_Ok:
  assumes "remove_file_if_exists env p s = (Inr b, s')" "p \<noteq> []" "honest env"
  shows "node_at p (dk_root s') = Err DeNotFound"
  using assms removed_gone [of p s]
  by (auto simp: remove_file_if_exists_def fs_remove_file_def and_then_def disk_try_def honest_def
      split: prod.splits sum.splits disk_error.splits if_splits option.splits)

lemma remove_managed_directory_Ok:
  assumes "remove_managed_directory env p s = (Inr u, s')" "p \<noteq> []"
  shows "node_at p (dk_root s') = Err DeNotFound"
proof -
  obtain n where "fs_remove_dir_all env p s = (Inr u, s')" "is_dir n"
    using assms(1) by (auto simp: remove_managed_directory_def bind_eff_Inr cache_io_def map_err_Inr_iff
        split: prod.splits if_splits)
  then show ?thesis
    using removed_gone [of p s] assms(2)
    by (auto simp: fs_remove_dir_all_def split: sum.splits option.splits if_splits)
qed

section \<open>Digests as names\<close>

lemma parse_digest_length: "parse_digest v = Inr d \<Longrightarrow> length d = 32"
  using digest_text_roundtrip by (auto simp: parse_digest_def Let_def map_err_Inr_iff)

lemma hex_not_prefixed: "\<not> starts_with ''sha256:'' (hex d)"
proof (cases d)
  case (Cons b bs)
  have "HEX_DIGITS ! unat (drop_bit 4 b) \<noteq> CHR ''s''"
    using hex_digit_facts(1) [OF nibbles(1), of b] by (auto simp: to_digit_def ascii_defs)
  then show ?thesis by (simp add: Cons hex_def hex_byte_def starts_with_def)
qed (simp add: hex_def starts_with_def)

lemma parse_hex: "length d = 32 \<Longrightarrow> parse_digest_hex (hex d) = Inr d"
  using digest_text_roundtrip [of d] hex_not_prefixed [of d]
  by (simp add: parse_digest_hex_def parse_digest_def digest_display_def)

section \<open>An example cache\<close>

text \<open>
  A cache with a complete image, an incomplete one, a record of each, the three blobs of the complete image and one
  that nothing needs. The hash of the example keeps the bytes and fills them up to 32.
\<close>

definition sample_sha :: "bytes \<Rightarrow> Digest" where
  "sample_sha bs = take 32 (bs @ replicate 32 0)"

definition sample_info :: file_info where
  "sample_info = \<lparr>fi_dev = 0, fi_ino = 0, fi_blocks = 8, fi_uid = 0, fi_mode = 0\<rparr>"

definition sample_record :: "bytes \<Rightarrow> ImageRecord" where
  "sample_record bs =
     \<lparr>ir_schema_version = 1, ir_reference = (if bs = [10] then ''docker.io/library/a:v'' else ''docker.io/library/b:v''),
      ir_source_manifest_digest = None, ir_manifest_digest = digest_display (sample_sha (if bs = [10] then [1] else [7])),
      ir_platform = \<lparr>pf_os = ''linux'', pf_architecture = ''arm64'', pf_variant = None\<rparr>\<rparr>"

definition sample_descriptor :: "bytes \<Rightarrow> Descriptor" where
  "sample_descriptor bs =
     \<lparr>ds_media_type = ''application/octet-stream'', ds_digest = digest_display (sample_sha bs), ds_size = length bs, ds_platform = None\<rparr>"

definition sample_env :: cache_env where
  "sample_env =
     \<lparr>de_fault = (\<lambda>_ _. None), de_partial = (\<lambda>_ n. n), de_garbage = (\<lambda>_. []), de_info = (\<lambda>_. sample_info), de_process = ''42'',
      ce_lock = (\<lambda>_ _. None), ce_sha = sample_sha, ce_root_text = ''/cache'', ce_record_json = (\<lambda>_. [10]),
      ce_parse_record = (\<lambda>bs. Ok (sample_record bs)), ce_default_json = (\<lambda>v. bytes_of_str (di_reference v)),
      ce_parse_default = (\<lambda>bs. Ok \<lparr>di_schema_version = 1, di_reference = str_of_bytes bs\<rparr>),
      ce_metadata_json = (\<lambda>_. []), ce_parse_metadata = (\<lambda>_. Err ''no''),
      ce_parse_manifest = (\<lambda>_. Ok \<lparr>im_schema_version = 2, im_media_type = None, im_config = sample_descriptor [2],
                                  im_layers = [sample_descriptor [3]]\<rparr>)\<rparr>"

definition sample_root :: entry where
  "sample_root = EDir sample_info
     [(''oci'', EDir sample_info [(''blobs'', EDir sample_info [(''sha256'', EDir sample_info
         [(hex (sample_sha [1]), EFile sample_info [1]), (hex (sample_sha [2]), EFile sample_info [2]),
          (hex (sample_sha [3]), EFile sample_info [3]), (hex (sample_sha [4]), EFile sample_info [4])])])]),
      (''rootfs'', EDir sample_info [(''sha256'', EDir sample_info
         [(hex (sample_sha [7]), EDir sample_info []),
          (hex (sample_sha [1]), EDir sample_info
             [(CURRENT_COMPLETE_MARKER, EFile sample_info (bytes_of_str (digest_display (sample_sha [1]))))])])]),
      (''images'', EDir sample_info [(''sha256'', EDir sample_info
         [(''a.json'', EFile sample_info [10]), (''b.json'', EFile sample_info [11])])])]"

definition sample_disk :: disk where
  "sample_disk = \<lparr>dk_root = sample_root, dk_sequence = 0\<rparr>"

lemma sample_honest: "honest sample_env"
  by (simp add: honest_def sample_env_def)

lemma sample_roots:
  "(case read_rootfs_entries sample_env (dk_root sample_disk) of
      Inr [e, e'] \<Rightarrow> re_ready e \<and> \<not> re_ready e' \<and> re_digest e = sample_sha [1] \<and> re_path e' = rootfs_path (sample_sha [7])
    | _ \<Rightarrow> False)"
  by code_simp

lemma sample_reachable:
  "reachable_of sample_env (dk_root sample_disk) (sample_sha [1]) = Ok [sample_sha [1], sample_sha [2], sample_sha [3]]"
  by code_simp

lemma sample_name: "to_str (hex (sample_sha [3])) \<noteq> None" "length (sample_sha bs) = 32"
  by code_simp (simp add: sample_sha_def)

lemma sample_prune: "is_ok (fst (cache_prune sample_env True sample_disk))"
  by code_simp

section \<open>Listings\<close>

lemma set_map_filter_id [simp]: "x \<in> set (List.map_filter id rs) \<longleftrightarrow> Some x \<in> set rs"
  by (induction rs) (auto simp: List.map_filter_def split: option.splits)

lemma collected:
  assumes "collect_results f xs = Inr ys"
  shows "y \<in> set ys \<longleftrightarrow> (\<exists>x \<in> set xs. f x = Inr y)"
  using assms by (induction xs arbitrary: ys) (auto simp: and_then_Inr_iff)

lemma collected_each: "collect_results f xs = Inr ys \<Longrightarrow> x \<in> set xs \<Longrightarrow> \<exists>y \<in> set ys. f x = Inr y"
  by (induction xs arbitrary: ys) (auto simp: and_then_Inr_iff)

text \<open>A record of the cache is what its file says.\<close>

lemma read_records_set:
  assumes "read_records env root = Inr records"
  obtains es where "read_entries env record_directory root = Inr es"
    "set records = {r. \<exists>name n. (name, n) \<in> set es \<and> read_record env root (name, n) = Inr (Some r)}"
proof -
  obtain es rs where "read_entries env record_directory root = Inr es" "collect_results (read_record env root) es = Inr rs"
    "records = sort_key sr_path (List.map_filter id rs)"
    using assms by (auto simp: read_records_def and_then_Inr_iff)
  then show thesis by (intro that [of es]) (auto simp: collected, blast)
qed

lemma read_record_Some:
  assumes "read_record env root (name, n) = Inr (Some r)"
  obtains bs where "sr_path r = record_directory @ [name]" "fs_read env (sr_path r) root = Inr bs"
    "ce_parse_record env bs = Inr (sr_value r)" "validate_record (sr_value r) (sr_path r) = Inr ()"
    "is_file n" "extension name = Some ''json''"
  using assms by (auto simp: read_record_def Let_def and_then_Inr_iff map_err_Inr_iff split: if_splits)

lemma record_at_path:
  assumes "read_records env root = Inr records" "r \<in> set records"
  obtains name bs where "sr_path r = record_directory @ [name]" "fs_read env (sr_path r) root = Inr bs"
    "ce_parse_record env bs = Inr (sr_value r)"
proof -
  obtain es where es: "read_entries env record_directory root = Inr es"
    "set records = {r. \<exists>name n. (name, n) \<in> set es \<and> read_record env root (name, n) = Inr (Some r)}"
    using read_records_set [OF assms(1)] .
  from assms(2) [unfolded es(2)] obtain name n where "read_record env root (name, n) = Inr (Some r)" by blast
  then show thesis by (rule read_record_Some) (rule that)
qed

lemma record_by_path:
  assumes "read_records env root = Inr records" "r \<in> set records" "r' \<in> set records" "sr_path r = sr_path r'"
  shows "r = r'"
proof -
  obtain a where "fs_read env (sr_path r) root = Inr a" "ce_parse_record env a = Inr (sr_value r)"
    using record_at_path [OF assms(1,2)] .
  moreover obtain b where "fs_read env (sr_path r') root = Inr b" "ce_parse_record env b = Inr (sr_value r')"
    using record_at_path [OF assms(1,3)] .
  ultimately show ?thesis using assms(4) by simp
qed

text \<open>Whether a root file system is complete is decided by its path.\<close>

lemma read_rootfs_entries_set:
  assumes "read_rootfs_entries env root = Inr roots"
  obtains es where "read_entries env rootfs_directory root = Inr es"
    "set roots = {r. \<exists>name n. (name, n) \<in> set es \<and> read_rootfs_entry env root (name, n) = Inr (Some r)}"
proof -
  obtain es rs where "read_entries env rootfs_directory root = Inr es" "collect_results (read_rootfs_entry env root) es = Inr rs"
    "roots = sort_key re_path (List.map_filter id rs)"
    using assms by (auto simp: read_rootfs_entries_def and_then_Inr_iff)
  then show thesis by (intro that [of es]) (auto simp: collected, blast)
qed

definition names_rootfs :: "cache_env \<Rightarrow> entry \<Rightarrow> string \<Rightarrow> RootfsEntry \<Rightarrow> bool" where
  "names_rootfs env root name e \<longleftrightarrow>
     re_path e = rootfs_directory @ [name] \<and>
     (case parse_digest_hex name of
        Inl _ \<Rightarrow> \<not> re_ready e \<and> \<not> re_valid_digest_name e
      | Inr d \<Rightarrow> re_digest e = d \<and> re_valid_digest_name e \<and> re_ready e = is_complete_rootfs env (re_path e) d root)"

lemma read_rootfs_entry_Some:
  assumes "read_rootfs_entry env root (name, n) = Inr (Some e)"
  shows "names_rootfs env root name e" "is_dir n" "to_str name \<noteq> None"
  using assms by (auto simp: read_rootfs_entry_def names_rootfs_def Let_def and_then_Inr_iff split: if_splits sum.splits)

lemma rootfs_entry_named:
  assumes "read_rootfs_entries env root = Inr roots" "e \<in> set roots"
  obtains name where "names_rootfs env root name e"
proof -
  obtain es where es: "read_entries env rootfs_directory root = Inr es"
    "set roots = {r. \<exists>name n. (name, n) \<in> set es \<and> read_rootfs_entry env root (name, n) = Inr (Some r)}"
    using read_rootfs_entries_set [OF assms(1)] .
  from assms(2) [unfolded es(2)] obtain name n where "read_rootfs_entry env root (name, n) = Inr (Some e)" by blast
  then show thesis using read_rootfs_entry_Some(1) that by blast
qed

lemma rootfs_ready_by_path:
  assumes "read_rootfs_entries env root = Inr roots" "e \<in> set roots" "e' \<in> set roots" "re_path e = re_path e'"
  shows "re_ready e = re_ready e'"
proof -
  obtain a where "names_rootfs env root a e" using rootfs_entry_named [OF assms(1,2)] .
  moreover obtain b where "names_rootfs env root b e'" using rootfs_entry_named [OF assms(1,3)] .
  ultimately show ?thesis using assms(4) by (auto simp: names_rootfs_def split: sum.splits)
qed

section \<open>Pruning\<close>

text \<open>The blobs of an image: its manifest, and what the manifest names.\<close>

definition blob_of_image :: "cache_env \<Rightarrow> entry \<Rightarrow> Digest \<Rightarrow> Digest \<Rightarrow> bool" where
  "blob_of_image env root digest d \<longleftrightarrow>
     (\<exists>i bs manifest. node_at (blob_path digest) root = Ok (EFile i bs) \<and> ce_parse_manifest env bs = Ok manifest \<and>
        (d = digest \<or> (\<exists>l \<in> set (im_config manifest # im_layers manifest). parse_digest (ds_digest l) = Ok d)))"

lemma reachable_of_Inr:
  assumes "reachable_of env root digest = Inr ds"
  shows "d \<in> set ds \<longleftrightarrow> blob_of_image env root digest d"
proof -
  obtain bs manifest config layers where bs: "fs_read env (blob_path digest) root = Inr bs"
    and m: "ce_parse_manifest env bs = Inr manifest" "parse_digest (ds_digest (im_config manifest)) = Inr config"
    and l: "collect_results (\<lambda>l. parse_digest (ds_digest l)) (im_layers manifest) = Inr layers" "ds = digest # config # layers"
    using assms by (auto simp: reachable_of_def Let_def and_then_Inr_iff map_err_Inr_iff split: if_splits)
  obtain i where "node_at (blob_path digest) root = Inr (EFile i bs)" using fs_read_node [OF bs] by blast
  with m show ?thesis by (auto simp: l(2) collected [OF l(1)] blob_of_image_def)
qed

text \<open>What a complete root file system keeps alive: itself, its record, and the blobs of its image.\<close>

definition protected_by :: "cache_env \<Rightarrow> entry \<Rightarrow> RootfsEntry \<Rightarrow> disk_path \<Rightarrow> bool" where
  "protected_by env root e p \<longleftrightarrow>
     prefix (re_path e) p \<or>
     (\<exists>d name. blob_of_image env root (re_digest e) d \<and> p = blob_directory @ [name] \<and>
        to_str name \<noteq> None \<and> parse_digest_hex name = Ok d) \<or>
     (\<exists>records r. read_records env root = Ok records \<and> r \<in> set records \<and> record_has_digest (re_digest e) r \<and> p = sr_path r)"

lemma stale_record_iff:
  "(case parse_digest (ir_manifest_digest (sr_value r)) of Inr d \<Rightarrow> d \<notin> C | Inl _ \<Rightarrow> True) \<longleftrightarrow> (\<forall>d \<in> C. \<not> record_has_digest d r)"
  by (cases "parse_digest (ir_manifest_digest (sr_value r))") (auto simp: record_has_digest_def)

lemma plan_prune_parts:
  assumes "plan_prune env root = Inr plan"
  obtains roots reachable records blob_entries blobs staging_entries staging where
    "read_rootfs_entries env root = Inr roots"
    "reachable_blobs env root (sort (remdups (map re_digest (filter re_ready roots)))) = Inr reachable"
    "read_entries env blob_directory root = Inr blob_entries"
    "collect_results (blob_to_remove env reachable) blob_entries = Inr blobs" "pp_blobs plan = List.map_filter id blobs"
    "pp_roots plan = filter (\<lambda>e. \<not> re_ready e) roots" "read_records env root = Inr records"
    "pp_records plan = filter (\<lambda>r. \<forall>d \<in> re_digest ` {e \<in> set roots. re_ready e}. \<not> record_has_digest d r) records"
    "read_entries env staging_directory root = Inr staging_entries"
    "collect_results (staging_to_remove env) staging_entries = Inr staging" "pp_staging plan = List.map_filter id staging"
  using assms unfolding plan_prune_def Let_def and_then_Inr_iff by (auto simp: stale_record_iff)

lemma reachable_blobs_set:
  assumes "reachable_blobs env root (sort (remdups (map re_digest (filter re_ready roots)))) = Inr reachable"
  shows "set reachable = {d. \<exists>e \<in> set roots. re_ready e \<and> blob_of_image env root (re_digest e) d}"
proof -
  obtain dss where dss: "collect_results (reachable_of env root) (sort (remdups (map re_digest (filter re_ready roots)))) = Inr dss"
    "reachable = concat dss"
    using assms by (auto simp: reachable_blobs_def and_then_Inr_iff)
  have "ds \<in> set dss \<longleftrightarrow> (\<exists>e \<in> set roots. re_ready e \<and> reachable_of env root (re_digest e) = Inr ds)" for ds
    unfolding collected [OF dss(1)] by auto
  then have "x \<in> set reachable \<longleftrightarrow> (\<exists>e \<in> set roots. \<exists>ds. re_ready e \<and> reachable_of env root (re_digest e) = Inr ds \<and> x \<in> set ds)" for x
    unfolding dss(2) set_concat by blast
  moreover have "\<exists>ds. reachable_of env root (re_digest e) = Inr ds" if "e \<in> set roots" "re_ready e" for e
    using collected_each [OF dss(1), of "re_digest e"] that by auto
  ultimately show ?thesis using reachable_of_Inr by blast
qed

lemmas cache_dirs = record_directory_def rootfs_directory_def rootfs_metadata_directory_def blob_directory_def staging_directory_def

lemma apart_cache:
  assumes "D \<noteq> D'"
    and "{D, D'} \<subseteq> {record_directory, rootfs_directory, rootfs_metadata_directory, blob_directory, staging_directory}"
  shows "apart (D @ [a]) (D' @ [b])"
proof -
  have "D \<noteq> []" "D' \<noteq> []" "hd D \<noteq> hd D'" using assms unfolding cache_dirs by auto
  then show ?thesis by (rule apart_dirs)
qed

lemma cache_dirs_distinct [simp]:
  "distinct [record_directory, rootfs_directory, rootfs_metadata_directory, blob_directory, staging_directory]"
  by (simp add: cache_dirs)

lemma remove_files_keeps:
  "(\<And>q p. q \<in> set qs \<Longrightarrow> p \<in> P \<Longrightarrow> apart q p) \<Longrightarrow> untouched P s (snd (remove_files env qs s))"
  unfolding remove_files_def
  by (intro keep.each keep.bind keep.lifted touches_keeps [OF remove_file_if_exists_touches])

lemma remove_dirs_keeps:
  "(\<And>q p. q \<in> set qs \<Longrightarrow> p \<in> P \<Longrightarrow> apart q p) \<Longrightarrow> untouched P s (snd (for_each (remove_managed_directory env) qs s))"
  by (intro keep.each touches_keeps [OF remove_managed_directory_touches])

lemma prune_roots_keeps:
  assumes "\<And>e p. e \<in> set es \<Longrightarrow> p \<in> P \<Longrightarrow> apart (re_path e) p \<and> apart (rootfs_metadata_path (re_digest e)) p"
  shows "untouched P s (snd (prune_roots env es s))"
  unfolding prune_roots_def
  by (intro keep.each keep.bind remove_files_keeps touches_keeps [OF remove_managed_directory_touches])
    (use assms in \<open>auto split: if_splits\<close>)

lemma apply_prune_keeps:
  assumes "\<And>q. q \<in> fst ` set (pp_blobs plan) \<union> re_path ` set (pp_roots plan) \<union>
      (rootfs_metadata_path \<circ> re_digest) ` set (pp_roots plan) \<union> sr_path ` set (pp_records plan) \<union> set (pp_staging plan) \<Longrightarrow> apart q p"
  shows "node_at p (dk_root (snd (apply_prune env plan s))) = node_at p (dk_root s)"
proof -
  have "untouched {p} s (snd (apply_prune env plan s))"
    unfolding apply_prune_def
    by (intro keep.bind remove_files_keeps prune_roots_keeps remove_dirs_keeps) (use assms in auto)
  then show ?thesis by (simp add: untouched_def)
qed

lemma prune_protects_plan:
  assumes "plan_prune env root = Inr plan" and "read_rootfs_entries env root = Inr roots" "e \<in> set roots" "re_ready e"
    and "protected_by env root e p"
    and "q \<in> fst ` set (pp_blobs plan) \<union> re_path ` set (pp_roots plan) \<union>
      (rootfs_metadata_path \<circ> re_digest) ` set (pp_roots plan) \<union> sr_path ` set (pp_records plan) \<union> set (pp_staging plan)"
  shows "apart q p"
proof -
  obtain roots' reachable records blob_entries blobs staging_entries staging where
    plan: "read_rootfs_entries env root = Inr roots'"
    "reachable_blobs env root (sort (remdups (map re_digest (filter re_ready roots')))) = Inr reachable"
    "read_entries env blob_directory root = Inr blob_entries"
    "collect_results (blob_to_remove env reachable) blob_entries = Inr blobs" "pp_blobs plan = List.map_filter id blobs"
    "pp_roots plan = filter (\<lambda>e. \<not> re_ready e) roots'" "read_records env root = Inr records"
    "pp_records plan = filter (\<lambda>r. \<forall>d \<in> re_digest ` {e \<in> set roots'. re_ready e}. \<not> record_has_digest d r) records"
    "read_entries env staging_directory root = Inr staging_entries"
    "collect_results (staging_to_remove env) staging_entries = Inr staging" "pp_staging plan = List.map_filter id staging"
    using plan_prune_parts [OF assms(1)] .
  have roots: "roots' = roots" using plan(1) assms(2) by simp
  have blob_name: "\<exists>name. q = blob_directory @ [name] \<and> \<not> (to_str name \<noteq> None \<and> (\<exists>d \<in> set reachable. parse_digest_hex name = Inr d))"
    if "q \<in> fst ` set (pp_blobs plan)" for q
    using that by (auto simp: plan(5) collected [OF plan(4)] blob_to_remove_def Let_def and_then_Inr_iff split: if_splits sum.splits)
  have staging_name: "\<exists>name. q = staging_directory @ [name]" if "q \<in> set (pp_staging plan)" for q
    using that by (auto simp: plan(11) collected [OF plan(10)] staging_to_remove_def Let_def and_then_Inr_iff split: if_splits)
  consider (blob) name where "q = blob_directory @ [name]"
      "\<not> (to_str name \<noteq> None \<and> (\<exists>d \<in> set reachable. parse_digest_hex name = Inr d))"
    | (root) e' where "e' \<in> set roots" "\<not> re_ready e'" "q = re_path e'"
    | (meta) name where "q = rootfs_metadata_directory @ [name]"
    | (rec) r where "r \<in> set records" "q = sr_path r" "\<not> record_has_digest (re_digest e) r"
    | (staging) name where "q = staging_directory @ [name]"
    using assms(3,4,6) blob_name [of q] staging_name [of q] by (auto simp: plan(6,8) roots rootfs_metadata_path_def)
  note removed = this
  obtain a where a: "re_path e = rootfs_directory @ [a]"
    using rootfs_entry_named [OF assms(2,3)] unfolding names_rootfs_def by blast
  obtain D name where q: "q = D @ [name]"
    and D: "D \<in> {record_directory, rootfs_directory, rootfs_metadata_directory, blob_directory, staging_directory}"
    and same_root: "D = rootfs_directory \<Longrightarrow> name \<noteq> a"
    and same_blob: "D = blob_directory \<Longrightarrow> \<not> (to_str name \<noteq> None \<and> (\<exists>d \<in> set reachable. parse_digest_hex name = Inr d))"
    and same_record: "D = record_directory \<Longrightarrow> \<exists>r \<in> set records. q = sr_path r \<and> \<not> record_has_digest (re_digest e) r"
    using removed
  proof cases
    case (root e')
    obtain b where b: "re_path e' = rootfs_directory @ [b]"
      using rootfs_entry_named [OF assms(2) root(1)] unfolding names_rootfs_def by blast
    have "b \<noteq> a" using rootfs_ready_by_path [OF assms(2,3) root(1)] assms(4) root(2) a b by auto
    with root(3) b show thesis by (intro that [of rootfs_directory b]) (auto simp: cache_dirs)
  next
    case (rec r)
    obtain b bs where "sr_path r = record_directory @ [b]" using record_at_path [OF plan(7) rec(1)] by metis
    with rec show thesis by (intro that [of record_directory b]) (auto simp: cache_dirs intro!: bexI [of _ r])
  qed (auto intro: that simp: cache_dirs)
  have apart: "apart q (D' @ [b])" if "D' \<in> {record_directory, rootfs_directory, blob_directory}" "D = D' \<Longrightarrow> name \<noteq> b" for D' b
    using that D apart_names [of name b D "[]"] apart_cache [of D D' name b] by (cases "D = D'") (auto simp: q)
  from assms(5) show ?thesis
    unfolding protected_by_def
  proof (elim disjE exE conjE)
    assume "prefix (re_path e) p"
    then show ?thesis using apart [of rootfs_directory a] same_root apart_prefix by (auto simp: a)
  next
    fix d b assume d: "blob_of_image env root (re_digest e) d" "p = blob_directory @ [b]"
      "to_str b \<noteq> None" "parse_digest_hex b = Ok d"
    then have "d \<in> set reachable" using reachable_blobs_set [OF plan(2)] assms(3,4) roots by auto
    then have "name \<noteq> b" if "D = blob_directory" using same_blob [OF that] d by auto
    then show ?thesis using apart [of blob_directory b] d(2) by auto
  next
    fix records' r assume r: "read_records env root = Ok records'" "r \<in> set records'" "record_has_digest (re_digest e) r" "p = sr_path r"
    then have rs: "records' = records" using plan(7) by simp
    obtain b where b: "sr_path r = record_directory @ [b]" using record_at_path [OF r(1,2)] by metis
    have "name \<noteq> b" if "D = record_directory"
      using same_record [OF that] record_by_path [OF r(1,2)] r(3) b rs that by (auto simp: q)
    then show ?thesis using apart [of record_directory b] r(4) b by auto
  qed
qed

lemma cache_prune_state:
  "snd (cache_prune env apply s) = s \<or>
   apply \<and> (\<exists>plan. plan_prune env (dk_root s) = Inr plan \<and> snd (cache_prune env apply s) = snd (apply_prune env plan s))"
  by (auto simp: cache_prune_def snd_bind_lift snd_bind_result lift_eff_def split: sum.splits)



section \<open>What is gone\<close>

lemma remove_files_gone:
  "(\<And>q p. q \<in> set qs \<Longrightarrow> p \<in> P \<Longrightarrow> p = q \<or> apart q p) \<Longrightarrow> still_gone P s (snd (remove_files env qs s))"
  unfolding remove_files_def
  by (intro absent.each absent.bind absent.lifted touches_gone [OF remove_file_if_exists_touches])

text \<open>Files of the same directories are equal or apart, so that removing one does not bring back another.\<close>

definition flat :: "disk_path set \<Rightarrow> bool" where
  "flat P \<longleftrightarrow> (\<forall>p \<in> P. \<forall>q \<in> P. p = q \<or> apart q p) \<and> [] \<notin> P"

lemma for_each_gone:
  assumes "for_each f xs s = (Inr u, s')"
    and "\<And>x t t'. x \<in> set xs \<Longrightarrow> f x t = (Inr (), t') \<Longrightarrow> node_at (g x) (dk_root t') = Err DeNotFound"
    and "\<And>x t. x \<in> set xs \<Longrightarrow> still_gone (g ` set xs) t (snd (f x t))"
  shows "\<forall>x \<in> set xs. node_at (g x) (dk_root s') = Err DeNotFound"
  using assms
proof (induction xs arbitrary: s)
  case (Cons x xs)
  then obtain t where t: "f x s = (Inr (), t)" "for_each f xs t = (Inr u, s')" by (auto simp: bind_eff_Inr)
  have "\<forall>x \<in> set xs. node_at (g x) (dk_root s') = Err DeNotFound"
  proof (rule Cons.IH [OF t(2)])
    show "still_gone (g ` set xs) t (snd (f x t))" if "x \<in> set xs" for x t
      using Cons.prems(3) [of x t] that by (auto simp: still_gone_def)
  qed (use Cons.prems(2) in auto)
  moreover have "still_gone (g ` set (x # xs)) t (snd (for_each f xs t))"
    by (rule absent.each) (use Cons.prems(3) in auto)
  then have "node_at (g x) (dk_root s') = Err DeNotFound"
    using Cons.prems(2) [of x s t] t by (auto simp: still_gone_def)
  ultimately show ?case by simp
qed simp

lemma remove_files_Ok:
  assumes "remove_files env qs s = (Inr u, s')" "honest env" "flat (set qs)"
  shows "\<forall>q \<in> set qs. node_at q (dk_root s') = Err DeNotFound"
proof (rule for_each_gone [where g = "\<lambda>q. q"])
  show "for_each (\<lambda>p. bind_eff (remove_file_if_exists env p) (\<lambda>_. lift_eff (Ok ()))) qs s = (Inr u, s')"
    using assms(1) by (simp add: remove_files_def)
  show "node_at q (dk_root t') = Err DeNotFound"
    if q: "q \<in> set qs" and t: "bind_eff (remove_file_if_exists env q) (\<lambda>_. lift_eff (Ok ())) t = (Inr (), t')" for q t t'
  proof -
    obtain b where "remove_file_if_exists env q t = (Inr b, t')" using t by (auto simp: bind_eff_Inr)
    moreover have "q \<noteq> []" using assms(3) q by (auto simp: flat_def)
    ultimately show ?thesis using remove_file_if_exists_Ok assms(2) by blast
  qed
  show "still_gone ((\<lambda>q. q) ` set qs) t (snd (bind_eff (remove_file_if_exists env q) (\<lambda>_. lift_eff (Ok ())) t))" if "q \<in> set qs" for q t
    by (intro absent.bind absent.lifted touches_gone [OF remove_file_if_exists_touches]) (use that assms(3) in \<open>auto simp: flat_def\<close>)
qed

definition cache_names :: "disk_path set" where
  "cache_names = {D @ [a] | D a.
     D \<in> {record_directory, rootfs_directory, rootfs_metadata_directory, blob_directory, staging_directory}}"

lemma flat_cache: "P \<subseteq> cache_names \<Longrightarrow> flat P"
proof -
  have "p = q \<or> apart q p" if pq: "p \<in> cache_names" "q \<in> cache_names" for p q
  proof -
    obtain D a D' b where p: "p = D @ [a]" "q = D' @ [b]"
      and D: "{D', D} \<subseteq> {record_directory, rootfs_directory, rootfs_metadata_directory, blob_directory, staging_directory}"
      using pq unfolding cache_names_def by blast
    show ?thesis using apart_cache [OF _ D, of b a] apart_names [of b a D "[]"] unfolding p by (cases "D' = D") auto
  qed
  moreover have "[] \<notin> cache_names" by (auto simp: cache_names_def)
  moreover assume "P \<subseteq> cache_names"
  ultimately show ?thesis by (auto simp: flat_def)
qed

lemma still_goneD: "still_gone P s s' \<Longrightarrow> p \<in> P \<Longrightarrow> node_at p (dk_root s) = Err DeNotFound \<Longrightarrow> node_at p (dk_root s') = Err DeNotFound"
  by (simp add: still_gone_def)

lemma still_gone_mono: "still_gone P s s' \<Longrightarrow> Q \<subseteq> P \<Longrightarrow> still_gone Q s s'"
  by (auto simp: still_gone_def)

lemma names_gone: "q \<in> cache_names \<Longrightarrow> touches q s s' \<Longrightarrow> still_gone cache_names s s'"
  using flat_cache [of cache_names] by (intro touches_gone) (auto simp: flat_def)

lemma remove_files_names: "set qs \<subseteq> cache_names \<Longrightarrow> still_gone cache_names s (snd (remove_files env qs s))"
  unfolding remove_files_def
  by (intro absent.each absent.bind absent.lifted names_gone [OF _ remove_file_if_exists_touches]) auto

lemma metadata_path_name: "rootfs_metadata_path d \<in> cache_names"
  by (auto simp: rootfs_metadata_path_def cache_names_def)

lemma prune_roots_names:
  assumes "re_path ` set es \<subseteq> cache_names"
  shows "still_gone cache_names s (snd (prune_roots env es s))"
  unfolding prune_roots_def
  by (intro absent.each absent.bind remove_files_names names_gone [OF _ remove_managed_directory_touches])
    (use assms metadata_path_name in auto)

lemma remove_dirs_names:
  "set qs \<subseteq> cache_names \<Longrightarrow> still_gone cache_names s (snd (for_each (remove_managed_directory env) qs s))"
  by (intro absent.each names_gone [OF _ remove_managed_directory_touches]) auto

lemma prune_roots_Ok:
  assumes "prune_roots env es s = (Inr u, s')" "re_path ` set es \<subseteq> cache_names"
  shows "\<forall>e \<in> set es. node_at (re_path e) (dk_root s') = Err DeNotFound"
  using assms(1) unfolding prune_roots_def
proof (rule for_each_gone [where g = re_path])
  fix e t t' assume e: "e \<in> set es" and b: "bind_eff (remove_managed_directory env (re_path e)) (\<lambda>_.
         remove_files env (if re_valid_digest_name e then [rootfs_metadata_path (re_digest e)] else [])) t = (Inr (), t')"
  then obtain t1 where t1: "remove_managed_directory env (re_path e) t = (Inr (), t1)"
    "remove_files env (if re_valid_digest_name e then [rootfs_metadata_path (re_digest e)] else []) t1 = (Inr (), t')"
    by (auto simp: bind_eff_Inr)
  have "re_path e \<noteq> []" using e assms(2) by (auto simp: cache_names_def)
  with remove_managed_directory_Ok [OF t1(1)] have "node_at (re_path e) (dk_root t1) = Err DeNotFound" by simp
  moreover have "still_gone cache_names t1 t'"
    using remove_files_names [of "if re_valid_digest_name e then [rootfs_metadata_path (re_digest e)] else []" t1 env] t1(2)
      metadata_path_name by (auto split: if_splits)
  ultimately show "node_at (re_path e) (dk_root t') = Err DeNotFound"
    using e assms(2) by (auto intro: still_goneD)
next
  fix e t assume "e \<in> set es"
  then have "still_gone cache_names t (snd (bind_eff (remove_managed_directory env (re_path e)) (\<lambda>_.
         remove_files env (if re_valid_digest_name e then [rootfs_metadata_path (re_digest e)] else [])) t))"
    by (intro absent.bind remove_files_names names_gone [OF _ remove_managed_directory_touches])
      (use assms(2) metadata_path_name in auto)
  then show "still_gone (re_path ` set es) t (snd (bind_eff (remove_managed_directory env (re_path e)) (\<lambda>_.
         remove_files env (if re_valid_digest_name e then [rootfs_metadata_path (re_digest e)] else [])) t))"
    using assms(2) by (auto simp: still_gone_def)
qed

lemma apply_prune_Ok:
  assumes "apply_prune env plan s = (Inr u, s')" "honest env"
    and "fst ` set (pp_blobs plan) \<union> re_path ` set (pp_roots plan) \<union> sr_path ` set (pp_records plan) \<union> set (pp_staging plan) \<subseteq> cache_names"
      (is "?paths \<subseteq> _")
  shows "\<forall>p \<in> ?paths. node_at p (dk_root s') = Err DeNotFound"
proof -
  obtain t1 t2 t3 where t: "remove_files env (map fst (pp_blobs plan)) s = (Inr (), t1)"
      "prune_roots env (pp_roots plan) t1 = (Inr (), t2)" "remove_files env (map sr_path (pp_records plan)) t2 = (Inr (), t3)"
      "for_each (remove_managed_directory env) (pp_staging plan) t3 = (Inr u, s')"
    using assms(1) by (auto simp: apply_prune_def bind_eff_Inr)
  have sub: "set (map fst (pp_blobs plan)) \<subseteq> cache_names" "re_path ` set (pp_roots plan) \<subseteq> cache_names"
      "set (map sr_path (pp_records plan)) \<subseteq> cache_names" "set (pp_staging plan) \<subseteq> cache_names"
    using assms(3) by simp_all
  have later: "still_gone cache_names t1 t2" "still_gone cache_names t2 t3" "still_gone cache_names t3 s'"
    using prune_roots_names [OF sub(2), of t1 env] remove_files_names [OF sub(3), of t2 env]
      remove_dirs_names [OF sub(4), of t3 env] t by simp_all
  have late: "\<forall>p \<in> P. node_at p (dk_root s') = Err DeNotFound"
    if P: "\<forall>p \<in> P. node_at p (dk_root t) = Err DeNotFound" "P \<subseteq> cache_names" "still_gone cache_names t s'" for P t
    using P still_goneD [OF P(3)] by blast
  have "\<forall>p \<in> fst ` set (pp_blobs plan). node_at p (dk_root s') = Err DeNotFound"
    using late [of "fst ` set (pp_blobs plan)" t1] remove_files_Ok [OF t(1) assms(2) flat_cache [OF sub(1)]] sub(1)
      absent.trans [OF later(1) absent.trans [OF later(2,3)]] by simp
  moreover have "\<forall>p \<in> re_path ` set (pp_roots plan). node_at p (dk_root s') = Err DeNotFound"
    using late [of "re_path ` set (pp_roots plan)" t2] prune_roots_Ok [OF t(2) sub(2)] sub(2) absent.trans [OF later(2,3)] by simp
  moreover have "\<forall>p \<in> sr_path ` set (pp_records plan). node_at p (dk_root s') = Err DeNotFound"
    using late [of "sr_path ` set (pp_records plan)" t3] remove_files_Ok [OF t(3) assms(2) flat_cache [OF sub(3)]] sub(3) later(3) by simp
  moreover have "\<forall>p \<in> set (pp_staging plan). node_at p (dk_root s') = Err DeNotFound"
  proof (rule for_each_gone [where g = "\<lambda>q. q", OF t(4)])
    show "node_at q (dk_root v') = Err DeNotFound" if "q \<in> set (pp_staging plan)" "remove_managed_directory env q v = (Inr (), v')" for q v v'
      using remove_managed_directory_Ok [OF that(2)] that(1) sub(4) by (auto simp: cache_names_def)
    show "still_gone ((\<lambda>q. q) ` set (pp_staging plan)) v (snd (remove_managed_directory env q v))" if "q \<in> set (pp_staging plan)" for q v
      by (rule still_gone_mono [OF names_gone [OF _ remove_managed_directory_touches]]) (use that sub(4) in auto)
  qed
  ultimately show ?thesis unfolding ball_Un by blast
qed

text \<open>What no complete root file system needs.\<close>

definition prune_garbage :: "cache_env \<Rightarrow> entry \<Rightarrow> RootfsEntry list \<Rightarrow> disk_path \<Rightarrow> bool" where
  "prune_garbage env root roots p \<longleftrightarrow>
     (\<exists>es name n. read_entries env blob_directory root = Ok es \<and> (name, n) \<in> set es \<and> is_file n \<and> p = blob_directory @ [name] \<and>
        (\<forall>e \<in> set roots. re_ready e \<longrightarrow> \<not> protected_by env root e p)) \<or>
     (\<exists>e \<in> set roots. \<not> re_ready e \<and> p = re_path e) \<or>
     (\<exists>records r. read_records env root = Ok records \<and> r \<in> set records \<and> p = sr_path r \<and>
        (\<forall>e \<in> set roots. re_ready e \<longrightarrow> \<not> record_has_digest (re_digest e) r)) \<or>
     (\<exists>es name n. read_entries env staging_directory root = Ok es \<and> (name, n) \<in> set es \<and> is_dir n \<and>
        to_str name \<noteq> None \<and> is_rootfs_staging_name name \<and> p = staging_directory @ [name])"

lemma plan_covers_garbage:
  assumes "plan_prune env root = Inr plan" "read_rootfs_entries env root = Inr roots" "prune_garbage env root roots p"
  shows "p \<in> fst ` set (pp_blobs plan) \<union> re_path ` set (pp_roots plan) \<union> sr_path ` set (pp_records plan) \<union> set (pp_staging plan)"
proof -
  obtain roots' reachable records blob_entries blobs staging_entries staging where
    plan: "read_rootfs_entries env root = Inr roots'"
    "reachable_blobs env root (sort (remdups (map re_digest (filter re_ready roots')))) = Inr reachable"
    "read_entries env blob_directory root = Inr blob_entries"
    "collect_results (blob_to_remove env reachable) blob_entries = Inr blobs" "pp_blobs plan = List.map_filter id blobs"
    "pp_roots plan = filter (\<lambda>e. \<not> re_ready e) roots'" "read_records env root = Inr records"
    "pp_records plan = filter (\<lambda>r. \<forall>d \<in> re_digest ` {e \<in> set roots'. re_ready e}. \<not> record_has_digest d r) records"
    "read_entries env staging_directory root = Inr staging_entries"
    "collect_results (staging_to_remove env) staging_entries = Inr staging" "pp_staging plan = List.map_filter id staging"
    using plan_prune_parts [OF assms(1)] .
  have roots: "roots' = roots" using plan(1) assms(2) by simp
  from assms(3) show ?thesis
    unfolding prune_garbage_def
  proof (elim disjE exE conjE bexE)
    fix es name n assume b: "read_entries env blob_directory root = Ok es" "(name, n) \<in> set es" "is_file n"
      "p = blob_directory @ [name]" "\<forall>e \<in> set roots. re_ready e \<longrightarrow> \<not> protected_by env root e p"
    have "\<not> (to_str name \<noteq> None \<and> (\<exists>d \<in> set reachable. parse_digest_hex name = Inr d))"
      using b(4,5) reachable_blobs_set [OF plan(2)] unfolding roots protected_by_def by blast
    moreover obtain y where y: "y \<in> set blobs" "blob_to_remove env reachable (name, n) = Inr y"
      using collected_each [OF plan(4), of "(name, n)"] b(1,2) plan(3) by auto
    ultimately have "y = Some (p, entry_len n)"
      using b(3,4) by (auto simp: blob_to_remove_def Let_def and_then_Inr_iff split: if_splits sum.splits)
    then show ?thesis using y(1) by (force simp: plan(5))
  next
    fix records' r assume "read_records env root = Ok records'" "r \<in> set records'" "p = sr_path r"
      "\<forall>e \<in> set roots. re_ready e \<longrightarrow> \<not> record_has_digest (re_digest e) r"
    then show ?thesis using plan(7) by (auto simp: plan(8) roots)
  next
    fix es name n assume b: "read_entries env staging_directory root = Ok es" "(name, n) \<in> set es" "is_dir n"
      "to_str name \<noteq> None" "is_rootfs_staging_name name" "p = staging_directory @ [name]"
    obtain y where y: "y \<in> set staging" "staging_to_remove env (name, n) = Inr y"
      using collected_each [OF plan(10), of "(name, n)"] b(1,2) plan(9) by auto
    then have "y = Some p" using b by (auto simp: staging_to_remove_def Let_def and_then_Inr_iff)
    then show ?thesis using y(1) by (simp add: plan(11))
  qed (auto simp: plan(6) roots)
qed

lemma plan_in_names:
  assumes "plan_prune env root = Inr plan"
  shows "fst ` set (pp_blobs plan) \<union> re_path ` set (pp_roots plan) \<union> sr_path ` set (pp_records plan) \<union> set (pp_staging plan) \<subseteq> cache_names"
proof -
  obtain roots reachable records blob_entries blobs staging_entries staging where
    plan: "read_rootfs_entries env root = Inr roots"
    "reachable_blobs env root (sort (remdups (map re_digest (filter re_ready roots)))) = Inr reachable"
    "read_entries env blob_directory root = Inr blob_entries"
    "collect_results (blob_to_remove env reachable) blob_entries = Inr blobs" "pp_blobs plan = List.map_filter id blobs"
    "pp_roots plan = filter (\<lambda>e. \<not> re_ready e) roots" "read_records env root = Inr records"
    "pp_records plan = filter (\<lambda>r. \<forall>d \<in> re_digest ` {e \<in> set roots. re_ready e}. \<not> record_has_digest d r) records"
    "read_entries env staging_directory root = Inr staging_entries"
    "collect_results (staging_to_remove env) staging_entries = Inr staging" "pp_staging plan = List.map_filter id staging"
    using plan_prune_parts [OF assms] .
  have "re_path e \<in> cache_names" if e: "e \<in> set roots" for e
    using rootfs_entry_named [OF plan(1) e] unfolding names_rootfs_def cache_names_def by blast
  moreover have "sr_path r \<in> cache_names" if r: "r \<in> set records" for r
  proof -
    obtain name where "sr_path r = record_directory @ [name]" using record_at_path [OF plan(7) r] by metis
    then show ?thesis unfolding cache_names_def by blast
  qed
  moreover have "fst ` set (pp_blobs plan) \<subseteq> cache_names"
    by (auto simp: plan(5) collected [OF plan(4)] blob_to_remove_def cache_names_def Let_def and_then_Inr_iff split: if_splits sum.splits)
  moreover have "set (pp_staging plan) \<subseteq> cache_names"
    by (auto simp: plan(11) collected [OF plan(10)] staging_to_remove_def cache_names_def Let_def and_then_Inr_iff split: if_splits)
  ultimately show ?thesis by (auto simp: plan(6,8))
qed

text \<open>
  a prune that succeeds has removed everything that no complete root file system needs: unreachable blobs,
  incomplete root file systems, records of images that are not complete, and abandoned staging directories.
\<close>

theorem prune_removes_garbage:
  assumes "cache_prune env True s = (Ok report, s')" and "honest env"
    and "read_rootfs_entries env (dk_root s) = Ok roots" and "prune_garbage env (dk_root s) roots p"
  shows "node_at p (dk_root s') = Err DeNotFound"
proof -
  obtain plan where plan: "plan_prune env (dk_root s) = Inr plan" "apply_prune env plan s = (Inr (), s')"
    using assms(1) by (auto simp: cache_prune_def bind_eff_Inr)
  show ?thesis
    using apply_prune_Ok [OF plan(2) assms(2) plan_in_names [OF plan(1)]] plan_covers_garbage [OF plan(1) assms(3,4)] by blast
qed

theorem prune_removes_garbage_witness:
  "node_at (rootfs_path (sample_sha [7])) (dk_root (snd (cache_prune sample_env True sample_disk))) = Err DeNotFound"
proof -
  obtain e e' where e: "read_rootfs_entries sample_env (dk_root sample_disk) = Ok [e, e']" "\<not> re_ready e'"
      "re_path e' = rootfs_path (sample_sha [7])"
    using sample_roots by (auto split: sum.splits list.splits)
  then have "prune_garbage sample_env (dk_root sample_disk) [e, e'] (rootfs_path (sample_sha [7]))"
    unfolding prune_garbage_def by auto
  moreover obtain report s' where "cache_prune sample_env True sample_disk = (Ok report, s')"
    using sample_prune by (cases "cache_prune sample_env True sample_disk") (auto simp: is_ok_iff)
  ultimately show ?thesis using prune_removes_garbage [OF _ sample_honest e(1)] by simp
qed

section \<open>Removing an image\<close>

definition selected_by :: "ImageTarget \<Rightarrow> StoredRecord \<Rightarrow> bool" where
  "selected_by kind r =
     (case kind of TargetDigest d \<Rightarrow> record_has_digest d r | TargetReference t \<Rightarrow> ir_reference (sr_value r) = t)"

lemma remove_selection_Inr:
  assumes "remove_selection text kind records roots = Inr (selected, affected)"
  shows "selected = filter (selected_by kind) records"
    and "kind = TargetDigest d \<Longrightarrow> affected = [d]"
proof -
  show "selected = filter (selected_by kind) records"
    using assms by (cases kind) (auto simp: remove_selection_def selected_by_def [abs_def] Let_def and_then_Inr_iff split: if_splits)
  show "affected = [d]" if "kind = TargetDigest d"
    using assms that by (auto simp: remove_selection_def split: if_splits)
qed

lemma doomed_root:
  assumes "e \<in> set (roots_to_remove kind records roots selected affected)"
  shows "e \<in> set roots" "re_digest e \<in> set affected"
    and "kind = TargetReference t \<Longrightarrow> r \<in> set records \<Longrightarrow> record_has_digest (re_digest e) r \<Longrightarrow> sr_path r \<in> sr_path ` set selected"
proof -
  obtain d where d: "d \<in> set affected" "List.find (\<lambda>e. re_digest e = d) roots = Some e"
    "(\<exists>x. kind = TargetDigest x) \<or> \<not> (\<exists>r \<in> set records. sr_path r \<notin> sr_path ` set selected \<and> record_has_digest d r)"
    using assms by (auto simp: roots_to_remove_def List.map_filter_def Let_def list_ex_iff split: if_splits ImageTarget.splits)
  then have e: "e \<in> set roots" "re_digest e = d" by (auto simp: find_Some_iff)
  then show "e \<in> set roots" "re_digest e \<in> set affected" using d by auto
  show "sr_path r \<in> sr_path ` set selected" if "kind = TargetReference t" "r \<in> set records" "record_has_digest (re_digest e) r"
    using d(3) e that by auto
qed

lemma remove_roots_keeps:
  assumes "\<And>e p. e \<in> set es \<Longrightarrow> p \<in> P \<Longrightarrow> apart (re_path e) p \<and> apart (rootfs_metadata_path (re_digest e)) p"
  shows "untouched P s (snd (remove_roots env es s))"
  unfolding remove_roots_def
  by (intro keep.each keep.bind remove_files_keeps touches_keeps [OF remove_managed_directory_touches])
    (use assms in auto)

lemma cache_remove_state:
  assumes "parse_target target = Inr kind" "read_records env (dk_root s) = Inr records"
  shows "snd (cache_remove env target apply s) = s \<or>
    apply \<and> (\<exists>roots selected affected. read_rootfs_entries env (dk_root s) = Inr roots \<and>
      remove_selection target kind records roots = Inr (selected, affected) \<and>
      snd (cache_remove env target apply s) =
        snd (bind_eff (remove_files env (map sr_path selected))
               (\<lambda>_. remove_roots env (roots_to_remove kind records roots selected affected)) s))"
  unfolding cache_remove_def Let_def
  by (auto simp: snd_bind_lift snd_bind_result assms lift_eff_def split: sum.splits)

text \<open>Records and root file systems of other images are apart from what is removed.\<close>

lemma remove_apart:
  assumes recs: "read_records env root = Inr records" and roots: "read_rootfs_entries env root = Inr roots"
    and sel: "remove_selection target kind records roots = Inr (selected, affected)"
    and r: "r \<in> set records" "\<not> selected_by kind r" "record_has_digest d r"
    and p: "p = sr_path r \<or> prefix (rootfs_path d) p"
  shows "q \<in> sr_path ` set selected \<Longrightarrow> apart q p"
    and "e \<in> set (roots_to_remove kind records roots selected affected) \<Longrightarrow> apart (re_path e) p"
    and "apart (rootfs_metadata_path x) p"
proof -
  note selected = remove_selection_Inr(1) [OF sel]
  obtain a where a: "sr_path r = record_directory @ [a]" using record_at_path [OF recs r(1)] by metis
  have other: "sr_path r \<notin> sr_path ` set selected"
    using record_by_path [OF recs r(1)] r(2) by (auto simp: selected)
  have "length d = 32" using r(3) by (auto simp: record_has_digest_def parse_digest_length)
  note hex_d = parse_hex [OF this]
  have below: "apart q p" if "apart q (sr_path r)" "apart q (rootfs_path d)" for q
    using p that apart_prefix by blast
  show "apart q p" if "q \<in> sr_path ` set selected" for q
  proof (rule below)
    obtain r' where "r' \<in> set records" "q = sr_path r'" using \<open>q \<in> _\<close> by (auto simp: selected)
    then obtain b where b: "q = record_directory @ [b]" using record_at_path [OF recs] by metis
    then have "b \<noteq> a" using other that a by auto
    then show "apart q (sr_path r)" using apart_names [of b a record_directory "[]"] a b by simp
    show "apart q (rootfs_path d)"
      unfolding b rootfs_path_def by (rule apart_cache) (auto simp: cache_dirs)
  qed
  show "apart (re_path e) p" if "e \<in> set (roots_to_remove kind records roots selected affected)" for e
  proof (rule below)
    note doomed = doomed_root [OF that]
    obtain b where b: "names_rootfs env root b e" using rootfs_entry_named [OF roots doomed(1)] .
    then have path: "re_path e = rootfs_directory @ [b]" by (simp add: names_rootfs_def)
    show "apart (re_path e) (sr_path r)" unfolding path a by (rule apart_cache) (auto simp: cache_dirs)
    have "b \<noteq> hex d"
    proof
      assume "b = hex d"
      then have "re_digest e = d" using b hex_d by (simp add: names_rootfs_def)
      then show False
        using doomed(2,3) remove_selection_Inr(2) [OF sel] r other by (cases kind) (auto simp: selected_by_def)
    qed
    then show "apart (re_path e) (rootfs_path d)"
      unfolding path rootfs_path_def using apart_names [of b "hex d" rootfs_directory "[]"] by simp
  qed
  show "apart (rootfs_metadata_path x) p"
    by (rule below; unfold a rootfs_metadata_path_def rootfs_path_def; rule apart_cache) (auto simp: cache_dirs)
qed

text \<open>
  removing an image leaves every other image alone, whichever call fails on the way: a record that the target does not
  name keeps its file, and the root file system of its digest keeps everything in it, also when a removed
  reference named the same digest.
\<close>

theorem remove_keeps_referenced:
  assumes "parse_target target = Ok kind" and "read_records env (dk_root s) = Ok records"
    and "r \<in> set records" and "\<not> selected_by kind r" and "record_has_digest d r"
    and "p = sr_path r \<or> prefix (rootfs_path d) p"
  shows "node_at p (dk_root (snd (cache_remove env target apply s))) = node_at p (dk_root s)"
  using cache_remove_state [OF assms(1,2), of "apply"]
proof (elim disjE conjE exE)
  fix roots selected affected
  assume roots: "read_rootfs_entries env (dk_root s) = Inr roots"
    and sel: "remove_selection target kind records roots = Inr (selected, affected)"
    and state: "snd (cache_remove env target apply s) = snd (bind_eff (remove_files env (map sr_path selected))
               (\<lambda>_. remove_roots env (roots_to_remove kind records roots selected affected)) s)"
  note apart = remove_apart [OF assms(2) roots sel assms(3-6)]
  have "untouched {p} s (snd (bind_eff (remove_files env (map sr_path selected))
               (\<lambda>_. remove_roots env (roots_to_remove kind records roots selected affected)) s))"
    by (intro keep.bind remove_files_keeps remove_roots_keeps) (use apart in auto)
  then show ?thesis by (simp add: state untouched_def)
qed simp

lemma sample_records:
  "(case read_records sample_env (dk_root sample_disk) of
      Inr [r, r'] \<Rightarrow> r = \<lparr>sr_path = record_directory @ [''a.json''], sr_value = sample_record [10]\<rparr> | _ \<Rightarrow> False)"
  by code_simp

lemma sample_target: "parse_target ''b:v'' = Ok (TargetReference ''docker.io/library/b:v'')"
  by code_simp

lemma sample_remove: "is_ok (fst (cache_remove sample_env ''b:v'' True sample_disk))"
  by code_simp

theorem remove_keeps_referenced_witness:
  "node_at (rootfs_path (sample_sha [1])) (dk_root (snd (cache_remove sample_env ''b:v'' True sample_disk))) =
     node_at (rootfs_path (sample_sha [1])) (dk_root sample_disk)"
proof -
  define r where "r = \<lparr>sr_path = record_directory @ [''a.json''], sr_value = sample_record [10]\<rparr>"
  obtain records where "read_records sample_env (dk_root sample_disk) = Ok records" "r \<in> set records"
    using sample_records by (auto simp: r_def split: sum.splits list.splits)
  moreover have "\<not> selected_by (TargetReference ''docker.io/library/b:v'') r" "record_has_digest (sample_sha [1]) r"
    unfolding r_def by code_simp+
  ultimately show ?thesis using remove_keeps_referenced [OF sample_target] by blast
qed

lemma read_entries_dir:
  assumes "read_entries env D root = Inr es" "node_at D root = Inr (EDir i es')" "honest env"
  shows "es = es'"
  using assms by (auto simp: read_entries_def fs_read_dir_def and_then_def disk_try_def honest_def
      split: sum.splits option.splits disk_error.splits)

lemma json_extension: "h \<noteq> [] \<Longrightarrow> extension (h @ ''.json'') = Some ''json''"
proof -
  assume h: "h \<noteq> []"
  have "rsplit_once CHR ''.'' (h @ ''.json'') = Some (h, ''json'')" by (simp add: rsplit_once_Some)
  moreover have "h @ ''.json'' \<noteq> ''..''" using h by (cases h) auto
  ultimately show ?thesis using h by (simp add: extension_def)
qed

text \<open>A record that can be read at a path is one of the records.\<close>

lemma readable_record:
  assumes recs: "read_records env root = Inr records" and "honest env" and "h \<noteq> []"
    and read: "fs_read env (record_directory @ [h @ ''.json'']) root = Inr bs" and parse: "ce_parse_record env bs = Inr rcd"
  shows "\<lparr>sr_path = record_directory @ [h @ ''.json''], sr_value = rcd\<rparr> \<in> set records"
proof -
  obtain i where n: "node_at (record_directory @ [h @ ''.json'']) root = Inr (EFile i bs)" using fs_read_node [OF read] by blast
  then obtain j es' where dir: "node_at record_directory root = Inr (EDir j es')" "map_of es' (h @ ''.json'') = Some (EFile i bs)"
    using node_at_parent by blast
  obtain es rs where es: "read_entries env record_directory root = Inr es" "collect_results (read_record env root) es = Inr rs"
    "records = sort_key sr_path (List.map_filter id rs)"
    using recs by (auto simp: read_records_def and_then_Inr_iff)
  have "(h @ ''.json'', EFile i bs) \<in> set es"
    using read_entries_dir [OF es(1) dir(1) assms(2)] map_of_SomeD [OF dir(2)] by simp
  then obtain y where y: "y \<in> set rs" "read_record env root (h @ ''.json'', EFile i bs) = Inr y"
    using collected_each [OF es(2)] by blast
  then have "y = Some \<lparr>sr_path = record_directory @ [h @ ''.json''], sr_value = rcd\<rparr>"
    using read parse json_extension [OF assms(3)]
    by (auto simp: read_record_def is_file_def Let_def and_then_Inr_iff map_err_Inr_iff)
  with y(1) show ?thesis by (simp add: es(3))
qed

lemma remove_roots_names:
  assumes "re_path ` set es \<subseteq> cache_names"
  shows "still_gone cache_names s (snd (remove_roots env es s))"
  unfolding remove_roots_def
  by (intro absent.each absent.bind remove_files_names names_gone [OF _ remove_managed_directory_touches])
    (use assms metadata_path_name in auto)

text \<open>What the removal of an image does to a path of the record directory: it goes, or it stays as it was.\<close>

lemma remove_record_paths:
  assumes run: "cache_remove env target True s = (Inr report, s')" and kind: "parse_target target = Inr kind" and "honest env"
  obtains records where "read_records env (dk_root s) = Inr records"
    "\<forall>r \<in> set records. selected_by kind r \<longrightarrow> node_at (sr_path r) (dk_root s') = Err DeNotFound"
    "\<forall>a. (\<forall>r \<in> set records. selected_by kind r \<longrightarrow> sr_path r \<noteq> record_directory @ [a]) \<longrightarrow>
       node_at (record_directory @ [a]) (dk_root s') = node_at (record_directory @ [a]) (dk_root s)"
proof -
  obtain records roots selected affected t where recs: "read_records env (dk_root s) = Inr records"
    and roots: "read_rootfs_entries env (dk_root s) = Inr roots"
    and sel: "remove_selection target kind records roots = Inr (selected, affected)"
    and t: "remove_files env (map sr_path selected) s = (Inr (), t)"
      "remove_roots env (roots_to_remove kind records roots selected affected) t = (Inr (), s')"
    using run by (auto simp: cache_remove_def Let_def bind_eff_Inr kind split: prod.splits)
  note selected = remove_selection_Inr(1) [OF sel]
  have root_names: "re_path e \<in> {rootfs_directory @ [b] | b. True}"
    if e: "e \<in> set (roots_to_remove kind records roots selected affected)" for e
    using rootfs_entry_named [OF roots doomed_root(1) [OF e]] unfolding names_rootfs_def by blast
  have record_names: "\<exists>b. sr_path r = record_directory @ [b]" if r: "r \<in> set records" for r
    using record_at_path [OF recs r] by metis
  have "record_directory @ [b] \<in> cache_names" "rootfs_directory @ [b] \<in> cache_names" for b
    unfolding cache_names_def by blast+
  then have names: "set (map sr_path selected) \<subseteq> cache_names"
      "re_path ` set (roots_to_remove kind records roots selected affected) \<subseteq> cache_names"
    using root_names record_names by (force simp: selected)+
  have gone: "still_gone cache_names t s'" using remove_roots_names [OF names(2), of t env] t(2) by simp
  show thesis
  proof (rule that [OF recs])
    show "\<forall>r \<in> set records. selected_by kind r \<longrightarrow> node_at (sr_path r) (dk_root s') = Err DeNotFound"
      using remove_files_Ok [OF t(1) assms(3) flat_cache [OF names(1)]] still_goneD [OF gone] names(1) by (auto simp: selected)
    show "\<forall>a. (\<forall>r \<in> set records. selected_by kind r \<longrightarrow> sr_path r \<noteq> record_directory @ [a]) \<longrightarrow>
       node_at (record_directory @ [a]) (dk_root s') = node_at (record_directory @ [a]) (dk_root s)"
    proof (intro allI impI)
      fix a assume a: "\<forall>r \<in> set records. selected_by kind r \<longrightarrow> sr_path r \<noteq> record_directory @ [a]"
      have "untouched {record_directory @ [a]} s (snd (remove_files env (map sr_path selected) s))"
      proof (rule remove_files_keeps)
        fix q p assume "q \<in> set (map sr_path selected)" and p: "p \<in> {record_directory @ [a]}"
        then obtain r where r: "r \<in> set records" "selected_by kind r" "q = sr_path r" by (auto simp: selected)
        then obtain b where b: "q = record_directory @ [b]" using record_names by blast
        then have "b \<noteq> a" using a r by auto
        then show "apart q p" using p apart_names [of b a record_directory "[]"] by (simp add: b)
      qed
      moreover have "untouched {record_directory @ [a]} t (snd (remove_roots env (roots_to_remove kind records roots selected affected) t))"
      proof (rule remove_roots_keeps)
        fix e p assume e: "e \<in> set (roots_to_remove kind records roots selected affected)" and p: "p \<in> {record_directory @ [a]}"
        from root_names [OF e] obtain b where b: "re_path e = rootfs_directory @ [b]" by blast
        show "apart (re_path e) p \<and> apart (rootfs_metadata_path (re_digest e)) p"
          using p unfolding b rootfs_metadata_path_def by (auto simp: cache_dirs apart_def)
      qed
      moreover have "snd (remove_files env (map sr_path selected) s) = t"
        "snd (remove_roots env (roots_to_remove kind records roots selected affected) t) = s'"
        using t by simp_all
      ultimately show "node_at (record_directory @ [a]) (dk_root s') = node_at (record_directory @ [a]) (dk_root s)"
        by (simp add: untouched_def)
    qed
  qed
qed

text \<open>
  after the removal of a reference has succeeded, no platform's image is found under it any more.
\<close>

theorem removed_reference_unresolved:
  assumes "cache_remove env target True s = (Ok report, s')" and "parse_target target = Ok (TargetReference reference)"
    and "honest env" and "\<And>bs. length (ce_sha env bs) = 32"
  shows "resolve_reference_unlocked env reference platform (dk_root s') \<noteq> Ok (Some found)"
proof
  define h where "h = hex (ce_sha env (bytes_of_str (platform_key reference platform)))"
  have h: "h \<noteq> []" using assms(4) by (metis h_def length_hex length_0_conv mult_eq_0_iff zero_neq_numeral)
  assume "resolve_reference_unlocked env reference platform (dk_root s') = Ok (Some found)"
  then obtain bs rcd where read: "fs_read env (record_directory @ [h @ ''.json'']) (dk_root s') = Inr bs"
    and rcd: "ce_parse_record env bs = Inr rcd" "ir_reference rcd = reference"
    by (auto simp: resolve_reference_unlocked_def record_path_for_def h_def Let_def and_then_Inr_iff map_err_Inr_iff
        split: sum.splits disk_error.splits if_splits)
  obtain records where recs: "read_records env (dk_root s) = Inr records"
    "\<forall>r \<in> set records. selected_by (TargetReference reference) r \<longrightarrow> node_at (sr_path r) (dk_root s') = Err DeNotFound"
    "\<forall>a. (\<forall>r \<in> set records. selected_by (TargetReference reference) r \<longrightarrow> sr_path r \<noteq> record_directory @ [a]) \<longrightarrow>
       node_at (record_directory @ [a]) (dk_root s') = node_at (record_directory @ [a]) (dk_root s)"
    using remove_record_paths [OF assms(1-3)] .
  obtain i where n: "node_at (record_directory @ [h @ ''.json'']) (dk_root s') = Inr (EFile i bs)"
    using fs_read_node [OF read] by blast
  have same: "node_at (record_directory @ [h @ ''.json'']) (dk_root s') = node_at (record_directory @ [h @ ''.json'']) (dk_root s)"
  proof -
    have "sr_path r \<noteq> record_directory @ [h @ ''.json'']" if "r \<in> set records" "selected_by (TargetReference reference) r" for r
      using recs(2) that n by force
    then show ?thesis using recs(3) by blast
  qed
  then have "fs_read env (record_directory @ [h @ ''.json'']) (dk_root s) = Inr bs" using read by (simp add: fs_read_def)
  from readable_record [OF recs(1) assms(3) h this rcd(1)] recs(2) rcd(2) n show False by (fastforce simp: selected_by_def)
qed

theorem removed_reference_unresolved_witness:
  "resolve_reference_unlocked sample_env ''docker.io/library/b:v'' platform
     (dk_root (snd (cache_remove sample_env ''b:v'' True sample_disk))) \<noteq> Ok (Some found)"
proof -
  obtain report s' where "cache_remove sample_env ''b:v'' True sample_disk = (Ok report, s')"
    using sample_remove by (cases "cache_remove sample_env ''b:v'' True sample_disk") (auto simp: is_ok_iff)
  moreover have "length (ce_sha sample_env bs) = 32" for bs using sample_name(2) by (simp add: sample_env_def)
  ultimately show ?thesis using removed_reference_unresolved [OF _ sample_target sample_honest] by simp
qed

section \<open>Replacing a file\<close>

text \<open>The temporary file beside a file, in a directory that exists.\<close>

lemma replace_by_rename_cases:
  assumes dir: "node_at q (dk_root s) = Inr (EDir i es)" and "c \<noteq> t"
    and new: "node_at (q @ [t]) (dk_root s) = Inr (EFile j content)" and old: "node_at (q @ [c]) (dk_root s) = Inr (EFile k old)"
    and run: "replace_by_rename env (q @ [t]) (q @ [c]) s = (r, s')"
  shows "(r = Ok () \<longrightarrow> node_at (q @ [c]) (dk_root s') = Ok (EFile j content)) \<and>
    (is_ok r \<or> node_at (q @ [c]) (dk_root s') = Ok (EFile k old) \<or>
      de_fault env CallRename (q @ [c]) \<noteq> None \<and> node_at (q @ [c]) (dk_root s') = Err DeNotFound)"
proof (cases "de_fault env CallRename (q @ [c])")
  case None
  have moved: "fs_rename env (q @ [t]) (q @ [c]) s = (Ok (), set_node (q @ [c]) (Some (EFile j content)) (set_node (q @ [t]) None s))"
    using dir new old None by (simp add: fs_rename_def and_then_def disk_try_def is_dir_def)
  obtain es' where "node_at q (dk_root (set_node (q @ [t]) None s)) = Inr (EDir i es')"
    using set_node_sibling(1) [OF dir assms(2)] by blast
  from set_node_sibling(3) [OF this assms(2) [symmetric], of "Some (EFile j content)"] run show ?thesis
    by (auto simp: replace_by_rename_def moved)
next
  case (Some e)
  have kept: "fs_rename env (q @ [t]) (q @ [c]) u = (Err e, u)" for u
    by (simp add: fs_rename_def and_then_def disk_try_def Some)
  have tmp: "node_at (q @ [c]) (dk_root (snd (fs_remove_file env (q @ [t]) s))) = Inr (EFile k old)"
    using remove_file_touches [of "q @ [t]" s env] set_node_sibling(2) [OF dir assms(2)] old by (auto simp: touches_def)
  show ?thesis
  proof (cases "fs_metadata env (q @ [c]) (dk_root s)")
    case (Inl x)
    then show ?thesis using run tmp by (auto simp: replace_by_rename_def kept)
  next
    case (Inr n)
    then have "n = EFile k old" using old by (auto simp: fs_metadata_def and_then_Inr_iff)
    moreover have "fs_remove_file env (q @ [c]) s = (r', u) \<Longrightarrow> u = s \<or> u = set_node (q @ [c]) None s" for r' u
      by (auto simp: fs_remove_file_def split: sum.splits if_splits)
    ultimately show ?thesis
      using run Inr old set_node_sibling(3) [OF dir assms(2) [symmetric], of None] Some
      by (auto simp: replace_by_rename_def kept is_file_def bind_eff_def cache_io_def split: prod.splits sum.splits)
  qed
qed

lemma temporary_name: "''.'' @ name @ ''.'' @ pid @ ''.'' @ n @ ''.tmp'' \<noteq> name"
proof
  assume "''.'' @ name @ ''.'' @ pid @ ''.'' @ n @ ''.tmp'' = name"
  then have "length (''.'' @ name @ ''.'' @ pid @ ''.'' @ n @ ''.tmp'') = length name" by (rule arg_cong)
  then show False by simp
qed

text \<open>
  replacing a file of the cache that exists leaves the old contents or the new ones, whichever call fails: the new ones
  exactly when the call succeeds or only the final sync failed. The one exception is a rename that fails: the
  code then deletes the old file before it tries again, and the file is gone when the second rename fails too.
\<close>

theorem write_json_atomic_outcome:
  assumes "node_at p (dk_root s) = Ok (EFile k old)" and "write_json_atomic env p content s = (r, s')" and "p \<noteq> []"
  shows "(r = Ok () \<longrightarrow> (\<exists>j. node_at p (dk_root s') = Ok (EFile j content))) \<and>
    (node_at p (dk_root s') = Ok (EFile k old) \<or> (\<exists>j. node_at p (dk_root s') = Ok (EFile j content)) \<or>
     de_fault env CallRename p \<noteq> None \<and> node_at p (dk_root s') = Err DeNotFound)"
proof -
  obtain q c where p: "p = q @ [c]" using assms(3) by (metis rev_exhaust)
  obtain i es where dir: "node_at q (dk_root s) = Inr (EDir i es)" using node_at_parent assms(1) p by blast
  have mk: "cache_io (fs_create_dir_all env q) s = (Ok (), s)"
    using mkdirs_present [of "[]" q s i es env] dir by (simp add: cache_io_def fs_create_dir_all_def)
  show ?thesis
  proof (cases "to_str c")
    case None
    then show ?thesis using assms(1,2) mk by (auto simp: write_json_atomic_def Let_def p)
  next
    case (Some name)
    then have name: "name = c" using to_str_Some by metis
    define t where "t = ''.'' @ c @ ''.'' @ de_process env @ ''.'' @ decimal (dk_sequence s) @ ''.tmp''"
    have ct: "c \<noteq> t" using temporary_name [of c] unfolding t_def by metis
    define s0 where "s0 = s\<lparr>dk_sequence := wrapping_add (dk_sequence s) 1\<rparr>"
    have dir0: "node_at q (dk_root s0) = Inr (EDir i es)" "node_at (q @ [c]) (dk_root s0) = Inr (EFile k old)"
      using dir assms(1) by (simp_all add: s0_def p)
    define rest where "rest = bind_eff (to_writer env (q @ [t]) content) (\<lambda>_.
          bind_eff (lift_eff (map_err IceIo (disk_try env CallSync (q @ [t])))) (\<lambda>_.
          bind_eff (replace_by_rename env (q @ [t]) (q @ [c])) (\<lambda>_.
          bind_eff (get_eff dk_root) (\<lambda>root. lift_eff (map_err IceIo (sync_directory env q root))))))"
    have run: "bind_eff (cache_io (fs_create_new env (q @ [t]))) (\<lambda>_. rest) s0 = (r, s')"
      using assms(2) mk Some by (simp add: write_json_atomic_def Let_def p name next_sequence_def s0_def t_def rest_def)
    obtain r1 s1 where s1: "fs_create_new env (q @ [t]) s0 = (r1, s1)" by fastforce
    show ?thesis
    proof (cases r1)
      case (Inl e)
      then show ?thesis using run s1 fs_create_new_at(1) [OF dir0(1), of env t e s1] dir0(2) by (auto simp: p cache_io_def)
    next
      case (Inr u)
      have s1': "s1 = set_node (q @ [t]) (Some (EFile (de_info env (q @ [t])) [])) s0"
        using fs_create_new_at(2) [OF dir0(1)] s1 Inr by blast
      then obtain es1 where dir1: "node_at q (dk_root s1) = Inr (EDir i es1)" "node_at (q @ [c]) (dk_root s1) = Inr (EFile k old)"
        using set_node_sibling(1,2) [OF dir0(1) ct] dir0(2) by metis
      obtain bs s2 where s2: "to_writer env (q @ [t]) content s1 = (if de_fault env CallWrite (q @ [t]) = None then Ok () else Err (IceJson ''write''), s2)"
          "s2 = set_node (q @ [t]) (Some (EFile (de_info env (q @ [t])) bs)) s1"
          "de_fault env CallWrite (q @ [t]) = None \<longrightarrow> bs = content"
        by (cases "de_fault env CallWrite (q @ [t])") (auto simp: to_writer_def fs_write_def)
      obtain es2 where dir2: "node_at q (dk_root s2) = Inr (EDir i es2)" "node_at (q @ [c]) (dk_root s2) = Inr (EFile k old)"
          "node_at (q @ [t]) (dk_root s2) = Inr (EFile (de_info env (q @ [t])) bs)"
        using set_node_sibling [OF dir1(1) ct, of "Some (EFile (de_info env (q @ [t])) bs)"] dir1(2) unfolding s2(2) by auto
      have run': "rest s1 = (r, s')" using run s1 Inr by (simp add: cache_io_def)
      obtain r3 s3 where s3: "replace_by_rename env (q @ [t]) (q @ [c]) s2 = (r3, s3)" by fastforce
      consider "\<not> is_ok r" "s' = s2" | "bs = content" "s' = s3" "is_ok r \<longrightarrow> is_ok r3"
      proof (cases "de_fault env CallWrite (q @ [t])")
        case None
        with run' s2 have b: "bs = content" "bind_eff (lift_eff (map_err IceIo (disk_try env CallSync (q @ [t])))) (\<lambda>_.
          bind_eff (replace_by_rename env (q @ [t]) (q @ [c])) (\<lambda>_.
          bind_eff (get_eff dk_root) (\<lambda>root. lift_eff (map_err IceIo (sync_directory env q root))))) s2 = (r, s')"
          by (simp_all add: rest_def)
        show thesis
          using b that s3 by (cases "de_fault env CallSync (q @ [t])"; cases r3) (auto simp: disk_try_def)
      next
        case (Some e)
        with run' s2 show thesis by (intro that(1)) (auto simp: rest_def)
      qed
      then show ?thesis
      proof cases
        case 2
        with replace_by_rename_cases [OF dir2(1) ct dir2(3,2) s3] show ?thesis by (auto simp: p is_ok_iff)
      qed (use dir2(2) p in auto)
    qed
  qed
qed

text \<open>A failing rename over an existing record: the record is gone.\<close>

definition failing_rename_env :: cache_env where
  "failing_rename_env = sample_env\<lparr>de_fault := (\<lambda>call p. if call = CallRename then Some (DeOther ''EIO'') else None)\<rparr>"

lemma failing_rename_loses:
  "node_at (record_directory @ [''a.json'']) (dk_root (snd (write_json_atomic failing_rename_env (record_directory @ [''a.json'']) [9] sample_disk)))
     = Err DeNotFound"
  by code_simp

theorem write_json_atomic_outcome_witness:
  "\<not> is_ok (fst (write_json_atomic failing_rename_env (record_directory @ [''a.json'']) [9] sample_disk)) \<and>
   de_fault failing_rename_env CallRename (record_directory @ [''a.json'']) \<noteq> None"
proof -
  obtain r s' where run: "write_json_atomic failing_rename_env (record_directory @ [''a.json'']) [9] sample_disk = (r, s')" by fastforce
  have "node_at (record_directory @ [''a.json'']) (dk_root sample_disk) = Ok (EFile sample_info [10])" by code_simp
  from write_json_atomic_outcome [OF this run] failing_rename_loses show ?thesis
    by (cases r) (auto simp: run)
qed

text \<open>A replacement that succeeds puts the new contents at the path, whether a file was there or not.\<close>

lemma write_json_atomic_Ok:
  assumes "write_json_atomic env (q @ [c]) content s = (Inr u, s')" "node_at [] (dk_root s) = Inr (EDir i0 es0)"
  shows "\<exists>j. node_at (q @ [c]) (dk_root s') = Inr (EFile j content)"
proof -
  obtain name s1 where s1: "fs_create_dir_all env q s = (Inr (), s1)" "to_str c = Some name"
    using assms(1) by (auto simp: write_json_atomic_def Let_def bind_eff_Inr cache_io_def map_err_Inr_iff ok_or_Inr_iff split: prod.splits)
  then have name: "name = c" using to_str_Some by metis
  obtain i es where dir: "node_at q (dk_root s1) = Inr (EDir i es)"
    using mkdirs_Ok [of env "[]" q s "()" s1] s1(1) assms(2) by (auto simp: fs_create_dir_all_def)
  define t where "t = ''.'' @ c @ ''.'' @ de_process env @ ''.'' @ decimal (dk_sequence s1) @ ''.tmp''"
  have ct: "c \<noteq> t" using temporary_name [of c] unfolding t_def by metis
  define s2 where "s2 = s1\<lparr>dk_sequence := wrapping_add (dk_sequence s1) 1\<rparr>"
  obtain s3 s4 where run: "fs_create_new env (q @ [t]) s2 = (Inr (), s3)" "to_writer env (q @ [t]) content s3 = (Inr (), s4)"
      "replace_by_rename env (q @ [t]) (q @ [c]) s4 = (Inr (), s')"
    using assms(1) s1 name
    by (auto simp: write_json_atomic_def Let_def bind_eff_Inr cache_io_def map_err_Inr_iff next_sequence_def s2_def t_def split: prod.splits)
  have dir2: "node_at q (dk_root s2) = Inr (EDir i es)" using dir by (simp add: s2_def)
  obtain es3 where dir3: "node_at q (dk_root s3) = Inr (EDir i es3)"
    using fs_create_new_at(2) [OF dir2 run(1)] set_node_sibling(1) [OF dir2 ct] by blast
  have s4: "s4 = set_node (q @ [t]) (Some (EFile (de_info env (q @ [t])) content)) s3"
    using run(2) by (auto simp: to_writer_def fs_write_def split: prod.splits sum.splits option.splits)
  have new: "node_at (q @ [t]) (dk_root s4) = Inr (EFile (de_info env (q @ [t])) content)"
    using set_node_sibling(3) [OF dir3 ct] by (simp add: s4)
  obtain es4 where dir4: "node_at q (dk_root s4) = Inr (EDir i es4)" using set_node_sibling(1) [OF dir3 ct] s4 by blast
  consider u where "fs_rename env (q @ [t]) (q @ [c]) s4 = (Inr u, s')"
    | s5 u where "fs_remove_file env (q @ [c]) s4 = (Inr (), s5)" "fs_rename env (q @ [t]) (q @ [c]) s5 = (Inr u, s')"
  proof (cases "fs_rename env (q @ [t]) (q @ [c]) s4")
    case (Pair r s5)
    then show thesis
      using run(3) that fs_rename_Err [of env "q @ [t]" "q @ [c]" s4]
      by (cases r) (auto simp: replace_by_rename_def bind_eff_Inr cache_io_def map_err_Inr_iff split: sum.splits if_splits prod.splits)
  qed
  then show ?thesis
  proof cases
    case 1
    then show ?thesis using fs_rename_Ok [OF _ new ct] by blast
  next
    case 2
    have "node_at (q @ [t]) (dk_root s5) = Inr (EFile (de_info env (q @ [t])) content)"
      using remove_file_touches [of "q @ [c]" s4 env] 2(1) set_node_sibling(2) [OF dir4 ct [symmetric]] new by (auto simp: touches_def)
    then show ?thesis using fs_rename_Ok [OF 2(2) _ ct] by blast
  qed
qed

section \<open>The default image\<close>

text \<open>
  the default that was set is read back as the canonical form of the text that was stored. That text is itself
  canonical already, so this is the stored reference for every reference that prints to a text that parses; one
  that does not is accepted by \<^verbatim>\<open>set_default\<close>, and then no default can be read and no image listed.
\<close>

theorem set_default_reads_back:
  assumes "set_default env reference s = (Ok stored, s')" and "is_dir (dk_root s)"
    and "\<And>t. ce_parse_default env (ce_default_json env \<lparr>di_schema_version = SCHEMA_VERSION, di_reference = t\<rparr>) =
      Ok \<lparr>di_schema_version = SCHEMA_VERSION, di_reference = t\<rparr>"
    and "de_fault env CallMetadata default_path = None" and "de_fault env CallRead default_path = None"
  shows "canonical_reference reference = Ok stored \<and>
    default_reference_unlocked env (dk_root s') = canonical_reference stored \<and>
    (reference = ''u@h.io/x@latest'' \<longrightarrow> \<not> is_ok (default_reference_unlocked env (dk_root s')) \<and> \<not> is_ok (list_unlocked env (dk_root s')))"
proof -
  have c: "canonical_reference reference = Ok stored"
    and w: "write_json_atomic env ([] @ [''default-image.json''])
      (ce_default_json env \<lparr>di_schema_version = SCHEMA_VERSION, di_reference = stored\<rparr>) s = (Inr (), s')"
    using assms(1) by (auto simp: set_default_def bind_eff_Inr default_path_def)
  obtain i es where "node_at [] (dk_root s) = Inr (EDir i es)" using assms(2) by (cases "dk_root s") (auto simp: is_dir_def)
  from write_json_atomic_Ok [OF w this] obtain j where j: "node_at default_path (dk_root s') =
      Inr (EFile j (ce_default_json env \<lparr>di_schema_version = SCHEMA_VERSION, di_reference = stored\<rparr>))"
    by (auto simp: default_path_def)
  have r: "default_reference_unlocked env (dk_root s') = canonical_reference stored"
    using j assms(3-5)
    by (cases "canonical_reference stored")
      (auto simp: default_reference_unlocked_def read_default_def fs_metadata_def fs_read_def disk_try_def is_file_def)
  have "\<not> is_ok (default_reference_unlocked env (dk_root s'))" if "reference = ''u@h.io/x@latest''"
  proof -
    have "canonical_reference ''u@h.io/x@latest'' = Ok ''u@h.io/x:latest''" by code_simp
    then have "stored = ''u@h.io/x:latest''" using c that by simp
    moreover have "\<not> is_ok (canonical_reference ''u@h.io/x:latest'')" by code_simp
    ultimately show ?thesis by (simp add: r)
  qed
  moreover from this have "\<not> is_ok (list_unlocked env (dk_root s'))" if "reference = ''u@h.io/x@latest''"
    using that by (auto simp: list_unlocked_def is_ok_iff and_then_Inr_iff)
  ultimately show ?thesis using c r by blast
qed

theorem set_default_reads_back_witness:
  "\<exists>stored s'. set_default sample_env ''u@h.io/x@latest'' sample_disk = (Ok stored, s') \<and> \<not> is_ok (list_unlocked sample_env (dk_root s'))"
proof -
  have "is_ok (fst (set_default sample_env ''u@h.io/x@latest'' sample_disk))" by code_simp
  then obtain stored s' where run: "set_default sample_env ''u@h.io/x@latest'' sample_disk = (Ok stored, s')"
    by (cases "set_default sample_env ''u@h.io/x@latest'' sample_disk") (auto simp: is_ok_iff)
  have "is_dir (dk_root sample_disk)" by code_simp
  from set_default_reads_back [OF run this] have "\<not> is_ok (list_unlocked sample_env (dk_root s'))"
    by (simp add: sample_env_def SCHEMA_VERSION_def)
  with run show ?thesis by blast
qed

section \<open>The pull policy\<close>

lemma resolved_prepared:
  assumes "resolve_reference env reference platform root = Inr (Some i)" "canonical_reference reference = Inr c"
  shows "prepared_image i = Inr \<lparr>pr_reference = c, pr_manifest_digest = ci_manifest_digest i, pr_rootfs = ci_rootfs i\<rparr>"
  using assms
  by (auto simp: resolve_reference_def resolve_reference_unlocked_def prepared_image_def Let_def and_then_Inr_iff
      split: sum.splits disk_error.splits if_splits)

text \<open>
  With the policy \<open>never\<close> neither the network nor the cache is touched, and with any policy but \<open>always\<close> an image
  that is cached is returned from the cache as it is.
\<close>

theorem prepare_policy:
  "prepare_with_progress env pull others reference platform Never s = prepare_with_progress env pull' others' reference platform Never s \<and>
   snd (prepare_with_progress env pull others reference platform Never s) = s \<and>
   (\<forall>c i policy. canonical_reference reference = Ok c \<longrightarrow> canonical_reference c = Ok c \<longrightarrow> policy \<noteq> Always \<longrightarrow>
      resolve_reference env c platform (dk_root s) = Ok (Some i) \<longrightarrow>
      prepare_with_progress env pull others reference platform policy s =
        (Ok \<lparr>pr_reference = c, pr_manifest_digest = ci_manifest_digest i, pr_rootfs = ci_rootfs i\<rparr>, s))"
  by (auto simp: prepare_with_progress_def snd_bind_lift bind_eff_def [of "lift_eff _"] lift_eff_def resolved_prepared
      split: sum.splits option.splits)

end
