(* ===== verification/Storage_Root.thy ===== *)
theory Storage_Root
  imports Disk
begin

text \<open>
  The directories that moraebox owns (\<^verbatim>\<open>moraebox-core/src/storage.rs\<close>): where they are, and the check and tightening of
  a storage root before anything is written below it. The host adds to the directory tree what lies behind
  symbolic links, the effective user and the clock. The path of a root is given with the links of its parents
  resolved; the empty path has no names.
\<close>

record host_env = disk_env +
  he_behind :: "disk_path \<Rightarrow> (entry, disk_error) result"
  he_euid :: nat
  he_time :: int
  he_modified :: "disk_path \<Rightarrow> (int, disk_error) result"

section \<open>Calls that follow links, open files and change permissions\<close>

primrec crosses_link :: "disk_path \<Rightarrow> entry \<Rightarrow> bool" where
  "crosses_link [] n \<longleftrightarrow> False"
| "crosses_link (c # cs) n \<longleftrightarrow>
     (case n of
        EDir _ es \<Rightarrow> (case map_of es c of None \<Rightarrow> False | Some m \<Rightarrow> crosses_link cs m)
      | ELink _ _ \<Rightarrow> True
      | _ \<Rightarrow> False)"

definition follow :: "'z host_env_scheme \<Rightarrow> disk_path \<Rightarrow> entry \<Rightarrow> (entry, disk_error) result" where
  "follow env p root =
     (case node_at p root of
        Inr n \<Rightarrow> (case n of ELink _ _ \<Rightarrow> he_behind env p | _ \<Rightarrow> Ok n)
      | Inl e \<Rightarrow> if crosses_link p root then he_behind env p else Err e)"

text \<open>\<^verbatim>\<open>fs::metadata\<close>, \<^verbatim>\<open>Path::exists\<close> and \<^verbatim>\<open>fs::read\<close>.\<close>

definition fs_stat :: "'z host_env_scheme \<Rightarrow> disk_path \<Rightarrow> entry \<Rightarrow> (entry, disk_error) result" where
  "fs_stat env p root = and_then (disk_try env CallMetadata p) (\<lambda>_. follow env p root)"

definition fs_exists :: "'z host_env_scheme \<Rightarrow> disk_path \<Rightarrow> entry \<Rightarrow> bool" where
  "fs_exists env p root = is_ok (fs_stat env p root)"

definition fs_read_file :: "'z host_env_scheme \<Rightarrow> disk_path \<Rightarrow> entry \<Rightarrow> (bytes, disk_error) result" where
  "fs_read_file env p root =
     and_then (disk_try env CallRead p) (\<lambda>_.
     and_then (follow env p root) (\<lambda>n.
       case n of EFile _ bs \<Rightarrow> Ok bs | EDir _ _ \<Rightarrow> Err (DeOther ''is a directory'') | _ \<Rightarrow> Err (DeOther ''not a file'')))"

text \<open>Opening an existing file, and opening one that is created when it is missing. What lies behind a link does not change.\<close>

definition fs_open :: "'z host_env_scheme \<Rightarrow> disk_path \<Rightarrow> entry \<Rightarrow> (unit, disk_error) result" where
  "fs_open env p root =
     and_then (disk_try env CallOpen p) (\<lambda>_.
     and_then (follow env p root) (\<lambda>n. if is_dir n then Err (DeOther ''is a directory'') else Ok ()))"

definition fs_open_create :: "'z host_env_scheme \<Rightarrow> disk_path \<Rightarrow> (disk, disk_error, unit) eff" where
  "fs_open_create env p s =
     (case disk_try env CallOpen p of
        Inl e \<Rightarrow> (Err e, s)
      | Inr _ \<Rightarrow>
          (case node_at p (dk_root s) of
             Inr n \<Rightarrow> (if is_dir n then Err (DeOther ''is a directory'') else Ok (), s)
           | Inl _ \<Rightarrow> fs_create_new env p s))"

definition with_mode :: "nat \<Rightarrow> entry \<Rightarrow> entry" where
  "with_mode m n =
     (case n of
        EDir i es \<Rightarrow> EDir (i\<lparr>fi_mode := m\<rparr>) es
      | EFile i bs \<Rightarrow> EFile (i\<lparr>fi_mode := m\<rparr>) bs
      | ELink i t \<Rightarrow> ELink i t
      | EOther i \<Rightarrow> EOther (i\<lparr>fi_mode := m\<rparr>))"

definition MODE_0700 :: nat where "MODE_0700 = 7 * 8 ^ 2"
definition MODE_0600 :: nat where "MODE_0600 = 6 * 8 ^ 2"
definition MODE_0400 :: nat where "MODE_0400 = 4 * 8 ^ 2"

definition fs_set_permissions :: "'z host_env_scheme \<Rightarrow> disk_path \<Rightarrow> nat \<Rightarrow> (disk, disk_error, unit) eff" where
  "fs_set_permissions env p mode s =
     (case and_then (disk_try env CallPermissions p) (\<lambda>_. node_at p (dk_root s)) of
        Inl e \<Rightarrow> (Err e, s)
      | Inr n \<Rightarrow> (Ok (), set_node p (Some (with_mode mode n)) s))"

section \<open>Where the directories are\<close>

definition STORAGE_DIRECTORY :: string where "STORAGE_DIRECTORY = ''.moraebox''"
definition CACHE_DIRECTORY :: string where "CACHE_DIRECTORY = ''cache''"
definition STATE_DIRECTORY :: string where "STATE_DIRECTORY = ''state''"

record StoragePaths =
  sp_root :: string
  sp_cache :: string
  sp_state :: string

datatype StoragePathError = HomeDirectoryUnavailable | InvalidHomeDirectory string

text \<open>\<^verbatim>\<open>Path::join\<close> with a relative name.\<close>

definition path_join :: "string \<Rightarrow> string \<Rightarrow> string" where
  "path_join base name = (if base = [] then name else if last base = CHR ''/'' then base @ name else base @ ''/'' @ name)"

definition from_home :: "string \<Rightarrow> (StoragePaths, StoragePathError) result" where
  "from_home home =
     (if home = [] \<or> \<not> is_absolute home then Err (InvalidHomeDirectory home)
      else
        let root = path_join home STORAGE_DIRECTORY in
        Ok \<lparr>sp_root = root, sp_cache = path_join root CACHE_DIRECTORY, sp_state = path_join root STATE_DIRECTORY\<rparr>)"

definition environment_path :: "(string \<Rightarrow> string option) \<Rightarrow> string \<Rightarrow> string option" where
  "environment_path vars name = (case vars name of Some v \<Rightarrow> if v = [] then None else Some v | None \<Rightarrow> None)"

definition user_home_directory :: "(string \<Rightarrow> string option) \<Rightarrow> string option" where
  "user_home_directory vars = environment_path vars ''HOME''"

definition for_current_user :: "(string \<Rightarrow> string option) \<Rightarrow> (StoragePaths, StoragePathError) result" where
  "for_current_user vars =
     and_then (ok_or (user_home_directory vars) HomeDirectoryUnavailable) from_home"

definition resolve_cache_dir :: "(string \<Rightarrow> string option) \<Rightarrow> string option \<Rightarrow> (string, StoragePathError) result" where
  "resolve_cache_dir vars explicit =
     (case explicit of
        Some p \<Rightarrow> Ok p
      | None \<Rightarrow> and_then (for_current_user vars) (\<lambda>paths. Ok (sp_cache paths)))"

definition resolve_state_dir :: "(string \<Rightarrow> string option) \<Rightarrow> string option \<Rightarrow> (string, StoragePathError) result" where
  "resolve_state_dir vars explicit =
     (case explicit of
        Some p \<Rightarrow> Ok p
      | None \<Rightarrow> and_then (for_current_user vars) (\<lambda>paths. Ok (sp_state paths)))"

section \<open>A private storage root\<close>

datatype StorageRootError =
    SreEmptyPath
  | SreUnsafeFileType disk_path
  | SreOwnerMismatch disk_path nat nat
  | SreIo disk_path disk_error

text \<open>The metadata of a link is not that of a directory, so that the second test covers the first.\<close>

definition validate_root_file_type :: "disk_path \<Rightarrow> entry \<Rightarrow> (unit, StorageRootError) result" where
  "validate_root_file_type p n = (if \<not> is_dir n then Err (SreUnsafeFileType p) else Ok ())"

definition validate_owner_uid :: "disk_path \<Rightarrow> nat \<Rightarrow> nat \<Rightarrow> (unit, StorageRootError) result" where
  "validate_owner_uid p actual expected = (if actual \<noteq> expected then Err (SreOwnerMismatch p expected actual) else Ok ())"

definition root_io :: "disk_path \<Rightarrow> (disk, disk_error, 'a) eff \<Rightarrow> (disk, StorageRootError, 'a) eff" where
  "root_io p m s = (case m s of (r, s') \<Rightarrow> (map_err (SreIo p) r, s'))"

definition create_private_directory :: "'z host_env_scheme \<Rightarrow> disk_path \<Rightarrow> (disk, StorageRootError, unit) eff" where
  "create_private_directory env p = root_io p (fs_create_dir_all env p)"

definition validate_private_directory :: "'z host_env_scheme \<Rightarrow> disk_path \<Rightarrow> (disk, StorageRootError, unit) eff" where
  "validate_private_directory env p =
     bind_eff (get_eff dk_root) (\<lambda>root.
     bind_eff (lift_eff (map_err (SreIo p) (fs_metadata env p root))) (\<lambda>n.
     bind_eff (lift_eff (validate_root_file_type p n)) (\<lambda>_.
     bind_eff (lift_eff (map_err (SreIo p) (disk_try env CallOpen p))) (\<lambda>_.
     bind_eff (lift_eff (validate_root_file_type p n)) (\<lambda>_.
     bind_eff (lift_eff (validate_owner_uid p (fi_uid (entry_info n)) (he_euid env))) (\<lambda>_.
       root_io p (fs_set_permissions env p MODE_0700)))))))"

definition ensure_private_storage_root :: "'z host_env_scheme \<Rightarrow> disk_path \<Rightarrow> (disk, StorageRootError, unit) eff" where
  "ensure_private_storage_root env p =
     (if p = [] then lift_eff (Err SreEmptyPath)
      else
        bind_eff (get_eff dk_root) (\<lambda>root.
        bind_eff
          (case fs_metadata env p root of
             Inr n \<Rightarrow> lift_eff (validate_root_file_type p n)
           | Inl DeNotFound \<Rightarrow> create_private_directory env p
           | Inl e \<Rightarrow> lift_eff (Err (SreIo p e)))
          (\<lambda>_. validate_private_directory env p)))"

end
