(* ===== verification/Box_Metadata.thy ===== *)
theory Box_Metadata
  imports Storage_Root Image_Reference Net_Types Run_Spec "HOL-Library.Option_ord" "HOL-Library.Product_Lexorder"
begin

text \<open>
  The data of boxes (\<^verbatim>\<open>moraebox-box/src/lib.rs\<close>): metadata, requests, queries and their validation, the errors of the
  store, and the names of its temporary files. A \<^verbatim>\<open>BTreeMap\<close> is a list of pairs in the order of its keys, a
  \<^verbatim>\<open>BTreeSet\<close> a list in order. An identifier is its canonical text, and \<^verbatim>\<open>Uuid::parse_str\<close> is a parameter.
\<close>

section \<open>Ordered maps and sets\<close>

fun btree_insert :: "'k::linorder \<Rightarrow> 'v \<Rightarrow> ('k, 'v) assoc \<Rightarrow> ('k, 'v) assoc" where
  "btree_insert k v [] = [(k, v)]"
| "btree_insert k v ((k', v') # m) =
     (if k < k' then (k, v) # (k', v') # m else if k = k' then (k, v) # m else (k', v') # btree_insert k v m)"

definition btree_remove :: "'k \<Rightarrow> ('k, 'v) assoc \<Rightarrow> ('k, 'v) assoc" where
  "btree_remove k m = filter (\<lambda>(k', _). k' \<noteq> k) m"

definition btree_extend :: "('k::linorder, 'v) assoc \<Rightarrow> ('k, 'v) assoc \<Rightarrow> ('k, 'v) assoc" where
  "btree_extend m new = foldl (\<lambda>m (k, v). btree_insert k v m) m new"

definition bset_extend :: "'a::linorder list \<Rightarrow> 'a list \<Rightarrow> 'a list" where
  "bset_extend xs new = foldl (\<lambda>xs x. insort_insert x xs) xs new"

definition bset_remove :: "'a \<Rightarrow> 'a list \<Rightarrow> 'a list" where
  "bset_remove x xs = filter (\<lambda>y. y \<noteq> x) xs"

section \<open>Data\<close>

datatype BoxState = Ready | Dirty | NeedsRepair
datatype BoxDiskFormat = RawExt4

record BoxMetadata =
  bm_schema_version :: nat
  bm_box_id :: uuid
  bm_state :: BoxState
  bm_manifest_digest :: string
  bm_platform :: string
  bm_disk_format :: BoxDiskFormat
  bm_virtual_size_bytes :: nat
  bm_generation :: nat
  bm_created_at_unix_ms :: nat
  bm_updated_at_unix_ms :: nat
  bm_owner_uid :: "nat option"
  bm_name :: "string option"
  bm_labels :: "(string, string) assoc"
  bm_tags :: "string list"
  bm_last_used_at_unix_ms :: "nat option"
  bm_physical_size_bytes :: nat

datatype BoxSortBy = ByName | ByCreated | ByUpdated | ByLastUsed | ByPhysicalSize | ByVirtualSize | ById

record BoxQuery =
  bq_name :: "string option"
  bq_labels :: "(string, string option) assoc"
  bq_tags :: "string list"
  bq_state :: "BoxState option"
  bq_sort_by :: BoxSortBy
  bq_descending :: bool

definition box_query_default :: BoxQuery where
  "box_query_default =
     \<lparr>bq_name = None, bq_labels = [], bq_tags = [], bq_state = None, bq_sort_by = ById, bq_descending = False\<rparr>"

record UpdateBox =
  ub_name :: "string option"
  ub_clear_name :: bool
  ub_set_labels :: "(string, string) assoc"
  ub_remove_labels :: "string list"
  ub_add_tags :: "string list"
  ub_remove_tags :: "string list"

definition update_box_default :: UpdateBox where
  "update_box_default =
     \<lparr>ub_name = None, ub_clear_name = False, ub_set_labels = [], ub_remove_labels = [], ub_add_tags = [], ub_remove_tags = []\<rparr>"

record CreateBox =
  cb_manifest_digest :: string
  cb_platform :: string
  cb_virtual_size_bytes :: nat
  cb_name :: "string option"
  cb_labels :: "(string, string) assoc"
  cb_tags :: "string list"

definition create_box_new :: "string \<Rightarrow> string \<Rightarrow> nat \<Rightarrow> CreateBox" where
  "create_box_new manifest_digest platform virtual_size_bytes =
     \<lparr>cb_manifest_digest = manifest_digest, cb_platform = platform, cb_virtual_size_bytes = virtual_size_bytes,
      cb_name = None, cb_labels = [], cb_tags = []\<rparr>"

definition with_name :: "string \<Rightarrow> CreateBox \<Rightarrow> CreateBox" where
  "with_name name r = r\<lparr>cb_name := Some name\<rparr>"

definition with_labels :: "(string, string) assoc \<Rightarrow> CreateBox \<Rightarrow> CreateBox" where
  "with_labels labels r = r\<lparr>cb_labels := labels\<rparr>"

definition with_tags :: "string list \<Rightarrow> CreateBox \<Rightarrow> CreateBox" where
  "with_tags tags r = r\<lparr>cb_tags := tags\<rparr>"

text \<open>
  The errors of the store. \<open>BseNoFreshId\<close> stands for a supply of random identifiers that ended while the code still
  draws.
\<close>

datatype BoxStoreError =
    BseNotFound uuid
  | BseBusy uuid disk_error
  | BseNeedsRepair uuid
  | BseCheckpointNotFound uuid
  | BseCheckpointBusy uuid disk_error
  | BseCheckpointSourceNotReady uuid BoxState
  | BseNameConflict string
  | BseInvalidStateTransition uuid BoxState BoxState BoxState
  | BseBaseDiskBusy disk_path disk_error
  | BseMke2fs "int option" string
  | BseCowCloneUnavailable string
  | BseEphemeralExists uuid
  | BseUnsupportedSchema nat nat
  | BseInvalidMetadata string
  | BseInvalidBundle string
  | BseCorruptStore string
  | BseUnsafeFileType string disk_path
  | BseInvalidPath disk_path
  | BseStorageRoot StorageRootError
  | BseClockBeforeUnixEpoch
  | BseClockOverflow
  | BseIo disk_error
  | BseJson string
  | BseNoFreshId

datatype BoxEntryErrorCode =
    CodeInvalidName | CodeInvalidMetadata | CodeUnsupportedSchema | CodeUnsafeFileType | CodeMissingData | CodeBusy | CodeIo
  | CodeCorruptStore

text \<open>A message is a text, or the text of an error.\<close>

record BoxEntryError =
  ee_entry_name :: string
  ee_box_id :: "uuid option"
  ee_code :: BoxEntryErrorCode
  ee_message :: "string + BoxStoreError"

definition error_code :: "BoxStoreError \<Rightarrow> BoxEntryErrorCode" where
  "error_code e =
     (case e of
        BseBusy _ _ \<Rightarrow> CodeBusy
      | BseCheckpointBusy _ _ \<Rightarrow> CodeBusy
      | BseUnsupportedSchema _ _ \<Rightarrow> CodeUnsupportedSchema
      | BseInvalidMetadata _ \<Rightarrow> CodeInvalidMetadata
      | BseInvalidBundle _ \<Rightarrow> CodeInvalidMetadata
      | BseNameConflict _ \<Rightarrow> CodeInvalidMetadata
      | BseUnsafeFileType _ _ \<Rightarrow> CodeUnsafeFileType
      | BseInvalidPath _ \<Rightarrow> CodeUnsafeFileType
      | BseNotFound _ \<Rightarrow> CodeMissingData
      | BseCheckpointNotFound _ \<Rightarrow> CodeMissingData
      | BseIo DeNotFound \<Rightarrow> CodeMissingData
      | BseCorruptStore _ \<Rightarrow> CodeCorruptStore
      | BseInvalidStateTransition _ _ _ _ \<Rightarrow> CodeCorruptStore
      | _ \<Rightarrow> CodeIo)"

definition from_store_error :: "string \<Rightarrow> uuid option \<Rightarrow> BoxStoreError \<Rightarrow> BoxEntryError" where
  "from_store_error name box_id e =
     \<lparr>ee_entry_name = name, ee_box_id = box_id, ee_code = error_code e, ee_message = Inr e\<rparr>"

record BoxListReport =
  lr_boxes :: "BoxMetadata list"
  lr_errors :: "BoxEntryError list"

record QuarantinedBoxEntry =
  qe_entry_name :: string
  qe_box_id :: "uuid option"
  qe_destination :: disk_path

record BoxRepairReport =
  rr_applied :: bool
  rr_detected :: "BoxEntryError list"
  rr_quarantined :: "QuarantinedBoxEntry list"
  rr_failures :: "BoxEntryError list"

record GarbageCollectionReport =
  gc_removed :: nat
  gc_skipped_busy :: nat
  gc_skipped_young :: nat

definition gc_default :: GarbageCollectionReport where
  "gc_default = \<lparr>gc_removed = 0, gc_skipped_busy = 0, gc_skipped_young = 0\<rparr>"

definition BOX_SCHEMA_VERSION :: nat where "BOX_SCHEMA_VERSION = 3"
definition LEGACY_SCHEMA_VERSION :: nat where "LEGACY_SCHEMA_VERSION = 1"
definition PREVIOUS_SCHEMA_VERSION :: nat where "PREVIOUS_SCHEMA_VERSION = 2"
definition BOXES_DIRECTORY :: string where "BOXES_DIRECTORY = ''boxes''"
definition METADATA_FILE :: string where "METADATA_FILE = ''metadata.json''"
definition ROOT_DISK_FILE :: string where "ROOT_DISK_FILE = ''root.ext4''"
definition LOCK_FILE :: string where "LOCK_FILE = ''.lock''"
definition METADATA_LOCK_FILE :: string where "METADATA_LOCK_FILE = ''.metadata.lock''"
definition MAX_NAME_CHARS :: nat where "MAX_NAME_CHARS = 64"
definition MAX_LABEL_KEY_CHARS :: nat where "MAX_LABEL_KEY_CHARS = 63"
definition MAX_LABEL_VALUE_CHARS :: nat where "MAX_LABEL_VALUE_CHARS = 256"
definition MAX_TAG_CHARS :: nat where "MAX_TAG_CHARS = 63"
definition DEFAULT_GC_MIN_AGE :: duration where "DEFAULT_GC_MIN_AGE = from_secs (60 * 60)"

section \<open>Validation\<close>

text \<open>\<^verbatim>\<open>chars().count()\<close> of UTF-8 text, and a control character in it: below 32, 127, or the two bytes of 128 to 159.\<close>

definition char_count :: "string \<Rightarrow> nat" where
  "char_count v = length (filter (\<lambda>c. \<not> (128 \<le> code c \<and> code c < 192)) v)"

fun has_control :: "string \<Rightarrow> bool" where
  "has_control [] \<longleftrightarrow> False"
| "has_control (c # cs) \<longleftrightarrow>
     code c < 32 \<or> code c = 127 \<or> (code c = 194 \<and> cs \<noteq> [] \<and> 128 \<le> code (hd cs) \<and> code (hd cs) < 160) \<or> has_control cs"

definition identifier_char :: "bool \<Rightarrow> char \<Rightarrow> bool" where
  "identifier_char allow_slash c \<longleftrightarrow>
     ascii_alphanumeric (code c) \<or> c = CHR ''.'' \<or> c = CHR ''_'' \<or> c = CHR ''-'' \<or> (allow_slash \<and> c = CHR ''/'')"

definition valid_identifier :: "string \<Rightarrow> nat \<Rightarrow> bool \<Rightarrow> bool" where
  "valid_identifier v max_chars allow_slash \<longleftrightarrow>
     v \<noteq> [] \<and> char_count v \<le> max_chars \<and> list_all (identifier_char allow_slash) v"

definition quoted :: "string \<Rightarrow> string" where
  "quoted v = [CHR 0x27] @ v @ [CHR 0x27]"

definition validate_identifier :: "string \<Rightarrow> string \<Rightarrow> nat \<Rightarrow> bool \<Rightarrow> (unit, BoxStoreError) result" where
  "validate_identifier label v max_chars allow_slash =
     (if \<not> valid_identifier v max_chars allow_slash then
        Err (BseInvalidMetadata (label @ '' must be 1-'' @ decimal max_chars @
          '' ASCII alphanumeric, '' @ quoted ''.'' @ '', '' @ quoted ''_'' @ '', '' @ quoted ''-'' @
          (if allow_slash then '', or '' @ quoted ''/'' else []) @ '' characters''))
      else Ok ())"

definition validate_optional_name :: "string option \<Rightarrow> (unit, BoxStoreError) result" where
  "validate_optional_name name =
     (case name of None \<Rightarrow> Ok () | Some v \<Rightarrow> validate_identifier ''box name'' v MAX_NAME_CHARS False)"

definition validate_label_key :: "string \<Rightarrow> (unit, BoxStoreError) result" where
  "validate_label_key key = validate_identifier ''label key'' key MAX_LABEL_KEY_CHARS True"

definition validate_label_value :: "string \<Rightarrow> (unit, BoxStoreError) result" where
  "validate_label_value v =
     (if char_count v > MAX_LABEL_VALUE_CHARS \<or> trim_ws v \<noteq> v \<or> has_control v then
        Err (BseInvalidMetadata (''label value must contain at most '' @ decimal MAX_LABEL_VALUE_CHARS @
          '' non-control characters without surrounding whitespace''))
      else Ok ())"

text \<open>A loop that stops at the first failure.\<close>

fun check_all :: "('a \<Rightarrow> (unit, 'e) result) \<Rightarrow> 'a list \<Rightarrow> (unit, 'e) result" where
  "check_all f [] = Ok ()"
| "check_all f (x # xs) = and_then (f x) (\<lambda>_. check_all f xs)"

lemma check_all_Inr [result_simps]: "check_all f xs = Inr u \<longleftrightarrow> (\<forall>x \<in> set xs. f x = Inr ())"
  by (induction xs) (auto simp: and_then_Inr_iff)

definition validate_labels :: "(string, string) assoc \<Rightarrow> (unit, BoxStoreError) result" where
  "validate_labels labels =
     check_all (\<lambda>(key, v). and_then (validate_label_key key) (\<lambda>_. validate_label_value v)) labels"

definition validate_tags :: "string list \<Rightarrow> (unit, BoxStoreError) result" where
  "validate_tags tags = check_all (\<lambda>tag. validate_identifier ''tag'' tag MAX_TAG_CHARS False) tags"

definition validate_query :: "BoxQuery \<Rightarrow> (unit, BoxStoreError) result" where
  "validate_query query =
     and_then (validate_optional_name (bq_name query)) (\<lambda>_.
     and_then (check_all (\<lambda>(key, v). and_then (validate_label_key key) (\<lambda>_.
         case v of None \<Rightarrow> Ok () | Some v \<Rightarrow> validate_label_value v)) (bq_labels query)) (\<lambda>_.
       validate_tags (bq_tags query)))"

definition validate_update :: "UpdateBox \<Rightarrow> (unit, BoxStoreError) result" where
  "validate_update u =
     (if ub_name u \<noteq> None \<and> ub_clear_name u then
        Err (BseInvalidMetadata ''name and clear_name cannot be used together'')
      else
        and_then (validate_optional_name (ub_name u)) (\<lambda>_.
        and_then (validate_labels (ub_set_labels u)) (\<lambda>_.
        and_then (check_all (\<lambda>key. and_then (validate_label_key key) (\<lambda>_.
            if map_of (ub_set_labels u) key \<noteq> None then
              Err (BseInvalidMetadata (''label '' @ key @ '' cannot be set and removed in one update''))
            else Ok ())) (ub_remove_labels u)) (\<lambda>_.
        and_then (validate_tags (ub_add_tags u)) (\<lambda>_.
        and_then (validate_tags (ub_remove_tags u)) (\<lambda>_.
          case filter (\<lambda>tag. tag \<in> set (ub_remove_tags u)) (ub_add_tags u) of
            tag # _ \<Rightarrow> Err (BseInvalidMetadata (''tag '' @ tag @ '' cannot be added and removed in one update''))
          | [] \<Rightarrow> Ok ()))))))"

definition create_box_validate :: "CreateBox \<Rightarrow> (unit, BoxStoreError) result" where
  "create_box_validate r =
     (if trim_ws (cb_manifest_digest r) = [] then Err (BseInvalidMetadata ''manifest digest must not be empty'')
      else if trim_ws (cb_platform r) = [] then Err (BseInvalidMetadata ''platform must not be empty'')
      else if cb_virtual_size_bytes r = 0 then Err (BseInvalidMetadata ''virtual disk size must be greater than zero'')
      else
        and_then (validate_optional_name (cb_name r)) (\<lambda>_.
        and_then (validate_labels (cb_labels r)) (\<lambda>_. validate_tags (cb_tags r))))"

section \<open>Queries\<close>

definition query_matches :: "BoxQuery \<Rightarrow> BoxMetadata \<Rightarrow> bool" where
  "query_matches query m \<longleftrightarrow>
     (case bq_name query of
        None \<Rightarrow> True
      | Some name \<Rightarrow> (case bm_name m of None \<Rightarrow> False | Some candidate \<Rightarrow> eq_ignore_ascii_case candidate name)) \<and>
     (case bq_state query of None \<Rightarrow> True | Some st \<Rightarrow> bm_state m = st) \<and>
     list_all (\<lambda>(key, v).
       case map_of (bm_labels m) key of
         None \<Rightarrow> False
       | Some candidate \<Rightarrow> (case v of None \<Rightarrow> True | Some v \<Rightarrow> candidate = v)) (bq_labels query) \<and>
     list_all (\<lambda>tag. tag \<in> set (bm_tags m)) (bq_tags query)"

text \<open>\<^verbatim>\<open>sort_by\<close> with the comparison of the query, then the text of the identifier.\<close>

definition sort_boxes :: "BoxSortBy \<Rightarrow> BoxMetadata list \<Rightarrow> BoxMetadata list" where
  "sort_boxes by xs =
     (case by of
        ByName \<Rightarrow> sort_key (\<lambda>m. (bm_name m, bm_box_id m)) xs
      | ByCreated \<Rightarrow> sort_key (\<lambda>m. (bm_created_at_unix_ms m, bm_box_id m)) xs
      | ByUpdated \<Rightarrow> sort_key (\<lambda>m. (bm_updated_at_unix_ms m, bm_box_id m)) xs
      | ByLastUsed \<Rightarrow> sort_key (\<lambda>m. (bm_last_used_at_unix_ms m, bm_box_id m)) xs
      | ByPhysicalSize \<Rightarrow> sort_key (\<lambda>m. (bm_physical_size_bytes m, bm_box_id m)) xs
      | ByVirtualSize \<Rightarrow> sort_key (\<lambda>m. (bm_virtual_size_bytes m, bm_box_id m)) xs
      | ById \<Rightarrow> sort_key bm_box_id xs)"

section \<open>Names of temporary files\<close>

definition all_digits :: "string \<Rightarrow> bool" where
  "all_digits v \<longleftrightarrow> v \<noteq> [] \<and> list_all (\<lambda>c. ascii_digit (code c)) v"

text \<open>\<^verbatim>\<open>rsplitn(3, '-')\<close>: what is behind the last dash, between the last two, and before them.\<close>

definition artifact_parts :: "string \<Rightarrow> string \<Rightarrow> (string \<times> string \<times> string) option" where
  "artifact_parts name start =
     (case strip_prefix start name of
        None \<Rightarrow> None
      | Some v \<Rightarrow>
          (case rsplit_once CHR ''-'' v of
             None \<Rightarrow> None
           | Some (v', sequence) \<Rightarrow>
               (case rsplit_once CHR ''-'' v' of
                  None \<Rightarrow> None
                | Some (identifier, process) \<Rightarrow> Some (identifier, process, sequence))))"

definition parse_box_artifact_name :: "(string \<Rightarrow> uuid option) \<Rightarrow> string \<Rightarrow> string \<Rightarrow> uuid option" where
  "parse_box_artifact_name parse name start =
     (case artifact_parts name start of
        None \<Rightarrow> None
      | Some (identifier, process, sequence) \<Rightarrow>
          if \<not> all_digits process \<or> \<not> all_digits sequence then None else parse identifier)"

definition is_reset_temporary_disk_name :: "string \<Rightarrow> bool" where
  "is_reset_temporary_disk_name name \<longleftrightarrow>
     (case strip_prefix (''.'' @ ROOT_DISK_FILE @ ''.'') name of
        None \<Rightarrow> False
      | Some v \<Rightarrow> (case strip_suffix ''.tmp'' v of None \<Rightarrow> False | Some sequence \<Rightarrow> all_digits sequence))"

definition is_atomic_metadata_temporary_name :: "string \<Rightarrow> bool" where
  "is_atomic_metadata_temporary_name name \<longleftrightarrow>
     (case strip_prefix (''.'' @ METADATA_FILE @ ''.'') name of
        None \<Rightarrow> False
      | Some v \<Rightarrow>
          (case strip_suffix ''.tmp'' v of
             None \<Rightarrow> False
           | Some v \<Rightarrow>
               (case split_on CHR ''.'' v of
                  [process_id, sequence] \<Rightarrow> parse_u32_ok process_id \<and> parse_u64 sequence \<noteq> None
                | _ \<Rightarrow> False)))"

end
