(* ===== verification/Box_Files.thy ===== *)
theory Box_Files
  imports Box_Metadata
begin

text \<open>
  The files of the box store (\<^verbatim>\<open>moraebox-box/src/lib.rs\<close>, \<^verbatim>\<open>disk.rs\<close>): managed directories, atomic metadata files,
  copies of disks, locks and the age of what is left over. Taking a lock is a call that may fail; a lock is held until
  the operation that took it returns.
\<close>

text \<open>Answers of \<^verbatim>\<open>lseek\<close> with \<^verbatim>\<open>SEEK_DATA\<close> and \<^verbatim>\<open>SEEK_HOLE\<close>.\<close>

datatype seek_answer = SeekAt nat | SeekNxio | SeekUnsupported disk_error | SeekError disk_error

record box_env = host_env +
  be_parse_uuid :: "string \<Rightarrow> uuid option"
  be_fresh_ids :: "uuid list"
  be_box_json :: "BoxMetadata \<Rightarrow> (bytes, string) result"
  be_parse_box :: "bytes \<Rightarrow> (BoxMetadata, string) result"
  be_seek_data :: "disk_path \<Rightarrow> nat \<Rightarrow> seek_answer"
  be_seek_hole :: "disk_path \<Rightarrow> nat \<Rightarrow> seek_answer"

type_synonym 'a box_op = "(disk, BoxStoreError, 'a) eff"

definition box_io :: "(disk, disk_error, 'a) eff \<Rightarrow> 'a box_op" where
  "box_io m s = (case m s of (r, s') \<Rightarrow> (map_err BseIo r, s'))"

definition reading :: "(entry \<Rightarrow> ('a, BoxStoreError) result) \<Rightarrow> 'a box_op" where
  "reading f s = (f (dk_root s), s)"

text \<open>A call whose result is ignored.\<close>

definition ignoring :: "('s, 'e, 'a) eff \<Rightarrow> ('s, 'e2, unit) eff" where
  "ignoring m s = (Ok (), snd (m s))"

text \<open>An operation that is followed by another when it fails; the failure is what is returned.\<close>

definition on_error :: "('s, 'e, 'a) eff \<Rightarrow> ('s, 'e, unit) eff \<Rightarrow> ('s, 'e, 'a) eff" where
  "on_error m cleanup s = (case m s of (Inr x, s') \<Rightarrow> (Inr x, s') | (Inl e, s') \<Rightarrow> (Inl e, snd (cleanup s')))"

section \<open>Directories and files\<close>

text \<open>\<^verbatim>\<open>Path::display\<close> of an absolute path.\<close>

definition display_path :: "disk_path \<Rightarrow> string" where
  "display_path p = concat (map (\<lambda>c. CHR ''/'' # c) p)"

definition validate_directory :: "'z host_env_scheme \<Rightarrow> disk_path \<Rightarrow> string \<Rightarrow> entry \<Rightarrow> (unit, BoxStoreError) result" where
  "validate_directory env p label root =
     and_then (map_err BseIo (fs_metadata env p root)) (\<lambda>n. if \<not> is_dir n then Err (BseUnsafeFileType label p) else Ok ())"

definition validate_regular_file :: "'z host_env_scheme \<Rightarrow> disk_path \<Rightarrow> string \<Rightarrow> entry \<Rightarrow> (unit, BoxStoreError) result" where
  "validate_regular_file env p label root =
     and_then (map_err BseIo (fs_metadata env p root)) (\<lambda>n. if \<not> is_file n then Err (BseUnsafeFileType label p) else Ok ())"

definition box_remove_managed_directory :: "'z host_env_scheme \<Rightarrow> disk_path \<Rightarrow> unit box_op" where
  "box_remove_managed_directory env p =
     bind_eff (reading (validate_directory env p ''managed directory'')) (\<lambda>_. box_io (fs_remove_dir_all env p))"

definition set_directory_permissions :: "'z host_env_scheme \<Rightarrow> disk_path \<Rightarrow> (disk, disk_error, unit) eff" where
  "set_directory_permissions env p = fs_set_permissions env p MODE_0700"

definition set_file_permissions :: "'z host_env_scheme \<Rightarrow> disk_path \<Rightarrow> (disk, disk_error, unit) eff" where
  "set_file_permissions env p = fs_set_permissions env p MODE_0600"

definition set_read_only :: "'z host_env_scheme \<Rightarrow> disk_path \<Rightarrow> (disk, disk_error, unit) eff" where
  "set_read_only env p = fs_set_permissions env p MODE_0400"

definition secure_directory :: "'z host_env_scheme \<Rightarrow> disk_path \<Rightarrow> unit box_op" where
  "secure_directory env p =
     bind_eff (box_io (fs_create_dir_all env p)) (\<lambda>_.
     bind_eff (reading (validate_directory env p ''managed directory'')) (\<lambda>_.
       box_io (set_directory_permissions env p)))"

definition sync_parent :: "'z host_env_scheme \<Rightarrow> disk_path \<Rightarrow> entry \<Rightarrow> (unit, disk_error) result" where
  "sync_parent env p root =
     (if p = [] then Err (DeOther ''path has no parent'') else sync_directory env (butlast p) root)"

definition syncing_parent :: "'z host_env_scheme \<Rightarrow> disk_path \<Rightarrow> unit box_op" where
  "syncing_parent env p = reading (\<lambda>root. map_err BseIo (sync_parent env p root))"

definition owner_uid :: "'z host_env_scheme \<Rightarrow> disk_path \<Rightarrow> entry \<Rightarrow> (nat option, BoxStoreError) result" where
  "owner_uid env p root = and_then (map_err BseIo (fs_stat env p root)) (\<lambda>n. Ok (Some (fi_uid (entry_info n))))"

definition allocated_size_bytes :: "'z host_env_scheme \<Rightarrow> disk_path \<Rightarrow> entry \<Rightarrow> (nat, BoxStoreError) result" where
  "allocated_size_bytes env p root =
     and_then (map_err BseIo (fs_stat env p root)) (\<lambda>n. Ok (min (fi_blocks (entry_info n) * 512) U64_MAX))"

definition file_length :: "'z host_env_scheme \<Rightarrow> disk_path \<Rightarrow> entry \<Rightarrow> (nat, BoxStoreError) result" where
  "file_length env p root = and_then (map_err BseIo (fs_stat env p root)) (\<lambda>n. Ok (entry_len n))"

definition now_unix_millis :: "'z host_env_scheme \<Rightarrow> (nat, BoxStoreError) result" where
  "now_unix_millis env =
     (if he_time env < 0 then Err BseClockBeforeUnixEpoch
      else let millis = nat (he_time env) div 1000000 in if millis > U64_MAX then Err BseClockOverflow else Ok millis)"

definition fetch_sequence :: "nat box_op" where
  "fetch_sequence s = (Ok (dk_sequence s), s\<lparr>dk_sequence := wrapping_add (dk_sequence s) 1\<rparr>)"

definition metadata_temporary :: "'z host_env_scheme \<Rightarrow> disk_path \<Rightarrow> nat \<Rightarrow> disk_path" where
  "metadata_temporary env p sequence =
     butlast p @ [''.'' @ (case to_str (last p) of Some name \<Rightarrow> name | None \<Rightarrow> ''metadata'') @ ''.'' @
       de_process env @ ''.'' @ decimal sequence @ ''.tmp'']"

text \<open>The new contents in a file of their own, written and synced.\<close>

definition write_temporary :: "'z host_env_scheme \<Rightarrow> disk_path \<Rightarrow> bytes \<Rightarrow> unit box_op" where
  "write_temporary env temporary content =
     bind_eff (box_io (fs_create_new env temporary)) (\<lambda>_.
     bind_eff (box_io (fs_write env temporary (content @ [10]))) (\<lambda>_.
     bind_eff (box_io (set_file_permissions env temporary)) (\<lambda>_.
       lift_eff (map_err BseIo (disk_try env CallSync temporary)))))"

definition box_write_json_atomic :: "'z host_env_scheme \<Rightarrow> disk_path \<Rightarrow> (bytes, string) result \<Rightarrow> unit box_op" where
  "box_write_json_atomic env p json =
     (if p = [] then lift_eff (Err (BseInvalidPath p))
      else
        bind_eff (reading (validate_directory env (butlast p) ''metadata parent'')) (\<lambda>_.
        bind_eff fetch_sequence (\<lambda>sequence.
          let temporary = metadata_temporary env p sequence in
          bind_eff (lift_eff (map_err BseJson json)) (\<lambda>content.
          bind_eff (write_temporary env temporary content) (\<lambda>_.
          bind_eff (box_io (fs_rename env temporary p)) (\<lambda>_.
            syncing_parent env p))))))"

section \<open>Copying a disk\<close>

text \<open>
  The contents of a copy are built on a file of zeros of the same length. \<open>copy_exact_range\<close> copies the bytes between two
  offsets; an extent that ends before it starts or behind the end of the source is refused.
\<close>

definition copy_exact_range :: "bytes \<Rightarrow> bytes \<Rightarrow> nat \<Rightarrow> nat \<Rightarrow> (bytes, disk_error) result" where
  "copy_exact_range source destination start stop =
     (if stop < start then Err (DeOther ''invalid sparse extent'')
      else if length source < stop then Err (DeOther ''source disk changed while copying a sparse extent'')
      else Ok (take start destination @ take (stop - start) (drop start source) @ drop stop destination))"

text \<open>
  The loop over the extents; \<open>fuel\<close> bounds its turns. \<^verbatim>\<open>false\<close> means that the file system knows no extents.
\<close>

fun copy_extents_from ::
    "(nat \<Rightarrow> seek_answer) \<Rightarrow> (nat \<Rightarrow> seek_answer) \<Rightarrow> bytes \<Rightarrow> nat \<Rightarrow> nat \<Rightarrow> bytes \<Rightarrow> nat \<Rightarrow> (bytes, disk_error) result" where
  "copy_extents_from seek_data seek_hole source len 0 destination data_offset = Err (DeOther ''no progress'')"
| "copy_extents_from seek_data seek_hole source len (Suc fuel) destination data_offset =
     (if \<not> data_offset < len then Ok destination
      else
        and_then (case seek_hole data_offset of
            SeekAt h \<Rightarrow> Ok (min h len)
          | SeekNxio \<Rightarrow> Err (DeOther ''seek'')
          | SeekUnsupported e \<Rightarrow> Err e
          | SeekError e \<Rightarrow> Err e) (\<lambda>hole_offset.
        and_then (copy_exact_range source destination data_offset hole_offset) (\<lambda>destination.
          if hole_offset \<ge> len then Ok destination
          else
            (case seek_data hole_offset of
               SeekAt d \<Rightarrow> copy_extents_from seek_data seek_hole source len fuel destination d
             | SeekNxio \<Rightarrow> Ok destination
             | SeekUnsupported e \<Rightarrow> Err e
             | SeekError e \<Rightarrow> Err e))))"

definition copy_sparse_extents ::
    "(nat \<Rightarrow> seek_answer) \<Rightarrow> (nat \<Rightarrow> seek_answer) \<Rightarrow> bytes \<Rightarrow> bytes \<Rightarrow> nat \<Rightarrow> (bytes option, disk_error) result" where
  "copy_sparse_extents seek_data seek_hole source destination len =
     (if len = 0 then Ok (Some destination)
      else
        (case seek_data 0 of
           SeekAt d \<Rightarrow> and_then (copy_extents_from seek_data seek_hole source len (Suc len) destination d) (\<lambda>x. Ok (Some x))
         | SeekNxio \<Rightarrow> Ok (Some destination)
         | SeekUnsupported _ \<Rightarrow> Ok None
         | SeekError e \<Rightarrow> Err e))"

definition COPY_BUFFER_SIZE :: nat where "COPY_BUFFER_SIZE = 1024 * 1024"

text \<open>The copy that reads everything and skips the buffers of zeros; both files are read and written at the same position.\<close>

function copy_zero_ranges_from :: "bytes \<Rightarrow> bytes \<Rightarrow> nat \<Rightarrow> nat \<Rightarrow> (bytes, disk_error) result" where
  "copy_zero_ranges_from source destination position remaining =
     (if remaining = 0 then Ok destination
      else
        let requested = min remaining COPY_BUFFER_SIZE;
            chunk = take requested (drop position source) in
        if length chunk < requested then Err (DeOther ''failed to fill whole buffer'')
        else
          copy_zero_ranges_from source
            (if list_all (\<lambda>b. b = 0) chunk then destination
             else take position destination @ chunk @ drop (position + requested) destination)
            (position + requested) (remaining - requested))"
  by pat_completeness auto
termination by (relation "measure (\<lambda>(_, _, _, remaining). remaining)") (auto simp: COPY_BUFFER_SIZE_def)

declare copy_zero_ranges_from.simps [simp del]

definition copy_sparse_zero_ranges :: "bytes \<Rightarrow> bytes \<Rightarrow> nat \<Rightarrow> (bytes, disk_error) result" where
  "copy_sparse_zero_ranges source destination len = copy_zero_ranges_from source destination 0 len"

text \<open>What \<^verbatim>\<open>sparse_copy\<close> writes into the new file.\<close>

definition sparse_content :: "box_env \<Rightarrow> disk_path \<Rightarrow> bytes \<Rightarrow> (bytes, disk_error) result" where
  "sparse_content env source content =
     (let len = length content; zeros = replicate len 0 in
      and_then (copy_sparse_extents (be_seek_data env source) (be_seek_hole env source) content zeros len) (\<lambda>copied.
        case copied of
          Some x \<Rightarrow> Ok x
        | None \<Rightarrow> copy_sparse_zero_ranges content zeros len))"

definition ensure_destination_absent :: "box_env \<Rightarrow> disk_path \<Rightarrow> entry \<Rightarrow> (unit, BoxStoreError) result" where
  "ensure_destination_absent env p root =
     (case fs_metadata env p root of
        Inr _ \<Rightarrow> Err (BseInvalidPath p)
      | Inl DeNotFound \<Rightarrow> Ok ()
      | Inl e \<Rightarrow> Err (BseIo e))"

text \<open>\<^verbatim>\<open>create_new\<close> for a copy: a file that exists is an invalid path.\<close>

definition create_destination :: "box_env \<Rightarrow> disk_path \<Rightarrow> unit box_op" where
  "create_destination env p s =
     (case fs_create_new env p s of
        (Inr _, s') \<Rightarrow> (Ok (), s')
      | (Inl DeAlreadyExists, s') \<Rightarrow> (Err (BseInvalidPath p), s')
      | (Inl e, s') \<Rightarrow> (Err (BseIo e), s'))"

text \<open>The source that the code opened and reads.\<close>

definition open_source :: "box_env \<Rightarrow> disk_path \<Rightarrow> entry \<Rightarrow> (bytes, BoxStoreError) result" where
  "open_source env p root =
     and_then (map_err BseIo (disk_try env CallOpen p)) (\<lambda>_.
     and_then (map_err BseIo (follow env p root)) (\<lambda>n.
       case n of EFile _ bs \<Rightarrow> Ok bs | _ \<Rightarrow> Err (BseIo (DeOther ''not a file''))))"

definition put_file :: "box_env \<Rightarrow> disk_path \<Rightarrow> bytes \<Rightarrow> unit box_op" where
  "put_file env p bs s = (Ok (), set_node p (Some (EFile (de_info env p) bs)) s)"

definition native_cow_clone :: "box_env \<Rightarrow> disk_path \<Rightarrow> disk_path \<Rightarrow> unit box_op" where
  "native_cow_clone env source destination =
     bind_eff (reading (ensure_destination_absent env destination)) (\<lambda>_.
     bind_eff (reading (open_source env source)) (\<lambda>content.
     bind_eff (create_destination env destination) (\<lambda>_.
       case de_fault env CallClone destination of
         Some _ \<Rightarrow>
           bind_eff (box_io (fs_remove_file env destination)) (\<lambda>_. lift_eff (Err (BseCowCloneUnavailable ''FICLONE failed'')))
       | None \<Rightarrow> put_file env destination content)))"

text \<open>An interrupted copy leaves other bytes behind, which are removed.\<close>

definition sparse_copy :: "box_env \<Rightarrow> disk_path \<Rightarrow> disk_path \<Rightarrow> unit box_op" where
  "sparse_copy env source destination =
     bind_eff (reading (ensure_destination_absent env destination)) (\<lambda>_.
     bind_eff (reading (open_source env source)) (\<lambda>content.
     bind_eff (create_destination env destination) (\<lambda>_.
       case and_then (disk_try env CallUpdate destination) (\<lambda>_. sparse_content env source content) of
         Inr copied \<Rightarrow> put_file env destination copied
       | Inl e \<Rightarrow>
           bind_eff (put_file env destination (de_garbage env destination)) (\<lambda>_.
           bind_eff (ignoring (fs_remove_file env destination)) (\<lambda>_. lift_eff (Err (BseIo e)))))))"

definition finish_disk_copy :: "box_env \<Rightarrow> disk_path \<Rightarrow> disk_path \<Rightarrow> string \<Rightarrow> unit box_op" where
  "finish_disk_copy env source destination source_label =
     bind_eff (reading (file_length env source)) (\<lambda>source_size.
     bind_eff (reading (file_length env destination)) (\<lambda>destination_size.
       if source_size \<noteq> destination_size then
         bind_eff (ignoring (fs_remove_file env destination)) (\<lambda>_.
           lift_eff (Err (BseCorruptStore (''copied disk size '' @ decimal destination_size @ '' does not match '' @
             source_label @ '' size '' @ decimal source_size))))
       else
         reading (\<lambda>root. map_err BseIo (and_then (fs_open env destination root) (\<lambda>_. disk_try env CallSync destination)))))"

definition copy_disk :: "box_env \<Rightarrow> disk_path \<Rightarrow> disk_path \<Rightarrow> unit box_op" where
  "copy_disk env source destination =
     bind_eff (reading (validate_regular_file env source ''source root disk'')) (\<lambda>_.
     bind_eff (reading (ensure_destination_absent env destination)) (\<lambda>_.
     bind_eff
       (\<lambda>s. case native_cow_clone env source destination s of
          (Inl (BseCowCloneUnavailable d), s') \<Rightarrow> sparse_copy env source destination s'
        | r \<Rightarrow> r) (\<lambda>_.
       on_error
         (bind_eff (finish_disk_copy env source destination ''source root disk'') (\<lambda>_.
            box_io (set_file_permissions env destination)))
         (ignoring (fs_remove_file env destination)))))"

section \<open>Locks and left-over files\<close>

datatype GarbageCollectionLock = Acquired | LockBusy

definition lock_error_is_contended :: "disk_error \<Rightarrow> bool" where
  "lock_error_is_contended e \<longleftrightarrow> e = DeWouldBlock"

definition garbage_collection_lock :: "'z host_env_scheme \<Rightarrow> disk_path \<Rightarrow> entry \<Rightarrow> (GarbageCollectionLock, BoxStoreError) result" where
  "garbage_collection_lock env directory root =
     and_then (validate_directory env directory ''garbage collection candidate'' root) (\<lambda>_.
       let lock_path = directory @ [LOCK_FILE] in
       case fs_open env lock_path root of
         Inl DeNotFound \<Rightarrow> Ok Acquired
       | Inl e \<Rightarrow> Err (BseIo e)
       | Inr _ \<Rightarrow>
           and_then (validate_regular_file env lock_path ''garbage collection lock'' root) (\<lambda>_.
             case de_fault env CallTryLock lock_path of
               None \<Rightarrow> Ok Acquired
             | Some e \<Rightarrow> if lock_error_is_contended e then Ok LockBusy else Err (BseIo e)))"

text \<open>A time of change in the future has no age, and then the candidate is not old.\<close>

definition garbage_collection_candidate_is_old ::
    "'z host_env_scheme \<Rightarrow> disk_path \<Rightarrow> duration \<Rightarrow> entry \<Rightarrow> (bool, BoxStoreError) result" where
  "garbage_collection_candidate_is_old env p minimum_age root =
     and_then (map_err BseIo (fs_metadata env p root)) (\<lambda>_.
     and_then (map_err BseIo (he_modified env p)) (\<lambda>modified.
       Ok (modified \<le> he_time env \<and> int minimum_age \<le> he_time env - modified)))"

definition collect_stale_directory ::
    "'z host_env_scheme \<Rightarrow> disk_path \<Rightarrow> duration \<Rightarrow> GarbageCollectionReport \<Rightarrow> GarbageCollectionReport box_op" where
  "collect_stale_directory env p minimum_age report =
     bind_eff (reading (validate_directory env p ''box garbage collection candidate'')) (\<lambda>_.
     bind_eff (reading (garbage_collection_candidate_is_old env p minimum_age)) (\<lambda>old.
       if \<not> old then lift_eff (Ok (report\<lparr>gc_skipped_young := gc_skipped_young report + 1\<rparr>))
       else
         bind_eff (reading (garbage_collection_lock env p)) (\<lambda>lock.
           case lock of
             Acquired \<Rightarrow>
               bind_eff (box_remove_managed_directory env p) (\<lambda>_.
               bind_eff (syncing_parent env p) (\<lambda>_.
                 lift_eff (Ok (report\<lparr>gc_removed := gc_removed report + 1\<rparr>))))
           | LockBusy \<Rightarrow> lift_eff (Ok (report\<lparr>gc_skipped_busy := gc_skipped_busy report + 1\<rparr>)))))"

end
