(* ===== verification/Box_Store.thy ===== *)
theory Box_Store
  imports Box_Files
begin

text \<open>
  The box store (\<^verbatim>\<open>moraebox-box/src/lib.rs\<close>): persistent root disks with their metadata in one directory per box. The
  state is the directory tree; a lease is a box whose lock is held. The store is the path of its root.
\<close>

record BoxStore =
  state_root :: disk_path

record BoxLease =
  bl_directory :: disk_path
  bl_disk_path :: disk_path
  bl_metadata :: BoxMetadata

definition lease_id :: "BoxLease \<Rightarrow> uuid" where
  "lease_id l = bm_box_id (bl_metadata l)"

record BoxPaths =
  bp_directory :: disk_path
  bp_metadata :: disk_path
  bp_disk :: disk_path
  bp_lock :: disk_path

definition boxes_directory :: "BoxStore \<Rightarrow> disk_path" where
  "boxes_directory store = state_root store @ [BOXES_DIRECTORY]"

definition box_directory :: "BoxStore \<Rightarrow> uuid \<Rightarrow> disk_path" where
  "box_directory store box_id = boxes_directory store @ [box_id]"

definition temporary_path :: "box_env \<Rightarrow> BoxStore \<Rightarrow> string \<Rightarrow> uuid \<Rightarrow> disk_path box_op" where
  "temporary_path env store operation box_id =
     bind_eff fetch_sequence (\<lambda>sequence.
       lift_eff (Ok (boxes_directory store @
         [''.'' @ operation @ ''-'' @ box_id @ ''-'' @ de_process env @ ''-'' @ decimal sequence])))"

definition ensure_root :: "'z host_env_scheme \<Rightarrow> disk_path \<Rightarrow> unit box_op" where
  "ensure_root env p s = (case ensure_private_storage_root env p s of (r, s') \<Rightarrow> (map_err BseStorageRoot r, s'))"

definition open_lock_file :: "'z host_env_scheme \<Rightarrow> disk_path \<Rightarrow> unit box_op" where
  "open_lock_file env p = bind_eff (box_io (fs_open_create env p)) (\<lambda>_. box_io (set_file_permissions env p))"

definition lock_metadata_index :: "box_env \<Rightarrow> BoxStore \<Rightarrow> unit box_op" where
  "lock_metadata_index env store =
     (let p = boxes_directory store @ [METADATA_LOCK_FILE] in
      bind_eff (open_lock_file env p) (\<lambda>_. lift_eff (map_err BseIo (disk_try env CallLock p))))"

section \<open>Reading metadata\<close>

definition migrated_metadata :: "BoxMetadata \<Rightarrow> BoxMetadata" where
  "migrated_metadata m =
     m\<lparr>bm_schema_version := BOX_SCHEMA_VERSION, bm_state := (if bm_state m = Ready then Dirty else bm_state m)\<rparr>"

definition read_box_metadata :: "box_env \<Rightarrow> disk_path \<Rightarrow> uuid \<Rightarrow> entry \<Rightarrow> (BoxMetadata \<times> bool, BoxStoreError) result" where
  "read_box_metadata env p expected_id root =
     and_then (map_err BseIo (fs_read_file env p root)) (\<lambda>bs.
     and_then (map_err (\<lambda>e. BseInvalidMetadata (display_path p @ '': '' @ e)) (be_parse_box env bs)) (\<lambda>v.
     and_then
       (if bm_schema_version v = BOX_SCHEMA_VERSION then Ok (v, False)
        else if bm_schema_version v = LEGACY_SCHEMA_VERSION \<or> bm_schema_version v = PREVIOUS_SCHEMA_VERSION then
          Ok (migrated_metadata v, True)
        else Err (BseUnsupportedSchema BOX_SCHEMA_VERSION (bm_schema_version v))) (\<lambda>(v, migrated).
       if bm_box_id v \<noteq> expected_id then
         Err (BseCorruptStore (''metadata at '' @ display_path p @ '' belongs to box '' @ bm_box_id v @ '' instead of '' @ expected_id))
       else if trim_ws (bm_manifest_digest v) = [] \<or> trim_ws (bm_platform v) = [] \<or> bm_virtual_size_bytes v = 0 then
         Err (BseInvalidMetadata (''required fields are missing in '' @ display_path p))
       else
         and_then (validate_optional_name (bm_name v)) (\<lambda>_.
         and_then (validate_labels (bm_labels v)) (\<lambda>_.
         and_then (validate_tags (bm_tags v)) (\<lambda>_.
           if p = [] then Err (BseInvalidPath p)
           else
             let disk = butlast p @ [ROOT_DISK_FILE] in
             and_then (file_length env disk root) (\<lambda>disk_size.
               if disk_size \<noteq> bm_virtual_size_bytes v then
                 Err (BseCorruptStore (''root disk size '' @ decimal disk_size @ '' does not match metadata virtual size '' @
                   decimal (bm_virtual_size_bytes v) @ '' for Box '' @ expected_id))
               else
                 and_then (allocated_size_bytes env disk root) (\<lambda>k.
                   Ok (v\<lparr>bm_physical_size_bytes := k\<rparr>, migrated)))))))))"

definition checked_paths :: "box_env \<Rightarrow> BoxStore \<Rightarrow> uuid \<Rightarrow> BoxPaths box_op" where
  "checked_paths env store box_id =
     bind_eff (ensure_root env (state_root store)) (\<lambda>_.
       let directory = box_directory store box_id;
           paths = \<lparr>bp_directory = directory, bp_metadata = directory @ [METADATA_FILE], bp_disk = directory @ [ROOT_DISK_FILE],
                    bp_lock = directory @ [LOCK_FILE]\<rparr> in
       reading (\<lambda>root.
         if \<not> fs_exists env directory root then Err (BseNotFound box_id)
         else
           and_then (validate_directory env directory ''box directory'' root) (\<lambda>_.
           and_then (validate_regular_file env (bp_metadata paths) ''box metadata'' root) (\<lambda>_.
           and_then (validate_regular_file env (bp_disk paths) ''box root disk'' root) (\<lambda>_.
           and_then (if fs_exists env (bp_lock paths) root then validate_regular_file env (bp_lock paths) ''box lock'' root else Ok ())
             (\<lambda>_. Ok paths))))))"

definition migrate_metadata_if_idle :: "box_env \<Rightarrow> BoxPaths \<Rightarrow> BoxMetadata \<Rightarrow> BoxMetadata box_op" where
  "migrate_metadata_if_idle env paths fallback =
     bind_eff (open_lock_file env (bp_lock paths)) (\<lambda>_.
       case de_fault env CallTryLock (bp_lock paths) of
         None \<Rightarrow>
           bind_eff (reading (read_box_metadata env (bp_metadata paths) (bm_box_id fallback))) (\<lambda>(m, migrated).
           bind_eff (if migrated then box_write_json_atomic env (bp_metadata paths) (be_box_json env m) else lift_eff (Ok ()))
             (\<lambda>_. lift_eff (Ok m)))
       | Some e \<Rightarrow> lift_eff (if lock_error_is_contended e then Ok fallback else Err (BseBusy (bm_box_id fallback) e)))"

definition box_get :: "box_env \<Rightarrow> BoxStore \<Rightarrow> uuid \<Rightarrow> BoxMetadata box_op" where
  "box_get env store box_id =
     bind_eff (checked_paths env store box_id) (\<lambda>paths.
     bind_eff (reading (read_box_metadata env (bp_metadata paths) box_id)) (\<lambda>(m, migrated).
       if migrated then migrate_metadata_if_idle env paths m else lift_eff (Ok m)))"

section \<open>Leases and the state of a box\<close>

definition try_acquire :: "box_env \<Rightarrow> BoxStore \<Rightarrow> uuid \<Rightarrow> BoxLease box_op" where
  "try_acquire env store box_id =
     bind_eff (checked_paths env store box_id) (\<lambda>paths.
     bind_eff (open_lock_file env (bp_lock paths)) (\<lambda>_.
     bind_eff (lift_eff (map_err (BseBusy box_id) (disk_try env CallTryLock (bp_lock paths)))) (\<lambda>_.
     bind_eff (reading (read_box_metadata env (bp_metadata paths) box_id)) (\<lambda>(m, migrated).
     bind_eff (if migrated then box_write_json_atomic env (bp_metadata paths) (be_box_json env m) else lift_eff (Ok ())) (\<lambda>_.
       if bm_state m = NeedsRepair then lift_eff (Err (BseNeedsRepair box_id))
       else
         bind_eff (reading (validate_regular_file env (bp_disk paths) ''box root disk'')) (\<lambda>_.
           lift_eff (Ok \<lparr>bl_directory = bp_directory paths, bl_disk_path = bp_disk paths, bl_metadata = m\<rparr>)))))))"

definition next_metadata :: "BoxState \<Rightarrow> bool \<Rightarrow> nat \<Rightarrow> BoxMetadata \<Rightarrow> BoxMetadata" where
  "next_metadata state mark_used now m =
     (let m = m\<lparr>bm_state := state, bm_updated_at_unix_ms := now\<rparr> in
      if mark_used then m\<lparr>bm_last_used_at_unix_ms := Some now\<rparr> else m)"

text \<open>The lease after the transition; it is the old one when the transition fails.\<close>

definition transition_state :: "box_env \<Rightarrow> BoxStore \<Rightarrow> BoxLease \<Rightarrow> BoxState \<Rightarrow> BoxState \<Rightarrow> bool \<Rightarrow> BoxLease box_op" where
  "transition_state env store lease expected state mark_used =
     (if bl_directory lease \<noteq> box_directory store (lease_id lease) then
        lift_eff (Err (BseCorruptStore ''box lease belongs to another store''))
      else if bm_state (bl_metadata lease) \<noteq> expected then
        lift_eff (Err (BseInvalidStateTransition (lease_id lease) expected (bm_state (bl_metadata lease)) state))
      else
        bind_eff (lift_eff (now_unix_millis env)) (\<lambda>now.
          let m = next_metadata state mark_used now (bl_metadata lease) in
          bind_eff (box_write_json_atomic env (bl_directory lease @ [METADATA_FILE]) (be_box_json env m)) (\<lambda>_.
            lift_eff (Ok (lease\<lparr>bl_metadata := m\<rparr>)))))"

definition begin_writable_use :: "box_env \<Rightarrow> BoxStore \<Rightarrow> BoxLease \<Rightarrow> BoxLease box_op" where
  "begin_writable_use env store lease = transition_state env store lease Ready Dirty True"

definition finish_clean_use :: "box_env \<Rightarrow> BoxStore \<Rightarrow> BoxLease \<Rightarrow> BoxLease box_op" where
  "finish_clean_use env store lease = transition_state env store lease Dirty Ready False"

definition finish_repair :: "box_env \<Rightarrow> BoxStore \<Rightarrow> BoxLease \<Rightarrow> BoxLease box_op" where
  "finish_repair env store lease = transition_state env store lease Dirty Ready False"

definition mark_needs_repair :: "box_env \<Rightarrow> BoxStore \<Rightarrow> BoxLease \<Rightarrow> BoxLease box_op" where
  "mark_needs_repair env store lease = transition_state env store lease Dirty NeedsRepair False"

section \<open>Creating, changing and deleting boxes\<close>

definition new_metadata :: "uuid \<Rightarrow> CreateBox \<Rightarrow> nat \<Rightarrow> nat option \<Rightarrow> nat \<Rightarrow> BoxMetadata" where
  "new_metadata box_id request now owner allocated =
     \<lparr>bm_schema_version = BOX_SCHEMA_VERSION, bm_box_id = box_id, bm_state = Ready,
      bm_manifest_digest = cb_manifest_digest request, bm_platform = cb_platform request, bm_disk_format = RawExt4,
      bm_virtual_size_bytes = cb_virtual_size_bytes request, bm_generation = 0, bm_created_at_unix_ms = now,
      bm_updated_at_unix_ms = now, bm_owner_uid = owner, bm_name = cb_name request, bm_labels = cb_labels request,
      bm_tags = cb_tags request, bm_last_used_at_unix_ms = None, bm_physical_size_bytes = allocated\<rparr>"

definition populate_staging :: "box_env \<Rightarrow> uuid \<Rightarrow> CreateBox \<Rightarrow> disk_path \<Rightarrow> disk_path \<Rightarrow> disk_path \<Rightarrow> BoxMetadata box_op" where
  "populate_staging env box_id request source_disk staging destination =
     (let lock = staging @ [LOCK_FILE]; disk = staging @ [ROOT_DISK_FILE] in
      bind_eff (box_io (fs_create_new env lock)) (\<lambda>_.
      bind_eff (box_io (set_file_permissions env lock)) (\<lambda>_.
      bind_eff (lift_eff (map_err BseIo (disk_try env CallLock lock))) (\<lambda>_.
      bind_eff (copy_disk env source_disk disk) (\<lambda>_.
      bind_eff (lift_eff (now_unix_millis env)) (\<lambda>now.
      bind_eff (reading (owner_uid env staging)) (\<lambda>owner.
      bind_eff (reading (allocated_size_bytes env disk)) (\<lambda>allocated.
        let m = new_metadata box_id request now owner allocated in
        bind_eff (box_write_json_atomic env (staging @ [METADATA_FILE]) (be_box_json env m)) (\<lambda>_.
        bind_eff (lift_eff (map_err BseIo (disk_try env CallSync lock))) (\<lambda>_.
        bind_eff (box_io (fs_rename env staging destination)) (\<lambda>_.
        bind_eff (syncing_parent env destination) (\<lambda>_.
          lift_eff (Ok m)))))))))))))"

text \<open>The staging directory is removed when it is there after a failure.\<close>

definition discard_staging :: "'z host_env_scheme \<Rightarrow> disk_path \<Rightarrow> unit box_op" where
  "discard_staging env staging =
     bind_eff (get_eff dk_root) (\<lambda>root.
       if is_ok (fs_metadata env staging root) then ignoring (box_remove_managed_directory env staging) else lift_eff (Ok ()))"

definition create_with_id :: "box_env \<Rightarrow> BoxStore \<Rightarrow> uuid \<Rightarrow> CreateBox \<Rightarrow> disk_path \<Rightarrow> BoxMetadata box_op" where
  "create_with_id env store box_id request source_disk =
     bind_eff (temporary_path env store ''creating'' box_id) (\<lambda>staging.
     bind_eff (get_eff dk_root) (\<lambda>root.
     bind_eff (if is_ok (fs_metadata env staging root) then box_remove_managed_directory env staging else lift_eff (Ok ())) (\<lambda>_.
     bind_eff (secure_directory env staging) (\<lambda>_.
       on_error (populate_staging env box_id request source_disk staging (box_directory store box_id))
         (discard_staging env staging)))))"

fun ensure_unique_in :: "box_env \<Rightarrow> BoxStore \<Rightarrow> string \<Rightarrow> uuid option \<Rightarrow> entry \<Rightarrow> (string \<times> entry) list \<Rightarrow> (unit, BoxStoreError) result" where
  "ensure_unique_in env store name except root [] = Ok ()"
| "ensure_unique_in env store name except root ((c, _) # es) =
     and_then (map_err BseIo (disk_try env CallEntry (boxes_directory store @ [c]))) (\<lambda>_.
       let continue = ensure_unique_in env store name except root es in
       case to_str c of
         None \<Rightarrow> continue
       | Some entry_name \<Rightarrow>
           (case be_parse_uuid env entry_name of
              None \<Rightarrow> continue
            | Some box_id \<Rightarrow>
                if Some box_id = except then continue
                else
                  (case read_box_metadata env (boxes_directory store @ [c, METADATA_FILE]) box_id root of
                     Inl _ \<Rightarrow> continue
                   | Inr (m, _) \<Rightarrow>
                       (case bm_name m of
                          Some existing \<Rightarrow>
                            if eq_ignore_ascii_case existing name then Err (BseNameConflict name) else continue
                        | None \<Rightarrow> continue))))"

definition ensure_unique_name :: "box_env \<Rightarrow> BoxStore \<Rightarrow> string option \<Rightarrow> uuid option \<Rightarrow> entry \<Rightarrow> (unit, BoxStoreError) result" where
  "ensure_unique_name env store name except root =
     (case name of
        None \<Rightarrow> Ok ()
      | Some name \<Rightarrow>
          and_then (map_err BseIo (fs_read_dir env (boxes_directory store) root)) (\<lambda>es.
            ensure_unique_in env store name except root es))"

text \<open>The loop that draws an identifier until its directory is free.\<close>

fun free_id :: "box_env \<Rightarrow> (uuid \<Rightarrow> disk_path) \<Rightarrow> uuid list \<Rightarrow> entry \<Rightarrow> (uuid, BoxStoreError) result" where
  "free_id env path [] root = Err BseNoFreshId"
| "free_id env path (i # ids) root = (if is_ok (fs_metadata env (path i) root) then free_id env path ids root else Ok i)"

definition box_create :: "box_env \<Rightarrow> BoxStore \<Rightarrow> CreateBox \<Rightarrow> disk_path \<Rightarrow> BoxMetadata box_op" where
  "box_create env store request source_disk =
     bind_eff (ensure_root env (state_root store)) (\<lambda>_.
     bind_eff (lift_eff (create_box_validate request)) (\<lambda>_.
     bind_eff (reading (validate_regular_file env source_disk ''source root disk'')) (\<lambda>_.
     bind_eff (reading (file_length env source_disk)) (\<lambda>source_size.
       if source_size \<noteq> cb_virtual_size_bytes request then
         lift_eff (Err (BseInvalidMetadata (''source root disk size '' @ decimal source_size @ '' does not match virtual size '' @
           decimal (cb_virtual_size_bytes request))))
       else
         bind_eff (secure_directory env (state_root store)) (\<lambda>_.
         bind_eff (secure_directory env (boxes_directory store)) (\<lambda>_.
         bind_eff (lock_metadata_index env store) (\<lambda>_.
         bind_eff (reading (ensure_unique_name env store (cb_name request) None)) (\<lambda>_.
         bind_eff (reading (free_id env (box_directory store) (be_fresh_ids env))) (\<lambda>box_id.
           create_with_id env store box_id request source_disk)))))))))"

definition clone_box :: "box_env \<Rightarrow> BoxStore \<Rightarrow> uuid \<Rightarrow> BoxMetadata box_op" where
  "clone_box env store source_id =
     bind_eff (try_acquire env store source_id) (\<lambda>source.
       let m = bl_metadata source;
           request = with_tags (bm_tags m) (with_labels (bm_labels m)
             (create_box_new (bm_manifest_digest m) (bm_platform m) (bm_virtual_size_bytes m))) in
       box_create env store request (bl_disk_path source))"

definition updated_metadata :: "UpdateBox \<Rightarrow> nat \<Rightarrow> BoxMetadata \<Rightarrow> BoxMetadata" where
  "updated_metadata u now m =
     m\<lparr>bm_name := (if ub_clear_name u then None else case ub_name u of Some name \<Rightarrow> Some name | None \<Rightarrow> bm_name m),
       bm_labels := btree_extend (fold btree_remove (ub_remove_labels u) (bm_labels m)) (ub_set_labels u),
       bm_tags := bset_extend (fold bset_remove (ub_remove_tags u) (bm_tags m)) (ub_add_tags u),
       bm_updated_at_unix_ms := now\<rparr>"

definition box_update :: "box_env \<Rightarrow> BoxStore \<Rightarrow> uuid \<Rightarrow> UpdateBox \<Rightarrow> BoxMetadata box_op" where
  "box_update env store box_id u =
     bind_eff (lift_eff (validate_update u)) (\<lambda>_.
     bind_eff (ensure_root env (state_root store)) (\<lambda>_.
     bind_eff (secure_directory env (boxes_directory store)) (\<lambda>_.
     bind_eff (lock_metadata_index env store) (\<lambda>_.
     bind_eff (reading (ensure_unique_name env store (ub_name u) (Some box_id))) (\<lambda>_.
     bind_eff (try_acquire env store box_id) (\<lambda>lease.
     bind_eff (lift_eff (now_unix_millis env)) (\<lambda>now.
       let m = updated_metadata u now (bl_metadata lease) in
       bind_eff (box_write_json_atomic env (bl_directory lease @ [METADATA_FILE]) (be_box_json env m)) (\<lambda>_.
         lift_eff (Ok m)))))))))"

definition box_rename :: "box_env \<Rightarrow> BoxStore \<Rightarrow> uuid \<Rightarrow> string \<Rightarrow> BoxMetadata box_op" where
  "box_rename env store box_id name = box_update env store box_id (update_box_default\<lparr>ub_name := Some name\<rparr>)"

definition box_delete :: "box_env \<Rightarrow> BoxStore \<Rightarrow> uuid \<Rightarrow> BoxMetadata box_op" where
  "box_delete env store box_id =
     bind_eff (try_acquire env store box_id) (\<lambda>lease.
     bind_eff (temporary_path env store ''deleted'' box_id) (\<lambda>tombstone.
     bind_eff (box_io (fs_rename env (bl_directory lease) tombstone)) (\<lambda>_.
     bind_eff (box_io (fs_remove_dir_all env tombstone)) (\<lambda>_.
       lift_eff (Ok (bl_metadata lease))))))"

definition reset_temporary :: "disk_path \<Rightarrow> nat \<Rightarrow> disk_path" where
  "reset_temporary directory sequence = directory @ [''.'' @ ROOT_DISK_FILE @ ''.'' @ decimal sequence @ ''.tmp'']"

definition box_reset :: "box_env \<Rightarrow> BoxStore \<Rightarrow> uuid \<Rightarrow> disk_path \<Rightarrow> BoxMetadata box_op" where
  "box_reset env store box_id source_disk =
     bind_eff (reading (validate_regular_file env source_disk ''source root disk'')) (\<lambda>_.
     bind_eff (try_acquire env store box_id) (\<lambda>lease.
     bind_eff (reading (file_length env source_disk)) (\<lambda>source_size.
       if source_size \<noteq> bm_virtual_size_bytes (bl_metadata lease) then
         lift_eff (Err (BseInvalidMetadata (''source root disk size '' @ decimal source_size @ '' does not match box virtual size '' @
           decimal (bm_virtual_size_bytes (bl_metadata lease)))))
       else
         bind_eff fetch_sequence (\<lambda>sequence.
           let replacement = reset_temporary (bl_directory lease) sequence in
           bind_eff (copy_disk env source_disk replacement) (\<lambda>_.
           bind_eff (box_io (fs_rename env replacement (bl_disk_path lease))) (\<lambda>_.
           bind_eff (reading (allocated_size_bytes env (bl_disk_path lease))) (\<lambda>allocated.
           bind_eff (lift_eff (now_unix_millis env)) (\<lambda>now.
             let m = (bl_metadata lease)\<lparr>bm_generation := saturating_add (bm_generation (bl_metadata lease)) 1,
                        bm_state := Ready, bm_physical_size_bytes := allocated, bm_updated_at_unix_ms := now\<rparr> in
             bind_eff (box_write_json_atomic env (bl_directory lease @ [METADATA_FILE]) (be_box_json env m)) (\<lambda>_.
               lift_eff (Ok m))))))))))"

section \<open>Listing, repair and garbage collection\<close>

record CorruptBoxEntry =
  ce_source :: disk_path
  ce_name :: string
  ce_error :: BoxEntryError

record BoxScan =
  bs_report :: BoxListReport
  bs_corrupt :: "CorruptBoxEntry list"
  bs_unaddressable :: "BoxEntryError list"

definition scan_default :: BoxScan where
  "scan_default = \<lparr>bs_report = \<lparr>lr_boxes = [], lr_errors = []\<rparr>, bs_corrupt = [], bs_unaddressable = []\<rparr>"

definition push_box_error :: "BoxEntryError \<Rightarrow> BoxScan \<Rightarrow> BoxScan" where
  "push_box_error e scan = scan\<lparr>bs_report := (bs_report scan)\<lparr>lr_errors := lr_errors (bs_report scan) @ [e]\<rparr>\<rparr>"

definition push_corrupt :: "disk_path \<Rightarrow> string \<Rightarrow> BoxEntryError \<Rightarrow> BoxScan \<Rightarrow> BoxScan" where
  "push_corrupt source name e scan =
     (push_box_error e scan)\<lparr>bs_corrupt := bs_corrupt scan @ [\<lparr>ce_source = source, ce_name = name, ce_error = e\<rparr>]\<rparr>"

definition push_unaddressable :: "BoxEntryError \<Rightarrow> BoxScan \<Rightarrow> BoxScan" where
  "push_unaddressable e scan = (push_box_error e scan)\<lparr>bs_unaddressable := bs_unaddressable scan @ [e]\<rparr>"

definition push_box :: "BoxMetadata \<Rightarrow> BoxScan \<Rightarrow> BoxScan" where
  "push_box m scan = scan\<lparr>bs_report := (bs_report scan)\<lparr>lr_boxes := lr_boxes (bs_report scan) @ [m]\<rparr>\<rparr>"

text \<open>A name that is not UTF-8 is reported by its bytes.\<close>

definition scan_entry :: "box_env \<Rightarrow> BoxStore \<Rightarrow> string \<Rightarrow> BoxScan \<Rightarrow> BoxScan box_op" where
  "scan_entry env store c scan =
     (let p = boxes_directory store @ [c] in
      case de_fault env CallEntry p of
        Some e \<Rightarrow>
          lift_eff (Ok (push_unaddressable
            \<lparr>ee_entry_name = ''<unreadable>'', ee_box_id = None, ee_code = CodeIo, ee_message = Inr (BseIo e)\<rparr> scan))
      | None \<Rightarrow>
          if starts_with ''.'' c then lift_eff (Ok scan)
          else
            (case to_str c of
               None \<Rightarrow>
                 lift_eff (Ok (push_corrupt p c
                   \<lparr>ee_entry_name = c, ee_box_id = None, ee_code = CodeInvalidName,
                    ee_message = Inl ''box directory name is not valid UTF-8''\<rparr> scan))
             | Some name \<Rightarrow>
                 (case be_parse_uuid env name of
                    None \<Rightarrow>
                      lift_eff (Ok (push_corrupt p c
                        \<lparr>ee_entry_name = name, ee_box_id = None, ee_code = CodeInvalidName,
                         ee_message = Inl (''invalid box directory name: '' @ name)\<rparr> scan))
                  | Some box_id \<Rightarrow>
                      (\<lambda>s. case box_get env store box_id s of
                         (Inr m, s') \<Rightarrow> (Ok (push_box m scan), s')
                       | (Inl e, s') \<Rightarrow> (Ok (push_corrupt p c (from_store_error name (Some box_id) e) scan), s')))))"

fun scan_entries :: "box_env \<Rightarrow> BoxStore \<Rightarrow> (string \<times> entry) list \<Rightarrow> BoxScan \<Rightarrow> BoxScan box_op" where
  "scan_entries env store [] scan = lift_eff (Ok scan)"
| "scan_entries env store ((c, _) # es) scan = bind_eff (scan_entry env store c scan) (\<lambda>scan. scan_entries env store es scan)"

definition sort_scan :: "BoxScan \<Rightarrow> BoxScan" where
  "sort_scan scan =
     scan\<lparr>bs_report := \<lparr>lr_boxes = sort_key bm_box_id (lr_boxes (bs_report scan)),
                         lr_errors = sort_key ee_entry_name (lr_errors (bs_report scan))\<rparr>\<rparr>"

definition box_scan :: "box_env \<Rightarrow> BoxStore \<Rightarrow> BoxScan box_op" where
  "box_scan env store =
     bind_eff (ensure_root env (state_root store)) (\<lambda>_.
     bind_eff (get_eff dk_root) (\<lambda>root.
       if \<not> fs_exists env (boxes_directory store) root then lift_eff (Ok scan_default)
       else
         bind_eff (reading (validate_directory env (boxes_directory store) ''box store'')) (\<lambda>_.
         bind_eff (reading (\<lambda>root. map_err BseIo (fs_read_dir env (boxes_directory store) root))) (\<lambda>es.
         bind_eff (scan_entries env store es scan_default) (\<lambda>scan.
           lift_eff (Ok (sort_scan scan)))))))"

definition list_with :: "box_env \<Rightarrow> BoxStore \<Rightarrow> BoxQuery \<Rightarrow> BoxListReport box_op" where
  "list_with env store query =
     bind_eff (lift_eff (validate_query query)) (\<lambda>_.
     bind_eff (box_scan env store) (\<lambda>scan.
       let boxes = sort_boxes (bq_sort_by query) (filter (query_matches query) (lr_boxes (bs_report scan))) in
       lift_eff (Ok ((bs_report scan)\<lparr>lr_boxes := (if bq_descending query then rev boxes else boxes)\<rparr>))))"

definition box_list :: "box_env \<Rightarrow> BoxStore \<Rightarrow> BoxListReport box_op" where
  "box_list env store = list_with env store box_query_default"

definition lock_for_quarantine :: "box_env \<Rightarrow> disk_path \<Rightarrow> uuid \<Rightarrow> unit box_op" where
  "lock_for_quarantine env directory box_id =
     bind_eff (reading (\<lambda>root. map_err BseIo (fs_metadata env directory root))) (\<lambda>n.
       if \<not> is_dir n then lift_eff (Ok ())
       else
         let p = directory @ [LOCK_FILE] in
         bind_eff (reading (\<lambda>root.
             case fs_metadata env p root of
               Inr l \<Rightarrow> if \<not> is_file l then Err (BseUnsafeFileType ''box lock'' p) else Ok ()
             | Inl _ \<Rightarrow> Ok ())) (\<lambda>_.
         bind_eff (open_lock_file env p) (\<lambda>_.
           lift_eff (map_err (BseBusy box_id) (disk_try env CallTryLock p)))))"

definition quarantine_entry :: "box_env \<Rightarrow> CorruptBoxEntry \<Rightarrow> disk_path \<Rightarrow> disk_path box_op" where
  "quarantine_entry env e batch =
     bind_eff (case ee_box_id (ce_error e) of Some box_id \<Rightarrow> lock_for_quarantine env (ce_source e) box_id | None \<Rightarrow> lift_eff (Ok ())) (\<lambda>_.
       let destination = batch @ [ce_name e] in
       bind_eff (get_eff dk_root) (\<lambda>root.
         if is_ok (fs_metadata env destination root) then lift_eff (Err (BseInvalidPath destination))
         else
           bind_eff (box_io (fs_rename env (ce_source e) destination)) (\<lambda>_.
           bind_eff (syncing_parent env (ce_source e)) (\<lambda>_.
           bind_eff (syncing_parent env destination) (\<lambda>_.
             lift_eff (Ok destination))))))"

fun quarantine_all :: "box_env \<Rightarrow> disk_path \<Rightarrow> CorruptBoxEntry list \<Rightarrow> BoxRepairReport \<Rightarrow> BoxRepairReport box_op" where
  "quarantine_all env batch [] report = lift_eff (Ok report)"
| "quarantine_all env batch (e # es) report = (\<lambda>s.
     case quarantine_entry env e batch s of
       (Inr destination, s') \<Rightarrow>
         quarantine_all env batch es (report\<lparr>rr_quarantined := rr_quarantined report @
           [\<lparr>qe_entry_name = ee_entry_name (ce_error e), qe_box_id = ee_box_id (ce_error e), qe_destination = destination\<rparr>]\<rparr>) s'
     | (Inl err, s') \<Rightarrow>
         quarantine_all env batch es (report\<lparr>rr_failures := rr_failures report @
           [from_store_error (ee_entry_name (ce_error e)) (ee_box_id (ce_error e)) err]\<rparr>) s')"

definition box_repair :: "box_env \<Rightarrow> BoxStore \<Rightarrow> bool \<Rightarrow> BoxRepairReport box_op" where
  "box_repair env store apply_changes =
     bind_eff (box_scan env store) (\<lambda>scan.
       let report = \<lparr>rr_applied = apply_changes, rr_detected = lr_errors (bs_report scan), rr_quarantined = [],
                     rr_failures = bs_unaddressable scan\<rparr> in
       if \<not> apply_changes \<or> bs_corrupt scan = [] then lift_eff (Ok report)
       else
         let quarantine_root = state_root store @ [''quarantine''] in
         bind_eff (secure_directory env quarantine_root) (\<lambda>_.
         bind_eff (lift_eff (now_unix_millis env)) (\<lambda>now.
         bind_eff fetch_sequence (\<lambda>sequence.
           let batch = quarantine_root @ [''boxes-'' @ decimal now @ ''-'' @ de_process env @ ''-'' @ decimal sequence] in
           bind_eff (secure_directory env batch) (\<lambda>_.
             quarantine_all env batch (bs_corrupt scan) report)))))"

fun stale_temporaries ::
    "box_env \<Rightarrow> disk_path \<Rightarrow> duration \<Rightarrow> entry \<Rightarrow> (string \<times> entry) list \<Rightarrow> (disk_path list \<times> nat, BoxStoreError) result" where
  "stale_temporaries env directory minimum_age root [] = Ok ([], 0)"
| "stale_temporaries env directory minimum_age root ((c, _) # es) =
     and_then (map_err BseIo (disk_try env CallEntry (directory @ [c]))) (\<lambda>_.
       if to_str c = None \<or> (\<not> is_reset_temporary_disk_name c \<and> \<not> is_atomic_metadata_temporary_name c) then
         stale_temporaries env directory minimum_age root es
       else
         let p = directory @ [c] in
         and_then (validate_regular_file env p ''box temporary file'' root) (\<lambda>_.
         and_then (garbage_collection_candidate_is_old env p minimum_age root) (\<lambda>old.
         and_then (stale_temporaries env directory minimum_age root es) (\<lambda>(stale, young).
           Ok (if old then (p # stale, young) else (stale, young + 1))))))"

fun remove_stale :: "box_env \<Rightarrow> disk_path list \<Rightarrow> GarbageCollectionReport \<Rightarrow> GarbageCollectionReport box_op" where
  "remove_stale env [] report = lift_eff (Ok report)"
| "remove_stale env (p # ps) report =
     bind_eff (box_io (fs_remove_file env p)) (\<lambda>_.
     bind_eff (syncing_parent env p) (\<lambda>_.
       remove_stale env ps (report\<lparr>gc_removed := gc_removed report + 1\<rparr>)))"

definition collect_box_temporary_files ::
    "box_env \<Rightarrow> disk_path \<Rightarrow> duration \<Rightarrow> GarbageCollectionReport \<Rightarrow> GarbageCollectionReport box_op" where
  "collect_box_temporary_files env directory minimum_age report =
     bind_eff (reading (validate_directory env directory ''box directory'')) (\<lambda>_.
     bind_eff (reading (\<lambda>root. map_err BseIo (fs_read_dir env directory root))) (\<lambda>es.
     bind_eff (reading (\<lambda>root. stale_temporaries env directory minimum_age root es)) (\<lambda>(stale, young).
       let report = report\<lparr>gc_skipped_young := gc_skipped_young report + young\<rparr> in
       if stale = [] then lift_eff (Ok report)
       else
         bind_eff (reading (garbage_collection_lock env directory)) (\<lambda>lock.
           case lock of
             Acquired \<Rightarrow> remove_stale env stale report
           | LockBusy \<Rightarrow> lift_eff (Ok (report\<lparr>gc_skipped_busy := gc_skipped_busy report + length stale\<rparr>))))))"

fun collect_entries ::
    "box_env \<Rightarrow> BoxStore \<Rightarrow> duration \<Rightarrow> (string \<times> entry) list \<Rightarrow> GarbageCollectionReport \<Rightarrow> GarbageCollectionReport box_op" where
  "collect_entries env store minimum_age [] report = lift_eff (Ok report)"
| "collect_entries env store minimum_age ((c, _) # es) report =
     bind_eff (lift_eff (map_err BseIo (disk_try env CallEntry (boxes_directory store @ [c])))) (\<lambda>_.
       let p = boxes_directory store @ [c] in
       bind_eff
         (if to_str c = None then lift_eff (Ok report)
          else if parse_box_artifact_name (be_parse_uuid env) c ''.creating-'' \<noteq> None \<or>
                  parse_box_artifact_name (be_parse_uuid env) c ''.deleted-'' \<noteq> None then
            collect_stale_directory env p minimum_age report
          else if be_parse_uuid env c \<noteq> None then collect_box_temporary_files env p minimum_age report
          else lift_eff (Ok report)) (\<lambda>report.
         collect_entries env store minimum_age es report))"

definition garbage_collect_older_than :: "box_env \<Rightarrow> BoxStore \<Rightarrow> duration \<Rightarrow> GarbageCollectionReport box_op" where
  "garbage_collect_older_than env store minimum_age =
     bind_eff (ensure_root env (state_root store)) (\<lambda>_.
     bind_eff (get_eff dk_root) (\<lambda>root.
       if \<not> fs_exists env (boxes_directory store) root then lift_eff (Ok gc_default)
       else
         bind_eff (reading (validate_directory env (boxes_directory store) ''box store'')) (\<lambda>_.
         bind_eff (reading (\<lambda>root. map_err BseIo (fs_read_dir env (boxes_directory store) root))) (\<lambda>es.
           collect_entries env store minimum_age es gc_default))))"

definition garbage_collect :: "box_env \<Rightarrow> BoxStore \<Rightarrow> GarbageCollectionReport box_op" where
  "garbage_collect env store = garbage_collect_older_than env store DEFAULT_GC_MIN_AGE"

end
