(* ===== verification/Box_Run.thy ===== *)
theory Box_Run
  imports Box_Store
begin

text \<open>
  How a run uses a persistent box (\<^verbatim>\<open>moraebox-runtime/src/libkrun.rs\<close>, \<^verbatim>\<open>libkrun/root.rs\<close>): the lease, the repair of a box that
  was not shut down cleanly, the mark before the guest gets the disk, and what happens when the helper exits. The
  program \<^verbatim>\<open>e2fsck\<close> and the deadline of the run are parameters.
\<close>

text \<open>
  What became of \<^verbatim>\<open>e2fsck -p\<close>: it is missing or cannot be started, it was killed when the deadline passed, or it ended with a
  status; in the last two cases it left new contents of the disk.
\<close>

datatype fsck_outcome = FsckMissing | FsckNotStarted disk_error | FsckKilled bytes | FsckEnded "int option" bytes

datatype PrepareError = PreStore BoxStoreError | PreControl string | PreIo disk_error | PreTimeout

text \<open>A stage under the budget starts too late, ends too late, or is in time.\<close>

datatype stage_time = TooLate | EndsLate | InTime

definition store_op :: "'a box_op \<Rightarrow> (disk, PrepareError, 'a) eff" where
  "store_op m s = (case m s of (r, s') \<Rightarrow> (map_err PreStore r, s'))"

text \<open>The program works on the disk of the box in place.\<close>

definition rewrite_disk :: "disk_path \<Rightarrow> bytes \<Rightarrow> disk \<Rightarrow> disk" where
  "rewrite_disk p bs s = (case node_at p (dk_root s) of Inr (EFile i _) \<Rightarrow> set_node p (Some (EFile i bs)) s | _ \<Rightarrow> s)"

definition repaired :: "int option \<Rightarrow> bool" where
  "repaired status \<longleftrightarrow> status = Some 0 \<or> status = Some 1"

definition repair_dirty_box :: "box_env \<Rightarrow> BoxStore \<Rightarrow> fsck_outcome \<Rightarrow> BoxLease \<Rightarrow> (disk, PrepareError, BoxLease) eff" where
  "repair_dirty_box env store fsck lease s =
     (case fsck of
        FsckMissing \<Rightarrow> (Err (PreControl ''dirty Box requires e2fsck''), s)
      | FsckNotStarted e \<Rightarrow> (Err (PreIo e), s)
      | FsckKilled bs \<Rightarrow> (Err PreTimeout, rewrite_disk (bl_disk_path lease) bs s)
      | FsckEnded status bs \<Rightarrow>
          (let s = rewrite_disk (bl_disk_path lease) bs s in
           if repaired status then store_op (finish_repair env store lease) s
           else
             bind_eff (store_op (mark_needs_repair env store lease)) (\<lambda>_.
               lift_eff (Err (PreControl ''e2fsck could not repair Box''))) s))"

definition acquire_in_budget :: "box_env \<Rightarrow> BoxStore \<Rightarrow> stage_time \<Rightarrow> uuid \<Rightarrow> (disk, PrepareError, BoxLease) eff" where
  "acquire_in_budget env store lock_time box_id =
     (case lock_time of
        TooLate \<Rightarrow> lift_eff (Err PreTimeout)
      | EndsLate \<Rightarrow> bind_eff (ignoring (try_acquire env store box_id)) (\<lambda>_. lift_eff (Err PreTimeout))
      | InTime \<Rightarrow> store_op (try_acquire env store box_id))"

definition prepare_persistent_root ::
    "box_env \<Rightarrow> BoxStore \<Rightarrow> stage_time \<Rightarrow> fsck_outcome \<Rightarrow> uuid \<Rightarrow> (disk, PrepareError, BoxLease) eff" where
  "prepare_persistent_root env store lock_time fsck box_id =
     bind_eff (acquire_in_budget env store lock_time box_id) (\<lambda>lease.
     bind_eff (if bm_state (bl_metadata lease) = Dirty then repair_dirty_box env store fsck lease else lift_eff (Ok lease)) (\<lambda>lease.
       store_op (begin_writable_use env store lease)))"

definition finish_clean :: "box_env \<Rightarrow> BoxStore \<Rightarrow> fsck_outcome \<Rightarrow> BoxLease \<Rightarrow> (disk, PrepareError, unit) eff" where
  "finish_clean env store fsck lease = bind_eff (repair_dirty_box env store fsck lease) (\<lambda>_. lift_eff (Ok ()))"

text \<open>How a process ended: its exit code, or the signal that ended it.\<close>

datatype exit_status = ExitCode int | ExitSignal int

definition helper_exit_is_clean :: "exit_status \<Rightarrow> bool" where
  "helper_exit_is_clean status = (case status of ExitCode c \<Rightarrow> c \<noteq> 125 \<and> c \<noteq> 137 | ExitSignal _ \<Rightarrow> False)"

text \<open>The part of \<^verbatim>\<open>managed_exit\<close> that concerns the box; \<open>None\<close> is a helper that could not be waited for.\<close>

definition root_cleanup :: "box_env \<Rightarrow> BoxStore \<Rightarrow> fsck_outcome \<Rightarrow> exit_status option \<Rightarrow> BoxLease \<Rightarrow> (disk, PrepareError, unit) eff" where
  "root_cleanup env store fsck status lease =
     (case status of
        Some st \<Rightarrow> if helper_exit_is_clean st then finish_clean env store fsck lease else lift_eff (Ok ())
      | None \<Rightarrow> lift_eff (Ok ()))"

end
