(* ===== verification/Base_Disk.thy ===== *)
theory Base_Disk
  imports Box_Run
begin

text \<open>
  The stores of base and ephemeral disks (\<^verbatim>\<open>moraebox-box/src/disk.rs\<close>): one immutable file system image per image, platform
  and size in the cache, and the copy-on-write clone that a session works on and that is removed at its end. The
  hash, the serializer, the parser of session identifiers and the program \<^verbatim>\<open>mke2fs\<close> are parameters. The counter for
  temporary names is that of the box store; the code has one of its own.
\<close>

section \<open>Base disks\<close>

record BaseDiskSpec =
  ds_manifest_digest :: string
  ds_platform :: string
  ds_virtual_size_bytes :: nat

record BaseDiskMetadata =
  dm_schema_version :: nat
  dm_layout_version :: nat
  dm_key :: string
  dm_manifest_digest :: string
  dm_platform :: string
  dm_disk_format :: BoxDiskFormat
  dm_virtual_size_bytes :: nat
  dm_created_at_unix_ms :: nat

record BaseDisk =
  dd_metadata :: BaseDiskMetadata
  dd_disk_path :: disk_path

record BaseDiskStore =
  cache_root :: disk_path

record base_codec =
  bc_json :: "BaseDiskMetadata \<Rightarrow> (bytes, string) result"
  bc_parse :: "bytes \<Rightarrow> (BaseDiskMetadata, string) result"
  bc_sha :: "bytes \<Rightarrow> bytes"
  bc_parse_session :: "string \<Rightarrow> uuid option"

definition BASE_DISK_LAYOUT_VERSION :: nat where "BASE_DISK_LAYOUT_VERSION = 1"
definition BASES_DIRECTORY :: disk_path where "BASES_DIRECTORY = [''box-bases'', ''v1'', ''sha256'']"
definition EPHEMERAL_DIRECTORY :: string where "EPHEMERAL_DIRECTORY = ''ephemeral-boxes''"
definition LOCKS_DIRECTORY :: string where "LOCKS_DIRECTORY = ''.locks''"

definition to_hex :: "bytes \<Rightarrow> string" where
  "to_hex bs = concat (map (\<lambda>b. [''0123456789abcdef'' ! unat (drop_bit 4 b), ''0123456789abcdef'' ! (unat b mod 16)]) bs)"

definition base_spec_validate :: "BaseDiskSpec \<Rightarrow> (unit, BoxStoreError) result" where
  "base_spec_validate spec =
     (if trim_ws (ds_manifest_digest spec) = [] then Err (BseInvalidMetadata ''base disk manifest digest must not be empty'')
      else if trim_ws (ds_platform spec) = [] then Err (BseInvalidMetadata ''base disk platform must not be empty'')
      else if ds_virtual_size_bytes spec = 0 then Err (BseInvalidMetadata ''base disk virtual size must be greater than zero'')
      else Ok ())"

definition key_input :: "BaseDiskSpec \<Rightarrow> bytes" where
  "key_input spec =
     concat (map (\<lambda>v. bytes_of_str v @ [0])
       [decimal BASE_DISK_LAYOUT_VERSION, ds_manifest_digest spec, ds_platform spec, decimal (ds_virtual_size_bytes spec), ''raw_ext4''])"

definition base_spec_key :: "base_codec \<Rightarrow> BaseDiskSpec \<Rightarrow> (string, BoxStoreError) result" where
  "base_spec_key codec spec = and_then (base_spec_validate spec) (\<lambda>_. Ok (to_hex (bc_sha codec (key_input spec))))"

definition bases_directory :: "BaseDiskStore \<Rightarrow> disk_path" where
  "bases_directory store = cache_root store @ BASES_DIRECTORY"

definition base_directory :: "BaseDiskStore \<Rightarrow> string \<Rightarrow> disk_path" where
  "base_directory store key = bases_directory store @ [key]"

definition validate_base_metadata :: "BaseDiskMetadata \<Rightarrow> BaseDiskSpec \<Rightarrow> string \<Rightarrow> (unit, BoxStoreError) result" where
  "validate_base_metadata m spec expected_key =
     (if dm_schema_version m \<noteq> 1 \<or> dm_layout_version m \<noteq> BASE_DISK_LAYOUT_VERSION \<or> dm_key m \<noteq> expected_key \<or>
         dm_manifest_digest m \<noteq> ds_manifest_digest spec \<or> dm_platform m \<noteq> ds_platform spec \<or> dm_disk_format m \<noteq> RawExt4 \<or>
         dm_virtual_size_bytes m \<noteq> ds_virtual_size_bytes spec then
        Err (BseInvalidMetadata (''base disk metadata does not match key '' @ expected_key))
      else Ok ())"

definition base_get :: "box_env \<Rightarrow> base_codec \<Rightarrow> BaseDiskStore \<Rightarrow> BaseDiskSpec \<Rightarrow> BaseDisk option box_op" where
  "base_get env codec store spec =
     bind_eff (ensure_root env (cache_root store)) (\<lambda>_.
     bind_eff (lift_eff (base_spec_key codec spec)) (\<lambda>key.
       let directory = base_directory store key; metadata_path = directory @ [METADATA_FILE]; disk_path = directory @ [ROOT_DISK_FILE] in
       reading (\<lambda>root.
         if \<not> fs_exists env directory root then Ok None
         else
           and_then (validate_directory env directory ''base disk directory'' root) (\<lambda>_.
           and_then (validate_regular_file env metadata_path ''base disk metadata'' root) (\<lambda>_.
           and_then (validate_regular_file env disk_path ''base root disk'' root) (\<lambda>_.
           and_then (map_err BseIo (fs_read_file env metadata_path root)) (\<lambda>bs.
           and_then (map_err BseJson (bc_parse codec bs)) (\<lambda>m.
           and_then (validate_base_metadata m spec key) (\<lambda>_.
           and_then (file_length env disk_path root) (\<lambda>len.
             if len \<noteq> ds_virtual_size_bytes spec then
               Err (BseCorruptStore (''base disk size does not match metadata at '' @ display_path disk_path))
             else Ok (Some \<lparr>dd_metadata = m, dd_disk_path = disk_path\<rparr>)))))))))))"

definition base_lock_path :: "BaseDiskStore \<Rightarrow> string \<Rightarrow> disk_path" where
  "base_lock_path store key = bases_directory store @ [LOCKS_DIRECTORY, key @ ''.lock'']"

definition open_base_lock :: "box_env \<Rightarrow> BaseDiskStore \<Rightarrow> string \<Rightarrow> unit box_op" where
  "open_base_lock env store key =
     bind_eff (secure_directory env (bases_directory store @ [LOCKS_DIRECTORY])) (\<lambda>_. open_lock_file env (base_lock_path store key))"

text \<open>What became of \<^verbatim>\<open>mke2fs\<close>: it could not be started, or it ended with a status, its messages and these contents of the disk.\<close>

datatype mke2fs_outcome = MkNotStarted disk_error | MkEnded "int option" string bytes

definition run_mke2fs :: "mke2fs_outcome \<Rightarrow> disk_path \<Rightarrow> unit box_op" where
  "run_mke2fs outcome disk s =
     (case outcome of
        MkNotStarted e \<Rightarrow> (Err (BseIo e), s)
      | MkEnded status stderr bs \<Rightarrow>
          (if status = Some 0 then Ok () else Err (BseMke2fs status (trim_ws stderr)), rewrite_disk disk bs s))"

definition base_metadata :: "BaseDiskSpec \<Rightarrow> string \<Rightarrow> nat \<Rightarrow> BaseDiskMetadata" where
  "base_metadata spec key now =
     \<lparr>dm_schema_version = 1, dm_layout_version = BASE_DISK_LAYOUT_VERSION, dm_key = key, dm_manifest_digest = ds_manifest_digest spec,
      dm_platform = ds_platform spec, dm_disk_format = RawExt4, dm_virtual_size_bytes = ds_virtual_size_bytes spec,
      dm_created_at_unix_ms = now\<rparr>"

definition populate_base ::
    "box_env \<Rightarrow> base_codec \<Rightarrow> BaseDiskSpec \<Rightarrow> string \<Rightarrow> mke2fs_outcome \<Rightarrow> disk_path \<Rightarrow> disk_path \<Rightarrow> BaseDisk box_op" where
  "populate_base env codec spec key outcome staging destination =
     (let disk = staging @ [ROOT_DISK_FILE] in
      bind_eff (box_io (fs_create_new env disk)) (\<lambda>_.
      bind_eff (lift_eff (map_err BseIo (disk_try env CallUpdate disk))) (\<lambda>_.
      bind_eff (put_file env disk (replicate (ds_virtual_size_bytes spec) 0)) (\<lambda>_.
      bind_eff (lift_eff (map_err BseIo (disk_try env CallSync disk))) (\<lambda>_.
      bind_eff (run_mke2fs outcome disk) (\<lambda>_.
      bind_eff (reading (file_length env disk)) (\<lambda>len.
        if len \<noteq> ds_virtual_size_bytes spec then
          lift_eff (Err (BseCorruptStore (''mke2fs changed the virtual disk size at '' @ display_path disk)))
        else
          bind_eff (box_io (set_read_only env disk)) (\<lambda>_.
          bind_eff (lift_eff (now_unix_millis env)) (\<lambda>now.
            let m = base_metadata spec key now in
            bind_eff (box_write_json_atomic env (staging @ [METADATA_FILE]) (bc_json codec m)) (\<lambda>_.
            bind_eff (box_io (fs_rename env staging destination)) (\<lambda>_.
            bind_eff (syncing_parent env destination) (\<lambda>_.
              lift_eff (Ok \<lparr>dd_metadata = m, dd_disk_path = destination @ [ROOT_DISK_FILE]\<rparr>)))))))))))))"

text \<open>The staging directory is removed when it is still there after a failure; the test follows links.\<close>

definition discard_existing :: "box_env \<Rightarrow> disk_path \<Rightarrow> unit box_op" where
  "discard_existing env staging =
     bind_eff (get_eff dk_root) (\<lambda>root.
       if fs_exists env staging root then ignoring (box_remove_managed_directory env staging) else lift_eff (Ok ()))"

definition create_base ::
    "box_env \<Rightarrow> base_codec \<Rightarrow> BaseDiskStore \<Rightarrow> BaseDiskSpec \<Rightarrow> string \<Rightarrow> mke2fs_outcome \<Rightarrow> BaseDisk box_op" where
  "create_base env codec store spec key outcome =
     bind_eff fetch_sequence (\<lambda>sequence.
       let staging = bases_directory store @ [''.creating-'' @ key @ ''-'' @ de_process env @ ''-'' @ decimal sequence] in
       bind_eff (get_eff dk_root) (\<lambda>root.
       bind_eff (if fs_exists env staging root then box_remove_managed_directory env staging else lift_eff (Ok ())) (\<lambda>_.
       bind_eff (secure_directory env staging) (\<lambda>_.
         on_error (populate_base env codec spec key outcome staging (base_directory store key)) (discard_existing env staging)))))"

definition base_prepare ::
    "box_env \<Rightarrow> base_codec \<Rightarrow> BaseDiskStore \<Rightarrow> BaseDiskSpec \<Rightarrow> disk_path \<Rightarrow> mke2fs_outcome \<Rightarrow> BaseDisk box_op" where
  "base_prepare env codec store spec rootfs outcome =
     bind_eff (ensure_root env (cache_root store)) (\<lambda>_.
     bind_eff (lift_eff (base_spec_validate spec)) (\<lambda>_.
     bind_eff (reading (validate_directory env rootfs ''materialized rootfs'')) (\<lambda>_.
     bind_eff (base_get env codec store spec) (\<lambda>found.
       case found of
         Some base \<Rightarrow> lift_eff (Ok base)
       | None \<Rightarrow>
           bind_eff (lift_eff (base_spec_key codec spec)) (\<lambda>key.
           bind_eff (secure_directory env (bases_directory store)) (\<lambda>_.
           bind_eff (open_base_lock env store key) (\<lambda>_.
           bind_eff (lift_eff (map_err (BseBaseDiskBusy (base_lock_path store key)) (disk_try env CallLock (base_lock_path store key)))) (\<lambda>_.
           bind_eff (base_get env codec store spec) (\<lambda>found.
             case found of
               Some base \<Rightarrow> lift_eff (Ok base)
             | None \<Rightarrow> create_base env codec store spec key outcome)))))))))"

section \<open>Names of staging directories\<close>

definition parse_generated_artifact_name :: "string \<Rightarrow> string \<Rightarrow> string option" where
  "parse_generated_artifact_name name start =
     (case artifact_parts name start of
        None \<Rightarrow> None
      | Some (identifier, process, sequence) \<Rightarrow>
          if identifier \<noteq> [] \<and> all_digits process \<and> all_digits sequence then Some identifier else None)"

definition parse_base_staging_name :: "string \<Rightarrow> string option" where
  "parse_base_staging_name name =
     (case parse_generated_artifact_name name ''.creating-'' of
        None \<Rightarrow> None
      | Some key \<Rightarrow> if length key = 64 \<and> list_all (\<lambda>c. ascii_hexdigit (code c)) key then Some key else None)"

definition parse_session_artifact_name :: "(string \<Rightarrow> uuid option) \<Rightarrow> string \<Rightarrow> string \<Rightarrow> uuid option" where
  "parse_session_artifact_name parse name start =
     (case parse_generated_artifact_name name start of None \<Rightarrow> None | Some v \<Rightarrow> parse v)"

definition collect_base_staging ::
    "box_env \<Rightarrow> BaseDiskStore \<Rightarrow> duration \<Rightarrow> disk_path \<Rightarrow> string \<Rightarrow> GarbageCollectionReport \<Rightarrow> GarbageCollectionReport box_op" where
  "collect_base_staging env store minimum_age candidate key report =
     bind_eff (reading (validate_directory env candidate ''base disk staging directory'')) (\<lambda>_.
     bind_eff (reading (garbage_collection_candidate_is_old env candidate minimum_age)) (\<lambda>old.
       if \<not> old then lift_eff (Ok (report\<lparr>gc_skipped_young := gc_skipped_young report + 1\<rparr>))
       else
         bind_eff (open_base_lock env store key) (\<lambda>_.
           case de_fault env CallTryLock (base_lock_path store key) of
             None \<Rightarrow>
               bind_eff (box_remove_managed_directory env candidate) (\<lambda>_.
               bind_eff (syncing_parent env candidate) (\<lambda>_.
                 lift_eff (Ok (report\<lparr>gc_removed := gc_removed report + 1\<rparr>))))
           | Some e \<Rightarrow>
               lift_eff (if lock_error_is_contended e then Ok (report\<lparr>gc_skipped_busy := gc_skipped_busy report + 1\<rparr>)
                 else Err (BseBaseDiskBusy (base_lock_path store key) e)))))"

fun collect_bases ::
    "box_env \<Rightarrow> BaseDiskStore \<Rightarrow> duration \<Rightarrow> (string \<times> entry) list \<Rightarrow> GarbageCollectionReport \<Rightarrow> GarbageCollectionReport box_op" where
  "collect_bases env store minimum_age [] report = lift_eff (Ok report)"
| "collect_bases env store minimum_age ((c, _) # es) report =
     bind_eff (lift_eff (map_err BseIo (disk_try env CallEntry (bases_directory store @ [c])))) (\<lambda>_.
     bind_eff
       (case (case to_str c of None \<Rightarrow> None | Some name \<Rightarrow> parse_base_staging_name name) of
          None \<Rightarrow> lift_eff (Ok report)
        | Some key \<Rightarrow> collect_base_staging env store minimum_age (bases_directory store @ [c]) key report) (\<lambda>report.
       collect_bases env store minimum_age es report))"

definition base_collect :: "box_env \<Rightarrow> BaseDiskStore \<Rightarrow> duration \<Rightarrow> GarbageCollectionReport box_op" where
  "base_collect env store minimum_age =
     bind_eff (ensure_root env (cache_root store)) (\<lambda>_.
     bind_eff (get_eff dk_root) (\<lambda>root.
       if \<not> fs_exists env (bases_directory store) root then lift_eff (Ok gc_default)
       else
         bind_eff (reading (validate_directory env (bases_directory store) ''base disk directory'')) (\<lambda>_.
         bind_eff (reading (\<lambda>root. map_err BseIo (fs_read_dir env (bases_directory store) root))) (\<lambda>es.
           collect_bases env store minimum_age es gc_default))))"

section \<open>Ephemeral disks\<close>

record EphemeralDiskStore =
  runtime_root :: disk_path

record EphemeralDisk =
  ed_directory :: disk_path
  ed_disk_path :: disk_path
  ed_session_id :: uuid

definition ephemeral_directory :: "EphemeralDiskStore \<Rightarrow> disk_path" where
  "ephemeral_directory store = runtime_root store @ [EPHEMERAL_DIRECTORY]"

definition strict_cow_clone :: "box_env \<Rightarrow> disk_path \<Rightarrow> disk_path \<Rightarrow> unit box_op" where
  "strict_cow_clone env source destination =
     bind_eff (reading (validate_regular_file env source ''immutable base disk'')) (\<lambda>_.
     bind_eff (native_cow_clone env source destination) (\<lambda>_.
       finish_disk_copy env source destination ''immutable base disk''))"

definition populate_ephemeral ::
    "box_env \<Rightarrow> disk_path \<Rightarrow> uuid \<Rightarrow> disk_path \<Rightarrow> disk_path \<Rightarrow> EphemeralDisk box_op" where
  "populate_ephemeral env base session_id staging destination =
     (let lock = staging @ [LOCK_FILE]; disk = staging @ [ROOT_DISK_FILE] in
      bind_eff (box_io (fs_create_new env lock)) (\<lambda>_.
      bind_eff (box_io (set_file_permissions env lock)) (\<lambda>_.
      bind_eff (lift_eff (map_err (BseBaseDiskBusy lock) (disk_try env CallTryLock lock))) (\<lambda>_.
      bind_eff (strict_cow_clone env base disk) (\<lambda>_.
      bind_eff (box_io (set_file_permissions env disk)) (\<lambda>_.
      bind_eff (box_io (fs_rename env staging destination)) (\<lambda>_.
      bind_eff (syncing_parent env destination) (\<lambda>_.
        lift_eff (Ok \<lparr>ed_directory = destination, ed_disk_path = destination @ [ROOT_DISK_FILE], ed_session_id = session_id\<rparr>)))))))))"

definition clone_for_session :: "box_env \<Rightarrow> EphemeralDiskStore \<Rightarrow> BaseDisk \<Rightarrow> uuid \<Rightarrow> EphemeralDisk box_op" where
  "clone_for_session env store base session_id =
     bind_eff (ensure_root env (runtime_root store)) (\<lambda>_.
     bind_eff (secure_directory env (ephemeral_directory store)) (\<lambda>_.
     bind_eff (get_eff dk_root) (\<lambda>root.
       let destination = ephemeral_directory store @ [session_id] in
       if fs_exists env destination root then lift_eff (Err (BseEphemeralExists session_id))
       else
         bind_eff fetch_sequence (\<lambda>sequence.
           let staging = ephemeral_directory store @ [''.creating-'' @ session_id @ ''-'' @ de_process env @ ''-'' @ decimal sequence] in
           bind_eff (secure_directory env staging) (\<lambda>_.
             on_error (populate_ephemeral env (dd_disk_path base) session_id staging destination) (discard_existing env staging))))))"

text \<open>The end of a session: the directory is moved aside and removed, or removed where it is; failures are ignored.\<close>

definition ephemeral_drop :: "box_env \<Rightarrow> EphemeralDisk \<Rightarrow> disk \<Rightarrow> disk" where
  "ephemeral_drop env d s =
     (let tombstone = butlast (ed_directory d) @ [''.deleting-'' @ ed_session_id d @ ''-'' @ de_process env @ ''-'' @ decimal (dk_sequence s)];
          s = snd (fetch_sequence s) in
      case fs_rename env (ed_directory d) tombstone s of
        (Inr _, s') \<Rightarrow> snd (box_remove_managed_directory env tombstone s')
      | (Inl _, s') \<Rightarrow> snd (box_remove_managed_directory env (ed_directory d) s'))"

definition collect_ephemeral ::
    "box_env \<Rightarrow> duration \<Rightarrow> disk_path \<Rightarrow> GarbageCollectionReport \<Rightarrow> GarbageCollectionReport box_op" where
  "collect_ephemeral env minimum_age directory report =
     bind_eff (reading (validate_directory env directory ''ephemeral session directory'')) (\<lambda>_.
     bind_eff (reading (garbage_collection_candidate_is_old env directory minimum_age)) (\<lambda>old.
       if \<not> old then lift_eff (Ok (report\<lparr>gc_skipped_young := gc_skipped_young report + 1\<rparr>))
       else
         bind_eff (reading (garbage_collection_lock env directory)) (\<lambda>lock.
           case lock of
             Acquired \<Rightarrow>
               bind_eff (box_remove_managed_directory env directory) (\<lambda>_.
               bind_eff (syncing_parent env directory) (\<lambda>_.
                 lift_eff (Ok (report\<lparr>gc_removed := gc_removed report + 1\<rparr>))))
           | LockBusy \<Rightarrow> lift_eff (Ok (report\<lparr>gc_skipped_busy := gc_skipped_busy report + 1\<rparr>)))))"

definition is_ephemeral_name :: "base_codec \<Rightarrow> string \<Rightarrow> bool" where
  "is_ephemeral_name codec name \<longleftrightarrow>
     bc_parse_session codec name \<noteq> None \<or> parse_session_artifact_name (bc_parse_session codec) name ''.creating-'' \<noteq> None \<or>
     parse_session_artifact_name (bc_parse_session codec) name ''.deleting-'' \<noteq> None"

fun collect_ephemerals ::
    "box_env \<Rightarrow> base_codec \<Rightarrow> EphemeralDiskStore \<Rightarrow> duration \<Rightarrow> (string \<times> entry) list \<Rightarrow> GarbageCollectionReport \<Rightarrow>
       GarbageCollectionReport box_op" where
  "collect_ephemerals env codec store minimum_age [] report = lift_eff (Ok report)"
| "collect_ephemerals env codec store minimum_age ((c, _) # es) report =
     bind_eff (lift_eff (map_err BseIo (disk_try env CallEntry (ephemeral_directory store @ [c])))) (\<lambda>_.
     bind_eff
       (if to_str c = None \<or> \<not> is_ephemeral_name codec c then lift_eff (Ok report)
        else collect_ephemeral env minimum_age (ephemeral_directory store @ [c]) report) (\<lambda>report.
       collect_ephemerals env codec store minimum_age es report))"

definition ephemeral_collect :: "box_env \<Rightarrow> base_codec \<Rightarrow> EphemeralDiskStore \<Rightarrow> duration \<Rightarrow> GarbageCollectionReport box_op" where
  "ephemeral_collect env codec store minimum_age =
     bind_eff (ensure_root env (runtime_root store)) (\<lambda>_.
     bind_eff (get_eff dk_root) (\<lambda>root.
       if \<not> fs_exists env (ephemeral_directory store) root then lift_eff (Ok gc_default)
       else
         bind_eff (reading (validate_directory env (ephemeral_directory store) ''ephemeral disk directory'')) (\<lambda>_.
         bind_eff (reading (\<lambda>root. map_err BseIo (fs_read_dir env (ephemeral_directory store) root))) (\<lambda>es.
           collect_ephemerals env codec store minimum_age es gc_default))))"

end
