(* ===== verification/Checkpoint.thy ===== *)
theory Checkpoint
  imports Box_Store
begin

text \<open>
  Checkpoints (\<^verbatim>\<open>moraebox-box/src/checkpoint.rs\<close>): immutable copies of the root disk of a ready box, and new boxes made
  from them. They stand beside the boxes below the same state root. The serializer of their metadata and
  the supply of identifiers are parameters; a checkpoint identifier is that of a box.
\<close>

record CheckpointMetadata =
  cm_schema_version :: nat
  cm_checkpoint_id :: uuid
  cm_source_box_id :: uuid
  cm_source_generation :: nat
  cm_manifest_digest :: string
  cm_platform :: string
  cm_disk_format :: BoxDiskFormat
  cm_virtual_size_bytes :: nat
  cm_physical_size_bytes :: nat
  cm_created_at_unix_ms :: nat
  cm_owner_uid :: "nat option"
  cm_name :: "string option"
  cm_labels :: "(string, string) assoc"
  cm_tags :: "string list"

record checkpoint_codec =
  cc_json :: "CheckpointMetadata \<Rightarrow> (bytes, string) result"
  cc_parse :: "bytes \<Rightarrow> (CheckpointMetadata, string) result"
  cc_fresh_ids :: "uuid list"

record CreateCheckpoint =
  ck_name :: "string option"
  ck_labels :: "(string, string) assoc"
  ck_tags :: "string list"

definition create_checkpoint_default :: CreateCheckpoint where
  "create_checkpoint_default = \<lparr>ck_name = None, ck_labels = [], ck_tags = []\<rparr>"

definition create_checkpoint_validate :: "CreateCheckpoint \<Rightarrow> (unit, BoxStoreError) result" where
  "create_checkpoint_validate r =
     and_then (validate_optional_name (ck_name r)) (\<lambda>_.
     and_then (validate_labels (ck_labels r)) (\<lambda>_. validate_tags (ck_tags r)))"

record ForkCheckpoint =
  fk_name :: "string option"
  fk_labels :: "(string, string) assoc option"
  fk_tags :: "string list option"

definition fork_checkpoint_validate :: "ForkCheckpoint \<Rightarrow> (unit, BoxStoreError) result" where
  "fork_checkpoint_validate r =
     and_then (validate_optional_name (fk_name r)) (\<lambda>_.
     and_then (case fk_labels r of None \<Rightarrow> Ok () | Some labels \<Rightarrow> validate_labels labels) (\<lambda>_.
       case fk_tags r of None \<Rightarrow> Ok () | Some tags \<Rightarrow> validate_tags tags))"

record CheckpointEntryError =
  xe_entry_name :: string
  xe_checkpoint_id :: "uuid option"
  xe_message :: "string + BoxStoreError"

record CheckpointListReport =
  cl_checkpoints :: "CheckpointMetadata list"
  cl_errors :: "CheckpointEntryError list"

definition checkpoint_list_default :: CheckpointListReport where
  "checkpoint_list_default = \<lparr>cl_checkpoints = [], cl_errors = []\<rparr>"

record CheckpointLease =
  xl_directory :: disk_path
  xl_disk_path :: disk_path
  xl_metadata :: CheckpointMetadata

record CheckpointPaths =
  xp_directory :: disk_path
  xp_disk :: disk_path
  xp_lock :: disk_path
  xp_metadata :: CheckpointMetadata

definition CHECKPOINTS_DIRECTORY :: string where "CHECKPOINTS_DIRECTORY = ''checkpoints''"
definition CHECKPOINT_SCHEMA_VERSION :: nat where "CHECKPOINT_SCHEMA_VERSION = 1"
definition CHECKPOINT_METADATA_LOCK_FILE :: string where "CHECKPOINT_METADATA_LOCK_FILE = ''.metadata.lock''"

definition checkpoints_directory :: "BoxStore \<Rightarrow> disk_path" where
  "checkpoints_directory store = state_root store @ [CHECKPOINTS_DIRECTORY]"

definition checkpoint_directory :: "BoxStore \<Rightarrow> uuid \<Rightarrow> disk_path" where
  "checkpoint_directory store checkpoint_id = checkpoints_directory store @ [checkpoint_id]"

definition checkpoint_temporary_path :: "box_env \<Rightarrow> BoxStore \<Rightarrow> uuid \<Rightarrow> disk_path box_op" where
  "checkpoint_temporary_path env store checkpoint_id =
     bind_eff fetch_sequence (\<lambda>sequence.
       lift_eff (Ok (checkpoints_directory store @
         [''.creating-'' @ checkpoint_id @ ''-'' @ de_process env @ ''-'' @ decimal sequence])))"

definition lock_checkpoint_index :: "box_env \<Rightarrow> BoxStore \<Rightarrow> unit box_op" where
  "lock_checkpoint_index env store =
     (let p = checkpoints_directory store @ [CHECKPOINT_METADATA_LOCK_FILE] in
      bind_eff (open_lock_file env p) (\<lambda>_. lift_eff (map_err BseIo (disk_try env CallLock p))))"

section \<open>Reading a checkpoint\<close>

definition read_checkpoint_metadata ::
    "box_env \<Rightarrow> checkpoint_codec \<Rightarrow> disk_path \<Rightarrow> uuid \<Rightarrow> disk_path \<Rightarrow> entry \<Rightarrow> (CheckpointMetadata, BoxStoreError) result" where
  "read_checkpoint_metadata env codec p expected_id disk root =
     and_then (map_err BseIo (fs_read_file env p root)) (\<lambda>bs.
     and_then (map_err (\<lambda>e. BseInvalidMetadata (display_path p @ '': '' @ e)) (cc_parse codec bs)) (\<lambda>m.
       if cm_schema_version m \<noteq> CHECKPOINT_SCHEMA_VERSION then
         Err (BseUnsupportedSchema CHECKPOINT_SCHEMA_VERSION (cm_schema_version m))
       else if cm_checkpoint_id m \<noteq> expected_id then
         Err (BseCorruptStore (''checkpoint metadata at '' @ display_path p @ '' belongs to '' @ cm_checkpoint_id m @
           '' instead of '' @ expected_id))
       else if trim_ws (cm_manifest_digest m) = [] \<or> trim_ws (cm_platform m) = [] \<or> cm_virtual_size_bytes m = 0 \<or>
           cm_disk_format m \<noteq> RawExt4 then
         Err (BseInvalidMetadata (''required fields are missing in '' @ display_path p))
       else
         and_then (validate_optional_name (cm_name m)) (\<lambda>_.
         and_then (validate_labels (cm_labels m)) (\<lambda>_.
         and_then (validate_tags (cm_tags m)) (\<lambda>_.
         and_then (validate_regular_file env disk ''checkpoint root disk'' root) (\<lambda>_.
         and_then (file_length env disk root) (\<lambda>disk_size.
           if disk_size \<noteq> cm_virtual_size_bytes m then
             Err (BseCorruptStore (''checkpoint root disk size '' @ decimal disk_size @ '' does not match metadata virtual size '' @
               decimal (cm_virtual_size_bytes m)))
           else
             and_then (allocated_size_bytes env disk root) (\<lambda>physical.
               if physical \<noteq> cm_physical_size_bytes m then
                 Err (BseCorruptStore (''checkpoint root disk allocation does not match metadata at '' @ display_path p))
               else Ok m))))))))"

definition checkpoint_paths :: "box_env \<Rightarrow> checkpoint_codec \<Rightarrow> BoxStore \<Rightarrow> uuid \<Rightarrow> CheckpointPaths box_op" where
  "checkpoint_paths env codec store checkpoint_id =
     bind_eff (ensure_root env (state_root store)) (\<lambda>_.
       let directory = checkpoint_directory store checkpoint_id;
           metadata_path = directory @ [METADATA_FILE];
           disk = directory @ [ROOT_DISK_FILE];
           lock = directory @ [LOCK_FILE] in
       reading (\<lambda>root.
         and_then (case fs_metadata env directory root of
             Inr _ \<Rightarrow> validate_directory env directory ''checkpoint directory'' root
           | Inl DeNotFound \<Rightarrow> Err (BseCheckpointNotFound checkpoint_id)
           | Inl e \<Rightarrow> Err (BseIo e)) (\<lambda>_.
         and_then (validate_regular_file env metadata_path ''checkpoint metadata'' root) (\<lambda>_.
         and_then (validate_regular_file env disk ''checkpoint root disk'' root) (\<lambda>_.
         and_then (if fs_exists env lock root then validate_regular_file env lock ''checkpoint lock'' root else Ok ()) (\<lambda>_.
         and_then (read_checkpoint_metadata env codec metadata_path checkpoint_id disk root) (\<lambda>m.
           Ok \<lparr>xp_directory = directory, xp_disk = disk, xp_lock = lock, xp_metadata = m\<rparr>)))))))"

definition checkpoint_get :: "box_env \<Rightarrow> checkpoint_codec \<Rightarrow> BoxStore \<Rightarrow> uuid \<Rightarrow> CheckpointMetadata box_op" where
  "checkpoint_get env codec store checkpoint_id =
     bind_eff (checkpoint_paths env codec store checkpoint_id) (\<lambda>paths. lift_eff (Ok (xp_metadata paths)))"

definition checkpoint_try_acquire :: "box_env \<Rightarrow> checkpoint_codec \<Rightarrow> BoxStore \<Rightarrow> uuid \<Rightarrow> CheckpointLease box_op" where
  "checkpoint_try_acquire env codec store checkpoint_id =
     bind_eff (checkpoint_paths env codec store checkpoint_id) (\<lambda>paths.
     bind_eff (open_lock_file env (xp_lock paths)) (\<lambda>_.
     bind_eff (lift_eff (map_err (BseCheckpointBusy checkpoint_id) (disk_try env CallTryLock (xp_lock paths)))) (\<lambda>_.
       lift_eff (Ok \<lparr>xl_directory = xp_directory paths, xl_disk_path = xp_disk paths, xl_metadata = xp_metadata paths\<rparr>))))"

section \<open>Creating, forking, listing and deleting\<close>

definition new_checkpoint ::
    "uuid \<Rightarrow> uuid \<Rightarrow> BoxMetadata \<Rightarrow> CreateCheckpoint \<Rightarrow> nat \<Rightarrow> nat \<Rightarrow> nat option \<Rightarrow> CheckpointMetadata" where
  "new_checkpoint checkpoint_id source_box_id source request allocated now owner =
     \<lparr>cm_schema_version = CHECKPOINT_SCHEMA_VERSION, cm_checkpoint_id = checkpoint_id, cm_source_box_id = source_box_id,
      cm_source_generation = bm_generation source, cm_manifest_digest = bm_manifest_digest source,
      cm_platform = bm_platform source, cm_disk_format = RawExt4, cm_virtual_size_bytes = bm_virtual_size_bytes source,
      cm_physical_size_bytes = allocated, cm_created_at_unix_ms = now, cm_owner_uid = owner, cm_name = ck_name request,
      cm_labels = ck_labels request, cm_tags = ck_tags request\<rparr>"

definition populate_checkpoint ::
    "box_env \<Rightarrow> checkpoint_codec \<Rightarrow> uuid \<Rightarrow> uuid \<Rightarrow> BoxMetadata \<Rightarrow> disk_path \<Rightarrow> CreateCheckpoint \<Rightarrow> disk_path \<Rightarrow> disk_path \<Rightarrow>
       CheckpointMetadata box_op" where
  "populate_checkpoint env codec checkpoint_id source_box_id source source_disk request staging destination =
     (let lock = staging @ [LOCK_FILE]; disk = staging @ [ROOT_DISK_FILE] in
      bind_eff (box_io (fs_create_new env lock)) (\<lambda>_.
      bind_eff (box_io (set_file_permissions env lock)) (\<lambda>_.
      bind_eff (lift_eff (map_err BseIo (disk_try env CallLock lock))) (\<lambda>_.
      bind_eff (copy_disk env source_disk disk) (\<lambda>_.
      bind_eff (box_io (set_read_only env disk)) (\<lambda>_.
      bind_eff (reading (allocated_size_bytes env disk)) (\<lambda>allocated.
      bind_eff (lift_eff (now_unix_millis env)) (\<lambda>now.
      bind_eff (reading (owner_uid env staging)) (\<lambda>owner.
        let m = new_checkpoint checkpoint_id source_box_id source request allocated now owner in
        bind_eff (box_write_json_atomic env (staging @ [METADATA_FILE]) (cc_json codec m)) (\<lambda>_.
        bind_eff (lift_eff (map_err BseIo (disk_try env CallSync lock))) (\<lambda>_.
        bind_eff (box_io (fs_rename env staging destination)) (\<lambda>_.
        bind_eff (syncing_parent env destination) (\<lambda>_.
          lift_eff (Ok m))))))))))))))"

definition create_checkpoint_with_id ::
    "box_env \<Rightarrow> checkpoint_codec \<Rightarrow> BoxStore \<Rightarrow> uuid \<Rightarrow> uuid \<Rightarrow> BoxMetadata \<Rightarrow> disk_path \<Rightarrow> CreateCheckpoint \<Rightarrow> CheckpointMetadata box_op" where
  "create_checkpoint_with_id env codec store checkpoint_id source_box_id source source_disk request =
     bind_eff (checkpoint_temporary_path env store checkpoint_id) (\<lambda>staging.
     bind_eff (secure_directory env staging) (\<lambda>_.
       on_error
         (populate_checkpoint env codec checkpoint_id source_box_id source source_disk request staging
            (checkpoint_directory store checkpoint_id))
         (discard_staging env staging)))"

definition create_checkpoint_with ::
    "box_env \<Rightarrow> checkpoint_codec \<Rightarrow> BoxStore \<Rightarrow> uuid \<Rightarrow> CreateCheckpoint \<Rightarrow> CheckpointMetadata box_op" where
  "create_checkpoint_with env codec store source_box_id request =
     bind_eff (ensure_root env (state_root store)) (\<lambda>_.
     bind_eff (lift_eff (create_checkpoint_validate request)) (\<lambda>_.
     bind_eff (secure_directory env (checkpoints_directory store)) (\<lambda>_.
     bind_eff (try_acquire env store source_box_id) (\<lambda>source.
       if bm_state (bl_metadata source) \<noteq> Ready then
         lift_eff (Err (BseCheckpointSourceNotReady source_box_id (bm_state (bl_metadata source))))
       else
         bind_eff (reading (free_id env (checkpoint_directory store) (cc_fresh_ids codec))) (\<lambda>checkpoint_id.
           create_checkpoint_with_id env codec store checkpoint_id source_box_id (bl_metadata source) (bl_disk_path source) request)))))"

definition create_checkpoint :: "box_env \<Rightarrow> checkpoint_codec \<Rightarrow> BoxStore \<Rightarrow> uuid \<Rightarrow> CheckpointMetadata box_op" where
  "create_checkpoint env codec store source_box_id =
     create_checkpoint_with env codec store source_box_id create_checkpoint_default"

definition checkpoint_entry ::
    "box_env \<Rightarrow> checkpoint_codec \<Rightarrow> BoxStore \<Rightarrow> string \<Rightarrow> CheckpointListReport \<Rightarrow> CheckpointListReport box_op" where
  "checkpoint_entry env codec store c report =
     (let push = \<lambda>e. report\<lparr>cl_errors := cl_errors report @ [e]\<rparr> in
      bind_eff (lift_eff (map_err BseIo (disk_try env CallEntry (checkpoints_directory store @ [c])))) (\<lambda>_.
        if starts_with ''.'' c then lift_eff (Ok report)
        else
          (case to_str c of
             None \<Rightarrow>
               lift_eff (Ok (push \<lparr>xe_entry_name = c, xe_checkpoint_id = None,
                 xe_message = Inl ''checkpoint directory name is not valid UTF-8''\<rparr>))
           | Some name \<Rightarrow>
               (case be_parse_uuid env name of
                  None \<Rightarrow>
                    lift_eff (Ok (push \<lparr>xe_entry_name = name, xe_checkpoint_id = None,
                      xe_message = Inl (''invalid checkpoint directory name: '' @ name)\<rparr>))
                | Some checkpoint_id \<Rightarrow>
                    (\<lambda>s. case checkpoint_get env codec store checkpoint_id s of
                       (Inr m, s') \<Rightarrow> (Ok (report\<lparr>cl_checkpoints := cl_checkpoints report @ [m]\<rparr>), s')
                     | (Inl e, s') \<Rightarrow>
                         (Ok (push \<lparr>xe_entry_name = name, xe_checkpoint_id = Some checkpoint_id, xe_message = Inr e\<rparr>), s'))))))"

fun checkpoint_entries ::
    "box_env \<Rightarrow> checkpoint_codec \<Rightarrow> BoxStore \<Rightarrow> (string \<times> entry) list \<Rightarrow> CheckpointListReport \<Rightarrow> CheckpointListReport box_op" where
  "checkpoint_entries env codec store [] report = lift_eff (Ok report)"
| "checkpoint_entries env codec store ((c, _) # es) report =
     bind_eff (checkpoint_entry env codec store c report) (\<lambda>report. checkpoint_entries env codec store es report)"

definition checkpoint_list :: "box_env \<Rightarrow> checkpoint_codec \<Rightarrow> BoxStore \<Rightarrow> CheckpointListReport box_op" where
  "checkpoint_list env codec store =
     bind_eff (ensure_root env (state_root store)) (\<lambda>_.
     bind_eff (get_eff dk_root) (\<lambda>root.
       if \<not> fs_exists env (checkpoints_directory store) root then lift_eff (Ok checkpoint_list_default)
       else
         bind_eff (reading (validate_directory env (checkpoints_directory store) ''checkpoint store'')) (\<lambda>_.
         bind_eff (reading (\<lambda>root. map_err BseIo (fs_read_dir env (checkpoints_directory store) root))) (\<lambda>es.
         bind_eff (checkpoint_entries env codec store es checkpoint_list_default) (\<lambda>report.
           lift_eff (Ok \<lparr>cl_checkpoints = sort_key cm_checkpoint_id (cl_checkpoints report),
                          cl_errors = sort_key xe_entry_name (cl_errors report)\<rparr>))))))"

definition checkpoint_delete :: "box_env \<Rightarrow> checkpoint_codec \<Rightarrow> BoxStore \<Rightarrow> uuid \<Rightarrow> CheckpointMetadata box_op" where
  "checkpoint_delete env codec store checkpoint_id =
     bind_eff (checkpoint_try_acquire env codec store checkpoint_id) (\<lambda>lease.
     bind_eff (box_remove_managed_directory env (xl_directory lease)) (\<lambda>_.
     bind_eff (syncing_parent env (xl_directory lease)) (\<lambda>_.
       lift_eff (Ok (xl_metadata lease)))))"

definition fork_request :: "CheckpointMetadata \<Rightarrow> ForkCheckpoint \<Rightarrow> CreateBox" where
  "fork_request m request =
     (let c = create_box_new (cm_manifest_digest m) (cm_platform m) (cm_virtual_size_bytes m);
          c = (case fk_name request of Some name \<Rightarrow> with_name name c | None \<Rightarrow> c);
          c = with_labels (case fk_labels request of Some labels \<Rightarrow> labels | None \<Rightarrow> cm_labels m) c in
      with_tags (case fk_tags request of Some tags \<Rightarrow> tags | None \<Rightarrow> cm_tags m) c)"

definition checkpoint_fork :: "box_env \<Rightarrow> checkpoint_codec \<Rightarrow> BoxStore \<Rightarrow> uuid \<Rightarrow> ForkCheckpoint \<Rightarrow> BoxMetadata box_op" where
  "checkpoint_fork env codec store checkpoint_id request =
     bind_eff (lift_eff (fork_checkpoint_validate request)) (\<lambda>_.
     bind_eff (checkpoint_try_acquire env codec store checkpoint_id) (\<lambda>checkpoint.
       box_create env store (fork_request (xl_metadata checkpoint) request) (xl_disk_path checkpoint)))"

definition is_checkpoint_staging_name :: "(string \<Rightarrow> uuid option) \<Rightarrow> string \<Rightarrow> bool" where
  "is_checkpoint_staging_name parse name \<longleftrightarrow>
     (case artifact_parts name ''.creating-'' of
        None \<Rightarrow> False
      | Some (identifier, process, sequence) \<Rightarrow> all_digits sequence \<and> all_digits process \<and> parse identifier \<noteq> None)"

text \<open>One candidate of the collection.\<close>

definition collect_checkpoint_staging ::
    "box_env \<Rightarrow> disk_path \<Rightarrow> duration \<Rightarrow> GarbageCollectionReport \<Rightarrow> GarbageCollectionReport box_op" where
  "collect_checkpoint_staging env p minimum_age report =
     bind_eff (reading (validate_directory env p ''checkpoint staging directory'')) (\<lambda>_.
     bind_eff (reading (garbage_collection_candidate_is_old env p minimum_age)) (\<lambda>old.
       if \<not> old then lift_eff (Ok (report\<lparr>gc_skipped_young := gc_skipped_young report + 1\<rparr>))
       else
         bind_eff (reading (garbage_collection_lock env p)) (\<lambda>lock.
           case lock of
             Acquired \<Rightarrow>
               bind_eff (box_remove_managed_directory env p) (\<lambda>_.
               bind_eff (syncing_parent env p) (\<lambda>_.
                 lift_eff (Ok (report\<lparr>gc_removed := gc_removed report + 1\<rparr>))))
           | LockBusy \<Rightarrow> lift_eff (Ok (report\<lparr>gc_skipped_busy := gc_skipped_busy report + 1\<rparr>)))))"

fun collect_checkpoint_entries ::
    "box_env \<Rightarrow> BoxStore \<Rightarrow> duration \<Rightarrow> (string \<times> entry) list \<Rightarrow> GarbageCollectionReport \<Rightarrow> GarbageCollectionReport box_op" where
  "collect_checkpoint_entries env store minimum_age [] report = lift_eff (Ok report)"
| "collect_checkpoint_entries env store minimum_age ((c, _) # es) report =
     bind_eff (lift_eff (map_err BseIo (disk_try env CallEntry (checkpoints_directory store @ [c])))) (\<lambda>_.
     bind_eff
       (if to_str c = None \<or> \<not> is_checkpoint_staging_name (be_parse_uuid env) c then lift_eff (Ok report)
        else collect_checkpoint_staging env (checkpoints_directory store @ [c]) minimum_age report) (\<lambda>report.
       collect_checkpoint_entries env store minimum_age es report))"

definition checkpoint_collect :: "box_env \<Rightarrow> BoxStore \<Rightarrow> duration \<Rightarrow> GarbageCollectionReport box_op" where
  "checkpoint_collect env store minimum_age =
     bind_eff (ensure_root env (state_root store)) (\<lambda>_.
     bind_eff (get_eff dk_root) (\<lambda>root.
       if \<not> fs_exists env (checkpoints_directory store) root then lift_eff (Ok gc_default)
       else
         bind_eff (reading (validate_directory env (checkpoints_directory store) ''checkpoint store'')) (\<lambda>_.
         bind_eff (reading (\<lambda>root. map_err BseIo (fs_read_dir env (checkpoints_directory store) root))) (\<lambda>es.
           collect_checkpoint_entries env store minimum_age es gc_default))))"

end
