(* ===== verification/Box_Frame.thy ===== *)
theory Box_Frame
  imports Box_Store Disk_Frame
begin

text \<open>
  What the operations of the box store leave alone. The collection \<open>frames\<close> holds one rule per call and per operation; an
  operation on one box keeps everything outside the directory of that box and the hidden names of the store. The
  relation \<open>guarded\<close> carries the metadata and the disk of a box that another operation holds.
\<close>

section \<open>Permissions and locks\<close>

lemma node_at_with_mode: "node_at (c # r) (with_mode m n) = node_at (c # r) n"
  by (cases n) (auto simp: with_mode_def)

lemma set_permissions_keeps:
  assumes "\<And>p. p \<in> P \<Longrightarrow> \<not> prefix p q"
  shows "untouched P s (snd (fs_set_permissions env q mode s))"
proof (cases "and_then (disk_try env CallPermissions q) (\<lambda>_. node_at q (dk_root s))")
  case (Inr n)
  then have n: "node_at q (dk_root s) = Inr n" by (simp add: and_then_Inr_iff)
  have "untouched P s (set_node q (Some (with_mode mode n)) s)"
  proof (rule untouchedI)
    fix p assume "p \<in> P"
    show "node_at p (dk_root (set_node q (Some (with_mode mode n)) s)) = node_at p (dk_root s)"
      unfolding set_node_def
      using change_at_inside [OF assms [OF \<open>p \<in> P\<close>] _ parent_is_dir [OF n], of "with_mode mode n"]
      by (simp add: n node_at_with_mode del: node_at.simps)
  qed
  with Inr show ?thesis by (simp add: fs_set_permissions_def)
qed (simp add: fs_set_permissions_def keep.same)

lemma open_create_keeps: "(\<And>p. p \<in> P \<Longrightarrow> apart q p) \<Longrightarrow> untouched P s (snd (fs_open_create env q s))"
  by (auto simp: fs_open_create_def keep.same create_new_keeps split: sum.splits)

section \<open>What an operation on a box leaves alone\<close>

named_theorems frames

declare create_dir_all_keeps [frames] set_permissions_keeps [frames] create_new_keeps [frames] open_create_keeps [frames]
  write_keeps [frames] remove_file_keeps [frames] remove_dir_all_keeps [frames] rename_keeps [frames] keep.bind [frames]
  keep.same [frames]

lemma box_io_snd [simp]: "snd (box_io m s) = snd (m s)"
  by (simp add: box_io_def split: prod.splits)

lemma root_io_snd [simp]: "snd (root_io p m s) = snd (m s)"
  by (simp add: root_io_def split: prod.splits)

lemma reading_snd [simp]: "snd (reading f s) = s"
  by (simp add: reading_def)

lemma ignoring_snd [simp]: "snd (ignoring m s) = snd (m s)"
  by (simp add: ignoring_def)

lemma on_error_keeps [frames]:
  "untouched P s (snd (m s)) \<Longrightarrow> (\<And>t. untouched P t (snd (c t))) \<Longrightarrow> untouched P s (snd (on_error m c s))"
  by (cases "m s") (auto simp: on_error_def split: sum.splits intro: keep.trans)

lemma fetch_sequence_root [simp]: "dk_root (snd (fetch_sequence s)) = dk_root s"
  by (simp add: fetch_sequence_def)

lemma fetch_sequence_keeps [frames]: "untouched P s (snd (fetch_sequence s))"
  by (simp add: untouched_def)

lemma ensure_root_keeps [frames]:
  assumes "\<And>p. p \<in> P \<Longrightarrow> \<not> prefix p q"
  shows "untouched P s (snd (ensure_root env q s))"
proof -
  have v: "untouched P s (snd (validate_private_directory env q s))" for s
    unfolding validate_private_directory_def using assms by (auto intro!: frames)
  have "untouched P s (snd (ensure_private_storage_root env q s))"
    unfolding ensure_private_storage_root_def create_private_directory_def
    using assms by (auto intro!: frames v split: sum.splits disk_error.splits)
  then show ?thesis by (auto simp: ensure_root_def split: prod.splits)
qed

lemma secure_directory_keeps [frames]:
  "(\<And>p. p \<in> P \<Longrightarrow> \<not> prefix p q) \<Longrightarrow> untouched P s (snd (secure_directory env q s))"
  unfolding secure_directory_def set_directory_permissions_def by (auto intro!: frames)

lemma remove_managed_directory_keeps [frames]:
  "(\<And>p. p \<in> P \<Longrightarrow> apart q p) \<Longrightarrow> untouched P s (snd (box_remove_managed_directory env q s))"
  unfolding box_remove_managed_directory_def by (auto intro!: frames)

lemma file_permissions_keeps [frames]:
  "(\<And>p. p \<in> P \<Longrightarrow> apart q p) \<Longrightarrow> untouched P s (snd (set_file_permissions env q s))"
  unfolding set_file_permissions_def by (auto intro!: frames simp: apart_def)

lemma open_lock_file_keeps [frames]:
  "(\<And>p. p \<in> P \<Longrightarrow> apart q p) \<Longrightarrow> untouched P s (snd (open_lock_file env q s))"
  unfolding open_lock_file_def by (auto intro!: frames)

lemma syncing_parent_snd [simp]: "snd (syncing_parent env q s) = s"
  by (simp add: syncing_parent_def)

lemma metadata_temporary_below: "prefix (butlast q) (metadata_temporary env q n)"
  by (simp add: metadata_temporary_def)

lemma write_temporary_keeps [frames]:
  "(\<And>p. p \<in> P \<Longrightarrow> apart q p) \<Longrightarrow> untouched P s (snd (write_temporary env q content s))"
  unfolding write_temporary_def by (auto intro!: frames)

lemma write_json_keeps:
  assumes "\<And>p. p \<in> P \<Longrightarrow> apart q p" "\<And>p n. p \<in> P \<Longrightarrow> apart (metadata_temporary env q n) p"
  shows "untouched P s (snd (box_write_json_atomic env q json s))"
  unfolding box_write_json_atomic_def Let_def using assms by (auto intro!: frames)

lemma write_json_in_keeps [frames]:
  assumes "\<And>p. p \<in> P \<Longrightarrow> apart d p"
  shows "untouched P s (snd (box_write_json_atomic env (d @ [c]) json s))"
  by (rule write_json_keeps) (auto simp: metadata_temporary_def intro!: apart_below assms)

lemma put_file_keeps [frames]: "(\<And>p. p \<in> P \<Longrightarrow> apart q p) \<Longrightarrow> untouched P s (snd (put_file env q bs s))"
  unfolding put_file_def by (auto intro: set_node_keeps)

lemma create_destination_keeps [frames]:
  "(\<And>p. p \<in> P \<Longrightarrow> apart q p) \<Longrightarrow> untouched P s (snd (create_destination env q s))"
  using create_new_keeps [of P q s env]
  by (auto simp: create_destination_def split: prod.splits sum.splits disk_error.splits)

lemma native_clone_keeps [frames]:
  "(\<And>p. p \<in> P \<Longrightarrow> apart q p) \<Longrightarrow> untouched P s (snd (native_cow_clone env source q s))"
  unfolding native_cow_clone_def by (auto intro!: frames split: option.splits)

lemma sparse_copy_keeps [frames]:
  "(\<And>p. p \<in> P \<Longrightarrow> apart q p) \<Longrightarrow> untouched P s (snd (sparse_copy env source q s))"
  unfolding sparse_copy_def by (auto intro!: frames split: sum.splits)

lemma finish_disk_copy_keeps [frames]:
  "(\<And>p. p \<in> P \<Longrightarrow> apart q p) \<Longrightarrow> untouched P s (snd (finish_disk_copy env source q l s))"
  unfolding finish_disk_copy_def by (auto intro!: frames)

lemma copy_disk_keeps [frames]:
  assumes "\<And>p. p \<in> P \<Longrightarrow> apart q p"
  shows "untouched P s (snd (copy_disk env source q s))"
proof -
  have either: "untouched P s (snd ((\<lambda>s. case native_cow_clone env source q s of
          (Inl (BseCowCloneUnavailable d), s') \<Rightarrow> sparse_copy env source q s' | r \<Rightarrow> r) s))" for s
    using native_clone_keeps [of P q s env source, OF assms] sparse_copy_keeps [of P q _ env source, OF assms]
    by (auto split: prod.splits sum.splits BoxStoreError.splits intro: keep.trans)
  show ?thesis
    unfolding copy_disk_def using assms by (auto intro!: frames either)
qed

section \<open>Operations on one box\<close>

text \<open>
  Paths that an operation on box \<open>x\<close> may not change: not the directory of boxes or one above it, not below the directory of
  \<open>x\<close>, not below a name of the store that starts with a dot.
\<close>

definition elsewhere :: "BoxStore \<Rightarrow> uuid \<Rightarrow> disk_path set" where
  "elsewhere store x =
     {p. \<not> prefix p (boxes_directory store) \<and> apart (box_directory store x) p \<and>
         (\<forall>c. starts_with ''.'' c \<longrightarrow> apart (boxes_directory store @ [c]) p)}"

lemma elsewhereD:
  assumes "p \<in> elsewhere store x"
  shows "\<not> prefix p (state_root store)" "\<not> prefix p (boxes_directory store)" "apart (box_directory store x) p"
    "starts_with ''.'' c \<Longrightarrow> apart (boxes_directory store @ [c]) p" "apart (box_directory store x @ r) p"
    "apart (boxes_directory store @ [CHR ''.'' # d]) p"
  using assms apart_below [of "box_directory store x" p r]
  by (auto simp: elsewhere_def boxes_directory_def starts_with_iff)

lemma other_box_elsewhere: "x \<noteq> y \<Longrightarrow> \<not> starts_with ''.'' y \<Longrightarrow> box_directory store y @ q \<in> elsewhere store x"
  by (auto simp: elsewhere_def box_directory_def apart_def)

lemma checked_paths_keeps [frames]:
  "(\<And>p. p \<in> P \<Longrightarrow> \<not> prefix p (state_root store)) \<Longrightarrow> untouched P s (snd (checked_paths env store x s))"
  unfolding checked_paths_def Let_def by (auto intro!: frames)

lemma checked_paths_Inr:
  assumes "checked_paths env store x s = (Inr paths, t)"
  shows "paths = \<lparr>bp_directory = box_directory store x, bp_metadata = box_directory store x @ [METADATA_FILE],
    bp_disk = box_directory store x @ [ROOT_DISK_FILE], bp_lock = box_directory store x @ [LOCK_FILE]\<rparr>"
    "\<exists>i bs. node_at (box_directory store x @ [METADATA_FILE]) (dk_root t) = Inr (EFile i bs)"
    "\<exists>i bs. node_at (box_directory store x @ [ROOT_DISK_FILE]) (dk_root t) = Inr (EFile i bs)"
proof -
  have "paths = \<lparr>bp_directory = box_directory store x, bp_metadata = box_directory store x @ [METADATA_FILE],
      bp_disk = box_directory store x @ [ROOT_DISK_FILE], bp_lock = box_directory store x @ [LOCK_FILE]\<rparr> \<and>
    validate_regular_file env (box_directory store x @ [METADATA_FILE]) ''box metadata'' (dk_root t) = Inr () \<and>
    validate_regular_file env (box_directory store x @ [ROOT_DISK_FILE]) ''box root disk'' (dk_root t) = Inr ()"
    using assms by (auto simp: checked_paths_def Let_def bind_eff_Inr reading_def and_then_Inr_iff split: if_splits)
  then show "paths = \<lparr>bp_directory = box_directory store x, bp_metadata = box_directory store x @ [METADATA_FILE],
    bp_disk = box_directory store x @ [ROOT_DISK_FILE], bp_lock = box_directory store x @ [LOCK_FILE]\<rparr>"
    "\<exists>i bs. node_at (box_directory store x @ [METADATA_FILE]) (dk_root t) = Inr (EFile i bs)"
    "\<exists>i bs. node_at (box_directory store x @ [ROOT_DISK_FILE]) (dk_root t) = Inr (EFile i bs)"
    by (auto simp: validate_regular_file_def fs_metadata_def and_then_Inr_iff map_err_Inr_iff is_file_def
        split: if_splits entry.splits)
qed

lemma elsewhere_in_box: "p \<in> elsewhere store x \<Longrightarrow> apart (box_directory store x @ [c]) p"
  by (rule elsewhereD(5))

lemma elsewhere_dotted: "p \<in> elsewhere store x \<Longrightarrow> \<not> prefix p (boxes_directory store @ [CHR ''.'' # d])"
  by (rule apart_not_prefix [OF elsewhereD(6)])

lemma dotted_not_elsewhere [simp]: "boxes_directory store @ [CHR ''.'' # d] \<notin> elsewhere store x"
  using elsewhere_dotted by auto

lemmas elsewhere_simps = elsewhereD(1-3) elsewhere_in_box elsewhereD(6) elsewhere_dotted

lemma box_get_keeps [frames]: "untouched (elsewhere store x) s (snd (box_get env store x s))"
  unfolding box_get_def migrate_metadata_if_idle_def
  by (auto intro!: frames simp: elsewhere_simps dest!: checked_paths_Inr(1) split: option.splits)

lemma read_box_metadata_id: "read_box_metadata env p x root = Inr (m, b) \<Longrightarrow> bm_box_id m = x"
  unfolding read_box_metadata_def Let_def
  by (auto simp: and_then_Inr_iff map_err_Inr_iff migrated_metadata_def split: if_splits)

lemma try_acquire_keeps [frames]: "untouched (elsewhere store x) s (snd (try_acquire env store x s))"
  unfolding try_acquire_def
  by (auto intro!: frames simp: elsewhere_simps dest!: checked_paths_Inr(1))

lemma try_acquire_Inr:
  assumes "try_acquire env store x s = (Inr l, t)"
  shows "bl_directory l = box_directory store x" "bl_disk_path l = box_directory store x @ [ROOT_DISK_FILE]" "lease_id l = x"
    "bm_state (bl_metadata l) \<noteq> NeedsRepair" "de_fault env CallTryLock (box_directory store x @ [LOCK_FILE]) = None"
proof -
  show "bl_directory l = box_directory store x" "bl_disk_path l = box_directory store x @ [ROOT_DISK_FILE]" "lease_id l = x"
    "bm_state (bl_metadata l) \<noteq> NeedsRepair" "de_fault env CallTryLock (box_directory store x @ [LOCK_FILE]) = None"
    using assms
    by (auto simp: try_acquire_def bind_eff_Inr reading_def lease_id_def map_err_Inr_iff
        dest!: checked_paths_Inr(1) read_box_metadata_id split: if_splits)
qed

lemma transition_keeps [frames]: "untouched (elsewhere store (lease_id l)) s (snd (transition_state env store l expected st used s))"
  unfolding transition_state_def Let_def by (auto intro!: frames simp: elsewhere_simps)

lemma temporary_path_Inr: "temporary_path env store op x s = (Inr p, t) \<Longrightarrow> \<exists>c. p = boxes_directory store @ [CHR ''.'' # c] \<and> dk_root t = dk_root s"
  by (auto simp: temporary_path_def bind_eff_Inr fetch_sequence_def)

lemma temporary_path_keeps [frames]: "untouched P s (snd (temporary_path env store op x s))"
  unfolding temporary_path_def by (auto intro!: frames)

lemma lock_metadata_index_keeps [frames]: "untouched (elsewhere store x) s (snd (lock_metadata_index env store s))"
  unfolding lock_metadata_index_def METADATA_LOCK_FILE_def Let_def by (auto intro!: frames simp: elsewhere_simps)

lemma box_update_keeps: "untouched (elsewhere store x) s (snd (box_update env store x u s))"
  unfolding box_update_def Let_def
  by (auto intro!: frames simp: elsewhere_simps try_acquire_Inr(1))

lemma box_delete_keeps: "untouched (elsewhere store x) s (snd (box_delete env store x s))"
  unfolding box_delete_def Let_def
  by (auto intro!: frames simp: elsewhere_simps try_acquire_Inr(1) dest!: temporary_path_Inr)

lemma box_reset_keeps: "untouched (elsewhere store x) s (snd (box_reset env store x source s))"
  unfolding box_reset_def Let_def
  by (auto intro!: frames simp: elsewhere_simps try_acquire_Inr(1,2) reset_temporary_def)

lemma discard_staging_keeps [frames]: "(\<And>p. p \<in> P \<Longrightarrow> apart q p) \<Longrightarrow> untouched P s (snd (discard_staging env q s))"
  unfolding discard_staging_def by (auto intro!: frames)

lemma populate_staging_keeps [frames]:
  assumes "\<And>p. p \<in> P \<Longrightarrow> apart staging p" "\<And>p. p \<in> P \<Longrightarrow> apart destination p"
  shows "untouched P s (snd (populate_staging env x request source staging destination s))"
  unfolding populate_staging_def Let_def using assms by (auto intro!: frames apart_below)

lemma create_with_id_keeps [frames]: "untouched (elsewhere store x) s (snd (create_with_id env store x request source s))"
  unfolding create_with_id_def
  by (auto intro!: frames simp: elsewhere_simps dest!: temporary_path_Inr)

section \<open>The metadata file of a box\<close>

definition meta_path :: "BoxStore \<Rightarrow> uuid \<Rightarrow> disk_path" where
  "meta_path store y = box_directory store y @ [METADATA_FILE]"

definition disk_path_of :: "BoxStore \<Rightarrow> uuid \<Rightarrow> disk_path" where
  "disk_path_of store y = box_directory store y @ [ROOT_DISK_FILE]"

definition vital :: "BoxStore \<Rightarrow> uuid \<Rightarrow> disk_path set" where
  "vital store y = {meta_path store y, disk_path_of store y}"

lemma metadata_temporary_snoc:
  assumes "to_str c = Some c"
  shows "metadata_temporary env (d @ [c]) n = d @ [CHR ''.'' # c @ ''.'' @ de_process env @ ''.'' @ decimal n @ ''.tmp'']"
  by (simp add: metadata_temporary_def assms)

lemma temporary_name_other: "CHR ''.'' # c @ r @ t # r' \<noteq> c"
proof
  assume "CHR ''.'' # c @ r @ t # r' = c"
  then have "length (CHR ''.'' # c @ r @ t # r') = length c" by (rule arg_cong)
  then show False by simp
qed

text \<open>Writing a metadata file leaves the old one or the new one.\<close>

lemma set_permissions_node:
  assumes "node_at q (dk_root s) = Inr (EDir i es)" "node_at (q @ [t]) (dk_root s) = Inr (EFile j bs)"
  shows "\<exists>k. node_at (q @ [t]) (dk_root (snd (fs_set_permissions env (q @ [t]) mode s))) = Inr (EFile k bs)"
proof (cases "de_fault env CallPermissions (q @ [t])")
  case None
  then show ?thesis
    using node_at_change_at [OF assms(1), of t "Some (with_mode mode (EFile j bs))"] assms(2)
    by (simp add: fs_set_permissions_def disk_try_def set_node_def with_mode_def)
qed (simp add: fs_set_permissions_def disk_try_def assms(2))

lemma validate_directory_Inr: "validate_directory env p l root = Inr u \<Longrightarrow> \<exists>i es. node_at p root = Inr (EDir i es)"
  by (auto simp: validate_directory_def fs_metadata_def and_then_Inr_iff map_err_Inr_iff is_dir_def split: if_splits entry.splits)

lemma box_io_Inr: "box_io m s = (Inr x, t) \<longleftrightarrow> m s = (Inr x, t)"
  by (auto simp: box_io_def map_err_Inr_iff split: prod.splits)

lemma write_temporary_Inr:
  assumes "node_at d (dk_root s) = Inr (EDir i es)" "write_temporary env (d @ [t]) content s = (Inr u, s')"
  shows "\<exists>k. node_at (d @ [t]) (dk_root s') = Inr (EFile k (content @ [10]))"
proof -
  obtain u1 s1 u2 s2 u3 where "fs_create_new env (d @ [t]) s = (Inr u1, s1)" "fs_write env (d @ [t]) (content @ [10]) s1 = (Inr u2, s2)"
    and s3: "fs_set_permissions env (d @ [t]) MODE_0600 s2 = (Inr u3, s')"
    using assms(2) by (auto simp: write_temporary_def bind_eff_Inr box_io_Inr set_file_permissions_def)
  then have s1: "s1 = set_node (d @ [t]) (Some (EFile (de_info env (d @ [t])) [])) s"
    and s2: "s2 = set_node (d @ [t]) (Some (EFile (de_info env (d @ [t])) (content @ [10]))) s1"
    using fs_create_new_at(2) [OF assms(1)] by (auto simp: fs_write_def split: option.splits)
  obtain e1 where d1: "node_at d (dk_root s1) = Inr (EDir i e1)"
    using set_node_parent [OF assms(1)] s1 by blast
  obtain e2 where d2: "node_at d (dk_root s2) = Inr (EDir i e2)"
    using set_node_parent [OF d1] s2 by blast
  have "node_at (d @ [t]) (dk_root s2) = Inr (EFile (de_info env (d @ [t])) (content @ [10]))"
    using node_at_change_at [OF d1, of t] by (simp add: s2 set_node_def)
  from set_permissions_node [OF d2 this, of env MODE_0600] s3 show ?thesis by simp
qed

lemma rename_outcome:
  assumes "bind_eff (box_io (fs_rename env (d @ [t]) (d @ [c]))) (\<lambda>_. syncing_parent env p) s = (r, s')"
    "node_at (d @ [t]) (dk_root s) = Inr n" "c \<noteq> t"
  shows "(\<exists>e. r = Inl e) \<and> s' = s \<or> node_at (d @ [c]) (dk_root s') = Inr n"
proof (cases "fs_rename env (d @ [t]) (d @ [c]) s")
  case (Pair r1 s1)
  then show ?thesis
    using assms(1) fs_rename_Err [of env "d @ [t]" "d @ [c]" s] fs_rename_Ok [of env d t c s _ s1, OF _ assms(2,3)]
    by (cases r1) (auto simp: bind_eff_def box_io_def syncing_parent_def reading_def)
qed

text \<open>Writing a metadata file leaves the old one or the new one.\<close>

lemma write_json_steps:
  assumes "box_write_json_atomic env (d @ [c]) json s = (r, s')" and t: "metadata_temporary env (d @ [c]) (dk_sequence s) = d @ [t]"
  shows "(\<exists>e. r = Inl e) \<and> dk_root s' = dk_root s \<or>
    (\<exists>q i es bs. node_at d (dk_root q) = Inr (EDir i es) \<and> dk_root q = dk_root s \<and> json = Inr bs \<and>
      bind_eff (write_temporary env (d @ [t]) bs)
        (\<lambda>_. bind_eff (box_io (fs_rename env (d @ [t]) (d @ [c]))) (\<lambda>_. syncing_parent env (d @ [c]))) q = (r, s'))"
proof -
  define q where "q = s\<lparr>dk_sequence := wrapping_add (dk_sequence s) 1\<rparr>"
  have q: "dk_root q = dk_root s" and fetch: "fetch_sequence s = (Inr (dk_sequence s), q)" by (simp_all add: q_def fetch_sequence_def)
  show ?thesis
  proof (cases "validate_directory env d ''metadata parent'' (dk_root s)")
    case (Inl e)
    have "reading (validate_directory env d ''metadata parent'') s = (Inl e, s)" using Inl by (simp add: reading_def)
    then show ?thesis using assms(1) by (auto simp: box_write_json_atomic_def)
  next
    case (Inr u)
    then obtain i es where dir: "node_at d (dk_root q) = Inr (EDir i es)" using validate_directory_Inr q by metis
    have "reading (validate_directory env d ''metadata parent'') s = (Inr u, s)" using Inr by (simp add: reading_def)
    with assms(1) fetch t have run: "bind_eff (lift_eff (map_err BseJson json)) (\<lambda>bs. bind_eff (write_temporary env (d @ [t]) bs)
        (\<lambda>_. bind_eff (box_io (fs_rename env (d @ [t]) (d @ [c]))) (\<lambda>_. syncing_parent env (d @ [c])))) q = (r, s')"
      by (simp add: box_write_json_atomic_def Let_def)
    show ?thesis
    proof (cases json)
      case (Inr bs)
      with run have "bind_eff (write_temporary env (d @ [t]) bs)
          (\<lambda>_. bind_eff (box_io (fs_rename env (d @ [t]) (d @ [c]))) (\<lambda>_. syncing_parent env (d @ [c]))) q = (r, s')"
        by simp
      with dir q Inr show ?thesis by blast
    qed (use run q in auto)
  qed
qed

lemma write_json_outcome:
  assumes "to_str c = Some c" and run: "box_write_json_atomic env (d @ [c]) json s = (r, s')"
  shows "node_at (d @ [c]) (dk_root s') = node_at (d @ [c]) (dk_root s) \<and> r \<noteq> Ok () \<or>
    (\<exists>bs k. json = Ok bs \<and> node_at (d @ [c]) (dk_root s') = Inr (EFile k (bs @ [10])))"
proof -
  define t where "t = CHR ''.'' # c @ ''.'' @ de_process env @ ''.'' @ decimal (dk_sequence s) @ ''.tmp''"
  have ct: "c \<noteq> t" using temporary_name_other [of c] unfolding t_def by (metis append_Cons append_Nil)
  have keeps: "untouched {d @ [c]} q (snd (write_temporary env (d @ [t]) bs q))" for bs q
    using ct by (intro write_temporary_keeps) (auto simp: apart_def)
  have "metadata_temporary env (d @ [c]) (dk_sequence s) = d @ [t]" by (simp add: metadata_temporary_snoc [OF assms(1)] t_def)
  from write_json_steps [OF run this] show ?thesis
  proof (elim disjE exE conjE)
    fix q i es bs
    assume dir: "node_at d (dk_root q) = Inr (EDir i es)" and q: "dk_root q = dk_root s" "json = Inr bs"
      and rest: "bind_eff (write_temporary env (d @ [t]) bs)
        (\<lambda>_. bind_eff (box_io (fs_rename env (d @ [t]) (d @ [c]))) (\<lambda>_. syncing_parent env (d @ [c]))) q = (r, s')"
    from bind_outcome [OF rest keeps] show ?thesis
    proof (elim disjE exE conjE)
      fix u q'
      assume w: "write_temporary env (d @ [t]) bs q = (Inr u, q')" "untouched {d @ [c]} q q'"
        and ren: "bind_eff (box_io (fs_rename env (d @ [t]) (d @ [c]))) (\<lambda>_. syncing_parent env (d @ [c])) q' = (r, s')"
      obtain k where "node_at (d @ [t]) (dk_root q') = Inr (EFile k (bs @ [10]))" using write_temporary_Inr [OF dir w(1)] by blast
      from rename_outcome [OF ren this ct] w(2) q show ?thesis by (auto simp: untouched_def)
    qed (use q in \<open>auto simp: untouched_def\<close>)
  qed auto
qed

section \<open>A box that another operation uses\<close>

definition uuid_text :: "string \<Rightarrow> bool" where
  "uuid_text v \<longleftrightarrow> length v = 36 \<and> list_all (\<lambda>c. ascii_hexdigit (code c) \<or> c = CHR ''-'') v"

text \<open>
  What the crate \<^verbatim>\<open>uuid\<close> documents of its parser: the canonical text of what it recognizes has 36 characters, hexadecimal digits
  and dashes, and is recognized; no recognized text starts with a dot.
\<close>

definition uuid_parser :: "(string \<Rightarrow> uuid option) \<Rightarrow> bool" where
  "uuid_parser parse \<longleftrightarrow>
     (\<forall>v i. parse v = Some i \<longrightarrow> parse i = Some i \<and> uuid_text i \<and> \<not> starts_with ''.'' v)"

definition is_box_id :: "box_env \<Rightarrow> uuid \<Rightarrow> bool" where
  "is_box_id env y \<longleftrightarrow> be_parse_uuid env y = Some y"

lemma uuid_text_ascii: "uuid_text v \<Longrightarrow> list_all (\<lambda>c. code c < 128) v"
  unfolding uuid_text_def by (auto simp: list_all_iff ascii_defs)

lemma utf8_ok_ascii: "list_all (\<lambda>n. n < 128) ns \<Longrightarrow> utf8_ok ns"
  by (induction ns) auto

lemma to_str_ascii: "list_all (\<lambda>c. code c < 128) v \<Longrightarrow> to_str v = Some v"
  using utf8_ok_ascii [of "map of_char v"] by (simp add: to_str_def list_all_iff)

lemma box_id_facts:
  assumes "uuid_parser (be_parse_uuid env)" "is_box_id env y"
  shows "to_str y = Some y" "\<not> starts_with ''.'' y"
  using assms by (auto simp: uuid_parser_def is_box_id_def intro!: to_str_ascii uuid_text_ascii)

definition present :: "BoxStore \<Rightarrow> uuid \<Rightarrow> disk \<Rightarrow> bool" where
  "present store y s \<longleftrightarrow> is_ok (node_at (meta_path store y) (dk_root s))"

definition locked :: "box_env \<Rightarrow> BoxStore \<Rightarrow> uuid \<Rightarrow> bool" where
  "locked env store y \<longleftrightarrow> de_fault env CallTryLock (box_directory store y @ [LOCK_FILE]) \<noteq> None"

text \<open>Metadata and disk of a box that exists stay as they are.\<close>

definition guarded :: "BoxStore \<Rightarrow> uuid \<Rightarrow> disk \<Rightarrow> disk \<Rightarrow> bool" where
  "guarded store y s s' \<longleftrightarrow> (present store y s \<longrightarrow> untouched (vital store y) s s')"

interpretation guard: eff_relation "guarded store y" for store y
  by unfold_locales (auto simp: guarded_def present_def untouched_def vital_def)

lemma untouched_guarded: "untouched P s s' \<Longrightarrow> vital store y \<subseteq> P \<Longrightarrow> guarded store y s s'"
  by (auto simp: guarded_def intro: untouched_mono)

lemma vital_elsewhere: "x \<noteq> y \<Longrightarrow> \<not> starts_with ''.'' y \<Longrightarrow> vital store y \<subseteq> elsewhere store x"
  using other_box_elsewhere by (auto simp: vital_def meta_path_def disk_path_of_def)

lemma vital_apart:
  assumes "p \<in> vital store y"
  shows "\<not> prefix p (state_root store)" "\<not> prefix p (boxes_directory store)"
    "c \<notin> {METADATA_FILE, ROOT_DISK_FILE} \<Longrightarrow> apart (box_directory store y @ [c]) p"
    "c \<noteq> y \<Longrightarrow> apart (boxes_directory store @ [c]) p" "c \<noteq> y \<Longrightarrow> apart (boxes_directory store @ c # r) p"
  using assms by (auto simp: vital_def meta_path_def disk_path_of_def box_directory_def boxes_directory_def apart_def)

lemma file_names [simp]: "LOCK_FILE \<noteq> METADATA_FILE" "LOCK_FILE \<noteq> ROOT_DISK_FILE" "METADATA_FILE \<noteq> ROOT_DISK_FILE"
  "to_str METADATA_FILE = Some METADATA_FILE" "METADATA_FILE \<noteq> CHR ''.'' # d" "ROOT_DISK_FILE \<noteq> CHR ''.'' # d"
  by (simp_all add: LOCK_FILE_def METADATA_FILE_def ROOT_DISK_FILE_def to_str_ascii)

lemma locked_get: "locked env store y \<Longrightarrow> untouched (vital store y) s (snd (box_get env store y s))"
  unfolding box_get_def migrate_metadata_if_idle_def locked_def
  by (auto intro!: frames simp: vital_apart dest!: checked_paths_Inr(1))

lemma locked_acquire:
  assumes "locked env store y"
  shows "untouched (vital store y) s (snd (try_acquire env store y s))"
proof -
  have "disk_try env CallTryLock (box_directory store y @ [LOCK_FILE]) = Inl e" if "de_fault env CallTryLock (box_directory store y @ [LOCK_FILE]) = Some e" for e
    using that by (simp add: disk_try_def)
  then show ?thesis
    using assms unfolding try_acquire_def locked_def
    by (auto intro!: frames simp: vital_apart dest!: checked_paths_Inr(1))
qed

lemma locked_not_acquired: "locked env store y \<Longrightarrow> try_acquire env store y s \<noteq> (Inr l, t)"
  using try_acquire_Inr(5) by (auto simp: locked_def)

lemma lock_index_vital: "\<not> starts_with ''.'' y \<Longrightarrow> untouched (vital store y) s (snd (lock_metadata_index env store s))"
  unfolding lock_metadata_index_def METADATA_LOCK_FILE_def Let_def
  by (auto intro!: frames vital_apart simp: starts_with_iff)

lemma locked_update: "locked env store y \<Longrightarrow> \<not> starts_with ''.'' y \<Longrightarrow> untouched (vital store y) s (snd (box_update env store y u s))"
  unfolding box_update_def Let_def
  by (auto intro!: frames simp: vital_apart locked_acquire lock_index_vital locked_not_acquired)

lemma locked_delete: "locked env store y \<Longrightarrow> untouched (vital store y) s (snd (box_delete env store y s))"
  unfolding box_delete_def Let_def by (auto intro!: frames simp: locked_acquire locked_not_acquired)

lemma locked_reset: "locked env store y \<Longrightarrow> untouched (vital store y) s (snd (box_reset env store y source s))"
  unfolding box_reset_def Let_def by (auto intro!: frames simp: locked_acquire locked_not_acquired)

end
