(* ===== verification/Box_Sample.thy ===== *)
theory Box_Sample
  imports Box_Frame
begin

text \<open>
  A small host with a box, for the witnesses of the theorems on boxes.
\<close>

definition BOX_A :: uuid where "BOX_A = ''00000000-0000-4000-8000-00000000000a''"
definition BOX_B :: uuid where "BOX_B = ''00000000-0000-4000-8000-00000000000b''"

definition sample_ids :: "string \<Rightarrow> uuid option" where
  "sample_ids v = (if v = BOX_A \<or> v = BOX_B then Some v else None)"

definition ready_box :: BoxMetadata where
  "ready_box =
     \<lparr>bm_schema_version = BOX_SCHEMA_VERSION, bm_box_id = BOX_A, bm_state = Ready, bm_manifest_digest = ''sha256:1'',
      bm_platform = ''linux/arm64'', bm_disk_format = RawExt4, bm_virtual_size_bytes = 2, bm_generation = 0,
      bm_created_at_unix_ms = 1, bm_updated_at_unix_ms = 1, bm_owner_uid = None, bm_name = None, bm_labels = [],
      bm_tags = [], bm_last_used_at_unix_ms = None, bm_physical_size_bytes = 0\<rparr>"

definition dirty_box :: BoxMetadata where
  "dirty_box = next_metadata Dirty True 5 ready_box"

definition cloned_box :: BoxMetadata where
  "cloned_box = new_metadata BOX_B (create_box_new ''sha256:1'' ''linux/arm64'' 2) 5 (Some 0) 0"

text \<open>Three metadata texts; any other is not written and not read.\<close>

definition sample_json :: "BoxMetadata \<Rightarrow> (bytes, string) result" where
  "sample_json m = (if m = ready_box then Ok [1] else if m = dirty_box then Ok [2] else if m = cloned_box then Ok [3] else Err ''no text'')"

definition sample_parse :: "bytes \<Rightarrow> (BoxMetadata, string) result" where
  "sample_parse bs =
     (if bs = [1, 10] then Ok ready_box else if bs = [2, 10] then Ok dirty_box else if bs = [3, 10] then Ok cloned_box else Err ''no metadata'')"

definition box_info :: file_info where
  "box_info = \<lparr>fi_dev = 1, fi_ino = 1, fi_blocks = 0, fi_uid = 0, fi_mode = MODE_0700\<rparr>"

text \<open>A host on which nothing fails; the locks of boxes are held by others or not.\<close>

definition box_host :: "bool \<Rightarrow> box_env" where
  "box_host held =
     \<lparr>de_fault = (\<lambda>call p. if call = CallTryLock \<and> held then Some DeWouldBlock else None), de_partial = (\<lambda>_ n. n),
      de_garbage = (\<lambda>_. []), de_info = (\<lambda>_. box_info), de_process = ''1'', he_behind = (\<lambda>_. Err DeNotFound), he_euid = 0,
      he_time = 5000000, he_modified = (\<lambda>_. Ok 0), be_parse_uuid = sample_ids, be_fresh_ids = [BOX_A, BOX_B],
      be_box_json = sample_json, be_parse_box = sample_parse,
      be_seek_data = (\<lambda>_ off. SeekAt off), be_seek_hole = (\<lambda>_ off. SeekAt (off + 4))\<rparr>"

definition sample_store :: BoxStore where
  "sample_store = \<lparr>state_root = [''state'']\<rparr>"

definition box_disk_of :: "bytes \<Rightarrow> bytes \<Rightarrow> disk" where
  "box_disk_of metadata root_disk =
     \<lparr>dk_root = EDir box_info [(''state'', EDir box_info [(BOXES_DIRECTORY, EDir box_info
        [(BOX_A, EDir box_info [(METADATA_FILE, EFile box_info metadata), (ROOT_DISK_FILE, EFile box_info root_disk)])])])],
      dk_sequence = 0\<rparr>"

lemma sample_uuids: "uuid_text BOX_A" "uuid_text BOX_B" "BOX_A \<noteq> BOX_B" "\<not> starts_with ''.'' BOX_A" "\<not> starts_with ''.'' BOX_B"
  by code_simp+

lemma sample_parser: "uuid_parser sample_ids"
  using sample_uuids by (auto simp: uuid_parser_def sample_ids_def)

end
