(* ===== verification/Box_Isolation.thy ===== *)
theory Box_Isolation
  imports Box_Sample
begin

text \<open>
  The commands of the box store as data, and what each leaves alone of the boxes it is not aimed at and of a box that a
  run has locked.
\<close>

section \<open>Commands\<close>

datatype box_command =
    CmdGet uuid
  | CmdUpdate uuid UpdateBox
  | CmdDelete uuid
  | CmdReset uuid disk_path
  | CmdCreate CreateBox disk_path
  | CmdClone uuid
  | CmdList BoxQuery
  | CmdRepair bool
  | CmdCollect duration

text \<open>The disk after a command, whether it succeeded or not.\<close>

primrec run_command :: "box_env \<Rightarrow> BoxStore \<Rightarrow> box_command \<Rightarrow> disk \<Rightarrow> disk" where
  "run_command env store (CmdGet x) s = snd (box_get env store x s)"
| "run_command env store (CmdUpdate x u) s = snd (box_update env store x u s)"
| "run_command env store (CmdDelete x) s = snd (box_delete env store x s)"
| "run_command env store (CmdReset x source) s = snd (box_reset env store x source s)"
| "run_command env store (CmdCreate request source) s = snd (box_create env store request source s)"
| "run_command env store (CmdClone x) s = snd (clone_box env store x s)"
| "run_command env store (CmdList query) s = snd (list_with env store query s)"
| "run_command env store (CmdRepair b) s = snd (box_repair env store b s)"
| "run_command env store (CmdCollect age) s = snd (garbage_collect_older_than env store age s)"

text \<open>The boxes whose files a command may rewrite or move.\<close>

primrec may_change :: "box_command \<Rightarrow> uuid \<Rightarrow> bool" where
  "may_change (CmdGet x) y \<longleftrightarrow> x = y"
| "may_change (CmdUpdate x u) y \<longleftrightarrow> x = y"
| "may_change (CmdDelete x) y \<longleftrightarrow> x = y"
| "may_change (CmdReset x source) y \<longleftrightarrow> x = y"
| "may_change (CmdCreate request source) y \<longleftrightarrow> False"
| "may_change (CmdClone x) y \<longleftrightarrow> x = y"
| "may_change (CmdList query) y \<longleftrightarrow> True"
| "may_change (CmdRepair b) y \<longleftrightarrow> True"
| "may_change (CmdCollect age) y \<longleftrightarrow> False"

lemma guard_bind_outcome:
  "guarded store y s (snd (m s)) \<Longrightarrow> (\<And>x t. m s = (Inr x, t) \<Longrightarrow> guarded store y t (snd (f x t))) \<Longrightarrow>
     guarded store y s (snd (bind_eff m f s))"
  by (rule guard.bind)

lemma guard_on_error:
  "guarded store y s (snd (m s)) \<Longrightarrow> (\<And>t. guarded store y t (snd (c t))) \<Longrightarrow> guarded store y s (snd (on_error m c s))"
  by (cases "m s") (auto simp: on_error_def split: sum.splits intro: guard.trans)

lemma vital_guard: "untouched (vital store y) s s' \<Longrightarrow> guarded store y s s'"
  by (simp add: guarded_def)

lemma other_guard: "untouched (elsewhere store x) s s' \<Longrightarrow> x \<noteq> y \<Longrightarrow> \<not> starts_with ''.'' y \<Longrightarrow> guarded store y s s'"
  by (rule untouched_guarded [OF _ vital_elsewhere])

lemma guard_if:
  "(b \<Longrightarrow> guarded store y s (snd (m s))) \<Longrightarrow> (\<not> b \<Longrightarrow> guarded store y s (snd (m' s))) \<Longrightarrow>
     guarded store y s (snd ((if b then m else m') s))"
  by simp

lemmas guards = guard_bind_outcome guard_on_error guard_if

lemma dotted_apart:
  assumes "\<not> starts_with ''.'' y" "p \<in> vital store y"
  shows "apart (boxes_directory store @ (CHR ''.'' # c) # r) p" "apart (boxes_directory store @ [CHR ''.'' # c]) p"
    "\<not> prefix p (boxes_directory store @ [CHR ''.'' # c])" "\<not> prefix p (boxes_directory store)"
    "boxes_directory store @ [CHR ''.'' # c] \<noteq> p"
proof -
  have "CHR ''.'' # c \<noteq> y" using assms(1) by (auto simp: starts_with_iff)
  with assms(2) show a: "apart (boxes_directory store @ (CHR ''.'' # c) # r) p" "apart (boxes_directory store @ [CHR ''.'' # c]) p"
    by (auto intro: vital_apart)
  then show "\<not> prefix p (boxes_directory store @ [CHR ''.'' # c])" "boxes_directory store @ [CHR ''.'' # c] \<noteq> p"
    using apart_not_prefix [OF a(2)] by auto
  show "\<not> prefix p (boxes_directory store)" by (rule vital_apart [OF assms(2)])
qed

lemma dotted_not_vital: "\<not> starts_with ''.'' y \<Longrightarrow> boxes_directory store @ [CHR ''.'' # c] \<notin> vital store y"
  using dotted_apart(5) by blast

text \<open>A directory with something in it is not replaced by a rename.\<close>

lemma rename_onto_present:
  assumes "present store y s"
  shows "snd (fs_rename env from (box_directory store y) s) = s"
proof -
  obtain n where "node_at (box_directory store y @ [METADATA_FILE]) (dk_root s) = Inr n"
    using assms by (auto simp: present_def meta_path_def is_ok_iff)
  from node_at_parent [OF this] obtain i es where "node_at (box_directory store y) (dk_root s) = Inr (EDir i es)" "es \<noteq> []"
    by (metis map_of.simps(1) option.distinct(1))
  then show ?thesis by (auto simp: fs_rename_def split: sum.splits)
qed

lemma rename_guarded: "guarded store y s (snd (fs_rename env from (box_directory store y) s))"
  by (simp add: guarded_def rename_onto_present keep.same)

lemma populate_guarded:
  assumes "\<And>p. p \<in> vital store y \<Longrightarrow> apart staging p"
  shows "guarded store y s (snd (populate_staging env y request source staging (box_directory store y) s))"
  unfolding populate_staging_def Let_def
  by (intro guards) (auto intro!: frames guard.same rename_guarded apart_below assms intro: vital_guard)

lemma create_with_id_guarded:
  assumes "\<not> starts_with ''.'' y"
  shows "guarded store y s (snd (create_with_id env store x request source s))"
proof (cases "x = y")
  case True
  have last: "guarded store y t (snd (on_error (populate_staging env y request source (boxes_directory store @ [CHR ''.'' # c]) (box_directory store y))
      (discard_staging env (boxes_directory store @ [CHR ''.'' # c])) t))" for c t
    by (intro guard_on_error populate_guarded vital_guard discard_staging_keeps) (auto simp: dotted_apart [OF assms])
  show ?thesis
    unfolding create_with_id_def True
    by (auto intro!: guard.bind vital_guard [OF temporary_path_keeps] vital_guard [OF secure_directory_keeps]
        vital_guard [OF remove_managed_directory_keeps] guard.same last simp: dotted_apart [OF assms] dotted_not_vital [OF assms] dest!: temporary_path_Inr)
qed (use assms in \<open>auto intro: other_guard create_with_id_keeps\<close>)

lemma create_guarded: "\<not> starts_with ''.'' y \<Longrightarrow> guarded store y s (snd (box_create env store request source s))"
  unfolding box_create_def
  by (intro guards)
    (auto intro!: guard.same create_with_id_guarded vital_guard [OF ensure_root_keeps] vital_guard [OF secure_directory_keeps]
      vital_guard [OF lock_index_vital] simp: vital_apart)

section \<open>Listing, repair and garbage collection keep a box that is in use\<close>

lemma scan_entries_keeps:
  assumes "locked env store y" "\<not> starts_with ''.'' y"
  shows "untouched (vital store y) s (snd (scan_entries env store es scan s))"
proof (induction es arbitrary: scan s)
  case (Cons e es)
  obtain c n where e: "e = (c, n)" by (cases e)
  have get: "untouched (vital store y) s (snd (box_get env store x s))" for x s
    using locked_get [OF assms(1)] untouched_mono [OF box_get_keeps vital_elsewhere] assms(2) by (cases "x = y") auto
  have "untouched (vital store y) s (snd (scan_entry env store c scan s))"
    unfolding scan_entry_def Let_def
    using get by (auto simp: keep.same split: option.splits prod.splits sum.splits) (metis snd_conv)+
  then show ?case unfolding e scan_entries.simps by (intro keep.bind Cons.IH)
qed (simp add: keep.same)

lemma scan_keeps:
  "locked env store y \<Longrightarrow> \<not> starts_with ''.'' y \<Longrightarrow> untouched (vital store y) s (snd (box_scan env store s))"
  unfolding box_scan_def by (auto intro!: frames scan_entries_keeps simp: vital_apart)

text \<open>An entry that cannot be used is named after where it is, and a name that is an identifier is kept with it.\<close>

definition corrupt_ok :: "box_env \<Rightarrow> BoxStore \<Rightarrow> CorruptBoxEntry \<Rightarrow> bool" where
  "corrupt_ok env store e \<longleftrightarrow> ce_source e = boxes_directory store @ [ce_name e] \<and>
     (\<forall>i. be_parse_uuid env (ce_name e) = Some i \<longrightarrow> to_str (ce_name e) \<noteq> None \<longrightarrow> ee_box_id (ce_error e) = Some i)"

lemma scan_entry_corrupt:
  assumes "list_all (corrupt_ok env store) (bs_corrupt scan)" "scan_entry env store c scan s = (Inr scan', s')"
  shows "list_all (corrupt_ok env store) (bs_corrupt scan')"
  using assms to_str_Some [of c]
  by (auto simp: scan_entry_def Let_def push_unaddressable_def push_corrupt_def push_box_error_def push_box_def corrupt_ok_def
      from_store_error_def split: option.splits if_splits prod.splits sum.splits)

lemma scan_entries_corrupt:
  "list_all (corrupt_ok env store) (bs_corrupt scan) \<Longrightarrow> scan_entries env store es scan s = (Inr scan', s') \<Longrightarrow>
     list_all (corrupt_ok env store) (bs_corrupt scan')"
proof (induction es arbitrary: scan s)
  case (Cons e es)
  obtain c n where e: "e = (c, n)" by (cases e)
  from Cons.prems(2) obtain scan1 t where "scan_entry env store c scan s = (Inr scan1, t)" "scan_entries env store es scan1 t = (Inr scan', s')"
    by (auto simp: e bind_eff_Inr)
  then show ?case using Cons.IH scan_entry_corrupt [OF Cons.prems(1)] by blast
qed auto

lemma scan_corrupt: "box_scan env store s = (Inr scan, s') \<Longrightarrow> list_all (corrupt_ok env store) (bs_corrupt scan)"
  using scan_entries_corrupt [of env store scan_default]
  by (auto simp: box_scan_def bind_eff_Inr scan_default_def sort_scan_def split: if_splits)

lemma locked_quarantine:
  assumes "locked env store y" "uuid_parser (be_parse_uuid env)" "is_box_id env y" "corrupt_ok env store e"
    "\<And>p. p \<in> vital store y \<Longrightarrow> apart batch p"
  shows "guarded store y s (snd (quarantine_entry env e batch s))"
proof (cases "ce_name e = y")
  case False
  then have "apart (ce_source e) p" "apart (ce_source e @ [c]) p" if "p \<in> vital store y" for p c
    using assms(4) vital_apart(4,5) [OF that] by (auto simp: corrupt_ok_def)
  then show ?thesis
    unfolding quarantine_entry_def lock_for_quarantine_def Let_def
    by (intro vital_guard) (auto intro!: frames apart_below assms(5) split: option.splits)
next
  case True
  then have e: "ce_source e = box_directory store y" "ee_box_id (ce_error e) = Some y"
    using assms(3,4) box_id_facts(1) [OF assms(2,3)] by (auto simp: corrupt_ok_def is_box_id_def box_directory_def)
  show ?thesis
    unfolding guarded_def
  proof
    assume "present store y s"
    then obtain i es where dir: "node_at (box_directory store y) (dk_root s) = Inr (EDir i es)"
      using node_at_parent unfolding present_def meta_path_def is_ok_iff by blast
    have "\<exists>err t. lock_for_quarantine env (box_directory store y) y s = (Inl err, t) \<and> untouched (vital store y) s t"
    proof -
      have "fst (lock_for_quarantine env (box_directory store y) y s) \<noteq> Inr u" for u
        using dir assms(1)
        by (cases "lock_for_quarantine env (box_directory store y) y s")
          (auto simp: lock_for_quarantine_def Let_def bind_eff_Inr reading_def fs_metadata_def and_then_Inr_iff map_err_Inr_iff
            is_dir_def locked_def split: if_splits)
      moreover have "untouched (vital store y) s (snd (lock_for_quarantine env (box_directory store y) y s))"
        unfolding lock_for_quarantine_def Let_def by (auto intro!: frames simp: vital_apart)
      ultimately show ?thesis
        by (cases "lock_for_quarantine env (box_directory store y) y s"; cases "fst (lock_for_quarantine env (box_directory store y) y s)") auto
    qed
    then show "untouched (vital store y) s (snd (quarantine_entry env e batch s))"
      unfolding quarantine_entry_def e by auto
  qed
qed

lemma quarantine_all_guarded:
  assumes "locked env store y" "uuid_parser (be_parse_uuid env)" "is_box_id env y" "list_all (corrupt_ok env store) es"
    "\<And>p. p \<in> vital store y \<Longrightarrow> apart batch p"
  shows "guarded store y s (snd (quarantine_all env batch es report s))"
  using assms(4)
proof (induction es arbitrary: report s)
  case (Cons e es)
  have one: "guarded store y s (snd (quarantine_entry env e batch s))"
    using Cons.prems by (intro locked_quarantine assms) simp
  have rest: "guarded store y t (snd (quarantine_all env batch es report t))" for report t using Cons by simp
  show ?case
    using one rest
    by (cases "quarantine_entry env e batch s"; cases "fst (quarantine_entry env e batch s)") (auto intro: guard.trans)
qed (simp add: guard.same)

lemma quarantine_apart: "p \<in> vital store y \<Longrightarrow> apart (state_root store @ ''quarantine'' # r) p"
  by (auto simp: vital_def meta_path_def disk_path_of_def box_directory_def boxes_directory_def BOXES_DIRECTORY_def apart_def)

lemma locked_repair:
  assumes "locked env store y" "uuid_parser (be_parse_uuid env)" "is_box_id env y"
  shows "guarded store y s (snd (box_repair env store b s))"
proof -
  note dot = box_id_facts(2) [OF assms(2,3)]
  note q = quarantine_apart [where r = "[]", simplified] quarantine_apart [where r = "[c]" for c, simplified]
  show ?thesis
    unfolding box_repair_def Let_def
    by (intro guards)
      (auto intro!: guard.same vital_guard [OF scan_keeps [OF assms(1) dot]] vital_guard [OF secure_directory_keeps]
        vital_guard [OF fetch_sequence_keeps] quarantine_all_guarded assms scan_corrupt apart_not_prefix q)
qed

lemma stale_temporaries_set:
  "stale_temporaries env d age root es = Inr (stale, young) \<Longrightarrow> p \<in> set stale \<Longrightarrow>
     \<exists>t. p = d @ [t] \<and> (is_reset_temporary_disk_name t \<or> is_atomic_metadata_temporary_name t)"
proof (induction es arbitrary: stale young)
  case (Cons e es)
  then show ?case
    by (cases e) (auto simp: and_then_Inr_iff Let_def split: if_splits)
qed auto

lemma temporary_names_dotted:
  "is_reset_temporary_disk_name t \<or> is_atomic_metadata_temporary_name t \<Longrightarrow> \<exists>d. t = CHR ''.'' # d"
  by (auto simp: is_reset_temporary_disk_name_def is_atomic_metadata_temporary_name_def strip_prefix_Some
      split: option.splits)

lemma remove_stale_keeps:
  "(\<And>p q. p \<in> P \<Longrightarrow> q \<in> set qs \<Longrightarrow> apart q p) \<Longrightarrow> untouched P s (snd (remove_stale env qs report s))"
  by (induction qs arbitrary: report s) (auto intro!: frames)

lemma collect_box_temporaries_keeps:
  assumes "\<not> starts_with ''.'' y"
  shows "untouched (vital store y) s (snd (collect_box_temporary_files env (boxes_directory store @ [c]) age report s))"
proof -
  have "apart q p" if "stale_temporaries env (boxes_directory store @ [c]) age root es = Inr (stale, young)" "p \<in> vital store y" "q \<in> set stale"
    for root es stale young p q
  proof -
    from stale_temporaries_set [OF that(1,3)] temporary_names_dotted obtain d where q: "q = boxes_directory store @ [c, CHR ''.'' # d]"
      by auto
    show ?thesis
      using vital_apart(3) [OF that(2), of "CHR ''.'' # d"] vital_apart(5) [OF that(2), of c "[CHR ''.'' # d]"]
      using file_names(5,6) [of d, THEN not_sym] by (cases "c = y") (auto simp: q box_directory_def)
  qed
  then show ?thesis
    unfolding collect_box_temporary_files_def Let_def
    by (auto intro!: frames remove_stale_keeps simp: reading_def split: GarbageCollectionLock.splits)
qed

lemma collect_keeps:
  assumes "\<not> starts_with ''.'' y"
  shows "untouched (vital store y) s (snd (garbage_collect_older_than env store age s))"
proof -
  have stale: "untouched (vital store y) s (snd (collect_stale_directory env (boxes_directory store @ [c]) age report s))"
    if "parse_box_artifact_name parse c ''.creating-'' \<noteq> None \<or> parse_box_artifact_name parse c ''.deleted-'' \<noteq> None" for c report s parse
  proof -
    from that obtain d where "c = CHR ''.'' # d"
      by (auto simp: parse_box_artifact_name_def artifact_parts_def strip_prefix_Some split: option.splits)
    then show ?thesis
      unfolding collect_stale_directory_def
      by (auto intro!: frames simp: dotted_apart [OF assms] split: GarbageCollectionLock.splits)
  qed
  have "untouched (vital store y) s (snd (collect_entries env store age es report s))" for es report s
  proof (induction es arbitrary: report s)
    case (Cons e es)
    obtain c n where e: "e = (c, n)" by (cases e)
    show ?case
      unfolding e collect_entries.simps Let_def
      by (auto intro!: keep.bind Cons.IH keep.same stale collect_box_temporaries_keeps assms)
  qed (simp add: keep.same)
  then show ?thesis
    unfolding garbage_collect_older_than_def by (auto intro!: frames simp: vital_apart)
qed

section \<open>A box that is not concerned, or that is in use, is left alone\<close>

lemma locked_vital:
  assumes "locked env store y" "uuid_parser (be_parse_uuid env)" "is_box_id env y"
  shows "guarded store y s (run_command env store cmd s)"
proof -
  note dot = box_id_facts(2) [OF assms(2,3)]
  note other = other_guard [OF _ _ dot]
  show ?thesis
  proof (cases cmd)
    case (CmdGet x)
    then show ?thesis by (cases "x = y") (auto intro: vital_guard locked_get assms(1) other [OF box_get_keeps])
  next
    case (CmdUpdate x u)
    then show ?thesis by (cases "x = y") (auto intro: vital_guard [OF locked_update [OF assms(1) dot]] other [OF box_update_keeps])
  next
    case (CmdDelete x)
    then show ?thesis by (cases "x = y") (auto intro: vital_guard locked_delete assms(1) other [OF box_delete_keeps])
  next
    case (CmdReset x source)
    then show ?thesis by (cases "x = y") (auto intro: vital_guard locked_reset assms(1) other [OF box_reset_keeps])
  next
    case (CmdClone x)
    have "guarded store y s (snd (try_acquire env store x s))"
      by (cases "x = y") (auto intro: vital_guard locked_acquire assms(1) other [OF try_acquire_keeps])
    then show ?thesis unfolding CmdClone run_command.simps clone_box_def Let_def by (intro guard.bind create_guarded dot)
  next
    case (CmdList query)
    then show ?thesis
      unfolding list_with_def Let_def
      by (auto intro!: guard.bind guard.same vital_guard [OF scan_keeps [OF assms(1) dot]] simp: list_with_def Let_def)
  qed (auto intro: create_guarded [OF dot] locked_repair [OF assms] vital_guard [OF collect_keeps [OF dot]])
qed

text \<open>A command that is not aimed at a box.\<close>

lemma unconcerned_vital:
  assumes "\<not> may_change cmd y" "\<not> starts_with ''.'' y"
  shows "guarded store y s (run_command env store cmd s)"
proof (cases cmd)
  case (CmdClone x)
  with assms show ?thesis
    unfolding CmdClone run_command.simps clone_box_def Let_def
    by (intro guard.bind create_guarded) (auto intro: other_guard try_acquire_keeps)
qed (use assms in \<open>auto intro: create_guarded vital_guard collect_keeps other_guard [OF box_get_keeps] other_guard [OF box_update_keeps]
    other_guard [OF box_delete_keeps] other_guard [OF box_reset_keeps]\<close>)

text \<open>
  C11: a command leaves the metadata and the disk of every box alone that it is not aimed at, and it leaves those of a box alone
  that a run has locked, whatever it is aimed at; listing and repair are aimed at all boxes. This holds whichever calls
  fail on the way, and also for the identifier that a new box draws.
\<close>

theorem boxes_isolated:
  assumes "uuid_parser (be_parse_uuid env)" and "is_box_id env y" and "\<not> may_change cmd y \<or> locked env store y"
    and "is_ok (node_at (box_directory store y @ [METADATA_FILE]) (dk_root s))"
  shows "node_at (box_directory store y @ [METADATA_FILE]) (dk_root (run_command env store cmd s)) =
      node_at (box_directory store y @ [METADATA_FILE]) (dk_root s) \<and>
    node_at (box_directory store y @ [ROOT_DISK_FILE]) (dk_root (run_command env store cmd s)) =
      node_at (box_directory store y @ [ROOT_DISK_FILE]) (dk_root s)"
proof -
  have "guarded store y s (run_command env store cmd s)"
    using assms(3) locked_vital [OF _ assms(1,2)] unconcerned_vital box_id_facts(2) [OF assms(1,2)] by blast
  with assms(4) have "untouched (vital store y) s (run_command env store cmd s)"
    by (simp add: guarded_def present_def meta_path_def)
  then show ?thesis by (simp add: untouched_def vital_def meta_path_def disk_path_of_def)
qed

theorem boxes_isolated_witness:
  "node_at (box_directory sample_store BOX_A @ [METADATA_FILE])
      (dk_root (run_command (box_host True) sample_store (CmdDelete BOX_A) (box_disk_of [1, 10] [7, 7]))) = Ok (EFile box_info [1, 10]) \<and>
   node_at (box_directory sample_store BOX_A @ [ROOT_DISK_FILE])
      (dk_root (run_command (box_host True) sample_store (CmdDelete BOX_A) (box_disk_of [1, 10] [7, 7]))) = Ok (EFile box_info [7, 7])"
proof -
  have h: "uuid_parser (be_parse_uuid (box_host True))" "is_box_id (box_host True) BOX_A" "locked (box_host True) sample_store BOX_A"
    using sample_parser by (simp_all add: box_host_def is_box_id_def sample_ids_def locked_def)
  have f: "node_at (box_directory sample_store BOX_A @ [METADATA_FILE]) (dk_root (box_disk_of [1, 10] [7, 7])) = Ok (EFile box_info [1, 10])"
    "node_at (box_directory sample_store BOX_A @ [ROOT_DISK_FILE]) (dk_root (box_disk_of [1, 10] [7, 7])) = Ok (EFile box_info [7, 7])"
    by code_simp+
  show ?thesis
    using boxes_isolated [OF h(1,2) disjI2 [OF h(3)], of "box_disk_of [1, 10] [7, 7]" "CmdDelete BOX_A"] f by (simp add: is_ok_def)
qed

end
