(* ===== verification/Box_Copy.thy ===== *)
theory Box_Copy
  imports Box_Sample
begin

text \<open>
  A disk is copied by sharing its blocks, by its extents, or buffer by buffer; in each case the copy has the contents of the
  source.
\<close>

section \<open>Copies of disks\<close>

text \<open>
  What \<^verbatim>\<open>lseek\<close> documents, for the contents of a file: \<^verbatim>\<open>SEEK_DATA\<close> finds the next offset with data and skips zeros only, \<^verbatim>\<open>SEEK_HOLE\<close>
  goes forward from an offset with data, and there is no data behind the offset where it answers \<^verbatim>\<open>ENXIO\<close>.
\<close>

definition honest_seeks :: "(nat \<Rightarrow> seek_answer) \<Rightarrow> (nat \<Rightarrow> seek_answer) \<Rightarrow> bytes \<Rightarrow> bool" where
  "honest_seeks seek_data seek_hole content \<longleftrightarrow>
     (\<forall>off d. seek_data off = SeekAt d \<longrightarrow> off \<le> d \<and> (\<forall>i. off \<le> i \<and> i < d \<and> i < length content \<longrightarrow> content ! i = 0)) \<and>
     (\<forall>off. seek_data off = SeekNxio \<longrightarrow> (\<forall>i. off \<le> i \<and> i < length content \<longrightarrow> content ! i = 0)) \<and>
     (\<forall>off h. seek_hole off = SeekAt h \<longrightarrow> off < h)"

text \<open>The copy agrees with the source up to an offset and is zero behind it.\<close>

definition copied_to :: "bytes \<Rightarrow> bytes \<Rightarrow> nat \<Rightarrow> bool" where
  "copied_to source destination off \<longleftrightarrow>
     length destination = length source \<and> (\<forall>i < length source. destination ! i = (if i < off then source ! i else 0))"

lemma copied_to_all: "copied_to source destination off \<Longrightarrow> length source \<le> off \<Longrightarrow> destination = source"
  by (auto simp: copied_to_def intro: nth_equalityI)

lemma copied_to_skip:
  assumes "copied_to source destination off" "off \<le> d" "\<And>i. off \<le> i \<Longrightarrow> i < d \<Longrightarrow> i < length source \<Longrightarrow> source ! i = 0"
  shows "copied_to source destination d"
  using assms by (auto simp: copied_to_def)

lemma copied_to_range:
  assumes "copied_to source destination off" "off \<le> stop" "stop \<le> length source"
  shows "copied_to source (take off destination @ take (stop - off) (drop off source) @ drop stop destination) stop"
proof -
  have len: "length destination = length source" using assms(1) by (simp add: copied_to_def)
  have "(take off destination @ take (stop - off) (drop off source) @ drop stop destination) ! i = (if i < stop then source ! i else 0)"
    if i: "i < length source" for i
  proof (cases "i < off")
    case True
    then show ?thesis using assms i len by (auto simp: nth_append copied_to_def)
  next
    case False
    then show ?thesis using assms i len by (cases "i < stop") (auto simp: nth_append copied_to_def)
  qed
  then show ?thesis using assms len by (simp add: copied_to_def)
qed

lemma copy_extents_exact:
  assumes "honest_seeks seek_data seek_hole source" "len = length source"
  shows "copied_to source destination off \<Longrightarrow> len < fuel + off \<or> len \<le> off \<Longrightarrow>
     copy_extents_from seek_data seek_hole source len fuel destination off = Inr result \<Longrightarrow> result = source"
proof (induction fuel arbitrary: destination off)
  case (Suc fuel)
  show ?case
  proof (cases "off < len")
    case True
    obtain h where h: "seek_hole off = SeekAt h" using Suc.prems(3) True by (cases "seek_hole off") auto
    from Suc.prems(3) True obtain result1 where c: "copy_exact_range source destination off (min h len) = Inr result1"
      and rest: "(if min h len \<ge> len then Ok result1 else (case seek_data (min h len) of
               SeekAt d \<Rightarrow> copy_extents_from seek_data seek_hole source len fuel result1 d
             | SeekNxio \<Rightarrow> Ok result1 | SeekUnsupported e \<Rightarrow> Err e | SeekError e \<Rightarrow> Err e)) = Inr result"
      by (cases "copy_exact_range source destination off (min h len)") (simp_all add: h)
    have "off < h" using assms(1) h by (auto simp: honest_seeks_def)
    then have stop: "off \<le> min h len" "min h len \<le> length source" using True assms(2) by auto
    have upto: "copied_to source result1 (min h len)"
      using copied_to_range [OF Suc.prems(1) stop] c stop by (simp add: copy_exact_range_def split: if_splits)
    show ?thesis
    proof (cases "len \<le> h")
      case True
      then show ?thesis using rest copied_to_all [OF upto] assms(2) by simp
    next
      case False
      then have m: "min h len = h" by simp
      show ?thesis
      proof (cases "seek_data h")
        case (SeekAt d)
        then have d: "h \<le> d" "\<And>i. h \<le> i \<Longrightarrow> i < d \<Longrightarrow> i < length source \<Longrightarrow> source ! i = 0"
          using assms(1) by (auto simp: honest_seeks_def)
        have "copied_to source result1 d" using copied_to_skip [OF upto [unfolded m] d] by simp
        moreover have "len < fuel + d \<or> len \<le> d" using Suc.prems(2) \<open>off < h\<close> d(1) by linarith
        ultimately show ?thesis using Suc.IH rest m SeekAt False by simp
      next
        case SeekNxio
        then have "\<And>i. h \<le> i \<Longrightarrow> i < length source \<Longrightarrow> source ! i = 0" using assms(1) by (auto simp: honest_seeks_def)
        then have "copied_to source result1 len" using copied_to_skip [OF upto [unfolded m], of len] False assms(2) by auto
        then show ?thesis using rest m SeekNxio False copied_to_all assms(2) by auto
      qed (use rest m False in auto)
    qed
  next
    case False
    then show ?thesis using Suc.prems copied_to_all assms(2) by auto
  qed
qed (use assms in auto)

lemma copied_to_zeros: "copied_to source (replicate (length source) 0) 0"
  by (simp add: copied_to_def)

lemma zero_ranges_exact:
  "copied_to source destination position \<Longrightarrow> position + n = length source \<Longrightarrow>
     copy_zero_ranges_from source destination position n = Inr source"
proof (induction source destination position n rule: copy_zero_ranges_from.induct)
  case (1 source destination position n)
  show ?case
  proof (cases "n = 0")
    case True
    then show ?thesis using copied_to_all [OF 1(2)] 1(3) by (simp add: copy_zero_ranges_from.simps)
  next
    case False
    let ?k = "min n COPY_BUFFER_SIZE"
    let ?c = "take ?k (drop position source)"
    let ?d = "if list_all (\<lambda>b. b = 0) ?c then destination else take position destination @ ?c @ drop (position + ?k) destination"
    have len: "\<not> length ?c < ?k" using 1(3) by auto
    have "copied_to source ?d (position + ?k)"
    proof (cases "list_all (\<lambda>b. b = 0) ?c")
      case True
      have "source ! i = 0" if "position \<le> i" "i < position + ?k" "i < length source" for i
      proof -
        have "i - position < length ?c" using that by auto
        then have "?c ! (i - position) = 0" using True unfolding list_all_length by blast
        moreover have "i - position < ?k" "position + (i - position) = i" "position \<le> length source" using that by linarith+
        then have "?c ! (i - position) = source ! i"
          using nth_take [of "i - position" ?k "drop position source"] nth_drop [of position source "i - position"] by metis
        ultimately show ?thesis by simp
      qed
      then show ?thesis using True copied_to_skip [OF 1(2), of "position + ?k"] by simp
    next
      case False
      then show ?thesis using copied_to_range [OF 1(2), of "position + ?k"] 1(3) by auto
    qed
    moreover have "position + ?k + (n - ?k) = length source" using 1(3) by auto
    ultimately show ?thesis
      using 1(1) [OF False refl refl len] False len by (simp add: copy_zero_ranges_from.simps [of source destination position n] Let_def)
  qed
qed

text \<open>A file system that knows extents answers every question about them.\<close>

definition answering :: "(nat \<Rightarrow> seek_answer) \<Rightarrow> (nat \<Rightarrow> seek_answer) \<Rightarrow> bool" where
  "answering seek_data seek_hole \<longleftrightarrow>
     (\<forall>off. (\<exists>d. seek_data off = SeekAt d) \<or> seek_data off = SeekNxio) \<and> (\<forall>off. \<exists>h. seek_hole off = SeekAt h)"

lemma copy_extents_total:
  assumes "honest_seeks seek_data seek_hole source" "answering seek_data seek_hole" "len = length source"
  shows "len < fuel + off \<and> 0 < fuel \<Longrightarrow> \<exists>x. copy_extents_from seek_data seek_hole source len fuel destination off = Inr x"
proof (induction fuel arbitrary: destination off)
  case (Suc fuel)
  obtain h where h1: "seek_hole off = SeekAt h" using assms(2) unfolding answering_def by blast
  then have h: "seek_hole off = SeekAt h" "off < h" using assms(1) unfolding honest_seeks_def by blast+
  have "\<exists>x. copy_exact_range source destination off (min h len) = Inr x" if "off < len"
    using that h assms(3) by (simp add: copy_exact_range_def)
  moreover have "\<exists>x. copy_extents_from seek_data seek_hole source len fuel dest d = Inr x"
    if "off < len" "h < len" "seek_data h = SeekAt d" for d dest
  proof -
    have "h \<le> d" using assms(1) that by (auto simp: honest_seeks_def)
    then show ?thesis using Suc.IH [of d] Suc.prems that h(2) by auto
  qed
  moreover have "seek_data h = SeekNxio \<or> (\<exists>d. seek_data h = SeekAt d)" using assms(2) by (auto simp: answering_def)
  ultimately show ?case using h(1) by (auto simp: min_def)
qed simp

lemma sparse_content_cases:
  assumes "honest_seeks (be_seek_data env p) (be_seek_hole env p) content" "sparse_content env p content = Inr x"
  shows "x = content"
proof -
  let ?z = "replicate (length content) 0"
  from assms(2) obtain r where r: "copy_sparse_extents (be_seek_data env p) (be_seek_hole env p) content ?z (length content) = Inr r"
    and x: "(case r of Some x \<Rightarrow> Ok x | None \<Rightarrow> copy_sparse_zero_ranges content ?z (length content)) = Inr x"
    by (auto simp: sparse_content_def Let_def and_then_Inr_iff)
  have zero: "copy_sparse_zero_ranges content ?z (length content) = Inr content"
    unfolding copy_sparse_zero_ranges_def by (rule zero_ranges_exact [OF copied_to_zeros]) simp
  show ?thesis
  proof (cases r)
    case (Some y)
    have all: "?z = content" if "be_seek_data env p 0 = SeekNxio"
      using assms(1) that by (intro nth_equalityI) (auto simp: honest_seeks_def)
    have ext: "y = content" if "be_seek_data env p 0 = SeekAt d"
      "copy_extents_from (be_seek_data env p) (be_seek_hole env p) content (length content) (Suc (length content)) ?z d = Inr y" for d
    proof -
      have "copied_to content ?z d"
        by (rule copied_to_skip [OF copied_to_zeros]) (use assms(1) that(1) in \<open>auto simp: honest_seeks_def\<close>)
      then show ?thesis using copy_extents_exact [OF assms(1) refl _ _ that(2)] by simp
    qed
    show ?thesis
    proof (cases "length content = 0")
      case False
      then show ?thesis
        using r x Some all ext by (auto simp: copy_sparse_extents_def and_then_Inr_iff split: seek_answer.splits)
    qed (use r x Some in \<open>auto simp: copy_sparse_extents_def\<close>)
  qed (use x zero in auto)
qed



text \<open>A copied disk has the contents of its source.\<close>

lemma create_new_Inr:
  assumes "fs_create_new env (d @ [c]) s = (Inr u, t)"
  shows "\<exists>i es. node_at d (dk_root t) = Inr (EDir i es)"
proof -
  from assms obtain i es where dir: "node_at d (dk_root s) = Inr (EDir i es)"
    by (auto simp: fs_create_new_def and_then_def disk_try_def is_dir_def split: sum.splits option.splits if_splits entry.splits)
  from fs_create_new_at(2) [OF this assms] set_node_parent [OF this] show ?thesis by metis
qed

lemma put_after_create:
  assumes "create_destination env (d @ [c]) s = (Inr u, t)" "put_file env (d @ [c]) bs t = (Inr u', s')"
  shows "(\<exists>k. node_at (d @ [c]) (dk_root s') = Inr (EFile k bs)) \<and> (\<exists>i es. node_at d (dk_root s') = Inr (EDir i es))"
proof -
  have "fs_create_new env (d @ [c]) s = (Inr (), t)"
    using assms(1) by (auto simp: create_destination_def split: prod.splits sum.splits disk_error.splits)
  then obtain i es where dir: "node_at d (dk_root t) = Inr (EDir i es)" using create_new_Inr by blast
  have s': "s' = set_node (d @ [c]) (Some (EFile (de_info env (d @ [c])) bs)) t" using assms(2) by (simp add: put_file_def)
  have "node_at (d @ [c]) (dk_root s') = Inr (EFile (de_info env (d @ [c])) bs)"
    using node_at_change_at [OF dir, of c] by (simp add: s' set_node_def)
  with set_node_parent [OF dir] show ?thesis unfolding s' by blast
qed

lemma open_source_at:
  assumes "node_at p root = Inr (EFile i bs)" "open_source env p root = Inr x"
  shows "x = bs"
  using assms by (auto simp: open_source_def follow_def and_then_def split: sum.splits)

lemma reading_Inr: "reading f s = (Inr x, t) \<longleftrightarrow> f (dk_root s) = Inr x \<and> t = s"
  by (auto simp: reading_def)

lemma native_clone_Inr:
  assumes "native_cow_clone env p (d @ [c]) s = (Inr u, s')" "node_at p (dk_root s) = Inr (EFile i bs)"
  shows "(\<exists>k. node_at (d @ [c]) (dk_root s') = Inr (EFile k bs)) \<and> (\<exists>i es. node_at d (dk_root s') = Inr (EDir i es))"
proof -
  obtain x u1 t u2 where "open_source env p (dk_root s) = Inr x" "create_destination env (d @ [c]) s = (Inr u1, t)"
    "put_file env (d @ [c]) x t = (Inr u2, s')"
    using assms(1) by (auto simp: native_cow_clone_def bind_eff_Inr reading_Inr split: option.splits)
  then show ?thesis using open_source_at [OF assms(2)] put_after_create by blast
qed

lemma sparse_copy_Inr:
  assumes "sparse_copy env p (d @ [c]) s = (Inr u, s')" "node_at p (dk_root s) = Inr (EFile i bs)"
    "honest_seeks (be_seek_data env p) (be_seek_hole env p) bs"
  shows "(\<exists>k. node_at (d @ [c]) (dk_root s') = Inr (EFile k bs)) \<and> (\<exists>i es. node_at d (dk_root s') = Inr (EDir i es))"
proof -
  obtain x u1 t u2 y where x: "open_source env p (dk_root s) = Inr x" and r: "create_destination env (d @ [c]) s = (Inr u1, t)"
    "put_file env (d @ [c]) y t = (Inr u2, s')" and y: "sparse_content env p x = Inr y"
  proof -
    from assms(1) obtain x u1 t where "open_source env p (dk_root s) = Inr x" "create_destination env (d @ [c]) s = (Inr u1, t)"
      and rest: "(case and_then (disk_try env CallUpdate (d @ [c])) (\<lambda>_. sparse_content env p x) of
         Inr copied \<Rightarrow> put_file env (d @ [c]) copied
       | Inl e \<Rightarrow> bind_eff (put_file env (d @ [c]) (de_garbage env (d @ [c]))) (\<lambda>_.
           bind_eff (ignoring (fs_remove_file env (d @ [c]))) (\<lambda>_. lift_eff (Err (BseIo e))))) t = (Inr u, s')"
      by (auto simp: sparse_copy_def bind_eff_Inr reading_Inr)
    then show ?thesis
      by (cases "and_then (disk_try env CallUpdate (d @ [c])) (\<lambda>_. sparse_content env p x)")
        (auto simp: bind_eff_Inr and_then_Inr_iff intro: that)
  qed
  have "y = bs" using sparse_content_cases [OF assms(3)] y open_source_at [OF assms(2) x] by simp
  then show ?thesis using put_after_create r by blast
qed

lemma finish_disk_copy_Inr: "finish_disk_copy env p q l s = (Inr u, t) \<Longrightarrow> t = s"
  by (auto simp: finish_disk_copy_def bind_eff_Inr reading_Inr split: if_splits)

lemma copy_disk_Inr:
  assumes "copy_disk env p (d @ [c]) s = (Inr u, s')" "node_at p (dk_root s) = Inr (EFile i bs)" "apart (d @ [c]) p"
    "honest_seeks (be_seek_data env p) (be_seek_hole env p) bs"
  shows "\<exists>k. node_at (d @ [c]) (dk_root s') = Inr (EFile k bs)"
proof -
  obtain t u1 where either: "(case native_cow_clone env p (d @ [c]) s of
          (Inl (BseCowCloneUnavailable e), s') \<Rightarrow> sparse_copy env p (d @ [c]) s' | r \<Rightarrow> r) = (Inr u1, t)"
    and rest: "on_error (bind_eff (finish_disk_copy env p (d @ [c]) ''source root disk'') (\<lambda>_. box_io (set_file_permissions env (d @ [c]))))
         (ignoring (fs_remove_file env (d @ [c]))) t = (Inr u, s')"
    using assms(1) by (auto simp: copy_disk_def bind_eff_Inr reading_Inr)
  have "(\<exists>k. node_at (d @ [c]) (dk_root t) = Inr (EFile k bs)) \<and> (\<exists>i es. node_at d (dk_root t) = Inr (EDir i es))"
  proof (cases "native_cow_clone env p (d @ [c]) s")
    case (Pair r t1)
    have "untouched {p} s t1" using native_clone_keeps [of "{p}" "d @ [c]" s env p] assms(3) Pair by simp
    then have src: "node_at p (dk_root t1) = Inr (EFile i bs)" using assms(2) by (simp add: untouched_def)
    show ?thesis
      using either native_clone_Inr [OF _ assms(2)] sparse_copy_Inr [OF _ src assms(4)] Pair
      by (auto split: sum.splits BoxStoreError.splits)
  qed
  then obtain k i es where f: "node_at (d @ [c]) (dk_root t) = Inr (EFile k bs)" "node_at d (dk_root t) = Inr (EDir i es)" by blast
  have "fs_set_permissions env (d @ [c]) MODE_0600 t = (Inr u, s')"
    using rest by (auto simp: on_error_def bind_eff_Inr box_io_Inr set_file_permissions_def dest!: finish_disk_copy_Inr split: prod.splits sum.splits)
  with set_permissions_node [OF f(2,1), of env MODE_0600] show ?thesis by simp
qed

end
