(* ===== verification/Box_Ready.thy ===== *)
theory Box_Ready
  imports Box_Isolation Box_Copy
begin

text \<open>
  The state that the metadata file of a box records, and which commands can turn it to ready: none does for a box that
  exists and is not ready, but a reset, which has then put a copy of its source in the place of the disk.
\<close>

section \<open>The recorded state of a box\<close>

text \<open>The state that a reader of the metadata file finds; older schemas turn a ready box into a dirty one.\<close>

definition effective_state :: "BoxMetadata \<Rightarrow> BoxState" where
  "effective_state m =
     (if bm_schema_version m = LEGACY_SCHEMA_VERSION \<or> bm_schema_version m = PREVIOUS_SCHEMA_VERSION
      then bm_state (migrated_metadata m) else bm_state m)"

definition recorded :: "(bytes \<Rightarrow> (BoxMetadata, string) result) \<Rightarrow> BoxStore \<Rightarrow> uuid \<Rightarrow> disk \<Rightarrow> BoxState option" where
  "recorded parse store y s =
     (case node_at (meta_path store y) (dk_root s) of
        Inr (EFile _ bs) \<Rightarrow> (case parse bs of Inr m \<Rightarrow> Some (effective_state m) | Inl _ \<Rightarrow> None)
      | _ \<Rightarrow> None)"

text \<open>What was written is read back (crate \<^verbatim>\<open>serde_json\<close>).\<close>

definition json_roundtrip :: "box_env \<Rightarrow> bool" where
  "json_roundtrip env \<longleftrightarrow> (\<forall>m bs. be_box_json env m = Ok bs \<longrightarrow> be_parse_box env (bs @ [10]) = Ok m)"

definition unready :: "(bytes \<Rightarrow> (BoxMetadata, string) result) \<Rightarrow> BoxStore \<Rightarrow> uuid \<Rightarrow> disk \<Rightarrow> disk \<Rightarrow> bool" where
  "unready parse store y s s' \<longleftrightarrow> (recorded parse store y s \<noteq> Some Ready \<longrightarrow> recorded parse store y s' \<noteq> Some Ready)"

interpretation unready: eff_relation "unready parse store y" for parse store y
  by unfold_locales (auto simp: unready_def)

lemma untouched_unready: "untouched P s s' \<Longrightarrow> meta_path store y \<in> P \<Longrightarrow> unready parse store y s s'"
  by (simp add: unready_def recorded_def untouched_def)

lemma vital_unready: "untouched (vital store y) s s' \<Longrightarrow> unready parse store y s s'"
  by (rule untouched_unready [where P = "vital store y"]) (auto simp: vital_def)

lemma other_unready: "untouched (elsewhere store x) s s' \<Longrightarrow> x \<noteq> y \<Longrightarrow> \<not> starts_with ''.'' y \<Longrightarrow> unready parse store y s s'"
  using vital_elsewhere [of x y store] by (auto intro!: untouched_unready simp: vital_def)

lemma effective_not_ready: "bm_state m \<noteq> Ready \<Longrightarrow> effective_state m \<noteq> Ready"
  by (simp add: effective_state_def migrated_metadata_def)

lemma recorded_written:
  assumes "json_roundtrip env" "be_box_json env m = Ok bs" "node_at (meta_path store y) (dk_root s) = Inr (EFile k (bs @ [10]))"
  shows "recorded (be_parse_box env) store y s = Some (effective_state m)"
  using assms by (simp add: recorded_def json_roundtrip_def)

lemma write_unready:
  assumes "json_roundtrip env" "bm_state m \<noteq> Ready \<or> recorded (be_parse_box env) store y s = Some Ready"
  shows "unready (be_parse_box env) store y s (snd (box_write_json_atomic env (box_directory store y @ [METADATA_FILE]) (be_box_json env m) s))"
proof (cases "box_write_json_atomic env (box_directory store y @ [METADATA_FILE]) (be_box_json env m) s")
  case (Pair r s')
  from write_json_outcome [OF file_names(4) Pair] show ?thesis
  proof (elim disjE exE conjE)
    fix bs k assume "be_box_json env m = Ok bs" "node_at (box_directory store y @ [METADATA_FILE]) (dk_root s') = Inr (EFile k (bs @ [10]))"
    then have "recorded (be_parse_box env) store y s' = Some (effective_state m)"
      using recorded_written [OF assms(1)] by (simp add: meta_path_def)
    then show ?thesis using assms(2) effective_not_ready Pair by (auto simp: unready_def)
  qed (simp add: Pair unready_def recorded_def meta_path_def)
qed

lemma write_recorded:
  assumes "json_roundtrip env" "box_write_json_atomic env (box_directory store y @ [METADATA_FILE]) (be_box_json env m) s = (Inr u, s')"
  shows "recorded (be_parse_box env) store y s' = Some (effective_state m)"
  using write_json_outcome [OF file_names(4) assms(2)] recorded_written [OF assms(1)] by (auto simp: meta_path_def)

lemma read_box_metadata_Inr:
  assumes "read_box_metadata env p x root = Inr (m, b)" "node_at p root = Inr (EFile i bs)"
  shows "\<exists>v k. be_parse_box env bs = Inr v \<and> (if b then bm_schema_version v = LEGACY_SCHEMA_VERSION \<or> bm_schema_version v = PREVIOUS_SCHEMA_VERSION
      else bm_schema_version v = BOX_SCHEMA_VERSION) \<and> m = (if b then migrated_metadata v else v)\<lparr>bm_physical_size_bytes := k\<rparr>"
proof -
  have "fs_read_file env p root = Inr x \<Longrightarrow> x = bs" for x
    using assms(2) by (auto simp: fs_read_file_def follow_def and_then_def split: sum.splits)
  then show ?thesis
    using assms(1) unfolding read_box_metadata_def Let_def
    by (auto simp: and_then_Inr_iff map_err_Inr_iff split: if_splits)
qed

lemma schema_versions [simp]: "BOX_SCHEMA_VERSION \<noteq> LEGACY_SCHEMA_VERSION" "BOX_SCHEMA_VERSION \<noteq> PREVIOUS_SCHEMA_VERSION"
  by (simp_all add: BOX_SCHEMA_VERSION_def LEGACY_SCHEMA_VERSION_def PREVIOUS_SCHEMA_VERSION_def)

lemma read_recorded:
  assumes "read_box_metadata env (box_directory store y @ [METADATA_FILE]) x (dk_root s) = Inr (m, b)"
    "node_at (box_directory store y @ [METADATA_FILE]) (dk_root s) = Inr (EFile i bs)"
  shows "recorded (be_parse_box env) store y s = Some (bm_state m)" "b \<Longrightarrow> bm_state m \<noteq> Ready" "bm_schema_version m = BOX_SCHEMA_VERSION"
  using read_box_metadata_Inr [OF assms] assms(2)
  by (auto simp: recorded_def meta_path_def effective_state_def migrated_metadata_def split: if_splits)

lemma effective_current: "bm_schema_version m = BOX_SCHEMA_VERSION \<Longrightarrow> effective_state m = bm_state m"
  by (simp add: effective_state_def)

section \<open>Which commands keep a box from being ready\<close>

abbreviation "meta_is_file store y s \<equiv> \<exists>i bs. node_at (box_directory store y @ [METADATA_FILE]) (dk_root s) = Inr (EFile i bs)"

lemma open_lock_meta:
  assumes "open_lock_file env (box_directory store y @ [LOCK_FILE]) s = (r, t)"
  shows "node_at (box_directory store y @ [METADATA_FILE]) (dk_root t) = node_at (box_directory store y @ [METADATA_FILE]) (dk_root s)"
  using open_lock_file_keeps [of "vital store y" "box_directory store y @ [LOCK_FILE]" s env] vital_apart(3) [of _ store y LOCK_FILE] assms
  by (auto simp: untouched_def vital_def meta_path_def)

lemma lock_unready: "unready parse store y s (snd (open_lock_file env (box_directory store y @ [LOCK_FILE]) s))"
  by (intro vital_unready open_lock_file_keeps vital_apart(3)) auto

lemma checked_unready: "unready parse store y s (snd (checked_paths env store x s))"
  by (intro vital_unready checked_paths_keeps vital_apart(1))

lemma migrate_unready:
  assumes "json_roundtrip env" "read_box_metadata env (box_directory store y @ [METADATA_FILE]) x (dk_root s) = Inr (m, True)" "meta_is_file store y s"
  shows "unready (be_parse_box env) store y s (snd (box_write_json_atomic env (box_directory store y @ [METADATA_FILE]) (be_box_json env m) s))"
  using read_recorded(2) [OF assms(2)] assms(3) by (auto intro: write_unready [OF assms(1)])

lemma migrate_opened_unready:
  assumes "json_roundtrip env" "open_lock_file env (box_directory store y @ [LOCK_FILE]) s = (r, t)" "meta_is_file store y s"
    "read_box_metadata env (box_directory store y @ [METADATA_FILE]) x (dk_root t) = Inr (m, True)"
  shows "unready (be_parse_box env) store y t (snd (box_write_json_atomic env (box_directory store y @ [METADATA_FILE]) (be_box_json env m) t))"
  using migrate_unready [OF assms(1,4)] open_lock_meta [OF assms(2)] assms(3) by simp

lemma get_unready:
  assumes "json_roundtrip env"
  shows "unready (be_parse_box env) store y s (snd (box_get env store y s))"
  unfolding box_get_def
proof (rule unready.bind [OF checked_unready])
  fix paths t assume "checked_paths env store y s = (Inr paths, t)"
  note c = checked_paths_Inr [OF this]
  have m: "meta_is_file store y t" by (rule c(2))
  show "unready (be_parse_box env) store y t (snd (bind_eff (reading (read_box_metadata env (bp_metadata paths) y))
      (\<lambda>(m, migrated). if migrated then migrate_metadata_if_idle env paths m else lift_eff (Ok m)) t))"
    unfolding c(1) migrate_metadata_if_idle_def
    by (auto intro!: unready.bind unready.same lock_unready simp: reading_Inr split: option.splits)
      (erule migrate_opened_unready [OF assms _ m])
qed

lemma try_acquire_unready:
  assumes "json_roundtrip env"
  shows "unready (be_parse_box env) store y s (snd (try_acquire env store y s))"
  unfolding try_acquire_def
proof (rule unready.bind [OF checked_unready])
  fix paths t assume "checked_paths env store y s = (Inr paths, t)"
  note c = checked_paths_Inr [OF this]
  have m: "meta_is_file store y t" by (rule c(2))
  show "unready (be_parse_box env) store y t (snd (bind_eff (open_lock_file env (bp_lock paths)) (\<lambda>_.
     bind_eff (lift_eff (map_err (BseBusy y) (disk_try env CallTryLock (bp_lock paths)))) (\<lambda>_.
     bind_eff (reading (read_box_metadata env (bp_metadata paths) y)) (\<lambda>(m, migrated).
     bind_eff (if migrated then box_write_json_atomic env (bp_metadata paths) (be_box_json env m) else lift_eff (Ok ())) (\<lambda>_.
       if bm_state m = NeedsRepair then lift_eff (Err (BseNeedsRepair y))
       else
         bind_eff (reading (validate_regular_file env (bp_disk paths) ''box root disk'')) (\<lambda>_.
           lift_eff (Ok \<lparr>bl_directory = bp_directory paths, bl_disk_path = bp_disk paths, bl_metadata = m\<rparr>)))))) t))"
    unfolding c(1)
    by (auto intro!: unready.bind unready.same lock_unready simp: reading_Inr) (erule migrate_opened_unready [OF assms _ m])
qed

lemma try_acquire_recorded:
  assumes "json_roundtrip env" "try_acquire env store y s = (Inr l, t)"
  shows "recorded (be_parse_box env) store y t = Some (bm_state (bl_metadata l)) \<and>
    bm_schema_version (bl_metadata l) = BOX_SCHEMA_VERSION \<and> meta_is_file store y t"
proof -
  obtain paths t1 where c: "checked_paths env store y s = (Inr paths, t1)" using assms(2) by (auto simp: try_acquire_def bind_eff_Inr)
  note p = checked_paths_Inr [OF c]
  obtain u t2 m b v where o: "open_lock_file env (box_directory store y @ [LOCK_FILE]) t1 = (Inr u, t2)"
    and r: "read_box_metadata env (box_directory store y @ [METADATA_FILE]) y (dk_root t2) = Inr (m, b)"
    and w: "(if b then box_write_json_atomic env (box_directory store y @ [METADATA_FILE]) (be_box_json env m) else lift_eff (Ok ())) t2 = (Inr v, t)"
    and l: "bl_metadata l = m"
    using assms(2) by (auto simp: try_acquire_def bind_eff_Inr c p(1) reading_Inr split: if_splits)
  obtain i bs where f: "node_at (box_directory store y @ [METADATA_FILE]) (dk_root t2) = Inr (EFile i bs)"
    using open_lock_meta [OF o] p(2) by metis
  note rec = read_recorded [OF r f]
  show ?thesis
  proof (cases b)
    case True
    with w have "box_write_json_atomic env (box_directory store y @ [METADATA_FILE]) (be_box_json env m) t2 = (Inr v, t)" by simp
    with write_recorded [OF assms(1) this] write_json_outcome [OF file_names(4) this] show ?thesis
      by (auto simp: l effective_current [OF rec(3)] rec(3))
  qed (use w rec f l in auto)
qed

lemma lease_write_unready:
  assumes "json_roundtrip env" "try_acquire env store y s = (Inr l, t)" "bm_state m = bm_state (bl_metadata l) \<or> bm_state m \<noteq> Ready"
  shows "unready (be_parse_box env) store y t (snd (box_write_json_atomic env (box_directory store y @ [METADATA_FILE]) (be_box_json env m) t))"
  using try_acquire_recorded [OF assms(1,2)] assms(3) by (intro write_unready [OF assms(1)]) auto

lemma update_unready:
  assumes "json_roundtrip env" "\<not> starts_with ''.'' y"
  shows "unready (be_parse_box env) store y s (snd (box_update env store y u s))"
proof -
  have st: "bm_state (updated_metadata u now m) = bm_state m" for now m by (simp add: updated_metadata_def)
  show ?thesis
    unfolding box_update_def Let_def
    by (auto intro!: unready.bind unready.same vital_unready [OF ensure_root_keeps] vital_unready [OF secure_directory_keeps]
        vital_unready [OF lock_index_vital [OF assms(2)]] try_acquire_unready [OF assms(1)] lease_write_unready [OF assms(1)]
        simp: vital_apart try_acquire_Inr(1) st)
qed

text \<open>After a directory has moved away, nothing is recorded under its old name.\<close>

lemma rename_away_unready:
  assumes "\<And>p. p \<in> vital store y \<Longrightarrow> apart b p"
  shows "unready parse store y s (snd (fs_rename env (box_directory store y) b s))"
proof (cases "fs_rename env (box_directory store y) b s")
  case (Pair r s')
  show ?thesis
  proof (cases r)
    case (Inl e)
    then show ?thesis using fs_rename_Err [OF Pair [unfolded Inl]] Pair by (simp add: unready.same)
  next
    case (Inr u)
    then obtain n where n: "node_at (box_directory store y) (dk_root s) = Inr n"
      and s': "s' = set_node b (Some n) (set_node (box_directory store y) None s)"
      using Pair by (auto simp: fs_rename_def and_then_def split: sum.splits if_splits entry.splits)
    have "node_at (box_directory store y) (dk_root (set_node (box_directory store y) None s)) = Err DeNotFound"
      using removed_gone [OF n] by (simp add: box_directory_def)
    then have "node_at (meta_path store y) (dk_root (set_node (box_directory store y) None s)) = Err DeNotFound"
      by (simp add: meta_path_def node_at_append)
    moreover have "node_at (meta_path store y) (dk_root s') = node_at (meta_path store y) (dk_root (set_node (box_directory store y) None s))"
      unfolding s' by (rule set_node_apart) (simp add: assms vital_def)
    ultimately show ?thesis using Pair by (simp add: unready_def recorded_def)
  qed
qed

lemma delete_unready:
  assumes "json_roundtrip env" "\<not> starts_with ''.'' y"
  shows "unready (be_parse_box env) store y s (snd (box_delete env store y s))"
  unfolding box_delete_def
  by (auto intro!: unready.bind unready.same try_acquire_unready [OF assms(1)] vital_unready [OF temporary_path_keeps]
      rename_away_unready vital_unready [OF remove_dir_all_keeps]
      simp: try_acquire_Inr(1) dotted_apart [OF assms(2)] dest!: temporary_path_Inr)

lemma box_get_unready: "json_roundtrip env \<Longrightarrow> \<not> starts_with ''.'' y \<Longrightarrow> unready (be_parse_box env) store y s (snd (box_get env store x s))"
  by (cases "x = y") (auto intro: get_unready other_unready [OF box_get_keeps])

lemma acquire_unready: "json_roundtrip env \<Longrightarrow> \<not> starts_with ''.'' y \<Longrightarrow> unready (be_parse_box env) store y s (snd (try_acquire env store x s))"
  by (cases "x = y") (auto intro: try_acquire_unready other_unready [OF try_acquire_keeps])

lemma scan_unready:
  assumes "json_roundtrip env" "\<not> starts_with ''.'' y"
  shows "unready (be_parse_box env) store y s (snd (box_scan env store s))"
proof -
  have entry: "unready (be_parse_box env) store y s (snd (scan_entry env store c scan s))" for c scan s
  proof -
    have "unready (be_parse_box env) store y s s'" if "box_get env store x s = (r, s')" for x r s'
      using box_get_unready [OF assms, of store s x] that by simp
    then show ?thesis
      unfolding scan_entry_def Let_def by (auto simp: unready.same split: option.splits prod.splits sum.splits)
  qed
  have "unready (be_parse_box env) store y s (snd (scan_entries env store es scan s))" for es scan s
  proof (induction es arbitrary: scan s)
    case (Cons e es)
    show ?case by (cases e) (auto intro: unready.bind entry Cons.IH)
  qed (simp add: unready.same)
  then show ?thesis
    unfolding box_scan_def by (auto intro!: unready.bind unready.same vital_unready [OF ensure_root_keeps] simp: vital_apart)
qed

lemma quarantine_unready:
  assumes "corrupt_ok env store e" "\<And>p. p \<in> vital store y \<Longrightarrow> apart batch p"
  shows "unready parse store y s (snd (quarantine_entry env e batch s))"
proof -
  have src: "ce_source e = boxes_directory store @ [ce_name e]" using assms(1) by (simp add: corrupt_ok_def)
  have lock: "unready parse store y s (snd (lock_for_quarantine env (ce_source e) i s))" for i s
  proof -
    have "apart (ce_source e @ [LOCK_FILE]) p" if "p \<in> vital store y" for p
      using vital_apart(3) [OF that, of LOCK_FILE] vital_apart(5) [OF that, of "ce_name e" "[LOCK_FILE]"]
      by (cases "ce_name e = y") (auto simp: src box_directory_def)
    then show ?thesis
      unfolding lock_for_quarantine_def Let_def by (intro vital_unready) (auto intro!: frames)
  qed
  have ren: "unready parse store y s (snd (fs_rename env (ce_source e) (batch @ [ce_name e]) s))" for s
  proof (cases "ce_name e = y")
    case True
    then show ?thesis
      using rename_away_unready [of store y "batch @ [ce_name e]" parse s env] assms(2) by (simp add: src box_directory_def apart_below)
  next
    case False
    then show ?thesis
      by (intro vital_unready rename_keeps) (auto simp: src vital_apart apart_below assms(2))
  qed
  show ?thesis
    unfolding quarantine_entry_def Let_def
    by (auto intro!: unready.bind unready.same lock ren split: option.splits)
qed

lemma quarantine_all_unready:
  assumes "list_all (corrupt_ok env store) es" "\<And>p. p \<in> vital store y \<Longrightarrow> apart batch p"
  shows "unready parse store y s (snd (quarantine_all env batch es report s))"
  using assms(1)
proof (induction es arbitrary: report s)
  case (Cons e es)
  have one: "unready parse store y s (snd (quarantine_entry env e batch s))"
    using Cons.prems by (intro quarantine_unready assms(2)) simp
  have rest: "unready parse store y t (snd (quarantine_all env batch es report t))" for report t using Cons by simp
  show ?case
    using one rest
    by (cases "quarantine_entry env e batch s"; cases "fst (quarantine_entry env e batch s)") (auto intro: unready.trans)
qed (simp add: unready.same)

lemma repair_unready:
  assumes "json_roundtrip env" "\<not> starts_with ''.'' y"
  shows "unready (be_parse_box env) store y s (snd (box_repair env store b s))"
proof -
  note q = quarantine_apart [where r = "[]", simplified] quarantine_apart [where r = "[c]" for c, simplified]
  show ?thesis
    unfolding box_repair_def Let_def
    by (auto intro!: unready.bind unready.same scan_unready assms vital_unready [OF secure_directory_keeps]
        vital_unready [OF fetch_sequence_keeps] quarantine_all_unready scan_corrupt apart_not_prefix q)
qed

text \<open>A command other than a reset does not make a box ready that exists.\<close>

lemma create_unready:
  "\<not> starts_with ''.'' y \<Longrightarrow> present store y s \<Longrightarrow> unready parse store y s (snd (box_create env store request source s))"
  using create_guarded [of y store s env request source] by (intro vital_unready) (simp add: guarded_def)

lemma command_unready:
  assumes "json_roundtrip env" "\<not> starts_with ''.'' y" "present store y s" "\<And>source. cmd \<noteq> CmdReset y source"
  shows "unready (be_parse_box env) store y s (run_command env store cmd s)"
proof (cases cmd)
  case (CmdUpdate x u)
  then show ?thesis by (cases "x = y") (auto intro: update_unready [OF assms(1,2)] other_unready [OF box_update_keeps _ assms(2)])
next
  case (CmdDelete x)
  then show ?thesis by (cases "x = y") (auto intro: delete_unready [OF assms(1,2)] other_unready [OF box_delete_keeps _ assms(2)])
next
  case (CmdReset x source)
  then show ?thesis using assms(4) by (auto intro: other_unready [OF box_reset_keeps _ assms(2)])
next
  case (CmdClone x)
  show ?thesis
    unfolding CmdClone run_command.simps clone_box_def Let_def
  proof (rule unready.bind [OF acquire_unready [OF assms(1,2)]])
    fix l t assume a: "try_acquire env store x s = (Inr l, t)"
    have "present store y t"
    proof (cases "x = y")
      case True
      then show ?thesis using try_acquire_recorded [OF assms(1) a [unfolded True]] by (auto simp: present_def meta_path_def)
    next
      case False
      then show ?thesis
        using try_acquire_keeps [of store x s env] a assms(3) vital_elsewhere [OF False assms(2), of store]
        by (auto simp: untouched_def present_def vital_def)
    qed
    then show "unready (be_parse_box env) store y t (snd (box_create env store (with_tags (bm_tags (bl_metadata l)) (with_labels (bm_labels (bl_metadata l))
        (create_box_new (bm_manifest_digest (bl_metadata l)) (bm_platform (bl_metadata l)) (bm_virtual_size_bytes (bl_metadata l))))) (bl_disk_path l) t))"
      by (rule create_unready [OF assms(2)])
  qed
next
  case (CmdList query)
  then show ?thesis
    by (auto intro!: unready.bind unready.same scan_unready [OF assms(1,2)] simp: list_with_def Let_def)
qed (auto intro: create_unready [OF assms(2,3)] repair_unready [OF assms(1,2)] vital_unready [OF collect_keeps [OF assms(2)]]
    box_get_unready [OF assms(1,2)])

section \<open>A reset makes a box ready with the disk it was given\<close>

lemma file_names_sym [simp]: "CHR ''.'' # d \<noteq> METADATA_FILE" "CHR ''.'' # d \<noteq> ROOT_DISK_FILE" "ROOT_DISK_FILE \<noteq> METADATA_FILE"
  using file_names by metis+

lemma reset_names: "c \<in> {METADATA_FILE, ROOT_DISK_FILE} \<Longrightarrow> apart (reset_temporary (box_directory store y) n) (box_directory store y @ [c])"
  by (auto simp: reset_temporary_def apart_def)

lemma copy_vital: "untouched (vital store y) s (snd (copy_disk env source (reset_temporary (box_directory store y) n) s))"
  by (rule copy_disk_keeps) (auto simp: vital_def meta_path_def disk_path_of_def reset_names)

lemma bind_unready_outcome:
  assumes "bind_eff m f s = (r, s')" "unready parse store y s (snd (m s))"
  shows "unready parse store y s s' \<or> (\<exists>x t. m s = (Inr x, t) \<and> unready parse store y s t \<and> f x t = (r, s'))"
  using assms by (cases "m s") (auto simp: bind_eff_def split: sum.splits)

lemma write_keeps_disk:
  assumes "box_write_json_atomic env (box_directory store y @ [METADATA_FILE]) json s = (r, s')"
  shows "node_at (disk_path_of store y) (dk_root s') = node_at (disk_path_of store y) (dk_root s)"
  using write_json_keeps [of "{disk_path_of store y}" "box_directory store y @ [METADATA_FILE]" env s json] assms
  by (auto simp: untouched_def disk_path_of_def apart_def metadata_temporary_def)

definition publish_reset :: "box_env \<Rightarrow> BoxLease \<Rightarrow> BoxMetadata box_op" where
  "publish_reset env l =
     bind_eff (reading (allocated_size_bytes env (bl_disk_path l))) (\<lambda>allocated.
     bind_eff (lift_eff (now_unix_millis env)) (\<lambda>now.
       let m = (bl_metadata l)\<lparr>bm_generation := saturating_add (bm_generation (bl_metadata l)) 1,
                  bm_state := Ready, bm_physical_size_bytes := allocated, bm_updated_at_unix_ms := now\<rparr> in
       bind_eff (box_write_json_atomic env (bl_directory l @ [METADATA_FILE]) (be_box_json env m)) (\<lambda>_.
         lift_eff (Ok m))))"

lemma reset_steps:
  assumes "json_roundtrip env" "box_reset env store y source s = (r, s')"
  shows "unready (be_parse_box env) store y s s' \<or>
    (\<exists>l t n t'. try_acquire env store y s = (Inr l, t) \<and> unready (be_parse_box env) store y s t \<and> dk_root t' = dk_root t \<and>
      bind_eff (copy_disk env source (reset_temporary (bl_directory l) n)) (\<lambda>_.
        bind_eff (box_io (fs_rename env (reset_temporary (bl_directory l) n) (bl_disk_path l))) (\<lambda>_. publish_reset env l)) t' = (r, s'))"
proof -
  have R: "unready (be_parse_box env) store y s t" if "try_acquire env store y s = (r, t)" for r t
    using try_acquire_unready [OF assms(1), of store y s] that by simp
  show ?thesis
    using assms(2) R
    by (auto simp: box_reset_def bind_eff_def [of "reading _"] bind_eff_def [of "try_acquire _ _ _"] bind_eff_def [of fetch_sequence]
        reading_def fetch_sequence_def Let_def publish_reset_def [abs_def] unready.same split: sum.splits prod.splits if_splits)
qed

lemma publish_reset_disk: "bl_directory l = box_directory store y \<Longrightarrow> publish_reset env l s = (r, s') \<Longrightarrow>
    node_at (disk_path_of store y) (dk_root s') = node_at (disk_path_of store y) (dk_root s)"
  using write_keeps_disk [of env store y]
  by (auto simp: publish_reset_def Let_def bind_eff_def reading_def lift_eff_def split: sum.splits prod.splits)

lemma reset_outcome:
  assumes "json_roundtrip env" "box_reset env store y source s = (r, s')" "node_at source (dk_root s) = Inr (EFile i bs)"
    "honest_seeks (be_seek_data env source) (be_seek_hole env source) bs" "source \<in> elsewhere store y"
  shows "unready (be_parse_box env) store y s s' \<or> (\<exists>k. node_at (disk_path_of store y) (dk_root s') = Inr (EFile k bs))"
  using reset_steps [OF assms(1,2)]
proof (elim disjE exE conjE)
  fix l t n t'
  let ?temp = "reset_temporary (box_directory store y) n"
  let ?disk = "box_directory store y @ [ROOT_DISK_FILE]"
  assume acq: "try_acquire env store y s = (Inr l, t)" and R: "unready (be_parse_box env) store y s t" "dk_root t' = dk_root t"
    and run: "bind_eff (copy_disk env source (reset_temporary (bl_directory l) n)) (\<lambda>_.
        bind_eff (box_io (fs_rename env (reset_temporary (bl_directory l) n) (bl_disk_path l))) (\<lambda>_. publish_reset env l)) t' = (r, s')"
  note l = try_acquire_Inr(1,2) [OF acq]
  have stays: ?thesis if "untouched (vital store y) t' s'"
    using that R by (auto simp: unready_def recorded_def untouched_def vital_def)
  have src: "node_at source (dk_root t') = Inr (EFile i bs)"
    using try_acquire_keeps [of store y s env] acq R(2) assms(3,5) by (simp add: untouched_def)
  from bind_outcome [OF run [unfolded l] copy_vital] show ?thesis
  proof (elim disjE exE conjE)
    fix u q
    assume c: "copy_disk env source ?temp t' = (Inr u, q)" "untouched (vital store y) t' q"
      and rest: "bind_eff (box_io (fs_rename env ?temp ?disk)) (\<lambda>_. publish_reset env l) q = (r, s')"
    have "apart ?temp source" using assms(5) elsewhereD(5) by (simp add: reset_temporary_def)
    with copy_disk_Inr [OF c(1) [unfolded reset_temporary_def] src _ assms(4)]
    obtain k where k: "node_at ?temp (dk_root q) = Inr (EFile k bs)" by (auto simp: reset_temporary_def)
    show ?thesis
    proof (cases "fs_rename env ?temp ?disk q")
      case (Pair r1 q1)
      show ?thesis
      proof (cases r1)
        case (Inl e)
        with Pair rest fs_rename_Err [of env ?temp ?disk q e q1] have "s' = q" by (auto simp: bind_eff_def box_io_def)
        then show ?thesis using stays c(2) by simp
      next
        case (Inr u1)
        have "node_at ?disk (dk_root q1) = Inr (EFile k bs)"
          using fs_rename_Ok [of env "box_directory store y" _ ROOT_DISK_FILE q u1 q1, OF _ k [unfolded reset_temporary_def]] Pair Inr
          by (simp add: reset_temporary_def)
        moreover have "publish_reset env l q1 = (r, s')" using Pair Inr rest by (simp add: bind_eff_def box_io_def)
        ultimately show ?thesis using publish_reset_disk [OF l(1)] by (simp add: disk_path_of_def)
      qed
    qed
  qed (rule stays)
qed simp

end
