(* ===== verification/Box_Life.thy ===== *)
theory Box_Life
  imports Box_Ready Box_Run
begin

text \<open>
  The life of boxes: commands of the store, runs that take a box, write its disk and end, and crashes, in any order and with
  any failures. A box whose disk a guest has written is not recorded as ready until its file system was checked or its disk was replaced.
\<close>

section \<open>The operations of a run\<close>

definition leased :: "BoxStore \<Rightarrow> uuid \<Rightarrow> BoxLease \<Rightarrow> bool" where
  "leased store x l \<longleftrightarrow> bl_directory l = box_directory store x \<and> bl_disk_path l = disk_path_of store x \<and> lease_id l = x \<and>
     bm_schema_version (bl_metadata l) = BOX_SCHEMA_VERSION"

lemma leasedD:
  assumes "leased store x l"
  shows "bl_directory l = box_directory store x" "bl_disk_path l = disk_path_of store x" "lease_id l = x"
    "bm_schema_version (bl_metadata l) = BOX_SCHEMA_VERSION"
  using assms by (auto simp: leased_def)

lemma rewrite_disk_keeps: "(\<And>p. p \<in> P \<Longrightarrow> apart q p) \<Longrightarrow> untouched P s (rewrite_disk q bs s)"
  by (auto simp: rewrite_disk_def keep.same split: sum.splits entry.splits intro!: set_node_keeps)

lemma rewrite_disk_meta: "untouched {meta_path store y} s (rewrite_disk (disk_path_of store x) bs s)"
  by (rule rewrite_disk_keeps) (auto simp: meta_path_def disk_path_of_def box_directory_def apart_def)

lemma rewrite_disk_elsewhere: "untouched (elsewhere store x) s (rewrite_disk (disk_path_of store x) bs s)"
  by (rule rewrite_disk_keeps) (simp add: disk_path_of_def elsewhere_in_box)

lemma store_op_snd [simp]: "snd (store_op m s) = snd (m s)"
  by (simp add: store_op_def split: prod.splits)

lemma store_op_Inr [simp]: "store_op m s = (Inr x, t) \<longleftrightarrow> m s = (Inr x, t)"
  by (auto simp: store_op_def map_err_Inr_iff split: prod.splits)

lemma transition_Inr:
  assumes "json_roundtrip env" "leased store x l" "transition_state env store l expected st used s = (Inr l', t)"
  shows "leased store x l' \<and> bm_state (bl_metadata l') = st \<and> bm_state (bl_metadata l) = expected \<and>
    recorded (be_parse_box env) store x t = Some st \<and> present store x t"
proof -
  note l = leasedD [OF assms(2)]
  obtain now u where m: "l' = l\<lparr>bl_metadata := next_metadata st used now (bl_metadata l)\<rparr>" "bm_state (bl_metadata l) = expected"
    and w: "box_write_json_atomic env (box_directory store x @ [METADATA_FILE])
      (be_box_json env (next_metadata st used now (bl_metadata l))) s = (Inr u, t)"
    using assms(3) l(1) by (auto simp: transition_state_def bind_eff_Inr Let_def split: if_splits)
  have f: "bm_state (next_metadata st used now (bl_metadata l)) = st" "bm_schema_version (next_metadata st used now (bl_metadata l)) = BOX_SCHEMA_VERSION"
    "bm_box_id (next_metadata st used now (bl_metadata l)) = x"
    using l(3,4) by (auto simp: next_metadata_def Let_def lease_id_def)
  have "present store x t" using write_json_outcome [OF file_names(4) w] by (auto simp: present_def meta_path_def is_ok_def)
  then show ?thesis
    using write_recorded [OF assms(1) w] m l f by (simp add: effective_current leased_def lease_id_def)
qed

lemma transition_unready:
  assumes "json_roundtrip env" "leased store x l" "st \<noteq> Ready"
  shows "unready (be_parse_box env) store x s (snd (transition_state env store l expected st used s))"
proof -
  have "bm_state (next_metadata st used now m) \<noteq> Ready" for now m using assms(3) by (simp add: next_metadata_def Let_def)
  then show ?thesis
    unfolding transition_state_def Let_def leasedD(1,3) [OF assms(2)]
    by (auto intro!: unready.bind unready.same write_unready [OF assms(1)])
qed

lemma acquired_leased: "json_roundtrip env \<Longrightarrow> try_acquire env store x s = (Inr l, t) \<Longrightarrow> leased store x l"
  using try_acquire_Inr(1-3) [of env store x s l t] try_acquire_recorded [of env store x s l t]
  by (simp add: leased_def disk_path_of_def)

lemma transition_of_keeps: "leased store x l \<Longrightarrow> untouched (elsewhere store x) s (snd (transition_state env store l expected st used s))"
  using transition_keeps leasedD(3) by metis

lemma fsck_keeps:
  assumes "leased store x l"
  shows "untouched (elsewhere store x) s (snd (repair_dirty_box env store fsck l s))"
  unfolding repair_dirty_box_def Let_def finish_repair_def mark_needs_repair_def leasedD(2) [OF assms]
  by (auto intro!: keep.same rewrite_disk_elsewhere intro: keep.trans [OF rewrite_disk_elsewhere] transition_of_keeps [OF assms]
      simp: snd_bind_result split: fsck_outcome.splits)

definition repaired_by :: "fsck_outcome \<Rightarrow> bool" where
  "repaired_by fsck = (case fsck of FsckEnded status _ \<Rightarrow> repaired status | _ \<Rightarrow> False)"

lemma rewrite_unready: "unready parse store y s (rewrite_disk (disk_path_of store x) bs s)"
  by (rule untouched_unready [OF rewrite_disk_meta]) simp

lemma fsck_unready:
  assumes "json_roundtrip env" "leased store x l" "\<not> repaired_by fsck"
  shows "unready (be_parse_box env) store x s (snd (repair_dirty_box env store fsck l s))"
  using assms(3) unfolding repair_dirty_box_def Let_def finish_repair_def mark_needs_repair_def leasedD(2) [OF assms(2)]
  by (auto intro!: unready.same rewrite_unready
      intro: unready.trans [OF rewrite_unready] transition_unready [OF assms(1,2)]
      simp: repaired_by_def snd_bind_result split: fsck_outcome.splits)

lemma fsck_Inr:
  assumes "json_roundtrip env" "leased store x l" "repair_dirty_box env store fsck l s = (Inr l', t)"
  shows "leased store x l' \<and> repaired_by fsck"
  using assms(3) transition_Inr [OF assms(1,2)]
  by (auto simp: repair_dirty_box_def Let_def finish_repair_def repaired_by_def bind_eff_Inr split: fsck_outcome.splits if_splits)

text \<open>Whether the check of the file system was started.\<close>

definition checked :: "box_env \<Rightarrow> BoxStore \<Rightarrow> stage_time \<Rightarrow> uuid \<Rightarrow> disk \<Rightarrow> bool" where
  "checked env store lock_time x s =
     (case fst (acquire_in_budget env store lock_time x s) of Inr l \<Rightarrow> bm_state (bl_metadata l) = Dirty | Inl _ \<Rightarrow> False)"

lemma acquire_in_budget_Inr: "acquire_in_budget env store lock_time x s = (Inr l, t) \<Longrightarrow> try_acquire env store x s = (Inr l, t)"
  by (cases lock_time) (auto simp: acquire_in_budget_def bind_eff_Inr)

lemma acquire_in_budget_snd: "snd (acquire_in_budget env store lock_time x s) \<in> {s, snd (try_acquire env store x s)}"
  by (cases lock_time) (auto simp: acquire_in_budget_def snd_bind_result lift_eff_def)

lemma prepare_keeps:
  assumes "json_roundtrip env"
  shows "untouched (elsewhere store x) s (snd (prepare_persistent_root env store lock_time fsck x s))"
proof -
  have a: "untouched (elsewhere store x) s (snd (acquire_in_budget env store lock_time x s))"
    using acquire_in_budget_snd [of env store lock_time x s] try_acquire_keeps [of store x s env] by (auto simp: keep.same)
  have b: "untouched (elsewhere store x) t (snd (bind_eff (if bm_state (bl_metadata l) = Dirty then repair_dirty_box env store fsck l else lift_eff (Ok l))
      (\<lambda>lease. store_op (begin_writable_use env store lease)) t))" if "leased store x l" for l t
    using that unfolding begin_writable_use_def
    by (auto intro!: keep.bind keep.same fsck_keeps transition_of_keeps dest: fsck_Inr [OF assms that])
  show ?thesis
    unfolding prepare_persistent_root_def using a
    by (rule keep.bind) (metis b acquired_leased [OF assms] acquire_in_budget_Inr)
qed

lemma prepare_unready:
  assumes "json_roundtrip env" "\<not> (checked env store lock_time x s \<and> repaired_by fsck)"
  shows "unready (be_parse_box env) store x s (snd (prepare_persistent_root env store lock_time fsck x s))"
  unfolding prepare_persistent_root_def
proof (rule unready.bind)
  show "unready (be_parse_box env) store x s (snd (acquire_in_budget env store lock_time x s))"
    using acquire_in_budget_snd [of env store lock_time x s] try_acquire_unready [OF assms(1)] by (auto simp: unready.same)
next
  fix l t assume a: "acquire_in_budget env store lock_time x s = (Inr l, t)"
  note l = acquired_leased [OF assms(1) acquire_in_budget_Inr [OF a]]
  have n: "bm_state (bl_metadata l) = Dirty \<Longrightarrow> \<not> repaired_by fsck" using a assms(2) by (auto simp: checked_def)
  show "unready (be_parse_box env) store x t (snd (bind_eff (if bm_state (bl_metadata l) = Dirty then repair_dirty_box env store fsck l else lift_eff (Ok l))
      (\<lambda>lease. store_op (begin_writable_use env store lease)) t))"
    unfolding begin_writable_use_def
    by (auto intro!: unready.bind unready.same fsck_unready [OF assms(1) l n] transition_unready [OF assms(1)] l
        dest: fsck_Inr [OF assms(1) l])
qed

lemma prepare_Inr:
  assumes "json_roundtrip env" "prepare_persistent_root env store lock_time fsck x s = (Inr l, t)"
  shows "leased store x l \<and> bm_state (bl_metadata l) = Dirty \<and> recorded (be_parse_box env) store x t = Some Dirty \<and> present store x t"
proof -
  obtain l1 t1 l2 t2 where a: "try_acquire env store x s = (Inr l1, t1)"
    and r: "(if bm_state (bl_metadata l1) = Dirty then repair_dirty_box env store fsck l1 else lift_eff (Ok l1)) t1 = (Inr l2, t2)"
    and b: "transition_state env store l2 Ready Dirty True t2 = (Inr l, t)"
    using assms(2) by (auto simp: prepare_persistent_root_def bind_eff_Inr begin_writable_use_def dest!: acquire_in_budget_Inr)
  have "leased store x l2" using acquired_leased [OF assms(1) a] r fsck_Inr [OF assms(1)] by (auto split: if_splits)
  then show ?thesis using transition_Inr [OF assms(1) _ b] by blast
qed

lemma locked_prepare:
  assumes "locked env store x"
  shows "untouched (vital store x) s (snd (prepare_persistent_root env store lock_time fsck x s))"
    "prepare_persistent_root env store lock_time fsck x s \<noteq> (Inr l, t)"
proof -
  have "acquire_in_budget env store lock_time x s \<noteq> (Inr l, t)" for l t
    using locked_not_acquired [OF assms] acquire_in_budget_Inr by blast
  moreover have "untouched (vital store x) s (snd (acquire_in_budget env store lock_time x s))"
    using acquire_in_budget_snd [of env store lock_time x s] locked_acquire [OF assms, of s] by (auto simp: keep.same)
  ultimately show "untouched (vital store x) s (snd (prepare_persistent_root env store lock_time fsck x s))"
    "prepare_persistent_root env store lock_time fsck x s \<noteq> (Inr l, t)"
    by (auto simp: prepare_persistent_root_def bind_eff_Inr intro!: keep.bind)
qed

lemma cleanup_keeps:
  assumes "leased store x l"
  shows "untouched (elsewhere store x) s (snd (root_cleanup env store fsck status l s))"
  unfolding root_cleanup_def finish_clean_def
  by (auto intro!: keep.bind keep.same fsck_keeps assms split: option.splits)

definition ended_clean :: "exit_status option \<Rightarrow> bool" where
  "ended_clean status = (case status of Some st \<Rightarrow> helper_exit_is_clean st | None \<Rightarrow> False)"

lemma cleanup_unready:
  assumes "json_roundtrip env" "leased store x l" "\<not> (ended_clean status \<and> repaired_by fsck)"
  shows "unready (be_parse_box env) store x s (snd (root_cleanup env store fsck status l s))"
  using assms(3) unfolding root_cleanup_def finish_clean_def
  by (auto intro!: unready.bind unready.same fsck_unready assms(1,2) simp: ended_clean_def split: option.splits)

section \<open>Boxes, runs and commands together\<close>

text \<open>
  The disk of the host, the leases of the runs under way, and the boxes whose disk a guest has written since its file system
  was last found or made consistent. The last is no part of the program.
\<close>

record box_world =
  bw_disk :: disk
  bw_running :: "uuid \<Rightarrow> BoxLease option"
  bw_tainted :: "uuid set"

text \<open>A box that is gone is not tainted any more; a new one may get its identifier.\<close>

definition box_world_of :: "BoxStore \<Rightarrow> disk \<Rightarrow> (uuid \<Rightarrow> BoxLease option) \<Rightarrow> uuid set \<Rightarrow> box_world" where
  "box_world_of store s running tainted = \<lparr>bw_disk = s, bw_running = running, bw_tainted = {y \<in> tainted. present store y s}\<rparr>"

text \<open>
  Calls fail as the environment of each step says; the lock of a box in use is held; JSON is read back as it was written; identifiers
  are those of the crate \<^verbatim>\<open>uuid\<close>.
\<close>

definition step_env ::
    "(bytes \<Rightarrow> (BoxMetadata, string) result) \<Rightarrow> (string \<Rightarrow> uuid option) \<Rightarrow> BoxStore \<Rightarrow> (uuid \<Rightarrow> BoxLease option) \<Rightarrow> box_env \<Rightarrow> bool" where
  "step_env parse ids store running env \<longleftrightarrow>
     be_parse_box env = parse \<and> json_roundtrip env \<and> be_parse_uuid env = ids \<and> uuid_parser ids \<and>
     (\<forall>y. running y \<noteq> None \<longrightarrow> locked env store y)"

definition is_reset :: "box_command \<Rightarrow> bool" where
  "is_reset cmd = (case cmd of CmdReset _ _ \<Rightarrow> True | _ \<Rightarrow> False)"

inductive box_history ::
    "(bytes \<Rightarrow> (BoxMetadata, string) result) \<Rightarrow> (string \<Rightarrow> uuid option) \<Rightarrow> BoxStore \<Rightarrow> box_world \<Rightarrow> bool" for parse ids store where
  initial: "box_history parse ids store (box_world_of store s (\<lambda>_. None) {})"
| commanded: "box_history parse ids store w \<Longrightarrow> step_env parse ids store (bw_running w) env \<Longrightarrow> \<not> is_reset cmd \<Longrightarrow>
    box_history parse ids store (box_world_of store (run_command env store cmd (bw_disk w)) (bw_running w) (bw_tainted w))"
| reset: "box_history parse ids store w \<Longrightarrow> step_env parse ids store (bw_running w) env \<Longrightarrow>
    node_at source (dk_root (bw_disk w)) = Inr (EFile i bs) \<Longrightarrow> source \<in> elsewhere store x \<Longrightarrow>
    honest_seeks (be_seek_data env source) (be_seek_hole env source) bs \<Longrightarrow>
    box_reset env store x source (bw_disk w) = (r, s') \<Longrightarrow>
    box_history parse ids store (box_world_of store s' (bw_running w)
      (if \<exists>k. node_at (disk_path_of store x) (dk_root s') = Inr (EFile k bs) then bw_tainted w - {x} else bw_tainted w))"
| started: "box_history parse ids store w \<Longrightarrow> step_env parse ids store (bw_running w) env \<Longrightarrow> ids x = Some x \<Longrightarrow>
    prepare_persistent_root env store lock_time fsck x (bw_disk w) = (r, s') \<Longrightarrow>
    box_history parse ids store (box_world_of store s'
      (case r of Inr l \<Rightarrow> (bw_running w)(x \<mapsto> l) | Inl _ \<Rightarrow> bw_running w)
      (if checked env store lock_time x (bw_disk w) \<and> repaired_by fsck then bw_tainted w - {x} else bw_tainted w))"
| written: "box_history parse ids store w \<Longrightarrow> bw_running w x = Some l \<Longrightarrow>
    box_history parse ids store (box_world_of store (rewrite_disk (bl_disk_path l) bs (bw_disk w)) (bw_running w) (insert x (bw_tainted w)))"
| ended: "box_history parse ids store w \<Longrightarrow> step_env parse ids store ((bw_running w)(x := None)) env \<Longrightarrow> bw_running w x = Some l \<Longrightarrow>
    root_cleanup env store fsck status l (bw_disk w) = (r, s') \<Longrightarrow>
    box_history parse ids store (box_world_of store s' ((bw_running w)(x := None))
      (if ended_clean status \<and> repaired_by fsck then bw_tainted w - {x} else bw_tainted w))"
| crashed: "box_history parse ids store w \<Longrightarrow> bw_running w x = Some l \<Longrightarrow>
    box_history parse ids store (box_world_of store (bw_disk w) ((bw_running w)(x := None)) (bw_tainted w))"

definition run_ok :: "(bytes \<Rightarrow> (BoxMetadata, string) result) \<Rightarrow> (string \<Rightarrow> uuid option) \<Rightarrow> BoxStore \<Rightarrow> disk \<Rightarrow> uuid \<Rightarrow> BoxLease \<Rightarrow> bool" where
  "run_ok parse ids store s y l \<longleftrightarrow> leased store y l \<and> \<not> starts_with ''.'' y \<and> ids y = Some y \<and>
     recorded parse store y s \<noteq> Some Ready \<and> present store y s"

definition world_ok :: "(bytes \<Rightarrow> (BoxMetadata, string) result) \<Rightarrow> (string \<Rightarrow> uuid option) \<Rightarrow> BoxStore \<Rightarrow> box_world \<Rightarrow> bool" where
  "world_ok parse ids store w \<longleftrightarrow>
     (\<forall>y l. bw_running w y = Some l \<longrightarrow> run_ok parse ids store (bw_disk w) y l) \<and>
     (\<forall>y \<in> bw_tainted w. \<not> starts_with ''.'' y \<and> present store y (bw_disk w) \<and> recorded parse store y (bw_disk w) \<noteq> Some Ready)"

lemma world_okI:
  assumes "\<And>y l. running y = Some l \<Longrightarrow> run_ok parse ids store s y l"
    and "\<And>y. y \<in> tainted \<Longrightarrow> present store y s \<Longrightarrow> \<not> starts_with ''.'' y \<and> recorded parse store y s \<noteq> Some Ready"
  shows "world_ok parse ids store (box_world_of store s running tainted)"
  using assms by (auto simp: world_ok_def box_world_of_def)

lemma world_okD:
  assumes "world_ok parse ids store w"
  shows "bw_running w y = Some l \<Longrightarrow> run_ok parse ids store (bw_disk w) y l"
    "y \<in> bw_tainted w \<Longrightarrow> \<not> starts_with ''.'' y" "y \<in> bw_tainted w \<Longrightarrow> present store y (bw_disk w)"
    "y \<in> bw_tainted w \<Longrightarrow> recorded parse store y (bw_disk w) \<noteq> Some Ready"
  using assms by (auto simp: world_ok_def)

lemma run_ok_guarded: "run_ok parse ids store s y l \<Longrightarrow> guarded store y s s' \<Longrightarrow> run_ok parse ids store s' y l"
  by (auto simp: run_ok_def guarded_def untouched_def vital_def recorded_def present_def)

lemma run_ok_other:
  assumes "run_ok parse ids store s y l" "untouched (elsewhere store x) s s'" "x \<noteq> y"
  shows "run_ok parse ids store s' y l"
proof (rule run_ok_guarded [OF assms(1)])
  show "guarded store y s s'" using assms by (auto intro: other_guard simp: run_ok_def)
qed

lemma run_ok_meta: "run_ok parse ids store s y l \<Longrightarrow> untouched {meta_path store y} s s' \<Longrightarrow> run_ok parse ids store s' y l"
  by (auto simp: run_ok_def untouched_def recorded_def present_def)

lemma unreadyD: "unready parse store y s s' \<Longrightarrow> recorded parse store y s \<noteq> Some Ready \<Longrightarrow> recorded parse store y s' \<noteq> Some Ready"
  by (simp add: unready_def)

lemma step_envD:
  assumes "step_env parse ids store running env"
  shows "be_parse_box env = parse" "json_roundtrip env" "be_parse_uuid env = ids" "uuid_parser (be_parse_uuid env)"
    "running y = Some l \<Longrightarrow> locked env store y"
  using assms by (auto simp: step_env_def)

lemma guarded_running:
  assumes "world_ok parse ids store w" "step_env parse ids store (bw_running w) env" "bw_running w y = Some l"
  shows "run_ok parse ids store (run_command env store cmd (bw_disk w)) y l"
proof (rule run_ok_guarded [OF world_okD(1) [OF assms(1,3)]])
  note e = step_envD [OF assms(2)]
  show "guarded store y (bw_disk w) (run_command env store cmd (bw_disk w))"
    using world_okD(1) [OF assms(1,3)] e(3) by (intro locked_vital e(4) e(5) [OF assms(3)]) (simp add: is_box_id_def run_ok_def)
qed

lemma command_world:
  assumes "world_ok parse ids store w" "step_env parse ids store (bw_running w) env" "\<not> is_reset cmd"
  shows "world_ok parse ids store (box_world_of store (run_command env store cmd (bw_disk w)) (bw_running w) (bw_tainted w))"
proof (rule world_okI)
  fix y assume y: "y \<in> bw_tainted w"
  note t = world_okD(2-4) [OF assms(1) y]
  have "unready parse store y (bw_disk w) (run_command env store cmd (bw_disk w))"
    unfolding step_envD(1) [OF assms(2), symmetric]
    by (rule command_unready [OF step_envD(2) [OF assms(2)] t(1,2)]) (use assms(3) in \<open>auto simp: is_reset_def\<close>)
  then show "\<not> starts_with ''.'' y \<and> recorded parse store y (run_command env store cmd (bw_disk w)) \<noteq> Some Ready"
    using t unreadyD by blast
qed (rule guarded_running [OF assms(1,2)])

lemma reset_world:
  assumes "world_ok parse ids store w" "step_env parse ids store (bw_running w) env"
    and src: "node_at source (dk_root (bw_disk w)) = Inr (EFile i bs)" "source \<in> elsewhere store x"
      "honest_seeks (be_seek_data env source) (be_seek_hole env source) bs"
    and run: "box_reset env store x source (bw_disk w) = (r, s')"
  shows "world_ok parse ids store (box_world_of store s' (bw_running w)
      (if \<exists>k. node_at (disk_path_of store x) (dk_root s') = Inr (EFile k bs) then bw_tainted w - {x} else bw_tainted w))"
proof (rule world_okI)
  fix y l assume "bw_running w y = Some l"
  from guarded_running [OF assms(1,2) this, of "CmdReset x source"] run show "run_ok parse ids store s' y l" by simp
next
  note e = step_envD [OF assms(2)]
  fix y assume y: "y \<in> (if \<exists>k. node_at (disk_path_of store x) (dk_root s') = Inr (EFile k bs) then bw_tainted w - {x} else bw_tainted w)"
  then have y': "y \<in> bw_tainted w" by (simp split: if_splits)
  note t = world_okD(2-4) [OF assms(1) y']
  have "unready parse store y (bw_disk w) s'"
  proof (cases "x = y")
    case True
    then show ?thesis using reset_outcome [OF e(2) run src(1,3,2)] y e(1) by (auto split: if_splits)
  next
    case False
    then show ?thesis using other_unready [OF box_reset_keeps [of store x "bw_disk w" env source] False t(1)] run by simp
  qed
  then show "\<not> starts_with ''.'' y \<and> recorded parse store y s' \<noteq> Some Ready" using t unreadyD by blast
qed

lemma start_world:
  assumes "world_ok parse ids store w" "step_env parse ids store (bw_running w) env" "ids x = Some x"
    and run: "prepare_persistent_root env store lock_time fsck x (bw_disk w) = (r, s')"
  shows "world_ok parse ids store (box_world_of store s' (case r of Inr l \<Rightarrow> (bw_running w)(x \<mapsto> l) | Inl _ \<Rightarrow> bw_running w)
      (if checked env store lock_time x (bw_disk w) \<and> repaired_by fsck then bw_tainted w - {x} else bw_tainted w))"
proof (rule world_okI)
  note e = step_envD [OF assms(2)]
  have keeps: "untouched (elsewhere store x) (bw_disk w) s'" using prepare_keeps [OF e(2), of store x "bw_disk w" lock_time fsck] run by simp
  {
    fix y l assume l: "(case r of Inr l \<Rightarrow> (bw_running w)(x \<mapsto> l) | Inl _ \<Rightarrow> bw_running w) y = Some l"
    show "run_ok parse ids store s' y l"
    proof (cases "\<exists>l'. bw_running w y = Some l'")
      case True
      then obtain l' where l': "bw_running w y = Some l'" by blast
      note lk = e(5) [OF l']
      show ?thesis
      proof (cases "x = y")
        case True
        then have "untouched (vital store y) (bw_disk w) s'" "r \<noteq> Inr l'' " for l''
          using locked_prepare(1) [OF lk, of "bw_disk w" lock_time fsck] locked_prepare(2) [OF lk, of lock_time fsck "bw_disk w"] run by auto
        then show ?thesis using l l' run_ok_guarded [OF world_okD(1) [OF assms(1) l'] vital_guard] by (cases r) auto
      next
        case False
        then show ?thesis using l l' run_ok_other [OF world_okD(1) [OF assms(1) l'] keeps] by (cases r) auto
      qed
    next
      case False
      then have "r = Inr l" "x = y" using l by (auto split: sum.splits if_splits)
      then show ?thesis
        using prepare_Inr [OF e(2) run [unfolded \<open>r = Inr l\<close>]] e(1,3) assms(3) box_id_facts(2) [OF e(4)] by (simp add: run_ok_def is_box_id_def)
    qed
  }
  fix y assume y: "y \<in> (if checked env store lock_time x (bw_disk w) \<and> repaired_by fsck then bw_tainted w - {x} else bw_tainted w)"
  then have y': "y \<in> bw_tainted w" by (simp split: if_splits)
  note t = world_okD(2-4) [OF assms(1) y']
  have "unready parse store y (bw_disk w) s'"
  proof (cases "x = y")
    case True
    then show ?thesis using prepare_unready [OF e(2), of store lock_time x "bw_disk w" fsck] run y e(1) by (auto split: if_splits)
  qed (rule other_unready [OF keeps _ t(1)])
  then show "\<not> starts_with ''.'' y \<and> recorded parse store y s' \<noteq> Some Ready" using t unreadyD by blast
qed

lemma write_world:
  assumes "world_ok parse ids store w" "bw_running w x = Some l"
  shows "world_ok parse ids store (box_world_of store (rewrite_disk (bl_disk_path l) bs (bw_disk w)) (bw_running w) (insert x (bw_tainted w)))"
proof (rule world_okI)
  note x = world_okD(1) [OF assms]
  then have p: "bl_disk_path l = disk_path_of store x" by (simp add: run_ok_def leased_def)
  show "run_ok parse ids store (rewrite_disk (bl_disk_path l) bs (bw_disk w)) y k" if "bw_running w y = Some k" for y k
    using run_ok_meta [OF world_okD(1) [OF assms(1) that] rewrite_disk_meta] by (simp add: p)
  fix y assume "y \<in> insert x (bw_tainted w)"
  then have "\<not> starts_with ''.'' y" "recorded parse store y (bw_disk w) \<noteq> Some Ready"
    using x world_okD(2,4) [OF assms(1)] by (auto simp: run_ok_def)
  then show "\<not> starts_with ''.'' y \<and> recorded parse store y (rewrite_disk (bl_disk_path l) bs (bw_disk w)) \<noteq> Some Ready"
    using unreadyD [OF rewrite_unready] by (simp add: p)
qed

lemma end_world:
  assumes "world_ok parse ids store w" "step_env parse ids store ((bw_running w)(x := None)) env" "bw_running w x = Some l"
    and run: "root_cleanup env store fsck status l (bw_disk w) = (r, s')"
  shows "world_ok parse ids store (box_world_of store s' ((bw_running w)(x := None))
      (if ended_clean status \<and> repaired_by fsck then bw_tainted w - {x} else bw_tainted w))"
proof (rule world_okI)
  note e = step_envD [OF assms(2)]
  have l: "leased store x l" using world_okD(1) [OF assms(1,3)] by (simp add: run_ok_def)
  have keeps: "untouched (elsewhere store x) (bw_disk w) s'" using cleanup_keeps [OF l, of "bw_disk w" env fsck status] run by simp
  show "run_ok parse ids store s' y k" if "((bw_running w)(x := None)) y = Some k" for y k
    using that run_ok_other [OF world_okD(1) [OF assms(1)] keeps] by (auto split: if_splits)
  fix y assume y: "y \<in> (if ended_clean status \<and> repaired_by fsck then bw_tainted w - {x} else bw_tainted w)"
  then have y': "y \<in> bw_tainted w" by (simp split: if_splits)
  note t = world_okD(2-4) [OF assms(1) y']
  have "unready parse store y (bw_disk w) s'"
  proof (cases "x = y")
    case True
    then show ?thesis using cleanup_unready [OF e(2) l, of status fsck "bw_disk w"] run y e(1) by (auto split: if_splits)
  qed (rule other_unready [OF keeps _ t(1)])
  then show "\<not> starts_with ''.'' y \<and> recorded parse store y s' \<noteq> Some Ready" using t unreadyD by blast
qed

lemma crash_world:
  assumes "world_ok parse ids store w"
  shows "world_ok parse ids store (box_world_of store (bw_disk w) ((bw_running w)(x := None)) (bw_tainted w))"
  using assms by (intro world_okI) (auto simp: world_ok_def split: if_splits)

lemma history_ok: "box_history parse ids store w \<Longrightarrow> world_ok parse ids store w"
proof (induction rule: box_history.induct)
  case (initial s)
  show ?case by (rule world_okI) auto
qed (blast intro: command_world reset_world start_world write_world end_world crash_world)+

section \<open>What the states of a box promise\<close>

lemma acquired_dirty:
  assumes "json_roundtrip env" "recorded (be_parse_box env) store y s \<noteq> Some Ready" "try_acquire env store y s = (Inr l, t)"
  shows "bm_state (bl_metadata l) = Dirty"
  using unreadyD [OF try_acquire_unready [OF assms(1)] assms(2)] try_acquire_recorded [OF assms(1,3)] try_acquire_Inr(4) [OF assms(3)] assms(3)
  by (cases "bm_state (bl_metadata l)") auto


definition crashed_run :: "disk \<times> BoxLease" where
  "crashed_run =
     (case prepare_persistent_root (box_host False) sample_store InTime FsckMissing BOX_A (box_disk_of [1, 10] [7, 7]) of
        (Inr l, s) \<Rightarrow> (rewrite_disk (bl_disk_path l) [9, 9] s, l)
      | (Inl _, s) \<Rightarrow> (s, \<lparr>bl_directory = [], bl_disk_path = [], bl_metadata = ready_box\<rparr>))"

lemma sample_step: "step_env sample_parse sample_ids sample_store (\<lambda>_. None) (box_host False)"
  using sample_parser by (auto simp: step_env_def box_host_def json_roundtrip_def sample_json_def sample_parse_def split: if_splits)

lemma sample_prepared:
  "is_ok (fst (prepare_persistent_root (box_host False) sample_store InTime FsckMissing BOX_A (box_disk_of [1, 10] [7, 7])))"
  "present sample_store BOX_A (fst crashed_run)"
  by code_simp+

lemma sample_history:
  "box_history sample_parse sample_ids sample_store (box_world_of sample_store (fst crashed_run) (\<lambda>_. None) {BOX_A})"
proof -
  let ?h = "box_history sample_parse sample_ids sample_store"
  obtain l s where p: "prepare_persistent_root (box_host False) sample_store InTime FsckMissing BOX_A (box_disk_of [1, 10] [7, 7]) = (Inr l, s)"
    using sample_prepared(1) by (cases "prepare_persistent_root (box_host False) sample_store InTime FsckMissing BOX_A (box_disk_of [1, 10] [7, 7])")
      (auto simp: is_ok_iff)
  then have c: "fst crashed_run = rewrite_disk (bl_disk_path l) [9, 9] s" by (simp add: crashed_run_def)
  have "?h (box_world_of sample_store s [BOX_A \<mapsto> l] {})"
    using box_history.started [OF box_history.initial [of _ _ _ "box_disk_of [1, 10] [7, 7]"], of sample_parse sample_ids sample_store "box_host False" BOX_A InTime FsckMissing "Inr l" s]
      sample_step p by (simp add: box_world_of_def sample_ids_def repaired_by_def)
  from box_history.written [OF this, of BOX_A l "[9, 9]"] have "?h (box_world_of sample_store (fst crashed_run) [BOX_A \<mapsto> l] {BOX_A})"
    by (simp add: box_world_of_def c)
  from box_history.crashed [OF this, of BOX_A l] show ?thesis by (auto simp: box_world_of_def cong: conj_cong)
qed


text \<open>
  C12: when a run gets the disk of a box, the box is recorded as dirty; it was ready before, or its file system check has
  succeeded. A box that is not available, needs repair or could not be recorded gives no disk.
\<close>

theorem disk_handed_out_dirty:
  assumes "json_roundtrip env" and "prepare_persistent_root env store lock_time fsck x s = (Ok l, s')"
  shows "recorded (be_parse_box env) store x s' = Some Dirty \<and> lease_id l = x \<and> bl_disk_path l = box_directory store x @ [ROOT_DISK_FILE] \<and>
    lock_time = InTime \<and> (recorded (be_parse_box env) store x s \<noteq> Some Ready \<longrightarrow> repaired_by fsck)"
proof -
  note p = prepare_Inr [OF assms]
  have "\<exists>l t. acquire_in_budget env store lock_time x s = (Inr l, t)"
    using assms(2) by (auto simp: prepare_persistent_root_def bind_eff_Inr)
  then obtain l1 t1 where a: "acquire_in_budget env store lock_time x s = (Inr l1, t1)" by blast
  have i: "lock_time = InTime" using a by (cases lock_time) (auto simp: acquire_in_budget_def bind_eff_Inr)
  note t = acquire_in_budget_Inr [OF a]
  have "repaired_by fsck" if "recorded (be_parse_box env) store x s \<noteq> Some Ready"
    using assms(2) a acquired_dirty [OF assms(1) that t] fsck_Inr [OF assms(1) acquired_leased [OF assms(1) t]]
    by (auto simp: prepare_persistent_root_def bind_eff_Inr)
  with p i show ?thesis by (simp add: leased_def disk_path_of_def)
qed

theorem disk_handed_out_dirty_witness:
  "recorded sample_parse sample_store BOX_A
     (snd (prepare_persistent_root (box_host False) sample_store InTime FsckMissing BOX_A (box_disk_of [1, 10] [7, 7]))) = Some Dirty"
proof (cases "prepare_persistent_root (box_host False) sample_store InTime FsckMissing BOX_A (box_disk_of [1, 10] [7, 7])")
  case (Pair r s)
  then obtain l where "r = Inr l" using sample_prepared(1) by (auto simp: is_ok_iff)
  with disk_handed_out_dirty [OF step_envD(2) [OF sample_step], of sample_store InTime FsckMissing BOX_A "box_disk_of [1, 10] [7, 7]" l s] Pair
  show ?thesis by (simp add: step_envD(1) [OF sample_step])
qed

text \<open>A clone of a dirty box is ready, with the disk of the dirty box; a run takes it without a check.\<close>

lemma clone_of_dirty_box:
  "(case clone_box (box_host False) sample_store BOX_A (box_disk_of [2, 10] [9, 9]) of
      (Inr m, s) \<Rightarrow>
        bm_state dirty_box = Dirty \<and> m = cloned_box \<and> bm_state m = Ready \<and>
        (case node_at (disk_path_of sample_store BOX_B) (dk_root s) of Inr (EFile _ bs) \<Rightarrow> bs = [9, 9] | _ \<Rightarrow> False) \<and>
        (case fst (try_acquire (box_host False) sample_store BOX_B s) of Inr l \<Rightarrow> bm_state (bl_metadata l) = Ready | Inl _ \<Rightarrow> False)
    | _ \<Rightarrow> False)"
  by code_simp

end
