(* ===== verification/Box_Properties.thy ===== *)
theory Box_Properties
  imports Box_Life
begin

text \<open>
  What a new box holds, and what a storage root is once it was checked.
\<close>

definition base_disk :: disk where
  "base_disk =
     \<lparr>dk_root = EDir box_info [(''base'', EFile box_info [5, 6]), (''home'', EDir (box_info\<lparr>fi_mode := 493\<rparr>) []),
        (''state'', EDir box_info [(BOXES_DIRECTORY, EDir box_info [(BOX_A, EDir box_info [])])])], dk_sequence = 0\<rparr>"

section \<open>A new box holds its source\<close>

lemma permissions_of_Inr:
  assumes "fs_set_permissions env p mode s = (Inr u, s')"
  shows "\<exists>n. node_at p (dk_root s) = Inr n \<and> s' = set_node p (Some (with_mode mode n)) s"
  using assms by (auto simp: fs_set_permissions_def and_then_Inr_iff split: sum.splits)

lemma node_below: "node_at (p @ [c]) n = Inr m \<Longrightarrow> \<exists>k. node_at p n = Inr k \<and> node_at [c] k = Inr m"
  by (auto simp: node_at_append and_then_Inr_iff)

lemma populate_steps:
  assumes "populate_staging env x request source (b @ [t]) (b @ [c]) s = (Inr m, s')"
    and src: "node_at source (dk_root s) = Inr (EFile i bs)" "apart (b @ [t]) source"
      "honest_seeks (be_seek_data env source) (be_seek_hole env source) bs"
  shows "\<exists>q q' now owner allocated k. node_at ((b @ [t]) @ [ROOT_DISK_FILE]) (dk_root q) = Inr (EFile k bs) \<and>
    m = new_metadata x request now owner allocated \<and>
    box_write_json_atomic env ((b @ [t]) @ [METADATA_FILE]) (be_box_json env m) q = (Inr (), q') \<and> fs_rename env (b @ [t]) (b @ [c]) q' = (Inr (), s')"
proof -
  let ?st = "b @ [t]"
  obtain s1 s2 q u3 now owner allocated q' where
      c1: "fs_create_new env (?st @ [LOCK_FILE]) s = (Inr (), s1)" and c2: "set_file_permissions env (?st @ [LOCK_FILE]) s1 = (Inr (), s2)"
    and c3: "copy_disk env source (?st @ [ROOT_DISK_FILE]) s2 = (Inr u3, q)"
    and m: "m = new_metadata x request now owner allocated"
    and w: "box_write_json_atomic env (?st @ [METADATA_FILE]) (be_box_json env m) q = (Inr (), q')"
    and r: "fs_rename env ?st (b @ [c]) q' = (Inr (), s')"
    using assms(1) by (auto simp: populate_staging_def Let_def bind_eff_Inr box_io_Inr reading_Inr syncing_parent_def)
  have "untouched {source} s s1" using create_new_keeps [of "{source}" "?st @ [LOCK_FILE]" s env] c1 apart_below [OF src(2)] by simp
  moreover have "untouched {source} s1 s2" using file_permissions_keeps [of "{source}" "?st @ [LOCK_FILE]" s1 env] c2 apart_below [OF src(2)] by simp
  ultimately have "node_at source (dk_root s2) = Inr (EFile i bs)" using src(1) by (simp add: untouched_def)
  from copy_disk_Inr [OF c3 this _ src(3)] apart_below [OF src(2)]
  obtain k where "node_at (?st @ [ROOT_DISK_FILE]) (dk_root q) = Inr (EFile k bs)" by blast
  with m w r show ?thesis by blast
qed

lemma write_keeps_root_disk:
  assumes "box_write_json_atomic env (d @ [METADATA_FILE]) json s = (r, s')"
  shows "node_at (d @ [ROOT_DISK_FILE]) (dk_root s') = node_at (d @ [ROOT_DISK_FILE]) (dk_root s)"
  using write_json_keeps [of "{d @ [ROOT_DISK_FILE]}" "d @ [METADATA_FILE]" env s json] assms
  by (auto simp: untouched_def apart_def metadata_temporary_def)

lemma populate_Inr:
  assumes "populate_staging env x request source (b @ [t]) (b @ [c]) s = (Inr m, s')" "c \<noteq> t"
    and src: "node_at source (dk_root s) = Inr (EFile i bs)" "apart (b @ [t]) source"
      "honest_seeks (be_seek_data env source) (be_seek_hole env source) bs"
  shows "(\<exists>now owner allocated. m = new_metadata x request now owner allocated) \<and>
    (\<exists>k js. be_box_json env m = Inr js \<and> node_at ((b @ [c]) @ [METADATA_FILE]) (dk_root s') = Inr (EFile k (js @ [10]))) \<and>
    (\<exists>k. node_at ((b @ [c]) @ [ROOT_DISK_FILE]) (dk_root s') = Inr (EFile k bs))"
proof -
  obtain q q' now owner allocated k where d: "node_at ((b @ [t]) @ [ROOT_DISK_FILE]) (dk_root q) = Inr (EFile k bs)"
    and m: "m = new_metadata x request now owner allocated"
    and w: "box_write_json_atomic env ((b @ [t]) @ [METADATA_FILE]) (be_box_json env m) q = (Inr (), q')"
    and r: "fs_rename env (b @ [t]) (b @ [c]) q' = (Inr (), s')"
    using populate_steps [OF assms(1) src] by blast
  have disk: "node_at ((b @ [t]) @ [ROOT_DISK_FILE]) (dk_root q') = Inr (EFile k bs)"
    using write_keeps_root_disk [OF w] d by simp
  obtain js k' where meta: "be_box_json env m = Inr js" "node_at ((b @ [t]) @ [METADATA_FILE]) (dk_root q') = Inr (EFile k' (js @ [10]))"
    using write_json_outcome [OF file_names(4) w] by auto
  obtain n where n: "node_at (b @ [t]) (dk_root q') = Inr n" "node_at [ROOT_DISK_FILE] n = Inr (EFile k bs)" "node_at [METADATA_FILE] n = Inr (EFile k' (js @ [10]))"
    using node_below [OF disk] node_below [OF meta(2)] by auto
  have "node_at (b @ [c]) (dk_root s') = Inr n" by (rule fs_rename_Ok [OF r n(1) assms(2)])
  then have "node_at ((b @ [c]) @ [METADATA_FILE]) (dk_root s') = Inr (EFile k' (js @ [10]))" "node_at ((b @ [c]) @ [ROOT_DISK_FILE]) (dk_root s') = Inr (EFile k bs)"
    unfolding node_at_append [of "b @ [c]"] using n(2,3) by simp_all
  then show ?thesis using m meta(1) by blast
qed

lemma discarded_Inr: "on_error m c s = (Inr x, t) \<longleftrightarrow> m s = (Inr x, t)"
  by (auto simp: on_error_def split: prod.splits sum.splits)

lemma create_with_id_Inr:
  assumes "create_with_id env store x request source s = (Inr m, s')" "node_at source (dk_root s) = Inr (EFile i bs)"
    "source \<in> elsewhere store x" "honest_seeks (be_seek_data env source) (be_seek_hole env source) bs" "\<not> starts_with ''.'' x"
  shows "(\<exists>now owner allocated. m = new_metadata x request now owner allocated) \<and>
    (\<exists>k js. be_box_json env m = Inr js \<and> node_at (meta_path store x) (dk_root s') = Inr (EFile k (js @ [10]))) \<and>
    (\<exists>k. node_at (disk_path_of store x) (dk_root s') = Inr (EFile k bs))"
proof -
  obtain staging s1 u s2 s3 where t: "temporary_path env store ''creating'' x s = (Inr staging, s1)"
    and r: "(if is_ok (fs_metadata env staging (dk_root s1)) then box_remove_managed_directory env staging else lift_eff (Ok ())) s1 = (Inr u, s2)"
    and d: "secure_directory env staging s2 = (Inr (), s3)"
    and p: "populate_staging env x request source staging (box_directory store x) s3 = (Inr m, s')"
    using assms(1) by (auto simp: create_with_id_def bind_eff_Inr discarded_Inr)
  obtain c where c: "staging = boxes_directory store @ [CHR ''.'' # c]" "dk_root s1 = dk_root s" using temporary_path_Inr [OF t] by blast
  have ap: "apart staging source" unfolding c(1) by (rule elsewhereD(6) [OF assms(3)])
  have "untouched {source} s1 s2"
    using remove_managed_directory_keeps [of "{source}" staging s1 env] r ap by (auto simp: keep.same split: if_splits)
  moreover have "untouched {source} s2 s3" using secure_directory_keeps [of "{source}" staging s2 env] d apart_not_prefix [OF ap] by simp
  ultimately have src: "node_at source (dk_root s3) = Inr (EFile i bs)" using assms(2) c(2) by (simp add: untouched_def)
  have "x \<noteq> CHR ''.'' # c" using assms(5) by (auto simp: starts_with_iff)
  from populate_Inr [OF p [unfolded c(1) box_directory_def] this src ap [unfolded c(1)] assms(4)] show ?thesis
    by (simp add: meta_path_def disk_path_of_def box_directory_def)
qed

lemma free_id_Inr: "free_id env path ids root = Inr x \<Longrightarrow> x \<in> set ids \<and> \<not> is_ok (fs_metadata env (path x) root)"
  by (induction env path ids root rule: free_id.induct) (auto split: if_splits)

lemma create_steps:
  assumes "box_create env store request source s = (Inr m, s')"
  shows "\<exists>x t. create_with_id env store x request source t = (Inr m, s') \<and> untouched (elsewhere store y) s t \<and> x \<in> set (be_fresh_ids env) \<and>
    \<not> is_ok (fs_metadata env (box_directory store x) (dk_root t))"
proof -
  obtain s1 s2 s3 s4 x where "ensure_root env (state_root store) s = (Inr (), s1)" "secure_directory env (state_root store) s1 = (Inr (), s2)"
      "secure_directory env (boxes_directory store) s2 = (Inr (), s3)" "lock_metadata_index env store s3 = (Inr (), s4)"
    and f: "free_id env (box_directory store) (be_fresh_ids env) (dk_root s4) = Inr x" "create_with_id env store x request source s4 = (Inr m, s')"
    using assms by (auto simp: box_create_def bind_eff_Inr reading_Inr split: if_splits)
  moreover have "untouched (elsewhere store y) t (snd (ensure_root env (state_root store) t))"
    "untouched (elsewhere store y) t (snd (secure_directory env (state_root store) t))"
    "untouched (elsewhere store y) t (snd (secure_directory env (boxes_directory store) t))"
    "untouched (elsewhere store y) t (snd (lock_metadata_index env store t))" for t
    by (auto intro!: frames simp: elsewhere_simps)
  ultimately have "untouched (elsewhere store y) s s1" "untouched (elsewhere store y) s1 s2" "untouched (elsewhere store y) s2 s3" "untouched (elsewhere store y) s3 s4"
    by (metis snd_conv)+
  then have "untouched (elsewhere store y) s s4" by (blast intro: keep.trans)
  with f free_id_Inr [OF f(1)] show ?thesis by blast
qed



section \<open>Storage roots\<close>

lemma permissions_node:
  assumes "fs_set_permissions env p mode s = (Inr u, s')" "p \<noteq> []"
  shows "\<exists>n. node_at p (dk_root s) = Inr n \<and> node_at p (dk_root s') = Inr (with_mode mode n)"
proof -
  obtain n where n: "node_at p (dk_root s) = Inr n" "s' = set_node p (Some (with_mode mode n)) s" using permissions_of_Inr [OF assms(1)] by blast
  obtain i es where "node_at (butlast p) (dk_root s) = Inr (EDir i es)" using parent_is_dir [OF n(1)] assms(2) by blast
  from node_at_change_at [OF this, of "last p"] n assms(2) show ?thesis by (simp add: set_node_def)
qed

text \<open>
  C27: a storage root that was accepted is a directory, not a link to one, belongs to the user of the process and is closed
  to all others; what was there before was a directory or nothing, and nothing below it or beside it has changed.
\<close>

theorem storage_root_private:
  assumes "ensure_private_storage_root env p s = (Ok (), s')"
  shows "(\<exists>i es. node_at p (dk_root s') = Ok (EDir i es) \<and> fi_uid i = he_euid env \<and> fi_mode i = MODE_0700) \<and>
    (\<forall>n. node_at p (dk_root s) = Ok n \<longrightarrow> is_dir n) \<and>
    (\<forall>q. \<not> prefix q p \<longrightarrow> node_at q (dk_root s') = node_at q (dk_root s))"
proof (intro conjI allI impI)
  have p: "p \<noteq> []" using assms by (auto simp: ensure_private_storage_root_def)
  then obtain t where v: "validate_private_directory env p t = (Inr (), s')"
    using assms by (auto simp: ensure_private_storage_root_def bind_eff_Inr)
  then obtain n where n: "node_at p (dk_root t) = Inr n" "is_dir n" "fi_uid (entry_info n) = he_euid env"
    and perm: "fs_set_permissions env p MODE_0700 t = (Inr (), s')"
    by (auto simp: validate_private_directory_def bind_eff_Inr map_err_Inr_iff fs_metadata_def and_then_Inr_iff validate_root_file_type_def
        validate_owner_uid_def root_io_def split: if_splits prod.splits)
  from permissions_node [OF perm p] n show "\<exists>i es. node_at p (dk_root s') = Ok (EDir i es) \<and> fi_uid i = he_euid env \<and> fi_mode i = MODE_0700"
    by (auto simp: is_dir_def with_mode_def entry_info_def split: entry.splits)
next
  fix n assume "node_at p (dk_root s) = Ok n"
  then show "is_dir n"
    using assms
    by (auto simp: ensure_private_storage_root_def validate_private_directory_def bind_eff_Inr fs_metadata_def and_then_def disk_try_def validate_root_file_type_def
        split: if_splits option.splits disk_error.splits sum.splits)
next
  fix q assume "\<not> prefix q p"
  with ensure_root_keeps [of "{q}" p s env] assms show "node_at q (dk_root s') = node_at q (dk_root s)"
    by (simp add: ensure_root_def untouched_def)
qed

theorem storage_root_private_witness:
  "\<exists>i es. node_at [''home''] (dk_root (snd (ensure_private_storage_root (box_host False) [''home''] base_disk))) = Ok (EDir i es) \<and>
     fi_uid i = 0 \<and> fi_mode i = MODE_0700"
proof -
  have "fst (ensure_private_storage_root (box_host False) [''home''] base_disk) = Ok ()" by code_simp
  then have "ensure_private_storage_root (box_host False) [''home''] base_disk =
      (Ok (), snd (ensure_private_storage_root (box_host False) [''home''] base_disk))" by (metis prod.collapse)
  from storage_root_private [OF this] show ?thesis by (simp add: box_host_def)
qed

end
