(* ===== verification/Checkpoint_Properties.thy ===== *)
theory Checkpoint_Properties
  imports Checkpoint Box_Properties
begin

text \<open>
  Checkpoints do not change: no command but its own deletion touches one, and a box that is forked from it holds what the
  source held when the checkpoint was taken.
\<close>

section \<open>The commands of the box store stay among the boxes\<close>

definition beside :: "BoxStore \<Rightarrow> disk_path set" where
  "beside store = {p. \<not> prefix p (state_root store) \<and> apart (boxes_directory store) p \<and> apart (state_root store @ [''quarantine'']) p}"

lemma besideD:
  assumes "p \<in> beside store"
  shows "\<not> prefix p (state_root store)" "apart (boxes_directory store) p" "apart (boxes_directory store @ r) p"
    "apart (box_directory store x) p" "apart (box_directory store x @ r) p" "\<not> prefix p (boxes_directory store)"
    "apart (state_root store @ [''quarantine'']) p" "apart (state_root store @ ''quarantine'' # r) p"
    "\<not> prefix p (state_root store @ ''quarantine'' # r)"
proof -
  show p: "\<not> prefix p (state_root store)" "apart (boxes_directory store) p" "apart (state_root store @ [''quarantine'']) p"
    using assms by (auto simp: beside_def)
  show "apart (boxes_directory store @ r) p" "apart (box_directory store x) p" "apart (box_directory store x @ r) p"
    using apart_below [OF p(2)] by (simp_all add: box_directory_def)
  show "\<not> prefix p (boxes_directory store)" by (rule apart_not_prefix [OF p(2)])
  show q: "apart (state_root store @ ''quarantine'' # r) p" using apart_below [OF p(3), of r] by simp
  show "\<not> prefix p (state_root store @ ''quarantine'' # r)" by (rule apart_not_prefix [OF q])
qed

lemma beside_elsewhere: "beside store \<subseteq> elsewhere store x"
  using besideD by (auto simp: elsewhere_def)

lemma elsewhere_beside: "untouched (elsewhere store x) s s' \<Longrightarrow> untouched (beside store) s s'"
  by (rule untouched_mono [OF _ beside_elsewhere])

lemmas beside_one = elsewhere_beside [OF box_get_keeps] elsewhere_beside [OF try_acquire_keeps] elsewhere_beside [OF create_with_id_keeps]
  elsewhere_beside [OF lock_metadata_index_keeps]

lemma create_beside: "untouched (beside store) s (snd (box_create env store request source s))"
  unfolding box_create_def by (auto intro!: frames intro: beside_one simp: besideD)

lemma scan_beside: "untouched (beside store) s (snd (box_scan env store s))"
proof -
  have entry: "untouched (beside store) s (snd (scan_entry env store c scan s))" for c scan s
  proof -
    have "untouched (beside store) s s'" if "box_get env store x s = (r, s')" for x r s'
      using beside_one(1) [of store s env x] that by simp
    then show ?thesis
      unfolding scan_entry_def Let_def by (auto simp: keep.same split: option.splits prod.splits sum.splits)
  qed
  have "untouched (beside store) s (snd (scan_entries env store es scan s))" for es scan s
  proof (induction es arbitrary: scan s)
    case (Cons e es)
    show ?case by (cases e) (auto intro!: keep.bind entry Cons.IH)
  qed (simp add: keep.same)
  then show ?thesis unfolding box_scan_def by (auto intro!: frames simp: besideD)
qed

lemma quarantine_beside:
  assumes "list_all (corrupt_ok env store) es"
  shows "untouched (beside store) s (snd (quarantine_all env (state_root store @ [''quarantine'', b]) es report s))"
  using assms
proof (induction es arbitrary: report s)
  case (Cons e es)
  have src: "ce_source e = boxes_directory store @ [ce_name e]" using Cons.prems by (simp add: corrupt_ok_def)
  have one: "untouched (beside store) s (snd (quarantine_entry env e (state_root store @ [''quarantine'', b]) s))"
    unfolding quarantine_entry_def lock_for_quarantine_def Let_def src
    by (auto intro!: frames simp: besideD split: option.splits)
  have rest: "untouched (beside store) t (snd (quarantine_all env (state_root store @ [''quarantine'', b]) es report t))" for report t
    using Cons by simp
  show ?case
    using one rest
    by (cases "quarantine_entry env e (state_root store @ [''quarantine'', b]) s";
        cases "fst (quarantine_entry env e (state_root store @ [''quarantine'', b]) s)") (auto intro: keep.trans)
qed (simp add: keep.same)

lemma quarantine_not_beside [simp]: "state_root store @ [''quarantine''] \<notin> beside store"
  by (auto simp: beside_def apart_def)

lemma repair_beside: "untouched (beside store) s (snd (box_repair env store b s))"
  unfolding box_repair_def Let_def
  by (auto intro!: frames scan_beside quarantine_beside dest: scan_corrupt simp: besideD)

lemma collect_beside: "untouched (beside store) s (snd (garbage_collect_older_than env store age s))"
proof -
  have temps: "untouched (beside store) s (snd (collect_box_temporary_files env (boxes_directory store @ [c]) age report s))" for c report s
  proof -
    have "apart q p" if "stale_temporaries env (boxes_directory store @ [c]) age root es = Inr (stale, young)" "p \<in> beside store" "q \<in> set stale"
      for root es stale young p q
      using stale_temporaries_set [OF that(1,3)] besideD(3) [OF that(2)] by auto
    then show ?thesis
      unfolding collect_box_temporary_files_def Let_def
      by (auto intro!: frames remove_stale_keeps simp: reading_def split: GarbageCollectionLock.splits)
  qed
  have stale: "untouched (beside store) s (snd (collect_stale_directory env (boxes_directory store @ [c]) age report s))" for c report s
    unfolding collect_stale_directory_def by (auto intro!: frames simp: besideD split: GarbageCollectionLock.splits)
  have "untouched (beside store) s (snd (collect_entries env store age es report s))" for es report s
  proof (induction es arbitrary: report s)
    case (Cons e es)
    show ?case by (cases e) (auto intro!: keep.bind Cons.IH keep.same stale temps simp: Let_def)
  qed (simp add: keep.same)
  then show ?thesis unfolding garbage_collect_older_than_def by (auto intro!: frames simp: besideD)
qed

lemma command_beside: "untouched (beside store) s (run_command env store cmd s)"
proof (cases cmd)
  case (CmdClone x)
  then show ?thesis by (auto intro!: keep.bind create_beside beside_one simp: clone_box_def Let_def)
next
  case (CmdList query)
  then show ?thesis by (auto intro!: keep.bind keep.same scan_beside simp: list_with_def Let_def)
qed (auto intro: beside_one create_beside repair_beside collect_beside elsewhere_beside [OF box_update_keeps] elsewhere_beside [OF box_delete_keeps]
    elsewhere_beside [OF box_reset_keeps])

section \<open>A checkpoint that exists is left alone\<close>

definition held :: "BoxStore \<Rightarrow> uuid \<Rightarrow> disk_path set" where
  "held store c = {checkpoint_directory store c @ [METADATA_FILE], checkpoint_directory store c @ [ROOT_DISK_FILE]}"

definition checkpoint_present :: "BoxStore \<Rightarrow> uuid \<Rightarrow> disk \<Rightarrow> bool" where
  "checkpoint_present store c s \<longleftrightarrow> is_ok (node_at (checkpoint_directory store c @ [METADATA_FILE]) (dk_root s))"

definition sealed :: "BoxStore \<Rightarrow> uuid \<Rightarrow> disk \<Rightarrow> disk \<Rightarrow> bool" where
  "sealed store c s s' \<longleftrightarrow> (checkpoint_present store c s \<longrightarrow> untouched (held store c) s s')"

interpretation seal: eff_relation "sealed store c" for store c
  by unfold_locales (auto simp: sealed_def checkpoint_present_def untouched_def held_def)

lemma held_beside: "held store c \<subseteq> beside store"
  by (auto simp: held_def beside_def checkpoint_directory_def checkpoints_directory_def boxes_directory_def
      CHECKPOINTS_DIRECTORY_def BOXES_DIRECTORY_def apart_def)

lemma held_sealed: "untouched (held store c) s s' \<Longrightarrow> sealed store c s s'"
  by (simp add: sealed_def)

lemma beside_sealed: "untouched (beside store) s s' \<Longrightarrow> sealed store c s s'"
  by (rule held_sealed [OF untouched_mono [OF _ held_beside]])

lemma held_apart:
  assumes "p \<in> held store c"
  shows "\<not> prefix p (state_root store)" "\<not> prefix p (checkpoints_directory store)"
    "d \<notin> {METADATA_FILE, ROOT_DISK_FILE} \<Longrightarrow> apart (checkpoint_directory store c @ [d]) p"
    "c' \<noteq> c \<Longrightarrow> apart (checkpoints_directory store @ c' # r) p" "c' \<noteq> c \<Longrightarrow> apart (checkpoint_directory store c') p"
    "c' \<noteq> c \<Longrightarrow> apart (checkpoint_directory store c' @ r) p" "c' \<noteq> c \<Longrightarrow> \<not> prefix p (checkpoints_directory store @ c' # r)"
  using assms by (auto simp: held_def checkpoint_directory_def checkpoints_directory_def apart_def)

lemma checkpoint_paths_keeps [frames]:
  "(\<And>p. p \<in> P \<Longrightarrow> \<not> prefix p (state_root store)) \<Longrightarrow> untouched P s (snd (checkpoint_paths env codec store c s))"
  unfolding checkpoint_paths_def Let_def by (auto intro!: frames)

lemma checkpoint_paths_Inr:
  assumes "checkpoint_paths env codec store c s = (Inr paths, t)"
  shows "xp_directory paths = checkpoint_directory store c" "xp_disk paths = checkpoint_directory store c @ [ROOT_DISK_FILE]"
    "xp_lock paths = checkpoint_directory store c @ [LOCK_FILE]"
  using assms by (auto simp: checkpoint_paths_def Let_def bind_eff_Inr reading_Inr and_then_Inr_iff split: if_splits)

lemma checkpoint_get_sealed: "sealed store c s (snd (checkpoint_get env codec store c' s))"
  unfolding checkpoint_get_def by (intro held_sealed) (auto intro!: frames simp: held_apart)

lemma checkpoint_acquire_sealed: "sealed store c s (snd (checkpoint_try_acquire env codec store c' s))"
proof -
  have "apart (checkpoint_directory store c' @ [LOCK_FILE]) p" if "p \<in> held store c" for p
    using held_apart(3,6) [OF that] by (cases "c' = c") auto
  then show ?thesis
    unfolding checkpoint_try_acquire_def
    by (intro held_sealed) (auto intro!: frames simp: held_apart checkpoint_paths_Inr)
qed

lemma checkpoint_acquire_Inr:
  assumes "checkpoint_try_acquire env codec store c s = (Inr l, t)"
  shows "xl_directory l = checkpoint_directory store c" "xl_disk_path l = checkpoint_directory store c @ [ROOT_DISK_FILE]"
  using assms by (auto simp: checkpoint_try_acquire_def bind_eff_Inr checkpoint_paths_Inr)

lemma checkpoint_delete_sealed: "c' \<noteq> c \<Longrightarrow> sealed store c s (snd (checkpoint_delete env codec store c' s))"
  unfolding checkpoint_delete_def
  by (auto intro!: seal.bind seal.same checkpoint_acquire_sealed held_sealed [OF remove_managed_directory_keeps]
      simp: checkpoint_acquire_Inr(1) held_apart)

lemma checkpoint_fork_sealed: "sealed store c s (snd (checkpoint_fork env codec store c' request s))"
  unfolding checkpoint_fork_def
  by (auto intro!: seal.bind seal.same checkpoint_acquire_sealed beside_sealed [OF create_beside])

lemma checkpoint_list_sealed: "sealed store c s (snd (checkpoint_list env codec store s))"
proof -
  have entry: "sealed store c s (snd (checkpoint_entry env codec store d report s))" for d report s
  proof -
    have "sealed store c s s'" if "checkpoint_get env codec store x s = (r, s')" for x r s'
      using checkpoint_get_sealed [of store c s env codec x] that by simp
    then show ?thesis
      unfolding checkpoint_entry_def Let_def by (auto intro!: seal.bind simp: seal.same split: option.splits prod.splits sum.splits)
  qed
  have "sealed store c s (snd (checkpoint_entries env codec store es report s))" for es report s
  proof (induction es arbitrary: report s)
    case (Cons e es)
    show ?case by (cases e) (auto intro!: seal.bind entry Cons.IH)
  qed (simp add: seal.same)
  then show ?thesis
    unfolding checkpoint_list_def by (auto intro!: seal.bind seal.same held_sealed [OF ensure_root_keeps] simp: held_apart)
qed

lemma checkpoint_collect_sealed:
  assumes "\<not> starts_with ''.'' c"
  shows "sealed store c s (snd (checkpoint_collect env store age s))"
proof -
  have one: "sealed store c s (snd (collect_checkpoint_staging env (checkpoints_directory store @ [d]) age report s))"
    if "is_checkpoint_staging_name parse d" for d report s parse
  proof -
    have "d \<noteq> c" using that assms by (auto simp: is_checkpoint_staging_name_def artifact_parts_def strip_prefix_Some starts_with_iff split: option.splits)
    then show ?thesis
      unfolding collect_checkpoint_staging_def
      by (intro held_sealed) (auto intro!: frames simp: held_apart split: GarbageCollectionLock.splits)
  qed
  have "sealed store c s (snd (collect_checkpoint_entries env store age es report s))" for es report s
  proof (induction es arbitrary: report s)
    case (Cons e es)
    show ?case by (cases e) (auto intro!: seal.bind seal.same Cons.IH one)
  qed (simp add: seal.same)
  then show ?thesis
    unfolding checkpoint_collect_def by (auto intro!: seal.bind seal.same held_sealed [OF ensure_root_keeps] simp: held_apart)
qed

lemma rename_onto_checkpoint: "sealed store c s (snd (fs_rename env from (checkpoint_directory store c) s))"
proof -
  have "snd (fs_rename env from (checkpoint_directory store c) s) = s" if p: "checkpoint_present store c s"
  proof -
    obtain n where "node_at (checkpoint_directory store c @ [METADATA_FILE]) (dk_root s) = Inr n"
      using p by (auto simp: checkpoint_present_def is_ok_iff)
    from node_at_parent [OF this] obtain i es where "node_at (checkpoint_directory store c) (dk_root s) = Inr (EDir i es)" "es \<noteq> []"
      by (metis map_of.simps(1) option.distinct(1))
    then show ?thesis by (auto simp: fs_rename_def split: sum.splits)
  qed
  then show ?thesis by (simp add: sealed_def keep.same)
qed

lemma seal_on_error:
  "sealed store c s (snd (m s)) \<Longrightarrow> (\<And>t. sealed store c t (snd (f t))) \<Longrightarrow> sealed store c s (snd (on_error m f s))"
  by (cases "m s") (auto simp: on_error_def split: sum.splits intro: seal.trans)

lemma checkpoint_temporary_Inr:
  "checkpoint_temporary_path env store x s = (Inr p, t) \<Longrightarrow> \<exists>d. p = checkpoints_directory store @ [CHR ''.'' # d] \<and> dk_root t = dk_root s"
  by (auto simp: checkpoint_temporary_path_def bind_eff_Inr fetch_sequence_def)

lemma checkpoint_temporary_keeps: "untouched P s (snd (checkpoint_temporary_path env store x s))"
  unfolding checkpoint_temporary_path_def by (auto intro!: frames)

lemma populate_sealed:
  assumes "CHR ''.'' # d \<noteq> c"
  shows "sealed store c s (snd (populate_checkpoint env codec c' x source disk request (checkpoints_directory store @ [CHR ''.'' # d])
    (checkpoint_directory store c') s))"
proof -
  note a = held_apart(4) [OF _ assms]
  have ren: "sealed store c s (snd (fs_rename env (checkpoints_directory store @ [CHR ''.'' # d]) (checkpoint_directory store c') s))" for s
  proof (cases "c' = c")
    case True
    then show ?thesis by (simp add: rename_onto_checkpoint)
  next
    case False
    then show ?thesis by (intro held_sealed rename_keeps) (auto simp: a held_apart(5) [OF _ False])
  qed
  show ?thesis
    unfolding populate_checkpoint_def Let_def set_read_only_def
    by (auto intro!: seal.bind seal.same ren held_sealed [OF create_new_keeps] held_sealed [OF file_permissions_keeps]
        held_sealed [OF copy_disk_keeps] held_sealed [OF set_permissions_keeps] held_sealed [OF write_json_in_keeps [where d = "checkpoints_directory store @ [CHR ''.'' # d]", simplified]]
        simp: a apart_not_prefix [OF a])
qed

lemma dotted_not_held: "CHR ''.'' # d \<noteq> c \<Longrightarrow> checkpoints_directory store @ [CHR ''.'' # d] \<notin> held store c"
  by (auto simp: held_def checkpoint_directory_def)

lemma checkpoint_create_sealed:
  assumes "\<not> starts_with ''.'' c"
  shows "sealed store c s (snd (create_checkpoint_with env codec store x request s))"
proof -
  have d: "CHR ''.'' # d \<noteq> c" for d using assms by (auto simp: starts_with_iff)
  have staging: "sealed store c s (snd (create_checkpoint_with_id env codec store c' x m disk request s))" for c' m disk s
    unfolding create_checkpoint_with_id_def
    by (auto intro!: seal.bind seal.same seal_on_error populate_sealed [OF d] held_sealed [OF discard_staging_keeps]
        held_sealed [OF secure_directory_keeps] held_sealed [OF checkpoint_temporary_keeps] simp: held_apart d dotted_not_held [OF d]
        dest!: checkpoint_temporary_Inr)
  show ?thesis
    unfolding create_checkpoint_with_def
    by (auto intro!: seal.bind seal.same staging held_sealed [OF ensure_root_keeps] held_sealed [OF secure_directory_keeps]
        beside_sealed [OF beside_one(2)] simp: held_apart)
qed

section \<open>Commands on boxes and checkpoints\<close>

datatype state_command =
    OnBoxes box_command
  | TakeCheckpoint uuid CreateCheckpoint
  | ForkOf uuid ForkCheckpoint
  | ShowCheckpoint uuid
  | ListCheckpoints
  | DeleteCheckpoint uuid
  | CollectCheckpoints duration

primrec run_state_command :: "box_env \<Rightarrow> checkpoint_codec \<Rightarrow> BoxStore \<Rightarrow> state_command \<Rightarrow> disk \<Rightarrow> disk" where
  "run_state_command env codec store (OnBoxes cmd) s = run_command env store cmd s"
| "run_state_command env codec store (TakeCheckpoint x request) s = snd (create_checkpoint_with env codec store x request s)"
| "run_state_command env codec store (ForkOf c request) s = snd (checkpoint_fork env codec store c request s)"
| "run_state_command env codec store (ShowCheckpoint c) s = snd (checkpoint_get env codec store c s)"
| "run_state_command env codec store ListCheckpoints s = snd (checkpoint_list env codec store s)"
| "run_state_command env codec store (DeleteCheckpoint c) s = snd (checkpoint_delete env codec store c s)"
| "run_state_command env codec store (CollectCheckpoints age) s = snd (checkpoint_collect env store age s)"

text \<open>A sequence of commands, each in an environment of its own.\<close>

definition run_state_commands :: "BoxStore \<Rightarrow> (box_env \<times> checkpoint_codec \<times> state_command) list \<Rightarrow> disk \<Rightarrow> disk" where
  "run_state_commands store cmds s = foldl (\<lambda>s (env, codec, cmd). run_state_command env codec store cmd s) s cmds"

lemma state_command_sealed:
  assumes "\<not> starts_with ''.'' c" "cmd \<noteq> DeleteCheckpoint c"
  shows "sealed store c s (run_state_command env codec store cmd s)"
proof (cases cmd)
  case (OnBoxes b)
  then show ?thesis using beside_sealed [OF command_beside] by simp
qed (use assms in \<open>auto intro: checkpoint_create_sealed checkpoint_fork_sealed checkpoint_get_sealed checkpoint_list_sealed
    checkpoint_delete_sealed checkpoint_collect_sealed\<close>)

lemma state_commands_sealed:
  assumes "\<not> starts_with ''.'' c"
  shows "\<forall>(env, codec, cmd) \<in> set cmds. cmd \<noteq> DeleteCheckpoint c \<Longrightarrow> sealed store c s (run_state_commands store cmds s)"
proof (induction cmds arbitrary: s)
  case Nil
  show ?case by (simp add: run_state_commands_def seal.same)
next
  case (Cons e cmds)
  obtain env codec cmd where e: "e = (env, codec, cmd)" by (cases e)
  have "sealed store c s (run_state_command env codec store cmd s)" using Cons.prems by (intro state_command_sealed assms) (simp add: e)
  moreover have "sealed store c (run_state_command env codec store cmd s) (run_state_commands store cmds (run_state_command env codec store cmd s))"
    using Cons by simp
  ultimately show ?case by (auto simp: run_state_commands_def e intro: seal.trans)
qed

section \<open>What a checkpoint holds, and what a fork gets\<close>

lemma populate_checkpoint_steps:
  assumes "populate_checkpoint env codec c x source disk request (b @ [t]) (b @ [c]) s = (Inr m, s')"
    and src: "node_at disk (dk_root s) = Inr (EFile i bs)" "apart (b @ [t]) disk" "honest_seeks (be_seek_data env disk) (be_seek_hole env disk) bs"
  shows "\<exists>q q' now owner allocated k. node_at ((b @ [t]) @ [ROOT_DISK_FILE]) (dk_root q) = Inr (EFile k bs) \<and> fi_mode k = MODE_0400 \<and>
    m = new_checkpoint c x source request allocated now owner \<and>
    box_write_json_atomic env ((b @ [t]) @ [METADATA_FILE]) (cc_json codec m) q = (Inr (), q') \<and> fs_rename env (b @ [t]) (b @ [c]) q' = (Inr (), s')"
proof -
  let ?st = "b @ [t]"
  obtain s1 s2 q0 u3 q now owner allocated q' where
      c1: "fs_create_new env (?st @ [LOCK_FILE]) s = (Inr (), s1)" and c2: "set_file_permissions env (?st @ [LOCK_FILE]) s1 = (Inr (), s2)"
    and c3: "copy_disk env disk (?st @ [ROOT_DISK_FILE]) s2 = (Inr u3, q0)" and c4: "set_read_only env (?st @ [ROOT_DISK_FILE]) q0 = (Inr (), q)"
    and m: "m = new_checkpoint c x source request allocated now owner"
    and w: "box_write_json_atomic env (?st @ [METADATA_FILE]) (cc_json codec m) q = (Inr (), q')"
    and r: "fs_rename env ?st (b @ [c]) q' = (Inr (), s')"
    using assms(1) by (auto simp: populate_checkpoint_def Let_def bind_eff_Inr box_io_Inr reading_Inr syncing_parent_def)
  have "untouched {disk} s s1" using create_new_keeps [of "{disk}" "?st @ [LOCK_FILE]" s env] c1 apart_below [OF src(2)] by simp
  moreover have "untouched {disk} s1 s2" using file_permissions_keeps [of "{disk}" "?st @ [LOCK_FILE]" s1 env] c2 apart_below [OF src(2)] by simp
  ultimately have "node_at disk (dk_root s2) = Inr (EFile i bs)" using src(1) by (simp add: untouched_def)
  from copy_disk_Inr [OF c3 this _ src(3)] apart_below [OF src(2)]
  obtain k where k: "node_at (?st @ [ROOT_DISK_FILE]) (dk_root q0) = Inr (EFile k bs)" by blast
  have "node_at (?st @ [ROOT_DISK_FILE]) (dk_root q) = Inr (EFile (k\<lparr>fi_mode := MODE_0400\<rparr>) bs)"
    using permissions_node [OF c4 [unfolded set_read_only_def]] k by (auto simp: with_mode_def)
  moreover have "fi_mode (k\<lparr>fi_mode := MODE_0400\<rparr>) = MODE_0400" by simp
  ultimately show ?thesis using m w r by blast
qed

lemma populate_checkpoint_Inr:
  assumes "populate_checkpoint env codec c x source disk request (b @ [t]) (b @ [c]) s = (Inr m, s')" "c \<noteq> t"
    and src: "node_at disk (dk_root s) = Inr (EFile i bs)" "apart (b @ [t]) disk" "honest_seeks (be_seek_data env disk) (be_seek_hole env disk) bs"
  shows "(\<exists>now owner allocated. m = new_checkpoint c x source request allocated now owner) \<and>
    (\<exists>k js. cc_json codec m = Inr js \<and> node_at ((b @ [c]) @ [METADATA_FILE]) (dk_root s') = Inr (EFile k (js @ [10]))) \<and>
    (\<exists>k. node_at ((b @ [c]) @ [ROOT_DISK_FILE]) (dk_root s') = Inr (EFile k bs) \<and> fi_mode k = MODE_0400)"
proof -
  obtain q q' now owner allocated k where d: "node_at ((b @ [t]) @ [ROOT_DISK_FILE]) (dk_root q) = Inr (EFile k bs)" "fi_mode k = MODE_0400"
    and m: "m = new_checkpoint c x source request allocated now owner"
    and w: "box_write_json_atomic env ((b @ [t]) @ [METADATA_FILE]) (cc_json codec m) q = (Inr (), q')"
    and r: "fs_rename env (b @ [t]) (b @ [c]) q' = (Inr (), s')"
    using populate_checkpoint_steps [OF assms(1) src] by blast
  have disk: "node_at ((b @ [t]) @ [ROOT_DISK_FILE]) (dk_root q') = Inr (EFile k bs)" using write_keeps_root_disk [OF w] d(1) by simp
  obtain js k' where meta: "cc_json codec m = Inr js" "node_at ((b @ [t]) @ [METADATA_FILE]) (dk_root q') = Inr (EFile k' (js @ [10]))"
    using write_json_outcome [OF file_names(4) w] by auto
  obtain n where n: "node_at (b @ [t]) (dk_root q') = Inr n" "node_at [ROOT_DISK_FILE] n = Inr (EFile k bs)" "node_at [METADATA_FILE] n = Inr (EFile k' (js @ [10]))"
    using node_below [OF disk] node_below [OF meta(2)] by auto
  have "node_at (b @ [c]) (dk_root s') = Inr n" by (rule fs_rename_Ok [OF r n(1) assms(2)])
  then have "node_at ((b @ [c]) @ [METADATA_FILE]) (dk_root s') = Inr (EFile k' (js @ [10]))" "node_at ((b @ [c]) @ [ROOT_DISK_FILE]) (dk_root s') = Inr (EFile k bs)"
    unfolding node_at_append [of "b @ [c]"] using n(2,3) by simp_all
  then show ?thesis using m meta(1) d(2) by blast
qed

lemma create_checkpoint_steps:
  assumes "create_checkpoint_with env codec store x request s = (Inr m, s')"
  shows "\<exists>c l t1 t. try_acquire env store x t1 = (Inr l, t) \<and> bm_state (bl_metadata l) = Ready \<and> c \<in> set (cc_fresh_ids codec) \<and>
    untouched {p. prefix (boxes_directory store) p \<and> \<not> prefix p (boxes_directory store)} s t1 \<and>
    create_checkpoint_with_id env codec store c x (bl_metadata l) (bl_disk_path l) request t = (Inr m, s')"
proof -
  obtain s1 s2 l t c where e: "ensure_root env (state_root store) s = (Inr (), s1)" "secure_directory env (checkpoints_directory store) s1 = (Inr (), s2)"
    and a: "try_acquire env store x s2 = (Inr l, t)" "bm_state (bl_metadata l) = Ready"
      "free_id env (checkpoint_directory store) (cc_fresh_ids codec) (dk_root t) = Inr c"
      "create_checkpoint_with_id env codec store c x (bl_metadata l) (bl_disk_path l) request t = (Inr m, s')"
    using assms by (auto simp: create_checkpoint_with_def bind_eff_Inr reading_Inr split: if_splits)
  let ?P = "{p. prefix (boxes_directory store) p \<and> \<not> prefix p (boxes_directory store)}"
  have "\<not> prefix p (state_root store)" "\<not> prefix p (checkpoints_directory store)" if "p \<in> ?P" for p
    using that by (auto simp: boxes_directory_def checkpoints_directory_def prefix_def BOXES_DIRECTORY_def CHECKPOINTS_DIRECTORY_def)
  then have "untouched ?P s s1" "untouched ?P s1 s2"
    using ensure_root_keeps [of ?P "state_root store" s env] secure_directory_keeps [of ?P "checkpoints_directory store" s1 env] e by simp_all
  with a free_id_Inr [OF a(3)] show ?thesis by (blast intro: keep.trans)
qed

lemma create_checkpoint_with_id_Inr:
  assumes "create_checkpoint_with_id env codec store c x source disk request s = (Inr m, s')" "node_at disk (dk_root s) = Inr (EFile i bs)"
    "\<And>t. apart (checkpoints_directory store @ [t]) disk" "honest_seeks (be_seek_data env disk) (be_seek_hole env disk) bs" "\<not> starts_with ''.'' c"
  shows "(\<exists>now owner allocated. m = new_checkpoint c x source request allocated now owner) \<and>
    (\<exists>k js. cc_json codec m = Inr js \<and> node_at (checkpoint_directory store c @ [METADATA_FILE]) (dk_root s') = Inr (EFile k (js @ [10]))) \<and>
    (\<exists>k. node_at (checkpoint_directory store c @ [ROOT_DISK_FILE]) (dk_root s') = Inr (EFile k bs) \<and> fi_mode k = MODE_0400)"
proof -
  obtain staging s1 s2 where t: "checkpoint_temporary_path env store c s = (Inr staging, s1)" and d: "secure_directory env staging s1 = (Inr (), s2)"
    and p: "populate_checkpoint env codec c x source disk request staging (checkpoint_directory store c) s2 = (Inr m, s')"
    using assms(1) by (auto simp: create_checkpoint_with_id_def bind_eff_Inr discarded_Inr)
  obtain d' where d': "staging = checkpoints_directory store @ [CHR ''.'' # d']" "dk_root s1 = dk_root s" using checkpoint_temporary_Inr [OF t] by blast
  have "untouched {disk} s1 s2"
    using secure_directory_keeps [of "{disk}" staging s1 env] d apart_not_prefix [OF assms(3)] by (simp add: d')
  then have src: "node_at disk (dk_root s2) = Inr (EFile i bs)" using assms(2) d'(2) by (simp add: untouched_def)
  have "c \<noteq> CHR ''.'' # d'" using assms(5) by (auto simp: starts_with_iff)
  from populate_checkpoint_Inr [OF p [unfolded d'(1) checkpoint_directory_def] this src assms(3,4)] show ?thesis
    by (simp add: checkpoint_directory_def)
qed

lemma acquire_keeps_disk: "untouched {disk_path_of store x} s (snd (try_acquire env store x s))"
proof -
  have w: "untouched {disk_path_of store x} s (snd (box_write_json_atomic env (box_directory store x @ [METADATA_FILE]) json s))" for json s
    using write_keeps_root_disk [of env "box_directory store x" json s] by (cases "box_write_json_atomic env (box_directory store x @ [METADATA_FILE]) json s")
      (simp add: untouched_def disk_path_of_def)
  have lock: "apart (box_directory store x @ [LOCK_FILE]) (disk_path_of store x)"
    by (auto simp: disk_path_of_def apart_def file_names(2) [THEN not_sym])
  have "\<not> prefix (disk_path_of store x) (state_root store)" by (auto simp: disk_path_of_def box_directory_def boxes_directory_def prefix_def)
  then show ?thesis
    unfolding try_acquire_def by (auto intro!: frames w simp: lock dest!: checked_paths_Inr(1))
qed

lemma uuid_not_dotted: "uuid_text c \<Longrightarrow> \<not> starts_with ''.'' c"
  by (auto simp: uuid_text_def starts_with_iff ascii_defs)

text \<open>
  C13: no sequence of commands on boxes and checkpoints changes the metadata or the disk of a checkpoint that is not deleted,
  whichever calls fail: not the deletion or reset of its source, not its forks, not repair or garbage collection.
\<close>

theorem checkpoint_immutable:
  assumes "uuid_text c" and "\<forall>(env, codec, cmd) \<in> set cmds. cmd \<noteq> DeleteCheckpoint c"
    and "is_ok (node_at (checkpoint_directory store c @ [METADATA_FILE]) (dk_root s))"
  shows "node_at (checkpoint_directory store c @ [METADATA_FILE]) (dk_root (run_state_commands store cmds s)) =
      node_at (checkpoint_directory store c @ [METADATA_FILE]) (dk_root s) \<and>
    node_at (checkpoint_directory store c @ [ROOT_DISK_FILE]) (dk_root (run_state_commands store cmds s)) =
      node_at (checkpoint_directory store c @ [ROOT_DISK_FILE]) (dk_root s)"
  using state_commands_sealed [OF uuid_not_dotted [OF assms(1)] assms(2)] assms(3)
  by (auto simp: sealed_def checkpoint_present_def untouched_def held_def)

lemma taken_checkpoint:
  assumes "json_roundtrip env" "create_checkpoint_with env codec store x request s = (Inr m, s')"
    "node_at (disk_path_of store x) (dk_root s) = Inr (EFile i bs)"
    "honest_seeks (be_seek_data env (disk_path_of store x)) (be_seek_hole env (disk_path_of store x)) bs" "\<forall>c \<in> set (cc_fresh_ids codec). uuid_text c"
  shows "recorded (be_parse_box env) store x s = Some Ready \<and> uuid_text (cm_checkpoint_id m) \<and> cm_source_box_id m = x \<and>
    is_ok (node_at (checkpoint_directory store (cm_checkpoint_id m) @ [METADATA_FILE]) (dk_root s')) \<and>
    (\<exists>k. node_at (checkpoint_directory store (cm_checkpoint_id m) @ [ROOT_DISK_FILE]) (dk_root s') = Inr (EFile k bs) \<and> fi_mode k = MODE_0400)"
proof -
  obtain c l t1 t where a: "try_acquire env store x t1 = (Inr l, t)" "bm_state (bl_metadata l) = Ready" and c: "c \<in> set (cc_fresh_ids codec)"
    and u: "untouched {p. prefix (boxes_directory store) p \<and> \<not> prefix p (boxes_directory store)} s t1"
    and w: "create_checkpoint_with_id env codec store c x (bl_metadata l) (bl_disk_path l) request t = (Inr m, s')"
    using create_checkpoint_steps [OF assms(2)] by blast
  have "recorded (be_parse_box env) store x t1 = Some Ready"
    using unreadyD [OF try_acquire_unready [OF assms(1), of store x t1]] try_acquire_recorded [OF assms(1) a(1)] a by auto
  moreover have same: "node_at (meta_path store x) (dk_root t1) = node_at (meta_path store x) (dk_root s)"
    "node_at (disk_path_of store x) (dk_root t1) = node_at (disk_path_of store x) (dk_root s)"
    using u by (auto simp: untouched_def meta_path_def disk_path_of_def box_directory_def)
  ultimately have ready: "recorded (be_parse_box env) store x s = Some Ready" by (simp add: recorded_def)
  have p: "bl_disk_path l = disk_path_of store x" using try_acquire_Inr(2) [OF a(1)] by (simp add: disk_path_of_def)
  have src: "node_at (disk_path_of store x) (dk_root t) = Inr (EFile i bs)"
    using acquire_keeps_disk [of store x t1 env] a(1) same(2) assms(3) by (simp add: untouched_def)
  have "apart (checkpoints_directory store @ [d]) (disk_path_of store x)" for d
    by (auto simp: apart_def checkpoints_directory_def disk_path_of_def box_directory_def boxes_directory_def BOXES_DIRECTORY_def CHECKPOINTS_DIRECTORY_def)
  from create_checkpoint_with_id_Inr [OF w [unfolded p] src this assms(4) uuid_not_dotted [OF assms(5) [rule_format, OF c]]]
  show ?thesis using ready assms(5) c by (auto simp: new_checkpoint_def is_ok_def)
qed

lemma forked_box:
  assumes "json_roundtrip env" "checkpoint_fork env codec store c request s = (Inr b, s')"
    "node_at (checkpoint_directory store c @ [ROOT_DISK_FILE]) (dk_root s) = Inr (EFile i bs)"
    "honest_seeks (be_seek_data env (checkpoint_directory store c @ [ROOT_DISK_FILE])) (be_seek_hole env (checkpoint_directory store c @ [ROOT_DISK_FILE])) bs"
    "\<forall>x \<in> set (be_fresh_ids env). uuid_text x" "is_ok (node_at (checkpoint_directory store c @ [METADATA_FILE]) (dk_root s))"
  shows "recorded (be_parse_box env) store (bm_box_id b) s' = Some Ready \<and> bm_state b = Ready \<and>
    (\<exists>k. node_at (box_directory store (bm_box_id b) @ [ROOT_DISK_FILE]) (dk_root s') = Inr (EFile k bs))"
proof -
  obtain l t where a: "checkpoint_try_acquire env codec store c s = (Inr l, t)"
    and b: "box_create env store (fork_request (xl_metadata l) request) (xl_disk_path l) t = (Inr b, s')"
    using assms(2) by (auto simp: checkpoint_fork_def bind_eff_Inr)
  let ?disk = "checkpoint_directory store c @ [ROOT_DISK_FILE]"
  have p: "xl_disk_path l = ?disk" by (rule checkpoint_acquire_Inr [OF a])
  have "node_at ?disk (dk_root t) = Inr (EFile i bs)"
    using checkpoint_acquire_sealed [of store c s env codec c] a assms(3,6) by (simp add: sealed_def checkpoint_present_def untouched_def held_def)
  moreover have away: "?disk \<in> elsewhere store y" for y using held_beside beside_elsewhere by (fastforce simp: held_def)
  moreover obtain x u where x: "create_with_id env store x (fork_request (xl_metadata l) request) ?disk u = (Inr b, s')" "untouched (elsewhere store []) t u"
      "x \<in> set (be_fresh_ids env)"
    using create_steps [OF b [unfolded p]] by blast
  ultimately have "node_at ?disk (dk_root u) = Inr (EFile i bs)" by (auto simp: untouched_def)
  from create_with_id_Inr [OF x(1) this away assms(4)] x(3) assms(5) uuid_not_dotted
  obtain now owner allocated k js k' where m: "b = new_metadata x (fork_request (xl_metadata l) request) now owner allocated" and js: "be_box_json env b = Inr js"
    and meta: "node_at (meta_path store x) (dk_root s') = Inr (EFile k (js @ [10]))" and d: "node_at (disk_path_of store x) (dk_root s') = Inr (EFile k' bs)"
    by auto
  have "bm_box_id b = x" "effective_state b = Ready" "bm_state b = Ready" unfolding m by (simp_all add: new_metadata_def effective_current)
  with recorded_written [OF assms(1) js meta] d show ?thesis by (auto simp: disk_path_of_def)
qed


section \<open>A checkpoint, the deletion of its source, and a fork\<close>

definition CHECKPOINT_C :: uuid where "CHECKPOINT_C = ''00000000-0000-4000-8000-00000000000c''"

definition sample_checkpoint :: CheckpointMetadata where
  "sample_checkpoint = new_checkpoint CHECKPOINT_C BOX_A ready_box create_checkpoint_default 0 5 (Some 0)"

definition sample_codec :: checkpoint_codec where
  "sample_codec =
     \<lparr>cc_json = (\<lambda>m. if m = sample_checkpoint then Ok [4] else Err ''no text''),
      cc_parse = (\<lambda>bs. if bs = [4, 10] then Ok sample_checkpoint else Err ''no metadata''), cc_fresh_ids = [CHECKPOINT_C]\<rparr>"

definition later_host :: box_env where
  "later_host = (box_host False)\<lparr>be_fresh_ids := [BOX_B]\<rparr>"

definition taken :: "(CheckpointMetadata, BoxStoreError) result \<times> disk" where
  "taken = create_checkpoint_with (box_host False) sample_codec sample_store BOX_A create_checkpoint_default (box_disk_of [1, 10] [7, 8])"

definition between_commands :: "(box_env \<times> checkpoint_codec \<times> state_command) list" where
  "between_commands = [(box_host False, sample_codec, OnBoxes (CmdDelete BOX_A)), (box_host False, sample_codec, CollectCheckpoints 0)]"

definition forked :: "(BoxMetadata, BoxStoreError) result \<times> disk" where
  "forked = checkpoint_fork later_host sample_codec sample_store CHECKPOINT_C \<lparr>fk_name = None, fk_labels = None, fk_tags = None\<rparr>
     (run_state_commands sample_store between_commands (snd taken))"

lemma sample_runs:
  "fst taken = Inr sample_checkpoint" "fst forked = Inr cloned_box" "cm_checkpoint_id sample_checkpoint = CHECKPOINT_C" "bm_box_id cloned_box = BOX_B"
  "uuid_text CHECKPOINT_C" "is_ok (node_at (checkpoint_directory sample_store CHECKPOINT_C @ [METADATA_FILE]) (dk_root (snd taken)))"
  by code_simp+

lemma sample_between: "\<forall>(env, codec, cmd) \<in> set between_commands. cmd \<noteq> DeleteCheckpoint CHECKPOINT_C"
  by (simp add: between_commands_def)

theorem checkpoint_immutable_witness:
  "node_at (checkpoint_directory sample_store CHECKPOINT_C @ [ROOT_DISK_FILE]) (dk_root (run_state_commands sample_store between_commands (snd taken))) =
     node_at (checkpoint_directory sample_store CHECKPOINT_C @ [ROOT_DISK_FILE]) (dk_root (snd taken))"
  using checkpoint_immutable [OF sample_runs(5) sample_between sample_runs(6)] by blast


end
