(* ===== verification/Base_Properties.thy ===== *)
theory Base_Properties
  imports Base_Disk Checkpoint_Properties
begin

text \<open>
  Base disks do not change, and the disk of a session starts as its base disk, is its own and is gone at the end.
\<close>

section \<open>What the operations on the disk of a session leave alone\<close>

definition outside_session :: "EphemeralDiskStore \<Rightarrow> uuid \<Rightarrow> disk_path set" where
  "outside_session store sid =
     {p. \<not> prefix p (ephemeral_directory store) \<and> apart (ephemeral_directory store @ [sid]) p \<and>
         (\<forall>d. apart (ephemeral_directory store @ [CHR ''.'' # d]) p)}"

lemma outsideD:
  assumes "p \<in> outside_session store sid"
  shows "\<not> prefix p (runtime_root store)" "\<not> prefix p (ephemeral_directory store)" "apart (ephemeral_directory store @ [sid]) p"
    "apart (ephemeral_directory store @ sid # r) p" "apart (ephemeral_directory store @ [CHR ''.'' # d]) p"
    "apart (ephemeral_directory store @ (CHR ''.'' # d) # r) p" "\<not> prefix p (ephemeral_directory store @ [CHR ''.'' # d])"
proof -
  show p: "\<not> prefix p (ephemeral_directory store)" "apart (ephemeral_directory store @ [sid]) p" "apart (ephemeral_directory store @ [CHR ''.'' # d]) p"
    using assms by (auto simp: outside_session_def)
  then show "\<not> prefix p (runtime_root store)" by (auto simp: ephemeral_directory_def)
  show "apart (ephemeral_directory store @ sid # r) p" using apart_below [OF p(2), of r] by simp
  show "apart (ephemeral_directory store @ (CHR ''.'' # d) # r) p" using apart_below [OF p(3), of r] by simp
  show "\<not> prefix p (ephemeral_directory store @ [CHR ''.'' # d])" by (rule apart_not_prefix [OF p(3)])
qed

lemma strict_clone_keeps [frames]: "(\<And>p. p \<in> P \<Longrightarrow> apart q p) \<Longrightarrow> untouched P s (snd (strict_cow_clone env source q s))"
  unfolding strict_cow_clone_def by (auto intro!: frames)

lemma discard_existing_keeps [frames]: "(\<And>p. p \<in> P \<Longrightarrow> apart q p) \<Longrightarrow> untouched P s (snd (discard_existing env q s))"
  unfolding discard_existing_def by (auto intro!: frames)

lemma populate_ephemeral_keeps [frames]:
  assumes "\<And>p. p \<in> P \<Longrightarrow> apart staging p" "\<And>p. p \<in> P \<Longrightarrow> apart destination p"
  shows "untouched P s (snd (populate_ephemeral env base sid staging destination s))"
  unfolding populate_ephemeral_def Let_def using assms by (auto intro!: frames apart_below)

lemma dotted_not_outside [simp]: "ephemeral_directory store @ [CHR ''.'' # d] \<notin> outside_session store sid"
  using outsideD(7) by auto

lemma clone_keeps: "untouched (outside_session store sid) s (snd (clone_for_session env store base sid s))"
  unfolding clone_for_session_def Let_def by (auto intro!: frames simp: outsideD)

lemma drop_steps:
  assumes "ed_directory d = b @ [c]"
  shows "\<exists>r. ephemeral_drop env d s = (case fs_rename env (b @ [c]) (b @ [CHR ''.'' # r]) (snd (fetch_sequence s)) of
        (Inr _, s') \<Rightarrow> snd (box_remove_managed_directory env (b @ [CHR ''.'' # r]) s')
      | (Inl _, s') \<Rightarrow> snd (box_remove_managed_directory env (b @ [c]) s'))"
  unfolding ephemeral_drop_def Let_def assms butlast_snoc by (rule exI) (simp only: append_Cons)

lemma drop_keeps:
  assumes "ed_directory d = ephemeral_directory store @ [sid]"
  shows "untouched (outside_session store sid) s (ephemeral_drop env d s)"
proof -
  obtain r where run: "ephemeral_drop env d s = (case fs_rename env (ephemeral_directory store @ [sid]) (ephemeral_directory store @ [CHR ''.'' # r]) (snd (fetch_sequence s)) of
        (Inr _, s') \<Rightarrow> snd (box_remove_managed_directory env (ephemeral_directory store @ [CHR ''.'' # r]) s')
      | (Inl _, s') \<Rightarrow> snd (box_remove_managed_directory env (ephemeral_directory store @ [sid]) s'))"
    using drop_steps [OF assms] by blast
  let ?q = "snd (fetch_sequence s)"
  let ?P = "outside_session store sid"
  have first: "untouched ?P s ?q" by (rule fetch_sequence_keeps)
  have "untouched ?P ?q (snd (fs_rename env (ephemeral_directory store @ [sid]) (ephemeral_directory store @ [CHR ''.'' # r]) ?q))"
    by (rule rename_keeps) (simp add: outsideD)
  with first have ren: "untouched ?P s (snd (fs_rename env (ephemeral_directory store @ [sid]) (ephemeral_directory store @ [CHR ''.'' # r]) ?q))"
    by (rule keep.trans)
  have rem: "untouched ?P u (snd (box_remove_managed_directory env (ephemeral_directory store @ [CHR ''.'' # r]) u))"
    "untouched ?P u (snd (box_remove_managed_directory env (ephemeral_directory store @ [sid]) u))" for u
    by (rule remove_managed_directory_keeps, simp add: outsideD)+
  show ?thesis
  proof (cases "fs_rename env (ephemeral_directory store @ [sid]) (ephemeral_directory store @ [CHR ''.'' # r]) ?q")
    case (Pair x u)
    then show ?thesis using run ren keep.trans [OF _ rem(1)] keep.trans [OF _ rem(2)] by (cases x) simp_all
  qed
qed

section \<open>The disk of a session\<close>

lemma strict_clone_Inr:
  assumes "strict_cow_clone env p (d @ [c]) s = (Inr u, s')" "node_at p (dk_root s) = Inr (EFile i bs)"
  shows "(\<exists>k. node_at (d @ [c]) (dk_root s') = Inr (EFile k bs)) \<and> (\<exists>i es. node_at d (dk_root s') = Inr (EDir i es))"
proof -
  obtain u1 where "native_cow_clone env p (d @ [c]) s = (Inr u1, s')"
    using assms(1) by (auto simp: strict_cow_clone_def bind_eff_Inr reading_Inr dest!: finish_disk_copy_Inr)
  from native_clone_Inr [OF this assms(2)] show ?thesis .
qed

lemma populate_ephemeral_Inr:
  assumes "populate_ephemeral env base sid (b @ [t]) (b @ [c]) s = (Inr e, s')" "c \<noteq> t"
    "node_at base (dk_root s) = Inr (EFile i bs)" "apart (b @ [t]) base"
  shows "e = \<lparr>ed_directory = b @ [c], ed_disk_path = (b @ [c]) @ [ROOT_DISK_FILE], ed_session_id = sid\<rparr> \<and>
    (\<exists>k. node_at ((b @ [c]) @ [ROOT_DISK_FILE]) (dk_root s') = Inr (EFile k bs))"
proof -
  let ?st = "b @ [t]"
  obtain s1 s2 q0 u3 q where
      c1: "fs_create_new env (?st @ [LOCK_FILE]) s = (Inr (), s1)" and c2: "set_file_permissions env (?st @ [LOCK_FILE]) s1 = (Inr (), s2)"
    and c3: "strict_cow_clone env base (?st @ [ROOT_DISK_FILE]) s2 = (Inr u3, q0)" and c4: "set_file_permissions env (?st @ [ROOT_DISK_FILE]) q0 = (Inr (), q)"
    and r: "fs_rename env ?st (b @ [c]) q = (Inr (), s')"
    and e: "e = \<lparr>ed_directory = b @ [c], ed_disk_path = (b @ [c]) @ [ROOT_DISK_FILE], ed_session_id = sid\<rparr>"
    using assms(1) by (auto simp: populate_ephemeral_def Let_def bind_eff_Inr box_io_Inr reading_Inr syncing_parent_def)
  have "untouched {base} s s1" using create_new_keeps [of "{base}" "?st @ [LOCK_FILE]" s env] c1 apart_below [OF assms(4)] by simp
  moreover have "untouched {base} s1 s2" using file_permissions_keeps [of "{base}" "?st @ [LOCK_FILE]" s1 env] c2 apart_below [OF assms(4)] by simp
  ultimately have "node_at base (dk_root s2) = Inr (EFile i bs)" using assms(3) by (simp add: untouched_def)
  from strict_clone_Inr [OF c3 this] obtain k where k: "node_at (?st @ [ROOT_DISK_FILE]) (dk_root q0) = Inr (EFile k bs)" by blast
  obtain k' where disk: "node_at (?st @ [ROOT_DISK_FILE]) (dk_root q) = Inr (EFile k' bs)"
    using permissions_node [OF c4 [unfolded set_file_permissions_def]] k by (auto simp: with_mode_def)
  obtain n where n: "node_at ?st (dk_root q) = Inr n" "node_at [ROOT_DISK_FILE] n = Inr (EFile k' bs)" using node_below [OF disk] by blast
  have "node_at (b @ [c]) (dk_root s') = Inr n" by (rule fs_rename_Ok [OF r n(1) assms(2)])
  then have "node_at ((b @ [c]) @ [ROOT_DISK_FILE]) (dk_root s') = Inr (EFile k' bs)" unfolding node_at_append [of "b @ [c]"] using n(2) by simp
  with e show ?thesis by blast
qed

lemma clone_Inr:
  assumes "clone_for_session env store base sid s = (Inr e, s')" "node_at (dd_disk_path base) (dk_root s) = Inr (EFile i bs)"
    "dd_disk_path base \<in> outside_session store sid" "\<not> starts_with ''.'' sid"
  shows "e = \<lparr>ed_directory = ephemeral_directory store @ [sid], ed_disk_path = (ephemeral_directory store @ [sid]) @ [ROOT_DISK_FILE], ed_session_id = sid\<rparr> \<and>
    (\<exists>k. node_at ((ephemeral_directory store @ [sid]) @ [ROOT_DISK_FILE]) (dk_root s') = Inr (EFile k bs))"
proof -
  obtain s1 s2 n s3 s4 d where c: "ensure_root env (runtime_root store) s = (Inr (), s1)" "secure_directory env (ephemeral_directory store) s1 = (Inr (), s2)"
      "fetch_sequence s2 = (Inr n, s3)" "secure_directory env (ephemeral_directory store @ [CHR ''.'' # d]) s3 = (Inr (), s4)"
    and p: "populate_ephemeral env (dd_disk_path base) sid (ephemeral_directory store @ [CHR ''.'' # d]) (ephemeral_directory store @ [sid]) s4 = (Inr e, s')"
    using assms(1) by (auto simp: clone_for_session_def Let_def bind_eff_Inr discarded_Inr split: if_splits)
  let ?P = "{dd_disk_path base}"
  have "untouched ?P s s1" using ensure_root_keeps [of ?P "runtime_root store" s env] c(1) outsideD(1) [OF assms(3)] by simp
  moreover have "untouched ?P s1 s2" using secure_directory_keeps [of ?P "ephemeral_directory store" s1 env] c(2) outsideD(2) [OF assms(3)] by simp
  moreover have "untouched ?P s2 s3" using fetch_sequence_keeps [of ?P s2] c(3) by simp
  moreover have "untouched ?P s3 s4"
    using secure_directory_keeps [of ?P "ephemeral_directory store @ [CHR ''.'' # d]" s3 env] c(4) outsideD(7) [OF assms(3)] by simp
  ultimately have "node_at (dd_disk_path base) (dk_root s4) = Inr (EFile i bs)" using assms(2) by (simp add: untouched_def)
  moreover have "sid \<noteq> CHR ''.'' # d" using assms(4) by (auto simp: starts_with_iff)
  ultimately show ?thesis using populate_ephemeral_Inr [OF p] outsideD(5) [OF assms(3)] by blast
qed

text \<open>Without failures the directory of a session is gone after its end.\<close>

lemma dropped_gone:
  assumes "ed_directory d = b @ [c]" "node_at (b @ [c]) (dk_root s) = Inr (EDir i es)" "\<not> starts_with ''.'' c" "\<And>call p. de_fault env call p = None"
  shows "node_at (b @ [c]) (dk_root (ephemeral_drop env d s)) = Err DeNotFound"
proof -
  define q where "q = snd (fetch_sequence s)"
  have q: "node_at (b @ [c]) (dk_root q) = Inr (EDir i es)" using assms(2) by (simp add: q_def fetch_sequence_def)
  obtain r where run: "ephemeral_drop env d s = (case fs_rename env (b @ [c]) (b @ [CHR ''.'' # r]) q of
        (Inr _, s') \<Rightarrow> snd (box_remove_managed_directory env (b @ [CHR ''.'' # r]) s')
      | (Inl _, s') \<Rightarrow> snd (box_remove_managed_directory env (b @ [c]) s'))"
    using drop_steps [OF assms(1)] unfolding q_def by blast
  define t where "t = CHR ''.'' # r"
  note run = run [folded t_def]
  have ct: "c \<noteq> t" using assms(3) by (auto simp: t_def starts_with_iff)
  show ?thesis
  proof (cases "fs_rename env (b @ [c]) (b @ [t]) q")
    case (Pair r q')
    show ?thesis
    proof (cases r)
      case (Inl e)
      then have "q' = q" using fs_rename_Err [OF Pair [unfolded Inl]] by simp
      moreover have "box_remove_managed_directory env (b @ [c]) q = (Inr (), set_node (b @ [c]) None q)"
        using q assms(4) by (simp add: box_remove_managed_directory_def bind_eff_def reading_def validate_directory_def fs_metadata_def disk_try_def
            map_err_def and_then_def is_dir_def box_io_def fs_remove_dir_all_def)
      ultimately show ?thesis using run Pair Inl removed_gone [OF q] by simp
    next
      case (Inr u)
      then have q': "q' = set_node (b @ [t]) (Some (EDir i es)) (set_node (b @ [c]) None q)"
        using Pair q by (auto simp: fs_rename_def and_then_def is_dir_def split: sum.splits if_splits entry.splits)
      have ap: "apart (b @ [t]) (b @ [c])" using ct by (auto simp: apart_def)
      have gone: "node_at (b @ [c]) (dk_root q') = Err DeNotFound" unfolding q' set_node_apart [OF ap] using removed_gone [OF q] by simp
      have "untouched {b @ [c]} q' (snd (box_remove_managed_directory env (b @ [t]) q'))"
        by (rule remove_managed_directory_keeps) (simp add: ap)
      then show ?thesis using gone run Pair Inr by (simp add: untouched_def)
    qed
  qed
qed


section \<open>A prepared base disk\<close>

definition base_json_roundtrip :: "base_codec \<Rightarrow> bool" where
  "base_json_roundtrip codec \<longleftrightarrow> (\<forall>m js. bc_json codec m = Ok js \<longrightarrow> bc_parse codec (js @ [10]) = Ok m)"

text \<open>The files of a base disk that fits a specification.\<close>

definition base_stored :: "base_codec \<Rightarrow> BaseDiskStore \<Rightarrow> BaseDiskSpec \<Rightarrow> BaseDisk \<Rightarrow> disk \<Rightarrow> bool" where
  "base_stored codec store spec d s \<longleftrightarrow>
     (\<exists>key. base_spec_key codec spec = Ok key \<and> dd_disk_path d = base_directory store key @ [ROOT_DISK_FILE] \<and>
        (\<exists>k bs. node_at (base_directory store key @ [ROOT_DISK_FILE]) (dk_root s) = Ok (EFile k bs) \<and> length bs = ds_virtual_size_bytes spec) \<and>
        (\<exists>k js. node_at (base_directory store key @ [METADATA_FILE]) (dk_root s) = Ok (EFile k js) \<and> bc_parse codec js = Ok (dd_metadata d)) \<and>
        validate_base_metadata (dd_metadata d) spec key = Ok ())"

lemma validate_file_Inr: "validate_regular_file env p l root = Inr u \<Longrightarrow> \<exists>i bs. node_at p root = Inr (EFile i bs)"
  by (auto simp: validate_regular_file_def fs_metadata_def and_then_Inr_iff map_err_Inr_iff is_file_def split: if_splits entry.splits)

lemma file_length_at: "node_at p root = Inr (EFile i bs) \<Longrightarrow> file_length env p root = Inr n \<Longrightarrow> n = length bs"
  by (auto simp: file_length_def fs_stat_def follow_def and_then_Inr_iff map_err_Inr_iff entry_len_def)

lemma read_file_at: "node_at p root = Inr (EFile i bs) \<Longrightarrow> fs_read_file env p root = Inr x \<Longrightarrow> x = bs"
  by (auto simp: fs_read_file_def follow_def and_then_Inr_iff)

lemma base_get_Inr:
  assumes "base_get env codec store spec s = (Inr (Some d), t)"
  shows "base_stored codec store spec d t"
proof -
  obtain key js m len where k: "base_spec_key codec spec = Inr key"
    and v: "validate_regular_file env (base_directory store key @ [METADATA_FILE]) ''base disk metadata'' (dk_root t) = Inr ()"
      "validate_regular_file env (base_directory store key @ [ROOT_DISK_FILE]) ''base root disk'' (dk_root t) = Inr ()"
    and m: "fs_read_file env (base_directory store key @ [METADATA_FILE]) (dk_root t) = Inr js" "bc_parse codec js = Inr m"
      "validate_base_metadata m spec key = Inr ()"
    and len: "file_length env (base_directory store key @ [ROOT_DISK_FILE]) (dk_root t) = Inr len" "len = ds_virtual_size_bytes spec"
    and d: "d = \<lparr>dd_metadata = m, dd_disk_path = base_directory store key @ [ROOT_DISK_FILE]\<rparr>"
    using assms by (auto simp: base_get_def Let_def bind_eff_Inr reading_Inr and_then_Inr_iff map_err_Inr_iff split: if_splits)
  obtain i bs where i: "node_at (base_directory store key @ [ROOT_DISK_FILE]) (dk_root t) = Inr (EFile i bs)" using validate_file_Inr [OF v(2)] by blast
  obtain j bs' where j: "node_at (base_directory store key @ [METADATA_FILE]) (dk_root t) = Inr (EFile j bs')" using validate_file_Inr [OF v(1)] by blast
  show ?thesis
    using k m d i j file_length_at [OF i len(1)] len(2) read_file_at [OF j m(1)] by (auto simp: base_stored_def)
qed

lemma mke2fs_Inr:
  assumes "run_mke2fs outcome (d @ [c]) s = (Inr u, s')" "node_at (d @ [c]) (dk_root s) = Inr (EFile i bs)" "node_at d (dk_root s) = Inr (EDir j es)"
  shows "\<exists>bs'. node_at (d @ [c]) (dk_root s') = Inr (EFile i bs')"
  using assms node_at_change_at [OF assms(3), of c]
  by (auto simp: run_mke2fs_def rewrite_disk_def set_node_def split: mke2fs_outcome.splits if_splits)

lemma populate_base_steps:
  assumes "populate_base env codec spec key outcome (b @ [t]) (b @ [c]) s = (Inr base, s')"
  shows "\<exists>q q' now k bs. node_at ((b @ [t]) @ [ROOT_DISK_FILE]) (dk_root q) = Inr (EFile k bs) \<and> length bs = ds_virtual_size_bytes spec \<and>
    box_write_json_atomic env ((b @ [t]) @ [METADATA_FILE]) (bc_json codec (base_metadata spec key now)) q = (Inr (), q') \<and>
    fs_rename env (b @ [t]) (b @ [c]) q' = (Inr (), s') \<and>
    base = \<lparr>dd_metadata = base_metadata spec key now, dd_disk_path = (b @ [c]) @ [ROOT_DISK_FILE]\<rparr>"
proof -
  let ?d = "(b @ [t]) @ [ROOT_DISK_FILE]"
  let ?z = "replicate (ds_virtual_size_bytes spec) 0"
  obtain s1 s2 s3 len q now q' where
      c1: "fs_create_new env ?d s = (Inr (), s1)" and c2: "put_file env ?d ?z s1 = (Inr (), s2)" and c3: "run_mke2fs outcome ?d s2 = (Inr (), s3)"
    and c4: "file_length env ?d (dk_root s3) = Inr len" "len = ds_virtual_size_bytes spec" and c5: "set_read_only env ?d s3 = (Inr (), q)"
    and w: "box_write_json_atomic env ((b @ [t]) @ [METADATA_FILE]) (bc_json codec (base_metadata spec key now)) q = (Inr (), q')"
    and r: "fs_rename env (b @ [t]) (b @ [c]) q' = (Inr (), s')"
    and base: "base = \<lparr>dd_metadata = base_metadata spec key now, dd_disk_path = (b @ [c]) @ [ROOT_DISK_FILE]\<rparr>"
    using assms(1) by (auto simp: populate_base_def Let_def bind_eff_Inr box_io_Inr reading_Inr syncing_parent_def split: if_splits)
  obtain i es where dir: "node_at (b @ [t]) (dk_root s1) = Inr (EDir i es)" using create_new_Inr [OF c1] by blast
  have s2: "s2 = set_node ?d (Some (EFile (de_info env ?d) ?z)) s1" using c2 by (simp add: put_file_def)
  have "node_at ?d (dk_root s2) = Inr (EFile (de_info env ?d) ?z)"
    unfolding s2 set_node_def using node_at_change_at [OF dir, of ROOT_DISK_FILE "Some (EFile (de_info env ?d) ?z)"] by simp
  moreover obtain es' where "node_at (b @ [t]) (dk_root s2) = Inr (EDir i es')" using set_node_parent [OF dir] s2 by blast
  ultimately obtain bs where bs: "node_at ?d (dk_root s3) = Inr (EFile (de_info env ?d) bs)" using mke2fs_Inr [OF c3] by blast
  obtain k where "node_at ?d (dk_root q) = Inr (EFile k bs)"
    using permissions_node [OF c5 [unfolded set_read_only_def]] bs by (auto simp: with_mode_def)
  moreover have "length bs = ds_virtual_size_bytes spec" using file_length_at [OF bs c4(1)] c4(2) by simp
  ultimately show ?thesis using w r base by blast
qed

lemma hex_not_dotted: "to_hex bs \<noteq> CHR ''.'' # d"
proof
  assume a: "to_hex bs = CHR ''.'' # d"
  then obtain b r where "bs = b # r" by (cases bs) (auto simp: to_hex_def)
  with a have h: "''0123456789abcdef'' ! unat (drop_bit 4 b) = CHR ''.''" by (simp add: to_hex_def)
  have "unat (drop_bit 4 b) < 16" unfolding unat_drop_bit_eq unfolding drop_bit_eq_div using unsigned_less [of b, where 'a = nat] by simp
  then have "''0123456789abcdef'' ! unat (drop_bit 4 b) \<in> set ''0123456789abcdef''" by (intro nth_mem) simp
  with h show False by simp
qed

lemma create_base_Inr:
  assumes "create_base env codec store spec key outcome s = (Inr d, s')" "base_spec_key codec spec = Ok key" "base_json_roundtrip codec"
  shows "base_stored codec store spec d s'"
proof -
  obtain t s1 where p: "populate_base env codec spec key outcome (bases_directory store @ [CHR ''.'' # t]) (bases_directory store @ [key]) s1 = (Inr d, s')"
    using assms(1) by (auto simp: create_base_def Let_def bind_eff_Inr discarded_Inr base_directory_def)
  let ?st = "bases_directory store @ [CHR ''.'' # t]"
  let ?dst = "bases_directory store @ [key]"
  obtain q q' now k bs where disk: "node_at (?st @ [ROOT_DISK_FILE]) (dk_root q) = Inr (EFile k bs)" and len: "length bs = ds_virtual_size_bytes spec"
    and w: "box_write_json_atomic env (?st @ [METADATA_FILE]) (bc_json codec (base_metadata spec key now)) q = (Inr (), q')"
    and r: "fs_rename env ?st ?dst q' = (Inr (), s')" and d: "d = \<lparr>dd_metadata = base_metadata spec key now, dd_disk_path = ?dst @ [ROOT_DISK_FILE]\<rparr>"
    using populate_base_steps [OF p] by blast
  have disk': "node_at (?st @ [ROOT_DISK_FILE]) (dk_root q') = Inr (EFile k bs)" using write_keeps_root_disk [OF w] disk by simp
  obtain js k' where js: "bc_json codec (base_metadata spec key now) = Inr js" and meta: "node_at (?st @ [METADATA_FILE]) (dk_root q') = Inr (EFile k' (js @ [10]))"
    using write_json_outcome [OF file_names(4) w] by auto
  obtain n where n: "node_at ?st (dk_root q') = Inr n" "node_at [ROOT_DISK_FILE] n = Inr (EFile k bs)" "node_at [METADATA_FILE] n = Inr (EFile k' (js @ [10]))"
    using node_below [OF disk'] node_below [OF meta] by auto
  have key: "key \<noteq> CHR ''.'' # t" using assms(2) hex_not_dotted by (auto simp: base_spec_key_def and_then_Inr_iff)
  have "node_at ?dst (dk_root s') = Inr n" by (rule fs_rename_Ok [OF r n(1) key])
  then have "node_at (?dst @ [METADATA_FILE]) (dk_root s') = Inr (EFile k' (js @ [10]))" "node_at (?dst @ [ROOT_DISK_FILE]) (dk_root s') = Inr (EFile k bs)"
    unfolding node_at_append [of ?dst] using n(2,3) by simp_all
  moreover have "bc_parse codec (js @ [10]) = Ok (dd_metadata d)" using assms(3) js d by (simp add: base_json_roundtrip_def)
  moreover have "validate_base_metadata (dd_metadata d) spec key = Ok ()" by (simp add: d validate_base_metadata_def base_metadata_def)
  ultimately show ?thesis using assms(2) len d by (auto simp: base_stored_def base_directory_def)
qed

text \<open>
  C20: a prepared base disk stands under the key of its specification, has its size, and its metadata file says what was asked for, whether
  it was found or made; a base disk that is found is returned and \<^verbatim>\<open>mke2fs\<close> does not run.
\<close>

theorem prepared_base_fits:
  assumes "base_json_roundtrip codec" and "base_prepare env codec store spec rootfs outcome s = (Ok d, s')"
  shows "base_stored codec store spec d s' \<and>
    (\<forall>e t outcome'. base_get env codec store spec (snd (ensure_root env (cache_root store) s)) = (Ok (Some e), t) \<longrightarrow>
       base_prepare env codec store spec rootfs outcome' s = (Ok e, t))"
proof (intro conjI allI impI)
  show "base_stored codec store spec d s'"
    using assms(2) base_get_Inr create_base_Inr [OF _ _ assms(1)]
    by (auto simp: base_prepare_def bind_eff_Inr split: option.splits)
next
  fix e t outcome' assume g: "base_get env codec store spec (snd (ensure_root env (cache_root store) s)) = (Ok (Some e), t)"
  obtain s1 where "ensure_root env (cache_root store) s = (Inr (), s1)" "base_spec_validate spec = Inr ()"
      "validate_directory env rootfs ''materialized rootfs'' (dk_root s1) = Inr ()"
    using assms(2) by (auto simp: base_prepare_def bind_eff_Inr reading_Inr)
  with g show "base_prepare env codec store spec rootfs outcome' s = (Ok e, t)"
    by (simp add: base_prepare_def bind_eff_def reading_def lift_eff_def)
qed

section \<open>A base disk is made and a session uses it\<close>

definition sample_spec :: BaseDiskSpec where
  "sample_spec = \<lparr>ds_manifest_digest = ''sha256:1'', ds_platform = ''linux/arm64'', ds_virtual_size_bytes = 2\<rparr>"

definition sample_base_codec :: base_codec where
  "sample_base_codec =
     \<lparr>bc_json = (\<lambda>m. if m = base_metadata sample_spec ''01'' 5 then Ok [6] else Err ''no text''),
      bc_parse = (\<lambda>bs. if bs = [6, 10] then Ok (base_metadata sample_spec ''01'' 5) else Err ''no metadata''),
      bc_sha = (\<lambda>_. [1]), bc_parse_session = sample_ids\<rparr>"

definition sample_bases :: BaseDiskStore where "sample_bases = \<lparr>cache_root = [''home'']\<rparr>"

definition sample_sessions :: EphemeralDiskStore where "sample_sessions = \<lparr>runtime_root = [''run'']\<rparr>"

definition prepared_base :: "(BaseDisk, BoxStoreError) result \<times> disk" where
  "prepared_base = base_prepare (box_host False) sample_base_codec sample_bases sample_spec [''state''] (MkEnded (Some 0) [] [3, 4]) base_disk"

definition sample_base :: BaseDisk where
  "sample_base = \<lparr>dd_metadata = base_metadata sample_spec ''01'' 5, dd_disk_path = base_directory sample_bases ''01'' @ [ROOT_DISK_FILE]\<rparr>"

definition session_started :: "(EphemeralDisk, BoxStoreError) result \<times> disk" where
  "session_started = clone_for_session (box_host False) sample_sessions sample_base BOX_B (snd prepared_base)"

definition session_disk :: EphemeralDisk where
  "session_disk = \<lparr>ed_directory = ephemeral_directory sample_sessions @ [BOX_B],
     ed_disk_path = ephemeral_directory sample_sessions @ [BOX_B, ROOT_DISK_FILE], ed_session_id = BOX_B\<rparr>"

lemma sample_disk_runs:
  "fst prepared_base = Inr sample_base" "fst session_started = Inr session_disk"
  "(case node_at (dd_disk_path sample_base) (dk_root (snd prepared_base)) of Inr (EFile _ bs) \<Rightarrow> bs = [3, 4] | _ \<Rightarrow> False)"
  by code_simp+

theorem prepared_base_fits_witness: "base_stored sample_base_codec sample_bases sample_spec sample_base (snd prepared_base)"
proof -
  have "base_prepare (box_host False) sample_base_codec sample_bases sample_spec [''state''] (MkEnded (Some 0) [] [3, 4]) base_disk =
      (Ok sample_base, snd prepared_base)"
    using sample_disk_runs(1) by (metis prepared_base_def prod.collapse)
  moreover have "base_json_roundtrip sample_base_codec" by (simp add: base_json_roundtrip_def sample_base_codec_def)
  ultimately show ?thesis using prepared_base_fits by blast
qed


end
