(* ===== verification/Bundle.thy ===== *)
theory Bundle
  imports Base_Disk
begin

text \<open>
  Bundles (\<^verbatim>\<open>moraebox-box/src/bundle.rs\<close>): a box as one archive with a manifest, its metadata and its root disk, and a new
  box from such an archive. The crate \<^verbatim>\<open>tar\<close>, the hash and the serializer of the manifest are parameters
  (\<open>bundle_codec\<close>): what the builder writes for an entry, the bytes of the headers, and the entries that a reader finds.
  A path is absolute. The length of a buffer fits in 64 bits with a sign, as every allocation does.
\<close>

section \<open>Sparse files\<close>

text \<open>Writing at a position of a file, which fills a gap with zeros, and setting its length.\<close>

definition write_at :: "bytes \<Rightarrow> nat \<Rightarrow> bytes \<Rightarrow> bytes" where
  "write_at content position buffer =
     take position (content @ replicate (position - length content) 0) @ buffer @ drop (position + length buffer) content"

definition set_len :: "nat \<Rightarrow> bytes \<Rightarrow> bytes" where
  "set_len n content = take n (content @ replicate (n - length content) 0)"

text \<open>The file, its position, and what the hasher has seen. \<open>aw_cursor\<close> is the position of the file itself.\<close>

record SparseArchiveWriter =
  aw_output :: bytes
  aw_cursor :: nat
  aw_logical_position :: nat
  aw_hasher :: bytes

definition archive_writer_new :: SparseArchiveWriter where
  "archive_writer_new = \<lparr>aw_output = [], aw_cursor = 0, aw_logical_position = 0, aw_hasher = []\<rparr>"

definition archive_write :: "bytes \<Rightarrow> SparseArchiveWriter \<Rightarrow> (SparseArchiveWriter, disk_error) result" where
  "archive_write buffer w =
     (if buffer = [] then Ok w
      else
        (case checked_add (aw_logical_position w) (length buffer) of
           None \<Rightarrow> Err (DeOther ''archive is too large'')
         | Some next_position \<Rightarrow>
             Ok (w\<lparr>aw_output := (if list_all (\<lambda>b. b = 0) buffer then aw_output w else write_at (aw_output w) (aw_cursor w) buffer),
                   aw_cursor := aw_cursor w + length buffer, aw_hasher := aw_hasher w @ buffer,
                   aw_logical_position := next_position\<rparr>)))"

fun archive_writes :: "bytes list \<Rightarrow> SparseArchiveWriter \<Rightarrow> (SparseArchiveWriter, disk_error) result" where
  "archive_writes [] w = Ok w"
| "archive_writes (b # bs) w = and_then (archive_write b w) (archive_writes bs)"

text \<open>\<^verbatim>\<open>slice::chunks\<close>, and the buffer of \<^verbatim>\<open>io::copy\<close>.\<close>

function slices :: "nat \<Rightarrow> 'a list \<Rightarrow> 'a list list" where
  "slices n xs = (if n = 0 \<or> xs = [] then [] else take n xs # slices n (drop n xs))"
  by pat_completeness auto
termination by (relation "measure (\<lambda>(_, xs). length xs)") auto

declare slices.simps [simp del]

definition STD_COPY_BYTES :: nat where "STD_COPY_BYTES = 8 * 1024"

record SparseExtent =
  se_offset :: nat
  se_length :: nat

record SparseMap =
  sm_logical_size :: nat
  sm_stored_size :: nat
  sm_extents :: "SparseExtent list"

definition end_extent :: "nat \<Rightarrow> SparseExtent" where
  "end_extent total_size = \<lparr>se_offset = total_size, se_length = 0\<rparr>"

text \<open>The loop over the extents of a file; every turn moves forward.\<close>

function sparse_extents_from ::
    "(nat \<Rightarrow> seek_answer) \<Rightarrow> (nat \<Rightarrow> seek_answer) \<Rightarrow> nat \<Rightarrow> nat \<Rightarrow> nat \<Rightarrow> SparseExtent list \<Rightarrow>
     (nat \<times> SparseExtent list, disk_error) result" where
  "sparse_extents_from seek_data seek_hole total_size data_offset stored extents =
     (if \<not> data_offset < total_size then Ok (stored, extents)
      else
        (case seek_hole data_offset of
           SeekAt hole_offset \<Rightarrow>
             if hole_offset \<le> data_offset \<or> hole_offset > total_size then
               Err (DeOther ''root disk sparse extent is outside its logical size'')
             else
               let extents = extents @ [\<lparr>se_offset = data_offset, se_length = hole_offset - data_offset\<rparr>] in
               (case checked_add stored (hole_offset - data_offset) of
                  None \<Rightarrow> Err (DeOther ''root disk is too large'')
                | Some stored \<Rightarrow>
                    if hole_offset = total_size then Ok (stored, extents)
                    else
                      (case seek_data hole_offset of
                         SeekAt offset \<Rightarrow>
                           if offset > hole_offset \<and> offset \<le> total_size then
                             sparse_extents_from seek_data seek_hole total_size offset stored extents
                           else Err (DeOther ''root disk sparse data offset did not advance'')
                       | SeekNxio \<Rightarrow> Ok (stored, extents)
                       | SeekUnsupported e \<Rightarrow> Err e
                       | SeekError e \<Rightarrow> Err e))
         | SeekNxio \<Rightarrow> Err (DeOther ''seek'')
         | SeekUnsupported e \<Rightarrow> Err e
         | SeekError e \<Rightarrow> Err e))"
  by pat_completeness auto
termination by (relation "measure (\<lambda>(_, _, total_size, data_offset, _, _). total_size - data_offset)") auto

declare sparse_extents_from.simps [simp del]

definition find_sparse_map ::
    "(nat \<Rightarrow> seek_answer) \<Rightarrow> (nat \<Rightarrow> seek_answer) \<Rightarrow> nat \<Rightarrow> (SparseMap option, disk_error) result" where
  "find_sparse_map seek_data seek_hole logical_size =
     (if logical_size = 0 then Ok None
      else
        (case seek_data 0 of
           SeekAt data_offset \<Rightarrow>
             and_then (sparse_extents_from seek_data seek_hole logical_size data_offset 0 []) (\<lambda>(stored_size, extents).
               if extents = [\<lparr>se_offset = 0, se_length = logical_size\<rparr>] then Ok None
               else
                 Ok (Some \<lparr>sm_logical_size = logical_size, sm_stored_size = stored_size,
                           sm_extents = extents @ [end_extent logical_size]\<rparr>))
         | SeekNxio \<Rightarrow>
             Ok (Some \<lparr>sm_logical_size = logical_size, sm_stored_size = 0, sm_extents = [end_extent logical_size]\<rparr>)
         | SeekUnsupported _ \<Rightarrow> Ok None
         | SeekError e \<Rightarrow> Err e))"

section \<open>Archives\<close>

record RegularHeader =
  rh_mode :: nat
  rh_uid :: nat
  rh_gid :: nat
  rh_mtime :: nat
  rh_size :: nat

record SparseHeader =
  sh_path :: string
  sh_mode :: nat
  sh_uid :: nat
  sh_gid :: nat
  sh_mtime :: nat
  sh_size :: nat
  sh_real_size :: nat
  sh_sparse :: "SparseExtent list"
  sh_is_extended :: bool

record ExtendedHeader =
  xh_sparse :: "SparseExtent list"
  xh_is_extended :: bool

text \<open>
  An entry as the reader gives it: what it is, the size of its contents with the holes, the answers to reading it with a buffer
  of 64 KiB (an empty one, or the end of the list, is the end), and what \<^verbatim>\<open>Entry::unpack\<close> writes.
\<close>

datatype tar_kind = TarRegular | TarSparse | TarOther

record archive_entry =
  te_path :: string
  te_kind :: tar_kind
  te_size :: nat
  te_reads :: "(bytes, disk_error) result list"
  te_unpack :: "(bytes, disk_error) result"

record BundleManifest =
  mf_schema_version :: nat
  mf_metadata_path :: string
  mf_metadata_size_bytes :: nat
  mf_metadata_sha256 :: string
  mf_root_disk_path :: string
  mf_root_disk_size_bytes :: nat
  mf_root_disk_sha256 :: string

record BoxBundleReport =
  br_box_id :: uuid
  br_path :: disk_path
  br_size_bytes :: nat
  br_sha256 :: string

text \<open>The numbers of extents that a header and an extended header hold are those of the format.\<close>

record bundle_codec =
  uc_manifest_json :: "BundleManifest \<Rightarrow> (bytes, string) result"
  uc_parse_manifest :: "bytes \<Rightarrow> (BundleManifest, string) result"
  uc_sha :: "bytes \<Rightarrow> bytes"
  uc_entries :: "bytes \<Rightarrow> ((archive_entry, disk_error) result list, disk_error) result"
  uc_append_data :: "RegularHeader \<Rightarrow> string \<Rightarrow> bytes \<Rightarrow> (bytes list, disk_error) result"
  uc_append_path :: "string \<Rightarrow> bytes \<Rightarrow> (bytes list, disk_error) result"
  uc_finish :: "bytes list"
  uc_sparse_header :: "SparseHeader \<Rightarrow> (bytes, disk_error) result"
  uc_extended_header :: "ExtendedHeader \<Rightarrow> bytes"
  uc_inline_slots :: nat
  uc_extended_slots :: nat

definition BOX_BUNDLE_SCHEMA_VERSION :: nat where "BOX_BUNDLE_SCHEMA_VERSION = 1"
definition MANIFEST_FILE :: string where "MANIFEST_FILE = ''manifest.json''"
definition MAX_MANIFEST_BYTES :: nat where "MAX_MANIFEST_BYTES = 64 * 1024"
definition MAX_METADATA_BYTES :: nat where "MAX_METADATA_BYTES = 1024 * 1024"
definition MAX_ROOT_DISK_BYTES :: nat where "MAX_ROOT_DISK_BYTES = 1024 * 1024 * 1024 * 1024"
definition COPY_BUFFER_BYTES :: nat where "COPY_BUFFER_BYTES = 64 * 1024"

definition bundle_digest_bytes :: "bundle_codec \<Rightarrow> bytes \<Rightarrow> string" where
  "bundle_digest_bytes codec bs = ''sha256:'' @ to_hex (uc_sha codec bs)"

definition archive_writer_finish :: "bundle_codec \<Rightarrow> SparseArchiveWriter \<Rightarrow> bytes \<times> nat \<times> string" where
  "archive_writer_finish codec w =
     (set_len (aw_logical_position w) (aw_output w), aw_logical_position w, bundle_digest_bytes codec (aw_hasher w))"

definition append_bytes ::
    "bundle_codec \<Rightarrow> string \<Rightarrow> bytes \<Rightarrow> SparseArchiveWriter \<Rightarrow> (SparseArchiveWriter, disk_error) result" where
  "append_bytes codec path bs w =
     (let header = \<lparr>rh_mode = MODE_0600, rh_uid = 0, rh_gid = 0, rh_mtime = 0, rh_size = length bs\<rparr> in
      and_then (uc_append_data codec header path bs) (\<lambda>writes. archive_writes writes w))"

definition sparse_header_of :: "bundle_codec \<Rightarrow> string \<Rightarrow> SparseMap \<Rightarrow> SparseHeader" where
  "sparse_header_of codec path m =
     \<lparr>sh_path = path, sh_mode = MODE_0600, sh_uid = 0, sh_gid = 0, sh_mtime = 0, sh_size = sm_stored_size m,
      sh_real_size = sm_logical_size m, sh_sparse = take (uc_inline_slots codec) (sm_extents m),
      sh_is_extended = (length (sm_extents m) > uc_inline_slots codec)\<rparr>"

definition extended_headers_of :: "bundle_codec \<Rightarrow> SparseMap \<Rightarrow> ExtendedHeader list" where
  "extended_headers_of codec m =
     (let remaining_extents = drop (min (uc_inline_slots codec) (length (sm_extents m))) (sm_extents m);
          capacity = uc_extended_slots codec in
      map (\<lambda>(index, chunk). \<lparr>xh_sparse = chunk, xh_is_extended = ((index + 1) * capacity < length remaining_extents)\<rparr>)
        (List.enumerate 0 (slices capacity remaining_extents)))"

text \<open>The data of the extents, copied one after the other.\<close>

fun append_extents :: "bytes \<Rightarrow> SparseExtent list \<Rightarrow> SparseArchiveWriter \<Rightarrow> (SparseArchiveWriter, disk_error) result" where
  "append_extents source [] w = Ok w"
| "append_extents source (extent # extents) w =
     (if se_length extent = 0 then append_extents source extents w
      else
        let copied = take (se_length extent) (drop (se_offset extent) source) in
        and_then (archive_writes (slices STD_COPY_BYTES copied) w) (\<lambda>w.
          if length copied \<noteq> se_length extent then Err (DeOther ''root disk changed while exporting a sparse extent'')
          else append_extents source extents w))"

definition sparse_padding :: "nat \<Rightarrow> nat" where
  "sparse_padding stored = (512 - stored mod 512) mod 512"

definition append_sparse_mapped_file ::
    "bundle_codec \<Rightarrow> bytes \<Rightarrow> string \<Rightarrow> SparseMap \<Rightarrow> SparseArchiveWriter \<Rightarrow> (SparseArchiveWriter, disk_error) result" where
  "append_sparse_mapped_file codec source path m w =
     and_then (uc_sparse_header codec (sparse_header_of codec path m)) (\<lambda>header.
     and_then (archive_write header w) (\<lambda>w.
     and_then (archive_writes (map (uc_extended_header codec) (extended_headers_of codec m)) w) (\<lambda>w.
     and_then (append_extents source (sm_extents m) w) (\<lambda>w.
       let padding = sparse_padding (sm_stored_size m) in
       if padding > 0 then archive_write (replicate padding 0) w else Ok w))))"

definition append_sparse_file ::
    "box_env \<Rightarrow> bundle_codec \<Rightarrow> disk_path \<Rightarrow> bytes \<Rightarrow> string \<Rightarrow> SparseArchiveWriter \<Rightarrow>
     (SparseArchiveWriter option, disk_error) result" where
  "append_sparse_file env codec source_path source path w =
     and_then (find_sparse_map (be_seek_data env source_path) (be_seek_hole env source_path) (length source)) (\<lambda>found.
       case found of
         None \<Rightarrow> Ok None
       | Some m \<Rightarrow> and_then (append_sparse_mapped_file codec source path m w) (\<lambda>w. Ok (Some w)))"

section \<open>Checks\<close>

definition invalid_bundle :: "string \<Rightarrow> ('a, BoxStoreError) result" where
  "invalid_bundle message = Err (BseInvalidBundle message)"

definition bundle_validate_digest :: "string \<Rightarrow> (unit, BoxStoreError) result" where
  "bundle_validate_digest v =
     (case strip_prefix ''sha256:'' v of
        None \<Rightarrow> invalid_bundle ''bundle digest must use sha256''
      | Some digest \<Rightarrow>
          if length digest \<noteq> 64 \<or> \<not> list_all (\<lambda>c. ascii_hexdigit (code c)) digest then
            invalid_bundle ''bundle digest must contain 64 hexadecimal characters''
          else Ok ())"

definition bundle_verify_digest :: "bundle_codec \<Rightarrow> bytes \<Rightarrow> string \<Rightarrow> string \<Rightarrow> (unit, BoxStoreError) result" where
  "bundle_verify_digest codec bs expected label =
     (if bundle_digest_bytes codec bs \<noteq> expected then invalid_bundle (label @ '' SHA-256 does not match the manifest'') else Ok ())"

definition manifest_validate :: "BundleManifest \<Rightarrow> (unit, BoxStoreError) result" where
  "manifest_validate m =
     (if mf_schema_version m \<noteq> BOX_BUNDLE_SCHEMA_VERSION then
        invalid_bundle (''unsupported bundle schema '' @ decimal (mf_schema_version m) @ ''; expected '' @ decimal BOX_BUNDLE_SCHEMA_VERSION)
      else if mf_metadata_path m \<noteq> METADATA_FILE \<or> mf_root_disk_path m \<noteq> ROOT_DISK_FILE then
        invalid_bundle ''bundle manifest contains unexpected entry paths''
      else if mf_metadata_size_bytes m = 0 \<or> mf_metadata_size_bytes m > MAX_METADATA_BYTES then
        invalid_bundle ''bundle metadata size is outside the supported bounds''
      else if mf_root_disk_size_bytes m = 0 \<or> mf_root_disk_size_bytes m > MAX_ROOT_DISK_BYTES then
        invalid_bundle ''bundle root disk size is outside the supported bounds''
      else
        and_then (bundle_validate_digest (mf_metadata_sha256 m)) (\<lambda>_. bundle_validate_digest (mf_root_disk_sha256 m)))"

definition validate_imported_metadata :: "BoxMetadata \<Rightarrow> (unit, BoxStoreError) result" where
  "validate_imported_metadata m =
     (if bm_schema_version m \<notin> {1, 2, BOX_SCHEMA_VERSION} then
        invalid_bundle (''unsupported Box metadata schema '' @ decimal (bm_schema_version m))
      else if bm_state m \<noteq> Ready then invalid_bundle ''only ready Box metadata can be imported''
      else if bm_disk_format m \<noteq> RawExt4 \<or> trim_ws (bm_manifest_digest m) = [] \<or> trim_ws (bm_platform m) = [] \<or>
          bm_virtual_size_bytes m = 0 \<or> bm_virtual_size_bytes m > MAX_ROOT_DISK_BYTES then
        invalid_bundle ''Box metadata contains invalid required fields''
      else
        and_then (validate_optional_name (bm_name m)) (\<lambda>_.
        and_then (validate_labels (bm_labels m)) (\<lambda>_. validate_tags (bm_tags m))))"

definition ensure_absent :: "box_env \<Rightarrow> disk_path \<Rightarrow> entry \<Rightarrow> (unit, BoxStoreError) result" where
  "ensure_absent env p root =
     (case fs_metadata env p root of
        Inr _ \<Rightarrow> Err (BseInvalidPath p)
      | Inl DeNotFound \<Rightarrow> Ok ()
      | Inl e \<Rightarrow> Err (BseIo e))"

definition reject_symlink_components :: "box_env \<Rightarrow> disk_path \<Rightarrow> bool \<Rightarrow> entry \<Rightarrow> (unit, BoxStoreError) result" where
  "reject_symlink_components env p final_may_be_missing root =
     (if ''..'' \<in> set p then Err (BseInvalidPath p)
      else if final_may_be_missing \<and> p = [] then Err (BseInvalidPath p)
      else
        let checked = if final_may_be_missing then butlast p else p in
        and_then (map_err BseIo (fs_metadata env checked root)) (\<lambda>n.
          if (final_may_be_missing \<and> \<not> is_dir n) \<or> (\<not> final_may_be_missing \<and> \<not> is_file n) then Err (BseInvalidPath checked)
          else Ok ()))"

definition open_regular_file :: "box_env \<Rightarrow> disk_path \<Rightarrow> entry \<Rightarrow> (bytes, BoxStoreError) result" where
  "open_regular_file env p root =
     and_then (map_err BseIo (and_then (disk_try env CallOpen p) (\<lambda>_. node_at p root))) (\<lambda>n.
       case n of
         EFile _ bs \<Rightarrow> Ok bs
       | ELink _ _ \<Rightarrow> Err (BseIo (DeOther ''symbolic link''))
       | _ \<Rightarrow> Err (BseInvalidPath p))"

text \<open>The number of bytes and the digest of a file that is read buffer by buffer.\<close>

definition bundle_hash_file :: "box_env \<Rightarrow> bundle_codec \<Rightarrow> disk_path \<Rightarrow> entry \<Rightarrow> (nat \<times> string, BoxStoreError) result" where
  "bundle_hash_file env codec p root =
     and_then (validate_regular_file env p ''bundle content'' root) (\<lambda>_.
     and_then (open_source env p root) (\<lambda>content.
       let chunks = slices COPY_BUFFER_BYTES content in
       Ok (foldl (\<lambda>so_far chunk. saturating_add so_far (length chunk)) 0 chunks, bundle_digest_bytes codec (concat chunks))))"

section \<open>Export\<close>

text \<open>\<^verbatim>\<open>hard_link\<close>: a second name for a file at a path that has nothing.\<close>

definition fs_hard_link :: "box_env \<Rightarrow> disk_path \<Rightarrow> disk_path \<Rightarrow> (disk, disk_error, unit) eff" where
  "fs_hard_link env from to s =
     (case and_then (disk_try env CallCreate to) (\<lambda>_. and_then (node_at from (dk_root s)) (\<lambda>n.
         and_then (node_at (butlast to) (dk_root s)) (\<lambda>parent. Ok (n, parent)))) of
        Inl e \<Rightarrow> (Err e, s)
      | Inr (n, parent) \<Rightarrow>
          if is_dir n then (Err (DeOther ''is a directory''), s)
          else if \<not> is_dir parent then (Err (DeOther ''not a directory''), s)
          else
            (case node_at to (dk_root s) of
               Inr _ \<Rightarrow> (Err DeAlreadyExists, s)
             | Inl _ \<Rightarrow> (Ok (), set_node to (Some n) s)))"

text \<open>Writing the contents of a file that is open; its permissions stay. An interrupted write leaves other bytes.\<close>

definition fs_fill :: "box_env \<Rightarrow> disk_path \<Rightarrow> (bytes, BoxStoreError) result \<Rightarrow> unit box_op" where
  "fs_fill env p r s =
     (case node_at p (dk_root s) of
        Inr (EFile i _) \<Rightarrow>
          let info = (de_info env p)\<lparr>fi_mode := fi_mode i\<rparr> in
          (case and_then (map_err BseIo (disk_try env CallWrite p)) (\<lambda>_. r) of
             Inl e \<Rightarrow> (Err e, set_node p (Some (EFile info (de_garbage env p))) s)
           | Inr bs \<Rightarrow> (Ok (), set_node p (Some (EFile info bs)) s))
      | _ \<Rightarrow> (Err (BseIo DeNotFound), s))"

definition bundle_temporary_path :: "box_env \<Rightarrow> disk_path \<Rightarrow> disk_path box_op" where
  "bundle_temporary_path env destination =
     (if destination = [] then lift_eff (Err (BseInvalidPath destination))
      else
        (case to_str (last destination) of
           None \<Rightarrow> lift_eff (Err (BseInvalidPath destination))
         | Some name \<Rightarrow>
             bind_eff fetch_sequence (\<lambda>sequence.
               lift_eff (Ok (butlast destination @
                 [''.'' @ name @ ''.'' @ de_process env @ ''-'' @ decimal sequence @ ''.tmp''])))))"

text \<open>The three entries and the end of the archive.\<close>

definition write_archive ::
    "box_env \<Rightarrow> bundle_codec \<Rightarrow> bytes \<Rightarrow> bytes \<Rightarrow> disk_path \<Rightarrow> bytes \<Rightarrow> (bytes \<times> nat \<times> string, disk_error) result" where
  "write_archive env codec manifest_bytes metadata_bytes disk_path disk =
     and_then (append_bytes codec MANIFEST_FILE manifest_bytes archive_writer_new) (\<lambda>w.
     and_then (append_bytes codec METADATA_FILE metadata_bytes w) (\<lambda>w.
     and_then (append_sparse_file env codec disk_path disk ROOT_DISK_FILE w) (\<lambda>appended.
     and_then (case appended of
         Some w \<Rightarrow> Ok w
       | None \<Rightarrow> and_then (uc_append_path codec ROOT_DISK_FILE disk) (\<lambda>writes. archive_writes writes w)) (\<lambda>w.
     and_then (archive_writes (uc_finish codec) w) (\<lambda>w. Ok (archive_writer_finish codec w))))))"

definition manifest_for :: "bundle_codec \<Rightarrow> bytes \<Rightarrow> nat \<Rightarrow> string \<Rightarrow> BundleManifest" where
  "manifest_for codec metadata_bytes root_disk_size_bytes root_disk_sha256 =
     \<lparr>mf_schema_version = BOX_BUNDLE_SCHEMA_VERSION, mf_metadata_path = METADATA_FILE,
      mf_metadata_size_bytes = length metadata_bytes, mf_metadata_sha256 = bundle_digest_bytes codec metadata_bytes,
      mf_root_disk_path = ROOT_DISK_FILE, mf_root_disk_size_bytes = root_disk_size_bytes,
      mf_root_disk_sha256 = root_disk_sha256\<rparr>"

text \<open>The archive in a file of its own, and under its name once it is complete.\<close>

definition publish_archive ::
    "box_env \<Rightarrow> bundle_codec \<Rightarrow> uuid \<Rightarrow> disk_path \<Rightarrow> disk_path \<Rightarrow> disk_path \<Rightarrow> bytes \<Rightarrow> bytes \<Rightarrow> BoxBundleReport box_op" where
  "publish_archive env codec box_id destination temporary disk_path manifest_bytes metadata_bytes =
     bind_eff (box_io (fs_create_new env temporary)) (\<lambda>_.
     bind_eff (box_io (set_file_permissions env temporary)) (\<lambda>_.
     bind_eff (reading (open_source env disk_path)) (\<lambda>disk.
       let archive = map_err BseIo (write_archive env codec manifest_bytes metadata_bytes disk_path disk) in
       bind_eff (fs_fill env temporary (and_then archive (\<lambda>(content, _, _). Ok content))) (\<lambda>_.
       bind_eff (lift_eff archive) (\<lambda>(_, size_bytes, sha256).
       bind_eff (lift_eff (map_err BseIo (disk_try env CallSync temporary))) (\<lambda>_.
       bind_eff
         (\<lambda>s. case fs_hard_link env temporary destination s of
            (Inr _, s') \<Rightarrow> (Ok (), s')
          | (Inl DeAlreadyExists, s') \<Rightarrow> (Err (BseInvalidPath destination), s')
          | (Inl e, s') \<Rightarrow> (Err (BseIo e), s')) (\<lambda>_.
       bind_eff (box_io (fs_remove_file env temporary)) (\<lambda>_.
       bind_eff (syncing_parent env destination) (\<lambda>_.
         lift_eff (Ok \<lparr>br_box_id = box_id, br_path = destination, br_size_bytes = size_bytes, br_sha256 = sha256\<rparr>))))))))))"

definition discard_temporary :: "box_env \<Rightarrow> disk_path \<Rightarrow> unit box_op" where
  "discard_temporary env p =
     bind_eff (get_eff dk_root) (\<lambda>root.
       if is_ok (fs_metadata env p root) then ignoring (fs_remove_file env p) else lift_eff (Ok ()))"

definition export_bundle :: "box_env \<Rightarrow> bundle_codec \<Rightarrow> BoxStore \<Rightarrow> uuid \<Rightarrow> disk_path \<Rightarrow> BoxBundleReport box_op" where
  "export_bundle env codec store box_id destination =
     bind_eff (reading (reject_symlink_components env destination True)) (\<lambda>_.
     bind_eff (reading (ensure_absent env destination)) (\<lambda>_.
     bind_eff (reading (validate_directory env (butlast destination) ''bundle destination parent'')) (\<lambda>_.
     bind_eff (try_acquire env store box_id) (\<lambda>lease.
       if bm_state (bl_metadata lease) \<noteq> Ready then lift_eff (invalid_bundle ''only a ready Box can be exported'')
       else
         bind_eff (lift_eff (map_err BseJson (be_box_json env (bl_metadata lease)))) (\<lambda>metadata_bytes.
           if length metadata_bytes > MAX_METADATA_BYTES then lift_eff (invalid_bundle ''bundle metadata exceeds the size limit'')
           else
             bind_eff (reading (bundle_hash_file env codec (bl_disk_path lease))) (\<lambda>(root_disk_size_bytes, root_disk_sha256).
               if root_disk_size_bytes > MAX_ROOT_DISK_BYTES then
                 lift_eff (invalid_bundle ''Box root disk exceeds the bundle size limit'')
               else
                 let manifest = manifest_for codec metadata_bytes root_disk_size_bytes root_disk_sha256 in
                 bind_eff (lift_eff (map_err BseJson (uc_manifest_json codec manifest))) (\<lambda>manifest_bytes.
                 bind_eff (bundle_temporary_path env destination) (\<lambda>temporary.
                   on_error
                     (publish_archive env codec box_id destination temporary (bl_disk_path lease) manifest_bytes metadata_bytes)
                     (discard_temporary env temporary)))))))))"

section \<open>Import\<close>

type_synonym archive_entries = "(archive_entry, disk_error) result list"

definition next_entry :: "string \<Rightarrow> bool \<Rightarrow> archive_entries \<Rightarrow> (archive_entry \<times> archive_entries, BoxStoreError) result" where
  "next_entry expected_path allow_sparse entries =
     (case entries of
        [] \<Rightarrow> invalid_bundle (''missing '' @ expected_path)
      | Inl e # _ \<Rightarrow> Err (BseIo e)
      | Inr entry # rest \<Rightarrow>
          if te_path entry \<noteq> expected_path then invalid_bundle (''expected '' @ expected_path @ '', found '' @ te_path entry)
          else if \<not> (te_kind entry = TarRegular \<or> allow_sparse \<and> te_kind entry = TarSparse) then
            invalid_bundle (expected_path @ '' must be a regular file'')
          else Ok (entry, rest))"

text \<open>\<^verbatim>\<open>take(n).read_to_end\<close>.\<close>

fun read_to_end :: "nat \<Rightarrow> (bytes, disk_error) result list \<Rightarrow> (bytes, disk_error) result" where
  "read_to_end n [] = Ok []"
| "read_to_end n (Inl e # answers) = (if n = 0 then Ok [] else Err e)"
| "read_to_end n (Inr bs # answers) =
     (if n = 0 \<or> bs = [] then Ok []
      else and_then (read_to_end (n - length bs) answers) (\<lambda>rest. Ok (take n bs @ rest)))"

definition read_bounded :: "archive_entry \<Rightarrow> nat \<Rightarrow> (bytes, BoxStoreError) result" where
  "read_bounded entry limit =
     and_then (map_err BseIo (read_to_end (saturating_add limit 1) (te_reads entry))) (\<lambda>bs.
       if length bs > limit then invalid_bundle ''bundle entry exceeds its size limit'' else Ok bs)"

text \<open>The manifest and the metadata, checked, and the entry of the disk.\<close>

definition read_bundle_head ::
    "box_env \<Rightarrow> bundle_codec \<Rightarrow> archive_entries \<Rightarrow> (BundleManifest \<times> BoxMetadata \<times> archive_entry \<times> archive_entries, BoxStoreError) result" where
  "read_bundle_head env codec entries =
     and_then (next_entry MANIFEST_FILE False entries) (\<lambda>(manifest_entry, entries).
     and_then (read_bounded manifest_entry MAX_MANIFEST_BYTES) (\<lambda>manifest_bytes.
     and_then (map_err BseInvalidBundle (uc_parse_manifest codec manifest_bytes)) (\<lambda>manifest.
     and_then (manifest_validate manifest) (\<lambda>_.
     and_then (next_entry METADATA_FILE False entries) (\<lambda>(metadata_entry, entries).
       if te_size metadata_entry \<noteq> mf_metadata_size_bytes manifest then
         invalid_bundle ''metadata entry size does not match the manifest''
       else
         and_then (read_bounded metadata_entry MAX_METADATA_BYTES) (\<lambda>metadata_bytes.
         and_then (bundle_verify_digest codec metadata_bytes (mf_metadata_sha256 manifest) ''metadata'') (\<lambda>_.
         and_then (map_err BseInvalidBundle (be_parse_box env metadata_bytes)) (\<lambda>m.
         and_then (validate_imported_metadata m) (\<lambda>_.
           if bm_virtual_size_bytes m \<noteq> mf_root_disk_size_bytes manifest then
             invalid_bundle ''Box metadata virtual size does not match the root disk entry''
           else
             and_then (next_entry ROOT_DISK_FILE True entries) (\<lambda>(disk_entry, entries).
               if te_size disk_entry \<noteq> mf_root_disk_size_bytes manifest then
                 invalid_bundle ''root disk entry size does not match the manifest''
               else Ok (manifest, m, disk_entry, entries)))))))))))"

text \<open>The loop of the copy: the total, what the hasher has seen, and the file, whose position is the total.\<close>

fun copy_reads ::
    "nat \<Rightarrow> (bytes, disk_error) result list \<Rightarrow> nat \<Rightarrow> bytes \<Rightarrow> bytes \<Rightarrow> (nat \<times> bytes \<times> bytes, BoxStoreError) result" where
  "copy_reads expected_size [] so_far hasher output = Ok (so_far, hasher, output)"
| "copy_reads expected_size (Inl e # answers) so_far hasher output = Err (BseIo e)"
| "copy_reads expected_size (Inr buffer # answers) so_far hasher output =
     (if buffer = [] then Ok (so_far, hasher, output)
      else
        (case checked_add so_far (length buffer) of
           None \<Rightarrow> invalid_bundle ''root disk size overflow''
         | Some next_total \<Rightarrow>
             if next_total > expected_size \<or> next_total > MAX_ROOT_DISK_BYTES then
               invalid_bundle ''root disk exceeds its declared size''
             else
               copy_reads expected_size answers next_total (hasher @ buffer)
                 (if list_all (\<lambda>b. b = 0) buffer then output else write_at output so_far buffer)))"

definition copied_disk :: "bundle_codec \<Rightarrow> archive_entry \<Rightarrow> nat \<Rightarrow> (bytes \<times> string, BoxStoreError) result" where
  "copied_disk codec entry expected_size =
     and_then (copy_reads expected_size (te_reads entry) 0 [] []) (\<lambda>(so_far, hasher, output).
       if so_far \<noteq> expected_size then
         invalid_bundle (''root disk size '' @ decimal so_far @ '' does not match declared size '' @ decimal expected_size)
       else Ok (set_len so_far output, bundle_digest_bytes codec hasher))"

definition copy_sparse_and_hash :: "box_env \<Rightarrow> bundle_codec \<Rightarrow> archive_entry \<Rightarrow> disk_path \<Rightarrow> nat \<Rightarrow> string box_op" where
  "copy_sparse_and_hash env codec entry destination expected_size =
     (let copied = copied_disk codec entry expected_size in
      bind_eff (box_io (fs_create_new env destination)) (\<lambda>_.
      bind_eff (box_io (set_file_permissions env destination)) (\<lambda>_.
      bind_eff (fs_fill env destination (and_then copied (\<lambda>(content, _). Ok content))) (\<lambda>_.
      bind_eff (lift_eff copied) (\<lambda>(_, digest).
      bind_eff (lift_eff (map_err BseIo (disk_try env CallSync destination))) (\<lambda>_.
        lift_eff (Ok digest)))))))"

text \<open>\<^verbatim>\<open>Entry::unpack\<close> makes the file; what it leaves when it fails is not known.\<close>

definition tar_unpack :: "box_env \<Rightarrow> archive_entry \<Rightarrow> disk_path \<Rightarrow> unit box_op" where
  "tar_unpack env entry p =
     bind_eff (box_io (fs_create_new env p)) (\<lambda>_. fs_fill env p (map_err BseIo (te_unpack entry)))"

definition unpack_gnu_sparse_and_hash :: "box_env \<Rightarrow> bundle_codec \<Rightarrow> archive_entry \<Rightarrow> disk_path \<Rightarrow> nat \<Rightarrow> string box_op" where
  "unpack_gnu_sparse_and_hash env codec entry destination expected_size =
     bind_eff (tar_unpack env entry destination) (\<lambda>_.
     bind_eff (box_io (set_file_permissions env destination)) (\<lambda>_.
     bind_eff (reading (\<lambda>root. map_err BseIo (fs_open env destination root))) (\<lambda>_.
     bind_eff (reading (file_length env destination)) (\<lambda>actual_size.
       if actual_size \<noteq> expected_size \<or> actual_size > MAX_ROOT_DISK_BYTES then
         lift_eff (invalid_bundle (''root disk size '' @ decimal actual_size @ '' does not match declared size '' @ decimal expected_size))
       else
         bind_eff (lift_eff (map_err BseIo (disk_try env CallSync destination))) (\<lambda>_.
         bind_eff (reading (bundle_hash_file env codec destination)) (\<lambda>(hashed_size, digest).
           if hashed_size \<noteq> expected_size then
             lift_eff (invalid_bundle (''root disk size '' @ decimal hashed_size @ '' does not match declared size '' @ decimal expected_size))
           else lift_eff (Ok digest)))))))"

definition imported_metadata :: "uuid \<Rightarrow> nat \<Rightarrow> nat option \<Rightarrow> nat \<Rightarrow> BoxMetadata \<Rightarrow> BoxMetadata" where
  "imported_metadata box_id now owner allocated m =
     m\<lparr>bm_schema_version := BOX_SCHEMA_VERSION, bm_box_id := box_id,
       bm_state := (if bm_schema_version m < BOX_SCHEMA_VERSION then Dirty else Ready), bm_updated_at_unix_ms := now,
       bm_owner_uid := owner, bm_physical_size_bytes := allocated\<rparr>"

definition publish_import :: "box_env \<Rightarrow> BoxStore \<Rightarrow> uuid \<Rightarrow> disk_path \<Rightarrow> disk_path \<Rightarrow> BoxMetadata \<Rightarrow> BoxMetadata box_op" where
  "publish_import env store box_id staging destination m =
     bind_eff (lock_metadata_index env store) (\<lambda>_.
     bind_eff (reading (ensure_unique_name env store (bm_name m) None)) (\<lambda>_.
     bind_eff (lift_eff (now_unix_millis env)) (\<lambda>now.
     bind_eff (reading (owner_uid env staging)) (\<lambda>owner.
     bind_eff (reading (allocated_size_bytes env (staging @ [ROOT_DISK_FILE]))) (\<lambda>allocated.
       let m = imported_metadata box_id now owner allocated m in
       bind_eff (box_write_json_atomic env (staging @ [METADATA_FILE]) (be_box_json env m)) (\<lambda>_.
       bind_eff (lift_eff (map_err BseIo (disk_try env CallSync (staging @ [LOCK_FILE])))) (\<lambda>_.
       bind_eff (get_eff dk_root) (\<lambda>root.
         if is_ok (fs_metadata env destination root) then lift_eff (Err (BseInvalidPath destination))
         else
           bind_eff (box_io (fs_rename env staging destination)) (\<lambda>_.
           bind_eff (syncing_parent env destination) (\<lambda>_.
             lift_eff (Ok m)))))))))))"

definition import_bundle_into ::
    "box_env \<Rightarrow> bundle_codec \<Rightarrow> BoxStore \<Rightarrow> disk_path \<Rightarrow> uuid \<Rightarrow> disk_path \<Rightarrow> disk_path \<Rightarrow> BoxMetadata box_op" where
  "import_bundle_into env codec store source box_id staging destination =
     (let lock_path = staging @ [LOCK_FILE]; disk_path = staging @ [ROOT_DISK_FILE] in
      bind_eff (box_io (fs_create_new env lock_path)) (\<lambda>_.
      bind_eff (box_io (set_file_permissions env lock_path)) (\<lambda>_.
      bind_eff (lift_eff (map_err BseIo (disk_try env CallLock lock_path))) (\<lambda>_.
      bind_eff (reading (open_regular_file env source)) (\<lambda>input.
      bind_eff (lift_eff (map_err BseIo (uc_entries codec input))) (\<lambda>entries.
      bind_eff (lift_eff (read_bundle_head env codec entries)) (\<lambda>(manifest, m, disk_entry, entries).
      bind_eff
        (if te_kind disk_entry = TarSparse then
           unpack_gnu_sparse_and_hash env codec disk_entry disk_path (mf_root_disk_size_bytes manifest)
         else copy_sparse_and_hash env codec disk_entry disk_path (mf_root_disk_size_bytes manifest)) (\<lambda>digest.
        if digest \<noteq> mf_root_disk_sha256 manifest then lift_eff (invalid_bundle ''root disk SHA-256 does not match the manifest'')
        else
          (case entries of
             Inl e # _ \<Rightarrow> lift_eff (Err (BseIo e))
           | Inr _ # _ \<Rightarrow> lift_eff (invalid_bundle ''bundle contains unexpected extra entries'')
           | [] \<Rightarrow> publish_import env store box_id staging destination m)))))))))"

definition import_bundle :: "box_env \<Rightarrow> bundle_codec \<Rightarrow> BoxStore \<Rightarrow> disk_path \<Rightarrow> BoxMetadata box_op" where
  "import_bundle env codec store source =
     bind_eff (reading (reject_symlink_components env source False)) (\<lambda>_.
     bind_eff (reading (validate_regular_file env source ''Box bundle'')) (\<lambda>_.
     bind_eff (ensure_root env (state_root store)) (\<lambda>_.
     bind_eff (secure_directory env (boxes_directory store)) (\<lambda>_.
     bind_eff (lift_eff (case be_fresh_ids env of [] \<Rightarrow> Err BseNoFreshId | box_id # _ \<Rightarrow> Ok box_id)) (\<lambda>box_id.
     bind_eff (temporary_path env store ''importing'' box_id) (\<lambda>staging.
     bind_eff (get_eff dk_root) (\<lambda>root.
     bind_eff (if is_ok (fs_metadata env staging root) then box_remove_managed_directory env staging else lift_eff (Ok ())) (\<lambda>_.
     bind_eff (secure_directory env staging) (\<lambda>_.
       on_error (import_bundle_into env codec store source box_id staging (box_directory store box_id))
         (discard_staging env staging))))))))))"

end
