(* ===== verification/Bundle_Sample.thy ===== *)
theory Bundle_Sample
  imports Bundle Box_Properties
begin

text \<open>
  A small archive format and a host with a ready box of two bytes, for the witnesses of the theorems on bundles. The host knows
  no extents; \<open>sample_seek_data\<close> and \<open>sample_seek_hole\<close> are those of a file system on which the first byte is a hole.
\<close>

definition moved_box :: BoxMetadata where
  "moved_box = imported_metadata BOX_B 5 (Some 0) 0 ready_box"

definition bundle_json :: "BoxMetadata \<Rightarrow> (bytes, string) result" where
  "bundle_json m = (if m = ready_box then Ok [1] else if m = moved_box then Ok [4] else Err ''no text'')"

definition bundle_parse :: "bytes \<Rightarrow> (BoxMetadata, string) result" where
  "bundle_parse bs =
     (if bs = [1] \<or> bs = [1, 10] then Ok ready_box else if bs = [4] \<or> bs = [4, 10] then Ok moved_box else Err ''no metadata'')"

definition bundle_host :: box_env where
  "bundle_host = (box_host False)\<lparr>be_fresh_ids := [BOX_B], be_box_json := bundle_json, be_parse_box := bundle_parse,
     be_seek_data := \<lambda>_ _. SeekUnsupported (DeOther ''seek'')\<rparr>"

definition sample_seek_data :: "nat \<Rightarrow> seek_answer" where
  "sample_seek_data off = (if off \<le> 1 then SeekAt 1 else SeekNxio)"

definition sample_seek_hole :: "nat \<Rightarrow> seek_answer" where
  "sample_seek_hole off = SeekAt (max off 1 + 1)"

definition sample_digest :: string where
  "sample_digest = ''sha256:'' @ to_hex (replicate 32 0)"

definition sample_manifest :: BundleManifest where
  "sample_manifest =
     \<lparr>mf_schema_version = 1, mf_metadata_path = METADATA_FILE, mf_metadata_size_bytes = 1, mf_metadata_sha256 = sample_digest,
      mf_root_disk_path = ROOT_DISK_FILE, mf_root_disk_size_bytes = 2, mf_root_disk_sha256 = sample_digest\<rparr>"

definition sample_header :: SparseHeader where
  "sample_header =
     \<lparr>sh_path = ROOT_DISK_FILE, sh_mode = MODE_0600, sh_uid = 0, sh_gid = 0, sh_mtime = 0, sh_size = 1, sh_real_size = 2,
      sh_sparse = [\<lparr>se_offset = 1, se_length = 1\<rparr>, \<lparr>se_offset = 2, se_length = 0\<rparr>], sh_is_extended = False\<rparr>"

definition sample_regular :: "string \<Rightarrow> bytes \<Rightarrow> archive_entry" where
  "sample_regular path bs = \<lparr>te_path = path, te_kind = TarRegular, te_size = length bs, te_reads = [Ok bs], te_unpack = Ok bs\<rparr>"

definition sample_sparse :: "8 word \<Rightarrow> archive_entry" where
  "sample_sparse b = \<lparr>te_path = ROOT_DISK_FILE, te_kind = TarSparse, te_size = 2, te_reads = [Ok [0, b]], te_unpack = Ok [0, b]\<rparr>"

definition sample_map :: SparseMap where
  "sample_map = \<lparr>sm_logical_size = 2, sm_stored_size = 1, sm_extents = sh_sparse sample_header\<rparr>"

text \<open>One byte says what an entry is: a manifest or metadata of one byte, the sparse disk of one block, or a disk of two bytes.\<close>

function sample_entries :: "bytes \<Rightarrow> (archive_entries, disk_error) result" where
  "sample_entries bs =
     (if bs = [] \<or> hd bs = 0 then Ok []
      else if hd bs = 1 \<and> 2 \<le> length bs then
        and_then (sample_entries (drop 2 bs)) (\<lambda>es. Ok (Ok (sample_regular MANIFEST_FILE [bs ! 1]) # es))
      else if hd bs = 2 \<and> 2 \<le> length bs then
        and_then (sample_entries (drop 2 bs)) (\<lambda>es. Ok (Ok (sample_regular METADATA_FILE [bs ! 1]) # es))
      else if hd bs = 3 \<and> 513 \<le> length bs then
        and_then (sample_entries (drop 513 bs)) (\<lambda>es. Ok (Ok (sample_sparse (bs ! 1)) # es))
      else if hd bs = 5 \<and> 3 \<le> length bs then
        and_then (sample_entries (drop 3 bs)) (\<lambda>es. Ok (Ok (sample_regular ROOT_DISK_FILE [bs ! 1, bs ! 2]) # es))
      else Err (DeOther ''archive''))"
  by pat_completeness auto
termination by (relation "measure length") auto

declare sample_entries.simps [simp del]

definition tiny_tar :: bundle_codec where
  "tiny_tar =
     \<lparr>uc_manifest_json = (\<lambda>m. if m = sample_manifest then Ok [7] else Err ''no text''),
      uc_parse_manifest = (\<lambda>bs. if bs = [7] then Ok sample_manifest else Err ''no manifest''),
      uc_sha = (\<lambda>_. replicate 32 0), uc_entries = sample_entries,
      uc_append_data = (\<lambda>_ path bs. if path = MANIFEST_FILE \<and> bs = [7] then Ok [[1], [7]]
        else if path = METADATA_FILE \<and> bs = [1] then Ok [[2], [1]] else Err (DeOther ''no entry'')),
      uc_append_path = (\<lambda>path bs. if path = ROOT_DISK_FILE \<and> bs = [0, 5] then Ok [[5], [0, 5]] else Err (DeOther ''no entry'')), uc_finish = [[0]],
      uc_sparse_header = (\<lambda>h. if h = sample_header then Ok [3] else Err (DeOther ''no header'')),
      uc_extended_header = (\<lambda>_. [4]), uc_inline_slots = 4, uc_extended_slots = 21\<rparr>"

definition sample_archive :: bytes where
  "sample_archive = [1, 7, 2, 1, 3, 5] @ replicate 511 0 @ [0]"

definition plain_archive :: bytes where
  "plain_archive = [1, 7, 2, 1, 5, 0, 5, 0]"

definition bundle_disk :: "bytes \<Rightarrow> disk" where
  "bundle_disk content =
     \<lparr>dk_root = EDir box_info [(''in.tar'', EFile box_info content), (''state'', EDir box_info [(BOXES_DIRECTORY, EDir box_info
        [(BOX_A, EDir box_info [(METADATA_FILE, EFile box_info [1, 10]), (ROOT_DISK_FILE, EFile box_info [0, 5])])])])],
      dk_sequence = 0\<rparr>"


lemma sample_seeks: "honest_seeks sample_seek_data sample_seek_hole [0, 5]"
  by (auto simp: honest_seeks_def sample_seek_data_def sample_seek_hole_def split: if_splits)

lemma sample_json_roundtrip: "json_roundtrip bundle_host"
  by (auto simp: json_roundtrip_def bundle_host_def bundle_json_def bundle_parse_def split: if_splits)

lemma sample_fresh: "\<forall>x \<in> set (be_fresh_ids bundle_host). \<not> starts_with ''.'' x" "be_fresh_ids bundle_host = [BOX_B]"
  using sample_uuids by (simp_all add: bundle_host_def)

lemma sample_source: "[''in.tar''] \<in> elsewhere sample_store x" "node_at [''in.tar''] (dk_root (bundle_disk content)) = Ok (EFile box_info content)"
  by (auto simp: elsewhere_def boxes_directory_def box_directory_def sample_store_def apart_def bundle_disk_def)

end
