(* ===== verification/Bundle_Archive.thy ===== *)
theory Bundle_Archive
  imports Bundle_Sample
begin

text \<open>
  What the archive of a bundle holds: the writer that leaves holes produces the bytes that were written, and the sparse entry
  of a disk restores it.
\<close>

section \<open>The writer\<close>

text \<open>A f whose end was not written yet stands for what was written.\<close>

definition sparse_of :: "bytes \<Rightarrow> bytes \<Rightarrow> bool" where
  "sparse_of output content \<longleftrightarrow> (\<exists>n. content = output @ replicate n 0)"

lemma zeros_replicate: "list_all (\<lambda>b. b = 0) bs \<Longrightarrow> bs = replicate (length bs) (0::8 word)"
  by (induction bs) auto

lemma sparse_of_step:
  assumes "sparse_of output content"
  shows "sparse_of (if list_all (\<lambda>b. b = 0) buffer then output else write_at output (length content) buffer) (content @ buffer)"
proof (cases "list_all (\<lambda>b. b = 0) buffer")
  case True
  obtain n where "content = output @ replicate n 0" using assms by (auto simp: sparse_of_def)
  then have "content @ buffer = output @ replicate (n + length buffer) 0"
    using zeros_replicate [OF True] by (metis append.assoc replicate_add)
  then show ?thesis using True unfolding sparse_of_def by auto
next
  case False
  obtain n where "content = output @ replicate n 0" using assms by (auto simp: sparse_of_def)
  then have "write_at output (length content) buffer = content @ buffer" by (simp add: write_at_def)
  then show ?thesis using False unfolding sparse_of_def by (metis append_Nil2 replicate_0)
qed

lemma sparse_of_set_len: "sparse_of output content \<Longrightarrow> set_len (length content) output = content"
  by (auto simp: sparse_of_def set_len_def)

definition archive_inv :: "SparseArchiveWriter \<Rightarrow> bool" where
  "archive_inv w \<longleftrightarrow> aw_cursor w = length (aw_hasher w) \<and> aw_logical_position w = length (aw_hasher w) \<and> sparse_of (aw_output w) (aw_hasher w)"

lemma archive_inv_new: "archive_inv archive_writer_new"
  by (simp add: archive_inv_def archive_writer_new_def sparse_of_def)

text \<open>One archive goes on from another by some bytes.\<close>

definition grows :: "bytes \<Rightarrow> SparseArchiveWriter \<Rightarrow> SparseArchiveWriter \<Rightarrow> bool" where
  "grows bs w w' \<longleftrightarrow> (archive_inv w \<longrightarrow> archive_inv w') \<and> aw_hasher w' = aw_hasher w @ bs"

lemma grows_Nil [simp]: "grows [] w w"
  by (simp add: grows_def)

lemma grows_trans: "grows a w w' \<Longrightarrow> grows b w' w'' \<Longrightarrow> grows (a @ b) w w''"
  by (auto simp: grows_def)

lemma archive_write_extends:
  assumes "archive_write buffer w = Inr w'"
  shows "grows buffer w w'"
proof (cases "buffer = []")
  case False
  with assms have "w' = w\<lparr>aw_output := (if list_all (\<lambda>b. b = 0) buffer then aw_output w else write_at (aw_output w) (aw_cursor w) buffer),
       aw_cursor := aw_cursor w + length buffer, aw_hasher := aw_hasher w @ buffer, aw_logical_position := aw_logical_position w + length buffer\<rparr>"
    by (auto simp: archive_write_def split: option.splits)
  then show ?thesis using sparse_of_step [of "aw_output w" "aw_hasher w" buffer] by (auto simp: grows_def archive_inv_def)
qed (use assms in \<open>simp add: archive_write_def\<close>)

lemma archive_writes_extends: "archive_writes bs w = Inr w' \<Longrightarrow> grows (concat bs) w w'"
  by (induction bs arbitrary: w) (auto simp: and_then_Inr_iff dest!: archive_write_extends intro: grows_trans)

lemma append_bytes_extends:
  assumes "append_bytes codec path bs w = Inr w'"
  shows "\<exists>writes. uc_append_data codec \<lparr>rh_mode = MODE_0600, rh_uid = 0, rh_gid = 0, rh_mtime = 0, rh_size = length bs\<rparr> path bs = Inr writes \<and>
    grows (concat writes) w w'"
  using assms by (auto simp: append_bytes_def Let_def and_then_Inr_iff dest!: archive_writes_extends)

lemma archive_writer_finish_exact:
  "archive_inv w \<Longrightarrow> archive_writer_finish codec w = (aw_hasher w, length (aw_hasher w), bundle_digest_bytes codec (aw_hasher w))"
  by (simp add: archive_inv_def archive_writer_finish_def sparse_of_set_len)

section \<open>Slices\<close>

lemma concat_slices [simp]: "0 < n \<Longrightarrow> concat (slices n xs) = xs"
  by (induction n xs rule: slices.induct) (subst slices.simps, auto)

lemma slices_length: "0 < n \<Longrightarrow> i < length (slices n xs) \<longleftrightarrow> i * n < length xs"
proof (induction n xs arbitrary: i rule: slices.induct)
  case (1 n xs)
  show ?case
  proof (cases "xs = []")
    case False
    with 1 show ?thesis
      by (cases i) (auto simp: slices.simps [of n xs] less_diff_conv add.commute)
  qed (simp add: slices.simps)
qed

lemma slices_size: "c \<in> set (slices n xs) \<Longrightarrow> length c \<le> n"
proof (induction n xs rule: slices.induct)
  case (1 n xs)
  then show ?case by (auto simp: slices.simps [of n xs] split: if_splits)
qed

lemma map_snd_enumerate [simp]: "map (\<lambda>(i, x). f x) (List.enumerate k xs) = map f xs"
  by (induction xs arbitrary: k) auto

lemma extended_headers_extents:
  assumes "0 < uc_extended_slots codec"
  shows "sh_sparse (sparse_header_of codec path m) @ concat (map xh_sparse (extended_headers_of codec m)) = sm_extents m"
proof -
  have "map xh_sparse (extended_headers_of codec m) =
      slices (uc_extended_slots codec) (drop (min (uc_inline_slots codec) (length (sm_extents m))) (sm_extents m))"
    by (simp add: extended_headers_of_def Let_def comp_def case_prod_beta)
  then show ?thesis using assms by (simp add: sparse_header_of_def min_def)
qed

lemma extended_headers_length:
  "length (extended_headers_of codec m) = length (slices (uc_extended_slots codec) (drop (uc_inline_slots codec) (sm_extents m)))"
  by (simp add: extended_headers_of_def Let_def min_def)

text \<open>A header announces another one exactly when there is one.\<close>

definition chained :: "bool \<Rightarrow> ExtendedHeader list \<Rightarrow> bool" where
  "chained flag headers \<longleftrightarrow> flag = (headers \<noteq> []) \<and> (\<forall>i < length headers. xh_is_extended (headers ! i) = (Suc i < length headers))"

lemma headers_chained:
  assumes "0 < uc_extended_slots codec"
  shows "chained (sh_is_extended (sparse_header_of codec path m)) (extended_headers_of codec m)"
proof -
  let ?r = "drop (uc_inline_slots codec) (sm_extents m)"
  have d: "drop (min (uc_inline_slots codec) (length (sm_extents m))) (sm_extents m) = ?r" by (simp add: min_def)
  have "(extended_headers_of codec m \<noteq> []) = (0 < length (slices (uc_extended_slots codec) ?r))"
    by (metis extended_headers_length length_greater_0_conv)
  moreover have "xh_is_extended (extended_headers_of codec m ! i) = (Suc i < length (extended_headers_of codec m))"
    if "i < length (extended_headers_of codec m)" for i
    using that slices_length [OF assms, of "Suc i" ?r]
    by (simp add: extended_headers_length) (simp add: extended_headers_of_def Let_def d nth_enumerate_eq)
  ultimately show ?thesis
    using slices_length [OF assms, of 0 ?r] by (simp add: chained_def sparse_header_of_def)
qed

section \<open>The extents of a f\<close>

fun place_extents :: "SparseExtent list \<Rightarrow> bytes \<Rightarrow> bytes \<Rightarrow> bytes" where
  "place_extents [] stored f = f"
| "place_extents (x # xs) stored f =
     place_extents xs (drop (se_length x) stored)
       (take (se_offset x) f @ take (se_length x) stored @ drop (se_offset x + se_length x) f)"

text \<open>What the GNU format says of a sparse entry: the stored bytes go to the extents in order, and the rest is zeros.\<close>

definition expand_sparse :: "nat \<Rightarrow> SparseExtent list \<Rightarrow> bytes \<Rightarrow> bytes" where
  "expand_sparse real_size extents stored = place_extents extents stored (replicate real_size 0)"

definition extent_data :: "bytes \<Rightarrow> SparseExtent list \<Rightarrow> bytes" where
  "extent_data source extents = concat (map (\<lambda>x. take (se_length x) (drop (se_offset x) source)) extents)"

lemma extent_data_simps [simp]:
  "extent_data source [] = []" "extent_data source (xs @ ys) = extent_data source xs @ extent_data source ys"
  "extent_data source (x # xs) = take (se_length x) (drop (se_offset x) source) @ extent_data source xs"
  by (simp_all add: extent_data_def)

lemma place_extents_end: "place_extents (xs @ [end_extent n]) stored f = place_extents xs stored f"
  by (induction xs stored f rule: place_extents.induct) (simp_all add: end_extent_def)

definition extents_ok :: "bytes \<Rightarrow> nat \<Rightarrow> SparseExtent list \<Rightarrow> bool" where
  "extents_ok content off xs \<longleftrightarrow>
     (\<forall>x \<in> set xs. 0 < se_length x \<and> off \<le> se_offset x \<and> se_offset x + se_length x \<le> length content) \<and>
     sorted_wrt (\<lambda>x y. se_offset x + se_length x < se_offset y) xs \<and>
     (\<forall>f. copied_to content f off \<longrightarrow> place_extents xs (extent_data content xs) f = content)"

lemma extents_ok_Nil:
  assumes "\<And>i. off \<le> i \<Longrightarrow> i < length content \<Longrightarrow> content ! i = 0"
  shows "extents_ok content off []"
proof -
  have "f = content" if "copied_to content f off" for f
    using assms that by (auto simp: copied_to_def intro!: nth_equalityI)
  then show ?thesis by (simp add: extents_ok_def)
qed

lemma extents_ok_Cons:
  assumes "off < hole" "hole \<le> length content" and rest: "extents_ok content d xs" and d: "hole < d \<or> hole \<le> d \<and> xs = []"
    and zero: "\<And>i. hole \<le> i \<Longrightarrow> i < d \<Longrightarrow> i < length content \<Longrightarrow> content ! i = 0"
  shows "extents_ok content off (\<lparr>se_offset = off, se_length = hole - off\<rparr> # xs)"
proof -
  have "place_extents xs (extent_data content xs) (take off f @ take (hole - off) (drop off content) @ drop hole f) = content"
    if "copied_to content f off" for f
  proof -
    have "copied_to content (take off f @ take (hole - off) (drop off content) @ drop hole f) hole"
      by (rule copied_to_range [OF that]) (use assms in auto)
    then have "copied_to content (take off f @ take (hole - off) (drop off content) @ drop hole f) d"
      by (rule copied_to_skip) (use d zero in auto)
    then show ?thesis using rest by (simp add: extents_ok_def)
  qed
  then show ?thesis using assms rest by (fastforce simp: extents_ok_def)
qed

lemma sparse_extents_exact:
  assumes "honest_seeks seek_data seek_hole content" "n = length content"
  shows "sparse_extents_from seek_data seek_hole n off stored acc = Inr (stored', acc') \<Longrightarrow>
    \<exists>xs. acc' = acc @ xs \<and> stored' = stored + length (extent_data content xs) \<and> extents_ok content off xs"
  using assms
proof (induction seek_data seek_hole n off stored acc rule: sparse_extents_from.induct)
  case (1 seek_data seek_hole n off stored acc)
  note [simp] = sparse_extents_from.simps [of seek_data seek_hole n off stored acc]
  show ?case
  proof (cases "off < n")
    case True
    then obtain h where h: "seek_hole off = SeekAt h" using 1(2) by (cases "seek_hole off") auto
    let ?x = "\<lparr>se_offset = off, se_length = h - off\<rparr>"
    have bounds: "off < h" "h \<le> n" "stored + (h - off) \<le> U64_MAX"
      using 1(2) True h by (auto simp: checked_add_def split: if_splits)
    have len: "length (extent_data content (?x # xs)) = (h - off) + length (extent_data content xs)" for xs
      using bounds 1(4) by simp
    have run: "(if h = n then Ok (stored + (h - off), acc @ [?x]) else (case seek_data h of
          SeekAt d \<Rightarrow> if d > h \<and> d \<le> n then sparse_extents_from seek_data seek_hole n d (stored + (h - off)) (acc @ [?x])
            else Err (DeOther ''root disk sparse data offset did not advance'')
        | SeekNxio \<Rightarrow> Ok (stored + (h - off), acc @ [?x]) | SeekUnsupported e \<Rightarrow> Err e | SeekError e \<Rightarrow> Err e)) = Inr (stored', acc')"
      using 1(2) True h bounds by (simp add: Let_def checked_add_def del: add_diff_assoc)
    show ?thesis
    proof (cases "h < n \<and> (\<exists>d. seek_data h = SeekAt d)")
      case True
      then obtain d where d: "h < n" "seek_data h = SeekAt d" by blast
      with run have d2: "h < d" "d \<le> n"
        and rec: "sparse_extents_from seek_data seek_hole n d (stored + (h - off)) (acc @ [?x]) = Inr (stored', acc')"
        by (auto split: if_splits)
      have "\<exists>xs. acc' = (acc @ [?x]) @ xs \<and> stored' = stored + (h - off) + length (extent_data content xs) \<and> extents_ok content d xs"
        by (rule 1(1) [OF _ h _ refl _ _ d(2) _ rec 1(3,4)]) (use bounds d d2 \<open>off < n\<close> in \<open>auto simp: checked_add_def\<close>)
      then obtain xs where xs: "acc' = (acc @ [?x]) @ xs" "stored' = stored + (h - off) + length (extent_data content xs)" "extents_ok content d xs"
        by blast
      have "extents_ok content off (?x # xs)"
        by (rule extents_ok_Cons [OF bounds(1) _ xs(3)]) (use bounds d d2 1(3,4) in \<open>auto simp: honest_seeks_def\<close>)
      then show ?thesis using xs len [of xs] by (intro exI [of _ "?x # xs"]) auto
    next
      case False
      have zero: "content ! i = 0" if "h \<le> i" "i < length content" for i
        using False that 1(3,4) run bounds
        by (cases "seek_data h") (auto simp: honest_seeks_def split: if_splits)
      have res: "stored' = stored + (h - off)" "acc' = acc @ [?x]"
        using False run bounds by (cases "seek_data h"; force split: if_splits)+
      have "extents_ok content off [?x]"
        by (rule extents_ok_Cons [OF bounds(1) _ extents_ok_Nil]) (use bounds zero 1(4) in auto)
      then show ?thesis using res len [of "[]"] by (intro exI [of _ "[?x]"]) auto
    qed
  next
    case False
    then have "extents_ok content off []" using 1(4) by (intro extents_ok_Nil) auto
    then show ?thesis using 1(2) False by (intro exI [of _ "[]"]) auto
  qed
qed


lemma find_sparse_map_exact:
  assumes "honest_seeks seek_data seek_hole content" "find_sparse_map seek_data seek_hole (length content) = Inr (Some m)"
  shows "sm_logical_size m = length content" "sm_stored_size m = length (extent_data content (sm_extents m))"
    "expand_sparse (length content) (sm_extents m) (extent_data content (sm_extents m)) = content"
proof -
  have whole: "place_extents xs (extent_data content xs) (replicate (length content) 0) = content" if "extents_ok content off xs"
    "\<And>i. i < off \<Longrightarrow> i < length content \<Longrightarrow> content ! i = 0" for off xs
    using that(1) copied_to_skip [OF copied_to_zeros, of off content] that(2) by (simp add: extents_ok_def)
  have "\<exists>xs off. m = \<lparr>sm_logical_size = length content, sm_stored_size = length (extent_data content xs), sm_extents = xs @ [end_extent (length content)]\<rparr> \<and>
      extents_ok content off xs \<and> (\<forall>i < off. i < length content \<longrightarrow> content ! i = 0)"
  proof (cases "seek_data 0")
    case (SeekAt d)
    with assms(2) obtain xs where r: "sparse_extents_from seek_data seek_hole (length content) d 0 [] = Inr (sm_stored_size m, xs)"
      and m: "m = \<lparr>sm_logical_size = length content, sm_stored_size = sm_stored_size m, sm_extents = xs @ [end_extent (length content)]\<rparr>"
      by (auto simp: find_sparse_map_def and_then_Inr_iff split: if_splits)
    from sparse_extents_exact [OF assms(1) refl r] have "sm_stored_size m = length (extent_data content xs)" "extents_ok content d xs" by auto
    moreover have "\<forall>i < d. i < length content \<longrightarrow> content ! i = 0" using assms(1) SeekAt by (auto simp: honest_seeks_def)
    ultimately show ?thesis using m by metis
  next
    case SeekNxio
    then have "m = \<lparr>sm_logical_size = length content, sm_stored_size = 0, sm_extents = [end_extent (length content)]\<rparr>"
      using assms(2) by (auto simp: find_sparse_map_def split: if_splits)
    moreover have "extents_ok content 0 []" using assms(1) SeekNxio by (intro extents_ok_Nil) (auto simp: honest_seeks_def)
    ultimately show ?thesis by (intro exI [of _ "[]"] exI [of _ 0]) simp
  qed (use assms(2) in \<open>auto simp: find_sparse_map_def split: if_splits\<close>)
  then obtain xs off where m: "m = \<lparr>sm_logical_size = length content, sm_stored_size = length (extent_data content xs), sm_extents = xs @ [end_extent (length content)]\<rparr>"
    and xs: "extents_ok content off xs" "\<forall>i < off. i < length content \<longrightarrow> content ! i = 0" by blast
  have e: "extent_data content [end_extent (length content)] = []" by (simp add: end_extent_def)
  show "sm_logical_size m = length content" "sm_stored_size m = length (extent_data content (sm_extents m))"
    unfolding m by (simp_all add: end_extent_def)
  show "expand_sparse (length content) (sm_extents m) (extent_data content (sm_extents m)) = content"
    using whole [OF xs(1)] xs(2) unfolding m expand_sparse_def by (simp add: place_extents_end e del: extent_data_simps(3))
qed

lemma append_extents_extends: "append_extents source xs w = Inr w' \<Longrightarrow> grows (extent_data source xs) w w'"
proof (induction source xs w rule: append_extents.induct)
  case (2 source x xs w)
  show ?case
  proof (cases "se_length x = 0")
    case False
    let ?c = "take (se_length x) (drop (se_offset x) source)"
    obtain w1 where w: "archive_writes (slices STD_COPY_BYTES ?c) w = Inr w1" "length ?c = se_length x" "append_extents source xs w1 = Inr w'"
      using 2(3) False by (auto simp: Let_def and_then_Inr_iff split: if_splits)
    have "grows ?c w w1" using archive_writes_extends [OF w(1)] by (simp add: STD_COPY_BYTES_def)
    then show ?thesis using 2(2) [OF False refl w(1)] w(2,3) by (auto intro: grows_trans)
  qed (use 2 in simp)
qed simp

text \<open>The bytes of a sparse entry: its headers, the data of its extents, and the padding.\<close>

definition sparse_entry_bytes :: "bundle_codec \<Rightarrow> string \<Rightarrow> SparseMap \<Rightarrow> bytes \<Rightarrow> bytes \<Rightarrow> bytes" where
  "sparse_entry_bytes codec path m header stored =
     header @ concat (map (uc_extended_header codec) (extended_headers_of codec m)) @ stored @ replicate (sparse_padding (length stored)) 0"

lemma append_mapped_extends:
  assumes "append_sparse_mapped_file codec source path m w = Inr w'" "sm_stored_size m = length (extent_data source (sm_extents m))"
  shows "\<exists>header. uc_sparse_header codec (sparse_header_of codec path m) = Inr header \<and>
    grows (sparse_entry_bytes codec path m header (extent_data source (sm_extents m))) w w'"
proof -
  obtain header w1 w2 w3 where h: "uc_sparse_header codec (sparse_header_of codec path m) = Inr header" and w: "archive_write header w = Inr w1"
    "archive_writes (map (uc_extended_header codec) (extended_headers_of codec m)) w1 = Inr w2" "append_extents source (sm_extents m) w2 = Inr w3"
    and pad: "(if sparse_padding (sm_stored_size m) > 0 then archive_write (replicate (sparse_padding (sm_stored_size m)) 0) w3 else Ok w3) = Inr w'"
    using assms(1) by (auto simp: append_sparse_mapped_file_def and_then_Inr_iff Let_def)
  have p: "grows (replicate (sparse_padding (sm_stored_size m)) 0) w3 w'"
    using pad archive_write_extends [of "replicate (sparse_padding (sm_stored_size m)) 0" w3 w'] by (auto split: if_splits)
  have "grows (header @ concat (map (uc_extended_header codec) (extended_headers_of codec m)) @ extent_data source (sm_extents m) @
      replicate (sparse_padding (sm_stored_size m)) 0) w w'"
    by (intro grows_trans [OF archive_write_extends [OF w(1)]] grows_trans [OF archive_writes_extends [OF w(2)]]
        grows_trans [OF append_extents_extends [OF w(3)]] p)
  then show ?thesis using h assms(2) by (auto simp: sparse_entry_bytes_def)
qed

lemma padding_block: "512 dvd k + sparse_padding k"
proof (cases "k mod 512 = 0")
  case False
  have "k mod 512 < 512" "k mod 512 \<le> k" by simp_all
  then have "k + sparse_padding k = (k - k mod 512) + 512" using False by (simp add: sparse_padding_def)
  moreover have "512 dvd k - k mod 512" by (rule dvd_minus_mod)
  ultimately show ?thesis by (metis dvd_add dvd_refl)
qed (simp add: sparse_padding_def dvd_eq_mod_eq_0)




end
