(* ===== verification/Bundle_Import.thy ===== *)
theory Bundle_Import
  imports Bundle_Archive
begin

text \<open>
  What an import accepts and publishes, and what it leaves behind when it refuses a bundle.
\<close>

section \<open>Files that are written\<close>

lemma fs_fill_Inr:
  assumes "fs_fill env (d @ [c]) r s = (Inr u, s')"
  shows "\<exists>k bs. r = Inr bs \<and> node_at (d @ [c]) (dk_root s') = Inr (EFile k bs)"
proof -
  obtain i old where f: "node_at (d @ [c]) (dk_root s) = Inr (EFile i old)"
    using assms by (auto simp: fs_fill_def split: sum.splits entry.splits)
  then obtain j es where "node_at d (dk_root s) = Inr (EDir j es)" using node_at_parent by blast
  from node_at_change_at [OF this, of c] f assms show ?thesis
    by (auto simp: fs_fill_def Let_def and_then_Inr_iff set_node_def split: sum.splits)
qed

lemma fs_fill_keeps [frames]: "(\<And>p. p \<in> P \<Longrightarrow> apart q p) \<Longrightarrow> untouched P s (snd (fs_fill env q r s))"
  by (auto simp: fs_fill_def Let_def keep.same set_node_keeps split: sum.splits entry.splits)

lemma file_permissions_file:
  assumes "set_file_permissions env (d @ [c]) s = (Inr u, s')" "node_at (d @ [c]) (dk_root s) = Inr (EFile i bs)"
  shows "\<exists>k. node_at (d @ [c]) (dk_root s') = Inr (EFile k bs)"
  using permissions_node [OF assms(1) [unfolded set_file_permissions_def]] assms(2) by (auto simp: with_mode_def)

lemma saturating_total:
  "so_far \<le> U64_MAX \<Longrightarrow> foldl (\<lambda>so_far chunk. saturating_add so_far (length chunk)) so_far chunks = min (so_far + length (concat chunks)) U64_MAX"
  by (induction chunks arbitrary: so_far) (auto simp: saturating_add_def min_def)

lemma bundle_hash_file_Inr:
  assumes "bundle_hash_file env codec p root = Inr (n, digest)" "node_at p root = Inr (EFile i bs)"
  shows "n = min (length bs) U64_MAX" "digest = bundle_digest_bytes codec bs"
proof -
  have "0 < COPY_BUFFER_BYTES" by (simp add: COPY_BUFFER_BYTES_def)
  then show "n = min (length bs) U64_MAX" "digest = bundle_digest_bytes codec bs"
    using assms open_source_at [OF assms(2)] saturating_total [of 0 "slices COPY_BUFFER_BYTES bs"]
    by (auto simp: bundle_hash_file_def and_then_Inr_iff Let_def)
qed

section \<open>The disk of a bundle\<close>

text \<open>What the answers to reading an entry are together.\<close>

definition reads_as :: "archive_entry \<Rightarrow> bytes \<Rightarrow> bool" where
  "reads_as e bs \<longleftrightarrow> (\<exists>chunks. te_reads e = map Ok chunks \<and> [] \<notin> set chunks \<and> concat chunks = bs)"

definition disk_of :: "archive_entry \<Rightarrow> bytes \<Rightarrow> bool" where
  "disk_of e bs \<longleftrightarrow> (if te_kind e = TarSparse then te_unpack e = Ok bs else \<forall>content. reads_as e content \<longrightarrow> bs = content)"

lemma copy_reads_exact:
  "copy_reads expected answers so_far hasher out0 = Inr (n, h, out) \<Longrightarrow> sparse_of out0 hasher \<Longrightarrow> so_far = length hasher \<Longrightarrow>
     sparse_of out h \<and> n = length h \<and> (\<forall>chunks. answers = map Ok chunks \<longrightarrow> [] \<notin> set chunks \<longrightarrow> h = hasher @ concat chunks)"
proof (induction expected answers so_far hasher out0 rule: copy_reads.induct)
  case (3 expected buffer answers so_far hasher out0)
  show ?case
  proof (cases "buffer = []")
    case False
    let ?o = "if list_all (\<lambda>b. b = 0) buffer then out0 else write_at out0 so_far buffer"
    have step: "copy_reads expected answers (so_far + length buffer) (hasher @ buffer) ?o = Inr (n, h, out)"
      and le: "so_far + length buffer \<le> U64_MAX" "\<not> (so_far + length buffer > expected \<or> so_far + length buffer > MAX_ROOT_DISK_BYTES)"
      using 3(2) False by (auto simp: checked_add_def invalid_bundle_def split: if_splits)
    have "sparse_of ?o (hasher @ buffer)" using sparse_of_step [OF 3(3), of buffer] unfolding 3(4) .
    then show ?thesis using 3(1) [OF False _ le(2) step] 3(4) le(1) by (fastforce simp: checked_add_def)
  qed (use 3 in auto)
qed auto

lemma copied_disk_Inr:
  assumes "copied_disk codec e n = Inr (content, digest)"
  shows "digest = bundle_digest_bytes codec content" "length content = n" "reads_as e bs \<Longrightarrow> content = bs"
proof -
  obtain h out where c: "copy_reads n (te_reads e) 0 [] [] = Inr (n, h, out)" and r: "content = set_len n out" "digest = bundle_digest_bytes codec h"
    using assms by (auto simp: copied_disk_def and_then_Inr_iff invalid_bundle_def split: if_splits)
  have "sparse_of [] []" by (simp add: sparse_of_def)
  from copy_reads_exact [OF c this] have h: "sparse_of out h" "n = length h" "\<And>chunks. te_reads e = map Ok chunks \<Longrightarrow> [] \<notin> set chunks \<Longrightarrow> h = concat chunks"
    by auto
  then have "content = h" using sparse_of_set_len r(1) by metis
  then show "digest = bundle_digest_bytes codec content" "length content = n" "reads_as e bs \<Longrightarrow> content = bs"
    using r(2) h(2,3) by (auto simp: reads_as_def)
qed

lemma copy_sparse_and_hash_Inr:
  assumes "copy_sparse_and_hash env codec e (d @ [c]) n s = (Inr digest, s')" "te_kind e \<noteq> TarSparse"
  shows "\<exists>k bs. node_at (d @ [c]) (dk_root s') = Inr (EFile k bs) \<and> digest = bundle_digest_bytes codec bs \<and> length bs = n \<and> disk_of e bs"
proof -
  obtain t u content where f: "fs_fill env (d @ [c]) (and_then (copied_disk codec e n) (\<lambda>(content, _). Ok content)) t = (Inr u, s')"
    and r: "copied_disk codec e n = Inr (content, digest)"
    using assms(1) by (auto simp: copy_sparse_and_hash_def Let_def bind_eff_Inr box_io_Inr)
  then obtain k where "node_at (d @ [c]) (dk_root s') = Inr (EFile k content)" using fs_fill_Inr [OF f] by auto
  with copied_disk_Inr [OF r] assms(2) show ?thesis by (auto simp: disk_of_def)
qed

lemma unpack_sparse_Inr:
  assumes "unpack_gnu_sparse_and_hash env codec e (d @ [c]) n s = (Inr digest, s')" "te_kind e = TarSparse"
  shows "\<exists>k bs. node_at (d @ [c]) (dk_root s') = Inr (EFile k bs) \<and> digest = bundle_digest_bytes codec bs \<and> length bs = n \<and> disk_of e bs"
proof -
  obtain t1 t2 u1 u2 size where f: "fs_fill env (d @ [c]) (map_err BseIo (te_unpack e)) t1 = (Inr u1, t2)"
    and p: "set_file_permissions env (d @ [c]) t2 = (Inr u2, s')"
    and l: "file_length env (d @ [c]) (dk_root s') = Inr n" and h: "bundle_hash_file env codec (d @ [c]) (dk_root s') = Inr (n, digest)"
    using assms(1)
    by (auto simp: unpack_gnu_sparse_and_hash_def tar_unpack_def bind_eff_Inr box_io_Inr reading_Inr invalid_bundle_def split: if_splits)
  obtain k bs where u: "te_unpack e = Inr bs" "node_at (d @ [c]) (dk_root t2) = Inr (EFile k bs)"
    using fs_fill_Inr [OF f] by (auto simp: map_err_Inr_iff)
  obtain k' where n: "node_at (d @ [c]) (dk_root s') = Inr (EFile k' bs)" using file_permissions_file [OF p u(2)] by blast
  have "length bs = n" using l n by (auto simp: file_length_def fs_stat_def follow_def and_then_Inr_iff map_err_Inr_iff)
  with n u(1) bundle_hash_file_Inr(2) [OF h n] assms(2) show ?thesis by (auto simp: disk_of_def)
qed

abbreviation unpack_disk :: "box_env \<Rightarrow> bundle_codec \<Rightarrow> archive_entry \<Rightarrow> disk_path \<Rightarrow> nat \<Rightarrow> string box_op" where
  "unpack_disk env codec e p n \<equiv>
     (if te_kind e = TarSparse then unpack_gnu_sparse_and_hash env codec e p n else copy_sparse_and_hash env codec e p n)"

lemma unpack_disk_Inr:
  assumes "unpack_disk env codec e (d @ [c]) n s = (Inr digest, s')"
  shows "\<exists>k bs. node_at (d @ [c]) (dk_root s') = Inr (EFile k bs) \<and> digest = bundle_digest_bytes codec bs \<and> length bs = n \<and> disk_of e bs"
proof (cases "te_kind e = TarSparse")
  case True
  then show ?thesis using unpack_sparse_Inr [of env codec e d c n s] assms by simp
next
  case False
  then show ?thesis using copy_sparse_and_hash_Inr [of env codec e d c n s] assms by simp
qed

lemma unpack_disk_keeps [frames]: "(\<And>p. p \<in> P \<Longrightarrow> apart q p) \<Longrightarrow> untouched P s (snd (unpack_disk env codec e q n s))"
  unfolding copy_sparse_and_hash_def unpack_gnu_sparse_and_hash_def tar_unpack_def Let_def by (auto intro!: frames)

section \<open>The checks of an import\<close>

lemma next_entry_Inr: "next_entry path sparse entries = Inr (e, rest) \<Longrightarrow>
  entries = Inr e # rest \<and> te_path e = path \<and> (te_kind e = TarRegular \<or> sparse \<and> te_kind e = TarSparse)"
  by (auto simp: next_entry_def invalid_bundle_def split: list.splits sum.splits if_splits)

text \<open>The entries before the disk, and what they say.\<close>

definition bundle_head :: "box_env \<Rightarrow> bundle_codec \<Rightarrow> archive_entry \<Rightarrow> archive_entry \<Rightarrow> archive_entry \<Rightarrow> BundleManifest \<Rightarrow> BoxMetadata \<Rightarrow> bool" where
  "bundle_head env codec e1 e2 e3 manifest m \<longleftrightarrow>
     map te_path [e1, e2, e3] = [MANIFEST_FILE, METADATA_FILE, ROOT_DISK_FILE] \<and> te_kind e1 = TarRegular \<and> te_kind e2 = TarRegular \<and>
     te_kind e3 \<in> {TarRegular, TarSparse} \<and>
     (\<exists>bs. read_bounded e1 MAX_MANIFEST_BYTES = Ok bs \<and> uc_parse_manifest codec bs = Ok manifest) \<and> manifest_validate manifest = Ok () \<and>
     (\<exists>bs. read_bounded e2 MAX_METADATA_BYTES = Ok bs \<and> bundle_digest_bytes codec bs = mf_metadata_sha256 manifest \<and> be_parse_box env bs = Ok m) \<and>
     te_size e2 = mf_metadata_size_bytes manifest \<and> validate_imported_metadata m = Ok () \<and>
     bm_virtual_size_bytes m = mf_root_disk_size_bytes manifest \<and> te_size e3 = mf_root_disk_size_bytes manifest"

lemma read_bundle_head_Inr:
  assumes "read_bundle_head env codec entries = Inr (manifest, m, e3, rest)"
  shows "\<exists>e1 e2. entries = Inr e1 # Inr e2 # Inr e3 # rest \<and> bundle_head env codec e1 e2 e3 manifest m"
proof -
  obtain e1 r1 mb e2 r2 db where n1: "next_entry MANIFEST_FILE False entries = Inr (e1, r1)" and n2: "next_entry METADATA_FILE False r1 = Inr (e2, r2)"
    and n3: "next_entry ROOT_DISK_FILE True r2 = Inr (e3, rest)"
    and m1: "read_bounded e1 MAX_MANIFEST_BYTES = Inr mb" "uc_parse_manifest codec mb = Inr manifest" "manifest_validate manifest = Inr ()"
    and m2: "te_size e2 = mf_metadata_size_bytes manifest" "read_bounded e2 MAX_METADATA_BYTES = Inr db"
      "bundle_verify_digest codec db (mf_metadata_sha256 manifest) ''metadata'' = Inr ()" "be_parse_box env db = Inr m" "validate_imported_metadata m = Inr ()"
    and m3: "bm_virtual_size_bytes m = mf_root_disk_size_bytes manifest" "te_size e3 = mf_root_disk_size_bytes manifest"
    using assms by (auto simp: read_bundle_head_def and_then_Inr_iff map_err_Inr_iff invalid_bundle_def split: if_splits)
  have "bundle_digest_bytes codec db = mf_metadata_sha256 manifest" using m2(3) by (auto simp: bundle_verify_digest_def invalid_bundle_def split: if_splits)
  then show ?thesis
    using next_entry_Inr [OF n1] next_entry_Inr [OF n2] next_entry_Inr [OF n3] m1 m2 m3 unfolding bundle_head_def by simp
qed


lemma validate_imported_Inr:
  assumes "validate_imported_metadata m = Inr u"
  shows "bm_schema_version m \<in> {1, 2, BOX_SCHEMA_VERSION}" "bm_state m = Ready" "0 < bm_virtual_size_bytes m" "bm_virtual_size_bytes m \<le> MAX_ROOT_DISK_BYTES"
  using assms by (auto simp: validate_imported_metadata_def invalid_bundle_def and_then_Inr_iff split: if_splits)

section \<open>Publication\<close>

lemma publish_import_Inr:
  assumes "publish_import env store x (boxes_directory store @ [CHR ''.'' # t]) (box_directory store x) m0 s = (Inr m, s')" "\<not> starts_with ''.'' x"
    and d: "node_at ((boxes_directory store @ [CHR ''.'' # t]) @ [ROOT_DISK_FILE]) (dk_root s) = Inr (EFile i bs)"
    and t: "CHR ''.'' # t \<noteq> METADATA_LOCK_FILE"
  shows "(\<exists>now owner allocated. m = imported_metadata x now owner allocated m0) \<and>
    (\<exists>k js. be_box_json env m = Inr js \<and> node_at (meta_path store x) (dk_root s') = Inr (EFile k (js @ [10]))) \<and>
    (\<exists>k. node_at (disk_path_of store x) (dk_root s') = Inr (EFile k bs))"
proof -
  let ?b = "boxes_directory store"
  let ?st = "?b @ [CHR ''.'' # t]"
  obtain s1 now owner allocated q where l: "lock_metadata_index env store s = (Inr (), s1)" and m: "m = imported_metadata x now owner allocated m0"
    and w: "box_write_json_atomic env (?st @ [METADATA_FILE]) (be_box_json env m) s1 = (Inr (), q)" and r: "fs_rename env ?st (?b @ [x]) q = (Inr (), s')"
    using assms(1) by (auto simp: publish_import_def Let_def bind_eff_Inr box_io_Inr reading_Inr syncing_parent_def box_directory_def split: if_splits)
  have "untouched {?st @ [ROOT_DISK_FILE]} s (snd (lock_metadata_index env store s))"
    unfolding lock_metadata_index_def Let_def using t by (auto intro!: frames simp: apart_def)
  then have disk: "node_at (?st @ [ROOT_DISK_FILE]) (dk_root q) = Inr (EFile i bs)" using d write_keeps_root_disk [OF w] l by (simp add: untouched_def)
  obtain js k' where meta: "be_box_json env m = Inr js" "node_at (?st @ [METADATA_FILE]) (dk_root q) = Inr (EFile k' (js @ [10]))"
    using write_json_outcome [OF file_names(4) w] by auto
  obtain n where n: "node_at ?st (dk_root q) = Inr n" "node_at [ROOT_DISK_FILE] n = Inr (EFile i bs)" "node_at [METADATA_FILE] n = Inr (EFile k' (js @ [10]))"
    using node_below [OF disk] node_below [OF meta(2)] by auto
  have "node_at (?b @ [x]) (dk_root s') = Inr n" by (rule fs_rename_Ok [OF r n(1)]) (use assms(2) in \<open>auto simp: starts_with_iff\<close>)
  then have "node_at ((?b @ [x]) @ [METADATA_FILE]) (dk_root s') = Inr (EFile k' (js @ [10]))" "node_at ((?b @ [x]) @ [ROOT_DISK_FILE]) (dk_root s') = Inr (EFile i bs)"
    unfolding node_at_append [of "?b @ [x]"] using n(2,3) by simp_all
  then show ?thesis using m meta(1) by (auto simp: meta_path_def disk_path_of_def box_directory_def)
qed

lemma import_into_Inr:
  assumes "import_bundle_into env codec store source x staging destination s = (Inr m, s')"
  shows "\<exists>q q' input e1 e2 e3 manifest m0. open_regular_file env source (dk_root q) = Inr input \<and>
    untouched {p. apart staging p} s q \<and> uc_entries codec input = Inr [Inr e1, Inr e2, Inr e3] \<and> bundle_head env codec e1 e2 e3 manifest m0 \<and>
    unpack_disk env codec e3 (staging @ [ROOT_DISK_FILE]) (mf_root_disk_size_bytes manifest) q = (Inr (mf_root_disk_sha256 manifest), q') \<and>
    publish_import env store x staging destination m0 q' = (Inr m, s')"
proof -
  let ?lock = "staging @ [LOCK_FILE]"
  obtain s1 q input entries manifest m0 e3 rest digest q' where c: "fs_create_new env ?lock s = (Inr (), s1)" "set_file_permissions env ?lock s1 = (Inr (), q)"
    and o: "open_regular_file env source (dk_root q) = Inr input" "uc_entries codec input = Inr entries"
    and h: "read_bundle_head env codec entries = Inr (manifest, m0, e3, rest)"
    and u: "unpack_disk env codec e3 (staging @ [ROOT_DISK_FILE]) (mf_root_disk_size_bytes manifest) q = (Inr digest, q')"
    and p: "(if digest \<noteq> mf_root_disk_sha256 manifest then lift_eff (invalid_bundle ''root disk SHA-256 does not match the manifest'')
        else (case rest of Inl e # _ \<Rightarrow> lift_eff (Err (BseIo e))
           | Inr _ # _ \<Rightarrow> lift_eff (invalid_bundle ''bundle contains unexpected extra entries'')
           | [] \<Rightarrow> publish_import env store x staging destination m0)) q' = (Inr m, s')"
    using assms by (auto simp: import_bundle_into_def Let_def bind_eff_Inr box_io_Inr reading_Inr map_err_Inr_iff)
  have p2: "digest = mf_root_disk_sha256 manifest" "rest = []" "publish_import env store x staging destination m0 q' = (Inr m, s')"
    using p by (auto simp: invalid_bundle_def split: if_splits list.splits sum.splits)
  obtain e1 e2 where "entries = [Inr e1, Inr e2, Inr e3]" "bundle_head env codec e1 e2 e3 manifest m0"
    using read_bundle_head_Inr [OF h] p2(2) by auto
  moreover have "untouched {p. apart staging p} s s1" "untouched {p. apart staging p} s1 q"
    using create_new_keeps [of "{p. apart staging p}" ?lock s env] file_permissions_keeps [of "{p. apart staging p}" ?lock s1 env] c
    by (auto intro: apart_below)
  then have "untouched {p. apart staging p} s q" by (rule keep.trans)
  ultimately show ?thesis using o u p2 by blast
qed

lemma import_steps:
  assumes "import_bundle env codec store source s = (Inr m, s')" "source \<in> elsewhere store (hd (be_fresh_ids env))"
  shows "\<exists>t q. be_fresh_ids env \<noteq> [] \<and> CHR ''.'' # t \<noteq> METADATA_LOCK_FILE \<and> node_at source (dk_root q) = node_at source (dk_root s) \<and>
    import_bundle_into env codec store source (hd (be_fresh_ids env)) (boxes_directory store @ [CHR ''.'' # t])
      (box_directory store (hd (be_fresh_ids env))) q = (Inr m, s')"
proof -
  define x where "x = hd (be_fresh_ids env)"
  obtain s1 s2 staging s3 u s4 s5 where ids: "be_fresh_ids env \<noteq> []" and st: "ensure_root env (state_root store) s = (Inr (), s1)"
      "secure_directory env (boxes_directory store) s1 = (Inr (), s2)" and t: "temporary_path env store ''importing'' x s2 = (Inr staging, s3)"
    and r: "(if is_ok (fs_metadata env staging (dk_root s3)) then box_remove_managed_directory env staging else lift_eff (Ok ())) s3 = (Inr u, s4)"
    and d: "secure_directory env staging s4 = (Inr (), s5)"
    and run: "import_bundle_into env codec store source x staging (box_directory store x) s5 = (Inr m, s')"
    using assms(1) by (auto simp: import_bundle_def bind_eff_Inr reading_Inr discarded_Inr x_def split: list.splits)
  have src: "source \<in> elsewhere store x" using assms(2) x_def by simp
  obtain n where n: "staging = boxes_directory store @ [''.importing-'' @ x @ ''-'' @ de_process env @ ''-'' @ decimal n]" "dk_root s3 = dk_root s2"
    using t by (auto simp: temporary_path_def bind_eff_Inr fetch_sequence_def)
  define tail where "tail = ''importing-'' @ x @ ''-'' @ de_process env @ ''-'' @ decimal n"
  have staging: "staging = boxes_directory store @ [CHR ''.'' # tail]" and tail: "CHR ''.'' # tail \<noteq> METADATA_LOCK_FILE"
    using n(1) by (simp_all add: tail_def METADATA_LOCK_FILE_def)
  have ap: "apart staging source" unfolding staging by (rule elsewhereD(6) [OF src])
  have "untouched {source} s s1" using ensure_root_keeps [of "{source}" "state_root store" s env] st(1) elsewhereD(1) [OF src] by simp
  moreover have "untouched {source} s1 s2" using secure_directory_keeps [of "{source}" "boxes_directory store" s1 env] st(2) elsewhereD(2) [OF src] by simp
  moreover have "untouched {source} s3 s4"
    using remove_managed_directory_keeps [of "{source}" staging s3 env] r ap by (auto simp: keep.same split: if_splits)
  moreover have "untouched {source} s4 s5" using secure_directory_keeps [of "{source}" staging s4 env] d apart_not_prefix [OF ap] by simp
  ultimately have "node_at source (dk_root s5) = node_at source (dk_root s)" using n(2) by (simp add: untouched_def)
  with ids tail run staging x_def show ?thesis by metis
qed

lemma publish_import_keeps [frames]:
  assumes "\<And>p. p \<in> P \<Longrightarrow> apart staging p" "\<And>p. p \<in> P \<Longrightarrow> apart destination p" "\<And>p. p \<in> P \<Longrightarrow> apart (boxes_directory store @ [METADATA_LOCK_FILE]) p"
  shows "untouched P s (snd (publish_import env store x staging destination m s))"
  unfolding publish_import_def lock_metadata_index_def Let_def using assms by (auto intro!: frames)

lemma import_into_keeps [frames]:
  assumes "\<And>p. p \<in> P \<Longrightarrow> apart staging p" "\<And>p. p \<in> P \<Longrightarrow> apart destination p" "\<And>p. p \<in> P \<Longrightarrow> apart (boxes_directory store @ [METADATA_LOCK_FILE]) p"
  shows "untouched P s (snd (import_bundle_into env codec store source x staging destination s))"
  unfolding import_bundle_into_def Let_def using assms apart_below [OF assms(1)] by (auto intro!: frames split: list.splits sum.splits)

lemma import_keeps:
  "untouched (elsewhere store (hd (be_fresh_ids env))) s (snd (import_bundle env codec store source s))"
  unfolding import_bundle_def
  by (auto intro!: frames simp: elsewhere_simps METADATA_LOCK_FILE_def dest!: temporary_path_Inr split: list.splits)

end
