(* ===== verification/Bundle_Properties.thy ===== *)
theory Bundle_Properties
  imports Bundle_Import
begin

text \<open>
  The properties of bundles: what an import has checked, that a refused bundle leaves nothing behind, and that an exported box
  comes back.
\<close>

section \<open>An imported box was checked\<close>

lemma import_checked:
  assumes "json_roundtrip env" and "\<forall>x \<in> set (be_fresh_ids env). \<not> starts_with ''.'' x"
    and "source \<in> elsewhere store (hd (be_fresh_ids env))" and "node_at source (dk_root s) = Ok (EFile i bundle)"
    and "import_bundle env codec store source s = (Ok m, s')"
  shows "\<exists>e1 e2 e3 manifest m0 k disk now owner allocated.
    uc_entries codec bundle = Ok [Ok e1, Ok e2, Ok e3] \<and> bundle_head env codec e1 e2 e3 manifest m0 \<and>
    node_at (box_directory store (bm_box_id m) @ [ROOT_DISK_FILE]) (dk_root s') = Ok (EFile k disk) \<and> disk_of e3 disk \<and>
    length disk = mf_root_disk_size_bytes manifest \<and> bundle_digest_bytes codec disk = mf_root_disk_sha256 manifest \<and>
    m = imported_metadata (hd (be_fresh_ids env)) now owner allocated m0 \<and>
    recorded (be_parse_box env) store (bm_box_id m) s' = Some (if bm_schema_version m0 < BOX_SCHEMA_VERSION then Dirty else Ready) \<and>
    untouched (elsewhere store (bm_box_id m)) s s'"
proof -
  let ?x = "hd (be_fresh_ids env)"
  obtain t q where ids: "be_fresh_ids env \<noteq> []" and t: "CHR ''.'' # t \<noteq> METADATA_LOCK_FILE"
    and src: "node_at source (dk_root q) = node_at source (dk_root s)"
    and run: "import_bundle_into env codec store source ?x (boxes_directory store @ [CHR ''.'' # t]) (box_directory store ?x) q = (Inr m, s')"
    using import_steps [OF assms(5,3)] by blast
  obtain r r' input e1 e2 e3 manifest m0 where o: "open_regular_file env source (dk_root r) = Inr input"
    and ut: "untouched {p. apart (boxes_directory store @ [CHR ''.'' # t]) p} q r" and es: "uc_entries codec input = Inr [Inr e1, Inr e2, Inr e3]"
    and hd: "bundle_head env codec e1 e2 e3 manifest m0"
    and u: "unpack_disk env codec e3 ((boxes_directory store @ [CHR ''.'' # t]) @ [ROOT_DISK_FILE]) (mf_root_disk_size_bytes manifest) r = (Inr (mf_root_disk_sha256 manifest), r')"
    and p: "publish_import env store ?x (boxes_directory store @ [CHR ''.'' # t]) (box_directory store ?x) m0 r' = (Inr m, s')"
    using import_into_Inr [OF run] by blast
  have "node_at source (dk_root r) = Inr (EFile i bundle)"
    using ut src assms(4) elsewhereD(6) [OF assms(3), of t] by (auto simp: untouched_def)
  then have input: "input = bundle" using o by (auto simp: open_regular_file_def and_then_Inr_iff map_err_Inr_iff)
  obtain k disk where d: "node_at ((boxes_directory store @ [CHR ''.'' # t]) @ [ROOT_DISK_FILE]) (dk_root r') = Inr (EFile k disk)"
    "mf_root_disk_sha256 manifest = bundle_digest_bytes codec disk" "length disk = mf_root_disk_size_bytes manifest" "disk_of e3 disk"
    using unpack_disk_Inr [OF u] by metis
  have x: "\<not> starts_with ''.'' ?x" using assms(2) ids by simp
  obtain now owner allocated k1 js k2 where m: "m = imported_metadata ?x now owner allocated m0"
    and js: "be_box_json env m = Inr js" "node_at (meta_path store ?x) (dk_root s') = Inr (EFile k1 (js @ [10]))"
    and disk: "node_at (disk_path_of store ?x) (dk_root s') = Inr (EFile k2 disk)"
    using publish_import_Inr [OF p x d(1) t] by blast
  have id: "bm_box_id m = ?x" "effective_state m = bm_state m" "bm_state m = (if bm_schema_version m0 < BOX_SCHEMA_VERSION then Dirty else Ready)"
    unfolding m by (simp_all add: imported_metadata_def effective_current)
  have "untouched (elsewhere store (bm_box_id m)) s s'" using import_keeps [of store env s codec source] assms(5) id(1) by simp
  moreover have "recorded (be_parse_box env) store (bm_box_id m) s' = Some (if bm_schema_version m0 < BOX_SCHEMA_VERSION then Dirty else Ready)"
    using recorded_written [OF assms(1) js] unfolding id .
  moreover have "node_at (box_directory store (bm_box_id m) @ [ROOT_DISK_FILE]) (dk_root s') = Ok (EFile k2 disk)"
    using disk unfolding id disk_path_of_def .
  ultimately show ?thesis
    using es [unfolded input] hd d(2) [symmetric] d(3,4) m by (intro exI conjI)
qed

text \<open>
  C15: a box that was imported is what its bundle says: the archive has exactly the three entries, the manifest and the metadata
  are within their limits and valid, the disk has the size and the SHA-256 digest of the manifest, the metadata are those of the
  bundle under a new identifier, and the box is ready only if the metadata have the current schema; otherwise it is
  dirty and will be checked. Everything outside the new box is as it was.
\<close>

theorem import_verified:
  assumes "json_roundtrip env" and "\<forall>x \<in> set (be_fresh_ids env). \<not> starts_with ''.'' x"
    and "source \<in> elsewhere store (hd (be_fresh_ids env))" and "node_at source (dk_root s) = Ok (EFile i bundle)"
    and "import_bundle env codec store source s = (Ok m, s')"
  shows "\<exists>e1 e2 e3 manifest m0 k disk. uc_entries codec bundle = Ok [Ok e1, Ok e2, Ok e3] \<and> bundle_head env codec e1 e2 e3 manifest m0 \<and>
    node_at (box_directory store (bm_box_id m) @ [ROOT_DISK_FILE]) (dk_root s') = Ok (EFile k disk) \<and>
    bundle_digest_bytes codec disk = mf_root_disk_sha256 manifest \<and> length disk = mf_root_disk_size_bytes manifest \<and>
    0 < length disk \<and> length disk \<le> MAX_ROOT_DISK_BYTES \<and> bm_virtual_size_bytes m = length disk \<and>
    bm_box_id m = hd (be_fresh_ids env) \<and> bm_schema_version m = BOX_SCHEMA_VERSION \<and> bm_name m = bm_name m0 \<and> bm_labels m = bm_labels m0 \<and>
    bm_tags m = bm_tags m0 \<and> bm_manifest_digest m = bm_manifest_digest m0 \<and> bm_platform m = bm_platform m0 \<and>
    recorded (be_parse_box env) store (bm_box_id m) s' = Some (if bm_schema_version m0 = BOX_SCHEMA_VERSION then Ready else Dirty) \<and>
    untouched (elsewhere store (bm_box_id m)) s s'"
proof -
  from import_checked [OF assms] obtain e1 e2 e3 manifest m0 k disk now owner allocated where
      c: "uc_entries codec bundle = Ok [Ok e1, Ok e2, Ok e3]" "bundle_head env codec e1 e2 e3 manifest m0"
        "node_at (box_directory store (bm_box_id m) @ [ROOT_DISK_FILE]) (dk_root s') = Ok (EFile k disk)"
        "length disk = mf_root_disk_size_bytes manifest" "bundle_digest_bytes codec disk = mf_root_disk_sha256 manifest"
    and m: "m = imported_metadata (hd (be_fresh_ids env)) now owner allocated m0"
    and r: "recorded (be_parse_box env) store (bm_box_id m) s' = Some (if bm_schema_version m0 < BOX_SCHEMA_VERSION then Dirty else Ready)"
        "untouched (elsewhere store (bm_box_id m)) s s'"
    by metis
  have v: "validate_imported_metadata m0 = Inr ()" "bm_virtual_size_bytes m0 = length disk" using c(2,4) by (simp_all add: bundle_head_def)
  note valid = validate_imported_Inr [OF v(1)]
  have "(if bm_schema_version m0 < BOX_SCHEMA_VERSION then Dirty else Ready) = (if bm_schema_version m0 = BOX_SCHEMA_VERSION then Ready else Dirty)"
    using valid(1) by (auto simp: BOX_SCHEMA_VERSION_def)
  then have st: "recorded (be_parse_box env) store (bm_box_id m) s' = Some (if bm_schema_version m0 = BOX_SCHEMA_VERSION then Ready else Dirty)" using r(1) by simp
  have f: "bm_box_id m = hd (be_fresh_ids env)" "bm_schema_version m = BOX_SCHEMA_VERSION" "bm_name m = bm_name m0" "bm_labels m = bm_labels m0"
    "bm_tags m = bm_tags m0" "bm_manifest_digest m = bm_manifest_digest m0" "bm_platform m = bm_platform m0" "bm_virtual_size_bytes m = length disk"
    using v(2) by (simp_all add: m imported_metadata_def)
  show ?thesis
    using c st r(2) f valid(3,4) v(2) by (intro exI [of _ e1] exI [of _ e2] exI [of _ e3] exI [of _ manifest] exI [of _ m0] exI [of _ k] exI [of _ disk]) simp
qed

theorem import_verified_witness:
  "\<exists>m s. import_bundle bundle_host tiny_tar sample_store [''in.tar''] (bundle_disk sample_archive) = (Ok m, s) \<and>
     (\<exists>k disk. node_at (box_directory sample_store BOX_B @ [ROOT_DISK_FILE]) (dk_root s) = Ok (EFile k disk) \<and> length disk = bm_virtual_size_bytes m) \<and>
     bm_box_id m = BOX_B \<and> untouched (elsewhere sample_store BOX_B) (bundle_disk sample_archive) s"
proof -
  have "is_ok (fst (import_bundle bundle_host tiny_tar sample_store [''in.tar''] (bundle_disk sample_archive)))" by code_simp
  then obtain m s where r: "import_bundle bundle_host tiny_tar sample_store [''in.tar''] (bundle_disk sample_archive) = (Ok m, s)"
    by (cases "import_bundle bundle_host tiny_tar sample_store [''in.tar''] (bundle_disk sample_archive)") (auto simp: is_ok_iff)
  from import_verified [OF sample_json_roundtrip sample_fresh(1) sample_source r] r show ?thesis by (auto simp: sample_fresh(2))
qed

section \<open>A refused bundle leaves nothing\<close>

text \<open>Operations that do not refuse a bundle, and operations that keep some paths when they do.\<close>

definition accepting :: "'a box_op \<Rightarrow> bool" where
  "accepting m \<longleftrightarrow> (\<forall>s why t. m s \<noteq> (Inl (BseInvalidBundle why), t))"

definition dir_at :: "disk_path \<Rightarrow> disk \<Rightarrow> bool" where
  "dir_at d s \<longleftrightarrow> (\<exists>i es. node_at d (dk_root s) = Inr (EDir i es))"

text \<open>Nothing beside a directory has changed, and it is still one.\<close>

definition inside :: "disk_path \<Rightarrow> disk \<Rightarrow> disk \<Rightarrow> bool" where
  "inside d s t \<longleftrightarrow> untouched {p. apart d p} s t \<and> (dir_at d s \<longrightarrow> dir_at d t)"

interpretation inside: eff_relation "inside d" for d
  by unfold_locales (auto simp: inside_def intro: keep.same keep.trans)

definition quiet :: "disk_path \<Rightarrow> 'a box_op \<Rightarrow> bool" where
  "quiet d m \<longleftrightarrow> (\<forall>s why t. m s = (Inl (BseInvalidBundle why), t) \<longrightarrow> inside d s t)"

named_theorems accepts

lemma accepting_bind [accepts]: "accepting m \<Longrightarrow> (\<And>x. accepting (f x)) \<Longrightarrow> accepting (bind_eff m f)"
  unfolding accepting_def bind_eff_Inl by blast

lemma accepting_lift [accepts]: "(\<And>why. r \<noteq> Inl (BseInvalidBundle why)) \<Longrightarrow> accepting (lift_eff r)"
  by (simp add: accepting_def)

lemma accepting_get [accepts]: "accepting (get_eff f)"
  by (simp add: accepting_def)

lemma accepting_io [accepts]: "accepting (box_io m)"
  by (auto simp: accepting_def box_io_def map_err_def split: prod.splits sum.splits)

lemma accepting_reading [accepts]: "(\<And>root why. f root \<noteq> Inl (BseInvalidBundle why)) \<Longrightarrow> accepting (reading f)"
  by (simp add: accepting_def reading_def)

lemma accepting_ensure_root [accepts]: "accepting (ensure_root env p)"
  by (auto simp: accepting_def ensure_root_def map_err_def split: prod.splits sum.splits)

lemma io_accepted [simp]: "map_err BseIo r \<noteq> Inl (BseInvalidBundle why)" "map_err BseJson r' \<noteq> Inl (BseInvalidBundle why)"
  by (auto simp: map_err_def split: sum.splits)

lemma checks_accepted [simp]:
  "validate_directory env p l root \<noteq> Inl (BseInvalidBundle why)" "owner_uid env p root \<noteq> Inl (BseInvalidBundle why)"
  "allocated_size_bytes env p root \<noteq> Inl (BseInvalidBundle why)" "now_unix_millis env \<noteq> Inl (BseInvalidBundle why)"
  "validate_regular_file env p l root \<noteq> Inl (BseInvalidBundle why)"
  by (auto simp: validate_directory_def owner_uid_def allocated_size_bytes_def now_unix_millis_def validate_regular_file_def Let_def
      and_then_Inl_iff split: if_splits)

lemma unique_in_accepted: "ensure_unique_in env store name except root es \<noteq> Inl (BseInvalidBundle why)"
  by (induction env store name except root es rule: ensure_unique_in.induct)
    (auto simp: Let_def and_then_Inl_iff split: option.splits sum.splits if_splits)

lemma unique_accepted [simp]: "ensure_unique_name env store name except root \<noteq> Inl (BseInvalidBundle why)"
  by (auto simp: ensure_unique_name_def unique_in_accepted and_then_Inl_iff split: option.splits)

lemma accepting_fetch [accepts]: "accepting fetch_sequence"
  by (simp add: accepting_def fetch_sequence_def)

lemma accepting_if [accepts]: "accepting a \<Longrightarrow> accepting b \<Longrightarrow> accepting (if c then a else b)"
  by simp

lemmas accepting_defs = secure_directory_def box_remove_managed_directory_def box_write_json_atomic_def write_temporary_def
  syncing_parent_def temporary_path_def lock_metadata_index_def open_lock_file_def Let_def

lemma accepting_ops [accepts]:
  "accepting (secure_directory env p)" "accepting (box_remove_managed_directory env p)" "accepting (temporary_path env store op x)"
  "accepting (lock_metadata_index env store)" "accepting (box_write_json_atomic env p json)" "accepting (syncing_parent env p)"
  unfolding accepting_defs by (auto intro!: accepts)

lemma accepting_publish: "accepting (publish_import env store x staging destination m)"
  unfolding publish_import_def Let_def by (auto intro!: accepts)

lemma quiet_bind: "(\<And>s. inside d s (snd (m s))) \<Longrightarrow> (\<And>x. quiet d (f x)) \<Longrightarrow> quiet d (bind_eff m f)"
  unfolding quiet_def bind_eff_Inl by (metis inside.trans snd_conv)

lemma quiet_accepting: "accepting m \<Longrightarrow> quiet d m"
  by (auto simp: quiet_def accepting_def)

lemma quiet_lift: "quiet d (lift_eff r)"
  by (simp add: quiet_def inside.same)

lemma inside_set_node: "inside d s (set_node (d @ [c]) v s)"
  unfolding inside_def dir_at_def using set_node_parent [of d s _ _ c v] by (auto intro!: set_node_keeps apart_below)

lemma inside_calls:
  "inside d s (snd (fs_create_new env (d @ [c]) s))" "inside d s (snd (set_file_permissions env (d @ [c]) s))" "inside d s (snd (fs_fill env (d @ [c]) r s))"
  by (auto simp: fs_create_new_def set_file_permissions_def fs_set_permissions_def fs_fill_def Let_def inside_set_node inside.same
      split: sum.splits entry.splits)

lemma inside_unpack: "inside d s (snd (unpack_disk env codec e (d @ [c]) n s))"
  unfolding copy_sparse_and_hash_def unpack_gnu_sparse_and_hash_def tar_unpack_def Let_def
  by (auto intro!: inside.bind simp: inside_calls inside.same)

lemma import_into_quiet: "quiet staging (import_bundle_into env codec store source x staging destination)"
  unfolding import_bundle_into_def Let_def
  by (auto intro!: quiet_bind quiet_lift quiet_accepting [OF accepting_publish] inside_unpack
      simp: inside_calls inside.same split: list.splits sum.splits)

lemma discard_staging_gone:
  assumes "dir_at staging s" "staging \<noteq> []" "de_fault env CallMetadata staging = None" "de_fault env CallRemoveAll staging = None"
  shows "\<not> is_ok (node_at staging (dk_root (snd (discard_staging env staging s))))"
proof -
  obtain i es where n: "node_at staging (dk_root s) = Inr (EDir i es)" using assms(1) by (auto simp: dir_at_def)
  have f: "fs_metadata env staging (dk_root s) = Inr (EDir i es)" using n assms(3) by (simp add: fs_metadata_def disk_try_def)
  have "snd (discard_staging env staging s) = set_node staging None s"
    using f n assms(4)
    by (simp add: discard_staging_def ignoring_def box_remove_managed_directory_def validate_directory_def fs_remove_dir_all_def
        is_ok_iff is_dir_def bind_eff_def get_eff_def reading_def box_io_def)
  with removed_gone [OF n assms(2)] show ?thesis by (simp add: is_ok_iff)
qed

lemma secure_directory_dir:
  assumes "secure_directory env (d @ [c]) s = (Inr u, t)"
  shows "dir_at (d @ [c]) t"
proof -
  obtain s1 where v: "validate_directory env (d @ [c]) ''managed directory'' (dk_root s1) = Inr ()"
    and p: "fs_set_permissions env (d @ [c]) MODE_0700 s1 = (Inr (), t)"
    using assms by (auto simp: secure_directory_def set_directory_permissions_def bind_eff_Inr box_io_Inr reading_Inr)
  from permissions_node [OF p] validate_directory_Inr [OF v] show ?thesis by (auto simp: dir_at_def with_mode_def)
qed

text \<open>A refused import got as far as the staging directory.\<close>

lemma refused_steps:
  assumes "import_bundle env codec store source s = (Inl (BseInvalidBundle why), s')"
  shows "\<exists>t q q' x. let staging = boxes_directory store @ [CHR ''.'' # t] in dir_at staging q \<and> inside staging q q' \<and>
    untouched {p. \<not> prefix p (boxes_directory store) \<and> apart staging p} s q \<and> s' = snd (discard_staging env staging q') \<and>
    import_bundle_into env codec store source x staging (box_directory store x) q = (Inl (BseInvalidBundle why), q')"
proof -
  have acc: "(\<exists>x t. m s = (Inr x, t) \<and> f x t = (Inl (BseInvalidBundle why), s'))"
    if "accepting m" "bind_eff m f s = (Inl (BseInvalidBundle why), s')" for m :: "'b box_op" and f :: "'b \<Rightarrow> BoxMetadata box_op" and s
    using that unfolding bind_eff_Inl accepting_def by blast
  have rej: "accepting (reading (reject_symlink_components env source False))" "accepting (reading (validate_regular_file env source ''Box bundle''))"
    by (auto intro!: accepts simp: reject_symlink_components_def Let_def and_then_Inl_iff split: if_splits)
  let ?P = "\<lambda>staging. {p. \<not> prefix p (boxes_directory store) \<and> apart staging p}"
  obtain s1 s2 x staging s3 u s4 s5 where st: "ensure_root env (state_root store) s = (Inr (), s1)"
      "secure_directory env (boxes_directory store) s1 = (Inr (), s2)" and t: "temporary_path env store ''importing'' x s2 = (Inr staging, s3)"
    and r: "(if is_ok (fs_metadata env staging (dk_root s3)) then box_remove_managed_directory env staging else lift_eff (Ok ())) s3 = (Inr u, s4)"
    and d: "secure_directory env staging s4 = (Inr (), s5)"
    and run: "on_error (import_bundle_into env codec store source x staging (box_directory store x)) (discard_staging env staging) s5 = (Inl (BseInvalidBundle why), s')"
    using assms unfolding import_bundle_def
    by (auto dest!: acc [rotated] simp: reading_Inr split: list.splits intro!: accepts rej)
  obtain c where c: "staging = boxes_directory store @ [CHR ''.'' # c]" "dk_root s3 = dk_root s2" using temporary_path_Inr [OF t] by blast
  have "untouched (?P staging) s s1" using ensure_root_keeps [of "?P staging" "state_root store" s env] st(1) by (auto simp: boxes_directory_def)
  moreover have "untouched (?P staging) s1 s2" using secure_directory_keeps [of "?P staging" "boxes_directory store" s1 env] st(2) by auto
  moreover have "untouched (?P staging) s3 s4"
    using remove_managed_directory_keeps [of "?P staging" staging s3 env] r by (auto simp: keep.same split: if_splits)
  moreover have "untouched (?P staging) s4 s5" using secure_directory_keeps [of "?P staging" staging s4 env] d by (auto simp: apart_not_prefix)
  ultimately have "untouched (?P staging) s s5" using c(2) by (simp add: untouched_def)
  moreover have "dir_at staging s5" using secure_directory_dir d unfolding c(1) .
  moreover obtain q where "import_bundle_into env codec store source x staging (box_directory store x) s5 = (Inl (BseInvalidBundle why), q)"
    "s' = snd (discard_staging env staging q)"
    using run by (auto simp: on_error_def split: prod.splits sum.splits)
  moreover from this(1) have "inside staging s5 q" using import_into_quiet unfolding quiet_def by blast
  ultimately show ?thesis unfolding c(1) Let_def by blast
qed





text \<open>
  Garbage collection passes over the staging directory of an import that a crash has left: its name is none of those that the
  collector knows.
\<close>

lemma import_staging_not_collected:
  assumes u: "be_parse_uuid env (''.importing-'' @ r) = None"
    and f: "de_fault env CallEntry (boxes_directory store @ [''.importing-'' @ r]) = None"
  shows "collect_entries env store age ((''.importing-'' @ r, n) # es) report s = collect_entries env store age es report s"
proof -
  define c where "c = ''.importing-'' @ r"
  have "parse_box_artifact_name (be_parse_uuid env) c ''.creating-'' = None"
    "parse_box_artifact_name (be_parse_uuid env) c ''.deleted-'' = None"
    by (simp_all add: c_def parse_box_artifact_name_def artifact_parts_def)
  with u f show ?thesis unfolding c_def [symmetric]
    by (simp add: disk_try_def map_err_def Let_def bind_eff_def lift_eff_def)
qed

end
