(* ===== verification/Bundle_Roundtrip.thy ===== *)
theory Bundle_Roundtrip
  imports Bundle_Properties Checkpoint_Properties
begin

text \<open>
  A box that was exported comes back by an import: the archive is read as it was written, its checks accept it, and the new box
  has the disk and the metadata of the exported one.
\<close>

section \<open>What the libraries promise\<close>

text \<open>The crate \<^verbatim>\<open>tar\<close> reads a sparse entry whose extents are in order, end at the size of the file, and start on blocks in the archive.\<close>

definition sparse_layout :: "nat \<Rightarrow> SparseExtent list \<Rightarrow> bool" where
  "sparse_layout n xs \<longleftrightarrow>
     xs \<noteq> [] \<and> se_offset (last xs) + se_length (last xs) = n \<and> sorted_wrt (\<lambda>x y. se_offset x + se_length x \<le> se_offset y) xs \<and>
     (\<forall>ys x zs. xs = ys @ x # zs \<and> 0 < se_length x \<longrightarrow> 512 dvd sum_list (map se_length ys))"

definition regular_entry :: "string \<Rightarrow> bytes \<Rightarrow> archive_entry \<Rightarrow> bool" where
  "regular_entry path bs e \<longleftrightarrow> te_path e = path \<and> te_kind e = TarRegular \<and> te_size e = length bs \<and> reads_as e bs"

text \<open>An entry is read back as it was appended, followed by the entries behind it.\<close>

definition tar_contract :: "bundle_codec \<Rightarrow> bool" where
  "tar_contract codec \<longleftrightarrow>
     0 < uc_extended_slots codec \<and> uc_entries codec (concat (uc_finish codec)) = Ok [] \<and>
     (\<forall>header path bs writes rest. uc_append_data codec header path bs = Ok writes \<and> rh_size header = length bs \<longrightarrow>
        (\<exists>e. regular_entry path bs e \<and> uc_entries codec (concat writes @ rest) = and_then (uc_entries codec rest) (\<lambda>es. Ok (Ok e # es)))) \<and>
     (\<forall>path bs writes rest. uc_append_path codec path bs = Ok writes \<longrightarrow>
        (\<exists>e. (regular_entry path bs e \<or> te_path e = path \<and> te_kind e = TarSparse \<and> te_size e = length bs \<and> te_unpack e = Ok bs) \<and>
          uc_entries codec (concat writes @ rest) = and_then (uc_entries codec rest) (\<lambda>es. Ok (Ok e # es)))) \<and>
     (\<forall>h headers header stored rest.
        uc_sparse_header codec h = Ok header \<and> chained (sh_is_extended h) headers \<and> length stored = sh_size h \<and>
        sparse_layout (sh_real_size h) (sh_sparse h @ concat (map xh_sparse headers)) \<and>
        sum_list (map se_length (sh_sparse h @ concat (map xh_sparse headers))) = length stored \<longrightarrow>
        (\<exists>e. te_path e = sh_path h \<and> te_kind e = TarSparse \<and> te_size e = sh_real_size h \<and>
          te_unpack e = Ok (expand_sparse (sh_real_size h) (sh_sparse h @ concat (map xh_sparse headers)) stored) \<and>
          uc_entries codec (header @ concat (map (uc_extended_header codec) headers) @ stored @ replicate (sparse_padding (length stored)) 0 @ rest) =
            and_then (uc_entries codec rest) (\<lambda>es. Ok (Ok e # es))))"

text \<open>The serializer and the hash: texts are read back and are not empty, a valid manifest has a short text, a digest has 32 bytes.\<close>

definition text_contract :: "box_env \<Rightarrow> bundle_codec \<Rightarrow> bool" where
  "text_contract env codec \<longleftrightarrow>
     (\<forall>m bs. be_box_json env m = Ok bs \<longrightarrow> bs \<noteq> [] \<and> be_parse_box env bs = Ok m) \<and>
     (\<forall>m bs. uc_manifest_json codec m = Ok bs \<and> manifest_validate m = Ok () \<longrightarrow> uc_parse_manifest codec bs = Ok m \<and> length bs \<le> MAX_MANIFEST_BYTES) \<and>
     (\<forall>bs. length (uc_sha codec bs) = 32)"

text \<open>Data and holes of a file start on blocks.\<close>

definition block_seeks :: "(nat \<Rightarrow> seek_answer) \<Rightarrow> (nat \<Rightarrow> seek_answer) \<Rightarrow> nat \<Rightarrow> bool" where
  "block_seeks seek_data seek_hole n \<longleftrightarrow>
     (\<forall>off d h. (off = 0 \<or> (\<exists>q. seek_hole q = SeekAt off)) \<and> seek_data off = SeekAt d \<and> seek_hole d = SeekAt h \<and> h < n \<longrightarrow> 512 dvd h - d)"

section \<open>The layout of the extents\<close>

text \<open>All but the last length are whole blocks.\<close>

definition whole_blocks :: "SparseExtent list \<Rightarrow> bool" where
  "whole_blocks xs \<longleftrightarrow> (\<forall>x \<in> set (butlast xs). 512 dvd se_length x)"

lemma whole_blocks_Cons: "whole_blocks xs \<Longrightarrow> xs = [] \<or> 512 dvd se_length x \<Longrightarrow> whole_blocks (x # xs)"
  by (auto simp: whole_blocks_def)

lemma sparse_extents_blocks:
  assumes "block_seeks seek_data seek_hole n"
  shows "sparse_extents_from seek_data seek_hole n d stored acc = Inr (stored', acc') \<Longrightarrow>
    (\<exists>off. (off = 0 \<or> (\<exists>q. seek_hole q = SeekAt off)) \<and> seek_data off = SeekAt d) \<Longrightarrow> \<exists>xs. acc' = acc @ xs \<and> whole_blocks xs"
  using assms
proof (induction seek_data seek_hole n d stored acc rule: sparse_extents_from.induct)
  case (1 seek_data seek_hole n d stored acc)
  note [simp] = sparse_extents_from.simps [of seek_data seek_hole n d stored acc]
  show ?case
  proof (cases "d < n")
    case True
    then obtain h where h: "seek_hole d = SeekAt h" using 1(2) by (cases "seek_hole d") auto
    let ?x = "\<lparr>se_offset = d, se_length = h - d\<rparr>"
    have bounds: "d < h" "h \<le> n" "stored + (h - d) \<le> U64_MAX"
      using 1(2) True h by (auto simp: checked_add_def split: if_splits)
    have run: "(if h = n then Ok (stored + (h - d), acc @ [?x]) else (case seek_data h of
          SeekAt e \<Rightarrow> if e > h \<and> e \<le> n then sparse_extents_from seek_data seek_hole n e (stored + (h - d)) (acc @ [?x])
            else Err (DeOther ''root disk sparse data offset did not advance'')
        | SeekNxio \<Rightarrow> Ok (stored + (h - d), acc @ [?x]) | SeekUnsupported e \<Rightarrow> Err e | SeekError e \<Rightarrow> Err e)) = Inr (stored', acc')"
      using 1(2) True h bounds by (simp add: Let_def checked_add_def del: add_diff_assoc)
    show ?thesis
    proof (cases "h < n \<and> (\<exists>e. seek_data h = SeekAt e)")
      case True
      then obtain e where e: "h < n" "seek_data h = SeekAt e" by blast
      with run have e2: "h < e" "e \<le> n"
        and rec: "sparse_extents_from seek_data seek_hole n e (stored + (h - d)) (acc @ [?x]) = Inr (stored', acc')"
        by (auto split: if_splits)
      have "\<exists>xs. acc' = (acc @ [?x]) @ xs \<and> whole_blocks xs"
        by (rule 1(1) [OF _ h _ refl _ _ e(2) _ rec _ 1(4)]) (use bounds e e2 h \<open>d < n\<close> in \<open>auto simp: checked_add_def\<close>)
      then obtain xs where xs: "acc' = (acc @ [?x]) @ xs" "whole_blocks xs" by blast
      have "512 dvd h - d" using 1(3,4) h e(1) unfolding block_seeks_def by blast
      then show ?thesis using xs whole_blocks_Cons [OF xs(2), of ?x] by (intro exI [of _ "?x # xs"]) auto
    next
      case False
      then have "acc' = acc @ [?x]" using run bounds by (cases "seek_data h"; force split: if_splits)
      then show ?thesis by (intro exI [of _ "[?x]"]) (simp add: whole_blocks_def)
    qed
  qed (use 1(2) in \<open>auto simp: whole_blocks_def\<close>)
qed

lemma whole_blocks_sum:
  assumes "whole_blocks xs" "xs @ [end_extent n] = ys @ x # zs" "0 < se_length x"
  shows "512 dvd sum_list (map se_length ys)"
proof -
  have "zs \<noteq> []" using assms(2,3) by (auto simp: end_extent_def)
  then obtain zs' where z: "zs = zs' @ [end_extent n]" using assms(2) by (metis last_ConsR last_appendR last_snoc append_butlast_last_id list.distinct(1))
  then have "xs = ys @ x # zs'" using assms(2) by simp
  then have "\<forall>y \<in> set ys. 512 dvd se_length y" using assms(1) by (auto simp: whole_blocks_def butlast_append)
  then show ?thesis by (induction ys) auto
qed

lemma extents_ok_layout:
  assumes "extents_ok content off xs" "whole_blocks xs" "n = length content"
  shows "sparse_layout n (xs @ [end_extent n])" "sum_list (map se_length (xs @ [end_extent n])) = length (extent_data content (xs @ [end_extent n]))"
proof -
  have s: "sorted_wrt (\<lambda>x y. se_offset x + se_length x \<le> se_offset y) xs"
    using assms(1) by (auto simp: extents_ok_def elim!: sorted_wrt_mono_rel [rotated])
  have b: "\<forall>x \<in> set xs. se_offset x + se_length x \<le> length content" using assms(1) by (simp add: extents_ok_def)
  show "sparse_layout n (xs @ [end_extent n])"
    unfolding sparse_layout_def using s b whole_blocks_sum [OF assms(2)] by (auto simp: sorted_wrt_append end_extent_def assms(3))
  from b show "sum_list (map se_length (xs @ [end_extent n])) = length (extent_data content (xs @ [end_extent n]))"
    by (induction xs) (auto simp: end_extent_def)
qed

lemma find_sparse_map_layout:
  assumes "honest_seeks seek_data seek_hole content" "block_seeks seek_data seek_hole (length content)"
    "find_sparse_map seek_data seek_hole (length content) = Inr (Some m)"
  shows "sparse_layout (length content) (sm_extents m) \<and> sum_list (map se_length (sm_extents m)) = length (extent_data content (sm_extents m))"
proof (cases "seek_data 0")
  case (SeekAt d)
  with assms(3) obtain st xs where r: "sparse_extents_from seek_data seek_hole (length content) d 0 [] = Inr (st, xs)"
    and m: "sm_extents m = xs @ [end_extent (length content)]"
    by (auto simp: find_sparse_map_def and_then_Inr_iff split: if_splits)
  have "extents_ok content d xs" "whole_blocks xs"
    using sparse_extents_exact [OF assms(1) refl r] sparse_extents_blocks [OF assms(2) r] SeekAt by auto
  from extents_ok_layout [OF this refl] show ?thesis unfolding m by blast
next
  case SeekNxio
  then have m: "sm_extents m = [] @ [end_extent (length content)]"
    using assms(3) by (auto simp: find_sparse_map_def split: if_splits)
  have "extents_ok content 0 []" using assms(1) SeekNxio by (intro extents_ok_Nil) (auto simp: honest_seeks_def)
  from extents_ok_layout [OF this _ refl] show ?thesis unfolding m by (simp add: whole_blocks_def)
qed (use assms(3) in \<open>auto simp: find_sparse_map_def split: if_splits\<close>)

section \<open>The archive is read as it was written\<close>

definition disk_entry :: "bytes \<Rightarrow> archive_entry \<Rightarrow> bool" where
  "disk_entry disk e \<longleftrightarrow>
     regular_entry ROOT_DISK_FILE disk e \<or>
     te_path e = ROOT_DISK_FILE \<and> te_kind e = TarSparse \<and> te_size e = length disk \<and> te_unpack e = Ok disk"

lemma disk_entry_disk_of: "disk_entry disk e \<Longrightarrow> disk_of e bs \<Longrightarrow> bs = disk"
  by (auto simp: disk_entry_def regular_entry_def disk_of_def)

lemma data_reads_back:
  assumes "tar_contract codec" "append_bytes codec path bs w = Inr w'"
  shows "\<exists>part. grows part w w' \<and> (\<forall>rest. \<exists>e. regular_entry path bs e \<and> uc_entries codec (part @ rest) = and_then (uc_entries codec rest) (\<lambda>es. Ok (Ok e # es)))"
proof -
  let ?h = "\<lparr>rh_mode = MODE_0600, rh_uid = 0, rh_gid = 0, rh_mtime = 0, rh_size = length bs\<rparr>"
  obtain writes where w: "uc_append_data codec ?h path bs = Inr writes" "grows (concat writes) w w'"
    using append_bytes_extends [OF assms(2)] by blast
  have "rh_size ?h = length bs" by simp
  with assms(1) w(1) have "\<exists>e. regular_entry path bs e \<and> uc_entries codec (concat writes @ rest) = and_then (uc_entries codec rest) (\<lambda>es. Ok (Ok e # es))" for rest
    unfolding tar_contract_def by blast
  with w(2) show ?thesis by blast
qed

lemma sparse_reads_back:
  assumes "tar_contract codec" "honest_seeks seek_data seek_hole disk" "block_seeks seek_data seek_hole (length disk)"
    "find_sparse_map seek_data seek_hole (length disk) = Inr (Some m)" "append_sparse_mapped_file codec disk ROOT_DISK_FILE m w = Inr w'"
  shows "\<exists>part. grows part w w' \<and> (\<forall>rest. \<exists>e. disk_entry disk e \<and> uc_entries codec (part @ rest) = and_then (uc_entries codec rest) (\<lambda>es. Ok (Ok e # es)))"
proof -
  let ?h = "sparse_header_of codec ROOT_DISK_FILE m" and ?x = "extended_headers_of codec m" and ?d = "extent_data disk (sm_extents m)"
  note f = find_sparse_map_exact [OF assms(2,4)] and l = find_sparse_map_layout [OF assms(2,3,4)]
  have slots: "0 < uc_extended_slots codec" using assms(1) by (simp add: tar_contract_def)
  note ext = extended_headers_extents [OF slots, of ROOT_DISK_FILE m]
  obtain header where h: "uc_sparse_header codec ?h = Inr header" and e: "grows (sparse_entry_bytes codec ROOT_DISK_FILE m header ?d) w w'"
    using append_mapped_extends [OF assms(5) f(2)] by blast
  have sizes: "sh_real_size ?h = length disk" "sh_size ?h = length ?d" "sh_path ?h = ROOT_DISK_FILE" using f(1,2) by (simp_all add: sparse_header_of_def)
  have pre: "uc_sparse_header codec ?h = Ok header \<and> chained (sh_is_extended ?h) ?x \<and> length ?d = sh_size ?h \<and>
      sparse_layout (sh_real_size ?h) (sh_sparse ?h @ concat (map xh_sparse ?x)) \<and> sum_list (map se_length (sh_sparse ?h @ concat (map xh_sparse ?x))) = length ?d"
    unfolding ext sizes using h l headers_chained [OF slots, of ROOT_DISK_FILE m] by simp
  have "\<exists>e. disk_entry disk e \<and> uc_entries codec (sparse_entry_bytes codec ROOT_DISK_FILE m header ?d @ rest) = and_then (uc_entries codec rest) (\<lambda>es. Ok (Ok e # es))" for rest
  proof -
    from assms(1) pre obtain e where "te_path e = sh_path ?h" "te_kind e = TarSparse" "te_size e = sh_real_size ?h"
      "te_unpack e = Ok (expand_sparse (sh_real_size ?h) (sh_sparse ?h @ concat (map xh_sparse ?x)) ?d)"
      "uc_entries codec (header @ concat (map (uc_extended_header codec) ?x) @ ?d @ replicate (sparse_padding (length ?d)) 0 @ rest) =
        and_then (uc_entries codec rest) (\<lambda>es. Ok (Ok e # es))"
      unfolding tar_contract_def by blast
    then show ?thesis unfolding ext sizes f(3) by (intro exI [of _ e]) (simp add: disk_entry_def sparse_entry_bytes_def)
  qed
  with e show ?thesis by blast
qed

lemma disk_reads_back:
  assumes "tar_contract codec" "honest_seeks (be_seek_data env p) (be_seek_hole env p) disk" "block_seeks (be_seek_data env p) (be_seek_hole env p) (length disk)"
    "append_sparse_file env codec p disk ROOT_DISK_FILE w = Inr appended"
    "(case appended of Some w \<Rightarrow> Ok w | None \<Rightarrow> and_then (uc_append_path codec ROOT_DISK_FILE disk) (\<lambda>writes. archive_writes writes w)) = Inr w'"
  shows "\<exists>part. grows part w w' \<and> (\<forall>rest. \<exists>e. disk_entry disk e \<and> uc_entries codec (part @ rest) = and_then (uc_entries codec rest) (\<lambda>es. Ok (Ok e # es)))"
proof (cases appended)
  case None
  then obtain writes where w: "uc_append_path codec ROOT_DISK_FILE disk = Inr writes" "archive_writes writes w = Inr w'"
    using assms(5) by (auto simp: and_then_Inr_iff)
  have "\<exists>e. disk_entry disk e \<and> uc_entries codec (concat writes @ rest) = and_then (uc_entries codec rest) (\<lambda>es. Ok (Ok e # es))" for rest
    using assms(1) w(1) unfolding tar_contract_def disk_entry_def by blast
  then show ?thesis using archive_writes_extends [OF w(2)] by blast
next
  case (Some w1)
  then obtain m where "find_sparse_map (be_seek_data env p) (be_seek_hole env p) (length disk) = Inr (Some m)"
    "append_sparse_mapped_file codec disk ROOT_DISK_FILE m w = Inr w'"
    using assms(4,5) by (auto simp: append_sparse_file_def and_then_Inr_iff split: option.splits)
  from sparse_reads_back [OF assms(1,2,3) this] show ?thesis .
qed

lemma archive_reads_back:
  assumes "tar_contract codec" "honest_seeks (be_seek_data env p) (be_seek_hole env p) disk" "block_seeks (be_seek_data env p) (be_seek_hole env p) (length disk)"
    "write_archive env codec mb db p disk = Inr (bundle, n, sha)"
  shows "n = length bundle \<and> sha = bundle_digest_bytes codec bundle \<and>
    (\<exists>e1 e2 e3. uc_entries codec bundle = Ok [Ok e1, Ok e2, Ok e3] \<and> regular_entry MANIFEST_FILE mb e1 \<and> regular_entry METADATA_FILE db e2 \<and> disk_entry disk e3)"
proof -
  obtain w1 w2 appended w3 w4 where a: "append_bytes codec MANIFEST_FILE mb archive_writer_new = Inr w1" "append_bytes codec METADATA_FILE db w1 = Inr w2"
    and d: "append_sparse_file env codec p disk ROOT_DISK_FILE w2 = Inr appended"
      "(case appended of Some w \<Rightarrow> Ok w | None \<Rightarrow> and_then (uc_append_path codec ROOT_DISK_FILE disk) (\<lambda>writes. archive_writes writes w2)) = Inr w3"
    and f: "archive_writes (uc_finish codec) w3 = Inr w4" "archive_writer_finish codec w4 = (bundle, n, sha)"
    using assms(4) by (auto simp: write_archive_def and_then_Inr_iff)
  obtain p1 p2 p3 where p1: "grows p1 archive_writer_new w1" "\<forall>rest. \<exists>e. regular_entry MANIFEST_FILE mb e \<and> uc_entries codec (p1 @ rest) = and_then (uc_entries codec rest) (\<lambda>es. Ok (Ok e # es))"
    and p2: "grows p2 w1 w2" "\<forall>rest. \<exists>e. regular_entry METADATA_FILE db e \<and> uc_entries codec (p2 @ rest) = and_then (uc_entries codec rest) (\<lambda>es. Ok (Ok e # es))"
    and p3: "grows p3 w2 w3" "\<forall>rest. \<exists>e. disk_entry disk e \<and> uc_entries codec (p3 @ rest) = and_then (uc_entries codec rest) (\<lambda>es. Ok (Ok e # es))"
    using data_reads_back [OF assms(1) a(1)] data_reads_back [OF assms(1) a(2)] disk_reads_back [OF assms(1,2,3) d] by blast
  let ?f = "concat (uc_finish codec)"
  have "grows (p1 @ p2 @ p3 @ ?f) archive_writer_new w4"
    by (intro grows_trans [OF p1(1)] grows_trans [OF p2(1)] grows_trans [OF p3(1)] archive_writes_extends [OF f(1)])
  then have w4: "archive_inv w4" "aw_hasher w4 = p1 @ p2 @ p3 @ ?f" 
    using archive_inv_new by (simp_all add: grows_def) (simp add: archive_writer_new_def)
  have b: "bundle = p1 @ p2 @ p3 @ ?f" "n = length bundle" "sha = bundle_digest_bytes codec bundle"
    using archive_writer_finish_exact [OF w4(1), of codec] f(2) w4(2) by auto
  have fin: "uc_entries codec ?f = Ok []" using assms(1) by (simp add: tar_contract_def)
  obtain e3 where e3: "disk_entry disk e3" "uc_entries codec (p3 @ ?f) = and_then (uc_entries codec ?f) (\<lambda>es. Ok (Ok e3 # es))"
    using p3(2) by blast
  obtain e2 where e2: "regular_entry METADATA_FILE db e2"
    "uc_entries codec (p2 @ p3 @ ?f) = and_then (uc_entries codec (p3 @ ?f)) (\<lambda>es. Ok (Ok e2 # es))" using p2(2) by blast
  obtain e1 where e1: "regular_entry MANIFEST_FILE mb e1"
    "uc_entries codec (p1 @ p2 @ p3 @ ?f) = and_then (uc_entries codec (p2 @ p3 @ ?f)) (\<lambda>es. Ok (Ok e1 # es))" using p1(2) by blast
  have "uc_entries codec bundle = Ok [Ok e1, Ok e2, Ok e3]" unfolding b(1) by (simp add: e1(2) e2(2) e3(2) fin)
  then show ?thesis using b(2,3) e1(1) e2(1) e3(1) by blast
qed


section \<open>What an export writes\<close>

text \<open>A file that could be created was not in the way of one that exists.\<close>

lemma create_new_apart:
  assumes "fs_create_new env (d @ [c]) s = (Inr u, t)" "node_at p (dk_root s) = Inr (EFile i bs)"
  shows "apart (d @ [c]) p"
proof -
  obtain j es where dir: "node_at d (dk_root s) = Inr (EDir j es)" and new: "\<not> is_ok (node_at (d @ [c]) (dk_root s))"
    using assms(1) by (auto simp: fs_create_new_def and_then_Inr_iff is_dir_def is_ok_iff split: sum.splits if_splits entry.splits)
  have "\<not> prefix (d @ [c]) p"
  proof
    assume "prefix (d @ [c]) p"
    then obtain r where "p = (d @ [c]) @ r" unfolding prefix_def by blast
    then have "and_then (node_at (d @ [c]) (dk_root s)) (node_at r) = Inr (EFile i bs)" using assms(2) node_at_append by metis
    then show False using new by (auto simp: is_ok_iff and_then_Inr_iff)
  qed
  moreover have "\<not> prefix p (d @ [c])"
  proof
    assume "prefix p (d @ [c])"
    then consider "p = d @ [c]" | "prefix p d" by (auto simp: prefix_snoc)
    then show False
    proof cases
      case 2
      then obtain r where r: "d = p @ r" by (auto simp: prefix_def)
      have "node_at r (EFile i bs) = Inr (EDir j es)" using dir assms(2) unfolding r node_at_append by simp
      then show False by (cases r) auto
    qed (use assms(2) new in \<open>simp add: is_ok_iff\<close>)
  qed
  ultimately show ?thesis by (simp add: apart_def)
qed

lemma hard_link_Inr:
  assumes "fs_hard_link env (d @ [t]) (d @ [c]) s = (Inr u, s')" "node_at (d @ [t]) (dk_root s) = Inr n"
  shows "node_at (d @ [c]) (dk_root s') = Inr n"
proof -
  obtain i es where dir: "node_at d (dk_root s) = Inr (EDir i es)" using node_at_parent assms(2) by blast
  have "s' = set_node (d @ [c]) (Some n) s"
    using assms dir by (auto simp: fs_hard_link_def and_then_def disk_try_def split: sum.splits if_splits option.splits)
  with node_at_change_at [OF dir, of c "Some n"] show ?thesis by (simp add: set_node_def)
qed

lemma link_Inr: "(case r of (Inr _, s') \<Rightarrow> (Ok (), s') | (Inl DeAlreadyExists, s') \<Rightarrow> (Err a, s') | (Inl e, s') \<Rightarrow> (Err (BseIo e), s')) = (Inr u, t) \<longleftrightarrow>
    r = (Inr (), t)" for r :: "(unit, disk_error) result \<times> disk"
  by (auto split: prod.splits sum.splits disk_error.splits)

lemma publish_archive_Inr:
  assumes "publish_archive env codec x (d @ [c]) (d @ [t]) p mb db s = (Inr report, s')" "node_at p (dk_root s) = Inr (EFile i disk)" "c \<noteq> t"
  shows "\<exists>bundle n sha k. write_archive env codec mb db p disk = Inr (bundle, n, sha) \<and> node_at (d @ [c]) (dk_root s') = Inr (EFile k bundle) \<and>
    report = \<lparr>br_box_id = x, br_path = d @ [c], br_size_bytes = n, br_sha256 = sha\<rparr>"
proof -
  obtain s1 s2 content where c1: "fs_create_new env (d @ [t]) s = (Inr (), s1)" "set_file_permissions env (d @ [t]) s1 = (Inr (), s2)"
    and o: "open_source env p (dk_root s2) = Inr content"
    and rest: "bind_eff (fs_fill env (d @ [t]) (and_then (map_err BseIo (write_archive env codec mb db p content)) (\<lambda>(content, _, _). Ok content))) (\<lambda>_.
       bind_eff (lift_eff (map_err BseIo (write_archive env codec mb db p content))) (\<lambda>(_, size_bytes, sha256).
       bind_eff (lift_eff (map_err BseIo (disk_try env CallSync (d @ [t])))) (\<lambda>_.
       bind_eff
         (\<lambda>s. case fs_hard_link env (d @ [t]) (d @ [c]) s of
            (Inr _, s') \<Rightarrow> (Ok (), s')
          | (Inl DeAlreadyExists, s') \<Rightarrow> (Err (BseInvalidPath (d @ [c])), s')
          | (Inl e, s') \<Rightarrow> (Err (BseIo e), s')) (\<lambda>_.
       bind_eff (box_io (fs_remove_file env (d @ [t]))) (\<lambda>_.
       bind_eff (syncing_parent env (d @ [c])) (\<lambda>_.
         lift_eff (Ok \<lparr>br_box_id = x, br_path = d @ [c], br_size_bytes = size_bytes, br_sha256 = sha256\<rparr>))))))) s2 = (Inr report, s')"
    using assms(1) by (auto simp: publish_archive_def Let_def bind_eff_Inr box_io_Inr reading_Inr)
  have ap: "apart (d @ [t]) p" by (rule create_new_apart [OF c1(1) assms(2)])
  have "untouched {p} s s1" "untouched {p} s1 s2"
    using create_new_keeps [of "{p}" "d @ [t]" s env] file_permissions_keeps [of "{p}" "d @ [t]" s1 env] c1 ap by simp_all
  then have "content = disk" using open_source_at [OF _ o] assms(2) by (simp add: untouched_def)
  with rest obtain u3 s3 arch n sha s4 where f: "fs_fill env (d @ [t]) (and_then (map_err BseIo (write_archive env codec mb db p disk)) (\<lambda>(content, _, _). Ok content)) s2 = (Inr u3, s3)"
    and w: "write_archive env codec mb db p disk = Inr (arch, n, sha)" and l: "fs_hard_link env (d @ [t]) (d @ [c]) s3 = (Inr (), s4)"
    and rm: "fs_remove_file env (d @ [t]) s4 = (Inr (), s')" and report: "report = \<lparr>br_box_id = x, br_path = d @ [c], br_size_bytes = n, br_sha256 = sha\<rparr>"
    by (auto simp: bind_eff_Inr box_io_Inr map_err_Inr_iff syncing_parent_def reading_Inr link_Inr)
  obtain k where "node_at (d @ [t]) (dk_root s3) = Inr (EFile k arch)" using fs_fill_Inr [OF f] w by (auto simp: map_err_def)
  from hard_link_Inr [OF l this] have "node_at (d @ [c]) (dk_root s4) = Inr (EFile k arch)" .
  moreover have "untouched {d @ [c]} s4 s'" using remove_file_keeps [of "{d @ [c]}" "d @ [t]" s4 env] rm assms(3) by (simp add: apart_def)
  ultimately show ?thesis using w report by (auto simp: untouched_def)
qed

lemma temporary_bundle_Inr:
  assumes "bundle_temporary_path env (d @ [c]) s = (Inr p, t)"
  shows "\<exists>n. p = d @ [n] \<and> c \<noteq> n \<and> dk_root t = dk_root s"
proof -
  obtain n where p: "p = d @ [''.'' @ c @ ''.'' @ de_process env @ ''-'' @ decimal n @ ''.tmp'']" and t: "dk_root t = dk_root s"
    using assms by (auto simp: bundle_temporary_path_def bind_eff_Inr fetch_sequence_def to_str_def split: option.splits if_splits)
  have "c \<noteq> ''.'' @ c @ ''.'' @ de_process env @ ''-'' @ decimal n @ ''.tmp''"
  proof
    assume "c = ''.'' @ c @ ''.'' @ de_process env @ ''-'' @ decimal n @ ''.tmp''"
    then have "length c = length (''.'' @ c @ ''.'' @ de_process env @ ''-'' @ decimal n @ ''.tmp'')" by (rule arg_cong)
    then show False by simp
  qed
  with p t show ?thesis by blast
qed

lemma export_Inr:
  assumes "export_bundle env codec store x destination s = (Inr report, s')" "node_at (disk_path_of store x) (dk_root s) = Inr (EFile i disk)"
  shows "\<exists>l mb db bundle n sha k. fst (try_acquire env store x s) = Ok l \<and> bm_state (bl_metadata l) = Ready \<and> be_box_json env (bl_metadata l) = Ok db \<and>
    length db \<le> MAX_METADATA_BYTES \<and> length disk \<le> MAX_ROOT_DISK_BYTES \<and>
    uc_manifest_json codec (manifest_for codec db (length disk) (bundle_digest_bytes codec disk)) = Ok mb \<and>
    write_archive env codec mb db (disk_path_of store x) disk = Ok (bundle, n, sha) \<and> node_at destination (dk_root s') = Ok (EFile k bundle) \<and>
    br_size_bytes report = n \<and> br_sha256 report = sha"
proof -
  obtain d c where dest: "destination = d @ [c]"
    using assms(1) by (cases destination rule: rev_cases) (auto simp: export_bundle_def bind_eff_Inr reading_Inr reject_symlink_components_def)
  obtain l t db n digest mb temp t1 where a: "try_acquire env store x s = (Inr l, t)" and st: "bm_state (bl_metadata l) = Ready"
    and db: "be_box_json env (bl_metadata l) = Inr db" "length db \<le> MAX_METADATA_BYTES"
    and h: "bundle_hash_file env codec (bl_disk_path l) (dk_root t) = Inr (n, digest)" "n \<le> MAX_ROOT_DISK_BYTES"
    and mb: "uc_manifest_json codec (manifest_for codec db n digest) = Inr mb" and tp: "bundle_temporary_path env (d @ [c]) t = (Inr temp, t1)"
    and pub: "publish_archive env codec x (d @ [c]) temp (bl_disk_path l) mb db t1 = (Inr report, s')"
    using assms(1) unfolding dest
    by (auto simp: export_bundle_def bind_eff_Inr reading_Inr map_err_Inr_iff invalid_bundle_def Let_def discarded_Inr not_less split: if_splits)
  have p: "bl_disk_path l = disk_path_of store x" using try_acquire_Inr(2) [OF a] by (simp add: disk_path_of_def)
  have d1: "node_at (disk_path_of store x) (dk_root t) = Inr (EFile i disk)"
    using acquire_keeps_disk [of store x s env] a assms(2) by (simp add: untouched_def)
  have n: "n = min (length disk) U64_MAX" "digest = bundle_digest_bytes codec disk" using bundle_hash_file_Inr [OF h(1) [unfolded p] d1] by auto
  then have len: "n = length disk" using h(2) by (simp add: min_def U64_MAX_def MAX_ROOT_DISK_BYTES_def split: if_splits)
  obtain m where m: "temp = d @ [m]" "c \<noteq> m" "dk_root t1 = dk_root t" using temporary_bundle_Inr [OF tp] by blast
  have d2: "node_at (disk_path_of store x) (dk_root t1) = Inr (EFile i disk)" using d1 m(3) by simp
  from publish_archive_Inr [OF pub [unfolded m(1) p] d2 m(2)] a st db h(2) mb n(2) len dest show ?thesis by auto
qed


section \<open>The checks accept an exported bundle\<close>

lemma hex_digits: "length (to_hex bs) = 2 * length bs" "list_all (\<lambda>c. ascii_hexdigit (code c)) (to_hex bs)"
proof -
  show "length (to_hex bs) = 2 * length bs" by (induction bs) (simp_all add: to_hex_def)
  have all: "list_all (\<lambda>c. ascii_hexdigit (code c)) ''0123456789abcdef''" by code_simp
  have "ascii_hexdigit (code (''0123456789abcdef'' ! n))" if "n < 16" for n
  proof -
    have "n < length ''0123456789abcdef''" using that by simp
    from nth_mem [OF this] all show ?thesis unfolding list_all_iff by blast
  qed
  moreover have "unat (drop_bit 4 b) < 16" for b :: "8 word"
    unfolding unat_drop_bit_eq unfolding drop_bit_eq_div using unsigned_less [of b, where 'a = nat] by simp
  ultimately show "list_all (\<lambda>c. ascii_hexdigit (code c)) (to_hex bs)" by (induction bs) (simp_all add: to_hex_def)
qed

lemma digest_valid: "length (uc_sha codec bs) = 32 \<Longrightarrow> bundle_validate_digest (bundle_digest_bytes codec bs) = Ok ()"
  using hex_digits [of "uc_sha codec bs"] by (simp add: bundle_validate_digest_def bundle_digest_bytes_def)

lemma read_to_end_all: "[] \<notin> set chunks \<Longrightarrow> length (concat chunks) \<le> n \<Longrightarrow> read_to_end n (map Ok chunks) = Ok (concat chunks)"
  by (induction chunks arbitrary: n) auto

lemma read_bounded_all: "reads_as e bs \<Longrightarrow> length bs \<le> limit \<Longrightarrow> limit < U64_MAX \<Longrightarrow> read_bounded e limit = Ok bs"
  by (auto simp: reads_as_def read_bounded_def saturating_add_def read_to_end_all map_err_def)

definition sound_metadata :: "BoxMetadata \<Rightarrow> nat \<Rightarrow> bool" where
  "sound_metadata m n \<longleftrightarrow>
     bm_schema_version m = BOX_SCHEMA_VERSION \<and> trim_ws (bm_manifest_digest m) \<noteq> [] \<and> trim_ws (bm_platform m) \<noteq> [] \<and>
     bm_virtual_size_bytes m = n \<and> 0 < n \<and> validate_optional_name (bm_name m) = Ok () \<and> validate_labels (bm_labels m) = Ok () \<and>
     validate_tags (bm_tags m) = Ok ()"

lemma read_metadata_sound:
  assumes "read_box_metadata env (d @ [METADATA_FILE]) x root = Inr (m, b)" "node_at (d @ [ROOT_DISK_FILE]) root = Inr (EFile i disk)"
  shows "sound_metadata m (length disk)"
proof -
  have "file_length env (d @ [ROOT_DISK_FILE]) root = Inr n \<Longrightarrow> n = length disk" for n
    using assms(2) by (auto simp: file_length_def fs_stat_def follow_def and_then_Inr_iff map_err_Inr_iff)
  then show ?thesis
    using assms(1) unfolding read_box_metadata_def Let_def sound_metadata_def
    by (auto simp: and_then_Inr_iff map_err_Inr_iff migrated_metadata_def split: if_splits)
qed

lemma acquired_metadata_sound:
  assumes "fst (try_acquire env store x s) = Ok l" "node_at (disk_path_of store x) (dk_root s) = Inr (EFile i disk)"
  shows "sound_metadata (bl_metadata l) (length disk)"
proof -
  obtain t where a: "try_acquire env store x s = (Inr l, t)" using assms(1) by (cases "try_acquire env store x s") auto
  obtain paths t1 u t2 m b where c: "checked_paths env store x s = (Inr paths, t1)" and o: "open_lock_file env (box_directory store x @ [LOCK_FILE]) t1 = (Inr u, t2)"
    and r: "read_box_metadata env (box_directory store x @ [METADATA_FILE]) x (dk_root t2) = Inr (m, b)" and l: "bl_metadata l = m"
    using a by (auto simp: try_acquire_def bind_eff_Inr reading_Inr dest: checked_paths_Inr(1) split: if_splits)
  have "untouched (vital store x) s t1" using checked_paths_keeps [of "vital store x" store s env x] vital_apart(1) c by (metis snd_conv)
  moreover have "untouched (vital store x) t1 t2"
    using open_lock_file_keeps [of "vital store x" "box_directory store x @ [LOCK_FILE]" t1 env] vital_apart(3) [of _ store x LOCK_FILE] o by auto
  ultimately have "node_at (box_directory store x @ [ROOT_DISK_FILE]) (dk_root t2) = Inr (EFile i disk)"
    using assms(2) by (auto simp: untouched_def vital_def disk_path_of_def)
  from read_metadata_sound [OF r this] l show ?thesis by simp
qed

lemma head_accepted:
  assumes "text_contract env codec" "sound_metadata m (length disk)" "bm_state m = Ready" "be_box_json env m = Ok db" "length db \<le> MAX_METADATA_BYTES"
    "length disk \<le> MAX_ROOT_DISK_BYTES" "manifest = manifest_for codec db (length disk) (bundle_digest_bytes codec disk)" "uc_manifest_json codec manifest = Ok mb"
    and e: "regular_entry MANIFEST_FILE mb e1" "regular_entry METADATA_FILE db e2" "disk_entry disk e3"
  shows "read_bundle_head env codec [Ok e1, Ok e2, Ok e3] = Ok (manifest, m, e3, [])"
proof -
  have db: "db \<noteq> []" "be_parse_box env db = Ok m" and sha: "\<And>bs. length (uc_sha codec bs) = 32" using assms(1,4) by (auto simp: text_contract_def)
  have mv: "manifest_validate manifest = Ok ()"
    using assms(2,5,6) db(1) digest_valid [OF sha] by (simp add: assms(7) manifest_for_def manifest_validate_def sound_metadata_def)
  then have mb: "uc_parse_manifest codec mb = Ok manifest" "length mb \<le> MAX_MANIFEST_BYTES" using assms(1,8) by (auto simp: text_contract_def)
  have r: "read_bounded e1 MAX_MANIFEST_BYTES = Ok mb" "read_bounded e2 MAX_METADATA_BYTES = Ok db"
    using e(1,2) mb(2) assms(5)
    by (auto intro!: read_bounded_all simp: regular_entry_def MAX_MANIFEST_BYTES_def MAX_METADATA_BYTES_def U64_MAX_def)
  have "validate_imported_metadata m = Ok ()"
    using assms(2,3,6) by (cases "bm_disk_format m") (simp add: validate_imported_metadata_def sound_metadata_def)
  moreover have "next_entry MANIFEST_FILE False [Ok e1, Ok e2, Ok e3] = Ok (e1, [Ok e2, Ok e3])" "next_entry METADATA_FILE False [Ok e2, Ok e3] = Ok (e2, [Ok e3])"
    "next_entry ROOT_DISK_FILE True [Ok e3] = Ok (e3, [])" "te_size e2 = length db" "te_size e3 = length disk"
    using e by (auto simp: next_entry_def regular_entry_def disk_entry_def)
  moreover have "mf_metadata_size_bytes manifest = length db" "mf_metadata_sha256 manifest = bundle_digest_bytes codec db"
    "mf_root_disk_size_bytes manifest = length disk" "bm_virtual_size_bytes m = length disk"
    using assms(2) by (simp_all add: assms(7) manifest_for_def sound_metadata_def)
  ultimately show ?thesis using r mb(1) mv db(2) by (simp add: read_bundle_head_def bundle_verify_digest_def map_err_def)
qed


lemma copy_reads_all:
  "[] \<notin> set chunks \<Longrightarrow> so_far + length (concat chunks) \<le> n \<Longrightarrow> n \<le> MAX_ROOT_DISK_BYTES \<Longrightarrow>
     \<exists>out. copy_reads n (map Ok chunks) so_far hasher out0 = Ok (so_far + length (concat chunks), hasher @ concat chunks, out)"
proof (induction chunks arbitrary: so_far hasher out0)
  case (Cons c cs)
  have "n \<le> U64_MAX" using Cons.prems(3) by (simp add: MAX_ROOT_DISK_BYTES_def U64_MAX_def)
  then show ?case
    using Cons.prems Cons.IH [of "so_far + length c" "hasher @ c" "if list_all (\<lambda>b. b = 0) c then out0 else write_at out0 so_far c"]
    by (auto simp: checked_add_def add.assoc)
qed simp

lemma copied_disk_all:
  assumes "reads_as e disk" "length disk \<le> MAX_ROOT_DISK_BYTES"
  shows "\<exists>r. copied_disk codec e (length disk) = Ok r"
proof -
  obtain chunks where c: "te_reads e = map Ok chunks" "[] \<notin> set chunks" "concat chunks = disk" using assms(1) by (auto simp: reads_as_def)
  obtain out where "copy_reads (length disk) (te_reads e) 0 [] [] = Ok (length disk, disk, out)"
    using copy_reads_all [OF c(2), of 0 "length disk" "[]" "[]"] c(1,3) assms(2) by auto
  then show ?thesis by (simp add: copied_disk_def)
qed

lemma fs_fill_error: "fs_fill env p r s = (Inl e, t) \<Longrightarrow> (\<exists>e'. e = BseIo e') \<or> r = Inl e"
  unfolding fs_fill_def Let_def disk_try_def and_then_def map_err_def
  by (cases "node_at p (dk_root s)"; cases "de_fault env CallWrite p"; cases r) (auto split: entry.splits)

lemma fs_fill_accepting: "accepting (fs_fill env p (Inr bs))" "accepting (fs_fill env p (map_err BseIo r))"
  unfolding accepting_def using fs_fill_error [of env p] io_accepted(1) [of r] by fastforce+

lemma accepting_pair [accepts]: "(\<And>a b. accepting (f a b)) \<Longrightarrow> accepting (case x of (a, b) \<Rightarrow> f a b)"
  by (cases x) simp

lemma open_source_accepted [simp]: "open_source env p root \<noteq> Inl (BseInvalidBundle why)"
proof
  assume "open_source env p root = Inl (BseInvalidBundle why)"
  then obtain n where "(case n of EFile _ bs \<Rightarrow> Ok bs | _ \<Rightarrow> Err (BseIo (DeOther ''not a file''))) = Inl (BseInvalidBundle why)"
    by (auto simp: open_source_def and_then_Inl_iff)
  then show False by (cases n) auto
qed

lemma copy_accepting:
  assumes "reads_as e disk" "length disk \<le> MAX_ROOT_DISK_BYTES"
  shows "accepting (copy_sparse_and_hash env codec e p (length disk))"
proof -
  obtain content digest where "copied_disk codec e (length disk) = Inr (content, digest)" using copied_disk_all [OF assms, of codec] by auto
  then have "copy_sparse_and_hash env codec e p (length disk) =
      bind_eff (box_io (fs_create_new env p)) (\<lambda>_. bind_eff (box_io (set_file_permissions env p)) (\<lambda>_.
      bind_eff (fs_fill env p (Inr content)) (\<lambda>_. bind_eff (lift_eff (Inr (content, digest))) (\<lambda>(_, digest).
      bind_eff (lift_eff (map_err BseIo (disk_try env CallSync p))) (\<lambda>_. lift_eff (Ok digest))))))"
    by (simp add: copy_sparse_and_hash_def)
  then show ?thesis by (simp only:) (intro accepts fs_fill_accepting; simp)
qed

lemma unpack_accepting:
  assumes "te_unpack e = Ok disk" "length disk \<le> MAX_ROOT_DISK_BYTES"
  shows "accepting (unpack_gnu_sparse_and_hash env codec e (d @ [c]) (length disk))"
  unfolding accepting_def
proof (intro allI notI)
  fix s why t assume run: "unpack_gnu_sparse_and_hash env codec e (d @ [c]) (length disk) s = (Inl (BseInvalidBundle why), t)"
  have acc: "accepting (tar_unpack env e (d @ [c]))" "accepting (box_io (set_file_permissions env (d @ [c])))"
    "accepting (reading (\<lambda>root. map_err BseIo (fs_open env (d @ [c]) root)))" "accepting (reading (file_length env (d @ [c])))"
    "accepting (lift_eff (map_err BseIo (disk_try env CallSync (d @ [c]))))" "accepting (reading (bundle_hash_file env codec (d @ [c])))"
    by (auto intro!: accepts fs_fill_accepting simp: tar_unpack_def file_length_def bundle_hash_file_def and_then_Inl_iff Let_def)
  have step: "\<exists>x t. m s = (Inr x, t) \<and> f x t = (Inl (BseInvalidBundle why), t')"
    if "accepting m" "bind_eff m f s = (Inl (BseInvalidBundle why), t')" for m :: "'b box_op" and f :: "'b \<Rightarrow> string box_op" and s t'
    using that unfolding bind_eff_Inl accepting_def by blast
  obtain s1 s2 n where u: "tar_unpack env e (d @ [c]) s = (Inr (), s1)" and p: "set_file_permissions env (d @ [c]) s1 = (Inr (), s2)"
    and l: "file_length env (d @ [c]) (dk_root s2) = Inr n"
    and rest: "(if n \<noteq> length disk \<or> n > MAX_ROOT_DISK_BYTES then
         lift_eff (invalid_bundle (''root disk size '' @ decimal n @ '' does not match declared size '' @ decimal (length disk)))
       else
         bind_eff (lift_eff (map_err BseIo (disk_try env CallSync (d @ [c])))) (\<lambda>_.
         bind_eff (reading (bundle_hash_file env codec (d @ [c]))) (\<lambda>(hashed_size, digest).
           if hashed_size \<noteq> length disk then
             lift_eff (invalid_bundle (''root disk size '' @ decimal hashed_size @ '' does not match declared size '' @ decimal (length disk)))
           else lift_eff (Ok digest)))) s2 = (Inl (BseInvalidBundle why), t)"
    using run unfolding unpack_gnu_sparse_and_hash_def by (auto dest!: step [rotated] simp: acc reading_Inr box_io_Inr)
  obtain u1 s0 where "fs_fill env (d @ [c]) (map_err BseIo (te_unpack e)) s0 = (Inr u1, s1)" using u by (auto simp: tar_unpack_def bind_eff_Inr)
  from fs_fill_Inr [OF this] obtain k where "node_at (d @ [c]) (dk_root s1) = Inr (EFile k disk)" using assms(1) by (auto simp: map_err_Inr_iff)
  from file_permissions_file [OF p this] obtain k' where f: "node_at (d @ [c]) (dk_root s2) = Inr (EFile k' disk)" by blast
  have n: "n = length disk" using l f by (auto simp: file_length_def fs_stat_def follow_def and_then_Inr_iff map_err_Inr_iff)
  have hs: "hn = length disk" if "bundle_hash_file env codec (d @ [c]) (dk_root s2) = Inr (hn, digest)" for hn digest
    using bundle_hash_file_Inr(1) [OF that f] assms(2) by (simp add: MAX_ROOT_DISK_BYTES_def U64_MAX_def)
  show False
    using rest [unfolded n] assms(2) hs by (auto dest!: step [rotated] simp: acc reading_Inr split: if_splits)
qed

lemma disk_accepting:
  assumes "disk_entry disk e" "length disk \<le> MAX_ROOT_DISK_BYTES"
  shows "accepting (unpack_disk env codec e (d @ [c]) (length disk))"
  using assms copy_accepting [of e disk] unpack_accepting [of e disk] by (auto simp: disk_entry_def regular_entry_def)


lemma open_regular_accepted [simp]: "open_regular_file env p root \<noteq> Inl (BseInvalidBundle why)"
proof
  assume "open_regular_file env p root = Inl (BseInvalidBundle why)"
  then obtain n where "(case n of EFile _ bs \<Rightarrow> Ok bs | ELink _ _ \<Rightarrow> Err (BseIo (DeOther ''symbolic link'')) | _ \<Rightarrow> Err (BseInvalidPath p)) =
      (Inl (BseInvalidBundle why) :: (bytes, BoxStoreError) result)"
    by (auto simp: open_regular_file_def and_then_Inl_iff)
  then show False by (cases n) auto
qed

lemma import_into_accepted:
  assumes "uc_entries codec arch = Inr es" "read_bundle_head env codec es = Inr (manifest, m, e3, [])" "mf_root_disk_size_bytes manifest = length disk"
    "mf_root_disk_sha256 manifest = bundle_digest_bytes codec disk" "disk_entry disk e3" "length disk \<le> MAX_ROOT_DISK_BYTES"
    "node_at source (dk_root s) = Inr (EFile i arch)" "apart staging source"
  shows "import_bundle_into env codec store source x staging destination s \<noteq> (Inl (BseInvalidBundle why), s')"
proof
  assume run: "import_bundle_into env codec store source x staging destination s = (Inl (BseInvalidBundle why), s')"
  have step: "\<exists>x t. m s = (Inr x, t) \<and> f x t = (Inl (BseInvalidBundle why), t')"
    if "accepting m" "bind_eff m f s = (Inl (BseInvalidBundle why), t')" for m :: "'b box_op" and f :: "'b \<Rightarrow> BoxMetadata box_op" and s t'
    using that unfolding bind_eff_Inl accepting_def by blast
  let ?lock = "staging @ [LOCK_FILE]" and ?disk = "staging @ [ROOT_DISK_FILE]"
  have acc: "accepting (box_io (fs_create_new env ?lock))" "accepting (box_io (set_file_permissions env ?lock))"
    "accepting (lift_eff (map_err BseIo (disk_try env CallLock ?lock)))" "accepting (reading (open_regular_file env source))"
    by (auto intro!: accepts)
  define rest where "rest input = bind_eff (lift_eff (map_err BseIo (uc_entries codec input))) (\<lambda>entries.
      bind_eff (lift_eff (read_bundle_head env codec entries)) (\<lambda>(manifest, m, disk_entry, entries).
      bind_eff (unpack_disk env codec disk_entry ?disk (mf_root_disk_size_bytes manifest)) (\<lambda>digest.
        if digest \<noteq> mf_root_disk_sha256 manifest then lift_eff (invalid_bundle ''root disk SHA-256 does not match the manifest'')
        else
          (case entries of
             Inl e # _ \<Rightarrow> lift_eff (Err (BseIo e))
           | Inr _ # _ \<Rightarrow> lift_eff (invalid_bundle ''bundle contains unexpected extra entries'')
           | [] \<Rightarrow> publish_import env store x staging destination m))))" for input
  have "bind_eff (box_io (fs_create_new env ?lock)) (\<lambda>_. bind_eff (box_io (set_file_permissions env ?lock)) (\<lambda>_.
      bind_eff (lift_eff (map_err BseIo (disk_try env CallLock ?lock))) (\<lambda>_. bind_eff (reading (open_regular_file env source)) rest))) s =
      (Inl (BseInvalidBundle why), s')"
    using run unfolding import_bundle_into_def Let_def rest_def .
  then obtain s1 q input where c: "fs_create_new env ?lock s = (Inr (), s1)" "set_file_permissions env ?lock s1 = (Inr (), q)"
    and o: "open_regular_file env source (dk_root q) = Inr input" and rest: "rest input q = (Inl (BseInvalidBundle why), s')"
    by (auto dest!: step [rotated] simp: acc reading_Inr box_io_Inr)
  have "untouched {source} s s1" "untouched {source} s1 q"
    using create_new_keeps [of "{source}" ?lock s env] file_permissions_keeps [of "{source}" ?lock s1 env] c apart_below [OF assms(8)] by simp_all
  then have "node_at source (dk_root q) = Inr (EFile i arch)" using assms(7) by (simp add: untouched_def)
  then have "input = arch" using o by (auto simp: open_regular_file_def and_then_Inr_iff map_err_Inr_iff)
  with rest have "bind_eff (unpack_disk env codec e3 ?disk (length disk)) (\<lambda>digest.
        if digest \<noteq> bundle_digest_bytes codec disk then lift_eff (invalid_bundle ''root disk SHA-256 does not match the manifest'')
        else publish_import env store x staging destination m) q = (Inl (BseInvalidBundle why), s')"
    by (simp add: rest_def assms(1-4) map_err_def split del: if_split cong: if_cong)
  from step [OF disk_accepting [OF assms(5,6)] this] obtain digest q' where u: "unpack_disk env codec e3 ?disk (length disk) q = (Inr digest, q')"
    and p: "(if digest \<noteq> bundle_digest_bytes codec disk then lift_eff (invalid_bundle ''root disk SHA-256 does not match the manifest'')
        else publish_import env store x staging destination m) q' = (Inl (BseInvalidBundle why), s')"
    by blast
  have "digest = bundle_digest_bytes codec disk" using unpack_disk_Inr [OF u] disk_entry_disk_of [OF assms(5)] by blast
  with p accepting_publish show False by (auto simp: accepting_def)
qed

lemma import_accepted:
  assumes "uc_entries codec arch = Inr es" "read_bundle_head env codec es = Inr (manifest, m, e3, [])" "mf_root_disk_size_bytes manifest = length disk"
    "mf_root_disk_sha256 manifest = bundle_digest_bytes codec disk" "disk_entry disk e3" "length disk \<le> MAX_ROOT_DISK_BYTES"
    "node_at source (dk_root s) = Inr (EFile i arch)" "source \<in> elsewhere store y"
  shows "import_bundle env codec store source s \<noteq> (Inl (BseInvalidBundle why), s')"
proof
  assume "import_bundle env codec store source s = (Inl (BseInvalidBundle why), s')"
  from refused_steps [OF this] obtain t q q' x where
      u: "untouched {p. \<not> prefix p (boxes_directory store) \<and> apart (boxes_directory store @ [CHR ''.'' # t]) p} s q"
    and run: "import_bundle_into env codec store source x (boxes_directory store @ [CHR ''.'' # t]) (box_directory store x) q = (Inl (BseInvalidBundle why), q')"
    unfolding Let_def by blast
  have ap: "apart (boxes_directory store @ [CHR ''.'' # t]) source" by (rule elsewhereD(6) [OF assms(8)])
  then have "node_at source (dk_root q) = Inr (EFile i arch)" using u elsewhereD(2) [OF assms(8)] assms(7) by (simp add: untouched_def)
  from import_into_accepted [OF assms(1-6) this ap] run show False by blast
qed



section \<open>The sample format keeps the contracts\<close>

lemma sample_headers: "chained (sh_is_extended sample_header) headers \<longleftrightarrow> headers = []"
  by (auto simp: chained_def sample_header_def)

lemma sample_tar_contract: "tar_contract tiny_tar"
proof -
  have data: "\<exists>e. regular_entry path bs e \<and> sample_entries (concat writes @ rest) = and_then (sample_entries rest) (\<lambda>es. Ok (Ok e # es))"
    if "uc_append_data tiny_tar header path bs = Ok writes" for header path bs writes rest
    using that sample_entries.simps [of "1 # 7 # rest"] sample_entries.simps [of "2 # 1 # rest"]
    by (intro exI [of _ "sample_regular path bs"])
      (auto simp: tiny_tar_def regular_entry_def sample_regular_def reads_as_def intro!: exI [of _ "[bs]"] split: if_splits)
  have path: "\<exists>e. regular_entry path bs e \<and> sample_entries (concat writes @ rest) = and_then (sample_entries rest) (\<lambda>es. Ok (Ok e # es))"
    if "uc_append_path tiny_tar path bs = Ok writes" for path bs writes rest
    using that sample_entries.simps [of "5 # 0 # 5 # rest"]
    by (intro exI [of _ "sample_regular path bs"])
      (auto simp: tiny_tar_def regular_entry_def sample_regular_def reads_as_def intro!: exI [of _ "[bs]"] split: if_splits)
  have sparse: "\<exists>e. te_path e = sh_path h \<and> te_kind e = TarSparse \<and> te_size e = sh_real_size h \<and>
      te_unpack e = Ok (expand_sparse (sh_real_size h) (sh_sparse h @ concat (map xh_sparse headers)) stored) \<and>
      sample_entries (header @ concat (map (uc_extended_header tiny_tar) headers) @ stored @ replicate (sparse_padding (length stored)) 0 @ rest) =
        and_then (sample_entries rest) (\<lambda>es. Ok (Ok e # es))"
    if "uc_sparse_header tiny_tar h = Ok header" "chained (sh_is_extended h) headers" "length stored = sh_size h" for h headers header stored rest
  proof -
    have h: "h = sample_header" "header = [3]" using that(1) by (auto simp: tiny_tar_def split: if_splits)
    have x: "headers = []" using that(2) h(1) sample_headers by simp
    have "length stored = Suc 0" using that(3) h(1) by (simp add: sample_header_def)
    then obtain b where b: "stored = [b]" by (auto simp: length_Suc_conv)
    have p: "sparse_padding (length stored) = 511" by (simp add: b sparse_padding_def)
    have s: "sample_entries (3 # b # replicate 511 0 @ rest) = and_then (sample_entries rest) (\<lambda>es. Ok (Ok (sample_sparse b) # es))"
      by (subst sample_entries.simps) simp
    show ?thesis
      using s unfolding p by (intro exI [of _ "sample_sparse b"]) (simp add: h x b sample_sparse_def sample_header_def expand_sparse_def numeral_2_eq_2)
  qed
  have last: "sample_entries (concat (uc_finish tiny_tar)) = Ok []" by (simp add: tiny_tar_def sample_entries.simps)
  have ent: "uc_entries tiny_tar = sample_entries" and slots: "0 < uc_extended_slots tiny_tar" by (simp_all add: tiny_tar_def)
  show ?thesis
    unfolding tar_contract_def ent
  proof (intro conjI allI impI)
    fix path bs writes rest assume "uc_append_path tiny_tar path bs = Ok writes"
    from path [OF this] show "\<exists>e. (regular_entry path bs e \<or> te_path e = path \<and> te_kind e = TarSparse \<and> te_size e = length bs \<and> te_unpack e = Ok bs) \<and>
        sample_entries (concat writes @ rest) = and_then (sample_entries rest) (\<lambda>es. Ok (Ok e # es))" by blast
  qed (use slots last data sparse in blast)+
qed

lemma sample_text_contract: "text_contract bundle_host tiny_tar"
  by (auto simp: text_contract_def bundle_host_def bundle_json_def bundle_parse_def tiny_tar_def MAX_MANIFEST_BYTES_def split: if_splits)


end
