(* ===== verification/Spec2Isabelle.thy ===== *)
theory Spec2Isabelle
  imports Lifecycle Output_Buffer Protocol Relay Pool Supervisor Image_Reference Cas Layer Registry_Properties Cache_Properties Base_Properties Bundle_Roundtrip
begin

text \<open>
  Verification of moraebox, a daemonless runtime that starts one fresh microVM per command.

  \<^bold>\<open>The program.\<close> A command line, an SDK and an MCP server turn a request into a run specification
  (\<^verbatim>\<open>moraebox-core\<close>). The runtime (\<^verbatim>\<open>moraebox-runtime\<close>) starts a session for it: a backend spawns the
  sandbox, a driver task supervises it under one deadline, pumps carry its standard streams, and a
  bounded buffer keeps its output. Host and guest talk in framed messages (\<^verbatim>\<open>moraebox-protocol\<close>). A relay
  between the virtual network card and the user-mode network asks a policy engine about every Ethernet
  frame. Root file systems come from OCI images (\<^verbatim>\<open>moraebox-image\<close>): a reference names one, a registry
  client or a local archive puts its blobs into a content-addressed store, and its layers are applied to
  a directory; a pool keeps prepared units ready.

  \<^bold>\<open>Theories and sources.\<close>
  \<^item> \<^verbatim>\<open>Prelude\<close>: machine integers, durations, results, byte strings, ordered maps, the collections of
    simplification rules, and the locale \<^verbatim>\<open>invariant_machine\<close> (operations that keep an invariant keep it
    along every run). \<^verbatim>\<open>Net_Types\<close> and \<^verbatim>\<open>Host_Path\<close>: the parts of the standard library that parse
    addresses, split paths and recognize UTF-8. \<^verbatim>\<open>File_Tree\<close>: the host's files as a map from paths.
  \<^item> \<^verbatim>\<open>Lifecycle\<close> (\<^verbatim>\<open>core/src/state.rs\<close>): the states of a session and its events, one function per arm.
  \<^item> \<^verbatim>\<open>Output_Buffer\<close> (\<^verbatim>\<open>core/src/output.rs\<close>): the retained output with its cursors; the locale
    \<^verbatim>\<open>cursor_log\<close> is what a reader may rely on, interpreted by the buffer.
  \<^item> \<^verbatim>\<open>Run_Spec\<close> (\<^verbatim>\<open>core/src/spec.rs\<close>): the specification and its validation.
  \<^item> \<^verbatim>\<open>Protocol\<close> (\<^verbatim>\<open>protocol/src/lib.rs\<close>): payload checks, framing, the inbound validator, the outbound
    sequence; a stream contract in four states is the abstract specification.
  \<^item> \<^verbatim>\<open>Policy_Config\<close>, \<^verbatim>\<open>Policy_Packet\<close>, \<^verbatim>\<open>Policy_Dns\<close>, \<^verbatim>\<open>Policy_Tls\<close>, \<^verbatim>\<open>Policy_Engine\<close>
    (\<^verbatim>\<open>runtime/src/libkrun/policy.rs\<close>): rules, parsers and the engine; \<^verbatim>\<open>Policy_Safety\<close> has its invariant and
    \<^verbatim>\<open>Policy_Properties\<close> what may leave the sandbox. \<^verbatim>\<open>Relay\<close> (\<^verbatim>\<open>runtime/src/libkrun/network.rs\<close>): the relay
    loop, published ports and the bounded log tail.
  \<^item> \<^verbatim>\<open>Pool\<close> (\<^verbatim>\<open>runtime/src/pool.rs\<close>): the prepared pool behind the locale \<^verbatim>\<open>lossy_queue\<close>. \<^verbatim>\<open>Budget\<close>
    (\<^verbatim>\<open>runtime/src/budget.rs\<close>): the deadline and the record of stages; its three ways to run a stage
    interpret the locale \<^verbatim>\<open>stage_runner\<close>.
  \<^item> \<^verbatim>\<open>Environment\<close>, \<^verbatim>\<open>Backend\<close>, \<^verbatim>\<open>Session\<close>, \<^verbatim>\<open>Supervisor\<close> (\<^verbatim>\<open>runtime/src/environment.rs\<close>, \<^verbatim>\<open>backend.rs\<close>,
    \<^verbatim>\<open>process.rs\<close>, \<^verbatim>\<open>session.rs\<close>, \<^verbatim>\<open>trace.rs\<close>, \<^verbatim>\<open>supervisor.rs\<close>): the process backend, the driver loop with one
    step per branch of its \<^verbatim>\<open>select!\<close>, the pumps, and the report of a one-shot run.
  \<^item> \<^verbatim>\<open>Image_Reference\<close>, \<^verbatim>\<open>Cas\<close>, \<^verbatim>\<open>Layer\<close> (\<^verbatim>\<open>image/src/reference.rs\<close>, \<^verbatim>\<open>cas.rs\<close>, \<^verbatim>\<open>layer.rs\<close>): references,
    the content store and the application of layers.
  \<^item> \<^verbatim>\<open>Effects\<close>: the shape of the code that talks to a changing world, a function from the world to a
    result and the world left behind, failures included; the locale \<^verbatim>\<open>eff_relation\<close> carries a relation
    between the worlds before and after through sequencing and loops.
  \<^item> \<^verbatim>\<open>Registry_Auth\<close>, \<^verbatim>\<open>Registry_Pull\<close> (\<^verbatim>\<open>image/src/registry.rs\<close>): challenges, tokens, redirects, retries and
    the download of manifests and blobs; the world is the log of requests and pauses with the content
    store. \<^verbatim>\<open>Registry_Properties\<close> interprets \<^verbatim>\<open>pull_relation\<close> three times: for the store, for the requests
    and for the pauses.
  \<^item> \<^verbatim>\<open>Disk\<close>: the host's directory tree with the calls of \<^verbatim>\<open>std::fs\<close> on it, each of which may fail as the
    environment says. \<^verbatim>\<open>Cache\<close> (\<^verbatim>\<open>image/src/cache.rs\<close>, \<^verbatim>\<open>metadata.rs\<close>, \<^verbatim>\<open>storage.rs\<close>): the operations of the image cache
    on that tree; \<^verbatim>\<open>Cache_Properties\<close> what pruning, removal and the atomic writes keep.
  \<^item> \<^verbatim>\<open>Disk_Frame\<close>: what a call leaves alone (\<open>untouched\<close>, \<open>apart\<close>) and the interpretations of \<open>eff_relation\<close> that carry it
    through an operation; the cache and the boxes both rest on it.
  \<^item> \<^verbatim>\<open>Storage_Root\<close> (\<^verbatim>\<open>core/src/storage.rs\<close>): where the directories are, and the check of a storage root.
  \<^item> \<^verbatim>\<open>Box_Metadata\<close>, \<^verbatim>\<open>Box_Files\<close>, \<^verbatim>\<open>Box_Store\<close> (\<^verbatim>\<open>moraebox-box/src/lib.rs\<close> and the copying part of \<^verbatim>\<open>disk.rs\<close>): the
    metadata with its validation, the files and locks of a box, and every operation of the store: create, clone,
    get, list, update, reset, delete, repair, garbage collection, leases and the state of a box. \<^verbatim>\<open>Box_Run\<close>
    (\<^verbatim>\<open>runtime/src/libkrun.rs\<close>, \<^verbatim>\<open>libkrun/root.rs\<close>): how a run takes a box, checks it, marks it and gives it back.
  \<^item> \<^verbatim>\<open>Box_Frame\<close>, \<^verbatim>\<open>Box_Isolation\<close>, \<^verbatim>\<open>Box_Copy\<close>, \<^verbatim>\<open>Box_Ready\<close>, \<^verbatim>\<open>Box_Life\<close> and \<^verbatim>\<open>Box_Properties\<close>: what these operations
    leave alone, the copy of a disk, which of them can make a box ready, the step relation \<open>box_history\<close> of
    commands, runs and crashes, and the contents of a new box; \<^verbatim>\<open>Box_Sample\<close> holds the host of the witnesses.
  \<^item> \<^verbatim>\<open>Checkpoint\<close> (\<^verbatim>\<open>moraebox-box/src/checkpoint.rs\<close>) and \<^verbatim>\<open>Base_Disk\<close> (the rest of \<^verbatim>\<open>disk.rs\<close>): checkpoints and
    forks, base disks and the disks of sessions; \<^verbatim>\<open>Checkpoint_Properties\<close> and \<^verbatim>\<open>Base_Properties\<close> what is shown of them.
  \<^item> \<^verbatim>\<open>Bundle\<close> (\<^verbatim>\<open>moraebox-box/src/bundle.rs\<close>): the export of a box to an archive, with its writer of sparse files, and
    the import with its checks. \<^verbatim>\<open>Bundle_Archive\<close> shows what the archive holds, \<^verbatim>\<open>Bundle_Import\<close> and \<^verbatim>\<open>Bundle_Properties\<close>
    what an import accepts, publishes and leaves behind, \<^verbatim>\<open>Bundle_Roundtrip\<close> that an exported box comes back; the
    contracts of the tar crate and of the serializer stand there. \<^verbatim>\<open>Bundle_Sample\<close> is a small archive format that keeps them.

  \<^bold>\<open>State and effects.\<close> A struct is a record and an enum a datatype with the source's fields and
  constructors; \<^verbatim>\<open>Result\<close> is a sum with the error on the left; a method that changes its receiver returns
  the changed record; a panic is a value (\<^const>\<open>None\<close> or a constructor). \<^verbatim>\<open>u8\<close>, \<^verbatim>\<open>u16\<close> and \<^verbatim>\<open>u32\<close> of packets
  are words; \<^verbatim>\<open>u64\<close> and \<^verbatim>\<open>usize\<close> are naturals below \<open>2 ^ 64\<close> with wrapping, checked and saturating
  operations written out. Tasks are modelled by the events they deliver: the session driver takes one
  event per turn, in any order that the guards of \<^verbatim>\<open>select!\<close> allow.

  \<^bold>\<open>What is shown.\<close> For the network policy: no frame leaves the sandbox in allowlist mode but those the
  rules allow, from the validated specification down to the frames the relay sends; every table
  of the engine stays within its limit; the parsers end on every input and their verdicts are final.
  For the protocol: the validator accepts exactly the streams of the contract, and what the
  sender frames is read back. For sessions: the driver panics in exactly one situation, teardown always
  ends, the input arrives in order, and the report of a run hides no failure. For images: a
  layer changes nothing outside its root, the store publishes only what has the digest it stands under,
  references print and parse back. For the buffers, the pool and the budget: refinement of a log, of
  bounded queues and of a bracketed record.
  For the registry: after a pull that succeeds everything the image names is in the store, each blob
  under the digest of its bytes; a password or a token goes only to the registry's host or to a realm the
  code trusts; the retry loops end within their attempts and never reach their \<^verbatim>\<open>unreachable!\<close>. For the
  cache: pruning never touches what a complete root file system needs, removal leaves the records that the
  target does not name and their root file systems alone, an interrupted metadata write leaves the old content
  or the new one unless the second rename of the code fails too, and a default that was set is read back.
  For boxes: a command touches neither the boxes it is not aimed at nor a box that a run holds; in every
  history of commands, runs, failures and crashes a box whose disk a guest has written is not recorded as ready
  until its file system was checked or its disk was replaced, and a run gets a disk only after it was recorded
  as dirty; a new box holds the bytes of its source, and the copy by extents is exact; an accepted storage root
  is a private directory. A checkpoint never changes until it is deleted, and a fork holds what the source held when
  the checkpoint was taken; the disk of a session starts as its base disk and leaves nothing behind. An imported
  box was checked against its manifest, a refused bundle leaves nothing, and a box survives export and import byte for
  byte. The lemma \<open>clone_of_dirty_box\<close> shows a gap: the clone of a dirty box is ready.

  \<^bold>\<open>Loops and fuel.\<close> Loops that follow a list are primitive recursions; the others are functions with a
  measure: the unread part of a message (DNS names also carry the number of pointers that may still
  be followed, 16 as in the code), the bytes of a header, the staging names that exist. Trimming white space
  takes the length of the text as fuel, one character per step at most. Retry loops count their
  attempts down from the code's constant, and the case of no attempts left is the code's
  \<^verbatim>\<open>unreachable!\<close>. The copy of a disk by extents gets one turn more than the disk has bytes, which is
  enough because a hole lies behind the offset it was asked for.

  \<^bold>\<open>Parameters.\<close> The protobuf codec, the tar reader and the decompressors, the hash, the URL, date and JSON
  parsers, the HTTP client, the clock and the operating system are arguments of the definitions that use
  them; what a theorem needs of them is a hypothesis of its statement.

  \<^bold>\<open>Not modelled.\<close> The rest of the microVM backend, the VMM helper and the guest agent, which are foreign
  calls, sockets and disk images around the components above; the doctor, which probes the host; local image sources, the extraction of root file
  systems and the construction of the HTTP client; workspaces; the command line, the MCP server and the SDK,
  which parse arguments, call the components and print. The code for Windows is left out. Locks are the scope
  of an operation: an operation runs as one sequence of calls between the acquisition of its lock and its
  return, and a lock that another process holds is a failing call. Random identifiers and clocks are parameters,
  and the serializers are left out where they only rename fields. The text of an error that comes from the
  operating system or a library is a constructor or a short text.
\<close>

end
